(* ===== verification/Prelude.thy ===== *)
theory Prelude
  imports Complex_Main "HOL-Library.AList" "HOL-Library.Product_Lexorder"
begin

text \<open>
  Shared vocabulary of the development: moments and durations, identifiers, JSON values,
  Python's \<open>dict\<close>, \<open>str.strip\<close>, \<open>sorted\<close> and exceptions that leave a state behind, together
  with the generic lemmas the component theories lean on.

  Moments are integers counting microseconds since the epoch, the resolution of Python's
  \<open>datetime\<close>; durations are differences of moments. A naive (zone-less) datetime has no
  counterpart: every moment of the model is absolute, as the constructors of the code demand.
\<close>

section \<open>Moments, identifiers, JSON\<close>

type_synonym moment = int
type_synonym duration = int

abbreviation seconds :: "int \<Rightarrow> duration" where
  "seconds n \<equiv> n * 1000000"

text \<open>
  \<open>int(delta.total_seconds() * 1000)\<close>: whole milliseconds, truncated towards zero. The float
  product of the source is taken exactly.
\<close>

definition whole_ms :: "duration \<Rightarrow> int" where
  "whole_ms d = (if 0 \<le> d then d div 1000 else - ((- d) div 1000))"

lemma whole_ms_mono: "a \<le> b \<Longrightarrow> whole_ms a \<le> whole_ms b"
proof -
  assume le: "a \<le> b"
  have "0 \<le> (- a) div 1000" if "a < 0" using that by simp
  moreover have "(- b) div 1000 \<le> (- a) div 1000" using le by (intro zdiv_mono1) simp_all
  moreover have "a div 1000 \<le> b div 1000" using le by (intro zdiv_mono1) simp_all
  moreover have "0 \<le> b div 1000" if "0 \<le> b" using that by simp
  ultimately show ?thesis using le by (auto simp: whole_ms_def)
qed

text \<open>
  A UUID is its 128-bit number. Its canonical text is fixed-width lower-case hexadecimal, so
  comparing texts (\<open>key=str\<close>) and comparing numbers agree.
\<close>

type_synonym uuid = nat

datatype json =
    JNull
  | JBool bool
  | JInt int
  | JFloat rat
  | JStr string
  | JArr "json list"
  | JObj "(string \<times> json) list"

type_synonym json_object = "(string \<times> json) list"

text \<open>Python truth of a decoded JSON value.\<close>

fun truthy :: "json \<Rightarrow> bool" where
  "truthy JNull = False"
| "truthy (JBool b) = b"
| "truthy (JInt i) = (i \<noteq> 0)"
| "truthy (JFloat x) = (x \<noteq> 0)"
| "truthy (JStr s) = (s \<noteq> [])"
| "truthy (JArr xs) = (xs \<noteq> [])"
| "truthy (JObj kvs) = (kvs \<noteq> [])"

section \<open>Operations that may raise\<close>

text \<open>
  A method that mutates its object and may raise returns the object it leaves behind together
  with the exception or the returned value: Python keeps the mutations made before a \<open>raise\<close>.
\<close>

type_synonym ('s, 'e, 'a) outcome = "'s \<times> ('e + 'a)"

definition bind_outcome ::
  "('s, 'e, 'a) outcome \<Rightarrow> ('s \<Rightarrow> 'a \<Rightarrow> ('s, 'e, 'b) outcome) \<Rightarrow> ('s, 'e, 'b) outcome" where
  "bind_outcome r f = (case r of (s, Inl e) \<Rightarrow> (s, Inl e) | (s, Inr a) \<Rightarrow> f s a)"

lemma bind_outcome_simps [simp]:
  "bind_outcome (s, Inl e) f = (s, Inl e)"
  "bind_outcome (s, Inr a) f = f s a"
  by (simp_all add: bind_outcome_def)

text \<open>Sequencing of computations that may raise and leave nothing behind.\<close>

definition bind_sum :: "'e + 'a \<Rightarrow> ('a \<Rightarrow> 'e + 'b) \<Rightarrow> 'e + 'b" where
  "bind_sum m f = (case m of Inl e \<Rightarrow> Inl e | Inr a \<Rightarrow> f a)"

lemma bind_sum_simps [simp]: "bind_sum (Inl e) f = Inl e" "bind_sum (Inr a) f = f a"
  by (simp_all add: bind_sum_def)

lemma bind_sum_Inr_iff: "bind_sum m f = Inr b \<longleftrightarrow> (\<exists>a. m = Inr a \<and> f a = Inr b)"
  by (cases m) simp_all

lemma bind_sum_Inl_iff: "bind_sum m f = Inl e \<longleftrightarrow> m = Inl e \<or> (\<exists>a. m = Inr a \<and> f a = Inl e)"
  by (cases m) auto

text \<open>A method whose partial effect is discarded when it raises: only the final object matters.\<close>

definition settled :: "('s, 'e, 'a) outcome \<Rightarrow> 'e + 's" where
  "settled r = (case r of (s, Inl e) \<Rightarrow> Inl e | (s, Inr a) \<Rightarrow> Inr s)"

lemma settled_simps [simp]: "settled (s, Inl e) = Inl e" "settled (s, Inr a) = Inr s"
  by (simp_all add: settled_def)

lemma settled_Inr_iff: "settled r = Inr s \<longleftrightarrow> (\<exists>a. r = (s, Inr a))"
  by (cases r; cases "snd r") (auto simp: settled_def)

text \<open>What \<open>x or y\<close> does on an optional object (every object of the model is truthy).\<close>

fun or_else :: "'a option \<Rightarrow> 'a \<Rightarrow> 'a" where
  "or_else None y = y"
| "or_else (Some x) y = x"

lemma or_else_case: "or_else x y = (case x of None \<Rightarrow> y | Some z \<Rightarrow> z)"
  by (cases x) simp_all

section \<open>Text\<close>

text \<open>
  \<open>str.strip\<close> removes white space at both ends. A character is a code point below 256; the
  white space among those is \<open>\t\n\v\f\r\<close>, the four separators 28 to 31, the blank, NEL and the
  no-break space.
\<close>

definition py_isspace :: "char \<Rightarrow> bool" where
  "py_isspace c \<longleftrightarrow> (let n = (of_char c :: nat) in
     (9 \<le> n \<and> n \<le> 13) \<or> (28 \<le> n \<and> n \<le> 32) \<or> n = 133 \<or> n = 160)"

definition strip :: "string \<Rightarrow> string" where
  "strip s = rev (dropWhile py_isspace (rev (dropWhile py_isspace s)))"

lemma strip_Nil [simp]: "strip [] = []"
  by (simp add: strip_def)

lemma dropWhile_dropWhile [simp]: "dropWhile P (dropWhile P xs) = dropWhile P xs"
  by (induction xs) auto

lemma dropWhile_rev_dropWhile:
  "dropWhile P (rev (dropWhile P (rev (dropWhile P xs)))) = rev (dropWhile P (rev (dropWhile P xs)))"
proof (cases "dropWhile P xs")
  case (Cons y ys)
  then have "\<not> P y" by (metis hd_dropWhile list.distinct(1) list.sel(1))
  with Cons show ?thesis by (simp add: dropWhile_append)
qed (metis dropWhile.simps(1) rev.simps(1))

lemma strip_strip [simp]: "strip (strip s) = strip s"
  by (simp add: strip_def dropWhile_rev_dropWhile)

lemma strip_eq_Nil_iff: "strip s = [] \<longleftrightarrow> (\<forall>c \<in> set s. py_isspace c)"
proof -
  have "strip s = [] \<longleftrightarrow> (\<forall>c \<in> set (dropWhile py_isspace s). py_isspace c)"
    by (simp add: strip_def)
  also have "\<dots> \<longleftrightarrow> dropWhile py_isspace s = []"
  proof
    assume all: "\<forall>c \<in> set (dropWhile py_isspace s). py_isspace c"
    show "dropWhile py_isspace s = []"
    proof (rule ccontr)
      assume ne: "dropWhile py_isspace s \<noteq> []"
      then have "\<not> py_isspace (hd (dropWhile py_isspace s))" by (rule hd_dropWhile)
      with all ne show False by simp
    qed
  next
    assume "dropWhile py_isspace s = []"
    then show "\<forall>c \<in> set (dropWhile py_isspace s). py_isspace c" by (metis empty_iff list.set(1))
  qed
  finally show ?thesis by (simp add: dropWhile_eq_Nil_conv)
qed

text \<open>Decimal rendering of an integer, as \<open>str\<close> and f-strings write it.\<close>

fun show_nat :: "nat \<Rightarrow> string" where
  "show_nat n = (if n < 10 then [char_of (48 + n)] else show_nat (n div 10) @ [char_of (48 + n mod 10)])"

declare show_nat.simps [simp del]

definition show_int :: "int \<Rightarrow> string" where
  "show_int i = (if i < 0 then ''-'' @ show_nat (nat (- i)) else show_nat (nat i))"

section \<open>Dictionaries\<close>

text \<open>
  A \<open>dict\<close> is an association list in insertion order. Assigning a present key keeps its
  position, a new key goes to the end, \<open>pop\<close> and \<open>del\<close> drop the entry.
\<close>

type_synonym ('k, 'v) dict = "('k \<times> 'v) list"

abbreviation dict_get :: "('k, 'v) dict \<Rightarrow> 'k \<Rightarrow> 'v option" where
  "dict_get d k \<equiv> map_of d k"

abbreviation dict_set :: "'k \<Rightarrow> 'v \<Rightarrow> ('k, 'v) dict \<Rightarrow> ('k, 'v) dict" where
  "dict_set k v d \<equiv> AList.update k v d"

abbreviation dict_pop :: "'k \<Rightarrow> ('k, 'v) dict \<Rightarrow> ('k, 'v) dict" where
  "dict_pop k d \<equiv> AList.delete k d"

abbreviation dict_keys :: "('k, 'v) dict \<Rightarrow> 'k list" where
  "dict_keys d \<equiv> map fst d"

abbreviation dict_wf :: "('k, 'v) dict \<Rightarrow> bool" where
  "dict_wf d \<equiv> distinct (map fst d)"

lemma dict_get_set [simp]:
  "dict_get (dict_set k v d) k' = (if k' = k then Some v else dict_get d k')"
  by (simp add: update_conv')

lemma dict_get_pop [simp]:
  "dict_get (dict_pop k d) k' = (if k' = k then None else dict_get d k')"
  by (simp add: delete_conv')

lemma dict_wf_set [simp]: "dict_wf d \<Longrightarrow> dict_wf (dict_set k v d)"
  by (rule distinct_update)

lemma dict_wf_pop [simp]: "dict_wf d \<Longrightarrow> dict_wf (dict_pop k d)"
  by (rule distinct_delete)

lemma dict_wf_mem_iff: "dict_wf d \<Longrightarrow> (k, v) \<in> set d \<longleftrightarrow> dict_get d k = Some v"
  by (auto intro: map_of_SomeD)

lemma length_dict_pop_le: "length (dict_pop k d) \<le> length d"
  by (rule length_delete_le)

lemma length_dict_pop_less: "k \<in> fst ` set d \<Longrightarrow> length (dict_pop k d) < length d"
proof (induction d)
  case (Cons p d)
  show ?case
  proof (cases "fst p = k")
    case True
    then show ?thesis using length_delete_le [of k d] by (cases p) (auto simp: le_imp_less_Suc)
  next
    case False
    with Cons show ?thesis by (cases p) auto
  qed
qed simp

section \<open>Sorting\<close>

text \<open>
  \<open>sorted(xs, key=f)\<close> is the stable \<^const>\<open>sort_key\<close>; with \<open>reverse=True\<close> equal elements keep
  their order too.
\<close>

abbreviation py_sorted :: "('a \<Rightarrow> 'k::linorder) \<Rightarrow> 'a list \<Rightarrow> 'a list" where
  "py_sorted f xs \<equiv> sort_key f xs"

definition py_sorted_reverse :: "('a \<Rightarrow> 'k::linorder) \<Rightarrow> 'a list \<Rightarrow> 'a list" where
  "py_sorted_reverse f xs = rev (sort_key f (rev xs))"

lemma set_py_sorted_reverse [simp]: "set (py_sorted_reverse f xs) = set xs"
  by (simp add: py_sorted_reverse_def)

lemma py_sorted_reverse_eq_Nil [simp]: "py_sorted_reverse f xs = [] \<longleftrightarrow> xs = []"
  by (simp add: py_sorted_reverse_def) (metis length_0_conv length_rev length_sort)

lemma sort_key_eq_Nil [simp]: "sort_key f xs = [] \<longleftrightarrow> xs = []"
  by (metis length_0_conv length_sort)

lemma hd_sort_key_min:
  assumes "xs \<noteq> []" and "x \<in> set xs"
  shows "f (hd (sort_key f xs)) \<le> f x"
proof -
  obtain y ys where s: "sort_key f xs = y # ys"
    using assms(1) by (cases "sort_key f xs") auto
  have "sorted (map f (y # ys))"
    using sorted_sort_key [of f xs] by (simp add: s)
  moreover have "x \<in> set (y # ys)"
    using assms(2) by (metis s set_sort)
  ultimately show ?thesis by (auto simp: s)
qed

lemma hd_sort_key_in: "xs \<noteq> [] \<Longrightarrow> hd (sort_key f xs) \<in> set xs"
  by (metis hd_in_set set_sort sort_key_eq_Nil)

lemma sorted_map_last_max: "sorted (map f xs) \<Longrightarrow> x \<in> set xs \<Longrightarrow> f x \<le> f (last xs)"
  by (induction xs rule: rev_induct) (auto simp: sorted_append)

lemma hd_py_sorted_reverse_max:
  assumes "x \<in> set xs"
  shows "f x \<le> f (hd (py_sorted_reverse f xs))"
proof -
  have "f x \<le> f (last (sort_key f (rev xs)))"
    by (rule sorted_map_last_max) (use assms in simp_all)
  moreover have "sort_key f (rev xs) \<noteq> []" using assms by auto
  ultimately show ?thesis by (simp add: py_sorted_reverse_def hd_rev)
qed

lemma hd_py_sorted_reverse_in: "xs \<noteq> [] \<Longrightarrow> hd (py_sorted_reverse f xs) \<in> set xs"
  by (metis hd_in_set py_sorted_reverse_eq_Nil set_py_sorted_reverse)

end
