(* ===== verification/Enums.thy ===== *)
theory Enums
  imports Prelude
begin

text \<open>
  The domain enumerations (\<open>src/src/domain/enums.py\<close>) and the typed identifiers
  (\<open>src/src/domain/value_objects/identifiers.py\<close>). Every enumeration is a \<open>StrEnum\<close>: its
  members are written out as text by persistence and by the HTTP API, so each comes with its
  \<open>value\<close> function and, where the code parses a member back, with the parser.
\<close>

section \<open>Statuses\<close>

datatype run_status =
    RUN_CREATED | RUN_PLANNING | RUN_PLAN_READY | RUN_CODING | RUN_VALIDATING | RUN_REVIEWING
  | RUN_REPAIRING | RUN_COMPLETED | RUN_FAILED | RUN_CANCELLING | RUN_CANCELLED

fun run_status_value :: "run_status \<Rightarrow> string" where
  "run_status_value RUN_CREATED = ''CREATED''"
| "run_status_value RUN_PLANNING = ''PLANNING''"
| "run_status_value RUN_PLAN_READY = ''PLAN_READY''"
| "run_status_value RUN_CODING = ''CODING''"
| "run_status_value RUN_VALIDATING = ''VALIDATING''"
| "run_status_value RUN_REVIEWING = ''REVIEWING''"
| "run_status_value RUN_REPAIRING = ''REPAIRING''"
| "run_status_value RUN_COMPLETED = ''COMPLETED''"
| "run_status_value RUN_FAILED = ''FAILED''"
| "run_status_value RUN_CANCELLING = ''CANCELLING''"
| "run_status_value RUN_CANCELLED = ''CANCELLED''"

fun run_is_terminal :: "run_status \<Rightarrow> bool" where
  "run_is_terminal RUN_COMPLETED = True"
| "run_is_terminal RUN_FAILED = True"
| "run_is_terminal RUN_CANCELLED = True"
| "run_is_terminal _ = False"

fun is_cancelling_or_cancelled :: "run_status \<Rightarrow> bool" where
  "is_cancelling_or_cancelled RUN_CANCELLING = True"
| "is_cancelling_or_cancelled RUN_CANCELLED = True"
| "is_cancelling_or_cancelled _ = False"

datatype job_status =
    JOB_PENDING | JOB_QUEUED | JOB_LEASED | JOB_RUNNING | JOB_SUCCEEDED | JOB_FAILED
  | JOB_DEAD | JOB_CANCELLED

fun job_status_value :: "job_status \<Rightarrow> string" where
  "job_status_value JOB_PENDING = ''PENDING''"
| "job_status_value JOB_QUEUED = ''QUEUED''"
| "job_status_value JOB_LEASED = ''LEASED''"
| "job_status_value JOB_RUNNING = ''RUNNING''"
| "job_status_value JOB_SUCCEEDED = ''SUCCEEDED''"
| "job_status_value JOB_FAILED = ''FAILED''"
| "job_status_value JOB_DEAD = ''DEAD''"
| "job_status_value JOB_CANCELLED = ''CANCELLED''"

fun job_is_terminal :: "job_status \<Rightarrow> bool" where
  "job_is_terminal JOB_SUCCEEDED = True"
| "job_is_terminal JOB_DEAD = True"
| "job_is_terminal JOB_CANCELLED = True"
| "job_is_terminal _ = False"

fun is_in_flight :: "job_status \<Rightarrow> bool" where
  "is_in_flight JOB_LEASED = True"
| "is_in_flight JOB_RUNNING = True"
| "is_in_flight _ = False"

section \<open>Job types, roles and workers\<close>

datatype job_type =
    PLAN | CODE | REVIEW | LLM_INFERENCE | BUILD | TEST | STATIC_ANALYSIS | PATCH_APPLY

fun job_type_value :: "job_type \<Rightarrow> string" where
  "job_type_value PLAN = ''PLAN''"
| "job_type_value CODE = ''CODE''"
| "job_type_value REVIEW = ''REVIEW''"
| "job_type_value LLM_INFERENCE = ''LLM_INFERENCE''"
| "job_type_value BUILD = ''BUILD''"
| "job_type_value TEST = ''TEST''"
| "job_type_value STATIC_ANALYSIS = ''STATIC_ANALYSIS''"
| "job_type_value PATCH_APPLY = ''PATCH_APPLY''"

text \<open>\<open>tuple(JobType)\<close>: the members in declaration order.\<close>

definition all_job_types :: "job_type list" where
  "all_job_types =
     [PLAN, CODE, REVIEW, LLM_INFERENCE, BUILD, TEST, STATIC_ANALYSIS, PATCH_APPLY]"

lemma set_all_job_types [simp]: "set all_job_types = UNIV"
  by (auto simp: all_job_types_def) (metis job_type.exhaust)

fun requires_inference :: "job_type \<Rightarrow> bool" where
  "requires_inference PLAN = True"
| "requires_inference CODE = True"
| "requires_inference REVIEW = True"
| "requires_inference LLM_INFERENCE = True"
| "requires_inference _ = False"

datatype agent_role = PLANNER | CODER | REVIEWER

fun agent_role_value :: "agent_role \<Rightarrow> string" where
  "agent_role_value PLANNER = ''PLANNER''"
| "agent_role_value CODER = ''CODER''"
| "agent_role_value REVIEWER = ''REVIEWER''"

datatype worker_status =
    STARTING | REGISTERING | READY | BUSY | DRAINING | OFFLINE | UNHEALTHY

fun worker_status_value :: "worker_status \<Rightarrow> string" where
  "worker_status_value STARTING = ''STARTING''"
| "worker_status_value REGISTERING = ''REGISTERING''"
| "worker_status_value READY = ''READY''"
| "worker_status_value BUSY = ''BUSY''"
| "worker_status_value DRAINING = ''DRAINING''"
| "worker_status_value OFFLINE = ''OFFLINE''"
| "worker_status_value UNHEALTHY = ''UNHEALTHY''"

fun accepts_new_jobs :: "worker_status \<Rightarrow> bool" where
  "accepts_new_jobs READY = True"
| "accepts_new_jobs BUSY = True"
| "accepts_new_jobs _ = False"

fun is_live :: "worker_status \<Rightarrow> bool" where
  "is_live OFFLINE = False"
| "is_live UNHEALTHY = False"
| "is_live _ = True"

section \<open>Candidates, verdicts, priorities, failures\<close>

datatype candidate_status =
    CAND_CREATED | CAND_CODING | CAND_VALIDATING | CAND_VALIDATED | CAND_REJECTED
  | CAND_SELECTED | CAND_FAILED | CAND_CANCELLED

fun candidate_status_value :: "candidate_status \<Rightarrow> string" where
  "candidate_status_value CAND_CREATED = ''CREATED''"
| "candidate_status_value CAND_CODING = ''CODING''"
| "candidate_status_value CAND_VALIDATING = ''VALIDATING''"
| "candidate_status_value CAND_VALIDATED = ''VALIDATED''"
| "candidate_status_value CAND_REJECTED = ''REJECTED''"
| "candidate_status_value CAND_SELECTED = ''SELECTED''"
| "candidate_status_value CAND_FAILED = ''FAILED''"
| "candidate_status_value CAND_CANCELLED = ''CANCELLED''"

fun candidate_is_terminal :: "candidate_status \<Rightarrow> bool" where
  "candidate_is_terminal CAND_REJECTED = True"
| "candidate_is_terminal CAND_SELECTED = True"
| "candidate_is_terminal CAND_FAILED = True"
| "candidate_is_terminal CAND_CANCELLED = True"
| "candidate_is_terminal _ = False"

datatype review_verdict = VERDICT_PASS | VERDICT_FAIL

fun review_verdict_value :: "review_verdict \<Rightarrow> string" where
  "review_verdict_value VERDICT_PASS = ''PASS''"
| "review_verdict_value VERDICT_FAIL = ''FAIL''"

datatype priority = LOW | NORMAL | HIGH | CRITICAL

fun rank :: "priority \<Rightarrow> int" where
  "rank LOW = 0"
| "rank NORMAL = 10"
| "rank HIGH = 20"
| "rank CRITICAL = 30"

datatype failure_kind =
    FK_INFRASTRUCTURE | FK_INFERENCE | FK_INVALID_STRUCTURED_OUTPUT | FK_TOOL
  | FK_COMPILATION | FK_TEST | FK_REVIEW | FK_CANCELLED

fun failure_kind_value :: "failure_kind \<Rightarrow> string" where
  "failure_kind_value FK_INFRASTRUCTURE = ''INFRASTRUCTURE''"
| "failure_kind_value FK_INFERENCE = ''INFERENCE''"
| "failure_kind_value FK_INVALID_STRUCTURED_OUTPUT = ''INVALID_STRUCTURED_OUTPUT''"
| "failure_kind_value FK_TOOL = ''TOOL''"
| "failure_kind_value FK_COMPILATION = ''COMPILATION''"
| "failure_kind_value FK_TEST = ''TEST''"
| "failure_kind_value FK_REVIEW = ''REVIEW''"
| "failure_kind_value FK_CANCELLED = ''CANCELLED''"

fun is_infrastructure :: "failure_kind \<Rightarrow> bool" where
  "is_infrastructure FK_INFRASTRUCTURE = True"
| "is_infrastructure FK_INFERENCE = True"
| "is_infrastructure FK_TOOL = True"
| "is_infrastructure _ = False"

fun is_code_defect :: "failure_kind \<Rightarrow> bool" where
  "is_code_defect FK_COMPILATION = True"
| "is_code_defect FK_TEST = True"
| "is_code_defect FK_REVIEW = True"
| "is_code_defect _ = False"

lemma in_flight_not_terminal: "is_in_flight s \<Longrightarrow> \<not> job_is_terminal s"
  by (cases s) simp_all

lemma accepts_new_jobs_live: "accepts_new_jobs s \<Longrightarrow> is_live s"
  by (cases s) simp_all

section \<open>Identifiers\<close>

text \<open>
  Each aggregate has its own identifier type, so a run identifier is never taken for a job
  identifier. Identifiers of one type are ordered as their UUIDs (\<open>order=True\<close>).
\<close>

datatype project_id = ProjectId (project_uuid: uuid)
datatype run_id = RunId (run_uuid: uuid)
datatype job_id = JobId (job_uuid: uuid)
datatype worker_id = WorkerId (worker_uuid: uuid)
datatype candidate_id = CandidateId (candidate_uuid: uuid)
datatype plan_id = PlanId (plan_uuid: uuid)
datatype task_id = TaskId (task_uuid: uuid)
datatype review_id = ReviewId (review_uuid: uuid)
datatype workspace_id = WorkspaceId (workspace_uuid: uuid)

instantiation job_id :: linorder
begin

definition less_eq_job_id :: "job_id \<Rightarrow> job_id \<Rightarrow> bool" where
  "less_eq_job_id a b \<longleftrightarrow> job_uuid a \<le> job_uuid b"

definition less_job_id :: "job_id \<Rightarrow> job_id \<Rightarrow> bool" where
  "less_job_id a b \<longleftrightarrow> job_uuid a < job_uuid b"

instance
  by intro_classes (auto simp: less_eq_job_id_def less_job_id_def job_id.expand)

end

instantiation worker_id :: linorder
begin

definition less_eq_worker_id :: "worker_id \<Rightarrow> worker_id \<Rightarrow> bool" where
  "less_eq_worker_id a b \<longleftrightarrow> worker_uuid a \<le> worker_uuid b"

definition less_worker_id :: "worker_id \<Rightarrow> worker_id \<Rightarrow> bool" where
  "less_worker_id a b \<longleftrightarrow> worker_uuid a < worker_uuid b"

instance
  by intro_classes (auto simp: less_eq_worker_id_def less_worker_id_def worker_id.expand)

end

lemma id_order_simps [simp]:
  "(JobId a \<le> JobId b) = (a \<le> b)" "(JobId a < JobId b) = (a < b)"
  "(WorkerId a \<le> WorkerId b) = (a \<le> b)" "(WorkerId a < WorkerId b) = (a < b)"
  by (simp_all add: less_eq_job_id_def less_job_id_def less_eq_worker_id_def less_worker_id_def)

text \<open>An idempotency key is non-blank text of at most 255 characters.\<close>

datatype idempotency_key = IdempotencyKey string

definition mk_idempotency_key :: "string \<Rightarrow> string + idempotency_key" where
  "mk_idempotency_key v =
     (if v = [] \<or> strip v = [] then Inl ''idempotency key must not be blank''
      else if length v > 255 then Inl ''idempotency key must be at most 255 characters''
      else Inr (IdempotencyKey v))"

end
