(* ===== verification/Exceptions.thy ===== *)
theory Exceptions
  imports Enums
begin

text \<open>
  The error hierarchy of \<open>src/src/domain/exceptions.py\<close> as one datatype: a constructor per
  exception class, carrying the arguments its constructor takes. \<open>ValueError\<close> is Python's own,
  raised by the constructors of the value objects; \<open>OtherException\<close> stands for any exception
  outside the hierarchy.
\<close>

datatype error =
    DomainError string
  | EntityNotFoundError string uuid
  | InvalidStateTransitionError string string string
  | WorkerUnavailableError worker_id "worker_status option"
  | NoCompatibleWorkerError string
  | InferenceError string "int option" "string option"
  | LLMTimeoutError rat "string option"
  | StructuredOutputError string string "string option" int
  | PlanValidationError string
  | ToolExecutionError string string
  | WorkspaceError string
  | JobLeaseExpiredError job_id "worker_id option"
  | RunCancelledError run_id
  | CandidateError string
  | ConcurrencyConflictError string uuid
  | IdempotencyConflictError string
  | JobNotRetryableError job_id job_status int
  | RunNotModifiableError run_id run_status
  | ValueError string
  | OtherException string

text \<open>The \<open>code\<close> class attribute; only the domain's own errors have one.\<close>

fun error_code :: "error \<Rightarrow> string option" where
  "error_code (DomainError _) = Some ''domain_error''"
| "error_code (EntityNotFoundError _ _) = Some ''not_found''"
| "error_code (InvalidStateTransitionError _ _ _) = Some ''invalid_state_transition''"
| "error_code (WorkerUnavailableError _ _) = Some ''worker_unavailable''"
| "error_code (NoCompatibleWorkerError _) = Some ''no_compatible_worker''"
| "error_code (InferenceError _ _ _) = Some ''inference_failed''"
| "error_code (LLMTimeoutError _ _) = Some ''llm_timeout''"
| "error_code (StructuredOutputError _ _ _ _) = Some ''structured_output_invalid''"
| "error_code (PlanValidationError _) = Some ''plan_invalid''"
| "error_code (ToolExecutionError _ _) = Some ''tool_execution_failed''"
| "error_code (WorkspaceError _) = Some ''workspace_error''"
| "error_code (JobLeaseExpiredError _ _) = Some ''job_lease_expired''"
| "error_code (RunCancelledError _) = Some ''run_cancelled''"
| "error_code (CandidateError _) = Some ''candidate_error''"
| "error_code (ConcurrencyConflictError _ _) = Some ''concurrency_conflict''"
| "error_code (IdempotencyConflictError _) = Some ''idempotency_conflict''"
| "error_code (JobNotRetryableError _ _ _) = Some ''job_not_retryable''"
| "error_code (RunNotModifiableError _ _) = Some ''run_not_modifiable''"
| "error_code (ValueError _) = None"
| "error_code (OtherException _) = None"

text \<open>\<open>InferenceError.is_retryable\<close>: no status code means the engine was never reached.\<close>

definition inference_is_retryable :: "int option \<Rightarrow> bool" where
  "inference_is_retryable status_code =
     (case status_code of
        None \<Rightarrow> True
      | Some c \<Rightarrow> c \<in> {408, 409, 425, 429} \<or> 500 \<le> c)"

text \<open>
  \<open>_classify\<close> of the orchestrator: the failure kind an exception stands for, which is what
  the retry policy branches on.
\<close>

fun classify :: "error \<Rightarrow> failure_kind" where
  "classify (StructuredOutputError _ _ _ _) = FK_INVALID_STRUCTURED_OUTPUT"
| "classify (LLMTimeoutError _ _) = FK_INFERENCE"
| "classify (InferenceError _ _ _) = FK_INFERENCE"
| "classify (NoCompatibleWorkerError _) = FK_INFRASTRUCTURE"
| "classify (ToolExecutionError _ _) = FK_TOOL"
| "classify (WorkspaceError _) = FK_INFRASTRUCTURE"
| "classify _ = FK_INFRASTRUCTURE"

text \<open>An exception never stands for a defect of the produced code nor for a cancellation.\<close>

lemma classify_not_defect: "\<not> is_code_defect (classify e)" "classify e \<noteq> FK_CANCELLED"
  by (cases e; simp)+

lemma classify_kinds:
  "classify e \<in> {FK_INFRASTRUCTURE, FK_INFERENCE, FK_INVALID_STRUCTURED_OUTPUT, FK_TOOL}"
  by (cases e) simp_all

type_synonym ('s, 'a) result = "('s, error, 'a) outcome"

end
