(* ===== verification/Events.thy ===== *)
theory Events
  imports Exceptions
begin

text \<open>
  The domain events (\<open>src/src/domain/events\<close>): one constructor per event class. The first
  argument is \<open>occurred_at\<close>; \<open>event_id\<close> is a random UUID that nothing in the modelled code
  reads and is left out. the \<open>event_name\<close> functions give the wire names, \<open>run_id_of\<close> (of the Redis codecs) the run an
  event is addressed to, \<open>is_terminal_for_run\<close> the test that ends a
  run's event stream.
\<close>

datatype event =
    RunCreated moment run_id project_id string int
  | RunStateChanged moment run_id run_status run_status "string option"
  | PlanRequested moment run_id int
  | PlanCompleted moment run_id plan_id int int
  | CandidateStarted moment run_id candidate_id int "job_id option"
  | CandidateCompleted moment run_id candidate_id candidate_status int
  | ValidationStarted moment run_id candidate_id
  | ValidationCompleted moment run_id candidate_id bool string
  | ReviewRequested moment run_id candidate_id int
  | ReviewCompleted moment run_id candidate_id review_verdict int
  | RepairRequested moment run_id candidate_id int string
  | CandidateSelected moment run_id candidate_id string
  | RunCompleted moment run_id "candidate_id option"
  | RunFailed moment run_id failure_kind string
  | RunCancelled moment run_id "string option"
  | JobEnqueued moment job_id run_id job_type int
  | JobLeased moment job_id run_id worker_id int
  | JobCompleted moment job_id run_id job_type int
  | JobFailed moment job_id run_id failure_kind string int bool
  | JobLeaseExpired moment job_id run_id worker_id
  | JobRequeued moment job_id run_id int string
  | WorkerRegistered moment worker_id string string int
  | WorkerHeartbeatReceived moment worker_id worker_status int
  | WorkerStatusChanged moment worker_id worker_status worker_status
  | WorkerDraining moment worker_id int
  | WorkerUnavailable moment worker_id string
  | WorkerDeregistered moment worker_id bool

fun run_event_name :: "event \<Rightarrow> string option" where
  "run_event_name (RunCreated _ _ _ _ _) = Some ''run.created''"
| "run_event_name (RunStateChanged _ _ _ _ _) = Some ''run.state_changed''"
| "run_event_name (PlanRequested _ _ _) = Some ''run.plan_requested''"
| "run_event_name (PlanCompleted _ _ _ _ _) = Some ''run.plan_completed''"
| "run_event_name (CandidateStarted _ _ _ _ _) = Some ''candidate.started''"
| "run_event_name (CandidateCompleted _ _ _ _ _) = Some ''candidate.completed''"
| "run_event_name (ValidationStarted _ _ _) = Some ''candidate.validation_started''"
| "run_event_name (ValidationCompleted _ _ _ _ _) = Some ''candidate.validation_completed''"
| "run_event_name (ReviewRequested _ _ _ _) = Some ''review.requested''"
| "run_event_name (ReviewCompleted _ _ _ _ _) = Some ''review.completed''"
| "run_event_name (RepairRequested _ _ _ _ _) = Some ''run.repair_requested''"
| "run_event_name (CandidateSelected _ _ _ _) = Some ''candidate.selected''"
| "run_event_name (RunCompleted _ _ _) = Some ''run.completed''"
| "run_event_name (RunFailed _ _ _ _) = Some ''run.failed''"
| "run_event_name (RunCancelled _ _ _) = Some ''run.cancelled''"
| "run_event_name _ = None"

fun job_event_name :: "event \<Rightarrow> string option" where
  "job_event_name (JobEnqueued _ _ _ _ _) = Some ''job.enqueued''"
| "job_event_name (JobLeased _ _ _ _ _) = Some ''job.leased''"
| "job_event_name (JobCompleted _ _ _ _ _) = Some ''job.completed''"
| "job_event_name (JobFailed _ _ _ _ _ _ _) = Some ''job.failed''"
| "job_event_name (JobLeaseExpired _ _ _ _) = Some ''job.lease_expired''"
| "job_event_name (JobRequeued _ _ _ _ _) = Some ''job.requeued''"
| "job_event_name _ = None"

fun worker_event_name :: "event \<Rightarrow> string option" where
  "worker_event_name (WorkerRegistered _ _ _ _ _) = Some ''worker.registered''"
| "worker_event_name (WorkerHeartbeatReceived _ _ _ _) = Some ''worker.heartbeat''"
| "worker_event_name (WorkerStatusChanged _ _ _ _) = Some ''worker.status_changed''"
| "worker_event_name (WorkerDraining _ _ _) = Some ''worker.draining''"
| "worker_event_name (WorkerUnavailable _ _ _) = Some ''worker.unavailable''"
| "worker_event_name (WorkerDeregistered _ _ _) = Some ''worker.deregistered''"
| "worker_event_name _ = None"

section \<open>Addressing an event\<close>

fun run_id_of :: "event \<Rightarrow> run_id option" where
  "run_id_of (RunCreated _ r _ _ _) = Some r"
| "run_id_of (RunStateChanged _ r _ _ _) = Some r"
| "run_id_of (PlanRequested _ r _) = Some r"
| "run_id_of (PlanCompleted _ r _ _ _) = Some r"
| "run_id_of (CandidateStarted _ r _ _ _) = Some r"
| "run_id_of (CandidateCompleted _ r _ _ _) = Some r"
| "run_id_of (ValidationStarted _ r _) = Some r"
| "run_id_of (ValidationCompleted _ r _ _ _) = Some r"
| "run_id_of (ReviewRequested _ r _ _) = Some r"
| "run_id_of (ReviewCompleted _ r _ _ _) = Some r"
| "run_id_of (RepairRequested _ r _ _ _) = Some r"
| "run_id_of (CandidateSelected _ r _ _) = Some r"
| "run_id_of (RunCompleted _ r _) = Some r"
| "run_id_of (RunFailed _ r _ _) = Some r"
| "run_id_of (RunCancelled _ r _) = Some r"
| "run_id_of (JobEnqueued _ _ r _ _) = Some r"
| "run_id_of (JobLeased _ _ r _ _) = Some r"
| "run_id_of (JobCompleted _ _ r _ _) = Some r"
| "run_id_of (JobFailed _ _ r _ _ _ _) = Some r"
| "run_id_of (JobLeaseExpired _ _ r _) = Some r"
| "run_id_of (JobRequeued _ _ r _ _) = Some r"
| "run_id_of (WorkerRegistered _ _ _ _ _) = None"
| "run_id_of (WorkerHeartbeatReceived _ _ _ _) = None"
| "run_id_of (WorkerStatusChanged _ _ _ _) = None"
| "run_id_of (WorkerDraining _ _ _) = None"
| "run_id_of (WorkerUnavailable _ _ _) = None"
| "run_id_of (WorkerDeregistered _ _ _) = None"

definition is_terminal_for_run :: "event \<Rightarrow> bool" where
  "is_terminal_for_run e \<longleftrightarrow>
     (case e of
        RunCancelled _ _ _ \<Rightarrow> True
      | RunCompleted _ _ _ \<Rightarrow> True
      | RunFailed _ _ _ _ \<Rightarrow> True
      | RunStateChanged _ _ _ current _ \<Rightarrow> run_is_terminal current
      | _ \<Rightarrow> False)"

section \<open>Draining an event buffer\<close>

text \<open>
  \<open>Entity.pull_events\<close>: hand out the buffered events and empty the buffer. The buffer is a
  field of every aggregate; the function below acts on the buffer alone.
\<close>

definition pull_events :: "event list \<Rightarrow> event list \<times> event list" where
  "pull_events buffer = (buffer, [])"

definition record_event :: "event list \<Rightarrow> event \<Rightarrow> event list" where
  "record_event buffer e = buffer @ [e]"

end
