(* ===== verification/Values.thy ===== *)
theory Values
  imports Events
begin

text \<open>
  The immutable value objects of \<open>src/src/domain/value_objects\<close>. A frozen dataclass is a record
  (or a one-constructor datatype); its \<open>__post_init__\<close> is a constructor function that returns
  \<open>ValueError\<close> where the code raises it.
\<close>

section \<open>Leases\<close>

datatype lease_token = LeaseToken (token_value: string)

definition mk_lease_token :: "string \<Rightarrow> error + lease_token" where
  "mk_lease_token v =
     (if v = [] then Inl (ValueError ''lease token must not be empty'') else Inr (LeaseToken v))"

record lease =
  l_job_id :: job_id
  l_holder :: worker_id
  l_token :: lease_token
  l_acquired_at :: moment
  l_expires_at :: moment

definition mk_lease ::
  "job_id \<Rightarrow> worker_id \<Rightarrow> lease_token \<Rightarrow> moment \<Rightarrow> moment \<Rightarrow> error + lease" where
  "mk_lease job holder token acquired expires =
     (if expires \<le> acquired then Inl (ValueError ''lease must expire strictly after it was acquired'')
      else Inr \<lparr>l_job_id = job, l_holder = holder, l_token = token,
                l_acquired_at = acquired, l_expires_at = expires\<rparr>)"

text \<open>\<open>Lease.granted\<close>; \<open>fresh\<close> is what \<open>LeaseToken.generate()\<close> would return.\<close>

definition lease_granted ::
  "job_id \<Rightarrow> worker_id \<Rightarrow> moment \<Rightarrow> duration \<Rightarrow> lease_token option \<Rightarrow> lease_token \<Rightarrow> error + lease" where
  "lease_granted job holder now dur token fresh =
     mk_lease job holder (or_else token fresh) now (now + dur)"

definition is_expired :: "lease \<Rightarrow> moment \<Rightarrow> bool" where
  "is_expired l now \<longleftrightarrow> l_expires_at l \<le> now"

definition lease_remaining :: "lease \<Rightarrow> moment \<Rightarrow> duration" where
  "lease_remaining l now = max (l_expires_at l - now) 0"

text \<open>\<open>Lease.renewed\<close>: \<open>dataclasses.replace\<close> runs the constructor's checks again.\<close>

definition lease_renewed :: "lease \<Rightarrow> moment \<Rightarrow> duration \<Rightarrow> error + lease" where
  "lease_renewed l now dur =
     (if is_expired l now
      then Inl (ValueError ''an expired lease cannot be renewed; the job was reassigned'')
      else mk_lease (l_job_id l) (l_holder l) (l_token l) (l_acquired_at l) (now + dur))"

definition held_by :: "lease \<Rightarrow> worker_id \<Rightarrow> lease_token \<Rightarrow> bool" where
  "held_by l worker token \<longleftrightarrow> l_holder l = worker \<and> l_token l = token"

lemma lease_granted_Inr_iff:
  "lease_granted job holder now dur token fresh = Inr l \<longleftrightarrow>
     0 < dur \<and> l = \<lparr>l_job_id = job, l_holder = holder, l_token = or_else token fresh,
                    l_acquired_at = now, l_expires_at = now + dur\<rparr>"
  by (auto simp: lease_granted_def mk_lease_def)

lemma lease_granted_Inl:
  "lease_granted job holder now dur token fresh = Inl e \<Longrightarrow> dur \<le> 0"
  by (auto simp: lease_granted_def mk_lease_def split: if_splits)

lemma lease_renewed_Inr:
  assumes "lease_renewed l now dur = Inr l'"
  shows "l' = l\<lparr>l_expires_at := now + dur\<rparr>" and "now < l_expires_at l"
  using assms by (auto simp: lease_renewed_def mk_lease_def is_expired_def split: if_splits)

lemma lease_remaining_zero_iff: "lease_remaining l now = 0 \<longleftrightarrow> is_expired l now"
  by (auto simp: lease_remaining_def is_expired_def)

section \<open>Run limits and token accounting\<close>

record run_limits =
  max_plan_revisions :: int
  max_coder_iterations :: int
  max_repair_iterations :: int
  max_worker_retries :: int
  max_parallel_candidates :: int

definition default_run_limits :: run_limits where
  "default_run_limits = \<lparr>max_plan_revisions = 2, max_coder_iterations = 6,
     max_repair_iterations = 3, max_worker_retries = 3, max_parallel_candidates = 3\<rparr>"

definition mk_run_limits :: "run_limits \<Rightarrow> error + run_limits" where
  "mk_run_limits l =
     (if max_plan_revisions l < 0 then Inl (ValueError ''max_plan_revisions must not be negative'')
      else if max_coder_iterations l < 0 then Inl (ValueError ''max_coder_iterations must not be negative'')
      else if max_repair_iterations l < 0 then Inl (ValueError ''max_repair_iterations must not be negative'')
      else if max_worker_retries l < 0 then Inl (ValueError ''max_worker_retries must not be negative'')
      else if max_parallel_candidates l < 0 then Inl (ValueError ''max_parallel_candidates must not be negative'')
      else if max_parallel_candidates l < 1 then Inl (ValueError ''max_parallel_candidates must be at least 1'')
      else if max_worker_retries l < 1 then Inl (ValueError ''max_worker_retries must be at least 1'')
      else Inr l)"

definition wf_limits :: "run_limits \<Rightarrow> bool" where
  "wf_limits l \<longleftrightarrow> 0 \<le> max_plan_revisions l \<and> 0 \<le> max_coder_iterations l
     \<and> 0 \<le> max_repair_iterations l \<and> 1 \<le> max_worker_retries l \<and> 1 \<le> max_parallel_candidates l"

lemma mk_run_limits_Inr_iff: "mk_run_limits l = Inr l' \<longleftrightarrow> l' = l \<and> wf_limits l"
  by (auto simp: mk_run_limits_def wf_limits_def)

record token_usage =
  input_tokens :: int
  output_tokens :: int

definition mk_token_usage :: "int \<Rightarrow> int \<Rightarrow> error + token_usage" where
  "mk_token_usage i out =
     (if i < 0 \<or> out < 0 then Inl (ValueError ''token counts must not be negative'')
      else Inr \<lparr>input_tokens = i, output_tokens = out\<rparr>)"

definition no_tokens :: token_usage where
  "no_tokens = \<lparr>input_tokens = 0, output_tokens = 0\<rparr>"

definition total_tokens :: "token_usage \<Rightarrow> int" where
  "total_tokens u = input_tokens u + output_tokens u"

text \<open>\<open>TokenUsage.__add__\<close>: the sum goes through the checking constructor.\<close>

definition add_usage :: "token_usage \<Rightarrow> token_usage \<Rightarrow> error + token_usage" where
  "add_usage u v = mk_token_usage (input_tokens u + input_tokens v) (output_tokens u + output_tokens v)"

definition wf_usage :: "token_usage \<Rightarrow> bool" where
  "wf_usage u \<longleftrightarrow> 0 \<le> input_tokens u \<and> 0 \<le> output_tokens u"

lemma add_usage_total:
  "wf_usage u \<Longrightarrow> wf_usage v \<Longrightarrow>
   \<exists>w. add_usage u v = Inr w \<and> wf_usage w \<and> total_tokens w = total_tokens u + total_tokens v"
  by (auto simp: add_usage_def mk_token_usage_def wf_usage_def total_tokens_def)

section \<open>What a worker offers and what a job needs\<close>

definition starts_with :: "string \<Rightarrow> string \<Rightarrow> bool" where
  "starts_with s p \<longleftrightarrow> take (length p) s = p"

datatype worker_endpoint = WorkerEndpoint (endpoint_url: string)

definition mk_worker_endpoint :: "string \<Rightarrow> error + worker_endpoint" where
  "mk_worker_endpoint url =
     (if starts_with url ''http://'' \<or> starts_with url ''https://'' then Inr (WorkerEndpoint url)
      else Inl (ValueError ''worker endpoint must be an http(s) URL''))"

record gpu_spec =
  gpu_type :: "string option"
  gpu_count :: int
  memory_gb :: "rat option"
  tensor_parallel_size :: int

definition mk_gpu_spec :: "gpu_spec \<Rightarrow> error + gpu_spec" where
  "mk_gpu_spec g =
     (if gpu_count g < 0 then Inl (ValueError ''gpu_count must not be negative'')
      else if tensor_parallel_size g < 1 then Inl (ValueError ''tensor_parallel_size must be at least 1'')
      else Inr g)"

record worker_capabilities =
  model_id :: string
  context_length :: int
  max_concurrency :: int
  supported_roles :: "agent_role list"
  gpu :: gpu_spec
  supports_tools :: bool
  supports_json_schema :: bool
  caps_metadata :: json_object

definition mk_worker_capabilities :: "worker_capabilities \<Rightarrow> error + worker_capabilities" where
  "mk_worker_capabilities c =
     (if model_id c = [] then Inl (ValueError ''model_id must not be empty'')
      else if context_length c \<le> 0 then Inl (ValueError ''context_length must be positive'')
      else if max_concurrency c < 1 then Inl (ValueError ''max_concurrency must be at least 1'')
      else if supported_roles c = [] then Inl (ValueError ''a worker must support at least one role'')
      else Inr c)"

definition wf_capabilities :: "worker_capabilities \<Rightarrow> bool" where
  "wf_capabilities c \<longleftrightarrow> model_id c \<noteq> [] \<and> 0 < context_length c \<and> 1 \<le> max_concurrency c
     \<and> supported_roles c \<noteq> []"

lemma mk_worker_capabilities_Inr_iff:
  "mk_worker_capabilities c = Inr c' \<longleftrightarrow> c' = c \<and> wf_capabilities c"
  by (auto simp: mk_worker_capabilities_def wf_capabilities_def)

definition supports_role :: "worker_capabilities \<Rightarrow> agent_role \<Rightarrow> bool" where
  "supports_role c r \<longleftrightarrow> r \<in> set (supported_roles c)"

definition fits :: "worker_capabilities \<Rightarrow> int \<Rightarrow> bool" where
  "fits c estimated \<longleftrightarrow> estimated \<le> context_length c"

record worker_load =
  active_jobs :: int
  queued_jobs :: int

definition mk_worker_load :: "int \<Rightarrow> int \<Rightarrow> error + worker_load" where
  "mk_worker_load a q =
     (if a < 0 \<or> q < 0 then Inl (ValueError ''load counters must not be negative'')
      else Inr \<lparr>active_jobs = a, queued_jobs = q\<rparr>)"

definition no_load :: worker_load where
  "no_load = \<lparr>active_jobs = 0, queued_jobs = 0\<rparr>"

definition load_total :: "worker_load \<Rightarrow> int" where
  "load_total l = active_jobs l + queued_jobs l"

definition wf_load :: "worker_load \<Rightarrow> bool" where
  "wf_load l \<longleftrightarrow> 0 \<le> active_jobs l \<and> 0 \<le> queued_jobs l"

record job_requirements =
  req_role :: agent_role
  req_model_id :: "string option"
  estimated_prompt_tokens :: int
  requires_tools :: bool
  requires_json_schema :: bool

definition mk_job_requirements :: "job_requirements \<Rightarrow> error + job_requirements" where
  "mk_job_requirements r =
     (if estimated_prompt_tokens r < 0
      then Inl (ValueError ''estimated_prompt_tokens must not be negative'') else Inr r)"

end
