(* ===== verification/Job.thy ===== *)
theory Job
  imports Values
begin

text \<open>
  The job aggregate (\<open>src/src/domain/entities/job.py\<close>): its record, the constructor with its
  checks, and one definition per lifecycle method. A method that may raise returns the job it
  leaves behind and the exception or the returned value. The lifecycle is then seen as a
  transition system (\<open>job_action\<close>, \<open>job_apply\<close>, \<open>job_reachable\<close>) whose invariant is
  \<open>wf_job\<close>.
\<close>

section \<open>State\<close>

record job =
  j_id :: job_id
  j_run_id :: run_id
  j_project_id :: project_id
  j_type :: job_type
  j_role :: "agent_role option"
  j_candidate_id :: "candidate_id option"
  j_priority :: priority
  j_status :: job_status
  j_attempt :: int
  j_max_attempts :: int
  j_payload :: json_object
  j_requirements :: "job_requirements option"
  j_idempotency_key :: "idempotency_key option"
  j_lease :: "lease option"
  j_assigned_worker_id :: "worker_id option"
  j_created_at :: moment
  j_started_at :: "moment option"
  j_completed_at :: "moment option"
  j_result :: "json_object option"
  j_failure_kind :: "failure_kind option"
  j_failure_reason :: "string option"
  j_events :: "event list"

definition DEFAULT_MAX_ATTEMPTS :: int where
  "DEFAULT_MAX_ATTEMPTS = 3"

text \<open>
  The checks of \<open>Job.__init__\<close>, applied to the record of the arguments. The constructed job
  starts with an empty event buffer.
\<close>

definition mk_job :: "job \<Rightarrow> error + job" where
  "mk_job j =
     (if requires_inference (j_type j) \<and> j_role j = None
      then Inl (ValueError (job_type_value (j_type j) @ '' is an inference job and requires an agent role''))
      else if j_max_attempts j < 1 then Inl (ValueError ''max_attempts must be at least 1'')
      else Inr (j\<lparr>j_events := []\<rparr>))"

text \<open>\<open>Job.create\<close>: every argument it does not take is the constructor's default.\<close>

definition job_create ::
  "job_id \<Rightarrow> run_id \<Rightarrow> project_id \<Rightarrow> job_type \<Rightarrow> moment \<Rightarrow> agent_role option \<Rightarrow> candidate_id option
   \<Rightarrow> priority \<Rightarrow> json_object \<Rightarrow> job_requirements option \<Rightarrow> int \<Rightarrow> idempotency_key option
   \<Rightarrow> error + job" where
  "job_create jid rid pid ty now role cand prio payload reqs max_attempts key =
     mk_job \<lparr>j_id = jid, j_run_id = rid, j_project_id = pid, j_type = ty, j_role = role,
       j_candidate_id = cand, j_priority = prio, j_status = JOB_PENDING, j_attempt = 0,
       j_max_attempts = max_attempts, j_payload = payload, j_requirements = reqs,
       j_idempotency_key = key, j_lease = None, j_assigned_worker_id = None, j_created_at = now,
       j_started_at = None, j_completed_at = None, j_result = None, j_failure_kind = None,
       j_failure_reason = None, j_events = []\<rparr>"

definition attempts_remaining :: "job \<Rightarrow> int" where
  "attempts_remaining j = max (j_max_attempts j - j_attempt j) 0"

definition job_duration_ms :: "job \<Rightarrow> int" where
  "job_duration_ms j =
     (case (j_started_at j, j_completed_at j) of
        (Some s, Some c) \<Rightarrow> whole_ms (c - s)
      | _ \<Rightarrow> 0)"

definition job_record :: "event \<Rightarrow> job \<Rightarrow> job" where
  "job_record e j = j\<lparr>j_events := record_event (j_events j) e\<rparr>"

abbreviation job_transition_error :: "job \<Rightarrow> job_status \<Rightarrow> error" where
  "job_transition_error j target \<equiv>
     InvalidStateTransitionError ''Job'' (job_status_value (j_status j)) (job_status_value target)"

section \<open>Lifecycle\<close>

definition assert_lease :: "job \<Rightarrow> lease_token \<Rightarrow> moment \<Rightarrow> error + lease" where
  "assert_lease j token now =
     (case j_lease j of
        None \<Rightarrow> Inl (JobLeaseExpiredError (j_id j) (j_assigned_worker_id j))
      | Some l \<Rightarrow>
          if l_token l \<noteq> token then Inl (JobLeaseExpiredError (j_id j) (j_assigned_worker_id j))
          else if is_expired l now then Inl (JobLeaseExpiredError (j_id j) (Some (l_holder l)))
          else Inr l)"

definition job_enqueue :: "job \<Rightarrow> moment \<Rightarrow> (job, unit) result" where
  "job_enqueue j now =
     (if j_status j = JOB_QUEUED then (j, Inr ())
      else if j_status j \<notin> {JOB_PENDING, JOB_FAILED} then (j, Inl (job_transition_error j JOB_QUEUED))
      else (job_record (JobEnqueued now (j_id j) (j_run_id j) (j_type j) (j_attempt j))
              (j\<lparr>j_status := JOB_QUEUED, j_lease := None, j_assigned_worker_id := None\<rparr>),
            Inr ()))"

text \<open>
  \<open>lease_to\<close> changes the counters before it builds the lease, so a non-positive duration
  raises on a job that is already marked as leased.
\<close>

definition job_lease_to ::
  "job \<Rightarrow> worker_id \<Rightarrow> moment \<Rightarrow> duration \<Rightarrow> lease_token option \<Rightarrow> lease_token \<Rightarrow> (job, lease) result" where
  "job_lease_to j worker now dur token fresh =
     (if j_status j \<noteq> JOB_QUEUED then (j, Inl (job_transition_error j JOB_LEASED))
      else
        let j1 = j\<lparr>j_attempt := j_attempt j + 1, j_status := JOB_LEASED,
                   j_assigned_worker_id := Some worker,
                   j_started_at := Some (or_else (j_started_at j) now)\<rparr>
        in case lease_granted (j_id j) worker now dur token fresh of
             Inl e \<Rightarrow> (j1, Inl e)
           | Inr l \<Rightarrow>
               (job_record (JobLeased now (j_id j) (j_run_id j) worker (j_attempt j1))
                  (j1\<lparr>j_lease := Some l\<rparr>), Inr l))"

definition job_mark_running :: "job \<Rightarrow> lease_token \<Rightarrow> moment \<Rightarrow> (job, unit) result" where
  "job_mark_running j token now =
     (case assert_lease j token now of
        Inl e \<Rightarrow> (j, Inl e)
      | Inr _ \<Rightarrow>
          if j_status j = JOB_RUNNING then (j, Inr ())
          else (j\<lparr>j_status := JOB_RUNNING, j_started_at := Some (or_else (j_started_at j) now)\<rparr>,
                Inr ()))"

definition job_renew_lease ::
  "job \<Rightarrow> lease_token \<Rightarrow> moment \<Rightarrow> duration \<Rightarrow> (job, lease) result" where
  "job_renew_lease j token now dur =
     (case assert_lease j token now of
        Inl e \<Rightarrow> (j, Inl e)
      | Inr l \<Rightarrow>
          (case lease_renewed l now dur of
             Inl e \<Rightarrow> (j, Inl e)
           | Inr l' \<Rightarrow> (j\<lparr>j_lease := Some l'\<rparr>, Inr l')))"

definition job_complete ::
  "job \<Rightarrow> lease_token option \<Rightarrow> moment \<Rightarrow> json_object option \<Rightarrow> (job, unit) result" where
  "job_complete j token now res =
     (if j_status j = JOB_SUCCEEDED then (j, Inr ())
      else
        case (case token of None \<Rightarrow> Inr () | Some t \<Rightarrow> map_sum id (\<lambda>_. ()) (assert_lease j t now)) of
          Inl e \<Rightarrow> (j, Inl e)
        | Inr _ \<Rightarrow>
            let j1 = j\<lparr>j_status := JOB_SUCCEEDED, j_completed_at := Some now, j_result := res,
                       j_lease := None\<rparr>
            in (job_record (JobCompleted now (j_id j) (j_run_id j) (j_type j) (job_duration_ms j1)) j1,
                Inr ()))"

text \<open>The retry default of \<open>fail\<close>: machinery failures and unusable answers deserve another try.\<close>

definition default_retryable :: "failure_kind \<Rightarrow> bool" where
  "default_retryable kind \<longleftrightarrow> is_infrastructure kind \<or> kind = FK_INVALID_STRUCTURED_OUTPUT"

definition job_fail ::
  "job \<Rightarrow> lease_token option \<Rightarrow> moment \<Rightarrow> failure_kind \<Rightarrow> string \<Rightarrow> bool option \<Rightarrow> (job, bool) result" where
  "job_fail j token now kind reason retryable =
     (if job_is_terminal (j_status j) then (j, Inr False)
      else
        case (case token of None \<Rightarrow> Inr () | Some t \<Rightarrow> map_sum id (\<lambda>_. ()) (assert_lease j t now)) of
          Inl e \<Rightarrow> (j, Inl e)
        | Inr _ \<Rightarrow>
            let may_retry = or_else retryable (default_retryable kind) \<and> 0 < attempts_remaining j
            in (job_record (JobFailed now (j_id j) (j_run_id j) kind reason (j_attempt j) may_retry)
                  (j\<lparr>j_status := (if may_retry then JOB_FAILED else JOB_DEAD),
                     j_failure_kind := Some kind, j_failure_reason := Some reason,
                     j_completed_at := Some now, j_lease := None, j_assigned_worker_id := None\<rparr>),
                Inr may_retry))"

definition job_expire_lease :: "job \<Rightarrow> moment \<Rightarrow> job \<times> bool" where
  "job_expire_lease j now =
     (case j_lease j of
        None \<Rightarrow> (j, False)
      | Some l \<Rightarrow>
          if \<not> is_expired l now then (j, False)
          else
            let j1 = job_record (JobLeaseExpired now (j_id j) (j_run_id j) (l_holder l))
                       (j\<lparr>j_lease := None, j_assigned_worker_id := None\<rparr>)
            in if 0 < attempts_remaining j then (j1\<lparr>j_status := JOB_FAILED\<rparr>, True)
               else (j1\<lparr>j_status := JOB_DEAD, j_failure_kind := Some FK_INFRASTRUCTURE,
                        j_failure_reason := Some ''lease expired and retry budget exhausted'',
                        j_completed_at := Some now\<rparr>, False))"

definition job_requeue :: "job \<Rightarrow> moment \<Rightarrow> string \<Rightarrow> (job, unit) result" where
  "job_requeue j now reason =
     (if j_status j \<noteq> JOB_FAILED then (j, Inl (job_transition_error j JOB_QUEUED))
      else if attempts_remaining j \<le> 0 then (j, Inl (job_transition_error j JOB_QUEUED))
      else (job_record (JobRequeued now (j_id j) (j_run_id j) (j_attempt j) reason)
              (j\<lparr>j_status := JOB_QUEUED, j_completed_at := None, j_lease := None,
                 j_assigned_worker_id := None\<rparr>), Inr ()))"

definition job_cancel :: "job \<Rightarrow> moment \<Rightarrow> job" where
  "job_cancel j now =
     (if job_is_terminal (j_status j) then j
      else j\<lparr>j_status := JOB_CANCELLED, j_completed_at := Some now, j_lease := None,
             j_assigned_worker_id := None, j_failure_kind := Some FK_CANCELLED\<rparr>)"

lemmas job_ops = job_enqueue_def job_lease_to_def job_mark_running_def job_renew_lease_def
  job_complete_def job_fail_def job_expire_lease_def job_requeue_def job_cancel_def

lemma job_record_simps [simp]:
  "j_id (job_record e j) = j_id j" "j_run_id (job_record e j) = j_run_id j"
  "j_project_id (job_record e j) = j_project_id j" "j_type (job_record e j) = j_type j"
  "j_role (job_record e j) = j_role j" "j_candidate_id (job_record e j) = j_candidate_id j"
  "j_priority (job_record e j) = j_priority j" "j_status (job_record e j) = j_status j"
  "j_attempt (job_record e j) = j_attempt j" "j_max_attempts (job_record e j) = j_max_attempts j"
  "j_lease (job_record e j) = j_lease j" "j_created_at (job_record e j) = j_created_at j"
  "j_assigned_worker_id (job_record e j) = j_assigned_worker_id j"
  "j_started_at (job_record e j) = j_started_at j"
  "j_completed_at (job_record e j) = j_completed_at j"
  "j_result (job_record e j) = j_result j" "j_failure_kind (job_record e j) = j_failure_kind j"
  "j_failure_reason (job_record e j) = j_failure_reason j"
  "j_events (job_record e j) = j_events j @ [e]"
  by (simp_all add: job_record_def record_event_def)

lemma attempts_remaining_pos [simp]: "0 < attempts_remaining j \<longleftrightarrow> j_attempt j < j_max_attempts j"
  by (auto simp: attempts_remaining_def)

lemma attempts_remaining_le0 [simp]: "attempts_remaining j \<le> 0 \<longleftrightarrow> j_max_attempts j \<le> j_attempt j"
  by (auto simp: attempts_remaining_def)

lemma assert_lease_Inr_iff:
  "assert_lease j token now = Inr l \<longleftrightarrow> j_lease j = Some l \<and> l_token l = token \<and> now < l_expires_at l"
  by (auto simp: assert_lease_def is_expired_def split: option.splits)

text \<open>Whether a caller still owns the job it reports on.\<close>

definition holds_lease :: "job \<Rightarrow> lease_token \<Rightarrow> moment \<Rightarrow> bool" where
  "holds_lease j token now \<longleftrightarrow>
     (case j_lease j of None \<Rightarrow> False | Some l \<Rightarrow> l_token l = token \<and> now < l_expires_at l)"

lemma assert_lease_Inl:
  "\<not> holds_lease j token now \<Longrightarrow> \<exists>h. assert_lease j token now = Inl (JobLeaseExpiredError (j_id j) h)"
  by (auto simp: holds_lease_def assert_lease_def is_expired_def split: option.splits)

lemma assert_lease_holds:
  "holds_lease j token now \<Longrightarrow> assert_lease j token now = Inr (the (j_lease j))"
  by (auto simp: holds_lease_def assert_lease_def is_expired_def split: option.splits)

section \<open>The lifecycle as a transition system\<close>

datatype job_action =
    Enqueue
  | Lease_To worker_id duration "lease_token option" lease_token
  | Mark_Running lease_token
  | Renew_Lease lease_token duration
  | Complete "lease_token option" "json_object option"
  | Fail "lease_token option" failure_kind string "bool option"
  | Expire_Lease
  | Requeue string
  | Cancel

text \<open>The job a call leaves behind, whether it returned or raised.\<close>

fun job_apply :: "job \<Rightarrow> moment \<Rightarrow> job_action \<Rightarrow> job" where
  "job_apply j now Enqueue = fst (job_enqueue j now)"
| "job_apply j now (Lease_To w d t f) = fst (job_lease_to j w now d t f)"
| "job_apply j now (Mark_Running t) = fst (job_mark_running j t now)"
| "job_apply j now (Renew_Lease t d) = fst (job_renew_lease j t now d)"
| "job_apply j now (Complete t r) = fst (job_complete j t now r)"
| "job_apply j now (Fail t k r b) = fst (job_fail j t now k r b)"
| "job_apply j now Expire_Lease = fst (job_expire_lease j now)"
| "job_apply j now (Requeue r) = fst (job_requeue j now r)"
| "job_apply j now Cancel = job_cancel j now"

text \<open>Callers lease for a positive duration; everything else is unrestricted.\<close>

fun sensible :: "job_action \<Rightarrow> bool" where
  "sensible (Lease_To _ d _ _) = (0 < d)"
| "sensible _ = True"

inductive job_reachable :: "job \<Rightarrow> bool" where
  created: "job_create jid rid pid ty now role cand prio payload reqs n key = Inr j \<Longrightarrow> job_reachable j"
| step: "job_reachable j \<Longrightarrow> sensible a \<Longrightarrow> job_reachable (job_apply j now a)"

fun job_history :: "job \<Rightarrow> (moment \<times> job_action) list \<Rightarrow> job" where
  "job_history j [] = j"
| "job_history j ((now, a) # as) = job_history (job_apply j now a) as"

fun is_job_leased :: "event \<Rightarrow> bool" where
  "is_job_leased (JobLeased _ _ _ _ _) = True"
| "is_job_leased _ = False"

abbreviation leases_granted :: "job \<Rightarrow> nat" where
  "leases_granted j \<equiv> length (filter is_job_leased (j_events j))"

definition wf_lease_of :: "job \<Rightarrow> lease \<Rightarrow> bool" where
  "wf_lease_of j l \<longleftrightarrow> l_job_id l = j_id j \<and> j_assigned_worker_id j = Some (l_holder l)
     \<and> l_acquired_at l < l_expires_at l"

definition wf_job :: "job \<Rightarrow> bool" where
  "wf_job j \<longleftrightarrow>
     (requires_inference (j_type j) \<longrightarrow> j_role j \<noteq> None)
   \<and> 1 \<le> j_max_attempts j \<and> 0 \<le> j_attempt j \<and> j_attempt j \<le> j_max_attempts j
   \<and> (j_status j \<in> {JOB_PENDING, JOB_QUEUED, JOB_FAILED} \<longrightarrow> j_attempt j < j_max_attempts j)
   \<and> (j_lease j \<noteq> None \<longleftrightarrow> is_in_flight (j_status j))
   \<and> (\<forall>l. j_lease j = Some l \<longrightarrow> wf_lease_of j l)
   \<and> (is_in_flight (j_status j) \<longrightarrow> j_started_at j \<noteq> None \<and> 1 \<le> j_attempt j)
   \<and> (job_is_terminal (j_status j) \<longrightarrow> j_completed_at j \<noteq> None)"

lemma wf_job_create:
  "job_create jid rid pid ty now role cand prio payload reqs n key = Inr j \<Longrightarrow> wf_job j"
  by (auto simp: job_create_def mk_job_def wf_job_def split: if_splits)

lemma wf_job_enqueue: "wf_job j \<Longrightarrow> wf_job (fst (job_enqueue j now))"
  by (auto simp: wf_job_def job_enqueue_def)

lemma wf_job_lease_to: "wf_job j \<Longrightarrow> 0 < d \<Longrightarrow> wf_job (fst (job_lease_to j w now d t f))"
  by (auto simp: wf_job_def job_lease_to_def Let_def lease_granted_def mk_lease_def wf_lease_of_def)

lemma wf_job_mark_running: "wf_job j \<Longrightarrow> wf_job (fst (job_mark_running j t now))"
  by (auto simp: wf_job_def job_mark_running_def assert_lease_Inr_iff wf_lease_of_def
      split: sum.splits)

lemma wf_job_renew_lease: "wf_job j \<Longrightarrow> wf_job (fst (job_renew_lease j t now d))"
  by (auto simp: wf_job_def job_renew_lease_def assert_lease_Inr_iff wf_lease_of_def
      lease_renewed_def mk_lease_def split: sum.splits if_splits)

lemma wf_job_complete: "wf_job j \<Longrightarrow> wf_job (fst (job_complete j t now r))"
  by (auto simp: wf_job_def job_complete_def Let_def split: sum.splits option.splits)

lemma wf_job_fail: "wf_job j \<Longrightarrow> wf_job (fst (job_fail j t now k r b))"
  by (auto simp: wf_job_def job_fail_def Let_def split: sum.splits option.splits)

lemma wf_job_expire_lease: "wf_job j \<Longrightarrow> wf_job (fst (job_expire_lease j now))"
  by (auto simp: wf_job_def job_expire_lease_def Let_def split: option.splits)

lemma wf_job_requeue: "wf_job j \<Longrightarrow> wf_job (fst (job_requeue j now r))"
  by (auto simp: wf_job_def job_requeue_def)

lemma wf_job_cancel: "wf_job j \<Longrightarrow> wf_job (job_cancel j now)"
  by (auto simp: wf_job_def job_cancel_def)

lemmas wf_job_ops = wf_job_enqueue wf_job_lease_to wf_job_mark_running wf_job_renew_lease
  wf_job_complete wf_job_fail wf_job_expire_lease wf_job_requeue wf_job_cancel

lemma wf_job_apply: "wf_job j \<Longrightarrow> sensible a \<Longrightarrow> wf_job (job_apply j now a)"
  by (cases a) (simp_all add: wf_job_ops)

lemma job_reachable_wf: "job_reachable j \<Longrightarrow> wf_job j"
  by (induction rule: job_reachable.induct) (auto intro: wf_job_create wf_job_apply)

text \<open>The attempt counter is the number of leases granted so far.\<close>

lemma leases_granted_apply:
  assumes "int (leases_granted j) = j_attempt j" and "sensible a"
  shows "int (leases_granted (job_apply j now a)) = j_attempt (job_apply j now a)"
proof (cases a)
  case (Lease_To w d t f)
  with assms show ?thesis
    by (auto simp: job_lease_to_def Let_def lease_granted_def mk_lease_def)
qed (use assms in \<open>auto simp: job_ops Let_def split: sum.splits option.splits\<close>)

lemma leases_granted_reachable: "job_reachable j \<Longrightarrow> int (leases_granted j) = j_attempt j"
proof (induction rule: job_reachable.induct)
  case (created jid rid pid ty now role cand prio payload reqs n key j)
  then show ?case by (auto simp: job_create_def mk_job_def split: if_splits)
next
  case (step j a now)
  then show ?case by (simp add: leases_granted_apply)
qed

lemma max_attempts_apply [simp]: "j_max_attempts (job_apply j now a) = j_max_attempts j"
  by (cases a) (auto simp: job_ops Let_def split: sum.splits option.splits)

lemma identity_apply [simp]:
  "j_id (job_apply j now a) = j_id j" "j_run_id (job_apply j now a) = j_run_id j"
  "j_type (job_apply j now a) = j_type j" "j_priority (job_apply j now a) = j_priority j"
  "j_created_at (job_apply j now a) = j_created_at j"
  by (cases a; auto simp: job_ops Let_def split: sum.splits option.splits)+

section \<open>Behaviour of the operations\<close>

lemma terminal_no_lease: "wf_job j \<Longrightarrow> job_is_terminal (j_status j) \<Longrightarrow> j_lease j = None"
  by (auto simp: wf_job_def dest: in_flight_not_terminal)

lemma terminal_apply:
  assumes "wf_job j" and "job_is_terminal (j_status j)" and "\<forall>r. a \<noteq> Complete None r"
  shows "job_apply j now a = j"
proof -
  have "j_lease j = None" using assms(1,2) by (rule terminal_no_lease)
  moreover have "j_status j \<in> {JOB_SUCCEEDED, JOB_DEAD, JOB_CANCELLED}"
    using assms(2) by (cases "j_status j") simp_all
  ultimately show ?thesis
    using assms(3) by (cases a) (auto simp: job_ops assert_lease_def Let_def split: option.splits)
qed

lemma expire_lease_expired:
  assumes "j_lease j = Some l" and "l_expires_at l \<le> now"
  shows "snd (job_expire_lease j now) \<longleftrightarrow> j_attempt j < j_max_attempts j"
    and "j_status (fst (job_expire_lease j now)) =
           (if j_attempt j < j_max_attempts j then JOB_FAILED else JOB_DEAD)"
    and "j_lease (fst (job_expire_lease j now)) = None"
    and "j_attempt (fst (job_expire_lease j now)) = j_attempt j"
    and "j_max_attempts (fst (job_expire_lease j now)) = j_max_attempts j"
  using assms by (auto simp: job_expire_lease_def is_expired_def Let_def)

lemma requeue_failed:
  assumes "j_status j = JOB_FAILED" and "j_attempt j < j_max_attempts j"
  shows "snd (job_requeue j now reason) = Inr ()"
    and "j_status (fst (job_requeue j now reason)) = JOB_QUEUED"
    and "j_attempt (fst (job_requeue j now reason)) = j_attempt j"
  using assms by (auto simp: job_requeue_def)

lemma enqueue_enqueue: "snd (job_enqueue j t1) = Inr () \<Longrightarrow> job_enqueue (fst (job_enqueue j t1)) t2 = (fst (job_enqueue j t1), Inr ())"
  by (auto simp: job_enqueue_def split: if_splits)

lemma complete_complete:
  "snd (job_complete j token t1 res) = Inr () \<Longrightarrow>
   job_complete (fst (job_complete j token t1 res)) token' t2 res' = (fst (job_complete j token t1 res), Inr ())"
  by (auto simp: job_complete_def Let_def split: sum.splits option.splits if_splits)

lemma cancel_cancel: "job_cancel (job_cancel j t1) t2 = job_cancel j t1"
  by (simp add: job_cancel_def)

section \<open>Properties\<close>

abbreviation demo_job :: job where
  "demo_job \<equiv> \<lparr>j_id = JobId 1, j_run_id = RunId 2, j_project_id = ProjectId 3, j_type = CODE,
     j_role = Some CODER, j_candidate_id = Some (CandidateId 4), j_priority = NORMAL,
     j_status = JOB_PENDING, j_attempt = 0, j_max_attempts = 2, j_payload = [],
     j_requirements = None, j_idempotency_key = None, j_lease = None,
     j_assigned_worker_id = None, j_created_at = 0, j_started_at = None, j_completed_at = None,
     j_result = None, j_failure_kind = None, j_failure_reason = None, j_events = []\<rparr>"

abbreviation demo_token :: lease_token where
  "demo_token \<equiv> LeaseToken ''t1''"

abbreviation demo_leased_job :: job where
  "demo_leased_job \<equiv> job_apply (job_apply demo_job 5 Enqueue) 10
     (Lease_To (WorkerId 9) 100 (Some demo_token) (LeaseToken ''unused''))"

lemma demo_job_reachable: "job_reachable demo_job"
  by (rule job_reachable.created [of "JobId 1" "RunId 2" "ProjectId 3" CODE 0 "Some CODER"
        "Some (CandidateId 4)" NORMAL "[]" None 2 None])
     (simp add: job_create_def mk_job_def)

lemma demo_leased_job_reachable: "job_reachable demo_leased_job"
  by (rule job_reachable.step, rule job_reachable.step, rule demo_job_reachable) simp_all

text \<open>
  C1. However a job's methods are called, in whatever order and at whatever times (leases being
  asked for a positive duration), the job stays well formed: a lease is held exactly while the
  job is in flight, it names the assigned worker, a job that may still be picked up has an attempt
  left, a finished job has a completion time. The attempt counter is exactly the number of
  leases granted, and never exceeds the retry budget.
\<close>

theorem job_attempt_budget:
  assumes "job_reachable j"
  shows "wf_job j \<and> int (leases_granted j) = j_attempt j \<and> int (leases_granted j) \<le> j_max_attempts j"
  using job_reachable_wf [OF assms] leases_granted_reachable [OF assms] by (simp add: wf_job_def)

theorem job_attempt_budget_witness:
  "job_reachable demo_leased_job \<and> wf_job demo_leased_job \<and> leases_granted demo_leased_job = 1"
  using job_attempt_budget [OF demo_leased_job_reachable] demo_leased_job_reachable
  by (simp add: job_enqueue_def job_lease_to_def lease_granted_def mk_lease_def Let_def)

text \<open>
  C2. A finished job (succeeded, dead or cancelled) is never changed by any call, replayed or
  late, that carries a lease token or is made by the machinery: at-least-once delivery cannot
  revive it. The one exception is a completion reported without a token, which the code lets
  through unchecked.
\<close>

theorem job_terminal_is_final:
  assumes "job_reachable j" and "job_is_terminal (j_status j)" and "\<forall>r. a \<noteq> Complete None r"
  shows "job_apply j now a = j"
  using job_reachable_wf [OF assms(1)] assms(2,3) by (rule terminal_apply)

theorem job_terminal_is_final_witness:
  "job_reachable (job_apply demo_job 7 Cancel) \<and> j_status (job_apply demo_job 7 Cancel) = JOB_CANCELLED
   \<and> job_apply (job_apply demo_job 7 Cancel) 8 Enqueue = job_apply demo_job 7 Cancel"
proof -
  have r: "job_reachable (job_apply demo_job 7 Cancel)"
    by (rule job_reachable.step [OF demo_job_reachable]) simp
  have t: "job_is_terminal (j_status (job_apply demo_job 7 Cancel))"
    by (simp add: job_cancel_def)
  show ?thesis
    using r job_terminal_is_final [OF r t, of Enqueue 8] by (simp add: job_cancel_def)
qed

text \<open>
  Fencing. A report that carries a token the job's live lease does not have (another token, no
  lease, or a lapsed lease) raises \<open>JobLeaseExpiredError\<close> and leaves the job untouched, whether it
  marks the job running, renews, completes or fails it. Only replays on a job that already
  reached the reported end are absorbed without an error.
\<close>

theorem job_stale_report_rejected:
  assumes "\<not> holds_lease j token now"
  shows "(\<exists>h. job_mark_running j token now = (j, Inl (JobLeaseExpiredError (j_id j) h)))
    \<and> (\<exists>h. job_renew_lease j token now dur = (j, Inl (JobLeaseExpiredError (j_id j) h)))
    \<and> (j_status j \<noteq> JOB_SUCCEEDED \<longrightarrow>
         (\<exists>h. job_complete j (Some token) now res = (j, Inl (JobLeaseExpiredError (j_id j) h))))
    \<and> (\<not> job_is_terminal (j_status j) \<longrightarrow>
         (\<exists>h. job_fail j (Some token) now kind reason retryable
              = (j, Inl (JobLeaseExpiredError (j_id j) h))))"
  using assert_lease_Inl [OF assms]
  by (auto simp: job_mark_running_def job_renew_lease_def job_complete_def job_fail_def)

theorem job_stale_report_rejected_witness:
  "\<not> holds_lease demo_leased_job (LeaseToken ''t0'') 20
   \<and> (\<exists>h. job_complete demo_leased_job (Some (LeaseToken ''t0'')) 20 None
          = (demo_leased_job, Inl (JobLeaseExpiredError (j_id demo_leased_job) h)))
   \<and> (\<exists>h. job_complete demo_leased_job (Some demo_token) 110 None
          = (demo_leased_job, Inl (JobLeaseExpiredError (j_id demo_leased_job) h)))"
proof -
  have a: "\<not> holds_lease demo_leased_job (LeaseToken ''t0'') 20"
    and b: "\<not> holds_lease demo_leased_job demo_token 110"
    and s: "j_status demo_leased_job \<noteq> JOB_SUCCEEDED"
    by (simp_all add: holds_lease_def job_enqueue_def job_lease_to_def lease_granted_def
        mk_lease_def Let_def)
  show ?thesis
    using a s job_stale_report_rejected [OF a] job_stale_report_rejected [OF b] by blast
qed

text \<open>
  No job stays stuck with a silent holder. Once the lease of an in-flight job has lapsed,
  \<open>expire_lease\<close> reports whether an attempt is left; if so the job can be requeued at once and is
  claimable again, with its attempt counted; if not it is dead. It is never left in flight.
\<close>

theorem job_abandoned_is_recovered:
  assumes "j_lease j = Some l" and "l_expires_at l \<le> now"
  shows "if j_attempt j < j_max_attempts j
         then snd (job_expire_lease j now)
            \<and> snd (job_requeue (fst (job_expire_lease j now)) now reason) = Inr ()
            \<and> j_status (fst (job_requeue (fst (job_expire_lease j now)) now reason)) = JOB_QUEUED
            \<and> j_attempt (fst (job_requeue (fst (job_expire_lease j now)) now reason)) = j_attempt j
         else \<not> snd (job_expire_lease j now) \<and> j_status (fst (job_expire_lease j now)) = JOB_DEAD"
  using expire_lease_expired [OF assms] requeue_failed [of "fst (job_expire_lease j now)" now reason]
  by simp

theorem job_abandoned_is_recovered_witness:
  "j_attempt demo_leased_job < j_max_attempts demo_leased_job
   \<and> j_status (fst (job_requeue (fst (job_expire_lease demo_leased_job 200)) 200 ''x'')) = JOB_QUEUED"
proof -
  have l: "j_lease demo_leased_job = Some \<lparr>l_job_id = JobId 1, l_holder = WorkerId 9,
      l_token = demo_token, l_acquired_at = 10, l_expires_at = 110\<rparr>"
    and n: "j_attempt demo_leased_job < j_max_attempts demo_leased_job"
    by (simp_all add: job_enqueue_def job_lease_to_def lease_granted_def mk_lease_def Let_def)
  show ?thesis
    using job_abandoned_is_recovered [OF l, of 200 "''x''"] n by simp
qed

end
