(* ===== verification/Run.thy ===== *)
theory Run
  imports Values
begin

text \<open>
  The run state machine (\<open>src/src/domain/services/run_state_machine.py\<close>) and the run aggregate
  (\<open>src/src/domain/entities/run.py\<close>). Every workflow method goes through \<open>run_transition\<close>, which
  consults the transition table; the lifecycle is a transition system with invariant
  \<open>wf_run\<close> and a measure that every change of status decreases.
\<close>

section \<open>The transition table\<close>

fun run_transitions :: "run_status \<Rightarrow> run_status list" where
  "run_transitions RUN_CREATED = [RUN_PLANNING, RUN_CODING, RUN_FAILED]"
| "run_transitions RUN_PLANNING = [RUN_PLAN_READY, RUN_FAILED]"
| "run_transitions RUN_PLAN_READY = [RUN_CODING, RUN_PLANNING, RUN_FAILED]"
| "run_transitions RUN_CODING = [RUN_VALIDATING, RUN_REVIEWING, RUN_FAILED]"
| "run_transitions RUN_VALIDATING = [RUN_REVIEWING, RUN_REPAIRING, RUN_FAILED]"
| "run_transitions RUN_REVIEWING = [RUN_COMPLETED, RUN_REPAIRING, RUN_FAILED]"
| "run_transitions RUN_REPAIRING = [RUN_CODING, RUN_PLANNING, RUN_FAILED]"
| "run_transitions RUN_CANCELLING = [RUN_CANCELLED, RUN_FAILED]"
| "run_transitions RUN_COMPLETED = []"
| "run_transitions RUN_FAILED = []"
| "run_transitions RUN_CANCELLED = []"

definition allowed_from :: "run_status \<Rightarrow> run_status list" where
  "allowed_from s =
     (if \<not> run_is_terminal s \<and> s \<noteq> RUN_CANCELLING then run_transitions s @ [RUN_CANCELLING]
      else run_transitions s)"

definition run_can :: "run_status \<Rightarrow> run_status \<Rightarrow> bool" where
  "run_can current requested \<longleftrightarrow> requested \<in> set (allowed_from current)"

definition run_ensure :: "run_status \<Rightarrow> run_status \<Rightarrow> error + unit" where
  "run_ensure current requested =
     (if run_can current requested then Inr ()
      else Inl (InvalidStateTransitionError ''Run'' (run_status_value current) (run_status_value requested)))"

lemma run_can_terminal [simp]: "run_is_terminal s \<Longrightarrow> \<not> run_can s t"
  by (cases s) (simp_all add: run_can_def allowed_from_def)

lemma run_can_self [simp]: "\<not> run_can s s"
  by (cases s) (simp_all add: run_can_def allowed_from_def)

lemma run_can_failed [simp]: "run_can s RUN_FAILED \<longleftrightarrow> \<not> run_is_terminal s"
  by (cases s) (simp_all add: run_can_def allowed_from_def)

lemma run_can_cancelling [simp]:
  "run_can s RUN_CANCELLING \<longleftrightarrow> \<not> run_is_terminal s \<and> s \<noteq> RUN_CANCELLING"
  by (cases s) (simp_all add: run_can_def allowed_from_def)

lemma run_can_completed [simp]: "run_can s RUN_COMPLETED \<longleftrightarrow> s = RUN_REVIEWING"
  by (cases s) (simp_all add: run_can_def allowed_from_def)

lemma run_can_cancelled [simp]: "run_can s RUN_CANCELLED \<longleftrightarrow> s = RUN_CANCELLING"
  by (cases s) (simp_all add: run_can_def allowed_from_def)

lemma run_can_reviewing [simp]: "run_can s RUN_REVIEWING \<longleftrightarrow> s \<in> {RUN_CODING, RUN_VALIDATING}"
  by (cases s) (simp_all add: run_can_def allowed_from_def)

lemma run_can_repairing [simp]: "run_can s RUN_REPAIRING \<longleftrightarrow> s \<in> {RUN_VALIDATING, RUN_REVIEWING}"
  by (cases s) (simp_all add: run_can_def allowed_from_def)

lemma run_can_validating [simp]: "run_can s RUN_VALIDATING \<longleftrightarrow> s = RUN_CODING"
  by (cases s) (simp_all add: run_can_def allowed_from_def)

lemma run_can_coding [simp]:
  "run_can s RUN_CODING \<longleftrightarrow> s \<in> {RUN_CREATED, RUN_PLAN_READY, RUN_REPAIRING}"
  by (cases s) (simp_all add: run_can_def allowed_from_def)

lemma run_can_plan_ready [simp]: "run_can s RUN_PLAN_READY \<longleftrightarrow> s = RUN_PLANNING"
  by (cases s) (simp_all add: run_can_def allowed_from_def)

lemma run_can_planning [simp]:
  "run_can s RUN_PLANNING \<longleftrightarrow> s \<in> {RUN_CREATED, RUN_PLAN_READY, RUN_REPAIRING}"
  by (cases s) (simp_all add: run_can_def allowed_from_def)

section \<open>State\<close>

record run =
  r_id :: run_id
  r_project_id :: project_id
  r_objective :: string
  r_candidate_count :: int
  r_limits :: run_limits
  r_status :: run_status
  r_plan_id :: "plan_id option"
  r_plan_revisions :: int
  r_repair_iterations :: int
  r_review_iterations :: int
  r_selected_candidate_id :: "candidate_id option"
  r_token_usage :: token_usage
  r_idempotency_key :: "idempotency_key option"
  r_metadata :: json_object
  r_created_at :: moment
  r_started_at :: "moment option"
  r_completed_at :: "moment option"
  r_updated_at :: moment
  r_failure_kind :: "failure_kind option"
  r_failure_reason :: "string option"
  r_events :: "event list"

text \<open>The checks of \<open>Run.__init__\<close>; the stored objective is stripped, the event buffer empty.\<close>

definition mk_run :: "run \<Rightarrow> error + run" where
  "mk_run r =
     (if strip (r_objective r) = [] then Inl (ValueError ''a run needs a non-empty objective'')
      else if r_candidate_count r < 1 then Inl (ValueError ''candidate_count must be at least 1'')
      else if r_candidate_count r > max_parallel_candidates (r_limits r)
      then Inl (ValueError (''candidate_count '' @ show_int (r_candidate_count r)
             @ '' exceeds the configured maximum '' @ show_int (max_parallel_candidates (r_limits r))))
      else Inr (r\<lparr>r_objective := strip (r_objective r), r_events := []\<rparr>))"

definition run_record :: "event \<Rightarrow> run \<Rightarrow> run" where
  "run_record e r = r\<lparr>r_events := record_event (r_events r) e\<rparr>"

definition run_create ::
  "run_id \<Rightarrow> project_id \<Rightarrow> string \<Rightarrow> moment \<Rightarrow> int \<Rightarrow> run_limits option \<Rightarrow> idempotency_key option
   \<Rightarrow> json_object \<Rightarrow> error + run" where
  "run_create rid pid objective now count limits key meta =
     map_sum id
       (\<lambda>r. run_record (RunCreated now rid pid (r_objective r) count) r)
       (mk_run \<lparr>r_id = rid, r_project_id = pid, r_objective = objective, r_candidate_count = count,
          r_limits = or_else limits default_run_limits, r_status = RUN_CREATED, r_plan_id = None,
          r_plan_revisions = 0, r_repair_iterations = 0, r_review_iterations = 0,
          r_selected_candidate_id = None, r_token_usage = no_tokens, r_idempotency_key = key,
          r_metadata = meta, r_created_at = now, r_started_at = None, r_completed_at = None,
          r_updated_at = now, r_failure_kind = None, r_failure_reason = None, r_events = []\<rparr>)"

definition can_revise_plan :: "run \<Rightarrow> bool" where
  "can_revise_plan r \<longleftrightarrow> r_plan_revisions r < max_plan_revisions (r_limits r) + 1"

definition can_repair :: "run \<Rightarrow> bool" where
  "can_repair r \<longleftrightarrow> r_repair_iterations r < max_repair_iterations (r_limits r)"

section \<open>Workflow\<close>

definition run_transition :: "run \<Rightarrow> run_status \<Rightarrow> moment \<Rightarrow> string option \<Rightarrow> (run, unit) result" where
  "run_transition r target now reason =
     (case run_ensure (r_status r) target of
        Inl e \<Rightarrow> (r, Inl e)
      | Inr _ \<Rightarrow>
          (run_record (RunStateChanged now (r_id r) (r_status r) target reason)
             (r\<lparr>r_status := target, r_updated_at := now\<rparr>), Inr ()))"

definition run_start_planning :: "run \<Rightarrow> moment \<Rightarrow> (run, unit) result" where
  "run_start_planning r now =
     bind_outcome (run_transition r RUN_PLANNING now None) (\<lambda>r1 _.
       let r2 = r1\<lparr>r_started_at := Some (or_else (r_started_at r1) now),
                   r_plan_revisions := r_plan_revisions r1 + 1\<rparr>
       in (run_record (PlanRequested now (r_id r2) (r_plan_revisions r2)) r2, Inr ()))"

definition run_plan_ready :: "run \<Rightarrow> plan_id \<Rightarrow> int \<Rightarrow> moment \<Rightarrow> (run, unit) result" where
  "run_plan_ready r plan task_count now =
     bind_outcome (run_transition r RUN_PLAN_READY now None) (\<lambda>r1 _.
       (run_record (PlanCompleted now (r_id r1) plan (r_plan_revisions r1) task_count)
          (r1\<lparr>r_plan_id := Some plan\<rparr>), Inr ()))"

definition run_start_coding :: "run \<Rightarrow> moment \<Rightarrow> (run, unit) result" where
  "run_start_coding r now =
     bind_outcome (run_transition r RUN_CODING now None) (\<lambda>r1 _.
       (r1\<lparr>r_started_at := Some (or_else (r_started_at r1) now)\<rparr>, Inr ()))"

definition run_start_validating :: "run \<Rightarrow> moment \<Rightarrow> (run, unit) result" where
  "run_start_validating r now = run_transition r RUN_VALIDATING now None"

definition run_start_reviewing :: "run \<Rightarrow> candidate_id \<Rightarrow> moment \<Rightarrow> (run, unit) result" where
  "run_start_reviewing r cand now =
     bind_outcome (run_transition r RUN_REVIEWING now None) (\<lambda>r1 _.
       let r2 = r1\<lparr>r_review_iterations := r_review_iterations r1 + 1\<rparr>
       in (run_record (ReviewRequested now (r_id r2) cand (r_review_iterations r2)) r2, Inr ()))"

definition run_request_repair :: "run \<Rightarrow> candidate_id \<Rightarrow> string \<Rightarrow> moment \<Rightarrow> (run, bool) result" where
  "run_request_repair r cand reason now =
     (if \<not> can_repair r then (r, Inr False)
      else bind_outcome (run_transition r RUN_REPAIRING now None) (\<lambda>r1 _.
        let r2 = r1\<lparr>r_repair_iterations := r_repair_iterations r1 + 1\<rparr>
        in (run_record (RepairRequested now (r_id r2) cand (r_repair_iterations r2) reason) r2,
            Inr True)))"

definition run_request_plan_revision :: "run \<Rightarrow> moment \<Rightarrow> (run, bool) result" where
  "run_request_plan_revision r now =
     (if \<not> can_revise_plan r then (r, Inr False)
      else bind_outcome (run_transition r RUN_PLANNING now None) (\<lambda>r1 _.
        let r2 = r1\<lparr>r_plan_revisions := r_plan_revisions r1 + 1\<rparr>
        in (run_record (PlanRequested now (r_id r2) (r_plan_revisions r2)) r2, Inr True)))"

definition run_select_candidate :: "run \<Rightarrow> candidate_id \<Rightarrow> string \<Rightarrow> moment \<Rightarrow> run" where
  "run_select_candidate r cand rationale now =
     run_record (CandidateSelected now (r_id r) cand rationale)
       (r\<lparr>r_selected_candidate_id := Some cand, r_updated_at := now\<rparr>)"

definition run_complete :: "run \<Rightarrow> moment \<Rightarrow> candidate_id option \<Rightarrow> (run, unit) result" where
  "run_complete r now cand =
     bind_outcome (run_transition r RUN_COMPLETED now None) (\<lambda>r1 _.
       let r2 = (case cand of None \<Rightarrow> r1 | Some c \<Rightarrow> r1\<lparr>r_selected_candidate_id := Some c\<rparr>);
           r3 = r2\<lparr>r_completed_at := Some now\<rparr>
       in (run_record (RunCompleted now (r_id r3) (r_selected_candidate_id r3)) r3, Inr ()))"

definition run_fail :: "run \<Rightarrow> moment \<Rightarrow> failure_kind \<Rightarrow> string \<Rightarrow> (run, unit) result" where
  "run_fail r now kind reason =
     (if run_is_terminal (r_status r) then (r, Inr ())
      else bind_outcome (run_transition r RUN_FAILED now None) (\<lambda>r1 _.
        (run_record (RunFailed now (r_id r1) kind reason)
           (r1\<lparr>r_failure_kind := Some kind, r_failure_reason := Some reason,
               r_completed_at := Some now\<rparr>), Inr ())))"

definition run_request_cancellation :: "run \<Rightarrow> moment \<Rightarrow> string option \<Rightarrow> (run, bool) result" where
  "run_request_cancellation r now reason =
     (if run_is_terminal (r_status r) \<or> r_status r = RUN_CANCELLING then (r, Inr False)
      else bind_outcome (run_transition r RUN_CANCELLING now reason) (\<lambda>r1 _. (r1, Inr True)))"

definition run_confirm_cancelled :: "run \<Rightarrow> moment \<Rightarrow> string option \<Rightarrow> (run, unit) result" where
  "run_confirm_cancelled r now reason =
     (if r_status r = RUN_CANCELLED then (r, Inr ())
      else bind_outcome (run_transition r RUN_CANCELLED now reason) (\<lambda>r1 _.
        (run_record (RunCancelled now (r_id r1) reason)
           (r1\<lparr>r_failure_kind := Some FK_CANCELLED, r_completed_at := Some now\<rparr>), Inr ())))"

definition run_add_token_usage :: "run \<Rightarrow> token_usage \<Rightarrow> moment \<Rightarrow> (run, unit) result" where
  "run_add_token_usage r usage now =
     (case add_usage (r_token_usage r) usage of
        Inl e \<Rightarrow> (r, Inl e)
      | Inr u \<Rightarrow> (r\<lparr>r_token_usage := u, r_updated_at := now\<rparr>, Inr ()))"

definition run_ensure_modifiable :: "run \<Rightarrow> error + unit" where
  "run_ensure_modifiable r =
     (if run_is_terminal (r_status r) then Inl (RunNotModifiableError (r_id r) (r_status r)) else Inr ())"

lemmas run_ops = run_start_planning_def run_plan_ready_def run_start_coding_def
  run_start_validating_def run_start_reviewing_def run_request_repair_def
  run_request_plan_revision_def run_select_candidate_def run_complete_def run_fail_def
  run_request_cancellation_def run_confirm_cancelled_def run_add_token_usage_def

lemma run_record_simps [simp]:
  "r_id (run_record e r) = r_id r" "r_project_id (run_record e r) = r_project_id r"
  "r_objective (run_record e r) = r_objective r" "r_status (run_record e r) = r_status r"
  "r_candidate_count (run_record e r) = r_candidate_count r" "r_limits (run_record e r) = r_limits r"
  "r_plan_id (run_record e r) = r_plan_id r" "r_plan_revisions (run_record e r) = r_plan_revisions r"
  "r_repair_iterations (run_record e r) = r_repair_iterations r"
  "r_review_iterations (run_record e r) = r_review_iterations r"
  "r_selected_candidate_id (run_record e r) = r_selected_candidate_id r"
  "r_token_usage (run_record e r) = r_token_usage r" "r_metadata (run_record e r) = r_metadata r"
  "r_started_at (run_record e r) = r_started_at r" "r_completed_at (run_record e r) = r_completed_at r"
  "r_updated_at (run_record e r) = r_updated_at r" "r_failure_kind (run_record e r) = r_failure_kind r"
  "r_failure_reason (run_record e r) = r_failure_reason r"
  "r_events (run_record e r) = r_events r @ [e]"
  by (simp_all add: run_record_def record_event_def)

lemma run_transition_eq:
  "run_transition r target now reason =
     (if run_can (r_status r) target
      then (run_record (RunStateChanged now (r_id r) (r_status r) target reason)
              (r\<lparr>r_status := target, r_updated_at := now\<rparr>), Inr ())
      else (r, Inl (InvalidStateTransitionError ''Run'' (run_status_value (r_status r))
                      (run_status_value target))))"
  by (simp add: run_transition_def run_ensure_def)

section \<open>The lifecycle as a transition system\<close>

datatype run_action =
    Start_Planning
  | Plan_Ready plan_id int
  | Start_Coding
  | Start_Validating
  | Start_Reviewing candidate_id
  | Request_Repair candidate_id string
  | Request_Plan_Revision
  | Select_Candidate candidate_id string
  | Run_Complete "candidate_id option"
  | Run_Fail failure_kind string
  | Request_Cancellation "string option"
  | Confirm_Cancelled "string option"
  | Add_Token_Usage token_usage

fun run_apply :: "run \<Rightarrow> moment \<Rightarrow> run_action \<Rightarrow> run" where
  "run_apply r now Start_Planning = fst (run_start_planning r now)"
| "run_apply r now (Plan_Ready p n) = fst (run_plan_ready r p n now)"
| "run_apply r now Start_Coding = fst (run_start_coding r now)"
| "run_apply r now Start_Validating = fst (run_start_validating r now)"
| "run_apply r now (Start_Reviewing c) = fst (run_start_reviewing r c now)"
| "run_apply r now (Request_Repair c s) = fst (run_request_repair r c s now)"
| "run_apply r now Request_Plan_Revision = fst (run_request_plan_revision r now)"
| "run_apply r now (Select_Candidate c s) = run_select_candidate r c s now"
| "run_apply r now (Run_Complete c) = fst (run_complete r now c)"
| "run_apply r now (Run_Fail k s) = fst (run_fail r now k s)"
| "run_apply r now (Request_Cancellation s) = fst (run_request_cancellation r now s)"
| "run_apply r now (Confirm_Cancelled s) = fst (run_confirm_cancelled r now s)"
| "run_apply r now (Add_Token_Usage u) = fst (run_add_token_usage r u now)"

text \<open>
  The orchestrator calls \<open>start_planning\<close> from \<open>_open_first_stage\<close> only, on a run that is still
  CREATED; later plans go through \<open>request_plan_revision\<close>, which checks the budget.
\<close>

fun run_guard :: "run \<Rightarrow> run_action \<Rightarrow> bool" where
  "run_guard r Start_Planning = (r_status r = RUN_CREATED)"
| "run_guard r _ = True"

inductive run_reachable :: "run \<Rightarrow> bool" where
  created: "wf_limits (or_else limits default_run_limits) \<Longrightarrow>
     run_create rid pid objective now count limits key meta = Inr r \<Longrightarrow> run_reachable r"
| step: "run_reachable r \<Longrightarrow> run_guard r a \<Longrightarrow> run_reachable (run_apply r now a)"

fun is_state_change :: "event \<Rightarrow> bool" where
  "is_state_change (RunStateChanged _ _ _ _ _) = True"
| "is_state_change _ = False"

abbreviation state_changes :: "run \<Rightarrow> nat" where
  "state_changes r \<equiv> length (filter is_state_change (r_events r))"

definition wf_run :: "run \<Rightarrow> bool" where
  "wf_run r \<longleftrightarrow>
     wf_limits (r_limits r) \<and> r_objective r \<noteq> [] \<and> strip (r_objective r) = r_objective r
   \<and> 1 \<le> r_candidate_count r \<and> r_candidate_count r \<le> max_parallel_candidates (r_limits r)
   \<and> 0 \<le> r_repair_iterations r \<and> r_repair_iterations r \<le> max_repair_iterations (r_limits r)
   \<and> 0 \<le> r_plan_revisions r \<and> r_plan_revisions r \<le> max_plan_revisions (r_limits r) + 1
   \<and> 0 \<le> r_review_iterations r
   \<and> (r_status r = RUN_CREATED \<longrightarrow> r_plan_revisions r = 0)
   \<and> (r_status r \<in> {RUN_REVIEWING, RUN_COMPLETED} \<longrightarrow> 1 \<le> r_review_iterations r)
   \<and> (r_completed_at r \<noteq> None \<longleftrightarrow> run_is_terminal (r_status r))
   \<and> (r_failure_kind r \<noteq> None \<longleftrightarrow> r_status r \<in> {RUN_FAILED, RUN_CANCELLED})"

text \<open>Distance of a status from the end of a run that takes no repair and no further plan.\<close>

fun status_height :: "run_status \<Rightarrow> nat" where
  "status_height RUN_CREATED = 10"
| "status_height RUN_PLANNING = 9"
| "status_height RUN_PLAN_READY = 8"
| "status_height RUN_REPAIRING = 7"
| "status_height RUN_CODING = 6"
| "status_height RUN_VALIDATING = 5"
| "status_height RUN_REVIEWING = 4"
| "status_height RUN_CANCELLING = 1"
| "status_height _ = 0"

definition run_measure :: "run \<Rightarrow> nat" where
  "run_measure r = 11 * (nat (max_repair_iterations (r_limits r) - r_repair_iterations r)
                       + nat (max_plan_revisions (r_limits r) + 1 - r_plan_revisions r))
                   + status_height (r_status r)"

lemmas run_step_simps = run_ops run_transition_eq Let_def can_repair_def can_revise_plan_def

lemma wf_run_create:
  assumes "wf_limits (or_else limits default_run_limits)"
    and "run_create rid pid objective now count limits key meta = Inr r"
  shows "wf_run r" and "r_status r = RUN_CREATED" and "state_changes r = 0"
    and "r_repair_iterations r = 0" and "r_plan_revisions r = 0"
    and "r_limits r = or_else limits default_run_limits"
  using assms by (auto simp: run_create_def mk_run_def wf_run_def wf_limits_def split: if_splits)

lemma wf_run_apply:
  assumes "wf_run r" and "run_guard r a"
  shows "wf_run (run_apply r now a)"
proof (cases a)
  case (Add_Token_Usage u)
  with assms show ?thesis by (auto simp: wf_run_def run_add_token_usage_def split: sum.splits)
qed (use assms in \<open>auto simp: wf_run_def run_step_simps wf_limits_def split: option.splits\<close>)

lemma run_limits_apply [simp]: "r_limits (run_apply r now a) = r_limits r"
  by (cases a) (auto simp: run_step_simps split: option.splits sum.splits)

lemma run_status_apply:
  "r_status (run_apply r now a) = r_status r
   \<or> run_can (r_status r) (r_status (run_apply r now a))"
  by (cases a) (auto simp: run_step_simps split: option.splits sum.splits)

lemma run_measure_apply:
  assumes "run_guard r a"
  shows "run_measure (run_apply r now a) + state_changes (run_apply r now a)
         \<le> run_measure r + state_changes r"
proof (cases a)
  case (Request_Repair c s)
  have *: "nat (m - (k + 1)) + 1 = nat (m - k)" if "k < m" for k m :: int using that by simp
  from Request_Repair show ?thesis
    using * [of "r_repair_iterations r" "max_repair_iterations (r_limits r)"]
    by (auto simp: run_step_simps run_measure_def)
next
  case Request_Plan_Revision
  then show ?thesis by (auto simp: run_step_simps run_measure_def)
next
  case (Add_Token_Usage u)
  then show ?thesis by (auto simp: run_add_token_usage_def run_measure_def split: sum.splits)
next
  case (Run_Fail k s)
  then show ?thesis
    by (cases "r_status r") (auto simp: run_step_simps run_measure_def)
next
  case (Request_Cancellation s)
  then show ?thesis
    by (cases "r_status r") (auto simp: run_step_simps run_measure_def)
qed (use assms in \<open>auto simp: run_step_simps run_measure_def split: option.splits\<close>)

lemma run_reachable_wf: "run_reachable r \<Longrightarrow> wf_run r"
  by (induction rule: run_reachable.induct) (auto intro: wf_run_create(1) wf_run_apply)

lemma run_reachable_budget:
  assumes "run_reachable r"
  shows "int (run_measure r + state_changes r)
           \<le> 21 + 11 * (max_repair_iterations (r_limits r) + max_plan_revisions (r_limits r))"
  using assms
proof (induction rule: run_reachable.induct)
  case (created limits rid pid objective now count key meta r)
  from wf_run_create [OF this] show ?case
    by (simp add: run_measure_def wf_run_def wf_limits_def)
next
  case (step r a now)
  from run_measure_apply [OF step.hyps(2), of now] step.IH show ?case by simp
qed

lemma run_fail_total: "snd (run_fail r now kind reason) = Inr ()"
  by (auto simp: run_step_simps)

lemma run_fail_terminal: "run_is_terminal (r_status (fst (run_fail r now kind reason)))"
  by (auto simp: run_step_simps)

section \<open>Properties\<close>

abbreviation demo_run :: run where
  "demo_run \<equiv> \<lparr>r_id = RunId 2, r_project_id = ProjectId 3, r_objective = ''fix it'',
     r_candidate_count = 1, r_limits = default_run_limits, r_status = RUN_CREATED,
     r_plan_id = None, r_plan_revisions = 0, r_repair_iterations = 0, r_review_iterations = 0,
     r_selected_candidate_id = None, r_token_usage = no_tokens, r_idempotency_key = None,
     r_metadata = [], r_created_at = 0, r_started_at = None, r_completed_at = None,
     r_updated_at = 0, r_failure_kind = None, r_failure_reason = None,
     r_events = [RunCreated 0 (RunId 2) (ProjectId 3) ''fix it'' 1]\<rparr>"

lemma demo_run_reachable: "run_reachable demo_run"
  by (rule run_reachable.created [of None "RunId 2" "ProjectId 3" "''fix it''" 0 1 None "[]"])
     (simp_all add: wf_limits_def default_run_limits_def run_create_def mk_run_def strip_def
        py_isspace_def run_record_def record_event_def no_tokens_def)

abbreviation demo_coding_run :: run where
  "demo_coding_run \<equiv> run_apply demo_run 5 Start_Coding"

lemma demo_coding_run_reachable: "run_reachable demo_coding_run"
  by (rule run_reachable.step [OF demo_run_reachable]) simp

text \<open>
  C3. Every reachable run respects its budgets: repairs and plan revisions never exceed the limits
  that travel with the run, the candidate fan-out stays within the configured maximum, a run
  that is completed went through a review, a completion time is recorded exactly in the
  terminal states and a failure kind exactly in FAILED and CANCELLED.
\<close>

theorem run_lifecycle_invariant:
  assumes "run_reachable r"
  shows "wf_run r"
  using assms by (rule run_reachable_wf)

theorem run_lifecycle_invariant_witness:
  "wf_run demo_coding_run \<and> r_status demo_coding_run = RUN_CODING"
  using run_lifecycle_invariant [OF demo_coding_run_reachable] by (simp add: run_step_simps)

text \<open>
  C4. Every loop is bounded. Over its whole life a run changes status at most
  \<open>21 + 11 * (max_repair_iterations + max_plan_revisions)\<close> times, whatever the order of the
  calls: each change consumes a part of a budget or brings the run closer to its end.
\<close>

theorem run_transitions_bounded:
  assumes "run_reachable r"
  shows "int (state_changes r)
           \<le> 21 + 11 * (max_repair_iterations (r_limits r) + max_plan_revisions (r_limits r))"
  using run_reachable_budget [OF assms] by simp

theorem run_transitions_bounded_witness:
  "int (state_changes demo_coding_run)
     \<le> 21 + 11 * (max_repair_iterations (r_limits demo_coding_run)
                   + max_plan_revisions (r_limits demo_coding_run))
   \<and> state_changes demo_coding_run = 1"
  using run_transitions_bounded [OF demo_coding_run_reachable] by (simp add: run_step_simps)

text \<open>
  No method of a run moves it along an edge the transition table does not have; a terminal
  run keeps its status for ever. Failing a run never raises and always ends in a terminal
  status, and a run that is still going is cancelled by \<open>request_cancellation\<close> followed by
  \<open>confirm_cancelled\<close>, whatever stage it was in.
\<close>

theorem run_moves_by_the_table:
  "(r_status (run_apply r now a) = r_status r
      \<or> run_can (r_status r) (r_status (run_apply r now a)))
   \<and> (run_is_terminal (r_status r) \<longrightarrow> r_status (run_apply r now a) = r_status r)
   \<and> snd (run_fail r now kind reason) = Inr ()
   \<and> run_is_terminal (r_status (fst (run_fail r now kind reason)))
   \<and> (\<not> run_is_terminal (r_status r) \<longrightarrow>
        r_status (run_apply (run_apply r now (Request_Cancellation why)) later (Confirm_Cancelled why))
          = RUN_CANCELLED)"
  using run_status_apply [of r now a] run_fail_total [of r now kind reason]
    run_fail_terminal [of r now kind reason]
  by (auto simp: run_request_cancellation_def run_confirm_cancelled_def run_transition_eq)

theorem run_moves_by_the_table_witness:
  "\<not> run_is_terminal (r_status demo_coding_run)
   \<and> r_status (run_apply (run_apply demo_coding_run 7 (Request_Cancellation None)) 8
        (Confirm_Cancelled None)) = RUN_CANCELLED
   \<and> r_status (run_apply (run_apply demo_run 7 (Run_Fail FK_TOOL ''x'')) 8 Start_Coding) = RUN_FAILED"
proof -
  have a: "\<not> run_is_terminal (r_status demo_coding_run)" by (simp add: run_step_simps)
  have b: "r_status (run_apply demo_run 7 (Run_Fail FK_TOOL ''x'')) = RUN_FAILED"
    by (simp add: run_step_simps)
  show ?thesis
    using run_moves_by_the_table [of demo_coding_run 7 Start_Coding FK_TOOL "''x''" None 8]
      run_moves_by_the_table [of "run_apply demo_run 7 (Run_Fail FK_TOOL ''x'')" 8 Start_Coding]
      a b by simp
qed

end
