(* ===== verification/Plan.thy ===== *)
theory Plan
  imports Values "HOL-Library.Multiset"
begin

text \<open>
  Plans (\<open>src/src/domain/entities/plan.py\<close>): a plan's tasks, the validation of their dependency graph and
  the layering that says which tasks may run together. The abstract specification of a valid graph
  is that its dependency relation is acyclic; the layering loop is shown to decide it.
\<close>

section \<open>Tasks and plans\<close>

record plan_task =
  t_id :: task_id
  t_key :: string
  t_title :: string
  t_description :: string
  t_target_paths :: "string list"
  t_depends_on :: "string list"
  t_validation :: "string list"

definition mk_plan_task :: "plan_task \<Rightarrow> error + plan_task" where
  "mk_plan_task t =
     (if strip (t_key t) = [] then Inl (ValueError ''task key must not be blank'')
      else if strip (t_title t) = [] then Inl (ValueError ''task title must not be blank'')
      else if t_key t \<in> set (t_depends_on t) then Inl (PlanValidationError ''a task cannot depend on itself'')
      else Inr t)"

record plan =
  p_id :: plan_id
  p_run_id :: run_id
  p_revision :: int
  p_objective :: string
  p_created_at :: moment
  p_tasks :: "plan_task list"
  p_assumptions :: "string list"
  p_constraints :: "string list"
  p_risk_areas :: "string list"
  p_validation_requirements :: "string list"
  p_prompt_version :: string
  p_metadata :: json_object

section \<open>Layers\<close>

text \<open>
  \<open>remaining = {t.key: t for t in tasks}\<close>. The key of an entry is its task's own key, so the
  dictionary is represented by the list of its values.
\<close>

definition keyed_tasks :: "plan_task list \<Rightarrow> plan_task list" where
  "keyed_tasks ts = map snd (fold (\<lambda>t d. dict_set (t_key t) t d) ts [])"

definition ready_tasks :: "plan_task list \<Rightarrow> string list \<Rightarrow> plan_task list" where
  "ready_tasks remaining satisfied =
     filter (\<lambda>t. list_all (\<lambda>d. d \<in> set satisfied) (t_depends_on t)) remaining"

abbreviation cycle_error :: error where
  "cycle_error \<equiv> PlanValidationError ''plan dependency graph contains a cycle''"

function layers_loop :: "plan_task list \<Rightarrow> string list \<Rightarrow> error + plan_task list list" where
  "layers_loop remaining satisfied =
     (if remaining = [] then Inr []
      else
        let ready = ready_tasks remaining satisfied in
        if ready = [] then Inl cycle_error
        else
          (case layers_loop (filter (\<lambda>t. t_key t \<notin> t_key ` set ready) remaining)
                  (satisfied @ map t_key ready) of
             Inl e \<Rightarrow> Inl e
           | Inr layers \<Rightarrow> Inr (ready # layers)))"
  by pat_completeness auto
termination
proof (relation "measure (\<lambda>(remaining, _). length remaining)")
  fix remaining :: "plan_task list" and satisfied ready
  assume "ready = ready_tasks remaining satisfied" and "ready \<noteq> []"
  then obtain t where "t \<in> set ready" "t \<in> set remaining"
    by (metis ready_tasks_def filter_is_subset list.set_intros(1) neq_Nil_conv subsetD)
  then show "((filter (\<lambda>t. t_key t \<notin> t_key ` set ready) remaining, satisfied @ map t_key ready),
              remaining, satisfied) \<in> measure (\<lambda>(remaining, _). length remaining)"
    by (auto intro!: length_filter_less)
qed simp

declare layers_loop.simps [simp del]

definition execution_layers :: "plan_task list \<Rightarrow> error + plan_task list list" where
  "execution_layers ts = layers_loop (keyed_tasks ts) []"

definition duplicate_keys :: "plan_task list \<Rightarrow> string list" where
  "duplicate_keys ts = filter (\<lambda>k. 1 < count_list (map t_key ts) k) (map t_key ts)"

definition dangling :: "plan_task list \<Rightarrow> plan_task \<Rightarrow> string list" where
  "dangling ts t = filter (\<lambda>d. d \<notin> set (map t_key ts)) (t_depends_on t)"

definition validate_graph :: "plan_task list \<Rightarrow> error + unit" where
  "validate_graph ts =
     (if duplicate_keys ts \<noteq> [] then Inl (PlanValidationError ''duplicate task keys'')
      else if list_ex (\<lambda>t. dangling ts t \<noteq> []) ts
      then Inl (PlanValidationError ''task depends on unknown tasks'')
      else map_sum id (\<lambda>_. ()) (execution_layers ts))"

definition mk_plan :: "plan \<Rightarrow> error + plan" where
  "mk_plan p =
     (if p_revision p < 1 then Inl (ValueError ''plan revisions are 1-based'')
      else if p_tasks p = [] then Inl (PlanValidationError ''a plan must contain at least one task'')
      else map_sum id (\<lambda>_. p) (validate_graph (p_tasks p)))"

definition plan_task_lookup :: "plan \<Rightarrow> string \<Rightarrow> error + plan_task" where
  "plan_task_lookup p k =
     (case find (\<lambda>t. t_key t = k) (p_tasks p) of
        Some t \<Rightarrow> Inr t
      | None \<Rightarrow> Inl (PlanValidationError ''unknown task''))"

definition task_count :: "plan \<Rightarrow> int" where
  "task_count p = int (length (p_tasks p))"

definition max_parallelism :: "plan \<Rightarrow> error + int" where
  "max_parallelism p =
     map_sum id (\<lambda>layers. foldr max (map (\<lambda>l. int (length l)) layers) 0) (execution_layers (p_tasks p))"

definition with_revision :: "plan \<Rightarrow> int \<Rightarrow> error + plan" where
  "with_revision p r = mk_plan (p\<lparr>p_revision := r\<rparr>)"

section \<open>The layering decides acyclicity\<close>

text \<open>Specification: an edge leads from a task to each task that depends on it.\<close>

definition dependency :: "plan_task list \<Rightarrow> (string \<times> string) set" where
  "dependency ts = {(d, t_key t) | d t. t \<in> set ts \<and> d \<in> set (t_depends_on t)}"

text \<open>
  A layering is good when every task's dependencies lie in earlier layers, and no task of a later
  layer could have run earlier.
\<close>

fun good_layers :: "string set \<Rightarrow> plan_task list list \<Rightarrow> bool" where
  "good_layers S [] \<longleftrightarrow> True"
| "good_layers S (l # ls) \<longleftrightarrow> l \<noteq> []
     \<and> (\<forall>t \<in> set l. set (t_depends_on t) \<subseteq> S)
     \<and> (\<forall>t \<in> set (concat ls). \<not> set (t_depends_on t) \<subseteq> S)
     \<and> good_layers (S \<union> t_key ` set l) ls"

lemma set_ready_tasks:
  "t \<in> set (ready_tasks rem sat) \<longleftrightarrow> t \<in> set rem \<and> set (t_depends_on t) \<subseteq> set sat"
  by (auto simp: ready_tasks_def list_all_iff)

lemma rest_of_ready:
  assumes "distinct (map t_key rem)"
  shows "filter (\<lambda>t. t_key t \<notin> t_key ` set (ready_tasks rem sat)) rem =
         filter (\<lambda>t. \<not> set (t_depends_on t) \<subseteq> set sat) rem"
proof (rule filter_cong [OF refl])
  fix t assume t: "t \<in> set rem"
  have "t_key t \<in> t_key ` set (ready_tasks rem sat) \<longleftrightarrow> t \<in> set (ready_tasks rem sat)"
    using assms t by (intro inj_on_image_mem_iff) (auto simp: distinct_map set_ready_tasks)
  then show "t_key t \<notin> t_key ` set (ready_tasks rem sat) \<longleftrightarrow> \<not> set (t_depends_on t) \<subseteq> set sat"
    using t by (simp add: set_ready_tasks)
qed

lemma layers_loop_Inr:
  assumes "layers_loop rem sat = Inr ls" and "distinct (map t_key rem)"
  shows "good_layers (set sat) ls \<and> mset (concat ls) = mset rem"
  using assms
proof (induction rem sat arbitrary: ls rule: layers_loop.induct)
  case (1 rem sat)
  let ?ready = "ready_tasks rem sat"
  let ?rest = "filter (\<lambda>t. \<not> set (t_depends_on t) \<subseteq> set sat) rem"
  show ?case
  proof (cases "rem = []")
    case True
    with 1(2) show ?thesis by (simp add: layers_loop.simps)
  next
    case False
    with 1(2) have ne: "?ready \<noteq> []" by (auto simp: layers_loop.simps Let_def)
    obtain ls' where ls': "layers_loop ?rest (sat @ map t_key ?ready) = Inr ls'" "ls = ?ready # ls'"
      using False ne 1(2) rest_of_ready [OF 1(3), of sat]
      by (subst (asm) layers_loop.simps) (auto simp: Let_def split: sum.splits)
    have "distinct (map t_key ?rest)" using 1(3) by (simp add: distinct_map_filter)
    then have ih: "good_layers (set (sat @ map t_key ?ready)) ls'" "mset (concat ls') = mset ?rest"
      using 1(1) [OF False refl ne] ls'(1) rest_of_ready [OF 1(3), of sat] by auto
    have "mset (concat ls) = mset rem"
      using ih(2) multiset_partition [of "mset rem" "\<lambda>t. set (t_depends_on t) \<subseteq> set sat"]
      by (simp add: ls'(2) ready_tasks_def list_all_iff subset_eq)
    moreover have "set (concat ls') = set ?rest" using ih(2) by (metis set_mset_mset)
    ultimately show ?thesis
      using ih(1) ne by (auto simp: ls'(2) set_ready_tasks)
  qed
qed

text \<open>When the loop gives up, some tasks only wait for each other.\<close>

lemma layers_loop_Inl:
  assumes "layers_loop rem sat = Inl e" and "distinct (map t_key rem)"
    and "\<forall>t \<in> set rem. set (t_depends_on t) \<subseteq> set sat \<union> t_key ` set rem"
  shows "e = cycle_error \<and> (\<exists>R. R \<noteq> {} \<and> R \<subseteq> set rem \<and> (\<forall>t \<in> R. \<exists>u \<in> R. t_key u \<in> set (t_depends_on t)))"
  using assms
proof (induction rem sat arbitrary: e rule: layers_loop.induct)
  case (1 rem sat)
  let ?ready = "ready_tasks rem sat"
  let ?rest = "filter (\<lambda>t. \<not> set (t_depends_on t) \<subseteq> set sat) rem"
  from 1(2) have ne: "rem \<noteq> []" by (auto simp: layers_loop.simps)
  show ?case
  proof (cases "?ready = []")
    case True
    have "e = cycle_error" using 1(2) ne True by (simp add: layers_loop.simps)
    moreover have "\<exists>u \<in> set rem. t_key u \<in> set (t_depends_on t)" if "t \<in> set rem" for t
      using that True 1(4) set_ready_tasks [of t rem sat] by force
    ultimately show ?thesis using ne by (intro conjI exI [of _ "set rem"]) auto
  next
    case False
    have inl: "layers_loop ?rest (sat @ map t_key ?ready) = Inl e"
      using ne False 1(2) rest_of_ready [OF 1(3), of sat]
      by (subst (asm) layers_loop.simps) (auto simp: Let_def split: sum.splits)
    have split: "set rem = set ?ready \<union> set ?rest" by (auto simp: set_ready_tasks)
    have deps: "\<forall>t \<in> set ?rest. set (t_depends_on t) \<subseteq> set (sat @ map t_key ?ready) \<union> t_key ` set ?rest"
    proof
      fix t assume "t \<in> set ?rest"
      then have "set (t_depends_on t) \<subseteq> set sat \<union> t_key ` set rem" using 1(4) by simp
      moreover have "t_key ` set rem = t_key ` set ?ready \<union> t_key ` set ?rest"
        by (subst split) (rule image_Un)
      ultimately show "set (t_depends_on t) \<subseteq> set (sat @ map t_key ?ready) \<union> t_key ` set ?rest"
        by (simp add: Un_assoc)
    qed
    have dist: "distinct (map t_key ?rest)" using 1(3) by (simp add: distinct_map_filter)
    have "e = cycle_error \<and> (\<exists>R. R \<noteq> {} \<and> R \<subseteq> set ?rest \<and> (\<forall>t \<in> R. \<exists>u \<in> R. t_key u \<in> set (t_depends_on t)))"
      using 1(1) [OF ne refl False] inl dist deps by (simp only: rest_of_ready [OF 1(3)])
    then show ?thesis using split by blast
  qed
qed

fun layer_index :: "plan_task list list \<Rightarrow> string \<Rightarrow> nat" where
  "layer_index [] k = 0"
| "layer_index (l # ls) k = (if k \<in> t_key ` set l then 0 else Suc (layer_index ls k))"

lemma layer_index_less:
  assumes "good_layers S ls" and "distinct (map t_key (concat ls))" and "t \<in> set (concat ls)"
    and "d \<in> set (t_depends_on t)" and "d \<notin> S"
  shows "layer_index ls d < layer_index ls (t_key t)"
  using assms
proof (induction ls arbitrary: S)
  case (Cons l ls)
  have t: "t \<in> set (concat ls)" using Cons.prems by auto
  then have "t_key t \<notin> t_key ` set l" using Cons.prems(2) by force
  moreover have "layer_index ls d < layer_index ls (t_key t)" if "d \<notin> t_key ` set l"
    using Cons.prems t that by (intro Cons.IH [of "S \<union> t_key ` set l"]) auto
  ultimately show ?case by auto
qed simp

lemma good_layers_acyclic:
  assumes "good_layers {} ls" and "distinct (map t_key (concat ls))"
  shows "acyclic (dependency (concat ls))"
proof (rule acyclicI_order [where f = "\<lambda>k. - int (layer_index ls k)"])
  fix d k assume "(d, k) \<in> dependency (concat ls)"
  then show "- int (layer_index ls k) < - int (layer_index ls d)"
    using layer_index_less [OF assms] by (auto simp: dependency_def)
qed

lemma finite_dependency: "finite (dependency ts)"
proof -
  have "dependency ts \<subseteq> (\<Union>t \<in> set ts. (\<lambda>d. (d, t_key t)) ` set (t_depends_on t))"
    by (auto simp: dependency_def)
  then show ?thesis by (rule finite_subset) simp
qed

lemma acyclic_no_mutual_wait:
  assumes "acyclic (dependency ts)" and "R \<subseteq> set ts" and "R \<noteq> {}"
  shows "\<exists>t \<in> R. \<forall>u \<in> R. t_key u \<notin> set (t_depends_on t)"
proof -
  have wf: "wf (dependency ts)" using finite_acyclic_wf [OF finite_dependency assms(1)] .
  obtain k where k: "k \<in> t_key ` R" "\<forall>d. (d, k) \<in> dependency ts \<longrightarrow> d \<notin> t_key ` R"
    using wfE_min [OF wf, of _ "t_key ` R"] assms(3) by (metis ex_in_conv image_is_empty)
  then obtain t where "t \<in> R" "t_key t = k" by auto
  with k(2) assms(2) show ?thesis by (intro bexI [of _ t]) (auto simp: dependency_def)
qed

text \<open>Without duplicate keys the dictionary of tasks is the list itself.\<close>

lemma dict_set_new: "k \<notin> fst ` set d \<Longrightarrow> dict_set k v d = d @ [(k, v)]"
  by (induction d) auto

lemma keyed_tasks_distinct:
  assumes "distinct (map t_key ts)"
  shows "keyed_tasks ts = ts"
proof -
  have "fold (\<lambda>t d. dict_set (t_key t) t d) ts d = d @ map (\<lambda>t. (t_key t, t)) ts"
    if "t_key ` set ts \<inter> fst ` set d = {}" for d
    using that assms
  proof (induction ts arbitrary: d)
    case (Cons t ts)
    have "dict_set (t_key t) t d = d @ [(t_key t, t)]"
      using Cons.prems(1) by (intro dict_set_new) auto
    moreover have "t_key ` set ts \<inter> fst ` set (d @ [(t_key t, t)]) = {}"
      using Cons.prems by auto
    ultimately show ?case using Cons.IH Cons.prems(2) by simp
  qed simp
  from this [of "[]"] show ?thesis by (simp add: keyed_tasks_def comp_def)
qed

lemma duplicate_keys_iff: "duplicate_keys ts = [] \<longleftrightarrow> distinct (map t_key ts)"
proof -
  have "distinct xs \<longleftrightarrow> (\<forall>x \<in> set xs. count_list xs x \<le> 1)" for xs :: "string list"
  proof (induction xs)
    case (Cons x xs)
    have "count_list xs x = 0 \<longleftrightarrow> x \<notin> set xs" by (simp add: count_list_0_iff)
    then show ?case using Cons by auto
  qed simp
  then show ?thesis by (auto simp: duplicate_keys_def filter_empty_conv not_less)
qed

definition well_referenced :: "plan_task list \<Rightarrow> bool" where
  "well_referenced ts \<longleftrightarrow> distinct (map t_key ts)
     \<and> (\<forall>t \<in> set ts. set (t_depends_on t) \<subseteq> set (map t_key ts))"

lemma execution_layers_cases:
  assumes "well_referenced ts"
  shows "(case execution_layers ts of
            Inr ls \<Rightarrow> good_layers {} ls \<and> mset (concat ls) = mset ts \<and> acyclic (dependency ts)
          | Inl e \<Rightarrow> e = cycle_error \<and> \<not> acyclic (dependency ts))"
proof (cases "execution_layers ts")
  case (Inr ls)
  have d: "distinct (map t_key ts)" using assms by (simp add: well_referenced_def)
  then have ls: "good_layers {} ls" "mset (concat ls) = mset ts"
    using layers_loop_Inr [of ts "[]" ls] Inr by (simp_all add: execution_layers_def keyed_tasks_distinct)
  have "distinct (map t_key (concat ls))"
    using d ls(2) by (metis mset_map mset_eq_imp_distinct_iff)
  moreover have "dependency (concat ls) = dependency ts"
    using ls(2) by (simp add: dependency_def set_mset_mset [symmetric] del: set_mset_mset)
  ultimately show ?thesis using good_layers_acyclic ls Inr by fastforce
next
  case (Inl e)
  have d: "distinct (map t_key ts)" using assms by (simp add: well_referenced_def)
  then obtain R where "e = cycle_error" and R: "R \<noteq> {}" "R \<subseteq> set ts"
      "\<forall>t \<in> R. \<exists>u \<in> R. t_key u \<in> set (t_depends_on t)"
    using layers_loop_Inl [of ts "[]" e] Inl assms
    by (auto simp: execution_layers_def keyed_tasks_distinct well_referenced_def)
  moreover have "\<not> acyclic (dependency ts)"
    using acyclic_no_mutual_wait [of ts R] R by blast
  ultimately show ?thesis using Inl by simp
qed

lemma good_layers_nth:
  assumes "good_layers S ls" and "i < length ls"
  shows "ls ! i \<noteq> [] \<and> (\<forall>t \<in> set (ls ! i). set (t_depends_on t) \<subseteq> S \<union> t_key ` set (concat (take i ls))
      \<and> (\<forall>k < i. \<not> set (t_depends_on t) \<subseteq> S \<union> t_key ` set (concat (take k ls))))"
  using assms
proof (induction ls arbitrary: S i)
  case (Cons l ls)
  show ?case
  proof (cases i)
    case 0
    with Cons.prems(1) show ?thesis by simp
  next
    case (Suc j)
    let ?S = "S \<union> t_key ` set l"
    have g: "good_layers ?S ls" "j < length ls" using Cons.prems Suc by auto
    have later: "\<not> set (t_depends_on t) \<subseteq> S" if "t \<in> set (ls ! j)" for t
      using Cons.prems(1) that nth_mem [OF g(2)] by auto
    have "\<not> set (t_depends_on t) \<subseteq> S \<union> t_key ` set (concat (take k (l # ls)))"
      if "t \<in> set (ls ! j)" "k < i" for t k
      using that later [OF that(1)] Cons.IH [OF g] Suc by (cases k) (auto simp: image_Un Un_assoc)
    with Cons.IH [OF g] Suc show ?thesis by (auto simp: image_Un Un_assoc)
  qed
qed simp

section \<open>Properties\<close>

lemma validate_graph_iff:
  "validate_graph ts = Inr () \<longleftrightarrow> well_referenced ts \<and> acyclic (dependency ts)"
proof -
  have "well_referenced ts \<longleftrightarrow> duplicate_keys ts = [] \<and> \<not> list_ex (\<lambda>t. dangling ts t \<noteq> []) ts"
    by (auto simp: well_referenced_def duplicate_keys_iff list_ex_iff dangling_def filter_empty_conv)
  moreover have "map_sum id (\<lambda>_. ()) (execution_layers ts) = Inr () \<longleftrightarrow> acyclic (dependency ts)"
    if "well_referenced ts"
    using execution_layers_cases [OF that] by (cases "execution_layers ts") simp_all
  ultimately show ?thesis by (auto simp: validate_graph_def)
qed

abbreviation demo_task :: "string \<Rightarrow> string list \<Rightarrow> plan_task" where
  "demo_task k ds \<equiv> \<lparr>t_id = TaskId 1, t_key = k, t_title = ''t'', t_description = [], t_target_paths = [],
     t_depends_on = ds, t_validation = []\<rparr>"

abbreviation demo_plan :: plan where
  "demo_plan \<equiv> \<lparr>p_id = PlanId 1, p_run_id = RunId 2, p_revision = 1, p_objective = ''o'', p_created_at = 0,
     p_tasks = [demo_task ''c'' [''a'', ''b''], demo_task ''a'' [], demo_task ''b'' [''a'']],
     p_assumptions = [], p_constraints = [], p_risk_areas = [], p_validation_requirements = [],
     p_prompt_version = ''v1'', p_metadata = []\<rparr>"

lemma demo_plan_layers:
  "execution_layers (p_tasks demo_plan) =
     Inr [[demo_task ''a'' []], [demo_task ''b'' [''a'']], [demo_task ''c'' [''a'', ''b'']]]"
  by (simp add: execution_layers_def keyed_tasks_def layers_loop.simps ready_tasks_def)

lemma demo_plan_ok: "mk_plan demo_plan = Inr demo_plan"
  using demo_plan_layers
  by (simp add: mk_plan_def validate_graph_def duplicate_keys_def dangling_def)

text \<open>
  C8. A plan is accepted exactly when its revision is positive, it has a task, task keys are unique, every
  dependency names a task of the plan, and the dependency relation is acyclic: the layering loop
  is a correct cycle check.
\<close>

theorem plan_accepted_iff_acyclic:
  "mk_plan p = Inr p' \<longleftrightarrow>
     p' = p \<and> 1 \<le> p_revision p \<and> p_tasks p \<noteq> [] \<and> distinct (map t_key (p_tasks p))
     \<and> (\<forall>t \<in> set (p_tasks p). set (t_depends_on t) \<subseteq> t_key ` set (p_tasks p))
     \<and> acyclic {(d, t_key t) | d t. t \<in> set (p_tasks p) \<and> d \<in> set (t_depends_on t)}"
proof -
  have "map_sum id (\<lambda>_. p) (validate_graph (p_tasks p)) = Inr p' \<longleftrightarrow>
      p' = p \<and> validate_graph (p_tasks p) = Inr ()"
    by (cases "validate_graph (p_tasks p)") auto
  then show ?thesis
    by (auto simp: mk_plan_def validate_graph_iff well_referenced_def dependency_def not_less)
qed

theorem plan_accepted_iff_acyclic_witness:
  "acyclic {(d, t_key t) | d t. t \<in> set (p_tasks demo_plan) \<and> d \<in> set (t_depends_on t)}"
  using iffD1 [OF plan_accepted_iff_acyclic demo_plan_ok] by blast

text \<open>
  The layers of an accepted plan are a schedule: they contain every task exactly once, no layer is
  empty, the dependencies of each task all lie in earlier layers (so the tasks of one layer may run
  concurrently), and no task could have been placed in an earlier layer.
\<close>

theorem plan_layers_are_a_schedule:
  assumes "mk_plan p = Inr p'"
  shows "\<exists>layers. execution_layers (p_tasks p) = Inr layers
    \<and> mset (concat layers) = mset (p_tasks p)
    \<and> (\<forall>i < length layers. layers ! i \<noteq> []
         \<and> (\<forall>t \<in> set (layers ! i). set (t_depends_on t) \<subseteq> t_key ` set (concat (take i layers))
              \<and> (\<forall>k < i. \<not> set (t_depends_on t) \<subseteq> t_key ` set (concat (take k layers)))))"
proof -
  have v: "validate_graph (p_tasks p) = Inr ()"
    using assms by (cases "validate_graph (p_tasks p)") (auto simp: mk_plan_def split: if_splits)
  then have wr: "well_referenced (p_tasks p)" "acyclic (dependency (p_tasks p))"
    by (simp_all add: validate_graph_iff)
  obtain ls where ls: "execution_layers (p_tasks p) = Inr ls" "good_layers {} ls"
      "mset (concat ls) = mset (p_tasks p)"
    using execution_layers_cases [OF wr(1)] wr(2) by (cases "execution_layers (p_tasks p)") auto
  from good_layers_nth [OF ls(2)] ls show ?thesis by simp
qed

theorem plan_layers_are_a_schedule_witness:
  "\<exists>layers. execution_layers (p_tasks demo_plan) = Inr layers \<and> mset (concat layers) = mset (p_tasks demo_plan)"
  using plan_layers_are_a_schedule [OF demo_plan_ok] by blast

end
