(* ===== verification/Evidence.thy ===== *)
theory Evidence
  imports Values
begin

text \<open>
  The evidence a candidate is judged on: tool results and validation reports
  (\<open>src/src/domain/value_objects/tools.py\<close>, \<open>validation.py\<close>), patches with the statistics read off
  their diff (\<open>patch.py\<close>), reviews (\<open>src/src/domain/entities/review.py\<close>) and the project's toolchain
  (\<open>src/src/domain/entities/project.py\<close>).
\<close>

section \<open>Tool results\<close>

datatype tool_kind = SEARCH | READ | EDIT | PATCH | COMMAND | TK_BUILD | TK_TEST | TK_STATIC_ANALYSIS | VCS

record tool_result =
  r_tool :: string
  r_kind :: tool_kind
  r_command :: string
  r_exit_code :: int
  r_stdout :: string
  r_stderr :: string
  r_duration_ms :: int
  r_truncated :: bool
  r_artifacts :: "string list"
  r_tool_metadata :: json_object

definition succeeded :: "tool_result \<Rightarrow> bool" where
  "succeeded r \<longleftrightarrow> r_exit_code r = 0"

fun py_join :: "string \<Rightarrow> string list \<Rightarrow> string" where
  "py_join sep [] = []"
| "py_join sep [x] = x"
| "py_join sep (x # y # zs) = x @ sep @ py_join sep (y # zs)"

abbreviation newline :: string where
  "newline \<equiv> [CHR 0x0A]"

text \<open>\<open>tail\<close>: the end of the output, marked when something was cut. \<open>max_chars\<close> is positive.\<close>

definition tail :: "tool_result \<Rightarrow> nat \<Rightarrow> string" where
  "tail r max_chars =
     (let combined = py_join newline (filter (\<lambda>part. part \<noteq> []) [r_stdout r, r_stderr r]) in
      if length combined \<le> max_chars then combined
      else ''...'' @ newline @ drop (length combined - max_chars) combined)"

lemma tail_bounded: "length (tail r n) \<le> n + 4"
  by (simp add: tail_def Let_def)

section \<open>Validation reports\<close>

record validation_report =
  v_results :: "tool_result list"
  v_static_analysis_is_blocking :: bool

definition empty_report :: validation_report where
  "empty_report = \<lparr>v_results = [], v_static_analysis_is_blocking = False\<rparr>"

definition of_kind :: "validation_report \<Rightarrow> tool_kind \<Rightarrow> tool_result list" where
  "of_kind v k = filter (\<lambda>r. r_kind r = k) (v_results v)"

text \<open>\<open>None\<close>: the stage did not run.\<close>

definition all_passed :: "tool_result list \<Rightarrow> bool option" where
  "all_passed rs = (if rs = [] then None else Some (list_all succeeded rs))"

definition build_passed :: "validation_report \<Rightarrow> bool option" where
  "build_passed v = all_passed (of_kind v TK_BUILD)"

definition tests_passed :: "validation_report \<Rightarrow> bool option" where
  "tests_passed v = all_passed (of_kind v TK_TEST)"

definition static_analysis_passed :: "validation_report \<Rightarrow> bool option" where
  "static_analysis_passed v = all_passed (of_kind v TK_STATIC_ANALYSIS)"

definition report_is_viable :: "validation_report \<Rightarrow> bool" where
  "report_is_viable v \<longleftrightarrow>
     (if build_passed v = Some False \<or> tests_passed v = Some False then False
      else \<not> (v_static_analysis_is_blocking v \<and> static_analysis_passed v = Some False))"

definition report_failure_kind :: "validation_report \<Rightarrow> failure_kind option" where
  "report_failure_kind v =
     (if build_passed v = Some False then Some FK_COMPILATION
      else if tests_passed v = Some False then Some FK_TEST
      else if v_static_analysis_is_blocking v \<and> static_analysis_passed v = Some False then Some FK_TEST
      else None)"

definition failing_results :: "validation_report \<Rightarrow> tool_result list" where
  "failing_results v = filter (\<lambda>r. \<not> succeeded r) (v_results v)"

definition extended_with :: "validation_report \<Rightarrow> tool_result list \<Rightarrow> validation_report" where
  "extended_with v rs = v\<lparr>v_results := v_results v @ rs\<rparr>"

fun render_stage :: "string \<Rightarrow> bool option \<Rightarrow> string" where
  "render_stage label None = label @ ''=skipped''"
| "render_stage label (Some True) = label @ ''=pass''"
| "render_stage label (Some False) = label @ ''=fail''"

definition report_summary :: "validation_report \<Rightarrow> string" where
  "report_summary v = py_join '' '' [render_stage ''build'' (build_passed v),
     render_stage ''tests'' (tests_passed v), render_stage ''static_analysis'' (static_analysis_passed v)]"

lemma viable_iff_no_failure: "report_is_viable v \<longleftrightarrow> report_failure_kind v = None"
  by (simp add: report_is_viable_def report_failure_kind_def)

lemma failure_kind_is_defect: "report_failure_kind v = Some k \<Longrightarrow> is_code_defect k"
  by (auto simp: report_failure_kind_def split: if_splits)

lemma empty_report_stages [simp]:
  "build_passed \<lparr>v_results = [], v_static_analysis_is_blocking = b\<rparr> = None"
  "tests_passed \<lparr>v_results = [], v_static_analysis_is_blocking = b\<rparr> = None"
  "static_analysis_passed \<lparr>v_results = [], v_static_analysis_is_blocking = b\<rparr> = None"
  by (simp_all add: build_passed_def tests_passed_def static_analysis_passed_def of_kind_def all_passed_def)

section \<open>Patches\<close>

record file_change =
  f_path :: string
  f_added :: int
  f_removed :: int

definition churn :: "file_change \<Rightarrow> int" where
  "churn f = f_added f + f_removed f"

record patch =
  diff_text :: string
  base_revision :: "string option"
  patch_files :: "file_change list"

definition patch_is_empty :: "patch \<Rightarrow> bool" where
  "patch_is_empty p \<longleftrightarrow> strip (diff_text p) = []"

definition changed_paths :: "patch \<Rightarrow> string list" where
  "changed_paths p = map f_path (patch_files p)"

definition total_churn :: "patch \<Rightarrow> int" where
  "total_churn p = sum_list (map churn (patch_files p))"

text \<open>
  \<open>str.splitlines\<close> on code points below 256: a line ends at \<open>\n\v\f\r\<close>, 28 to 30 or NEL, a carriage
  return and a line feed count once, and a final line end opens no further line.
\<close>

definition is_line_end :: "char \<Rightarrow> bool" where
  "is_line_end c \<longleftrightarrow> (let n = (of_char c :: nat) in (10 \<le> n \<and> n \<le> 13) \<or> (28 \<le> n \<and> n \<le> 30) \<or> n = 133)"

fun split_lines :: "string \<Rightarrow> string \<Rightarrow> string list" where
  "split_lines acc [] = (if acc = [] then [] else [rev acc])"
| "split_lines acc (c # cs) =
     (if is_line_end c
      then rev acc # split_lines [] (if c = CHR 0x0D \<and> cs \<noteq> [] \<and> hd cs = CHR 0x0A then tl cs else cs)
      else split_lines (c # acc) cs)"

definition splitlines :: "string \<Rightarrow> string list" where
  "splitlines s = split_lines [] s"

text \<open>
  The header pattern \<open>^diff --git a/(.+?) b/(.+?)$\<close> on one line: the first path is as short as
  possible, at least one character, and the second is the non-empty rest.
\<close>

fun after_b :: "string \<Rightarrow> string option" where
  "after_b [] = None"
| "after_b (c # cs) =
     (if starts_with cs '' b/'' \<and> drop 3 cs \<noteq> [] then Some (drop 3 cs) else after_b cs)"

definition diff_header :: "string \<Rightarrow> string option" where
  "diff_header line = (if starts_with line ''diff --git a/'' then after_b (drop 13 line) else None)"

record stats =
  st_changes :: "file_change list"
  st_path :: "string option"
  st_added :: int
  st_removed :: int

definition stats_flush :: "stats \<Rightarrow> stats" where
  "stats_flush s =
     \<lparr>st_changes = (case st_path s of
          None \<Rightarrow> st_changes s
        | Some p \<Rightarrow> st_changes s @ [\<lparr>f_path = p, f_added = st_added s, f_removed = st_removed s\<rparr>]),
      st_path = None, st_added = 0, st_removed = 0\<rparr>"

definition stats_line :: "string \<Rightarrow> stats \<Rightarrow> stats" where
  "stats_line line s =
     (case diff_header line of
        Some b \<Rightarrow> (stats_flush s)\<lparr>st_path := Some b\<rparr>
      | None \<Rightarrow>
          if st_path s = None \<or> starts_with line ''---'' \<or> starts_with line ''+++'' \<or> starts_with line ''@@'' then s
          else if starts_with line ''+'' then s\<lparr>st_added := st_added s + 1\<rparr>
          else if starts_with line ''-'' then s\<lparr>st_removed := st_removed s + 1\<rparr>
          else s)"

definition parse_stats :: "string \<Rightarrow> file_change list" where
  "parse_stats diff =
     st_changes (stats_flush (fold stats_line (splitlines diff)
       \<lparr>st_changes = [], st_path = None, st_added = 0, st_removed = 0\<rparr>))"

definition from_unified_diff :: "string \<Rightarrow> string option \<Rightarrow> patch" where
  "from_unified_diff diff base = \<lparr>diff_text = diff, base_revision = base, patch_files = parse_stats diff\<rparr>"

lemma churn_nonneg_stats_line:
  "0 \<le> st_added s \<and> 0 \<le> st_removed s \<and> (\<forall>f \<in> set (st_changes s). 0 \<le> f_added f \<and> 0 \<le> f_removed f)
   \<Longrightarrow> 0 \<le> st_added (stats_line l s) \<and> 0 \<le> st_removed (stats_line l s)
     \<and> (\<forall>f \<in> set (st_changes (stats_line l s)). 0 \<le> f_added f \<and> 0 \<le> f_removed f)"
  by (auto simp: stats_line_def stats_flush_def split: option.splits)

section \<open>Reviews\<close>

datatype severity = BLOCKER | MAJOR | MINOR | INFO

fun severity_value :: "severity \<Rightarrow> string" where
  "severity_value BLOCKER = ''BLOCKER''"
| "severity_value MAJOR = ''MAJOR''"
| "severity_value MINOR = ''MINOR''"
| "severity_value INFO = ''INFO''"

fun blocks_completion :: "severity \<Rightarrow> bool" where
  "blocks_completion BLOCKER = True"
| "blocks_completion MAJOR = True"
| "blocks_completion _ = False"

record review_finding =
  fd_summary :: string
  fd_severity :: severity
  fd_file :: "string option"
  fd_line :: "int option"
  fd_repair_instruction :: "string option"

definition mk_review_finding :: "review_finding \<Rightarrow> error + review_finding" where
  "mk_review_finding f =
     (if strip (fd_summary f) = [] then Inl (ValueError ''a finding needs a summary'') else Inr f)"

record review =
  rv_id :: review_id
  rv_run_id :: run_id
  rv_candidate_id :: candidate_id
  rv_verdict :: review_verdict
  rv_iteration :: int
  rv_created_at :: moment
  rv_summary :: string
  rv_findings :: "review_finding list"
  rv_prompt_version :: string
  rv_metadata :: json_object

definition mk_review :: "review \<Rightarrow> error + review" where
  "mk_review r =
     (if rv_iteration r < 1 then Inl (ValueError ''review iterations are 1-based'')
      else if rv_verdict r = VERDICT_FAIL \<and> rv_findings r = []
      then Inl (ValueError ''a failing review must report at least one finding'')
      else Inr r)"

definition review_passed :: "review \<Rightarrow> bool" where
  "review_passed r \<longleftrightarrow> rv_verdict r = VERDICT_PASS"

definition blocking_findings :: "review \<Rightarrow> review_finding list" where
  "blocking_findings r = filter (\<lambda>f. blocks_completion (fd_severity f)) (rv_findings r)"

text \<open>A missing or empty file name, and a missing or empty instruction, are falsy.\<close>

definition nonempty :: "string option \<Rightarrow> string option" where
  "nonempty s = (if s = Some [] then None else s)"

definition show_line :: "int option \<Rightarrow> string" where
  "show_line l = (case l of None \<Rightarrow> ''None'' | Some n \<Rightarrow> show_int n)"

definition finding_line :: "review_finding \<Rightarrow> string" where
  "finding_line f =
     ''- ['' @ severity_value (fd_severity f) @ '']''
     @ (case nonempty (fd_file f) of None \<Rightarrow> [] | Some p \<Rightarrow> '' ('' @ p @ '':'' @ show_line (fd_line f) @ '')'')
     @ '' '' @ or_else (nonempty (fd_repair_instruction f)) (fd_summary f)"

definition repair_brief :: "review \<Rightarrow> string" where
  "repair_brief r = py_join newline (map finding_line (rv_findings r))"

text \<open>A failing review always hands the coder something to act on.\<close>

lemma py_join_ne: "x \<noteq> [] \<Longrightarrow> x \<in> set xs \<Longrightarrow> py_join sep xs \<noteq> []"
  by (induction sep xs rule: py_join.induct) auto

lemma failing_review_brief:
  assumes "mk_review r = Inr r" and "rv_verdict r = VERDICT_FAIL"
  shows "repair_brief r \<noteq> []"
proof -
  have "rv_findings r \<noteq> []" using assms by (auto simp: mk_review_def split: if_splits)
  then obtain f where "f \<in> set (rv_findings r)" by (cases "rv_findings r") auto
  then have "finding_line f \<noteq> []" "finding_line f \<in> set (map finding_line (rv_findings r))"
    by (simp_all add: finding_line_def)
  then show ?thesis unfolding repair_brief_def by (rule py_join_ne)
qed

section \<open>Projects\<close>

record toolchain =
  language :: string
  build_command :: "string option"
  test_command :: "string option"
  static_analysis_command :: "string option"
  install_command :: "string option"
  working_subdirectory :: "string option"
  environment :: "(string, string) dict"

definition can_build :: "toolchain \<Rightarrow> bool" where
  "can_build tc \<longleftrightarrow> nonempty (build_command tc) \<noteq> None"

definition can_test :: "toolchain \<Rightarrow> bool" where
  "can_test tc \<longleftrightarrow> nonempty (test_command tc) \<noteq> None"

record project =
  pj_id :: project_id
  pj_name :: string
  pj_repository_url :: "string option"
  pj_default_branch :: string
  pj_created_at :: moment
  pj_toolchain :: toolchain
  pj_local_path :: "string option"
  pj_metadata :: json_object

definition mk_project :: "project \<Rightarrow> error + project" where
  "mk_project p =
     (if strip (pj_name p) = [] then Inl (ValueError ''project name must not be blank'')
      else if nonempty (pj_repository_url p) = None \<and> nonempty (pj_local_path p) = None
      then Inl (ValueError ''a project needs either a repository_url or a local_path'')
      else Inr p)"

definition default_toolchain :: toolchain where
  "default_toolchain = \<lparr>language = ''python'', build_command = None, test_command = None,
     static_analysis_command = None, install_command = None, working_subdirectory = None, environment = []\<rparr>"

definition project_create ::
  "project_id \<Rightarrow> string \<Rightarrow> moment \<Rightarrow> string option \<Rightarrow> string option \<Rightarrow> string \<Rightarrow> toolchain option
   \<Rightarrow> json_object option \<Rightarrow> error + project" where
  "project_create pid name now url path branch tc meta =
     mk_project \<lparr>pj_id = pid, pj_name = strip name, pj_repository_url = url, pj_default_branch = branch,
       pj_created_at = now, pj_toolchain = or_else tc default_toolchain, pj_local_path = path,
       pj_metadata = or_else meta []\<rparr>"

end
