(* ===== verification/Candidate.thy ===== *)
theory Candidate
  imports Evidence "HOL-Library.Multiset"
begin

text \<open>
  The candidate aggregate (\<open>src/src/domain/entities/candidate.py\<close>) and the policy that chooses between
  candidates (\<open>src/src/domain/services/candidate_selection.py\<close>).
\<close>

section \<open>State\<close>

record candidate =
  c_id :: candidate_id
  c_run_id :: run_id
  c_index :: int
  c_created_at :: moment
  c_workspace_id :: "workspace_id option"
  c_status :: candidate_status
  c_patch :: "patch option"
  c_validation :: validation_report
  c_summary :: string
  c_uncertainties :: "string list"
  c_coder_iterations :: int
  c_repair_iterations :: int
  c_worker_id :: "worker_id option"
  c_last_job_id :: "job_id option"
  c_review_verdict :: "review_verdict option"
  c_started_at :: "moment option"
  c_completed_at :: "moment option"
  c_failure_kind :: "failure_kind option"
  c_failure_reason :: "string option"
  c_events :: "event list"

definition mk_candidate :: "candidate \<Rightarrow> error + candidate" where
  "mk_candidate c =
     (if c_index c < 0 then Inl (ValueError ''candidate index must not be negative'')
      else Inr (c\<lparr>c_events := []\<rparr>))"

definition candidate_create :: "candidate_id \<Rightarrow> run_id \<Rightarrow> int \<Rightarrow> moment \<Rightarrow> error + candidate" where
  "candidate_create cid rid idx now =
     mk_candidate \<lparr>c_id = cid, c_run_id = rid, c_index = idx, c_created_at = now, c_workspace_id = None,
       c_status = CAND_CREATED, c_patch = None, c_validation = empty_report, c_summary = [],
       c_uncertainties = [], c_coder_iterations = 0, c_repair_iterations = 0, c_worker_id = None,
       c_last_job_id = None, c_review_verdict = None, c_started_at = None, c_completed_at = None,
       c_failure_kind = None, c_failure_reason = None, c_events = []\<rparr>"

definition is_viable :: "candidate \<Rightarrow> bool" where
  "is_viable c \<longleftrightarrow>
     (case c_patch c of None \<Rightarrow> False | Some p \<Rightarrow> \<not> patch_is_empty p \<and> report_is_viable (c_validation c))"

definition cand_record :: "event \<Rightarrow> candidate \<Rightarrow> candidate" where
  "cand_record e c = c\<lparr>c_events := record_event (c_events c) e\<rparr>"

abbreviation cand_transition_error :: "candidate \<Rightarrow> candidate_status \<Rightarrow> error" where
  "cand_transition_error c target \<equiv> InvalidStateTransitionError ''Candidate''
     (candidate_status_value (c_status c)) (candidate_status_value target)"

section \<open>Lifecycle\<close>

definition cand_attach_workspace :: "candidate \<Rightarrow> workspace_id \<Rightarrow> (candidate, unit) result" where
  "cand_attach_workspace c w =
     (if c_workspace_id c \<noteq> None \<and> c_workspace_id c \<noteq> Some w
      then (c, Inl (CandidateError ''candidate already owns a workspace''))
      else (c\<lparr>c_workspace_id := Some w\<rparr>, Inr ()))"

definition cand_start_coding :: "candidate \<Rightarrow> moment \<Rightarrow> job_id option \<Rightarrow> (candidate, unit) result" where
  "cand_start_coding c now job =
     (if candidate_is_terminal (c_status c) then (c, Inl (cand_transition_error c CAND_CODING))
      else (cand_record (CandidateStarted now (c_run_id c) (c_id c) (c_index c) job)
              (c\<lparr>c_status := CAND_CODING, c_coder_iterations := c_coder_iterations c + 1,
                 c_started_at := Some (or_else (c_started_at c) now), c_last_job_id := job\<rparr>),
            Inr ()))"

definition cand_record_worker :: "candidate \<Rightarrow> worker_id \<Rightarrow> candidate" where
  "cand_record_worker c w = c\<lparr>c_worker_id := Some w\<rparr>"

definition cand_submit_patch ::
  "candidate \<Rightarrow> patch \<Rightarrow> string \<Rightarrow> string list \<Rightarrow> (candidate, unit) result" where
  "cand_submit_patch c p summary uncertainties =
     (if c_status c \<noteq> CAND_CODING then (c, Inl (cand_transition_error c CAND_VALIDATING))
      else (c\<lparr>c_patch := Some p, c_summary := summary, c_uncertainties := uncertainties\<rparr>, Inr ()))"

definition cand_start_validation :: "candidate \<Rightarrow> moment \<Rightarrow> (candidate, unit) result" where
  "cand_start_validation c now =
     (if c_status c \<notin> {CAND_CODING, CAND_VALIDATING} then (c, Inl (cand_transition_error c CAND_VALIDATING))
      else (cand_record (ValidationStarted now (c_run_id c) (c_id c)) (c\<lparr>c_status := CAND_VALIDATING\<rparr>), Inr ()))"

definition cand_append_validation :: "candidate \<Rightarrow> tool_result list \<Rightarrow> (candidate, unit) result" where
  "cand_append_validation c rs =
     (if c_status c \<noteq> CAND_VALIDATING then (c, Inl (cand_transition_error c CAND_VALIDATING))
      else (c\<lparr>c_validation := extended_with (c_validation c) rs\<rparr>, Inr ()))"

definition cand_record_validation ::
  "candidate \<Rightarrow> moment \<Rightarrow> validation_report option \<Rightarrow> bool \<Rightarrow> (candidate, unit) result" where
  "cand_record_validation c now report blocking =
     (if c_status c \<noteq> CAND_VALIDATING then (c, Inl (cand_transition_error c CAND_VALIDATED))
      else
        let final = (or_else report (c_validation c))\<lparr>v_static_analysis_is_blocking := blocking\<rparr> in
        (cand_record (ValidationCompleted now (c_run_id c) (c_id c) (report_is_viable final) (report_summary final))
           (c\<lparr>c_validation := final, c_status := CAND_VALIDATED\<rparr>), Inr ()))"

definition cand_record_review :: "candidate \<Rightarrow> review_verdict \<Rightarrow> candidate" where
  "cand_record_review c v = c\<lparr>c_review_verdict := Some v\<rparr>"

definition cand_start_repair :: "candidate \<Rightarrow> moment \<Rightarrow> (candidate, unit) result" where
  "cand_start_repair c now =
     (if candidate_is_terminal (c_status c) then (c, Inl (cand_transition_error c CAND_CODING))
      else (cand_record (CandidateStarted now (c_run_id c) (c_id c) (c_index c) None)
              (c\<lparr>c_repair_iterations := c_repair_iterations c + 1, c_status := CAND_CODING,
                 c_coder_iterations := c_coder_iterations c + 1,
                 c_validation := \<lparr>v_results = [],
                   v_static_analysis_is_blocking = v_static_analysis_is_blocking (c_validation c)\<rparr>\<rparr>),
            Inr ()))"

definition cand_finish :: "candidate \<Rightarrow> candidate_status \<Rightarrow> moment \<Rightarrow> candidate" where
  "cand_finish c status now =
     cand_record (CandidateCompleted now (c_run_id c) (c_id c) status
        (case c_patch c of None \<Rightarrow> 0 | Some p \<Rightarrow> int (length (patch_files p))))
       (c\<lparr>c_status := status, c_completed_at := Some now\<rparr>)"

definition cand_select :: "candidate \<Rightarrow> moment \<Rightarrow> (candidate, unit) result" where
  "cand_select c now =
     (if c_status c = CAND_SELECTED then (c, Inr ())
      else if candidate_is_terminal (c_status c) then (c, Inl (cand_transition_error c CAND_SELECTED))
      else (cand_finish c CAND_SELECTED now, Inr ()))"

definition cand_reject :: "candidate \<Rightarrow> moment \<Rightarrow> string \<Rightarrow> candidate" where
  "cand_reject c now reason =
     (if candidate_is_terminal (c_status c) then c
      else cand_finish (c\<lparr>c_failure_reason := Some reason\<rparr>) CAND_REJECTED now)"

definition cand_fail :: "candidate \<Rightarrow> moment \<Rightarrow> failure_kind \<Rightarrow> string \<Rightarrow> candidate" where
  "cand_fail c now kind reason =
     (if candidate_is_terminal (c_status c) then c
      else cand_finish (c\<lparr>c_failure_kind := Some kind, c_failure_reason := Some reason\<rparr>) CAND_FAILED now)"

definition cand_cancel :: "candidate \<Rightarrow> moment \<Rightarrow> candidate" where
  "cand_cancel c now =
     (if candidate_is_terminal (c_status c) then c
      else cand_finish (c\<lparr>c_failure_kind := Some FK_CANCELLED\<rparr>) CAND_CANCELLED now)"

lemma cand_record_simps [simp]:
  "c_id (cand_record e c) = c_id c" "c_run_id (cand_record e c) = c_run_id c"
  "c_index (cand_record e c) = c_index c" "c_status (cand_record e c) = c_status c"
  "c_patch (cand_record e c) = c_patch c" "c_validation (cand_record e c) = c_validation c"
  "c_coder_iterations (cand_record e c) = c_coder_iterations c"
  "c_repair_iterations (cand_record e c) = c_repair_iterations c"
  "c_review_verdict (cand_record e c) = c_review_verdict c"
  "c_workspace_id (cand_record e c) = c_workspace_id c"
  "c_completed_at (cand_record e c) = c_completed_at c"
  "c_started_at (cand_record e c) = c_started_at c"
  "c_failure_kind (cand_record e c) = c_failure_kind c"
  by (simp_all add: cand_record_def)

lemma cand_finish_simps [simp]:
  "c_id (cand_finish c s now) = c_id c" "c_run_id (cand_finish c s now) = c_run_id c"
  "c_status (cand_finish c s now) = s" "c_completed_at (cand_finish c s now) = Some now"
  "c_index (cand_finish c s now) = c_index c" "c_patch (cand_finish c s now) = c_patch c"
  "c_validation (cand_finish c s now) = c_validation c"
  "c_coder_iterations (cand_finish c s now) = c_coder_iterations c"
  "c_repair_iterations (cand_finish c s now) = c_repair_iterations c"
  "c_started_at (cand_finish c s now) = c_started_at c"
  "c_workspace_id (cand_finish c s now) = c_workspace_id c"
  by (simp_all add: cand_finish_def)

lemmas cand_ops = cand_attach_workspace_def cand_start_coding_def cand_record_worker_def
  cand_submit_patch_def cand_start_validation_def cand_append_validation_def cand_record_validation_def
  cand_record_review_def cand_start_repair_def cand_select_def cand_reject_def cand_fail_def cand_cancel_def

section \<open>Invariant\<close>

datatype cand_action =
    Attach_Workspace workspace_id
  | Start_Coding "job_id option"
  | Record_Worker worker_id
  | Submit_Patch patch string "string list"
  | Start_Validation
  | Append_Validation "tool_result list"
  | Record_Validation "validation_report option" bool
  | Record_Review review_verdict
  | Start_Repair
  | Select
  | Reject string
  | Fail_Candidate failure_kind string
  | Cancel_Candidate

fun cand_apply :: "candidate \<Rightarrow> moment \<Rightarrow> cand_action \<Rightarrow> candidate" where
  "cand_apply c now (Attach_Workspace w) = fst (cand_attach_workspace c w)"
| "cand_apply c now (Start_Coding j) = fst (cand_start_coding c now j)"
| "cand_apply c now (Record_Worker w) = cand_record_worker c w"
| "cand_apply c now (Submit_Patch p s u) = fst (cand_submit_patch c p s u)"
| "cand_apply c now Start_Validation = fst (cand_start_validation c now)"
| "cand_apply c now (Append_Validation rs) = fst (cand_append_validation c rs)"
| "cand_apply c now (Record_Validation r b) = fst (cand_record_validation c now r b)"
| "cand_apply c now (Record_Review v) = cand_record_review c v"
| "cand_apply c now Start_Repair = fst (cand_start_repair c now)"
| "cand_apply c now Select = fst (cand_select c now)"
| "cand_apply c now (Reject r) = cand_reject c now r"
| "cand_apply c now (Fail_Candidate k r) = cand_fail c now k r"
| "cand_apply c now Cancel_Candidate = cand_cancel c now"

inductive cand_reachable :: "candidate \<Rightarrow> bool" where
  created: "candidate_create cid rid idx now = Inr c \<Longrightarrow> cand_reachable c"
| step: "cand_reachable c \<Longrightarrow> cand_reachable (cand_apply c now a)"

definition wf_candidate :: "candidate \<Rightarrow> bool" where
  "wf_candidate c \<longleftrightarrow> 0 \<le> c_index c \<and> 0 \<le> c_repair_iterations c
     \<and> c_repair_iterations c \<le> c_coder_iterations c
     \<and> (candidate_is_terminal (c_status c) \<longleftrightarrow> c_completed_at c \<noteq> None)
     \<and> (c_status c \<in> {CAND_CODING, CAND_VALIDATING, CAND_VALIDATED} \<longrightarrow> 1 \<le> c_coder_iterations c)
     \<and> (c_patch c \<noteq> None \<longrightarrow> 1 \<le> c_coder_iterations c)"

lemma wf_candidate_create: "candidate_create cid rid idx now = Inr c \<Longrightarrow> wf_candidate c"
  by (auto simp: candidate_create_def mk_candidate_def wf_candidate_def split: if_splits)

lemma wf_candidate_apply: "wf_candidate c \<Longrightarrow> wf_candidate (cand_apply c now a)"
  by (cases a) (auto simp: wf_candidate_def cand_ops Let_def)

lemma cand_reachable_wf: "cand_reachable c \<Longrightarrow> wf_candidate c"
  by (induction rule: cand_reachable.induct) (auto intro: wf_candidate_create wf_candidate_apply)

lemma cand_terminal_status: "candidate_is_terminal (c_status c) \<Longrightarrow> c_status (cand_apply c now a) = c_status c"
  by (cases a; cases "c_status c") (auto simp: cand_ops)

section \<open>Selection\<close>

definition flag :: "bool \<Rightarrow> int" where
  "flag b = (if b then 1 else 0)"

definition tier :: "candidate \<Rightarrow> int \<times> int \<times> int \<times> int" where
  "tier c =
     (flag (c_review_verdict c = Some VERDICT_PASS),
      flag (tests_passed (c_validation c) = Some True),
      flag (build_passed (c_validation c) = Some True),
      flag (case c_patch c of None \<Rightarrow> False | Some p \<Rightarrow> \<not> patch_is_empty p))"

definition selection_key :: "candidate \<Rightarrow> (int \<times> int \<times> int \<times> int) \<times> int \<times> int" where
  "selection_key c =
     (tier c, - (case c_patch c of None \<Rightarrow> 0 | Some p \<Rightarrow> total_churn p), - c_index c)"

record selection =
  winner :: "candidate option"
  rationale :: string
  rejected :: "candidate list"

definition selection_select :: "candidate list \<Rightarrow> selection" where
  "selection_select cs =
     (let usable = filter (\<lambda>c. \<not> candidate_is_terminal (c_status c) \<or> is_viable c) cs in
      if usable = [] then \<lparr>winner = None, rationale = ''no candidate produced a usable patch'', rejected = []\<rparr>
      else
        let ranked = py_sorted_reverse selection_key usable; w = hd ranked in
        if snd (snd (snd (tier w))) = 0
        then \<lparr>winner = None, rationale = ''no candidate produced a non-empty patch'', rejected = ranked\<rparr>
        else if \<not> is_viable w
        then \<lparr>winner = None,
              rationale = ''no candidate survived deterministic validation: '' @ report_summary (c_validation w),
              rejected = ranked\<rparr>
        else \<lparr>winner = Some w,
              rationale = ''candidate '' @ show_int (c_index w) @ '' selected on '' @ report_summary (c_validation w),
              rejected = tl ranked\<rparr>)"

definition selection_viable :: "candidate list \<Rightarrow> candidate list" where
  "selection_viable cs = filter is_viable cs"

lemma viable_tier: "is_viable c \<Longrightarrow> snd (snd (snd (tier c))) = 1"
  by (auto simp: is_viable_def tier_def flag_def split: option.splits)

lemma mset_py_sorted_reverse: "mset (py_sorted_reverse f xs) = mset xs"
  by (simp add: py_sorted_reverse_def)

lemma selection_all_viable:
  assumes "cs \<noteq> []" and "\<forall>c \<in> set cs. is_viable c"
  obtains w where "winner (selection_select cs) = Some w" "w \<in> set cs"
    "\<forall>c \<in> set cs. selection_key c \<le> selection_key w" "mset (w # rejected (selection_select cs)) = mset cs"
proof -
  let ?ranked = "py_sorted_reverse selection_key cs"
  have usable: "filter (\<lambda>c. \<not> candidate_is_terminal (c_status c) \<or> is_viable c) cs = cs"
    using assms(2) by simp
  have ne: "?ranked \<noteq> []" using assms(1) by simp
  have hd: "hd ?ranked \<in> set cs" by (rule hd_py_sorted_reverse_in [OF assms(1)])
  with assms(2) have v: "is_viable (hd ?ranked)" by simp
  have sel: "selection_select cs = \<lparr>winner = Some (hd ?ranked),
      rationale = ''candidate '' @ show_int (c_index (hd ?ranked)) @ '' selected on ''
        @ report_summary (c_validation (hd ?ranked)), rejected = tl ?ranked\<rparr>"
    unfolding selection_select_def usable Let_def using assms(1) v viable_tier [OF v] by simp
  have "mset (hd ?ranked # tl ?ranked) = mset cs"
    using ne mset_py_sorted_reverse [of selection_key cs] by simp
  with sel hd show thesis
    by (intro that [of "hd ?ranked"]) (simp_all add: hd_py_sorted_reverse_max)
qed

section \<open>Properties\<close>

abbreviation demo_report :: "int \<Rightarrow> validation_report" where
  "demo_report code \<equiv> \<lparr>v_results = [\<lparr>r_tool = ''build'', r_kind = TK_BUILD, r_command = ''make'',
     r_exit_code = code, r_stdout = [], r_stderr = [], r_duration_ms = 1, r_truncated = False,
     r_artifacts = [], r_tool_metadata = []\<rparr>], v_static_analysis_is_blocking = False\<rparr>"

abbreviation demo_patch :: patch where
  "demo_patch \<equiv> \<lparr>diff_text = ''x'', base_revision = None,
     patch_files = [\<lparr>f_path = ''a'', f_added = 3, f_removed = 1\<rparr>]\<rparr>"

abbreviation demo_candidate :: "int \<Rightarrow> validation_report \<Rightarrow> candidate" where
  "demo_candidate idx v \<equiv> \<lparr>c_id = CandidateId 7, c_run_id = RunId 2, c_index = idx, c_created_at = 0,
     c_workspace_id = None, c_status = CAND_VALIDATED, c_patch = Some demo_patch, c_validation = v,
     c_summary = [], c_uncertainties = [], c_coder_iterations = 1, c_repair_iterations = 0,
     c_worker_id = None, c_last_job_id = None, c_review_verdict = None, c_started_at = None,
     c_completed_at = None, c_failure_kind = None, c_failure_reason = None, c_events = []\<rparr>"

lemma demo_candidate_viable: "is_viable (demo_candidate i (demo_report 0))" "is_viable (demo_candidate i empty_report)"
  by (simp_all add: is_viable_def patch_is_empty_def strip_def py_isspace_def report_is_viable_def
      build_passed_def tests_passed_def static_analysis_passed_def of_kind_def all_passed_def succeeded_def
      empty_report_def)

text \<open>
  C9. The selection policy is evidence first. Among viable candidates it always finds a winner; the winner
  is one of them, no candidate has a higher evidence tier (a reviewer's pass, then passing tests, then a
  passing build), among equals none has a smaller change, and among those none a smaller index; the
  others are reported as rejected, each once.
\<close>

theorem selection_is_evidence_first:
  assumes "cs \<noteq> []" and "\<forall>c \<in> set cs. is_viable c"
  shows "\<exists>w. winner (selection_select cs) = Some w \<and> w \<in> set cs \<and> is_viable w
    \<and> (\<forall>c \<in> set cs. tier c \<le> tier w
         \<and> (tier c = tier w \<longrightarrow> total_churn (the (c_patch w)) \<le> total_churn (the (c_patch c))
              \<and> (total_churn (the (c_patch c)) = total_churn (the (c_patch w)) \<longrightarrow> c_index w \<le> c_index c)))
    \<and> mset (rejected (selection_select cs)) = mset cs - {#w#}"
proof -
  obtain w where w: "winner (selection_select cs) = Some w" "w \<in> set cs"
    "\<forall>c \<in> set cs. selection_key c \<le> selection_key w" "mset (w # rejected (selection_select cs)) = mset cs"
    by (rule selection_all_viable [OF assms])
  have patch: "c_patch c \<noteq> None" if "c \<in> set cs" for c
    using assms(2) that by (auto simp: is_viable_def split: option.splits)
  have "tier c \<le> tier w
      \<and> (tier c = tier w \<longrightarrow> total_churn (the (c_patch w)) \<le> total_churn (the (c_patch c))
           \<and> (total_churn (the (c_patch c)) = total_churn (the (c_patch w)) \<longrightarrow> c_index w \<le> c_index c))"
    if "c \<in> set cs" for c
    using w(2,3) that patch [OF that] patch [OF w(2)] by (auto simp: selection_key_def)
  moreover have "mset (rejected (selection_select cs)) = mset cs - {#w#}"
    using w(4) by (metis add_mset_remove_trivial mset.simps(2))
  ultimately show ?thesis using w(1,2) assms(2) by blast
qed

theorem selection_is_evidence_first_witness:
  "\<exists>w. winner (selection_select [demo_candidate 0 empty_report, demo_candidate 1 (demo_report 0)]) = Some w"
proof -
  have "\<forall>c \<in> set [demo_candidate 0 empty_report, demo_candidate 1 (demo_report 0)]. is_viable c"
    using demo_candidate_viable by simp
  from selection_is_evidence_first [OF _ this] show ?thesis by blast
qed

text \<open>
  Every candidate, whatever calls it receives, keeps its iteration counters consistent and records its
  completion exactly in the terminal statuses, which no call leaves; and a repair discards all
  evidence about the code it replaces, so the repaired candidate is judged on new results only.
\<close>

theorem candidate_lifecycle_invariant:
  assumes "cand_reachable c"
  shows "wf_candidate c
    \<and> (candidate_is_terminal (c_status c) \<longrightarrow> c_status (cand_apply c now a) = c_status c)
    \<and> (snd (cand_start_repair c now) = Inr () \<longrightarrow>
         v_results (c_validation (fst (cand_start_repair c now))) = []
         \<and> build_passed (c_validation (fst (cand_start_repair c now))) = None
         \<and> tests_passed (c_validation (fst (cand_start_repair c now))) = None
         \<and> c_repair_iterations (fst (cand_start_repair c now)) = c_repair_iterations c + 1)"
  using cand_reachable_wf [OF assms] cand_terminal_status [of c now a]
  by (auto simp: cand_start_repair_def)

theorem candidate_lifecycle_invariant_witness:
  "\<exists>c. candidate_create (CandidateId 1) (RunId 2) 0 5 = Inr c \<and> wf_candidate c
     \<and> c_repair_iterations (fst (cand_start_repair c 6)) = 1"
proof -
  obtain c where c: "candidate_create (CandidateId 1) (RunId 2) 0 5 = Inr c" "c_status c = CAND_CREATED"
      "c_repair_iterations c = 0"
    by (simp add: candidate_create_def mk_candidate_def)
  have "snd (cand_start_repair c 6) = Inr ()" by (simp add: cand_start_repair_def c(2))
  with c candidate_lifecycle_invariant [OF cand_reachable.created [OF c(1)], of 6 Select]
  show ?thesis by auto
qed

text \<open>
  The statistics skip every line that starts with three dashes or pluses, which are not only the file
  headers: removing a line that itself starts with two dashes is not counted.
\<close>

lemma parse_stats_skips_dashes:
  "parse_stats (''diff --git a/q b/q'' @ newline @ ''-- x'' @ newline) = [\<lparr>f_path = ''q'', f_added = 0, f_removed = 1\<rparr>]"
  "parse_stats (''diff --git a/q b/q'' @ newline @ ''--- x'' @ newline) = [\<lparr>f_path = ''q'', f_added = 0, f_removed = 0\<rparr>]"
  by (simp_all add: parse_stats_def splitlines_def is_line_end_def stats_line_def stats_flush_def
      diff_header_def starts_with_def)

text \<open>
  Outside its use by the orchestrator, which only passes viable candidates, the policy looks at the
  top-ranked candidate alone: a broken candidate whose tests passed hides a viable one.
\<close>

lemma selection_can_hide_a_viable_candidate:
  "let bad = demo_candidate 0 ((demo_report 1)\<lparr>v_results := v_results (demo_report 1) @
              [(hd (v_results (demo_report 0)))\<lparr>r_kind := TK_TEST\<rparr>]\<rparr>);
       good = demo_candidate 1 (demo_report 0)
   in is_viable good \<and> winner (selection_select [bad, good]) = None"
  by (simp add: Let_def selection_select_def is_viable_def patch_is_empty_def strip_def py_isspace_def
      report_is_viable_def build_passed_def tests_passed_def static_analysis_passed_def of_kind_def
      all_passed_def succeeded_def py_sorted_reverse_def selection_key_def tier_def flag_def)

end
