(* ===== verification/Store.thy ===== *)
theory Store
  imports Job Run Plan Candidate
begin

text \<open>
  The durable store: the repositories over PostgreSQL
  (\<open>src/src/infrastructure/database/repositories.py\<close>) and the unit of work
  (\<open>src/src/infrastructure/database/unit_of_work.py\<close>). A table is a dictionary of the aggregates it
  holds, without their event buffers; the row codecs are not part of this theory, so a row and
  the aggregate it stores are identified. A transaction reads the store it was opened on and
  either replaces it on commit or leaves it alone.
\<close>

section \<open>Tables\<close>

record tool_row =
  tr_run :: run_id
  tr_candidate :: "candidate_id option"
  tr_position :: int
  tr_result :: tool_result

record event_row =
  er_run :: "run_id option"
  er_sequence :: int
  er_event :: event

record store =
  s_projects :: "(project_id, project) dict"
  s_runs :: "(run_id, run) dict"
  s_jobs :: "(job_id, job) dict"
  s_candidates :: "(candidate_id, candidate) dict"
  s_plans :: "plan list"
  s_reviews :: "review list"
  s_tool_results :: "tool_row list"
  s_events :: "event_row list"

definition run_row :: "run \<Rightarrow> run" where
  "run_row r = r\<lparr>r_events := []\<rparr>"

definition job_row :: "job \<Rightarrow> job" where
  "job_row j = j\<lparr>j_events := []\<rparr>"

definition candidate_row :: "candidate \<Rightarrow> candidate" where
  "candidate_row c = c\<lparr>c_events := []\<rparr>"

section \<open>Repositories\<close>

definition runs_add :: "store \<Rightarrow> run \<Rightarrow> store" where
  "runs_add s r = s\<lparr>s_runs := dict_set (r_id r) (run_row r) (s_runs s)\<rparr>"

definition runs_update :: "store \<Rightarrow> run \<Rightarrow> error + store" where
  "runs_update s r =
     (if dict_get (s_runs s) (r_id r) = None then Inl (EntityNotFoundError ''Run'' (run_uuid (r_id r)))
      else Inr (s\<lparr>s_runs := dict_set (r_id r) (run_row r) (s_runs s)\<rparr>))"

definition runs_find_by_idempotency_key :: "store \<Rightarrow> idempotency_key \<Rightarrow> run option" where
  "runs_find_by_idempotency_key s k = find (\<lambda>r. r_idempotency_key r = Some k) (map snd (s_runs s))"

definition runs_list_active :: "store \<Rightarrow> run list" where
  "runs_list_active s =
     py_sorted r_created_at (filter (\<lambda>r. \<not> run_is_terminal (r_status r)) (map snd (s_runs s)))"

definition jobs_add :: "store \<Rightarrow> job \<Rightarrow> store" where
  "jobs_add s j = s\<lparr>s_jobs := dict_set (j_id j) (job_row j) (s_jobs s)\<rparr>"

definition jobs_update :: "store \<Rightarrow> job \<Rightarrow> error + store" where
  "jobs_update s j =
     (if dict_get (s_jobs s) (j_id j) = None then Inl (EntityNotFoundError ''Job'' (job_uuid (j_id j)))
      else Inr (s\<lparr>s_jobs := dict_set (j_id j) (job_row j) (s_jobs s)\<rparr>))"

definition jobs_list_by_run :: "store \<Rightarrow> run_id \<Rightarrow> job list" where
  "jobs_list_by_run s r =
     py_sorted (\<lambda>j. (j_created_at j, j_id j)) (filter (\<lambda>j. j_run_id j = r) (map snd (s_jobs s)))"

definition jobs_list_by_status :: "store \<Rightarrow> job_status \<Rightarrow> nat \<Rightarrow> job list" where
  "jobs_list_by_status s st limit =
     take limit (py_sorted (\<lambda>j. (j_created_at j, j_id j)) (filter (\<lambda>j. j_status j = st) (map snd (s_jobs s))))"

definition jobs_list_expired_leases :: "store \<Rightarrow> moment \<Rightarrow> nat \<Rightarrow> job list" where
  "jobs_list_expired_leases s now limit =
     take limit (py_sorted (\<lambda>j. case j_lease j of None \<Rightarrow> 0 | Some l \<Rightarrow> l_expires_at l)
       (filter (\<lambda>j. (case j_lease j of None \<Rightarrow> False | Some l \<Rightarrow> l_expires_at l \<le> now)
                    \<and> j_status j \<in> {JOB_LEASED, JOB_RUNNING}) (map snd (s_jobs s))))"

definition candidates_add :: "store \<Rightarrow> candidate \<Rightarrow> store" where
  "candidates_add s c = s\<lparr>s_candidates := dict_set (c_id c) (candidate_row c) (s_candidates s)\<rparr>"

definition candidates_update :: "store \<Rightarrow> candidate \<Rightarrow> error + store" where
  "candidates_update s c =
     (if dict_get (s_candidates s) (c_id c) = None
      then Inl (EntityNotFoundError ''Candidate'' (candidate_uuid (c_id c)))
      else Inr (s\<lparr>s_candidates := dict_set (c_id c) (candidate_row c) (s_candidates s)\<rparr>))"

definition candidates_list_by_run :: "store \<Rightarrow> run_id \<Rightarrow> candidate list" where
  "candidates_list_by_run s r =
     py_sorted c_index (filter (\<lambda>c. c_run_id c = r) (map snd (s_candidates s)))"

definition plans_add :: "store \<Rightarrow> plan \<Rightarrow> store" where
  "plans_add s p = s\<lparr>s_plans := s_plans s @ [p]\<rparr>"

definition plans_latest_for_run :: "store \<Rightarrow> run_id \<Rightarrow> plan option" where
  "plans_latest_for_run s r =
     (case py_sorted_reverse p_revision (filter (\<lambda>p. p_run_id p = r) (s_plans s)) of
        [] \<Rightarrow> None | p # _ \<Rightarrow> Some p)"

definition reviews_add :: "store \<Rightarrow> review \<Rightarrow> store" where
  "reviews_add s r = s\<lparr>s_reviews := s_reviews s @ [r]\<rparr>"

definition reviews_list_by_candidate :: "store \<Rightarrow> candidate_id \<Rightarrow> review list" where
  "reviews_list_by_candidate s c =
     py_sorted rv_iteration (filter (\<lambda>r. rv_candidate_id r = c) (s_reviews s))"

definition maximum :: "int list \<Rightarrow> int option" where
  "maximum xs = (case xs of [] \<Rightarrow> None | y # ys \<Rightarrow> Some (fold max ys y))"

definition next_position :: "store \<Rightarrow> run_id \<Rightarrow> candidate_id option \<Rightarrow> int" where
  "next_position s r c =
     (case maximum (map tr_position (filter (\<lambda>t. tr_run t = r \<and> tr_candidate t = c) (s_tool_results s))) of
        None \<Rightarrow> 0 | Some highest \<Rightarrow> highest + 1)"

fun number_results ::
  "run_id \<Rightarrow> candidate_id option \<Rightarrow> int \<Rightarrow> tool_result list \<Rightarrow> tool_row list" where
  "number_results r c n [] = []"
| "number_results r c n (t # ts) =
     \<lparr>tr_run = r, tr_candidate = c, tr_position = n, tr_result = t\<rparr> # number_results r c (n + 1) ts"

definition tool_results_add_many ::
  "store \<Rightarrow> run_id \<Rightarrow> candidate_id option \<Rightarrow> tool_result list \<Rightarrow> store" where
  "tool_results_add_many s r c ts =
     (if ts = [] then s
      else s\<lparr>s_tool_results := s_tool_results s @ number_results r c (next_position s r c) ts\<rparr>)"

section \<open>The event log\<close>

definition next_sequence :: "event_row list \<Rightarrow> run_id option \<Rightarrow> int" where
  "next_sequence rows r =
     (case maximum (map er_sequence (filter (\<lambda>e. er_run e = r) rows)) of
        None \<Rightarrow> 1 | Some highest \<Rightarrow> highest + 1)"

fun number_events :: "run_id option \<Rightarrow> int \<Rightarrow> event list \<Rightarrow> event_row list" where
  "number_events r n [] = []"
| "number_events r n (e # es) = \<lparr>er_run = r, er_sequence = n, er_event = e\<rparr> # number_events r (n + 1) es"

text \<open>\<open>grouped.setdefault(...).append(event)\<close>, event by event.\<close>

fun group_events :: "(run_id option, event list) dict \<Rightarrow> event list \<Rightarrow> (run_id option, event list) dict" where
  "group_events d [] = d"
| "group_events d (e # es) =
     group_events (dict_set (run_id_of e)
       ((case dict_get d (run_id_of e) of None \<Rightarrow> [] | Some xs \<Rightarrow> xs) @ [e]) d) es"

definition group_order :: "run_id option \<Rightarrow> bool \<times> nat" where
  "group_order r = (r \<noteq> None, case r of None \<Rightarrow> 0 | Some i \<Rightarrow> run_uuid i)"

definition append_group :: "run_id option \<times> event list \<Rightarrow> event_row list \<Rightarrow> event_row list" where
  "append_group g rows = rows @ number_events (fst g) (next_sequence rows (fst g)) (snd g)"

definition events_append :: "event_row list \<Rightarrow> event list \<Rightarrow> event_row list" where
  "events_append rows es =
     (if es = [] then rows
      else fold append_group (py_sorted (\<lambda>g. group_order (fst g)) (group_events [] es)) rows)"

definition events_list_by_run :: "event_row list \<Rightarrow> run_id \<Rightarrow> int option \<Rightarrow> nat \<Rightarrow> (int \<times> event) list" where
  "events_list_by_run rows r after limit =
     map (\<lambda>e. (er_sequence e, er_event e))
       (take limit (py_sorted er_sequence
         (filter (\<lambda>e. er_run e = Some r \<and> (case after of None \<Rightarrow> True | Some n \<Rightarrow> n < er_sequence e)) rows)))"

text \<open>
  \<open>commit\<close>: the events drained from the collected aggregates, in the order they were collected, are
  appended to the log in the same transaction.
\<close>

definition commit :: "store \<Rightarrow> event list \<Rightarrow> store" where
  "commit s drained = s\<lparr>s_events := events_append (s_events s) drained\<rparr>"

section \<open>The log of a run has no gaps\<close>

definition log_of :: "event_row list \<Rightarrow> run_id option \<Rightarrow> event_row list" where
  "log_of rows r = filter (\<lambda>e. er_run e = r) rows"

definition log_events :: "event_row list \<Rightarrow> run_id option \<Rightarrow> event list" where
  "log_events rows r = map er_event (log_of rows r)"

definition gapless :: "event_row list \<Rightarrow> bool" where
  "gapless rows \<longleftrightarrow> (\<forall>r. log_of rows r = number_events r 1 (log_events rows r))"

lemma number_events_append:
  "number_events r n (xs @ ys) = number_events r n xs @ number_events r (n + int (length xs)) ys"
  by (induction xs arbitrary: n) (auto simp: algebra_simps)

lemma number_events_simps [simp]:
  "map er_event (number_events r n es) = es" "length (number_events r n es) = length es"
  "filter (\<lambda>e. er_run e = r') (number_events r n es) = (if r' = r then number_events r n es else [])"
  by (induction es arbitrary: n) auto

lemma number_events_sequences: "map er_sequence (number_events r n es) = [n..n + int (length es) - 1]"
  by (induction es arbitrary: n) (auto simp: upto_rec1 algebra_simps)

lemma drop_number_events: "drop k (number_events r n es) = number_events r (n + int k) (drop k es)"
proof (induction es arbitrary: k n)
  case (Cons e es)
  then show ?case by (cases k) (auto simp: algebra_simps)
qed simp

lemma filter_number_events:
  "filter (\<lambda>e. n + int k \<le> er_sequence e) (number_events r n es) = drop k (number_events r n es)"
proof (induction es arbitrary: k n)
  case (Cons e es)
  show ?case
  proof (cases k)
    case 0
    have "\<forall>x \<in> set (number_events r m xs). m \<le> er_sequence x" for m xs
      by (induction xs arbitrary: m) (auto, fastforce)
    from this [of n "e # es"] show ?thesis by (simp add: 0 del: number_events.simps)
  next
    case (Suc j)
    have "n + int k = n + 1 + int j" by (simp add: Suc)
    then show ?thesis using Cons.IH [of "n + 1" j] by (simp only: number_events.simps) (simp add: Suc)
  qed
qed simp

lemma fold_max_upto: "n \<le> m \<Longrightarrow> fold max [n + 1..m] (n :: int) = m"
proof (induction "nat (m - n)" arbitrary: n)
  case (Suc k)
  then have "[n + 1..m] = (n + 1) # [n + 1 + 1..m]" by (intro upto_rec1) simp
  moreover have "fold max [n + 1 + 1..m] (n + 1) = m" using Suc by (intro Suc.hyps(1)) auto
  ultimately show ?case by simp
qed simp

lemma next_sequence_gapless:
  assumes "gapless rows"
  shows "next_sequence rows r = 1 + int (length (log_events rows r))"
proof -
  let ?n = "int (length (log_events rows r))"
  have seqs: "map er_sequence (log_of rows r) = [1..?n]"
    using assms number_events_sequences [of r 1 "log_events rows r"] by (simp add: gapless_def)
  show ?thesis
  proof (cases "log_events rows r")
    case Nil
    with seqs show ?thesis by (simp add: next_sequence_def maximum_def log_of_def)
  next
    case (Cons e es)
    then have "[1..?n] = 1 # [1 + 1..?n]" by (intro upto_rec1) simp
    moreover have "1 \<le> ?n" using Cons by simp
    ultimately show ?thesis
      using seqs fold_max_upto [of 1 ?n] by (simp add: next_sequence_def maximum_def log_of_def)
  qed
qed

lemma append_group_log:
  assumes "gapless rows"
  shows "log_events (append_group g rows) r = log_events rows r @ (if r = fst g then snd g else [])"
    and "gapless (append_group g rows)"
proof -
  have log: "log_of (append_group g rows) r =
      log_of rows r @ (if r = fst g then number_events r (next_sequence rows r) (snd g) else [])" for r
    by (auto simp: append_group_def log_of_def)
  have ev: "log_events (append_group g rows) r = log_events rows r @ (if r = fst g then snd g else [])" for r
    by (simp add: log_events_def log)
  then show "log_events (append_group g rows) r = log_events rows r @ (if r = fst g then snd g else [])" .
  show "gapless (append_group g rows)"
    unfolding gapless_def
  proof
    fix r
    have old: "log_of rows r = number_events r 1 (log_events rows r)" using assms by (simp add: gapless_def)
    show "log_of (append_group g rows) r = number_events r 1 (log_events (append_group g rows) r)"
      by (simp add: ev number_events_append log next_sequence_gapless [OF assms] old [symmetric])
  qed
qed

lemma fold_append_group:
  assumes "gapless rows" and "distinct (map fst gs)"
  shows "gapless (fold append_group gs rows)
    \<and> log_events (fold append_group gs rows) r = log_events rows r @ (case map_of gs r of None \<Rightarrow> [] | Some es \<Rightarrow> es)"
  using assms
proof (induction gs arbitrary: rows)
  case (Cons g gs)
  note one = append_group_log [OF Cons.prems(1), of g]
  have "map_of gs (fst g) = None" using Cons.prems(2) by (simp add: map_of_eq_None_iff)
  with Cons.IH [OF one(2)] Cons.prems(2) one(1) [of r] show ?case
    by (cases g) (auto split: option.splits)
qed simp

lemma group_events_get:
  "(case dict_get (group_events d es) r of None \<Rightarrow> [] | Some xs \<Rightarrow> xs) =
   (case dict_get d r of None \<Rightarrow> [] | Some xs \<Rightarrow> xs) @ filter (\<lambda>e. run_id_of e = r) es"
  by (induction es arbitrary: d) (auto split: option.splits)

lemma group_events_wf: "dict_wf d \<Longrightarrow> dict_wf (group_events d es)"
  by (induction es arbitrary: d) simp_all

lemma map_of_sort_key:
  assumes "distinct (map fst gs)"
  shows "map_of (sort_key f gs) = map_of gs"
proof (rule map_of_eqI)
  have inj: "distinct gs" "inj_on fst (set gs)" using assms by (auto simp: distinct_map)
  have d: "distinct (map fst (sort_key f gs))" using inj by (simp add: distinct_map)
  show "set (map fst (sort_key f gs)) = set (map fst gs)" by simp
  show "\<forall>k \<in> set (map fst (sort_key f gs)). map_of (sort_key f gs) k = map_of gs k"
  proof
    fix k assume "k \<in> set (map fst (sort_key f gs))"
    then obtain v where "(k, v) \<in> set gs" by auto
    then show "map_of (sort_key f gs) k = map_of gs k"
      using assms d by (metis map_of_is_SomeI set_sort)
  qed
qed

lemma events_append_log:
  assumes "gapless rows"
  shows "gapless (events_append rows es)"
    and "log_events (events_append rows es) r = log_events rows r @ filter (\<lambda>e. run_id_of e = r) es"
proof -
  let ?gs = "py_sorted (\<lambda>g. group_order (fst g)) (group_events [] es)"
  have wf: "dict_wf (group_events [] es)" by (simp add: group_events_wf)
  have d: "distinct (map fst ?gs)" using wf by (simp add: distinct_map)
  have "(case map_of ?gs r of None \<Rightarrow> [] | Some xs \<Rightarrow> xs) = filter (\<lambda>e. run_id_of e = r) es" for r
    using group_events_get [of "[]" es r] by (simp add: map_of_sort_key [OF wf])
  with fold_append_group [OF assms d]
  show "gapless (events_append rows es)"
    and "log_events (events_append rows es) r = log_events rows r @ filter (\<lambda>e. run_id_of e = r) es"
    using assms by (simp_all add: events_append_def)
qed

lemma sort_key_sorted: "sorted (map f xs) \<Longrightarrow> sort_key f xs = xs"
  by (induction xs) (auto simp: insort_is_Cons)

lemma events_list_by_run_eq:
  assumes "gapless rows"
  shows "events_list_by_run rows r (Some (int k)) limit =
           take limit (drop k (zip [1..int (length (log_events rows (Some r)))] (log_events rows (Some r))))"
proof -
  let ?es = "log_events rows (Some r)"
  have "filter (\<lambda>e. er_run e = Some r \<and> int k < er_sequence e) rows =
        filter (\<lambda>e. 1 + int k \<le> er_sequence e) (log_of rows (Some r))"
    by (auto simp: log_of_def intro!: filter_cong)
  also have "\<dots> = drop k (number_events (Some r) 1 ?es)"
    using assms filter_number_events [of 1 k "Some r" ?es] by (simp add: gapless_def)
  finally have rows: "filter (\<lambda>e. er_run e = Some r \<and> int k < er_sequence e) rows =
        drop k (number_events (Some r) 1 ?es)" .
  have "sorted (map er_sequence (drop k (number_events (Some r) 1 ?es)))"
    by (simp add: drop_number_events number_events_sequences)
  then have "py_sorted er_sequence (drop k (number_events (Some r) 1 ?es)) = drop k (number_events (Some r) 1 ?es)"
    by (rule sort_key_sorted)
  moreover have "map (\<lambda>e. (er_sequence e, er_event e)) (number_events (Some r) 1 ?es) =
      zip (map er_sequence (number_events (Some r) 1 ?es)) (map er_event (number_events (Some r) 1 ?es))"
    by (simp only: zip_map_map zip_same_conv_map map_map comp_def split_conv)
  ultimately show ?thesis
    by (simp add: events_list_by_run_def rows take_map [symmetric] drop_map [symmetric] number_events_sequences)
qed

lemma gapless_history:
  "gapless (fold (\<lambda>es rows. events_append rows es) batches rows) \<and>
   log_events (fold (\<lambda>es rows. events_append rows es) batches rows) r =
     log_events rows r @ filter (\<lambda>e. run_id_of e = r) (concat batches)" if "gapless rows"
  using that
proof (induction batches arbitrary: rows)
  case (Cons es batches)
  from Cons.IH [OF events_append_log(1) [OF Cons.prems]] events_append_log(2) [OF Cons.prems, of es r]
  show ?case by simp
qed simp

section \<open>Properties\<close>

text \<open>
  The event log is a faithful, gapless history per run. However the events are batched into
  transactions, reading a run's log after sequence number \<open>k\<close> returns the events of that run (and of no
  other) from the \<open>k\<close>-th on, in the order they were appended, numbered consecutively from 1: a client that
  resumes from the last number it saw misses nothing and sees nothing twice.
\<close>

theorem event_log_supports_cursors:
  "events_list_by_run (fold (\<lambda>es rows. events_append rows es) batches []) r (Some (int k)) limit =
     (let history = filter (\<lambda>e. run_id_of e = Some r) (concat batches)
      in take limit (drop k (zip [1..int (length history)] history)))"
proof -
  have "gapless []" by (simp add: gapless_def log_of_def log_events_def)
  note history = gapless_history [OF this, of batches "Some r"]
  have "log_events [] (Some r) = []" by (simp add: log_of_def log_events_def)
  with history show ?thesis by (simp add: events_list_by_run_eq Let_def)
qed

end
