(* ===== verification/Retry.thy ===== *)
theory Retry
  imports Values
begin

text \<open>
  The retry policy (\<open>src/src/domain/services/retry_policy.py\<close>): which failures are retried, where, and after
  which delay. Delays are in microseconds; the seconds the code computes as floats are exact here.
\<close>

datatype retry_action = RETRY_SAME_WORKER | RETRY_OTHER_WORKER | REPAIR_PROMPT | AGENTIC_REPAIR | RETRY_FAIL

record retry_decision =
  rd_action :: retry_action
  rd_delay :: duration
  rd_reason :: string

definition should_retry_job :: "retry_decision \<Rightarrow> bool" where
  "should_retry_job d \<longleftrightarrow> rd_action d \<in> {RETRY_SAME_WORKER, RETRY_OTHER_WORKER, REPAIR_PROMPT}"

record retry_policy =
  rp_max_attempts :: int
  rp_base_delay :: duration
  rp_max_delay :: duration
  rp_max_structured_output_repairs :: int

definition default_retry_policy :: retry_policy where
  "default_retry_policy = \<lparr>rp_max_attempts = 3, rp_base_delay = seconds 1, rp_max_delay = seconds 30,
     rp_max_structured_output_repairs = 2\<rparr>"

definition mk_retry_policy :: "retry_policy \<Rightarrow> error + retry_policy" where
  "mk_retry_policy p =
     (if rp_max_attempts p < 1 then Inl (ValueError ''max_attempts must be at least 1'') else Inr p)"

definition backoff :: "retry_policy \<Rightarrow> int \<Rightarrow> duration" where
  "backoff p attempt = min (rp_base_delay p * 2 ^ nat (max (attempt - 1) 0)) (rp_max_delay p)"

definition decide :: "retry_policy \<Rightarrow> failure_kind \<Rightarrow> int \<Rightarrow> retry_decision" where
  "decide p kind attempt =
     (if kind = FK_CANCELLED
      then \<lparr>rd_action = RETRY_FAIL, rd_delay = 0, rd_reason = ''run cancelled''\<rparr>
      else if is_code_defect kind
      then \<lparr>rd_action = AGENTIC_REPAIR, rd_delay = 0,
            rd_reason = failure_kind_value kind @ '' is repaired by the coder, not retried''\<rparr>
      else if kind = FK_INVALID_STRUCTURED_OUTPUT
      then if rp_max_structured_output_repairs p \<le> attempt
           then \<lparr>rd_action = RETRY_FAIL, rd_delay = 0, rd_reason = ''structured output still invalid after repairs''\<rparr>
           else \<lparr>rd_action = REPAIR_PROMPT, rd_delay = 0,
                 rd_reason = ''re-ask the model with the schema violation attached''\<rparr>
      else if rp_max_attempts p \<le> attempt
      then \<lparr>rd_action = RETRY_FAIL, rd_delay = 0, rd_reason = ''retry budget exhausted''\<rparr>
      else if kind = FK_INFRASTRUCTURE
      then \<lparr>rd_action = RETRY_OTHER_WORKER, rd_delay = backoff p attempt, rd_reason = ''worker or transport failed''\<rparr>
      else if kind = FK_INFERENCE
      then \<lparr>rd_action = RETRY_OTHER_WORKER, rd_delay = backoff p attempt,
            rd_reason = ''inference failed; another worker may succeed''\<rparr>
      else if kind = FK_TOOL
      then \<lparr>rd_action = RETRY_SAME_WORKER, rd_delay = backoff p attempt,
            rd_reason = ''tool could not run; the workspace is unchanged''\<rparr>
      else \<lparr>rd_action = RETRY_FAIL, rd_delay = 0,
            rd_reason = ''unhandled failure kind '' @ failure_kind_value kind\<rparr>)"

text \<open>The number of attempts after which a kind of failure is final.\<close>

definition retry_budget :: "retry_policy \<Rightarrow> failure_kind \<Rightarrow> int" where
  "retry_budget p kind =
     (if kind = FK_INVALID_STRUCTURED_OUTPUT then rp_max_structured_output_repairs p else rp_max_attempts p)"

lemma decide_retries_iff:
  "should_retry_job (decide p kind attempt) \<longleftrightarrow>
     kind \<in> {FK_INFRASTRUCTURE, FK_INFERENCE, FK_TOOL, FK_INVALID_STRUCTURED_OUTPUT}
     \<and> attempt < retry_budget p kind"
  by (cases kind) (auto simp: decide_def should_retry_job_def retry_budget_def)

lemma backoff_mono:
  assumes "0 \<le> rp_base_delay p" and "a \<le> b"
  shows "backoff p a \<le> backoff p b"
proof -
  have "(2 :: int) ^ nat (max (a - 1) 0) \<le> 2 ^ nat (max (b - 1) 0)"
    using assms(2) by (intro power_increasing) auto
  then have "rp_base_delay p * 2 ^ nat (max (a - 1) 0) \<le> rp_base_delay p * 2 ^ nat (max (b - 1) 0)"
    using assms(1) by (rule mult_left_mono)
  then show ?thesis by (auto simp: backoff_def)
qed

text \<open>
  Retrying is bounded and discriminating. A failure is retried exactly when its kind is a failure of
  the machinery or of the model's answer and the attempts of that kind are not used up; a defect of the
  produced code is never retried but sent to repair, and a cancelled run's job is never retried. Delays
  never exceed the cap, never go backwards from one attempt to the next, and double until the cap.
\<close>

theorem retry_is_bounded:
  assumes "0 \<le> rp_base_delay p" and "0 \<le> rp_max_delay p"
  shows "(should_retry_job (decide p kind attempt) \<longleftrightarrow>
            \<not> is_code_defect kind \<and> kind \<noteq> FK_CANCELLED
            \<and> attempt < (if kind = FK_INVALID_STRUCTURED_OUTPUT then rp_max_structured_output_repairs p
                          else rp_max_attempts p))
    \<and> (is_code_defect kind \<longrightarrow> rd_action (decide p kind attempt) = AGENTIC_REPAIR)
    \<and> 0 \<le> rd_delay (decide p kind attempt) \<and> rd_delay (decide p kind attempt) \<le> rp_max_delay p
    \<and> backoff p attempt \<le> backoff p (attempt + 1)
    \<and> (1 \<le> attempt \<and> 2 * backoff p attempt \<le> rp_max_delay p \<longrightarrow>
         backoff p (attempt + 1) = 2 * backoff p attempt)"
proof -
  have "0 \<le> backoff p attempt" "backoff p attempt \<le> rp_max_delay p"
    using assms by (simp_all add: backoff_def)
  then have delay: "0 \<le> rd_delay (decide p kind attempt)" "rd_delay (decide p kind attempt) \<le> rp_max_delay p"
    using assms by (auto simp: decide_def)
  have double: "backoff p (attempt + 1) = 2 * backoff p attempt"
    if h: "1 \<le> attempt" "2 * backoff p attempt \<le> rp_max_delay p"
  proof -
    let ?x = "rp_base_delay p * 2 ^ nat (attempt - 1)"
    have nat: "nat attempt = Suc (nat (attempt - 1))" using h(1) by simp
    have after: "backoff p (attempt + 1) = min (2 * ?x) (rp_max_delay p)"
      using h(1) by (simp add: backoff_def nat mult.left_commute)
    have this_one: "backoff p attempt = min ?x (rp_max_delay p)" using h(1) by (simp add: backoff_def)
    have "0 \<le> ?x" using assms(1) by simp
    then show ?thesis using h(2) assms(2) by (simp add: after this_one min_def split: if_splits)
  qed
  show ?thesis
    using delay double backoff_mono [OF assms(1), of attempt "attempt + 1"]
    by (cases kind) (auto simp: should_retry_job_def decide_def)
qed

theorem retry_is_bounded_witness:
  "\<not> should_retry_job (decide default_retry_policy FK_INFERENCE 3)
   \<and> backoff default_retry_policy 2 = 2 * backoff default_retry_policy 1"
  using retry_is_bounded [of default_retry_policy FK_INFERENCE 3]
    retry_is_bounded [of default_retry_policy FK_INFERENCE 1]
  by (simp add: default_retry_policy_def backoff_def)

end
