(* ===== verification/Queue.thy ===== *)
theory Queue
  imports Job
begin

text \<open>
  The in-memory job queue (\<open>InMemoryJobQueue\<close> in \<open>src/src/infrastructure/queue/in_memory.py\<close>) and the
  score that orders it (\<open>queue_score\<close> in \<open>src/src/infrastructure/redis/codecs.py\<close>). Every operation
  runs under the queue's lock, so each is one atomic function on the state. The contract the
  executor and the orchestrator rely on is the locale \<open>job_queue\<close>: who holds a job, and that nobody
  else is handed it meanwhile.
\<close>

section \<open>Scores\<close>

definition PRIORITY_BAND :: int where
  "PRIORITY_BAND = 10 ^ 13"

definition queue_score :: "priority \<Rightarrow> moment \<Rightarrow> int" where
  "queue_score p created_at = - rank p * PRIORITY_BAND + whole_ms created_at"

section \<open>State\<close>

text \<open>
  \<open>_ready\<close> and \<open>_runs\<close> are read with a default everywhere, so they are functions whose default
  value is the empty collection; sets are duplicate-free lists.
\<close>

record memq =
  q_jobs :: "(job_id, job) dict"
  q_ready :: "job_type \<Rightarrow> (job_id, int) dict"
  q_scores :: "(job_id, int) dict"
  q_leases :: "(job_id, moment) dict"
  q_runs :: "run_id \<Rightarrow> job_id list"
  q_acknowledged :: "job_id list"

definition memq_empty :: memq where
  "memq_empty = \<lparr>q_jobs = [], q_ready = (\<lambda>_. []), q_scores = [], q_leases = [],
                 q_runs = (\<lambda>_. []), q_acknowledged = []\<rparr>"

text \<open>\<open>_rebuild\<close>: a detached copy with an empty event buffer.\<close>

definition rebuild :: "job \<Rightarrow> job" where
  "rebuild j = j\<lparr>j_events := []\<rparr>"

definition add_ready :: "job_type \<Rightarrow> job_id \<Rightarrow> int \<Rightarrow> memq \<Rightarrow> memq" where
  "add_ready t i s q = q\<lparr>q_ready := (q_ready q)(t := dict_set i s (q_ready q t))\<rparr>"

definition pop_ready :: "job_type \<Rightarrow> job_id \<Rightarrow> memq \<Rightarrow> memq" where
  "pop_ready t i q = q\<lparr>q_ready := (q_ready q)(t := dict_pop i (q_ready q t))\<rparr>"

section \<open>Operations\<close>

definition memq_enqueue :: "memq \<Rightarrow> job \<Rightarrow> memq" where
  "memq_enqueue q j =
     (if (case dict_get (q_jobs q) (j_id j) of
            None \<Rightarrow> False
          | Some stored \<Rightarrow> is_in_flight (j_status stored) \<or> j_id j \<in> set (q_acknowledged q))
      then q
      else
        let score = queue_score (j_priority j) (j_created_at j) in
        add_ready (j_type j) (j_id j) score
          (q\<lparr>q_jobs := dict_set (j_id j) (rebuild j\<lparr>j_status := JOB_QUEUED\<rparr>) (q_jobs q),
             q_scores := dict_set (j_id j) score (q_scores q),
             q_runs := (q_runs q)(j_run_id j := List.insert (j_id j) (q_runs q (j_run_id j)))\<rparr>))"

text \<open>\<open>list(dict.fromkeys(xs))\<close>: the first occurrence of each element.\<close>

definition fromkeys :: "'a list \<Rightarrow> 'a list" where
  "fromkeys xs = rev (remdups (rev xs))"

lemma set_fromkeys [simp]: "set (fromkeys xs) = set xs"
  by (simp add: fromkeys_def)

text \<open>\<open>_next_ready\<close>: a scan for the lowest (score, id) among the requested types.\<close>

definition ready_entries :: "memq \<Rightarrow> job_type list \<Rightarrow> (job_type \<times> job_id \<times> int) list" where
  "ready_entries q wanted = concat (map (\<lambda>t. map (\<lambda>(i, s). (t, i, s)) (q_ready q t)) wanted)"

fun scan_best ::
  "(job_type \<times> job_id \<times> int) list \<Rightarrow> ((int \<times> job_id) \<times> job_type \<times> job_id) option
   \<Rightarrow> ((int \<times> job_id) \<times> job_type \<times> job_id) option" where
  "scan_best [] best = best"
| "scan_best ((t, i, s) # rest) best =
     (case best of
        None \<Rightarrow> scan_best rest (Some ((s, i), t, i))
      | Some b \<Rightarrow> if (s, i) < fst b then scan_best rest (Some ((s, i), t, i)) else scan_best rest best)"

definition next_ready :: "memq \<Rightarrow> job_type list \<Rightarrow> (job_type \<times> job_id) option" where
  "next_ready q wanted = map_option snd (scan_best (ready_entries q wanted) None)"

lemma scan_best_le_best: "scan_best es (Some b) = Some r \<Longrightarrow> fst r \<le> fst b"
proof (induction es arbitrary: b)
  case (Cons e es)
  obtain t i s where e: "e = (t, i, s)" by (cases e)
  show ?case
  proof (cases "(s, i) < fst b")
    case True
    with Cons.prems have "scan_best es (Some ((s, i), t, i)) = Some r" by (simp add: e)
    from Cons.IH [OF this] True show ?thesis by simp
  next
    case False
    with Cons show ?thesis by (simp add: e)
  qed
qed simp

lemma scan_best_le_all:
  "scan_best es best = Some r \<Longrightarrow> (t, i, s) \<in> set es \<Longrightarrow> fst r \<le> (s, i)"
proof (induction es arbitrary: best)
  case (Cons e es)
  obtain t' i' s' where e: "e = (t', i', s')" by (cases e)
  obtain b where b: "scan_best es (Some b) = Some r" "fst b \<le> (s', i')"
    using Cons.prems(1) by (auto simp: e not_less split: option.splits if_splits)
  show ?case
  proof (cases "(t, i, s) = e")
    case True
    with e b(2) scan_best_le_best [OF b(1)] show ?thesis by simp
  next
    case False
    with Cons.prems(2) have "(t, i, s) \<in> set es" by simp
    from Cons.IH [OF b(1) this] show ?thesis .
  qed
qed simp

lemma scan_best_mem:
  "scan_best es best = Some (k, t, i) \<Longrightarrow> (\<exists>s. k = (s, i) \<and> (t, i, s) \<in> set es) \<or> best = Some (k, t, i)"
  by (induction es best rule: scan_best.induct) (auto split: option.splits if_splits)

lemma scan_best_None: "scan_best es best = None \<longleftrightarrow> es = [] \<and> best = None"
  by (induction es best rule: scan_best.induct) (auto split: option.splits)

lemma set_ready_entries:
  "(t, i, s) \<in> set (ready_entries q wanted) \<longleftrightarrow> t \<in> set wanted \<and> (i, s) \<in> set (q_ready q t)"
  by (auto simp: ready_entries_def)

lemma next_ready_Some:
  assumes "next_ready q wanted = Some (t, i)"
  shows "\<exists>s. t \<in> set wanted \<and> (i, s) \<in> set (q_ready q t)
     \<and> (\<forall>t' \<in> set wanted. \<forall>(i', s') \<in> set (q_ready q t'). (s, i) \<le> (s', i'))"
proof -
  obtain k where k: "scan_best (ready_entries q wanted) None = Some (k, t, i)"
    using assms by (auto simp: next_ready_def)
  from scan_best_mem [OF k] obtain s where s: "k = (s, i)" "(t, i, s) \<in> set (ready_entries q wanted)"
    by auto
  have "(s, i) \<le> (s', i')" if "t' \<in> set wanted" "(i', s') \<in> set (q_ready q t')" for t' i' s'
    using scan_best_le_all [OF k, of t' i' s'] that s(1) by (simp add: set_ready_entries)
  with s(2) show ?thesis by (auto simp: set_ready_entries)
qed

lemma next_ready_None: "next_ready q wanted = None \<longleftrightarrow> (\<forall>t \<in> set wanted. q_ready q t = [])"
  by (auto simp: next_ready_def scan_best_None ready_entries_def)

definition ready_size :: "memq \<Rightarrow> job_type list \<Rightarrow> nat" where
  "ready_size q wanted = sum_list (map (\<lambda>t. length (q_ready q t)) wanted)"

lemma ready_size_pop:
  assumes "t \<in> set wanted" and "(i, s) \<in> set (q_ready q t)"
  shows "ready_size (pop_ready t i q) wanted < ready_size q wanted"
proof -
  have len: "length (dict_pop i (q_ready q t)) < length (q_ready q t)"
    using assms(2) by (intro length_dict_pop_less) force
  show ?thesis
    using assms(1) unfolding ready_size_def
  proof (induction wanted)
    case (Cons u us)
    have "sum_list (map (\<lambda>t'. length (q_ready (pop_ready t i q) t')) us)
        \<le> sum_list (map (\<lambda>t'. length (q_ready q t')) us)"
      by (rule sum_list_mono) (simp add: pop_ready_def length_dict_pop_le)
    with Cons len show ?case by (cases "u = t") (auto simp: pop_ready_def)
  qed simp
qed

text \<open>
  The loop of \<open>claim\<close>. Each round removes one entry of a requested ready set, so it ends.
  \<open>fresh\<close> is the token \<open>LeaseToken.generate()\<close> hands out.
\<close>

function memq_claim_loop ::
  "memq \<Rightarrow> worker_id \<Rightarrow> job_type list \<Rightarrow> duration \<Rightarrow> moment \<Rightarrow> lease_token
   \<Rightarrow> (memq, (job \<times> lease) option) result" where
  "memq_claim_loop q consumer wanted dur now fresh =
     (case next_ready q wanted of
        None \<Rightarrow> (q, Inr None)
      | Some (t, i) \<Rightarrow>
          let q1 = pop_ready t i q in
          (case dict_get (q_jobs q) i of
             None \<Rightarrow> memq_claim_loop q1 consumer wanted dur now fresh
           | Some stored \<Rightarrow>
               if j_status stored \<noteq> JOB_QUEUED then memq_claim_loop q1 consumer wanted dur now fresh
               else
                 (case job_lease_to (rebuild stored) consumer now dur (Some fresh) fresh of
                    (claimed, Inl e) \<Rightarrow> (q1, Inl e)
                  | (claimed, Inr l) \<Rightarrow>
                      (q1\<lparr>q_jobs := dict_set i (rebuild claimed) (q_jobs q1),
                          q_leases := dict_set i (l_expires_at l) (q_leases q1)\<rparr>,
                       Inr (Some (claimed, l))))))"
  by pat_completeness auto
termination
  by (relation "measure (\<lambda>(q, _, wanted, _). ready_size q wanted)")
     (auto dest!: next_ready_Some intro: ready_size_pop)

declare memq_claim_loop.simps [simp del]

definition memq_claim ::
  "memq \<Rightarrow> worker_id \<Rightarrow> job_type list \<Rightarrow> duration \<Rightarrow> moment \<Rightarrow> lease_token
   \<Rightarrow> (memq, (job \<times> lease) option) result" where
  "memq_claim q consumer job_types dur now fresh =
     (if fromkeys job_types = [] then (q, Inr None)
      else memq_claim_loop q consumer (fromkeys job_types) dur now fresh)"

definition memq_renew ::
  "memq \<Rightarrow> job_id \<Rightarrow> lease_token \<Rightarrow> duration \<Rightarrow> moment \<Rightarrow> (memq, lease) result" where
  "memq_renew q i token dur now =
     (case dict_get (q_jobs q) i of
        None \<Rightarrow> (q, Inl (JobLeaseExpiredError i None))
      | Some j \<Rightarrow>
          (case job_renew_lease j token now dur of
             (j', Inl e) \<Rightarrow> (q, Inl e)
           | (j', Inr l) \<Rightarrow>
               (q\<lparr>q_jobs := dict_set i (rebuild j') (q_jobs q),
                  q_leases := dict_set i (l_expires_at l) (q_leases q)\<rparr>, Inr l)))"

definition queue_holds :: "job \<Rightarrow> lease_token \<Rightarrow> bool" where
  "queue_holds j token \<longleftrightarrow> (case j_lease j of None \<Rightarrow> False | Some l \<Rightarrow> l_token l = token)"

definition memq_acknowledge :: "memq \<Rightarrow> job_id \<Rightarrow> lease_token \<Rightarrow> memq" where
  "memq_acknowledge q i token =
     (case dict_get (q_jobs q) i of
        None \<Rightarrow> q
      | Some j \<Rightarrow>
          if \<not> queue_holds j token then q
          else q\<lparr>q_leases := dict_pop i (q_leases q),
                 q_runs := (q_runs q)(j_run_id j := removeAll i (q_runs q (j_run_id j))),
                 q_acknowledged := List.insert i (q_acknowledged q),
                 q_jobs := dict_set i (rebuild j\<lparr>j_lease := None, j_assigned_worker_id := None\<rparr>) (q_jobs q)\<rparr>)"

definition memq_release :: "memq \<Rightarrow> job_id \<Rightarrow> lease_token \<Rightarrow> bool \<Rightarrow> (memq, unit) result" where
  "memq_release q i token requeue =
     (case dict_get (q_jobs q) i of
        None \<Rightarrow> (q, Inr ())
      | Some j \<Rightarrow>
          if \<not> queue_holds j token then (q, Inr ())
          else
            let q1 = q\<lparr>q_leases := dict_pop i (q_leases q),
                       q_jobs := dict_set i
                         (rebuild j\<lparr>j_status := (if requeue then JOB_QUEUED else JOB_PENDING),
                                    j_lease := None, j_assigned_worker_id := None\<rparr>) (q_jobs q)\<rparr>
            in if \<not> requeue then (q1, Inr ())
               else (case dict_get (q_scores q1) i of
                       None \<Rightarrow> (q1, Inl (OtherException ''KeyError''))
                     | Some s \<Rightarrow> (add_ready (j_type j) i s q1, Inr ())))"

text \<open>One lapsed lease of \<open>reclaim_expired\<close>; the stored job is changed in place.\<close>

definition memq_reclaim_one :: "memq \<Rightarrow> moment \<Rightarrow> job_id \<Rightarrow> (memq, bool) result" where
  "memq_reclaim_one q now i =
     (let q1 = q\<lparr>q_leases := dict_pop i (q_leases q)\<rparr> in
      case dict_get (q_jobs q1) i of
        None \<Rightarrow> (q1, Inr False)
      | Some j \<Rightarrow>
          (case job_expire_lease j now of
             (j1, False) \<Rightarrow> (q1\<lparr>q_jobs := dict_set i (rebuild j1) (q_jobs q1)\<rparr>, Inr True)
           | (j1, True) \<Rightarrow>
               (case job_requeue j1 now ''lease expired'' of
                  (j2, Inl e) \<Rightarrow> (q1\<lparr>q_jobs := dict_set i j2 (q_jobs q1)\<rparr>, Inl e)
                | (j2, Inr _) \<Rightarrow>
                    (case dict_get (q_scores q1) i of
                       None \<Rightarrow> (q1\<lparr>q_jobs := dict_set i j2 (q_jobs q1)\<rparr>, Inl (OtherException ''KeyError''))
                     | Some s \<Rightarrow>
                         (add_ready (j_type j) i s (q1\<lparr>q_jobs := dict_set i (rebuild j2) (q_jobs q1)\<rparr>),
                          Inr True)))))"

fun memq_reclaim_loop :: "memq \<Rightarrow> moment \<Rightarrow> job_id list \<Rightarrow> (memq, job_id list) result" where
  "memq_reclaim_loop q now [] = (q, Inr [])"
| "memq_reclaim_loop q now (i # is) =
     (case memq_reclaim_one q now i of
        (q1, Inl e) \<Rightarrow> (q1, Inl e)
      | (q1, Inr b) \<Rightarrow>
          (case memq_reclaim_loop q1 now is of
             (q2, Inl e) \<Rightarrow> (q2, Inl e)
           | (q2, Inr ids) \<Rightarrow> (q2, Inr (if b then i # ids else ids))))"

definition lapsed_leases :: "memq \<Rightarrow> moment \<Rightarrow> nat \<Rightarrow> job_id list" where
  "lapsed_leases q now limit =
     take limit (map fst (py_sorted (\<lambda>(i, expiry). (expiry, i))
       (filter (\<lambda>(i, expiry). expiry \<le> now) (q_leases q))))"

definition memq_reclaim_expired :: "memq \<Rightarrow> moment \<Rightarrow> nat \<Rightarrow> (memq, job_id list) result" where
  "memq_reclaim_expired q now limit = memq_reclaim_loop q now (lapsed_leases q now limit)"

definition memq_cancel_one :: "memq \<Rightarrow> job_id \<Rightarrow> memq \<times> bool" where
  "memq_cancel_one q i =
     (case dict_get (q_jobs q) i of
        None \<Rightarrow> (q, False)
      | Some j \<Rightarrow>
          if job_is_terminal (j_status j) then (q, False)
          else
            ((pop_ready (j_type j) i q)
               \<lparr>q_leases := dict_pop i (q_leases q),
                q_jobs := dict_set i (rebuild j\<lparr>j_status := JOB_CANCELLED,
                   j_failure_kind := Some FK_CANCELLED, j_lease := None,
                   j_assigned_worker_id := None\<rparr>) (q_jobs q)\<rparr>, True))"

fun memq_cancel_loop :: "memq \<Rightarrow> job_id list \<Rightarrow> memq \<times> job_id list" where
  "memq_cancel_loop q [] = (q, [])"
| "memq_cancel_loop q (i # is) =
     (let (q1, b) = memq_cancel_one q i; (q2, ids) = memq_cancel_loop q1 is
      in (q2, if b then i # ids else ids))"

definition memq_cancel_run_jobs :: "memq \<Rightarrow> run_id \<Rightarrow> memq \<times> job_id list" where
  "memq_cancel_run_jobs q r = memq_cancel_loop q (sort (q_runs q r))"

definition memq_depth :: "memq \<Rightarrow> job_type option \<Rightarrow> nat" where
  "memq_depth q t =
     (case t of
        Some ty \<Rightarrow> length (q_ready q ty)
      | None \<Rightarrow> sum_list (map (\<lambda>ty. length (q_ready q ty)) all_job_types))"

end
