(* ===== verification/Queue_Contract.thy ===== *)
theory Queue_Contract
  imports Queue
begin

text \<open>
  What the job queue promises. \<open>memq_inv\<close> says that the ready sets, the scores, the lease index and
  the run index of the in-memory queue are determined by the stored jobs; every operation keeps
  it. The locale \<open>job_queue\<close> is the contract the executor and the orchestrator rely on, stated over
  an arbitrary implementation of the operations (\<open>queue_op\<close>, after the port
  \<open>src/src/domain/ports/job_queue.py\<close>); mutual exclusion between lease holders is proved in it and
  transferred to the in-memory queue by interpretation.
\<close>

section \<open>Scores order the queue\<close>

abbreviation job_score :: "job \<Rightarrow> int" where
  "job_score j \<equiv> queue_score (j_priority j) (j_created_at j)"

text \<open>Instants from the epoch to the year 2286, as milliseconds below the width of a band.\<close>

definition in_band :: "moment \<Rightarrow> bool" where
  "in_band m \<longleftrightarrow> 0 \<le> whole_ms m \<and> whole_ms m < PRIORITY_BAND"

lemma rank_bounds: "0 \<le> rank p \<and> rank p \<le> 100"
  by (cases p) (simp_all)

lemma score_less_priority:
  assumes "in_band a" "in_band b" "rank q < rank p"
  shows "queue_score p a < queue_score q b"
proof -
  have "(rank q + 1) * PRIORITY_BAND \<le> rank p * PRIORITY_BAND"
    using assms(3) by (intro mult_right_mono) (simp_all add: PRIORITY_BAND_def)
  with assms(1,2) show ?thesis
    by (simp add: queue_score_def in_band_def distrib_right)
qed

section \<open>Invariant\<close>

definition lease_fits :: "job \<Rightarrow> bool" where
  "lease_fits j \<longleftrightarrow> (\<forall>l. j_lease j = Some l \<longrightarrow> wf_lease_of j l)"

definition entry_ok :: "memq \<Rightarrow> job_id \<Rightarrow> bool" where
  "entry_ok q i \<longleftrightarrow>
     (case dict_get (q_jobs q) i of
        None \<Rightarrow> (\<forall>t. dict_get (q_ready q t) i = None) \<and> dict_get (q_scores q) i = None
          \<and> dict_get (q_leases q) i = None \<and> (\<forall>r. i \<notin> set (q_runs q r)) \<and> i \<notin> set (q_acknowledged q)
      | Some j \<Rightarrow> j_id j = i
          \<and> (\<forall>t. dict_get (q_ready q t) i =
                   (if j_status j = JOB_QUEUED \<and> t = j_type j then Some (job_score j) else None))
          \<and> dict_get (q_scores q) i = Some (job_score j)
          \<and> dict_get (q_leases q) i = map_option l_expires_at (j_lease j)
          \<and> (\<forall>r. i \<in> set (q_runs q r) \<longleftrightarrow> r = j_run_id j \<and> i \<notin> set (q_acknowledged q))
          \<and> (is_in_flight (j_status j) \<longleftrightarrow> j_lease j \<noteq> None \<or> i \<in> set (q_acknowledged q))
          \<and> (j_lease j \<noteq> None \<longrightarrow> i \<notin> set (q_acknowledged q))
          \<and> lease_fits j)"

definition memq_inv :: "memq \<Rightarrow> bool" where
  "memq_inv q \<longleftrightarrow> (\<forall>t. dict_wf (q_ready q t)) \<and> dict_wf (q_leases q) \<and> (\<forall>i. entry_ok q i)"

lemma memq_inv_entry: "memq_inv q \<Longrightarrow> entry_ok q i"
  by (simp add: memq_inv_def)

lemma memq_inv_empty: "memq_inv memq_empty"
  by (simp add: memq_inv_def memq_empty_def entry_ok_def)

lemma entry_okD:
  assumes "memq_inv q" and "dict_get (q_jobs q) i = Some j"
  shows "j_id j = i" "dict_get (q_scores q) i = Some (job_score j)"
    "dict_get (q_leases q) i = map_option l_expires_at (j_lease j)"
    "is_in_flight (j_status j) \<longleftrightarrow> j_lease j \<noteq> None \<or> i \<in> set (q_acknowledged q)"
    "j_lease j \<noteq> None \<Longrightarrow> i \<notin> set (q_acknowledged q)"
    "dict_get (q_ready q t) i =
       (if j_status j = JOB_QUEUED \<and> t = j_type j then Some (job_score j) else None)"
    "i \<in> set (q_runs q r) \<longleftrightarrow> r = j_run_id j \<and> i \<notin> set (q_acknowledged q)"
    "lease_fits j"
  using memq_inv_entry [OF assms(1), of i] by (auto simp: entry_ok_def assms(2))

text \<open>An operation on one job leaves the entries of the others alone.\<close>

definition same_entry :: "memq \<Rightarrow> memq \<Rightarrow> job_id \<Rightarrow> bool" where
  "same_entry q q' i \<longleftrightarrow>
     dict_get (q_jobs q') i = dict_get (q_jobs q) i
   \<and> (\<forall>t. dict_get (q_ready q' t) i = dict_get (q_ready q t) i)
   \<and> dict_get (q_scores q') i = dict_get (q_scores q) i
   \<and> dict_get (q_leases q') i = dict_get (q_leases q) i
   \<and> (\<forall>r. i \<in> set (q_runs q' r) \<longleftrightarrow> i \<in> set (q_runs q r))
   \<and> (i \<in> set (q_acknowledged q') \<longleftrightarrow> i \<in> set (q_acknowledged q))"

lemma same_entry_ok: "same_entry q q' i \<Longrightarrow> entry_ok q i \<Longrightarrow> entry_ok q' i"
  by (cases "dict_get (q_jobs q) i") (simp_all add: same_entry_def entry_ok_def)

lemma memq_inv_one:
  assumes "memq_inv q" and "\<And>k. k \<noteq> i \<Longrightarrow> same_entry q q' k" and "entry_ok q' i"
    and "\<And>t. dict_wf (q_ready q' t)" and "dict_wf (q_leases q')"
  shows "memq_inv q'"
  using assms same_entry_ok unfolding memq_inv_def by metis

lemma queued_no_lease:
  "memq_inv q \<Longrightarrow> dict_get (q_jobs q) i = Some j \<Longrightarrow> j_status j = JOB_QUEUED
   \<Longrightarrow> j_lease j = None \<and> i \<notin> set (q_acknowledged q)"
  using entry_okD(4) [of q i j] by simp

lemma not_flight_no_lease:
  "memq_inv q \<Longrightarrow> dict_get (q_jobs q) i = Some j \<Longrightarrow> \<not> is_in_flight (j_status j)
   \<Longrightarrow> j_lease j = None \<and> i \<notin> set (q_acknowledged q)"
  using entry_okD(4) [of q i j] by simp

section \<open>Every operation keeps it\<close>

lemma rebuild_simps [simp]:
  "j_id (rebuild j) = j_id j" "j_run_id (rebuild j) = j_run_id j" "j_type (rebuild j) = j_type j"
  "j_status (rebuild j) = j_status j" "j_lease (rebuild j) = j_lease j"
  "j_priority (rebuild j) = j_priority j" "j_created_at (rebuild j) = j_created_at j"
  "j_attempt (rebuild j) = j_attempt j" "j_max_attempts (rebuild j) = j_max_attempts j"
  "j_assigned_worker_id (rebuild j) = j_assigned_worker_id j" "j_events (rebuild j) = []"
  "wf_lease_of (rebuild j) l = wf_lease_of j l" "lease_fits (rebuild j) = lease_fits j"
  by (simp_all add: rebuild_def wf_lease_of_def lease_fits_def)

text \<open>
  Callers publish unleased jobs, and a job keeps its type and run for life (\<open>Job\<close> exposes no
  setter for either).
\<close>

definition publishable :: "memq \<Rightarrow> job \<Rightarrow> bool" where
  "publishable q j \<longleftrightarrow> j_lease j = None
     \<and> (\<forall>s. dict_get (q_jobs q) (j_id j) = Some s \<longrightarrow> j_type s = j_type j \<and> j_run_id s = j_run_id j)"

lemma memq_enqueue_held:
  assumes "dict_get (q_jobs q) (j_id j) = Some s"
    and "is_in_flight (j_status s) \<or> j_id j \<in> set (q_acknowledged q)"
  shows "memq_enqueue q j = q"
  using assms by (simp add: memq_enqueue_def)

lemma memq_enqueue_inv:
  assumes inv: "memq_inv q" and pub: "publishable q j"
  shows "memq_inv (memq_enqueue q j)"
proof (cases "\<exists>s. dict_get (q_jobs q) (j_id j) = Some s
                 \<and> (is_in_flight (j_status s) \<or> j_id j \<in> set (q_acknowledged q))")
  case True
  then show ?thesis using inv memq_enqueue_held by metis
next
  case False
  let ?q = "memq_enqueue q j"
  have q': "?q = add_ready (j_type j) (j_id j) (job_score j)
          (q\<lparr>q_jobs := dict_set (j_id j) (rebuild j\<lparr>j_status := JOB_QUEUED\<rparr>) (q_jobs q),
             q_scores := dict_set (j_id j) (job_score j) (q_scores q),
             q_runs := (q_runs q)(j_run_id j := List.insert (j_id j) (q_runs q (j_run_id j)))\<rparr>)"
    using False by (auto simp: memq_enqueue_def Let_def split: option.splits)
  show ?thesis
  proof (rule memq_inv_one [OF inv, of "j_id j"])
    show "entry_ok ?q (j_id j)"
      using memq_inv_entry [OF inv, of "j_id j"] pub False
      by (cases "dict_get (q_jobs q) (j_id j)")
         (auto simp: q' entry_ok_def add_ready_def publishable_def lease_fits_def)
  qed (use inv in \<open>auto simp: q' same_entry_def add_ready_def memq_inv_def\<close>)
qed

text \<open>
  The ready entries are exactly the queued jobs, so the first candidate of a claim is always good
  and the loop never has to look further.
\<close>

lemma ready_entry_queued:
  assumes inv: "memq_inv q" and "(i, s) \<in> set (q_ready q t)"
  obtains j where "dict_get (q_jobs q) i = Some j" "j_status j = JOB_QUEUED" "j_type j = t"
    "s = job_score j"
proof -
  have r: "dict_get (q_ready q t) i = Some s"
    using assms by (simp add: memq_inv_def dict_wf_mem_iff [symmetric])
  then show thesis
    using memq_inv_entry [OF inv, of i] that
    by (cases "dict_get (q_jobs q) i") (auto simp: entry_ok_def split: if_splits)
qed

lemma queued_ready_entry:
  assumes "memq_inv q" and "dict_get (q_jobs q) i = Some j" and "j_status j = JOB_QUEUED"
  shows "(i, job_score j) \<in> set (q_ready q (j_type j))"
  using entry_okD(6) [OF assms(1,2), of "j_type j"] assms(3) by (simp add: map_of_SomeD)

definition claimable :: "memq \<Rightarrow> job_type list \<Rightarrow> job \<Rightarrow> bool" where
  "claimable q wanted j \<longleftrightarrow> dict_get (q_jobs q) (j_id j) = Some j \<and> j_status j = JOB_QUEUED
     \<and> j_type j \<in> set wanted"

text \<open>The job a claim turns \<open>j\<close> into.\<close>

definition leased_job :: "job \<Rightarrow> worker_id \<Rightarrow> duration \<Rightarrow> moment \<Rightarrow> lease_token \<Rightarrow> job" where
  "leased_job j w dur now tok = fst (job_lease_to (rebuild j) w now dur (Some tok) tok)"

definition granted :: "job_id \<Rightarrow> worker_id \<Rightarrow> duration \<Rightarrow> moment \<Rightarrow> lease_token \<Rightarrow> lease" where
  "granted i w dur now tok = \<lparr>l_job_id = i, l_holder = w, l_token = tok, l_acquired_at = now,
     l_expires_at = now + dur\<rparr>"

lemma job_lease_to_ok:
  assumes "j_status j = JOB_QUEUED" and "0 < dur"
  shows "job_lease_to (rebuild j) w now dur (Some tok) tok =
           (leased_job j w dur now tok, Inr (granted (j_id j) w dur now tok))"
    and "j_status (leased_job j w dur now tok) = JOB_LEASED"
    and "j_lease (leased_job j w dur now tok) = Some (granted (j_id j) w dur now tok)"
    and "j_assigned_worker_id (leased_job j w dur now tok) = Some w"
    and "j_attempt (leased_job j w dur now tok) = j_attempt j + 1"
  using assms by (auto simp: leased_job_def job_lease_to_def lease_granted_def mk_lease_def granted_def Let_def)

lemma leased_job_simps [simp]:
  "j_id (leased_job j w dur now tok) = j_id j" "j_run_id (leased_job j w dur now tok) = j_run_id j"
  "j_type (leased_job j w dur now tok) = j_type j"
  "j_priority (leased_job j w dur now tok) = j_priority j"
  "j_created_at (leased_job j w dur now tok) = j_created_at j"
  by (auto simp: leased_job_def job_lease_to_def Let_def split: sum.splits)

lemma memq_claim_cases:
  assumes inv: "memq_inv q" and dur: "0 < dur"
  obtains (idle) "memq_claim q w types dur now tok = (q, Inr None)"
      "\<And>j. \<not> claimable q types j"
  | (taken) j where "claimable q types j" "\<And>k. claimable q types k \<Longrightarrow> (job_score j, j_id j) \<le> (job_score k, j_id k)"
      "memq_claim q w types dur now tok =
         ((pop_ready (j_type j) (j_id j) q)
            \<lparr>q_jobs := dict_set (j_id j) (rebuild (leased_job j w dur now tok)) (q_jobs q),
             q_leases := dict_set (j_id j) (now + dur) (q_leases q)\<rparr>,
          Inr (Some (leased_job j w dur now tok, granted (j_id j) w dur now tok)))"
proof (cases "next_ready q (fromkeys types)")
  case None
  then have empty: "q_ready q t = []" if "t \<in> set types" for t
    using that by (simp add: next_ready_None)
  have "\<not> claimable q types j" for j
    using queued_ready_entry [OF inv, of "j_id j" j] empty [of "j_type j"] by (auto simp: claimable_def)
  moreover have "memq_claim q w types dur now tok = (q, Inr None)"
    using None by (simp add: memq_claim_def memq_claim_loop.simps)
  ultimately show thesis using idle by blast
next
  case (Some c)
  obtain t i where c: "c = (t, i)" by (cases c)
  obtain s where s: "t \<in> set types" "(i, s) \<in> set (q_ready q t)"
      "\<forall>t' \<in> set types. \<forall>(i', s') \<in> set (q_ready q t'). (s, i) \<le> (s', i')"
    using next_ready_Some [of q "fromkeys types" t i] Some c by auto
  obtain j where j: "dict_get (q_jobs q) i = Some j" "j_status j = JOB_QUEUED" "j_type j = t"
      "s = job_score j"
    using ready_entry_queued [OF inv s(2)] .
  have id: "j_id j = i" using entry_okD(1) [OF inv j(1)] .
  have "claimable q types j" using j s(1) id by (simp add: claimable_def)
  moreover have "(job_score j, j_id j) \<le> (job_score k, j_id k)" if "claimable q types k" for k
    using queued_ready_entry [OF inv, of "j_id k" k] that s(3) j(4) id by (fastforce simp: claimable_def)
  moreover have "fromkeys types \<noteq> []" using s(1) by (metis empty_iff list.set(1) set_fromkeys)
  ultimately show thesis
    using Some c j id taken
    by (simp add: memq_claim_def memq_claim_loop.simps Let_def job_lease_to_ok(1) [OF j(2) dur]
        granted_def pop_ready_def)
qed

lemma memq_claim_inv:
  assumes inv: "memq_inv q" and dur: "0 < dur"
  shows "memq_inv (fst (memq_claim q w types dur now tok))"
  using inv dur
proof (cases rule: memq_claim_cases [of q dur w types now tok])
  case idle
  then show ?thesis using inv by simp
next
  case (taken j)
  have st: "dict_get (q_jobs q) (j_id j) = Some j" "j_status j = JOB_QUEUED"
    using taken(1) by (simp_all add: claimable_def)
  note leased = job_lease_to_ok [OF st(2) dur, of w now tok]
  show ?thesis
  proof (rule memq_inv_one [OF inv, of "j_id j"])
    show "entry_ok (fst (memq_claim q w types dur now tok)) (j_id j)"
      using entry_okD [OF inv st(1)] queued_no_lease [OF inv st] st dur
      by (auto simp: taken(3) entry_ok_def pop_ready_def leased(2-) lease_fits_def wf_lease_of_def granted_def)
  qed (use inv in \<open>auto simp: taken(3) same_entry_def pop_ready_def memq_inv_def\<close>)
qed

lemma memq_renew_cases:
  obtains (refused) e where "memq_renew q i tok dur now = (q, Inl e)"
  | (renewed) j l where "dict_get (q_jobs q) i = Some j" "j_lease j = Some l" "l_token l = tok"
      "now < l_expires_at l" "l_acquired_at l < now + dur"
      "memq_renew q i tok dur now =
         (q\<lparr>q_jobs := dict_set i (rebuild (j\<lparr>j_lease := Some (l\<lparr>l_expires_at := now + dur\<rparr>)\<rparr>)) (q_jobs q),
            q_leases := dict_set i (now + dur) (q_leases q)\<rparr>, Inr (l\<lparr>l_expires_at := now + dur\<rparr>))"
proof (cases "dict_get (q_jobs q) i")
  case None
  then show thesis by (intro refused) (simp add: memq_renew_def)
next
  case (Some j)
  show thesis
  proof (cases "job_renew_lease j tok now dur")
    case (Pair j' r)
    show thesis
    proof (cases r)
      case (Inl e)
      with Some Pair show thesis by (intro refused) (simp add: memq_renew_def)
    next
      case (Inr l')
      with Pair obtain l where l: "j_lease j = Some l" "l_token l = tok" "now < l_expires_at l"
          "l_acquired_at l < now + dur" "l' = l\<lparr>l_expires_at := now + dur\<rparr>" "j' = j\<lparr>j_lease := Some l'\<rparr>"
        by (auto simp: job_renew_lease_def assert_lease_Inr_iff lease_renewed_def mk_lease_def
            split: sum.splits if_splits)
      with Some Pair Inr show thesis by (intro renewed) (auto simp: memq_renew_def)
    qed
  qed
qed

lemma memq_renew_inv:
  assumes inv: "memq_inv q"
  shows "memq_inv (fst (memq_renew q i tok dur now))"
proof (cases rule: memq_renew_cases [of q i tok dur now])
  case refused
  then show ?thesis using inv by simp
next
  case (renewed j l)
  show ?thesis
  proof (rule memq_inv_one [OF inv, of i])
    show "entry_ok (fst (memq_renew q i tok dur now)) i"
      using entry_okD [OF inv renewed(1)] renewed(2,5)
      by (auto simp: renewed(6) entry_ok_def lease_fits_def wf_lease_of_def)
  qed (use inv in \<open>auto simp: renewed(6) same_entry_def memq_inv_def\<close>)
qed

lemma queue_holds_iff: "queue_holds j tok \<longleftrightarrow> (\<exists>l. j_lease j = Some l \<and> l_token l = tok)"
  by (simp add: queue_holds_def split: option.splits)

lemma memq_acknowledge_inv:
  assumes inv: "memq_inv q"
  shows "memq_inv (memq_acknowledge q i tok)"
proof (cases "\<exists>j. dict_get (q_jobs q) i = Some j \<and> queue_holds j tok")
  case False
  then show ?thesis using inv by (auto simp: memq_acknowledge_def split: option.splits)
next
  case True
  then obtain j where j: "dict_get (q_jobs q) i = Some j" "queue_holds j tok" by blast
  show ?thesis
  proof (rule memq_inv_one [OF inv, of i])
    show "entry_ok (memq_acknowledge q i tok) i"
      using entry_okD [OF inv j(1)] j
      by (auto simp: memq_acknowledge_def entry_ok_def queue_holds_iff lease_fits_def)
  qed (use inv j in \<open>auto simp: memq_acknowledge_def same_entry_def memq_inv_def\<close>)
qed

lemma memq_release_held:
  assumes inv: "memq_inv q" and j: "dict_get (q_jobs q) i = Some j" "queue_holds j tok"
  shows "memq_release q i tok requeue =
    (let q1 = q\<lparr>q_leases := dict_pop i (q_leases q),
                q_jobs := dict_set i (rebuild j\<lparr>j_status := (if requeue then JOB_QUEUED else JOB_PENDING),
                                    j_lease := None, j_assigned_worker_id := None\<rparr>) (q_jobs q)\<rparr>
     in (if requeue then add_ready (j_type j) i (job_score j) q1 else q1, Inr ()))"
  using entry_okD(2) [OF inv j(1)] j by (simp add: memq_release_def Let_def)

lemma memq_release_inv:
  assumes inv: "memq_inv q"
  shows "memq_inv (fst (memq_release q i tok requeue))"
proof (cases "\<exists>j. dict_get (q_jobs q) i = Some j \<and> queue_holds j tok")
  case False
  then show ?thesis using inv by (auto simp: memq_release_def split: option.splits)
next
  case True
  then obtain j where j: "dict_get (q_jobs q) i = Some j" "queue_holds j tok" by blast
  show ?thesis
  proof (rule memq_inv_one [OF inv, of i])
    show "entry_ok (fst (memq_release q i tok requeue)) i"
      using entry_okD [OF inv j(1)] j(2)
      by (auto simp: memq_release_held [OF inv j] Let_def entry_ok_def add_ready_def queue_holds_iff lease_fits_def)
  qed (use inv in \<open>auto simp: memq_release_held [OF inv j] Let_def same_entry_def add_ready_def memq_inv_def\<close>)
qed

text \<open>Lapsed leases: the job is queued again while attempts remain, dead otherwise.\<close>

definition expired_job :: "job \<Rightarrow> moment \<Rightarrow> job" where
  "expired_job j now =
     rebuild (if snd (job_expire_lease j now)
              then fst (job_requeue (fst (job_expire_lease j now)) now ''lease expired'')
              else fst (job_expire_lease j now))"

lemma expired_job_simps [simp]:
  "j_id (expired_job j now) = j_id j" "j_run_id (expired_job j now) = j_run_id j"
  "j_type (expired_job j now) = j_type j" "j_priority (expired_job j now) = j_priority j"
  "j_created_at (expired_job j now) = j_created_at j"
  by (simp_all add: expired_job_def job_expire_lease_def job_requeue_def Let_def split: option.splits)

lemma expired_job_lapsed:
  assumes "j_lease j = Some l" and "l_expires_at l \<le> now"
  shows "j_lease (expired_job j now) = None" "lease_fits (expired_job j now)"
    "j_status (expired_job j now) = (if j_attempt j < j_max_attempts j then JOB_QUEUED else JOB_DEAD)"
  using assms
  by (simp_all add: expired_job_def job_expire_lease_def job_requeue_def Let_def is_expired_def
      lease_fits_def attempts_remaining_def)

lemma memq_reclaim_one_lapsed:
  assumes inv: "memq_inv q" and "dict_get (q_leases q) i = Some e" and "e \<le> now"
  obtains j l where "dict_get (q_jobs q) i = Some j" "j_lease j = Some l" "l_expires_at l = e"
    "memq_reclaim_one q now i =
       (let q1 = q\<lparr>q_leases := dict_pop i (q_leases q),
                   q_jobs := dict_set i (expired_job j now) (q_jobs q)\<rparr>
        in (if j_attempt j < j_max_attempts j then add_ready (j_type j) i (job_score j) q1 else q1,
            Inr True))"
proof -
  obtain j where j: "dict_get (q_jobs q) i = Some j"
    using memq_inv_entry [OF inv, of i] assms(2)
    by (cases "dict_get (q_jobs q) i") (auto simp: entry_ok_def)
  obtain l where l: "j_lease j = Some l" "l_expires_at l = e"
    using entry_okD(3) [OF inv j] assms(2) by (cases "j_lease j") auto
  show thesis
    using j l assms(3) entry_okD(2) [OF inv j]
    by (intro that [OF j l])
       (auto simp: memq_reclaim_one_def Let_def job_expire_lease_def is_expired_def
          job_requeue_def expired_job_def attempts_remaining_def)
qed

lemma memq_reclaim_one_inv:
  assumes inv: "memq_inv q" and e: "dict_get (q_leases q) i = Some e" "e \<le> now"
  shows "memq_inv (fst (memq_reclaim_one q now i))"
  using inv e
proof (cases rule: memq_reclaim_one_lapsed)
  case (1 j l)
  show ?thesis
  proof (rule memq_inv_one [OF inv, of i])
    show "entry_ok (fst (memq_reclaim_one q now i)) i"
      using entry_okD [OF inv 1(1)] 1(2,3) e(2)
      by (auto simp: 1(4) Let_def entry_ok_def add_ready_def expired_job_lapsed)
  qed (use inv in \<open>auto simp: 1(4) Let_def same_entry_def add_ready_def memq_inv_def\<close>)
qed

lemma memq_reclaim_one_effect:
  assumes "memq_inv q" and "dict_get (q_leases q) i = Some e" and "e \<le> now"
  shows "snd (memq_reclaim_one q now i) = Inr True"
    and "dict_get (q_jobs (fst (memq_reclaim_one q now i))) k =
           (if k = i then map_option (\<lambda>j. expired_job j now) (dict_get (q_jobs q) i)
            else dict_get (q_jobs q) k)"
    and "dict_get (q_leases (fst (memq_reclaim_one q now i))) k =
           (if k = i then None else dict_get (q_leases q) k)"
  using assms by (cases rule: memq_reclaim_one_lapsed; simp add: Let_def add_ready_def)+

lemma memq_reclaim_loop_spec:
  assumes "memq_inv q" and "distinct is" and "\<forall>i \<in> set is. \<exists>e. dict_get (q_leases q) i = Some e \<and> e \<le> now"
  shows "snd (memq_reclaim_loop q now is) = Inr is \<and> memq_inv (fst (memq_reclaim_loop q now is))
    \<and> (\<forall>k. dict_get (q_jobs (fst (memq_reclaim_loop q now is))) k =
           (if k \<in> set is then map_option (\<lambda>j. expired_job j now) (dict_get (q_jobs q) k)
            else dict_get (q_jobs q) k))"
  using assms
proof (induction "is" arbitrary: q)
  case (Cons i "is")
  obtain e where e: "dict_get (q_leases q) i = Some e" "e \<le> now" using Cons.prems(3) by auto
  note eff = memq_reclaim_one_effect [OF Cons.prems(1) e]
  obtain q1 where q1: "memq_reclaim_one q now i = (q1, Inr True)"
    using eff(1) by (cases "memq_reclaim_one q now i") simp
  have "memq_inv q1" using memq_reclaim_one_inv [OF Cons.prems(1) e] by (simp add: q1)
  then have ih: "snd (memq_reclaim_loop q1 now is) = Inr is \<and> memq_inv (fst (memq_reclaim_loop q1 now is))
    \<and> (\<forall>k. dict_get (q_jobs (fst (memq_reclaim_loop q1 now is))) k =
           (if k \<in> set is then map_option (\<lambda>j. expired_job j now) (dict_get (q_jobs q1) k)
            else dict_get (q_jobs q1) k))"
    using Cons.prems(2,3) eff(3) by (intro Cons.IH) (auto simp: q1)
  obtain q2 where q2: "memq_reclaim_loop q1 now is = (q2, Inr is)"
    using ih by (cases "memq_reclaim_loop q1 now is") simp
  have loop: "memq_reclaim_loop q now (i # is) = (q2, Inr (i # is))"
    by (simp add: q1 q2)
  show ?case
    using ih eff(2) Cons.prems(2) by (auto simp: loop q1 q2)
qed simp

lemma distinct_lapsed_leases: "dict_wf (q_leases q) \<Longrightarrow> distinct (lapsed_leases q now limit)"
  unfolding lapsed_leases_def
  by (intro distinct_take) (auto simp: distinct_map distinct_filter inj_on_def)

lemma lapsed_leases_lapsed:
  assumes "memq_inv q" and "i \<in> set (lapsed_leases q now limit)"
  shows "\<exists>e. dict_get (q_leases q) i = Some e \<and> e \<le> now"
proof -
  obtain e where "(i, e) \<in> set (q_leases q)" "e \<le> now"
    using assms(2) by (auto simp: lapsed_leases_def dest!: in_set_takeD)
  moreover have "dict_wf (q_leases q)" using assms(1) by (simp add: memq_inv_def)
  ultimately show ?thesis by (meson map_of_eq_Some_iff)
qed

lemma memq_reclaim_expired_spec:
  assumes "memq_inv q"
  shows "snd (memq_reclaim_expired q now limit) = Inr (lapsed_leases q now limit)"
    and "memq_inv (fst (memq_reclaim_expired q now limit))"
    and "dict_get (q_jobs (fst (memq_reclaim_expired q now limit))) k =
           (if k \<in> set (lapsed_leases q now limit)
            then map_option (\<lambda>j. expired_job j now) (dict_get (q_jobs q) k) else dict_get (q_jobs q) k)"
  using memq_reclaim_loop_spec [OF assms, of "lapsed_leases q now limit" now] lapsed_leases_lapsed [OF assms]
    distinct_lapsed_leases [of q now limit] assms
  by (auto simp: memq_reclaim_expired_def memq_inv_def)

lemma lapsed_leases_all:
  assumes "memq_inv q" and "length (q_leases q) \<le> limit" and "dict_get (q_leases q) i = Some e" and "e \<le> now"
  shows "i \<in> set (lapsed_leases q now limit)"
proof -
  have "(i, e) \<in> set (filter (\<lambda>(i, expiry). expiry \<le> now) (q_leases q))"
    using assms(3,4) by (simp add: map_of_SomeD)
  moreover have "length (filter (\<lambda>(i, expiry). expiry \<le> now) (q_leases q)) \<le> limit"
    using assms(2) le_trans length_filter_le by blast
  ultimately show ?thesis by (force simp: lapsed_leases_def)
qed

text \<open>Cancelling the jobs of a run.\<close>

definition cancelled_job :: "job \<Rightarrow> job" where
  "cancelled_job j =
     (if job_is_terminal (j_status j) then j
      else rebuild j\<lparr>j_status := JOB_CANCELLED, j_failure_kind := Some FK_CANCELLED, j_lease := None,
                     j_assigned_worker_id := None\<rparr>)"

lemma memq_cancel_one_effect:
  "dict_get (q_jobs (fst (memq_cancel_one q i))) k =
     (if k = i then map_option cancelled_job (dict_get (q_jobs q) i) else dict_get (q_jobs q) k)"
  "q_acknowledged (fst (memq_cancel_one q i)) = q_acknowledged q"
  by (auto simp: memq_cancel_one_def cancelled_job_def pop_ready_def split: option.splits)

lemma memq_cancel_one_inv:
  assumes inv: "memq_inv q" and "i \<notin> set (q_acknowledged q)"
  shows "memq_inv (fst (memq_cancel_one q i))"
proof (cases "\<exists>j. dict_get (q_jobs q) i = Some j \<and> \<not> job_is_terminal (j_status j)")
  case False
  then show ?thesis using inv by (auto simp: memq_cancel_one_def split: option.splits)
next
  case True
  then obtain j where j: "dict_get (q_jobs q) i = Some j" "\<not> job_is_terminal (j_status j)" by blast
  show ?thesis
  proof (rule memq_inv_one [OF inv, of i])
    show "entry_ok (fst (memq_cancel_one q i)) i"
      using entry_okD [OF inv j(1)] j assms(2)
      by (auto simp: memq_cancel_one_def entry_ok_def pop_ready_def lease_fits_def)
  qed (use inv j in \<open>auto simp: memq_cancel_one_def same_entry_def pop_ready_def memq_inv_def\<close>)
qed

lemma cancelled_job_simps [simp]:
  "cancelled_job (cancelled_job j) = cancelled_job j" "j_run_id (cancelled_job j) = j_run_id j"
  by (simp_all add: cancelled_job_def)

lemma memq_cancel_loop_inv:
  "memq_inv q \<Longrightarrow> set is \<inter> set (q_acknowledged q) = {} \<Longrightarrow> memq_inv (fst (memq_cancel_loop q is))"
proof (induction "is" arbitrary: q)
  case (Cons i "is")
  then have "memq_inv (fst (memq_cancel_one q i))" by (simp add: memq_cancel_one_inv)
  then have "memq_inv (fst (memq_cancel_loop (fst (memq_cancel_one q i)) is))"
    using Cons.prems(2) by (intro Cons.IH) (simp_all add: memq_cancel_one_effect(2))
  then show ?case by (simp add: case_prod_beta)
qed simp

lemma memq_cancel_loop_jobs:
  "dict_get (q_jobs (fst (memq_cancel_loop q is))) k =
     (if k \<in> set is then map_option cancelled_job (dict_get (q_jobs q) k) else dict_get (q_jobs q) k)"
  by (induction "is" arbitrary: q)
     (auto simp: case_prod_beta memq_cancel_one_effect(1) option.map_comp comp_def)

lemma run_index_not_acknowledged:
  assumes "memq_inv q"
  shows "set (q_runs q r) \<inter> set (q_acknowledged q) = {}"
proof -
  have "i \<notin> set (q_acknowledged q)" if "i \<in> set (q_runs q r)" for i
    using memq_inv_entry [OF assms, of i] that
    by (cases "dict_get (q_jobs q) i") (auto simp: entry_ok_def)
  then show ?thesis by blast
qed

lemma memq_cancel_run_jobs_spec:
  assumes "memq_inv q"
  shows "memq_inv (fst (memq_cancel_run_jobs q r))"
    and "dict_get (q_jobs (fst (memq_cancel_run_jobs q r))) k =
           (if k \<in> set (q_runs q r) then map_option cancelled_job (dict_get (q_jobs q) k)
            else dict_get (q_jobs q) k)"
  using memq_cancel_loop_inv [OF assms, of "sort (q_runs q r)"] run_index_not_acknowledged [OF assms, of r]
  by (simp_all add: memq_cancel_run_jobs_def memq_cancel_loop_jobs)

section \<open>The contract\<close>

text \<open>The operations of the port that change the queue, and what they answer.\<close>

datatype queue_op =
    Q_Enqueue job
  | Q_Claim worker_id "job_type list" duration moment lease_token
  | Q_Renew job_id lease_token duration moment
  | Q_Acknowledge job_id lease_token
  | Q_Release job_id lease_token bool
  | Q_Reclaim moment nat
  | Q_Cancel_Run run_id

datatype queue_reply =
    R_Done
  | R_Claimed job lease
  | R_Nothing
  | R_Renewed lease
  | R_Ids "job_id list"
  | R_Raised error

text \<open>Which operations end the lease \<open>l\<close> of job \<open>j\<close>.\<close>

fun ends_lease :: "queue_op \<Rightarrow> job \<Rightarrow> lease \<Rightarrow> bool" where
  "ends_lease (Q_Acknowledge i tok) j l \<longleftrightarrow> i = j_id j \<and> tok = l_token l"
| "ends_lease (Q_Release i tok _) j l \<longleftrightarrow> i = j_id j \<and> tok = l_token l"
| "ends_lease (Q_Reclaim now _) j l \<longleftrightarrow> l_expires_at l \<le> now"
| "ends_lease (Q_Cancel_Run r) j l \<longleftrightarrow> r = j_run_id j"
| "ends_lease _ j l \<longleftrightarrow> False"

text \<open>The answers to a sequence of calls, and the state it ends in.\<close>

fun queue_replies :: "('q \<Rightarrow> queue_op \<Rightarrow> 'q \<times> queue_reply) \<Rightarrow> 'q \<Rightarrow> queue_op list \<Rightarrow> queue_reply list" where
  "queue_replies step q [] = []"
| "queue_replies step q (op # ops) = snd (step q op) # queue_replies step (fst (step q op)) ops"

fun queue_final :: "('q \<Rightarrow> queue_op \<Rightarrow> 'q \<times> queue_reply) \<Rightarrow> 'q \<Rightarrow> queue_op list \<Rightarrow> 'q" where
  "queue_final step q [] = q"
| "queue_final step q (op # ops) = queue_final step (fst (step q op)) ops"

text \<open>Every call of the sequence is allowed where it is made, and none ends the lease of job \<open>i\<close>.\<close>

fun undisturbed ::
  "('q \<Rightarrow> queue_op \<Rightarrow> 'q \<times> queue_reply) \<Rightarrow> ('q \<Rightarrow> job_id \<Rightarrow> job option) \<Rightarrow> ('q \<Rightarrow> queue_op \<Rightarrow> bool)
   \<Rightarrow> 'q \<Rightarrow> job_id \<Rightarrow> queue_op list \<Rightarrow> bool" where
  "undisturbed step stored allowed q i [] \<longleftrightarrow> True"
| "undisturbed step stored allowed q i (op # ops) \<longleftrightarrow> allowed q op
     \<and> (case stored q i of
          None \<Rightarrow> False
        | Some j \<Rightarrow> (case j_lease j of None \<Rightarrow> False | Some l \<Rightarrow> \<not> ends_lease op j l))
     \<and> undisturbed step stored allowed (fst (step q op)) i ops"

locale job_queue =
  fixes step :: "'q \<Rightarrow> queue_op \<Rightarrow> 'q \<times> queue_reply"
    and stored :: "'q \<Rightarrow> job_id \<Rightarrow> job option"
    and allowed :: "'q \<Rightarrow> queue_op \<Rightarrow> bool"
    and invar :: "'q \<Rightarrow> bool"
  assumes invar_step: "invar q \<Longrightarrow> allowed q op \<Longrightarrow> invar (fst (step q op))"
    and stored_id: "invar q \<Longrightarrow> stored q i = Some j \<Longrightarrow> j_id j = i"
    and claim_unheld: "invar q \<Longrightarrow> allowed q op \<Longrightarrow> step q op = (q', R_Claimed j l) \<Longrightarrow>
        (\<exists>s. stored q (j_id j) = Some s \<and> j_lease s = None) \<and>
        (\<exists>s m. stored q' (j_id j) = Some s \<and> j_lease s = Some m \<and> l_token m = l_token l \<and> l_holder m = l_holder l)"
    and lease_kept: "invar q \<Longrightarrow> allowed q op \<Longrightarrow> stored q i = Some j \<Longrightarrow> j_lease j = Some l \<Longrightarrow>
        \<not> ends_lease op j l \<Longrightarrow>
        \<exists>j' l'. stored (fst (step q op)) i = Some j' \<and> j_lease j' = Some l' \<and> l_token l' = l_token l
          \<and> l_holder l' = l_holder l \<and> j_run_id j' = j_run_id j"
begin

lemma held_not_claimed:
  assumes "invar q" and "allowed q op" and "stored q i = Some j" and "j_lease j = Some l"
    and "snd (step q op) = R_Claimed k m"
  shows "j_id k \<noteq> i"
  using claim_unheld [OF assms(1,2), of "fst (step q op)" k m] assms(3-5)
  by (cases "step q op") auto

lemma lease_lasts:
  assumes "invar q" and "stored q i = Some j" and "j_lease j = Some l" and "undisturbed step stored allowed q i ops"
  shows "(\<forall>k m. R_Claimed k m \<in> set (queue_replies step q ops) \<longrightarrow> j_id k \<noteq> i)
    \<and> (\<exists>j' l'. stored (queue_final step q ops) i = Some j' \<and> j_lease j' = Some l' \<and> l_token l' = l_token l
          \<and> l_holder l' = l_holder l)"
  using assms
proof (induction ops arbitrary: q j l)
  case (Cons op ops)
  let ?q = "fst (step q op)"
  have op: "allowed q op" "\<not> ends_lease op j l" using Cons.prems by auto
  obtain j' l' where j': "stored ?q i = Some j'" "j_lease j' = Some l'" "l_token l' = l_token l"
      "l_holder l' = l_holder l"
    using lease_kept [OF Cons.prems(1) op(1) Cons.prems(2,3) op(2)] by auto
  have "invar ?q" by (rule invar_step [OF Cons.prems(1) op(1)])
  note ih = Cons.IH [OF this j'(1,2)]
  show ?case
    using ih j'(3,4) Cons.prems(4) held_not_claimed [OF Cons.prems(1) op(1) Cons.prems(2,3)]
    by auto metis+
qed simp

lemma exclusive:
  assumes "invar q" and "allowed q op" and "step q op = (q', R_Claimed j l)"
    and "undisturbed step stored allowed q' (j_id j) ops"
  shows "(\<forall>k m. R_Claimed k m \<in> set (queue_replies step q' ops) \<longrightarrow> j_id k \<noteq> j_id j)
    \<and> (\<exists>j' l'. stored (queue_final step q' ops) (j_id j) = Some j' \<and> j_lease j' = Some l' \<and> l_token l' = l_token l
          \<and> l_holder l' = l_holder l)"
proof -
  have "invar q'" using invar_step [OF assms(1,2)] assms(3) by simp
  moreover obtain s m where "stored q' (j_id j) = Some s" "j_lease s = Some m" "l_token m = l_token l" "l_holder m = l_holder l"
    using claim_unheld [OF assms(1-3)] by auto
  ultimately show ?thesis using lease_lasts [OF _ _ _ assms(4), of s m] by simp
qed

end

section \<open>The in-memory queue keeps the contract\<close>

fun memq_step :: "memq \<Rightarrow> queue_op \<Rightarrow> memq \<times> queue_reply" where
  "memq_step q (Q_Enqueue j) = (memq_enqueue q j, R_Done)"
| "memq_step q (Q_Claim w types dur now tok) =
     (case memq_claim q w types dur now tok of
        (q', Inl e) \<Rightarrow> (q', R_Raised e)
      | (q', Inr None) \<Rightarrow> (q', R_Nothing)
      | (q', Inr (Some (j, l))) \<Rightarrow> (q', R_Claimed j l))"
| "memq_step q (Q_Renew i tok dur now) =
     (case memq_renew q i tok dur now of
        (q', Inl e) \<Rightarrow> (q', R_Raised e)
      | (q', Inr l) \<Rightarrow> (q', R_Renewed l))"
| "memq_step q (Q_Acknowledge i tok) = (memq_acknowledge q i tok, R_Done)"
| "memq_step q (Q_Release i tok requeue) =
     (case memq_release q i tok requeue of
        (q', Inl e) \<Rightarrow> (q', R_Raised e)
      | (q', Inr _) \<Rightarrow> (q', R_Done))"
| "memq_step q (Q_Reclaim now limit) =
     (case memq_reclaim_expired q now limit of
        (q', Inl e) \<Rightarrow> (q', R_Raised e)
      | (q', Inr ids) \<Rightarrow> (q', R_Ids ids))"
| "memq_step q (Q_Cancel_Run r) =
     (case memq_cancel_run_jobs q r of (q', ids) \<Rightarrow> (q', R_Ids ids))"

text \<open>The calls a client may make: publish as above, lease for a positive duration.\<close>

fun memq_allowed :: "memq \<Rightarrow> queue_op \<Rightarrow> bool" where
  "memq_allowed q (Q_Enqueue j) = publishable q j"
| "memq_allowed q (Q_Claim _ _ dur _ _) = (0 < dur)"
| "memq_allowed q _ = True"

definition memq_stored :: "memq \<Rightarrow> job_id \<Rightarrow> job option" where
  "memq_stored q i = dict_get (q_jobs q) i"

inductive memq_reachable :: "memq \<Rightarrow> bool" where
  empty: "memq_reachable memq_empty"
| call: "memq_reachable q \<Longrightarrow> memq_allowed q op \<Longrightarrow> memq_reachable (fst (memq_step q op))"

lemma fst_memq_step:
  "fst (memq_step q (Q_Claim w types dur now tok)) = fst (memq_claim q w types dur now tok)"
  "fst (memq_step q (Q_Renew i tok dur now)) = fst (memq_renew q i tok dur now)"
  "fst (memq_step q (Q_Release i tok requeue)) = fst (memq_release q i tok requeue)"
  "fst (memq_step q (Q_Reclaim now limit)) = fst (memq_reclaim_expired q now limit)"
  "fst (memq_step q (Q_Cancel_Run r)) = fst (memq_cancel_run_jobs q r)"
  by (simp_all split: prod.splits sum.splits option.splits)

lemma memq_step_inv: "memq_inv q \<Longrightarrow> memq_allowed q op \<Longrightarrow> memq_inv (fst (memq_step q op))"
  by (cases op)
     (simp_all only: fst_memq_step memq_step.simps(1,4) fst_conv memq_allowed.simps memq_enqueue_inv
        memq_claim_inv memq_renew_inv memq_acknowledge_inv memq_release_inv memq_reclaim_expired_spec(2)
        memq_cancel_run_jobs_spec(1))

lemma memq_reachable_inv: "memq_reachable q \<Longrightarrow> memq_inv q"
  by (induction rule: memq_reachable.induct) (simp_all add: memq_inv_empty memq_step_inv)

lemma memq_claimed:
  assumes inv: "memq_inv q" and "memq_allowed q op" and "memq_step q op = (q', R_Claimed j l)"
  obtains w types dur now tok s where "op = Q_Claim w types dur now tok" "claimable q types s"
    "j = leased_job s w dur now tok" "l = granted (j_id s) w dur now tok"
    "\<And>k. claimable q types k \<Longrightarrow> (job_score s, j_id s) \<le> (job_score k, j_id k)"
    "dict_get (q_jobs q') (j_id s) = Some (rebuild (leased_job s w dur now tok))"
proof -
  obtain w types dur now tok where op: "op = Q_Claim w types dur now tok"
    using assms(3) by (cases op) (auto split: prod.splits sum.splits)
  with assms(2) have dur: "0 < dur" by simp
  from inv dur show thesis
  proof (cases rule: memq_claim_cases [of q dur w types now tok])
    case idle
    with assms(3) op show thesis by simp
  next
    case (taken s)
    from assms(3) op taken(3) show thesis by (intro that [OF op taken(1) _ _ taken(2)]) auto
  qed
qed

lemma memq_claim_unheld:
  assumes "memq_inv q" and "memq_allowed q op" and "memq_step q op = (q', R_Claimed j l)"
  shows "(\<exists>s. memq_stored q (j_id j) = Some s \<and> j_lease s = None) \<and>
         (\<exists>s m. memq_stored q' (j_id j) = Some s \<and> j_lease s = Some m \<and> l_token m = l_token l \<and> l_holder m = l_holder l)"
  using assms
proof (cases rule: memq_claimed)
  case (1 w types dur now tok s)
  have s: "dict_get (q_jobs q) (j_id s) = Some s" "j_status s = JOB_QUEUED"
    using 1(2) by (simp_all add: claimable_def)
  have "0 < dur" using assms(2) 1(1) by simp
  with 1 s queued_no_lease [OF assms(1) s] show ?thesis
    by (simp add: memq_stored_def job_lease_to_ok(3))
qed

text \<open>What a call that does not end a lease makes of it: nothing, unless it is its renewal.\<close>

lemma memq_lease_frame:
  assumes inv: "memq_inv q" and ok: "memq_allowed q op" and "memq_stored q i = Some j"
    and l: "j_lease j = Some l" and keep: "\<not> ends_lease op j l"
  shows "\<exists>j' l'. memq_stored (fst (memq_step q op)) i = Some j' \<and> j_lease j' = Some l' \<and> j_run_id j' = j_run_id j
           \<and> (l' = l \<or> (\<exists>dur now. op = Q_Renew i (l_token l) dur now \<and> l' = l\<lparr>l_expires_at := now + dur\<rparr>))"
proof -
  have j: "dict_get (q_jobs q) i = Some j" using assms(3) by (simp add: memq_stored_def)
  note e = entry_okD [OF inv j]
  have flight: "is_in_flight (j_status j)" using e(4) l by simp
  show ?thesis
  proof (cases op)
    case (Q_Enqueue k)
    then show ?thesis using j l flight
      by (cases "j_id k = i")
         (auto simp: memq_stored_def memq_enqueue_def Let_def add_ready_def split: option.splits)
  next
    case (Q_Claim w types dur now tok)
    with ok have dur: "0 < dur" by simp
    from inv dur show ?thesis
    proof (cases rule: memq_claim_cases [of q dur w types now tok])
      case idle
      then show ?thesis using Q_Claim j l by (simp add: memq_stored_def)
    next
      case (taken s)
      have "j_id s \<noteq> i" using taken(1) j flight by (auto simp: claimable_def)
      then show ?thesis using Q_Claim taken(3) j l by (simp add: memq_stored_def)
    qed
  next
    case (Q_Renew k tok dur now)
    show ?thesis
      by (cases rule: memq_renew_cases [of q k tok dur now])
         (use Q_Renew j l in \<open>auto simp: memq_stored_def\<close>)
  next
    case (Q_Acknowledge k tok)
    then show ?thesis using j l e(1) keep
      by (auto simp: memq_stored_def memq_acknowledge_def queue_holds_def split: option.splits)
  next
    case (Q_Release k tok requeue)
    then show ?thesis using j l e(1) keep unfolding Q_Release fst_memq_step
      by (auto simp: memq_stored_def memq_release_def queue_holds_def Let_def add_ready_def split: option.splits)
  next
    case (Q_Reclaim now limit)
    have "i \<notin> set (lapsed_leases q now limit)"
      using lapsed_leases_lapsed [OF inv, of i now limit] e(3) l keep Q_Reclaim by auto
    then show ?thesis using j l unfolding Q_Reclaim fst_memq_step
      by (simp add: memq_stored_def memq_reclaim_expired_spec(3) [OF inv])
  next
    case (Q_Cancel_Run r)
    have "i \<notin> set (q_runs q r)" using e(7) keep Q_Cancel_Run by simp
    then show ?thesis using j l unfolding Q_Cancel_Run fst_memq_step
      by (simp add: memq_stored_def memq_cancel_run_jobs_spec(2) [OF inv])
  qed
qed

lemma memq_lease_kept:
  assumes "memq_inv q" and "memq_allowed q op" and "memq_stored q i = Some j" and "j_lease j = Some l"
    and "\<not> ends_lease op j l"
  shows "\<exists>j' l'. memq_stored (fst (memq_step q op)) i = Some j' \<and> j_lease j' = Some l'
           \<and> l_token l' = l_token l \<and> l_holder l' = l_holder l \<and> j_run_id j' = j_run_id j"
  using memq_lease_frame [OF assms] by auto

interpretation mq: job_queue memq_step memq_stored memq_allowed memq_inv
proof unfold_locales
  show "memq_stored q i = Some j \<Longrightarrow> j_id j = i" if "memq_inv q" for q i j
    using entry_okD(1) that by (simp add: memq_stored_def)
qed (rule memq_step_inv memq_claim_unheld memq_lease_kept; assumption)+

section \<open>Acknowledged jobs\<close>

fun all_allowed :: "memq \<Rightarrow> queue_op list \<Rightarrow> bool" where
  "all_allowed q [] \<longleftrightarrow> True"
| "all_allowed q (op # ops) \<longleftrightarrow> memq_allowed q op \<and> all_allowed (fst (memq_step q op)) ops"

lemma reclaim_loop_acknowledged: "q_acknowledged (fst (memq_reclaim_loop q now is)) = q_acknowledged q"
proof (induction "is" arbitrary: q)
  case (Cons i "is")
  have "q_acknowledged (fst (memq_reclaim_one q now i)) = q_acknowledged q"
    by (auto simp: memq_reclaim_one_def Let_def add_ready_def split: option.splits prod.splits sum.splits bool.splits)
  with Cons.IH [of "fst (memq_reclaim_one q now i)"] show ?case
    by (auto split: prod.splits sum.splits)
qed simp

lemma cancel_loop_acknowledged: "q_acknowledged (fst (memq_cancel_loop q is)) = q_acknowledged q"
  by (induction "is" arbitrary: q) (simp_all add: case_prod_beta memq_cancel_one_effect(2))

lemma claim_loop_acknowledged:
  "q_acknowledged (fst (memq_claim_loop q w wanted dur now tok)) = q_acknowledged q"
proof (induction q w wanted dur now tok rule: memq_claim_loop.induct)
  case (1 q w wanted dur now tok)
  then show ?case
    by (subst memq_claim_loop.simps)
       (auto simp: Let_def pop_ready_def split: option.splits prod.splits sum.splits)
qed

lemma acknowledged_kept: "i \<in> set (q_acknowledged q) \<Longrightarrow> i \<in> set (q_acknowledged (fst (memq_step q op)))"
proof (cases op)
  case (Q_Claim w types dur now tok)
  then show "i \<in> set (q_acknowledged q) \<Longrightarrow> ?thesis"
    unfolding Q_Claim fst_memq_step by (simp add: memq_claim_def claim_loop_acknowledged)
next
  case (Q_Renew k tok dur now)
  then show "i \<in> set (q_acknowledged q) \<Longrightarrow> ?thesis"
    unfolding Q_Renew fst_memq_step
    by (cases rule: memq_renew_cases [of q k tok dur now]) simp_all
qed (auto simp: memq_enqueue_def memq_acknowledge_def memq_release_def memq_reclaim_expired_def
       memq_cancel_run_jobs_def add_ready_def Let_def reclaim_loop_acknowledged cancel_loop_acknowledged
       case_prod_beta split: option.splits sum.splits prod.splits)

lemma acknowledged_not_claimed:
  assumes inv: "memq_inv q" and ok: "memq_allowed q op" and ack: "i \<in> set (q_acknowledged q)"
    and "snd (memq_step q op) = R_Claimed k m"
  shows "j_id k \<noteq> i"
proof -
  have step: "memq_step q op = (fst (memq_step q op), R_Claimed k m)"
    using assms(4) by (cases "memq_step q op") simp
  from inv ok step show ?thesis
  proof (cases rule: memq_claimed)
    case (1 w types dur now tok s)
    then show ?thesis
      using queued_no_lease [OF inv, of "j_id s" s] ack by (auto simp: claimable_def)
  qed
qed

lemma acknowledged_lasts:
  assumes "memq_inv q" and "i \<in> set (q_acknowledged q)" and "all_allowed q ops"
    and "R_Claimed k m \<in> set (queue_replies memq_step q ops)"
  shows "j_id k \<noteq> i"
  using assms
proof (induction ops arbitrary: q)
  case (Cons op ops)
  let ?q = "fst (memq_step q op)"
  have op: "memq_allowed q op" "all_allowed ?q ops" using Cons.prems(3) by simp_all
  show ?case
  proof (cases "snd (memq_step q op) = R_Claimed k m")
    case True
    then show ?thesis by (rule acknowledged_not_claimed [OF Cons.prems(1) op(1) Cons.prems(2)])
  next
    case False
    then have "R_Claimed k m \<in> set (queue_replies memq_step ?q ops)" using Cons.prems(4) by auto
    then show ?thesis
      using Cons.IH [OF memq_step_inv [OF Cons.prems(1) op(1)] acknowledged_kept [OF Cons.prems(2)] op(2)]
      by simp
  qed
qed simp

lemma dict_set_twice: "dict_set k v (dict_set k v d) = dict_set k v d"
  by (induction d) auto

lemma memq_enqueue_twice: "memq_enqueue (memq_enqueue q j) j = memq_enqueue q j"
  by (auto simp: memq_enqueue_def Let_def add_ready_def dict_set_twice rebuild_def
      split: option.splits)

section \<open>Properties\<close>

abbreviation demo_queue :: memq where
  "demo_queue \<equiv> memq_enqueue memq_empty demo_job"

abbreviation demo_claim :: queue_op where
  "demo_claim \<equiv> Q_Claim (WorkerId 9) [PLAN, CODE] 100 10 demo_token"

abbreviation demo_claimed_queue :: memq where
  "demo_claimed_queue \<equiv> fst (memq_step demo_queue demo_claim)"

lemma demo_queue_reachable: "memq_reachable demo_queue"
  using memq_reachable.call [OF memq_reachable.empty, of "Q_Enqueue demo_job"]
  by (simp add: publishable_def memq_empty_def)

lemma demo_claimed_queue_reachable: "memq_reachable demo_claimed_queue"
  by (rule memq_reachable.call [OF demo_queue_reachable]) simp

lemmas demo_queue_eval = memq_enqueue_def memq_empty_def add_ready_def pop_ready_def rebuild_def
  memq_claim_def memq_claim_loop.simps next_ready_def ready_entries_def fromkeys_def
  job_lease_to_def lease_granted_def mk_lease_def Let_def job_record_def record_event_def

lemma demo_claim_step:
  "\<exists>j l. memq_step demo_queue demo_claim = (demo_claimed_queue, R_Claimed j l) \<and> j_id j = JobId 1
     \<and> l_token l = demo_token \<and> l_holder l = WorkerId 9 \<and> l_expires_at l = 110
     \<and> memq_stored demo_claimed_queue (JobId 1) = Some (j\<lparr>j_events := []\<rparr>) \<and> j_lease j = Some l
     \<and> j_run_id j = RunId 2"
  by (simp add: demo_queue_eval memq_stored_def)

text \<open>
  C5. Mutual exclusion between lease holders. In any state the in-memory queue can reach, once a
  claim has handed a job to a consumer, no later claim hands out the same job as long as none of
  the calls in between ends the lease: the holder's own acknowledgement or release, a sweep at or
  after the expiry, or the cancellation of the job's run. Publications, claims, renewals, and reports
  with any other token, in any order and number, never do; the lease keeps its token and holder.
\<close>

theorem queue_mutual_exclusion:
  assumes "memq_reachable q" and "memq_allowed q op" and "memq_step q op = (q', R_Claimed j l)"
    and "undisturbed memq_step memq_stored memq_allowed q' (j_id j) ops"
  shows "(\<forall>k m. R_Claimed k m \<in> set (queue_replies memq_step q' ops) \<longrightarrow> j_id k \<noteq> j_id j)
    \<and> (\<exists>j' l'. memq_stored (queue_final memq_step q' ops) (j_id j) = Some j' \<and> j_lease j' = Some l'
          \<and> l_token l' = l_token l \<and> l_holder l' = l_holder l)"
  using memq_reachable_inv [OF assms(1)] assms(2-4) by (rule mq.exclusive)

theorem queue_mutual_exclusion_witness:
  "\<exists>j' l'. memq_stored (queue_final memq_step demo_claimed_queue
              [Q_Reclaim 50 100, Q_Acknowledge (JobId 1) (LeaseToken ''t0'')]) (JobId 1) = Some j'
     \<and> j_lease j' = Some l' \<and> l_token l' = demo_token"
proof -
  obtain j l where c: "memq_step demo_queue demo_claim = (demo_claimed_queue, R_Claimed j l)"
      "j_id j = JobId 1" "l_token l = demo_token"
    using demo_claim_step by blast
  have "undisturbed memq_step memq_stored memq_allowed demo_claimed_queue (j_id j)
          [Q_Reclaim 50 100, Q_Acknowledge (JobId 1) (LeaseToken ''t0'')]"
    by (simp add: c(2) demo_queue_eval memq_stored_def memq_reclaim_expired_def lapsed_leases_def
        memq_acknowledge_def queue_holds_def)
  from queue_mutual_exclusion [OF demo_queue_reachable _ c(1) this] c show ?thesis by auto
qed

text \<open>
  C6. Claiming. In any reachable state a claim for a positive duration never raises, and either
  nothing of the requested types is queued, the queue is unchanged and the answer is \<open>None\<close>; or it
  takes the queued job of a requested type with the least (score, id), marks it leased to the
  consumer under the fresh token until \<open>now + duration\<close>, counts the attempt, and leaves every other
  job as it was.
\<close>

theorem queue_claim_takes_the_best:
  assumes "memq_reachable q" and "0 < dur"
  shows "(memq_claim q w types dur now tok = (q, Inr None) \<and> (\<forall>j. \<not> claimable q types j))
    \<or> (\<exists>q' s j l. memq_claim q w types dur now tok = (q', Inr (Some (j, l))) \<and> claimable q types s
        \<and> (\<forall>k. claimable q types k \<longrightarrow> (job_score s, j_id s) \<le> (job_score k, j_id k))
        \<and> j_id j = j_id s \<and> j_status j = JOB_LEASED \<and> j_attempt j = j_attempt s + 1
        \<and> j_assigned_worker_id j = Some w \<and> j_lease j = Some l
        \<and> l = \<lparr>l_job_id = j_id s, l_holder = w, l_token = tok, l_acquired_at = now,
               l_expires_at = now + dur\<rparr>
        \<and> memq_stored q' (j_id s) = Some (rebuild j)
        \<and> (\<forall>i. i \<noteq> j_id s \<longrightarrow> memq_stored q' i = memq_stored q i))"
  using memq_reachable_inv [OF assms(1)] assms(2)
proof (cases rule: memq_claim_cases [of q dur w types now tok])
  case idle
  then show ?thesis by simp
next
  case (taken s)
  have "j_status s = JOB_QUEUED" using taken(1) by (simp add: claimable_def)
  note ok = job_lease_to_ok [OF this assms(2), of w now tok]
  show ?thesis
    by (rule disjI2, rule exI [of _ "fst (memq_claim q w types dur now tok)"], rule exI [of _ s],
        rule exI [of _ "leased_job s w dur now tok"], rule exI [of _ "granted (j_id s) w dur now tok"])
       (use taken(1,2) ok(2-) in \<open>simp add: taken(3) memq_stored_def granted_def\<close>)
qed

theorem queue_claim_takes_the_best_witness:
  "\<exists>q' j l. memq_claim demo_queue (WorkerId 9) [PLAN, CODE] 100 10 demo_token = (q', Inr (Some (j, l)))
     \<and> j_id j = JobId 1 \<and> j_attempt j = 1"
  using queue_claim_takes_the_best [OF demo_queue_reachable,
      of 100 "WorkerId 9" "[PLAN, CODE]" 10 demo_token]
  by (simp add: demo_queue_eval)

text \<open>
  Fencing at the queue. A report whose token is not that of the job's current lease (a previous
  holder's, or any token once the lease is gone) changes nothing: acknowledging and releasing are
  ignored, renewing raises \<open>JobLeaseExpiredError\<close>; and a renewal by the holder itself after the
  expiry is refused as well.
\<close>

theorem queue_stale_token_is_fenced:
  assumes "\<forall>j l. memq_stored q i = Some j \<longrightarrow> j_lease j = Some l \<longrightarrow> l_token l \<noteq> tok \<or> l_expires_at l \<le> now"
    and "\<forall>j. memq_stored q i = Some j \<longrightarrow> j_id j = i"
  shows "(\<exists>h. memq_renew q i tok dur now = (q, Inl (JobLeaseExpiredError i h)))
    \<and> ((\<forall>j l. memq_stored q i = Some j \<longrightarrow> j_lease j = Some l \<longrightarrow> l_token l \<noteq> tok) \<longrightarrow>
         memq_acknowledge q i tok = q \<and> memq_release q i tok requeue = (q, Inr ()))"
proof (cases "dict_get (q_jobs q) i")
  case None
  then show ?thesis by (simp add: memq_renew_def memq_acknowledge_def memq_release_def)
next
  case (Some j)
  have "\<not> holds_lease j tok now"
    using assms(1) Some by (auto simp: holds_lease_def memq_stored_def split: option.splits)
  then obtain h where "assert_lease j tok now = Inl (JobLeaseExpiredError (j_id j) h)"
    using assert_lease_Inl by blast
  with Some assms(2) show ?thesis
    by (auto simp: memq_stored_def memq_renew_def job_renew_lease_def memq_acknowledge_def
        memq_release_def queue_holds_iff)
qed

theorem queue_stale_token_is_fenced_witness:
  "memq_acknowledge demo_claimed_queue (JobId 1) (LeaseToken ''t0'') = demo_claimed_queue"
proof -
  obtain j l where c: "memq_stored demo_claimed_queue (JobId 1) = Some (j\<lparr>j_events := []\<rparr>)"
      "j_lease j = Some l" "l_token l = demo_token" "j_id j = JobId 1"
    using demo_claim_step by blast
  show ?thesis
    using queue_stale_token_is_fenced [of demo_claimed_queue "JobId 1" "LeaseToken ''t0''" 20] c
    by (simp del: memq_step.simps)
qed

text \<open>
  The score orders the queue by priority first and by age second: among jobs created between the
  epoch and the year 2286, a job of a higher priority always comes before one of a lower priority
  however old, and of two jobs of one priority the one created in an earlier millisecond comes
  first. Every such score is an integer a double represents exactly.
\<close>

theorem queue_score_orders:
  assumes "in_band a" and "in_band b"
  shows "(rank q < rank p \<longrightarrow> queue_score p a < queue_score q b)
    \<and> (queue_score p a < queue_score p b \<longleftrightarrow> whole_ms a < whole_ms b)
    \<and> \<bar>queue_score p a\<bar> < 2 ^ 53"
proof -
  have "\<bar>queue_score p a\<bar> < 2 ^ 53"
    using assms(1) by (cases p) (auto simp: queue_score_def in_band_def PRIORITY_BAND_def)
  then show ?thesis
    using score_less_priority [OF assms] by (simp add: queue_score_def)
qed

theorem queue_score_orders_witness:
  "in_band 1700000000000000 \<and> in_band 1600000000000000
   \<and> queue_score HIGH 1700000000000000 < queue_score NORMAL 1600000000000000"
proof -
  have b: "in_band 1700000000000000" "in_band 1600000000000000"
    by (simp_all add: in_band_def whole_ms_def PRIORITY_BAND_def)
  show ?thesis using queue_score_orders [OF b, of NORMAL HIGH] b by simp
qed

text \<open>
  C7. Recovery. A sweep over a reachable queue with a limit that covers the lease index never raises
  and reports exactly the jobs whose lease has lapsed; afterwards each of them is either
  queued, unleased and claimable again (attempts remained) or dead, no lapsed lease is left, and
  every other job is untouched.
\<close>

theorem queue_sweep_recovers_lapsed:
  assumes "memq_reachable q" and "length (q_leases q) \<le> limit"
  shows "\<exists>q' ids. memq_reclaim_expired q now limit = (q', Inr ids) \<and> memq_inv q'
    \<and> (\<forall>i. i \<in> set ids \<longleftrightarrow> (\<exists>j l. memq_stored q i = Some j \<and> j_lease j = Some l \<and> l_expires_at l \<le> now))
    \<and> (\<forall>i \<in> set ids. \<exists>j j'. memq_stored q i = Some j \<and> memq_stored q' i = Some j' \<and> j_lease j' = None
         \<and> (if j_attempt j < j_max_attempts j then claimable q' [j_type j] j' else j_status j' = JOB_DEAD))
    \<and> (\<forall>i. i \<notin> set ids \<longrightarrow> memq_stored q' i = memq_stored q i)"
proof -
  note inv = memq_reachable_inv [OF assms(1)]
  let ?ids = "lapsed_leases q now limit" and ?q' = "fst (memq_reclaim_expired q now limit)"
  have "dict_get (q_leases q) i = Some e \<longleftrightarrow>
      (\<exists>j l. dict_get (q_jobs q) i = Some j \<and> j_lease j = Some l \<and> l_expires_at l = e)" for i e
    using memq_inv_entry [OF inv, of i] by (cases "dict_get (q_jobs q) i") (auto simp: entry_ok_def)
  moreover have "i \<in> set ?ids \<longleftrightarrow> (\<exists>e. dict_get (q_leases q) i = Some e \<and> e \<le> now)" for i
    using lapsed_leases_lapsed [OF inv] lapsed_leases_all [OF inv assms(2)] by blast
  ultimately have ids: "i \<in> set ?ids \<longleftrightarrow>
      (\<exists>j l. dict_get (q_jobs q) i = Some j \<and> j_lease j = Some l \<and> l_expires_at l \<le> now)" for i
    by auto
  have "memq_reclaim_expired q now limit = (?q', Inr ?ids)"
    using memq_reclaim_expired_spec(1) [OF inv, of now limit]
    by (cases "memq_reclaim_expired q now limit") simp
  moreover have "\<exists>j j'. memq_stored q i = Some j \<and> memq_stored ?q' i = Some j' \<and> j_lease j' = None
         \<and> (if j_attempt j < j_max_attempts j then claimable ?q' [j_type j] j' else j_status j' = JOB_DEAD)"
    if "i \<in> set ?ids" for i
  proof -
    from that ids obtain j l where j: "dict_get (q_jobs q) i = Some j" "j_lease j = Some l" "l_expires_at l \<le> now"
      by blast
    then show ?thesis
      using that memq_reclaim_expired_spec(3) [OF inv, of now limit i] expired_job_lapsed [OF j(2,3)]
        entry_okD(1) [OF inv j(1)]
      by (simp add: memq_stored_def claimable_def)
  qed
  ultimately show ?thesis
    using ids memq_reclaim_expired_spec(2,3) [OF inv, of now limit]
    by (intro exI [of _ ?q'] exI [of _ ?ids]) (auto simp: memq_stored_def)
qed

theorem queue_sweep_recovers_lapsed_witness:
  "\<exists>q' ids. memq_reclaim_expired demo_claimed_queue 110 100 = (q', Inr ids) \<and> JobId 1 \<in> set ids"
proof -
  have n: "length (q_leases demo_claimed_queue) \<le> 100" by (simp add: demo_queue_eval)
  obtain j l where "memq_stored demo_claimed_queue (JobId 1) = Some (j\<lparr>j_events := []\<rparr>)"
      "j_lease j = Some l" "l_expires_at l = 110"
    using demo_claim_step by blast
  then have h: "\<exists>j l. memq_stored demo_claimed_queue (JobId 1) = Some j \<and> j_lease j = Some l \<and> l_expires_at l \<le> 110"
    by (intro exI [of _ "j\<lparr>j_events := []\<rparr>"] exI [of _ l]) simp
  show ?thesis
    using queue_sweep_recovers_lapsed [OF demo_claimed_queue_reachable n, of 110] h by blast
qed

text \<open>
  Finished work is never redone. From the moment the holder has acknowledged a job, no sequence
  of calls, redelivered publications of that very job included, makes a claim hand it out again.
\<close>

theorem queue_acknowledged_is_final:
  assumes "memq_reachable q" and "memq_stored q i = Some j" and "queue_holds j tok"
    and "all_allowed (memq_acknowledge q i tok) ops"
  shows "\<forall>k m. R_Claimed k m \<in> set (queue_replies memq_step (memq_acknowledge q i tok) ops) \<longrightarrow> j_id k \<noteq> i"
proof -
  have inv: "memq_inv (memq_acknowledge q i tok)"
    by (rule memq_acknowledge_inv [OF memq_reachable_inv [OF assms(1)]])
  have "i \<in> set (q_acknowledged (memq_acknowledge q i tok))"
    using assms(2,3) by (simp add: memq_acknowledge_def memq_stored_def)
  then show ?thesis using acknowledged_lasts [OF inv _ assms(4)] by blast
qed

theorem queue_acknowledged_is_final_witness:
  "\<not> (\<exists>k m. R_Claimed k m \<in> set (queue_replies memq_step
            (memq_acknowledge demo_claimed_queue (JobId 1) demo_token) [Q_Enqueue demo_job, demo_claim])
     \<and> j_id k = JobId 1)"
proof -
  obtain j where c: "memq_stored demo_claimed_queue (JobId 1) = Some j" "queue_holds j demo_token"
      "j_type j = CODE" "j_run_id j = RunId 2"
    by (simp add: demo_queue_eval memq_stored_def queue_holds_def)
  have "all_allowed (memq_acknowledge demo_claimed_queue (JobId 1) demo_token) [Q_Enqueue demo_job, demo_claim]"
    using c by (simp del: memq_step.simps(2) add: publishable_def memq_acknowledge_def memq_stored_def)
  then show ?thesis
    using queue_acknowledged_is_final [OF demo_claimed_queue_reachable c(1,2)] by blast
qed

lemma cancel_run_jobs_ended:
  assumes inv: "memq_inv q" and st: "dict_get (q_jobs (fst (memq_cancel_run_jobs q r))) i = Some j" "j_run_id j = r"
  shows "job_is_terminal (j_status j) \<and> j_lease j = None \<or> i \<in> set (q_acknowledged q)"
proof -
  obtain s where s: "dict_get (q_jobs q) i = Some s" "j_run_id s = r"
      "j = (if i \<in> set (q_runs q r) then cancelled_job s else s)"
    using st memq_cancel_run_jobs_spec(2) [OF inv, of r i] by (cases "dict_get (q_jobs q) i") (auto split: if_splits)
  have "j_lease s = None" if "job_is_terminal (j_status s)"
    using not_flight_no_lease [OF inv s(1)] that in_flight_not_terminal by blast
  with s entry_okD(7) [OF inv s(1), of r] show ?thesis by (auto simp: cancelled_job_def)
qed

lemma cancel_run_jobs_acknowledged [simp]: "q_acknowledged (fst (memq_cancel_run_jobs q r)) = q_acknowledged q"
  by (simp add: memq_cancel_run_jobs_def cancel_loop_acknowledged)

lemma cancel_run_jobs_not_claimable:
  assumes inv: "memq_inv q" and "claimable (fst (memq_cancel_run_jobs q r)) types j"
  shows "j_run_id j \<noteq> r"
  using cancel_run_jobs_ended [OF inv, of r "j_id j" j] assms(2)
    queued_no_lease [OF memq_cancel_run_jobs_spec(1) [OF inv, of r], of "j_id j" j]
  by (auto simp: claimable_def)

text \<open>
  Cancelling a run. Afterwards no job of the run that was still open is claimable or leased, whatever
  its state was, while the jobs of every other run, and those already acknowledged or finished,
  are as before.
\<close>

theorem queue_cancel_run_is_complete:
  assumes "memq_reachable q"
  shows "memq_inv (fst (memq_cancel_run_jobs q r))
    \<and> (\<forall>types j. claimable (fst (memq_cancel_run_jobs q r)) types j \<longrightarrow> j_run_id j \<noteq> r)
    \<and> (\<forall>i j l. memq_stored (fst (memq_cancel_run_jobs q r)) i = Some j \<longrightarrow> j_lease j = Some l \<longrightarrow> j_run_id j \<noteq> r)
    \<and> (\<forall>i j. memq_stored q i = Some j \<longrightarrow>
         j_run_id j \<noteq> r \<or> i \<in> set (q_acknowledged q) \<or> job_is_terminal (j_status j) \<longrightarrow>
         memq_stored (fst (memq_cancel_run_jobs q r)) i = Some j)"
proof -
  note inv = memq_reachable_inv [OF assms]
  note spec = memq_cancel_run_jobs_spec [OF inv, where r = r]
  let ?q = "fst (memq_cancel_run_jobs q r)"
  note ended = cancel_run_jobs_ended [OF inv, of r]
  have "j_run_id j \<noteq> r" if "claimable ?q types j" for types j
    by (rule cancel_run_jobs_not_claimable [OF inv that])
  moreover have "j_run_id j \<noteq> r" if "dict_get (q_jobs ?q) i = Some j" "j_lease j = Some l" for i j l
    using ended [of i j] entry_okD(5) [OF spec(1) that(1)] that by auto
  moreover have "dict_get (q_jobs ?q) i = Some j"
    if "dict_get (q_jobs q) i = Some j"
       "j_run_id j \<noteq> r \<or> i \<in> set (q_acknowledged q) \<or> job_is_terminal (j_status j)" for i j
    using that entry_okD(7) [OF inv that(1), of r] by (auto simp: spec(2) cancelled_job_def)
  ultimately show ?thesis using spec(1) unfolding memq_stored_def by blast
qed

theorem queue_cancel_run_is_complete_witness:
  "memq_reachable demo_claimed_queue
   \<and> \<not> (\<exists>types j. claimable (fst (memq_cancel_run_jobs demo_claimed_queue (RunId 2))) types j
          \<and> j_run_id j = RunId 2)"
  using queue_cancel_run_is_complete [OF demo_claimed_queue_reachable, of "RunId 2"]
    demo_claimed_queue_reachable by blast

text \<open>
  Publishing is idempotent: enqueuing a job twice leaves the queue exactly as enqueuing it once, and a
  redelivered publication of a job that is in flight or acknowledged changes nothing.
\<close>

theorem queue_publication_idempotent:
  "memq_enqueue (memq_enqueue q j) j = memq_enqueue q j
   \<and> (\<forall>s. memq_stored q (j_id j) = Some s \<longrightarrow>
        is_in_flight (j_status s) \<or> j_id j \<in> set (q_acknowledged q) \<longrightarrow> memq_enqueue q j = q)"
  by (auto simp: memq_enqueue_twice memq_stored_def memq_enqueue_held)

theorem queue_publication_idempotent_witness:
  "memq_enqueue demo_claimed_queue demo_job = demo_claimed_queue"
proof -
  have "\<exists>s. memq_stored demo_claimed_queue (JobId 1) = Some s \<and> is_in_flight (j_status s)"
    by (simp add: demo_queue_eval memq_stored_def)
  then show ?thesis using queue_publication_idempotent [of demo_claimed_queue demo_job] by auto
qed

end
