(* ===== verification/Orchestrator.thy ===== *)
theory Orchestrator
  imports Store Retry Queue_Contract
begin

text \<open>
  The scheduling half of the run orchestrator (\<open>src/src/application/orchestration/orchestrator.py\<close>): what
  \<open>start\<close> and \<open>_advance\<close> decide, persist and publish. One call is one function on the \<open>world\<close>: the durable
  store, the queue, the events published and the supply of identifiers. Calls are serialised per run by
  the coordinator's lock. Within one call the clock is read several times; the model takes one instant.
  The workspace manager is a parameter (\<open>workspaces\<close>): its operations may raise.
\<close>

section \<open>Configuration, ports, world\<close>

record orchestrator_config =
  oc_lease_duration :: duration
  oc_job_max_attempts :: int
  oc_context_max_files :: int
  oc_context_max_tokens :: int
  oc_validation_timeout_seconds :: rat
  oc_static_analysis_is_blocking :: bool
  oc_integrate_on_success :: bool

definition default_orchestrator_config :: orchestrator_config where
  "default_orchestrator_config = \<lparr>oc_lease_duration = seconds 120, oc_job_max_attempts = 3,
     oc_context_max_files = 40, oc_context_max_tokens = 24000, oc_validation_timeout_seconds = 900,
     oc_static_analysis_is_blocking = False, oc_integrate_on_success = True\<rparr>"

record workspaces =
  ws_create :: "project \<Rightarrow> run_id \<Rightarrow> candidate_id option \<Rightarrow> error + workspace_id"
  ws_exists :: "workspace_id \<Rightarrow> bool"
  ws_integrate :: "project \<Rightarrow> workspace_id \<Rightarrow> run_id \<Rightarrow> string \<Rightarrow> error + string"
  ws_release_run :: "run_id \<Rightarrow> error + unit"

record world =
  w_store :: store
  w_queue :: memq
  w_bus :: "event list"
  w_supply :: nat

section \<open>Stages\<close>

definition VALIDATION_STAGES :: "job_type list" where
  "VALIDATION_STAGES = [BUILD, TEST, STATIC_ANALYSIS]"

fun stage_is_configured :: "project \<Rightarrow> job_type \<Rightarrow> bool" where
  "stage_is_configured p BUILD = (nonempty (build_command (pj_toolchain p)) \<noteq> None)"
| "stage_is_configured p TEST = (nonempty (test_command (pj_toolchain p)) \<noteq> None)"
| "stage_is_configured p STATIC_ANALYSIS = (nonempty (static_analysis_command (pj_toolchain p)) \<noteq> None)"
| "stage_is_configured p _ = False"

fun stage_outcome :: "validation_report \<Rightarrow> job_type \<Rightarrow> bool option" where
  "stage_outcome v BUILD = build_passed v"
| "stage_outcome v TEST = tests_passed v"
| "stage_outcome v STATIC_ANALYSIS = static_analysis_passed v"
| "stage_outcome v _ = None"

fun next_stage_from :: "project \<Rightarrow> validation_report \<Rightarrow> job_type list \<Rightarrow> job_type option" where
  "next_stage_from p v [] = None"
| "next_stage_from p v (stage # stages) =
     (if stage_outcome v stage = Some False then None
      else if stage_outcome v stage = None \<and> stage_is_configured p stage then Some stage
      else next_stage_from p v stages)"

definition next_stage :: "project \<Rightarrow> validation_report \<Rightarrow> job_type option" where
  "next_stage p v = next_stage_from p v VALIDATION_STAGES"

definition has_unfinished :: "job list \<Rightarrow> bool" where
  "has_unfinished jobs \<longleftrightarrow> list_ex (\<lambda>j. \<not> job_is_terminal (j_status j)) jobs"

section \<open>New work\<close>

definition new_job ::
  "orchestrator_config \<Rightarrow> run \<Rightarrow> nat \<Rightarrow> moment \<Rightarrow> job_type \<Rightarrow> agent_role option \<Rightarrow> candidate_id option
   \<Rightarrow> priority \<Rightarrow> error + job" where
  "new_job cfg r i now ty role cand prio =
     job_create (JobId i) (r_id r) (r_project_id r) ty now role cand prio [] None (oc_job_max_attempts cfg) None"

text \<open>What a decision leaves to persist: the run, its candidates, new candidates and new jobs.\<close>

record decision =
  d_run :: run
  d_candidates :: "candidate list"
  d_added :: "candidate list"
  d_jobs :: "job list"
  d_supply :: nat

definition open_candidate ::
  "workspaces \<Rightarrow> orchestrator_config \<Rightarrow> project \<Rightarrow> run \<Rightarrow> moment \<Rightarrow> nat \<Rightarrow> nat \<Rightarrow> error + candidate \<times> job" where
  "open_candidate ws cfg p r now idx supply =
     bind_sum (candidate_create (CandidateId supply) (r_id r) (int idx) now) (\<lambda>c.
     bind_sum (ws_create ws p (r_id r) (Some (c_id c))) (\<lambda>w.
     bind_sum (settled (cand_attach_workspace c w)) (\<lambda>c1.
     bind_sum (settled (cand_start_coding c1 now None)) (\<lambda>c2.
     bind_sum (new_job cfg r (supply + 1) now CODE (Some CODER) (Some (c_id c2)) NORMAL) (\<lambda>j.
     Inr (c2, j))))))"

fun open_candidates_from ::
  "workspaces \<Rightarrow> orchestrator_config \<Rightarrow> project \<Rightarrow> run \<Rightarrow> moment \<Rightarrow> nat \<Rightarrow> nat list
   \<Rightarrow> error + (candidate \<times> job) list \<times> nat" where
  "open_candidates_from ws cfg p r now supply [] = Inr ([], supply)"
| "open_candidates_from ws cfg p r now supply (idx # idxs) =
     bind_sum (open_candidate ws cfg p r now idx supply) (\<lambda>cj.
     bind_sum (open_candidates_from ws cfg p r now (supply + 2) idxs) (\<lambda>(rest, supply').
     Inr (cj # rest, supply')))"

definition open_candidates ::
  "workspaces \<Rightarrow> orchestrator_config \<Rightarrow> project \<Rightarrow> run \<Rightarrow> candidate list \<Rightarrow> moment \<Rightarrow> nat \<Rightarrow> error + decision" where
  "open_candidates ws cfg p r cs now supply =
     bind_sum (open_candidates_from ws cfg p r now supply [0..<nat (r_candidate_count r)]) (\<lambda>(cjs, supply').
     Inr \<lparr>d_run = r, d_candidates = cs, d_added = map fst cjs, d_jobs = map snd cjs, d_supply = supply'\<rparr>)"

text \<open>\<open>bool(run.metadata.get("requires_plan", True))\<close>\<close>

definition requires_plan :: "run \<Rightarrow> bool" where
  "requires_plan r = (case map_of (r_metadata r) ''requires_plan'' of None \<Rightarrow> True | Some v \<Rightarrow> truthy v)"

definition open_first_stage ::
  "workspaces \<Rightarrow> orchestrator_config \<Rightarrow> project \<Rightarrow> run \<Rightarrow> candidate list \<Rightarrow> moment \<Rightarrow> nat \<Rightarrow> error + decision" where
  "open_first_stage ws cfg p r cs now supply =
     (if requires_plan r
      then bind_sum (settled (run_start_planning r now)) (\<lambda>r1.
           bind_sum (new_job cfg r1 supply now PLAN (Some PLANNER) None NORMAL) (\<lambda>j.
           Inr \<lparr>d_run = r1, d_candidates = cs, d_added = [], d_jobs = [j], d_supply = supply + 1\<rparr>))
      else bind_sum (settled (run_start_coding r now)) (\<lambda>r1.
           open_candidates ws cfg p r1 cs now supply))"

section \<open>Deciding the next step\<close>

text \<open>The loop of \<open>_advance_candidates\<close>: one follow-up job, or the end of validation, per candidate.\<close>

fun push_candidates ::
  "orchestrator_config \<Rightarrow> project \<Rightarrow> run \<Rightarrow> moment \<Rightarrow> nat \<Rightarrow> candidate list
   \<Rightarrow> error + candidate list \<times> job list \<times> nat" where
  "push_candidates cfg p r now supply [] = Inr ([], [], supply)"
| "push_candidates cfg p r now supply (c # cs) =
     (if c_status c \<noteq> CAND_VALIDATING
      then bind_sum (push_candidates cfg p r now supply cs) (\<lambda>(cs', js, n). Inr (c # cs', js, n))
      else
        (case next_stage p (c_validation c) of
           Some stage \<Rightarrow>
             bind_sum (new_job cfg r supply now stage None (Some (c_id c)) HIGH) (\<lambda>j.
             bind_sum (push_candidates cfg p r now (supply + 1) cs) (\<lambda>(cs', js, n). Inr (c # cs', j # js, n)))
         | None \<Rightarrow>
             bind_sum (settled (cand_record_validation c now None (oc_static_analysis_is_blocking cfg))) (\<lambda>c'.
             bind_sum (push_candidates cfg p r now supply cs) (\<lambda>(cs', js, n). Inr (c' # cs', js, n)))))"

abbreviation replace_candidate :: "candidate \<Rightarrow> candidate list \<Rightarrow> candidate list" where
  "replace_candidate c cs \<equiv> map (\<lambda>x. if c_id x = c_id c then c else x) cs"

text \<open>
  \<open>_repair_or_fail\<close>. \<open>pool\<close> is the sequence it is given, \<open>cs\<close> all candidates of the run; the target is the
  same object in both.
\<close>

definition repair_or_fail ::
  "workspaces \<Rightarrow> orchestrator_config \<Rightarrow> run \<Rightarrow> candidate list \<Rightarrow> candidate list \<Rightarrow> string \<Rightarrow> moment \<Rightarrow> nat
   \<Rightarrow> error + decision" where
  "repair_or_fail ws cfg r cs pool reason now supply =
     (let give_up = (\<lambda>r'.
        bind_sum (settled (run_fail r' now FK_REVIEW (reason @ ''; repair budget exhausted''))) (\<lambda>r1.
        bind_sum (ws_release_run ws (r_id r1)) (\<lambda>_.
        Inr \<lparr>d_run = r1, d_candidates = cs, d_added = [], d_jobs = [], d_supply = supply\<rparr>)))
      in case pool of
           [] \<Rightarrow> give_up r
         | target # _ \<Rightarrow>
             (case run_request_repair r (c_id target) reason now of
                (r1, Inl e) \<Rightarrow> Inl e
              | (r1, Inr False) \<Rightarrow> give_up r1
              | (r1, Inr True) \<Rightarrow>
                  bind_sum (settled (cand_start_repair target now)) (\<lambda>target'.
                  bind_sum (settled (run_start_coding r1 now)) (\<lambda>r2.
                  bind_sum (new_job cfg r2 supply now CODE (Some CODER) (Some (c_id target')) HIGH) (\<lambda>j.
                  Inr \<lparr>d_run = r2, d_candidates = replace_candidate target' cs, d_added = [], d_jobs = [j],
                       d_supply = supply + 1\<rparr>)))))"

definition advance_candidates ::
  "workspaces \<Rightarrow> orchestrator_config \<Rightarrow> project \<Rightarrow> run \<Rightarrow> candidate list \<Rightarrow> moment \<Rightarrow> nat \<Rightarrow> error + decision" where
  "advance_candidates ws cfg p r cs now supply =
     bind_sum (push_candidates cfg p r now supply cs) (\<lambda>(cs1, follow_ups, supply1).
       if follow_ups \<noteq> []
       then bind_sum (if r_status r \<noteq> RUN_VALIDATING then settled (run_start_validating r now) else Inr r) (\<lambda>r1.
            Inr \<lparr>d_run = r1, d_candidates = cs1, d_added = [], d_jobs = follow_ups, d_supply = supply1\<rparr>)
       else
         let done_ones = filter (\<lambda>c. c_status c = CAND_VALIDATED) cs1; viable = selection_viable done_ones in
         if done_ones = []
         then Inr \<lparr>d_run = r, d_candidates = cs1, d_added = [], d_jobs = [], d_supply = supply1\<rparr>
         else if viable \<noteq> []
         then
           let best = or_else (winner (selection_select viable)) (hd viable) in
           bind_sum (if r_status r \<noteq> RUN_REVIEWING then settled (run_start_reviewing r (c_id best) now) else Inr r) (\<lambda>r1.
           bind_sum (new_job cfg r1 supply1 now REVIEW (Some REVIEWER) (Some (c_id best)) NORMAL) (\<lambda>j.
           Inr \<lparr>d_run = r1, d_candidates = cs1, d_added = [], d_jobs = [j], d_supply = supply1 + 1\<rparr>))
         else repair_or_fail ws cfg r cs1 done_ones ''no candidate survived deterministic validation'' now supply1)"

definition require_workspace :: "workspaces \<Rightarrow> candidate \<Rightarrow> error + workspace_id" where
  "require_workspace ws c =
     (case c_workspace_id c of
        None \<Rightarrow> Inl (WorkspaceError ''candidate has no workspace'')
      | Some w \<Rightarrow> if ws_exists ws w then Inr w else Inl (WorkspaceError ''workspace no longer exists''))"

text \<open>The commit message is composed of the run's identifier and its objective.\<close>

definition integrate :: "workspaces \<Rightarrow> project \<Rightarrow> run \<Rightarrow> candidate \<Rightarrow> error + unit" where
  "integrate ws p r c =
     bind_sum (require_workspace ws c) (\<lambda>w. map_sum id (\<lambda>_. ()) (ws_integrate ws p w (r_id r) (r_objective r)))"

definition advance_review ::
  "workspaces \<Rightarrow> orchestrator_config \<Rightarrow> project \<Rightarrow> run \<Rightarrow> candidate list \<Rightarrow> moment \<Rightarrow> nat \<Rightarrow> error + decision" where
  "advance_review ws cfg p r cs now supply =
     (let reviewed = filter (\<lambda>c. c_review_verdict c \<noteq> None) cs;
          passed = filter (\<lambda>c. c_review_verdict c = Some VERDICT_PASS) reviewed
      in if passed \<noteq> []
         then
           let selection = selection_select passed; w = or_else (winner selection) (hd passed) in
           bind_sum (if oc_integrate_on_success cfg then integrate ws p r w else Inr ()) (\<lambda>_.
           bind_sum (settled (cand_select w now)) (\<lambda>w1.
           let cs1 = map (\<lambda>c. if c_id c \<noteq> c_id w then cand_reject c now ''another candidate was selected'' else w1) cs;
               r1 = run_select_candidate r (c_id w) (rationale selection) now in
           bind_sum (settled (run_complete r1 now (Some (c_id w)))) (\<lambda>r2.
           bind_sum (ws_release_run ws (r_id r2)) (\<lambda>_.
           Inr \<lparr>d_run = r2, d_candidates = cs1, d_added = [], d_jobs = [], d_supply = supply\<rparr>))))
         else
           repair_or_fail ws cfg r cs
             (case find (\<lambda>c. c_review_verdict c = Some VERDICT_FAIL) reviewed of Some c \<Rightarrow> [c] | None \<Rightarrow> cs)
             ''the reviewer rejected every candidate'' now supply)"

definition decide_step ::
  "workspaces \<Rightarrow> orchestrator_config \<Rightarrow> project \<Rightarrow> run \<Rightarrow> candidate list \<Rightarrow> moment \<Rightarrow> nat \<Rightarrow> error + decision" where
  "decide_step ws cfg p r cs now supply =
     (if r_status r = RUN_CREATED then open_first_stage ws cfg p r cs now supply
      else if r_status r = RUN_PLAN_READY
      then bind_sum (settled (run_start_coding r now)) (\<lambda>r1. open_candidates ws cfg p r1 cs now supply)
      else if r_status r \<in> {RUN_CODING, RUN_VALIDATING, RUN_REPAIRING}
      then advance_candidates ws cfg p r cs now supply
      else if r_status r = RUN_REVIEWING then advance_review ws cfg p r cs now supply
      else Inr \<lparr>d_run = r, d_candidates = cs, d_added = [], d_jobs = [], d_supply = supply\<rparr>)"

section \<open>Persisting and publishing a decision\<close>

text \<open>\<open>_persist_jobs\<close> marks each job QUEUED before it is stored.\<close>

definition enqueue_all :: "job list \<Rightarrow> moment \<Rightarrow> error + job list" where
  "enqueue_all js now =
     foldr (\<lambda>j acc. bind_sum (settled (job_enqueue j now)) (\<lambda>j'. bind_sum acc (\<lambda>js'. Inr (j' # js')))) js (Inr [])"

fun update_candidates :: "store \<Rightarrow> candidate list \<Rightarrow> error + store" where
  "update_candidates s [] = Inr s"
| "update_candidates s (c # cs) = bind_sum (candidates_update s c) (\<lambda>s1. update_candidates s1 cs)"

definition drained_events :: "decision \<Rightarrow> job list \<Rightarrow> event list" where
  "drained_events d js =
     concat (map c_events (d_added d)) @ concat (map j_events js) @ r_events (d_run d)
     @ concat (map c_events (d_candidates d))"

definition persist_decision :: "store \<Rightarrow> decision \<Rightarrow> job list \<Rightarrow> error + store" where
  "persist_decision s d js =
     bind_sum (runs_update (fold (\<lambda>j s. jobs_add s j) js (fold (\<lambda>c s. candidates_add s c) (d_added d) s)) (d_run d)) (\<lambda>s1.
     bind_sum (update_candidates s1 (d_candidates d)) (\<lambda>s2.
     Inr (commit s2 (drained_events d js))))"

text \<open>
  Commit, publish the drained events, then hand the jobs to the queue. A \<open>raise\<close> before the commit rolls
  everything back.
\<close>

definition settle_decision :: "world \<Rightarrow> error + decision \<Rightarrow> moment \<Rightarrow> (world, unit) result" where
  "settle_decision w m now =
     (case bind_sum m (\<lambda>d. bind_sum (enqueue_all (d_jobs d) now) (\<lambda>js.
             bind_sum (persist_decision (w_store w) d js) (\<lambda>s. Inr (d, js, s)))) of
        Inl e \<Rightarrow> (w, Inl e)
      | Inr (d, js, s) \<Rightarrow>
          (w\<lparr>w_store := s, w_bus := w_bus w @ drained_events d js, w_supply := d_supply d,
             w_queue := fold (\<lambda>j q. memq_enqueue q j) js (w_queue w)\<rparr>, Inr ()))"

definition advance ::
  "workspaces \<Rightarrow> orchestrator_config \<Rightarrow> world \<Rightarrow> run_id \<Rightarrow> moment \<Rightarrow> (world, unit) result" where
  "advance ws cfg w rid now =
     (case dict_get (s_runs (w_store w)) rid of
        None \<Rightarrow> (w, Inr ())
      | Some r \<Rightarrow>
          if run_is_terminal (r_status r) \<or> is_cancelling_or_cancelled (r_status r) then (w, Inr ())
          else
            (case dict_get (s_projects (w_store w)) (r_project_id r) of
               None \<Rightarrow> (w, Inl (EntityNotFoundError ''Project'' (project_uuid (r_project_id r))))
             | Some p \<Rightarrow>
                 if has_unfinished (jobs_list_by_run (w_store w) rid) then (w, Inr ())
                 else settle_decision w
                        (decide_step ws cfg p r (candidates_list_by_run (w_store w) rid) now (w_supply w)) now))"

definition start ::
  "workspaces \<Rightarrow> orchestrator_config \<Rightarrow> world \<Rightarrow> run_id \<Rightarrow> moment \<Rightarrow> (world, unit) result" where
  "start ws cfg w rid now =
     (case dict_get (s_runs (w_store w)) rid of
        None \<Rightarrow> (w, Inl (EntityNotFoundError ''Run'' (run_uuid rid)))
      | Some r \<Rightarrow>
          if r_status r \<noteq> RUN_CREATED then (w, Inr ())
          else
            (case dict_get (s_projects (w_store w)) (r_project_id r) of
               None \<Rightarrow> (w, Inl (EntityNotFoundError ''Project'' (project_uuid (r_project_id r))))
             | Some p \<Rightarrow> settle_decision w (open_first_stage ws cfg p r [] now (w_supply w)) now))"

text \<open>A sweep stops at the first call that raises.\<close>

fun advance_all ::
  "workspaces \<Rightarrow> orchestrator_config \<Rightarrow> world \<Rightarrow> run_id list \<Rightarrow> moment \<Rightarrow> (world, unit) result" where
  "advance_all ws cfg w [] now = (w, Inr ())"
| "advance_all ws cfg w (rid # rids) now =
     bind_outcome (advance ws cfg w rid now) (\<lambda>w1 _. advance_all ws cfg w1 rids now)"

definition start_pending_runs ::
  "workspaces \<Rightarrow> orchestrator_config \<Rightarrow> world \<Rightarrow> moment \<Rightarrow> (world, run_id list) result" where
  "start_pending_runs ws cfg w now =
     (let pending = map r_id (filter (\<lambda>r. r_status r = RUN_CREATED) (runs_list_active (w_store w)))
      in bind_outcome (advance_all ws cfg w pending now) (\<lambda>w1 _. (w1, Inr pending)))"

definition resume_active_runs ::
  "workspaces \<Rightarrow> orchestrator_config \<Rightarrow> world \<Rightarrow> moment \<Rightarrow> (world, run_id list) result" where
  "resume_active_runs ws cfg w now =
     (let active = map r_id (runs_list_active (w_store w))
      in bind_outcome (advance_all ws cfg w active now) (\<lambda>w1 _. (w1, Inr active)))"

end
