(* ===== verification/Wire.thy ===== *)
theory Wire
  imports Evidence
begin

text \<open>
  What the codecs share: enumerations as the text of their members, optional values, and reading a decoded
  JSON document with the calls the sources use (\<open>raw[key]\<close>, \<open>raw.get(key, default)\<close>). Python keeps a value of
  an unexpected type as it is; the records of this development are typed, so reading one ends the
  decoding with an exception of its own kind.
\<close>

section \<open>Sequencing\<close>

fun traverse :: "('a \<Rightarrow> error + 'b) \<Rightarrow> 'a list \<Rightarrow> error + 'b list" where
  "traverse f [] = Inr []"
| "traverse f (x # xs) = bind_sum (f x) (\<lambda>y. bind_sum (traverse f xs) (\<lambda>ys. Inr (y # ys)))"

lemma traverse_map: "traverse f (map g xs) = traverse (\<lambda>x. f (g x)) xs"
  by (induction xs) simp_all

lemma traverse_Inr: "(\<And>x. x \<in> set xs \<Longrightarrow> f x = Inr x) \<Longrightarrow> traverse f xs = Inr xs"
  by (induction xs) simp_all

fun opt_sum :: "('a \<Rightarrow> error + 'b) \<Rightarrow> 'a option \<Rightarrow> error + 'b option" where
  "opt_sum f None = Inr None"
| "opt_sum f (Some x) = bind_sum (f x) (\<lambda>y. Inr (Some y))"

lemma opt_sum_map: "(\<And>x. v = Some x \<Longrightarrow> f (g x) = Inr x) \<Longrightarrow> opt_sum f (map_option g v) = Inr v"
  by (cases v) simp_all

section \<open>Enumerations\<close>

text \<open>Calling an enumeration class with a text: the member with that value, or \<open>ValueError\<close>.\<close>

definition enum_of :: "'a list \<Rightarrow> ('a \<Rightarrow> string) \<Rightarrow> string \<Rightarrow> error + 'a" where
  "enum_of members wire s =
     (case find (\<lambda>x. wire x = s) members of
        None \<Rightarrow> Inl (ValueError (s @ '' is not a valid member''))
      | Some x \<Rightarrow> Inr x)"

locale wire_enum =
  fixes members :: "'a list" and wire :: "'a \<Rightarrow> string"
  assumes complete: "x \<in> set members"
    and distinct_values: "distinct (map wire members)"
begin

lemma value_inj: "wire x = wire y \<Longrightarrow> x = y"
  using distinct_values complete by (auto simp: distinct_map dest: inj_onD)

lemma enum_of_value [simp]: "enum_of members wire (wire x) = Inr x"
proof -
  have "find (\<lambda>y. wire y = wire x) members \<noteq> None"
    using complete by (auto simp: find_None_iff)
  then obtain y where "find (\<lambda>y. wire y = wire x) members = Some y" by blast
  moreover from this have "y = x" using value_inj by (auto simp: find_Some_iff)
  ultimately show ?thesis by (simp add: enum_of_def)
qed

lemma enum_of_Inr_iff: "enum_of members wire s = Inr x \<longleftrightarrow> s = wire x"
proof
  assume "enum_of members wire s = Inr x"
  then show "s = wire x" by (auto simp: enum_of_def find_Some_iff split: option.splits)
qed simp

lemma enum_roundtrip [simp]: "opt_sum (enum_of members wire) (map_option wire v) = Inr v"
  by (cases v) simp_all

end

definition run_statuses :: "run_status list" where
  "run_statuses = [RUN_CREATED, RUN_PLANNING, RUN_PLAN_READY, RUN_CODING, RUN_VALIDATING, RUN_REVIEWING,
     RUN_REPAIRING, RUN_COMPLETED, RUN_FAILED, RUN_CANCELLING, RUN_CANCELLED]"

definition job_statuses :: "job_status list" where
  "job_statuses = [JOB_PENDING, JOB_QUEUED, JOB_LEASED, JOB_RUNNING, JOB_SUCCEEDED, JOB_FAILED, JOB_DEAD, JOB_CANCELLED]"

definition agent_roles :: "agent_role list" where
  "agent_roles = [PLANNER, CODER, REVIEWER]"

definition worker_statuses :: "worker_status list" where
  "worker_statuses = [STARTING, REGISTERING, READY, BUSY, DRAINING, OFFLINE, UNHEALTHY]"

definition candidate_statuses :: "candidate_status list" where
  "candidate_statuses = [CAND_CREATED, CAND_CODING, CAND_VALIDATING, CAND_VALIDATED, CAND_REJECTED, CAND_SELECTED,
     CAND_FAILED, CAND_CANCELLED]"

definition review_verdicts :: "review_verdict list" where
  "review_verdicts = [VERDICT_PASS, VERDICT_FAIL]"

definition priorities :: "priority list" where
  "priorities = [LOW, NORMAL, HIGH, CRITICAL]"

fun priority_value :: "priority \<Rightarrow> string" where
  "priority_value LOW = ''LOW''"
| "priority_value NORMAL = ''NORMAL''"
| "priority_value HIGH = ''HIGH''"
| "priority_value CRITICAL = ''CRITICAL''"

definition failure_kinds :: "failure_kind list" where
  "failure_kinds = [FK_INFRASTRUCTURE, FK_INFERENCE, FK_INVALID_STRUCTURED_OUTPUT, FK_TOOL, FK_COMPILATION, FK_TEST,
     FK_REVIEW, FK_CANCELLED]"

definition severities :: "severity list" where
  "severities = [BLOCKER, MAJOR, MINOR, INFO]"

definition tool_kinds :: "tool_kind list" where
  "tool_kinds = [SEARCH, READ, EDIT, PATCH, COMMAND, TK_BUILD, TK_TEST, TK_STATIC_ANALYSIS, VCS]"

fun tool_kind_value :: "tool_kind \<Rightarrow> string" where
  "tool_kind_value SEARCH = ''SEARCH''"
| "tool_kind_value READ = ''READ''"
| "tool_kind_value EDIT = ''EDIT''"
| "tool_kind_value PATCH = ''PATCH''"
| "tool_kind_value COMMAND = ''COMMAND''"
| "tool_kind_value TK_BUILD = ''BUILD''"
| "tool_kind_value TK_TEST = ''TEST''"
| "tool_kind_value TK_STATIC_ANALYSIS = ''STATIC_ANALYSIS''"
| "tool_kind_value VCS = ''VCS''"

lemmas enum_members = run_statuses_def job_statuses_def agent_roles_def worker_statuses_def candidate_statuses_def
  review_verdicts_def priorities_def failure_kinds_def severities_def tool_kinds_def all_job_types_def

interpretation run_status_wire: wire_enum run_statuses run_status_value
proof
  show "x \<in> set run_statuses" for x by (cases x) (simp_all add: enum_members)
qed (simp add: enum_members)

interpretation job_status_wire: wire_enum job_statuses job_status_value
proof
  show "x \<in> set job_statuses" for x by (cases x) (simp_all add: enum_members)
qed (simp add: enum_members)

interpretation job_type_wire: wire_enum all_job_types job_type_value
proof
  show "x \<in> set all_job_types" for x by (cases x) (simp_all add: enum_members)
qed (simp add: enum_members)

interpretation agent_role_wire: wire_enum agent_roles agent_role_value
proof
  show "x \<in> set agent_roles" for x by (cases x) (simp_all add: enum_members)
qed (simp add: enum_members)

interpretation worker_status_wire: wire_enum worker_statuses worker_status_value
proof
  show "x \<in> set worker_statuses" for x by (cases x) (simp_all add: enum_members)
qed (simp add: enum_members)

interpretation candidate_status_wire: wire_enum candidate_statuses candidate_status_value
proof
  show "x \<in> set candidate_statuses" for x by (cases x) (simp_all add: enum_members)
qed (simp add: enum_members)

interpretation review_verdict_wire: wire_enum review_verdicts review_verdict_value
proof
  show "x \<in> set review_verdicts" for x by (cases x) (simp_all add: enum_members)
qed (simp add: enum_members)

interpretation priority_wire: wire_enum priorities priority_value
proof
  show "x \<in> set priorities" for x by (cases x) (simp_all add: enum_members)
qed (simp add: enum_members)

interpretation failure_kind_wire: wire_enum failure_kinds failure_kind_value
proof
  show "x \<in> set failure_kinds" for x by (cases x) (simp_all add: enum_members)
qed (simp add: enum_members)

interpretation severity_wire: wire_enum severities severity_value
proof
  show "x \<in> set severities" for x by (cases x) (simp_all add: enum_members)
qed (simp add: enum_members)

interpretation tool_kind_wire: wire_enum tool_kinds tool_kind_value
proof
  show "x \<in> set tool_kinds" for x by (cases x) (simp_all add: enum_members)
qed (simp add: enum_members)

section \<open>Reading JSON\<close>

abbreviation type_error :: error where
  "type_error \<equiv> OtherException ''unexpected JSON type''"

fun as_str :: "json \<Rightarrow> error + string" where
  "as_str (JStr s) = Inr s"
| "as_str _ = Inl type_error"

fun as_int :: "json \<Rightarrow> error + int" where
  "as_int (JInt i) = Inr i"
| "as_int _ = Inl type_error"

fun as_bool :: "json \<Rightarrow> error + bool" where
  "as_bool (JBool b) = Inr b"
| "as_bool _ = Inl type_error"

fun as_float :: "json \<Rightarrow> error + rat" where
  "as_float (JFloat x) = Inr x"
| "as_float _ = Inl type_error"

fun as_arr :: "json \<Rightarrow> error + json list" where
  "as_arr (JArr xs) = Inr xs"
| "as_arr _ = Inl type_error"

fun as_obj :: "json \<Rightarrow> error + json_object" where
  "as_obj (JObj kvs) = Inr kvs"
| "as_obj _ = Inl type_error"

text \<open>A value that may be \<open>null\<close>.\<close>

fun as_opt :: "(json \<Rightarrow> error + 'a) \<Rightarrow> json \<Rightarrow> error + 'a option" where
  "as_opt f JNull = Inr None"
| "as_opt f v = map_sum id Some (f v)"

fun opt_json :: "('a \<Rightarrow> json) \<Rightarrow> 'a option \<Rightarrow> json" where
  "opt_json f None = JNull"
| "opt_json f (Some x) = f x"

lemma as_opt_json [simp]:
  "as_opt as_str (opt_json JStr v) = Inr v" "as_opt as_int (opt_json JInt i) = Inr i"
  "as_opt as_float (opt_json JFloat x) = Inr x"
  by (cases v; cases i; cases x; simp)+

definition get_or :: "json_object \<Rightarrow> string \<Rightarrow> json \<Rightarrow> json" where
  "get_or d k v = (case dict_get d k of None \<Rightarrow> v | Some w \<Rightarrow> w)"

definition get_req :: "json_object \<Rightarrow> string \<Rightarrow> error + json" where
  "get_req d k = (case dict_get d k of None \<Rightarrow> Inl (OtherException ''KeyError'') | Some w \<Rightarrow> Inr w)"

lemma get_Nil [simp]: "get_or [] k v = v" "get_req [] k = Inl (OtherException ''KeyError'')"
  by (simp_all add: get_or_def get_req_def)

lemma get_Cons [simp]:
  "get_or ((k', w) # d) k v = (if k' = k then w else get_or d k v)"
  "get_req ((k', w) # d) k = (if k' = k then Inr w else get_req d k)"
  by (simp_all add: get_or_def get_req_def)

text \<open>\<open>raw.get(key) or {}\<close>: a falsy value counts as the empty object.\<close>

definition get_obj :: "json_object \<Rightarrow> string \<Rightarrow> error + json_object" where
  "get_obj d k = (let v = get_or d k JNull in if truthy v then as_obj v else Inr [])"

lemma get_obj_Cons [simp]:
  "k' \<noteq> k \<Longrightarrow> get_obj ((k', w) # d) k = get_obj d k" "get_obj ((k, JObj kvs) # d) k = Inr kvs"
  by (simp_all add: get_obj_def Let_def)

lemma get_obj_Nil [simp]: "get_obj [] k = Inr []"
  by (simp add: get_obj_def)

abbreviation str_list :: "string list \<Rightarrow> json" where
  "str_list xs \<equiv> JArr (map JStr xs)"

definition as_strs :: "json \<Rightarrow> error + string list" where
  "as_strs v = bind_sum (as_arr v) (traverse as_str)"

lemma as_strs_str_list [simp]: "as_strs (str_list xs) = Inr xs" "as_strs (JArr (map (JStr \<circ> f) ys)) = Inr (map f ys)"
  by (induction xs) (simp_all add: as_strs_def, induction ys, simp_all add: as_strs_def)

section \<open>Identifiers as text\<close>

text \<open>The canonical text of a UUID: 32 lower-case hexadecimal digits in groups of 8, 4, 4, 4 and 12.\<close>

fun hex_digits :: "nat \<Rightarrow> nat \<Rightarrow> string" where
  "hex_digits 0 n = []"
| "hex_digits (Suc k) n =
     hex_digits k (n div 16) @ [if n mod 16 < 10 then char_of (48 + n mod 16) else char_of (87 + n mod 16)]"

definition uuid_text :: "uuid \<Rightarrow> string" where
  "uuid_text n =
     (let h = hex_digits 32 n in
      py_join ''-'' [take 8 h, take 4 (drop 8 h), take 4 (drop 12 h), take 4 (drop 16 h), drop 20 h])"

text \<open>
  \<open>UUID(text)\<close> drops \<open>urn:\<close> and \<open>uuid:\<close>, braces at the ends and hyphens, and wants 32 hexadecimal digits.
\<close>

fun delete_all :: "string \<Rightarrow> nat \<Rightarrow> string \<Rightarrow> string" where
  "delete_all pat skip [] = []"
| "delete_all pat (Suc n) (c # cs) = delete_all pat n cs"
| "delete_all pat 0 (c # cs) =
     (if pat \<noteq> [] \<and> take (length pat) (c # cs) = pat then delete_all pat (length pat - 1) cs
      else c # delete_all pat 0 cs)"

definition strip_braces :: "string \<Rightarrow> string" where
  "strip_braces s =
     (let brace = (\<lambda>c. c \<in> {CHR ''{'', CHR ''}''}) in rev (dropWhile brace (rev (dropWhile brace s))))"

definition hex_value :: "char \<Rightarrow> nat option" where
  "hex_value c =
     (let n = (of_char c :: nat) in
      if 48 \<le> n \<and> n \<le> 57 then Some (n - 48)
      else if 97 \<le> n \<and> n \<le> 102 then Some (n - 87)
      else if 65 \<le> n \<and> n \<le> 70 then Some (n - 55)
      else None)"

fun of_hex :: "nat \<Rightarrow> string \<Rightarrow> nat option" where
  "of_hex acc [] = Some acc"
| "of_hex acc (c # cs) = (case hex_value c of None \<Rightarrow> None | Some d \<Rightarrow> of_hex (16 * acc + d) cs)"

definition parse_uuid :: "string \<Rightarrow> error + uuid" where
  "parse_uuid s =
     (let h = filter (\<lambda>c. c \<noteq> CHR ''-'') (strip_braces (delete_all ''uuid:'' 0 (delete_all ''urn:'' 0 s))) in
      if length h \<noteq> 32 then Inl (ValueError ''badly formed hexadecimal UUID string'')
      else (case of_hex 0 h of
              None \<Rightarrow> Inl (ValueError ''badly formed hexadecimal UUID string'')
            | Some n \<Rightarrow> Inr n))"

definition hex_char :: "nat \<Rightarrow> char" where
  "hex_char d = (if d < 10 then char_of (48 + d) else char_of (87 + d))"

lemma hex_digits_snoc: "hex_digits (Suc k) n = hex_digits k (n div 16) @ [hex_char (n mod 16)]"
  by (simp add: hex_char_def)

lemma hex_value_char: "d < 16 \<Longrightarrow> hex_value (hex_char d) = Some d"
  by (auto simp: hex_value_def hex_char_def Let_def)

lemma hex_char_plain: "d < 16 \<Longrightarrow> hex_char d \<notin> {CHR ''-'', CHR ''u'', CHR ''{'', CHR ''}''}"
proof -
  assume "d < 16"
  from hex_value_char [OF this] have "hex_value (hex_char d) \<noteq> None" by simp
  moreover have "hex_value (CHR ''-'') = None" "hex_value (CHR ''u'') = None" "hex_value (CHR ''{'') = None"
    "hex_value (CHR ''}'') = None" by (simp_all add: hex_value_def)
  ultimately show ?thesis by auto
qed

lemma length_hex_digits [simp]: "length (hex_digits k n) = k"
  by (induction k arbitrary: n) simp_all

lemma of_hex_append: "of_hex acc (xs @ ys) = (case of_hex acc xs of None \<Rightarrow> None | Some m \<Rightarrow> of_hex m ys)"
  by (induction xs arbitrary: acc) (simp_all split: option.split)

lemma of_hex_digits: "of_hex acc (hex_digits k n) = Some (acc * 16 ^ k + n mod 16 ^ k)"
proof (induction k arbitrary: n)
  case (Suc k)
  have "n mod 16 ^ Suc k = 16 * (n div 16 mod 16 ^ k) + n mod 16"
    by (metis mod_mult2_eq mult.commute add.commute power_Suc)
  then show ?case
    by (simp add: hex_digits_snoc of_hex_append Suc hex_value_char algebra_simps del: hex_digits.simps)
qed simp

lemma delete_all_none: "CHR ''u'' \<notin> set s \<Longrightarrow> delete_all (CHR ''u'' # p) 0 s = s"
  by (induction s) auto

lemma hex_digits_plain: "c \<in> set (hex_digits k n) \<Longrightarrow> c \<notin> {CHR ''-'', CHR ''u'', CHR ''{'', CHR ''}''}"
proof (induction k arbitrary: n)
  case (Suc k)
  then show ?case using hex_char_plain [of "n mod 16"] by (auto simp: hex_digits_snoc simp del: hex_digits.simps)
qed simp

lemma uuid_text_plain:
  assumes "c \<in> set (uuid_text n)"
  shows "c \<notin> {CHR ''u'', CHR ''{'', CHR ''}''}"
proof -
  have "c = CHR ''-'' \<or> c \<in> set (hex_digits 32 n)"
    using assms by (auto simp: uuid_text_def Let_def dest: in_set_takeD in_set_dropD)
  then show ?thesis using hex_digits_plain by auto
qed

lemma uuid_text_digits: "filter (\<lambda>c. c \<noteq> CHR ''-'') (uuid_text n) = hex_digits 32 n"
proof -
  let ?h = "hex_digits 32 n"
  have id: "filter (\<lambda>c. c \<noteq> CHR ''-'') xs = xs" if "set xs \<subseteq> set ?h" for xs
    using that hex_digits_plain by (intro filter_True) auto
  have "filter (\<lambda>c. c \<noteq> CHR ''-'') (uuid_text n) =
      take 8 ?h @ take 4 (drop 8 ?h) @ take 4 (drop 12 ?h) @ take 4 (drop 16 ?h) @ drop 20 ?h"
    by (simp add: uuid_text_def Let_def id set_take_subset set_drop_subset subset_trans [OF set_take_subset set_drop_subset]
        del: hex_digits.simps)
  also have "\<dots> = ?h"
  proof -
    have "take k (drop m ?h) @ drop (k + m) ?h = drop m ?h" for k m by (metis append_take_drop_id drop_drop)
    from this [of 4 8] this [of 4 12] this [of 4 16] show ?thesis by (simp del: hex_digits.simps)
  qed
  finally show ?thesis .
qed

lemma parse_uuid_text: "n < 2 ^ 128 \<Longrightarrow> parse_uuid (uuid_text n) = Inr n"
proof -
  assume n: "n < 2 ^ 128"
  have u: "CHR ''u'' \<notin> set (uuid_text n)" using uuid_text_plain by blast
  have "dropWhile (\<lambda>c. c \<in> {CHR ''{'', CHR ''}''}) xs = xs" if "set xs \<subseteq> set (uuid_text n)" for xs
    using that uuid_text_plain by (cases xs) auto
  then have "strip_braces (uuid_text n) = uuid_text n" by (simp add: strip_braces_def Let_def)
  moreover have "n mod 16 ^ 32 = n" using n by simp
  ultimately show ?thesis
    by (simp add: parse_uuid_def delete_all_none u uuid_text_digits of_hex_digits del: hex_digits.simps)
qed

end
