(* ===== verification/Execution.thy ===== *)
theory Execution
  imports Orchestrator Wire
begin

text \<open>
  The executing half of the orchestrator (\<open>src/src/application/orchestration/orchestrator.py\<close>): \<open>execute\<close>, the
  dispatch to the role handlers, the four handlers, \<open>_handle_failure\<close> and \<open>handle_dead_job\<close>. What the handlers
  reach through ports outside this development (context building, worker pool, agents, tools, files of a
  workspace, the text of an exception) is the record \<open>services\<close>; every operation of it may raise. A handler is
  one step: the store does not change between its first and its second unit of work.
\<close>

section \<open>Drafts\<close>

record task_draft =
  td_key :: string
  td_title :: string
  td_description :: string
  td_depends_on :: "string list"
  td_target_paths :: "string list"
  td_validation :: "string list"

record plan_draft =
  pd_objective :: string
  pd_tasks :: "task_draft list"
  pd_assumptions :: "string list"
  pd_constraints :: "string list"
  pd_risk_areas :: "string list"
  pd_validation_requirements :: "string list"

record tool_request =
  tq_tool :: string
  tq_arguments :: json_object

text \<open>A \<open>FileWrite\<close> is the pair of its path and its content.\<close>

record code_draft =
  cd_summary :: string
  cd_diff :: string
  cd_files :: "(string \<times> string) list"
  cd_uncertainties :: "string list"
  cd_tool_requests :: "tool_request list"
  cd_done :: bool

record review_draft =
  vd_verdict :: review_verdict
  vd_summary :: string
  vd_findings :: "review_finding list"

record 'd agent_outcome =
  ao_draft :: 'd
  ao_usage :: token_usage
  ao_prompt_version :: string
  ao_model :: string
  ao_repairs :: int
  ao_raw_length :: int

section \<open>Ports\<close>

record services =
  sv_context :: "workspace_id \<Rightarrow> string \<Rightarrow> error + int"
  sv_acquire :: "job_requirements \<Rightarrow> error + worker_id"
  sv_plan :: "project \<Rightarrow> run \<Rightarrow> plan option \<Rightarrow> error + plan_draft agent_outcome"
  sv_code :: "project \<Rightarrow> run \<Rightarrow> candidate \<Rightarrow> plan option \<Rightarrow> string option \<Rightarrow> error + code_draft agent_outcome"
  sv_review :: "project \<Rightarrow> run \<Rightarrow> candidate \<Rightarrow> plan option \<Rightarrow> review list \<Rightarrow> error + review_draft agent_outcome"
  sv_available_tools :: "project \<Rightarrow> string list"
  sv_execute_tool :: "workspace_id \<Rightarrow> string \<Rightarrow> tool_kind \<Rightarrow> error + tool_result"
  sv_write_files :: "workspace_id \<Rightarrow> (string \<times> string) list \<Rightarrow> error + unit"
  sv_apply_patch :: "workspace_id \<Rightarrow> patch \<Rightarrow> error + unit"
  sv_diff :: "workspace_id \<Rightarrow> error + patch"
  sv_text :: "error \<Rightarrow> string"

text \<open>Go on with the value, or stop with the exception in the state reached so far.\<close>

definition attempt :: "'s \<Rightarrow> error + 'a \<Rightarrow> ('a \<Rightarrow> ('s, 'b) result) \<Rightarrow> ('s, 'b) result" where
  "attempt s m f = (case m of Inl e \<Rightarrow> (s, Inl e) | Inr a \<Rightarrow> f a)"

lemma attempt_simps [simp]: "attempt s (Inl e) f = (s, Inl e)" "attempt s (Inr a) f = f a"
  by (simp_all add: attempt_def)

definition require_run :: "store \<Rightarrow> run_id \<Rightarrow> error + run" where
  "require_run s i =
     (case dict_get (s_runs s) i of None \<Rightarrow> Inl (EntityNotFoundError ''Run'' (run_uuid i)) | Some r \<Rightarrow> Inr r)"

definition require_project :: "store \<Rightarrow> run \<Rightarrow> error + project" where
  "require_project s r =
     (case dict_get (s_projects s) (r_project_id r) of
        None \<Rightarrow> Inl (EntityNotFoundError ''Project'' (project_uuid (r_project_id r))) | Some p \<Rightarrow> Inr p)"

definition require_candidate :: "store \<Rightarrow> candidate_id \<Rightarrow> error + candidate" where
  "require_candidate s i =
     (case dict_get (s_candidates s) i of
        None \<Rightarrow> Inl (EntityNotFoundError ''Candidate'' (candidate_uuid i)) | Some c \<Rightarrow> Inr c)"

text \<open>
  The end of every handler: the report on the job, its row, the commit of the prepared store with the drained
  events, their publication, and the acknowledgement on the queue. \<open>before\<close> and \<open>after\<close> are the events of the
  aggregates collected before and after the job.
\<close>

definition finish_job ::
  "world \<Rightarrow> job \<Rightarrow> lease \<Rightarrow> moment \<Rightarrow> json_object \<Rightarrow> (store \<Rightarrow> error + store) \<Rightarrow> event list \<Rightarrow> event list
   \<Rightarrow> (world \<times> job, unit) result" where
  "finish_job w job lease now res write before after =
     (case job_complete job (Some (l_token lease)) now (Some res) of
        (job1, Inl e) \<Rightarrow> ((w, job1), Inl e)
      | (job1, Inr _) \<Rightarrow>
          attempt (w, job1) (bind_sum (write (w_store w)) (\<lambda>s. jobs_update s job1)) (\<lambda>s1.
            let es = before @ j_events job1 @ after in
            ((w\<lparr>w_store := commit s1 es, w_bus := w_bus w @ es,
                w_queue := memq_acknowledge (w_queue w) (j_id job) (l_token lease)\<rparr>,
              job1\<lparr>j_events := []\<rparr>), Inr ())))"

section \<open>Handlers\<close>

fun draft_tasks :: "nat \<Rightarrow> task_draft list \<Rightarrow> error + plan_task list" where
  "draft_tasks n [] = Inr []"
| "draft_tasks n (t # ts) =
     bind_sum (mk_plan_task \<lparr>t_id = TaskId n, t_key = td_key t, t_title = td_title t,
         t_description = td_description t, t_target_paths = td_target_paths t,
         t_depends_on = td_depends_on t, t_validation = td_validation t\<rparr>) (\<lambda>pt.
     bind_sum (draft_tasks (n + 1) ts) (\<lambda>pts. Inr (pt # pts)))"

definition plan_from_draft :: "plan_draft \<Rightarrow> run \<Rightarrow> string \<Rightarrow> nat \<Rightarrow> moment \<Rightarrow> error + plan" where
  "plan_from_draft d r version n now =
     bind_sum (draft_tasks (n + 1) (pd_tasks d)) (\<lambda>tasks.
     mk_plan \<lparr>p_id = PlanId n, p_run_id = r_id r, p_revision = r_plan_revisions r,
       p_objective = (if pd_objective d = [] then r_objective r else pd_objective d), p_created_at = now,
       p_tasks = tasks, p_assumptions = pd_assumptions d, p_constraints = pd_constraints d,
       p_risk_areas = pd_risk_areas d, p_validation_requirements = pd_validation_requirements d,
       p_prompt_version = version, p_metadata = []\<rparr>)"

abbreviation role_requirements :: "agent_role \<Rightarrow> int \<Rightarrow> bool \<Rightarrow> job_requirements" where
  "role_requirements role tokens tools \<equiv> \<lparr>req_role = role, req_model_id = None,
     estimated_prompt_tokens = tokens, requires_tools = tools, requires_json_schema = False\<rparr>"

definition run_planner ::
  "services \<Rightarrow> workspaces \<Rightarrow> world \<Rightarrow> job \<Rightarrow> lease \<Rightarrow> moment \<Rightarrow> (world \<times> job, unit) result" where
  "run_planner sv ws w job lease now =
     attempt (w, job) (require_run (w_store w) (j_run_id job)) (\<lambda>r.
     attempt (w, job) (require_project (w_store w) r) (\<lambda>p.
     attempt (w, job) (ws_create ws p (r_id r) None) (\<lambda>wk.
     attempt (w, job) (sv_context sv wk (r_objective r)) (\<lambda>tokens.
     attempt (w, job) (bind_sum (mk_job_requirements (role_requirements PLANNER tokens False)) (sv_acquire sv)) (\<lambda>worker.
     attempt (w, job) (sv_plan sv p r (plans_latest_for_run (w_store w) (r_id r))) (\<lambda>out.
     attempt (w, job) (plan_from_draft (ao_draft out) r (ao_prompt_version out) (w_supply w) now) (\<lambda>plan.
     attempt (w, job) (settled (run_plan_ready r (p_id plan) (task_count plan) now)) (\<lambda>r1.
     attempt (w, job) (settled (run_add_token_usage r1 (ao_usage out) now)) (\<lambda>r2.
     finish_job (w\<lparr>w_supply := w_supply w + 1 + length (p_tasks plan)\<rparr>) job lease now
       [(''plan_id'', JStr (uuid_text (plan_uuid (p_id plan)))), (''task_count'', JInt (task_count plan)),
        (''worker_id'', JStr (uuid_text (worker_uuid worker))), (''prompt_version'', JStr (ao_prompt_version out)),
        (''repairs'', JInt (ao_repairs out))]
       (\<lambda>s. runs_update (plans_add s plan) r2) (r_events r2) [])))))))))"

definition materialize_patch :: "services \<Rightarrow> workspace_id \<Rightarrow> code_draft \<Rightarrow> error + patch" where
  "materialize_patch sv wk d =
     bind_sum
       (if cd_files d \<noteq> [] then sv_write_files sv wk (cd_files d)
        else if strip (cd_diff d) \<noteq> [] then sv_apply_patch sv wk (from_unified_diff (cd_diff d) None)
        else Inr ())
       (\<lambda>_. sv_diff sv wk)"

definition last_brief :: "review list \<Rightarrow> string option" where
  "last_brief rs = (if rs = [] then None else Some (repair_brief (last rs)))"

definition run_coder ::
  "services \<Rightarrow> workspaces \<Rightarrow> world \<Rightarrow> job \<Rightarrow> lease \<Rightarrow> moment \<Rightarrow> (world \<times> job, unit) result" where
  "run_coder sv ws w job lease now =
     (case j_candidate_id job of
        None \<Rightarrow> ((w, job), Inl (DomainError ''a CODE job must name its candidate''))
      | Some cid \<Rightarrow>
          attempt (w, job) (require_run (w_store w) (j_run_id job)) (\<lambda>r.
          attempt (w, job) (require_project (w_store w) r) (\<lambda>p.
          attempt (w, job) (require_candidate (w_store w) cid) (\<lambda>c.
          attempt (w, job) (require_workspace ws c) (\<lambda>wk.
          attempt (w, job) (sv_context sv wk (r_objective r)) (\<lambda>tokens.
          attempt (w, job) (bind_sum (mk_job_requirements (role_requirements CODER tokens True)) (sv_acquire sv)) (\<lambda>worker.
          attempt (w, job) (sv_code sv p r c (plans_latest_for_run (w_store w) (r_id r))
                              (last_brief (reviews_list_by_candidate (w_store w) cid))) (\<lambda>out.
          attempt (w, job) (materialize_patch sv wk (ao_draft out)) (\<lambda>pt.
          attempt (w, job) (settled (cand_submit_patch (cand_record_worker c worker) pt
                              (cd_summary (ao_draft out)) (cd_uncertainties (ao_draft out)))) (\<lambda>c1.
          attempt (w, job) (settled (cand_start_validation c1 now)) (\<lambda>c2.
          attempt (w, job) (settled (run_add_token_usage r (ao_usage out) now)) (\<lambda>r1.
          finish_job w job lease now
            [(''candidate_id'', JStr (uuid_text (candidate_uuid cid))),
             (''changed_files'', JInt (int (length (patch_files pt)))),
             (''worker_id'', JStr (uuid_text (worker_uuid worker))), (''prompt_version'', JStr (ao_prompt_version out))]
            (\<lambda>s. bind_sum (candidates_update s c2) (\<lambda>s1. runs_update s1 r1)) (r_events r1) (c_events c2)))))))))))))"

fun stage_tool :: "job_type \<Rightarrow> string \<times> tool_kind" where
  "stage_tool BUILD = (''build'', TK_BUILD)"
| "stage_tool TEST = (''run_tests'', TK_TEST)"
| "stage_tool _ = (''static_analysis'', TK_STATIC_ANALYSIS)"

definition stage_results ::
  "services \<Rightarrow> project \<Rightarrow> workspace_id \<Rightarrow> job_type \<Rightarrow> error + tool_result list" where
  "stage_results sv p wk ty =
     (if fst (stage_tool ty) \<notin> set (sv_available_tools sv p) then Inr []
      else map_sum id (\<lambda>r. [r]) (sv_execute_tool sv wk (fst (stage_tool ty)) (snd (stage_tool ty))))"

definition run_validation_stage ::
  "services \<Rightarrow> workspaces \<Rightarrow> world \<Rightarrow> job \<Rightarrow> lease \<Rightarrow> moment \<Rightarrow> (world \<times> job, unit) result" where
  "run_validation_stage sv ws w job lease now =
     (case j_candidate_id job of
        None \<Rightarrow> ((w, job), Inl (DomainError ''a validation job must name its candidate''))
      | Some cid \<Rightarrow>
          attempt (w, job) (require_run (w_store w) (j_run_id job)) (\<lambda>r.
          attempt (w, job) (require_project (w_store w) r) (\<lambda>p.
          attempt (w, job) (require_candidate (w_store w) cid) (\<lambda>c.
          attempt (w, job) (require_workspace ws c) (\<lambda>wk.
          attempt (w, job) (stage_results sv p wk (j_type job)) (\<lambda>results.
          attempt (w, job) (settled (cand_append_validation c results)) (\<lambda>c1.
          finish_job w job lease now
            [(''stage'', JStr (job_type_value (j_type job))),
             (''exit_codes'', JArr (map (\<lambda>r. JInt (r_exit_code r)) results)), (''skipped'', JBool (results = []))]
            (\<lambda>s. candidates_update (tool_results_add_many s (j_run_id job) (Some cid) results) c1)
            [] (c_events c1))))))))"

fun checked_findings :: "review_finding list \<Rightarrow> error + review_finding list" where
  "checked_findings [] = Inr []"
| "checked_findings (f # fs) =
     bind_sum (mk_review_finding f) (\<lambda>f1. bind_sum (checked_findings fs) (\<lambda>fs1. Inr (f1 # fs1)))"

definition run_reviewer ::
  "services \<Rightarrow> world \<Rightarrow> job \<Rightarrow> lease \<Rightarrow> moment \<Rightarrow> (world \<times> job, unit) result" where
  "run_reviewer sv w job lease now =
     (case j_candidate_id job of
        None \<Rightarrow> ((w, job), Inl (DomainError ''a REVIEW job must name its candidate''))
      | Some cid \<Rightarrow>
          attempt (w, job) (require_run (w_store w) (j_run_id job)) (\<lambda>r.
          attempt (w, job) (require_project (w_store w) r) (\<lambda>p.
          attempt (w, job) (require_candidate (w_store w) cid) (\<lambda>c.
          let previous = reviews_list_by_candidate (w_store w) cid in
          attempt (w, job) (sv_acquire sv (role_requirements REVIEWER 0 False)) (\<lambda>worker.
          attempt (w, job) (sv_review sv p r c (plans_latest_for_run (w_store w) (r_id r)) previous) (\<lambda>out.
          attempt (w, job) (bind_sum (checked_findings (vd_findings (ao_draft out))) (\<lambda>fs.
             mk_review \<lparr>rv_id = ReviewId (w_supply w), rv_run_id = j_run_id job, rv_candidate_id = cid,
               rv_verdict = vd_verdict (ao_draft out), rv_iteration = int (length previous) + 1, rv_created_at = now,
               rv_summary = vd_summary (ao_draft out), rv_findings = fs,
               rv_prompt_version = ao_prompt_version out, rv_metadata = []\<rparr>)) (\<lambda>review.
          attempt (w, job) (settled (run_add_token_usage r (ao_usage out) now)) (\<lambda>r1.
          let c1 = cand_record_review c (vd_verdict (ao_draft out)) in
          finish_job (w\<lparr>w_supply := w_supply w + 1\<rparr>) job lease now
            [(''verdict'', JStr (review_verdict_value (vd_verdict (ao_draft out)))),
             (''findings'', JInt (int (length (vd_findings (ao_draft out))))),
             (''worker_id'', JStr (uuid_text (worker_uuid worker))), (''prompt_version'', JStr (ao_prompt_version out))]
            (\<lambda>s. bind_sum (candidates_update (reviews_add s review) c1) (\<lambda>s1. runs_update s1 r1))
            (r_events r1) (c_events c1)))))))))"

section \<open>Dispatch\<close>

definition dispatch ::
  "services \<Rightarrow> workspaces \<Rightarrow> world \<Rightarrow> job \<Rightarrow> lease \<Rightarrow> moment \<Rightarrow> (world \<times> job, unit) result" where
  "dispatch sv ws w job lease now =
     attempt (w, job) (require_run (w_store w) (j_run_id job)) (\<lambda>r.
       if is_cancelling_or_cancelled (r_status r) \<or> run_is_terminal (r_status r)
       then
         let job1 = job_cancel job now in
         attempt (w, job1) (jobs_update (w_store w) job1) (\<lambda>s.
           ((w\<lparr>w_store := s, w_queue := memq_acknowledge (w_queue w) (j_id job) (l_token lease)\<rparr>, job1), Inr ()))
       else if j_type job = PLAN then run_planner sv ws w job lease now
       else if j_type job = CODE then run_coder sv ws w job lease now
       else if j_type job = REVIEW then run_reviewer sv w job lease now
       else if j_type job \<in> set VALIDATION_STAGES then run_validation_stage sv ws w job lease now
       else ((w, job), Inl (DomainError (''no handler for job type '' @ job_type_value (j_type job)))))"

section \<open>Failures\<close>

definition fail_run :: "store \<Rightarrow> run option \<Rightarrow> moment \<Rightarrow> failure_kind \<Rightarrow> string \<Rightarrow> error + store \<times> event list" where
  "fail_run s ro now kind reason =
     (case ro of
        None \<Rightarrow> Inr (s, [])
      | Some r \<Rightarrow>
          if run_is_terminal (r_status r) then Inr (s, [])
          else bind_sum (settled (run_fail r now kind reason)) (\<lambda>r1.
               bind_sum (runs_update s r1) (\<lambda>s1. Inr (s1, r_events r1))))"

definition handle_failure ::
  "services \<Rightarrow> workspaces \<Rightarrow> orchestrator_config \<Rightarrow> retry_policy \<Rightarrow> world \<Rightarrow> job \<Rightarrow> lease \<Rightarrow> error \<Rightarrow> moment
   \<Rightarrow> (world, unit) result" where
  "handle_failure sv ws cfg policy w job lease e now =
     (let kind = classify e; decision = decide policy kind (j_attempt job);
          retryable = should_retry_job decision;
          job1 = fst (job_fail job None now kind (sv_text sv e) (Some retryable))
      in attempt w (jobs_update (w_store w) job1) (\<lambda>s1.
         attempt w (if \<not> retryable \<and> \<not> is_code_defect kind
                    then fail_run s1 (dict_get (s_runs (w_store w)) (j_run_id job)) now kind (sv_text sv e)
                    else Inr (s1, [])) (\<lambda>(s2, run_events).
         let es = run_events @ j_events job1;
             w1 = w\<lparr>w_store := commit s2 es, w_bus := w_bus w @ es\<rparr>
         in case memq_release (w_queue w1) (j_id job) (l_token lease) retryable of
              (q, Inl err) \<Rightarrow> (w1\<lparr>w_queue := q\<rparr>, Inl err)
            | (q, Inr _) \<Rightarrow>
                let w2 = w1\<lparr>w_queue := q\<rparr> in
                if retryable
                then (case dict_get (s_jobs (w_store w2)) (j_id job) of
                        None \<Rightarrow> (w2, Inr ())
                      | Some stored \<Rightarrow>
                          (case job_requeue stored now (rd_reason decision) of
                             (stored1, Inl err) \<Rightarrow> (w2, Inl err)
                           | (stored1, Inr _) \<Rightarrow>
                               attempt w2 (jobs_update (w_store w2) stored1) (\<lambda>s3.
                                 (w2\<lparr>w_store := commit s3 (j_events stored1), w_bus := w_bus w2 @ j_events stored1,
                                     w_queue := memq_enqueue (w_queue w2) stored1\<rparr>, Inr ()))))
                else advance ws cfg w2 (j_run_id job) now)))"

definition execute ::
  "services \<Rightarrow> workspaces \<Rightarrow> orchestrator_config \<Rightarrow> retry_policy \<Rightarrow> world \<Rightarrow> job \<Rightarrow> lease \<Rightarrow> moment
   \<Rightarrow> (world, unit) result" where
  "execute sv ws cfg policy w job lease now =
     (case dispatch sv ws w job lease now of
        ((w1, job1), Inl e) \<Rightarrow> handle_failure sv ws cfg policy w1 job1 lease e now
      | ((w1, job1), Inr _) \<Rightarrow> advance ws cfg w1 (j_run_id job) now)"

definition exhausted_reason :: "job \<Rightarrow> string" where
  "exhausted_reason j = job_type_value (j_type j) @ '' job exhausted its retry budget after ''
     @ show_int (j_attempt j) @ '' attempt(s)''"

definition handle_dead_job :: "workspaces \<Rightarrow> world \<Rightarrow> job \<Rightarrow> moment \<Rightarrow> (world, unit) result" where
  "handle_dead_job ws w job now =
     (case dict_get (s_runs (w_store w)) (j_run_id job) of
        None \<Rightarrow> (w, Inr ())
      | Some r \<Rightarrow>
          if run_is_terminal (r_status r) then (w, Inr ())
          else
            attempt w (bind_sum (settled (run_fail r now (or_else (j_failure_kind job) FK_INFRASTRUCTURE)
                (or_else (nonempty (j_failure_reason job)) (exhausted_reason job)))) (\<lambda>r1.
              bind_sum (runs_update (w_store w) r1) (\<lambda>s1. Inr (commit s1 (r_events r1), r_events r1)))) (\<lambda>(s2, es).
            attempt (w\<lparr>w_store := s2, w_bus := w_bus w @ es\<rparr>) (ws_release_run ws (j_run_id job)) (\<lambda>_.
              (w\<lparr>w_store := s2, w_bus := w_bus w @ es\<rparr>, Inr ()))))"

end
