(* ===== verification/Progress.thy ===== *)
theory Progress
  imports Orchestrator
begin

text \<open>
  What the scheduling decisions of the orchestrator guarantee: validation stages run in order and stop at
  the first failure, a decision never leaves a run waiting for nothing, and a run is completed only on a
  reviewer's pass.
\<close>

section \<open>Jobs a decision creates\<close>

text \<open>A job fresh from \<open>_new_job\<close>: pending, unleased, of the run, under an unused identifier.\<close>

definition fresh_job :: "run_id \<Rightarrow> nat \<Rightarrow> nat \<Rightarrow> job \<Rightarrow> bool" where
  "fresh_job rid lo hi j \<longleftrightarrow> j_run_id j = rid \<and> j_status j = JOB_PENDING \<and> j_lease j = None
     \<and> j_events j = [] \<and> (\<exists>n. lo \<le> n \<and> n < hi \<and> j_id j = JobId n)"

lemma new_job_Inr:
  "new_job cfg r i now ty role cand prio = Inr j \<Longrightarrow>
     fresh_job (r_id r) i (i + 1) j \<and> j_id j = JobId i \<and> j_type j = ty \<and> j_candidate_id j = cand
     \<and> j_role j = role \<and> j_priority j = prio \<and> j_created_at j = now"
  by (auto simp: new_job_def job_create_def mk_job_def fresh_job_def split: if_splits)

lemma fresh_job_mono: "fresh_job rid lo hi j \<Longrightarrow> lo' \<le> lo \<Longrightarrow> hi \<le> hi' \<Longrightarrow> fresh_job rid lo' hi' j"
  unfolding fresh_job_def by (meson le_trans less_le_trans)

definition fresh_jobs :: "run_id \<Rightarrow> nat \<Rightarrow> nat \<Rightarrow> job list \<Rightarrow> bool" where
  "fresh_jobs rid lo hi js \<longleftrightarrow> lo \<le> hi \<and> (\<forall>j \<in> set js. fresh_job rid lo hi j) \<and> distinct (map j_id js)"

lemma fresh_jobs_Nil [simp]: "fresh_jobs rid lo hi [] \<longleftrightarrow> lo \<le> hi"
  by (simp add: fresh_jobs_def)

lemma fresh_jobs_Cons:
  assumes "fresh_job rid lo mid j" and "fresh_jobs rid mid hi js" and "lo \<le> mid"
  shows "fresh_jobs rid lo hi (j # js)"
proof -
  have "j_id j \<noteq> j_id k" if "k \<in> set js" for k
    using assms(1,2) that by (auto simp: fresh_job_def fresh_jobs_def)
  then show ?thesis
    using assms fresh_job_mono [OF assms(1), of lo hi]
    by (auto simp: fresh_jobs_def intro: fresh_job_mono)
qed

lemma settled_fst: "settled m = Inr s \<Longrightarrow> s = fst m"
  by (auto simp: settled_Inr_iff)

lemma run_id_kept:
  "r_id (fst (run_start_planning r now)) = r_id r" "r_id (fst (run_start_coding r now)) = r_id r"
  "r_id (fst (run_start_validating r now)) = r_id r" "r_id (fst (run_start_reviewing r c now)) = r_id r"
  "r_id (fst (run_fail r now k reason)) = r_id r" "r_id (fst (run_complete r now co)) = r_id r"
  "r_id (fst (run_request_repair r c reason now)) = r_id r"
  by (simp_all add: run_step_simps split: option.split)

lemma run_status_after:
  "settled (run_start_planning r now) = Inr r' \<Longrightarrow> r_status r' = RUN_PLANNING"
  "settled (run_start_coding r now) = Inr r' \<Longrightarrow> r_status r' = RUN_CODING"
  "settled (run_start_validating r now) = Inr r' \<Longrightarrow> r_status r' = RUN_VALIDATING"
  "settled (run_start_reviewing r c now) = Inr r' \<Longrightarrow> r_status r' = RUN_REVIEWING"
  by (auto simp: settled_def run_step_simps split: if_splits)

lemma run_fail_settles: "settled (run_fail r now k reason) = Inr r' \<Longrightarrow> run_is_terminal (r_status r')"
  by (auto simp: settled_def run_step_simps split: if_splits)

lemma run_complete_status:
  "settled (run_complete r now co) = Inr r' \<Longrightarrow> r_status r' = RUN_COMPLETED \<and> r_status r = RUN_REVIEWING"
  by (auto simp: settled_def run_step_simps split: if_splits option.splits)

lemma open_candidates_from_fresh:
  "open_candidates_from ws cfg p r now nx idxs = Inr (cjs, nx') \<Longrightarrow>
     fresh_jobs (r_id r) nx nx' (map snd cjs) \<and> length cjs = length idxs"
proof (induction idxs arbitrary: nx cjs)
  case (Cons idx idxs)
  then obtain c j rest where
    one: "open_candidate ws cfg p r now idx nx = Inr (c, j)" and
    rest: "open_candidates_from ws cfg p r now (nx + 2) idxs = Inr (rest, nx')" and
    cjs: "cjs = (c, j) # rest"
    by (auto simp: bind_sum_Inr_iff)
  have "fresh_job (r_id r) (nx + 1) (nx + 1 + 1) j"
    using one by (auto simp: open_candidate_def bind_sum_Inr_iff dest: new_job_Inr)
  then have "fresh_job (r_id r) nx (nx + 2) j" by (rule fresh_job_mono) simp_all
  with Cons.IH [OF rest] show ?case by (auto simp: cjs intro: fresh_jobs_Cons)
qed simp

text \<open>What every decision keeps.\<close>

definition sound_decision :: "run \<Rightarrow> nat \<Rightarrow> decision \<Rightarrow> bool" where
  "sound_decision r nx d \<longleftrightarrow> r_id (d_run d) = r_id r \<and> fresh_jobs (r_id r) nx (d_supply d) (d_jobs d)"

lemma open_candidates_sound:
  "open_candidates ws cfg p r cs now nx = Inr d \<Longrightarrow>
     sound_decision r nx d \<and> length (d_jobs d) = nat (r_candidate_count r) \<and> d_run d = r"
  by (auto simp: open_candidates_def sound_decision_def bind_sum_Inr_iff dest!: open_candidates_from_fresh)

lemma push_candidates_fresh:
  "push_candidates cfg p r now nx cs = Inr (cs', js, nx') \<Longrightarrow> fresh_jobs (r_id r) nx nx' js"
proof (induction cs arbitrary: nx cs' js)
  case (Cons c cs)
  show ?case
  proof (cases "c_status c = CAND_VALIDATING \<and> next_stage p (c_validation c) \<noteq> None")
    case True
    then obtain stage j js' cs'' where
      j: "new_job cfg r nx now stage None (Some (c_id c)) HIGH = Inr j" and
      rest: "push_candidates cfg p r now (nx + 1) cs = Inr (cs'', js', nx')" and js: "js = j # js'"
      using Cons.prems by (auto simp: bind_sum_Inr_iff)
    from new_job_Inr [OF j] Cons.IH [OF rest] show ?thesis by (auto simp: js intro: fresh_jobs_Cons)
  next
    case False
    then obtain cs'' where "push_candidates cfg p r now nx cs = Inr (cs'', js, nx')"
      using Cons.prems by (auto simp: bind_sum_Inr_iff split: if_splits)
    then show ?thesis by (rule Cons.IH)
  qed
qed simp

lemma fresh_jobs_single:
  "new_job cfg r nx now ty role cand prio = Inr j \<Longrightarrow> fresh_jobs (r_id r) nx (nx + 1) [j]"
  by (auto simp: fresh_jobs_def dest: new_job_Inr)

lemma repair_or_fail_cases:
  assumes "repair_or_fail ws cfg r cs pool reason now nx = Inr d"
  obtains (failed) r0 where "r0 = r" "settled (run_fail r0 now FK_REVIEW (reason @ ''; repair budget exhausted'')) = Inr (d_run d)"
      "d_candidates d = cs" "d_added d = []" "d_jobs d = []" "d_supply d = nx"
  | (repaired) target rest r1 target' j where "pool = target # rest"
      "run_request_repair r (c_id target) reason now = (r1, Inr True)"
      "settled (cand_start_repair target now) = Inr target'" "settled (run_start_coding r1 now) = Inr (d_run d)"
      "new_job cfg (d_run d) nx now CODE (Some CODER) (Some (c_id target')) HIGH = Inr j"
      "d_candidates d = replace_candidate target' cs" "d_added d = []" "d_jobs d = [j]" "d_supply d = nx + 1"
proof (cases pool)
  case Nil
  with assms show thesis
    by (intro failed [of r]) (auto simp: repair_or_fail_def Let_def bind_sum_Inr_iff)
next
  case (Cons target rest)
  obtain r1 x where req: "run_request_repair r (c_id target) reason now = (r1, x)"
    by (cases "run_request_repair r (c_id target) reason now")
  show thesis
  proof (cases x)
    case (Inl e)
    with assms Cons req show thesis by (simp add: repair_or_fail_def Let_def)
  next
    case (Inr b)
    show thesis
    proof (cases b)
      case True
      with assms Cons req Inr obtain t' r2 j where
        "settled (cand_start_repair target now) = Inr t'" "settled (run_start_coding r1 now) = Inr r2"
        "new_job cfg r2 nx now CODE (Some CODER) (Some (c_id t')) HIGH = Inr j"
        "d = \<lparr>d_run = r2, d_candidates = replace_candidate t' cs, d_added = [], d_jobs = [j], d_supply = nx + 1\<rparr>"
        by (auto simp: repair_or_fail_def Let_def bind_sum_Inr_iff)
      with Cons req Inr True show thesis by (intro repaired [of target rest r1 t' j]) simp_all
    next
      case False
      have "r1 = r" using req Inr False by (auto simp: run_step_simps split: if_splits)
      with assms Cons req Inr False show thesis
        by (intro failed [of r]) (auto simp: repair_or_fail_def Let_def bind_sum_Inr_iff)
    qed
  qed
qed

lemma repair_or_fail_sound:
  assumes "repair_or_fail ws cfg r cs pool reason now nx = Inr d"
  shows "sound_decision r nx d \<and> (run_is_terminal (r_status (d_run d)) \<or> d_jobs d \<noteq> [])"
  using assms
proof (cases rule: repair_or_fail_cases)
  case (failed r0)
  then show ?thesis
    using run_fail_settles [OF failed(2)] settled_fst [OF failed(2)]
    by (simp add: sound_decision_def run_id_kept)
next
  case (repaired target rest r1 target' j)
  have "r_id (d_run d) = r_id r1" using settled_fst [OF repaired(4)] by (simp add: run_id_kept)
  moreover have "r_id r1 = r_id r"
    using run_id_kept(7) [of r "c_id target" reason now] by (simp add: repaired(2))
  ultimately show ?thesis
    using fresh_jobs_single [OF repaired(5)] by (simp add: sound_decision_def repaired)
qed

lemma advance_candidates_cases:
  assumes "advance_candidates ws cfg p r cs now nx = Inr d"
  obtains (stages) cs1 where "push_candidates cfg p r now nx cs = Inr (cs1, d_jobs d, d_supply d)" "d_jobs d \<noteq> []"
      "d_candidates d = cs1"
      "(if r_status r \<noteq> RUN_VALIDATING then settled (run_start_validating r now) else Inr r) = Inr (d_run d)"
  | (waiting) cs1 where "push_candidates cfg p r now nx cs = Inr (cs1, [], d_supply d)"
      "\<forall>c \<in> set cs1. c_status c \<noteq> CAND_VALIDATED" "d_run d = r" "d_jobs d = []" "d_candidates d = cs1"
  | (review) cs1 n1 best j where "push_candidates cfg p r now nx cs = Inr (cs1, [], n1)"
      "best \<in> set cs1" "c_status best = CAND_VALIDATED" "is_viable best"
      "(if r_status r \<noteq> RUN_REVIEWING then settled (run_start_reviewing r (c_id best) now) else Inr r) = Inr (d_run d)"
      "new_job cfg (d_run d) n1 now REVIEW (Some REVIEWER) (Some (c_id best)) NORMAL = Inr j"
      "d_jobs d = [j]" "d_supply d = n1 + 1" "d_candidates d = cs1"
  | (repair) cs1 n1 pool where "push_candidates cfg p r now nx cs = Inr (cs1, [], n1)"
      "pool = filter (\<lambda>c. c_status c = CAND_VALIDATED) cs1" "pool \<noteq> []" "\<forall>c \<in> set pool. \<not> is_viable c"
      "repair_or_fail ws cfg r cs1 pool ''no candidate survived deterministic validation'' now n1 = Inr d"
proof -
  obtain cs1 js n1 where push: "push_candidates cfg p r now nx cs = Inr (cs1, js, n1)"
    using assms by (auto simp: advance_candidates_def bind_sum_Inr_iff)
  let ?pool = "filter (\<lambda>c. c_status c = CAND_VALIDATED) cs1"
  let ?viable = "selection_viable ?pool"
  let ?best = "or_else (winner (selection_select ?viable)) (hd ?viable)"
  note body = assms [unfolded advance_candidates_def push bind_sum_simps split_conv Let_def]
  show thesis
  proof (cases "js = []")
    case False
    with body push show thesis by (intro stages [of cs1]) (auto simp: bind_sum_Inr_iff)
  next
    case js: True
    show thesis
    proof (cases "?viable = []")
      case True
      show thesis
      proof (cases "?pool = []")
        case True
        with body push js show thesis by (intro waiting [of cs1]) (auto simp: filter_empty_conv)
      next
        case False
        have "\<forall>c \<in> set ?pool. \<not> is_viable c"
          using True by (simp add: selection_viable_def filter_empty_conv)
        with False True body push js show thesis by (intro repair [of cs1 n1 ?pool]) simp_all
      qed
    next
      case False
      then have pool: "?pool \<noteq> []" unfolding selection_viable_def by (metis filter.simps(1))
      have "\<forall>c \<in> set ?viable. is_viable c" by (simp add: selection_viable_def)
      from selection_all_viable [OF False this] have "?best \<in> set ?viable" by force
      then have best: "?best \<in> set cs1" "c_status ?best = CAND_VALIDATED" "is_viable ?best"
        by (simp_all add: selection_viable_def)
      obtain r1 j where
        "(if r_status r \<noteq> RUN_REVIEWING then settled (run_start_reviewing r (c_id ?best) now) else Inr r) = Inr r1"
        "new_job cfg r1 n1 now REVIEW (Some REVIEWER) (Some (c_id ?best)) NORMAL = Inr j"
        "d = \<lparr>d_run = r1, d_candidates = cs1, d_added = [], d_jobs = [j], d_supply = n1 + 1\<rparr>"
        using body js False pool by (auto simp: bind_sum_Inr_iff)
      with best push js show thesis by (intro review [of cs1 n1 ?best j]) simp_all
    qed
  qed
qed

text \<open>Pushing candidates on: those in validation end it or get a job, the others are untouched.\<close>

lemma push_candidates_status:
  "push_candidates cfg p r now nx cs = Inr (cs', js, n') \<Longrightarrow> c \<in> set cs \<Longrightarrow>
     c_status c = CAND_VALIDATED \<Longrightarrow> c \<in> set cs'"
proof (induction cs arbitrary: nx cs' js)
  case (Cons d cs)
  then show ?case
    by (auto simp: bind_sum_Inr_iff split: if_splits option.splits)
qed simp

lemma push_candidates_validating:
  "push_candidates cfg p r now nx cs = Inr (cs', js, n') \<Longrightarrow> c \<in> set cs \<Longrightarrow>
     c_status c = CAND_VALIDATING \<Longrightarrow> js = [] \<Longrightarrow> \<exists>c' \<in> set cs'. c_status c' = CAND_VALIDATED"
proof (induction cs arbitrary: nx cs' js)
  case (Cons d cs)
  then show ?case
    by (auto simp: bind_sum_Inr_iff settled_Inr_iff cand_record_validation_def Let_def
        split: if_splits option.splits)
qed simp

lemma advance_candidates_sound:
  assumes "advance_candidates ws cfg p r cs now nx = Inr d"
    and "\<exists>c \<in> set cs. c_status c \<in> {CAND_VALIDATING, CAND_VALIDATED}"
  shows "sound_decision r nx d \<and> (run_is_terminal (r_status (d_run d)) \<or> d_jobs d \<noteq> [])"
  using assms(1)
proof (cases rule: advance_candidates_cases)
  case (stages cs1)
  have "r_id (d_run d) = r_id r"
    using stages(4) settled_fst [of "run_start_validating r now" "d_run d"]
    by (auto simp: run_id_kept split: if_splits)
  then show ?thesis
    using push_candidates_fresh [OF stages(1)] stages(2) by (simp add: sound_decision_def)
next
  case (waiting cs1)
  from assms(2) obtain c where "c \<in> set cs" "c_status c \<in> {CAND_VALIDATING, CAND_VALIDATED}" by blast
  then show ?thesis
    using push_candidates_status [OF waiting(1)] push_candidates_validating [OF waiting(1)] waiting(2) by auto
next
  case (review cs1 n1 best j)
  have id: "r_id (d_run d) = r_id r"
    using review(5) settled_fst [of "run_start_reviewing r (c_id best) now" "d_run d"]
    by (auto simp: run_id_kept split: if_splits)
  have "nx \<le> n1" using push_candidates_fresh [OF review(1)] by simp
  then show ?thesis
    using fresh_jobs_single [OF review(6)] id review(7,8)
    by (auto simp: sound_decision_def fresh_jobs_def intro: fresh_job_mono)
next
  case (repair cs1 n1 pool)
  have "nx \<le> n1" using push_candidates_fresh [OF repair(1)] by simp
  with repair_or_fail_sound [OF repair(5)] show ?thesis
    by (auto simp: sound_decision_def fresh_jobs_def intro: fresh_job_mono)
qed

lemma advance_review_sound:
  assumes "advance_review ws cfg p r cs now nx = Inr d"
  shows "sound_decision r nx d \<and> (run_is_terminal (r_status (d_run d)) \<or> d_jobs d \<noteq> [])"
proof (cases "filter (\<lambda>c. c_review_verdict c = Some VERDICT_PASS) (filter (\<lambda>c. c_review_verdict c \<noteq> None) cs) = []")
  case True
  with assms show ?thesis by (simp add: advance_review_def Let_def repair_or_fail_sound)
next
  case False
  with assms obtain r1 w rat where
    "settled (run_complete (run_select_candidate r w rat now) now (Some w)) = Inr (d_run d)"
    "d_jobs d = []" "d_supply d = nx"
    unfolding advance_review_def Let_def by (auto simp: bind_sum_Inr_iff)
  then show ?thesis
    using settled_fst run_complete_status
    by (fastforce simp: sound_decision_def run_id_kept run_select_candidate_def)
qed

text \<open>
  The situations in which \<open>_advance\<close> is expected to move a run on: something is left to decide, and a run
  that is coding or validating has a candidate in or past validation.
\<close>

definition due :: "run \<Rightarrow> candidate list \<Rightarrow> bool" where
  "due r cs \<longleftrightarrow> r_status r \<in> {RUN_CREATED, RUN_PLAN_READY, RUN_CODING, RUN_VALIDATING, RUN_REPAIRING, RUN_REVIEWING}
     \<and> 1 \<le> r_candidate_count r
     \<and> (r_status r \<in> {RUN_CODING, RUN_VALIDATING, RUN_REPAIRING} \<longrightarrow>
          (\<exists>c \<in> set cs. c_status c \<in> {CAND_VALIDATING, CAND_VALIDATED}))"

lemma candidate_count_coding: "r_candidate_count (fst (run_start_coding r now)) = r_candidate_count r"
  by (simp add: run_step_simps)

lemma start_then_open_sound:
  assumes "bind_sum (settled (run_start_coding r now)) (\<lambda>r1. open_candidates ws cfg p r1 cs now nx) = Inr d"
    and "1 \<le> r_candidate_count r"
  shows "sound_decision r nx d \<and> d_jobs d \<noteq> []"
proof -
  obtain r1 where r1: "settled (run_start_coding r now) = Inr r1" "open_candidates ws cfg p r1 cs now nx = Inr d"
    using assms(1) by (auto simp: bind_sum_Inr_iff)
  have "r_id r1 = r_id r" "r_candidate_count r1 = r_candidate_count r"
    using settled_fst [OF r1(1)] by (simp_all add: run_id_kept candidate_count_coding)
  with open_candidates_sound [OF r1(2)] assms(2) show ?thesis by (auto simp: sound_decision_def)
qed

lemma decide_step_progress:
  assumes "decide_step ws cfg p r cs now nx = Inr d" and "due r cs"
  shows "sound_decision r nx d \<and> (run_is_terminal (r_status (d_run d)) \<or> d_jobs d \<noteq> [])"
proof -
  consider "r_status r = RUN_CREATED" | "r_status r = RUN_PLAN_READY"
    | "r_status r \<in> {RUN_CODING, RUN_VALIDATING, RUN_REPAIRING}" | "r_status r = RUN_REVIEWING"
    using assms(2) by (auto simp: due_def)
  then show ?thesis
  proof cases
    case 1
    then have first: "open_first_stage ws cfg p r cs now nx = Inr d" using assms(1) by (simp add: decide_step_def)
    show ?thesis
    proof (cases "requires_plan r")
      case True
      then obtain r1 j where r1: "settled (run_start_planning r now) = Inr r1"
          "new_job cfg r1 nx now PLAN (Some PLANNER) None NORMAL = Inr j" "d_run d = r1" "d_jobs d = [j]"
          "d_supply d = nx + 1"
        using first by (auto simp: open_first_stage_def bind_sum_Inr_iff)
      with fresh_jobs_single [OF r1(2)] settled_fst [OF r1(1)] show ?thesis
        by (simp add: sound_decision_def run_id_kept)
    next
      case False
      with first start_then_open_sound assms(2) show ?thesis by (simp add: open_first_stage_def due_def)
    qed
  next
    case 2
    with assms start_then_open_sound show ?thesis by (simp add: decide_step_def due_def)
  next
    case 3
    then have "advance_candidates ws cfg p r cs now nx = Inr d" "\<exists>c \<in> set cs. c_status c \<in> {CAND_VALIDATING, CAND_VALIDATED}"
      using assms by (auto simp: decide_step_def due_def)
    then show ?thesis by (rule advance_candidates_sound)
  next
    case 4
    with assms(1) advance_review_sound show ?thesis by (simp add: decide_step_def)
  qed
qed

section \<open>Persisting a decision\<close>

lemma enqueue_all_fresh:
  assumes "fresh_jobs rid lo hi js"
  shows "\<exists>js'. enqueue_all js now = Inr js' \<and> map j_id js' = map j_id js
           \<and> (\<forall>j \<in> set js'. j_status j = JOB_QUEUED \<and> j_run_id j = rid \<and> j_lease j = None)"
  using assms
proof (induction js)
  case Nil
  then show ?case by (simp add: enqueue_all_def)
next
  case (Cons j js)
  then have j: "j_status j = JOB_PENDING" "j_run_id j = rid" and "fresh_jobs rid lo hi js"
    by (auto simp: fresh_jobs_def fresh_job_def)
  with Cons.IH obtain js' where js': "enqueue_all js now = Inr js'" "map j_id js' = map j_id js"
      "\<forall>j \<in> set js'. j_status j = JOB_QUEUED \<and> j_run_id j = rid \<and> j_lease j = None"
    by blast
  let ?j = "fst (job_enqueue j now)"
  have "settled (job_enqueue j now) = Inr ?j" "j_id ?j = j_id j" "j_status ?j = JOB_QUEUED" "j_run_id ?j = rid"
      "j_lease ?j = None"
    using j by (simp_all add: job_enqueue_def)
  with js' show ?case by (intro exI [of _ "?j # js'"]) (simp add: enqueue_all_def)
qed

lemma update_candidates_frame:
  "update_candidates s cs = Inr s' \<Longrightarrow>
     s_runs s' = s_runs s \<and> s_jobs s' = s_jobs s \<and> s_projects s' = s_projects s \<and> s_events s' = s_events s"
  by (induction s cs rule: update_candidates.induct) (auto simp: bind_sum_Inr_iff candidates_update_def split: if_splits)

lemma jobs_add_frame: "s_runs (fold (\<lambda>j s. jobs_add s j) js s) = s_runs s"
  by (induction js arbitrary: s) (simp_all add: jobs_add_def)

lemma candidates_add_frame:
  "s_runs (fold (\<lambda>c s. candidates_add s c) cs s) = s_runs s" "s_jobs (fold (\<lambda>c s. candidates_add s c) cs s) = s_jobs s"
  by (induction cs arbitrary: s) (simp_all add: candidates_add_def)

lemma find_SomeD: "find P xs = Some x \<Longrightarrow> x \<in> set xs \<and> P x"
  by (induction xs) (auto split: if_splits)

lemma jobs_added:
  "dict_get (s_jobs (fold (\<lambda>j s. jobs_add s j) js s)) i =
     (case find (\<lambda>j. j_id j = i) (rev js) of Some j \<Rightarrow> Some (job_row j) | None \<Rightarrow> dict_get (s_jobs s) i)"
  by (induction js rule: rev_induct) (auto simp: jobs_add_def)

lemma persist_decision_effect:
  assumes "persist_decision s d js = Inr s'"
  shows "dict_get (s_runs s') (r_id (d_run d)) = Some (run_row (d_run d))"
    and "j \<in> set js \<Longrightarrow> distinct (map j_id js) \<Longrightarrow> dict_get (s_jobs s') (j_id j) = Some (job_row j)"
proof -
  let ?s0 = "fold (\<lambda>j s. jobs_add s j) js (fold (\<lambda>c s. candidates_add s c) (d_added d) s)"
  obtain s1 s2 where s: "runs_update ?s0 (d_run d) = Inr s1" "update_candidates s1 (d_candidates d) = Inr s2"
      "s' = commit s2 (drained_events d js)"
    using assms by (auto simp: persist_decision_def bind_sum_Inr_iff)
  have s1: "s1 = ?s0\<lparr>s_runs := dict_set (r_id (d_run d)) (run_row (d_run d)) (s_runs ?s0)\<rparr>"
    using s(1) by (simp add: runs_update_def split: if_splits)
  note frame = update_candidates_frame [OF s(2)]
  show "dict_get (s_runs s') (r_id (d_run d)) = Some (run_row (d_run d))"
    using frame s(3) s1 by (simp add: commit_def)
  assume j: "j \<in> set js" and dist: "distinct (map j_id js)"
  have "find (\<lambda>k. j_id k = j_id j) (rev js) \<noteq> None" using j by (auto simp: find_None_iff)
  then obtain k where k: "find (\<lambda>k. j_id k = j_id j) (rev js) = Some k" by blast
  then have "k \<in> set js" "j_id k = j_id j" using find_SomeD [OF k] by simp_all
  then have "k = j" using j dist by (meson distinct_map inj_onD)
  with k jobs_added [of js "fold (\<lambda>c s. candidates_add s c) (d_added d) s" "j_id j"]
  show "dict_get (s_jobs s') (j_id j) = Some (job_row j)"
    using frame s(3) s1 by (simp add: commit_def)
qed

section \<open>A run is never left waiting for nothing\<close>

text \<open>
  The state between two calls: rows are stored under their own identifiers, and the identifiers the
  supply will hand out are unused.
\<close>

definition wf_world :: "world \<Rightarrow> bool" where
  "wf_world w \<longleftrightarrow>
     (\<forall>i r. dict_get (s_runs (w_store w)) i = Some r \<longrightarrow> r_id r = i)
   \<and> (\<forall>i j. dict_get (s_jobs (w_store w)) i = Some j \<longrightarrow> j_id j = i)
   \<and> (\<forall>n \<ge> w_supply w. dict_get (q_jobs (w_queue w)) (JobId n) = None)"

lemma enqueue_fresh_list:
  assumes "distinct (map j_id js)" and "\<forall>j \<in> set js. dict_get (q_jobs q) (j_id j) = None" and "j \<in> set js"
  shows "\<exists>k. dict_get (q_jobs (fold (\<lambda>j q. memq_enqueue q j) js q)) (j_id j) = Some k
             \<and> j_status k = JOB_QUEUED \<and> j_run_id k = j_run_id j"
  using assms
proof (induction js arbitrary: q)
  case (Cons i js)
  let ?q = "memq_enqueue q i"
  have stored: "dict_get (q_jobs ?q) k = (if k = j_id i then Some (rebuild i\<lparr>j_status := JOB_QUEUED\<rparr>) else dict_get (q_jobs q) k)" for k
    using Cons.prems(2) by (simp add: memq_enqueue_def Let_def add_ready_def)
  show ?case
  proof (cases "j \<in> set js")
    case True
    have "\<forall>j \<in> set js. dict_get (q_jobs ?q) (j_id j) = None"
      using Cons.prems(1,2) by (auto simp: stored) (metis imageI)
    with Cons.IH [of ?q] Cons.prems(1) True show ?thesis by simp
  next
    case False
    then have "j = i" using Cons.prems(3) by simp
    have "dict_get (q_jobs (fold (\<lambda>j q. memq_enqueue q j) js q')) k = dict_get (q_jobs q') k"
      if "k \<notin> j_id ` set js" for q' k
      using that
      by (induction js arbitrary: q') (auto simp: memq_enqueue_def Let_def add_ready_def)
    then show ?thesis using Cons.prems(1) \<open>j = i\<close> by (auto simp: stored)
  qed
qed simp

lemma settle_decision_Inr:
  assumes "settle_decision w m now = (w', Inr ())"
  obtains d js s where "m = Inr d" "enqueue_all (d_jobs d) now = Inr js" "persist_decision (w_store w) d js = Inr s"
    "w_store w' = s" "w_queue w' = fold (\<lambda>j q. memq_enqueue q j) js (w_queue w)"
    "w_bus w' = w_bus w @ drained_events d js" "w_supply w' = d_supply d"
  using assms
  by (auto simp: settle_decision_def bind_sum_def split: sum.splits)

lemma settle_decision_Inl: "settle_decision w m now = (w', Inl e) \<Longrightarrow> w' = w"
  by (auto simp: settle_decision_def split: sum.splits prod.splits)

lemma settle_progress:
  assumes wf: "wf_world w" and "settle_decision w (Inr d) now = (w', Inr ())"
    and sound: "sound_decision r (w_supply w) d"
    and progress: "run_is_terminal (r_status (d_run d)) \<or> d_jobs d \<noteq> []"
  shows "\<exists>r'. dict_get (s_runs (w_store w')) (r_id r) = Some r'
    \<and> (run_is_terminal (r_status r') \<or>
       (\<exists>j k. dict_get (s_jobs (w_store w')) (j_id j) = Some j \<and> j_run_id j = r_id r \<and> j_status j = JOB_QUEUED
            \<and> dict_get (q_jobs (w_queue w')) (j_id j) = Some k \<and> j_status k = JOB_QUEUED))"
proof -
  obtain js s where js: "enqueue_all (d_jobs d) now = Inr js" "persist_decision (w_store w) d js = Inr s"
      "w_store w' = s" "w_queue w' = fold (\<lambda>j q. memq_enqueue q j) js (w_queue w)"
    by (rule settle_decision_Inr [OF assms(2)]) auto
  have fresh: "fresh_jobs (r_id r) (w_supply w) (d_supply d) (d_jobs d)" and id: "r_id (d_run d) = r_id r"
    using sound by (simp_all add: sound_decision_def)
  have q: "map j_id js = map j_id (d_jobs d)" "\<forall>j \<in> set js. j_status j = JOB_QUEUED \<and> j_run_id j = r_id r \<and> j_lease j = None"
    using enqueue_all_fresh [OF fresh, of now] js(1) by auto
  have dist: "distinct (map j_id js)" using q(1) fresh by (simp add: fresh_jobs_def)
  have unused: "\<forall>j \<in> set js. dict_get (q_jobs (w_queue w)) (j_id j) = None"
  proof
    fix j assume "j \<in> set js"
    then have "j_id j \<in> j_id ` set (d_jobs d)" using q(1) by (metis imageI list.set_map)
    then obtain n where "w_supply w \<le> n" "j_id j = JobId n"
      using fresh by (auto simp: fresh_jobs_def fresh_job_def)
    then show "dict_get (q_jobs (w_queue w)) (j_id j) = None" using wf by (simp add: wf_world_def)
  qed
  have run: "dict_get (s_runs (w_store w')) (r_id r) = Some (run_row (d_run d))"
    using persist_decision_effect(1) [OF js(2)] id js(3) by simp
  show ?thesis
  proof (cases "d_jobs d = []")
    case True
    with progress run show ?thesis by (simp add: run_row_def)
  next
    case False
    then obtain j where j: "j \<in> set js" using q(1) by (cases js) auto
    have row: "dict_get (s_jobs (w_store w')) (j_id (job_row j)) = Some (job_row j)"
      using persist_decision_effect(2) [OF js(2) j dist] js(3) by (simp add: job_row_def)
    obtain k where "dict_get (q_jobs (w_queue w')) (j_id j) = Some k" "j_status k = JOB_QUEUED"
      using enqueue_fresh_list [OF dist unused j] js(4) by auto
    with row q(2) j run show ?thesis
      by (intro exI [of _ "run_row (d_run d)"] conjI disjI2 exI [of _ "job_row j"] exI [of _ k])
         (simp_all add: job_row_def)
  qed
qed

text \<open>The only decision that completes a run.\<close>

lemma passed_winner:
  assumes "passed \<noteq> []"
  shows "or_else (winner (selection_select passed)) (hd passed) \<in> set passed"
proof (cases "winner (selection_select passed)")
  case None
  with assms show ?thesis by simp
next
  case (Some w)
  let ?usable = "filter (\<lambda>c. \<not> candidate_is_terminal (c_status c) \<or> is_viable c) passed"
  have ne: "?usable \<noteq> []" and w: "w = hd (py_sorted_reverse selection_key ?usable)"
    using Some by (auto simp: selection_select_def Let_def split: if_splits)
  have "w \<in> set ?usable" unfolding w by (rule hd_py_sorted_reverse_in [OF ne])
  with Some show ?thesis by simp
qed

lemma review_completes:
  assumes "advance_review ws cfg p r cs now n = Inr d"
  shows "(\<exists>pool reason. repair_or_fail ws cfg r cs pool reason now n = Inr d) \<or>
    (d_jobs d = [] \<and> (\<exists>w \<in> set cs. c_review_verdict w = Some VERDICT_PASS
         \<and> (oc_integrate_on_success cfg \<longrightarrow> integrate ws p r w = Inr ())
         \<and> r_selected_candidate_id (d_run d) = Some (c_id w)
         \<and> (\<forall>c \<in> set (d_candidates d). if c_id c = c_id w then c_status c = CAND_SELECTED
                                       else candidate_is_terminal (c_status c))))"
proof (cases "filter (\<lambda>c. c_review_verdict c = Some VERDICT_PASS) (filter (\<lambda>c. c_review_verdict c \<noteq> None) cs) = []")
  case True
  then show ?thesis using assms by (auto simp: advance_review_def Let_def)
next
  case False
  let ?passed = "filter (\<lambda>c. c_review_verdict c = Some VERDICT_PASS) (filter (\<lambda>c. c_review_verdict c \<noteq> None) cs)"
  let ?w = "or_else (winner (selection_select ?passed)) (hd ?passed)"
  have w: "?w \<in> set cs" "c_review_verdict ?w = Some VERDICT_PASS"
    using passed_winner [OF False] by auto
  obtain w1 where parts:
    "oc_integrate_on_success cfg \<longrightarrow> integrate ws p r ?w = Inr ()"
    "settled (cand_select ?w now) = Inr w1"
    "settled (run_complete (run_select_candidate r (c_id ?w) (rationale (selection_select ?passed)) now) now (Some (c_id ?w)))
       = Inr (d_run d)"
    "d_jobs d = []"
    "d_candidates d = map (\<lambda>c. if c_id c \<noteq> c_id ?w then cand_reject c now ''another candidate was selected'' else w1) cs"
    using assms False unfolding advance_review_def Let_def
    by (auto simp: bind_sum_Inr_iff split: if_splits)
  have w1: "c_id w1 = c_id ?w" "c_status w1 = CAND_SELECTED"
    using parts(2) by (auto simp: settled_def cand_select_def split: if_splits)
  have sel: "r_selected_candidate_id (d_run d) = Some (c_id ?w)"
    using settled_fst [OF parts(3)] parts(3)
    by (auto simp: settled_def run_step_simps split: if_splits)
  have "if c_id c = c_id ?w then c_status c = CAND_SELECTED else candidate_is_terminal (c_status c)"
    if "c \<in> set (d_candidates d)" for c
    using that w1 by (auto simp: parts(5) cand_reject_def split: if_splits)
  with parts(1,4) sel w show ?thesis by blast
qed

lemma repair_not_completed:
  assumes "repair_or_fail ws cfg r cs pool reason now n = Inr d" and "\<not> run_is_terminal (r_status r)"
  shows "r_status (d_run d) \<noteq> RUN_COMPLETED"
  using assms(1)
proof (cases rule: repair_or_fail_cases)
  case (failed r0)
  then show ?thesis using settled_fst [OF failed(2)] assms(2) by (auto simp: run_step_simps)
next
  case (repaired target rest r1 target' j)
  then show ?thesis using run_status_after(2) [OF repaired(4)] by simp
qed

lemma candidates_not_completed:
  assumes "advance_candidates ws cfg p r cs now n = Inr d" and "\<not> run_is_terminal (r_status r)"
    and "r_status r \<noteq> RUN_REVIEWING"
  shows "r_status (d_run d) \<noteq> RUN_COMPLETED"
  using assms(1)
proof (cases rule: advance_candidates_cases)
  case (stages cs1)
  then show ?thesis using assms(2) run_status_after(3) [of r now "d_run d"] by (auto split: if_splits)
next
  case (waiting cs1)
  then show ?thesis using assms(2) by auto
next
  case (review cs1 n1 best j)
  then show ?thesis using assms(3) run_status_after(4) [of r "c_id best" now "d_run d"] by simp
next
  case (repair cs1 n1 pool)
  show ?thesis by (rule repair_not_completed [OF repair(5) assms(2)])
qed

lemma coding_not_completed:
  assumes "bind_sum (settled (run_start_coding r now)) (\<lambda>r1. open_candidates ws cfg p r1 cs now n) = Inr d"
  shows "r_status (d_run d) \<noteq> RUN_COMPLETED"
proof -
  obtain r1 where r1: "settled (run_start_coding r now) = Inr r1" "open_candidates ws cfg p r1 cs now n = Inr d"
    using assms by (auto simp: bind_sum_Inr_iff)
  show ?thesis using run_status_after(2) [OF r1(1)] open_candidates_sound [OF r1(2)] by simp
qed

lemma only_review_completes:
  assumes "decide_step ws cfg p r cs now n = Inr d" and "\<not> run_is_terminal (r_status r)"
    and "r_status (d_run d) = RUN_COMPLETED"
  shows "r_status r = RUN_REVIEWING"
proof (rule ccontr)
  assume other: "r_status r \<noteq> RUN_REVIEWING"
  have "open_first_stage ws cfg p r cs now n \<noteq> Inr d"
    using assms(3) coding_not_completed [of r now ws cfg p cs n d] run_status_after(1) [of r now]
    by (auto simp: open_first_stage_def bind_sum_Inr_iff)
  moreover have "advance_candidates ws cfg p r cs now n \<noteq> Inr d"
    using candidates_not_completed [OF _ assms(2) other] assms(3) by blast
  ultimately show False
    using assms other coding_not_completed [of r now ws cfg p cs n d]
    by (auto simp: decide_step_def split: if_splits)
qed

text \<open>The stages of a list run in its order.\<close>

definition stage_ok :: "project \<Rightarrow> validation_report \<Rightarrow> job_type \<Rightarrow> bool" where
  "stage_ok p v e \<longleftrightarrow> stage_outcome v e \<noteq> Some False \<and> (stage_is_configured p e \<longrightarrow> stage_outcome v e = Some True)"

lemma next_stage_from_Some:
  assumes "distinct stages"
  shows "next_stage_from p v stages = Some st \<longleftrightarrow> st \<in> set stages \<and> stage_is_configured p st
    \<and> stage_outcome v st = None \<and> (\<forall>e \<in> set (takeWhile (\<lambda>x. x \<noteq> st) stages). stage_ok p v e)"
  using assms
proof (induction stages)
  case (Cons a stages)
  show ?case
  proof (cases "stage_ok p v a")
    case True
    then show ?thesis using Cons by (cases "st = a") (auto simp: stage_ok_def)
  next
    case False
    then show ?thesis
      by (cases "stage_outcome v a"; cases "st = a") (auto simp: stage_ok_def)
  qed
qed simp

lemma next_stage_from_None:
  "next_stage_from p v stages = None \<longleftrightarrow>
     (\<exists>e \<in> set stages. stage_outcome v e = Some False \<and> (\<forall>x \<in> set (takeWhile (\<lambda>x. x \<noteq> e) stages). stage_ok p v x))
     \<or> (\<forall>e \<in> set stages. stage_ok p v e)"
proof (induction stages)
  case (Cons a stages)
  show ?case
  proof (cases "stage_ok p v a")
    case True
    then show ?thesis using Cons by (auto simp: stage_ok_def)
  next
    case False
    then show ?thesis
      by (cases "stage_outcome v a") (auto simp: stage_ok_def)
  qed
qed simp

text \<open>A run that codes, without any validation command, whose candidates produced nothing.\<close>

lemma no_stage_configured:
  assumes "\<forall>st \<in> set VALIDATION_STAGES. \<not> stage_is_configured p st"
  shows "next_stage p v = None"
  using assms by (auto simp: next_stage_def VALIDATION_STAGES_def)

definition validated :: "orchestrator_config \<Rightarrow> moment \<Rightarrow> candidate \<Rightarrow> candidate" where
  "validated cfg now c = fst (cand_record_validation c now None (oc_static_analysis_is_blocking cfg))"

lemma push_without_stages:
  assumes "\<forall>st \<in> set VALIDATION_STAGES. \<not> stage_is_configured p st"
    and "\<forall>c \<in> set cs. c_status c = CAND_VALIDATING"
  shows "push_candidates cfg p r now n cs = Inr (map (validated cfg now) cs, [], n)"
  using assms(2)
  by (induction cs)
     (simp_all add: no_stage_configured [OF assms(1)] cand_record_validation_def validated_def Let_def)

lemma validated_simps:
  "c_status c = CAND_VALIDATING \<Longrightarrow> c_status (validated cfg now c) = CAND_VALIDATED"
  "c_status c = CAND_VALIDATING \<Longrightarrow> c_patch (validated cfg now c) = c_patch c"
  by (simp_all add: validated_def cand_record_validation_def Let_def)

definition nothing_produced :: "candidate \<Rightarrow> bool" where
  "nothing_produced c \<longleftrightarrow> c_status c = CAND_VALIDATING
     \<and> (case c_patch c of None \<Rightarrow> True | Some pt \<Rightarrow> patch_is_empty pt)"

lemma empty_patches_raise:
  assumes "\<forall>st \<in> set VALIDATION_STAGES. \<not> stage_is_configured p st" and "r_status r = RUN_CODING" and "can_repair r"
    and "cs \<noteq> []" and "\<forall>c \<in> set cs. nothing_produced c"
  shows "decide_step ws cfg p r cs now n = Inl (InvalidStateTransitionError ''Run'' ''CODING'' ''REPAIRING'')"
proof -
  have st: "\<forall>c \<in> set cs. c_status c = CAND_VALIDATING" using assms(5) by (simp add: nothing_produced_def)
  let ?cs = "map (validated cfg now) cs"
  have pool: "filter (\<lambda>c. c_status c = CAND_VALIDATED) ?cs = ?cs"
    using st by (auto simp: validated_simps)
  have none: "selection_viable ?cs = []"
    using assms(5) by (auto simp: selection_viable_def filter_empty_conv is_viable_def nothing_produced_def
        validated_simps split: option.splits)
  obtain c cs' where "?cs = c # cs'" using assms(4) by (cases cs) simp_all
  then have "repair_or_fail ws cfg r ?cs ?cs reason now n =
      Inl (InvalidStateTransitionError ''Run'' ''CODING'' ''REPAIRING'')" for reason
    using assms(2,3) by (simp add: repair_or_fail_def Let_def run_step_simps run_can_def allowed_from_def)
  then show ?thesis
    unfolding decide_step_def advance_candidates_def
      push_without_stages [OF assms(1) st] bind_sum_simps split_conv Let_def pool none
    using assms(2,4) by simp
qed

abbreviation demo_workspaces :: workspaces where
  "demo_workspaces \<equiv> \<lparr>ws_create = (\<lambda>_ _ _. Inr (WorkspaceId 1)), ws_exists = (\<lambda>_. True),
     ws_integrate = (\<lambda>_ _ _ _. Inr ''rev''), ws_release_run = (\<lambda>_. Inr ())\<rparr>"

abbreviation demo_project :: project where
  "demo_project \<equiv> \<lparr>pj_id = ProjectId 3, pj_name = ''p'', pj_repository_url = Some ''u'', pj_default_branch = ''main'',
     pj_created_at = 0, pj_toolchain = default_toolchain, pj_local_path = None, pj_metadata = []\<rparr>"

abbreviation demo_world :: "run \<Rightarrow> candidate list \<Rightarrow> world" where
  "demo_world r cs \<equiv> \<lparr>w_store = \<lparr>s_projects = [(ProjectId 3, demo_project)], s_runs = [(RunId 2, r)], s_jobs = [],
       s_candidates = map (\<lambda>c. (c_id c, c)) cs, s_plans = [], s_reviews = [], s_tool_results = [], s_events = []\<rparr>,
     w_queue = memq_empty, w_bus = [], w_supply = 10\<rparr>"

abbreviation demo_stored_run :: run where
  "demo_stored_run \<equiv> run_row demo_run"

section \<open>Properties\<close>

text \<open>
  Where \<open>_advance\<close> has nothing to do although no job is open: it takes no decision on a run in planning, and of a run that is coding,
  validating or repairing it looks only at candidates in or past validation.
\<close>

definition stalled :: "run \<Rightarrow> candidate list \<Rightarrow> bool" where
  "stalled r cs \<longleftrightarrow> r_status r = RUN_PLANNING
     \<or> (r_status r \<in> {RUN_CODING, RUN_VALIDATING, RUN_REPAIRING} \<and> (\<forall>c \<in> set cs. c_status c \<notin> {CAND_VALIDATING, CAND_VALIDATED}))"

lemma due_or_stalled:
  assumes "\<not> run_is_terminal (r_status r)" and "\<not> is_cancelling_or_cancelled (r_status r)" and "1 \<le> r_candidate_count r"
  shows "due r cs \<longleftrightarrow> \<not> stalled r cs"
  using assms by (cases "r_status r") (auto simp: due_def stalled_def)

lemma push_candidates_idle:
  "\<forall>c \<in> set cs. c_status c \<noteq> CAND_VALIDATING \<Longrightarrow> push_candidates cfg p r now n cs = Inr (cs, [], n)"
  by (induction cs) simp_all

lemma decide_step_stalled:
  "stalled r cs \<Longrightarrow> decide_step ws cfg p r cs now n = Inr \<lparr>d_run = r, d_candidates = cs, d_added = [], d_jobs = [], d_supply = n\<rparr>"
  by (auto simp: stalled_def decide_step_def advance_candidates_def push_candidates_idle filter_empty_conv Let_def)

lemma settle_nothing:
  assumes "settle_decision w (Inr \<lparr>d_run = r, d_candidates = cs, d_added = [], d_jobs = [], d_supply = n\<rparr>) now = (w', Inr ())"
  shows "s_jobs (w_store w') = s_jobs (w_store w) \<and> w_queue w' = w_queue w
    \<and> (\<exists>r'. dict_get (s_runs (w_store w')) (r_id r) = Some r' \<and> r_status r' = r_status r)"
proof -
  obtain d js s where d: "Inr \<lparr>d_run = r, d_candidates = cs, d_added = [], d_jobs = [], d_supply = n\<rparr> = (Inr d :: error + decision)"
      "enqueue_all (d_jobs d) now = Inr js" "persist_decision (w_store w) d js = Inr s" "w_store w' = s"
      "w_queue w' = fold (\<lambda>j q. memq_enqueue q j) js (w_queue w)"
    by (rule settle_decision_Inr [OF assms]) auto
  then have parts: "d_run d = r" "d_added d = []" "js = []" by (auto simp: enqueue_all_def)
  have "s_jobs s = s_jobs (w_store w)"
    using d(3) parts by (auto simp: persist_decision_def bind_sum_Inr_iff runs_update_def commit_def dest: update_candidates_frame split: if_splits)
  moreover have "dict_get (s_runs s) (r_id r) = Some (run_row r)" using persist_decision_effect(1) [OF d(3)] parts by simp
  ultimately show ?thesis using d(4,5) parts by (simp add: run_row_def)
qed

text \<open>
  C10. What \<open>_advance\<close> does with a live run that has no unfinished job. It raises and leaves the world exactly as it was; or the run is
  in planning, or is coding, validating or repairing without a candidate in or past validation, and then, and only then, nothing is
  scheduled: no job is stored or published and the run keeps its status; or afterwards the stored run has reached a terminal status or
  a new job of it is stored as QUEUED and published as QUEUED on the queue. (A run has at least one candidate slot: its limits say so.)
\<close>

theorem advance_never_strands_a_run:
  assumes "wf_world w" and "dict_get (s_runs (w_store w)) rid = Some r"
    and "dict_get (s_projects (w_store w)) (r_project_id r) = Some p"
    and "\<not> run_is_terminal (r_status r)" and "\<not> is_cancelling_or_cancelled (r_status r)" and "1 \<le> r_candidate_count r"
    and "\<not> has_unfinished (jobs_list_by_run (w_store w) rid)"
    and "advance ws cfg w rid now = (w', res)"
  shows "case res of
      Inl e \<Rightarrow> w' = w
    | Inr _ \<Rightarrow>
        if stalled r (candidates_list_by_run (w_store w) rid)
        then s_jobs (w_store w') = s_jobs (w_store w) \<and> w_queue w' = w_queue w
          \<and> (\<exists>r'. dict_get (s_runs (w_store w')) rid = Some r' \<and> r_status r' = r_status r)
        else (\<exists>r'. dict_get (s_runs (w_store w')) rid = Some r'
          \<and> (run_is_terminal (r_status r') \<or>
             (\<exists>j k. dict_get (s_jobs (w_store w')) (j_id j) = Some j \<and> j_run_id j = rid \<and> j_status j = JOB_QUEUED
                  \<and> dict_get (q_jobs (w_queue w')) (j_id j) = Some k \<and> j_status k = JOB_QUEUED)))"
proof -
  let ?cs = "candidates_list_by_run (w_store w) rid"
  have run: "settle_decision w (decide_step ws cfg p r ?cs now (w_supply w)) now = (w', res)"
    using assms(2-5,7,8) by (simp add: advance_def)
  have id: "r_id r = rid" using assms(1,2) by (simp add: wf_world_def)
  show ?thesis
  proof (cases res)
    case (Inl e)
    with run show ?thesis by (simp add: settle_decision_Inl)
  next
    case (Inr u)
    with run have ok: "settle_decision w (decide_step ws cfg p r ?cs now (w_supply w)) now = (w', Inr ())" by simp
    show ?thesis
    proof (cases "stalled r ?cs")
      case True
      with ok settle_nothing [of w r ?cs "w_supply w" now w'] id Inr show ?thesis by (simp add: decide_step_stalled)
    next
      case False
      then have "due r ?cs" using due_or_stalled assms(4-6) by blast
      obtain d where d: "decide_step ws cfg p r ?cs now (w_supply w) = Inr d" by (rule settle_decision_Inr [OF ok])
      then have "settle_decision w (Inr d) now = (w', Inr ())" using ok by simp
      from settle_progress [OF assms(1) this, of r] decide_step_progress [OF d \<open>due r ?cs\<close>] id Inr False show ?thesis by simp
    qed
  qed
qed

theorem advance_never_strands_a_run_witness:
  "\<exists>w'. advance demo_workspaces default_orchestrator_config (demo_world demo_stored_run []) (RunId 2) 5 = (w', Inr ())
     \<and> (\<exists>r'. dict_get (s_runs (w_store w')) (RunId 2) = Some r'
        \<and> (run_is_terminal (r_status r') \<or>
           (\<exists>j k. dict_get (s_jobs (w_store w')) (j_id j) = Some j \<and> j_run_id j = RunId 2 \<and> j_status j = JOB_QUEUED
                \<and> dict_get (q_jobs (w_queue w')) (j_id j) = Some k \<and> j_status k = JOB_QUEUED)))"
proof -
  let ?w = "demo_world demo_stored_run []"
  obtain w' where w': "advance demo_workspaces default_orchestrator_config ?w (RunId 2) 5 = (w', Inr ())"
    by (simp add: advance_def has_unfinished_def jobs_list_by_run_def decide_step_def open_first_stage_def
        requires_plan_def run_step_simps run_row_def new_job_def job_create_def mk_job_def settle_decision_def
        enqueue_all_def job_enqueue_def persist_decision_def runs_update_def jobs_add_def
        candidates_list_by_run_def default_orchestrator_config_def)
  have pre: "wf_world ?w" "dict_get (s_runs (w_store ?w)) (RunId 2) = Some demo_stored_run"
    "dict_get (s_projects (w_store ?w)) (r_project_id demo_stored_run) = Some demo_project"
    "\<not> run_is_terminal (r_status demo_stored_run)" "\<not> is_cancelling_or_cancelled (r_status demo_stored_run)"
    "1 \<le> r_candidate_count demo_stored_run"
    "\<not> has_unfinished (jobs_list_by_run (w_store ?w) (RunId 2))"
    by (auto simp: wf_world_def run_row_def has_unfinished_def jobs_list_by_run_def memq_empty_def)
  have "\<not> stalled demo_stored_run (candidates_list_by_run (w_store ?w) (RunId 2))" by (simp add: stalled_def run_row_def)
  with advance_never_strands_a_run [OF pre w'] w' show ?thesis by auto
qed

text \<open>
  C11. Only a reviewed candidate completes a run. If a decision on a live run makes it COMPLETED, the run was in
  review and one of its candidates carries the reviewer's PASS; that candidate has been integrated (when the
  configuration asks for it) and is recorded as the selected one; it ends SELECTED and every other candidate
  ends in a terminal status; and no further job is scheduled.
\<close>

theorem completed_only_on_review_pass:
  assumes "decide_step ws cfg p r cs now n = Inr d" and "\<not> run_is_terminal (r_status r)"
    and "r_status (d_run d) = RUN_COMPLETED"
  shows "r_status r = RUN_REVIEWING \<and> d_jobs d = []
    \<and> (\<exists>w \<in> set cs. c_review_verdict w = Some VERDICT_PASS
         \<and> (oc_integrate_on_success cfg \<longrightarrow> integrate ws p r w = Inr ())
         \<and> r_selected_candidate_id (d_run d) = Some (c_id w)
         \<and> (\<forall>c \<in> set (d_candidates d). if c_id c = c_id w then c_status c = CAND_SELECTED
                                       else candidate_is_terminal (c_status c)))"
proof -
  have "r_status r = RUN_REVIEWING" by (rule only_review_completes [OF assms])
  then have review: "advance_review ws cfg p r cs now n = Inr d" using assms(1) by (simp add: decide_step_def)
  show ?thesis
    using review_completes [OF review] repair_not_completed [OF _ assms(2)] assms(3) \<open>r_status r = RUN_REVIEWING\<close>
    by blast
qed

theorem completed_only_on_review_pass_witness:
  "\<exists>d. decide_step demo_workspaces default_orchestrator_config demo_project (demo_stored_run\<lparr>r_status := RUN_REVIEWING\<rparr>)
        [(demo_candidate 0 (demo_report 0))\<lparr>c_workspace_id := Some (WorkspaceId 1), c_review_verdict := Some VERDICT_PASS\<rparr>]
        9 10 = Inr d
     \<and> r_status (d_run d) = RUN_COMPLETED \<and> r_selected_candidate_id (d_run d) = Some (CandidateId 7)"
proof -
  let ?r = "demo_stored_run\<lparr>r_status := RUN_REVIEWING\<rparr>"
  let ?c = "(demo_candidate 0 (demo_report 0))\<lparr>c_workspace_id := Some (WorkspaceId 1), c_review_verdict := Some VERDICT_PASS\<rparr>"
  have v: "\<forall>c \<in> set [?c]. is_viable c"
    using demo_candidate_viable(1) [of 0] by (simp add: is_viable_def)
  have win: "winner (selection_select [?c]) = Some ?c"
    by (rule selection_all_viable [OF _ v]) simp_all
  obtain d where d: "decide_step demo_workspaces default_orchestrator_config demo_project ?r [?c] 9 10 = Inr d"
      "r_status (d_run d) = RUN_COMPLETED"
    using win by (simp add: decide_step_def advance_review_def Let_def run_row_def integrate_def require_workspace_def
        cand_select_def run_step_simps default_orchestrator_config_def)
  have live: "\<not> run_is_terminal (r_status ?r)" by simp
  show ?thesis
    using completed_only_on_review_pass [OF d(1) live d(2)] d by auto
qed

text \<open>
  Deterministic validation runs in the order build, tests, static analysis. The next stage is the first
  configured one that has not run, provided every stage before it either passed or is not configured and did
  not fail; validation ends when a stage has failed or every configured stage has passed.
\<close>

theorem validation_stages_in_order:
  "(next_stage p v = Some st \<longleftrightarrow>
      st \<in> set [BUILD, TEST, STATIC_ANALYSIS] \<and> stage_is_configured p st \<and> stage_outcome v st = None
      \<and> (\<forall>e \<in> set (takeWhile (\<lambda>x. x \<noteq> st) [BUILD, TEST, STATIC_ANALYSIS]).
           stage_outcome v e \<noteq> Some False \<and> (stage_is_configured p e \<longrightarrow> stage_outcome v e = Some True)))
   \<and> (next_stage p v = None \<longleftrightarrow>
        (\<exists>e \<in> set [BUILD, TEST, STATIC_ANALYSIS]. stage_outcome v e = Some False
            \<and> (\<forall>x \<in> set (takeWhile (\<lambda>x. x \<noteq> e) [BUILD, TEST, STATIC_ANALYSIS]).
                 stage_outcome v x \<noteq> Some False \<and> (stage_is_configured p x \<longrightarrow> stage_outcome v x = Some True)))
        \<or> (\<forall>e \<in> set [BUILD, TEST, STATIC_ANALYSIS].
             stage_outcome v e \<noteq> Some False \<and> (stage_is_configured p e \<longrightarrow> stage_outcome v e = Some True)))"
  using next_stage_from_Some [of "[BUILD, TEST, STATIC_ANALYSIS]" p v st]
    next_stage_from_None [of p v "[BUILD, TEST, STATIC_ANALYSIS]"]
  unfolding next_stage_def VALIDATION_STAGES_def stage_ok_def by (intro conjI) simp_all

theorem validation_stages_in_order_witness:
  "next_stage (demo_project\<lparr>pj_toolchain := default_toolchain\<lparr>build_command := Some ''make''\<rparr>\<rparr>) empty_report = Some BUILD"
  using validation_stages_in_order [of "demo_project\<lparr>pj_toolchain := default_toolchain\<lparr>build_command := Some ''make''\<rparr>\<rparr>"
      empty_report BUILD]
  by (simp add: default_toolchain_def nonempty_def empty_report_def)

text \<open>
  A run can get stuck in CODING. When the project configures no validation command and the coder produced
  only empty patches, the decision asks for a repair straight from CODING, which the transition table does not
  allow: \<open>_advance\<close> raises \<open>InvalidStateTransitionError\<close> and nothing is stored, so that the next call, and
  every call after it, does the same while the repair budget is untouched.
\<close>

theorem advance_stuck_on_empty_patches:
  assumes "dict_get (s_runs (w_store w)) rid = Some r"
    and "dict_get (s_projects (w_store w)) (r_project_id r) = Some p"
    and "\<not> has_unfinished (jobs_list_by_run (w_store w) rid)"
    and "\<forall>st \<in> set VALIDATION_STAGES. \<not> stage_is_configured p st"
    and "r_status r = RUN_CODING" and "r_repair_iterations r < max_repair_iterations (r_limits r)"
    and "candidates_list_by_run (w_store w) rid \<noteq> []"
    and "\<forall>c \<in> set (candidates_list_by_run (w_store w) rid). nothing_produced c"
  shows "advance ws cfg w rid now = (w, Inl (InvalidStateTransitionError ''Run'' ''CODING'' ''REPAIRING''))"
proof -
  have "can_repair r" using assms(6) by (simp add: can_repair_def)
  from empty_patches_raise [OF assms(4,5) this assms(7,8)] assms(1-3,5) show ?thesis
    by (simp add: advance_def settle_decision_def)
qed

theorem advance_stuck_on_empty_patches_witness:
  "let c = (demo_candidate 0 empty_report)\<lparr>c_status := CAND_VALIDATING, c_patch := None\<rparr>;
       w = demo_world (demo_stored_run\<lparr>r_status := RUN_CODING\<rparr>) [c]
   in advance demo_workspaces default_orchestrator_config w (RunId 2) 9 =
        (w, Inl (InvalidStateTransitionError ''Run'' ''CODING'' ''REPAIRING''))"
  unfolding Let_def
  by (rule advance_stuck_on_empty_patches [of _ _ "demo_stored_run\<lparr>r_status := RUN_CODING\<rparr>" demo_project])
     (simp_all add: run_row_def has_unfinished_def jobs_list_by_run_def VALIDATION_STAGES_def default_toolchain_def
        nonempty_def default_run_limits_def candidates_list_by_run_def nothing_produced_def)

end
