(* ===== verification/Worker.thy ===== *)
theory Worker
  imports Values
begin

text \<open>
  The GPU worker aggregate (\<open>src/src/domain/entities/worker.py\<close>): eligibility, heartbeats,
  draining, loss and the slot accounting the scheduler relies on between heartbeats.
\<close>

section \<open>State\<close>

record worker =
  w_id :: worker_id
  w_endpoint :: worker_endpoint
  w_capabilities :: worker_capabilities
  w_registered_at :: moment
  w_status :: worker_status
  w_load :: worker_load
  w_last_heartbeat_at :: moment
  w_metadata :: json_object
  w_events :: "event list"

definition worker_record :: "event \<Rightarrow> worker \<Rightarrow> worker" where
  "worker_record e w = w\<lparr>w_events := record_event (w_events w) e\<rparr>"

definition worker_register ::
  "worker_id \<Rightarrow> worker_endpoint \<Rightarrow> worker_capabilities \<Rightarrow> moment \<Rightarrow> json_object \<Rightarrow> worker" where
  "worker_register wid ep caps now meta =
     worker_record (WorkerRegistered now wid (model_id caps) (endpoint_url ep) (max_concurrency caps))
       \<lparr>w_id = wid, w_endpoint = ep, w_capabilities = caps, w_registered_at = now, w_status = READY,
        w_load = no_load, w_last_heartbeat_at = now, w_metadata = meta, w_events = []\<rparr>"

definition available_slots :: "worker \<Rightarrow> int" where
  "available_slots w = max (max_concurrency (w_capabilities w) - active_jobs (w_load w)) 0"

text \<open>\<open>utilization\<close>, with the float quotient taken as the exact rational.\<close>

definition utilization :: "worker \<Rightarrow> rat" where
  "utilization w = of_int (active_jobs (w_load w)) / of_int (max_concurrency (w_capabilities w))"

section \<open>Eligibility\<close>

definition is_stale :: "worker \<Rightarrow> moment \<Rightarrow> duration \<Rightarrow> bool" where
  "is_stale w now timeout \<longleftrightarrow> now - w_last_heartbeat_at w > timeout"

definition can_accept :: "worker \<Rightarrow> job_requirements \<Rightarrow> bool" where
  "can_accept w req =
     (let caps = w_capabilities w in
      if \<not> accepts_new_jobs (w_status w) then False
      else if available_slots w \<le> 0 then False
      else if \<not> supports_role caps (req_role req) then False
      else if req_model_id req \<noteq> None \<and> req_model_id req \<noteq> Some (model_id caps) then False
      else if requires_tools req \<and> \<not> supports_tools caps then False
      else if requires_json_schema req \<and> \<not> supports_json_schema caps then False
      else fits caps (estimated_prompt_tokens req))"

definition rejection_reason :: "worker \<Rightarrow> job_requirements \<Rightarrow> string option" where
  "rejection_reason w req =
     (let caps = w_capabilities w in
      if \<not> accepts_new_jobs (w_status w) then Some (''status='' @ worker_status_value (w_status w))
      else if available_slots w \<le> 0 then Some ''at capacity''
      else if \<not> supports_role caps (req_role req)
      then Some (''role '' @ agent_role_value (req_role req) @ '' unsupported'')
      else if req_model_id req \<noteq> None \<and> req_model_id req \<noteq> Some (model_id caps)
      then Some (''model '' @ model_id caps @ '' != '' @ the (req_model_id req))
      else if requires_tools req \<and> \<not> supports_tools caps then Some ''tool calling unsupported''
      else if requires_json_schema req \<and> \<not> supports_json_schema caps
      then Some ''structured output unsupported''
      else if \<not> fits caps (estimated_prompt_tokens req) then Some (''prompt exceeds context length '' @ show_int (context_length caps))
      else None)"

section \<open>Lifecycle\<close>

definition worker_transition :: "worker \<Rightarrow> worker_status \<Rightarrow> moment \<Rightarrow> worker" where
  "worker_transition w target now =
     (if w_status w = target then w
      else worker_record (WorkerStatusChanged now (w_id w) (w_status w) target) (w\<lparr>w_status := target\<rparr>))"

definition sync_busy :: "worker \<Rightarrow> worker" where
  "sync_busy w =
     (if w_status w \<notin> {READY, BUSY} then w
      else w\<lparr>w_status := (if available_slots w = 0 then BUSY else READY)\<rparr>)"

definition worker_heartbeat ::
  "worker \<Rightarrow> moment \<Rightarrow> worker_status option \<Rightarrow> worker_load option \<Rightarrow> worker_capabilities option \<Rightarrow> worker" where
  "worker_heartbeat w now status load caps =
     (let w1 = w\<lparr>w_last_heartbeat_at := now,
                 w_capabilities := or_else caps (w_capabilities w),
                 w_load := or_else load (w_load w)\<rparr>;
          w2 = (if status \<noteq> None \<and> status \<noteq> Some (w_status w1)
                then worker_transition w1 (the status) now
                else if w_status w1 \<in> {OFFLINE, UNHEALTHY} then worker_transition w1 READY now
                else w1);
          w3 = sync_busy w2
      in worker_record (WorkerHeartbeatReceived now (w_id w3) (w_status w3) (active_jobs (w_load w3))) w3)"

definition worker_start_draining :: "worker \<Rightarrow> moment \<Rightarrow> (worker, unit) result" where
  "worker_start_draining w now =
     (if w_status w = DRAINING then (w, Inr ())
      else if w_status w \<in> {OFFLINE, UNHEALTHY}
      then (w, Inl (InvalidStateTransitionError ''Worker'' (worker_status_value (w_status w))
                      (worker_status_value DRAINING)))
      else (worker_record (WorkerDraining now (w_id w) (active_jobs (w_load w)))
              (worker_transition w DRAINING now), Inr ()))"

definition worker_mark_unavailable :: "worker \<Rightarrow> moment \<Rightarrow> string \<Rightarrow> worker" where
  "worker_mark_unavailable w now reason =
     (if w_status w = OFFLINE then w
      else worker_record (WorkerUnavailable now (w_id w) reason) (worker_transition w OFFLINE now))"

definition worker_mark_unhealthy :: "worker \<Rightarrow> moment \<Rightarrow> string \<Rightarrow> worker" where
  "worker_mark_unhealthy w now reason =
     (if w_status w = UNHEALTHY then w
      else worker_record (WorkerUnavailable now (w_id w) reason) (worker_transition w UNHEALTHY now))"

definition worker_deregister :: "worker \<Rightarrow> moment \<Rightarrow> bool \<Rightarrow> worker" where
  "worker_deregister w now graceful =
     worker_record (WorkerDeregistered now (w_id w) graceful)
       (if w_status w \<noteq> OFFLINE then worker_transition w OFFLINE now else w)"

definition is_drained :: "worker \<Rightarrow> bool" where
  "is_drained w \<longleftrightarrow> w_status w = DRAINING \<and> active_jobs (w_load w) = 0"

section \<open>Occupancy\<close>

definition worker_reserve_slot :: "worker \<Rightarrow> job_requirements \<Rightarrow> (worker, unit) result" where
  "worker_reserve_slot w req =
     (if \<not> can_accept w req then (w, Inl (WorkerUnavailableError (w_id w) (Some (w_status w))))
      else
        (case mk_worker_load (active_jobs (w_load w) + 1) (queued_jobs (w_load w)) of
           Inl e \<Rightarrow> (w, Inl e)
         | Inr l \<Rightarrow> (sync_busy (w\<lparr>w_load := l\<rparr>), Inr ())))"

definition worker_release_slot :: "worker \<Rightarrow> (worker, unit) result" where
  "worker_release_slot w =
     (case mk_worker_load (max (active_jobs (w_load w) - 1) 0) (queued_jobs (w_load w)) of
        Inl e \<Rightarrow> (w, Inl e)
      | Inr l \<Rightarrow> (sync_busy (w\<lparr>w_load := l\<rparr>), Inr ()))"

lemmas worker_ops = worker_register_def worker_heartbeat_def worker_start_draining_def
  worker_mark_unavailable_def worker_mark_unhealthy_def worker_deregister_def
  worker_reserve_slot_def worker_release_slot_def

lemma worker_record_simps [simp]:
  "w_id (worker_record e w) = w_id w" "w_endpoint (worker_record e w) = w_endpoint w"
  "w_capabilities (worker_record e w) = w_capabilities w"
  "w_registered_at (worker_record e w) = w_registered_at w"
  "w_status (worker_record e w) = w_status w" "w_load (worker_record e w) = w_load w"
  "w_last_heartbeat_at (worker_record e w) = w_last_heartbeat_at w"
  "w_metadata (worker_record e w) = w_metadata w"
  "w_events (worker_record e w) = w_events w @ [e]"
  "available_slots (worker_record e w) = available_slots w"
  by (simp_all add: worker_record_def record_event_def available_slots_def)

lemma worker_transition_simps [simp]:
  "w_id (worker_transition w s now) = w_id w" "w_endpoint (worker_transition w s now) = w_endpoint w"
  "w_capabilities (worker_transition w s now) = w_capabilities w"
  "w_status (worker_transition w s now) = s" "w_load (worker_transition w s now) = w_load w"
  "w_last_heartbeat_at (worker_transition w s now) = w_last_heartbeat_at w"
  "w_registered_at (worker_transition w s now) = w_registered_at w"
  "w_metadata (worker_transition w s now) = w_metadata w"
  "available_slots (worker_transition w s now) = available_slots w"
  by (simp_all add: worker_transition_def available_slots_def)

lemma sync_busy_simps [simp]:
  "w_id (sync_busy w) = w_id w" "w_endpoint (sync_busy w) = w_endpoint w"
  "w_capabilities (sync_busy w) = w_capabilities w" "w_load (sync_busy w) = w_load w"
  "w_last_heartbeat_at (sync_busy w) = w_last_heartbeat_at w"
  "w_registered_at (sync_busy w) = w_registered_at w" "w_metadata (sync_busy w) = w_metadata w"
  "w_events (sync_busy w) = w_events w"
  "available_slots (sync_busy w) = available_slots w"
  by (simp_all add: sync_busy_def available_slots_def)

lemma sync_busy_status:
  "w_status (sync_busy w) =
     (if w_status w \<in> {READY, BUSY} then (if available_slots w = 0 then BUSY else READY) else w_status w)"
  by (simp add: sync_busy_def)

lemma available_slots_nonneg [simp]: "0 \<le> available_slots w"
  by (simp add: available_slots_def)

lemma can_accept_iff:
  "can_accept w req \<longleftrightarrow>
     accepts_new_jobs (w_status w) \<and> 0 < available_slots w
   \<and> supports_role (w_capabilities w) (req_role req)
   \<and> (req_model_id req = None \<or> req_model_id req = Some (model_id (w_capabilities w)))
   \<and> (requires_tools req \<longrightarrow> supports_tools (w_capabilities w))
   \<and> (requires_json_schema req \<longrightarrow> supports_json_schema (w_capabilities w))
   \<and> fits (w_capabilities w) (estimated_prompt_tokens req)"
  by (auto simp: can_accept_def Let_def)

section \<open>Invariant\<close>

definition wf_worker :: "worker \<Rightarrow> bool" where
  "wf_worker w \<longleftrightarrow>
     wf_capabilities (w_capabilities w) \<and> wf_load (w_load w)
   \<and> (w_status w = BUSY \<longrightarrow> available_slots w = 0)
   \<and> (w_status w = READY \<longrightarrow> 0 < available_slots w)"

datatype worker_action =
    Heartbeat "worker_status option" "worker_load option" "worker_capabilities option"
  | Start_Draining
  | Mark_Unavailable string
  | Mark_Unhealthy string
  | Deregister bool
  | Reserve_Slot job_requirements
  | Release_Slot

fun worker_apply :: "worker \<Rightarrow> moment \<Rightarrow> worker_action \<Rightarrow> worker" where
  "worker_apply w now (Heartbeat s l c) = worker_heartbeat w now s l c"
| "worker_apply w now Start_Draining = fst (worker_start_draining w now)"
| "worker_apply w now (Mark_Unavailable r) = worker_mark_unavailable w now r"
| "worker_apply w now (Mark_Unhealthy r) = worker_mark_unhealthy w now r"
| "worker_apply w now (Deregister g) = worker_deregister w now g"
| "worker_apply w now (Reserve_Slot req) = fst (worker_reserve_slot w req)"
| "worker_apply w now Release_Slot = fst (worker_release_slot w)"

text \<open>Loads and capabilities reach a worker only through their checking constructors.\<close>

fun worker_input :: "worker_action \<Rightarrow> bool" where
  "worker_input (Heartbeat s l c) =
     ((case l of None \<Rightarrow> True | Some l \<Rightarrow> wf_load l) \<and> (case c of None \<Rightarrow> True | Some c \<Rightarrow> wf_capabilities c))"
| "worker_input _ = True"

inductive worker_reachable :: "worker \<Rightarrow> bool" where
  registered: "wf_capabilities caps \<Longrightarrow> worker_reachable (worker_register wid ep caps now meta)"
| step: "worker_reachable w \<Longrightarrow> worker_input a \<Longrightarrow> worker_reachable (worker_apply w now a)"

lemma wf_worker_register: "wf_capabilities caps \<Longrightarrow> wf_worker (worker_register wid ep caps now meta)"
  by (simp add: wf_worker_def worker_register_def wf_load_def no_load_def available_slots_def
      wf_capabilities_def)

lemma wf_worker_transition:
  "wf_worker w \<Longrightarrow> s \<notin> {READY, BUSY} \<Longrightarrow> wf_worker (worker_transition w s now)"
  by (auto simp: wf_worker_def)

lemma wf_worker_record [simp]: "wf_worker (worker_record e w) = wf_worker w"
  by (simp add: wf_worker_def)

lemma wf_sync_busy:
  "wf_capabilities (w_capabilities w) \<Longrightarrow> wf_load (w_load w) \<Longrightarrow> wf_worker (sync_busy w)"
  by (auto simp: wf_worker_def sync_busy_status less_le split: if_splits)

lemma wf_worker_heartbeat:
  assumes "wf_worker w" and "worker_input (Heartbeat s l c)"
  shows "wf_worker (worker_heartbeat w now s l c)"
  using assms
  by (auto simp: worker_heartbeat_def Let_def or_else_case wf_worker_def [of w]
      intro!: wf_sync_busy split: option.splits)

lemma wf_worker_reserve: "wf_worker w \<Longrightarrow> wf_worker (fst (worker_reserve_slot w req))"
  by (auto simp: worker_reserve_slot_def mk_worker_load_def wf_load_def wf_worker_def [of w]
      intro!: wf_sync_busy)

lemma wf_worker_release: "wf_worker w \<Longrightarrow> wf_worker (fst (worker_release_slot w))"
  by (auto simp: worker_release_slot_def mk_worker_load_def wf_load_def wf_worker_def [of w]
      intro!: wf_sync_busy)

lemma wf_worker_apply: "wf_worker w \<Longrightarrow> worker_input a \<Longrightarrow> wf_worker (worker_apply w now a)"
  by (cases a)
     (simp_all add: wf_worker_heartbeat wf_worker_reserve wf_worker_release wf_worker_transition
        worker_start_draining_def worker_mark_unavailable_def worker_mark_unhealthy_def
        worker_deregister_def)

lemma worker_reachable_wf: "worker_reachable w \<Longrightarrow> wf_worker w"
  by (induction rule: worker_reachable.induct) (simp_all add: wf_worker_register wf_worker_apply)

lemma reserve_accepts:
  assumes "wf_load (w_load w)" and "can_accept w req"
  shows "worker_reserve_slot w req =
           (sync_busy (w\<lparr>w_load := (w_load w)\<lparr>active_jobs := active_jobs (w_load w) + 1\<rparr>\<rparr>), Inr ())"
  using assms by (cases "w_load w") (simp add: worker_reserve_slot_def mk_worker_load_def wf_load_def)

lemma release_total:
  assumes "wf_load (w_load w)"
  shows "worker_release_slot w =
           (sync_busy (w\<lparr>w_load := (w_load w)\<lparr>active_jobs := max (active_jobs (w_load w) - 1) 0\<rparr>\<rparr>), Inr ())"
  using assms by (cases "w_load w") (simp add: worker_release_slot_def mk_worker_load_def wf_load_def)

lemma accepting_below_capacity:
  "can_accept w req \<Longrightarrow> active_jobs (w_load w) < max_concurrency (w_capabilities w)"
  by (auto simp: can_accept_iff available_slots_def max_def split: if_splits)

lemma release_after_reserve:
  assumes "wf_worker w" and "can_accept w req"
  shows "worker_release_slot (fst (worker_reserve_slot w req)) = (w, Inr ())"
proof -
  let ?w1 = "w\<lparr>w_load := (w_load w)\<lparr>active_jobs := active_jobs (w_load w) + 1\<rparr>\<rparr>"
  have load: "wf_load (w_load w)" using assms(1) by (simp add: wf_worker_def)
  have res: "worker_reserve_slot w req = (sync_busy ?w1, Inr ())"
    using load assms(2) by (rule reserve_accepts)
  have "wf_load (w_load (sync_busy ?w1))" using load by (simp add: wf_load_def)
  from release_total [OF this] load
  have rel: "worker_release_slot (sync_busy ?w1) = (sync_busy ((sync_busy ?w1)\<lparr>w_load := w_load w\<rparr>), Inr ())"
    by (simp add: wf_load_def)
  have st: "w_status w = READY"
    using assms by (cases "w_status w") (auto simp: can_accept_iff wf_worker_def)
  have slots: "0 < available_slots w" using assms(2) by (simp add: can_accept_iff)
  have "sync_busy ((sync_busy ?w1)\<lparr>w_load := w_load w\<rparr>) = w"
    using st slots by (cases w) (simp add: sync_busy_def available_slots_def)
  with res rel show ?thesis by simp
qed

section \<open>Properties\<close>

abbreviation demo_caps :: worker_capabilities where
  "demo_caps \<equiv> \<lparr>model_id = ''qwen'', context_length = 1000, max_concurrency = 1,
     supported_roles = [PLANNER, CODER, REVIEWER],
     gpu = \<lparr>gpu_type = None, gpu_count = 1, memory_gb = None, tensor_parallel_size = 1\<rparr>,
     supports_tools = True, supports_json_schema = True, caps_metadata = []\<rparr>"

abbreviation demo_worker :: worker where
  "demo_worker \<equiv> worker_register (WorkerId 9) (WorkerEndpoint ''http://w'') demo_caps 0 []"

abbreviation demo_requirements :: job_requirements where
  "demo_requirements \<equiv> \<lparr>req_role = CODER, req_model_id = None, estimated_prompt_tokens = 10,
     requires_tools = True, requires_json_schema = True\<rparr>"

lemma demo_worker_reachable: "worker_reachable demo_worker"
  by (rule worker_reachable.registered) (simp add: wf_capabilities_def)

lemma demo_worker_accepts: "can_accept demo_worker demo_requirements"
  by (simp add: can_accept_iff worker_register_def available_slots_def no_load_def
      supports_role_def fits_def)

text \<open>
  A worker's READY/BUSY status always agrees with its free capacity, its load counters stay
  non-negative and its capabilities valid, whatever heartbeats, drains, losses, reservations
  and releases it sees. The diagnosis and the decision agree: \<open>rejection_reason\<close> is silent exactly
  when \<open>can_accept\<close> says yes.
\<close>

theorem worker_status_matches_capacity:
  assumes "worker_reachable w"
  shows "wf_worker w \<and> (rejection_reason w req = None \<longleftrightarrow> can_accept w req)"
  using worker_reachable_wf [OF assms] by (simp add: rejection_reason_def can_accept_def Let_def)

theorem worker_status_matches_capacity_witness:
  "wf_worker demo_worker \<and> rejection_reason demo_worker demo_requirements = None"
  using worker_status_matches_capacity [OF demo_worker_reachable, of demo_requirements]
    demo_worker_accepts by simp

text \<open>
  Reservations never overbook: a reservation succeeds exactly on an eligible worker, then
  its active jobs are at most its declared concurrency, and giving the slot back restores the
  worker completely. On any other worker the reservation raises and changes nothing.
\<close>

theorem worker_reservation_is_sound:
  assumes "worker_reachable w"
  shows "if can_accept w req
         then snd (worker_reserve_slot w req) = Inr ()
            \<and> active_jobs (w_load (fst (worker_reserve_slot w req))) = active_jobs (w_load w) + 1
            \<and> active_jobs (w_load (fst (worker_reserve_slot w req)))
                \<le> max_concurrency (w_capabilities (fst (worker_reserve_slot w req)))
            \<and> worker_release_slot (fst (worker_reserve_slot w req)) = (w, Inr ())
         else worker_reserve_slot w req = (w, Inl (WorkerUnavailableError (w_id w) (Some (w_status w))))"
proof (cases "can_accept w req")
  case True
  have wf: "wf_worker w" using assms by (rule worker_reachable_wf)
  then have "wf_load (w_load w)" by (simp add: wf_worker_def)
  from reserve_accepts [OF this True] release_after_reserve [OF wf True]
    accepting_below_capacity [OF True] True
  show ?thesis by simp
next
  case False
  then show ?thesis by (simp add: worker_reserve_slot_def)
qed

theorem worker_reservation_is_sound_witness:
  "can_accept demo_worker demo_requirements
   \<and> worker_release_slot (fst (worker_reserve_slot demo_worker demo_requirements)) = (demo_worker, Inr ())
   \<and> active_jobs (w_load (fst (worker_reserve_slot demo_worker demo_requirements))) = 1"
  using worker_reservation_is_sound [OF demo_worker_reachable, of demo_requirements] demo_worker_accepts
  by (simp add: worker_register_def no_load_def)

text \<open>
  Draining is respected by the entity itself, so no scheduling policy can bypass it: a
  draining worker accepts no job, a reservation on it raises, and neither a load report, nor
  finishing a job, nor a failed reservation brings it back. A worker declared lost is
  readmitted by its next plain heartbeat.
\<close>

theorem worker_draining_and_readmission:
  assumes "w_status w = DRAINING"
  shows "\<not> can_accept w req
    \<and> worker_reserve_slot w req = (w, Inl (WorkerUnavailableError (w_id w) (Some DRAINING)))
    \<and> w_status (worker_heartbeat w now None load caps) = DRAINING
    \<and> w_status (fst (worker_release_slot w)) = DRAINING
    \<and> is_live (w_status (worker_heartbeat (worker_mark_unavailable w now reason) later None load caps))"
  using assms
  by (auto simp: can_accept_iff worker_reserve_slot_def worker_heartbeat_def Let_def sync_busy_status
      worker_release_slot_def worker_mark_unavailable_def mk_worker_load_def split: if_splits)

theorem worker_draining_and_readmission_witness:
  "w_status (fst (worker_start_draining demo_worker 3)) = DRAINING
   \<and> \<not> can_accept (fst (worker_start_draining demo_worker 3)) demo_requirements"
proof -
  have d: "w_status (fst (worker_start_draining demo_worker 3)) = DRAINING"
    by (simp add: worker_start_draining_def worker_register_def)
  show ?thesis using d worker_draining_and_readmission [OF d] by blast
qed

end
