(* ===== verification/Scheduling.thy ===== *)
theory Scheduling
  imports Worker
begin

text \<open>
  The scheduling policies (\<open>src/src/domain/services/scheduling.py\<close>) and the contract the worker
  pool relies on, as the locale \<open>scheduler\<close>: a policy picks an eligible worker whenever there is
  one. Both policies of the code interpret it.
\<close>

definition eligible_workers :: "worker list \<Rightarrow> job_requirements \<Rightarrow> worker list" where
  "eligible_workers ws req = filter (\<lambda>w. can_accept w req) ws"

section \<open>Least loaded first\<close>

text \<open>Ties go to more free slots, then to the longer context, then to the smaller identifier.\<close>

definition least_loaded_key :: "worker \<Rightarrow> rat \<times> int \<times> int \<times> worker_id" where
  "least_loaded_key w =
     (utilization w, - available_slots w, - context_length (w_capabilities w), w_id w)"

definition least_loaded_rank :: "worker list \<Rightarrow> job_requirements \<Rightarrow> worker list" where
  "least_loaded_rank ws req = py_sorted least_loaded_key (eligible_workers ws req)"

definition least_loaded_select :: "worker list \<Rightarrow> job_requirements \<Rightarrow> worker option" where
  "least_loaded_select ws req =
     (case least_loaded_rank ws req of [] \<Rightarrow> None | w # _ \<Rightarrow> Some w)"

section \<open>Round robin\<close>

text \<open>The cursor is the policy's only state.\<close>

definition round_robin_rank :: "worker list \<Rightarrow> job_requirements \<Rightarrow> worker list" where
  "round_robin_rank ws req = py_sorted w_id (eligible_workers ws req)"

definition round_robin_select ::
  "nat \<Rightarrow> worker list \<Rightarrow> job_requirements \<Rightarrow> worker option \<times> nat" where
  "round_robin_select cursor ws req =
     (let ranked = round_robin_rank ws req in
      if ranked = [] then (None, cursor)
      else (Some (ranked ! (cursor mod length ranked)), (cursor + 1) mod length ranked))"

section \<open>The contract of a policy\<close>

locale scheduler =
  fixes select :: "'s \<Rightarrow> worker list \<Rightarrow> job_requirements \<Rightarrow> worker option \<times> 's"
  assumes select_eligible:
      "fst (select s ws req) = Some w \<Longrightarrow> w \<in> set ws \<and> can_accept w req"
    and select_total:
      "w \<in> set ws \<Longrightarrow> can_accept w req \<Longrightarrow> \<exists>v. fst (select s ws req) = Some v"
begin

lemma select_None_iff: "fst (select s ws req) = None \<longleftrightarrow> (\<forall>w \<in> set ws. \<not> can_accept w req)"
  using select_eligible select_total by (metis not_None_eq option.distinct(1))

end

definition least_loaded :: "unit \<Rightarrow> worker list \<Rightarrow> job_requirements \<Rightarrow> worker option \<times> unit" where
  "least_loaded _ ws req = (least_loaded_select ws req, ())"

lemma set_eligible_workers [simp]: "set (eligible_workers ws req) = {w \<in> set ws. can_accept w req}"
  by (auto simp: eligible_workers_def)

lemma least_loaded_select_Some:
  assumes "least_loaded_select ws req = Some w"
  shows "w \<in> set ws" and "can_accept w req"
    and "v \<in> set ws \<Longrightarrow> can_accept v req \<Longrightarrow> least_loaded_key w \<le> least_loaded_key v"
proof -
  have ne: "eligible_workers ws req \<noteq> []" and w: "w = hd (least_loaded_rank ws req)"
    using assms by (auto simp: least_loaded_select_def least_loaded_rank_def split: list.splits)
  have "w \<in> set (eligible_workers ws req)"
    using hd_sort_key_in [OF ne] w by (simp add: least_loaded_rank_def)
  then show "w \<in> set ws" and "can_accept w req" by auto
  show "least_loaded_key w \<le> least_loaded_key v" if "v \<in> set ws" "can_accept v req"
    using hd_sort_key_min [OF ne, of v least_loaded_key] that w by (simp add: least_loaded_rank_def)
qed

lemma least_loaded_select_None: "least_loaded_select ws req = None \<longleftrightarrow> eligible_workers ws req = []"
proof -
  have "least_loaded_rank ws req = [] \<longleftrightarrow> eligible_workers ws req = []"
    by (simp add: least_loaded_rank_def)
  then show ?thesis by (cases "least_loaded_rank ws req") (simp_all add: least_loaded_select_def)
qed

lemma round_robin_select_Some:
  assumes "fst (round_robin_select c ws req) = Some w"
  shows "w \<in> set ws \<and> can_accept w req"
proof -
  let ?r = "round_robin_rank ws req"
  have ne: "?r \<noteq> []" and w: "w = ?r ! (c mod length ?r)"
    using assms by (auto simp: round_robin_select_def Let_def split: if_splits)
  have "w \<in> set ?r" using ne w by simp
  then show ?thesis by (simp add: round_robin_rank_def)
qed

lemma round_robin_select_total:
  "w \<in> set ws \<Longrightarrow> can_accept w req \<Longrightarrow> \<exists>v. fst (round_robin_select c ws req) = Some v"
  by (auto simp: round_robin_select_def round_robin_rank_def Let_def eligible_workers_def filter_empty_conv)

interpretation ll: scheduler least_loaded
proof unfold_locales
  fix s :: unit and ws req w
  show "fst (least_loaded s ws req) = Some w \<Longrightarrow> w \<in> set ws \<and> can_accept w req"
    by (auto simp: least_loaded_def dest: least_loaded_select_Some)
  show "w \<in> set ws \<Longrightarrow> can_accept w req \<Longrightarrow> \<exists>v. fst (least_loaded s ws req) = Some v"
    using least_loaded_select_None [of ws req]
    by (cases "least_loaded_select ws req") (auto simp: least_loaded_def eligible_workers_def filter_empty_conv)
qed

interpretation rr: scheduler round_robin_select
  by unfold_locales (use round_robin_select_Some round_robin_select_total in blast)+

section \<open>Properties\<close>

abbreviation demo_busy_worker :: worker where
  "demo_busy_worker \<equiv> demo_worker\<lparr>w_id := WorkerId 5, w_capabilities := demo_caps\<lparr>max_concurrency := 4\<rparr>,
     w_load := \<lparr>active_jobs = 1, queued_jobs = 0\<rparr>\<rparr>"

text \<open>
  The default policy returns nothing exactly when no worker is eligible; otherwise it returns
  an eligible worker that no eligible worker beats on utilization, then free slots, then context
  length, then identifier.
\<close>

theorem least_loaded_is_optimal:
  "(least_loaded_select ws req = None \<longleftrightarrow> (\<forall>v \<in> set ws. \<not> can_accept v req))
   \<and> (\<forall>w. least_loaded_select ws req = Some w \<longrightarrow>
        w \<in> set ws \<and> can_accept w req
        \<and> (\<forall>v \<in> set ws. can_accept v req \<longrightarrow> least_loaded_key w \<le> least_loaded_key v))"
  using least_loaded_select_Some ll.select_None_iff [of "()" ws req]
  by (auto simp: least_loaded_def)

theorem least_loaded_is_optimal_witness:
  "least_loaded_select [demo_busy_worker, demo_worker] demo_requirements = Some demo_worker
   \<and> least_loaded_key demo_worker \<le> least_loaded_key demo_busy_worker"
proof -
  have a: "can_accept demo_busy_worker demo_requirements"
    by (simp add: can_accept_iff worker_register_def available_slots_def supports_role_def fits_def)
  have k: "\<not> least_loaded_key demo_busy_worker \<le> least_loaded_key demo_worker"
    by (simp add: least_loaded_key_def utilization_def worker_register_def no_load_def)
  have "least_loaded_select [demo_busy_worker, demo_worker] demo_requirements = Some demo_worker"
    using least_loaded_is_optimal [of "[demo_busy_worker, demo_worker]" demo_requirements] a k
      demo_worker_accepts
    by (cases "least_loaded_select [demo_busy_worker, demo_worker] demo_requirements") auto
  moreover have "least_loaded_key demo_worker \<le> least_loaded_key demo_busy_worker"
    using k by simp
  ultimately show ?thesis ..
qed

fun round_robin_serve :: "nat \<Rightarrow> nat \<Rightarrow> worker list \<Rightarrow> job_requirements \<Rightarrow> worker option list" where
  "round_robin_serve 0 c ws req = []"
| "round_robin_serve (Suc n) c ws req =
     (let (w, c') = round_robin_select c ws req in w # round_robin_serve n c' ws req)"

lemma round_robin_serve_eq:
  assumes "round_robin_rank ws req \<noteq> []"
  shows "round_robin_serve n c ws req =
    map (\<lambda>i. Some (round_robin_rank ws req ! ((c + i) mod length (round_robin_rank ws req)))) [0..<n]"
proof (induction n arbitrary: c)
  case (Suc n)
  let ?r = "round_robin_rank ws req"
  have "map (\<lambda>i. Some (?r ! (((c + 1) mod length ?r + i) mod length ?r))) [0..<n]
      = map (\<lambda>i. Some (?r ! ((c + i) mod length ?r))) (map Suc [0..<n])"
    by (simp add: mod_add_left_eq)
  with Suc assms show ?case
    by (simp add: round_robin_select_def Let_def upt_conv_Cons map_Suc_upt del: upt_Suc)
qed simp

lemma rotation_permutes: "n > 0 \<Longrightarrow> (\<lambda>i. (c + i) mod n) ` {0..<n} = {0..<n::nat}"
proof -
  assume n: "n > 0"
  have "k \<in> (\<lambda>i. (c + i) mod n) ` {0..<n}" if "k < n" for k
  proof
    have "(c + ((k + (n - c mod n)) mod n)) mod n = (c mod n + (k + (n - c mod n))) mod n"
      by (simp only: mod_add_right_eq mod_add_left_eq)
    also have "c mod n + (k + (n - c mod n)) = k + n"
      using mod_less_divisor [OF n, of c] by simp
    finally show "k = (c + ((k + (n - c mod n)) mod n)) mod n" using that by simp
    show "(k + (n - c mod n)) mod n \<in> {0..<n}" using n by simp
  qed
  then show ?thesis using n by auto
qed

text \<open>
  Round robin is fair: while the pool of eligible workers stays the same, as many selections
  in a row as there are eligible workers serve each of them exactly once, from any cursor
  within the pool.
\<close>

theorem round_robin_is_fair:
  assumes "round_robin_rank ws req \<noteq> []"
  shows "set (round_robin_serve (length (round_robin_rank ws req)) c ws req)
         = Some ` {w \<in> set ws. can_accept w req}"
proof -
  let ?r = "round_robin_rank ws req" let ?n = "length (round_robin_rank ws req)"
  have "set (round_robin_serve ?n c ws req) = (\<lambda>k. Some (?r ! k)) ` ((\<lambda>i. (c + i) mod ?n) ` {0..<?n})"
    using round_robin_serve_eq [OF assms, of ?n c] by (simp add: image_image)
  also have "\<dots> = Some ` ((!) ?r ` {0..<?n})"
    using assms by (simp add: rotation_permutes image_image)
  also have "(!) ?r ` {0..<?n} = set ?r"
    by (simp add: nth_image)
  finally show ?thesis by (simp add: round_robin_rank_def)
qed

theorem round_robin_is_fair_witness:
  "round_robin_rank [demo_worker, demo_busy_worker] demo_requirements \<noteq> []
   \<and> set (round_robin_serve (length (round_robin_rank [demo_worker, demo_busy_worker] demo_requirements))
          7 [demo_worker, demo_busy_worker] demo_requirements)
     = {Some demo_worker, Some demo_busy_worker}"
proof -
  have a: "can_accept demo_busy_worker demo_requirements"
    by (simp add: can_accept_iff worker_register_def available_slots_def supports_role_def fits_def)
  have ne: "round_robin_rank [demo_worker, demo_busy_worker] demo_requirements \<noteq> []"
    using demo_worker_accepts by (simp add: round_robin_rank_def eligible_workers_def)
  show ?thesis
    using round_robin_is_fair [OF ne, of 7] ne a demo_worker_accepts by auto
qed

end
