(* ===== verification/Registry.thy ===== *)
theory Registry
  imports Scheduling
begin

text \<open>
  The in-memory worker registry (\<open>InMemoryWorkerRegistry\<close> in
  \<open>src/src/infrastructure/queue/in_memory.py\<close>), the worker pool on top of it
  (\<open>src/src/application/orchestration/worker_pool.py\<close>) and the worker use cases
  (\<open>src/src/application/use_cases/workers.py\<close>). Every registry operation runs under one lock, so it
  is one atomic function on the dictionary of workers. The locale \<open>worker_registry\<close> states what the
  pool and the use cases expect of a registry, and \<open>pool\<close> adds a scheduling policy.
\<close>

section \<open>The registry\<close>

type_synonym registry = "(worker_id, worker) dict"

text \<open>\<open>_copy_worker\<close>: the same worker with an empty event buffer.\<close>

definition copy_worker :: "worker \<Rightarrow> worker" where
  "copy_worker w = w\<lparr>w_events := []\<rparr>"

definition reg_register :: "registry \<Rightarrow> worker \<Rightarrow> registry" where
  "reg_register g w = dict_set (w_id w) (copy_worker w) g"

definition reg_heartbeat :: "registry \<Rightarrow> worker_id \<Rightarrow> worker_load \<Rightarrow> moment \<Rightarrow> registry \<times> bool" where
  "reg_heartbeat g wid load t =
     (case dict_get g wid of
        None \<Rightarrow> (g, False)
      | Some w \<Rightarrow> (dict_set wid ((worker_heartbeat w t None (Some load) None)\<lparr>w_events := []\<rparr>) g, True))"

definition reg_get :: "registry \<Rightarrow> worker_id \<Rightarrow> worker option" where
  "reg_get g wid = map_option copy_worker (dict_get g wid)"

definition reg_sorted :: "registry \<Rightarrow> worker list" where
  "reg_sorted g = map (\<lambda>wid. the (dict_get g wid)) (sort (dict_keys g))"

definition reg_list_all :: "registry \<Rightarrow> worker list" where
  "reg_list_all g = map copy_worker (reg_sorted g)"

definition reg_list_available :: "registry \<Rightarrow> worker list" where
  "reg_list_available g =
     map copy_worker
       (filter (\<lambda>w. accepts_new_jobs (w_status w) \<and> 0 < available_slots w) (reg_sorted g))"

definition reg_update :: "registry \<Rightarrow> worker \<Rightarrow> registry" where
  "reg_update g w =
     (if dict_get g (w_id w) = None then g else dict_set (w_id w) (copy_worker w) g)"

definition reg_deregister :: "registry \<Rightarrow> worker_id \<Rightarrow> registry" where
  "reg_deregister g wid = dict_pop wid g"

definition stale_live :: "moment \<Rightarrow> duration \<Rightarrow> worker \<Rightarrow> bool" where
  "stale_live now timeout w \<longleftrightarrow> is_live (w_status w) \<and> is_stale w now timeout"

text \<open>The loop of \<open>reap_stale\<close>, over the workers as they were when it started.\<close>

fun reap_loop :: "moment \<Rightarrow> duration \<Rightarrow> worker list \<Rightarrow> registry \<Rightarrow> registry \<times> worker list" where
  "reap_loop now timeout [] g = (g, [])"
| "reap_loop now timeout (stored # rest) g =
     (if \<not> stale_live now timeout stored then reap_loop now timeout rest g
      else
        let reaped = worker_mark_unavailable (copy_worker stored) now ''heartbeat timeout'';
            (g', more) = reap_loop now timeout rest (dict_set (w_id reaped) (copy_worker reaped) g)
        in (g', reaped # more))"

definition reg_reap_stale :: "registry \<Rightarrow> moment \<Rightarrow> duration \<Rightarrow> registry \<times> worker list" where
  "reg_reap_stale g now timeout = reap_loop now timeout (reg_sorted g) g"

section \<open>The worker pool\<close>

text \<open>
  \<open>WorkerPool.try_acquire\<close>, with the registry port and the policy as arguments: the policy's
  state, the registry and the reserved worker, \<open>None\<close> when no worker is free. The inference
  client the pool builds for the worker's endpoint has no state of its own here.
\<close>

definition pool_try_acquire ::
  "('g \<Rightarrow> worker list) \<Rightarrow> ('g \<Rightarrow> worker \<Rightarrow> 'g)
   \<Rightarrow> ('s \<Rightarrow> worker list \<Rightarrow> job_requirements \<Rightarrow> worker option \<times> 's) \<Rightarrow> 's \<Rightarrow> 'g \<Rightarrow> job_requirements
   \<Rightarrow> ('s \<times> 'g, worker option) result" where
  "pool_try_acquire available update select s g req =
     (case select s (available g) req of
        (None, s') \<Rightarrow> ((s', g), Inr None)
      | (Some w, s') \<Rightarrow>
          (case worker_reserve_slot w req of
             (w', Inl e) \<Rightarrow> ((s', g), Inl e)
           | (w', Inr _) \<Rightarrow> ((s', update g w'), Inr (Some w'))))"

text \<open>\<open>WorkerPool.release\<close>: the entity kept since the acquisition gives its slot back and is stored.\<close>

definition pool_release :: "('g \<Rightarrow> worker \<Rightarrow> 'g) \<Rightarrow> 'g \<Rightarrow> worker \<Rightarrow> ('g, worker) result" where
  "pool_release update g acquired =
     (case worker_release_slot acquired of
        (w, Inl e) \<Rightarrow> (g, Inl e)
      | (w, Inr _) \<Rightarrow> (update g w, Inr w))"

definition capacity_for :: "registry \<Rightarrow> job_requirements \<Rightarrow> int" where
  "capacity_for g req =
     sum_list (map available_slots (filter (\<lambda>w. can_accept w req) (reg_list_available g)))"

section \<open>Use cases on the pool\<close>

text \<open>
  \<open>RegisterWorkerUseCase.execute\<close>, with the validated endpoint and capabilities; \<open>fresh\<close> is the
  identifier the generator would hand out. The returned events are the ones published.
\<close>

definition register_worker ::
  "registry \<Rightarrow> worker_id option \<Rightarrow> worker_id \<Rightarrow> worker_endpoint \<Rightarrow> worker_capabilities \<Rightarrow> moment
   \<Rightarrow> json_object \<Rightarrow> registry \<times> worker \<times> event list" where
  "register_worker g wid fresh ep caps now meta =
     (case (case wid of None \<Rightarrow> None | Some i \<Rightarrow> reg_get g i) of
        Some existing \<Rightarrow>
          let w = worker_heartbeat existing now (Some READY) None (Some caps)
          in (reg_register g w, w\<lparr>w_events := []\<rparr>, w_events w)
      | None \<Rightarrow>
          let w = worker_register (or_else wid fresh) ep caps now meta
          in (reg_register g w, w\<lparr>w_events := []\<rparr>, w_events w))"

definition heartbeat_worker ::
  "registry \<Rightarrow> worker_id \<Rightarrow> worker_load \<Rightarrow> bool \<Rightarrow> moment \<Rightarrow> (registry, worker) result" where
  "heartbeat_worker g wid load draining now =
     (case reg_get g wid of
        None \<Rightarrow> (g, Inl (EntityNotFoundError ''Worker'' (worker_uuid wid)))
      | Some w \<Rightarrow>
          let w' = worker_heartbeat w now (if draining then Some DRAINING else None) (Some load) None;
              g' = fst (reg_heartbeat g wid load now)
          in (reg_update g' w', Inr w'))"

definition drain_worker :: "registry \<Rightarrow> worker_id \<Rightarrow> moment \<Rightarrow> (registry, worker) result" where
  "drain_worker g wid now =
     (case reg_get g wid of
        None \<Rightarrow> (g, Inl (EntityNotFoundError ''Worker'' (worker_uuid wid)))
      | Some w \<Rightarrow>
          (case worker_start_draining w now of
             (w', Inl e) \<Rightarrow> (g, Inl e)
           | (w', Inr _) \<Rightarrow> (reg_update g w', Inr w')))"

definition deregister_worker :: "registry \<Rightarrow> worker_id \<Rightarrow> moment \<Rightarrow> bool \<Rightarrow> registry \<times> event list" where
  "deregister_worker g wid now graceful =
     (case reg_get g wid of
        None \<Rightarrow> (g, [])
      | Some w \<Rightarrow> (reg_deregister g wid, w_events (worker_deregister w now graceful)))"

definition reap_stale_workers ::
  "registry \<Rightarrow> moment \<Rightarrow> duration \<Rightarrow> registry \<times> worker_id list \<times> event list" where
  "reap_stale_workers g now timeout =
     (let (g', reaped) = reg_reap_stale g now timeout
      in (g', map w_id reaped, concat (map w_events reaped)))"

section \<open>Invariant of the registry\<close>

definition wf_registry :: "registry \<Rightarrow> bool" where
  "wf_registry g \<longleftrightarrow> dict_wf g \<and>
     (\<forall>wid w. dict_get g wid = Some w \<longrightarrow> w_id w = wid \<and> w_events w = [] \<and> wf_worker w)"

lemma copy_worker_simps [simp]:
  "w_id (copy_worker w) = w_id w" "w_status (copy_worker w) = w_status w"
  "w_load (copy_worker w) = w_load w" "w_capabilities (copy_worker w) = w_capabilities w"
  "w_last_heartbeat_at (copy_worker w) = w_last_heartbeat_at w"
  "w_events (copy_worker w) = []" "available_slots (copy_worker w) = available_slots w"
  "can_accept (copy_worker w) req = can_accept w req" "wf_worker (copy_worker w) = wf_worker w"
  "copy_worker (copy_worker w) = copy_worker w"
  by (simp_all add: copy_worker_def available_slots_def can_accept_iff wf_worker_def)

lemma copy_worker_id: "w_events w = [] \<Longrightarrow> copy_worker w = w"
  by (cases w) (simp add: copy_worker_def)

lemma wf_registryD:
  assumes "wf_registry g" and "dict_get g wid = Some w"
  shows "w_id w = wid" and "w_events w = []" and "wf_worker w" and "copy_worker w = w"
  using assms by (auto simp: wf_registry_def copy_worker_id)

lemma wf_registry_set:
  "wf_registry g \<Longrightarrow> w_id w = wid \<Longrightarrow> wf_worker w \<Longrightarrow> wf_registry (dict_set wid (copy_worker w) g)"
  by (auto simp: wf_registry_def split: if_splits)

lemma wf_registry_empty [simp]: "wf_registry []"
  by (simp add: wf_registry_def)

lemma wf_reg_register: "wf_registry g \<Longrightarrow> wf_worker w \<Longrightarrow> wf_registry (reg_register g w)"
  by (simp add: reg_register_def wf_registry_set)

lemma wf_reg_update: "wf_registry g \<Longrightarrow> wf_worker w \<Longrightarrow> wf_registry (reg_update g w)"
  by (simp add: reg_update_def wf_registry_set)

lemma wf_reg_deregister: "wf_registry g \<Longrightarrow> wf_registry (reg_deregister g wid)"
  by (auto simp: wf_registry_def reg_deregister_def split: if_splits)

lemma worker_heartbeat_id [simp]: "w_id (worker_heartbeat w now s l c) = w_id w"
  by (simp add: worker_heartbeat_def Let_def)

lemma wf_reg_heartbeat:
  assumes "wf_registry g" and "wf_load load"
  shows "wf_registry (fst (reg_heartbeat g wid load t))"
proof (cases "dict_get g wid")
  case (Some w)
  let ?w' = "worker_heartbeat w t None (Some load) None"
  have "wf_worker ?w'"
    using wf_registryD(3) [OF assms(1) Some] assms(2) by (intro wf_worker_heartbeat) simp_all
  moreover have "w_id ?w' = wid" using wf_registryD(1) [OF assms(1) Some] by simp
  ultimately have "wf_registry (dict_set wid (copy_worker ?w') g)"
    using assms(1) by (intro wf_registry_set)
  then show ?thesis using Some by (simp add: reg_heartbeat_def copy_worker_def)
qed (use assms in \<open>simp add: reg_heartbeat_def\<close>)

lemma set_reg_sorted:
  assumes "wf_registry g"
  shows "set (reg_sorted g) = {w. dict_get g (w_id w) = Some w}"
proof -
  have "set (reg_sorted g) = (\<lambda>i. the (dict_get g i)) ` dom (map_of g)"
    by (simp add: reg_sorted_def dom_map_of_conv_image_fst)
  also have "\<dots> = {w. dict_get g (w_id w) = Some w}"
  proof (intro set_eqI iffI)
    fix w assume "w \<in> (\<lambda>i. the (dict_get g i)) ` dom (map_of g)"
    then obtain i where "dict_get g i = Some w" by auto
    then show "w \<in> {w. dict_get g (w_id w) = Some w}"
      using wf_registryD(1) [OF assms] by simp
  next
    fix w assume "w \<in> {w. dict_get g (w_id w) = Some w}"
    then show "w \<in> (\<lambda>i. the (dict_get g i)) ` dom (map_of g)"
      by (intro image_eqI [where x = "w_id w"]) auto
  qed
  finally show ?thesis .
qed

lemma set_reg_list_available:
  assumes "wf_registry g"
  shows "set (reg_list_available g) =
     {w. dict_get g (w_id w) = Some w \<and> accepts_new_jobs (w_status w) \<and> 0 < available_slots w}"
proof -
  have "copy_worker ` {w. dict_get g (w_id w) = Some w \<and> P w} = {w. dict_get g (w_id w) = Some w \<and> P w}"
    for P using wf_registryD(4) [OF assms] by (force simp: image_iff)
  then show ?thesis by (simp add: reg_list_available_def set_reg_sorted [OF assms])
qed

lemma reg_get_eq: "wf_registry g \<Longrightarrow> reg_get g i = dict_get g i"
  by (cases "dict_get g i") (simp_all add: reg_get_def wf_registryD)

section \<open>The contracts of a registry and of a pool\<close>

text \<open>
  A registry may keep a normal form of what it is given (\<open>stored\<close>), and only takes workers it can represent (\<open>storable\<close>).
\<close>

locale worker_registry =
  fixes get :: "'g \<Rightarrow> worker_id \<Rightarrow> worker option"
    and update :: "'g \<Rightarrow> worker \<Rightarrow> 'g"
    and available :: "'g \<Rightarrow> worker list"
    and invar :: "'g \<Rightarrow> bool"
    and stored :: "worker \<Rightarrow> worker"
    and storable :: "worker \<Rightarrow> bool"
  assumes get_update:
      "invar g \<Longrightarrow> storable w \<Longrightarrow>
         get (update g w) i = (if i = w_id w \<and> get g i \<noteq> None then Some (stored w) else get g i)"
    and invar_update: "invar g \<Longrightarrow> storable w \<Longrightarrow> invar (update g w)"
    and get_wf: "invar g \<Longrightarrow> get g i = Some w \<Longrightarrow> w_id w = i \<and> wf_worker w \<and> storable w \<and> stored w = w"
    and available_iff:
      "invar g \<Longrightarrow> w \<in> set (available g) \<longleftrightarrow>
         get g (w_id w) = Some w \<and> accepts_new_jobs (w_status w) \<and> 0 < available_slots w"
    and reserve_storable:
      "storable w \<Longrightarrow> stored w = w \<Longrightarrow>
         storable (fst (worker_reserve_slot w req)) \<and> stored (fst (worker_reserve_slot w req)) = fst (worker_reserve_slot w req)"
begin

text \<open>An update never brings back a worker that left, and touches no other worker.\<close>

lemma update_unknown: "invar g \<Longrightarrow> storable w \<Longrightarrow> get g (w_id w) = None \<Longrightarrow> get (update g w) i = get g i"
  by (auto simp: get_update)

lemma eligible_available: "invar g \<Longrightarrow> get g (w_id w) = Some w \<Longrightarrow> can_accept w req \<Longrightarrow> w \<in> set (available g)"
  by (simp add: available_iff can_accept_iff)

end

locale pool = worker_registry get update available invar stored storable + scheduler select
  for get :: "'g \<Rightarrow> worker_id \<Rightarrow> worker option" and update and available and invar and stored and storable
    and select :: "'s \<Rightarrow> worker list \<Rightarrow> job_requirements \<Rightarrow> worker option \<times> 's"
begin

lemma try_acquire_cases:
  assumes "invar g"
  obtains (none) s' where "pool_try_acquire available update select s g req = ((s', g), Inr None)"
      and "\<And>w. get g (w_id w) = Some w \<Longrightarrow> \<not> can_accept w req"
  | (some) s' w where "get g (w_id w) = Some w" and "can_accept w req"
      and "pool_try_acquire available update select s g req =
             ((s', update g (fst (worker_reserve_slot w req))), Inr (Some (fst (worker_reserve_slot w req))))"
proof (cases "fst (select s (available g) req)")
  case None
  then have "\<forall>w \<in> set (available g). \<not> can_accept w req" by (simp add: select_None_iff)
  then have "\<And>w. get g (w_id w) = Some w \<Longrightarrow> \<not> can_accept w req"
    using eligible_available [OF assms] by blast
  with None show ?thesis
    by (intro none [of "snd (select s (available g) req)"])
       (auto simp: pool_try_acquire_def split: prod.splits)
next
  case (Some w)
  then have w: "w \<in> set (available g)" "can_accept w req" using select_eligible by blast+
  then have g: "get g (w_id w) = Some w" using available_iff [OF assms] by blast
  then have "wf_load (w_load w)" using get_wf [OF assms] by (auto simp: wf_worker_def)
  from reserve_accepts [OF this w(2)] Some g w(2) show ?thesis
    by (intro some [of w "snd (select s (available g) req)"])
       (auto simp: pool_try_acquire_def split: prod.splits)
qed

lemma acquire_release_restores:
  assumes "invar g" and "get g (w_id v) = Some v" and "can_accept v req"
  shows "get (fst (pool_release update (update g (fst (worker_reserve_slot v req))) (fst (worker_reserve_slot v req)))) i = get g i"
proof -
  let ?w = "fst (worker_reserve_slot v req)"
  from get_wf [OF assms(1,2)] have v: "wf_worker v" "storable v" "stored v = v" by auto
  have load: "wf_load (w_load v)" using v(1) by (simp add: wf_worker_def)
  have w: "storable ?w" "stored ?w = ?w" using reserve_storable [OF v(2,3)] by auto
  have rel: "worker_release_slot ?w = (v, Inr ())" by (rule release_after_reserve [OF v(1) assms(3)])
  have id: "w_id ?w = w_id v" using reserve_accepts [OF load assms(3)] by simp
  show ?thesis
    using get_update [OF invar_update [OF assms(1) w(1)] v(2), of i] get_update [OF assms(1) w(1), of i] assms(2) id rel v(3)
    by (auto simp: pool_release_def)
qed

lemma acquire_is_sound:
  assumes "invar g"
  shows "\<exists>s' g' r. pool_try_acquire available update select s g req = ((s', g'), Inr r)
    \<and> (case r of
         None \<Rightarrow> g' = g \<and> (\<forall>w. get g (w_id w) = Some w \<longrightarrow> \<not> can_accept w req)
       | Some w \<Rightarrow> invar g' \<and> (\<exists>v. get g (w_id v) = Some v \<and> can_accept v req
            \<and> get g' (w_id v) = Some w
            \<and> active_jobs (w_load w) = active_jobs (w_load v) + 1
            \<and> active_jobs (w_load w) \<le> max_concurrency (w_capabilities w)
            \<and> (\<forall>i. get (fst (pool_release update g' w)) i = get g i)))"
  using assms
proof (cases rule: try_acquire_cases [of g s req])
  case (none s')
  then show ?thesis by (intro exI [of _ s'] exI [of _ g] exI [of _ None]) simp
next
  case (some s' v)
  let ?w = "fst (worker_reserve_slot v req)"
  from get_wf [OF assms some(1)] have v: "wf_worker v" "storable v" "stored v = v" by auto
  have w: "storable ?w" "stored ?w = ?w" using reserve_storable [OF v(2,3)] by auto
  have "wf_load (w_load v)" using v(1) by (simp add: wf_worker_def)
  note res = reserve_accepts [OF this some(2)]
  have "get (update g ?w) (w_id v) = Some ?w"
    using get_update [OF assms w(1), of "w_id v"] some(1) res w(2) by simp
  with some invar_update [OF assms w(1)] res accepting_below_capacity [OF some(2)]
    acquire_release_restores [OF assms some(1,2)]
  show ?thesis
    by (intro exI [of _ s'] exI [of _ "update g ?w"] exI [of _ "Some ?w"]) auto
qed

end

lemma reserve_copy:
  assumes "copy_worker w = w"
  shows "copy_worker (fst (worker_reserve_slot w req)) = fst (worker_reserve_slot w req)"
proof (rule copy_worker_id)
  have "w_events w = []" using arg_cong [OF assms, of w_events] by simp
  then show "w_events (fst (worker_reserve_slot w req)) = []"
    by (simp add: worker_reserve_slot_def split: sum.splits)
qed

interpretation mem: worker_registry reg_get reg_update reg_list_available wf_registry copy_worker wf_worker
proof unfold_locales
  fix g w i
  assume inv: "wf_registry g"
  show "reg_get (reg_update g w) i =
      (if i = w_id w \<and> reg_get g i \<noteq> None then Some (copy_worker w) else reg_get g i)"
    by (auto simp: reg_get_def reg_update_def)
  show "wf_worker w \<Longrightarrow> wf_registry (reg_update g w)" by (rule wf_reg_update [OF inv])
  show "reg_get g i = Some w \<Longrightarrow> w_id w = i \<and> wf_worker w \<and> wf_worker w \<and> copy_worker w = w"
    using inv wf_registryD [OF inv] by (simp add: reg_get_eq)
  show "w \<in> set (reg_list_available g) \<longleftrightarrow>
      reg_get g (w_id w) = Some w \<and> accepts_new_jobs (w_status w) \<and> 0 < available_slots w"
    using inv by (simp add: set_reg_list_available reg_get_eq)
next
  fix w req
  assume "wf_worker w" "copy_worker w = w"
  then show "wf_worker (fst (worker_reserve_slot w req))
      \<and> copy_worker (fst (worker_reserve_slot w req)) = fst (worker_reserve_slot w req)"
    using wf_worker_reserve reserve_copy by blast
qed

interpretation mem_ll: pool reg_get reg_update reg_list_available wf_registry copy_worker wf_worker least_loaded
  by unfold_locales

interpretation mem_rr: pool reg_get reg_update reg_list_available wf_registry copy_worker wf_worker round_robin_select
  by unfold_locales

section \<open>Reaping\<close>

abbreviation reaped_worker :: "moment \<Rightarrow> worker \<Rightarrow> worker" where
  "reaped_worker now w \<equiv> worker_mark_unavailable (copy_worker w) now ''heartbeat timeout''"

lemma worker_mark_unavailable_simps [simp]:
  "w_id (worker_mark_unavailable w now r) = w_id w"
  "w_status (worker_mark_unavailable w now r) = OFFLINE"
  "w_load (worker_mark_unavailable w now r) = w_load w"
  by (simp_all add: worker_mark_unavailable_def)

lemma reap_loop_reaped: "snd (reap_loop now timeout ws g) = map (reaped_worker now) (filter (stale_live now timeout) ws)"
  by (induction ws arbitrary: g) (simp_all add: Let_def case_prod_beta)

lemma reap_loop_get:
  assumes "distinct (map w_id ws)"
  shows "dict_get (fst (reap_loop now timeout ws g)) i =
     (case find (\<lambda>w. w_id w = i \<and> stale_live now timeout w) ws of
        Some w \<Rightarrow> Some (copy_worker (reaped_worker now w)) | None \<Rightarrow> dict_get g i)"
  using assms
proof (induction ws arbitrary: g)
  case (Cons w ws)
  have none: "find (\<lambda>v. w_id v = w_id w \<and> stale_live now timeout v) ws = None"
    using Cons.prems by (force simp: find_None_iff image_iff)
  show ?case
    using Cons.prems none
    by (auto simp: Let_def Cons.IH case_prod_beta split: option.splits)
qed simp

lemma reg_sorted_ids: "wf_registry g \<Longrightarrow> map w_id (reg_sorted g) = sort (dict_keys g)"
proof -
  assume wf: "wf_registry g"
  have "w_id (the (dict_get g i)) = i" if "i \<in> set (sort (dict_keys g))" for i
  proof -
    from that have "dict_get g i \<noteq> None" by (auto simp: map_of_eq_None_iff)
    with wf show ?thesis by (auto simp: wf_registry_def)
  qed
  then have "map (\<lambda>i. w_id (the (dict_get g i))) (sort (dict_keys g)) = sort (dict_keys g)"
    by (intro map_idI) blast
  then show ?thesis by (simp add: reg_sorted_def o_def)
qed

lemma reap_get:
  assumes "wf_registry g"
  shows "dict_get (fst (reg_reap_stale g now timeout)) i =
     (case dict_get g i of
        None \<Rightarrow> None
      | Some w \<Rightarrow> Some (if stale_live now timeout w then copy_worker (reaped_worker now w) else w))"
proof -
  have ids: "distinct (map w_id (reg_sorted g))"
    using assms by (simp add: reg_sorted_ids wf_registry_def)
  show ?thesis
  proof (cases "find (\<lambda>w. w_id w = i \<and> stale_live now timeout w) (reg_sorted g)")
    case (Some w)
    then have "w \<in> set (reg_sorted g)" "w_id w = i" "stale_live now timeout w"
      by (auto simp: find_Some_iff)
    then show ?thesis
      using Some by (simp add: reg_reap_stale_def reap_loop_get [OF ids] set_reg_sorted [OF assms])
  next
    case None
    then have "\<not> stale_live now timeout w" if "dict_get g i = Some w" for w
      using that wf_registryD(1) [OF assms that] set_reg_sorted [OF assms] by (auto simp: find_None_iff)
    then show ?thesis
      using None by (auto simp: reg_reap_stale_def reap_loop_get [OF ids] split: option.splits)
  qed
qed

section \<open>Properties\<close>

abbreviation demo_registry :: registry where
  "demo_registry \<equiv> [(WorkerId 9, copy_worker demo_worker)]"

lemma wf_demo_registry: "wf_registry demo_registry"
  using worker_reachable_wf [OF demo_worker_reachable]
  by (auto simp: wf_registry_def worker_register_def split: if_splits)

lemma demo_acquire:
  "pool_try_acquire reg_list_available reg_update least_loaded () demo_registry demo_requirements =
     (((), [(WorkerId 9, copy_worker demo_worker\<lparr>w_status := BUSY, w_load := \<lparr>active_jobs = 1, queued_jobs = 0\<rparr>\<rparr>)]),
      Inr (Some (copy_worker demo_worker\<lparr>w_status := BUSY, w_load := \<lparr>active_jobs = 1, queued_jobs = 0\<rparr>\<rparr>)))"
  using demo_worker_accepts
  by (simp add: pool_try_acquire_def reg_list_available_def reg_sorted_def worker_register_def
      least_loaded_def least_loaded_select_def least_loaded_rank_def eligible_workers_def
      available_slots_def no_load_def worker_reserve_slot_def mk_worker_load_def sync_busy_def
      reg_update_def copy_worker_def worker_record_def record_event_def can_accept_iff
      supports_role_def fits_def)

text \<open>
  Acquiring a worker from the pool, with any policy that honours the scheduling contract,
  never raises. It answers \<open>None\<close> only when no registered worker may take the job, and then
  changes nothing; otherwise the registry records one more active job on an eligible worker,
  within that worker's declared concurrency, and releasing the slot afterwards gives every
  worker of the registry back as it was.
\<close>

theorem pool_acquire_is_sound:
  assumes "wf_registry g" and "scheduler select"
  shows "\<exists>s' g' r. pool_try_acquire reg_list_available reg_update select s g req = ((s', g'), Inr r)
    \<and> (case r of
         None \<Rightarrow> g' = g \<and> (\<forall>w. reg_get g (w_id w) = Some w \<longrightarrow> \<not> can_accept w req)
       | Some w \<Rightarrow> wf_registry g' \<and> (\<exists>v. reg_get g (w_id v) = Some v \<and> can_accept v req
            \<and> reg_get g' (w_id v) = Some w
            \<and> active_jobs (w_load w) = active_jobs (w_load v) + 1
            \<and> active_jobs (w_load w) \<le> max_concurrency (w_capabilities w)
            \<and> (\<forall>i. reg_get (fst (pool_release reg_update g' w)) i = reg_get g i)))"
  by (rule pool.acquire_is_sound [OF pool.intro [OF mem.worker_registry_axioms assms(2)] assms(1)])

theorem pool_acquire_is_sound_witness:
  "wf_registry demo_registry \<and> scheduler least_loaded
   \<and> (\<exists>s' g' w. pool_try_acquire reg_list_available reg_update least_loaded () demo_registry demo_requirements
        = ((s', g'), Inr (Some w)) \<and> active_jobs (w_load w) = 1 \<and> wf_registry g')"
  using pool_acquire_is_sound [OF wf_demo_registry ll.scheduler_axioms, of "()" demo_requirements]
    demo_acquire wf_demo_registry ll.scheduler_axioms by auto

text \<open>
  Releasing a worker stores the entity kept since the acquisition, so it overwrites what
  happened to the worker in between: when a worker is drained while it holds a job, the release
  puts it back as an accepting worker, eligible for the very same kind of job, and the drain is
  lost.
\<close>

theorem pool_release_undoes_drain:
  assumes "wf_registry g" and "scheduler select"
    and "pool_try_acquire reg_list_available reg_update select s g req = ((s', g'), Inr (Some w))"
    and "drain_worker g' (w_id w) now = (g2, Inr d)"
  shows "(\<exists>v. reg_get g2 (w_id w) = Some v \<and> w_status v = DRAINING)
       \<and> (\<exists>v. reg_get (fst (pool_release reg_update g2 w)) (w_id w) = Some v
              \<and> accepts_new_jobs (w_status v) \<and> can_accept v req)"
proof -
  have p: "pool reg_get reg_update reg_list_available wf_registry copy_worker wf_worker select"
    using mem.worker_registry_axioms assms(2) by (rule pool.intro)
  show ?thesis
    using assms(1)
  proof (cases rule: pool.try_acquire_cases [OF p, of g s req, consumes 1, case_names none some])
    case none
    with assms(3) show ?thesis by simp
  next
    case (some s2 v)
    from some(3) assms(3) have w: "w = fst (worker_reserve_slot v req)" and g': "g' = reg_update g w"
      by auto
    from mem.get_wf [OF assms(1) some(1)] have v: "wf_worker v" by auto
    then have load: "wf_load (w_load v)" by (simp add: wf_worker_def)
    have id: "w_id w = w_id v" using reserve_accepts [OF load some(2)] w by simp
    have ww: "wf_worker w" using wf_worker_reserve [OF v] w by simp
    then have inv': "wf_registry g'" using wf_reg_update [OF assms(1)] g' by simp
    obtain x where x: "reg_get g' (w_id w) = Some x"
      using mem.get_update [OF assms(1) ww, of "w_id w"] some(1) id g' by auto
    have xw: "w_id x = w_id w" "wf_worker x" using mem.get_wf [OF inv' x] by auto
    from assms(4) x have d: "worker_start_draining x now = (d, Inr ())" and g2: "g2 = reg_update g' d"
      by (auto simp: drain_worker_def split: prod.splits sum.splits)
    have ds: "w_status d = DRAINING" "w_id d = w_id w" "wf_worker d"
      using d xw by (auto simp: worker_start_draining_def wf_worker_transition split: if_splits)
    have inv2: "wf_registry g2" using wf_reg_update [OF inv' ds(3)] g2 by simp
    have "reg_get g2 (w_id w) = Some (copy_worker d)"
      using mem.get_update [OF inv' ds(3), of "w_id w"] x ds(2) g2 by simp
    moreover have "pool_release reg_update g2 w = (reg_update g2 v, Inr v)"
      using release_after_reserve [OF v some(2)] w by (simp add: pool_release_def)
    ultimately show ?thesis
      using mem.get_update [OF inv2 v, of "w_id w"] id ds(1) some(2) by (auto simp: can_accept_iff)
  qed
qed

theorem pool_release_undoes_drain_witness:
  "\<exists>g' w g2 d. pool_try_acquire reg_list_available reg_update least_loaded () demo_registry demo_requirements
        = (((), g'), Inr (Some w))
     \<and> drain_worker g' (w_id w) 5 = (g2, Inr d)
     \<and> (\<exists>v. reg_get (fst (pool_release reg_update g2 w)) (w_id w) = Some v
            \<and> accepts_new_jobs (w_status v) \<and> can_accept v demo_requirements)"
proof -
  let ?w = "copy_worker demo_worker\<lparr>w_status := BUSY, w_load := \<lparr>active_jobs = 1, queued_jobs = 0\<rparr>\<rparr>"
  obtain g2 d where dr: "drain_worker [(WorkerId 9, ?w)] (w_id ?w) 5 = (g2, Inr d)"
    by (simp add: drain_worker_def reg_get_def worker_start_draining_def worker_register_def
        copy_worker_def worker_record_def)
  show ?thesis
    using pool_release_undoes_drain [OF wf_demo_registry ll.scheduler_axioms demo_acquire dr]
      demo_acquire dr by blast
qed

text \<open>
  The reaper is exact: after a pass every live worker of the registry has a recent heartbeat,
  the workers it reports are the live ones that had gone silent, in identifier order, each now
  OFFLINE and carrying its \<open>worker.unavailable\<close> event, and no other worker changed.
\<close>

theorem reaper_is_exact:
  assumes "wf_registry g"
  shows "(\<forall>i w. dict_get (fst (reg_reap_stale g now timeout)) i = Some w \<longrightarrow> \<not> stale_live now timeout w)
    \<and> map w_id (snd (reg_reap_stale g now timeout)) =
        filter (\<lambda>i. case dict_get g i of None \<Rightarrow> False | Some w \<Rightarrow> stale_live now timeout w) (sort (dict_keys g))
    \<and> (\<forall>w \<in> set (snd (reg_reap_stale g now timeout)). w_status w = OFFLINE
          \<and> WorkerUnavailable now (w_id w) ''heartbeat timeout'' \<in> set (w_events w))
    \<and> (\<forall>i w. dict_get g i = Some w \<and> \<not> stale_live now timeout w \<longrightarrow>
          dict_get (fst (reg_reap_stale g now timeout)) i = Some w)"
proof -
  have off: "\<not> stale_live now timeout (copy_worker (reaped_worker now w))" for w
    by (simp add: stale_live_def)
  have "map w_id (snd (reg_reap_stale g now timeout)) = map w_id (filter (stale_live now timeout) (reg_sorted g))"
    by (simp add: reg_reap_stale_def reap_loop_reaped o_def)
  also have "\<dots> = filter (\<lambda>i. case dict_get g i of None \<Rightarrow> False | Some w \<Rightarrow> stale_live now timeout w) (map w_id (reg_sorted g))"
    unfolding filter_map o_def
    by (rule arg_cong [where f = "map w_id"], rule filter_cong) (simp_all add: set_reg_sorted [OF assms])
  finally have ids: "map w_id (snd (reg_reap_stale g now timeout)) =
        filter (\<lambda>i. case dict_get g i of None \<Rightarrow> False | Some w \<Rightarrow> stale_live now timeout w) (sort (dict_keys g))"
    by (simp add: reg_sorted_ids [OF assms])
  have ev: "\<forall>w \<in> set (snd (reg_reap_stale g now timeout)). w_status w = OFFLINE
          \<and> WorkerUnavailable now (w_id w) ''heartbeat timeout'' \<in> set (w_events w)"
    by (auto simp: reg_reap_stale_def reap_loop_reaped stale_live_def worker_mark_unavailable_def)
  show ?thesis
    using off ids ev by (auto simp: reap_get [OF assms] split: option.splits if_splits)
qed

theorem reaper_is_exact_witness:
  "wf_registry demo_registry \<and> map w_id (snd (reg_reap_stale demo_registry 100 30)) = [WorkerId 9]"
  using reaper_is_exact [OF wf_demo_registry, of 100 30] wf_demo_registry
  by (simp add: stale_live_def is_stale_def worker_register_def)

text \<open>
  Registration is idempotent on the worker id: registering an id the registry already knows
  adds no entry and leaves the other workers alone, refreshes the capabilities and the
  heartbeat and ends any drain or outage. The endpoint and the registration time stay those of the
  first registration, whatever endpoint the new call announces.
\<close>

theorem register_worker_idempotent:
  assumes "wf_registry g" and "reg_get g wid = Some old" and "wf_capabilities caps"
  shows "dict_keys (fst (register_worker g (Some wid) fresh ep caps now meta)) = dict_keys g
    \<and> (\<forall>i. i \<noteq> wid \<longrightarrow> reg_get (fst (register_worker g (Some wid) fresh ep caps now meta)) i = reg_get g i)
    \<and> (\<exists>w. reg_get (fst (register_worker g (Some wid) fresh ep caps now meta)) wid = Some w
         \<and> accepts_new_jobs (w_status w) \<and> w_capabilities w = caps \<and> w_last_heartbeat_at w = now
         \<and> w_endpoint w = w_endpoint old \<and> w_registered_at w = w_registered_at old)"
proof -
  have key: "wid \<in> set (dict_keys g)"
    using assms(1,2) by (force simp: reg_get_eq map_of_SomeD dest: map_of_SomeD)
  have id: "w_id old = wid" using mem.get_wf [OF assms(1,2)] by simp
  have keys: "dict_keys (dict_set wid v g) = dict_keys g" for v
    using key by (simp add: update_keys)
  let ?w = "worker_heartbeat old now (Some READY) None (Some caps)"
  have st: "accepts_new_jobs (w_status ?w)" "w_capabilities ?w = caps" "w_last_heartbeat_at ?w = now"
      "w_endpoint ?w = w_endpoint old" "w_registered_at ?w = w_registered_at old"
    by (simp_all add: worker_heartbeat_def Let_def sync_busy_status)
  have reg: "fst (register_worker g (Some wid) fresh ep caps now meta) = dict_set wid (copy_worker ?w) g"
    using assms(2) id by (simp add: register_worker_def reg_register_def Let_def)
  have new: "reg_get (dict_set wid (copy_worker ?w) g) wid = Some (copy_worker ?w)"
    by (simp add: reg_get_def)
  have other: "reg_get (dict_set wid (copy_worker ?w) g) i = reg_get g i" if "i \<noteq> wid" for i
    using that by (simp add: reg_get_def)
  show ?thesis
    unfolding reg using keys new other st by (simp add: copy_worker_def)
qed

theorem register_worker_idempotent_witness:
  "\<exists>w. reg_get (fst (register_worker demo_registry (Some (WorkerId 9)) (WorkerId 77)
          (WorkerEndpoint ''http://elsewhere'') demo_caps 50 [])) (WorkerId 9) = Some w
     \<and> w_endpoint w = WorkerEndpoint ''http://w''"
proof -
  have g: "reg_get demo_registry (WorkerId 9) = Some (copy_worker demo_worker)"
    by (simp add: reg_get_def)
  have c: "wf_capabilities demo_caps" by (simp add: wf_capabilities_def)
  show ?thesis
    using register_worker_idempotent [OF wf_demo_registry g c, of "WorkerId 77"
        "WorkerEndpoint ''http://elsewhere''" 50 "[]"]
    by (auto simp: copy_worker_def worker_register_def worker_record_def)
qed

end
