(* ===== verification/Regex.thy ===== *)
theory Regex
  imports Prelude
begin

text \<open>
  The part of Python's \<open>re\<close> the sources use: a pattern as a datatype and its backtracking matcher as a
  function that lists, in the order in which backtracking would try them, the places where a match can end.
  A place is the character before it, the text from it on and the groups captured so far. A repetition of something that matched nothing is not repeated, as in \<open>re\<close>. The matcher
  is shown to find exactly the ends a declarative reading of the pattern allows.
\<close>

section \<open>Characters\<close>

abbreviation ord :: "char \<Rightarrow> nat" where
  "ord c \<equiv> of_char c"

text \<open>\<open>str.lower\<close> on the first 256 code points.\<close>

definition lower_char :: "char \<Rightarrow> char" where
  "lower_char c = (let n = ord c in
     if (65 \<le> n \<and> n \<le> 90) \<or> (192 \<le> n \<and> n \<le> 222 \<and> n \<noteq> 215) then char_of (n + 32) else c)"

abbreviation lower :: "string \<Rightarrow> string" where
  "lower s \<equiv> map lower_char s"

definition is_letter :: "char \<Rightarrow> bool" where
  "is_letter c \<longleftrightarrow> (let n = ord c in (65 \<le> n \<and> n \<le> 90) \<or> (97 \<le> n \<and> n \<le> 122))"

text \<open>\<open>\d\<close>.\<close>

definition is_digit :: "char \<Rightarrow> bool" where
  "is_digit c \<longleftrightarrow> (let n = ord c in 48 \<le> n \<and> n \<le> 57)"

text \<open>\<open>\w\<close>: letters, digits, numerals and the underscore.\<close>

definition is_word :: "char \<Rightarrow> bool" where
  "is_word c \<longleftrightarrow> (let n = ord c in
     if n < 128 then (97 \<le> n \<and> n \<le> 122) \<or> (65 \<le> n \<and> n \<le> 90) \<or> (48 \<le> n \<and> n \<le> 57) \<or> n = 95
     else n \<in> {170, 178, 179, 181, 185, 186, 188, 189, 190} \<or> (192 \<le> n \<and> n \<noteq> 215 \<and> n \<noteq> 247))"

abbreviation newline :: char where
  "newline \<equiv> CHR 0x0A"

section \<open>Patterns\<close>

record place =
  pl_before :: "char option"
  pl_rest :: string
  pl_groups :: "(nat \<times> string) list"

datatype pattern =
    Empty
  | One "char \<Rightarrow> bool"
  | Seq pattern pattern
  | Alt pattern pattern
  | Star bool pattern
  | Group nat pattern
  | WordBoundary
  | LineStart
  | LineEnd
  | TextStart
  | TextEnd

text \<open>Derived forms: literal text, alternatives, one or more, optional, bounded repetition.\<close>

fun lit :: "string \<Rightarrow> pattern" where
  "lit [] = Empty"
| "lit (c # cs) = Seq (One (\<lambda>x. x = c)) (lit cs)"

text \<open>Literal text under \<open>re.IGNORECASE\<close>.\<close>

fun lit_i :: "string \<Rightarrow> pattern" where
  "lit_i [] = Empty"
| "lit_i (c # cs) = Seq (One (\<lambda>x. lower_char x = lower_char c)) (lit_i cs)"

fun alts :: "pattern list \<Rightarrow> pattern" where
  "alts [] = One (\<lambda>_. False)"
| "alts [r] = r"
| "alts (r # s # rs) = Alt r (alts (s # rs))"

abbreviation many :: "pattern \<Rightarrow> pattern" where "many r \<equiv> Star True r"
abbreviation many_lazy :: "pattern \<Rightarrow> pattern" where "many_lazy r \<equiv> Star False r"
abbreviation some :: "pattern \<Rightarrow> pattern" where "some r \<equiv> Seq r (Star True r)"
abbreviation maybe :: "pattern \<Rightarrow> pattern" where "maybe r \<equiv> Alt r Empty"

text \<open>\<open>r{0,n}\<close> and \<open>r{m,m+n}\<close>, greedy.\<close>

fun upto_times :: "nat \<Rightarrow> pattern \<Rightarrow> pattern" where
  "upto_times 0 r = Empty"
| "upto_times (Suc n) r = Alt (Seq r (upto_times n r)) Empty"

fun times :: "nat \<Rightarrow> nat \<Rightarrow> pattern \<Rightarrow> pattern" where
  "times 0 n r = upto_times n r"
| "times (Suc m) n r = Seq r (times m n r)"

section \<open>Matching\<close>

definition word_before :: "place \<Rightarrow> bool" where
  "word_before p = (case pl_before p of None \<Rightarrow> False | Some c \<Rightarrow> is_word c)"

definition word_after :: "place \<Rightarrow> bool" where
  "word_after p = (case pl_rest p of [] \<Rightarrow> False | c # _ \<Rightarrow> is_word c)"

definition capture :: "nat \<Rightarrow> place \<Rightarrow> place \<Rightarrow> place" where
  "capture k p q =
     q\<lparr>pl_groups := (k, take (length (pl_rest p) - length (pl_rest q)) (pl_rest p)) # pl_groups q\<rparr>"

primrec star_ends :: "nat \<Rightarrow> bool \<Rightarrow> (place \<Rightarrow> place list) \<Rightarrow> place \<Rightarrow> place list" where
  "star_ends 0 greedy f p = [p]"
| "star_ends (Suc n) greedy f p =
     (let more = concat (map (star_ends n greedy f)
                   (filter (\<lambda>q. length (pl_rest q) < length (pl_rest p)) (f p)))
      in if greedy then more @ [p] else p # more)"

primrec ends :: "pattern \<Rightarrow> place \<Rightarrow> place list" where
  "ends Empty p = [p]"
| "ends (One ok) p =
     (case pl_rest p of [] \<Rightarrow> [] | c # cs \<Rightarrow> if ok c then [p\<lparr>pl_before := Some c, pl_rest := cs\<rparr>] else [])"
| "ends (Seq r s) p = concat (map (ends s) (ends r p))"
| "ends (Alt r s) p = ends r p @ ends s p"
| "ends (Star greedy r) p = star_ends (length (pl_rest p)) greedy (ends r) p"
| "ends (Group k r) p = map (capture k p) (ends r p)"
| "ends WordBoundary p = (if word_before p \<noteq> word_after p then [p] else [])"
| "ends LineStart p = (if pl_before p = None \<or> pl_before p = Some newline then [p] else [])"
| "ends LineEnd p = (if pl_rest p = [] \<or> hd (pl_rest p) = newline then [p] else [])"
| "ends TextStart p = (if pl_before p = None then [p] else [])"
| "ends TextEnd p = (if pl_rest p = [] then [p] else [])"

definition start :: "string \<Rightarrow> place" where
  "start s = \<lparr>pl_before = None, pl_rest = s, pl_groups = []\<rparr>"

definition step_over :: "place \<Rightarrow> place" where
  "step_over p = (case pl_rest p of
     [] \<Rightarrow> p | c # cs \<Rightarrow> \<lparr>pl_before = Some c, pl_rest = cs, pl_groups = []\<rparr>)"

text \<open>The leftmost match from a place on: the text skipped, the place where it starts and where it ends.\<close>

fun search_from :: "pattern \<Rightarrow> char option \<Rightarrow> string \<Rightarrow> (string \<times> place \<times> place) option" where
  "search_from r b s =
     (let p = \<lparr>pl_before = b, pl_rest = s, pl_groups = []\<rparr> in
      case ends r p of
        q # _ \<Rightarrow> Some ([], p, q)
      | [] \<Rightarrow> (case s of
                [] \<Rightarrow> None
              | c # cs \<Rightarrow> map_option (\<lambda>(skipped, pq). (c # skipped, pq)) (search_from r (Some c) cs)))"

declare search_from.simps [simp del]

text \<open>\<open>re.search\<close>, as a test; \<open>re.match\<close> and \<open>re.fullmatch\<close>.\<close>

definition found :: "pattern \<Rightarrow> string \<Rightarrow> bool" where
  "found r s \<longleftrightarrow> search_from r None s \<noteq> None"

definition matches_whole :: "pattern \<Rightarrow> string \<Rightarrow> bool" where
  "matches_whole r s \<longleftrightarrow> ends (Seq r TextEnd) (start s) \<noteq> []"

text \<open>The text a match covers.\<close>

definition covered :: "place \<Rightarrow> place \<Rightarrow> string" where
  "covered p q = take (length (pl_rest p) - length (pl_rest q)) (pl_rest p)"

section \<open>What the matcher finds\<close>

text \<open>Whatever a pattern matches, the rest of the text is a suffix of what there was.\<close>

definition no_longer :: "place \<Rightarrow> place \<Rightarrow> bool" where
  "no_longer p q \<longleftrightarrow> (\<exists>u. pl_rest p = u @ pl_rest q)"

lemma no_longer_refl [simp]: "no_longer p p"
  by (simp add: no_longer_def)

lemma no_longer_trans: "no_longer p q \<Longrightarrow> no_longer q r \<Longrightarrow> no_longer p r"
  unfolding no_longer_def by (metis append.assoc)

lemma star_ends_no_longer:
  assumes "\<And>p q. q \<in> set (f p) \<Longrightarrow> no_longer p q"
  shows "q \<in> set (star_ends n g f p) \<Longrightarrow> no_longer p q"
proof (induction n arbitrary: p)
  case (Suc n)
  then consider "q = p" | q' where "q' \<in> set (f p)" "q \<in> set (star_ends n g f q')"
    by (auto simp: Let_def split: if_splits)
  then show ?case
    using assms Suc.IH no_longer_trans by cases (simp, blast)
qed simp

lemma ends_no_longer: "q \<in> set (ends r p) \<Longrightarrow> no_longer p q"
proof (induction r arbitrary: p q)
  case (One ok)
  then show ?case
    by (cases "pl_rest p") (auto simp: no_longer_def intro: exI [of _ "[_]"] split: if_splits)
next
  case (Seq r s)
  then show ?case using no_longer_trans by fastforce
next
  case (Star g r)
  have "\<And>p q. q \<in> set (ends r p) \<Longrightarrow> no_longer p q" by (rule Star.IH)
  from star_ends_no_longer [OF this] Star.prems show ?case by simp
next
  case (Group k r)
  then obtain q' where "q' \<in> set (ends r p)" "q = capture k p q'" by auto
  with Group.IH show ?case by (fastforce simp: capture_def no_longer_def)
qed (auto split: if_splits)

lemma ends_shorter: "q \<in> set (ends r p) \<Longrightarrow> length (pl_rest q) \<le> length (pl_rest p)"
  using ends_no_longer [of q r p] by (auto simp: no_longer_def)

text \<open>The declarative reading of a pattern.\<close>

inductive spans :: "pattern \<Rightarrow> place \<Rightarrow> place \<Rightarrow> bool" where
  empty: "spans Empty p p"
| one: "pl_rest p = c # cs \<Longrightarrow> ok c \<Longrightarrow> spans (One ok) p (p\<lparr>pl_before := Some c, pl_rest := cs\<rparr>)"
| seq: "spans r p q \<Longrightarrow> spans s q t \<Longrightarrow> spans (Seq r s) p t"
| alt_left: "spans r p q \<Longrightarrow> spans (Alt r s) p q"
| alt_right: "spans s p q \<Longrightarrow> spans (Alt r s) p q"
| star_stop: "spans (Star g r) p p"
| star_more: "spans r p q \<Longrightarrow> length (pl_rest q) < length (pl_rest p) \<Longrightarrow> spans (Star g r) q t
    \<Longrightarrow> spans (Star g r) p t"
| group: "spans r p q \<Longrightarrow> spans (Group k r) p (capture k p q)"
| word_boundary: "word_before p \<noteq> word_after p \<Longrightarrow> spans WordBoundary p p"
| line_start: "pl_before p = None \<or> pl_before p = Some newline \<Longrightarrow> spans LineStart p p"
| line_end: "pl_rest p = [] \<or> hd (pl_rest p) = newline \<Longrightarrow> spans LineEnd p p"
| text_start: "pl_before p = None \<Longrightarrow> spans TextStart p p"
| text_end: "pl_rest p = [] \<Longrightarrow> spans TextEnd p p"

lemma star_ends_sound:
  assumes "\<And>p q. q \<in> set (ends r p) \<Longrightarrow> spans r p q"
  shows "q \<in> set (star_ends n g (ends r) p) \<Longrightarrow> spans (Star g r) p q"
proof (induction n arbitrary: p)
  case (Suc n)
  then consider "q = p"
    | q' where "q' \<in> set (ends r p)" "length (pl_rest q') < length (pl_rest p)" "q \<in> set (star_ends n g (ends r) q')"
    by (auto simp: Let_def split: if_splits)
  then show ?case
    using assms Suc.IH by cases (auto intro: spans.star_stop spans.star_more)
qed (simp add: spans.star_stop)

lemma ends_sound: "q \<in> set (ends r p) \<Longrightarrow> spans r p q"
proof (induction r arbitrary: p q)
  case (One ok)
  then show ?case by (auto split: list.splits if_splits intro: spans.one)
next
  case (Star g r)
  have "\<And>p q. q \<in> set (ends r p) \<Longrightarrow> spans r p q" by (rule Star.IH)
  from star_ends_sound [OF this] Star.prems show ?case by simp
next
  case (Seq r s)
  then obtain q' where "q' \<in> set (ends r p)" "q \<in> set (ends s q')" by auto
  then show ?case using Seq.IH spans.seq by blast
qed (auto split: if_splits intro: spans.intros)

lemma star_ends_complete:
  "q \<in> set (ends r p) \<Longrightarrow> length (pl_rest q) < length (pl_rest p) \<Longrightarrow>
   t \<in> set (star_ends n g (ends r) q) \<Longrightarrow> t \<in> set (star_ends (Suc n) g (ends r) p)"
  by (auto simp: Let_def)

lemma star_ends_fuel: "t \<in> set (star_ends n g f p) \<Longrightarrow> n \<le> m \<Longrightarrow> t \<in> set (star_ends m g f p)"
proof (induction n arbitrary: p m)
  case 0
  then show ?case by (cases m) (auto simp: Let_def)
next
  case (Suc n)
  then obtain m' where m: "m = Suc m'" "n \<le> m'" by (cases m) auto
  with Suc show ?case by (auto simp: Let_def split: if_splits)
qed

lemma ends_complete: "spans r p q \<Longrightarrow> q \<in> set (ends r p)"
proof (induction rule: spans.induct)
  case (star_more r p q g t)
  obtain n where n: "length (pl_rest p) = Suc n" "length (pl_rest q) \<le> n"
    using star_more.hyps by (cases "length (pl_rest p)") auto
  have "t \<in> set (star_ends n g (ends r) q)"
    using star_more.IH(2) n(2) by (simp add: star_ends_fuel)
  with star_more n(1) show ?case
    by (simp del: star_ends.simps add: star_ends_complete)
next
  case (star_stop g r p)
  then show ?case by (cases "length (pl_rest p)") (simp_all add: Let_def)
qed auto

lemma ends_iff: "q \<in> set (ends r p) \<longleftrightarrow> spans r p q"
  using ends_sound ends_complete by blast

section \<open>Repeated search\<close>

lemma search_from_hit:
  "ends r \<lparr>pl_before = b, pl_rest = s, pl_groups = []\<rparr> = q # qs \<Longrightarrow>
   search_from r b s = Some ([], \<lparr>pl_before = b, pl_rest = s, pl_groups = []\<rparr>, q)"
  by (simp add: search_from.simps [of r b s])

lemma search_from_miss:
  "ends r \<lparr>pl_before = b, pl_rest = s, pl_groups = []\<rparr> = [] \<Longrightarrow>
   search_from r b s = (case s of [] \<Rightarrow> None
     | c # cs \<Rightarrow> map_option (\<lambda>(skipped, pq). (c # skipped, pq)) (search_from r (Some c) cs))"
  by (simp add: search_from.simps [of r b s])

lemma search_from_Some:
  assumes "search_from r b s = Some (sk, p, q)"
  shows "s = sk @ pl_rest p \<and> pl_before p = (if sk = [] then b else Some (last sk)) \<and> pl_groups p = []
    \<and> q \<in> set (ends r p)"
  using assms
proof (induction r b s arbitrary: sk rule: search_from.induct)
  case (1 r b s)
  let ?p = "\<lparr>pl_before = b, pl_rest = s, pl_groups = []\<rparr>"
  show ?case
  proof (cases "ends r ?p")
    case Nil
    with "1.prems" obtain c cs sk' where s: "s = c # cs" "sk = c # sk'" "search_from r (Some c) cs = Some (sk', p, q)"
      by (auto simp: search_from_miss [OF Nil] split: list.splits)
    from "1.IH" [OF refl Nil s(1) s(3)] s(1,2) show ?thesis by auto
  next
    case (Cons q' qs)
    with "1.prems" show ?thesis by (auto simp: search_from_hit [OF Cons])
  qed
qed

lemma search_from_shorter:
  "search_from r b s = Some (sk, p, q) \<Longrightarrow> length (pl_rest q) \<le> length s"
  using search_from_Some [of r b s sk p q] ends_shorter [of q r p] by auto

text \<open>
  \<open>re.findall\<close> and \<open>re.finditer\<close>: successive matches, each searched for from the end of the one before. The patterns
  they are used with never match the empty text (\<open>consuming\<close> below), the only case in which the scan
  would go on otherwise.
\<close>

function find_all :: "pattern \<Rightarrow> char option \<Rightarrow> string \<Rightarrow> (place \<times> place) list" where
  "find_all r b s =
     (case search_from r b s of
        None \<Rightarrow> []
      | Some (skipped, p, q) \<Rightarrow>
          (p, q) # (if length (pl_rest q) < length s then find_all r (pl_before q) (pl_rest q) else []))"
  by pat_completeness auto
termination by (relation "measure (\<lambda>(r, b, s). length s)") auto

declare find_all.simps [simp del]

text \<open>\<open>re.sub\<close>, under the same proviso.\<close>

function sub_all :: "pattern \<Rightarrow> (place \<Rightarrow> place \<Rightarrow> string) \<Rightarrow> char option \<Rightarrow> string \<Rightarrow> string" where
  "sub_all r f b s =
     (case search_from r b s of
        None \<Rightarrow> s
      | Some (skipped, p, q) \<Rightarrow>
          skipped @ f p q @
          (if length (pl_rest q) < length s then sub_all r f (pl_before q) (pl_rest q) else pl_rest q))"
  by pat_completeness auto
termination by (relation "measure (\<lambda>(r, f, b, s). length s)") auto

declare sub_all.simps [simp del]

text \<open>A pattern that uses up at least one character.\<close>

fun consuming :: "pattern \<Rightarrow> bool" where
  "consuming (One _) = True"
| "consuming (Seq r s) = (consuming r \<or> consuming s)"
| "consuming (Alt r s) = (consuming r \<and> consuming s)"
| "consuming (Group k r) = consuming r"
| "consuming _ = False"

lemma consuming_shorter: "spans r p q \<Longrightarrow> consuming r \<Longrightarrow> length (pl_rest q) < length (pl_rest p)"
proof (induction rule: spans.induct)
  case (seq r p q s t)
  have "length (pl_rest q) \<le> length (pl_rest p)" "length (pl_rest t) \<le> length (pl_rest q)"
    using seq.hyps by (auto intro: ends_shorter ends_complete)
  with seq show ?case by auto
qed (simp_all add: capture_def)

lemma consuming_lit [simp]: "consuming (lit w) \<longleftrightarrow> w \<noteq> []" "consuming (lit_i w) \<longleftrightarrow> w \<noteq> []"
  by (induction w) auto

section \<open>Searching\<close>

text \<open>A search succeeds exactly when some position of the text starts a match.\<close>

lemma search_from_found:
  "search_from r b s \<noteq> None \<longleftrightarrow>
     (\<exists>pre post q. s = pre @ post
        \<and> spans r \<lparr>pl_before = (if pre = [] then b else Some (last pre)), pl_rest = post, pl_groups = []\<rparr> q)"
proof (induction s arbitrary: b)
  case Nil
  then show ?case
    by (cases "ends r \<lparr>pl_before = b, pl_rest = [], pl_groups = []\<rparr>")
       (auto simp: search_from_hit search_from_miss ends_iff [symmetric])
next
  case (Cons c cs)
  let ?p = "\<lparr>pl_before = b, pl_rest = c # cs, pl_groups = []\<rparr>"
  let ?at = "\<lambda>b pre post q. spans r \<lparr>pl_before = (if pre = [] then b else Some (last pre)), pl_rest = post, pl_groups = []\<rparr> q"
  have split: "(\<exists>pre post q. c # cs = pre @ post \<and> ?at b pre post q) \<longleftrightarrow>
      (\<exists>q. spans r ?p q) \<or> (\<exists>pre post q. cs = pre @ post \<and> ?at (Some c) pre post q)"
    (is "?all \<longleftrightarrow> ?here \<or> ?later")
  proof
    assume ?all
    then obtain pre post q where all: "c # cs = pre @ post" "?at b pre post q" by blast
    show "?here \<or> ?later"
    proof (cases pre)
      case Nil
      with all show ?thesis by auto
    next
      case (Cons c' pre')
      with all have "cs = pre' @ post" "?at (Some c) pre' post q" by auto
      then show ?thesis by blast
    qed
  next
    assume "?here \<or> ?later"
    then consider q where "spans r ?p q" | pre post q where "cs = pre @ post" "?at (Some c) pre post q" by blast
    then show ?all
    proof cases
      case (1 q)
      then show ?thesis by (intro exI [of _ "[]"] exI [of _ "c # cs"] exI [of _ q]) simp
    next
      case (2 pre post q)
      then show ?thesis by (intro exI [of _ "c # pre"] exI [of _ post] exI [of _ q]) auto
    qed
  qed
  show ?case
  proof (cases "ends r ?p")
    case Nil
    then have "\<not> (\<exists>q. spans r ?p q)" by (simp add: ends_iff [symmetric])
    moreover have "search_from r b (c # cs) \<noteq> None \<longleftrightarrow> search_from r (Some c) cs \<noteq> None"
      by (simp add: search_from_miss [OF Nil])
    ultimately show ?thesis unfolding split Cons.IH by blast
  next
    case (Cons q qs)
    then have "spans r ?p q" by (simp add: ends_iff [symmetric])
    with Cons show ?thesis unfolding split by (auto simp: search_from_hit [OF Cons])
  qed
qed

text \<open>Literal text, read without regard to case.\<close>

definition moved :: "string \<Rightarrow> place \<Rightarrow> place" where
  "moved v p = p\<lparr>pl_before := (if v = [] then pl_before p else Some (last v)), pl_rest := drop (length v) (pl_rest p)\<rparr>"

inductive_cases spans_EmptyE: "spans Empty p q"
inductive_cases spans_OneE: "spans (One ok) p q"
inductive_cases spans_SeqE: "spans (Seq r s) p q"
inductive_cases spans_AltE: "spans (Alt r s) p q"
inductive_cases spans_WordE: "spans WordBoundary p q"

lemma spans_simps:
  "spans Empty p q \<longleftrightarrow> q = p"
  "spans (One ok) p q \<longleftrightarrow> (\<exists>c cs. pl_rest p = c # cs \<and> ok c \<and> q = p\<lparr>pl_before := Some c, pl_rest := cs\<rparr>)"
  "spans (Seq r s) p q \<longleftrightarrow> (\<exists>t. spans r p t \<and> spans s t q)"
  "spans (Alt r s) p q \<longleftrightarrow> spans r p q \<or> spans s p q"
  "spans WordBoundary p q \<longleftrightarrow> q = p \<and> word_before p \<noteq> word_after p"
  by (auto intro: spans.intros elim: spans_EmptyE spans_OneE spans_SeqE spans_AltE spans_WordE)

lemma spans_lit_i:
  "spans (lit_i w) p q \<longleftrightarrow> (\<exists>v. pl_rest p = v @ pl_rest q \<and> lower v = lower w \<and> q = moved v p)"
proof (induction w arbitrary: p)
  case Nil
  then show ?case by (auto simp: spans_simps moved_def)
next
  case (Cons c w)
  show ?case
  proof
    assume "spans (lit_i (c # w)) p q"
    then obtain t where "spans (One (\<lambda>x. lower_char x = lower_char c)) p t" and rest: "spans (lit_i w) t q"
      by (auto elim: spans_SeqE)
    then obtain x cs where t: "pl_rest p = x # cs" "lower_char x = lower_char c"
      "t = p\<lparr>pl_before := Some x, pl_rest := cs\<rparr>" by (auto elim: spans_OneE)
    obtain v where "cs = v @ pl_rest q" "lower v = lower w" "q = moved v t"
      using rest t(3) unfolding Cons.IH by auto
    then have "pl_rest p = (x # v) @ pl_rest q \<and> lower (x # v) = lower (c # w) \<and> q = moved (x # v) p"
      using t(1,2) by (simp add: t(3) moved_def)
    then show "\<exists>v. pl_rest p = v @ pl_rest q \<and> lower v = lower (c # w) \<and> q = moved v p" by blast
  next
    assume "\<exists>v. pl_rest p = v @ pl_rest q \<and> lower v = lower (c # w) \<and> q = moved v p"
    then obtain x v where v: "pl_rest p = x # v @ pl_rest q" "lower_char x = lower_char c" "lower v = lower w"
      "q = moved (x # v) p" by (auto simp: Cons_eq_map_conv)
    then have "spans (lit_i w) (p\<lparr>pl_before := Some x, pl_rest := v @ pl_rest q\<rparr>) q"
      unfolding Cons.IH by (intro exI [of _ v]) (auto simp: moved_def)
    moreover have "spans (One (\<lambda>x. lower_char x = lower_char c)) p (p\<lparr>pl_before := Some x, pl_rest := v @ pl_rest q\<rparr>)"
      using v(1,2) by (rule spans.one)
    ultimately show "spans (lit_i (c # w)) p q" by (auto intro: spans.seq)
  qed
qed

lemma spans_alts: "rs \<noteq> [] \<Longrightarrow> spans (alts rs) p q \<longleftrightarrow> (\<exists>r \<in> set rs. spans r p q)"
  by (induction rs rule: alts.induct) (auto simp: spans_simps)

end
