(* ===== verification/Complexity.thy ===== *)
theory Complexity
  imports Regex
begin

text \<open>
  The heuristic that decides whether an objective needs a planner
  (\<open>src/src/domain/services/task_complexity.py\<close>), with its regular expressions as patterns of \<open>Regex\<close>.
\<close>

section \<open>Assessments\<close>

datatype task_complexity = TRIVIAL | SIMPLE | COMPLEX

fun complexity_value :: "task_complexity \<Rightarrow> string" where
  "complexity_value TRIVIAL = ''TRIVIAL''"
| "complexity_value SIMPLE = ''SIMPLE''"
| "complexity_value COMPLEX = ''COMPLEX''"

definition complexity_requires_plan :: "task_complexity \<Rightarrow> bool" where
  "complexity_requires_plan c \<longleftrightarrow> c \<noteq> TRIVIAL"

record assessment =
  as_complexity :: task_complexity
  as_recommended_candidates :: int
  as_rationale :: string

section \<open>The patterns\<close>

definition multi_step_words :: "string list" where
  "multi_step_words = [''and then'', ''refactor'', ''migrat'', ''architect'', ''redesign'', ''across'',
     ''end-to-end'', ''end-to end'', ''end to-end'', ''end to end'', ''integrat'', ''rewrite'', ''multiple'', ''several'']"

definition trivial_words :: "string list" where
  "trivial_words = [''typo'', ''rename'', ''comment'', ''docstring'', ''bump'', ''format'', ''whitespace'', ''changelog'']"

text \<open>
  \<open>\b(...|...)\b\<close> under \<open>IGNORECASE\<close>. The class \<open>[- ]\<close> of \<open>end[- ]to[- ]end\<close> is written out as four literals.
\<close>

definition whole_word :: "string list \<Rightarrow> pattern" where
  "whole_word ws = Seq WordBoundary (Seq (Group 1 (alts (map lit_i ws))) WordBoundary)"

definition MULTI_STEP :: pattern where
  "MULTI_STEP = whole_word multi_step_words"

definition TRIVIAL_WORDS :: pattern where
  "TRIVIAL_WORDS = whole_word trivial_words"

text \<open>\<open>(?m)^\s*[-*\d]+[.)]?\s+\<close>\<close>

definition BULLET :: pattern where
  "BULLET = Seq LineStart (Seq (many (One py_isspace))
     (Seq (some (One (\<lambda>c. c = CHR ''-'' \<or> c = CHR ''*'' \<or> is_digit c)))
       (Seq (maybe (One (\<lambda>c. c = CHR ''.'' \<or> c = CHR '')''))) (some (One py_isspace)))))"

text \<open>\<open>[\w/]+\.\w{1,5}\b\<close>\<close>

definition PATH :: pattern where
  "PATH = Seq (some (One (\<lambda>c. is_word c \<or> c = CHR ''/'')))
     (Seq (One (\<lambda>c. c = CHR ''.'')) (Seq (times 1 4 (One is_word)) WordBoundary))"

section \<open>The policy\<close>

record heuristic =
  trivial_length :: nat
  complex_length :: nat

definition default_heuristic :: heuristic where
  "default_heuristic = \<lparr>trivial_length = 80, complex_length = 320\<rparr>"

definition assess_objective :: "heuristic \<Rightarrow> string \<Rightarrow> int \<Rightarrow> assessment" where
  "assess_objective h objective max_candidates =
     (let text = strip objective;
          bullet_count = length (find_all BULLET None text);
          path_count = length (find_all PATH None text)
      in if found TRIVIAL_WORDS text \<and> length text \<le> trivial_length h then
           \<lparr>as_complexity = TRIVIAL, as_recommended_candidates = 1,
            as_rationale = ''short, mechanical objective: planner skipped''\<rparr>
         else if found MULTI_STEP text \<or> complex_length h \<le> length text \<or> 3 \<le> bullet_count \<or> 4 \<le> path_count then
           \<lparr>as_complexity = COMPLEX, as_recommended_candidates = min (max 2 max_candidates) max_candidates,
            as_rationale = ''multi-step objective: plan first and try several candidates''\<rparr>
         else
           \<lparr>as_complexity = SIMPLE, as_recommended_candidates = 1,
            as_rationale = ''single-step objective: plan once, one candidate''\<rparr>)"

section \<open>What the vocabulary means\<close>

text \<open>The patterns handed to \<open>findall\<close> use up a character at every match.\<close>

lemma consuming_patterns: "consuming BULLET" "consuming PATH"
  by (simp_all add: BULLET_def PATH_def)

text \<open>A word stands in a text, whatever its case, with no word character next to its ends.\<close>

definition edge :: "char option \<Rightarrow> char option \<Rightarrow> bool" where
  "edge x y \<longleftrightarrow> (case x of None \<Rightarrow> False | Some c \<Rightarrow> is_word c) \<noteq> (case y of None \<Rightarrow> False | Some c \<Rightarrow> is_word c)"

definition last_of :: "string \<Rightarrow> char option" where
  "last_of s = (if s = [] then None else Some (last s))"

definition first_of :: "string \<Rightarrow> char option" where
  "first_of s = (if s = [] then None else Some (hd s))"

definition stands_in :: "string \<Rightarrow> string \<Rightarrow> bool" where
  "stands_in w s \<longleftrightarrow> (\<exists>pre v post. s = pre @ v @ post \<and> lower v = lower w
     \<and> edge (last_of pre) (first_of (v @ post)) \<and> edge (last_of (pre @ v)) (first_of post))"

lemma word_edges:
  "word_before p \<noteq> word_after p \<longleftrightarrow> edge (pl_before p) (first_of (pl_rest p))"
  by (auto simp: word_before_def word_after_def edge_def first_of_def split: list.splits)

lemma word_capture [simp]:
  "word_before (capture k p q) = word_before q" "word_after (capture k p q) = word_after q"
  by (simp_all add: capture_def word_before_def word_after_def)

lemma last_of_append: "last_of (pre @ v) = (if v = [] then last_of pre else Some (last v))"
  by (simp add: last_of_def)

lemma spans_GroupD: "spans (Group k r) p q \<Longrightarrow> \<exists>t. spans r p t \<and> q = capture k p t"
  by (auto elim: spans.cases)

lemma spans_whole_wordD:
  assumes "spans (whole_word ws) p q"
  shows "word_before p \<noteq> word_after p
    \<and> (\<exists>t. spans (alts (map lit_i ws)) p t \<and> (word_before t \<noteq> word_after t))"
proof -
  obtain t where "word_before p \<noteq> word_after p" "spans (Group 1 (alts (map lit_i ws))) p t" "word_before t \<noteq> word_after t"
    using assms unfolding whole_word_def spans_simps by blast
  then show ?thesis by (metis spans_GroupD word_capture)
qed

lemma spans_whole_word:
  assumes "ws \<noteq> []" and p: "pl_rest p = s"
  shows "(\<exists>q. spans (whole_word ws) p q) \<longleftrightarrow>
    (\<exists>w \<in> set ws. \<exists>v post. s = v @ post \<and> lower v = lower w \<and> edge (pl_before p) (first_of s)
       \<and> edge (if v = [] then pl_before p else Some (last v)) (first_of post))"
    (is "?l \<longleftrightarrow> ?r")
proof
  assume ?l
  then obtain t where left: "word_before p \<noteq> word_after p" and t: "spans (alts (map lit_i ws)) p t"
    and right: "word_before t \<noteq> word_after t"
    using spans_whole_wordD [of ws p] by blast
  from t assms(1) obtain w where w: "w \<in> set ws" "spans (lit_i w) p t" by (auto simp: spans_alts)
  then obtain v where v: "pl_rest p = v @ pl_rest t" "lower v = lower w" and t: "t = moved v p"
    unfolding spans_lit_i by blast
  have before: "pl_before t = (if v = [] then pl_before p else Some (last v))" by (simp add: t moved_def)
  have "edge (pl_before p) (first_of s)" using left by (simp only: word_edges p)
  moreover have "edge (if v = [] then pl_before p else Some (last v)) (first_of (pl_rest t))"
    using right by (simp only: word_edges before)
  ultimately show ?r using v p w(1) by (metis (no_types))
next
  assume ?r
  then obtain w v post where w: "w \<in> set ws" "s = v @ post" "lower v = lower w" "edge (pl_before p) (first_of s)"
    "edge (if v = [] then pl_before p else Some (last v)) (first_of post)" by blast
  let ?t = "moved v p"
  have t: "pl_rest ?t = post" using w(2) p by (simp add: moved_def)
  have "spans (lit_i w) p ?t" using w(2,3) p t by (auto simp: spans_lit_i)
  then have "spans (alts (map lit_i ws)) p ?t" using w(1) assms(1) by (auto simp: spans_alts)
  moreover have "word_before p \<noteq> word_after p" "word_before (capture 1 p ?t) \<noteq> word_after (capture 1 p ?t)"
    using w(4,5) p t by (simp_all only: word_edges) (simp_all add: capture_def moved_def)
  ultimately show ?l
    unfolding whole_word_def by (blast intro: spans.intros)
qed

lemma found_whole_word:
  assumes "ws \<noteq> []"
  shows "found (whole_word ws) s \<longleftrightarrow> (\<exists>w \<in> set ws. stands_in w s)"
proof -
  let ?p = "\<lambda>pre post. \<lparr>pl_before = last_of pre, pl_rest = post, pl_groups = []\<rparr>"
  let ?ok = "\<lambda>w pre v post. lower v = lower w \<and> edge (last_of pre) (first_of (v @ post))
      \<and> edge (last_of (pre @ v)) (first_of post)"
  have "found (whole_word ws) s \<longleftrightarrow> (\<exists>pre post. s = pre @ post \<and> (\<exists>q. spans (whole_word ws) (?p pre post) q))"
    unfolding found_def search_from_found last_of_def by blast
  also have "\<dots> \<longleftrightarrow> (\<exists>pre post. s = pre @ post \<and> (\<exists>w \<in> set ws. \<exists>v post'. post = v @ post' \<and> ?ok w pre v post'))"
    unfolding spans_whole_word [OF assms refl] last_of_append by (intro ex_cong1) auto
  also have "\<dots> \<longleftrightarrow> (\<exists>w \<in> set ws. stands_in w s)"
    unfolding stands_in_def by blast
  finally show ?thesis .
qed

section \<open>Properties\<close>

text \<open>
  What the heuristic decides, word by word. An objective is TRIVIAL exactly when it is short and one of the
  mechanical words stands in it as a word of its own, whatever its case; otherwise it is COMPLEX exactly when one of the
  multi-step words does, or it is long, or it lists three points or names four paths. A complex
  objective gets as many candidates as are allowed, every other one a single candidate.
\<close>

theorem objective_assessment:
  "let text = strip objective; a = assess_objective h objective m in
     (as_complexity a = TRIVIAL \<longleftrightarrow> length text \<le> trivial_length h \<and> (\<exists>w \<in> set trivial_words. stands_in w text))
     \<and> (as_complexity a = COMPLEX \<longleftrightarrow> as_complexity a \<noteq> TRIVIAL
          \<and> ((\<exists>w \<in> set multi_step_words. stands_in w text) \<or> complex_length h \<le> length text
             \<or> 3 \<le> length (find_all BULLET None text) \<or> 4 \<le> length (find_all PATH None text)))
     \<and> as_recommended_candidates a = (if as_complexity a = COMPLEX then m else 1)"
proof -
  have words: "trivial_words \<noteq> []" "multi_step_words \<noteq> []"
    by (simp_all add: trivial_words_def multi_step_words_def)
  show ?thesis
    unfolding assess_objective_def Let_def TRIVIAL_WORDS_def MULTI_STEP_def found_whole_word [OF words(1)] found_whole_word [OF words(2)]
    by (simp split: if_splits)
qed

text \<open>
  The vocabulary holds the stems \<open>migrat\<close>, \<open>architect\<close> and \<open>integrat\<close>, which count as words of their own only: in a text
  that is a single word, a word of the vocabulary is found only if it is that word. So \<open>migrate\<close>, \<open>architecture\<close>
  and \<open>integration\<close> are not taken for multi-step vocabulary.
\<close>

lemma stands_in_single_word:
  assumes "\<forall>c \<in> set s. is_word c" and "w \<noteq> []" and "stands_in w s"
  shows "lower w = lower s"
proof -
  obtain pre v post where s: "s = pre @ v @ post" "lower v = lower w" and edges: "edge (last_of pre) (first_of (v @ post))"
    "edge (last_of (pre @ v)) (first_of post)"
    using assms(3) by (auto simp: stands_in_def)
  have v: "v \<noteq> []" using s(2) assms(2) by auto
  then have "is_word (hd v)" "is_word (last v)" using assms(1) s(1) by simp_all
  then have "pre = []" "post = []"
    using edges v assms(1) s(1) by (auto simp: edge_def last_of_def first_of_def split: if_splits)
  with s show ?thesis by simp
qed

lemma stems_never_match:
  "\<not> found MULTI_STEP ''Migrate'' \<and> \<not> found MULTI_STEP ''architecture'' \<and> \<not> found MULTI_STEP ''integration''"
proof -
  have words: "\<not> found MULTI_STEP s" if s: "\<forall>c \<in> set s. is_word c" "lower s \<notin> lower ` set multi_step_words" for s
  proof -
    have ne: "multi_step_words \<noteq> []" "w \<noteq> []" if "w \<in> set multi_step_words" for w
      using that by (auto simp: multi_step_words_def)
    have "\<not> stands_in w s" if "w \<in> set multi_step_words" for w
      using stands_in_single_word [OF s(1) ne(2) [OF that]] s(2) that by (metis imageI)
    then show ?thesis
      by (metis MULTI_STEP_def found_whole_word list.distinct(1) multi_step_words_def)
  qed
  show ?thesis
    by (intro conjI words)
       (simp_all add: is_word_def lower_char_def multi_step_words_def)
qed

end
