(* ===== verification/Operations.thy ===== *)
theory Operations
  imports Execution Progress Registry Complexity
begin

text \<open>
  The run use cases (\<open>src/src/application/use_cases/runs.py\<close>), the maintenance pass
  (\<open>src/src/application/orchestration/maintenance.py\<close>), with the lemmas on failing and stopping a run, on
  idempotency keys and on handing a job back that the theorems of the root theory rest on. The complexity
  policy is a port, the parameter \<open>assess\<close>, of which the heuristic of \<open>Complexity\<close> is the adapter.
\<close>

section \<open>Creating a run\<close>

record create_run_command =
  cr_project_id :: project_id
  cr_objective :: string
  cr_candidate_count :: "int option"
  cr_idempotency_key :: "idempotency_key option"
  cr_metadata :: json_object

text \<open>\<open>command.candidate_count or recommended\<close>: zero counts as unset.\<close>

definition requested_candidates :: "create_run_command \<Rightarrow> assessment \<Rightarrow> int" where
  "requested_candidates cmd a =
     (case cr_candidate_count cmd of
        None \<Rightarrow> as_recommended_candidates a
      | Some n \<Rightarrow> if n = 0 then as_recommended_candidates a else n)"

definition run_metadata :: "create_run_command \<Rightarrow> assessment \<Rightarrow> json_object" where
  "run_metadata cmd a =
     dict_set ''requires_plan'' (JBool (complexity_requires_plan (as_complexity a)))
       (dict_set ''complexity_rationale'' (JStr (as_rationale a))
         (dict_set ''complexity'' (JStr (complexity_value (as_complexity a))) (cr_metadata cmd)))"

definition create_run ::
  "(string \<Rightarrow> int \<Rightarrow> assessment) \<Rightarrow> run_limits \<Rightarrow> world \<Rightarrow> create_run_command \<Rightarrow> moment \<Rightarrow> (world, run) result" where
  "create_run assess limits w cmd now =
     (case (case cr_idempotency_key cmd of
              None \<Rightarrow> None
            | Some k \<Rightarrow> runs_find_by_idempotency_key (w_store w) k) of
        Some replayed \<Rightarrow> (w, Inr replayed)
      | None \<Rightarrow>
          (case dict_get (s_projects (w_store w)) (cr_project_id cmd) of
             None \<Rightarrow> (w, Inl (EntityNotFoundError ''Project'' (project_uuid (cr_project_id cmd))))
           | Some p \<Rightarrow>
               let a = assess (cr_objective cmd) (max_parallel_candidates limits);
                   n = min (requested_candidates cmd a) (max_parallel_candidates limits)
               in attempt w (run_create (RunId (w_supply w)) (pj_id p) (cr_objective cmd) now n (Some limits)
                              (cr_idempotency_key cmd) (run_metadata cmd a)) (\<lambda>r.
                  (w\<lparr>w_store := commit (runs_add (w_store w) r) (r_events r), w_bus := w_bus w @ r_events r,
                     w_supply := w_supply w + 1\<rparr>, Inr (run_row r)))))"

section \<open>Cancelling a run\<close>

fun update_jobs :: "store \<Rightarrow> job list \<Rightarrow> error + store" where
  "update_jobs s [] = Inr s"
| "update_jobs s (j # js) = bind_sum (jobs_update s j) (\<lambda>s1. update_jobs s1 js)"

definition cancel_run :: "world \<Rightarrow> run_id \<Rightarrow> string option \<Rightarrow> moment \<Rightarrow> (world, run) result" where
  "cancel_run w rid reason now =
     (case dict_get (s_runs (w_store w)) rid of
        None \<Rightarrow> (w, Inl (EntityNotFoundError ''Run'' (run_uuid rid)))
      | Some r \<Rightarrow>
          (case run_request_cancellation r now reason of
             (r1, Inl e) \<Rightarrow> (w, Inl e)
           | (r1, Inr False) \<Rightarrow> (w, Inr r1)
           | (r1, Inr True) \<Rightarrow>
               let jobs = map (\<lambda>j. job_cancel j now) (jobs_list_by_run (w_store w) (r_id r1));
                   cands = map (\<lambda>c. cand_cancel c now) (candidates_list_by_run (w_store w) (r_id r1)) in
               attempt w (bind_sum (update_jobs (w_store w) jobs) (\<lambda>s1.
                 bind_sum (update_candidates s1 cands) (\<lambda>s2.
                 bind_sum (settled (run_confirm_cancelled r1 now reason)) (\<lambda>r2.
                 bind_sum (runs_update s2 r2) (\<lambda>s3.
                 let es = concat (map c_events cands) @ r_events r2 in Inr (commit s3 es, es, r2)))))) (\<lambda>(s, es, r2).
               (w\<lparr>w_store := s, w_bus := w_bus w @ es, w_queue := fst (memq_cancel_run_jobs (w_queue w) rid)\<rparr>,
                Inr (run_row r2)))))"

section \<open>Maintenance\<close>

text \<open>\<open>MaintenanceLoop._requeue\<close> with an orchestrator attached.\<close>

definition requeue :: "workspaces \<Rightarrow> world \<Rightarrow> job_id \<Rightarrow> moment \<Rightarrow> (world, bool) result" where
  "requeue ws w i now =
     (case dict_get (s_jobs (w_store w)) i of
        None \<Rightarrow> (w, Inr False)
      | Some job \<Rightarrow>
          if job_is_terminal (j_status job) then (w, Inr False)
          else
            let (job1, retryable) = job_expire_lease job now in
            attempt w (if retryable then settled (job_requeue job1 now ''lease expired: the worker stopped reporting'')
                       else Inr job1) (\<lambda>job2.
            attempt w (jobs_update (w_store w) job2) (\<lambda>s.
              let w1 = w\<lparr>w_store := commit s (j_events job2), w_bus := w_bus w @ j_events job2\<rparr>;
                  job3 = job2\<lparr>j_events := []\<rparr> in
              if retryable then (w1\<lparr>w_queue := memq_enqueue (w_queue w1) job3\<rparr>, Inr True)
              else bind_outcome (handle_dead_job ws w1 job3 now) (\<lambda>w2 _. (w2, Inr False)))))"

fun requeue_all :: "workspaces \<Rightarrow> world \<Rightarrow> job_id list \<Rightarrow> moment \<Rightarrow> (world, job_id list) result" where
  "requeue_all ws w [] now = (w, Inr [])"
| "requeue_all ws w (i # is) now =
     bind_outcome (requeue ws w i now) (\<lambda>w1 b.
     bind_outcome (requeue_all ws w1 is now) (\<lambda>w2 ids. (w2, Inr (if b then i # ids else ids))))"

text \<open>One pass: start pending runs, reap silent workers, recover the jobs of lapsed leases.\<close>

definition tick ::
  "workspaces \<Rightarrow> orchestrator_config \<Rightarrow> nat \<Rightarrow> duration \<Rightarrow> world \<times> registry \<Rightarrow> moment
   \<Rightarrow> (world \<times> registry, job_id list) result" where
  "tick ws cfg batch heartbeat_timeout st now =
     (let (w, g) = st in
      case start_pending_runs ws cfg w now of
        (w1, Inl e) \<Rightarrow> ((w1, g), Inl e)
      | (w1, Inr _) \<Rightarrow>
          let (g1, _, es) = reap_stale_workers g now heartbeat_timeout;
              w2 = w1\<lparr>w_bus := w_bus w1 @ es\<rparr> in
          (case memq_reclaim_expired (w_queue w2) now batch of
             (q, Inl e) \<Rightarrow> ((w2\<lparr>w_queue := q\<rparr>, g1), Inl e)
           | (q, Inr expired) \<Rightarrow>
               (case requeue_all ws (w2\<lparr>w_queue := q\<rparr>) expired now of
                  (w3, Inl e) \<Rightarrow> ((w3, g1), Inl e)
                | (w3, Inr ids) \<Rightarrow> ((w3, g1), Inr ids))))"

section \<open>Failing a run\<close>

lemma run_can_fail: "\<not> run_is_terminal s \<Longrightarrow> run_can s RUN_FAILED"
  by (cases s) (simp_all add: run_can_def allowed_from_def)

lemma run_fail_live:
  assumes "\<not> run_is_terminal (r_status r)"
  obtains r1 where "settled (run_fail r now k reason) = Inr r1" "r_id r1 = r_id r" "r_status r1 = RUN_FAILED"
    "r_failure_kind r1 = Some k" "r_failure_reason r1 = Some reason"
proof
  let ?r1 = "fst (run_fail r now k reason)"
  show "settled (run_fail r now k reason) = Inr ?r1" "r_id ?r1 = r_id r" "r_status ?r1 = RUN_FAILED"
    "r_failure_kind ?r1 = Some k" "r_failure_reason ?r1 = Some reason"
    using assms run_can_fail [OF assms] by (simp_all add: run_step_simps)
qed

lemma commit_frame [simp]:
  "s_runs (commit s es) = s_runs s" "s_jobs (commit s es) = s_jobs s"
  "s_candidates (commit s es) = s_candidates s" "s_projects (commit s es) = s_projects s"
  by (simp_all add: commit_def)

lemma run_row_simps [simp]:
  "r_status (run_row r) = r_status r" "r_id (run_row r) = r_id r" "r_failure_kind (run_row r) = r_failure_kind r"
  "r_failure_reason (run_row r) = r_failure_reason r" "r_idempotency_key (run_row r) = r_idempotency_key r"
  "r_candidate_count (run_row r) = r_candidate_count r" "r_events (run_row r) = []"
  by (simp_all add: run_row_def)

lemma job_row_simps [simp]:
  "j_status (job_row j) = j_status j" "j_id (job_row j) = j_id j" "j_run_id (job_row j) = j_run_id j"
  "j_lease (job_row j) = j_lease j" "j_attempt (job_row j) = j_attempt j" "j_max_attempts (job_row j) = j_max_attempts j"
  by (simp_all add: job_row_def)

lemma handle_dead_job_fails_run:
  assumes "dict_get (s_runs (w_store w)) (j_run_id job) = Some r" and "r_id r = j_run_id job"
    and "\<not> run_is_terminal (r_status r)" and "\<And>i. ws_release_run ws i = Inr ()"
  shows "\<exists>w' r'. handle_dead_job ws w job now = (w', Inr ()) \<and> w_queue w' = w_queue w
    \<and> s_jobs (w_store w') = s_jobs (w_store w)
    \<and> dict_get (s_runs (w_store w')) (j_run_id job) = Some r' \<and> r_status r' = RUN_FAILED
    \<and> r_failure_kind r' = Some (or_else (j_failure_kind job) FK_INFRASTRUCTURE)"
proof -
  obtain r1 where r1: "settled (run_fail r now (or_else (j_failure_kind job) FK_INFRASTRUCTURE)
      (or_else (nonempty (j_failure_reason job)) (exhausted_reason job))) = Inr r1"
    "r_id r1 = r_id r" "r_status r1 = RUN_FAILED"
    "r_failure_kind r1 = Some (or_else (j_failure_kind job) FK_INFRASTRUCTURE)"
    by (rule run_fail_live [OF assms(3)])
  then show ?thesis
    using assms by (simp add: handle_dead_job_def runs_update_def)
qed

section \<open>Failing a job\<close>

lemma job_fail_status:
  assumes "\<not> job_is_terminal (j_status job)"
  shows "j_status (fst (job_fail job None now k reason (Some b))) =
           (if b \<and> j_attempt job < j_max_attempts job then JOB_FAILED else JOB_DEAD)"
    and "j_id (fst (job_fail job None now k reason (Some b))) = j_id job"
    and "j_run_id (fst (job_fail job None now k reason (Some b))) = j_run_id job"
    and "j_attempt (fst (job_fail job None now k reason (Some b))) = j_attempt job"
    and "j_max_attempts (fst (job_fail job None now k reason (Some b))) = j_max_attempts job"
    and "j_lease (fst (job_fail job None now k reason (Some b))) = None"
  using assms by (simp_all add: job_fail_def Let_def)

lemma requeue_failed_job:
  assumes "j_status job = JOB_FAILED" and "j_attempt job < j_max_attempts job"
  obtains job1 where "job_requeue job now reason = (job1, Inr ())" "j_status job1 = JOB_QUEUED" "j_id job1 = j_id job"
proof -
  have "job_requeue job now reason = (fst (job_requeue job now reason), Inr ())"
    "j_status (fst (job_requeue job now reason)) = JOB_QUEUED" "j_id (fst (job_requeue job now reason)) = j_id job"
    using assms by (simp_all add: job_requeue_def)
  then show thesis by (rule that)
qed

lemma release_requeues:
  assumes "memq_inv q" and "memq_stored q i = Some qj" and "queue_holds qj tok"
  obtains q' k where "memq_release q i tok True = (q', Inr ())" "memq_inv q'" "memq_stored q' i = Some k"
    "j_status k = JOB_QUEUED" "j_id k = i" "j_type k = j_type qj" "j_run_id k = j_run_id qj" "claimable q' [j_type qj] k"
proof -
  have j: "dict_get (q_jobs q) i = Some qj" using assms(2) by (simp add: memq_stored_def)
  note eq = memq_release_held [OF assms(1) j assms(3), of True]
  let ?q' = "fst (memq_release q i tok True)"
  let ?k = "rebuild qj\<lparr>j_status := JOB_QUEUED, j_lease := None, j_assigned_worker_id := None\<rparr>"
  have k: "dict_get (q_jobs ?q') i = Some ?k" by (simp add: eq Let_def add_ready_def)
  have id: "j_id qj = i" by (rule entry_okD(1) [OF assms(1) j])
  show thesis
  proof (rule that [of ?q' ?k])
    show "memq_release q i tok True = (?q', Inr ())" by (simp add: eq Let_def)
    show "memq_inv ?q'" by (rule memq_release_inv [OF assms(1)])
    show "memq_stored ?q' i = Some ?k" using k by (simp add: memq_stored_def)
    show "claimable ?q' [j_type qj] ?k" using k id by (simp add: claimable_def)
  qed (simp_all add: id)
qed

lemma handle_failure_retries:
  assumes "\<not> job_is_terminal (j_status job)" and "dict_get (s_jobs (w_store w)) (j_id job) \<noteq> None"
    and "memq_inv (w_queue w)" and "memq_stored (w_queue w) (j_id job) = Some qj" and "queue_holds qj (l_token lease)"
    and "rp_max_attempts policy \<le> j_max_attempts job" and "rp_max_structured_output_repairs policy \<le> j_max_attempts job"
    and True: "should_retry_job (decide policy (classify e) (j_attempt job))"
  shows "\<exists>w' j k. handle_failure sv ws cfg policy w job lease e now = (w', Inr ())
    \<and> dict_get (s_jobs (w_store w')) (j_id job) = Some j \<and> j_status j = JOB_QUEUED
    \<and> memq_stored (w_queue w') (j_id job) = Some k \<and> j_status k = JOB_QUEUED"
proof -
  let ?job1 = "fst (job_fail job None now (classify e) (sv_text sv e) (Some True))"
  have "j_attempt job < j_max_attempts job"
    using True assms(6,7) by (auto simp: decide_retries_iff retry_budget_def split: if_splits)
  then have failed: "j_status (job_row ?job1) = JOB_FAILED" "j_id ?job1 = j_id job"
      "j_attempt (job_row ?job1) < j_max_attempts (job_row ?job1)"
    using job_fail_status [OF assms(1), of now "classify e" "sv_text sv e" True] by simp_all
  obtain job2 where requeued: "job_requeue (job_row ?job1) now (rd_reason (decide policy (classify e) (j_attempt job))) = (job2, Inr ())"
      "j_status job2 = JOB_QUEUED" "j_id job2 = j_id job"
    by (rule requeue_failed_job [OF failed(1,3)]) (simp add: failed(2))
  obtain q' k where q': "memq_release (w_queue w) (j_id job) (l_token lease) True = (q', Inr ())"
      "memq_stored q' (j_id job) = Some k" "j_status k = JOB_QUEUED" "claimable q' [j_type qj] k" "memq_inv q'"
    by (rule release_requeues [OF assms(3-5)])
  have "\<exists>k. memq_stored (memq_enqueue q' job2) (j_id job) = Some k \<and> j_status k = JOB_QUEUED"
    using requeued(3) q'(2,3) by (auto simp: memq_enqueue_def memq_stored_def Let_def add_ready_def)
  then show ?thesis
    using True assms(2) q'(1) failed(2) requeued
    by (simp add: handle_failure_def jobs_update_def Let_def)
qed

lemma handle_failure_gives_up:
  assumes "\<not> job_is_terminal (j_status job)" and "dict_get (s_jobs (w_store w)) (j_id job) \<noteq> None"
    and "memq_inv (w_queue w)" and "memq_stored (w_queue w) (j_id job) = Some qj" and "queue_holds qj (l_token lease)"
    and "dict_get (s_runs (w_store w)) (j_run_id job) = Some r" and "r_id r = j_run_id job"
    and False: "\<not> should_retry_job (decide policy (classify e) (j_attempt job))"
  shows "\<exists>w' j r'. handle_failure sv ws cfg policy w job lease e now = (w', Inr ())
    \<and> dict_get (s_jobs (w_store w')) (j_id job) = Some j \<and> j_status j = JOB_DEAD
    \<and> dict_get (s_runs (w_store w')) (j_run_id job) = Some r' \<and> run_is_terminal (r_status r')"
proof -
  let ?job1 = "fst (job_fail job None now (classify e) (sv_text sv e) (Some False))"
  note failed = job_fail_status [OF assms(1), of now "classify e" "sv_text sv e" False]
  have rel: "\<exists>q'. memq_release (w_queue w) (j_id job) (l_token lease) False = (q', Inr ())"
    using assms(4) memq_release_held [OF assms(3) _ assms(5), of "j_id job" False]
    by (simp add: memq_stored_def Let_def)
  have defect: "\<not> is_code_defect (classify e)" by (rule classify_not_defect)
  show ?thesis
  proof (cases "run_is_terminal (r_status r)")
    case True
    then show ?thesis
      using False assms(2,6) rel failed(1,2) defect
      by (auto simp: handle_failure_def jobs_update_def Let_def fail_run_def advance_def)
  next
    case live: False
    obtain r1 where r1: "settled (run_fail r now (classify e) (sv_text sv e)) = Inr r1" "r_id r1 = r_id r"
        "r_status r1 = RUN_FAILED"
      by (rule run_fail_live [OF live])
    then show ?thesis
      using False live assms(2,6,7) rel failed(1,2) defect
      by (auto simp: handle_failure_def jobs_update_def runs_update_def Let_def fail_run_def advance_def)
  qed
qed

section \<open>Idempotency keys\<close>

lemma find_set_new:
  "find P (map snd d) = None \<Longrightarrow> P v \<Longrightarrow> find P (map snd (dict_set i v d)) = Some v"
  by (induction d) (auto split: if_splits)

lemma run_create_Inr:
  assumes "run_create i p obj now n (Some limits) key meta = Inr r"
  shows "r_idempotency_key r = key" "r_status r = RUN_CREATED" "1 \<le> r_candidate_count r"
    "r_candidate_count r \<le> max_parallel_candidates limits" "length (r_events r) = 1"
  using assms by (auto simp: run_create_def mk_run_def record_event_def run_record_def split: if_splits)

lemma create_run_new:
  assumes "create_run assess limits w cmd now = (w', Inr r)" and "cr_idempotency_key cmd = Some k"
    and "runs_find_by_idempotency_key (w_store w) k = None"
  obtains r1 where "r = run_row r1"
    "w' = w\<lparr>w_store := commit (runs_add (w_store w) r1) (r_events r1), w_bus := w_bus w @ r_events r1,
            w_supply := w_supply w + 1\<rparr>"
    "r_idempotency_key r1 = Some k" "r_status r1 = RUN_CREATED" "1 \<le> r_candidate_count r1"
    "r_candidate_count r1 \<le> max_parallel_candidates limits" "length (r_events r1) = 1"
proof -
  obtain p where p: "dict_get (s_projects (w_store w)) (cr_project_id cmd) = Some p"
    using assms by (cases "dict_get (s_projects (w_store w)) (cr_project_id cmd)") (simp_all add: create_run_def)
  let ?a = "assess (cr_objective cmd) (max_parallel_candidates limits)"
  let ?m = "run_create (RunId (w_supply w)) (pj_id p) (cr_objective cmd) now
      (min (requested_candidates cmd ?a) (max_parallel_candidates limits)) (Some limits) (Some k) (run_metadata cmd ?a)"
  obtain r1 where r1: "?m = Inr r1" using assms p by (cases ?m) (simp_all add: create_run_def)
  show thesis
    using assms p by (intro that [of r1]) (simp_all add: create_run_def r1 run_create_Inr [OF r1])
qed

section \<open>Stopping a run\<close>

text \<open>Every row is stored under the id of its aggregate, once.\<close>

definition store_keyed :: "store \<Rightarrow> bool" where
  "store_keyed s \<longleftrightarrow>
     dict_wf (s_runs s) \<and> dict_wf (s_jobs s) \<and> dict_wf (s_candidates s)
   \<and> (\<forall>(i, r) \<in> set (s_runs s). r_id r = i) \<and> (\<forall>(i, j) \<in> set (s_jobs s). j_id j = i)
   \<and> (\<forall>(i, c) \<in> set (s_candidates s). c_id c = i)"

lemma stored_run_id: "store_keyed s \<Longrightarrow> dict_get (s_runs s) i = Some r \<Longrightarrow> r_id r = i"
  by (auto simp: store_keyed_def dest: map_of_SomeD)

lemma listed_jobs:
  assumes "store_keyed s" and "j \<in> set (jobs_list_by_run s r)"
  shows "j_run_id j = r" and "dict_get (s_jobs s) (j_id j) = Some j"
  using assms by (auto simp: store_keyed_def jobs_list_by_run_def simp flip: dict_wf_mem_iff)

lemma stored_job_listed:
  "store_keyed s \<Longrightarrow> dict_get (s_jobs s) i = Some j \<Longrightarrow> j_run_id j = r \<Longrightarrow> j \<in> set (jobs_list_by_run s r) \<and> j_id j = i"
  by (auto simp: store_keyed_def jobs_list_by_run_def intro: rev_image_eqI dest!: map_of_SomeD)

lemma listed_candidates:
  assumes "store_keyed s" and "c \<in> set (candidates_list_by_run s r)"
  shows "c_run_id c = r" and "dict_get (s_candidates s) (c_id c) = Some c"
  using assms by (auto simp: store_keyed_def candidates_list_by_run_def simp flip: dict_wf_mem_iff)

lemma stored_candidate_listed:
  "store_keyed s \<Longrightarrow> dict_get (s_candidates s) i = Some c \<Longrightarrow> c_run_id c = r
   \<Longrightarrow> c \<in> set (candidates_list_by_run s r) \<and> c_id c = i"
  by (auto simp: store_keyed_def candidates_list_by_run_def intro: rev_image_eqI dest!: map_of_SomeD)

lemma update_jobs_effect:
  assumes "\<forall>j \<in> set js. dict_get (s_jobs s) (j_id j) \<noteq> None"
  obtains s' where "update_jobs s js = Inr s'" "s_runs s' = s_runs s" "s_candidates s' = s_candidates s"
    "\<And>i. i \<notin> j_id ` set js \<Longrightarrow> dict_get (s_jobs s') i = dict_get (s_jobs s) i"
    "\<And>i. i \<in> j_id ` set js \<Longrightarrow> \<exists>j \<in> set js. j_id j = i \<and> dict_get (s_jobs s') i = Some (job_row j)"
  using assms
proof (induction js arbitrary: s thesis)
  case (Cons j js)
  let ?s = "s\<lparr>s_jobs := dict_set (j_id j) (job_row j) (s_jobs s)\<rparr>"
  have "\<forall>k \<in> set js. dict_get (s_jobs ?s) (j_id k) \<noteq> None" using Cons.prems(2) by simp
  then obtain s' where s': "update_jobs ?s js = Inr s'" "s_runs s' = s_runs s" "s_candidates s' = s_candidates s"
      "\<And>i. i \<notin> j_id ` set js \<Longrightarrow> dict_get (s_jobs s') i = dict_get (s_jobs ?s) i"
      "\<And>i. i \<in> j_id ` set js \<Longrightarrow> \<exists>k \<in> set js. j_id k = i \<and> dict_get (s_jobs s') i = Some (job_row k)"
    using Cons.IH [of ?s] by auto
  show ?case
  proof (rule Cons.prems(1) [of s'])
    show "update_jobs s (j # js) = Inr s'" using s'(1) Cons.prems(2) by (simp add: jobs_update_def bind_sum_def)
    show "\<exists>k \<in> set (j # js). j_id k = i \<and> dict_get (s_jobs s') i = Some (job_row k)"
      if "i \<in> j_id ` set (j # js)" for i
      using that s'(4,5) [of i] by (cases "i \<in> j_id ` set js") auto
  qed (use s' in auto)
qed simp

lemma update_candidates_effect:
  assumes "\<forall>c \<in> set cs. dict_get (s_candidates s) (c_id c) \<noteq> None"
  obtains s' where "update_candidates s cs = Inr s'" "s_runs s' = s_runs s" "s_jobs s' = s_jobs s"
    "\<And>i. i \<notin> c_id ` set cs \<Longrightarrow> dict_get (s_candidates s') i = dict_get (s_candidates s) i"
    "\<And>i. i \<in> c_id ` set cs \<Longrightarrow> \<exists>c \<in> set cs. c_id c = i \<and> dict_get (s_candidates s') i = Some (candidate_row c)"
  using assms
proof (induction cs arbitrary: s thesis)
  case (Cons c cs)
  let ?s = "s\<lparr>s_candidates := dict_set (c_id c) (candidate_row c) (s_candidates s)\<rparr>"
  have "\<forall>k \<in> set cs. dict_get (s_candidates ?s) (c_id k) \<noteq> None" using Cons.prems(2) by simp
  then obtain s' where s': "update_candidates ?s cs = Inr s'" "s_runs s' = s_runs s" "s_jobs s' = s_jobs s"
      "\<And>i. i \<notin> c_id ` set cs \<Longrightarrow> dict_get (s_candidates s') i = dict_get (s_candidates ?s) i"
      "\<And>i. i \<in> c_id ` set cs \<Longrightarrow> \<exists>k \<in> set cs. c_id k = i \<and> dict_get (s_candidates s') i = Some (candidate_row k)"
    using Cons.IH [of ?s] by auto
  show ?case
  proof (rule Cons.prems(1) [of s'])
    show "update_candidates s (c # cs) = Inr s'" using s'(1) Cons.prems(2) by (simp add: candidates_update_def bind_sum_def)
    show "\<exists>k \<in> set (c # cs). c_id k = i \<and> dict_get (s_candidates s') i = Some (candidate_row k)"
      if "i \<in> c_id ` set (c # cs)" for i
      using that s'(4,5) [of i] by (cases "i \<in> c_id ` set cs") auto
  qed (use s' in auto)
qed simp

lemma job_cancel_simps [simp]:
  "j_id (job_cancel j now) = j_id j" "j_run_id (job_cancel j now) = j_run_id j" "job_is_terminal (j_status (job_cancel j now))"
  by (simp_all add: job_cancel_def)

lemma cand_cancel_simps [simp]:
  "c_id (cand_cancel c now) = c_id c" "c_run_id (cand_cancel c now) = c_run_id c"
  "candidate_is_terminal (c_status (cand_cancel c now))"
  by (simp_all add: cand_cancel_def cand_finish_def)

lemma run_cancel_live:
  assumes "\<not> run_is_terminal (r_status r)" and "r_status r \<noteq> RUN_CANCELLING"
  obtains r1 r2 where "run_request_cancellation r now reason = (r1, Inr True)" "r_id r1 = r_id r"
    "settled (run_confirm_cancelled r1 now reason) = Inr r2" "r_id r2 = r_id r" "r_status r2 = RUN_CANCELLED"
proof
  let ?r1 = "fst (run_request_cancellation r now reason)"
  let ?r2 = "fst (run_confirm_cancelled ?r1 now reason)"
  show "run_request_cancellation r now reason = (?r1, Inr True)" "r_id ?r1 = r_id r"
    "settled (run_confirm_cancelled ?r1 now reason) = Inr ?r2" "r_id ?r2 = r_id r" "r_status ?r2 = RUN_CANCELLED"
    using assms by (simp_all add: run_step_simps)
qed

abbreviation demo_published_job :: job where
  "demo_published_job \<equiv> demo_job\<lparr>j_status := JOB_QUEUED\<rparr>"

abbreviation demo_abandoned_world :: world where
  "demo_abandoned_world \<equiv> \<lparr>w_store = \<lparr>s_projects = [(ProjectId 3, demo_project)],
       s_runs = [(RunId 2, demo_stored_run\<lparr>r_status := RUN_CODING\<rparr>)], s_jobs = [(JobId 1, demo_published_job)],
       s_candidates = [], s_plans = [], s_reviews = [], s_tool_results = [], s_events = []\<rparr>,
     w_queue = fst (memq_step demo_queue demo_claim), w_bus = [], w_supply = 10\<rparr>"

end
