(* ===== verification/Bus.thy ===== *)
theory Bus
  imports Run
begin

text \<open>
  The in-process event bus (\<open>InMemoryEventBus\<close> and \<open>InMemoryRunEventStream\<close> of
  \<open>src/src/infrastructure/queue/in_memory.py\<close>): publication, subscription, reading and closing. A stream is known
  by the number it got when it was created, which stands for the identity of the Python object. What a
  subscriber that keeps up receives is determined for every interleaving of publications and reads.
\<close>

section \<open>Streams\<close>

definition DEFAULT_SUBSCRIBER_BACKLOG :: int where
  "DEFAULT_SUBSCRIBER_BACKLOG = 10000"

text \<open>The item \<open>None\<close> ends the iteration.\<close>

record run_stream =
  rs_run :: run_id
  rs_backlog :: int
  rs_items :: "event option list"
  rs_closed :: bool

text \<open>An \<open>asyncio.Queue\<close> with a bound that is not positive has no bound.\<close>

definition stream_put :: "event option \<Rightarrow> run_stream \<Rightarrow> run_stream" where
  "stream_put item s =
     (if 0 < rs_backlog s \<and> rs_backlog s \<le> int (length (rs_items s))
      then s\<lparr>rs_items := tl (rs_items s) @ [item]\<rparr>
      else s\<lparr>rs_items := rs_items s @ [item]\<rparr>)"

definition stream_offer :: "event \<Rightarrow> run_stream \<Rightarrow> run_stream" where
  "stream_offer e s =
     (if rs_closed s then s
      else let s1 = stream_put (Some e) s in
           if is_terminal_for_run e then stream_put None (s1\<lparr>rs_closed := True\<rparr>) else s1)"

section \<open>The bus\<close>

record event_bus =
  eb_backlog :: int
  eb_streams :: "(nat, run_stream) dict"
  eb_subscribers :: "(run_id, nat list) dict"
  eb_next :: nat

definition bus_empty :: "int \<Rightarrow> event_bus" where
  "bus_empty backlog = \<lparr>eb_backlog = backlog, eb_streams = [], eb_subscribers = [], eb_next = 0\<rparr>"

definition subscribers_of :: "event_bus \<Rightarrow> run_id \<Rightarrow> nat list" where
  "subscribers_of b r = (case dict_get (eb_subscribers b) r of None \<Rightarrow> [] | Some is \<Rightarrow> is)"

definition bus_unsubscribe :: "event_bus \<Rightarrow> run_id \<Rightarrow> nat \<Rightarrow> event_bus" where
  "bus_unsubscribe b r i =
     (case dict_get (eb_subscribers b) r of
        None \<Rightarrow> b
      | Some is \<Rightarrow>
          let left = remove1 i is in
          if left = [] then b\<lparr>eb_subscribers := dict_pop r (eb_subscribers b)\<rparr>
          else b\<lparr>eb_subscribers := dict_set r left (eb_subscribers b)\<rparr>)"

definition bus_offer :: "event \<Rightarrow> nat \<Rightarrow> event_bus \<Rightarrow> event_bus" where
  "bus_offer e i b =
     (case dict_get (eb_streams b) i of
        None \<Rightarrow> b
      | Some s \<Rightarrow>
          let b1 = b\<lparr>eb_streams := dict_set i (stream_offer e s) (eb_streams b)\<rparr> in
          if \<not> rs_closed s \<and> is_terminal_for_run e then bus_unsubscribe b1 (rs_run s) i else b1)"

definition bus_publish_one :: "event_bus \<Rightarrow> event \<Rightarrow> event_bus" where
  "bus_publish_one b e =
     (case run_id_of e of None \<Rightarrow> b | Some r \<Rightarrow> fold (bus_offer e) (subscribers_of b r) b)"

definition bus_publish :: "event_bus \<Rightarrow> event list \<Rightarrow> event_bus" where
  "bus_publish b es = foldl bus_publish_one b es"

definition bus_subscribe :: "event_bus \<Rightarrow> run_id \<Rightarrow> event_bus \<times> nat" where
  "bus_subscribe b r =
     (let i = eb_next b;
          s = \<lparr>rs_run = r, rs_backlog = eb_backlog b, rs_items = [], rs_closed = False\<rparr> in
      (b\<lparr>eb_streams := dict_set i s (eb_streams b),
         eb_subscribers := dict_set r (subscribers_of b r @ [i]) (eb_subscribers b), eb_next := i + 1\<rparr>, i))"

text \<open>\<open>__anext__\<close>: the item taken from the queue, or nothing while the reader has to wait.\<close>

definition stream_next :: "event_bus \<Rightarrow> nat \<Rightarrow> event_bus \<times> event option option" where
  "stream_next b i =
     (case dict_get (eb_streams b) i of
        None \<Rightarrow> (b, None)
      | Some s \<Rightarrow>
          (case rs_items s of
             [] \<Rightarrow> (b, None)
           | x # xs \<Rightarrow> (b\<lparr>eb_streams := dict_set i (s\<lparr>rs_items := xs\<rparr>) (eb_streams b)\<rparr>, Some x)))"

definition stream_aclose :: "event_bus \<Rightarrow> nat \<Rightarrow> event_bus" where
  "stream_aclose b i =
     (case dict_get (eb_streams b) i of
        None \<Rightarrow> b
      | Some s \<Rightarrow>
          bus_unsubscribe (b\<lparr>eb_streams := dict_set i (stream_put None (s\<lparr>rs_closed := True\<rparr>)) (eb_streams b)\<rparr>) (rs_run s) i)"

section \<open>Invariant\<close>

text \<open>Every open stream is registered under its run, once, and only streams of the run are.\<close>

definition wf_bus :: "event_bus \<Rightarrow> bool" where
  "wf_bus b \<longleftrightarrow>
     (\<forall>r. distinct (subscribers_of b r)
        \<and> (\<forall>i \<in> set (subscribers_of b r). \<exists>s. dict_get (eb_streams b) i = Some s \<and> rs_run s = r))
   \<and> (\<forall>i s. dict_get (eb_streams b) i = Some s \<longrightarrow>
        i < eb_next b \<and> (\<not> rs_closed s \<longrightarrow> i \<in> set (subscribers_of b (rs_run s))))"

lemma wf_busD:
  assumes "wf_bus b"
  shows "distinct (subscribers_of b r)"
    and "i \<in> set (subscribers_of b r) \<Longrightarrow> \<exists>s. dict_get (eb_streams b) i = Some s \<and> rs_run s = r"
    and "dict_get (eb_streams b) i = Some s \<Longrightarrow> i < eb_next b"
    and "dict_get (eb_streams b) i = Some s \<Longrightarrow> \<not> rs_closed s \<Longrightarrow> i \<in> set (subscribers_of b (rs_run s))"
  using assms unfolding wf_bus_def by blast+

lemma stream_put_simps [simp]:
  "rs_run (stream_put x s) = rs_run s" "rs_closed (stream_put x s) = rs_closed s"
  "rs_backlog (stream_put x s) = rs_backlog s"
  by (simp_all add: stream_put_def)

lemma stream_offer_simps [simp]:
  "rs_run (stream_offer e s) = rs_run s" "rs_backlog (stream_offer e s) = rs_backlog s"
  "rs_closed (stream_offer e s) \<longleftrightarrow> rs_closed s \<or> is_terminal_for_run e"
  by (simp_all add: stream_offer_def Let_def)

lemma stream_offer_closed [simp]: "rs_closed s \<Longrightarrow> stream_offer e s = s"
  by (simp add: stream_offer_def)

lemma bus_unsubscribe_simps [simp]:
  "eb_streams (bus_unsubscribe b r i) = eb_streams b" "eb_next (bus_unsubscribe b r i) = eb_next b"
  "eb_backlog (bus_unsubscribe b r i) = eb_backlog b"
  "subscribers_of (bus_unsubscribe b r i) q = (if q = r then remove1 i (subscribers_of b r) else subscribers_of b q)"
  by (auto simp: bus_unsubscribe_def subscribers_of_def Let_def split: option.splits)

lemma subscribers_of_streams [simp]: "subscribers_of (b\<lparr>eb_streams := d\<rparr>) r = subscribers_of b r"
  by (simp add: subscribers_of_def)

text \<open>Replacing a stream by a later state of it, and taking it off its run when that state is closed.\<close>

lemma wf_bus_replace:
  assumes "wf_bus b" and "dict_get (eb_streams b) i = Some s" and "rs_run s' = rs_run s"
    and "\<not> rs_closed s' \<Longrightarrow> \<not> rs_closed s"
  shows "wf_bus (b\<lparr>eb_streams := dict_set i s' (eb_streams b)\<rparr>)"
  using assms by (simp add: wf_bus_def) (metis option.inject)

lemma wf_bus_unsubscribe:
  assumes "wf_bus b" and "dict_get (eb_streams b) i = Some s" and "rs_closed s"
  shows "wf_bus (bus_unsubscribe b (rs_run s) i)"
  using assms by (simp add: wf_bus_def) (metis in_set_remove1 option.inject set_remove1_subset subsetD distinct_remove1)

lemma wf_bus_empty: "wf_bus (bus_empty n)"
  by (simp add: wf_bus_def bus_empty_def subscribers_of_def)

lemma bus_offer_effect:
  assumes "wf_bus b"
  shows "wf_bus (bus_offer e i b)"
    and "dict_get (eb_streams (bus_offer e i b)) k =
           (if k = i then map_option (stream_offer e) (dict_get (eb_streams b) k) else dict_get (eb_streams b) k)"
    and "eb_next (bus_offer e i b) = eb_next b"
proof -
  show "wf_bus (bus_offer e i b)"
  proof (cases "dict_get (eb_streams b) i")
    case None
    then show ?thesis using assms by (simp add: bus_offer_def)
  next
    case (Some s)
    let ?b = "b\<lparr>eb_streams := dict_set i (stream_offer e s) (eb_streams b)\<rparr>"
    have wf: "wf_bus ?b" by (rule wf_bus_replace [OF assms Some]) simp_all
    show ?thesis
      using wf wf_bus_unsubscribe [OF wf, of i "stream_offer e s"] Some by (simp add: bus_offer_def Let_def)
  qed
qed (auto simp: bus_offer_def Let_def split: option.splits)

lemma offer_all_effect:
  assumes "wf_bus b" and "distinct is"
  shows "wf_bus (fold (bus_offer e) is b)
    \<and> dict_get (eb_streams (fold (bus_offer e) is b)) k =
        (if k \<in> set is then map_option (stream_offer e) (dict_get (eb_streams b) k) else dict_get (eb_streams b) k)"
  using assms by (induction "is" arbitrary: b) (auto simp: bus_offer_effect)

definition addressed :: "event \<Rightarrow> run_stream \<Rightarrow> bool" where
  "addressed e s \<longleftrightarrow> run_id_of e = Some (rs_run s)"

lemma publish_one_effect:
  assumes "wf_bus b"
  shows "wf_bus (bus_publish_one b e)"
    and "dict_get (eb_streams (bus_publish_one b e)) k =
           map_option (\<lambda>s. if addressed e s then stream_offer e s else s) (dict_get (eb_streams b) k)"
proof -
  note all = offer_all_effect [OF assms wf_busD(1) [OF assms]]
  show "wf_bus (bus_publish_one b e)"
    using assms all by (simp add: bus_publish_one_def split: option.split)
  show "dict_get (eb_streams (bus_publish_one b e)) k =
      map_option (\<lambda>s. if addressed e s then stream_offer e s else s) (dict_get (eb_streams b) k)"
  proof (cases "dict_get (eb_streams b) k")
    case None
    then show ?thesis by (simp add: bus_publish_one_def all split: option.split)
  next
    case (Some s)
    have other: "k \<notin> set (subscribers_of b r)" if "r \<noteq> rs_run s" for r
      using wf_busD(2) [OF assms, of k r] Some that by auto
    have "k \<in> set (subscribers_of b (rs_run s)) \<or> rs_closed s"
      using wf_busD(4) [OF assms Some] by blast
    then show ?thesis
      using Some other by (cases "run_id_of e") (auto simp: bus_publish_one_def all addressed_def)
  qed
qed

lemma publish_effect:
  assumes "wf_bus b"
  shows "wf_bus (bus_publish b es)
    \<and> dict_get (eb_streams (bus_publish b es)) k =
        map_option (\<lambda>s. fold stream_offer (filter (\<lambda>e. run_id_of e = Some (rs_run s)) es) s) (dict_get (eb_streams b) k)"
  using assms unfolding bus_publish_def
proof (induction es arbitrary: b)
  case (Cons e es)
  show ?case
    using Cons.IH [OF publish_one_effect(1) [OF Cons.prems], of e]
    by (auto simp: publish_one_effect(2) [OF Cons.prems] addressed_def option.map_comp o_def intro!: option.map_cong)
qed (simp add: option.map_ident)

lemma wf_bus_subscribe:
  assumes "wf_bus b"
  shows "wf_bus (fst (bus_subscribe b r))"
proof -
  have new: "eb_next b \<notin> set (subscribers_of b q)" "dict_get (eb_streams b) (eb_next b) = None" for q
    using wf_busD(2,3) [OF assms, of "eb_next b"] by (auto, fastforce)
  have subs: "subscribers_of (fst (bus_subscribe b r)) q = subscribers_of b q @ (if q = r then [eb_next b] else [])" for q
    by (simp add: bus_subscribe_def subscribers_of_def Let_def)
  show ?thesis
    unfolding wf_bus_def subs using wf_busD [OF assms] new
    by (auto simp: bus_subscribe_def Let_def less_SucI)
qed

lemma wf_bus_next: "wf_bus b \<Longrightarrow> wf_bus (fst (stream_next b i))"
  by (auto simp: stream_next_def split: option.splits list.splits intro: wf_bus_replace)

lemma wf_bus_aclose:
  assumes "wf_bus b"
  shows "wf_bus (stream_aclose b i)"
proof (cases "dict_get (eb_streams b) i")
  case (Some s)
  let ?s = "stream_put None (s\<lparr>rs_closed := True\<rparr>)"
  have wf: "wf_bus (b\<lparr>eb_streams := dict_set i ?s (eb_streams b)\<rparr>)" by (rule wf_bus_replace [OF assms Some]) simp_all
  show ?thesis using wf_bus_unsubscribe [OF wf, of i ?s] Some by (simp add: stream_aclose_def)
qed (use assms in \<open>simp add: stream_aclose_def\<close>)

section \<open>What a subscriber receives\<close>

datatype bus_op = B_Publish "event list" | B_Subscribe run_id | B_Next nat | B_Close nat

fun bus_step :: "event_bus \<Rightarrow> bus_op \<Rightarrow> event_bus" where
  "bus_step b (B_Publish es) = bus_publish b es"
| "bus_step b (B_Subscribe r) = fst (bus_subscribe b r)"
| "bus_step b (B_Next i) = fst (stream_next b i)"
| "bus_step b (B_Close i) = stream_aclose b i"

text \<open>The items the reader of stream \<open>i\<close> takes in a step, and the events a step publishes for a run.\<close>

fun received :: "nat \<Rightarrow> event_bus \<Rightarrow> bus_op \<Rightarrow> event option list" where
  "received i b (B_Next k) = (if k = i then (case snd (stream_next b k) of None \<Rightarrow> [] | Some x \<Rightarrow> [x]) else [])"
| "received i b _ = []"

fun published :: "run_id \<Rightarrow> bus_op \<Rightarrow> event list" where
  "published r (B_Publish es) = filter (\<lambda>e. run_id_of e = Some r) es"
| "published r _ = []"

fun follow :: "nat \<Rightarrow> event_bus \<Rightarrow> bus_op list \<Rightarrow> event_bus \<times> event option list" where
  "follow i b [] = (b, [])"
| "follow i b (op # ops) = (let (b', got) = follow i (bus_step b op) ops in (b', received i b op @ got))"

fun until_terminal :: "event list \<Rightarrow> event option list" where
  "until_terminal [] = []"
| "until_terminal (e # es) = Some e # (if is_terminal_for_run e then [None] else until_terminal es)"

lemma until_terminal_append:
  "until_terminal (es @ fs) =
     until_terminal es @ (if \<exists>e \<in> set es. is_terminal_for_run e then [] else until_terminal fs)"
  by (induction es) auto

lemma wf_bus_step: "wf_bus b \<Longrightarrow> wf_bus (bus_step b op)"
  by (cases op) (simp_all add: publish_effect wf_bus_subscribe wf_bus_next wf_bus_aclose)

lemma fold_offer_closed [simp]: "rs_closed s \<Longrightarrow> fold stream_offer es s = s"
  by (induction es) simp_all

lemma fold_offer_open:
  assumes "\<not> rs_closed s" and "0 < rs_backlog s \<longrightarrow> int (length (rs_items s) + length es) < rs_backlog s"
  shows "rs_items (fold stream_offer es s) = rs_items s @ until_terminal es
    \<and> (rs_closed (fold stream_offer es s) \<longleftrightarrow> (\<exists>e \<in> set es. is_terminal_for_run e))"
  using assms
proof (induction es arbitrary: s)
  case (Cons e es)
  have "rs_items (stream_offer e s) = rs_items s @ (if is_terminal_for_run e then [Some e, None] else [Some e])"
    using Cons.prems by (auto simp: stream_offer_def stream_put_def Let_def)
  then show ?case
    using Cons.prems Cons.IH [of "stream_offer e s"] by (cases "is_terminal_for_run e") auto
qed simp

lemma length_until_terminal: "\<not> (\<exists>e \<in> set es. is_terminal_for_run e) \<Longrightarrow> length (until_terminal es) = length es"
  by (induction es) auto

lemma bus_step_stream:
  assumes "wf_bus b" and "dict_get (eb_streams b) i = Some s" and "op \<noteq> B_Close i"
    and "0 < rs_backlog s \<longrightarrow> int (length (rs_items s) + length (published (rs_run s) op)) < rs_backlog s \<or> rs_closed s"
  obtains s' where "dict_get (eb_streams (bus_step b op)) i = Some s'" "rs_run s' = rs_run s" "rs_backlog s' = rs_backlog s"
    "received i b op @ rs_items s' = rs_items s @ (if rs_closed s then [] else until_terminal (published (rs_run s) op))"
    "rs_closed s' \<longleftrightarrow> rs_closed s \<or> (\<exists>e \<in> set (published (rs_run s) op). is_terminal_for_run e)"
proof (cases op)
  case (B_Publish es)
  let ?fs = "filter (\<lambda>e. run_id_of e = Some (rs_run s)) es"
  have frame: "rs_run (fold stream_offer fs t) = rs_run t \<and> rs_backlog (fold stream_offer fs t) = rs_backlog t" for fs t
    by (induction fs arbitrary: t) simp_all
  show thesis
    using fold_offer_open [of s ?fs] assms publish_effect [OF assms(1), of es i] B_Publish
    by (intro that [of "fold stream_offer ?fs s"]) (cases "rs_closed s"; auto simp: frame)+
next
  case (B_Subscribe r)
  then show thesis
    using assms(2) wf_busD(3) [OF assms(1,2)] by (intro that [of s]) (auto simp: bus_subscribe_def Let_def)
next
  case (B_Next k)
  show thesis
  proof (cases "k = i \<and> rs_items s \<noteq> []")
    case True
    then show thesis using assms(2) B_Next
      by (intro that [of "s\<lparr>rs_items := tl (rs_items s)\<rparr>"]) (auto simp: stream_next_def split: list.splits)
  next
    case False
    then show thesis using assms(2) B_Next
      by (intro that [of s]) (auto simp: stream_next_def split: list.splits option.splits)
  qed
next
  case (B_Close k)
  then show thesis
    using assms(2,3) by (intro that [of s]) (auto simp: stream_aclose_def split: option.splits)
qed

lemma follow_stream:
  assumes "wf_bus b" and "dict_get (eb_streams b) i = Some s" and "B_Close i \<notin> set ops"
    and "0 < rs_backlog s \<longrightarrow>
           int (length (rs_items s) + length (concat (map (published (rs_run s)) ops))) < rs_backlog s \<or> rs_closed s"
  shows "\<exists>s'. dict_get (eb_streams (fst (follow i b ops))) i = Some s'
    \<and> snd (follow i b ops) @ rs_items s' =
        rs_items s @ (if rs_closed s then [] else until_terminal (concat (map (published (rs_run s)) ops)))"
  using assms
proof (induction ops arbitrary: b s)
  case (Cons op ops)
  let ?es = "published (rs_run s) op"
  have pre: "op \<noteq> B_Close i" "0 < rs_backlog s \<longrightarrow> int (length (rs_items s) + length ?es) < rs_backlog s \<or> rs_closed s"
    using Cons.prems(3,4) by auto
  obtain s1 where s1: "dict_get (eb_streams (bus_step b op)) i = Some s1" "rs_run s1 = rs_run s" "rs_backlog s1 = rs_backlog s"
      "received i b op @ rs_items s1 = rs_items s @ (if rs_closed s then [] else until_terminal ?es)"
      "rs_closed s1 \<longleftrightarrow> rs_closed s \<or> (\<exists>e \<in> set ?es. is_terminal_for_run e)"
    by (rule bus_step_stream [OF Cons.prems(1,2) pre])
  have "length (rs_items s1) \<le> length (rs_items s) + length ?es" if "\<not> rs_closed s1"
    using arg_cong [OF s1(4), of length] that s1(5) length_until_terminal [of ?es] by auto
  then have room: "0 < rs_backlog s1 \<longrightarrow>
      int (length (rs_items s1) + length (concat (map (published (rs_run s1)) ops))) < rs_backlog s1 \<or> rs_closed s1"
    using Cons.prems(4) s1(2,3,5) by auto
  obtain s2 where s2: "dict_get (eb_streams (fst (follow i (bus_step b op) ops))) i = Some s2"
      "snd (follow i (bus_step b op) ops) @ rs_items s2 =
        rs_items s1 @ (if rs_closed s1 then [] else until_terminal (concat (map (published (rs_run s1)) ops)))"
    using Cons.IH [OF wf_bus_step [OF Cons.prems(1)] s1(1) _ room] Cons.prems(3) by auto
  have "(received i b op @ snd (follow i (bus_step b op) ops)) @ rs_items s2 =
      rs_items s @ (if rs_closed s then [] else until_terminal (?es @ concat (map (published (rs_run s)) ops)))"
    unfolding append_assoc s2(2) using s1(2,4,5) by (auto simp: until_terminal_append simp flip: append_assoc)
  then show ?case using s2(1) by (simp add: split_beta)
qed simp

section \<open>Properties\<close>

text \<open>
  A subscriber that keeps up receives exactly the events of its run from the subscription on, in the order of
  publication, up to and including the first that ends the run, and then the end of the stream: for every
  bus and every interleaving of publications (of any runs), reads, and other subscriptions and closings,
  what its reader has taken followed by what is queued for it is that sequence, with nothing lost, repeated or
  reordered, as long as fewer events were published for the run than the backlog holds.
\<close>

theorem subscriber_sees_the_run:
  assumes "wf_bus b" and "bus_subscribe b r = (b', i)" and "B_Close i \<notin> set ops"
    and "0 < eb_backlog b \<longrightarrow> int (length (concat (map (published r) ops))) < eb_backlog b"
  shows "\<exists>s. dict_get (eb_streams (fst (follow i b' ops))) i = Some s
    \<and> snd (follow i b' ops) @ rs_items s = until_terminal (concat (map (published r) ops))"
proof -
  let ?s = "\<lparr>rs_run = r, rs_backlog = eb_backlog b, rs_items = [], rs_closed = False\<rparr>"
  have "wf_bus b'" and "dict_get (eb_streams b') i = Some ?s"
    using wf_bus_subscribe [OF assms(1), of r] assms(2) by (auto simp: bus_subscribe_def Let_def)
  from follow_stream [OF this assms(3)] show ?thesis using assms(4) by simp
qed

abbreviation demo_trace :: "bus_op list" where
  "demo_trace \<equiv> [B_Publish [RunStateChanged 1 (RunId 2) RUN_CREATED RUN_PLANNING None, RunCompleted 1 (RunId 7) None],
     B_Next 0, B_Publish [RunCancelled 2 (RunId 2) None]]"

theorem subscriber_sees_the_run_witness:
  "\<exists>s. dict_get (eb_streams (fst (follow 0 (fst (bus_subscribe (bus_empty 10) (RunId 2))) demo_trace))) 0 = Some s
     \<and> snd (follow 0 (fst (bus_subscribe (bus_empty 10) (RunId 2))) demo_trace) @ rs_items s =
         [Some (RunStateChanged 1 (RunId 2) RUN_CREATED RUN_PLANNING None), Some (RunCancelled 2 (RunId 2) None), None]"
proof -
  have sub: "bus_subscribe (bus_empty 10) (RunId 2) = (fst (bus_subscribe (bus_empty 10) (RunId 2)), 0)"
    by (simp add: bus_subscribe_def bus_empty_def Let_def)
  have room: "0 < eb_backlog (bus_empty 10) \<longrightarrow>
      int (length (concat (map (published (RunId 2)) demo_trace))) < eb_backlog (bus_empty 10)"
    by (simp add: bus_empty_def)
  have "B_Close 0 \<notin> set demo_trace" by simp
  from subscriber_sees_the_run [OF wf_bus_empty sub this room] show ?thesis
    by (simp add: is_terminal_for_run_def del: follow.simps)
qed

section \<open>The end of a stream\<close>

text \<open>
  A run that ends announces the change of status first and the outcome second, in one batch, so the
  subscription is closed before the outcome: \<open>run.completed\<close> is never delivered on a live stream.
\<close>

lemma live_stream_omits_run_completed:
  assumes "run_can (r_status r) RUN_COMPLETED" and "r_events r = []"
  shows "\<exists>e. until_terminal (r_events (fst (run_complete r now cid))) = [Some e, None]
    \<and> (\<forall>t i c. e \<noteq> RunCompleted t i c) \<and> (\<exists>c. RunCompleted now (r_id r) c \<in> set (r_events (fst (run_complete r now cid))))"
  using assms by (cases cid) (auto simp: run_step_simps run_record_def record_event_def is_terminal_for_run_def)

end
