(* ===== verification/Mappers.thy ===== *)
theory Mappers
  imports Wire Store Worker "HOL-Library.Multiset"
begin

text \<open>
  The rows of the database (\<open>src/src/infrastructure/database/models.py\<close>) and their translation to and from the
  aggregates (\<open>src/src/infrastructure/database/mappers.py\<close>). A column that holds an enumeration is text, a value
  object is a JSON document. The version counters are kept by the session and are not set by the mappers;
  they are left out, as are the timestamps the database stamps itself. Reading back what was written gives
  the aggregate without its event buffer, which is what the tables of the store theory hold.
\<close>

section \<open>Projects\<close>

record project_model =
  prm_id :: uuid
  prm_name :: string
  prm_repository_url :: "string option"
  prm_local_path :: "string option"
  prm_default_branch :: string
  prm_created_at :: moment
  prm_toolchain :: json_object
  prm_meta :: json_object

definition dump_toolchain :: "toolchain \<Rightarrow> json_object" where
  "dump_toolchain t =
     [(''language'', JStr (language t)), (''build_command'', opt_json JStr (build_command t)),
      (''test_command'', opt_json JStr (test_command t)),
      (''static_analysis_command'', opt_json JStr (static_analysis_command t)),
      (''install_command'', opt_json JStr (install_command t)),
      (''working_subdirectory'', opt_json JStr (working_subdirectory t)),
      (''environment'', JObj (map (\<lambda>(k, v). (k, JStr v)) (environment t)))]"

definition load_environment :: "json_object \<Rightarrow> error + (string, string) dict" where
  "load_environment d = traverse (\<lambda>(k, v). bind_sum (as_str v) (\<lambda>s. Inr (k, s))) d"

definition load_toolchain :: "json_object \<Rightarrow> error + toolchain" where
  "load_toolchain raw =
     bind_sum (as_str (get_or raw ''language'' (JStr ''python''))) (\<lambda>lang.
     bind_sum (as_opt as_str (get_or raw ''build_command'' JNull)) (\<lambda>b.
     bind_sum (as_opt as_str (get_or raw ''test_command'' JNull)) (\<lambda>t.
     bind_sum (as_opt as_str (get_or raw ''static_analysis_command'' JNull)) (\<lambda>sa.
     bind_sum (as_opt as_str (get_or raw ''install_command'' JNull)) (\<lambda>i.
     bind_sum (as_opt as_str (get_or raw ''working_subdirectory'' JNull)) (\<lambda>w.
     bind_sum (bind_sum (get_obj raw ''environment'') load_environment) (\<lambda>e.
     Inr \<lparr>language = lang, build_command = b, test_command = t, static_analysis_command = sa,
          install_command = i, working_subdirectory = w, environment = e\<rparr>)))))))"

definition project_to_model :: "project \<Rightarrow> project_model" where
  "project_to_model p =
     \<lparr>prm_id = project_uuid (pj_id p), prm_name = pj_name p, prm_repository_url = pj_repository_url p,
      prm_local_path = pj_local_path p, prm_default_branch = pj_default_branch p, prm_created_at = pj_created_at p,
      prm_toolchain = dump_toolchain (pj_toolchain p), prm_meta = pj_metadata p\<rparr>"

definition project_to_domain :: "project_model \<Rightarrow> error + project" where
  "project_to_domain m =
     bind_sum (load_toolchain (prm_toolchain m)) (\<lambda>t.
     mk_project \<lparr>pj_id = ProjectId (prm_id m), pj_name = prm_name m, pj_repository_url = prm_repository_url m,
       pj_default_branch = prm_default_branch m, pj_created_at = prm_created_at m, pj_toolchain = t,
       pj_local_path = prm_local_path m, pj_metadata = prm_meta m\<rparr>)"

section \<open>Runs\<close>

record run_model =
  rm_id :: uuid
  rm_project_id :: uuid
  rm_objective :: string
  rm_status :: string
  rm_candidate_count :: int
  rm_limits :: json_object
  rm_plan_id :: "uuid option"
  rm_plan_revisions :: int
  rm_repair_iterations :: int
  rm_review_iterations :: int
  rm_selected_candidate_id :: "uuid option"
  rm_input_tokens :: int
  rm_output_tokens :: int
  rm_idempotency_key :: "string option"
  rm_meta :: json_object
  rm_created_at :: moment
  rm_started_at :: "moment option"
  rm_completed_at :: "moment option"
  rm_updated_at :: moment
  rm_failure_kind :: "string option"
  rm_failure_reason :: "string option"

definition dump_limits :: "run_limits \<Rightarrow> json_object" where
  "dump_limits l =
     [(''max_plan_revisions'', JInt (max_plan_revisions l)), (''max_coder_iterations'', JInt (max_coder_iterations l)),
      (''max_repair_iterations'', JInt (max_repair_iterations l)), (''max_worker_retries'', JInt (max_worker_retries l)),
      (''max_parallel_candidates'', JInt (max_parallel_candidates l))]"

definition load_limits :: "json_object \<Rightarrow> error + run_limits" where
  "load_limits raw =
     bind_sum (as_int (get_or raw ''max_plan_revisions'' (JInt (max_plan_revisions default_run_limits)))) (\<lambda>a.
     bind_sum (as_int (get_or raw ''max_coder_iterations'' (JInt (max_coder_iterations default_run_limits)))) (\<lambda>b.
     bind_sum (as_int (get_or raw ''max_repair_iterations'' (JInt (max_repair_iterations default_run_limits)))) (\<lambda>c.
     bind_sum (as_int (get_or raw ''max_worker_retries'' (JInt (max_worker_retries default_run_limits)))) (\<lambda>d.
     bind_sum (as_int (get_or raw ''max_parallel_candidates'' (JInt (max_parallel_candidates default_run_limits)))) (\<lambda>e.
     mk_run_limits \<lparr>max_plan_revisions = a, max_coder_iterations = b, max_repair_iterations = c,
       max_worker_retries = d, max_parallel_candidates = e\<rparr>)))))"

fun key_text :: "idempotency_key \<Rightarrow> string" where
  "key_text (IdempotencyKey s) = s"

text \<open>\<open>IdempotencyKey(model.idempotency_key) if model.idempotency_key else None\<close>\<close>

definition load_key :: "string option \<Rightarrow> error + idempotency_key option" where
  "load_key t =
     (case nonempty t of
        None \<Rightarrow> Inr None
      | Some s \<Rightarrow> (case mk_idempotency_key s of Inl msg \<Rightarrow> Inl (ValueError msg) | Inr k \<Rightarrow> Inr (Some k)))"

definition apply_run :: "run_model \<Rightarrow> run \<Rightarrow> run_model" where
  "apply_run m r =
     m\<lparr>rm_status := run_status_value (r_status r), rm_candidate_count := r_candidate_count r,
       rm_limits := dump_limits (r_limits r), rm_plan_id := map_option plan_uuid (r_plan_id r),
       rm_plan_revisions := r_plan_revisions r, rm_repair_iterations := r_repair_iterations r,
       rm_review_iterations := r_review_iterations r,
       rm_selected_candidate_id := map_option candidate_uuid (r_selected_candidate_id r),
       rm_input_tokens := input_tokens (r_token_usage r), rm_output_tokens := output_tokens (r_token_usage r),
       rm_idempotency_key := map_option key_text (r_idempotency_key r), rm_meta := r_metadata r,
       rm_started_at := r_started_at r, rm_completed_at := r_completed_at r, rm_updated_at := r_updated_at r,
       rm_failure_kind := map_option failure_kind_value (r_failure_kind r), rm_failure_reason := r_failure_reason r\<rparr>"

text \<open>The constructor sets the columns that never change; the others have their column defaults until \<open>apply_run\<close>.\<close>

definition run_to_model :: "run \<Rightarrow> run_model" where
  "run_to_model r =
     apply_run \<lparr>rm_id = run_uuid (r_id r), rm_project_id = project_uuid (r_project_id r), rm_objective = r_objective r,
       rm_status = run_status_value (r_status r), rm_candidate_count = r_candidate_count r, rm_limits = [],
       rm_plan_id = None, rm_plan_revisions = 0, rm_repair_iterations = 0, rm_review_iterations = 0,
       rm_selected_candidate_id = None, rm_input_tokens = 0, rm_output_tokens = 0, rm_idempotency_key = None,
       rm_meta = [], rm_created_at = r_created_at r, rm_started_at = None, rm_completed_at = None,
       rm_updated_at = r_updated_at r, rm_failure_kind = None, rm_failure_reason = None\<rparr> r"

definition run_to_domain :: "run_model \<Rightarrow> error + run" where
  "run_to_domain m =
     bind_sum (load_limits (rm_limits m)) (\<lambda>limits.
     bind_sum (enum_of run_statuses run_status_value (rm_status m)) (\<lambda>status.
     bind_sum (mk_token_usage (rm_input_tokens m) (rm_output_tokens m)) (\<lambda>usage.
     bind_sum (load_key (rm_idempotency_key m)) (\<lambda>key.
     bind_sum (opt_sum (enum_of failure_kinds failure_kind_value) (nonempty (rm_failure_kind m))) (\<lambda>kind.
     mk_run \<lparr>r_id = RunId (rm_id m), r_project_id = ProjectId (rm_project_id m), r_objective = rm_objective m,
       r_candidate_count = rm_candidate_count m, r_limits = limits, r_status = status,
       r_plan_id = map_option PlanId (rm_plan_id m), r_plan_revisions = rm_plan_revisions m,
       r_repair_iterations = rm_repair_iterations m, r_review_iterations = rm_review_iterations m,
       r_selected_candidate_id = map_option CandidateId (rm_selected_candidate_id m), r_token_usage = usage,
       r_idempotency_key = key, r_metadata = rm_meta m, r_created_at = rm_created_at m,
       r_started_at = rm_started_at m, r_completed_at = rm_completed_at m, r_updated_at = rm_updated_at m,
       r_failure_kind = kind, r_failure_reason = rm_failure_reason m, r_events = []\<rparr>)))))"

section \<open>Jobs\<close>

record job_model =
  jm_id :: uuid
  jm_run_id :: uuid
  jm_project_id :: uuid
  jm_type :: string
  jm_role :: "string option"
  jm_candidate_id :: "uuid option"
  jm_priority :: string
  jm_status :: string
  jm_attempt :: int
  jm_max_attempts :: int
  jm_payload :: json_object
  jm_requirements :: "json_object option"
  jm_idempotency_key :: "string option"
  jm_lease_token :: "string option"
  jm_lease_holder_id :: "uuid option"
  jm_lease_acquired_at :: "moment option"
  jm_lease_expires_at :: "moment option"
  jm_assigned_worker_id :: "uuid option"
  jm_created_at :: moment
  jm_started_at :: "moment option"
  jm_completed_at :: "moment option"
  jm_result :: "json_object option"
  jm_failure_kind :: "string option"
  jm_failure_reason :: "string option"

definition dump_requirements :: "job_requirements \<Rightarrow> json_object" where
  "dump_requirements q =
     [(''role'', JStr (agent_role_value (req_role q))), (''model_id'', opt_json JStr (req_model_id q)),
      (''estimated_prompt_tokens'', JInt (estimated_prompt_tokens q)), (''requires_tools'', JBool (requires_tools q)),
      (''requires_json_schema'', JBool (requires_json_schema q))]"

definition load_requirements :: "json_object option \<Rightarrow> error + job_requirements option" where
  "load_requirements v =
     (case v of
        None \<Rightarrow> Inr None
      | Some [] \<Rightarrow> Inr None
      | Some raw \<Rightarrow>
          bind_sum (bind_sum (bind_sum (get_req raw ''role'') as_str) (enum_of agent_roles agent_role_value)) (\<lambda>role.
          bind_sum (as_opt as_str (get_or raw ''model_id'' JNull)) (\<lambda>mid.
          bind_sum (as_int (get_or raw ''estimated_prompt_tokens'' (JInt 0))) (\<lambda>n.
          bind_sum (as_bool (get_or raw ''requires_tools'' (JBool False))) (\<lambda>t.
          bind_sum (as_bool (get_or raw ''requires_json_schema'' (JBool True))) (\<lambda>s.
          map_sum id Some (mk_job_requirements \<lparr>req_role = role, req_model_id = mid, estimated_prompt_tokens = n,
            requires_tools = t, requires_json_schema = s\<rparr>)))))))"

definition load_lease :: "job_model \<Rightarrow> error + lease option" where
  "load_lease m =
     (case (jm_lease_token m, jm_lease_holder_id m, jm_lease_acquired_at m, jm_lease_expires_at m) of
        (Some token, Some holder, Some acquired, Some expires) \<Rightarrow>
          bind_sum (mk_lease_token token) (\<lambda>t.
          map_sum id Some (mk_lease (JobId (jm_id m)) (WorkerId holder) t acquired expires))
      | _ \<Rightarrow> Inr None)"

definition apply_job :: "job_model \<Rightarrow> job \<Rightarrow> job_model" where
  "apply_job m j =
     m\<lparr>jm_role := map_option agent_role_value (j_role j), jm_candidate_id := map_option candidate_uuid (j_candidate_id j),
       jm_priority := priority_value (j_priority j), jm_status := job_status_value (j_status j), jm_attempt := j_attempt j,
       jm_max_attempts := j_max_attempts j, jm_payload := j_payload j,
       jm_requirements := map_option dump_requirements (j_requirements j),
       jm_idempotency_key := map_option key_text (j_idempotency_key j),
       jm_lease_token := map_option (\<lambda>l. token_value (l_token l)) (j_lease j),
       jm_lease_holder_id := map_option (\<lambda>l. worker_uuid (l_holder l)) (j_lease j),
       jm_lease_acquired_at := map_option l_acquired_at (j_lease j),
       jm_lease_expires_at := map_option l_expires_at (j_lease j),
       jm_assigned_worker_id := map_option worker_uuid (j_assigned_worker_id j), jm_started_at := j_started_at j,
       jm_completed_at := j_completed_at j, jm_result := j_result j,
       jm_failure_kind := map_option failure_kind_value (j_failure_kind j), jm_failure_reason := j_failure_reason j\<rparr>"

definition job_to_model :: "job \<Rightarrow> job_model" where
  "job_to_model j =
     apply_job \<lparr>jm_id = job_uuid (j_id j), jm_run_id = run_uuid (j_run_id j), jm_project_id = project_uuid (j_project_id j),
       jm_type = job_type_value (j_type j), jm_role = None, jm_candidate_id = None,
       jm_priority = priority_value (j_priority j), jm_status = job_status_value (j_status j), jm_attempt = 0,
       jm_max_attempts = 3, jm_payload = [], jm_requirements = None, jm_idempotency_key = None, jm_lease_token = None,
       jm_lease_holder_id = None, jm_lease_acquired_at = None, jm_lease_expires_at = None,
       jm_assigned_worker_id = None, jm_created_at = j_created_at j, jm_started_at = None, jm_completed_at = None,
       jm_result = None, jm_failure_kind = None, jm_failure_reason = None\<rparr> j"

definition job_to_domain :: "job_model \<Rightarrow> error + job" where
  "job_to_domain m =
     bind_sum (enum_of all_job_types job_type_value (jm_type m)) (\<lambda>ty.
     bind_sum (opt_sum (enum_of agent_roles agent_role_value) (nonempty (jm_role m))) (\<lambda>role.
     bind_sum (enum_of priorities priority_value (jm_priority m)) (\<lambda>prio.
     bind_sum (enum_of job_statuses job_status_value (jm_status m)) (\<lambda>status.
     bind_sum (load_requirements (jm_requirements m)) (\<lambda>reqs.
     bind_sum (load_key (jm_idempotency_key m)) (\<lambda>key.
     bind_sum (load_lease m) (\<lambda>lease.
     bind_sum (opt_sum (enum_of failure_kinds failure_kind_value) (nonempty (jm_failure_kind m))) (\<lambda>kind.
     mk_job \<lparr>j_id = JobId (jm_id m), j_run_id = RunId (jm_run_id m), j_project_id = ProjectId (jm_project_id m),
       j_type = ty, j_role = role, j_candidate_id = map_option CandidateId (jm_candidate_id m), j_priority = prio,
       j_status = status, j_attempt = jm_attempt m, j_max_attempts = jm_max_attempts m, j_payload = jm_payload m,
       j_requirements = reqs, j_idempotency_key = key, j_lease = lease,
       j_assigned_worker_id = map_option WorkerId (jm_assigned_worker_id m), j_created_at = jm_created_at m,
       j_started_at = jm_started_at m, j_completed_at = jm_completed_at m, j_result = jm_result m,
       j_failure_kind = kind, j_failure_reason = jm_failure_reason m, j_events = []\<rparr>))))))))"

section \<open>Workers\<close>

record worker_model =
  wm_id :: uuid
  wm_endpoint :: string
  wm_status :: string
  wm_capabilities :: json_object
  wm_active_jobs :: int
  wm_queued_jobs :: int
  wm_registered_at :: moment
  wm_last_heartbeat_at :: moment
  wm_meta :: json_object

text \<open>
  The roles are a set in the source and a list here; \<open>sorted(role.value for role in roles)\<close> gives each member
  once, in alphabetical order.
\<close>

definition sorted_roles :: "agent_role list \<Rightarrow> agent_role list" where
  "sorted_roles rs = filter (\<lambda>r. r \<in> set rs) [CODER, PLANNER, REVIEWER]"

definition dump_gpu :: "gpu_spec \<Rightarrow> json_object" where
  "dump_gpu g =
     [(''gpu_type'', opt_json JStr (gpu_type g)), (''gpu_count'', JInt (gpu_count g)),
      (''memory_gb'', opt_json JFloat (memory_gb g)), (''tensor_parallel_size'', JInt (tensor_parallel_size g))]"

definition dump_capabilities :: "worker_capabilities \<Rightarrow> json_object" where
  "dump_capabilities c =
     [(''model_id'', JStr (model_id c)), (''context_length'', JInt (context_length c)),
      (''max_concurrency'', JInt (max_concurrency c)),
      (''supported_roles'', str_list (map agent_role_value (sorted_roles (supported_roles c)))),
      (''gpu'', JObj (dump_gpu (gpu c))), (''supports_tools'', JBool (supports_tools c)),
      (''supports_json_schema'', JBool (supports_json_schema c)), (''metadata'', JObj (caps_metadata c))]"

definition load_gpu :: "json_object \<Rightarrow> error + gpu_spec" where
  "load_gpu raw =
     bind_sum (as_opt as_str (get_or raw ''gpu_type'' JNull)) (\<lambda>ty.
     bind_sum (as_int (get_or raw ''gpu_count'' (JInt 1))) (\<lambda>n.
     bind_sum (as_opt as_float (get_or raw ''memory_gb'' JNull)) (\<lambda>mem.
     bind_sum (as_int (get_or raw ''tensor_parallel_size'' (JInt 1))) (\<lambda>tp.
     mk_gpu_spec \<lparr>gpu_type = ty, gpu_count = n, memory_gb = mem, tensor_parallel_size = tp\<rparr>))))"

definition load_capabilities :: "json_object \<Rightarrow> error + worker_capabilities" where
  "load_capabilities raw =
     bind_sum (bind_sum (get_req raw ''model_id'') as_str) (\<lambda>mid.
     bind_sum (bind_sum (get_req raw ''context_length'') as_int) (\<lambda>ctx.
     bind_sum (as_int (get_or raw ''max_concurrency'' (JInt 1))) (\<lambda>conc.
     bind_sum (bind_sum (as_strs (get_or raw ''supported_roles'' (JArr []))) (traverse (enum_of agent_roles agent_role_value))) (\<lambda>roles.
     bind_sum (bind_sum (get_obj raw ''gpu'') load_gpu) (\<lambda>g.
     bind_sum (as_bool (get_or raw ''supports_tools'' (JBool True))) (\<lambda>tools.
     bind_sum (as_bool (get_or raw ''supports_json_schema'' (JBool True))) (\<lambda>schema.
     bind_sum (get_obj raw ''metadata'') (\<lambda>meta.
     mk_worker_capabilities \<lparr>model_id = mid, context_length = ctx, max_concurrency = conc, supported_roles = roles,
       gpu = g, supports_tools = tools, supports_json_schema = schema, caps_metadata = meta\<rparr>))))))))"

definition apply_worker :: "worker_model \<Rightarrow> worker \<Rightarrow> worker_model" where
  "apply_worker m w =
     m\<lparr>wm_endpoint := endpoint_url (w_endpoint w), wm_status := worker_status_value (w_status w),
       wm_capabilities := dump_capabilities (w_capabilities w), wm_active_jobs := active_jobs (w_load w),
       wm_queued_jobs := queued_jobs (w_load w), wm_last_heartbeat_at := w_last_heartbeat_at w,
       wm_meta := w_metadata w\<rparr>"

definition worker_to_model :: "worker \<Rightarrow> worker_model" where
  "worker_to_model w =
     apply_worker \<lparr>wm_id = worker_uuid (w_id w), wm_endpoint = endpoint_url (w_endpoint w),
       wm_status = worker_status_value (w_status w), wm_capabilities = [], wm_active_jobs = 0, wm_queued_jobs = 0,
       wm_registered_at = w_registered_at w, wm_last_heartbeat_at = w_last_heartbeat_at w, wm_meta = []\<rparr> w"

definition worker_to_domain :: "worker_model \<Rightarrow> error + worker" where
  "worker_to_domain m =
     bind_sum (mk_worker_endpoint (wm_endpoint m)) (\<lambda>ep.
     bind_sum (load_capabilities (wm_capabilities m)) (\<lambda>caps.
     bind_sum (enum_of worker_statuses worker_status_value (wm_status m)) (\<lambda>status.
     bind_sum (mk_worker_load (wm_active_jobs m) (wm_queued_jobs m)) (\<lambda>load.
     Inr \<lparr>w_id = WorkerId (wm_id m), w_endpoint = ep, w_capabilities = caps, w_registered_at = wm_registered_at m,
       w_status = status, w_load = load, w_last_heartbeat_at = wm_last_heartbeat_at m, w_metadata = wm_meta m,
       w_events = []\<rparr>))))"

section \<open>Candidates and tool results\<close>

record candidate_model =
  cm_id :: uuid
  cm_run_id :: uuid
  cm_candidate_index :: int
  cm_status :: string
  cm_workspace_id :: "uuid option"
  cm_patch :: "json_object option"
  cm_validation :: json_object
  cm_summary :: string
  cm_uncertainties :: "string list"
  cm_coder_iterations :: int
  cm_repair_iterations :: int
  cm_worker_id :: "uuid option"
  cm_last_job_id :: "uuid option"
  cm_review_verdict :: "string option"
  cm_created_at :: moment
  cm_started_at :: "moment option"
  cm_completed_at :: "moment option"
  cm_failure_kind :: "string option"
  cm_failure_reason :: "string option"

definition dump_file_change :: "file_change \<Rightarrow> json" where
  "dump_file_change f =
     JObj [(''path'', JStr (f_path f)), (''added_lines'', JInt (f_added f)), (''removed_lines'', JInt (f_removed f))]"

definition load_file_change :: "json \<Rightarrow> error + file_change" where
  "load_file_change v =
     bind_sum (as_obj v) (\<lambda>raw.
     bind_sum (bind_sum (get_req raw ''path'') as_str) (\<lambda>path.
     bind_sum (as_int (get_or raw ''added_lines'' (JInt 0))) (\<lambda>a.
     bind_sum (as_int (get_or raw ''removed_lines'' (JInt 0))) (\<lambda>r.
     Inr \<lparr>f_path = path, f_added = a, f_removed = r\<rparr>))))"

definition dump_patch :: "patch \<Rightarrow> json_object" where
  "dump_patch p =
     [(''diff'', JStr (diff_text p)), (''base_revision'', opt_json JStr (base_revision p)),
      (''files'', JArr (map dump_file_change (patch_files p)))]"

definition load_patch :: "json_object \<Rightarrow> error + patch" where
  "load_patch raw =
     bind_sum (as_str (get_or raw ''diff'' (JStr []))) (\<lambda>d.
     bind_sum (as_opt as_str (get_or raw ''base_revision'' JNull)) (\<lambda>b.
     bind_sum (bind_sum (as_arr (get_or raw ''files'' (JArr []))) (traverse load_file_change)) (\<lambda>fs.
     Inr \<lparr>diff_text = d, base_revision = b, patch_files = fs\<rparr>)))"

definition dump_tool_result :: "tool_result \<Rightarrow> json" where
  "dump_tool_result r =
     JObj [(''tool'', JStr (r_tool r)), (''kind'', JStr (tool_kind_value (r_kind r))), (''command'', JStr (r_command r)),
       (''exit_code'', JInt (r_exit_code r)), (''stdout'', JStr (r_stdout r)), (''stderr'', JStr (r_stderr r)),
       (''duration_ms'', JInt (r_duration_ms r)), (''truncated'', JBool (r_truncated r)),
       (''artifacts'', str_list (r_artifacts r)), (''metadata'', JObj (r_tool_metadata r))]"

definition load_tool_result :: "json \<Rightarrow> error + tool_result" where
  "load_tool_result v =
     bind_sum (as_obj v) (\<lambda>raw.
     bind_sum (bind_sum (get_req raw ''tool'') as_str) (\<lambda>tool.
     bind_sum (bind_sum (bind_sum (get_req raw ''kind'') as_str) (enum_of tool_kinds tool_kind_value)) (\<lambda>kind.
     bind_sum (as_str (get_or raw ''command'' (JStr []))) (\<lambda>cmd.
     bind_sum (as_int (get_or raw ''exit_code'' (JInt 0))) (\<lambda>code.
     bind_sum (as_str (get_or raw ''stdout'' (JStr []))) (\<lambda>out.
     bind_sum (as_str (get_or raw ''stderr'' (JStr []))) (\<lambda>err.
     bind_sum (as_int (get_or raw ''duration_ms'' (JInt 0))) (\<lambda>ms.
     bind_sum (as_bool (get_or raw ''truncated'' (JBool False))) (\<lambda>cut.
     bind_sum (as_strs (get_or raw ''artifacts'' (JArr []))) (\<lambda>arts.
     bind_sum (get_obj raw ''metadata'') (\<lambda>meta.
     Inr \<lparr>r_tool = tool, r_kind = kind, r_command = cmd, r_exit_code = code, r_stdout = out, r_stderr = err,
       r_duration_ms = ms, r_truncated = cut, r_artifacts = arts, r_tool_metadata = meta\<rparr>)))))))))))"

definition dump_validation :: "validation_report \<Rightarrow> json_object" where
  "dump_validation v =
     [(''results'', JArr (map dump_tool_result (v_results v))),
      (''static_analysis_is_blocking'', JBool (v_static_analysis_is_blocking v))]"

definition load_validation :: "json_object \<Rightarrow> error + validation_report" where
  "load_validation raw =
     bind_sum (bind_sum (as_arr (get_or raw ''results'' (JArr []))) (traverse load_tool_result)) (\<lambda>rs.
     bind_sum (as_bool (get_or raw ''static_analysis_is_blocking'' (JBool False))) (\<lambda>b.
     Inr \<lparr>v_results = rs, v_static_analysis_is_blocking = b\<rparr>))"

definition apply_candidate :: "candidate_model \<Rightarrow> candidate \<Rightarrow> candidate_model" where
  "apply_candidate m c =
     m\<lparr>cm_status := candidate_status_value (c_status c), cm_workspace_id := map_option workspace_uuid (c_workspace_id c),
       cm_patch := map_option dump_patch (c_patch c), cm_validation := dump_validation (c_validation c),
       cm_summary := c_summary c, cm_uncertainties := c_uncertainties c, cm_coder_iterations := c_coder_iterations c,
       cm_repair_iterations := c_repair_iterations c, cm_worker_id := map_option worker_uuid (c_worker_id c),
       cm_last_job_id := map_option job_uuid (c_last_job_id c),
       cm_review_verdict := map_option review_verdict_value (c_review_verdict c), cm_started_at := c_started_at c,
       cm_completed_at := c_completed_at c, cm_failure_kind := map_option failure_kind_value (c_failure_kind c),
       cm_failure_reason := c_failure_reason c\<rparr>"

definition candidate_to_model :: "candidate \<Rightarrow> candidate_model" where
  "candidate_to_model c =
     apply_candidate \<lparr>cm_id = candidate_uuid (c_id c), cm_run_id = run_uuid (c_run_id c), cm_candidate_index = c_index c,
       cm_status = candidate_status_value (c_status c), cm_workspace_id = None, cm_patch = None, cm_validation = [],
       cm_summary = [], cm_uncertainties = [], cm_coder_iterations = 0, cm_repair_iterations = 0, cm_worker_id = None,
       cm_last_job_id = None, cm_review_verdict = None, cm_created_at = c_created_at c, cm_started_at = None,
       cm_completed_at = None, cm_failure_kind = None, cm_failure_reason = None\<rparr> c"

definition candidate_to_domain :: "candidate_model \<Rightarrow> error + candidate" where
  "candidate_to_domain m =
     bind_sum (enum_of candidate_statuses candidate_status_value (cm_status m)) (\<lambda>status.
     bind_sum (opt_sum load_patch (cm_patch m)) (\<lambda>patch.
     bind_sum (load_validation (cm_validation m)) (\<lambda>validation.
     bind_sum (opt_sum (enum_of review_verdicts review_verdict_value) (nonempty (cm_review_verdict m))) (\<lambda>verdict.
     bind_sum (opt_sum (enum_of failure_kinds failure_kind_value) (nonempty (cm_failure_kind m))) (\<lambda>kind.
     mk_candidate \<lparr>c_id = CandidateId (cm_id m), c_run_id = RunId (cm_run_id m), c_index = cm_candidate_index m,
       c_created_at = cm_created_at m, c_workspace_id = map_option WorkspaceId (cm_workspace_id m), c_status = status,
       c_patch = patch, c_validation = validation, c_summary = cm_summary m, c_uncertainties = cm_uncertainties m,
       c_coder_iterations = cm_coder_iterations m, c_repair_iterations = cm_repair_iterations m,
       c_worker_id = map_option WorkerId (cm_worker_id m), c_last_job_id = map_option JobId (cm_last_job_id m),
       c_review_verdict = verdict, c_started_at = cm_started_at m, c_completed_at = cm_completed_at m,
       c_failure_kind = kind, c_failure_reason = cm_failure_reason m, c_events = []\<rparr>)))))"

text \<open>Rows of tool results; the row's own identifier is drawn by the caller.\<close>

record tool_result_model =
  tm_id :: uuid
  tm_run_id :: uuid
  tm_candidate_id :: "uuid option"
  tm_position :: int
  tm_tool :: string
  tm_kind :: string
  tm_command :: string
  tm_exit_code :: int
  tm_stdout :: string
  tm_stderr :: string
  tm_duration_ms :: int
  tm_truncated :: bool
  tm_artifacts :: "string list"
  tm_meta :: json_object
  tm_duration_seconds :: rat

definition tool_result_to_model ::
  "uuid \<Rightarrow> run_id \<Rightarrow> candidate_id option \<Rightarrow> int \<Rightarrow> tool_result \<Rightarrow> tool_result_model" where
  "tool_result_to_model row run cand pos r =
     \<lparr>tm_id = row, tm_run_id = run_uuid run, tm_candidate_id = map_option candidate_uuid cand, tm_position = pos,
      tm_tool = r_tool r, tm_kind = tool_kind_value (r_kind r), tm_command = r_command r,
      tm_exit_code = r_exit_code r, tm_stdout = r_stdout r, tm_stderr = r_stderr r, tm_duration_ms = r_duration_ms r,
      tm_truncated = r_truncated r, tm_artifacts = r_artifacts r, tm_meta = r_tool_metadata r,
      tm_duration_seconds = of_int (r_duration_ms r) / 1000\<rparr>"

definition tool_result_to_domain :: "tool_result_model \<Rightarrow> error + tool_result" where
  "tool_result_to_domain m =
     bind_sum (enum_of tool_kinds tool_kind_value (tm_kind m)) (\<lambda>kind.
     Inr \<lparr>r_tool = tm_tool m, r_kind = kind, r_command = tm_command m, r_exit_code = tm_exit_code m,
       r_stdout = tm_stdout m, r_stderr = tm_stderr m, r_duration_ms = tm_duration_ms m, r_truncated = tm_truncated m,
       r_artifacts = tm_artifacts m, r_tool_metadata = tm_meta m\<rparr>)"

definition tool_results_to_models ::
  "uuid list \<Rightarrow> run_id \<Rightarrow> candidate_id option \<Rightarrow> int \<Rightarrow> tool_result list \<Rightarrow> tool_result_model list" where
  "tool_results_to_models rows run cand first rs =
     map (\<lambda>(offset, row, r). tool_result_to_model row run cand (first + int offset) r)
       (zip [0..<length rs] (zip rows rs))"

section \<open>Plans and reviews\<close>

record plan_task_model =
  ptm_id :: uuid
  ptm_plan_id :: uuid
  ptm_position :: int
  ptm_key :: string
  ptm_title :: string
  ptm_description :: string
  ptm_target_paths :: "string list"
  ptm_depends_on :: "string list"
  ptm_validation :: "string list"

record plan_model =
  plm_id :: uuid
  plm_run_id :: uuid
  plm_revision :: int
  plm_objective :: string
  plm_created_at :: moment
  plm_assumptions :: "string list"
  plm_constraints :: "string list"
  plm_risk_areas :: "string list"
  plm_validation_requirements :: "string list"
  plm_prompt_version :: string
  plm_meta :: json_object
  plm_tasks :: "plan_task_model list"

definition plan_task_to_model :: "plan \<Rightarrow> nat \<times> plan_task \<Rightarrow> plan_task_model" where
  "plan_task_to_model p = (\<lambda>(position, t).
     \<lparr>ptm_id = task_uuid (t_id t), ptm_plan_id = plan_uuid (p_id p), ptm_position = int position, ptm_key = t_key t,
      ptm_title = t_title t, ptm_description = t_description t, ptm_target_paths = t_target_paths t,
      ptm_depends_on = t_depends_on t, ptm_validation = t_validation t\<rparr>)"

definition plan_to_model :: "plan \<Rightarrow> plan_model" where
  "plan_to_model p =
     \<lparr>plm_id = plan_uuid (p_id p), plm_run_id = run_uuid (p_run_id p), plm_revision = p_revision p,
      plm_objective = p_objective p, plm_created_at = p_created_at p, plm_assumptions = p_assumptions p,
      plm_constraints = p_constraints p, plm_risk_areas = p_risk_areas p,
      plm_validation_requirements = p_validation_requirements p, plm_prompt_version = p_prompt_version p,
      plm_meta = p_metadata p, plm_tasks = map (plan_task_to_model p) (List.enumerate 0 (p_tasks p))\<rparr>"

definition plan_task_to_domain :: "plan_task_model \<Rightarrow> error + plan_task" where
  "plan_task_to_domain m =
     mk_plan_task \<lparr>t_id = TaskId (ptm_id m), t_key = ptm_key m, t_title = ptm_title m,
       t_description = ptm_description m, t_target_paths = ptm_target_paths m, t_depends_on = ptm_depends_on m,
       t_validation = ptm_validation m\<rparr>"

definition plan_to_domain :: "plan_model \<Rightarrow> error + plan" where
  "plan_to_domain m =
     bind_sum (traverse plan_task_to_domain (py_sorted ptm_position (plm_tasks m))) (\<lambda>ts.
     mk_plan \<lparr>p_id = PlanId (plm_id m), p_run_id = RunId (plm_run_id m), p_revision = plm_revision m,
       p_objective = plm_objective m, p_created_at = plm_created_at m, p_tasks = ts,
       p_assumptions = plm_assumptions m, p_constraints = plm_constraints m, p_risk_areas = plm_risk_areas m,
       p_validation_requirements = plm_validation_requirements m, p_prompt_version = plm_prompt_version m,
       p_metadata = plm_meta m\<rparr>)"

record review_finding_model =
  vfm_id :: uuid
  vfm_review_id :: uuid
  vfm_position :: int
  vfm_summary :: string
  vfm_severity :: string
  vfm_file_path :: "string option"
  vfm_line :: "int option"
  vfm_repair_instruction :: "string option"

record review_model =
  vm_id :: uuid
  vm_run_id :: uuid
  vm_candidate_id :: uuid
  vm_verdict :: string
  vm_iteration :: int
  vm_created_at :: moment
  vm_summary :: string
  vm_prompt_version :: string
  vm_meta :: json_object
  vm_findings :: "review_finding_model list"

text \<open>\<open>fresh position\<close> is the \<open>uuid4()\<close> drawn for the row of a finding.\<close>

definition finding_to_model :: "(nat \<Rightarrow> uuid) \<Rightarrow> review \<Rightarrow> nat \<times> review_finding \<Rightarrow> review_finding_model" where
  "finding_to_model fresh r = (\<lambda>(position, f).
     \<lparr>vfm_id = fresh position, vfm_review_id = review_uuid (rv_id r), vfm_position = int position,
      vfm_summary = fd_summary f, vfm_severity = severity_value (fd_severity f), vfm_file_path = fd_file f,
      vfm_line = fd_line f, vfm_repair_instruction = fd_repair_instruction f\<rparr>)"

definition review_to_model :: "(nat \<Rightarrow> uuid) \<Rightarrow> review \<Rightarrow> review_model" where
  "review_to_model fresh r =
     \<lparr>vm_id = review_uuid (rv_id r), vm_run_id = run_uuid (rv_run_id r), vm_candidate_id = candidate_uuid (rv_candidate_id r),
      vm_verdict = review_verdict_value (rv_verdict r), vm_iteration = rv_iteration r, vm_created_at = rv_created_at r,
      vm_summary = rv_summary r, vm_prompt_version = rv_prompt_version r, vm_meta = rv_metadata r,
      vm_findings = map (finding_to_model fresh r) (List.enumerate 0 (rv_findings r))\<rparr>"

definition finding_to_domain :: "review_finding_model \<Rightarrow> error + review_finding" where
  "finding_to_domain m =
     bind_sum (enum_of severities severity_value (vfm_severity m)) (\<lambda>sev.
     mk_review_finding \<lparr>fd_summary = vfm_summary m, fd_severity = sev, fd_file = vfm_file_path m, fd_line = vfm_line m,
       fd_repair_instruction = vfm_repair_instruction m\<rparr>)"

definition review_to_domain :: "review_model \<Rightarrow> error + review" where
  "review_to_domain m =
     bind_sum (enum_of review_verdicts review_verdict_value (vm_verdict m)) (\<lambda>verdict.
     bind_sum (traverse finding_to_domain (py_sorted vfm_position (vm_findings m))) (\<lambda>fs.
     mk_review \<lparr>rv_id = ReviewId (vm_id m), rv_run_id = RunId (vm_run_id m), rv_candidate_id = CandidateId (vm_candidate_id m),
       rv_verdict = verdict, rv_iteration = vm_iteration m, rv_created_at = vm_created_at m, rv_summary = vm_summary m,
       rv_findings = fs, rv_prompt_version = vm_prompt_version m, rv_metadata = vm_meta m\<rparr>))"

section \<open>Reading back what was written\<close>

definition wf_key :: "idempotency_key \<Rightarrow> bool" where
  "wf_key k \<longleftrightarrow> mk_idempotency_key (key_text k) = Inr k"

definition wf_token :: "lease_token \<Rightarrow> bool" where
  "wf_token t \<longleftrightarrow> mk_lease_token (token_value t) = Inr t"

definition wf_requirements :: "job_requirements \<Rightarrow> bool" where
  "wf_requirements q \<longleftrightarrow> mk_job_requirements q = Inr q"

definition wf_endpoint :: "worker_endpoint \<Rightarrow> bool" where
  "wf_endpoint e \<longleftrightarrow> mk_worker_endpoint (endpoint_url e) = Inr e"

definition wf_gpu :: "gpu_spec \<Rightarrow> bool" where
  "wf_gpu g \<longleftrightarrow> mk_gpu_spec g = Inr g"

lemma id_roundtrip [simp]:
  "map_option PlanId (map_option plan_uuid a) = a" "map_option CandidateId (map_option candidate_uuid b) = b"
  "map_option WorkerId (map_option worker_uuid c) = c" "map_option JobId (map_option job_uuid d) = d"
  "map_option WorkspaceId (map_option workspace_uuid e) = e"
  by (cases a; cases b; cases c; cases d; cases e; simp)+

lemma nonempty_values [simp]:
  "nonempty (map_option failure_kind_value k) = map_option failure_kind_value k"
  "nonempty (map_option agent_role_value r) = map_option agent_role_value r"
  "nonempty (map_option review_verdict_value v) = map_option review_verdict_value v"
proof -
  have "failure_kind_value x \<noteq> []" "agent_role_value y \<noteq> []" "review_verdict_value z \<noteq> []" for x y z
    by (cases x; cases y; cases z; simp)+
  then show "nonempty (map_option failure_kind_value k) = map_option failure_kind_value k"
    "nonempty (map_option agent_role_value r) = map_option agent_role_value r"
    "nonempty (map_option review_verdict_value v) = map_option review_verdict_value v"
    by (cases k; cases r; cases v; simp add: nonempty_def)+
qed

lemma load_key_text: "(\<And>k. key = Some k \<Longrightarrow> wf_key k) \<Longrightarrow> load_key (map_option key_text key) = Inr key"
  by (cases key) (auto simp: load_key_def wf_key_def nonempty_def mk_idempotency_key_def split: if_splits)

lemma load_dump_limits: "wf_limits l \<Longrightarrow> load_limits (dump_limits l) = Inr l"
  by (cases l) (simp add: load_limits_def dump_limits_def mk_run_limits_Inr_iff)

lemma load_dump_requirements_Some: "wf_requirements x \<Longrightarrow> load_requirements (Some (dump_requirements x)) = Inr (Some x)"
  by (cases x) (simp add: load_requirements_def dump_requirements_def wf_requirements_def)

lemma load_dump_requirements:
  "(\<And>x. q = Some x \<Longrightarrow> wf_requirements x) \<Longrightarrow> load_requirements (map_option dump_requirements q) = Inr q"
  by (cases q) (simp_all add: load_dump_requirements_Some, simp add: load_requirements_def)

lemma load_dump_gpu: "wf_gpu g \<Longrightarrow> load_gpu (dump_gpu g) = Inr g"
  by (cases g) (simp add: load_gpu_def dump_gpu_def wf_gpu_def)

lemma load_dump_toolchain: "load_toolchain (dump_toolchain t) = Inr t"
proof -
  have "load_environment (map (\<lambda>(k, v). (k, JStr v)) e) = Inr e" for e
    by (induction e) (auto simp: load_environment_def)
  then show ?thesis
    by (simp add: load_toolchain_def dump_toolchain_def)
qed

lemma load_dump_file_change [simp]: "load_file_change (dump_file_change f) = Inr f"
  by (simp add: load_file_change_def dump_file_change_def)

lemma load_dump_patch [simp]: "load_patch (dump_patch p) = Inr p"
  by (simp add: load_patch_def dump_patch_def traverse_map traverse_Inr)

lemma load_dump_tool_result [simp]: "load_tool_result (dump_tool_result r) = Inr r"
  by (simp add: load_tool_result_def dump_tool_result_def)

lemma load_dump_validation [simp]: "load_validation (dump_validation v) = Inr v"
  by (simp add: load_validation_def dump_validation_def traverse_map traverse_Inr)

lemma sorted_roles_ne: "rs \<noteq> [] \<Longrightarrow> sorted_roles rs \<noteq> []" and set_sorted_roles: "set (sorted_roles rs) = set rs"
proof -
  have "r \<in> set [CODER, PLANNER, REVIEWER]" for r by (cases r) simp_all
  then have "{r \<in> set [CODER, PLANNER, REVIEWER]. r \<in> set rs} = set rs" by blast
  then show "set (sorted_roles rs) = set rs" unfolding sorted_roles_def set_filter .
  then show "rs \<noteq> [] \<Longrightarrow> sorted_roles rs \<noteq> []" by auto
qed

lemma load_dump_capabilities:
  "wf_capabilities c \<Longrightarrow> wf_gpu (gpu c) \<Longrightarrow>
   load_capabilities (dump_capabilities c) = Inr (c\<lparr>supported_roles := sorted_roles (supported_roles c)\<rparr>)"
  by (cases c) (simp add: load_capabilities_def dump_capabilities_def load_dump_gpu traverse_map traverse_Inr
      mk_worker_capabilities_Inr_iff wf_capabilities_def sorted_roles_ne)

lemma project_roundtrip: "mk_project p = Inr p \<Longrightarrow> project_to_domain (project_to_model p) = Inr p"
  by (cases p) (simp add: project_to_domain_def project_to_model_def load_dump_toolchain)

lemma tool_result_roundtrip: "tool_result_to_domain (tool_result_to_model row run cand pos r) = Inr r"
  by (simp add: tool_result_to_domain_def tool_result_to_model_def)

definition storable_run :: "run \<Rightarrow> bool" where
  "storable_run r \<longleftrightarrow> wf_run r \<and> wf_usage (r_token_usage r) \<and> (\<forall>k. r_idempotency_key r = Some k \<longrightarrow> wf_key k)"

lemma usage_roundtrip: "wf_usage u \<Longrightarrow> mk_token_usage (input_tokens u) (output_tokens u) = Inr u"
  by (cases u) (simp add: wf_usage_def mk_token_usage_def)

lemma run_roundtrip:
  assumes "storable_run r"
  shows "run_to_domain (run_to_model r) = Inr (run_row r)"
proof -
  have "load_limits (dump_limits (r_limits r)) = Inr (r_limits r)"
    "mk_token_usage (input_tokens (r_token_usage r)) (output_tokens (r_token_usage r)) = Inr (r_token_usage r)"
    "load_key (map_option key_text (r_idempotency_key r)) = Inr (r_idempotency_key r)"
    using assms by (auto simp: storable_run_def wf_run_def intro!: load_dump_limits usage_roundtrip load_key_text)
  then show ?thesis
    using assms
    by (cases r) (simp add: run_to_domain_def run_to_model_def apply_run_def run_row_def mk_run_def storable_run_def
        wf_run_def)
qed

definition storable_job :: "job \<Rightarrow> bool" where
  "storable_job j \<longleftrightarrow> wf_job j \<and> (\<forall>k. j_idempotency_key j = Some k \<longrightarrow> wf_key k)
     \<and> (\<forall>q. j_requirements j = Some q \<longrightarrow> wf_requirements q) \<and> (\<forall>l. j_lease j = Some l \<longrightarrow> wf_token (l_token l))"

lemma load_lease_roundtrip:
  assumes "storable_job j"
  shows "load_lease (job_to_model j) = Inr (j_lease j)"
proof (cases "j_lease j")
  case (Some l)
  then have "wf_token (l_token l)" "wf_lease_of j l" using assms by (simp_all add: storable_job_def wf_job_def)
  then show ?thesis
    using Some by (cases l) (simp add: load_lease_def job_to_model_def apply_job_def wf_token_def wf_lease_of_def mk_lease_def)
qed (simp add: load_lease_def job_to_model_def apply_job_def)

lemma job_roundtrip:
  assumes "storable_job j"
  shows "job_to_domain (job_to_model j) = Inr (job_row j)"
proof -
  have "load_requirements (map_option dump_requirements (j_requirements j)) = Inr (j_requirements j)"
    "load_key (map_option key_text (j_idempotency_key j)) = Inr (j_idempotency_key j)"
    "load_lease (job_to_model j) = Inr (j_lease j)"
    using assms by (auto simp: storable_job_def intro!: load_dump_requirements load_key_text load_lease_roundtrip)
  then show ?thesis
    using assms by (cases j) (simp add: job_to_domain_def job_to_model_def apply_job_def job_row_def mk_job_def storable_job_def wf_job_def)
qed

lemma candidate_roundtrip: "wf_candidate c \<Longrightarrow> candidate_to_domain (candidate_to_model c) = Inr (candidate_row c)"
  by (cases c) (simp add: candidate_to_domain_def candidate_to_model_def apply_candidate_def candidate_row_def
      mk_candidate_def wf_candidate_def opt_sum_map)

lemma worker_roundtrip:
  assumes "wf_worker w" and "wf_endpoint (w_endpoint w)" and "wf_gpu (gpu (w_capabilities w))"
  shows "worker_to_domain (worker_to_model w) = Inr (w\<lparr>w_events := [],
    w_capabilities := (w_capabilities w)\<lparr>supported_roles := sorted_roles (supported_roles (w_capabilities w))\<rparr>\<rparr>)"
proof -
  have "load_capabilities (dump_capabilities (w_capabilities w)) =
      Inr ((w_capabilities w)\<lparr>supported_roles := sorted_roles (supported_roles (w_capabilities w))\<rparr>)"
    using assms by (simp add: load_dump_capabilities wf_worker_def)
  moreover have "mk_worker_load (active_jobs (w_load w)) (queued_jobs (w_load w)) = Inr (w_load w)"
    using assms(1) by (cases "w_load w") (simp add: mk_worker_load_def wf_worker_def wf_load_def)
  ultimately show ?thesis
    using assms by (cases w) (simp add: worker_to_domain_def worker_to_model_def apply_worker_def wf_endpoint_def)
qed

subsection \<open>Child rows\<close>

text \<open>A query may return the children in any order; sorting on the stored position restores theirs.\<close>

lemma sort_positions:
  assumes "mset rows = mset (map g (List.enumerate 0 xs))" and "\<And>n x. f (g (n, x)) = int n"
  shows "py_sorted f rows = map g (List.enumerate 0 xs)"
proof (rule sort_key_inj_key_eq)
  have "map f (map g (List.enumerate k xs)) = map int [k..<k + length xs]" for k
    using assms(2) by (induction xs arbitrary: k) (simp_all add: upt_conv_Cons del: upt_Suc)
  from this [of 0] have keys: "map f (map g (List.enumerate 0 xs)) = map int [0..<length xs]" by simp
  show "mset rows = mset (map g (List.enumerate 0 xs))" by (rule assms(1))
  have "distinct (map f (map g (List.enumerate 0 xs)))" unfolding keys by (simp add: distinct_map)
  then show "inj_on f (set rows)" using mset_eq_setD [OF assms(1)] by (simp add: distinct_map inj_on_imageI)
  show "sorted (map f (map g (List.enumerate 0 xs)))" unfolding keys by (simp add: sorted_iff_nth_mono)
qed

lemma traverse_enumerate:
  assumes "\<And>n x. x \<in> set xs \<Longrightarrow> f (g (n, x)) = Inr x"
  shows "traverse f (map g (List.enumerate k xs)) = Inr xs"
  using assms by (induction xs arbitrary: k) simp_all

lemma plan_task_roundtrip: "mk_plan_task t = Inr t \<Longrightarrow> plan_task_to_domain (plan_task_to_model p (n, t)) = Inr t"
  by (cases t) (simp add: plan_task_to_domain_def plan_task_to_model_def)

lemma finding_roundtrip: "mk_review_finding f = Inr f \<Longrightarrow> finding_to_domain (finding_to_model fresh r (n, f)) = Inr f"
  by (cases f) (simp add: finding_to_domain_def finding_to_model_def)

lemma plan_roundtrip:
  assumes "mk_plan p = Inr p" and "\<And>t. t \<in> set (p_tasks p) \<Longrightarrow> mk_plan_task t = Inr t"
    and "mset rows = mset (plm_tasks (plan_to_model p))"
  shows "plan_to_domain ((plan_to_model p)\<lparr>plm_tasks := rows\<rparr>) = Inr p"
proof -
  have "py_sorted ptm_position rows = map (plan_task_to_model p) (List.enumerate 0 (p_tasks p))"
    using assms(3) by (intro sort_positions) (simp_all add: plan_to_model_def plan_task_to_model_def)
  moreover have "traverse plan_task_to_domain (map (plan_task_to_model p) (List.enumerate 0 (p_tasks p))) = Inr (p_tasks p)"
    using assms(2) by (intro traverse_enumerate plan_task_roundtrip)
  ultimately show ?thesis
    using assms(1) by (cases p) (simp add: plan_to_domain_def plan_to_model_def)
qed

lemma review_roundtrip:
  assumes "mk_review r = Inr r" and "\<And>f. f \<in> set (rv_findings r) \<Longrightarrow> mk_review_finding f = Inr f"
    and "mset rows = mset (vm_findings (review_to_model fresh r))"
  shows "review_to_domain ((review_to_model fresh r)\<lparr>vm_findings := rows\<rparr>) = Inr r"
proof -
  have "py_sorted vfm_position rows = map (finding_to_model fresh r) (List.enumerate 0 (rv_findings r))"
    using assms(3) by (intro sort_positions) (simp_all add: review_to_model_def finding_to_model_def)
  moreover have "traverse finding_to_domain (map (finding_to_model fresh r) (List.enumerate 0 (rv_findings r))) = Inr (rv_findings r)"
    using assms(2) by (intro traverse_enumerate finding_roundtrip)
  ultimately show ?thesis
    using assms(1) by (cases r) (simp add: review_to_domain_def review_to_model_def)
qed

subsection \<open>Updating a row\<close>

text \<open>The columns no update touches are those of the aggregate that was loaded; every other column is overwritten.\<close>

lemma apply_run_overwrites:
  assumes "run_to_domain m = Inr r" "strip (rm_objective m) = rm_objective m" and "r_id r' = r_id r" "r_project_id r' = r_project_id r" "r_objective r' = r_objective r"
    "r_created_at r' = r_created_at r"
  shows "apply_run m r' = run_to_model r'"
proof -
  have "rm_id m = run_uuid (r_id r)" "rm_project_id m = project_uuid (r_project_id r)" "rm_objective m = r_objective r"
    "rm_created_at m = r_created_at r"
    using assms(1,2) by (auto simp: run_to_domain_def bind_sum_Inr_iff mk_run_def split: if_splits)
  then show ?thesis using assms(3-6) by (cases m) (simp add: run_to_model_def apply_run_def)
qed

lemma apply_job_overwrites:
  assumes "job_to_domain m = Inr j" and "j_id j' = j_id j" "j_run_id j' = j_run_id j" "j_project_id j' = j_project_id j"
    "j_type j' = j_type j" "j_created_at j' = j_created_at j"
  shows "apply_job m j' = job_to_model j'"
proof -
  have "jm_id m = job_uuid (j_id j)" "jm_run_id m = run_uuid (j_run_id j)" "jm_project_id m = project_uuid (j_project_id j)"
    "jm_type m = job_type_value (j_type j)" "jm_created_at m = j_created_at j"
    using assms(1) by (auto simp: job_to_domain_def bind_sum_Inr_iff mk_job_def job_type_wire.enum_of_Inr_iff split: if_splits)
  then show ?thesis using assms(2-6) by (cases m) (simp add: job_to_model_def apply_job_def)
qed

lemma apply_candidate_overwrites:
  assumes "candidate_to_domain m = Inr c" and "c_id c' = c_id c" "c_run_id c' = c_run_id c" "c_index c' = c_index c"
    "c_created_at c' = c_created_at c"
  shows "apply_candidate m c' = candidate_to_model c'"
proof -
  have "cm_id m = candidate_uuid (c_id c)" "cm_run_id m = run_uuid (c_run_id c)" "cm_candidate_index m = c_index c"
    "cm_created_at m = c_created_at c"
    using assms(1) by (auto simp: candidate_to_domain_def bind_sum_Inr_iff mk_candidate_def split: if_splits)
  then show ?thesis using assms(2-5) by (cases m) (simp add: candidate_to_model_def apply_candidate_def)
qed

lemma created_at_kept [simp]:
  "r_created_at (run_record e r) = r_created_at r" "c_created_at (cand_record e c) = c_created_at c"
  "c_created_at (cand_finish c s now) = c_created_at c"
  by (simp_all add: run_record_def cand_finish_def cand_record_def)

lemma run_fixed_columns:
  "r_id (run_apply r now a) = r_id r" "r_project_id (run_apply r now a) = r_project_id r"
  "r_objective (run_apply r now a) = r_objective r" "r_created_at (run_apply r now a) = r_created_at r"
  by (cases a; simp add: run_step_simps split: option.split sum.split)+

lemma job_project_fixed: "j_project_id (job_apply j now a) = j_project_id j"
  by (cases a; auto simp: job_ops Let_def split: sum.splits option.splits)

lemma candidate_fixed_columns:
  "c_id (cand_apply c now a) = c_id c" "c_run_id (cand_apply c now a) = c_run_id c"
  "c_index (cand_apply c now a) = c_index c" "c_created_at (cand_apply c now a) = c_created_at c"
  by (cases a; simp add: cand_ops Let_def)+

section \<open>Properties\<close>

lemma demo_storable: "storable_run demo_coding_run" "storable_job demo_leased_job" "wf_candidate (demo_candidate 0 (demo_report 0))"
proof -
  show "storable_run demo_coding_run"
    using run_reachable_wf [OF demo_coding_run_reachable] by (simp add: storable_run_def run_step_simps wf_usage_def no_tokens_def run_record_def)
  show "storable_job demo_leased_job"
    using job_reachable_wf [OF demo_leased_job_reachable]
    by (simp add: storable_job_def job_enqueue_def job_lease_to_def lease_granted_def mk_lease_def wf_token_def mk_lease_token_def job_record_def)
  show "wf_candidate (demo_candidate 0 (demo_report 0))" by (simp add: wf_candidate_def)
qed

text \<open>
  C15. Storage loses nothing. A run, a job and a candidate that are well formed (and whose keys, tokens, requirements and
  token counts passed their own constructors) are read back from the rows they were written to as the same
  aggregates with an empty event buffer: every enumeration, identifier, lease and JSON document survives.
\<close>

theorem aggregates_survive_storage:
  assumes "storable_run r" and "storable_job j" and "wf_candidate c"
  shows "run_to_domain (run_to_model r) = Inr (run_row r) \<and> job_to_domain (job_to_model j) = Inr (job_row j)
    \<and> candidate_to_domain (candidate_to_model c) = Inr (candidate_row c)"
  using assms by (simp add: run_roundtrip job_roundtrip candidate_roundtrip)

theorem aggregates_survive_storage_witness:
  "run_to_domain (run_to_model demo_coding_run) = Inr (run_row demo_coding_run)
   \<and> job_to_domain (job_to_model demo_leased_job) = Inr (job_row demo_leased_job)
   \<and> candidate_to_domain (candidate_to_model (demo_candidate 0 (demo_report 0))) =
       Inr (candidate_row (demo_candidate 0 (demo_report 0)))"
  by (rule aggregates_survive_storage [OF demo_storable])

text \<open>
  Plans, reviews and workers survive too. The tasks of a plan and the findings of a review come back in
  the order the planner and the reviewer gave them, in whatever order the child rows are returned, and the validation of
  the constructors accepts them again; a worker comes back with its roles in sorted order and nothing else changed.
\<close>

theorem children_survive_any_row_order:
  assumes "mk_plan p = Inr p" and "\<forall>t \<in> set (p_tasks p). mk_plan_task t = Inr t"
    and "mset task_rows = mset (plm_tasks (plan_to_model p))"
    and "mk_review v = Inr v" and "\<forall>f \<in> set (rv_findings v). mk_review_finding f = Inr f"
    and "mset finding_rows = mset (vm_findings (review_to_model fresh v))"
    and "wf_worker w" and "wf_endpoint (w_endpoint w)" and "wf_gpu (gpu (w_capabilities w))"
  shows "plan_to_domain ((plan_to_model p)\<lparr>plm_tasks := task_rows\<rparr>) = Inr p
    \<and> review_to_domain ((review_to_model fresh v)\<lparr>vm_findings := finding_rows\<rparr>) = Inr v
    \<and> worker_to_domain (worker_to_model w) = Inr (w\<lparr>w_events := [],
        w_capabilities := (w_capabilities w)\<lparr>supported_roles := sorted_roles (supported_roles (w_capabilities w))\<rparr>\<rparr>)"
  using plan_roundtrip [OF assms(1) _ assms(3)] review_roundtrip [OF assms(4) _ assms(6)] worker_roundtrip [OF assms(7-9)]
    assms(2,5) by blast

abbreviation demo_review :: review where
  "demo_review \<equiv> \<lparr>rv_id = ReviewId 5, rv_run_id = RunId 2, rv_candidate_id = CandidateId 4, rv_verdict = VERDICT_FAIL,
     rv_iteration = 1, rv_created_at = 3, rv_summary = ''s'',
     rv_findings = [\<lparr>fd_summary = ''a'', fd_severity = MAJOR, fd_file = None, fd_line = None, fd_repair_instruction = None\<rparr>,
       \<lparr>fd_summary = ''b'', fd_severity = INFO, fd_file = Some ''f'', fd_line = Some 3, fd_repair_instruction = None\<rparr>],
     rv_prompt_version = ''v1'', rv_metadata = []\<rparr>"

theorem children_survive_any_row_order_witness:
  "plan_to_domain ((plan_to_model demo_plan)\<lparr>plm_tasks := rev (plm_tasks (plan_to_model demo_plan))\<rparr>) = Inr demo_plan
   \<and> review_to_domain ((review_to_model (\<lambda>n. n) demo_review)\<lparr>vm_findings := rev (vm_findings (review_to_model (\<lambda>n. n) demo_review))\<rparr>)
       = Inr demo_review"
proof -
  have blank: "strip [x] \<noteq> []" if "\<not> py_isspace x" for x using that by (simp add: strip_def)
  have "\<forall>t \<in> set (p_tasks demo_plan). mk_plan_task t = Inr t"
    by (auto simp: mk_plan_task_def blank py_isspace_def)
  moreover have "\<forall>f \<in> set (rv_findings demo_review). mk_review_finding f = Inr f"
    by (auto simp: mk_review_finding_def blank py_isspace_def)
  moreover have "mk_review demo_review = Inr demo_review" by (simp add: mk_review_def)
  moreover have "wf_worker demo_worker" "wf_endpoint (w_endpoint demo_worker)" "wf_gpu (gpu (w_capabilities demo_worker))"
    using worker_reachable_wf [OF demo_worker_reachable]
    by (simp_all add: wf_endpoint_def mk_worker_endpoint_def starts_with_def wf_gpu_def mk_gpu_spec_def worker_register_def)
  ultimately show ?thesis
    using children_survive_any_row_order [OF demo_plan_ok, of _ demo_review] by (metis mset_rev)
qed

text \<open>
  C16. Updating a row is writing the aggregate. Take any row of a run (its objective trimmed, as it is written), a job or a candidate, whatever its columns hold, load it, call any
  method on what was loaded and copy the result back onto that row: the row is then the one that would have been written for the
  aggregate afresh. No column that \<open>apply_run\<close>, \<open>apply_job\<close> or \<open>apply_candidate\<close> leaves alone can keep a stale entry.
\<close>

theorem row_update_writes_the_aggregate:
  assumes "run_to_domain m = Inr r" and "strip (rm_objective m) = rm_objective m" and "job_to_domain n = Inr j"
    and "candidate_to_domain k = Inr c"
  shows "apply_run m (run_apply r now a) = run_to_model (run_apply r now a)
   \<and> apply_job n (job_apply j now b) = job_to_model (job_apply j now b)
   \<and> apply_candidate k (cand_apply c now d) = candidate_to_model (cand_apply c now d)"
  using apply_run_overwrites [OF assms(1,2), of "run_apply r now a"] apply_job_overwrites [OF assms(3), of "job_apply j now b"]
    apply_candidate_overwrites [OF assms(4), of "cand_apply c now d"]
  by (simp add: run_fixed_columns job_project_fixed candidate_fixed_columns)

theorem row_update_writes_the_aggregate_witness:
  "apply_run (run_to_model demo_coding_run) (run_apply (run_row demo_coding_run) 9 (Add_Token_Usage \<lparr>input_tokens = 5, output_tokens = 7\<rparr>))
     = run_to_model (run_apply (run_row demo_coding_run) 9 (Add_Token_Usage \<lparr>input_tokens = 5, output_tokens = 7\<rparr>))"
proof -
  have trimmed: "strip (rm_objective (run_to_model demo_coding_run)) = rm_objective (run_to_model demo_coding_run)"
    using demo_storable(1) by (simp add: storable_run_def wf_run_def run_to_model_def apply_run_def)
  show ?thesis
    by (rule conjunct1 [OF row_update_writes_the_aggregate [OF run_roundtrip [OF demo_storable(1)] trimmed job_roundtrip [OF demo_storable(2)]
      candidate_roundtrip [OF demo_storable(3)]]])
qed

end
