(* ===== verification/Event_Codec.thy ===== *)
theory Event_Codec
  imports Wire
begin

text \<open>
  Events as stored documents: \<open>DomainEvent.payload\<close> (\<open>src/src/domain/events/base.py\<close>) renders the body of an event and
  \<open>load_event\<close> (\<open>src/src/infrastructure/database/event_codec.py\<close>) rebuilds the typed event from its wire name and that
  body. The source derives the readers from the annotations of the classes; here they are written out per class.
  When several fields of a body are wrong, the exception is that of the first one. The source does not look at the JSON
  type of a plain string, number or flag; a body that has another type there is not the body of any event, and the model
  refuses it.
\<close>

section \<open>Fields\<close>

abbreviation id_json :: "uuid \<Rightarrow> json" where
  "id_json n \<equiv> JStr (uuid_text n)"

definition as_id :: "(uuid \<Rightarrow> 'a) \<Rightarrow> json \<Rightarrow> error + 'a" where
  "as_id C v = bind_sum (as_str v) (\<lambda>s. map_sum id C (parse_uuid s))"

definition as_enum :: "'a list \<Rightarrow> ('a \<Rightarrow> string) \<Rightarrow> json \<Rightarrow> error + 'a" where
  "as_enum members wire v = bind_sum (as_str v) (enum_of members wire)"

text \<open>Calling the class with the fields of the body: a missing field takes its default or raises, an unknown one raises.\<close>

definition field :: "json_object \<Rightarrow> string \<Rightarrow> json option \<Rightarrow> (json \<Rightarrow> error + 'a) \<Rightarrow> error + 'a" where
  "field body k dflt f =
     (case dict_get body k of
        Some v \<Rightarrow> f v
      | None \<Rightarrow> (case dflt of None \<Rightarrow> Inl (OtherException ''TypeError'') | Some v \<Rightarrow> f v))"

definition only_fields :: "json_object \<Rightarrow> string list \<Rightarrow> error + unit" where
  "only_fields body known =
     (if list_all (\<lambda>(k, _). k \<in> set known) body then Inr () else Inl (OtherException ''TypeError''))"

fun opt_list :: "'a option \<Rightarrow> 'a list" where
  "opt_list None = []"
| "opt_list (Some x) = [x]"

section \<open>Rendering and reading\<close>

fun payload :: "event \<Rightarrow> json_object" where
  "payload (RunCreated _ a b c d) =
     [(''run_id'', id_json (run_uuid a)), (''project_id'', id_json (project_uuid b)), (''objective'', JStr c), (''candidate_count'', JInt d)]"
| "payload (RunStateChanged _ a b c d) =
     [(''run_id'', id_json (run_uuid a)), (''previous'', JStr (run_status_value b)), (''current'', JStr (run_status_value c)), (''reason'', opt_json JStr d)]"
| "payload (PlanRequested _ a b) =
     [(''run_id'', id_json (run_uuid a)), (''revision'', JInt b)]"
| "payload (PlanCompleted _ a b c d) =
     [(''run_id'', id_json (run_uuid a)), (''plan_id'', id_json (plan_uuid b)), (''revision'', JInt c), (''task_count'', JInt d)]"
| "payload (CandidateStarted _ a b c d) =
     [(''run_id'', id_json (run_uuid a)), (''candidate_id'', id_json (candidate_uuid b)), (''index'', JInt c), (''job_id'', opt_json id_json (map_option job_uuid d))]"
| "payload (CandidateCompleted _ a b c d) =
     [(''run_id'', id_json (run_uuid a)), (''candidate_id'', id_json (candidate_uuid b)), (''status'', JStr (candidate_status_value c)), (''changed_files'', JInt d)]"
| "payload (ValidationStarted _ a b) =
     [(''run_id'', id_json (run_uuid a)), (''candidate_id'', id_json (candidate_uuid b))]"
| "payload (ValidationCompleted _ a b c d) =
     [(''run_id'', id_json (run_uuid a)), (''candidate_id'', id_json (candidate_uuid b)), (''viable'', JBool c), (''summary'', JStr d)]"
| "payload (ReviewRequested _ a b c) =
     [(''run_id'', id_json (run_uuid a)), (''candidate_id'', id_json (candidate_uuid b)), (''iteration'', JInt c)]"
| "payload (ReviewCompleted _ a b c d) =
     [(''run_id'', id_json (run_uuid a)), (''candidate_id'', id_json (candidate_uuid b)), (''verdict'', JStr (review_verdict_value c)), (''finding_count'', JInt d)]"
| "payload (RepairRequested _ a b c d) =
     [(''run_id'', id_json (run_uuid a)), (''candidate_id'', id_json (candidate_uuid b)), (''iteration'', JInt c), (''reason'', JStr d)]"
| "payload (CandidateSelected _ a b c) =
     [(''run_id'', id_json (run_uuid a)), (''candidate_id'', id_json (candidate_uuid b)), (''rationale'', JStr c)]"
| "payload (RunCompleted _ a b) =
     [(''run_id'', id_json (run_uuid a)), (''candidate_id'', opt_json id_json (map_option candidate_uuid b))]"
| "payload (RunFailed _ a b c) =
     [(''run_id'', id_json (run_uuid a)), (''failure_kind'', JStr (failure_kind_value b)), (''reason'', JStr c)]"
| "payload (RunCancelled _ a b) =
     [(''run_id'', id_json (run_uuid a)), (''reason'', opt_json JStr b)]"
| "payload (JobEnqueued _ a b c d) =
     [(''job_id'', id_json (job_uuid a)), (''run_id'', id_json (run_uuid b)), (''job_type'', JStr (job_type_value c)), (''attempt'', JInt d)]"
| "payload (JobLeased _ a b c d) =
     [(''job_id'', id_json (job_uuid a)), (''run_id'', id_json (run_uuid b)), (''worker_id'', id_json (worker_uuid c)), (''attempt'', JInt d)]"
| "payload (JobCompleted _ a b c d) =
     [(''job_id'', id_json (job_uuid a)), (''run_id'', id_json (run_uuid b)), (''job_type'', JStr (job_type_value c)), (''duration_ms'', JInt d)]"
| "payload (JobFailed _ a b c d e f) =
     [(''job_id'', id_json (job_uuid a)), (''run_id'', id_json (run_uuid b)), (''failure_kind'', JStr (failure_kind_value c)), (''reason'', JStr d), (''attempt'', JInt e), (''retryable'', JBool f)]"
| "payload (JobLeaseExpired _ a b c) =
     [(''job_id'', id_json (job_uuid a)), (''run_id'', id_json (run_uuid b)), (''holder'', id_json (worker_uuid c))]"
| "payload (JobRequeued _ a b c d) =
     [(''job_id'', id_json (job_uuid a)), (''run_id'', id_json (run_uuid b)), (''attempt'', JInt c), (''reason'', JStr d)]"
| "payload (WorkerRegistered _ a b c d) =
     [(''worker_id'', id_json (worker_uuid a)), (''model_id'', JStr b), (''endpoint'', JStr c), (''max_concurrency'', JInt d)]"
| "payload (WorkerHeartbeatReceived _ a b c) =
     [(''worker_id'', id_json (worker_uuid a)), (''status'', JStr (worker_status_value b)), (''active_jobs'', JInt c)]"
| "payload (WorkerStatusChanged _ a b c) =
     [(''worker_id'', id_json (worker_uuid a)), (''previous'', JStr (worker_status_value b)), (''current'', JStr (worker_status_value c))]"
| "payload (WorkerDraining _ a b) =
     [(''worker_id'', id_json (worker_uuid a)), (''active_jobs'', JInt b)]"
| "payload (WorkerUnavailable _ a b) =
     [(''worker_id'', id_json (worker_uuid a)), (''reason'', JStr b)]"
| "payload (WorkerDeregistered _ a b) =
     [(''worker_id'', id_json (worker_uuid a)), (''graceful'', JBool b)]"

fun occurred_at :: "event \<Rightarrow> moment" where
  "occurred_at (RunCreated now _ _ _ _) = now"
| "occurred_at (RunStateChanged now _ _ _ _) = now"
| "occurred_at (PlanRequested now _ _) = now"
| "occurred_at (PlanCompleted now _ _ _ _) = now"
| "occurred_at (CandidateStarted now _ _ _ _) = now"
| "occurred_at (CandidateCompleted now _ _ _ _) = now"
| "occurred_at (ValidationStarted now _ _) = now"
| "occurred_at (ValidationCompleted now _ _ _ _) = now"
| "occurred_at (ReviewRequested now _ _ _) = now"
| "occurred_at (ReviewCompleted now _ _ _ _) = now"
| "occurred_at (RepairRequested now _ _ _ _) = now"
| "occurred_at (CandidateSelected now _ _ _) = now"
| "occurred_at (RunCompleted now _ _) = now"
| "occurred_at (RunFailed now _ _ _) = now"
| "occurred_at (RunCancelled now _ _) = now"
| "occurred_at (JobEnqueued now _ _ _ _) = now"
| "occurred_at (JobLeased now _ _ _ _) = now"
| "occurred_at (JobCompleted now _ _ _ _) = now"
| "occurred_at (JobFailed now _ _ _ _ _ _) = now"
| "occurred_at (JobLeaseExpired now _ _ _) = now"
| "occurred_at (JobRequeued now _ _ _ _) = now"
| "occurred_at (WorkerRegistered now _ _ _ _) = now"
| "occurred_at (WorkerHeartbeatReceived now _ _ _) = now"
| "occurred_at (WorkerStatusChanged now _ _ _) = now"
| "occurred_at (WorkerDraining now _ _) = now"
| "occurred_at (WorkerUnavailable now _ _) = now"
| "occurred_at (WorkerDeregistered now _ _) = now"

text \<open>The run an event belongs to; the events of the worker fleet belong to none.\<close>

definition event_run_id :: "event \<Rightarrow> run_id option" where
  "event_run_id e = run_id_of e"

text \<open>The identifiers an event carries.\<close>

fun event_uuids :: "event \<Rightarrow> uuid list" where
  "event_uuids (RunCreated _ a b _ _) = [run_uuid a] @ [project_uuid b]"
| "event_uuids (RunStateChanged _ a _ _ _) = [run_uuid a]"
| "event_uuids (PlanRequested _ a _) = [run_uuid a]"
| "event_uuids (PlanCompleted _ a b _ _) = [run_uuid a] @ [plan_uuid b]"
| "event_uuids (CandidateStarted _ a b _ d) = [run_uuid a] @ [candidate_uuid b] @ map job_uuid (opt_list d)"
| "event_uuids (CandidateCompleted _ a b _ _) = [run_uuid a] @ [candidate_uuid b]"
| "event_uuids (ValidationStarted _ a b) = [run_uuid a] @ [candidate_uuid b]"
| "event_uuids (ValidationCompleted _ a b _ _) = [run_uuid a] @ [candidate_uuid b]"
| "event_uuids (ReviewRequested _ a b _) = [run_uuid a] @ [candidate_uuid b]"
| "event_uuids (ReviewCompleted _ a b _ _) = [run_uuid a] @ [candidate_uuid b]"
| "event_uuids (RepairRequested _ a b _ _) = [run_uuid a] @ [candidate_uuid b]"
| "event_uuids (CandidateSelected _ a b _) = [run_uuid a] @ [candidate_uuid b]"
| "event_uuids (RunCompleted _ a b) = [run_uuid a] @ map candidate_uuid (opt_list b)"
| "event_uuids (RunFailed _ a _ _) = [run_uuid a]"
| "event_uuids (RunCancelled _ a _) = [run_uuid a]"
| "event_uuids (JobEnqueued _ a b _ _) = [job_uuid a] @ [run_uuid b]"
| "event_uuids (JobLeased _ a b c _) = [job_uuid a] @ [run_uuid b] @ [worker_uuid c]"
| "event_uuids (JobCompleted _ a b _ _) = [job_uuid a] @ [run_uuid b]"
| "event_uuids (JobFailed _ a b _ _ _ _) = [job_uuid a] @ [run_uuid b]"
| "event_uuids (JobLeaseExpired _ a b c) = [job_uuid a] @ [run_uuid b] @ [worker_uuid c]"
| "event_uuids (JobRequeued _ a b _ _) = [job_uuid a] @ [run_uuid b]"
| "event_uuids (WorkerRegistered _ a _ _ _) = [worker_uuid a]"
| "event_uuids (WorkerHeartbeatReceived _ a _ _) = [worker_uuid a]"
| "event_uuids (WorkerStatusChanged _ a _ _) = [worker_uuid a]"
| "event_uuids (WorkerDraining _ a _) = [worker_uuid a]"
| "event_uuids (WorkerUnavailable _ a _) = [worker_uuid a]"
| "event_uuids (WorkerDeregistered _ a _) = [worker_uuid a]"

text \<open>The readers of one class: every field in turn, then the constructor.\<close>

definition load_RunCreated :: "moment \<Rightarrow> json_object \<Rightarrow> error + event" where
  "load_RunCreated now body =
     bind_sum (only_fields body [''run_id'', ''project_id'', ''objective'', ''candidate_count'']) (\<lambda>_.
     bind_sum (field body ''run_id'' None (as_id RunId)) (\<lambda>a.
     bind_sum (field body ''project_id'' None (as_id ProjectId)) (\<lambda>b.
     bind_sum (field body ''objective'' None (as_str)) (\<lambda>c.
     bind_sum (field body ''candidate_count'' None (as_int)) (\<lambda>d.
     Inr (RunCreated now a b c d))))))"

definition load_RunStateChanged :: "moment \<Rightarrow> json_object \<Rightarrow> error + event" where
  "load_RunStateChanged now body =
     bind_sum (only_fields body [''run_id'', ''previous'', ''current'', ''reason'']) (\<lambda>_.
     bind_sum (field body ''run_id'' None (as_id RunId)) (\<lambda>a.
     bind_sum (field body ''previous'' None (as_enum run_statuses run_status_value)) (\<lambda>b.
     bind_sum (field body ''current'' None (as_enum run_statuses run_status_value)) (\<lambda>c.
     bind_sum (field body ''reason'' (Some JNull) (as_opt as_str)) (\<lambda>d.
     Inr (RunStateChanged now a b c d))))))"

definition load_PlanRequested :: "moment \<Rightarrow> json_object \<Rightarrow> error + event" where
  "load_PlanRequested now body =
     bind_sum (only_fields body [''run_id'', ''revision'']) (\<lambda>_.
     bind_sum (field body ''run_id'' None (as_id RunId)) (\<lambda>a.
     bind_sum (field body ''revision'' None (as_int)) (\<lambda>b.
     Inr (PlanRequested now a b))))"

definition load_PlanCompleted :: "moment \<Rightarrow> json_object \<Rightarrow> error + event" where
  "load_PlanCompleted now body =
     bind_sum (only_fields body [''run_id'', ''plan_id'', ''revision'', ''task_count'']) (\<lambda>_.
     bind_sum (field body ''run_id'' None (as_id RunId)) (\<lambda>a.
     bind_sum (field body ''plan_id'' None (as_id PlanId)) (\<lambda>b.
     bind_sum (field body ''revision'' None (as_int)) (\<lambda>c.
     bind_sum (field body ''task_count'' None (as_int)) (\<lambda>d.
     Inr (PlanCompleted now a b c d))))))"

definition load_CandidateStarted :: "moment \<Rightarrow> json_object \<Rightarrow> error + event" where
  "load_CandidateStarted now body =
     bind_sum (only_fields body [''run_id'', ''candidate_id'', ''index'', ''job_id'']) (\<lambda>_.
     bind_sum (field body ''run_id'' None (as_id RunId)) (\<lambda>a.
     bind_sum (field body ''candidate_id'' None (as_id CandidateId)) (\<lambda>b.
     bind_sum (field body ''index'' None (as_int)) (\<lambda>c.
     bind_sum (field body ''job_id'' (Some JNull) (as_opt (as_id JobId))) (\<lambda>d.
     Inr (CandidateStarted now a b c d))))))"

definition load_CandidateCompleted :: "moment \<Rightarrow> json_object \<Rightarrow> error + event" where
  "load_CandidateCompleted now body =
     bind_sum (only_fields body [''run_id'', ''candidate_id'', ''status'', ''changed_files'']) (\<lambda>_.
     bind_sum (field body ''run_id'' None (as_id RunId)) (\<lambda>a.
     bind_sum (field body ''candidate_id'' None (as_id CandidateId)) (\<lambda>b.
     bind_sum (field body ''status'' None (as_enum candidate_statuses candidate_status_value)) (\<lambda>c.
     bind_sum (field body ''changed_files'' (Some (JInt 0)) (as_int)) (\<lambda>d.
     Inr (CandidateCompleted now a b c d))))))"

definition load_ValidationStarted :: "moment \<Rightarrow> json_object \<Rightarrow> error + event" where
  "load_ValidationStarted now body =
     bind_sum (only_fields body [''run_id'', ''candidate_id'']) (\<lambda>_.
     bind_sum (field body ''run_id'' None (as_id RunId)) (\<lambda>a.
     bind_sum (field body ''candidate_id'' None (as_id CandidateId)) (\<lambda>b.
     Inr (ValidationStarted now a b))))"

definition load_ValidationCompleted :: "moment \<Rightarrow> json_object \<Rightarrow> error + event" where
  "load_ValidationCompleted now body =
     bind_sum (only_fields body [''run_id'', ''candidate_id'', ''viable'', ''summary'']) (\<lambda>_.
     bind_sum (field body ''run_id'' None (as_id RunId)) (\<lambda>a.
     bind_sum (field body ''candidate_id'' None (as_id CandidateId)) (\<lambda>b.
     bind_sum (field body ''viable'' None (as_bool)) (\<lambda>c.
     bind_sum (field body ''summary'' None (as_str)) (\<lambda>d.
     Inr (ValidationCompleted now a b c d))))))"

definition load_ReviewRequested :: "moment \<Rightarrow> json_object \<Rightarrow> error + event" where
  "load_ReviewRequested now body =
     bind_sum (only_fields body [''run_id'', ''candidate_id'', ''iteration'']) (\<lambda>_.
     bind_sum (field body ''run_id'' None (as_id RunId)) (\<lambda>a.
     bind_sum (field body ''candidate_id'' None (as_id CandidateId)) (\<lambda>b.
     bind_sum (field body ''iteration'' None (as_int)) (\<lambda>c.
     Inr (ReviewRequested now a b c)))))"

definition load_ReviewCompleted :: "moment \<Rightarrow> json_object \<Rightarrow> error + event" where
  "load_ReviewCompleted now body =
     bind_sum (only_fields body [''run_id'', ''candidate_id'', ''verdict'', ''finding_count'']) (\<lambda>_.
     bind_sum (field body ''run_id'' None (as_id RunId)) (\<lambda>a.
     bind_sum (field body ''candidate_id'' None (as_id CandidateId)) (\<lambda>b.
     bind_sum (field body ''verdict'' None (as_enum review_verdicts review_verdict_value)) (\<lambda>c.
     bind_sum (field body ''finding_count'' (Some (JInt 0)) (as_int)) (\<lambda>d.
     Inr (ReviewCompleted now a b c d))))))"

definition load_RepairRequested :: "moment \<Rightarrow> json_object \<Rightarrow> error + event" where
  "load_RepairRequested now body =
     bind_sum (only_fields body [''run_id'', ''candidate_id'', ''iteration'', ''reason'']) (\<lambda>_.
     bind_sum (field body ''run_id'' None (as_id RunId)) (\<lambda>a.
     bind_sum (field body ''candidate_id'' None (as_id CandidateId)) (\<lambda>b.
     bind_sum (field body ''iteration'' None (as_int)) (\<lambda>c.
     bind_sum (field body ''reason'' None (as_str)) (\<lambda>d.
     Inr (RepairRequested now a b c d))))))"

definition load_CandidateSelected :: "moment \<Rightarrow> json_object \<Rightarrow> error + event" where
  "load_CandidateSelected now body =
     bind_sum (only_fields body [''run_id'', ''candidate_id'', ''rationale'']) (\<lambda>_.
     bind_sum (field body ''run_id'' None (as_id RunId)) (\<lambda>a.
     bind_sum (field body ''candidate_id'' None (as_id CandidateId)) (\<lambda>b.
     bind_sum (field body ''rationale'' None (as_str)) (\<lambda>c.
     Inr (CandidateSelected now a b c)))))"

definition load_RunCompleted :: "moment \<Rightarrow> json_object \<Rightarrow> error + event" where
  "load_RunCompleted now body =
     bind_sum (only_fields body [''run_id'', ''candidate_id'']) (\<lambda>_.
     bind_sum (field body ''run_id'' None (as_id RunId)) (\<lambda>a.
     bind_sum (field body ''candidate_id'' (Some JNull) (as_opt (as_id CandidateId))) (\<lambda>b.
     Inr (RunCompleted now a b))))"

definition load_RunFailed :: "moment \<Rightarrow> json_object \<Rightarrow> error + event" where
  "load_RunFailed now body =
     bind_sum (only_fields body [''run_id'', ''failure_kind'', ''reason'']) (\<lambda>_.
     bind_sum (field body ''run_id'' None (as_id RunId)) (\<lambda>a.
     bind_sum (field body ''failure_kind'' None (as_enum failure_kinds failure_kind_value)) (\<lambda>b.
     bind_sum (field body ''reason'' None (as_str)) (\<lambda>c.
     Inr (RunFailed now a b c)))))"

definition load_RunCancelled :: "moment \<Rightarrow> json_object \<Rightarrow> error + event" where
  "load_RunCancelled now body =
     bind_sum (only_fields body [''run_id'', ''reason'']) (\<lambda>_.
     bind_sum (field body ''run_id'' None (as_id RunId)) (\<lambda>a.
     bind_sum (field body ''reason'' (Some JNull) (as_opt as_str)) (\<lambda>b.
     Inr (RunCancelled now a b))))"

definition load_JobEnqueued :: "moment \<Rightarrow> json_object \<Rightarrow> error + event" where
  "load_JobEnqueued now body =
     bind_sum (only_fields body [''job_id'', ''run_id'', ''job_type'', ''attempt'']) (\<lambda>_.
     bind_sum (field body ''job_id'' None (as_id JobId)) (\<lambda>a.
     bind_sum (field body ''run_id'' None (as_id RunId)) (\<lambda>b.
     bind_sum (field body ''job_type'' None (as_enum all_job_types job_type_value)) (\<lambda>c.
     bind_sum (field body ''attempt'' None (as_int)) (\<lambda>d.
     Inr (JobEnqueued now a b c d))))))"

definition load_JobLeased :: "moment \<Rightarrow> json_object \<Rightarrow> error + event" where
  "load_JobLeased now body =
     bind_sum (only_fields body [''job_id'', ''run_id'', ''worker_id'', ''attempt'']) (\<lambda>_.
     bind_sum (field body ''job_id'' None (as_id JobId)) (\<lambda>a.
     bind_sum (field body ''run_id'' None (as_id RunId)) (\<lambda>b.
     bind_sum (field body ''worker_id'' None (as_id WorkerId)) (\<lambda>c.
     bind_sum (field body ''attempt'' None (as_int)) (\<lambda>d.
     Inr (JobLeased now a b c d))))))"

definition load_JobCompleted :: "moment \<Rightarrow> json_object \<Rightarrow> error + event" where
  "load_JobCompleted now body =
     bind_sum (only_fields body [''job_id'', ''run_id'', ''job_type'', ''duration_ms'']) (\<lambda>_.
     bind_sum (field body ''job_id'' None (as_id JobId)) (\<lambda>a.
     bind_sum (field body ''run_id'' None (as_id RunId)) (\<lambda>b.
     bind_sum (field body ''job_type'' None (as_enum all_job_types job_type_value)) (\<lambda>c.
     bind_sum (field body ''duration_ms'' (Some (JInt 0)) (as_int)) (\<lambda>d.
     Inr (JobCompleted now a b c d))))))"

definition load_JobFailed :: "moment \<Rightarrow> json_object \<Rightarrow> error + event" where
  "load_JobFailed now body =
     bind_sum (only_fields body [''job_id'', ''run_id'', ''failure_kind'', ''reason'', ''attempt'', ''retryable'']) (\<lambda>_.
     bind_sum (field body ''job_id'' None (as_id JobId)) (\<lambda>a.
     bind_sum (field body ''run_id'' None (as_id RunId)) (\<lambda>b.
     bind_sum (field body ''failure_kind'' None (as_enum failure_kinds failure_kind_value)) (\<lambda>c.
     bind_sum (field body ''reason'' None (as_str)) (\<lambda>d.
     bind_sum (field body ''attempt'' None (as_int)) (\<lambda>e.
     bind_sum (field body ''retryable'' None (as_bool)) (\<lambda>f.
     Inr (JobFailed now a b c d e f))))))))"

definition load_JobLeaseExpired :: "moment \<Rightarrow> json_object \<Rightarrow> error + event" where
  "load_JobLeaseExpired now body =
     bind_sum (only_fields body [''job_id'', ''run_id'', ''holder'']) (\<lambda>_.
     bind_sum (field body ''job_id'' None (as_id JobId)) (\<lambda>a.
     bind_sum (field body ''run_id'' None (as_id RunId)) (\<lambda>b.
     bind_sum (field body ''holder'' None (as_id WorkerId)) (\<lambda>c.
     Inr (JobLeaseExpired now a b c)))))"

definition load_JobRequeued :: "moment \<Rightarrow> json_object \<Rightarrow> error + event" where
  "load_JobRequeued now body =
     bind_sum (only_fields body [''job_id'', ''run_id'', ''attempt'', ''reason'']) (\<lambda>_.
     bind_sum (field body ''job_id'' None (as_id JobId)) (\<lambda>a.
     bind_sum (field body ''run_id'' None (as_id RunId)) (\<lambda>b.
     bind_sum (field body ''attempt'' None (as_int)) (\<lambda>c.
     bind_sum (field body ''reason'' None (as_str)) (\<lambda>d.
     Inr (JobRequeued now a b c d))))))"

definition load_WorkerRegistered :: "moment \<Rightarrow> json_object \<Rightarrow> error + event" where
  "load_WorkerRegistered now body =
     bind_sum (only_fields body [''worker_id'', ''model_id'', ''endpoint'', ''max_concurrency'']) (\<lambda>_.
     bind_sum (field body ''worker_id'' None (as_id WorkerId)) (\<lambda>a.
     bind_sum (field body ''model_id'' None (as_str)) (\<lambda>b.
     bind_sum (field body ''endpoint'' None (as_str)) (\<lambda>c.
     bind_sum (field body ''max_concurrency'' None (as_int)) (\<lambda>d.
     Inr (WorkerRegistered now a b c d))))))"

definition load_WorkerHeartbeatReceived :: "moment \<Rightarrow> json_object \<Rightarrow> error + event" where
  "load_WorkerHeartbeatReceived now body =
     bind_sum (only_fields body [''worker_id'', ''status'', ''active_jobs'']) (\<lambda>_.
     bind_sum (field body ''worker_id'' None (as_id WorkerId)) (\<lambda>a.
     bind_sum (field body ''status'' None (as_enum worker_statuses worker_status_value)) (\<lambda>b.
     bind_sum (field body ''active_jobs'' None (as_int)) (\<lambda>c.
     Inr (WorkerHeartbeatReceived now a b c)))))"

definition load_WorkerStatusChanged :: "moment \<Rightarrow> json_object \<Rightarrow> error + event" where
  "load_WorkerStatusChanged now body =
     bind_sum (only_fields body [''worker_id'', ''previous'', ''current'']) (\<lambda>_.
     bind_sum (field body ''worker_id'' None (as_id WorkerId)) (\<lambda>a.
     bind_sum (field body ''previous'' None (as_enum worker_statuses worker_status_value)) (\<lambda>b.
     bind_sum (field body ''current'' None (as_enum worker_statuses worker_status_value)) (\<lambda>c.
     Inr (WorkerStatusChanged now a b c)))))"

definition load_WorkerDraining :: "moment \<Rightarrow> json_object \<Rightarrow> error + event" where
  "load_WorkerDraining now body =
     bind_sum (only_fields body [''worker_id'', ''active_jobs'']) (\<lambda>_.
     bind_sum (field body ''worker_id'' None (as_id WorkerId)) (\<lambda>a.
     bind_sum (field body ''active_jobs'' None (as_int)) (\<lambda>b.
     Inr (WorkerDraining now a b))))"

definition load_WorkerUnavailable :: "moment \<Rightarrow> json_object \<Rightarrow> error + event" where
  "load_WorkerUnavailable now body =
     bind_sum (only_fields body [''worker_id'', ''reason'']) (\<lambda>_.
     bind_sum (field body ''worker_id'' None (as_id WorkerId)) (\<lambda>a.
     bind_sum (field body ''reason'' None (as_str)) (\<lambda>b.
     Inr (WorkerUnavailable now a b))))"

definition load_WorkerDeregistered :: "moment \<Rightarrow> json_object \<Rightarrow> error + event" where
  "load_WorkerDeregistered now body =
     bind_sum (only_fields body [''worker_id'', ''graceful'']) (\<lambda>_.
     bind_sum (field body ''worker_id'' None (as_id WorkerId)) (\<lambda>a.
     bind_sum (field body ''graceful'' None (as_bool)) (\<lambda>b.
     Inr (WorkerDeregistered now a b))))"

lemmas load_defs = load_RunCreated_def load_RunStateChanged_def load_PlanRequested_def load_PlanCompleted_def load_CandidateStarted_def load_CandidateCompleted_def load_ValidationStarted_def load_ValidationCompleted_def load_ReviewRequested_def load_ReviewCompleted_def load_RepairRequested_def load_CandidateSelected_def load_RunCompleted_def load_RunFailed_def load_RunCancelled_def load_JobEnqueued_def load_JobLeased_def load_JobCompleted_def load_JobFailed_def load_JobLeaseExpired_def load_JobRequeued_def load_WorkerRegistered_def load_WorkerHeartbeatReceived_def load_WorkerStatusChanged_def load_WorkerDraining_def load_WorkerUnavailable_def load_WorkerDeregistered_def

text \<open>The registry: wire name to class.\<close>

definition EVENT_TYPES :: "(string, moment \<Rightarrow> json_object \<Rightarrow> error + event) dict" where
  "EVENT_TYPES =
     [(''run.created'', load_RunCreated),
      (''run.state_changed'', load_RunStateChanged),
      (''run.plan_requested'', load_PlanRequested),
      (''run.plan_completed'', load_PlanCompleted),
      (''candidate.started'', load_CandidateStarted),
      (''candidate.completed'', load_CandidateCompleted),
      (''candidate.validation_started'', load_ValidationStarted),
      (''candidate.validation_completed'', load_ValidationCompleted),
      (''review.requested'', load_ReviewRequested),
      (''review.completed'', load_ReviewCompleted),
      (''run.repair_requested'', load_RepairRequested),
      (''candidate.selected'', load_CandidateSelected),
      (''run.completed'', load_RunCompleted),
      (''run.failed'', load_RunFailed),
      (''run.cancelled'', load_RunCancelled),
      (''job.enqueued'', load_JobEnqueued),
      (''job.leased'', load_JobLeased),
      (''job.completed'', load_JobCompleted),
      (''job.failed'', load_JobFailed),
      (''job.lease_expired'', load_JobLeaseExpired),
      (''job.requeued'', load_JobRequeued),
      (''worker.registered'', load_WorkerRegistered),
      (''worker.heartbeat'', load_WorkerHeartbeatReceived),
      (''worker.status_changed'', load_WorkerStatusChanged),
      (''worker.draining'', load_WorkerDraining),
      (''worker.unavailable'', load_WorkerUnavailable),
      (''worker.deregistered'', load_WorkerDeregistered)]"
definition event_name :: "event \<Rightarrow> string" where
  "event_name e =
     (case run_event_name e of
        Some n \<Rightarrow> n
      | None \<Rightarrow> (case job_event_name e of
                   Some n \<Rightarrow> n
                 | None \<Rightarrow> (case worker_event_name e of Some n \<Rightarrow> n | None \<Rightarrow> [])))"

abbreviation unknown_event :: "string \<Rightarrow> error" where
  "unknown_event name \<equiv> OtherException (''no domain event class registered for '' @ name)"

definition load_event :: "string \<Rightarrow> json_object \<Rightarrow> moment \<Rightarrow> error + event" where
  "load_event name body now =
     (case dict_get EVENT_TYPES name of
        None \<Rightarrow> Inl (unknown_event name)
      | Some load \<Rightarrow> load now body)"

section \<open>Round trip\<close>

lemma field_simps [simp]:
  "field ((k', v) # body) k d f = (if k' = k then f v else field body k d f)"
  by (simp add: field_def)

lemma only_fields_simps [simp]:
  "only_fields [] known = Inr ()"
  "k \<in> set known \<Longrightarrow> only_fields ((k, v) # body) known = only_fields body known"
  by (simp_all add: only_fields_def)

lemma as_id_json [simp]: "n < 2 ^ 128 \<Longrightarrow> as_id C (id_json n) = Inr (C n)"
  by (simp add: as_id_def parse_uuid_text)

lemma as_opt_id:
  "(\<And>y. y \<in> set (opt_list v) \<Longrightarrow> g y < 2 ^ 128) \<Longrightarrow> (\<And>y. C (g y) = y) \<Longrightarrow>
   as_opt (as_id C) (opt_json id_json (map_option g v)) = Inr v"
  by (cases v) simp_all

lemma as_opt_ids [simp]:
  "\<forall>y \<in> set (opt_list j). job_uuid y < 2 ^ 128 \<Longrightarrow>
   as_opt (as_id JobId) (opt_json id_json (map_option job_uuid j)) = Inr j"
  "\<forall>y \<in> set (opt_list c). candidate_uuid y < 2 ^ 128 \<Longrightarrow>
   as_opt (as_id CandidateId) (opt_json id_json (map_option candidate_uuid c)) = Inr c"
  by (rule as_opt_id; simp)+

lemma as_enum_wire [simp]:
  "as_enum run_statuses run_status_value (JStr (run_status_value a)) = Inr a"
  "as_enum candidate_statuses candidate_status_value (JStr (candidate_status_value b)) = Inr b"
  "as_enum review_verdicts review_verdict_value (JStr (review_verdict_value c)) = Inr c"
  "as_enum failure_kinds failure_kind_value (JStr (failure_kind_value d)) = Inr d"
  "as_enum all_job_types job_type_value (JStr (job_type_value e)) = Inr e"
  "as_enum worker_statuses worker_status_value (JStr (worker_status_value f)) = Inr f"
  by (simp_all add: as_enum_def)

lemma load_payload:
  assumes "\<forall>u \<in> set (event_uuids e). u < 2 ^ 128"
  shows "load_event (event_name e) (payload e) (occurred_at e) = Inr e"
  using assms by (cases e) (simp_all add: load_event_def event_name_def EVENT_TYPES_def load_defs)

lemma payload_run_id:
  "dict_get (payload e) ''run_id'' = map_option (\<lambda>r. id_json (run_uuid r)) (event_run_id e)"
  by (cases e) (simp_all add: event_run_id_def)

lemma load_unknown:
  "load_event name body now = Inl (unknown_event name) \<or> name \<in> set (map fst EVENT_TYPES)"
proof (cases "dict_get EVENT_TYPES name")
  case None
  then show ?thesis by (simp only: load_event_def option.case simp_thms)
next
  case (Some f)
  from map_of_SomeD [OF this] have "name \<in> fst ` set EVENT_TYPES"
    by (rule image_eqI [rotated]) simp
  then show ?thesis by (simp only: set_map simp_thms)
qed

lemma load_log:
  assumes "\<forall>e \<in> set es. \<forall>u \<in> set (event_uuids e). u < 2 ^ 128"
  shows "traverse (\<lambda>(name, body, now). load_event name body now)
           (map (\<lambda>e. (event_name e, payload e, occurred_at e)) es) = Inr es"
  using assms by (induction es) (simp_all add: load_payload)

text \<open>
  C17. An event appended to the log is read back as the very same event: for every class, the wire name finds the class
  and the stored body rebuilds the fields, whatever identifiers (of 128 bits), enumeration members, counters, texts and
  absent values it carries, so a run's history keeps the run it belongs to. A name that no class claims is refused,
  whatever its body.
\<close>

theorem events_survive_the_log:
  assumes "\<forall>e \<in> set es. \<forall>u \<in> set (event_uuids e). u < 2 ^ 128"
  shows "traverse (\<lambda>(name, body, now). load_event name body now)
           (map (\<lambda>e. (event_name e, payload e, occurred_at e)) es) = Inr es \<and>
         (\<forall>e \<in> set es. dict_get (payload e) ''run_id'' = map_option (\<lambda>r. id_json (run_uuid r)) (event_run_id e)) \<and>
         (\<forall>name body now. load_event name body now = Inl (unknown_event name) \<or> name \<in> set (map fst EVENT_TYPES))"
  using load_log [OF assms] load_unknown payload_run_id by blast

theorem events_survive_the_log_witness:
  "traverse (\<lambda>(name, body, now). load_event name body now)
     (map (\<lambda>e. (event_name e, payload e, occurred_at e))
        [RunCompleted 5 (RunId 7) None, WorkerDraining 6 (WorkerId 255) 2]) =
   Inr [RunCompleted 5 (RunId 7) None, WorkerDraining 6 (WorkerId 255) 2]"
  using events_survive_the_log [of "[RunCompleted 5 (RunId 7) None, WorkerDraining 6 (WorkerId 255) 2]"] by simp

end
