(* ===== verification/Redis_Codec.thy ===== *)
theory Redis_Codec
  imports Queue Mappers Event_Codec "HOL-Library.List_Lexorder" "HOL-Library.Char_ord"
begin

text \<open>
  Records in Redis (\<open>src/src/infrastructure/redis/codecs.py\<close>). A hash has one field per line of \<open>job_to_mapping\<close>
  and \<open>worker_to_mapping\<close>; texts, identifiers and enumerations are kept as the text that is stored, and the empty text
  means \<open>None\<close>. A number, an instant or a JSON document is kept as the value whose decimal, ISO 8601 or
  JSON text is stored, an absent instant or document as \<open>None\<close>: \<open>str\<close>, \<open>isoformat\<close> and \<open>json.dumps\<close> are read back
  by \<open>int\<close>, \<open>fromisoformat\<close> and \<open>json.loads\<close>. What \<open>json.dumps(..., sort_keys=True)\<close> does change, the order of the
  keys, is written out.
\<close>

section \<open>Documents with sorted keys\<close>

fun sort_keys :: "json \<Rightarrow> json" where
  "sort_keys (JArr xs) = JArr (map sort_keys xs)"
| "sort_keys (JObj kvs) = JObj (py_sorted fst (map (\<lambda>(k, v). (k, sort_keys v)) kvs))"
| "sort_keys v = v"

definition dumped :: "json_object \<Rightarrow> json_object" where
  "dumped d = py_sorted fst (map (\<lambda>(k, v). (k, sort_keys v)) d)"

lemma dict_wf_sort [simp]: "dict_wf (py_sorted fst d) = dict_wf d"
  by (simp add: distinct_map)

lemma dict_get_sort [simp]: "dict_wf d \<Longrightarrow> dict_get (py_sorted fst d) k = dict_get d k"
  using map_of_inject_set [of "py_sorted fst d" d] by simp

lemma fst_map_values [simp]: "fst \<circ> (\<lambda>(k, v). (k, f v)) = fst"
  by auto

lemma dict_get_map_values [simp]: "dict_get (map (\<lambda>(k, v). (k, f v)) d) k = map_option f (dict_get d k)"
  by (induction d) auto

lemma dict_get_dumped [simp]: "dict_wf d \<Longrightarrow> dict_get (dumped d) k = map_option sort_keys (dict_get d k)"
  by (simp add: dumped_def)

lemma set_keys_dumped [simp]: "fst ` set (dumped d) = fst ` set d"
  by (force simp: dumped_def)

lemma dumped_eq_Nil [simp]: "dumped d = [] \<longleftrightarrow> d = []"
  by (simp add: dumped_def)

lemma dumped_Nil [simp]: "dumped [] = []"
  by (simp add: dumped_def)

lemma sort_keys_idem [simp]: "sort_keys (sort_keys v) = sort_keys v"
proof (induction v rule: sort_keys.induct)
  case (2 kvs)
  let ?f = "\<lambda>(k, v). (k, sort_keys v)" and ?s = "py_sorted fst (map (\<lambda>(k, v). (k, sort_keys v)) kvs)"
  have "?f x = x" if "x \<in> set ?s" for x
    using that 2 by auto
  then have "map ?f ?s = ?s" by (rule map_idI)
  moreover have "py_sorted fst ?s = ?s" by (simp add: sort_key_id_if_sorted)
  ultimately show ?case by simp
qed simp_all

lemma dumped_dumped [simp]: "dumped (dumped d) = dumped d"
  using sort_keys_idem [of "JObj d"] by (simp add: dumped_def)

section \<open>Scalars\<close>

text \<open>\<open>_text\<close>: the empty text is \<open>None\<close>; \<open>_require\<close>: it is an error.\<close>

definition text_field :: "string \<Rightarrow> string option" where
  "text_field v = (if v = [] then None else Some v)"

definition require :: "string \<Rightarrow> error + string" where
  "require v = (if v = [] then Inl (ValueError ''malformed redis record: missing field'') else Inr v)"

fun or_empty :: "string option \<Rightarrow> string" where
  "or_empty None = []"
| "or_empty (Some s) = s"

definition require_id :: "(uuid \<Rightarrow> 'a) \<Rightarrow> string \<Rightarrow> error + 'a" where
  "require_id C v = bind_sum (require v) (\<lambda>s. map_sum id C (parse_uuid s))"

definition optional_id :: "(uuid \<Rightarrow> 'a) \<Rightarrow> string \<Rightarrow> error + 'a option" where
  "optional_id C v = opt_sum (\<lambda>s. map_sum id C (parse_uuid s)) (text_field v)"

lemma uuid_text_nonempty [simp]: "uuid_text n \<noteq> []"
  by (simp add: uuid_text_def Let_def del: hex_digits.simps)

lemma text_field_simps [simp]:
  "text_field [] = None" "text_field (uuid_text n) = Some (uuid_text n)"
  "text_field (or_empty (map_option agent_role_value r)) = map_option agent_role_value r"
  "text_field (or_empty (map_option failure_kind_value k)) = map_option failure_kind_value k"
proof -
  have "agent_role_value x \<noteq> []" "failure_kind_value y \<noteq> []" for x y by (cases x; cases y; simp)+
  then show "text_field (or_empty (map_option agent_role_value r)) = map_option agent_role_value r"
    "text_field (or_empty (map_option failure_kind_value k)) = map_option failure_kind_value k"
    by (cases r; cases k; simp add: text_field_def)+
qed (simp_all add: text_field_def)

lemma require_uuid [simp]: "n < 2 ^ 128 \<Longrightarrow> require_id C (uuid_text n) = Inr (C n)"
  by (simp add: require_id_def require_def parse_uuid_text)

lemma optional_uuid:
  assumes "\<And>x. v = Some x \<Longrightarrow> g x < 2 ^ 128" and "\<And>x. C (g x) = x"
  shows "optional_id C (or_empty (map_option (\<lambda>x. uuid_text (g x)) v)) = Inr v"
  using assms by (cases v) (simp_all add: optional_id_def parse_uuid_text)

section \<open>Jobs\<close>

record job_hash =
  h_id :: string
  h_run_id :: string
  h_project_id :: string
  h_type :: string
  h_role :: string
  h_candidate_id :: string
  h_priority :: string
  h_status :: string
  h_attempt :: int
  h_max_attempts :: int
  h_payload :: "json_object option"
  h_requirements :: "json_object option"
  h_idempotency_key :: string
  h_created_at :: "moment option"
  h_started_at :: "moment option"
  h_completed_at :: "moment option"
  h_result :: "json_object option"
  h_failure_kind :: string
  h_failure_reason :: string
  h_assigned_worker_id :: string
  h_lease_token :: string
  h_lease_holder :: string
  h_lease_acquired_at :: "moment option"
  h_lease_expires_at :: "moment option"
  h_score :: int
  h_acked :: string

definition requirements_to_json :: "job_requirements \<Rightarrow> json_object" where
  "requirements_to_json q =
     dumped [(''role'', JStr (agent_role_value (req_role q))), (''model_id'', opt_json JStr (req_model_id q)),
       (''estimated_prompt_tokens'', JInt (estimated_prompt_tokens q)), (''requires_tools'', JBool (requires_tools q)),
       (''requires_json_schema'', JBool (requires_json_schema q))]"

definition requirements_from_json :: "json_object \<Rightarrow> error + job_requirements" where
  "requirements_from_json raw =
     bind_sum (bind_sum (bind_sum (get_req raw ''role'') as_str) (enum_of agent_roles agent_role_value)) (\<lambda>role.
     bind_sum (as_opt as_str (get_or raw ''model_id'' JNull)) (\<lambda>mid.
     bind_sum (as_int (get_or raw ''estimated_prompt_tokens'' (JInt 0))) (\<lambda>n.
     bind_sum (as_bool (get_or raw ''requires_tools'' (JBool False))) (\<lambda>t.
     bind_sum (as_bool (get_or raw ''requires_json_schema'' (JBool True))) (\<lambda>s.
     mk_job_requirements \<lparr>req_role = role, req_model_id = mid, estimated_prompt_tokens = n,
       requires_tools = t, requires_json_schema = s\<rparr>)))))"

definition job_to_mapping :: "job \<Rightarrow> job_hash" where
  "job_to_mapping j =
     \<lparr>h_id = uuid_text (job_uuid (j_id j)), h_run_id = uuid_text (run_uuid (j_run_id j)),
      h_project_id = uuid_text (project_uuid (j_project_id j)), h_type = job_type_value (j_type j),
      h_role = or_empty (map_option agent_role_value (j_role j)),
      h_candidate_id = or_empty (map_option (\<lambda>c. uuid_text (candidate_uuid c)) (j_candidate_id j)),
      h_priority = priority_value (j_priority j), h_status = job_status_value (j_status j),
      h_attempt = j_attempt j, h_max_attempts = j_max_attempts j, h_payload = Some (dumped (j_payload j)),
      h_requirements = map_option requirements_to_json (j_requirements j),
      h_idempotency_key = or_empty (map_option key_text (j_idempotency_key j)),
      h_created_at = Some (j_created_at j), h_started_at = j_started_at j, h_completed_at = j_completed_at j,
      h_result = map_option dumped (j_result j),
      h_failure_kind = or_empty (map_option failure_kind_value (j_failure_kind j)),
      h_failure_reason = or_empty (j_failure_reason j),
      h_assigned_worker_id = or_empty (map_option (\<lambda>w. uuid_text (worker_uuid w)) (j_assigned_worker_id j)),
      h_lease_token = or_empty (map_option (\<lambda>l. token_value (l_token l)) (j_lease j)),
      h_lease_holder = or_empty (map_option (\<lambda>l. uuid_text (worker_uuid (l_holder l))) (j_lease j)),
      h_lease_acquired_at = map_option l_acquired_at (j_lease j),
      h_lease_expires_at = map_option l_expires_at (j_lease j),
      h_score = queue_score (j_priority j) (j_created_at j), h_acked = []\<rparr>"

definition lease_from_mapping :: "job_hash \<Rightarrow> error + lease option" where
  "lease_from_mapping h =
     (case (text_field (h_lease_token h), text_field (h_lease_holder h), h_lease_acquired_at h, h_lease_expires_at h) of
        (Some token, Some holder, Some acquired, Some expires) \<Rightarrow>
          bind_sum (require_id JobId (h_id h)) (\<lambda>i.
          bind_sum (map_sum id WorkerId (parse_uuid holder)) (\<lambda>w.
          bind_sum (mk_lease_token token) (\<lambda>t.
          map_sum id Some (mk_lease i w t acquired expires))))
      | _ \<Rightarrow> Inr None)"

definition job_from_mapping :: "job_hash \<Rightarrow> error + job" where
  "job_from_mapping h =
     (case h_created_at h of
        None \<Rightarrow> Inl (ValueError ''malformed redis record: missing field created_at'')
      | Some created \<Rightarrow>
          bind_sum (require_id JobId (h_id h)) (\<lambda>i.
          bind_sum (require_id RunId (h_run_id h)) (\<lambda>r.
          bind_sum (require_id ProjectId (h_project_id h)) (\<lambda>p.
          bind_sum (bind_sum (require (h_type h)) (enum_of all_job_types job_type_value)) (\<lambda>ty.
          bind_sum (opt_sum (enum_of agent_roles agent_role_value) (text_field (h_role h))) (\<lambda>role.
          bind_sum (optional_id CandidateId (h_candidate_id h)) (\<lambda>cand.
          bind_sum (bind_sum (require (h_priority h)) (enum_of priorities priority_value)) (\<lambda>prio.
          bind_sum (bind_sum (require (h_status h)) (enum_of job_statuses job_status_value)) (\<lambda>status.
          bind_sum (case h_requirements h of
                      None \<Rightarrow> Inr None
                    | Some raw \<Rightarrow> if raw = [] then Inr None else map_sum id Some (requirements_from_json raw)) (\<lambda>reqs.
          bind_sum (load_key (text_field (h_idempotency_key h))) (\<lambda>key.
          bind_sum (lease_from_mapping h) (\<lambda>lease.
          bind_sum (optional_id WorkerId (h_assigned_worker_id h)) (\<lambda>assigned.
          bind_sum (opt_sum (enum_of failure_kinds failure_kind_value) (text_field (h_failure_kind h))) (\<lambda>kind.
          mk_job \<lparr>j_id = i, j_run_id = r, j_project_id = p, j_type = ty, j_role = role, j_candidate_id = cand,
            j_priority = prio, j_status = status, j_attempt = h_attempt h, j_max_attempts = h_max_attempts h,
            j_payload = or_else (h_payload h) [], j_requirements = reqs, j_idempotency_key = key, j_lease = lease,
            j_assigned_worker_id = assigned, j_created_at = created, j_started_at = h_started_at h,
            j_completed_at = h_completed_at h, j_result = h_result h, j_failure_kind = kind,
            j_failure_reason = text_field (h_failure_reason h), j_events = []\<rparr>))))))))))))))"

text \<open>What reading back can change: the event buffer and the order of the keys of the two documents.\<close>

definition redis_row :: "job \<Rightarrow> job" where
  "redis_row j = j\<lparr>j_events := [], j_payload := dumped (j_payload j), j_result := map_option dumped (j_result j)\<rparr>"

text \<open>
  A job as the constructors of its parts make it, with identifiers of 128 bits. An empty failure reason is
  the one value Redis cannot tell from none.
\<close>

definition redis_storable :: "job \<Rightarrow> bool" where
  "redis_storable j \<longleftrightarrow>
     job_uuid (j_id j) < 2 ^ 128 \<and> run_uuid (j_run_id j) < 2 ^ 128 \<and> project_uuid (j_project_id j) < 2 ^ 128
   \<and> (\<forall>c. j_candidate_id j = Some c \<longrightarrow> candidate_uuid c < 2 ^ 128)
   \<and> (\<forall>w. j_assigned_worker_id j = Some w \<longrightarrow> worker_uuid w < 2 ^ 128)
   \<and> (\<forall>l. j_lease j = Some l \<longrightarrow> worker_uuid (l_holder l) < 2 ^ 128 \<and> token_value (l_token l) \<noteq> []
        \<and> l_job_id l = j_id j \<and> l_acquired_at l < l_expires_at l)
   \<and> (\<forall>k. j_idempotency_key j = Some k \<longrightarrow> wf_key k)
   \<and> (\<forall>q. j_requirements j = Some q \<longrightarrow> wf_requirements q)
   \<and> (requires_inference (j_type j) \<longrightarrow> j_role j \<noteq> None) \<and> 1 \<le> j_max_attempts j
   \<and> j_failure_reason j \<noteq> Some []"

lemma sort_keys_opt_json [simp]:
  "sort_keys (opt_json JStr v) = opt_json JStr v" "sort_keys (opt_json JFloat x) = opt_json JFloat x"
  by (cases v; simp) (cases x; simp)

lemma requirements_roundtrip: "wf_requirements q \<Longrightarrow> requirements_from_json (requirements_to_json q) = Inr q"
  by (cases q) (simp add: requirements_from_json_def requirements_to_json_def get_req_def get_or_def wf_requirements_def)

lemma enum_texts [simp]:
  "bind_sum (require (job_type_value a)) f = f (job_type_value a)"
  "bind_sum (require (priority_value b)) g = g (priority_value b)"
  "bind_sum (require (job_status_value c)) h = h (job_status_value c)"
  "bind_sum (require (worker_status_value d)) k = k (worker_status_value d)"
proof -
  have "job_type_value a \<noteq> []" "priority_value b \<noteq> []" "job_status_value c \<noteq> []" "worker_status_value d \<noteq> []"
    by (cases a; cases b; cases c; cases d; simp)+
  then show "bind_sum (require (job_type_value a)) f = f (job_type_value a)"
    "bind_sum (require (priority_value b)) g = g (priority_value b)"
    "bind_sum (require (job_status_value c)) h = h (job_status_value c)"
    "bind_sum (require (worker_status_value d)) k = k (worker_status_value d)"
    by (simp_all add: require_def)
qed

lemma lease_mapping_roundtrip:
  assumes "redis_storable j"
  shows "lease_from_mapping ((job_to_mapping j)\<lparr>h_acked := a\<rparr>) = Inr (j_lease j)"
proof (cases "j_lease j")
  case None
  then show ?thesis by (simp add: lease_from_mapping_def job_to_mapping_def)
next
  case (Some l)
  then have "worker_uuid (l_holder l) < 2 ^ 128" "token_value (l_token l) \<noteq> []" "l_job_id l = j_id j"
    "l_acquired_at l < l_expires_at l" "job_uuid (j_id j) < 2 ^ 128"
    using assms by (simp_all add: redis_storable_def)
  with Some show ?thesis
    by (cases l) (simp add: lease_from_mapping_def job_to_mapping_def text_field_def parse_uuid_text mk_lease_token_def
        mk_lease_def)
qed

lemma job_mapping_roundtrip:
  assumes "redis_storable j"
  shows "job_from_mapping ((job_to_mapping j)\<lparr>h_acked := a\<rparr>) = Inr (redis_row j)"
proof -
  note st = assms [unfolded redis_storable_def]
  have "load_key (text_field (or_empty (map_option key_text (j_idempotency_key j)))) = Inr (j_idempotency_key j)"
    using st load_key_text [of "j_idempotency_key j"]
    by (cases "j_idempotency_key j") (simp_all add: text_field_def load_key_def nonempty_def split: if_splits)
  moreover have "(case map_option requirements_to_json (j_requirements j) of None \<Rightarrow> Inr None
      | Some raw \<Rightarrow> if raw = [] then Inr None else map_sum id Some (requirements_from_json raw)) = Inr (j_requirements j)"
    using st by (cases "j_requirements j") (simp_all add: requirements_roundtrip, simp add: requirements_to_json_def)
  moreover have "text_field (or_empty (j_failure_reason j)) = j_failure_reason j"
    using st by (cases "j_failure_reason j") (simp_all add: text_field_def)
  moreover have "optional_id CandidateId (h_candidate_id (job_to_mapping j)) = Inr (j_candidate_id j)"
    "optional_id WorkerId (h_assigned_worker_id (job_to_mapping j)) = Inr (j_assigned_worker_id j)"
    using st by (auto simp: job_to_mapping_def intro!: optional_uuid)
  ultimately show ?thesis
    using st lease_mapping_roundtrip [OF assms, of a]
    by (cases j) (simp add: job_from_mapping_def job_to_mapping_def redis_row_def mk_job_def)
qed

section \<open>Workers\<close>

record worker_hash =
  wh_id :: string
  wh_endpoint :: string
  wh_status :: string
  wh_registered_at :: "moment option"
  wh_last_heartbeat_at :: "moment option"
  wh_active_jobs :: int
  wh_queued_jobs :: int
  wh_capabilities :: "json_object option"
  wh_metadata :: "json_object option"

definition capabilities_to_json :: "worker_capabilities \<Rightarrow> json_object" where
  "capabilities_to_json c =
     dumped [(''model_id'', JStr (model_id c)), (''context_length'', JInt (context_length c)),
       (''max_concurrency'', JInt (max_concurrency c)),
       (''supported_roles'', str_list (map agent_role_value (sorted_roles (supported_roles c)))),
       (''supports_tools'', JBool (supports_tools c)), (''supports_json_schema'', JBool (supports_json_schema c)),
       (''gpu'', JObj [(''gpu_type'', opt_json JStr (gpu_type (gpu c))), (''gpu_count'', JInt (gpu_count (gpu c))),
          (''memory_gb'', opt_json JFloat (memory_gb (gpu c))),
          (''tensor_parallel_size'', JInt (tensor_parallel_size (gpu c)))]),
       (''metadata'', JObj (caps_metadata c))]"

definition capabilities_from_json :: "json_object \<Rightarrow> error + worker_capabilities" where
  "capabilities_from_json raw =
     bind_sum (get_obj raw ''gpu'') (\<lambda>g.
     bind_sum (bind_sum (get_req raw ''model_id'') as_str) (\<lambda>mid.
     bind_sum (bind_sum (get_req raw ''context_length'') as_int) (\<lambda>ctx.
     bind_sum (bind_sum (get_req raw ''max_concurrency'') as_int) (\<lambda>conc.
     bind_sum (bind_sum (bind_sum (get_req raw ''supported_roles'') as_strs) (traverse (enum_of agent_roles agent_role_value))) (\<lambda>roles.
     bind_sum (load_gpu g) (\<lambda>spec.
     bind_sum (as_bool (get_or raw ''supports_tools'' (JBool True))) (\<lambda>tools.
     bind_sum (as_bool (get_or raw ''supports_json_schema'' (JBool True))) (\<lambda>schema.
     bind_sum (get_obj raw ''metadata'') (\<lambda>meta.
     mk_worker_capabilities \<lparr>model_id = mid, context_length = ctx, max_concurrency = conc, supported_roles = roles,
       gpu = spec, supports_tools = tools, supports_json_schema = schema, caps_metadata = meta\<rparr>)))))))))"

definition worker_to_mapping :: "worker \<Rightarrow> worker_hash" where
  "worker_to_mapping w =
     \<lparr>wh_id = uuid_text (worker_uuid (w_id w)), wh_endpoint = endpoint_url (w_endpoint w),
      wh_status = worker_status_value (w_status w), wh_registered_at = Some (w_registered_at w),
      wh_last_heartbeat_at = Some (w_last_heartbeat_at w), wh_active_jobs = active_jobs (w_load w),
      wh_queued_jobs = queued_jobs (w_load w), wh_capabilities = Some (capabilities_to_json (w_capabilities w)),
      wh_metadata = Some (dumped (w_metadata w))\<rparr>"

definition worker_from_mapping :: "worker_hash \<Rightarrow> error + worker" where
  "worker_from_mapping h =
     (case wh_capabilities h of
        None \<Rightarrow> Inl (ValueError ''malformed redis record: missing worker capabilities'')
      | Some raw \<Rightarrow>
          (case wh_registered_at h of
             None \<Rightarrow> Inl (ValueError ''malformed redis record: missing field registered_at'')
           | Some registered \<Rightarrow>
               bind_sum (require_id WorkerId (wh_id h)) (\<lambda>i.
               bind_sum (bind_sum (require (wh_endpoint h)) mk_worker_endpoint) (\<lambda>ep.
               bind_sum (capabilities_from_json raw) (\<lambda>caps.
               bind_sum (bind_sum (require (wh_status h)) (enum_of worker_statuses worker_status_value)) (\<lambda>status.
               bind_sum (mk_worker_load (wh_active_jobs h) (wh_queued_jobs h)) (\<lambda>load.
               Inr \<lparr>w_id = i, w_endpoint = ep, w_capabilities = caps, w_registered_at = registered, w_status = status,
                 w_load = load, w_last_heartbeat_at = or_else (wh_last_heartbeat_at h) registered,
                 w_metadata = or_else (wh_metadata h) [], w_events = []\<rparr>)))))))"

definition redis_worker_row :: "worker \<Rightarrow> worker" where
  "redis_worker_row w =
     w\<lparr>w_events := [], w_metadata := dumped (w_metadata w),
       w_capabilities := (w_capabilities w)\<lparr>supported_roles := sorted_roles (supported_roles (w_capabilities w)),
         caps_metadata := dumped (caps_metadata (w_capabilities w))\<rparr>\<rparr>"

definition redis_storable_worker :: "worker \<Rightarrow> bool" where
  "redis_storable_worker w \<longleftrightarrow> wf_worker w \<and> wf_endpoint (w_endpoint w) \<and> wf_gpu (gpu (w_capabilities w))
     \<and> worker_uuid (w_id w) < 2 ^ 128"

lemma load_gpu_sorted:
  assumes "wf_gpu g"
  shows "load_gpu (py_sorted fst [(''gpu_type'', opt_json JStr (gpu_type g)), (''gpu_count'', JInt (gpu_count g)),
      (''memory_gb'', opt_json JFloat (memory_gb g)), (''tensor_parallel_size'', JInt (tensor_parallel_size g))]) = Inr g"
  using assms by (cases g) (simp add: load_gpu_def get_or_def wf_gpu_def del: sort_key_simps)

lemma sort_keys_str_list [simp]: "map (sort_keys \<circ> (JStr \<circ> f)) xs = map (JStr \<circ> f) xs"
  by simp

lemma capabilities_roundtrip:
  assumes "wf_capabilities c" and "wf_gpu (gpu c)"
  shows "capabilities_from_json (capabilities_to_json c) =
    Inr (c\<lparr>supported_roles := sorted_roles (supported_roles c), caps_metadata := dumped (caps_metadata c)\<rparr>)"
proof -
  have "dumped d = py_sorted fst (map (\<lambda>(k, v). (k, sort_keys v)) d)" for d by (simp add: dumped_def)
  moreover have "get_obj (capabilities_to_json c) ''gpu'' = Inr (py_sorted fst
      [(''gpu_type'', opt_json JStr (gpu_type (gpu c))), (''gpu_count'', JInt (gpu_count (gpu c))),
      (''memory_gb'', opt_json JFloat (memory_gb (gpu c))), (''tensor_parallel_size'', JInt (tensor_parallel_size (gpu c)))])"
    "get_obj (capabilities_to_json c) ''metadata'' = Inr (dumped (caps_metadata c))"
    by (simp_all add: get_obj_def get_or_def capabilities_to_json_def Let_def dumped_def [symmetric] del: sort_key_simps)
  ultimately show ?thesis
    using assms load_gpu_sorted [OF assms(2)]
    by (cases c) (simp add: capabilities_from_json_def capabilities_to_json_def get_or_def get_req_def traverse_map
        traverse_Inr mk_worker_capabilities_Inr_iff wf_capabilities_def sorted_roles_ne del: sort_key_simps)
qed

lemma worker_mapping_roundtrip:
  assumes "redis_storable_worker w"
  shows "worker_from_mapping (worker_to_mapping w) = Inr (redis_worker_row w)"
proof -
  have "capabilities_from_json (capabilities_to_json (w_capabilities w)) =
      Inr ((w_capabilities w)\<lparr>supported_roles := sorted_roles (supported_roles (w_capabilities w)),
        caps_metadata := dumped (caps_metadata (w_capabilities w))\<rparr>)"
    using assms by (simp add: capabilities_roundtrip redis_storable_worker_def wf_worker_def)
  moreover have "mk_worker_load (active_jobs (w_load w)) (queued_jobs (w_load w)) = Inr (w_load w)"
    using assms by (cases "w_load w") (simp add: mk_worker_load_def wf_worker_def wf_load_def redis_storable_worker_def)
  moreover have "bind_sum (require (endpoint_url (w_endpoint w))) mk_worker_endpoint = Inr (w_endpoint w)"
    using assms by (auto simp: redis_storable_worker_def wf_endpoint_def require_def mk_worker_endpoint_def starts_with_def)
  ultimately show ?thesis
    using assms by (cases w) (simp add: worker_from_mapping_def worker_to_mapping_def redis_storable_worker_def redis_worker_row_def)
qed

section \<open>Events\<close>

text \<open>
  An entry of a stream: the wire name, the instant and the document of the body. \<open>_body_types\<close> is the table of the
  declared fields; a reader takes the fields it knows and ignores the others, so that it can follow a stream that
  a newer deployment writes.
\<close>

record stream_entry =
  en_name :: string
  en_occurred_at :: moment
  en_payload :: json_object

definition encode_event :: "event \<Rightarrow> stream_entry" where
  "encode_event e = \<lparr>en_name = event_name e, en_occurred_at = occurred_at e, en_payload = dumped (payload e)\<rparr>"

definition body_types :: "(string, string list) dict" where
  "body_types =
     [(''run.created'', [''run_id'', ''project_id'', ''objective'', ''candidate_count'']),
      (''run.state_changed'', [''run_id'', ''previous'', ''current'', ''reason'']),
      (''run.plan_requested'', [''run_id'', ''revision'']),
      (''run.plan_completed'', [''run_id'', ''plan_id'', ''revision'', ''task_count'']),
      (''candidate.started'', [''run_id'', ''candidate_id'', ''index'', ''job_id'']),
      (''candidate.completed'', [''run_id'', ''candidate_id'', ''status'', ''changed_files'']),
      (''candidate.validation_started'', [''run_id'', ''candidate_id'']),
      (''candidate.validation_completed'', [''run_id'', ''candidate_id'', ''viable'', ''summary'']),
      (''review.requested'', [''run_id'', ''candidate_id'', ''iteration'']),
      (''review.completed'', [''run_id'', ''candidate_id'', ''verdict'', ''finding_count'']),
      (''run.repair_requested'', [''run_id'', ''candidate_id'', ''iteration'', ''reason'']),
      (''candidate.selected'', [''run_id'', ''candidate_id'', ''rationale'']),
      (''run.completed'', [''run_id'', ''candidate_id'']),
      (''run.failed'', [''run_id'', ''failure_kind'', ''reason'']),
      (''run.cancelled'', [''run_id'', ''reason'']),
      (''job.enqueued'', [''job_id'', ''run_id'', ''job_type'', ''attempt'']),
      (''job.leased'', [''job_id'', ''run_id'', ''worker_id'', ''attempt'']),
      (''job.completed'', [''job_id'', ''run_id'', ''job_type'', ''duration_ms'']),
      (''job.failed'', [''job_id'', ''run_id'', ''failure_kind'', ''reason'', ''attempt'', ''retryable'']),
      (''job.lease_expired'', [''job_id'', ''run_id'', ''holder'']),
      (''job.requeued'', [''job_id'', ''run_id'', ''attempt'', ''reason'']),
      (''worker.registered'', [''worker_id'', ''model_id'', ''endpoint'', ''max_concurrency'']),
      (''worker.heartbeat'', [''worker_id'', ''status'', ''active_jobs'']),
      (''worker.status_changed'', [''worker_id'', ''previous'', ''current'']),
      (''worker.draining'', [''worker_id'', ''active_jobs'']),
      (''worker.unavailable'', [''worker_id'', ''reason'']),
      (''worker.deregistered'', [''worker_id'', ''graceful''])]"

definition known_fields :: "string list \<Rightarrow> json_object \<Rightarrow> json_object" where
  "known_fields known body = concat (map (\<lambda>f. case dict_get body f of None \<Rightarrow> [] | Some v \<Rightarrow> [(f, v)]) known)"

definition decode_event :: "stream_entry \<Rightarrow> error + event option" where
  "decode_event en =
     (case (dict_get EVENT_TYPES (en_name en), dict_get body_types (en_name en)) of
        (Some load, Some known) \<Rightarrow> map_sum id Some (load (en_occurred_at en) (known_fields known (en_payload en)))
      | _ \<Rightarrow> Inr None)"

lemma known_fields_same:
  assumes "dict_wf d" and "\<And>k. k \<in> fst ` set d \<Longrightarrow> dict_get b k = dict_get d k"
  shows "known_fields (dict_keys d) b = d"
  using assms
proof (induction d)
  case (Cons p d)
  obtain k v where p: "p = (k, v)" by (cases p)
  have "k' \<noteq> k" if "k' \<in> fst ` set d" for k' using that Cons.prems(1) p by auto
  then have "dict_get b k' = dict_get d k'" if "k' \<in> fst ` set d" for k'
    using that Cons.prems(2) [of k'] p by simp
  then have "known_fields (dict_keys d) b = d" using Cons.prems(1) by (intro Cons.IH) auto
  moreover have "dict_get b k = Some v" using Cons.prems(2) [of k] p by simp
  ultimately show ?case by (simp add: p known_fields_def)
qed (simp add: known_fields_def)

lemma payload_fields: "dict_get body_types (event_name e) = Some (dict_keys (payload e))"
  by (cases e) (simp_all add: body_types_def event_name_def)

lemma payload_dict: "dict_wf (payload e)"
  by (cases e) simp_all

lemma payload_flat: "(k, v) \<in> set (payload e) \<Longrightarrow> sort_keys v = v"
proof -
  have [simp]: "sort_keys (opt_json (\<lambda>n. JStr (uuid_text n)) x) = opt_json (\<lambda>n. JStr (uuid_text n)) x" for x
    by (cases x) simp_all
  show "(k, v) \<in> set (payload e) \<Longrightarrow> sort_keys v = v" by (cases e) auto
qed

lemma dict_get_dumped_payload [simp]: "dict_get (dumped (payload e)) k = dict_get (payload e) k"
proof (cases "dict_get (payload e) k")
  case (Some v)
  from payload_flat [OF map_of_SomeD [OF this]] have "sort_keys v = v" .
  with Some show ?thesis by (simp only: dict_get_dumped [OF payload_dict] option.map)
qed (simp only: dict_get_dumped [OF payload_dict] option.map)

lemma decode_later_entry:
  assumes "\<forall>u \<in> set (event_uuids e). u < 2 ^ 128"
    and "\<And>k. k \<in> fst ` set (payload e) \<Longrightarrow> dict_get b k = dict_get (payload e) k"
  shows "decode_event \<lparr>en_name = event_name e, en_occurred_at = occurred_at e, en_payload = b\<rparr> = Inr (Some e)"
proof -
  have "known_fields (dict_keys (payload e)) b = payload e"
    by (rule known_fields_same [OF payload_dict assms(2)])
  moreover have "load_event (event_name e) (payload e) (occurred_at e) = Inr e" by (rule load_payload [OF assms(1)])
  ultimately show ?thesis
    by (simp add: decode_event_def payload_fields load_event_def split: option.splits)
qed

lemma decode_encode: "\<forall>u \<in> set (event_uuids e). u < 2 ^ 128 \<Longrightarrow> decode_event (encode_event e) = Inr (Some e)"
  unfolding encode_event_def by (rule decode_later_entry) simp_all

text \<open>
  What Redis gives back. A job that the constructors of its parts accept is read from its hash as it was
  written, whether or not the acknowledgement mark is set, up to the event buffer and the order of the keys of its two
  documents; so is a worker; and an event is decoded from its stream entry as the same event, also when a newer
  publisher added fields this reader does not know, while an entry of an unknown name is dropped.
\<close>

theorem redis_records_round_trip:
  assumes "redis_storable j" and "redis_storable_worker w" and "\<forall>u \<in> set (event_uuids e). u < 2 ^ 128"
    and "\<forall>k \<in> fst ` set (payload e). dict_get newer k = dict_get (payload e) k"
  shows "job_from_mapping (job_to_mapping j) = Inr (redis_row j)
    \<and> job_from_mapping ((job_to_mapping j)\<lparr>h_acked := ''1''\<rparr>) = Inr (redis_row j)
    \<and> worker_from_mapping (worker_to_mapping w) = Inr (redis_worker_row w)
    \<and> decode_event (encode_event e) = Inr (Some e)
    \<and> decode_event ((encode_event e)\<lparr>en_payload := newer\<rparr>) = Inr (Some e)
    \<and> (\<forall>en. en_name en \<notin> fst ` set EVENT_TYPES \<longrightarrow> decode_event en = Inr None)"
proof -
  have "(job_to_mapping j)\<lparr>h_acked := []\<rparr> = job_to_mapping j" by (simp add: job_to_mapping_def)
  then have "job_from_mapping (job_to_mapping j) = Inr (redis_row j)"
    using job_mapping_roundtrip [OF assms(1), of "[]"] by simp
  moreover have "decode_event ((encode_event e)\<lparr>en_payload := newer\<rparr>) = Inr (Some e)"
    using decode_later_entry [OF assms(3), of newer] assms(4) by (simp add: encode_event_def)
  moreover have "decode_event en = Inr None" if "en_name en \<notin> fst ` set EVENT_TYPES" for en
    using that by (simp add: decode_event_def map_of_eq_None_iff [symmetric])
  ultimately show ?thesis
    using job_mapping_roundtrip [OF assms(1)] worker_mapping_roundtrip [OF assms(2)] decode_encode [OF assms(3)] by blast
qed

theorem redis_records_round_trip_witness:
  "job_from_mapping (job_to_mapping demo_leased_job) = Inr (redis_row demo_leased_job)
   \<and> worker_from_mapping (worker_to_mapping demo_worker) = Inr (redis_worker_row demo_worker)
   \<and> decode_event ((encode_event (RunCompleted 5 (RunId 7) None))\<lparr>en_payload :=
        [(''added'', JInt 1), (''candidate_id'', JNull), (''run_id'', id_json 7)]\<rparr>) = Inr (Some (RunCompleted 5 (RunId 7) None))"
proof -
  have "redis_storable demo_leased_job"
    by (simp add: redis_storable_def job_enqueue_def job_lease_to_def lease_granted_def mk_lease_def job_record_def)
  moreover have "redis_storable_worker demo_worker"
    using worker_reachable_wf [OF demo_worker_reachable]
    by (simp add: redis_storable_worker_def wf_endpoint_def mk_worker_endpoint_def starts_with_def wf_gpu_def mk_gpu_spec_def
        worker_register_def)
  ultimately show ?thesis
    using redis_records_round_trip [of demo_leased_job demo_worker "RunCompleted 5 (RunId 7) None"
        "[(''added'', JInt 1), (''candidate_id'', JNull), (''run_id'', id_json 7)]"] by simp
qed

end
