(* ===== verification/Redis_Queue.thy ===== *)
theory Redis_Queue
  imports Queue_Contract Redis_Codec
begin

text \<open>
  The Redis job queue (\<open>RedisJobQueue\<close> in \<open>src/src/infrastructure/queue/redis_job_queue.py\<close>) with the Lua scripts that
  do its work (\<open>src/src/infrastructure/redis/scripts.py\<close>). Redis runs a script to completion, so each operation is one
  function on the keyspace. The keys are those of \<open>Keyspace\<close> without their common prefix: job hashes by
  identifier, ready sets by job type, one lease set, one index per run. Sorted sets order equal scores by member
  text. Scores are whole milliseconds, exact as doubles below \<open>2^53\<close>. \<open>SMEMBERS\<close> lists a set in no particular order;
  here it is the order of insertion, and nothing proved depends on it.
\<close>

section \<open>Keyspace\<close>

record redisq =
  rq_jobs :: "(string, job_hash) dict"
  rq_ttl :: "string \<Rightarrow> int option"
  rq_ready :: "string \<Rightarrow> (string, int) dict"
  rq_leases :: "(string, int) dict"
  rq_runs :: "string \<Rightarrow> string list"

definition redisq_empty :: redisq where
  "redisq_empty = \<lparr>rq_jobs = [], rq_ttl = (\<lambda>_. None), rq_ready = (\<lambda>_. []), rq_leases = [], rq_runs = (\<lambda>_. [])\<rparr>"

abbreviation id_text :: "job_id \<Rightarrow> string" where
  "id_text i \<equiv> uuid_text (job_uuid i)"

definition epoch_ms :: "moment \<Rightarrow> int" where
  "epoch_ms m = whole_ms m"

definition hset :: "string \<Rightarrow> job_hash \<Rightarrow> redisq \<Rightarrow> redisq" where
  "hset k h q = q\<lparr>rq_jobs := dict_set k h (rq_jobs q)\<rparr>"

definition pexpire :: "string \<Rightarrow> int \<Rightarrow> redisq \<Rightarrow> redisq" where
  "pexpire k ttl q = q\<lparr>rq_ttl := (rq_ttl q)(k := Some ttl)\<rparr>"

definition zadd_ready :: "string \<Rightarrow> string \<Rightarrow> int \<Rightarrow> redisq \<Rightarrow> redisq" where
  "zadd_ready t k s q = q\<lparr>rq_ready := (rq_ready q)(t := dict_set k s (rq_ready q t))\<rparr>"

definition zrem_ready :: "string \<Rightarrow> string \<Rightarrow> redisq \<Rightarrow> redisq" where
  "zrem_ready t k q = q\<lparr>rq_ready := (rq_ready q)(t := dict_pop k (rq_ready q t))\<rparr>"

definition zadd_lease :: "string \<Rightarrow> int \<Rightarrow> redisq \<Rightarrow> redisq" where
  "zadd_lease k s q = q\<lparr>rq_leases := dict_set k s (rq_leases q)\<rparr>"

definition zrem_lease :: "string \<Rightarrow> redisq \<Rightarrow> redisq" where
  "zrem_lease k q = q\<lparr>rq_leases := dict_pop k (rq_leases q)\<rparr>"

definition sadd_run :: "string \<Rightarrow> string \<Rightarrow> redisq \<Rightarrow> redisq" where
  "sadd_run r k q = q\<lparr>rq_runs := (rq_runs q)(r := List.insert k (rq_runs q r))\<rparr>"

definition srem_run :: "string \<Rightarrow> string \<Rightarrow> redisq \<Rightarrow> redisq" where
  "srem_run r k q = q\<lparr>rq_runs := (rq_runs q)(r := removeAll k (rq_runs q r))\<rparr>"

text \<open>Time passing on the server: the hashes whose time to live runs out disappear.\<close>

definition ttl_over :: "redisq \<Rightarrow> int \<Rightarrow> string \<Rightarrow> bool" where
  "ttl_over q ms k \<longleftrightarrow> (case rq_ttl q k of None \<Rightarrow> False | Some ttl \<Rightarrow> ttl \<le> ms)"

definition redis_elapse :: "redisq \<Rightarrow> int \<Rightarrow> redisq" where
  "redis_elapse q ms =
     q\<lparr>rq_jobs := filter (\<lambda>(k, h). \<not> ttl_over q ms k) (rq_jobs q),
       rq_ttl := (\<lambda>k. if ttl_over q ms k then None else map_option (\<lambda>ttl. ttl - ms) (rq_ttl q k))\<rparr>"

lemma redis_elapse_jobs: "dict_get (rq_jobs (redis_elapse q ms)) k = (if ttl_over q ms k then None else dict_get (rq_jobs q) k)"
proof -
  have "dict_get (filter (\<lambda>(k, h). \<not> P k) d) k = (if P k then None else dict_get d k)" for d :: "(string, job_hash) dict" and P k
    by (induction d) auto
  then show ?thesis by (simp add: redis_elapse_def)
qed

section \<open>Scripts and their callers\<close>

definition CLEAR_LEASE :: "job_hash \<Rightarrow> job_hash" where
  "CLEAR_LEASE h = h\<lparr>h_assigned_worker_id := [], h_lease_token := [], h_lease_holder := [],
     h_lease_acquired_at := None, h_lease_expires_at := None\<rparr>"

text \<open>\<open>HSET\<close> keeps the time to live of the key it writes.\<close>

definition redis_enqueue :: "redisq \<Rightarrow> job \<Rightarrow> redisq" where
  "redis_enqueue q j =
     (let k = id_text (j_id j); h = (job_to_mapping j)\<lparr>h_status := ''QUEUED''\<rparr> in
      if (case dict_get (rq_jobs q) k of
            None \<Rightarrow> False
          | Some old \<Rightarrow> h_status old = ''LEASED'' \<or> h_status old = ''RUNNING'' \<or> h_acked old = ''1'')
      then q
      else sadd_run (h_run_id h) k
             (zadd_ready (job_type_value (j_type j)) k (queue_score (j_priority j) (j_created_at j)) (hset k h q)))"

definition zset_first :: "(string, int) dict \<Rightarrow> (string \<times> int) option" where
  "zset_first z = (case py_sorted (\<lambda>(m, s). (s, m)) z of [] \<Rightarrow> None | e # _ \<Rightarrow> Some e)"

text \<open>The head of each requested ready set; a later one wins only with a strictly lower score.\<close>

fun claim_best :: "redisq \<Rightarrow> string list \<Rightarrow> (int \<times> string \<times> string) option \<Rightarrow> (int \<times> string \<times> string) option" where
  "claim_best q [] best = best"
| "claim_best q (t # ts) best =
     (case zset_first (rq_ready q t) of
        None \<Rightarrow> claim_best q ts best
      | Some (m, s) \<Rightarrow>
          (case best of
             None \<Rightarrow> claim_best q ts (Some (s, m, t))
           | Some (b, _) \<Rightarrow> if s < b then claim_best q ts (Some (s, m, t)) else claim_best q ts best))"

definition claimed_hash :: "job_hash \<Rightarrow> worker_id \<Rightarrow> moment \<Rightarrow> moment \<Rightarrow> lease_token \<Rightarrow> job_hash" where
  "claimed_hash h consumer now expires tok =
     h\<lparr>h_status := ''LEASED'', h_attempt := h_attempt h + 1, h_assigned_worker_id := uuid_text (worker_uuid consumer),
       h_started_at := Some (or_else (h_started_at h) now), h_lease_token := token_value tok,
       h_lease_holder := uuid_text (worker_uuid consumer), h_lease_acquired_at := Some now,
       h_lease_expires_at := Some expires\<rparr>"

fun CLAIM ::
  "nat \<Rightarrow> redisq \<Rightarrow> string list \<Rightarrow> worker_id \<Rightarrow> moment \<Rightarrow> moment \<Rightarrow> lease_token \<Rightarrow> redisq \<times> job_hash option" where
  "CLAIM 0 q wanted consumer now expires tok = (q, None)"
| "CLAIM (Suc n) q wanted consumer now expires tok =
     (case claim_best q wanted None of
        None \<Rightarrow> (q, None)
      | Some (_, k, t) \<Rightarrow>
          let q1 = zrem_ready t k q in
          (case dict_get (rq_jobs q1) k of
             Some h \<Rightarrow>
               if h_status h = ''QUEUED''
               then (zadd_lease k (epoch_ms expires) (hset k (claimed_hash h consumer now expires tok) q1), Some h)
               else CLAIM n q1 wanted consumer now expires tok
           | None \<Rightarrow> CLAIM n q1 wanted consumer now expires tok))"

definition redis_claim ::
  "redisq \<Rightarrow> worker_id \<Rightarrow> job_type list \<Rightarrow> duration \<Rightarrow> moment \<Rightarrow> lease_token
   \<Rightarrow> (redisq, (job \<times> lease) option) result" where
  "redis_claim q consumer job_types dur now tok =
     (if fromkeys job_types = [] then (q, Inr None)
      else
        (case CLAIM 64 q (map job_type_value (fromkeys job_types)) consumer now (now + dur) tok of
           (q', None) \<Rightarrow> (q', Inr None)
         | (q', Some before) \<Rightarrow>
             (case job_from_mapping before of
                Inl e \<Rightarrow> (q', Inl e)
              | Inr j \<Rightarrow>
                  (case job_lease_to j consumer now dur (Some tok) tok of
                     (_, Inl e) \<Rightarrow> (q', Inl e)
                   | (j', Inr l) \<Rightarrow> (q', Inr (Some (j', l)))))))"

definition redis_renew :: "redisq \<Rightarrow> job_id \<Rightarrow> lease_token \<Rightarrow> duration \<Rightarrow> moment \<Rightarrow> (redisq, lease) result" where
  "redis_renew q i tok dur now =
     (let k = id_text i; lost = (q, Inl (JobLeaseExpiredError i None)) in
      case dict_get (rq_jobs q) k of
        None \<Rightarrow> lost
      | Some h \<Rightarrow>
          if h_lease_token h \<noteq> token_value tok then lost
          else
            (case dict_get (rq_leases q) k of
               None \<Rightarrow> lost
             | Some expiry \<Rightarrow>
                 if expiry \<le> epoch_ms now then lost
                 else
                   (zadd_lease k (epoch_ms (now + dur)) (hset k (h\<lparr>h_lease_expires_at := Some (now + dur)\<rparr>) q),
                    bind_sum (map_sum id WorkerId (parse_uuid (h_lease_holder h))) (\<lambda>holder.
                    case h_lease_acquired_at h of
                      None \<Rightarrow> Inl (ValueError ''Invalid isoformat string'')
                    | Some acquired \<Rightarrow> mk_lease i holder tok acquired (now + dur)))))"

definition redis_acknowledge :: "int \<Rightarrow> redisq \<Rightarrow> job_id \<Rightarrow> lease_token \<Rightarrow> redisq" where
  "redis_acknowledge tombstone_ms q i tok =
     (let k = id_text i in
      case dict_get (rq_jobs q) k of
        None \<Rightarrow> q
      | Some h \<Rightarrow>
          if h_lease_token h \<noteq> token_value tok then q
          else srem_run (h_run_id h) k
                 (pexpire k tombstone_ms (hset k ((CLEAR_LEASE h)\<lparr>h_acked := ''1''\<rparr>) (zrem_lease k q))))"

definition redis_release :: "redisq \<Rightarrow> job_id \<Rightarrow> lease_token \<Rightarrow> bool \<Rightarrow> redisq" where
  "redis_release q i tok requeue =
     (let k = id_text i in
      case dict_get (rq_jobs q) k of
        None \<Rightarrow> q
      | Some h \<Rightarrow>
          if h_lease_token h \<noteq> token_value tok then q
          else if requeue
               then zadd_ready (h_type h) k (h_score h) (hset k ((CLEAR_LEASE h)\<lparr>h_status := ''QUEUED''\<rparr>) (zrem_lease k q))
               else hset k ((CLEAR_LEASE h)\<lparr>h_status := ''PENDING''\<rparr>) (zrem_lease k q))"

definition reclaim_one :: "int \<Rightarrow> moment \<Rightarrow> redisq \<Rightarrow> string \<Rightarrow> redisq \<times> bool" where
  "reclaim_one tombstone_ms now q k =
     (let q1 = zrem_lease k q in
      case dict_get (rq_jobs q1) k of
        None \<Rightarrow> (q1, False)
      | Some h \<Rightarrow>
          (if h_attempt h < h_max_attempts h
           then zadd_ready (h_type h) k (h_score h) (hset k ((CLEAR_LEASE h)\<lparr>h_status := ''QUEUED''\<rparr>) q1)
           else pexpire k tombstone_ms
                  (hset k ((CLEAR_LEASE h)\<lparr>h_status := ''DEAD'', h_failure_kind := ''INFRASTRUCTURE'',
                     h_failure_reason := ''lease expired and retry budget exhausted'', h_completed_at := Some now\<rparr>) q1),
           True))"

fun reclaim_each :: "int \<Rightarrow> moment \<Rightarrow> redisq \<Rightarrow> string list \<Rightarrow> redisq \<times> string list" where
  "reclaim_each ttl now q [] = (q, [])"
| "reclaim_each ttl now q (k # ks) =
     (let (q1, b) = reclaim_one ttl now q k; (q2, ids) = reclaim_each ttl now q1 ks
      in (q2, if b then k # ids else ids))"

definition expired_members :: "redisq \<Rightarrow> moment \<Rightarrow> nat \<Rightarrow> string list" where
  "expired_members q now limit =
     take limit (map fst (py_sorted (\<lambda>(m, s). (s, m)) (filter (\<lambda>(m, s). s \<le> epoch_ms now) (rq_leases q))))"

definition redis_reclaim_expired :: "int \<Rightarrow> redisq \<Rightarrow> moment \<Rightarrow> nat \<Rightarrow> (redisq, job_id list) result" where
  "redis_reclaim_expired ttl q now limit =
     (let (q', ids) = reclaim_each ttl now q (expired_members q now limit)
      in (q', traverse (\<lambda>k. map_sum id JobId (parse_uuid k)) ids))"

definition cancel_one :: "int \<Rightarrow> string \<Rightarrow> redisq \<Rightarrow> string \<Rightarrow> redisq \<times> bool" where
  "cancel_one tombstone_ms r q k =
     (case dict_get (rq_jobs q) k of
        None \<Rightarrow> (srem_run r k q, False)
      | Some h \<Rightarrow>
          if h_status h \<noteq> ''SUCCEEDED'' \<and> h_status h \<noteq> ''DEAD'' \<and> h_status h \<noteq> ''CANCELLED''
          then (pexpire k tombstone_ms
                  (hset k ((CLEAR_LEASE h)\<lparr>h_status := ''CANCELLED'', h_failure_kind := ''CANCELLED''\<rparr>)
                    (zrem_lease k (zrem_ready (h_type h) k q))), True)
          else (q, False))"

fun cancel_each :: "int \<Rightarrow> string \<Rightarrow> redisq \<Rightarrow> string list \<Rightarrow> redisq \<times> string list" where
  "cancel_each ttl r q [] = (q, [])"
| "cancel_each ttl r q (k # ks) =
     (let (q1, b) = cancel_one ttl r q k; (q2, ids) = cancel_each ttl r q1 ks
      in (q2, if b then k # ids else ids))"

definition redis_cancel_run_jobs :: "int \<Rightarrow> redisq \<Rightarrow> run_id \<Rightarrow> (redisq, job_id list) result" where
  "redis_cancel_run_jobs ttl q rid =
     (let r = uuid_text (run_uuid rid); (q', ids) = cancel_each ttl r q (rq_runs q r)
      in (q', traverse (\<lambda>k. map_sum id JobId (parse_uuid k)) ids))"

definition redis_depth :: "redisq \<Rightarrow> job_type option \<Rightarrow> nat" where
  "redis_depth q t =
     (case t of
        Some ty \<Rightarrow> length (rq_ready q (job_type_value ty))
      | None \<Rightarrow> sum_list (map (\<lambda>ty. length (rq_ready q (job_type_value ty))) all_job_types))"

text \<open>\<open>DEFAULT_TOMBSTONE_TTL\<close>, and the milliseconds the constructor makes of a time to live.\<close>

definition DEFAULT_TOMBSTONE_TTL :: duration where
  "DEFAULT_TOMBSTONE_TTL = seconds 3600"

definition tombstone_ms :: "duration \<Rightarrow> int" where
  "tombstone_ms ttl = max (whole_ms ttl) 1"

section \<open>Hashes as jobs\<close>

text \<open>The hash of a job with a given acknowledgement mark, and what each script makes of the job.\<close>

definition hash_of :: "job \<Rightarrow> string \<Rightarrow> job_hash" where
  "hash_of j a = (job_to_mapping j)\<lparr>h_acked := a\<rparr>"

definition canonical :: "job \<Rightarrow> bool" where
  "canonical j \<longleftrightarrow> redis_storable j \<and> redis_row j = j"

abbreviation unleased :: "job \<Rightarrow> job" where
  "unleased j \<equiv> j\<lparr>j_lease := None, j_assigned_worker_id := None\<rparr>"

definition reclaimed_job :: "job \<Rightarrow> moment \<Rightarrow> job" where
  "reclaimed_job j now =
     (if j_attempt j < j_max_attempts j then (unleased j)\<lparr>j_status := JOB_QUEUED\<rparr>
      else (unleased j)\<lparr>j_status := JOB_DEAD, j_failure_kind := Some FK_INFRASTRUCTURE,
             j_failure_reason := Some ''lease expired and retry budget exhausted'', j_completed_at := Some now\<rparr>)"

abbreviation stopped_job :: "job \<Rightarrow> job" where
  "stopped_job j \<equiv> (unleased j)\<lparr>j_status := JOB_CANCELLED, j_failure_kind := Some FK_CANCELLED\<rparr>"

lemma hash_of_simps [simp]:
  "h_acked (hash_of j a) = a" "h_status (hash_of j a) = job_status_value (j_status j)"
  "h_type (hash_of j a) = job_type_value (j_type j)" "h_score (hash_of j a) = job_score j"
  "h_run_id (hash_of j a) = uuid_text (run_uuid (j_run_id j))" "h_id (hash_of j a) = id_text (j_id j)"
  "h_attempt (hash_of j a) = j_attempt j" "h_max_attempts (hash_of j a) = j_max_attempts j"
  "h_lease_token (hash_of j a) = or_empty (map_option (\<lambda>l. token_value (l_token l)) (j_lease j))"
  "h_lease_holder (hash_of j a) = or_empty (map_option (\<lambda>l. uuid_text (worker_uuid (l_holder l))) (j_lease j))"
  "h_lease_acquired_at (hash_of j a) = map_option l_acquired_at (j_lease j)"
  "h_started_at (hash_of j a) = j_started_at j"
  by (simp_all add: hash_of_def job_to_mapping_def)

lemma hash_updates:
  "CLEAR_LEASE (hash_of j a) = hash_of (unleased j) a"
  "(hash_of j a)\<lparr>h_acked := b\<rparr> = hash_of j b"
  "(hash_of j a)\<lparr>h_status := ''QUEUED''\<rparr> = hash_of (j\<lparr>j_status := JOB_QUEUED\<rparr>) a"
  "(hash_of j a)\<lparr>h_status := ''PENDING''\<rparr> = hash_of (j\<lparr>j_status := JOB_PENDING\<rparr>) a"
  "(hash_of j a)\<lparr>h_status := ''CANCELLED'', h_failure_kind := ''CANCELLED''\<rparr> =
     hash_of (j\<lparr>j_status := JOB_CANCELLED, j_failure_kind := Some FK_CANCELLED\<rparr>) a"
  "(hash_of j a)\<lparr>h_status := ''DEAD'', h_failure_kind := ''INFRASTRUCTURE'', h_failure_reason := rs, h_completed_at := Some now\<rparr> =
     hash_of (j\<lparr>j_status := JOB_DEAD, j_failure_kind := Some FK_INFRASTRUCTURE, j_failure_reason := Some rs,
       j_completed_at := Some now\<rparr>) a"
  by (simp_all add: hash_of_def job_to_mapping_def CLEAR_LEASE_def)

lemma hash_renewed:
  "j_lease j = Some l \<Longrightarrow> (hash_of j a)\<lparr>h_lease_expires_at := Some e\<rparr> = hash_of (j\<lparr>j_lease := Some (l\<lparr>l_expires_at := e\<rparr>)\<rparr>) a"
  by (simp add: hash_of_def job_to_mapping_def)

lemma hash_claimed:
  "j_status j = JOB_QUEUED \<Longrightarrow> 0 < dur \<Longrightarrow>
   claimed_hash (hash_of j a) w now (now + dur) tok = hash_of (leased_job j w dur now tok) a"
  by (simp add: hash_of_def job_to_mapping_def claimed_hash_def leased_job_def job_lease_to_def lease_granted_def
      mk_lease_def rebuild_def Let_def job_record_def)

lemma hash_rebuild [simp]: "hash_of (rebuild j) a = hash_of j a"
  by (simp add: hash_of_def job_to_mapping_def rebuild_def)

lemma hash_row: "hash_of (redis_row j) a = hash_of j a"
  by (simp add: hash_of_def job_to_mapping_def redis_row_def option.map_comp comp_def)

lemma job_of_hash: "redis_storable j \<Longrightarrow> job_from_mapping (hash_of j a) = Inr (redis_row j)"
  unfolding hash_of_def by (rule job_mapping_roundtrip)

lemma canonical_hash [simp]: "canonical j \<Longrightarrow> job_from_mapping (hash_of j a) = Inr j"
  by (simp add: canonical_def job_of_hash)

lemma canonical_row: "redis_storable j \<Longrightarrow> canonical (redis_row j)"
  by (simp add: canonical_def redis_storable_def redis_row_def option.map_comp comp_def)

lemma canonical_rebuild: "canonical j \<Longrightarrow> rebuild j = j"
  by (cases j) (simp add: canonical_def redis_row_def rebuild_def)

lemma canonical_updates:
  "canonical j \<Longrightarrow> canonical (unleased j)" "canonical j \<Longrightarrow> canonical (j\<lparr>j_status := s\<rparr>)"
  "canonical j \<Longrightarrow> canonical (stopped_job j)" "canonical j \<Longrightarrow> canonical (reclaimed_job j now)"
  by (cases j; simp add: canonical_def redis_storable_def redis_row_def reclaimed_job_def)+

lemma canonical_renewed:
  "canonical j \<Longrightarrow> j_lease j = Some l \<Longrightarrow> l_acquired_at l < e \<Longrightarrow> canonical (j\<lparr>j_lease := Some (l\<lparr>l_expires_at := e\<rparr>)\<rparr>)"
  by (cases j; simp add: canonical_def redis_storable_def redis_row_def)

lemma canonical_leased:
  "canonical j \<Longrightarrow> j_status j = JOB_QUEUED \<Longrightarrow> 0 < dur \<Longrightarrow> worker_uuid w < 2 ^ 128 \<Longrightarrow> token_value tok \<noteq> [] \<Longrightarrow>
   canonical (rebuild (leased_job j w dur now tok))"
  by (cases j; simp add: canonical_def redis_storable_def redis_row_def leased_job_def job_lease_to_def lease_granted_def
      mk_lease_def rebuild_def Let_def job_record_def)

section \<open>Invariant\<close>

text \<open>
  What the indexes owe to an existing hash: a ready entry carries its type, a queued job is in its ready set at its
  score, a lease is in the lease set at its expiry, a run index lists only jobs of the run, and an acknowledged job is
  in neither of the latter. Nothing is asked of the entries of a hash that has expired, which the scripts have to
  cope with.
\<close>

definition rentry :: "redisq \<Rightarrow> string \<Rightarrow> job \<Rightarrow> string \<Rightarrow> bool" where
  "rentry q k j a \<longleftrightarrow> canonical j \<and> k = id_text (j_id j)
     \<and> (\<forall>t s. dict_get (rq_ready q t) k = Some s \<longrightarrow> t = job_type_value (j_type j))
     \<and> (j_status j = JOB_QUEUED \<longrightarrow> dict_get (rq_ready q (job_type_value (j_type j))) k = Some (job_score j))
     \<and> (\<forall>l. j_lease j = Some l \<longrightarrow> dict_get (rq_leases q) k = Some (epoch_ms (l_expires_at l)))
     \<and> (\<forall>r. k \<in> set (rq_runs q r) \<longrightarrow> r = uuid_text (run_uuid (j_run_id j)))
     \<and> (j_lease j \<noteq> None \<longrightarrow> is_in_flight (j_status j) \<and> a \<noteq> ''1'')
     \<and> (a = ''1'' \<longrightarrow> j_status j \<noteq> JOB_QUEUED \<and> dict_get (rq_leases q) k = None \<and> (\<forall>r. k \<notin> set (rq_runs q r)))"

definition redis_inv :: "redisq \<Rightarrow> bool" where
  "redis_inv q \<longleftrightarrow>
     (\<forall>k h. dict_get (rq_jobs q) k = Some h \<longrightarrow> (\<exists>j a. h = hash_of j a \<and> rentry q k j a))
   \<and> dict_wf (rq_leases q) \<and> (\<forall>t. dict_wf (rq_ready q t))"

lemma redis_inv_empty: "redis_inv redisq_empty"
  by (simp add: redis_inv_def redisq_empty_def)

lemma redis_invE:
  assumes "redis_inv q" and "dict_get (rq_jobs q) k = Some h"
  obtains j a where "h = hash_of j a" "rentry q k j a"
  using assms unfolding redis_inv_def by blast

definition same_key :: "redisq \<Rightarrow> redisq \<Rightarrow> string \<Rightarrow> bool" where
  "same_key q q' k \<longleftrightarrow>
     (dict_get (rq_jobs q') k = dict_get (rq_jobs q) k \<or> dict_get (rq_jobs q') k = None)
   \<and> (\<forall>t. dict_get (rq_ready q' t) k = dict_get (rq_ready q t) k)
   \<and> dict_get (rq_leases q') k = dict_get (rq_leases q) k
   \<and> (\<forall>r. k \<in> set (rq_runs q' r) \<longrightarrow> k \<in> set (rq_runs q r))"

lemma same_key_entry: "same_key q q' k \<Longrightarrow> rentry q k j a \<Longrightarrow> rentry q' k j a"
  unfolding rentry_def same_key_def by auto

lemma redis_inv_one:
  assumes inv: "redis_inv q" and other: "\<And>k'. k' \<noteq> k \<Longrightarrow> same_key q q' k'"
    and here: "\<And>h. dict_get (rq_jobs q') k = Some h \<Longrightarrow> \<exists>j a. h = hash_of j a \<and> rentry q' k j a"
    and "dict_wf (rq_leases q')" and "\<And>t. dict_wf (rq_ready q' t)"
  shows "redis_inv q'"
proof -
  have "\<exists>j a. h = hash_of j a \<and> rentry q' k' j a" if "dict_get (rq_jobs q') k' = Some h" for k' h
  proof (cases "k' = k")
    case True
    then show ?thesis using here that by simp
  next
    case False
    from other [OF False] that have "dict_get (rq_jobs q) k' = Some h" by (auto simp: same_key_def)
    with inv obtain j a where "h = hash_of j a" "rentry q k' j a" by (rule redis_invE)
    with same_key_entry [OF other [OF False]] show ?thesis by blast
  qed
  with assms(4,5) show ?thesis by (simp add: redis_inv_def)
qed

lemmas redis_prims = hset_def pexpire_def zadd_ready_def zrem_ready_def zadd_lease_def zrem_lease_def sadd_run_def srem_run_def

lemma redis_inv_wf: "redis_inv q \<Longrightarrow> dict_wf (rq_leases q)" "redis_inv q \<Longrightarrow> dict_wf (rq_ready q t)"
  by (simp_all add: redis_inv_def)

lemma status_text_iff [simp]:
  "job_status_value s = ''QUEUED'' \<longleftrightarrow> s = JOB_QUEUED"
  "job_status_value s = ''LEASED'' \<or> job_status_value s = ''RUNNING'' \<longleftrightarrow> is_in_flight s"
  "job_status_value s \<noteq> ''SUCCEEDED'' \<and> job_status_value s \<noteq> ''DEAD'' \<and> job_status_value s \<noteq> ''CANCELLED'' \<longleftrightarrow>
     \<not> job_is_terminal s"
  by (cases s; simp)+

subsection \<open>Publication\<close>

lemma hash_queued: "(job_to_mapping j)\<lparr>h_status := ''QUEUED''\<rparr> = hash_of (redis_row j\<lparr>j_status := JOB_QUEUED\<rparr>) []"
  by (simp add: hash_of_def job_to_mapping_def redis_row_def option.map_comp comp_def)

text \<open>Publishing a job that is held or done changes nothing; any other is queued.\<close>

lemma redis_enqueue_cases:
  assumes inv: "redis_inv q"
  obtains (refused) s a where "dict_get (rq_jobs q) (id_text (j_id j)) = Some (hash_of s a)"
      "is_in_flight (j_status s) \<or> a = ''1''" "redis_enqueue q j = q"
  | (queued) "redis_enqueue q j =
        sadd_run (uuid_text (run_uuid (j_run_id j))) (id_text (j_id j))
          (zadd_ready (job_type_value (j_type j)) (id_text (j_id j)) (job_score j)
            (hset (id_text (j_id j)) (hash_of (redis_row j\<lparr>j_status := JOB_QUEUED\<rparr>) []) q))"
      "\<And>s a. dict_get (rq_jobs q) (id_text (j_id j)) = Some (hash_of s a) \<Longrightarrow> \<not> is_in_flight (j_status s) \<and> a \<noteq> ''1''"
proof (cases "dict_get (rq_jobs q) (id_text (j_id j))")
  case None
  then show thesis by (intro queued) (simp_all add: redis_enqueue_def hash_queued redis_row_def Let_def)
next
  case (Some h)
  with inv obtain s a where h: "h = hash_of s a" by (rule redis_invE)
  show thesis
  proof (cases "is_in_flight (j_status s) \<or> a = ''1''")
    case True
    then have "redis_enqueue q j = q"
      using Some h by (cases "j_status s") (simp_all add: redis_enqueue_def Let_def)
    with Some h True show thesis by (intro refused) simp_all
  next
    case False
    then have nf: "h_status h \<noteq> ''LEASED''" "h_status h \<noteq> ''RUNNING''" "h_acked h \<noteq> ''1''"
      using h by (cases "j_status s"; simp)+
    have fresh: "\<not> is_in_flight (j_status s') \<and> a' \<noteq> ''1''" if "dict_get (rq_jobs q) (id_text (j_id j)) = Some (hash_of s' a')" for s' a'
    proof -
      have "hash_of s' a' = h" using that Some by simp
      then have "h_status h = job_status_value (j_status s')" "h_acked h = a'" by (metis hash_of_simps(2), metis hash_of_simps(1))
      with nf show ?thesis by (cases "j_status s'") simp_all
    qed
    show thesis
      by (rule queued [OF _ fresh]) (use Some nf in \<open>simp_all add: redis_enqueue_def hash_queued redis_row_def Let_def\<close>)
  qed
qed

text \<open>A job keeps its type and run for life, so what the indexes still say of it agrees with it.\<close>

definition redis_publishable :: "redisq \<Rightarrow> job \<Rightarrow> bool" where
  "redis_publishable q j \<longleftrightarrow> redis_storable j \<and> j_lease j = None
     \<and> (\<forall>t. dict_get (rq_ready q t) (id_text (j_id j)) \<noteq> None \<longrightarrow> t = job_type_value (j_type j))
     \<and> (\<forall>r. id_text (j_id j) \<in> set (rq_runs q r) \<longrightarrow> r = uuid_text (run_uuid (j_run_id j)))"

lemma redis_enqueue_inv:
  assumes inv: "redis_inv q" and pub: "redis_publishable q j"
  shows "redis_inv (redis_enqueue q j)"
  using inv
proof (cases rule: redis_enqueue_cases [of q j])
  case refused
  then show ?thesis using inv by simp
next
  case queued
  have c: "canonical (redis_row j\<lparr>j_status := JOB_QUEUED\<rparr>)"
    using pub by (intro canonical_updates(2) canonical_row) (simp add: redis_publishable_def)
  show ?thesis
  proof (rule redis_inv_one [OF inv, of "id_text (j_id j)"])
    fix h assume "dict_get (rq_jobs (redis_enqueue q j)) (id_text (j_id j)) = Some h"
    then have "h = hash_of (redis_row j\<lparr>j_status := JOB_QUEUED\<rparr>) []" by (simp add: queued(1) redis_prims)
    moreover have "rentry (redis_enqueue q j) (id_text (j_id j)) (redis_row j\<lparr>j_status := JOB_QUEUED\<rparr>) []"
      using pub c by (auto simp: rentry_def queued(1) redis_prims redis_publishable_def redis_row_def split: if_splits)
    ultimately show "\<exists>j' a. h = hash_of j' a \<and> rentry (redis_enqueue q j) (id_text (j_id j)) j' a" by blast
  qed (use redis_inv_wf [OF inv] in \<open>auto simp: queued(1) redis_prims same_key_def\<close>)
qed

subsection \<open>Claiming\<close>

lemma zset_first_Some:
  assumes "zset_first z = Some (m, s)"
  shows "(m, s) \<in> set z" and "(m', s') \<in> set z \<Longrightarrow> (s, m) \<le> (s', m')"
proof -
  let ?f = "\<lambda>(m :: string, s :: int). (s, m)"
  obtain es where es: "py_sorted ?f z = (m, s) # es"
    using assms by (auto simp: zset_first_def split: list.splits)
  then have ne: "z \<noteq> []" by auto
  show "(m, s) \<in> set z" using hd_sort_key_in [OF ne, of ?f] es by simp
  show "(s, m) \<le> (s', m')" if "(m', s') \<in> set z" using hd_sort_key_min [OF ne that, of ?f] es by simp
qed

lemma zset_first_None: "zset_first z = None \<longleftrightarrow> z = []"
  by (cases z; simp add: zset_first_def split: list.splits)

text \<open>One turn of the inner loop.\<close>

lemma claim_best_turn:
  "\<exists>best'. claim_best q (u # ts) best = claim_best q ts best'
     \<and> (best' = best \<or> (\<exists>m s'. zset_first (rq_ready q u) = Some (m, s') \<and> best' = Some (s', m, u)))
     \<and> (\<forall>b. best = Some b \<longrightarrow> (\<exists>b'. best' = Some b' \<and> fst b' \<le> fst b))
     \<and> (\<forall>m s'. zset_first (rq_ready q u) = Some (m, s') \<longrightarrow> (\<exists>b'. best' = Some b' \<and> fst b' \<le> s'))"
proof (cases "zset_first (rq_ready q u)")
  case None
  then show ?thesis by (intro exI [of _ best]) simp
next
  case (Some e)
  obtain m s' where e: "e = (m, s')" by (cases e)
  show ?thesis
  proof (cases "\<exists>c d. best = Some (c, d) \<and> \<not> s' < c")
    case True
    then show ?thesis using Some e by (intro exI [of _ best]) auto
  next
    case False
    then show ?thesis using Some e by (intro exI [of _ "Some (s', m, u)"]) (cases best; auto)
  qed
qed

lemma claim_best_mem:
  "claim_best q ts best = Some (s, k, t) \<Longrightarrow>
   best = Some (s, k, t) \<or> (t \<in> set ts \<and> zset_first (rq_ready q t) = Some (k, s))"
proof (induction ts arbitrary: best)
  case (Cons u ts)
  obtain best' where b: "claim_best q (u # ts) best = claim_best q ts best'"
      "best' = best \<or> (\<exists>m s'. zset_first (rq_ready q u) = Some (m, s') \<and> best' = Some (s', m, u))"
      "\<forall>b. best = Some b \<longrightarrow> (\<exists>b'. best' = Some b' \<and> fst b' \<le> fst b)"
      "\<forall>m s'. zset_first (rq_ready q u) = Some (m, s') \<longrightarrow> (\<exists>b'. best' = Some b' \<and> fst b' \<le> s')"
    using claim_best_turn [of q u ts best] by blast
  from Cons.prems b(1) have "claim_best q ts best' = Some (s, k, t)" by simp
  from Cons.IH [OF this] b(2) show ?case by auto
qed simp

lemma claim_best_le:
  "claim_best q ts best = Some (s, k, t) \<Longrightarrow> (\<forall>b. best = Some b \<longrightarrow> s \<le> fst b) \<and>
   (\<forall>t' \<in> set ts. \<forall>m s'. zset_first (rq_ready q t') = Some (m, s') \<longrightarrow> s \<le> s')"
proof (induction ts arbitrary: best)
  case (Cons u ts)
  obtain best' where b: "claim_best q (u # ts) best = claim_best q ts best'"
      "best' = best \<or> (\<exists>m s'. zset_first (rq_ready q u) = Some (m, s') \<and> best' = Some (s', m, u))"
      "\<forall>b. best = Some b \<longrightarrow> (\<exists>b'. best' = Some b' \<and> fst b' \<le> fst b)"
      "\<forall>m s'. zset_first (rq_ready q u) = Some (m, s') \<longrightarrow> (\<exists>b'. best' = Some b' \<and> fst b' \<le> s')"
    using claim_best_turn [of q u ts best] by blast
  from Cons.prems b(1) have "claim_best q ts best' = Some (s, k, t)" by simp
  from Cons.IH [OF this] show ?case using b(3,4) by (fastforce intro: order_trans)
qed simp

lemma claim_best_None: "claim_best q ts best = None \<Longrightarrow> best = None \<and> (\<forall>t \<in> set ts. rq_ready q t = [])"
proof (induction ts arbitrary: best)
  case (Cons u ts)
  obtain best' where b: "claim_best q (u # ts) best = claim_best q ts best'"
      "best' = best \<or> (\<exists>m s'. zset_first (rq_ready q u) = Some (m, s') \<and> best' = Some (s', m, u))"
      "\<forall>b. best = Some b \<longrightarrow> (\<exists>b'. best' = Some b' \<and> fst b' \<le> fst b)"
      "\<forall>m s'. zset_first (rq_ready q u) = Some (m, s') \<longrightarrow> (\<exists>b'. best' = Some b' \<and> fst b' \<le> s')"
    using claim_best_turn [of q u ts best] by blast
  from Cons.prems b(1) have "claim_best q ts best' = None" by simp
  note ih = Cons.IH [OF this]
  have "best = None" using b(3) ih by (cases best) auto
  moreover have "zset_first (rq_ready q u) = None" using b(4) ih by (cases "zset_first (rq_ready q u)") auto
  ultimately show ?case using ih by (simp add: zset_first_None)
qed simp

text \<open>What one round leaves behind when the entry it took was stale.\<close>

lemma zrem_stale_inv:
  assumes inv: "redis_inv q" and stale: "\<And>h. dict_get (rq_jobs q) k = Some h \<Longrightarrow> h_status h \<noteq> ''QUEUED''"
  shows "redis_inv (zrem_ready t k q)"
proof (rule redis_inv_one [OF inv, of k])
  fix h assume h: "dict_get (rq_jobs (zrem_ready t k q)) k = Some h"
  then have "dict_get (rq_jobs q) k = Some h" by (simp add: redis_prims)
  with inv obtain j a where j: "h = hash_of j a" "rentry q k j a" by (rule redis_invE)
  have "rentry (zrem_ready t k q) k j a"
    using j stale [OF \<open>dict_get (rq_jobs q) k = Some h\<close>] by (auto simp: rentry_def redis_prims split: if_splits)
  with j(1) show "\<exists>j a. h = hash_of j a \<and> rentry (zrem_ready t k q) k j a" by blast
qed (use redis_inv_wf [OF inv] in \<open>auto simp: redis_prims same_key_def\<close>)

definition pruned :: "redisq \<Rightarrow> redisq \<Rightarrow> bool" where
  "pruned q q1 \<longleftrightarrow> redis_inv q1 \<and> rq_jobs q1 = rq_jobs q \<and> rq_ttl q1 = rq_ttl q \<and> rq_leases q1 = rq_leases q
     \<and> rq_runs q1 = rq_runs q"

lemma zrem_ready_jobs [simp]: "rq_jobs (zrem_ready t k q) = rq_jobs q"
  by (simp add: zrem_ready_def)

lemma CLAIM_cases:
  assumes "redis_inv q" and "CLAIM n q wanted w now e tok = (q', r)"
  shows "(r = None \<and> pruned q q')
    \<or> (\<exists>q1 k t h. r = Some h \<and> pruned q q1 \<and> t \<in> set wanted \<and> dict_get (rq_ready q1 t) k \<noteq> None
         \<and> dict_get (rq_jobs q) k = Some h \<and> h_status h = ''QUEUED''
         \<and> q' = zadd_lease k (epoch_ms e) (hset k (claimed_hash h w now e tok) (zrem_ready t k q1)))"
  using assms
proof (induction n arbitrary: q)
  case 0
  then show ?case by (simp add: pruned_def)
next
  case (Suc n)
  show ?case
  proof (cases "claim_best q wanted None")
    case None
    with Suc.prems show ?thesis by (simp add: pruned_def)
  next
    case (Some best)
    obtain s k t where best: "best = (s, k, t)" by (cases best)
    have t: "t \<in> set wanted" "(k, s) \<in> set (rq_ready q t)"
      using claim_best_mem [of q wanted None s k t] Some best zset_first_Some(1) by auto
    show ?thesis
    proof (cases "\<exists>h. dict_get (rq_jobs q) k = Some h \<and> h_status h = ''QUEUED''")
      case True
      then obtain h where h: "dict_get (rq_jobs q) k = Some h" "h_status h = ''QUEUED''" by blast
      have "dict_get (rq_ready q t) k \<noteq> None" using weak_map_of_SomeI [OF t(2)] by auto
      moreover have "pruned q q" using Suc.prems(1) by (simp add: pruned_def)
      moreover have "r = Some h \<and> q' = zadd_lease k (epoch_ms e) (hset k (claimed_hash h w now e tok) (zrem_ready t k q))"
        using Suc.prems(2) Some best h by (simp add: zrem_ready_def Let_def)
      ultimately show ?thesis using h t(1) by blast
    next
      case False
      have "redis_inv (zrem_ready t k q)" using False by (intro zrem_stale_inv [OF Suc.prems(1)]) auto
      moreover have "CLAIM n (zrem_ready t k q) wanted w now e tok = (q', r)"
        using Suc.prems(2) Some best False by (auto simp: Let_def split: option.splits if_splits)
      ultimately have "(r = None \<and> pruned (zrem_ready t k q) q')
        \<or> (\<exists>q1 k' t' h. r = Some h \<and> pruned (zrem_ready t k q) q1 \<and> t' \<in> set wanted \<and> dict_get (rq_ready q1 t') k' \<noteq> None
         \<and> dict_get (rq_jobs (zrem_ready t k q)) k' = Some h \<and> h_status h = ''QUEUED''
         \<and> q' = zadd_lease k' (epoch_ms e) (hset k' (claimed_hash h w now e tok) (zrem_ready t' k' q1)))"
        by (rule Suc.IH)
      moreover have "pruned (zrem_ready t k q) q1 \<Longrightarrow> pruned q q1" for q1
        by (simp add: pruned_def redis_prims)
      ultimately show ?thesis unfolding zrem_ready_jobs by blast
    qed
  qed
qed

lemma rentry_taken:
  assumes inv: "redis_inv q1" and r: "rentry q1 k s a" and q: "j_status s = JOB_QUEUED" "0 < dur"
    and w: "worker_uuid w < 2 ^ 128" "token_value tok \<noteq> []" and t: "t = job_type_value (j_type s)"
  shows "redis_inv (zadd_lease k (epoch_ms (now + dur)) (hset k (hash_of (leased_job s w dur now tok) a) (zrem_ready t k q1)))"
proof (rule redis_inv_one [OF inv, of k])
  let ?q = "zadd_lease k (epoch_ms (now + dur)) (hset k (hash_of (leased_job s w dur now tok) a) (zrem_ready t k q1))"
  let ?j = "rebuild (leased_job s w dur now tok)"
  note leased = job_lease_to_ok [OF q, of w now tok]
  have "canonical ?j" using r q w by (intro canonical_leased) (simp_all add: rentry_def)
  then have "rentry ?q k ?j a"
    using r leased(2,3) t q(1) by (auto simp: rentry_def redis_prims granted_def split: if_splits)
  moreover fix h' assume "dict_get (rq_jobs ?q) k = Some h'"
  ultimately show "\<exists>j a. h' = hash_of j a \<and> rentry ?q k j a"
    by (intro exI [of _ ?j] exI [of _ a]) (simp add: redis_prims)
qed (use redis_inv_wf [OF inv] in \<open>auto simp: redis_prims same_key_def\<close>)

lemma rentry_unheld: "rentry q k j a \<Longrightarrow> j_status j = JOB_QUEUED \<Longrightarrow> j_lease j = None \<and> a \<noteq> ''1''"
  by (auto simp: rentry_def)

text \<open>
  A claim answers nothing and only drops stale ready entries, or takes a queued job of a requested type, unheld until
  then, and leases it as \<open>Job.lease_to\<close> says.
\<close>

lemma redis_claim_cases:
  assumes inv: "redis_inv q" and dur: "0 < dur" and w: "worker_uuid w < 2 ^ 128" "token_value tok \<noteq> []"
  obtains (idle) q' where "redis_claim q w types dur now tok = (q', Inr None)" "pruned q q'"
  | (taken) q' s a where "redis_claim q w types dur now tok =
        (q', Inr (Some (leased_job s w dur now tok, granted (j_id s) w dur now tok)))"
      "dict_get (rq_jobs q) (id_text (j_id s)) = Some (hash_of s a)" "canonical s" "j_status s = JOB_QUEUED" "j_lease s = None"
      "j_type s \<in> set types" "redis_inv q'" "rq_ttl q' = rq_ttl q" "rq_runs q' = rq_runs q"
      "rq_jobs q' = dict_set (id_text (j_id s)) (hash_of (leased_job s w dur now tok) a) (rq_jobs q)"
      "rq_leases q' = dict_set (id_text (j_id s)) (epoch_ms (now + dur)) (rq_leases q)"
proof (cases "fromkeys types = []")
  case True
  with inv show thesis by (intro idle) (simp_all add: redis_claim_def pruned_def)
next
  case False
  obtain q' r where c: "CLAIM 64 q (map job_type_value (fromkeys types)) w now (now + dur) tok = (q', r)" by (cases "CLAIM 64 q (map job_type_value (fromkeys types)) w now (now + dur) tok")
  from CLAIM_cases [OF inv c] show thesis
  proof (elim disjE conjE exE)
    assume "r = None" "pruned q q'"
    with False c show thesis by (intro idle) (simp_all add: redis_claim_def)
  next
    fix q1 k t h
    assume r: "r = Some h" and p: "pruned q q1" and t: "t \<in> set (map job_type_value (fromkeys types))" "dict_get (rq_ready q1 t) k \<noteq> None"
      and h: "dict_get (rq_jobs q) k = Some h" "h_status h = ''QUEUED''"
      and q': "q' = zadd_lease k (epoch_ms (now + dur)) (hset k (claimed_hash h w now (now + dur) tok) (zrem_ready t k q1))"
    have inv1: "redis_inv q1" and h1: "dict_get (rq_jobs q1) k = Some h" using p h by (simp_all add: pruned_def)
    obtain s a where s: "h = hash_of s a" "rentry q1 k s a" by (rule redis_invE [OF inv1 h1])
    have st: "j_status s = JOB_QUEUED" using h(2) s(1) by simp
    have k: "k = id_text (j_id s)" "canonical s" "t = job_type_value (j_type s)" using s(2) t(2) by (auto simp: rentry_def)
    have "j_type s \<in> set types" using t(1) k(3) job_type_wire.value_inj by auto
    moreover have "redis_inv q'"
      unfolding q' s(1) hash_claimed [OF st dur] by (rule rentry_taken [OF inv1 s(2) st dur w k(3)])
    moreover have "redis_claim q w types dur now tok = (q', Inr (Some (leased_job s w dur now tok, granted (j_id s) w dur now tok)))"
      using False c r s(1) job_lease_to_ok(1) [OF st dur, of w now tok] k(2)
      by (simp add: redis_claim_def canonical_rebuild)
    ultimately show thesis
      using p h s k st rentry_unheld [OF s(2) st]
      by (intro taken [of q' s a]) (simp_all add: pruned_def q' redis_prims hash_claimed [OF st dur])
  qed
qed

subsection \<open>Reports\<close>

lemma rentry_lease:
  "rentry q k j a \<Longrightarrow> j_lease j = Some l \<Longrightarrow>
   k = id_text (j_id j) \<and> canonical j \<and> is_in_flight (j_status j) \<and> dict_get (rq_leases q) k = Some (epoch_ms (l_expires_at l))"
  by (auto simp: rentry_def)

lemma canonical_lease: "canonical j \<Longrightarrow> j_lease j = Some l \<Longrightarrow>
   worker_uuid (l_holder l) < 2 ^ 128 \<and> token_value (l_token l) \<noteq> [] \<and> l_job_id l = j_id j \<and> l_acquired_at l < l_expires_at l"
  by (simp add: canonical_def redis_storable_def)

lemma canonical_id: "canonical j \<Longrightarrow> job_uuid (j_id j) < 2 ^ 128"
  by (simp add: canonical_def redis_storable_def)

text \<open>Replacing the hash of one key.\<close>

lemma redis_inv_key:
  assumes "redis_inv q" and "dict_get (rq_jobs q') k = Some (hash_of j a)" and "rentry q' k j a"
    and "\<And>k'. k' \<noteq> k \<Longrightarrow> same_key q q' k'" and "dict_wf (rq_leases q')" and "\<And>t. dict_wf (rq_ready q' t)"
  shows "redis_inv q'"
  using assms by (intro redis_inv_one [of q k q']) auto

lemma token_held:
  assumes "token_value tok \<noteq> []" and "h_lease_token (hash_of j a) = token_value tok"
  obtains l where "j_lease j = Some l" "l_token l = tok"
  using assms by (cases "j_lease j") (auto simp: lease_token.expand)

text \<open>The clock has not gone back behind the acquisition of the lease.\<close>

definition renews_forward :: "redisq \<Rightarrow> job_id \<Rightarrow> duration \<Rightarrow> moment \<Rightarrow> bool" where
  "renews_forward q i dur now \<longleftrightarrow>
     (\<forall>h b. dict_get (rq_jobs q) (id_text i) = Some h \<longrightarrow> h_lease_acquired_at h = Some b \<longrightarrow> b < now + dur)"

lemma redis_renew_cases:
  assumes inv: "redis_inv q" and i: "job_uuid i < 2 ^ 128" "token_value tok \<noteq> []"
    and fwd: "renews_forward q i dur now"
  obtains (lost) "redis_renew q i tok dur now = (q, Inl (JobLeaseExpiredError i None))"
  | (renewed) j a l where "dict_get (rq_jobs q) (id_text i) = Some (hash_of j a)" "rentry q (id_text i) j a" "j_lease j = Some l"
      "l_token l = tok" "epoch_ms now < epoch_ms (l_expires_at l)" "j_id j = i"
      "redis_renew q i tok dur now =
         (zadd_lease (id_text i) (epoch_ms (now + dur))
            (hset (id_text i) (hash_of (j\<lparr>j_lease := Some (l\<lparr>l_expires_at := now + dur\<rparr>)\<rparr>) a) q),
          Inr (l\<lparr>l_expires_at := now + dur\<rparr>))"
      "l_acquired_at l < now + dur"
proof (cases "dict_get (rq_jobs q) (id_text i)")
  case None
  then show thesis by (intro lost) (simp add: redis_renew_def)
next
  case (Some h)
  with inv obtain j a where j: "h = hash_of j a" "rentry q (id_text i) j a" by (rule redis_invE)
  show thesis
  proof (cases "h_lease_token h = token_value tok")
    case False
    with Some show thesis by (intro lost) (simp add: redis_renew_def)
  next
    case True
    then obtain l where l: "j_lease j = Some l" "l_token l = tok"
      using token_held [OF i(2)] j(1) by metis
    note e = rentry_lease [OF j(2) l(1)]
    have le: "dict_get (rq_leases q) (id_text i) = Some (epoch_ms (l_expires_at l))" using e by blast
    have cl: "worker_uuid (l_holder l) < 2 ^ 128" "l_job_id l = j_id j" using canonical_lease [of j l] e l(1) by auto
    have id: "j_id j = i"
      using e parse_uuid_text [OF i(1)] parse_uuid_text [OF canonical_id [of j]] by (cases i; cases "j_id j") auto
    have a: "l_acquired_at l < now + dur" using fwd Some j(1) l(1) by (simp add: renews_forward_def)
    show thesis
    proof (cases "epoch_ms (l_expires_at l) \<le> epoch_ms now")
      case True
      with Some j(1) l le show thesis by (intro lost) (simp add: redis_renew_def Let_def)
    next
      case False
      have "mk_lease i (l_holder l) tok (l_acquired_at l) (now + dur) = Inr (l\<lparr>l_expires_at := now + dur\<rparr>)"
        using a cl(2) id l(2) by (cases l) (simp add: mk_lease_def)
      with False Some j l le id a cl show thesis
        by (intro renewed [of j a l]) (simp_all add: redis_renew_def hash_renewed [OF l(1)] parse_uuid_text Let_def)
    qed
  qed
qed

lemma redis_renew_inv:
  assumes inv: "redis_inv q" and i: "job_uuid i < 2 ^ 128" "token_value tok \<noteq> []"
    and fwd: "renews_forward q i dur now"
  shows "redis_inv (fst (redis_renew q i tok dur now))"
  using assms
proof (cases rule: redis_renew_cases [of q i tok dur now])
  case lost
  then show ?thesis using inv by simp
next
  case (renewed j a l)
  let ?j = "j\<lparr>j_lease := Some (l\<lparr>l_expires_at := now + dur\<rparr>)\<rparr>"
  have "canonical ?j" using renewed(2,3,8) by (intro canonical_renewed) (auto simp: rentry_def)
  then have "rentry (fst (redis_renew q i tok dur now)) (id_text i) ?j a"
    using renewed(2,3) by (auto simp: rentry_def renewed(7) redis_prims)
  then show ?thesis
    by (intro redis_inv_key [OF inv]) (use redis_inv_wf [OF inv] in \<open>auto simp: renewed(7) redis_prims same_key_def\<close>)
qed

lemma redis_held_cases:
  assumes inv: "redis_inv q" and tok: "token_value tok \<noteq> []"
  obtains (stale) "\<And>h. dict_get (rq_jobs q) k = Some h \<Longrightarrow> h_lease_token h \<noteq> token_value tok"
  | (held) j a l where "dict_get (rq_jobs q) k = Some (hash_of j a)" "rentry q k j a" "j_lease j = Some l" "l_token l = tok"
proof (cases "\<exists>h. dict_get (rq_jobs q) k = Some h \<and> h_lease_token h = token_value tok")
  case False
  then show thesis using stale by blast
next
  case True
  then obtain h where h: "dict_get (rq_jobs q) k = Some h" "h_lease_token h = token_value tok" by blast
  obtain j a where j: "h = hash_of j a" "rentry q k j a" by (rule redis_invE [OF inv h(1)])
  with h token_held [OF tok] show thesis by (metis held)
qed

lemma redis_acknowledge_stale:
  "(\<And>h. dict_get (rq_jobs q) (id_text i) = Some h \<Longrightarrow> h_lease_token h \<noteq> token_value tok) \<Longrightarrow> redis_acknowledge ttl q i tok = q"
  by (cases "dict_get (rq_jobs q) (id_text i)") (simp_all add: redis_acknowledge_def)

lemma redis_acknowledge_held:
  "dict_get (rq_jobs q) (id_text i) = Some (hash_of j a) \<Longrightarrow> j_lease j = Some l \<Longrightarrow> l_token l = tok \<Longrightarrow>
   redis_acknowledge ttl q i tok = srem_run (uuid_text (run_uuid (j_run_id j))) (id_text i)
     (pexpire (id_text i) ttl (hset (id_text i) (hash_of (unleased j) ''1'') (zrem_lease (id_text i) q)))"
  by (simp add: redis_acknowledge_def Let_def hash_updates)

lemma in_flight_not_queued: "is_in_flight s \<Longrightarrow> s \<noteq> JOB_QUEUED"
  by (cases s) simp_all

lemma redis_acknowledge_inv:
  assumes inv: "redis_inv q" and tok: "token_value tok \<noteq> []"
  shows "redis_inv (redis_acknowledge ttl q i tok)"
  using assms
proof (cases rule: redis_held_cases [of q tok "id_text i"])
  case stale
  then show ?thesis using inv by (simp add: redis_acknowledge_stale)
next
  case (held j a l)
  note eq = redis_acknowledge_held [OF held(1,3,4), of ttl]
  have "canonical (unleased j)" using held(2) by (intro canonical_updates(1)) (simp add: rentry_def)
  then have "rentry (redis_acknowledge ttl q i tok) (id_text i) (unleased j) ''1''"
    using held(2,3) in_flight_not_queued [of "j_status j"] by (auto simp: eq rentry_def redis_prims)
  then show ?thesis
    by (intro redis_inv_key [OF inv]) (use redis_inv_wf [OF inv] in \<open>auto simp: eq redis_prims same_key_def split: if_splits\<close>)
qed

lemma redis_release_stale:
  "(\<And>h. dict_get (rq_jobs q) (id_text i) = Some h \<Longrightarrow> h_lease_token h \<noteq> token_value tok) \<Longrightarrow> redis_release q i tok b = q"
  by (cases "dict_get (rq_jobs q) (id_text i)") (simp_all add: redis_release_def)

lemma redis_release_held:
  "dict_get (rq_jobs q) (id_text i) = Some (hash_of j a) \<Longrightarrow> j_lease j = Some l \<Longrightarrow> l_token l = tok \<Longrightarrow>
   redis_release q i tok b =
     (let q1 = hset (id_text i) (hash_of ((unleased j)\<lparr>j_status := (if b then JOB_QUEUED else JOB_PENDING)\<rparr>) a) (zrem_lease (id_text i) q)
      in if b then zadd_ready (job_type_value (j_type j)) (id_text i) (job_score j) q1 else q1)"
  by (simp add: redis_release_def Let_def hash_updates)

lemma redis_release_inv:
  assumes inv: "redis_inv q" and tok: "token_value tok \<noteq> []"
  shows "redis_inv (redis_release q i tok b)"
  using assms
proof (cases rule: redis_held_cases [of q tok "id_text i"])
  case stale
  then show ?thesis using inv by (simp add: redis_release_stale)
next
  case (held j a l)
  note eq = redis_release_held [OF held(1,3,4), of b]
  let ?j = "(unleased j)\<lparr>j_status := (if b then JOB_QUEUED else JOB_PENDING)\<rparr>"
  have "canonical ?j" using held(2) by (intro canonical_updates(1,2)) (simp add: rentry_def)
  then have "rentry (redis_release q i tok b) (id_text i) ?j a"
    using held(2,3) by (auto simp: eq Let_def rentry_def redis_prims split: if_splits)
  then show ?thesis
    by (intro redis_inv_key [OF inv]) (use redis_inv_wf [OF inv] in \<open>auto simp: eq Let_def redis_prims same_key_def\<close>)
qed

subsection \<open>Sweeping and cancelling\<close>

lemma reclaim_one_found:
  "dict_get (rq_jobs q) k = Some (hash_of j a) \<Longrightarrow>
   reclaim_one ttl now q k =
     (let q1 = hset k (hash_of (reclaimed_job j now) a) (zrem_lease k q)
      in if j_attempt j < j_max_attempts j then zadd_ready (job_type_value (j_type j)) k (job_score j) q1 else pexpire k ttl q1, True)"
  by (simp add: reclaim_one_def Let_def hash_updates reclaimed_job_def zrem_lease_def)

lemma reclaimed_job_simps [simp]:
  "j_id (reclaimed_job j now) = j_id j" "j_type (reclaimed_job j now) = j_type j" "j_run_id (reclaimed_job j now) = j_run_id j"
  "j_priority (reclaimed_job j now) = j_priority j" "j_created_at (reclaimed_job j now) = j_created_at j"
  "j_lease (reclaimed_job j now) = None"
  "j_status (reclaimed_job j now) = (if j_attempt j < j_max_attempts j then JOB_QUEUED else JOB_DEAD)"
  by (simp_all add: reclaimed_job_def)

text \<open>An entry of the lease set whose hash is gone is dropped; any other job is reclaimed.\<close>

lemma reclaim_one_inv:
  assumes inv: "redis_inv q" and e: "dict_get (rq_leases q) k \<noteq> None"
  shows "redis_inv (fst (reclaim_one ttl now q k))"
proof (cases "dict_get (rq_jobs q) k")
  case None
  then have "fst (reclaim_one ttl now q k) = zrem_lease k q" by (simp add: reclaim_one_def zrem_lease_def)
  then show ?thesis
    by (intro redis_inv_one [OF inv, of k]) (use None redis_inv_wf [OF inv] in \<open>auto simp: redis_prims same_key_def\<close>)
next
  case (Some h)
  obtain j a where j: "h = hash_of j a" "rentry q k j a" by (rule redis_invE [OF inv Some])
  have eq: "fst (reclaim_one ttl now q k) = (let q1 = hset k (hash_of (reclaimed_job j now) a) (zrem_lease k q)
      in if j_attempt j < j_max_attempts j then zadd_ready (job_type_value (j_type j)) k (job_score j) q1 else pexpire k ttl q1)"
    using Some j(1) by (simp add: reclaim_one_found)
  have "canonical (reclaimed_job j now)" using j(2) by (intro canonical_updates(4)) (simp add: rentry_def)
  then have "rentry (fst (reclaim_one ttl now q k)) k (reclaimed_job j now) a"
    using j(2) e unfolding eq Let_def by (auto simp: rentry_def redis_prims split: if_splits)
  then show ?thesis
    by (intro redis_inv_key [OF inv]) (use redis_inv_wf [OF inv] in \<open>auto simp: eq Let_def redis_prims same_key_def\<close>)
qed

lemma reclaim_one_effect:
  "dict_get (rq_leases (fst (reclaim_one ttl now q k))) k' = (if k' = k then None else dict_get (rq_leases q) k')"
  "k' \<noteq> k \<Longrightarrow> dict_get (rq_jobs (fst (reclaim_one ttl now q k))) k' = dict_get (rq_jobs q) k'"
  "rq_runs (fst (reclaim_one ttl now q k)) = rq_runs q"
  by (auto simp: reclaim_one_def Let_def redis_prims split: option.splits)

lemma reclaim_each_spec:
  "redis_inv q \<Longrightarrow> distinct ks \<Longrightarrow> \<forall>k \<in> set ks. dict_get (rq_leases q) k \<noteq> None \<Longrightarrow>
   redis_inv (fst (reclaim_each ttl now q ks))
   \<and> (\<forall>k. k \<notin> set ks \<longrightarrow> dict_get (rq_jobs (fst (reclaim_each ttl now q ks))) k = dict_get (rq_jobs q) k)"
proof (induction ks arbitrary: q)
  case (Cons k ks)
  have "redis_inv (fst (reclaim_one ttl now q k))" using Cons.prems by (intro reclaim_one_inv) simp_all
  moreover have "\<forall>k' \<in> set ks. dict_get (rq_leases (fst (reclaim_one ttl now q k))) k' \<noteq> None"
    using Cons.prems(2,3) by (auto simp: reclaim_one_effect(1))
  moreover have "distinct ks" using Cons.prems(2) by simp
  ultimately show ?case using Cons.IH [of "fst (reclaim_one ttl now q k)"]
    by (simp add: case_prod_beta Let_def reclaim_one_effect(2))
qed simp

lemma expired_members_expired:
  assumes "redis_inv q" and "k \<in> set (expired_members q now limit)"
  shows "\<exists>s. dict_get (rq_leases q) k = Some s \<and> s \<le> epoch_ms now"
proof -
  obtain s where "(k, s) \<in> set (rq_leases q)" "s \<le> epoch_ms now"
    using assms(2) by (auto simp: expired_members_def dest!: in_set_takeD)
  moreover from this(1) have "dict_get (rq_leases q) k = Some s"
    using redis_inv_wf(1) [OF assms(1)] by (rule map_of_is_SomeI [rotated])
  ultimately show ?thesis by blast
qed

lemma distinct_expired_members: "dict_wf (rq_leases q) \<Longrightarrow> distinct (expired_members q now limit)"
  unfolding expired_members_def by (intro distinct_take) (auto simp: distinct_map distinct_filter inj_on_def)

lemma redis_reclaim_inv:
  assumes "redis_inv q"
  shows "redis_inv (fst (redis_reclaim_expired ttl q now limit))"
    and "k \<notin> set (expired_members q now limit) \<Longrightarrow>
      dict_get (rq_jobs (fst (redis_reclaim_expired ttl q now limit))) k = dict_get (rq_jobs q) k"
proof -
  have "\<forall>k \<in> set (expired_members q now limit). dict_get (rq_leases q) k \<noteq> None"
    using expired_members_expired [OF assms] by fastforce
  from reclaim_each_spec [OF assms distinct_expired_members [OF redis_inv_wf(1) [OF assms]] this, of ttl now]
  show "redis_inv (fst (redis_reclaim_expired ttl q now limit))"
    "k \<notin> set (expired_members q now limit) \<Longrightarrow>
      dict_get (rq_jobs (fst (redis_reclaim_expired ttl q now limit))) k = dict_get (rq_jobs q) k"
    by (simp_all add: redis_reclaim_expired_def case_prod_beta Let_def)
qed

lemma cancel_one_inv:
  assumes inv: "redis_inv q"
  shows "redis_inv (fst (cancel_one ttl r q k))"
proof (cases "dict_get (rq_jobs q) k")
  case None
  then have "fst (cancel_one ttl r q k) = srem_run r k q" by (simp add: cancel_one_def)
  then show ?thesis
    by (intro redis_inv_one [OF inv, of k]) (use None redis_inv_wf [OF inv] in \<open>auto simp: redis_prims same_key_def split: if_splits\<close>)
next
  case (Some h)
  obtain j a where j: "h = hash_of j a" "rentry q k j a" by (rule redis_invE [OF inv Some])
  show ?thesis
  proof (cases "job_is_terminal (j_status j)")
    case True
    then have "cancel_one ttl r q k = (q, False)"
      using Some j(1) status_text_iff(3) [of "j_status j"] by (simp add: cancel_one_def)
    with inv show ?thesis by simp
  next
    case False
    then have eq: "cancel_one ttl r q k = (pexpire k ttl (hset k (hash_of (stopped_job j) a)
        (zrem_lease k (zrem_ready (job_type_value (j_type j)) k q))), True)"
      using Some j(1) status_text_iff(3) [of "j_status j"] by (simp add: cancel_one_def hash_updates)
    have "canonical (stopped_job j)" using j(2) by (intro canonical_updates(3)) (simp add: rentry_def)
    then have "rentry (fst (cancel_one ttl r q k)) k (stopped_job j) a"
      using j(2) unfolding eq fst_conv by (auto simp: rentry_def redis_prims split: if_splits)
    then show ?thesis
      by (intro redis_inv_key [OF inv]) (use redis_inv_wf [OF inv] in \<open>auto simp: eq redis_prims same_key_def\<close>)
  qed
qed

lemma cancel_one_other: "k' \<noteq> k \<Longrightarrow> dict_get (rq_jobs (fst (cancel_one ttl r q k))) k' = dict_get (rq_jobs q) k'"
  by (auto simp: cancel_one_def redis_prims split: option.splits)

lemma cancel_each_spec:
  "redis_inv q \<Longrightarrow> redis_inv (fst (cancel_each ttl r q ks))
   \<and> (\<forall>k. k \<notin> set ks \<longrightarrow> dict_get (rq_jobs (fst (cancel_each ttl r q ks))) k = dict_get (rq_jobs q) k)"
proof (induction ks arbitrary: q)
  case (Cons k ks)
  from Cons.IH [OF cancel_one_inv [OF Cons.prems]] show ?case
    by (auto simp: case_prod_beta Let_def cancel_one_other)
qed simp

lemma redis_cancel_inv:
  assumes "redis_inv q"
  shows "redis_inv (fst (redis_cancel_run_jobs ttl q rid))"
    and "k \<notin> set (rq_runs q (uuid_text (run_uuid rid))) \<Longrightarrow>
      dict_get (rq_jobs (fst (redis_cancel_run_jobs ttl q rid))) k = dict_get (rq_jobs q) k"
  using cancel_each_spec [OF assms] by (simp_all add: redis_cancel_run_jobs_def case_prod_beta Let_def)

lemma redis_elapse_inv:
  assumes inv: "redis_inv q"
  shows "redis_inv (redis_elapse q ms)"
proof -
  have same: "same_key q (redis_elapse q ms) k" for k
    using redis_elapse_jobs [of q ms k] by (simp add: same_key_def) (simp add: redis_elapse_def)
  have "\<exists>j a. h = hash_of j a \<and> rentry (redis_elapse q ms) k j a" if "dict_get (rq_jobs (redis_elapse q ms)) k = Some h" for k h
  proof -
    have "dict_get (rq_jobs q) k = Some h" using that by (auto simp: redis_elapse_jobs split: if_splits)
    with inv obtain j a where "h = hash_of j a" "rentry q k j a" by (rule redis_invE)
    with same_key_entry [OF same] show ?thesis by blast
  qed
  with redis_inv_wf [OF inv] show ?thesis by (simp add: redis_inv_def) (simp add: redis_elapse_def)
qed

section \<open>The contract\<close>

fun redis_step :: "int \<Rightarrow> redisq \<Rightarrow> queue_op \<Rightarrow> redisq \<times> queue_reply" where
  "redis_step ttl q (Q_Enqueue j) = (redis_enqueue q j, R_Done)"
| "redis_step ttl q (Q_Claim w types dur now tok) =
     (case redis_claim q w types dur now tok of
        (q', Inl e) \<Rightarrow> (q', R_Raised e)
      | (q', Inr None) \<Rightarrow> (q', R_Nothing)
      | (q', Inr (Some (j, l))) \<Rightarrow> (q', R_Claimed j l))"
| "redis_step ttl q (Q_Renew i tok dur now) =
     (case redis_renew q i tok dur now of
        (q', Inl e) \<Rightarrow> (q', R_Raised e)
      | (q', Inr l) \<Rightarrow> (q', R_Renewed l))"
| "redis_step ttl q (Q_Acknowledge i tok) = (redis_acknowledge ttl q i tok, R_Done)"
| "redis_step ttl q (Q_Release i tok requeue) = (redis_release q i tok requeue, R_Done)"
| "redis_step ttl q (Q_Reclaim now limit) =
     (case redis_reclaim_expired ttl q now limit of
        (q', Inl e) \<Rightarrow> (q', R_Raised e)
      | (q', Inr ids) \<Rightarrow> (q', R_Ids ids))"
| "redis_step ttl q (Q_Cancel_Run r) =
     (case redis_cancel_run_jobs ttl q r of
        (q', Inl e) \<Rightarrow> (q', R_Raised e)
      | (q', Inr ids) \<Rightarrow> (q', R_Ids ids))"

text \<open>
  The calls a client makes: identifiers of 128 bits, tokens that are not empty (their constructor refuses those),
  positive lease durations and a clock that runs forward from the epoch.
\<close>

fun redis_allowed :: "redisq \<Rightarrow> queue_op \<Rightarrow> bool" where
  "redis_allowed q (Q_Enqueue j) \<longleftrightarrow> redis_publishable q j"
| "redis_allowed q (Q_Claim w _ dur _ tok) \<longleftrightarrow> 0 < dur \<and> worker_uuid w < 2 ^ 128 \<and> token_value tok \<noteq> []"
| "redis_allowed q (Q_Renew i tok dur now) \<longleftrightarrow> job_uuid i < 2 ^ 128 \<and> token_value tok \<noteq> [] \<and> renews_forward q i dur now"
| "redis_allowed q (Q_Acknowledge i tok) \<longleftrightarrow> job_uuid i < 2 ^ 128 \<and> token_value tok \<noteq> []"
| "redis_allowed q (Q_Release i tok _) \<longleftrightarrow> job_uuid i < 2 ^ 128 \<and> token_value tok \<noteq> []"
| "redis_allowed q (Q_Reclaim now _) \<longleftrightarrow> 0 \<le> now"
| "redis_allowed q (Q_Cancel_Run r) \<longleftrightarrow> run_uuid r < 2 ^ 128"

text \<open>
  The job of a hash, with the lease as the scripts enforce it: the lease set knows the expiry to the millisecond.
\<close>

definition effective :: "job \<Rightarrow> job" where
  "effective j = j\<lparr>j_lease := map_option (\<lambda>l. l\<lparr>l_expires_at := 1000 * epoch_ms (l_expires_at l)\<rparr>) (j_lease j)\<rparr>"

definition redis_stored :: "redisq \<Rightarrow> job_id \<Rightarrow> job option" where
  "redis_stored q i =
     (if job_uuid i < 2 ^ 128
      then (case dict_get (rq_jobs q) (id_text i) of
              None \<Rightarrow> None
            | Some h \<Rightarrow> (case job_from_mapping h of Inl _ \<Rightarrow> None | Inr j \<Rightarrow> Some (effective j)))
      else None)"

lemma uuid_text_inj: "m < 2 ^ 128 \<Longrightarrow> n < 2 ^ 128 \<Longrightarrow> uuid_text m = uuid_text n \<longleftrightarrow> m = n"
  by (metis parse_uuid_text sum.inject(2))

lemma id_text_inj: "job_uuid i < 2 ^ 128 \<Longrightarrow> job_uuid j < 2 ^ 128 \<Longrightarrow> id_text i = id_text j \<longleftrightarrow> i = j"
  using uuid_text_inj [of "job_uuid i" "job_uuid j"] by (cases i; cases j) simp

lemma effective_simps [simp]:
  "j_id (effective j) = j_id j" "j_run_id (effective j) = j_run_id j" "j_status (effective j) = j_status j"
  "j_lease (effective j) = map_option (\<lambda>l. l\<lparr>l_expires_at := 1000 * epoch_ms (l_expires_at l)\<rparr>) (j_lease j)"
  by (simp_all add: effective_def)

lemma redis_stored_hash:
  "job_uuid i < 2 ^ 128 \<Longrightarrow> canonical s \<Longrightarrow> dict_get (rq_jobs q) (id_text i) = Some (hash_of s a) \<Longrightarrow>
   redis_stored q i = Some (effective s)"
  by (simp add: redis_stored_def)

lemma redis_storedE:
  assumes inv: "redis_inv q" and "redis_stored q i = Some j"
  obtains s a where "dict_get (rq_jobs q) (id_text i) = Some (hash_of s a)" "rentry q (id_text i) s a" "j = effective s"
    "j_id s = i" "job_uuid i < 2 ^ 128" "canonical s"
proof -
  obtain h where h: "dict_get (rq_jobs q) (id_text i) = Some h" "job_uuid i < 2 ^ 128"
    using assms(2) by (auto simp: redis_stored_def split: option.splits if_splits)
  obtain s a where s: "h = hash_of s a" "rentry q (id_text i) s a" by (rule redis_invE [OF inv h(1)])
  have c: "canonical s" "id_text i = id_text (j_id s)" using s(2) by (simp_all add: rentry_def)
  moreover have "j = effective s" using assms(2) h s(1) c(1) by (simp add: redis_stored_def)
  moreover have "j_id s = i" using c h(2) canonical_id [OF c(1)] id_text_inj [of i "j_id s"] by simp
  ultimately show thesis using that h s by blast
qed

lemma fst_redis_step:
  "fst (redis_step ttl q (Q_Claim w types dur now tok)) = fst (redis_claim q w types dur now tok)"
  "fst (redis_step ttl q (Q_Renew i tok dur now)) = fst (redis_renew q i tok dur now)"
  "fst (redis_step ttl q (Q_Reclaim now limit)) = fst (redis_reclaim_expired ttl q now limit)"
  "fst (redis_step ttl q (Q_Cancel_Run r)) = fst (redis_cancel_run_jobs ttl q r)"
  by (simp_all split: prod.splits sum.splits option.splits)

lemma redis_claim_inv:
  assumes "redis_inv q" and "0 < dur" and "worker_uuid w < 2 ^ 128" and "token_value tok \<noteq> []"
  shows "redis_inv (fst (redis_claim q w types dur now tok))"
  using assms by (cases rule: redis_claim_cases [of q dur w tok types now]) (simp_all add: pruned_def)

lemma redis_step_inv: "redis_inv q \<Longrightarrow> redis_allowed q op \<Longrightarrow> redis_inv (fst (redis_step ttl q op))"
  by (cases op; hypsubst; unfold fst_redis_step redis_step.simps(1,4,5) fst_conv redis_allowed.simps)
     (blast intro: redis_enqueue_inv redis_claim_inv redis_renew_inv redis_acknowledge_inv redis_release_inv
       redis_reclaim_inv(1) redis_cancel_inv(1))+

lemma redis_claim_unheld:
  assumes inv: "redis_inv q" and ok: "redis_allowed q op" and step: "redis_step ttl q op = (q', R_Claimed j l)"
  shows "(\<exists>s. redis_stored q (j_id j) = Some s \<and> j_lease s = None) \<and>
         (\<exists>s m. redis_stored q' (j_id j) = Some s \<and> j_lease s = Some m \<and> l_token m = l_token l \<and> l_holder m = l_holder l)"
proof -
  obtain w types dur now tok where op: "op = Q_Claim w types dur now tok"
    using step by (cases op) (auto split: prod.splits sum.splits)
  with ok have a: "0 < dur" "worker_uuid w < 2 ^ 128" "token_value tok \<noteq> []" by simp_all
  from inv a show ?thesis
  proof (cases rule: redis_claim_cases [of q dur w tok types now])
    case (idle p)
    then show ?thesis using step op by simp
  next
    case (taken p s b)
    have jl: "j = leased_job s w dur now tok" "l = granted (j_id s) w dur now tok" "q' = p"
      using step op taken(1) by simp_all
    have id: "job_uuid (j_id s) < 2 ^ 128" by (rule canonical_id [OF taken(3)])
    have c: "canonical (rebuild (leased_job s w dur now tok))" by (rule canonical_leased [OF taken(3,4) a])
    have "redis_stored q (j_id s) = Some (effective s)" by (rule redis_stored_hash [OF id taken(3,2)])
    moreover have "redis_stored q' (j_id s) = Some (effective (rebuild (leased_job s w dur now tok)))"
      by (rule redis_stored_hash [OF id c, of _ b]) (simp add: jl(3) taken(10))
    ultimately show ?thesis
      using taken(5) job_lease_to_ok(3) [OF taken(4) a(1), of w now tok] by (simp add: jl(1,2) granted_def)
  qed
qed

lemma epoch_ms_le: "0 \<le> now \<Longrightarrow> epoch_ms e \<le> epoch_ms now \<longleftrightarrow> 1000 * epoch_ms e \<le> now"
  by (auto simp: epoch_ms_def whole_ms_def)

text \<open>Every call leaves the lease alone unless it ends it.\<close>

lemma reclaim_each_ttl:
  "k \<notin> set ks \<Longrightarrow> rq_ttl (fst (reclaim_each ttl now q ks)) k = rq_ttl q k"
proof (induction ks arbitrary: q)
  case (Cons x ks)
  have "rq_ttl (fst (reclaim_one ttl now q x)) k = rq_ttl q k" if "k \<noteq> x"
    using that by (auto simp: reclaim_one_def Let_def redis_prims split: option.splits)
  with Cons show ?case by (simp add: case_prod_beta Let_def)
qed simp

lemma cancel_each_ttl:
  "k \<notin> set ks \<Longrightarrow> rq_ttl (fst (cancel_each ttl r q ks)) k = rq_ttl q k"
proof (induction ks arbitrary: q)
  case (Cons x ks)
  have "rq_ttl (fst (cancel_one ttl r q x)) k = rq_ttl q k" if "k \<noteq> x"
    using that by (auto simp: cancel_one_def redis_prims split: option.splits)
  with Cons show ?case by (simp add: case_prod_beta Let_def)
qed simp

text \<open>A call that does not end a lease keeps it, and leaves the time to live of the record alone.\<close>

lemma redis_lease_and_ttl_kept:
  assumes inv: "redis_inv q" and ok: "redis_allowed q op" and st: "redis_stored q i = Some j"
    and l: "j_lease j = Some l" and keep: "\<not> ends_lease op j l"
  shows "\<exists>j' l'. redis_stored (fst (redis_step ttl q op)) i = Some j' \<and> j_lease j' = Some l'
           \<and> l_token l' = l_token l \<and> l_holder l' = l_holder l \<and> j_run_id j' = j_run_id j
           \<and> rq_ttl (fst (redis_step ttl q op)) (id_text i) = rq_ttl q (id_text i)"
proof -
  obtain s a where s: "dict_get (rq_jobs q) (id_text i) = Some (hash_of s a)" "rentry q (id_text i) s a" "j = effective s"
      "j_id s = i" "job_uuid i < 2 ^ 128" "canonical s" by (rule redis_storedE [OF inv st])
  obtain m where m: "j_lease s = Some m" "l = m\<lparr>l_expires_at := 1000 * epoch_ms (l_expires_at m)\<rparr>"
    using l s(3) by (auto simp: map_option_case split: option.splits)
  note e = rentry_lease [OF s(2) m(1)]
  let ?q = "fst (redis_step ttl q op)"
  have keepI: "?thesis" if "dict_get (rq_jobs ?q) (id_text i) = dict_get (rq_jobs q) (id_text i)" "rq_ttl ?q (id_text i) = rq_ttl q (id_text i)"
    using redis_stored_hash [OF s(5,6), of ?q a] that s(1,3) m by simp
  show ?thesis
  proof (cases op)
    case (Q_Enqueue k)
    from inv show ?thesis
    proof (cases rule: redis_enqueue_cases [of q k])
      case refused
      then show ?thesis using Q_Enqueue by (intro keepI) simp_all
    next
      case queued
      have "id_text (j_id k) \<noteq> id_text i" using queued(2) s(1) e by metis
      then show ?thesis using Q_Enqueue by (intro keepI) (simp_all add: queued(1) redis_prims)
    qed
  next
    case (Q_Claim w types dur now tok)
    with ok have "0 < dur" "worker_uuid w < 2 ^ 128" "token_value tok \<noteq> []" by simp_all
    with inv show ?thesis
    proof (cases rule: redis_claim_cases [of q dur w tok types now])
      case (idle p)
      then show ?thesis using Q_Claim by (intro keepI) (simp_all add: pruned_def)
    next
      case (taken p r b)
      have "id_text (j_id r) \<noteq> id_text i"
      proof
        assume same: "id_text (j_id r) = id_text i"
        then have "hash_of r b = hash_of s a" using taken(2) s(1) by simp
        then have "job_status_value (j_status s) = job_status_value (j_status r)" by (metis hash_of_simps(2))
        then show False using taken(4) e by (cases "j_status s") simp_all
      qed
      then show ?thesis using Q_Claim by (intro keepI) (simp_all add: taken(1,8,10))
    qed
  next
    case (Q_Renew k tok dur now)
    with ok have "job_uuid k < 2 ^ 128" "token_value tok \<noteq> []" "renews_forward q k dur now" by simp_all
    with inv show ?thesis
    proof (cases rule: redis_renew_cases [of q k tok dur now])
      case lost
      then show ?thesis using Q_Renew by (intro keepI) simp_all
    next
      case (renewed r b n)
      show ?thesis
      proof (cases "k = i")
        case False
        then show ?thesis using Q_Renew renewed(6,7) s(5) id_text_inj [of i k] \<open>job_uuid k < 2 ^ 128\<close>
          by (intro keepI) (simp_all add: redis_prims)
      next
        case True
        let ?r = "r\<lparr>j_lease := Some (n\<lparr>l_expires_at := now + dur\<rparr>)\<rparr>"
        have eq: "r = s" using renewed(1,2) s(1,2) True canonical_hash [of r b] canonical_hash [of s a] by (auto simp: rentry_def)
        have "canonical ?r" using renewed(2,3,8) by (intro canonical_renewed) (auto simp: rentry_def)
        then have "redis_stored ?q i = Some (effective ?r)"
          using True Q_Renew renewed(7) by (intro redis_stored_hash [OF s(5), of _ _ b]) (simp_all add: redis_prims)
        moreover have "rq_ttl ?q = rq_ttl q" using True Q_Renew renewed(7) by (simp add: redis_prims)
        ultimately show ?thesis using eq renewed(3) m s(3) by simp
      qed
    qed
  next
    case (Q_Acknowledge k tok)
    with ok have k: "job_uuid k < 2 ^ 128" "token_value tok \<noteq> []" by simp_all
    show ?thesis
    proof (cases "k = i")
      case True
      then have "redis_acknowledge ttl q k tok = q"
        using keep Q_Acknowledge s(1,3,4) m by (intro redis_acknowledge_stale) (auto simp: lease_token.expand)
      then show ?thesis using Q_Acknowledge by (intro keepI) simp_all
    next
      case False
      then have ne: "id_text k \<noteq> id_text i" using id_text_inj k(1) s(5) by blast
      from inv k(2) have "dict_get (rq_jobs (redis_acknowledge ttl q k tok)) (id_text i) = dict_get (rq_jobs q) (id_text i)
          \<and> rq_ttl (redis_acknowledge ttl q k tok) (id_text i) = rq_ttl q (id_text i)"
      proof (cases rule: redis_held_cases [of q tok "id_text k"])
        case stale
        then show ?thesis by (simp add: redis_acknowledge_stale)
      next
        case (held r b n)
        then show ?thesis using ne by (simp add: redis_acknowledge_held [OF held(1,3,4)] redis_prims)
      qed
      then show ?thesis using Q_Acknowledge by (intro keepI) simp_all
    qed
  next
    case (Q_Release k tok b)
    with ok have k: "job_uuid k < 2 ^ 128" "token_value tok \<noteq> []" by simp_all
    show ?thesis
    proof (cases "k = i")
      case True
      then have "redis_release q k tok b = q"
        using keep Q_Release s(1,3,4) m by (intro redis_release_stale) (auto simp: lease_token.expand)
      then show ?thesis using Q_Release by (intro keepI) simp_all
    next
      case False
      then have ne: "id_text k \<noteq> id_text i" using id_text_inj k(1) s(5) by blast
      from inv k(2) have "dict_get (rq_jobs (redis_release q k tok b)) (id_text i) = dict_get (rq_jobs q) (id_text i)
          \<and> rq_ttl (redis_release q k tok b) (id_text i) = rq_ttl q (id_text i)"
      proof (cases rule: redis_held_cases [of q tok "id_text k"])
        case stale
        then show ?thesis by (simp add: redis_release_stale)
      next
        case (held r c n)
        then show ?thesis using ne by (simp add: redis_release_held [OF held(1,3,4)] redis_prims Let_def)
      qed
      then show ?thesis using Q_Release by (intro keepI) simp_all
    qed
  next
    case (Q_Reclaim now limit)
    have "0 \<le> now" using ok Q_Reclaim by simp
    have "id_text i \<notin> set (expired_members q now limit)"
    proof
      assume "id_text i \<in> set (expired_members q now limit)"
      from expired_members_expired [OF inv this] have "epoch_ms (l_expires_at m) \<le> epoch_ms now" using e by auto
      then have "l_expires_at l \<le> now" using epoch_ms_le [OF \<open>0 \<le> now\<close>] m(2) by simp
      with keep Q_Reclaim show False by simp
    qed
    then show ?thesis unfolding Q_Reclaim fst_redis_step
      using redis_reclaim_inv(2) [OF inv] Q_Reclaim
      by (intro keepI [unfolded Q_Reclaim fst_redis_step]) (simp_all add: redis_reclaim_expired_def case_prod_beta Let_def reclaim_each_ttl)
  next
    case (Q_Cancel_Run r)
    have "id_text i \<notin> set (rq_runs q (uuid_text (run_uuid r)))"
    proof
      assume "id_text i \<in> set (rq_runs q (uuid_text (run_uuid r)))"
      then have "uuid_text (run_uuid r) = uuid_text (run_uuid (j_run_id s))" using s(2) by (auto simp: rentry_def)
      moreover have "run_uuid (j_run_id s) < 2 ^ 128" using s(6) by (simp add: canonical_def redis_storable_def)
      ultimately have "r = j_run_id s"
        using ok Q_Cancel_Run uuid_text_inj by (cases r; cases "j_run_id s") simp
      with keep Q_Cancel_Run s(3) show False by simp
    qed
    then show ?thesis unfolding Q_Cancel_Run fst_redis_step
      using redis_cancel_inv(2) [OF inv]
      by (intro keepI [unfolded Q_Cancel_Run fst_redis_step]) (simp_all add: redis_cancel_run_jobs_def case_prod_beta Let_def cancel_each_ttl)
  qed
qed

lemma redis_lease_kept:
  assumes "redis_inv q" and "redis_allowed q op" and "redis_stored q i = Some j" and "j_lease j = Some l" and "\<not> ends_lease op j l"
  shows "\<exists>j' l'. redis_stored (fst (redis_step ttl q op)) i = Some j' \<and> j_lease j' = Some l'
           \<and> l_token l' = l_token l \<and> l_holder l' = l_holder l \<and> j_run_id j' = j_run_id j"
  using redis_lease_and_ttl_kept [OF assms] by blast

interpretation rq: job_queue "redis_step ttl" redis_stored redis_allowed redis_inv for ttl
proof unfold_locales
  show "redis_stored q i = Some j \<Longrightarrow> j_id j = i" if "redis_inv q" for q i j
    using that by (auto elim: redis_storedE)
qed (rule redis_step_inv redis_claim_unheld redis_lease_kept; assumption)+

section \<open>Acknowledged jobs\<close>

text \<open>No call touches the hash of an acknowledged job or its time to live.\<close>

lemma acked_untouched:
  assumes inv: "redis_inv q" and ok: "redis_allowed q op" and h: "dict_get (rq_jobs q) k = Some (hash_of j ''1'')"
    and r: "rentry q k j ''1''"
  shows "dict_get (rq_jobs (fst (redis_step ttl q op))) k = dict_get (rq_jobs q) k
    \<and> rq_ttl (fst (redis_step ttl q op)) k = rq_ttl q k"
proof -
  have j: "j_status j \<noteq> JOB_QUEUED" "dict_get (rq_leases q) k = None" "\<And>r. k \<notin> set (rq_runs q r)" "j_lease j = None"
    using r by (auto simp: rentry_def)
  have stale: "x \<noteq> k" if "dict_get (rq_jobs q) x = Some (hash_of s a)" "j_lease s = Some l" "token_value (l_token l) \<noteq> []" for x s a l
  proof
    assume "x = k"
    then have "hash_of s a = hash_of j ''1''" using that(1) h by simp
    then have "h_lease_token (hash_of j ''1'') = h_lease_token (hash_of s a)" by simp
    then show False using that(2,3) j(4) by simp
  qed
  show ?thesis
  proof (cases op)
    case (Q_Enqueue i)
    from inv show ?thesis
    proof (cases rule: redis_enqueue_cases [of q i])
      case queued
      have "id_text (j_id i) \<noteq> k" using queued(2) h by blast
      then show ?thesis using Q_Enqueue by (simp add: queued(1) redis_prims)
    qed (simp add: Q_Enqueue)
  next
    case (Q_Claim w types dur now tok)
    with ok have "0 < dur" "worker_uuid w < 2 ^ 128" "token_value tok \<noteq> []" by simp_all
    with inv show ?thesis
    proof (cases rule: redis_claim_cases [of q dur w tok types now])
      case (taken p s a)
      have "id_text (j_id s) \<noteq> k"
      proof
        assume "id_text (j_id s) = k"
        then have "hash_of s a = hash_of j ''1''" using taken(2) h by simp
        then have "job_status_value (j_status s) = job_status_value (j_status j)" by (metis hash_of_simps(2))
        then show False using taken(4) j(1) job_status_wire.value_inj by metis
      qed
      then show ?thesis using Q_Claim by (simp add: taken(1,8,10))
    qed (simp add: Q_Claim pruned_def)
  next
    case (Q_Renew i tok dur now)
    with ok have "job_uuid i < 2 ^ 128" "token_value tok \<noteq> []" "renews_forward q i dur now" by simp_all
    with inv show ?thesis
    proof (cases rule: redis_renew_cases [of q i tok dur now])
      case (renewed s a l)
      have "id_text i \<noteq> k" using stale [OF renewed(1,3)] renewed(4) ok Q_Renew by simp
      then show ?thesis using Q_Renew by (simp add: renewed(7) redis_prims)
    qed (simp add: Q_Renew)
  next
    case (Q_Acknowledge i tok)
    with ok have "token_value tok \<noteq> []" by simp
    with inv show ?thesis
    proof (cases rule: redis_held_cases [of q tok "id_text i"])
      case (held s a l)
      have "id_text i \<noteq> k" using stale [OF held(1,3)] held(4) ok Q_Acknowledge by simp
      then show ?thesis using Q_Acknowledge by (simp add: redis_acknowledge_held [OF held(1,3,4)] redis_prims)
    qed (simp add: Q_Acknowledge redis_acknowledge_stale)
  next
    case (Q_Release i tok b)
    with ok have "token_value tok \<noteq> []" by simp
    with inv show ?thesis
    proof (cases rule: redis_held_cases [of q tok "id_text i"])
      case (held s a l)
      have "id_text i \<noteq> k" using stale [OF held(1,3)] held(4) ok Q_Release by simp
      then show ?thesis using Q_Release by (simp add: redis_release_held [OF held(1,3,4)] redis_prims Let_def)
    qed (simp add: Q_Release redis_release_stale)
  next
    case (Q_Reclaim now limit)
    have "k \<notin> set (expired_members q now limit)" using expired_members_expired [OF inv, of k] j(2) by auto
    then show ?thesis unfolding Q_Reclaim fst_redis_step
      using redis_reclaim_inv(2) [OF inv] by (simp add: redis_reclaim_expired_def case_prod_beta Let_def reclaim_each_ttl)
  next
    case (Q_Cancel_Run rid)
    show ?thesis unfolding Q_Cancel_Run fst_redis_step
      using redis_cancel_inv(2) [OF inv] j(3) by (simp add: redis_cancel_run_jobs_def case_prod_beta Let_def cancel_each_ttl)
  qed
qed

text \<open>Histories: calls, and milliseconds passing between them.\<close>

datatype redis_event = Call queue_op | Elapse int

fun redis_history :: "int \<Rightarrow> redisq \<Rightarrow> redis_event list \<Rightarrow> redisq \<times> queue_reply list" where
  "redis_history ttl q [] = (q, [])"
| "redis_history ttl q (Call op # es) =
     (let (q1, r) = redis_step ttl q op; (q2, rs) = redis_history ttl q1 es in (q2, r # rs))"
| "redis_history ttl q (Elapse ms # es) = redis_history ttl (redis_elapse q ms) es"

fun history_allowed :: "int \<Rightarrow> redisq \<Rightarrow> redis_event list \<Rightarrow> bool" where
  "history_allowed ttl q [] \<longleftrightarrow> True"
| "history_allowed ttl q (Call op # es) \<longleftrightarrow> redis_allowed q op \<and> history_allowed ttl (fst (redis_step ttl q op)) es"
| "history_allowed ttl q (Elapse ms # es) \<longleftrightarrow> 0 \<le> ms \<and> history_allowed ttl (redis_elapse q ms) es"

fun elapsed :: "redis_event list \<Rightarrow> int" where
  "elapsed [] = 0"
| "elapsed (Call _ # es) = elapsed es"
| "elapsed (Elapse ms # es) = ms + elapsed es"

inductive redis_reachable :: "int \<Rightarrow> redisq \<Rightarrow> bool" for ttl where
  empty: "redis_reachable ttl redisq_empty"
| call: "redis_reachable ttl q \<Longrightarrow> redis_allowed q op \<Longrightarrow> redis_reachable ttl (fst (redis_step ttl q op))"
| elapse: "redis_reachable ttl q \<Longrightarrow> redis_reachable ttl (redis_elapse q ms)"

lemma redis_reachable_inv: "redis_reachable ttl q \<Longrightarrow> redis_inv q"
  by (induction rule: redis_reachable.induct) (simp_all add: redis_inv_empty redis_step_inv redis_elapse_inv)

lemma elapsed_nonneg: "history_allowed ttl q es \<Longrightarrow> 0 \<le> elapsed es"
  by (induction ttl q es rule: history_allowed.induct) simp_all

lemma acked_not_claimed:
  assumes inv: "redis_inv q" and ok: "redis_allowed q op" and h: "dict_get (rq_jobs q) k = Some (hash_of j ''1'')"
    and "snd (redis_step ttl q op) = R_Claimed c m"
  shows "id_text (j_id c) \<noteq> k"
proof
  assume same: "id_text (j_id c) = k"
  have step: "redis_step ttl q op = (fst (redis_step ttl q op), R_Claimed c m)"
    using assms(4) by (cases "redis_step ttl q op") simp
  obtain w types dur now tok where op: "op = Q_Claim w types dur now tok"
    using step by (cases op) (auto split: prod.splits sum.splits)
  with ok have "0 < dur" "worker_uuid w < 2 ^ 128" "token_value tok \<noteq> []" by simp_all
  with inv show False
  proof (cases rule: redis_claim_cases [of q dur w tok types now])
    case (idle p)
    then show False using step op by simp
  next
    case (taken p s a)
    have "c = leased_job s w dur now tok" using step op taken(1) by simp
    with same taken(2) h have "hash_of s a = hash_of j ''1''" by simp
    then have "job_status_value (j_status s) = job_status_value (j_status j)" by (metis hash_of_simps(2))
    moreover obtain j' a' where "hash_of j ''1'' = hash_of j' a'" "rentry q k j' a'" by (rule redis_invE [OF inv h])
    moreover from this(1) have "a' = ''1''" "job_status_value (j_status j) = job_status_value (j_status j')"
      by (metis hash_of_simps(1), metis hash_of_simps(2))
    ultimately show False using taken(4) job_status_wire.value_inj by (metis rentry_def)
  qed
qed

lemma acked_lasts:
  assumes "redis_inv q" and "history_allowed ttl q es" and "dict_get (rq_jobs q) k = Some (hash_of j ''1'')"
    and "rq_ttl q k = Some t" and "elapsed es < t" and "R_Claimed c m \<in> set (snd (redis_history ttl q es))"
  shows "id_text (j_id c) \<noteq> k"
  using assms
proof (induction ttl q es arbitrary: t rule: redis_history.induct)
  case (2 ttl q op es)
  let ?q = "fst (redis_step ttl q op)"
  have ok: "redis_allowed q op" "history_allowed ttl ?q es" using 2(3) by simp_all
  obtain j' a' where j': "hash_of j ''1'' = hash_of j' a'" "rentry q k j' a'" by (rule redis_invE [OF 2(2) 2(4)])
  then have "a' = ''1''" by (metis hash_of_simps(1))
  with acked_untouched [OF 2(2) ok(1), of k j' ttl] j' 2(4,5)
  have kept: "dict_get (rq_jobs ?q) k = Some (hash_of j ''1'')" "rq_ttl ?q k = Some t" by simp_all
  have "R_Claimed c m = snd (redis_step ttl q op) \<or> R_Claimed c m \<in> set (snd (redis_history ttl ?q es))"
    using 2(7) by (auto simp: case_prod_beta Let_def)
  then show ?case
  proof
    assume "R_Claimed c m = snd (redis_step ttl q op)"
    then show ?thesis using acked_not_claimed [OF 2(2) ok(1) 2(4), of ttl c m] by simp
  next
    assume "R_Claimed c m \<in> set (snd (redis_history ttl ?q es))"
    then show ?thesis
      using 2(1) [of "redis_step ttl q op" ?q "snd (redis_step ttl q op)"] redis_step_inv [OF 2(2) ok(1)] ok(2) kept 2(6) by simp
  qed
next
  case (3 ttl q ms es)
  have "\<not> ttl_over q ms k" using 3(3,5,6) elapsed_nonneg [of ttl "redis_elapse q ms" es] by (simp add: ttl_over_def)
  then have "dict_get (rq_jobs (redis_elapse q ms)) k = Some (hash_of j ''1'')" "rq_ttl (redis_elapse q ms) k = Some (t - ms)"
    using 3(4,5) by (simp add: redis_elapse_jobs, simp add: redis_elapse_def)
  then show ?case using 3(1) [OF redis_elapse_inv [OF 3(2)], of "t - ms"] 3(3,6,7) by simp
qed simp

section \<open>Properties\<close>

lemma hash_of_inj: "canonical s \<Longrightarrow> canonical j \<Longrightarrow> hash_of s a = hash_of j b \<Longrightarrow> s = j \<and> a = b"
  by (metis canonical_hash hash_of_simps(1) sum.inject(2))

abbreviation demo_redis :: redisq where
  "demo_redis \<equiv> redis_enqueue redisq_empty demo_job"

abbreviation demo_redis_claim :: queue_op where
  "demo_redis_claim \<equiv> Q_Claim (WorkerId 9) [PLAN, CODE] 1000000 10 demo_token"

abbreviation demo_redis_claimed :: redisq where
  "demo_redis_claimed \<equiv> fst (redis_step 1000 demo_redis demo_redis_claim)"

lemma demo_redis_publishable: "redis_publishable redisq_empty demo_job"
  by (simp add: redis_publishable_def redisq_empty_def redis_storable_def)

lemma demo_redis_reachable: "redis_reachable 1000 demo_redis"
  using redis_reachable.call [OF redis_reachable.empty, of "Q_Enqueue demo_job" 1000] demo_redis_publishable by simp

lemma demo_redis_claim_allowed: "redis_allowed demo_redis demo_redis_claim"
  by simp

lemma demo_redis_claimed_reachable: "redis_reachable 1000 demo_redis_claimed"
  by (rule redis_reachable.call [OF demo_redis_reachable demo_redis_claim_allowed])

lemma demo_redis_jobs: "rq_jobs demo_redis = [(id_text (JobId 1), hash_of (demo_job\<lparr>j_status := JOB_QUEUED\<rparr>) [])]"
  by (simp add: redis_enqueue_def redisq_empty_def redis_prims Let_def hash_queued redis_row_def)

lemma demo_redis_claim_step:
  "\<exists>j l. redis_step 1000 demo_redis demo_redis_claim = (demo_redis_claimed, R_Claimed j l) \<and> j_id j = JobId 1
     \<and> l_token l = demo_token"
proof -
  have sixty_four: "(64 :: nat) = Suc 63" by simp
  have "\<exists>q h. CLAIM 64 demo_redis [''PLAN'', ''CODE''] (WorkerId 9) 10 1000010 demo_token = (q, Some h)"
    unfolding sixty_four CLAIM.simps
    by (simp add: redis_enqueue_def redisq_empty_def redis_prims zset_first_def Let_def)
  then have some: "\<exists>q h. CLAIM 64 demo_redis (map job_type_value (fromkeys [PLAN, CODE])) (WorkerId 9) 10 (10 + 1000000) demo_token = (q, Some h)"
    by (simp add: fromkeys_def)
  have c: "canonical (demo_job\<lparr>j_status := JOB_QUEUED\<rparr>)"
    by (simp add: canonical_def redis_storable_def redis_row_def)
  show ?thesis
  proof (cases rule: redis_claim_cases [OF redis_reachable_inv [OF demo_redis_reachable],
        of 1000000 "WorkerId 9" demo_token "[PLAN, CODE]" 10])
    case (4 q)
    then show ?thesis using some by (auto simp: redis_claim_def fromkeys_def split: prod.splits option.splits sum.splits)
  next
    case (5 q s a)
    have "id_text (j_id s) = id_text (JobId 1)" "hash_of s a = hash_of (demo_job\<lparr>j_status := JOB_QUEUED\<rparr>) []"
      using 5(2) by (auto simp only: demo_redis_jobs map_of.simps fst_conv snd_conv fun_upd_apply option.distinct option.inject
          split: if_splits)
    then have s: "s = demo_job\<lparr>j_status := JOB_QUEUED\<rparr>" using hash_of_inj [OF 5(3) c] by blast
    let ?j = "leased_job s (WorkerId 9) 1000000 10 demo_token" and ?l = "granted (j_id s) (WorkerId 9) 1000000 10 demo_token"
    have "redis_step 1000 demo_redis demo_redis_claim = (q, R_Claimed ?j ?l)"
      by (simp only: redis_step.simps 5(1) prod.case sum.case option.case)
    moreover have "j_id ?j = JobId 1 \<and> l_token ?l = demo_token" unfolding s by (simp add: granted_def)
    ultimately show ?thesis by (metis fst_conv)
  qed simp_all
qed

lemma demo_redis_claimed_ttl: "rq_ttl demo_redis_claimed k = None"
proof -
  have "rq_ttl demo_redis = (\<lambda>_. None)" by (simp add: redis_enqueue_def redisq_empty_def redis_prims Let_def)
  moreover have "rq_ttl (fst (redis_claim demo_redis (WorkerId 9) [PLAN, CODE] 1000000 10 demo_token)) = rq_ttl demo_redis"
    by (cases rule: redis_claim_cases [OF redis_reachable_inv [OF demo_redis_reachable],
          of 1000000 "WorkerId 9" demo_token "[PLAN, CODE]" 10]) (simp_all add: pruned_def)
  ultimately show ?thesis unfolding fst_redis_step by simp
qed

text \<open>
  Histories in which nobody ends the lease of job \<open>i\<close>: neither the holder's acknowledgement or release, nor a sweep in or after the
  millisecond of the expiry, nor the cancellation of the run. Time may pass anywhere.
\<close>

fun lease_undisturbed :: "int \<Rightarrow> redisq \<Rightarrow> job_id \<Rightarrow> redis_event list \<Rightarrow> bool" where
  "lease_undisturbed ttl q i [] \<longleftrightarrow> True"
| "lease_undisturbed ttl q i (Call op # es) \<longleftrightarrow> redis_allowed q op
     \<and> (case redis_stored q i of
          None \<Rightarrow> True
        | Some j \<Rightarrow> (case j_lease j of None \<Rightarrow> True | Some l \<Rightarrow> \<not> ends_lease op j l))
     \<and> lease_undisturbed ttl (fst (redis_step ttl q op)) i es"
| "lease_undisturbed ttl q i (Elapse ms # es) \<longleftrightarrow> 0 \<le> ms \<and> lease_undisturbed ttl (redis_elapse q ms) i es"

text \<open>The record of the job has no time to live, or one that is longer than the history.\<close>

definition record_outlives :: "redisq \<Rightarrow> job_id \<Rightarrow> redis_event list \<Rightarrow> bool" where
  "record_outlives q i es \<longleftrightarrow> (case rq_ttl q (id_text i) of None \<Rightarrow> True | Some t \<Rightarrow> elapsed es < t)"

lemma undisturbed_elapsed: "lease_undisturbed ttl q i es \<Longrightarrow> 0 \<le> elapsed es"
  by (induction ttl q i es rule: lease_undisturbed.induct) simp_all

lemma lease_lasts_in_time:
  assumes "redis_inv q" and "redis_stored q i = Some j" and "j_lease j = Some l"
    and "lease_undisturbed ttl q i es" and "record_outlives q i es"
  shows "(\<forall>k m. R_Claimed k m \<in> set (snd (redis_history ttl q es)) \<longrightarrow> j_id k \<noteq> i)
    \<and> (\<exists>j' l'. redis_stored (fst (redis_history ttl q es)) i = Some j' \<and> j_lease j' = Some l'
          \<and> l_token l' = l_token l \<and> l_holder l' = l_holder l)"
  using assms
proof (induction ttl q es arbitrary: j l rule: redis_history.induct)
  case (2 ttl q op es)
  let ?q = "fst (redis_step ttl q op)"
  have ok: "redis_allowed q op" "\<not> ends_lease op j l" "lease_undisturbed ttl ?q i es" using 2(3-5) by simp_all
  obtain j' l' where j': "redis_stored ?q i = Some j'" "j_lease j' = Some l'" "l_token l' = l_token l" "l_holder l' = l_holder l"
      and kept: "rq_ttl ?q (id_text i) = rq_ttl q (id_text i)"
    using redis_lease_and_ttl_kept [OF 2(2) ok(1) 2(3,4) ok(2)] by blast
  have "record_outlives ?q i es" using 2(6) kept by (auto simp: record_outlives_def split: option.splits)
  note rest = 2(1) [OF refl prod.collapse redis_step_inv [OF 2(2) ok(1)] j'(1,2) ok(3) this]
  have now: "j_id k \<noteq> i" if "R_Claimed k m = snd (redis_step ttl q op)" for k m
  proof
    assume "j_id k = i"
    moreover have "redis_step ttl q op = (?q, R_Claimed k m)" using that by (cases "redis_step ttl q op") simp
    ultimately obtain s where "redis_stored q i = Some s" "j_lease s = None" using redis_claim_unheld [OF 2(2) ok(1)] by blast
    then show False using 2(3,4) by simp
  qed
  show ?case using rest now j' by (auto simp: case_prod_beta Let_def)
next
  case (3 ttl q ms es)
  have es: "0 \<le> ms" "lease_undisturbed ttl (redis_elapse q ms) i es" using 3(5) by simp_all
  have "\<not> ttl_over q ms (id_text i)" using 3(6) undisturbed_elapsed [OF es(2)]
    by (auto simp: record_outlives_def ttl_over_def split: option.splits)
  then have jobs: "dict_get (rq_jobs (redis_elapse q ms)) (id_text i) = dict_get (rq_jobs q) (id_text i)"
      and t: "rq_ttl (redis_elapse q ms) (id_text i) = map_option (\<lambda>t. t - ms) (rq_ttl q (id_text i))"
    by (simp add: redis_elapse_jobs, simp add: redis_elapse_def)
  have "redis_stored (redis_elapse q ms) i = redis_stored q i" unfolding redis_stored_def jobs ..
  with 3(3) have "redis_stored (redis_elapse q ms) i = Some j" by simp
  moreover have "record_outlives (redis_elapse q ms) i es" using 3(6) t by (auto simp: record_outlives_def split: option.splits)
  ultimately show ?case using 3(1) [OF redis_elapse_inv [OF 3(2)] _ 3(4) es(2)] by simp
qed auto

text \<open>
  C18. Mutual exclusion in Redis. In any state the Redis queue can reach, tombstones running out included, once a claim has handed a job
  to a consumer, no later claim hands out the same job, whatever calls are made and however much time passes between them, as long as none
  of the calls ends the lease (the holder's own acknowledgement or release, a sweep in or after the millisecond of the expiry, the
  cancellation of the run) and the record of the job does not run out of time: it has no time to live, or one that is not over. The lease
  keeps its token and holder meanwhile. A record has a time to live only when the job was published over that of a cancelled or dead one;
  the lemma after the witness shows that the lease is then lost with it.
\<close>

theorem redis_mutual_exclusion:
  assumes "redis_reachable ttl q" and "redis_allowed q op" and "redis_step ttl q op = (q', R_Claimed j l)"
    and "lease_undisturbed ttl q' (j_id j) es" and "record_outlives q' (j_id j) es"
  shows "(\<forall>k m. R_Claimed k m \<in> set (snd (redis_history ttl q' es)) \<longrightarrow> j_id k \<noteq> j_id j)
    \<and> (\<exists>j' l'. redis_stored (fst (redis_history ttl q' es)) (j_id j) = Some j' \<and> j_lease j' = Some l'
          \<and> l_token l' = l_token l \<and> l_holder l' = l_holder l)"
proof -
  note inv = redis_reachable_inv [OF assms(1)]
  obtain s m where s: "redis_stored q' (j_id j) = Some s" "j_lease s = Some m" "l_token m = l_token l" "l_holder m = l_holder l"
    using rq.claim_unheld [OF inv assms(2,3)] by blast
  have "redis_inv q'" using redis_step_inv [OF inv assms(2), of ttl] assms(3) by simp
  from lease_lasts_in_time [OF this s(1,2) assms(4,5)] s(3,4) show ?thesis by simp
qed

theorem redis_mutual_exclusion_witness:
  "\<exists>j' l'. redis_stored (fst (redis_history 1000 demo_redis_claimed
              [Elapse 5000, Call (Q_Acknowledge (JobId 1) (LeaseToken ''t0'')), Elapse 7])) (JobId 1) = Some j'
     \<and> j_lease j' = Some l' \<and> l_token l' = demo_token"
proof -
  obtain j l where c: "redis_step 1000 demo_redis demo_redis_claim = (demo_redis_claimed, R_Claimed j l)"
      "j_id j = JobId 1" "l_token l = demo_token"
    using demo_redis_claim_step by blast
  let ?q = "redis_elapse demo_redis_claimed 5000"
  have inv: "redis_inv demo_redis" by (rule redis_reachable_inv [OF demo_redis_reachable])
  obtain s m where s: "redis_stored demo_redis_claimed (JobId 1) = Some s" "j_lease s = Some m" "l_token m = demo_token"
    using rq.claim_unheld [OF inv demo_redis_claim_allowed c(1)] c(2,3) by auto
  have ttl: "rq_ttl demo_redis_claimed (id_text (JobId 1)) = None" by (rule demo_redis_claimed_ttl)
  then have "redis_stored ?q (JobId 1) = Some s"
    using s(1) by (simp add: redis_stored_def redis_elapse_jobs ttl_over_def del: redis_step.simps)
  then have "lease_undisturbed 1000 demo_redis_claimed (JobId 1) [Elapse 5000, Call (Q_Acknowledge (JobId 1) (LeaseToken ''t0'')), Elapse 7]"
    using s by (simp del: redis_step.simps)
  moreover have "record_outlives demo_redis_claimed (JobId 1) [Elapse 5000, Call (Q_Acknowledge (JobId 1) (LeaseToken ''t0'')), Elapse 7]"
    using ttl by (simp add: record_outlives_def del: redis_step.simps)
  ultimately show ?thesis
    using redis_mutual_exclusion [OF demo_redis_reachable demo_redis_claim_allowed c(1)] unfolding c(2,3) by blast
qed

text \<open>When the time to live of a record is over, the job and its lease are gone, whoever holds it, and it can be published and claimed anew.\<close>

lemma lease_lost_with_record:
  assumes "rq_ttl q (id_text i) = Some t" and "t \<le> ms"
  shows "redis_stored (redis_elapse q ms) i = None \<and> dict_get (rq_jobs (redis_elapse q ms)) (id_text i) = None
    \<and> dict_get (rq_jobs (redis_enqueue (redis_elapse q ms) (j\<lparr>j_id := i\<rparr>))) (id_text i) \<noteq> None"
  using assms by (simp add: redis_stored_def redis_elapse_jobs ttl_over_def redis_enqueue_def Let_def redis_prims)

text \<open>
  Finished work is not redone while its tombstone lasts. From the moment the holder has acknowledged a job, no history of
  calls, redelivered publications of that very job included, makes a claim hand it out again, as long as less time than
  the tombstone's time to live has passed in all. (The in-memory queue promises it without a limit.)
\<close>

theorem redis_acknowledged_is_final:
  assumes "redis_reachable ttl q" and "redis_stored q i = Some j" and "j_lease j = Some l" and "token_value (l_token l) \<noteq> []"
    and "history_allowed ttl (redis_acknowledge ttl q i (l_token l)) es" and "elapsed es < ttl"
  shows "\<forall>k m. R_Claimed k m \<in> set (snd (redis_history ttl (redis_acknowledge ttl q i (l_token l)) es)) \<longrightarrow> j_id k \<noteq> i"
proof (intro allI impI notI)
  fix k m assume c: "R_Claimed k m \<in> set (snd (redis_history ttl (redis_acknowledge ttl q i (l_token l)) es))" "j_id k = i"
  note inv = redis_reachable_inv [OF assms(1)]
  obtain s a where s: "dict_get (rq_jobs q) (id_text i) = Some (hash_of s a)" "j = effective s"
    using redis_storedE [OF inv assms(2)] by metis
  obtain n where n: "j_lease s = Some n" "l_token n = l_token l" using s(2) assms(3) by (auto simp: map_option_case split: option.splits)
  let ?q = "redis_acknowledge ttl q i (l_token l)"
  have "dict_get (rq_jobs ?q) (id_text i) = Some (hash_of (unleased s) ''1'')" "rq_ttl ?q (id_text i) = Some ttl"
    by (simp_all add: redis_acknowledge_held [OF s(1) n] redis_prims)
  from acked_lasts [OF redis_acknowledge_inv [OF inv assms(4)] assms(5) this assms(6) c(1)] c(2)
  show False by simp
qed

theorem redis_acknowledged_is_final_witness:
  "\<not> (\<exists>k m. R_Claimed k m \<in> set (snd (redis_history 1000 (redis_acknowledge 1000 demo_redis_claimed (JobId 1) demo_token)
          [Elapse 600, Call (Q_Reclaim 900000 10)])) \<and> j_id k = JobId 1)"
proof -
  obtain j l where c: "redis_step 1000 demo_redis demo_redis_claim = (demo_redis_claimed, R_Claimed j l)"
      "j_id j = JobId 1" "l_token l = demo_token"
    using demo_redis_claim_step by blast
  have inv: "redis_inv demo_redis" by (rule redis_reachable_inv [OF demo_redis_reachable])
  obtain s m where s: "redis_stored demo_redis_claimed (JobId 1) = Some s" "j_lease s = Some m" "l_token m = demo_token"
    using rq.claim_unheld [OF inv demo_redis_claim_allowed c(1)] c(2,3) by auto
  show ?thesis
    using redis_acknowledged_is_final [OF demo_redis_claimed_reachable s(1,2), of "[Elapse 600, Call (Q_Reclaim 900000 10)]"] s(3)
    by (simp del: redis_step.simps redis_history.simps) blast
qed

text \<open>
  A republished record keeps the time to live of its tombstone: \<open>HSET\<close> does not clear it. When a job whose hash is
  due to expire (it was cancelled or declared dead) is published again, the publication is accepted and the job is
  queued, but the hash still disappears when that time is over, and with it the job: its ready entry points to nothing.
\<close>

theorem redis_republished_record_expires:
  assumes "redis_reachable ttl q" and "redis_publishable q j" and "rq_ttl q (id_text (j_id j)) = Some t" and "t \<le> ms"
    and "dict_get (rq_jobs q) (id_text (j_id j)) = Some (hash_of s [])" and "\<not> is_in_flight (j_status s)"
  shows "(\<exists>c. redis_stored (redis_enqueue q j) (j_id j) = Some c \<and> j_status c = JOB_QUEUED)
    \<and> redis_stored (redis_elapse (redis_enqueue q j) ms) (j_id j) = None
    \<and> dict_get (rq_ready (redis_elapse (redis_enqueue q j) ms) (job_type_value (j_type j))) (id_text (j_id j)) = Some (job_score j)"
proof -
  have st: "redis_storable j" using assms(2) by (simp add: redis_publishable_def)
  then have id: "job_uuid (j_id j) < 2 ^ 128" by (simp add: redis_storable_def)
  have c: "canonical (redis_row j\<lparr>j_status := JOB_QUEUED\<rparr>)" by (intro canonical_updates(2) canonical_row st)
  have eq: "redis_enqueue q j = sadd_run (uuid_text (run_uuid (j_run_id j))) (id_text (j_id j))
          (zadd_ready (job_type_value (j_type j)) (id_text (j_id j)) (job_score j)
            (hset (id_text (j_id j)) (hash_of (redis_row j\<lparr>j_status := JOB_QUEUED\<rparr>) []) q))"
  proof (cases rule: redis_enqueue_cases [OF redis_reachable_inv [OF assms(1)], of j])
    case (1 s' a)
    then have "hash_of s' a = hash_of s []" using assms(5) by simp
    then have "a = []" "job_status_value (j_status s') = job_status_value (j_status s)"
      by (metis hash_of_simps(1), metis hash_of_simps(2))
    with 1(2) assms(6) job_status_wire.value_inj show ?thesis by fastforce
  qed
  have "\<exists>c. redis_stored (redis_enqueue q j) (j_id j) = Some c \<and> j_status c = JOB_QUEUED"
    using redis_stored_hash [OF id c, of "redis_enqueue q j" "[]"] by (simp add: eq redis_prims)
  moreover have "ttl_over (redis_enqueue q j) ms (id_text (j_id j))"
    using assms(3,4) by (simp add: eq redis_prims ttl_over_def)
  then have "redis_stored (redis_elapse (redis_enqueue q j) ms) (j_id j) = None"
    by (simp add: redis_stored_def redis_elapse_jobs)
  moreover have "dict_get (rq_ready (redis_elapse (redis_enqueue q j) ms) (job_type_value (j_type j))) (id_text (j_id j)) = Some (job_score j)"
    by (simp add: eq redis_prims redis_elapse_def)
  ultimately show ?thesis by blast
qed

abbreviation demo_redis_cancelled :: redisq where
  "demo_redis_cancelled \<equiv> fst (redis_step 1000 demo_redis (Q_Cancel_Run (RunId 2)))"

theorem redis_republished_record_expires_witness:
  "(\<exists>c. redis_stored (redis_enqueue demo_redis_cancelled demo_job) (JobId 1) = Some c \<and> j_status c = JOB_QUEUED)
   \<and> redis_stored (redis_elapse (redis_enqueue demo_redis_cancelled demo_job) 1000) (JobId 1) = None"
proof -
  let ?k = "id_text (JobId 1)" and ?j = "demo_job\<lparr>j_status := JOB_QUEUED\<rparr>"
  have runs: "rq_runs demo_redis = (\<lambda>_. [])(uuid_text 2 := [?k])" "rq_ready demo_redis = (\<lambda>_. [])(''CODE'' := [(?k, job_score demo_job)])"
    by (simp_all add: redis_enqueue_def redisq_empty_def redis_prims Let_def hash_queued redis_row_def)
  have r: "redis_reachable 1000 demo_redis_cancelled" by (rule redis_reachable.call [OF demo_redis_reachable]) simp
  have one: "cancel_one 1000 (uuid_text 2) demo_redis ?k =
      (pexpire ?k 1000 (hset ?k (hash_of (stopped_job ?j) []) (zrem_lease ?k (zrem_ready ''CODE'' ?k demo_redis))), True)"
    using demo_redis_jobs by (simp add: cancel_one_def hash_updates del: One_nat_def)
  have q: "demo_redis_cancelled = pexpire ?k 1000 (hset ?k (hash_of (stopped_job ?j) []) (zrem_lease ?k (zrem_ready ''CODE'' ?k demo_redis)))"
    unfolding fst_redis_step redis_cancel_run_jobs_def run_id.sel by (simp only: Let_def runs fun_upd_same cancel_each.simps one prod.case fst_conv)
  have "redis_publishable demo_redis_cancelled demo_job"
    unfolding q by (auto simp: redis_publishable_def redis_prims runs redis_storable_def simp del: One_nat_def split: if_splits)
  moreover have "rq_ttl demo_redis_cancelled ?k = Some 1000" "dict_get (rq_jobs demo_redis_cancelled) ?k = Some (hash_of (stopped_job ?j) [])"
    unfolding q by (simp_all add: redis_prims)
  ultimately show ?thesis
    using redis_republished_record_expires [OF r, of demo_job 1000 1000 "stopped_job ?j"] by (simp del: redis_step.simps)
qed

end
