(* ===== verification/Redis_Registry.thy ===== *)
theory Redis_Registry
  imports Registry Redis_Queue
begin

text \<open>
  The worker registry on Redis (\<open>src/src/infrastructure/redis/worker_registry.py\<close>) over the script \<open>WORKER_UPDATE\<close>, and the
  distributed lock (\<open>src/src/infrastructure/redis/lock.py\<close>) over \<open>LOCK_RELEASE\<close> and \<open>LOCK_EXTEND\<close>. A command, a script and a
  transactional pipeline are one step each; an operation that reads and then writes is the composition of two steps, so
  that what other clients do in between can be put between them. The expiry of keys is a step of its own.
\<close>

section \<open>The keys of the registry\<close>

record redis_workers =
  rw_records :: "(string, worker_hash) dict"
  rw_ttl :: "string \<Rightarrow> int option"
  rw_index :: "string list"

definition redis_workers_empty :: redis_workers where
  "redis_workers_empty = \<lparr>rw_records = [], rw_ttl = (\<lambda>_. None), rw_index = []\<rparr>"

abbreviation worker_text :: "worker_id \<Rightarrow> string" where
  "worker_text i \<equiv> uuid_text (worker_uuid i)"

definition DEFAULT_RETENTION_FACTOR :: int where
  "DEFAULT_RETENTION_FACTOR = 10"

definition mk_retention_factor :: "int \<Rightarrow> error + int" where
  "mk_retention_factor n = (if n < 1 then Inl (ValueError ''retention_factor must be at least 1'') else Inr n)"

definition milliseconds :: "duration \<Rightarrow> int" where
  "milliseconds d = max (whole_ms d) 1"

definition retention_ms :: "int \<Rightarrow> duration \<Rightarrow> int" where
  "retention_ms factor ttl = milliseconds ttl * factor"

definition KEEP_TTL :: int where
  "KEEP_TTL = -1"

definition srem :: "string \<Rightarrow> redis_workers \<Rightarrow> redis_workers" where
  "srem k g = g\<lparr>rw_index := filter (\<lambda>x. x \<noteq> k) (rw_index g)\<rparr>"

text \<open>\<open>WORKER_UPDATE\<close>; the fields to write are given as the change they make to the record.\<close>

definition WORKER_UPDATE :: "redis_workers \<Rightarrow> string \<Rightarrow> int \<Rightarrow> (worker_hash \<Rightarrow> worker_hash) \<Rightarrow> redis_workers \<times> bool" where
  "WORKER_UPDATE g key ttl upd =
     (case dict_get (rw_records g) key of
        None \<Rightarrow> (g, False)
      | Some h \<Rightarrow>
          (g\<lparr>rw_records := dict_set key (upd h) (rw_records g),
             rw_ttl := (if 0 < ttl then (rw_ttl g)(key := Some ttl) else rw_ttl g)\<rparr>, True))"

text \<open>Time passing on the server.\<close>

definition record_over :: "redis_workers \<Rightarrow> int \<Rightarrow> string \<Rightarrow> bool" where
  "record_over g ms k \<longleftrightarrow> (case rw_ttl g k of None \<Rightarrow> False | Some ttl \<Rightarrow> ttl \<le> ms)"

definition rreg_elapse :: "redis_workers \<Rightarrow> int \<Rightarrow> redis_workers" where
  "rreg_elapse g ms =
     g\<lparr>rw_records := filter (\<lambda>(k, h). \<not> record_over g ms k) (rw_records g),
       rw_ttl := (\<lambda>k. if record_over g ms k then None else map_option (\<lambda>ttl. ttl - ms) (rw_ttl g k))\<rparr>"

section \<open>Operations\<close>

definition rreg_register :: "int \<Rightarrow> redis_workers \<Rightarrow> worker \<Rightarrow> duration \<Rightarrow> redis_workers" where
  "rreg_register factor g w ttl =
     (let key = worker_text (w_id w) in
      g\<lparr>rw_records := dict_set key (worker_to_mapping w) (rw_records g),
        rw_ttl := (rw_ttl g)(key := Some (retention_ms factor ttl)),
        rw_index := List.insert key (rw_index g)\<rparr>)"

text \<open>\<open>heartbeat\<close>: what was read, and what is done with it.\<close>

definition heartbeat_fields :: "worker \<Rightarrow> worker_hash \<Rightarrow> worker_hash" where
  "heartbeat_fields w h =
     h\<lparr>wh_status := worker_status_value (w_status w), wh_last_heartbeat_at := Some (w_last_heartbeat_at w),
       wh_active_jobs := active_jobs (w_load w), wh_queued_jobs := queued_jobs (w_load w)\<rparr>"

definition rreg_heartbeat_write ::
  "int \<Rightarrow> worker_hash option \<Rightarrow> redis_workers \<Rightarrow> worker_id \<Rightarrow> worker_load \<Rightarrow> moment \<Rightarrow> duration \<Rightarrow> (redis_workers, bool) result"
where
  "rreg_heartbeat_write factor raw g wid load t ttl =
     (case raw of
        None \<Rightarrow> (srem (worker_text wid) g, Inr False)
      | Some h \<Rightarrow>
          (case worker_from_mapping h of
             Inl e \<Rightarrow> (g, Inl e)
           | Inr w \<Rightarrow>
               let (g', written) = WORKER_UPDATE g (worker_text wid) (retention_ms factor ttl)
                     (heartbeat_fields (worker_heartbeat w t None (Some load) None))
               in (g', Inr written)))"

definition rreg_heartbeat ::
  "int \<Rightarrow> redis_workers \<Rightarrow> worker_id \<Rightarrow> worker_load \<Rightarrow> moment \<Rightarrow> duration \<Rightarrow> (redis_workers, bool) result"
where
  "rreg_heartbeat factor g wid load t ttl =
     rreg_heartbeat_write factor (dict_get (rw_records g) (worker_text wid)) g wid load t ttl"

definition rreg_update :: "redis_workers \<Rightarrow> worker \<Rightarrow> redis_workers" where
  "rreg_update g w = fst (WORKER_UPDATE g (worker_text (w_id w)) KEEP_TTL (\<lambda>_. worker_to_mapping w))"

definition rreg_deregister :: "redis_workers \<Rightarrow> worker_id \<Rightarrow> redis_workers" where
  "rreg_deregister g wid =
     srem (worker_text wid) (g\<lparr>rw_records := dict_pop (worker_text wid) (rw_records g), rw_ttl := (rw_ttl g)(worker_text wid := None)\<rparr>)"

definition rreg_get :: "redis_workers \<Rightarrow> worker_id \<Rightarrow> error + worker option" where
  "rreg_get g wid =
     (case dict_get (rw_records g) (worker_text wid) of
        None \<Rightarrow> Inr None
      | Some h \<Rightarrow> map_sum id Some (worker_from_mapping h))"

text \<open>\<open>list_all\<close>: the index and the records as read, the workers they hold, and the healing of the index.\<close>

definition list_read :: "redis_workers \<Rightarrow> (string \<times> worker_hash option) list" where
  "list_read g = map (\<lambda>k. (k, dict_get (rw_records g) k)) (sort (rw_index g))"

definition list_workers :: "(string \<times> worker_hash option) list \<Rightarrow> error + worker list" where
  "list_workers reads = traverse worker_from_mapping (List.map_filter snd reads)"

definition list_heal :: "(string \<times> worker_hash option) list \<Rightarrow> redis_workers \<Rightarrow> redis_workers" where
  "list_heal reads g = fold srem (map fst (filter (\<lambda>(k, h). h = None) reads)) g"

definition rreg_list_all :: "redis_workers \<Rightarrow> (redis_workers, worker list) result" where
  "rreg_list_all g =
     (let reads = list_read g in
      case list_workers reads of Inl e \<Rightarrow> (g, Inl e) | Inr ws \<Rightarrow> (list_heal reads g, Inr ws))"

definition may_receive :: "worker \<Rightarrow> bool" where
  "may_receive w \<longleftrightarrow> accepts_new_jobs (w_status w) \<and> 0 < available_slots w"

definition rreg_list_available :: "redis_workers \<Rightarrow> (redis_workers, worker list) result" where
  "rreg_list_available g =
     (case rreg_list_all g of
        (g', Inl e) \<Rightarrow> (g', Inl e)
      | (g', Inr ws) \<Rightarrow> (g', Inr (filter may_receive ws)))"

text \<open>The loop of \<open>reap_stale\<close> over the workers as they were read; a worker whose record is gone is not reported.\<close>

fun rreg_reap_loop :: "moment \<Rightarrow> duration \<Rightarrow> worker list \<Rightarrow> redis_workers \<Rightarrow> redis_workers \<times> worker list" where
  "rreg_reap_loop now timeout [] g = (g, [])"
| "rreg_reap_loop now timeout (w # ws) g =
     (if \<not> stale_live now timeout w then rreg_reap_loop now timeout ws g
      else
        let reaped = worker_mark_unavailable w now ''heartbeat timeout'';
            (g', written) = WORKER_UPDATE g (worker_text (w_id reaped)) KEEP_TTL
                (\<lambda>h. h\<lparr>wh_status := worker_status_value (w_status reaped)\<rparr>);
            (g'', rest) = rreg_reap_loop now timeout ws g'
        in (g'', if written then reaped # rest else rest))"

definition rreg_reap_stale :: "redis_workers \<Rightarrow> moment \<Rightarrow> duration \<Rightarrow> (redis_workers, worker list) result" where
  "rreg_reap_stale g now timeout =
     (case rreg_list_all g of
        (g1, Inl e) \<Rightarrow> (g1, Inl e)
      | (g1, Inr ws) \<Rightarrow> (let (g2, reaped) = rreg_reap_loop now timeout ws g1 in (g2, Inr reaped)))"

section \<open>Invariant\<close>

text \<open>
  Every record is the image of a worker under its own key, and its key is in the index. The index may hold keys whose
  record has expired.
\<close>

definition rreg_entry :: "string \<Rightarrow> worker_hash \<Rightarrow> worker \<Rightarrow> bool" where
  "rreg_entry k h w \<longleftrightarrow> h = worker_to_mapping w \<and> k = worker_text (w_id w) \<and> redis_storable_worker w \<and> redis_worker_row w = w"

definition rreg_inv :: "redis_workers \<Rightarrow> bool" where
  "rreg_inv g \<longleftrightarrow> dict_wf (rw_records g) \<and> distinct (rw_index g)
     \<and> (\<forall>k h. dict_get (rw_records g) k = Some h \<longrightarrow> k \<in> set (rw_index g) \<and> (\<exists>w. rreg_entry k h w))"

lemma sorted_roles_sorted [simp]: "sorted_roles (sorted_roles rs) = sorted_roles rs"
  by (simp add: sorted_roles_def)

lemma set_sorted_roles [simp]: "set (sorted_roles rs) = set rs"
proof (rule set_eqI)
  fix r
  show "r \<in> set (sorted_roles rs) \<longleftrightarrow> r \<in> set rs" by (cases r) (auto simp: sorted_roles_def)
qed

lemma redis_row_simps [simp]:
  "w_id (redis_worker_row w) = w_id w" "w_status (redis_worker_row w) = w_status w" "w_load (redis_worker_row w) = w_load w"
  "w_endpoint (redis_worker_row w) = w_endpoint w" "w_events (redis_worker_row w) = []"
  "w_last_heartbeat_at (redis_worker_row w) = w_last_heartbeat_at w"
  "w_registered_at (redis_worker_row w) = w_registered_at w"
  "available_slots (redis_worker_row w) = available_slots w"
  "redis_worker_row (redis_worker_row w) = redis_worker_row w"
  by (simp_all add: redis_worker_row_def available_slots_def dumped_dumped)

lemma dumped_nested: "dumped (xs @ [(k, JObj (dumped m))]) = dumped (xs @ [(k, JObj m)])"
proof -
  have "sort_keys (JObj (dumped m)) = sort_keys (JObj m)"
    using sort_keys_idem [of "JObj m"] by (simp add: dumped_def)
  then show ?thesis unfolding dumped_def [of "xs @ _"] by (simp only: map_append list.map split)
qed

lemma redis_row_mapping [simp]: "worker_to_mapping (redis_worker_row w) = worker_to_mapping w"
  using dumped_nested [of "[_, _, _, _, _, _, _]"]
  by (simp add: worker_to_mapping_def redis_worker_row_def capabilities_to_json_def dumped_dumped)

lemma redis_row_storable [simp]: "redis_storable_worker (redis_worker_row w) = redis_storable_worker w"
proof -
  have "sorted_roles rs = [] \<longleftrightarrow> rs = []" for rs using set_sorted_roles [of rs] by (metis set_empty)
  then show ?thesis
    by (simp add: redis_storable_worker_def wf_worker_def redis_worker_row_def wf_capabilities_def available_slots_def)
qed

lemma worker_text_inj:
  "worker_uuid i < 2 ^ 128 \<Longrightarrow> worker_uuid j < 2 ^ 128 \<Longrightarrow> worker_text i = worker_text j \<longleftrightarrow> i = j"
  using uuid_text_inj [of "worker_uuid i" "worker_uuid j"] by (cases i; cases j) simp

text \<open>The registry as a map from identifiers; an identifier is a UUID.\<close>

definition rreg_worker :: "redis_workers \<Rightarrow> worker_id \<Rightarrow> worker option" where
  "rreg_worker g i = (if worker_uuid i < 2 ^ 128 then (case rreg_get g i of Inl _ \<Rightarrow> None | Inr r \<Rightarrow> r) else None)"

definition rreg_available :: "redis_workers \<Rightarrow> worker list" where
  "rreg_available g = (case snd (rreg_list_available g) of Inl _ \<Rightarrow> [] | Inr ws \<Rightarrow> ws)"

lemma rreg_entryD:
  assumes "rreg_entry k h w"
  shows "worker_from_mapping h = Inr w" "worker_uuid (w_id w) < 2 ^ 128" "k = worker_text (w_id w)" "wf_worker w"
    "redis_storable_worker w" "redis_worker_row w = w"
  using assms worker_mapping_roundtrip [of w] by (simp_all add: rreg_entry_def redis_storable_worker_def)

lemma rreg_invE:
  assumes "rreg_inv g" and "dict_get (rw_records g) k = Some h"
  obtains w where "rreg_entry k h w" and "k \<in> set (rw_index g)" and "worker_from_mapping h = Inr w" and "worker_uuid (w_id w) < 2 ^ 128"
  using assms rreg_entryD that unfolding rreg_inv_def by metis

text \<open>Under the invariant a read never raises, and finds exactly the record of the identifier.\<close>

lemma rreg_worker_iff:
  assumes "rreg_inv g"
  shows "rreg_worker g i = Some w \<longleftrightarrow> w_id w = i \<and> (\<exists>h. dict_get (rw_records g) (worker_text i) = Some h \<and> rreg_entry (worker_text i) h w)"
proof
  assume "rreg_worker g i = Some w"
  then have i: "worker_uuid i < 2 ^ 128" and "rreg_get g i = Inr (Some w)"
    by (auto simp: rreg_worker_def split: if_splits sum.splits)
  then obtain h where h: "dict_get (rw_records g) (worker_text i) = Some h" and w: "worker_from_mapping h = Inr w"
    by (auto simp: rreg_get_def map_sum_def split: option.splits sum.splits)
  obtain v where v: "rreg_entry (worker_text i) h v" "worker_from_mapping h = Inr v" "worker_uuid (w_id v) < 2 ^ 128"
    by (rule rreg_invE [OF assms h]) blast
  then have "w_id v = i" using worker_text_inj [OF i v(3)] by (simp add: rreg_entry_def)
  then show "w_id w = i \<and> (\<exists>h. dict_get (rw_records g) (worker_text i) = Some h \<and> rreg_entry (worker_text i) h w)"
    using v(1,2) w h by simp
next
  assume "w_id w = i \<and> (\<exists>h. dict_get (rw_records g) (worker_text i) = Some h \<and> rreg_entry (worker_text i) h w)"
  then obtain h where h: "dict_get (rw_records g) (worker_text i) = Some h" "rreg_entry (worker_text i) h w" "w_id w = i" by blast
  show "rreg_worker g i = Some w"
    using h(1,3) rreg_entryD(1,2) [OF h(2)] by (simp add: rreg_worker_def rreg_get_def del: map_of_eq_Some_iff)
qed

lemma rreg_worker_None:
  assumes "rreg_inv g" and "worker_uuid i < 2 ^ 128"
  shows "rreg_worker g i = None \<longleftrightarrow> dict_get (rw_records g) (worker_text i) = None"
proof (cases "dict_get (rw_records g) (worker_text i)")
  case None
  then show ?thesis by (simp add: rreg_worker_def rreg_get_def)
next
  case (Some h)
  obtain w where "rreg_entry (worker_text i) h w" "worker_uuid (w_id w) < 2 ^ 128" by (rule rreg_invE [OF assms(1) Some]) blast
  moreover have "w_id w = i"
    using calculation worker_text_inj [OF assms(2), of "w_id w"] unfolding rreg_entry_def by metis
  ultimately have "rreg_worker g i = Some w" using rreg_worker_iff [OF assms(1), of i w] Some by blast
  then show ?thesis using Some by simp
qed

text \<open>Steps that rewrite one record, or none, keep the invariant.\<close>

lemma rreg_inv_update:
  assumes "rreg_inv g" and "\<And>h. dict_get (rw_records g) k = Some h \<Longrightarrow> \<exists>w. rreg_entry k (upd h) w"
  shows "rreg_inv (fst (WORKER_UPDATE g k ttl upd))"
  using assms by (auto simp: rreg_inv_def WORKER_UPDATE_def simp del: map_of_eq_Some_iff split: option.splits if_splits)

lemma rreg_update_inv: "rreg_inv g \<Longrightarrow> redis_storable_worker w \<Longrightarrow> rreg_inv (rreg_update g w)"
  unfolding rreg_update_def by (rule rreg_inv_update) (auto simp: rreg_entry_def intro!: exI [of _ "redis_worker_row w"])

lemma rreg_register_inv: "rreg_inv g \<Longrightarrow> redis_storable_worker w \<Longrightarrow> rreg_inv (rreg_register factor g w ttl)"
  by (auto simp: rreg_inv_def rreg_register_def Let_def rreg_entry_def simp del: map_of_eq_Some_iff
      intro!: exI [of _ "redis_worker_row w"] split: if_splits)

lemma rreg_deregister_inv: "rreg_inv g \<Longrightarrow> rreg_inv (rreg_deregister g wid)"
  by (auto simp: rreg_inv_def rreg_deregister_def srem_def simp del: map_of_eq_Some_iff split: if_splits)

lemma rreg_elapse_records:
  "dict_get (rw_records (rreg_elapse g ms)) k = (if record_over g ms k then None else dict_get (rw_records g) k)"
proof -
  have "dict_get (filter (\<lambda>(k, h). \<not> P k) d) k = (if P k then None else dict_get d k)" for d :: "(string, worker_hash) dict" and P k
    by (induction d) auto
  then show ?thesis by (simp add: rreg_elapse_def)
qed

lemma rreg_elapse_inv:
  assumes "rreg_inv g" shows "rreg_inv (rreg_elapse g ms)"
proof -
  have "dict_wf (rw_records (rreg_elapse g ms))"
    using assms by (auto simp: rreg_inv_def rreg_elapse_def intro: distinct_map_filter)
  moreover have "rw_index (rreg_elapse g ms) = rw_index g" by (simp add: rreg_elapse_def)
  ultimately show ?thesis using assms rreg_elapse_records [of g ms] by (auto simp: rreg_inv_def simp del: map_of_eq_Some_iff split: if_splits)
qed

section \<open>Listing\<close>

lemma traverse_all: "(\<And>x. x \<in> set xs \<Longrightarrow> f x = Inr (r x)) \<Longrightarrow> traverse f xs = Inr (map r xs)"
  by (induction xs) simp_all

lemma list_heal_simps [simp]:
  "rw_records (list_heal reads g) = rw_records g" "rw_ttl (list_heal reads g) = rw_ttl g"
proof -
  have "rw_records (fold srem ks g) = rw_records g" "rw_ttl (fold srem ks g) = rw_ttl g" for ks
    by (induction ks arbitrary: g) (simp_all add: srem_def)
  then show "rw_records (list_heal reads g) = rw_records g" "rw_ttl (list_heal reads g) = rw_ttl g"
    by (simp_all add: list_heal_def)
qed

lemma list_heal_index: "rw_index (list_heal reads g) = filter (\<lambda>k. (k, None) \<notin> set reads) (rw_index g)"
proof -
  have "rw_index (fold srem ks g) = filter (\<lambda>k. k \<notin> set ks) (rw_index g)" for ks
    by (induction ks arbitrary: g) (auto simp: srem_def filter_filter intro!: filter_cong)
  then show ?thesis by (force simp: list_heal_def intro!: filter_cong)
qed

lemma list_heal_inv: "rreg_inv g \<Longrightarrow> rreg_inv (list_heal (list_read g) g)"
  by (auto simp: rreg_inv_def list_heal_index list_read_def simp del: map_of_eq_Some_iff)

lemma rreg_same_records: "rw_records g = rw_records g' \<Longrightarrow> rreg_worker g i = rreg_worker g' i"
  by (simp add: rreg_worker_def rreg_get_def)

text \<open>
  The list of all workers is the workers the registry holds, each once, in the order of their keys; the healing of the index that goes
  with it changes no record.
\<close>

lemma rreg_list_all_eq:
  assumes "rreg_inv g"
  obtains ws where "rreg_list_all g = (list_heal (list_read g) g, Inr ws)"
    and "set ws = {w. rreg_worker g (w_id w) = Some w}" and "distinct (map w_id ws)"
proof -
  let ?hs = "List.map_filter snd (list_read g)"
  let ?ks = "filter (\<lambda>k. dict_get (rw_records g) k \<noteq> None) (sort (rw_index g))"
  let ?w = "\<lambda>h. projr (worker_from_mapping h)"
  have hs: "?hs = map (\<lambda>k. the (dict_get (rw_records g) k)) ?ks"
    by (simp add: List.map_filter_def list_read_def filter_map o_def del: not_None_eq)
  have key: "\<exists>h w. dict_get (rw_records g) k = Some h \<and> rreg_entry k h w \<and> ?w h = w \<and> worker_from_mapping h = Inr w" if "k \<in> set ?ks" for k
  proof -
    have "dict_get (rw_records g) k \<noteq> None" using that by simp
    then obtain h where h: "dict_get (rw_records g) k = Some h" by blast
    obtain w where "rreg_entry k h w" by (rule rreg_invE [OF assms h])
    then show ?thesis using h rreg_entryD(1) by fastforce
  qed
  define ws where "ws = map (\<lambda>k. ?w (the (dict_get (rw_records g) k))) ?ks"
  have "traverse worker_from_mapping ?hs = Inr (map ?w ?hs)"
  proof (rule traverse_all)
    fix h assume "h \<in> set ?hs"
    then obtain k where "k \<in> set ?ks" "h = the (dict_get (rw_records g) k)" unfolding hs by auto
    then show "worker_from_mapping h = Inr (?w h)" using key by force
  qed
  then have list: "list_workers (list_read g) = Inr ws" by (simp add: list_workers_def hs ws_def o_def)
  have texts: "map (\<lambda>w. worker_text (w_id w)) ws = ?ks"
    unfolding ws_def map_map o_def
  proof (rule map_idI)
    fix k assume "k \<in> set ?ks"
    then obtain h w where "dict_get (rw_records g) k = Some h" "rreg_entry k h w" "?w h = w" using key by blast
    then show "worker_text (w_id (?w (the (dict_get (rw_records g) k)))) = k" using rreg_entryD(3) by fastforce
  qed
  have "distinct (map (\<lambda>w. worker_text (w_id w)) ws)" unfolding texts using assms by (simp add: rreg_inv_def)
  then have ids: "distinct (map w_id ws)" by (induction ws) auto
  have "set ws = {w. rreg_worker g (w_id w) = Some w}"
  proof (intro set_eqI iffI)
    fix w assume "w \<in> set ws"
    then obtain k where "k \<in> set ?ks" "w = ?w (the (dict_get (rw_records g) k))" unfolding ws_def by auto
    then obtain h where h: "dict_get (rw_records g) k = Some h" "rreg_entry k h w" using key by fastforce
    then have "rreg_worker g (w_id w) = Some w"
      unfolding rreg_worker_iff [OF assms] using rreg_entryD(3) [OF h(2)] by blast
    then show "w \<in> {w. rreg_worker g (w_id w) = Some w}" by simp
  next
    fix w assume "w \<in> {w. rreg_worker g (w_id w) = Some w}"
    then obtain h where h: "dict_get (rw_records g) (worker_text (w_id w)) = Some h" "rreg_entry (worker_text (w_id w)) h w"
      using rreg_worker_iff [OF assms, of "w_id w" w] by blast
    then have "worker_text (w_id w) \<in> set ?ks" using assms unfolding rreg_inv_def by auto
    moreover have "?w h = w" using rreg_entryD(1) [OF h(2)] by simp
    ultimately show "w \<in> set ws" unfolding ws_def using h(1) by (force simp del: map_of_eq_Some_iff)
  qed
  then show ?thesis using that [of ws] list ids by (simp add: rreg_list_all_def)
qed

lemma set_rreg_available:
  assumes "rreg_inv g"
  shows "w \<in> set (rreg_available g) \<longleftrightarrow> rreg_worker g (w_id w) = Some w \<and> accepts_new_jobs (w_status w) \<and> 0 < available_slots w"
proof -
  obtain ws where "rreg_list_all g = (list_heal (list_read g) g, Inr ws)" "set ws = {w. rreg_worker g (w_id w) = Some w}"
    by (rule rreg_list_all_eq [OF assms])
  then show ?thesis by (simp add: rreg_available_def rreg_list_available_def may_receive_def)
qed

lemma rreg_update_worker:
  assumes "rreg_inv g" and "redis_storable_worker w"
  shows "rreg_worker (rreg_update g w) i =
    (if i = w_id w \<and> rreg_worker g i \<noteq> None then Some (redis_worker_row w) else rreg_worker g i)"
proof -
  have wid: "worker_uuid (w_id w) < 2 ^ 128" using assms(2) by (simp add: redis_storable_worker_def)
  have rec: "dict_get (rw_records (rreg_update g w)) k =
      (if k = worker_text (w_id w) \<and> dict_get (rw_records g) k \<noteq> None then Some (worker_to_mapping w) else dict_get (rw_records g) k)" for k
    by (auto simp: rreg_update_def WORKER_UPDATE_def split: option.splits)
  show ?thesis
  proof (cases "worker_uuid i < 2 ^ 128")
    case False
    then show ?thesis by (auto simp: rreg_worker_def)
  next
    case True
    have key: "worker_text i = worker_text (w_id w) \<longleftrightarrow> i = w_id w" by (rule worker_text_inj [OF True wid])
    show ?thesis
      using rreg_worker_None [OF assms(1) True] worker_mapping_roundtrip [OF assms(2)] True
      by (auto simp: rreg_worker_def rreg_get_def rec key)
  qed
qed

text \<open>The Redis registry is a registry, and the pool works over it with every policy.\<close>

lemma redis_row_reserve:
  assumes "redis_storable_worker w" and "redis_worker_row w = w"
  shows "redis_storable_worker (fst (worker_reserve_slot w req))
    \<and> redis_worker_row (fst (worker_reserve_slot w req)) = fst (worker_reserve_slot w req)"
proof -
  let ?w = "fst (worker_reserve_slot w req)"
  have same: "w_id ?w = w_id w" "w_endpoint ?w = w_endpoint w" "w_capabilities ?w = w_capabilities w"
      "w_metadata ?w = w_metadata w" "w_events ?w = w_events w"
    by (simp_all add: worker_reserve_slot_def split: sum.splits)
  have parts: "w_events w = []" "w_metadata w = dumped (w_metadata w)"
      "w_capabilities w = (w_capabilities w)\<lparr>supported_roles := sorted_roles (supported_roles (w_capabilities w)),
         caps_metadata := dumped (caps_metadata (w_capabilities w))\<rparr>"
    using arg_cong [OF assms(2), of w_events] arg_cong [OF assms(2), of w_metadata] arg_cong [OF assms(2), of w_capabilities]
    by (simp_all add: redis_worker_row_def)
  have "redis_worker_row ?w = ?w"
    using parts unfolding redis_worker_row_def same by (cases ?w) (simp add: same [symmetric])
  moreover have "redis_storable_worker ?w"
    using assms(1) wf_worker_reserve [of w req] same by (simp add: redis_storable_worker_def)
  ultimately show ?thesis by blast
qed

interpretation redis_reg: worker_registry rreg_worker rreg_update rreg_available rreg_inv redis_worker_row redis_storable_worker
proof unfold_locales
  fix g w i
  assume inv: "rreg_inv g"
  show "redis_storable_worker w \<Longrightarrow> rreg_worker (rreg_update g w) i =
      (if i = w_id w \<and> rreg_worker g i \<noteq> None then Some (redis_worker_row w) else rreg_worker g i)"
    by (rule rreg_update_worker [OF inv])
  show "redis_storable_worker w \<Longrightarrow> rreg_inv (rreg_update g w)" by (rule rreg_update_inv [OF inv])
  show "rreg_worker g i = Some w \<Longrightarrow> w_id w = i \<and> wf_worker w \<and> redis_storable_worker w \<and> redis_worker_row w = w"
    using rreg_worker_iff [OF inv] rreg_entryD by blast
  show "w \<in> set (rreg_available g) \<longleftrightarrow> rreg_worker g (w_id w) = Some w \<and> accepts_new_jobs (w_status w) \<and> 0 < available_slots w"
    by (rule set_rreg_available [OF inv])
qed (rule redis_row_reserve)

interpretation redis_ll: pool rreg_worker rreg_update rreg_available rreg_inv redis_worker_row redis_storable_worker least_loaded
  by unfold_locales

interpretation redis_rr: pool rreg_worker rreg_update rreg_available rreg_inv redis_worker_row redis_storable_worker round_robin_select
  by unfold_locales

section \<open>Writing part of a record\<close>

lemma WORKER_UPDATE_worker:
  assumes "rreg_inv g" and "rreg_worker g i = Some w" and "rreg_entry (worker_text i) (upd (worker_to_mapping w)) w'"
  shows "rreg_inv (fst (WORKER_UPDATE g (worker_text i) ttl upd))" (is ?inv)
    and "snd (WORKER_UPDATE g (worker_text i) ttl upd)"
    and "rreg_worker (fst (WORKER_UPDATE g (worker_text i) ttl upd)) j = (if j = i then Some w' else rreg_worker g j)"
    and "rw_index (fst (WORKER_UPDATE g (worker_text i) ttl upd)) = rw_index g"
proof -
  let ?g = "fst (WORKER_UPDATE g (worker_text i) ttl upd)"
  obtain h where h: "dict_get (rw_records g) (worker_text i) = Some h" "rreg_entry (worker_text i) h w" "w_id w = i"
    using assms(2) rreg_worker_iff [OF assms(1)] by blast
  then have hw: "h = worker_to_mapping w" by (simp add: rreg_entry_def)
  have i: "worker_uuid i < 2 ^ 128" using rreg_entryD(2) [OF h(2)] h(3) by simp
  have w': "w_id w' = i" using rreg_entryD(2,3) [OF assms(3)] worker_text_inj [OF i, of "w_id w'"] by metis
  show inv: ?inv by (rule rreg_inv_update [OF assms(1)]) (use h(1) hw assms(3) in auto)
  show "snd (WORKER_UPDATE g (worker_text i) ttl upd)" "rw_index ?g = rw_index g"
    using h(1) by (simp_all add: WORKER_UPDATE_def)
  have rec: "dict_get (rw_records ?g) k = (if k = worker_text i then Some (upd h) else dict_get (rw_records g) k)" for k
    using h(1) by (simp add: WORKER_UPDATE_def)
  show "rreg_worker ?g j = (if j = i then Some w' else rreg_worker g j)"
  proof (cases "j = i")
    case True
    then show ?thesis using rreg_worker_iff [OF inv, of i w'] rec [of "worker_text i"] assms(3) hw w' by simp
  next
    case False
    then have "worker_text j \<noteq> worker_text i" if "worker_uuid j < 2 ^ 128" using worker_text_inj [OF that i] by simp
    then show ?thesis using False by (simp add: rreg_worker_def rreg_get_def rec)
  qed
qed

lemma rreg_entry_of_worker: "rreg_inv g \<Longrightarrow> rreg_worker g i = Some w \<Longrightarrow> rreg_entry (worker_text i) (worker_to_mapping w) w \<and> w_id w = i"
  using rreg_worker_iff [of g i w] rreg_entry_def by metis

lemma rreg_entry_liveness:
  assumes "rreg_entry k (worker_to_mapping w) w" and "wf_worker (w\<lparr>w_status := s, w_last_heartbeat_at := t, w_load := l\<rparr>)"
  shows "rreg_entry k ((worker_to_mapping w)\<lparr>wh_status := worker_status_value s, wh_last_heartbeat_at := Some t,
      wh_active_jobs := active_jobs l, wh_queued_jobs := queued_jobs l\<rparr>) (w\<lparr>w_status := s, w_last_heartbeat_at := t, w_load := l\<rparr>)"
proof -
  let ?w = "w\<lparr>w_status := s, w_last_heartbeat_at := t, w_load := l\<rparr>"
  have row: "redis_worker_row ?w = ?w"
  proof -
    have "redis_worker_row ?w = (redis_worker_row w)\<lparr>w_status := s, w_last_heartbeat_at := t, w_load := l\<rparr>"
      by (simp add: redis_worker_row_def)
    then show ?thesis using rreg_entryD(6) [OF assms(1)] by simp
  qed
  show ?thesis
    using assms row by (simp add: rreg_entry_def worker_to_mapping_def redis_storable_worker_def)
qed

text \<open>A heartbeat that reads and writes without interruption does what the aggregate does.\<close>

lemma heartbeat_parts:
  "w_capabilities (worker_heartbeat w t None (Some l) None) = w_capabilities w"
  "w_endpoint (worker_heartbeat w t None (Some l) None) = w_endpoint w"
  "w_load (worker_heartbeat w t None (Some l) None) = l" "w_last_heartbeat_at (worker_heartbeat w t None (Some l) None) = t"
  by (simp_all add: worker_heartbeat_def Let_def)

lemma rreg_heartbeat_worker:
  assumes "rreg_inv g" and "rreg_worker g i = Some w" and "wf_load load"
  shows "rreg_inv (fst (rreg_heartbeat factor g i load t ttl))" and "snd (rreg_heartbeat factor g i load t ttl) = Inr True"
    and "rreg_worker (fst (rreg_heartbeat factor g i load t ttl)) j =
      (if j = i then Some (w\<lparr>w_status := w_status (worker_heartbeat w t None (Some load) None), w_last_heartbeat_at := t, w_load := load\<rparr>)
       else rreg_worker g j)"
proof -
  let ?v = "worker_heartbeat w t None (Some load) None"
  note e = rreg_entry_of_worker [OF assms(1,2)]
  obtain h where h: "dict_get (rw_records g) (worker_text i) = Some h" "rreg_entry (worker_text i) h w"
    using assms(2) rreg_worker_iff [OF assms(1)] by blast
  have "wf_worker ?v" using rreg_entryD(4) [OF h(2)] assms(3) by (intro wf_worker_heartbeat) simp_all
  then have "wf_worker (w\<lparr>w_status := w_status ?v, w_last_heartbeat_at := t, w_load := load\<rparr>)"
    by (simp add: wf_worker_def available_slots_def heartbeat_parts)
  note entry = rreg_entry_liveness [OF conjunct1 [OF e] this]
  have fields: "heartbeat_fields ?v = (\<lambda>h. h\<lparr>wh_status := worker_status_value (w_status ?v), wh_last_heartbeat_at := Some t,
      wh_active_jobs := active_jobs load, wh_queued_jobs := queued_jobs load\<rparr>)"
    by (simp add: heartbeat_fields_def heartbeat_parts fun_eq_iff)
  have hb: "rreg_heartbeat factor g i load t ttl =
      (let (g', b) = WORKER_UPDATE g (worker_text i) (retention_ms factor ttl) (heartbeat_fields ?v) in (g', Inr b))"
    using h(1) rreg_entryD(1) [OF h(2)] by (simp add: rreg_heartbeat_def rreg_heartbeat_write_def del: map_of_eq_Some_iff)
  note upd = WORKER_UPDATE_worker [OF assms(1,2), of "heartbeat_fields ?v", unfolded fields, OF entry, folded fields]
  show "rreg_inv (fst (rreg_heartbeat factor g i load t ttl))" "snd (rreg_heartbeat factor g i load t ttl) = Inr True"
    using upd(1,2) by (simp_all add: hb case_prod_beta)
  show "rreg_worker (fst (rreg_heartbeat factor g i load t ttl)) j =
      (if j = i then Some (w\<lparr>w_status := w_status ?v, w_last_heartbeat_at := t, w_load := load\<rparr>) else rreg_worker g j)"
    using upd(3) by (simp add: hb case_prod_beta)
qed

section \<open>Reaping\<close>

abbreviation offline :: "worker \<Rightarrow> worker" where
  "offline w \<equiv> w\<lparr>w_status := OFFLINE\<rparr>"

lemma rreg_reap_loop_spec:
  assumes "rreg_inv g" and "distinct (map w_id ws)" and "\<And>w. w \<in> set ws \<Longrightarrow> rreg_worker g (w_id w) = Some w"
  shows "rreg_inv (fst (rreg_reap_loop now timeout ws g))
    \<and> snd (rreg_reap_loop now timeout ws g) = map (\<lambda>w. worker_mark_unavailable w now ''heartbeat timeout'') (filter (stale_live now timeout) ws)
    \<and> rw_ttl (fst (rreg_reap_loop now timeout ws g)) = rw_ttl g
    \<and> (\<forall>i. rreg_worker (fst (rreg_reap_loop now timeout ws g)) i =
          (case find (\<lambda>w. w_id w = i \<and> stale_live now timeout w) ws of Some w \<Rightarrow> Some (offline w) | None \<Rightarrow> rreg_worker g i))"
  using assms
proof (induction ws arbitrary: g)
  case (Cons w ws)
  show ?case
  proof (cases "stale_live now timeout w")
    case False
    then show ?thesis using Cons.IH [OF Cons.prems(1)] Cons.prems(2,3) by simp
  next
    case True
    have w: "rreg_worker g (w_id w) = Some w" using Cons.prems(3) by simp
    note e = conjunct1 [OF rreg_entry_of_worker [OF Cons.prems(1) w]]
    have wf: "wf_worker (w\<lparr>w_status := OFFLINE, w_last_heartbeat_at := w_last_heartbeat_at w, w_load := w_load w\<rparr>)"
      using rreg_entryD(4) [OF e] by (simp add: wf_worker_def available_slots_def)
    let ?upd = "\<lambda>h. h\<lparr>wh_status := worker_status_value OFFLINE\<rparr>"
    have "rreg_entry (worker_text (w_id w)) (?upd (worker_to_mapping w)) (offline w)"
      using rreg_entry_liveness [OF e wf] by (simp add: worker_to_mapping_def)
    note upd = WORKER_UPDATE_worker [OF Cons.prems(1) w, of ?upd, OF this, of KEEP_TTL]
    let ?g = "fst (WORKER_UPDATE g (worker_text (w_id w)) KEEP_TTL ?upd)"
    have ttl: "rw_ttl ?g = rw_ttl g" by (simp add: WORKER_UPDATE_def KEEP_TTL_def split: option.splits)
    have rest: "rreg_worker ?g (w_id v) = Some v" if "v \<in> set ws" for v
      using that Cons.prems(2,3) upd(3) by (auto simp: image_iff)
    note ih = Cons.IH [OF upd(1) _ rest]
    have none: "find (\<lambda>v. w_id v = w_id w \<and> stale_live now timeout v) ws = None"
      using Cons.prems(2) by (force simp: find_None_iff image_iff)
    have step: "rreg_reap_loop now timeout (w # ws) g =
        (fst (rreg_reap_loop now timeout ws ?g),
         worker_mark_unavailable w now ''heartbeat timeout'' # snd (rreg_reap_loop now timeout ws ?g))"
      using True upd(2) by (simp add: case_prod_beta Let_def)
    have loop: "rreg_inv (fst (rreg_reap_loop now timeout ws ?g))"
        "snd (rreg_reap_loop now timeout ws ?g) = map (\<lambda>w. worker_mark_unavailable w now ''heartbeat timeout'') (filter (stale_live now timeout) ws)"
        "rw_ttl (fst (rreg_reap_loop now timeout ws ?g)) = rw_ttl ?g"
        "rreg_worker (fst (rreg_reap_loop now timeout ws ?g)) i =
          (case find (\<lambda>w. w_id w = i \<and> stale_live now timeout w) ws of Some w \<Rightarrow> Some (offline w) | None \<Rightarrow> rreg_worker ?g i)" for i
      using ih Cons.prems(2) by auto
    show ?thesis
      unfolding step fst_conv snd_conv
      using loop ttl upd(3) True none by (auto split: option.splits)
  qed
qed simp

section \<open>The lock\<close>

text \<open>
  One named lock: the key with the token of its owner and its time to live, the token each client object believes
  it holds the lock with, and the tokens that were ever granted (\<open>uuid4\<close> never repeats one).
\<close>

record lock_world =
  lw_key :: "(string \<times> int) option"
  lw_tokens :: "nat \<Rightarrow> string option"
  lw_granted :: "string list"

definition lock_world_empty :: lock_world where
  "lock_world_empty = \<lparr>lw_key = None, lw_tokens = (\<lambda>_. None), lw_granted = []\<rparr>"

text \<open>One attempt of \<open>acquire\<close>: \<open>SET key token NX PX ttl\<close>.\<close>

definition lock_try :: "duration \<Rightarrow> lock_world \<Rightarrow> nat \<Rightarrow> string \<Rightarrow> lock_world \<times> bool" where
  "lock_try ttl s c token =
     (case lw_key s of
        Some _ \<Rightarrow> (s, False)
      | None \<Rightarrow> (s\<lparr>lw_key := Some (token, milliseconds ttl), lw_tokens := (lw_tokens s)(c := Some token),
                  lw_granted := token # lw_granted s\<rparr>, True))"

definition LOCK_RELEASE :: "(string \<times> int) option \<Rightarrow> string \<Rightarrow> (string \<times> int) option \<times> bool" where
  "LOCK_RELEASE key token =
     (case key of None \<Rightarrow> (key, False) | Some (t, ttl) \<Rightarrow> if t = token then (None, True) else (key, False))"

definition LOCK_EXTEND :: "(string \<times> int) option \<Rightarrow> string \<Rightarrow> int \<Rightarrow> (string \<times> int) option \<times> bool" where
  "LOCK_EXTEND key token ms =
     (case key of None \<Rightarrow> (key, False) | Some (t, ttl) \<Rightarrow> if t = token then (Some (t, ms), True) else (key, False))"

definition lock_release :: "lock_world \<Rightarrow> nat \<Rightarrow> lock_world \<times> bool" where
  "lock_release s c =
     (case lw_tokens s c of
        None \<Rightarrow> (s, False)
      | Some token \<Rightarrow>
          let (key, released) = LOCK_RELEASE (lw_key s) token
          in (s\<lparr>lw_key := key, lw_tokens := (lw_tokens s)(c := None)\<rparr>, released))"

text \<open>\<open>ttl or self._ttl\<close>: a zero duration is the configured one.\<close>

definition lock_extend :: "duration \<Rightarrow> lock_world \<Rightarrow> nat \<Rightarrow> duration option \<Rightarrow> lock_world \<times> bool" where
  "lock_extend own s c ttl =
     (case lw_tokens s c of
        None \<Rightarrow> (s, False)
      | Some token \<Rightarrow>
          let d = (case ttl of None \<Rightarrow> own | Some x \<Rightarrow> if x = 0 then own else x);
              (key, extended) = LOCK_EXTEND (lw_key s) token (milliseconds d)
          in (s\<lparr>lw_key := key, lw_tokens := (if extended then lw_tokens s else (lw_tokens s)(c := None))\<rparr>, extended))"

definition lock_elapse :: "lock_world \<Rightarrow> int \<Rightarrow> lock_world" where
  "lock_elapse s ms =
     s\<lparr>lw_key := (case lw_key s of None \<Rightarrow> None | Some (t, ttl) \<Rightarrow> if ttl \<le> ms then None else Some (t, ttl - ms))\<rparr>"

text \<open>
  The loop of \<open>acquire\<close>: what the \<open>k\<close>-th attempt finds under the key and the time it is made. The result is whether the
  lock was taken and by which attempt; \<open>None\<close> says that more attempts than the first argument were needed.
\<close>

fun lock_acquire :: "nat \<Rightarrow> (nat \<Rightarrow> (string \<times> int) option) \<Rightarrow> (nat \<Rightarrow> rat) \<Rightarrow> rat option \<Rightarrow> nat \<Rightarrow> (bool \<times> nat) option" where
  "lock_acquire 0 seen clock deadline k = None"
| "lock_acquire (Suc n) seen clock deadline k =
     (if seen k = None then Some (True, k)
      else if (case deadline of None \<Rightarrow> True | Some d \<Rightarrow> d \<le> clock k) then Some (False, k)
      else lock_acquire n seen clock deadline (Suc k))"

datatype lock_action = Try nat string | Release nat | Extend nat "duration option" | Elapse int

fun lock_apply :: "duration \<Rightarrow> lock_world \<Rightarrow> lock_action \<Rightarrow> lock_world" where
  "lock_apply ttl s (Try c token) = fst (lock_try ttl s c token)"
| "lock_apply ttl s (Release c) = fst (lock_release s c)"
| "lock_apply ttl s (Extend c d) = fst (lock_extend ttl s c d)"
| "lock_apply ttl s (Elapse ms) = lock_elapse s ms"

fun lock_allowed :: "lock_world \<Rightarrow> lock_action \<Rightarrow> bool" where
  "lock_allowed s (Try c token) \<longleftrightarrow> token \<notin> set (lw_granted s)"
| "lock_allowed s (Elapse ms) \<longleftrightarrow> 0 \<le> ms"
| "lock_allowed s _ \<longleftrightarrow> True"

fun lock_run :: "duration \<Rightarrow> lock_world \<Rightarrow> lock_action list \<Rightarrow> lock_world option" where
  "lock_run ttl s [] = Some s"
| "lock_run ttl s (a # as) = (if lock_allowed s a then lock_run ttl (lock_apply ttl s a) as else None)"

inductive lock_reachable :: "duration \<Rightarrow> lock_world \<Rightarrow> bool" for ttl where
  lock_start: "lock_reachable ttl lock_world_empty"
| lock_step: "lock_reachable ttl s \<Longrightarrow> lock_allowed s a \<Longrightarrow> lock_reachable ttl (lock_apply ttl s a)"

text \<open>A client really holds the lock when the key carries its token.\<close>

definition lock_holds :: "lock_world \<Rightarrow> nat \<Rightarrow> int \<Rightarrow> bool" where
  "lock_holds s c ttl \<longleftrightarrow> (\<exists>t. lw_tokens s c = Some t \<and> lw_key s = Some (t, ttl))"

definition lock_inv :: "lock_world \<Rightarrow> bool" where
  "lock_inv s \<longleftrightarrow> (\<forall>c t. lw_tokens s c = Some t \<longrightarrow> t \<in> set (lw_granted s))
     \<and> (\<forall>c d t. lw_tokens s c = Some t \<longrightarrow> lw_tokens s d = Some t \<longrightarrow> c = d)"

lemma lock_inv_apply:
  assumes "lock_inv s" and "lock_allowed s a" shows "lock_inv (lock_apply ttl s a)"
proof (cases a)
  case (Try c token)
  then show ?thesis
    using assms unfolding lock_inv_def by (auto simp: lock_try_def split: option.splits)
qed (use assms in \<open>auto simp: lock_inv_def lock_release_def lock_extend_def lock_elapse_def case_prod_beta Let_def split: option.splits if_splits\<close>)

lemma lock_reachable_inv: "lock_reachable ttl s \<Longrightarrow> lock_inv s"
  by (induction rule: lock_reachable.induct) (simp add: lock_inv_def lock_world_empty_def, rule lock_inv_apply)

fun lock_time :: "lock_action \<Rightarrow> int" where
  "lock_time (Elapse ms) = ms"
| "lock_time _ = 0"

definition foreign_action :: "nat \<Rightarrow> lock_action \<Rightarrow> bool" where
  "foreign_action c a \<longleftrightarrow> a \<noteq> Release c \<and> \<not> (\<exists>d. a = Extend c d)"

lemma lock_apply_holds:
  assumes "lock_inv s" and "lock_holds s c ttl" and "lock_allowed s a" and "foreign_action c a" and "lock_time a < ttl"
  shows "lock_holds (lock_apply own s a) c (ttl - lock_time a)"
proof -
  obtain t where t: "lw_tokens s c = Some t" "lw_key s = Some (t, ttl)" using assms(2) by (auto simp: lock_holds_def)
  have other: "lw_tokens s d \<noteq> Some t" if "d \<noteq> c" for d using assms(1) t(1) that by (auto simp: lock_inv_def)
  show ?thesis
    using assms(3-5) t other
    by (cases a) (auto simp: lock_holds_def foreign_action_def lock_try_def lock_release_def lock_extend_def lock_elapse_def
        LOCK_RELEASE_def LOCK_EXTEND_def Let_def split: option.splits)
qed

lemma lock_run_holds:
  assumes "lock_inv s" and "lock_holds s c ttl" and "lock_run own s as = Some s'"
    and "list_all (foreign_action c) as" and "sum_list (map lock_time as) < ttl"
  shows "lock_inv s' \<and> lock_holds s' c (ttl - sum_list (map lock_time as))"
  using assms
proof (induction as arbitrary: s ttl)
  case (Cons a as)
  from Cons.prems(3) have a: "lock_allowed s a" and run: "lock_run own (lock_apply own s a) as = Some s'"
    by (auto split: if_splits)
  have allowed: "lock_run own s bs = Some s' \<Longrightarrow> 0 \<le> sum_list (map lock_time bs)" for s bs
  proof (induction bs arbitrary: s)
    case (Cons b bs)
    have "0 \<le> lock_time b" if "lock_allowed s b" using that by (cases b) simp_all
    with Cons show ?case by (fastforce split: if_splits)
  qed simp
  have "lock_time a < ttl" using Cons.prems(5) allowed [OF run] by simp
  then have "lock_holds (lock_apply own s a) c (ttl - lock_time a)"
    using lock_apply_holds [OF Cons.prems(1,2) a] Cons.prems(4) by simp
  from Cons.IH [OF lock_inv_apply [OF Cons.prems(1) a] this run] Cons.prems(4,5) show ?case
    by (simp add: algebra_simps)
qed simp

section \<open>Properties\<close>

lemma rreg_inv_empty: "rreg_inv redis_workers_empty"
  by (simp add: rreg_inv_def redis_workers_empty_def)

lemma demo_worker_storable: "redis_storable_worker demo_worker"
  using worker_reachable_wf [OF demo_worker_reachable]
  by (simp add: redis_storable_worker_def wf_endpoint_def mk_worker_endpoint_def starts_with_def wf_gpu_def mk_gpu_spec_def
      worker_register_def)

definition demo_redis_pool :: redis_workers where
  "demo_redis_pool = rreg_register DEFAULT_RETENTION_FACTOR redis_workers_empty demo_worker 30000000"

lemma demo_redis_pool_inv: "rreg_inv demo_redis_pool"
  unfolding demo_redis_pool_def by (rule rreg_register_inv [OF rreg_inv_empty demo_worker_storable])

lemma rreg_register_worker:
  assumes "redis_storable_worker w"
  shows "rreg_worker (rreg_register factor g w ttl) (w_id w) = Some (redis_worker_row w)"
  using assms worker_mapping_roundtrip [OF assms]
  by (simp add: rreg_worker_def rreg_get_def rreg_register_def Let_def redis_storable_worker_def)

lemma demo_redis_pool_worker: "rreg_worker demo_redis_pool (WorkerId 9) = Some (redis_worker_row demo_worker)"
proof -
  have "w_id demo_worker = WorkerId 9" by (simp add: worker_register_def)
  then show ?thesis using rreg_register_worker [OF demo_worker_storable] unfolding demo_redis_pool_def by metis
qed

lemma demo_row_status: "w_status (redis_worker_row demo_worker) = READY" "w_last_heartbeat_at (redis_worker_row demo_worker) = 0"
  by (simp_all add: worker_register_def)

text \<open>
  The pool works over Redis as it does in memory. Acquiring a worker with any policy that honours the scheduling
  contract never raises; it answers \<open>None\<close> only when no registered worker may take the job; otherwise the record of
  an eligible worker counts one more active job, within its declared concurrency, and releasing the slot
  gives every worker back as it was.
\<close>

theorem redis_pool_acquire_is_sound:
  assumes "rreg_inv g" and "scheduler select"
  shows "\<exists>s' g' r. pool_try_acquire rreg_available rreg_update select s g req = ((s', g'), Inr r)
    \<and> (case r of
         None \<Rightarrow> g' = g \<and> (\<forall>w. rreg_worker g (w_id w) = Some w \<longrightarrow> \<not> can_accept w req)
       | Some w \<Rightarrow> rreg_inv g' \<and> (\<exists>v. rreg_worker g (w_id v) = Some v \<and> can_accept v req
            \<and> rreg_worker g' (w_id v) = Some w
            \<and> active_jobs (w_load w) = active_jobs (w_load v) + 1
            \<and> active_jobs (w_load w) \<le> max_concurrency (w_capabilities w)
            \<and> (\<forall>i. rreg_worker (fst (pool_release rreg_update g' w)) i = rreg_worker g i)))"
  by (rule pool.acquire_is_sound [OF pool.intro [OF redis_reg.worker_registry_axioms assms(2)] assms(1)])

theorem redis_pool_acquire_is_sound_witness:
  "\<exists>s' g' r. pool_try_acquire rreg_available rreg_update least_loaded () demo_redis_pool demo_requirements = ((s', g'), Inr r)"
  using redis_pool_acquire_is_sound [OF demo_redis_pool_inv ll.scheduler_axioms, of "()" demo_requirements] by blast

text \<open>
  The reaper is exact on Redis too. A pass never raises and reports exactly the live workers whose last heartbeat is
  too old, each OFFLINE and carrying its \<open>worker.unavailable\<close> event; their records say OFFLINE and are otherwise
  as they were, the other records do not change, and no record's time to live is touched, so a silent worker stays
  observable for as long as it would have.
\<close>

theorem redis_reaper_is_exact:
  assumes "rreg_inv g"
  shows "\<exists>g' reaped. rreg_reap_stale g now timeout = (g', Inr reaped) \<and> rreg_inv g' \<and> rw_ttl g' = rw_ttl g
    \<and> w_id ` set reaped = {i. \<exists>w. rreg_worker g i = Some w \<and> stale_live now timeout w}
    \<and> list_all (\<lambda>w. w_status w = OFFLINE \<and> WorkerUnavailable now (w_id w) ''heartbeat timeout'' \<in> set (w_events w)) reaped
    \<and> (\<forall>i. rreg_worker g' i = map_option (\<lambda>w. if stale_live now timeout w then offline w else w) (rreg_worker g i))"
proof -
  obtain ws where ws: "rreg_list_all g = (list_heal (list_read g) g, Inr ws)"
      "set ws = {w. rreg_worker g (w_id w) = Some w}" "distinct (map w_id ws)"
    by (rule rreg_list_all_eq [OF assms])
  let ?g = "list_heal (list_read g) g"
  have same: "rreg_worker ?g i = rreg_worker g i" for i by (rule rreg_same_records) simp
  have ids: "w_id w = i" if "rreg_worker g i = Some w" for i w using that redis_reg.get_wf [OF assms] by blast
  have mem: "rreg_worker g i = Some w \<longleftrightarrow> w \<in> set ws \<and> w_id w = i" for i w using ws(2) ids by auto
  have "rreg_worker ?g (w_id w) = Some w" if "w \<in> set ws" for w using that same mem by simp
  note loop = rreg_reap_loop_spec [OF list_heal_inv [OF assms] ws(3) this, of now timeout]
  let ?r = "rreg_reap_loop now timeout ws ?g"
  have found: "find (\<lambda>w. w_id w = i \<and> stale_live now timeout w) ws =
      (case rreg_worker g i of None \<Rightarrow> None | Some w \<Rightarrow> if stale_live now timeout w then Some w else None)" for i
  proof (cases "find (\<lambda>w. w_id w = i \<and> stale_live now timeout w) ws")
    case None
    then show ?thesis using mem by (auto simp: find_None_iff split: option.splits)
  next
    case (Some w)
    then have "w \<in> set ws" "w_id w = i" "stale_live now timeout w" by (auto simp: find_Some_iff)
    moreover from this have "rreg_worker g i = Some w" using mem by blast
    ultimately show ?thesis using Some by simp
  qed
  have "rreg_worker (fst ?r) i = map_option (\<lambda>w. if stale_live now timeout w then offline w else w) (rreg_worker g i)" for i
    using loop found same by (auto split: option.splits)
  moreover have "w_id ` set (snd ?r) = {i. \<exists>w. rreg_worker g i = Some w \<and> stale_live now timeout w}"
    using loop mem by (auto simp: image_image)
  moreover have "list_all (\<lambda>w. w_status w = OFFLINE \<and> WorkerUnavailable now (w_id w) ''heartbeat timeout'' \<in> set (w_events w)) (snd ?r)"
    using loop by (auto simp: list_all_iff stale_live_def worker_mark_unavailable_def)
  ultimately show ?thesis
    using loop ws(1) by (intro exI [of _ "fst ?r"] exI [of _ "snd ?r"]) (simp add: rreg_reap_stale_def case_prod_beta)
qed

theorem redis_reaper_is_exact_witness:
  "\<exists>g' reaped w. rreg_reap_stale demo_redis_pool 100 30 = (g', Inr reaped) \<and> rreg_worker g' (WorkerId 9) = Some w \<and> w_status w = OFFLINE"
proof -
  obtain g' reaped where r: "rreg_reap_stale demo_redis_pool 100 30 = (g', Inr reaped)"
      "rreg_worker g' (WorkerId 9) = map_option (\<lambda>w. if stale_live 100 30 w then offline w else w) (rreg_worker demo_redis_pool (WorkerId 9))"
    using redis_reaper_is_exact [OF demo_redis_pool_inv, of 100 30] by blast
  have "stale_live 100 30 (redis_worker_row demo_worker)"
    using demo_row_status by (simp add: stale_live_def is_stale_def del: redis_row_simps)
  then show ?thesis using r demo_redis_pool_worker by simp
qed

text \<open>
  The index can lose a worker that is registered. \<open>list_all\<close> removes from the index the keys whose record it did not
  find, in a second step. When such a worker registers again between the two, its key is removed all the same: from
  then on the record is there and every heartbeat of the worker is accepted, but no listing contains it, so it is
  neither given work nor reaped.
\<close>

theorem index_healing_hides_a_worker:
  assumes "rreg_inv g" and "redis_storable_worker w" and "wf_load load"
    and "dict_get (rw_records g) (worker_text (w_id w)) = None" and "worker_text (w_id w) \<in> set (rw_index g)"
  shows "\<exists>g'. g' = list_heal (list_read g) (rreg_register factor g w ttl)
    \<and> rreg_worker g' (w_id w) = Some (redis_worker_row w)
    \<and> snd (rreg_heartbeat factor g' (w_id w) load t ttl) = Inr True
    \<and> (\<forall>h \<in> {g', fst (rreg_heartbeat factor g' (w_id w) load t ttl)}.
         worker_text (w_id w) \<notin> set (rw_index h) \<and> (worker_text (w_id w)) \<notin> fst ` set (list_read h))"
proof -
  let ?k = "worker_text (w_id w)"
  let ?g = "list_heal (list_read g) (rreg_register factor g w ttl)"
  have rec: "dict_get (rw_records ?g) ?k = Some (worker_to_mapping w)" by (simp add: rreg_register_def Let_def)
  have missing: "(?k, None) \<in> set (list_read g)" using assms(4,5) by (force simp: list_read_def)
  then have gone: "?k \<notin> set (rw_index ?g)" by (simp add: list_heal_index)
  have worker: "rreg_worker ?g (w_id w) = Some (redis_worker_row w)"
    using rreg_register_worker [OF assms(2), of factor g ttl] rreg_same_records [of ?g "rreg_register factor g w ttl"] by simp
  have hb: "snd (rreg_heartbeat factor ?g (w_id w) load t ttl) = Inr True"
      "rw_index (fst (rreg_heartbeat factor ?g (w_id w) load t ttl)) = rw_index ?g"
    using rec worker_mapping_roundtrip [OF assms(2)]
    by (simp_all add: rreg_heartbeat_def rreg_heartbeat_write_def WORKER_UPDATE_def del: list_heal_simps)
  show ?thesis
    using worker hb gone by (intro exI [of _ ?g]) (auto simp: list_read_def)
qed

definition demo_expired_pool :: redis_workers where
  "demo_expired_pool = rreg_elapse demo_redis_pool 300000"

theorem index_healing_hides_a_worker_witness:
  "\<exists>g'. g' = list_heal (list_read demo_expired_pool) (rreg_register DEFAULT_RETENTION_FACTOR demo_expired_pool demo_worker 30000000)
     \<and> rreg_worker g' (w_id demo_worker) = Some (redis_worker_row demo_worker)
     \<and> worker_text (w_id demo_worker) \<notin> set (rw_index g')"
proof -
  have inv: "rreg_inv demo_expired_pool" unfolding demo_expired_pool_def by (rule rreg_elapse_inv [OF demo_redis_pool_inv])
  have gone: "dict_get (rw_records demo_expired_pool) (worker_text (w_id demo_worker)) = None"
    unfolding demo_expired_pool_def rreg_elapse_records
    by (simp add: record_over_def demo_redis_pool_def rreg_register_def Let_def retention_ms_def milliseconds_def whole_ms_def
        DEFAULT_RETENTION_FACTOR_def)
  have index: "worker_text (w_id demo_worker) \<in> set (rw_index demo_expired_pool)"
    by (simp add: demo_expired_pool_def rreg_elapse_def demo_redis_pool_def rreg_register_def Let_def)
  show ?thesis
    using index_healing_hides_a_worker [OF inv demo_worker_storable _ gone index, of no_load DEFAULT_RETENTION_FACTOR 30000000 0]
    by (auto simp: wf_load_def no_load_def)
qed

text \<open>
  A heartbeat can undo a drain. The operator's drain is written by the orchestrator, between the read and the write of
  a heartbeat of the same worker: the heartbeat writes the status it computed from the record it had read, and the
  worker is READY or BUSY again. A worker is not the only writer of its record.
\<close>

theorem heartbeat_can_undo_a_drain:
  assumes "rreg_inv g" and "rreg_worker g i = Some w" and "w_status w = READY \<or> w_status w = BUSY" and "wf_load load"
    and "worker_start_draining w now = (d, Inr ())"
  shows "\<exists>v x. rreg_worker (rreg_update g d) i = Some v \<and> w_status v = DRAINING
    \<and> rreg_worker (fst (rreg_heartbeat_write factor (dict_get (rw_records g) (worker_text i)) (rreg_update g d) i load t ttl)) i = Some x
    \<and> (w_status x = READY \<or> w_status x = BUSY)"
proof -
  obtain h where h: "dict_get (rw_records g) (worker_text i) = Some h" "rreg_entry (worker_text i) h w" "w_id w = i"
    using assms(2) rreg_worker_iff [OF assms(1)] by blast
  note e = rreg_entryD [OF h(2)]
  have d: "w_id d = i" "w_status d = DRAINING" "w_capabilities d = w_capabilities w" "redis_storable_worker d"
      "w_endpoint d = w_endpoint w" "w_metadata d = w_metadata w" "w_load d = w_load w"
    using assms(5) h(3) e(4,5)
    by (auto simp: worker_start_draining_def worker_transition_def worker_record_def record_event_def
        redis_storable_worker_def wf_worker_def available_slots_def split: if_splits)
  let ?g = "rreg_update g d" and ?r = "redis_worker_row d"
  have inv: "rreg_inv ?g" by (rule rreg_update_inv [OF assms(1) d(4)])
  have drained: "rreg_worker ?g i = Some ?r" using rreg_update_worker [OF assms(1) d(4), of i] d(1) assms(2) by simp
  let ?v = "worker_heartbeat w t None (Some load) None"
  have status: "w_status ?v = READY \<or> w_status ?v = BUSY"
    using assms(3) by (auto simp: worker_heartbeat_def Let_def sync_busy_status)
  have "wf_worker ?v" using e(4) assms(4) by (intro wf_worker_heartbeat) simp_all
  moreover have "w_capabilities ?r = w_capabilities w"
    using d(3) arg_cong [OF e(6), of w_capabilities] by (simp add: redis_worker_row_def)
  ultimately have "wf_worker (?r\<lparr>w_status := w_status ?v, w_last_heartbeat_at := t, w_load := load\<rparr>)"
    by (simp add: wf_worker_def available_slots_def heartbeat_parts)
  note entry = rreg_entry_liveness [OF conjunct1 [OF rreg_entry_of_worker [OF inv drained]] this]
  have fields: "heartbeat_fields ?v = (\<lambda>h. h\<lparr>wh_status := worker_status_value (w_status ?v), wh_last_heartbeat_at := Some t,
      wh_active_jobs := active_jobs load, wh_queued_jobs := queued_jobs load\<rparr>)"
    by (simp add: heartbeat_fields_def heartbeat_parts fun_eq_iff)
  note upd = WORKER_UPDATE_worker [OF inv drained, of "heartbeat_fields ?v", unfolded fields, OF entry, folded fields]
  have "rreg_heartbeat_write factor (dict_get (rw_records g) (worker_text i)) ?g i load t ttl =
      (let (g', b) = WORKER_UPDATE ?g (worker_text i) (retention_ms factor ttl) (heartbeat_fields ?v) in (g', Inr b))"
    using h(1) e(1) by (simp add: rreg_heartbeat_write_def del: map_of_eq_Some_iff)
  then show ?thesis using drained d(2) status upd(3) by (auto simp: case_prod_beta)
qed

theorem heartbeat_can_undo_a_drain_witness:
  "\<exists>d x. worker_start_draining (redis_worker_row demo_worker) 5 = (d, Inr ())
     \<and> rreg_worker (fst (rreg_heartbeat_write DEFAULT_RETENTION_FACTOR (dict_get (rw_records demo_redis_pool) (worker_text (WorkerId 9)))
            (rreg_update demo_redis_pool d) (WorkerId 9) no_load 6 30000000)) (WorkerId 9) = Some x
     \<and> (w_status x = READY \<or> w_status x = BUSY)"
proof -
  have "snd (worker_start_draining (redis_worker_row demo_worker) 5) = Inr ()"
    using demo_row_status(1) by (simp add: worker_start_draining_def del: redis_row_simps)
  then obtain d where d: "worker_start_draining (redis_worker_row demo_worker) 5 = (d, Inr ())" by (metis prod.collapse)
  have "w_status (redis_worker_row demo_worker) = READY \<or> w_status (redis_worker_row demo_worker) = BUSY"
    using demo_row_status(1) by blast
  from heartbeat_can_undo_a_drain [OF demo_redis_pool_inv demo_redis_pool_worker this _ d, of no_load DEFAULT_RETENTION_FACTOR 6 30000000] d
  show ?thesis by (auto simp: wf_load_def no_load_def)
qed

text \<open>
  C22. The lock excludes. From any state that attempts, releases, extensions and the passing of time can lead to, with
  tokens never granted twice: as long as a client holding the lock neither releases nor extends it and less time passes
  than its remaining time to live, whatever the other clients do (late releases and extensions of holders whose
  lock lapsed included), it still holds it, with exactly the time that is left, and no other client does.
\<close>

theorem lock_excludes:
  assumes "lock_reachable own s" and "lock_holds s c ttl" and "lock_run own s as = Some s'"
    and "list_all (foreign_action c) as" and "sum_list (map lock_time as) < ttl"
  shows "lock_holds s' c (ttl - sum_list (map lock_time as)) \<and> (\<forall>d r. lock_holds s' d r \<longrightarrow> d = c)"
proof -
  note run = lock_run_holds [OF lock_reachable_inv [OF assms(1)] assms(2-5)]
  moreover have "d = c" if "lock_holds s' d r" for d r
  proof -
    obtain t where "lw_tokens s' d = Some t" "lw_key s' = Some (t, r)" using \<open>lock_holds s' d r\<close> by (auto simp: lock_holds_def)
    moreover obtain u x where "lw_tokens s' c = Some u" "lw_key s' = Some (u, x)" using run by (auto simp: lock_holds_def)
    ultimately show ?thesis using run unfolding lock_inv_def by fastforce
  qed
  ultimately show ?thesis by blast
qed

theorem lock_excludes_witness:
  "\<exists>s s'. s = lock_apply 5000000 (lock_apply 5000000 (lock_apply 5000000 lock_world_empty (Try 1 ''a'')) (Elapse 6000)) (Try 2 ''b'')
     \<and> lock_run 5000000 s [Release 1, Try 3 ''c'', Elapse 4000] = Some s' \<and> lock_holds s' 2 1000"
proof -
  let ?s = "lock_apply 5000000 (lock_apply 5000000 (lock_apply 5000000 lock_world_empty (Try 1 ''a'')) (Elapse 6000)) (Try 2 ''b'')"
  have s: "?s = \<lparr>lw_key = Some (''b'', 5000), lw_tokens = (\<lambda>_. None)(1 := Some ''a'', 2 := Some ''b''), lw_granted = [''b'', ''a'']\<rparr>"
    by (simp add: lock_try_def lock_elapse_def lock_world_empty_def milliseconds_def whole_ms_def)
  have "lock_reachable 5000000 ?s"
    by (intro lock_step lock_start) (simp_all add: lock_try_def lock_elapse_def lock_world_empty_def milliseconds_def whole_ms_def)
  moreover have "lock_holds ?s 2 5000" unfolding s by (simp add: lock_holds_def)
  moreover obtain s' where "lock_run 5000000 ?s [Release 1, Try 3 ''c'', Elapse 4000] = Some s'"
    unfolding s by (simp add: lock_release_def LOCK_RELEASE_def)
  ultimately show ?thesis
    using lock_excludes [of 5000000 ?s 2 5000 "[Release 1, Try 3 ''c'', Elapse 4000]" s'] by (auto simp: foreign_action_def)
qed

text \<open>The acquisition loop: without a wait there is one attempt; a refusal means that every attempt found the lock held.\<close>

lemma lock_acquire_once: "lock_acquire (Suc n) seen clock None k = Some (seen k = None, k)"
  by simp

lemma lock_acquire_sound:
  "lock_acquire n seen clock deadline k = Some (got, m) \<Longrightarrow>
     k \<le> m \<and> (\<forall>j. k \<le> j \<and> j < m \<longrightarrow> seen j \<noteq> None) \<and> (got \<longleftrightarrow> seen m = None)"
proof (induction n arbitrary: k)
  case (Suc n)
  show ?case
  proof (cases "seen k = None \<or> (case deadline of None \<Rightarrow> True | Some d \<Rightarrow> d \<le> clock k)")
    case True
    then show ?thesis using Suc.prems by (auto split: if_splits)
  next
    case False
    then have "lock_acquire n seen clock deadline (Suc k) = Some (got, m)" using Suc.prems by (simp split: if_splits)
    from Suc.IH [OF this] False show ?thesis by (metis Suc_leD Suc_leI le_neq_implies_less)
  qed
qed simp

end
