(* ===== verification/Queries.thy ===== *)
theory Queries
  imports Mappers Event_Codec
begin

text \<open>
  What a client reads: the views (\<open>src/src/application/dto/views.py\<close>), the query use cases of
  \<open>src/src/application/use_cases/runs.py\<close>, the project use cases of \<open>projects.py\<close> and the repository queries they rest on.
\<close>

section \<open>Views\<close>

record project_view =
  pv_id :: project_id
  pv_name :: string
  pv_repository_url :: "string option"
  pv_default_branch :: string
  pv_language :: string
  pv_created_at :: moment

definition project_view_of :: "project \<Rightarrow> project_view" where
  "project_view_of p =
     \<lparr>pv_id = pj_id p, pv_name = pj_name p, pv_repository_url = pj_repository_url p,
      pv_default_branch = pj_default_branch p, pv_language = language (pj_toolchain p), pv_created_at = pj_created_at p\<rparr>"

record run_view =
  vr_run_id :: run_id
  vr_project_id :: project_id
  vr_status :: run_status
  vr_objective :: string
  vr_candidate_count :: int
  vr_plan_revisions :: int
  vr_repair_iterations :: int
  vr_selected_candidate_id :: "candidate_id option"
  vr_input_tokens :: int
  vr_output_tokens :: int
  vr_failure_kind :: "failure_kind option"
  vr_failure_reason :: "string option"
  vr_created_at :: moment
  vr_updated_at :: moment
  vr_completed_at :: "moment option"

definition run_view_of :: "run \<Rightarrow> run_view" where
  "run_view_of r =
     \<lparr>vr_run_id = r_id r, vr_project_id = r_project_id r, vr_status = r_status r, vr_objective = r_objective r,
      vr_candidate_count = r_candidate_count r, vr_plan_revisions = r_plan_revisions r,
      vr_repair_iterations = r_repair_iterations r, vr_selected_candidate_id = r_selected_candidate_id r,
      vr_input_tokens = input_tokens (r_token_usage r), vr_output_tokens = output_tokens (r_token_usage r),
      vr_failure_kind = r_failure_kind r, vr_failure_reason = r_failure_reason r, vr_created_at = r_created_at r,
      vr_updated_at = r_updated_at r, vr_completed_at = r_completed_at r\<rparr>"

record candidate_view =
  cv_id :: candidate_id
  cv_run_id :: run_id
  cv_index :: int
  cv_status :: candidate_status
  cv_viable :: bool
  cv_build_passed :: "bool option"
  cv_tests_passed :: "bool option"
  cv_validation_summary :: string
  cv_changed_files :: "string list"
  cv_total_churn :: int
  cv_review_verdict :: "review_verdict option"
  cv_coder_iterations :: int
  cv_repair_iterations :: int
  cv_worker_id :: "worker_id option"
  cv_summary :: string
  cv_uncertainties :: "string list"

definition candidate_view_of :: "candidate \<Rightarrow> candidate_view" where
  "candidate_view_of c =
     \<lparr>cv_id = c_id c, cv_run_id = c_run_id c, cv_index = c_index c, cv_status = c_status c, cv_viable = is_viable c,
      cv_build_passed = build_passed (c_validation c), cv_tests_passed = tests_passed (c_validation c),
      cv_validation_summary = report_summary (c_validation c),
      cv_changed_files = (case c_patch c of None \<Rightarrow> [] | Some p \<Rightarrow> changed_paths p),
      cv_total_churn = (case c_patch c of None \<Rightarrow> 0 | Some p \<Rightarrow> total_churn p),
      cv_review_verdict = c_review_verdict c, cv_coder_iterations = c_coder_iterations c,
      cv_repair_iterations = c_repair_iterations c, cv_worker_id = c_worker_id c, cv_summary = c_summary c,
      cv_uncertainties = c_uncertainties c\<rparr>"

record plan_task_view =
  ptv_key :: string
  ptv_title :: string
  ptv_description :: string
  ptv_depends_on :: "string list"
  ptv_target_paths :: "string list"

definition plan_task_view_of :: "plan_task \<Rightarrow> plan_task_view" where
  "plan_task_view_of t =
     \<lparr>ptv_key = t_key t, ptv_title = t_title t, ptv_description = t_description t, ptv_depends_on = t_depends_on t,
      ptv_target_paths = t_target_paths t\<rparr>"

record plan_view =
  plv_id :: plan_id
  plv_run_id :: run_id
  plv_revision :: int
  plv_objective :: string
  plv_tasks :: "plan_task_view list"
  plv_assumptions :: "string list"
  plv_constraints :: "string list"
  plv_risk_areas :: "string list"
  plv_max_parallelism :: int
  plv_created_at :: moment

definition plan_view_of :: "plan \<Rightarrow> error + plan_view" where
  "plan_view_of p = bind_sum (max_parallelism p) (\<lambda>width. Inr
     \<lparr>plv_id = p_id p, plv_run_id = p_run_id p, plv_revision = p_revision p, plv_objective = p_objective p,
      plv_tasks = map plan_task_view_of (p_tasks p), plv_assumptions = p_assumptions p, plv_constraints = p_constraints p,
      plv_risk_areas = p_risk_areas p, plv_max_parallelism = width, plv_created_at = p_created_at p\<rparr>)"

record worker_view =
  wv_id :: worker_id
  wv_model_id :: string
  wv_status :: worker_status
  wv_endpoint :: string
  wv_capacity :: int
  wv_active_jobs :: int
  wv_context_length :: int
  wv_gpu_type :: "string option"
  wv_gpu_count :: int
  wv_supported_roles :: "string list"
  wv_registered_at :: moment
  wv_last_heartbeat_at :: moment

definition worker_view_of :: "worker \<Rightarrow> worker_view" where
  "worker_view_of w =
     (let caps = w_capabilities w in
      \<lparr>wv_id = w_id w, wv_model_id = model_id caps, wv_status = w_status w, wv_endpoint = endpoint_url (w_endpoint w),
       wv_capacity = max_concurrency caps, wv_active_jobs = active_jobs (w_load w), wv_context_length = context_length caps,
       wv_gpu_type = gpu_type (gpu caps), wv_gpu_count = gpu_count (gpu caps),
       wv_supported_roles = map agent_role_value (sorted_roles (supported_roles caps)),
       wv_registered_at = w_registered_at w, wv_last_heartbeat_at = w_last_heartbeat_at w\<rparr>)"

record event_view =
  ev_sequence :: int
  ev_name :: string
  ev_occurred_at :: moment
  ev_payload :: json_object

record run_detail_view =
  rd_run :: run_view
  rd_plan :: "plan_view option"
  rd_candidates :: "candidate_view list"

section \<open>Repository queries\<close>

text \<open>\<open>.limit(limit).offset(offset)\<close>.\<close>

definition page :: "nat \<Rightarrow> nat \<Rightarrow> 'a list \<Rightarrow> 'a list" where
  "page limit offset xs = take limit (drop offset xs)"

text \<open>The unique index on the name refuses a second row of the same name when the insert is flushed.\<close>

definition projects_add :: "store \<Rightarrow> project \<Rightarrow> error + store" where
  "projects_add s p =
     (if pj_name p \<in> pj_name ` set (map snd (s_projects s)) then Inl (OtherException ''IntegrityError'')
      else Inr (s\<lparr>s_projects := dict_set (pj_id p) p (s_projects s)\<rparr>))"

definition projects_get_by_name :: "store \<Rightarrow> string \<Rightarrow> project option" where
  "projects_get_by_name s name = find (\<lambda>p. pj_name p = name) (map snd (s_projects s))"

definition projects_list_all :: "store \<Rightarrow> nat \<Rightarrow> nat \<Rightarrow> project list" where
  "projects_list_all s limit offset =
     page limit offset (py_sorted (\<lambda>p. (pj_created_at p, project_uuid (pj_id p))) (map snd (s_projects s)))"

definition runs_list_by_project :: "store \<Rightarrow> project_id \<Rightarrow> nat \<Rightarrow> nat \<Rightarrow> run list" where
  "runs_list_by_project s pid limit offset =
     page limit offset (py_sorted (\<lambda>r. (- r_created_at r, run_uuid (r_id r))) (filter (\<lambda>r. r_project_id r = pid) (map snd (s_runs s))))"

definition runs_count_by_status :: "store \<Rightarrow> run_status \<Rightarrow> nat" where
  "runs_count_by_status s st = length (filter (\<lambda>r. r_status r = st) (map snd (s_runs s)))"

section \<open>Project use cases\<close>

record create_project_command =
  cp_name :: string
  cp_repository_url :: "string option"
  cp_local_path :: "string option"
  cp_default_branch :: string
  cp_toolchain :: "toolchain option"
  cp_metadata :: json_object

text \<open>\<open>supply\<close> is the number of the next identifier.\<close>

definition create_project :: "store \<Rightarrow> create_project_command \<Rightarrow> nat \<Rightarrow> moment \<Rightarrow> (store, project_view) result" where
  "create_project s cmd supply_no now =
     (case projects_get_by_name s (cp_name cmd) of
        Some existing \<Rightarrow> (s, Inr (project_view_of existing))
      | None \<Rightarrow>
          (case project_create (ProjectId supply_no) (cp_name cmd) now (cp_repository_url cmd) (cp_local_path cmd)
                  (cp_default_branch cmd) (cp_toolchain cmd) (Some (cp_metadata cmd)) of
             Inl e \<Rightarrow> (s, Inl e)
           | Inr p \<Rightarrow>
               (case projects_add s p of
                  Inl e \<Rightarrow> (s, Inl e)
                | Inr s1 \<Rightarrow> (commit s1 [], Inr (project_view_of p)))))"

definition get_project :: "store \<Rightarrow> project_id \<Rightarrow> error + project_view" where
  "get_project s pid =
     (case dict_get (s_projects s) pid of
        None \<Rightarrow> Inl (EntityNotFoundError ''Project'' (project_uuid pid))
      | Some p \<Rightarrow> Inr (project_view_of p))"

definition list_projects :: "store \<Rightarrow> nat \<Rightarrow> nat \<Rightarrow> project_view list" where
  "list_projects s limit offset = map project_view_of (projects_list_all s limit offset)"

section \<open>Run queries\<close>

definition get_run :: "store \<Rightarrow> run_id \<Rightarrow> bool \<Rightarrow> error + run_detail_view" where
  "get_run s rid detailed =
     (case dict_get (s_runs s) rid of
        None \<Rightarrow> Inl (EntityNotFoundError ''Run'' (run_uuid rid))
      | Some r \<Rightarrow>
          if \<not> detailed then Inr \<lparr>rd_run = run_view_of r, rd_plan = None, rd_candidates = []\<rparr>
          else bind_sum (case plans_latest_for_run s rid of
                           None \<Rightarrow> Inr None
                         | Some p \<Rightarrow> map_sum id Some (plan_view_of p)) (\<lambda>pv.
               Inr \<lparr>rd_run = run_view_of r, rd_plan = pv,
                    rd_candidates = map candidate_view_of (candidates_list_by_run s rid)\<rparr>))"

definition list_runs :: "store \<Rightarrow> project_id \<Rightarrow> nat \<Rightarrow> nat \<Rightarrow> run_view list" where
  "list_runs s pid limit offset = map run_view_of (runs_list_by_project s pid limit offset)"

definition list_candidates :: "store \<Rightarrow> run_id \<Rightarrow> candidate_view list" where
  "list_candidates s rid = map candidate_view_of (candidates_list_by_run s rid)"

definition list_run_events :: "store \<Rightarrow> run_id \<Rightarrow> int option \<Rightarrow> nat \<Rightarrow> event_view list" where
  "list_run_events s rid after_sequence limit =
     map (\<lambda>(n, e). \<lparr>ev_sequence = n, ev_name = event_name e, ev_occurred_at = occurred_at e, ev_payload = payload e\<rparr>)
       (events_list_by_run (s_events s) rid after_sequence limit)"

section \<open>Pages\<close>

text \<open>Consecutive pages put together are the listing, with nothing missing and nothing twice.\<close>

lemma pages_concat: "length xs \<le> n * limit \<Longrightarrow> concat (map (\<lambda>k. page limit (k * limit) xs) [0..<n]) = xs"
proof -
  have "concat (map (\<lambda>k. page limit (k * limit) xs) [0..<n]) = take (n * limit) xs"
  proof (induction n)
    case (Suc n)
    have "take (Suc n * limit) xs = take (n * limit) xs @ page limit (n * limit) xs"
      by (simp add: page_def take_add [symmetric] add.commute)
    with Suc show ?case by simp
  qed simp
  then show "length xs \<le> n * limit \<Longrightarrow> ?thesis" by simp
qed

lemma pages_of_projects:
  "length (s_projects s) \<le> n * limit \<Longrightarrow>
   concat (map (\<lambda>k. list_projects s limit (k * limit)) [0..<n]) =
     map project_view_of (py_sorted (\<lambda>p. (pj_created_at p, project_uuid (pj_id p))) (map snd (s_projects s)))"
  using pages_concat [of "map project_view_of (py_sorted (\<lambda>p. (pj_created_at p, project_uuid (pj_id p))) (map snd (s_projects s)))" n limit]
  by (simp add: list_projects_def projects_list_all_def page_def take_map drop_map)

section \<open>Properties\<close>

text \<open>Names are stored stripped, and no two projects share one.\<close>

definition wf_projects :: "store \<Rightarrow> bool" where
  "wf_projects s \<longleftrightarrow> dict_wf (s_projects s) \<and> distinct (map (pj_name \<circ> snd) (s_projects s))
     \<and> (\<forall>(k, p) \<in> set (s_projects s). strip (pj_name p) = pj_name p)"

lemma dict_set_fresh: "k \<notin> fst ` set d \<Longrightarrow> dict_set k v d = d @ [(k, v)]"
  by (induction d) auto

lemma get_by_name_Some:
  "projects_get_by_name s name = Some p \<Longrightarrow> p \<in> set (map snd (s_projects s)) \<and> pj_name p = name"
  unfolding projects_get_by_name_def find_Some_iff by (metis nth_mem)

lemma project_create_Inr:
  "project_create pid name now url path branch tc meta = Inr p \<Longrightarrow> pj_id p = pid \<and> pj_name p = strip name \<and> strip name \<noteq> []"
  by (auto simp: project_create_def mk_project_def split: if_splits)

lemma create_project_cases:
  obtains (existing) p where "projects_get_by_name s (cp_name cmd) = Some p"
      "create_project s cmd n now = (s, Inr (project_view_of p))"
  | (refused) e where "create_project s cmd n now = (s, Inl e)" "projects_get_by_name s (cp_name cmd) = None"
  | (created) p where "create_project s cmd n now = (commit (s\<lparr>s_projects := dict_set (ProjectId n) p (s_projects s)\<rparr>) [],
       Inr (project_view_of p))" "pj_id p = ProjectId n" "pj_name p = strip (cp_name cmd)"
       "strip (cp_name cmd) \<notin> pj_name ` set (map snd (s_projects s))" "projects_get_by_name s (cp_name cmd) = None"
proof (cases "projects_get_by_name s (cp_name cmd)")
  case (Some p)
  then show ?thesis by (intro existing) (simp_all add: create_project_def)
next
  case none: None
  show ?thesis
  proof (cases "project_create (ProjectId n) (cp_name cmd) now (cp_repository_url cmd) (cp_local_path cmd)
                  (cp_default_branch cmd) (cp_toolchain cmd) (Some (cp_metadata cmd))")
    case (Inl e)
    with none show ?thesis by (intro refused) (simp_all add: create_project_def)
  next
    case (Inr p)
    note p = project_create_Inr [OF Inr]
    show ?thesis
    proof (cases "pj_name p \<in> pj_name ` set (map snd (s_projects s))")
      case True
      with Inr none show ?thesis by (intro refused) (simp_all add: create_project_def projects_add_def)
    next
      case False
      with Inr none show ?thesis
        by (intro created [OF _ p [THEN conjunct1] p [THEN conjunct2, THEN conjunct1]])
           (simp_all add: create_project_def projects_add_def p)
    qed
  qed
qed

lemma wf_projects_create:
  assumes "wf_projects s" and "ProjectId n \<notin> fst ` set (s_projects s)"
  shows "wf_projects (fst (create_project s cmd n now))"
  using assms by (cases rule: create_project_cases [of s cmd n now]) (auto simp: wf_projects_def dict_set_fresh commit_def)

text \<open>
  Registering a project. A name in use returns the project that has it and changes nothing; otherwise the project is
  stored under its stripped name, so that names stay unique, and asking again with the stored name returns
  the same view. The lookup however uses the name as sent: a name that is in use but for blanks around it is not found
  and then refused by the unique index with an exception outside the domain's errors, instead of being answered with
  the existing project.
\<close>

theorem project_registration:
  assumes "wf_projects s" and "ProjectId n \<notin> fst ` set (s_projects s)"
  shows "wf_projects (fst (create_project s cmd n now))
    \<and> (\<forall>p \<in> set (map snd (s_projects s)). cp_name cmd = pj_name p \<longrightarrow>
         create_project s cmd n now = (s, Inr (project_view_of p)))
    \<and> (\<forall>v. snd (create_project s cmd n now) = Inr v \<longrightarrow>
         (\<forall>again m later. cp_name again = pv_name v \<longrightarrow>
            create_project (fst (create_project s cmd n now)) again m later = (fst (create_project s cmd n now), Inr v)))
    \<and> (\<forall>p \<in> set (map snd (s_projects s)). strip (cp_name cmd) = pj_name p \<longrightarrow> cp_name cmd \<noteq> pj_name p \<longrightarrow>
         (\<exists>e. create_project s cmd n now = (s, Inl e) \<and> error_code e = None))"
proof -
  have unique: "projects_get_by_name s' (pj_name p) = Some p" if wf': "wf_projects s'" and mem: "p \<in> set (map snd (s_projects s'))" for s' p
  proof -
    have names: "distinct (map pj_name (map snd (s_projects s')))" using wf' by (simp add: wf_projects_def)
    obtain q where q: "projects_get_by_name s' (pj_name p) = Some q"
      using mem by (cases "projects_get_by_name s' (pj_name p)")
        (auto simp: projects_get_by_name_def find_None_iff)
    then have "q \<in> set (map snd (s_projects s'))" "pj_name q = pj_name p"
      using get_by_name_Some by blast+
    with names mem q show ?thesis by (metis distinct_map inj_on_def)
  qed
  let ?s = "fst (create_project s cmd n now)"
  have wf: "wf_projects ?s" using assms by (rule wf_projects_create)
  have "create_project s cmd n now = (s, Inr (project_view_of p))" if "p \<in> set (map snd (s_projects s))" "cp_name cmd = pj_name p" for p
    using unique [OF assms(1) that(1)] that(2) by (simp add: create_project_def)
  moreover have "create_project ?s again m later = (?s, Inr v)"
    if v: "snd (create_project s cmd n now) = Inr v" and again: "cp_name again = pv_name v" for v again m later
  proof -
    have "\<exists>p. v = project_view_of p \<and> p \<in> set (map snd (s_projects ?s))"
      using v assms(2) get_by_name_Some [of s "cp_name cmd"]
      by (cases rule: create_project_cases [of s cmd n now]) (auto simp: commit_def dict_set_fresh)
    then obtain p where p: "v = project_view_of p" "p \<in> set (map snd (s_projects ?s))" by blast
    from unique [OF wf p(2)] show ?thesis
      using again by (simp add: create_project_def p(1) project_view_of_def)
  qed
  moreover have "\<exists>e. create_project s cmd n now = (s, Inl e) \<and> error_code e = None"
    if p: "p \<in> set (map snd (s_projects s))" "strip (cp_name cmd) = pj_name p" "cp_name cmd \<noteq> pj_name p" for p
  proof -
    have none: "projects_get_by_name s (cp_name cmd) = None"
    proof (rule ccontr)
      assume "projects_get_by_name s (cp_name cmd) \<noteq> None"
      then obtain q where "q \<in> set (map snd (s_projects s))" "pj_name q = cp_name cmd"
        using get_by_name_Some by blast
      then have "strip (cp_name cmd) = cp_name cmd" using assms(1) by (auto simp: wf_projects_def)
      with p show False by simp
    qed
    show ?thesis
      using none p(1,2)
      by (auto simp: create_project_def project_create_def mk_project_def projects_add_def image_iff
            split: sum.splits if_splits)
  qed
  ultimately show ?thesis using wf by blast
qed

abbreviation demo_registered :: project where
  "demo_registered \<equiv> \<lparr>pj_id = ProjectId 1, pj_name = ''demo'', pj_repository_url = Some ''u'', pj_default_branch = ''main'',
     pj_created_at = 0, pj_toolchain = default_toolchain, pj_local_path = None, pj_metadata = []\<rparr>"

abbreviation demo_project_store :: store where
  "demo_project_store \<equiv> \<lparr>s_projects = [(ProjectId 1, demo_registered)], s_runs = [], s_jobs = [], s_candidates = [], s_plans = [],
     s_reviews = [], s_tool_results = [], s_events = []\<rparr>"

abbreviation demo_padded_command :: create_project_command where
  "demo_padded_command \<equiv> \<lparr>cp_name = '' demo'', cp_repository_url = Some ''u'', cp_local_path = None,
     cp_default_branch = ''main'', cp_toolchain = None, cp_metadata = []\<rparr>"

theorem project_registration_witness:
  "\<exists>e. create_project demo_project_store demo_padded_command 2 5 = (demo_project_store, Inl e) \<and> error_code e = None"
proof -
  have strips: "strip ''demo'' = ''demo''" "strip '' demo'' = ''demo''" by code_simp+
  have wf: "wf_projects demo_project_store" using strips by (simp add: wf_projects_def)
  have new: "ProjectId 2 \<notin> fst ` set (s_projects demo_project_store)" by simp
  have "demo_registered \<in> set (map snd (s_projects demo_project_store))" by simp
  with project_registration [OF wf new, of demo_padded_command 5] strips show ?thesis by simp
qed

end
