(* ===== verification/Event_Stream.thy ===== *)
theory Event_Stream
  imports Queries Regex
begin

text \<open>
  Following a run over Server-Sent Events: the public form of an event (\<open>src/src/interfaces/api/sse.py\<close>) and the stream that
  joins the durable log with the live bus (\<open>src/src/interfaces/api/routes/events.py\<close>). A frame keeps the document that
  \<open>_frame\<close> renders, before \<open>json.dumps\<close>.
\<close>

section \<open>Public payloads\<close>

definition HIDDEN_KEYS :: "string list" where
  "HIDDEN_KEYS = [''chain_of_thought'', ''completion'', ''messages'', ''prompt'', ''prompts'', ''raw_output'', ''raw_response'',
     ''reasoning'', ''scratchpad'', ''thinking'', ''thought'', ''tokens_text'']"

definition MAX_STRING_LENGTH :: nat where
  "MAX_STRING_LENGTH = 2000"

definition hidden :: "string \<Rightarrow> bool" where
  "hidden key \<longleftrightarrow> lower key \<in> set HIDDEN_KEYS"

text \<open>
  \<open>_bound\<close>. The suffix begins with an ellipsis, a character outside the first 256 code points, and is therefore
  an argument.
\<close>

fun bound :: "string \<Rightarrow> json \<Rightarrow> json" where
  "bound suffix (JStr s) = (if MAX_STRING_LENGTH < length s then JStr (take MAX_STRING_LENGTH s @ suffix) else JStr s)"
| "bound suffix (JObj kvs) = JObj (filter (\<lambda>(k, v). \<not> hidden k) (map (\<lambda>(k, v). (k, bound suffix v)) kvs))"
| "bound suffix (JArr xs) = JArr (map (bound suffix) xs)"
| "bound suffix v = v"

definition public_payload :: "string \<Rightarrow> json_object \<Rightarrow> json_object" where
  "public_payload suffix doc = filter (\<lambda>(k, v). \<not> hidden k) (map (\<lambda>(k, v). (k, bound suffix v)) doc)"

text \<open>What must hold of anything that leaves the process: no hidden key at any depth, no text beyond the limit.\<close>

fun presentable :: "nat \<Rightarrow> json \<Rightarrow> bool" where
  "presentable n (JStr s) \<longleftrightarrow> length s \<le> n"
| "presentable n (JObj kvs) \<longleftrightarrow> list_all (\<lambda>(k, v). \<not> hidden k \<and> presentable n v) kvs"
| "presentable n (JArr xs) \<longleftrightarrow> list_all (presentable n) xs"
| "presentable n v \<longleftrightarrow> True"

lemma bound_presentable: "presentable (MAX_STRING_LENGTH + length suffix) (bound suffix v)"
  by (induction suffix v rule: bound.induct) (auto simp: list_all_iff)

text \<open>Nothing else is changed: what is presentable already passes through untouched.\<close>

lemma bound_id: "presentable MAX_STRING_LENGTH v \<Longrightarrow> bound suffix v = v"
proof (induction suffix v rule: bound.induct)
  case (2 suffix kvs)
  have "map (\<lambda>(k, v). (k, bound suffix v)) kvs = kvs"
    using 2 by (intro map_idI) (auto simp: list_all_iff)
  moreover have "filter (\<lambda>(k, v). \<not> hidden k) kvs = kvs"
    using "2.prems" by (auto simp: list_all_iff filter_id_conv)
  ultimately show ?case by simp
qed (auto simp: list_all_iff intro: map_idI)

section \<open>Frames\<close>

record frame =
  fr_id :: "string option"
  fr_event :: string
  fr_sequence :: "int option"
  fr_occurred_at :: moment
  fr_payload :: json_object

definition replayed_event :: "string \<Rightarrow> event_view \<Rightarrow> frame" where
  "replayed_event suffix v =
     \<lparr>fr_id = Some (show_int (ev_sequence v)), fr_event = ev_name v, fr_sequence = Some (ev_sequence v),
      fr_occurred_at = ev_occurred_at v, fr_payload = public_payload suffix (ev_payload v)\<rparr>"

definition live_event :: "string \<Rightarrow> event \<Rightarrow> frame" where
  "live_event suffix e =
     \<lparr>fr_id = None, fr_event = event_name e, fr_sequence = None, fr_occurred_at = occurred_at e,
      fr_payload = public_payload suffix (payload e)\<rparr>"

definition TERMINAL_EVENT_NAMES :: "string list" where
  "TERMINAL_EVENT_NAMES = [''run.completed'', ''run.failed'', ''run.cancelled'']"

section \<open>The replay\<close>

definition REPLAY_PAGE_SIZE :: nat where
  "REPLAY_PAGE_SIZE = 500"

text \<open>
  \<open>_replay\<close>: pages are read until one is not full. The log may grow between two reads: \<open>snap k\<close> is the store the \<open>k\<close>-th read
  finds. A log that grows by a full page per read would keep the loop going, so the number of reads is
  bounded by an argument, and \<open>None\<close> says that more were needed.
\<close>

fun replay :: "nat \<Rightarrow> (nat \<Rightarrow> store) \<Rightarrow> nat \<Rightarrow> run_id \<Rightarrow> int option \<Rightarrow> event_view list option" where
  "replay 0 snap k r position = None"
| "replay (Suc reads) snap k r position =
     (let batch = list_run_events (snap k) r position REPLAY_PAGE_SIZE in
      if length batch < REPLAY_PAGE_SIZE then Some batch
      else map_option (\<lambda>rest. batch @ rest) (replay reads snap (Suc k) r (Some (ev_sequence (last batch)))))"

text \<open>How many reads a replay makes; the status is read after the last of them.\<close>

fun reads_made :: "nat \<Rightarrow> (nat \<Rightarrow> store) \<Rightarrow> nat \<Rightarrow> run_id \<Rightarrow> int option \<Rightarrow> nat" where
  "reads_made 0 snap k r position = 0"
| "reads_made (Suc reads) snap k r position =
     (let batch = list_run_events (snap k) r position REPLAY_PAGE_SIZE in
      if length batch < REPLAY_PAGE_SIZE then 1
      else Suc (reads_made reads snap (Suc k) r (Some (ev_sequence (last batch)))))"

section \<open>The stream\<close>

text \<open>
  What goes on while a client is connected, as a timeline. An instant is one step of the stream (opening the subscription, reading a
  page, reading the status); \<open>tl_store\<close> is the database each of them finds, and \<open>tl_published\<close> holds the events of the run that are
  published on the bus, in order: \<open>(i, e)\<close> is published after the step of the instant before \<open>i\<close> and before the one of \<open>i\<close>.
  A subscription that is opened at an instant receives what is published after it; this is what the subscriptions of \<open>Bus\<close> deliver.
\<close>

record timeline =
  tl_store :: "nat \<Rightarrow> store"
  tl_published :: "(nat \<times> event) list"

definition subscribed_at :: "timeline \<Rightarrow> nat \<Rightarrow> event list" where
  "subscribed_at tml t = map snd (filter (\<lambda>(i, e). t < i) (tl_published tml))"

text \<open>The live half: events until one of a terminal name; the list is what the subscription delivers before it ends or waits.\<close>

fun live_frames :: "string \<Rightarrow> event list \<Rightarrow> frame list" where
  "live_frames suffix [] = []"
| "live_frames suffix (e # es) =
     live_event suffix e # (if event_name e \<in> set TERMINAL_EVENT_NAMES then [] else live_frames suffix es)"

text \<open>
  The body of \<open>_run_event_stream\<close> under its subscription, from the instant \<open>k\<close>: the pages, then the status, then what the subscription
  delivers.
\<close>

definition stream_within ::
  "string \<Rightarrow> nat \<Rightarrow> (nat \<Rightarrow> store) \<Rightarrow> nat \<Rightarrow> run_id \<Rightarrow> int option \<Rightarrow> event list \<Rightarrow> (error + frame list) option" where
  "stream_within suffix reads snap k r cursor live =
     (case replay reads snap k r cursor of
        None \<Rightarrow> None
      | Some views \<Rightarrow>
          let frames = map (replayed_event suffix) views in
          (case get_run (snap (k + reads_made reads snap k r cursor)) r False of
             Inl e \<Rightarrow> Some (Inl e)
           | Inr detail \<Rightarrow>
               if run_is_terminal (vr_status (rd_run detail)) then Some (Inr frames)
               else Some (Inr (frames @ live_frames suffix live))))"

text \<open>
  \<open>_run_event_stream\<close>, started at the instant \<open>t\<close>: the subscription is opened then, each page of the replay is read at an instant of its own
  after it, the status of the run is read after the last page.
\<close>

definition run_event_stream ::
  "string \<Rightarrow> nat \<Rightarrow> timeline \<Rightarrow> nat \<Rightarrow> run_id \<Rightarrow> int option \<Rightarrow> (error + frame list) option" where
  "run_event_stream suffix reads tml t r cursor =
     (let live = subscribed_at tml t in stream_within suffix reads (tl_store tml) (Suc t) r cursor live)"

text \<open>
  The route: the header wins over the query parameter, and a run that does not exist is an error before the
  stream opens.
\<close>

definition stream_run_events ::
  "string \<Rightarrow> nat \<Rightarrow> timeline \<Rightarrow> nat \<Rightarrow> run_id \<Rightarrow> int option \<Rightarrow> int option \<Rightarrow> (error + frame list) option" where
  "stream_run_events suffix reads tml t r last_event_id after =
     (case get_run (tl_store tml t) r False of
        Inl e \<Rightarrow> Some (Inl e)
      | Inr _ \<Rightarrow>
          run_event_stream suffix reads tml (Suc t) r (case last_event_id of None \<Rightarrow> after | Some n \<Rightarrow> Some n))"

section \<open>What a replay delivers\<close>

text \<open>The view of the \<open>n\<close>-th event of a history, counted from one.\<close>

definition numbered_views :: "nat \<Rightarrow> event list \<Rightarrow> event_view list" where
  "numbered_views c es = map (\<lambda>(n, e). \<lparr>ev_sequence = n, ev_name = event_name e, ev_occurred_at = occurred_at e,
      ev_payload = payload e\<rparr>) (drop c (zip [1..int (length es)] es))"

lemma length_numbered_views [simp]: "length (numbered_views c es) = length es - c"
  by (simp add: numbered_views_def)

lemma numbered_views_sequence: "i < length es - c \<Longrightarrow> ev_sequence (numbered_views c es ! i) = int (c + i) + 1"
  by (simp add: numbered_views_def nth_upto split_def)

lemma list_run_events_eq:
  assumes "gapless (s_events s)"
  shows "list_run_events s r (Some (int c)) limit = take limit (numbered_views c (log_events (s_events s) (Some r)))"
  by (simp add: list_run_events_def events_list_by_run_eq [OF assms] numbered_views_def take_map)

lemma list_run_events_start:
  assumes "gapless (s_events s)"
  shows "list_run_events s r None limit = list_run_events s r (Some (int 0)) limit"
proof -
  have "0 < er_sequence e" if "e \<in> set (s_events s)" "er_run e = Some r" for e
  proof -
    have "filter (\<lambda>e. er_run e = Some r) (s_events s) = number_events (Some r) 1 (log_events (s_events s) (Some r))"
      using assms by (simp add: gapless_def log_of_def)
    moreover have "e \<in> set (filter (\<lambda>e. er_run e = Some r) (s_events s))" using that by simp
    ultimately have "e \<in> set (number_events (Some r) 1 (log_events (s_events s) (Some r)))" by simp
    then have "er_sequence e \<in> set [1..int (length (log_events (s_events s) (Some r)))]"
      using number_events_sequences [of "Some r" 1 "log_events (s_events s) (Some r)"]
      by (metis (no_types) add.commute add_diff_cancel_right' image_eqI list.set_map)
    then show ?thesis by simp
  qed
  then have "filter (\<lambda>e. er_run e = Some r) (s_events s) = filter (\<lambda>e. er_run e = Some r \<and> 0 < er_sequence e) (s_events s)"
    by (intro filter_cong) auto
  then show ?thesis by (simp add: list_run_events_def events_list_by_run_def)
qed

text \<open>The log of a run as the successive reads find it: prefixes of one history.\<close>

definition reads_history :: "(nat \<Rightarrow> store) \<Rightarrow> run_id \<Rightarrow> event list \<Rightarrow> (nat \<Rightarrow> nat) \<Rightarrow> bool" where
  "reads_history snap r es n \<longleftrightarrow> (\<forall>k. gapless (s_events (snap k)) \<and> log_events (s_events (snap k)) (Some r) = take (n k) es
     \<and> n k \<le> length es \<and> n k \<le> n (Suc k))"

lemma numbered_views_split:
  assumes "c + 500 \<le> m" and "m \<le> n" and "n \<le> length es"
  shows "take 500 (numbered_views c (take m es)) @ numbered_views (c + 500) (take n es) = numbered_views c (take n es)"
proof (rule nth_equalityI)
  show "length (take 500 (numbered_views c (take m es)) @ numbered_views (c + 500) (take n es)) =
      length (numbered_views c (take n es))"
    using assms by simp
  fix i
  assume "i < length (take 500 (numbered_views c (take m es)) @ numbered_views (c + 500) (take n es))"
  then have i: "c + i < n" using assms by (auto split: if_splits)
  show "(take 500 (numbered_views c (take m es)) @ numbered_views (c + 500) (take n es)) ! i = numbered_views c (take n es) ! i"
  proof (cases "i < 500")
    case True
    then show ?thesis using assms i by (simp add: nth_append numbered_views_def nth_upto)
  next
    case False
    then show ?thesis using assms i by (simp add: nth_append numbered_views_def nth_upto)
  qed
qed

lemma replay_reads_the_history:
  assumes hist: "reads_history snap r es n"
  shows "n (k + reads) < c + 500 * reads \<Longrightarrow> 0 < reads \<Longrightarrow>
    replay reads snap k r (Some (int c)) = Some (numbered_views c (take (n (k + reads_made reads snap k r (Some (int c)) - 1)) es))
    \<and> 0 < reads_made reads snap k r (Some (int c))"
proof (induction reads arbitrary: k c)
  case 0
  then show ?case by simp
next
  case (Suc reads)
  let ?log = "take (n k) es"
  have log: "gapless (s_events (snap k))" "log_events (s_events (snap k)) (Some r) = ?log" "n k \<le> length es"
    and grows: "n k \<le> n (Suc k)" "n (Suc k) \<le> length es"
    using hist by (auto simp: reads_history_def)
  have batch: "list_run_events (snap k) r (Some (int c)) REPLAY_PAGE_SIZE = take 500 (numbered_views c ?log)"
    by (simp add: list_run_events_eq [OF log(1)] log(2) REPLAY_PAGE_SIZE_def)
  show ?case
  proof (cases "n k < c + 500")
    case True
    then have "length (take 500 (numbered_views c ?log)) < REPLAY_PAGE_SIZE"
      "take 500 (numbered_views c ?log) = numbered_views c ?log"
      using log(3) by (simp_all add: REPLAY_PAGE_SIZE_def)
    then show ?thesis by (simp only: replay.simps reads_made.simps Let_def batch if_True) simp
  next
    case False
    have last: "ev_sequence (last (take 500 (numbered_views c ?log))) = int (c + 500)"
    proof -
      have len: "500 \<le> length (numbered_views c ?log)" using False log(3) by simp
      then have "last (take 500 (numbered_views c ?log)) = numbered_views c ?log ! 499"
        by (subst last_conv_nth) (force simp del: length_numbered_views, simp del: length_numbered_views)
      then show ?thesis using len numbered_views_sequence [of 499 ?log c] by simp
    qed
    have "n (Suc k + reads) < (c + 500) + 500 * reads" using Suc.prems by simp
    moreover have "0 < reads" using Suc.prems False grows(1) by (cases reads) auto
    ultimately have IH: "replay reads snap (Suc k) r (Some (int (c + 500))) =
          Some (numbered_views (c + 500) (take (n (Suc k + reads_made reads snap (Suc k) r (Some (int (c + 500))) - 1)) es))
        \<and> 0 < reads_made reads snap (Suc k) r (Some (int (c + 500)))"
      by (rule Suc.IH)
    let ?m = "reads_made reads snap (Suc k) r (Some (int (c + 500)))"
    have full: "\<not> length (take 500 (numbered_views c ?log)) < REPLAY_PAGE_SIZE"
      using False log(3) by (simp add: REPLAY_PAGE_SIZE_def)
    have step: "replay (Suc reads) snap k r (Some (int c)) =
        map_option (\<lambda>rest. take 500 (numbered_views c ?log) @ rest) (replay reads snap (Suc k) r (Some (int (c + 500))))"
      "reads_made (Suc reads) snap k r (Some (int c)) = Suc ?m"
      by (simp_all only: replay.simps reads_made.simps Let_def batch if_not_P [OF full] last)
    have "n k \<le> n (Suc k + ?m - 1)" "n (Suc k + ?m - 1) \<le> length es"
      using hist by (auto simp: reads_history_def intro: lift_Suc_mono_le [of n])
    with False IH show ?thesis
      using numbered_views_split [of c "n k" "n (Suc k + ?m - 1)" es]
      by (simp add: step del: of_nat_add replay.simps reads_made.simps)
  qed
qed

lemma reads_made_start:
  assumes "reads_history snap r es n"
  shows "replay reads snap k r None = replay reads snap k r (Some (int 0))"
    and "reads_made reads snap k r None = reads_made reads snap k r (Some (int 0))"
proof -
  have "gapless (s_events (snap k))" using assms by (simp add: reads_history_def)
  note start = list_run_events_start [OF this, of r REPLAY_PAGE_SIZE]
  show "replay reads snap k r None = replay reads snap k r (Some (int 0))"
    and "reads_made reads snap k r None = reads_made reads snap k r (Some (int 0))"
    by (cases reads, simp_all only: replay.simps reads_made.simps start)+
qed

text \<open>The last read of a replay, and the store the status is read from afterwards.\<close>

definition cursor_of :: "int option \<Rightarrow> nat" where
  "cursor_of c = (case c of None \<Rightarrow> 0 | Some n \<Rightarrow> nat n)"

lemma reads_made_le: "reads_made reads snap k r position \<le> reads"
  by (induction reads snap k r position rule: reads_made.induct) (simp_all add: Let_def)

lemma stream_frames:
  assumes hist: "reads_history snap r es n" and reads: "length es < 500 * reads"
    and cursor: "case cursor of None \<Rightarrow> True | Some c \<Rightarrow> 0 \<le> c"
  shows "\<exists>m. 0 < m \<and> m \<le> reads \<and> stream_within suffix reads snap k r cursor live =
     Some (map_sum id (\<lambda>detail. map (replayed_event suffix) (numbered_views (cursor_of cursor) (take (n (k + m - 1)) es))
          @ (if run_is_terminal (vr_status (rd_run detail)) then [] else live_frames suffix live))
        (get_run (snap (k + m)) r False))"
proof -
  let ?c = "cursor_of cursor" and ?m = "reads_made reads snap k r (Some (int (cursor_of cursor)))"
  have pos: "0 < reads" using reads by (cases reads) auto
  have "n (k + reads) \<le> length es" using hist by (simp add: reads_history_def)
  then have le: "n (k + reads) < ?c + 500 * reads" using reads by simp
  have same: "replay reads snap k r cursor = replay reads snap k r (Some (int ?c))"
    "reads_made reads snap k r cursor = ?m"
    using reads_made_start [OF hist, of reads k] cursor by (auto simp: cursor_of_def split: option.splits)
  note whole = replay_reads_the_history [OF hist le pos]
  show ?thesis
    using whole by (intro exI [of _ ?m])
      (simp add: stream_within_def same Let_def reads_made_le split: sum.splits)
qed

lemma butlast_filter_subset: "set (butlast (filter P xs)) \<subseteq> set (butlast xs)"
proof (induction xs)
  case (Cons x xs)
  have "set (butlast (filter P xs)) \<subseteq> set (butlast (x # xs))"
    using Cons.IH by auto
  moreover have "set (butlast (x # filter P xs)) \<subseteq> set (butlast (x # xs))"
    using Cons.IH by (cases "filter P xs = []") (auto simp: filter_empty_conv)
  ultimately show ?case by (cases "P x") (simp_all only: filter.simps if_True if_False)
qed simp

lemma live_frames_all:
  "\<forall>e \<in> set (butlast es). event_name e \<notin> set TERMINAL_EVENT_NAMES \<Longrightarrow> live_frames suffix es = map (live_event suffix) es"
  by (induction es) (auto split: if_splits)

lemma gapless_numbered: "gapless (number_events r 1 es)"
  by (auto simp: gapless_def log_of_def log_events_def)

lemma log_numbered: "log_events (number_events (Some r) 1 es) (Some r) = es"
  by (simp add: log_events_def log_of_def)

section \<open>A run that ends while a client connects\<close>

abbreviation demo_history :: "event list" where
  "demo_history \<equiv> [RunCreated 0 (RunId 2) (ProjectId 3) ''fix it'' 1, RunCompleted 9 (RunId 2) None]"

definition demo_log_store :: "nat \<Rightarrow> run_status \<Rightarrow> store" where
  "demo_log_store k st = \<lparr>s_projects = [], s_runs = [(RunId 2, demo_run\<lparr>r_status := st, r_events := []\<rparr>)], s_jobs = [],
     s_candidates = [], s_plans = [], s_reviews = [], s_tool_results = [],
     s_events = number_events (Some (RunId 2)) 1 (take k demo_history)\<rparr>"

text \<open>
  Two timelines of a client that connects at the instant 1, after the run was created. In the first the run is completed after the only page
  of the replay was read and before its status is; in the second it is completed after both, and the event is published then.
\<close>

definition demo_reads :: timeline where
  "demo_reads = \<lparr>tl_store = (\<lambda>k. if k \<le> 2 then demo_log_store 1 RUN_CODING else demo_log_store 2 RUN_COMPLETED),
     tl_published = [(0, demo_history ! 0), (3, demo_history ! 1)]\<rparr>"

definition demo_quiet_reads :: timeline where
  "demo_quiet_reads = \<lparr>tl_store = (\<lambda>k. if k \<le> 3 then demo_log_store 1 RUN_CODING else demo_log_store 2 RUN_COMPLETED),
     tl_published = [(0, demo_history ! 0), (5, demo_history ! 1)]\<rparr>"

lemma demo_reads_history:
  "reads_history (tl_store demo_reads) (RunId 2) demo_history (\<lambda>k. if k \<le> 2 then 1 else 2)"
  "reads_history (tl_store demo_quiet_reads) (RunId 2) demo_history (\<lambda>k. if k \<le> 3 then 1 else 2)"
  "reads_history (\<lambda>_. demo_log_store 1 RUN_CODING) (RunId 2) demo_history (\<lambda>_. 1)"
  by (auto simp: demo_reads_def demo_quiet_reads_def demo_log_store_def reads_history_def gapless_numbered log_numbered
      simp del: number_events.simps)

section \<open>Properties\<close>

text \<open>
  Nothing hidden leaves the process. In every frame of a stream, replayed or live, no key of the payload at any depth is
  one of the hidden ones, whatever its case, and no text is longer than the limit and its suffix.
\<close>

theorem frames_are_presentable:
  assumes "run_event_stream suffix reads tml t r cursor = Some (Inr frames)" and "f \<in> set frames"
  shows "presentable (2000 + length suffix) (JObj (fr_payload f))"
proof -
  have public: "public_payload suffix d = (case bound suffix (JObj d) of JObj kvs \<Rightarrow> kvs | _ \<Rightarrow> [])" for d
    by (simp add: public_payload_def)
  have doc: "presentable (2000 + length suffix) (JObj (public_payload suffix d))" for d
    using bound_presentable [of suffix "JObj d"] by (simp add: public MAX_STRING_LENGTH_def)
  have "\<forall>f \<in> set (live_frames suffix es). \<exists>d. fr_payload f = public_payload suffix d" for es
    by (induction es) (auto simp: live_event_def)
  moreover have "\<forall>f \<in> set (map (replayed_event suffix) vs). \<exists>d. fr_payload f = public_payload suffix d" for vs
    by (auto simp: replayed_event_def)
  ultimately have "\<exists>d. fr_payload f = public_payload suffix d"
    using assms by (fastforce simp: run_event_stream_def stream_within_def Let_def split: option.splits sum.splits if_splits)
  with doc show ?thesis by metis
qed

text \<open>
  The order of \<open>commit_and_publish\<close>: an event of the log \<open>es\<close> is published after it is committed, and every event is published. \<open>pos\<close> says
  which entry of the log each publication is; \<open>n i\<close> is the length of the log the step of the instant \<open>i\<close> finds.
\<close>

definition commits_first :: "timeline \<Rightarrow> event list \<Rightarrow> (nat \<Rightarrow> nat) \<Rightarrow> nat list \<Rightarrow> bool" where
  "commits_first tml es n pos \<longleftrightarrow> length pos = length (tl_published tml) \<and> {..<length es} \<subseteq> set pos
     \<and> (\<forall>q < length pos. pos ! q < n (fst (tl_published tml ! q)) \<and> snd (tl_published tml ! q) = es ! (pos ! q))"

lemma published_late_or_logged:
  assumes "commits_first tml es n pos" and "j < length es" and "\<And>i. i \<le> t \<Longrightarrow> n i \<le> j"
  shows "es ! j \<in> set (subscribed_at tml t)"
proof -
  obtain q where q: "q < length pos" "pos ! q = j"
    using assms(1,2) by (metis commits_first_def in_set_conv_nth lessThan_iff subsetD)
  then have pub: "j < n (fst (tl_published tml ! q))" "snd (tl_published tml ! q) = es ! j" "q < length (tl_published tml)"
    using assms(1) by (auto simp: commits_first_def)
  then have "t < fst (tl_published tml ! q)" using assms(3) [of "fst (tl_published tml ! q)"] by linarith
  then have "tl_published tml ! q \<in> set (filter (\<lambda>(i, e). t < i) (tl_published tml))" using pub(3) by (simp add: case_prod_beta)
  then have "snd (tl_published tml ! q) \<in> set (subscribed_at tml t)" unfolding subscribed_at_def list.set_map by (rule imageI)
  then show ?thesis by (simp only: pub(2))
qed


text \<open>
  A client can miss the end of a run. When the run ends between the last page of the replay and the reading of its status, the
  stream stops after the replay, without the terminal event and whatever was published on the bus.
\<close>

theorem stream_can_miss_the_end:
  assumes "reads_history (tl_store tml) r es n" and "n (Suc t) < 500" and "n (Suc t) < length es" and "length es < 500 * reads"
    and "get_run (tl_store tml (Suc (Suc t))) r False = Inr d" and "run_is_terminal (vr_status (rd_run d))"
  shows "\<exists>frames. (\<forall>live. run_event_stream suffix reads (tml\<lparr>tl_published := live\<rparr>) t r None = Some (Inr frames))
    \<and> length frames = n (Suc t) \<and> \<not> (\<exists>f \<in> set frames. fr_sequence f = Some (int (length es)) \<or> fr_sequence f = None)"
proof -
  let ?snap = "tl_store tml"
  let ?views = "numbered_views 0 (take (n (Suc t)) es)"
  have log: "gapless (s_events (?snap (Suc t)))" "log_events (s_events (?snap (Suc t))) (Some r) = take (n (Suc t)) es"
    using assms(1) by (auto simp: reads_history_def)
  have batch: "list_run_events (?snap (Suc t)) r None REPLAY_PAGE_SIZE = ?views"
    using assms(2,3) by (simp add: list_run_events_start [OF log(1)] list_run_events_eq [OF log(1), of r 0, simplified]
        log(2) REPLAY_PAGE_SIZE_def)
  obtain reads' where reads: "reads = Suc reads'" using assms(4) by (cases reads) auto
  have short: "length ?views < REPLAY_PAGE_SIZE" using assms(2,3) by (simp add: REPLAY_PAGE_SIZE_def)
  have one: "replay reads ?snap (Suc t) r None = Some ?views" "reads_made reads ?snap (Suc t) r None = 1"
    using short by (simp_all add: reads batch Let_def)
  have seq: "ev_sequence v \<le> int (n (Suc t))" if "v \<in> set ?views" for v
    using that numbered_views_sequence [of _ "take (n (Suc t)) es" 0] assms(3) by (auto simp: in_set_conv_nth)
  have "\<not> (\<exists>f \<in> set (map (replayed_event suffix) ?views). fr_sequence f = Some (int (length es)) \<or> fr_sequence f = None)"
    using seq assms(3) by (fastforce simp: replayed_event_def)
  then show ?thesis
    using assms(3,5,6) one
    by (intro exI [of _ "map (replayed_event suffix) ?views"]) (simp add: run_event_stream_def stream_within_def Let_def)
qed

theorem frames_are_presentable_witness:
  "\<exists>frames. run_event_stream ''...'' 1 demo_quiet_reads 1 (RunId 2) None = Some (Inr frames) \<and> length frames = 2
     \<and> presentable 2003 (JObj (fr_payload (hd frames)))"
proof -
  have "\<exists>frames. run_event_stream ''...'' 1 demo_quiet_reads 1 (RunId 2) None = Some (Inr frames) \<and> length frames = 2"
    by (simp add: run_event_stream_def stream_within_def list_run_events_def events_list_by_run_def REPLAY_PAGE_SIZE_def Let_def get_run_def
          run_view_of_def demo_quiet_reads_def demo_log_store_def subscribed_at_def)
  then obtain frames where frames: "run_event_stream ''...'' 1 demo_quiet_reads 1 (RunId 2) None = Some (Inr frames)" "length frames = 2"
    by blast
  then have "hd frames \<in> set frames" by (cases frames) simp_all
  with frames_are_presentable [OF frames(1)] frames show ?thesis by fastforce
qed


theorem stream_can_miss_the_end_witness:
  "\<exists>frames. run_event_stream ''...'' 1 (demo_reads\<lparr>tl_published := [(3, RunCompleted 9 (RunId 2) None)]\<rparr>) 1 (RunId 2) None = Some (Inr frames)
    \<and> length frames = 1 \<and> \<not> (\<exists>f \<in> set frames. fr_sequence f = Some 2 \<or> fr_sequence f = None)"
proof -
  obtain d where d: "get_run (tl_store demo_reads (Suc (Suc 1))) (RunId 2) False = Inr d" "run_is_terminal (vr_status (rd_run d))"
    by (simp add: get_run_def run_view_of_def demo_reads_def demo_log_store_def)
  show ?thesis
    using stream_can_miss_the_end [OF demo_reads_history(1) _ _ _ d, of 1 "''...''"] by auto
qed

end
