(* ===== verification/Redis_Bus.thy ===== *)
theory Redis_Bus
  imports Event_Stream Redis_Codec
begin

text \<open>
  The event bus on Redis streams (\<open>src/src/infrastructure/redis/event_bus.py\<close>): publication to the global stream and to the
  stream of the run, and a subscriber's cursor over the latter. Entries are numbered in the order they are added; a stream keeps
  the number of entries it has dropped. How many entries the server drops on an addition (approximate trimming) is
  an argument; the expiry of a run's key drops them all.
\<close>

section \<open>Streams\<close>

record entry_stream =
  es_dropped :: nat
  es_entries :: "stream_entry list"

definition es_empty :: entry_stream where
  "es_empty = \<lparr>es_dropped = 0, es_entries = []\<rparr>"

definition es_last :: "entry_stream \<Rightarrow> nat" where
  "es_last s = es_dropped s + length (es_entries s)"

definition es_trim :: "nat \<Rightarrow> entry_stream \<Rightarrow> entry_stream" where
  "es_trim d s = \<lparr>es_dropped = es_dropped s + min d (length (es_entries s)), es_entries = drop d (es_entries s)\<rparr>"

text \<open>\<open>XADD key MAXLEN ~ max_length\<close>; \<open>trim\<close> says how many entries go, given how many there are and how many must stay.\<close>

definition xadd :: "(nat \<Rightarrow> nat \<Rightarrow> nat) \<Rightarrow> nat \<Rightarrow> stream_entry \<Rightarrow> entry_stream \<Rightarrow> entry_stream" where
  "xadd trim max_length e s =
     (let s1 = s\<lparr>es_entries := es_entries s @ [e]\<rparr> in es_trim (trim (length (es_entries s1)) max_length) s1)"

text \<open>\<open>XREVRANGE key COUNT 1\<close> as the number of the newest entry, zero when there is none.\<close>

definition newest :: "entry_stream \<Rightarrow> nat" where
  "newest s = (if es_entries s = [] then 0 else es_last s)"

text \<open>\<open>XREAD\<close>: the entries after a number, at most \<open>limit\<close>, and the number of the last of them.\<close>

definition xread :: "nat \<Rightarrow> nat \<Rightarrow> entry_stream \<Rightarrow> stream_entry list" where
  "xread after limit s = take limit (drop (after - es_dropped s) (es_entries s))"

section \<open>Publication\<close>

record redis_bus =
  rb_global :: entry_stream
  rb_runs :: "run_id \<Rightarrow> entry_stream"
  rb_ttl :: "run_id \<Rightarrow> int option"

record bus_settings =
  bs_max_length :: nat
  bs_run_ttl_ms :: int

definition DEFAULT_MAX_STREAM_LENGTH :: nat where
  "DEFAULT_MAX_STREAM_LENGTH = 10000"

definition DEFAULT_RUN_STREAM_TTL :: duration where
  "DEFAULT_RUN_STREAM_TTL = 24 * 3600 * 1000000"

definition mk_bus_settings :: "nat \<Rightarrow> duration \<Rightarrow> bus_settings" where
  "mk_bus_settings max_length ttl = \<lparr>bs_max_length = max_length, bs_run_ttl_ms = max (whole_ms ttl) 1\<rparr>"

definition redis_publish_one :: "(nat \<Rightarrow> nat \<Rightarrow> nat) \<Rightarrow> bus_settings \<Rightarrow> event \<Rightarrow> redis_bus \<Rightarrow> redis_bus" where
  "redis_publish_one trim cfg e b =
     (let b1 = b\<lparr>rb_global := xadd trim (bs_max_length cfg) (encode_event e) (rb_global b)\<rparr> in
      case run_id_of e of
        None \<Rightarrow> b1
      | Some r \<Rightarrow> b1\<lparr>rb_runs := (rb_runs b1)(r := xadd trim (bs_max_length cfg) (encode_event e) (rb_runs b1 r)),
                   rb_ttl := (rb_ttl b1)(r := Some (bs_run_ttl_ms cfg))\<rparr>)"

definition redis_publish :: "(nat \<Rightarrow> nat \<Rightarrow> nat) \<Rightarrow> bus_settings \<Rightarrow> event list \<Rightarrow> redis_bus \<Rightarrow> redis_bus" where
  "redis_publish trim cfg events b = fold (redis_publish_one trim cfg) events b"

definition bus_elapse :: "redis_bus \<Rightarrow> int \<Rightarrow> redis_bus" where
  "bus_elapse b ms =
     b\<lparr>rb_runs := (\<lambda>r. case rb_ttl b r of None \<Rightarrow> rb_runs b r
          | Some ttl \<Rightarrow> if ttl \<le> ms then es_trim (length (es_entries (rb_runs b r))) (rb_runs b r) else rb_runs b r),
       rb_ttl := (\<lambda>r. case rb_ttl b r of None \<Rightarrow> None | Some ttl \<Rightarrow> if ttl \<le> ms then None else Some (ttl - ms))\<rparr>"

section \<open>Subscription\<close>

record run_cursor =
  rc_run :: run_id
  rc_last_id :: "nat option"
  rc_buffer :: "event list"
  rc_closed :: bool

definition redis_subscribe :: "run_id \<Rightarrow> run_cursor" where
  "redis_subscribe r = \<lparr>rc_run = r, rc_last_id = None, rc_buffer = [], rc_closed = False\<rparr>"

definition cursor_ready :: "redis_bus \<Rightarrow> run_cursor \<Rightarrow> run_cursor" where
  "cursor_ready b c = (case rc_last_id c of Some _ \<Rightarrow> c | None \<Rightarrow> c\<lparr>rc_last_id := Some (newest (rb_runs b (rc_run c)))\<rparr>)"

text \<open>\<open>_accept\<close>, and its loop over a batch: an entry that cannot be decoded raises, with the position already past it.\<close>

definition cursor_accept :: "run_cursor \<Rightarrow> stream_entry \<Rightarrow> (run_cursor, unit) result" where
  "cursor_accept c en =
     (case decode_event en of
        Inl e \<Rightarrow> (c, Inl e)
      | Inr None \<Rightarrow> (c, Inr ())
      | Inr (Some e) \<Rightarrow>
          (c\<lparr>rc_buffer := rc_buffer c @ [e], rc_closed := rc_closed c \<or> is_terminal_for_run e\<rparr>, Inr ()))"

fun cursor_take :: "nat \<Rightarrow> stream_entry list \<Rightarrow> run_cursor \<Rightarrow> (run_cursor, unit) result" where
  "cursor_take k [] c = (c, Inr ())"
| "cursor_take k (en # ens) c =
     (case cursor_accept (c\<lparr>rc_last_id := Some (Suc k)\<rparr>) en of
        (c', Inl e) \<Rightarrow> (c', Inl e)
      | (c', Inr _) \<Rightarrow> cursor_take (Suc k) ens c')"

definition cursor_read :: "nat \<Rightarrow> redis_bus \<Rightarrow> run_cursor \<Rightarrow> (run_cursor, unit) result" where
  "cursor_read batch b c =
     (let c1 = cursor_ready b c; s = rb_runs b (rc_run c1); after = or_else (rc_last_id c1) 0
      in cursor_take (max after (es_dropped s)) (xread after batch s) c1)"

text \<open>One turn of \<open>__anext__\<close>: an event, the end, or a further wait.\<close>

datatype pull = Event event | Stop | Wait

definition cursor_pop :: "run_cursor \<Rightarrow> run_cursor \<times> pull" where
  "cursor_pop c =
     (case rc_buffer c of
        e # es \<Rightarrow> (c\<lparr>rc_buffer := es\<rparr>, Event e)
      | [] \<Rightarrow> (c, if rc_closed c then Stop else Wait))"

definition cursor_next :: "nat \<Rightarrow> redis_bus \<Rightarrow> run_cursor \<Rightarrow> (run_cursor, pull) result" where
  "cursor_next batch b c =
     (if rc_buffer c \<noteq> [] \<or> rc_closed c then (let (c', p) = cursor_pop c in (c', Inr p))
      else (case cursor_read batch b c of
              (c', Inl e) \<Rightarrow> (c', Inl e)
            | (c', Inr _) \<Rightarrow> (let (c'', p) = cursor_pop c' in (c'', Inr p))))"

definition cursor_aclose :: "run_cursor \<Rightarrow> run_cursor" where
  "cursor_aclose c = c\<lparr>rc_closed := True, rc_buffer := []\<rparr>"

section \<open>Following a run\<close>

datatype bus_move = Publish "event list" | Pull

fun moves_published :: "run_id \<Rightarrow> bus_move list \<Rightarrow> event list" where
  "moves_published r [] = []"
| "moves_published r (Publish es # ms) = filter (\<lambda>e. run_id_of e = Some r) es @ moves_published r ms"
| "moves_published r (Pull # ms) = moves_published r ms"

fun redis_follow ::
  "(nat \<Rightarrow> nat \<Rightarrow> nat) \<Rightarrow> bus_settings \<Rightarrow> redis_bus \<Rightarrow> run_cursor \<Rightarrow> bus_move list \<Rightarrow> (redis_bus \<times> run_cursor) \<times> (error + pull) list"
where
  "redis_follow trim cfg b c [] = ((b, c), [])"
| "redis_follow trim cfg b c (Publish es # ms) = redis_follow trim cfg (redis_publish trim cfg es b) c ms"
| "redis_follow trim cfg b c (Pull # ms) =
     (let (c', out) = cursor_next (bs_max_length cfg) b c; (final, outs) = redis_follow trim cfg b c' ms
      in (final, out # outs))"

fun delivered :: "(error + pull) list \<Rightarrow> event list" where
  "delivered [] = []"
| "delivered (Inr (Event e) # outs) = e # delivered outs"
| "delivered (out # outs) = delivered outs"

text \<open>What a cursor pinned after entry \<open>p\<close> has made of the events \<open>es\<close> published since: \<open>k\<close> of them are handed out.\<close>

definition cursor_at :: "nat \<Rightarrow> event list \<Rightarrow> nat \<Rightarrow> redis_bus \<Rightarrow> run_cursor \<Rightarrow> bool" where
  "cursor_at p es k b c \<longleftrightarrow>
     (let s = rb_runs b (rc_run c) in
      (\<exists>old m. es_entries s = old @ map encode_event es \<and> p = es_dropped s + length old
         \<and> (rc_last_id c = Some (p + m) \<or> (m = 0 \<and> old = [] \<and> rc_last_id c = Some 0))
         \<and> k \<le> m \<and> m \<le> length es \<and> rc_buffer c = drop k (take m es)
         \<and> (rc_closed c \<longleftrightarrow> list_ex is_terminal_for_run (take m es))))"

section \<open>What a subscriber receives\<close>

abbreviation storable_events :: "event list \<Rightarrow> bool" where
  "storable_events es \<equiv> list_all (\<lambda>e. \<forall>u \<in> set (event_uuids e). u < 2 ^ 128) es"

lemma cursor_accept_event:
  assumes "\<forall>u \<in> set (event_uuids e). u < 2 ^ 128"
  shows "cursor_accept c (encode_event e) =
    (c\<lparr>rc_buffer := rc_buffer c @ [e], rc_closed := rc_closed c \<or> is_terminal_for_run e\<rparr>, Inr ())"
  using assms by (simp add: cursor_accept_def decode_encode)

lemma cursor_take_events:
  assumes "storable_events es"
  shows "cursor_take k (map encode_event es) c =
    (c\<lparr>rc_last_id := (if es = [] then rc_last_id c else Some (k + length es)), rc_buffer := rc_buffer c @ es,
       rc_closed := rc_closed c \<or> list_ex is_terminal_for_run es\<rparr>, Inr ())"
  using assms
proof (induction es arbitrary: k c)
  case (Cons e es)
  then show ?case by (simp add: cursor_accept_event)
qed simp

lemma list_ex_take_Suc: "k < length es \<Longrightarrow> list_ex P (take (Suc k) es) \<longleftrightarrow> list_ex P (take k es) \<or> P (es ! k)"
  by (simp add: take_Suc_conv_app_nth)

text \<open>The outcome of a pull, in terms of what was published.\<close>

definition pull_outcome :: "event list \<Rightarrow> nat \<Rightarrow> pull \<Rightarrow> bool" where
  "pull_outcome es k out \<longleftrightarrow>
     (case out of
        Event e \<Rightarrow> k < length es \<and> e = es ! k
      | Stop \<Rightarrow> list_ex is_terminal_for_run (take k es)
      | Wait \<Rightarrow> k = length es)"

lemma cursor_pop_at:
  assumes "cursor_at p es k b c" and "rc_buffer c \<noteq> []"
  shows "\<exists>c'. cursor_pop c = (c', Event (es ! k)) \<and> k < length es \<and> cursor_at p es (Suc k) b c' \<and> rc_run c' = rc_run c"
proof -
  obtain old m where at: "es_entries (rb_runs b (rc_run c)) = old @ map encode_event es" "p = es_dropped (rb_runs b (rc_run c)) + length old"
      "rc_last_id c = Some (p + m) \<or> (m = 0 \<and> old = [] \<and> rc_last_id c = Some 0)" "k \<le> m" "m \<le> length es"
      "rc_buffer c = drop k (take m es)" "rc_closed c \<longleftrightarrow> list_ex is_terminal_for_run (take m es)"
    using assms(1) by (auto simp: cursor_at_def Let_def)
  have k: "k < m" using assms(2) at(4-6) by (cases "k = m") auto
  then have buf: "rc_buffer c = es ! k # drop (Suc k) (take m es)"
    using at(5,6) by (simp add: Cons_nth_drop_Suc [symmetric])
  show ?thesis
    using buf at k by (auto simp: cursor_pop_def cursor_at_def Let_def)
qed

lemma cursor_next_at:
  assumes "cursor_at p es k b c" and "0 < batch" and "storable_events es"
  shows "\<exists>c' out. cursor_next batch b c = (c', Inr out) \<and> pull_outcome es k out \<and> rc_run c' = rc_run c
    \<and> cursor_at p es (case out of Event _ \<Rightarrow> Suc k | _ \<Rightarrow> k) b c'"
proof (cases "rc_buffer c = []")
  case False
  then show ?thesis
    using cursor_pop_at [OF assms(1) False] by (auto simp: cursor_next_def pull_outcome_def)
next
  case empty: True
  let ?s = "rb_runs b (rc_run c)"
  obtain old m where at: "es_entries ?s = old @ map encode_event es" "p = es_dropped ?s + length old"
      "rc_last_id c = Some (p + m) \<or> (m = 0 \<and> old = [] \<and> rc_last_id c = Some 0)" "k \<le> m" "m \<le> length es"
      "rc_buffer c = drop k (take m es)" "rc_closed c \<longleftrightarrow> list_ex is_terminal_for_run (take m es)"
    using assms(1) by (auto simp: cursor_at_def Let_def)
  have km: "k = m" using empty at(4-6) by simp
  show ?thesis
  proof (cases "rc_closed c")
    case True
    then show ?thesis
      using empty at km assms(1) by (auto simp: cursor_next_def cursor_pop_def pull_outcome_def)
  next
    case False
    let ?after = "or_else (rc_last_id c) 0" and ?xs = "take batch (drop m es)"
    let ?c = "c\<lparr>rc_last_id := (if ?xs = [] then rc_last_id c else Some (p + m + length ?xs)), rc_buffer := ?xs,
        rc_closed := list_ex is_terminal_for_run ?xs\<rparr>"
    have pos: "max ?after (es_dropped ?s) = p + m" "xread ?after batch ?s = map encode_event ?xs"
      using at(1-3) by (auto simp: xread_def take_map drop_map)
    have ready: "cursor_ready b c = c" using at(3) by (auto simp: cursor_ready_def)
    have xs: "storable_events ?xs" using assms(3) by (auto simp: list_all_iff dest: in_set_takeD in_set_dropD)
    have read: "cursor_read batch b c = (?c, Inr ())"
      using pos cursor_take_events [OF xs, of "p + m" c] empty False by (simp add: cursor_read_def ready Let_def add.assoc)
    have next_eq: "cursor_next batch b c = (fst (cursor_pop ?c), Inr (snd (cursor_pop ?c)))"
      using empty False read by (simp add: cursor_next_def case_prod_beta Let_def)
    have moved: "take (m + length ?xs) es = take m es @ ?xs" by (simp add: take_add min_def)
    have none: "\<not> list_ex is_terminal_for_run (take m es)" using False at(7) by simp
    have at': "cursor_at p es k b ?c"
      unfolding cursor_at_def Let_def
    proof (intro exI [of _ old] exI [of _ "m + length ?xs"] conjI)
      show "rc_last_id ?c = Some (p + (m + length ?xs)) \<or> m + length ?xs = 0 \<and> old = [] \<and> rc_last_id ?c = Some 0"
        using at(3) by (auto simp: add.assoc)
      show "rc_buffer ?c = drop k (take (m + length ?xs) es)" using km at(5) by (simp only: moved) simp
      show "rc_closed ?c \<longleftrightarrow> list_ex is_terminal_for_run (take (m + length ?xs) es)" using none by (simp only: moved) simp
    qed (use at km in auto)
    show ?thesis
    proof (cases "?xs = []")
      case True
      then have "m = length es" using assms(2) at(5) by simp
      then show ?thesis
        using True next_eq at' km by (simp add: cursor_pop_def pull_outcome_def)
    next
      case False
      then have "rc_buffer ?c \<noteq> []" by simp
      from cursor_pop_at [OF at' this] obtain c' where "cursor_pop ?c = (c', Event (es ! k))" "k < length es"
          "cursor_at p es (Suc k) b c'" "rc_run c' = rc_run ?c" by blast
      then show ?thesis using next_eq by (simp add: pull_outcome_def)
    qed
  qed
qed

text \<open>Publication appends, as long as the server need not trim.\<close>

lemma xadd_short:
  assumes "\<forall>n m. trim n m \<le> n - m" and "length (es_entries s) < max_length"
  shows "xadd trim max_length e s = s\<lparr>es_entries := es_entries s @ [e]\<rparr>"
proof -
  have "trim (Suc (length (es_entries s))) max_length = 0" using assms by (metis Suc_leI diff_is_0_eq le_zero_eq)
  then show ?thesis by (simp add: xadd_def es_trim_def)
qed

lemma redis_publish_appends:
  assumes "\<forall>n m. trim n m \<le> n - m"
    and "length (es_entries (rb_runs b r)) + length (filter (\<lambda>e. run_id_of e = Some r) es) \<le> bs_max_length cfg"
  shows "rb_runs (redis_publish trim cfg es b) r =
    (rb_runs b r)\<lparr>es_entries := es_entries (rb_runs b r) @ map encode_event (filter (\<lambda>e. run_id_of e = Some r) es)\<rparr>"
  using assms(2)
proof (induction es arbitrary: b)
  case (Cons e es)
  let ?b = "redis_publish_one trim cfg e b"
  have "rb_runs ?b r = (if run_id_of e = Some r then (rb_runs b r)\<lparr>es_entries := es_entries (rb_runs b r) @ [encode_event e]\<rparr>
      else rb_runs b r)"
    using Cons.prems xadd_short [OF assms(1), of "rb_runs b r" "bs_max_length cfg" "encode_event e"]
    by (auto simp: redis_publish_one_def Let_def split: option.splits)
  then show ?case
    using Cons.IH [of ?b] Cons.prems by (auto simp: redis_publish_def split: if_splits)
qed (simp add: redis_publish_def)

lemma cursor_at_publish:
  assumes "cursor_at p es k b c"
    and "rb_runs b' (rc_run c) = (rb_runs b (rc_run c))\<lparr>es_entries := es_entries (rb_runs b (rc_run c)) @ map encode_event new\<rparr>"
  shows "cursor_at p (es @ new) k b' c"
proof -
  obtain old m where at: "es_entries (rb_runs b (rc_run c)) = old @ map encode_event es" "p = es_dropped (rb_runs b (rc_run c)) + length old"
      "rc_last_id c = Some (p + m) \<or> (m = 0 \<and> old = [] \<and> rc_last_id c = Some 0)" "k \<le> m" "m \<le> length es"
      "rc_buffer c = drop k (take m es)" "rc_closed c \<longleftrightarrow> list_ex is_terminal_for_run (take m es)"
    using assms(1) by (auto simp: cursor_at_def Let_def)
  show ?thesis
    unfolding cursor_at_def Let_def assms(2)
    by (intro exI [of _ old] exI [of _ m] conjI) (use at in simp_all)
qed

lemma redis_follow_delivers:
  assumes "\<forall>n m. trim n m \<le> n - m" and "0 < bs_max_length cfg"
  shows "cursor_at p es k b c \<Longrightarrow> storable_events (es @ moves_published (rc_run c) ms) \<Longrightarrow>
     length (es_entries (rb_runs b (rc_run c))) + length (moves_published (rc_run c) ms) \<le> bs_max_length cfg \<Longrightarrow>
     \<exists>b' c' outs. redis_follow trim cfg b c ms = ((b', c'), outs) \<and> rc_run c' = rc_run c \<and> \<not> (\<exists>e. Inl e \<in> set outs)
       \<and> k + length (delivered outs) \<le> length (es @ moves_published (rc_run c) ms)
       \<and> delivered outs = take (length (delivered outs)) (drop k (es @ moves_published (rc_run c) ms))
       \<and> cursor_at p (es @ moves_published (rc_run c) ms) (k + length (delivered outs)) b' c'"
proof (induction ms arbitrary: es k b c)
  case Nil
  then have "k \<le> length es" by (auto simp: cursor_at_def Let_def)
  with Nil show ?case by simp
next
  case (Cons m ms)
  show ?case
  proof (cases m)
    case (Publish evs)
    let ?new = "filter (\<lambda>e. run_id_of e = Some (rc_run c)) evs"
    have pub: "rb_runs (redis_publish trim cfg evs b) (rc_run c) =
        (rb_runs b (rc_run c))\<lparr>es_entries := es_entries (rb_runs b (rc_run c)) @ map encode_event ?new\<rparr>"
      by (rule redis_publish_appends [OF assms(1)]) (use Cons.prems(3) Publish in simp)
    have "cursor_at p (es @ ?new) k (redis_publish trim cfg evs b) c"
      by (rule cursor_at_publish [OF Cons.prems(1) pub])
    from Cons.IH [OF this] Cons.prems(2,3) pub show ?thesis by (simp add: Publish)
  next
    case Pull
    have "storable_events es" using Cons.prems(2) Pull by simp
    from cursor_next_at [OF Cons.prems(1) assms(2) this] obtain c' out where
      next_eq: "cursor_next (bs_max_length cfg) b c = (c', Inr out)" "pull_outcome es k out" "rc_run c' = rc_run c"
      "cursor_at p es (case out of Event _ \<Rightarrow> Suc k | _ \<Rightarrow> k) b c'" by blast
    have prem: "storable_events (es @ moves_published (rc_run c') ms)"
        "length (es_entries (rb_runs b (rc_run c'))) + length (moves_published (rc_run c') ms) \<le> bs_max_length cfg"
      using Cons.prems(2,3) Pull next_eq(3) by simp_all
    let ?all = "es @ moves_published (rc_run c) ms"
    from Cons.IH [OF next_eq(4) prem] next_eq(3) obtain b'' c'' outs where
      rest: "redis_follow trim cfg b c' ms = ((b'', c''), outs)" "rc_run c'' = rc_run c" "\<not> (\<exists>e. Inl e \<in> set outs)"
        "(case out of Event _ \<Rightarrow> Suc k | _ \<Rightarrow> k) + length (delivered outs) \<le> length ?all"
        "delivered outs = take (length (delivered outs)) (drop (case out of Event _ \<Rightarrow> Suc k | _ \<Rightarrow> k) ?all)"
        "cursor_at p ?all ((case out of Event _ \<Rightarrow> Suc k | _ \<Rightarrow> k) + length (delivered outs)) b'' c''"
      by metis
    have step: "redis_follow trim cfg b c (m # ms) = ((b'', c''), Inr out # outs)" using next_eq(1) rest(1) by (simp add: Pull)
    have pub: "moves_published (rc_run c) (m # ms) = moves_published (rc_run c) ms" by (simp add: Pull)
    show ?thesis
      unfolding step pub
    proof (intro exI [of _ b''] exI [of _ c''] exI [of _ "Inr out # outs"], cases out)
      case (Event e)
      then have e: "k < length es" "e = ?all ! k" using next_eq(2) by (auto simp: pull_outcome_def nth_append)
      then have "drop k ?all = e # drop (Suc k) ?all" by (simp add: Cons_nth_drop_Suc [symmetric] del: drop_append)
      then show "((b'', c''), Inr out # outs) = ((b'', c''), Inr out # outs) \<and> rc_run c'' = rc_run c
          \<and> \<not> (\<exists>e. Inl e \<in> set (Inr out # outs)) \<and> k + length (delivered (Inr out # outs)) \<le> length ?all
          \<and> delivered (Inr out # outs) = take (length (delivered (Inr out # outs))) (drop k ?all)
          \<and> cursor_at p ?all (k + length (delivered (Inr out # outs))) b'' c''"
        using rest Event by (simp del: drop_append)
    qed (use rest in \<open>simp_all del: drop_append\<close>)
  qed
qed

section \<open>Properties\<close>

lemma cursor_at_start:
  "cursor_at (es_last (rb_runs b r)) [] 0 b (cursor_ready b (redis_subscribe r))"
  unfolding cursor_at_def Let_def
  by (intro exI [of _ "es_entries (rb_runs b r)"] exI [of _ 0])
     (simp add: cursor_ready_def redis_subscribe_def newest_def es_last_def)

lemma subscribed_run [simp]: "rc_run (cursor_ready b (redis_subscribe r)) = r"
  by (simp add: cursor_ready_def redis_subscribe_def)

lemma pinned_cursor_delivers:
  assumes "\<forall>n m. trim n m \<le> n - m" and "0 < bs_max_length cfg" and "storable_events (moves_published r ms)"
    and "length (es_entries (rb_runs b r)) + length (moves_published r ms) \<le> bs_max_length cfg"
  obtains b' c' outs where "redis_follow trim cfg b (cursor_ready b (redis_subscribe r)) ms = ((b', c'), outs)"
    "\<not> (\<exists>e. Inl e \<in> set outs)" "delivered outs = take (length (delivered outs)) (moves_published r ms)"
    "cursor_at (es_last (rb_runs b r)) (moves_published r ms) (length (delivered outs)) b' c'"
proof -
  have at: "cursor_at (es_last (rb_runs b r)) [] 0 b (cursor_ready b (redis_subscribe r))" by (rule cursor_at_start)
  show ?thesis
    using redis_follow_delivers [OF assms(1,2) at, of ms] assms(3,4) that by auto
qed

text \<open>
  A subscriber on Redis sees the run. Once its position is pinned, and as long as the run's stream stays within the
  length the server must keep, whatever is published and pulled in whatever order, no pull raises, and the
  events handed out are those published for the run since, in order, none twice and none left out; the next pull hands
  out the next of them, waits only when there is none, and ends only after an event that ends the run was handed out.
\<close>

theorem redis_subscriber_sees_the_run:
  assumes "\<forall>n m. trim n m \<le> n - m" and "0 < bs_max_length cfg" and "storable_events (moves_published r ms)"
    and "length (es_entries (rb_runs b r)) + length (moves_published r ms) \<le> bs_max_length cfg"
  shows "\<exists>b' c' outs c'' out. redis_follow trim cfg b (cursor_ready b (redis_subscribe r)) ms = ((b', c'), outs)
    \<and> \<not> (\<exists>e. Inl e \<in> set outs)
    \<and> delivered outs = take (length (delivered outs)) (moves_published r ms)
    \<and> cursor_next (bs_max_length cfg) b' c' = (c'', Inr out)
    \<and> pull_outcome (moves_published r ms) (length (delivered outs)) out"
proof -
  obtain b' c' outs where follow: "redis_follow trim cfg b (cursor_ready b (redis_subscribe r)) ms = ((b', c'), outs)"
      "\<not> (\<exists>e. Inl e \<in> set outs)" "delivered outs = take (length (delivered outs)) (moves_published r ms)"
      "cursor_at (es_last (rb_runs b r)) (moves_published r ms) (length (delivered outs)) b' c'"
    by (rule pinned_cursor_delivers [OF assms])
  from cursor_next_at [OF follow(4) assms(2,3)] obtain c'' out where
    "cursor_next (bs_max_length cfg) b' c' = (c'', Inr out)" "pull_outcome (moves_published r ms) (length (delivered outs)) out"
    by blast
  with follow show ?thesis by blast
qed

definition demo_redis_bus :: redis_bus where
  "demo_redis_bus = \<lparr>rb_global = es_empty, rb_runs = (\<lambda>_. es_empty), rb_ttl = (\<lambda>_. None)\<rparr>"

theorem redis_subscriber_sees_the_run_witness:
  "\<exists>b' c' outs. redis_follow (\<lambda>n m. n - m) (mk_bus_settings DEFAULT_MAX_STREAM_LENGTH DEFAULT_RUN_STREAM_TTL) demo_redis_bus
       (cursor_ready demo_redis_bus (redis_subscribe (RunId 2))) [Publish demo_history, Pull] = ((b', c'), outs)
     \<and> delivered outs = take (length (delivered outs)) demo_history"
proof -
  have pub: "moves_published (RunId 2) [Publish demo_history, Pull] = demo_history" by simp
  show ?thesis
    using redis_subscriber_sees_the_run [of "\<lambda>n m. n - m" "mk_bus_settings DEFAULT_MAX_STREAM_LENGTH DEFAULT_RUN_STREAM_TTL"
        "RunId 2" "[Publish demo_history, Pull]" demo_redis_bus]
    unfolding pub
    by (auto simp: mk_bus_settings_def DEFAULT_MAX_STREAM_LENGTH_def demo_redis_bus_def es_empty_def)
qed

text \<open>
  Over Redis a client can miss an event between the replay and the live half. The position is pinned by a round trip of its
  own, not when the subscription is made; when the replay's reads are all over before the run's first \<open>p\<close> events are in the log, and the
  position is pinned after they were published, the \<open>p\<close>-th event is in no frame: the replayed frames end before
  it and the live ones start after it, although the code says that the replay happens with a listener attached.
\<close>

theorem redis_pin_can_leave_a_gap:
  assumes "reads_history snap r es n" and "length es < 500 * reads" and "case cursor of None \<Rightarrow> True | Some c \<Rightarrow> 0 \<le> c"
    and "\<forall>k \<le> t + reads. \<exists>d. get_run (snap k) r False = Inr d \<and> \<not> run_is_terminal (vr_status (rd_run d))"
    and "\<forall>k \<le> t + reads. n k < p" and "p \<le> length es"
    and "\<forall>n m. trim n m \<le> n - m" and "storable_events es" and "length es \<le> bs_max_length cfg"
    and "es_entries (rb_runs b r) = map encode_event (take p es)" and "moves_published r ms = drop p es"
  shows "\<exists>frames q. stream_within suffix reads snap t r cursor
        (delivered (snd (redis_follow trim cfg b (cursor_ready b (redis_subscribe r)) ms))) = Some (Inr frames)
    \<and> \<not> (\<exists>f \<in> set frames. fr_sequence f = Some (int p))
    \<and> filter (\<lambda>f. fr_sequence f = None) frames = live_frames suffix (take q (drop p es))"
proof -
  let ?live = "delivered (snd (redis_follow trim cfg b (cursor_ready b (redis_subscribe r)) ms))"
  have pos: "0 < bs_max_length cfg" using assms(5) [rule_format, of 0] assms(6,9) by linarith
  have "storable_events (drop p es)" using assms(8) by (auto simp: list_all_iff dest: in_set_dropD)
  then have "storable_events (moves_published r ms)"
      "length (es_entries (rb_runs b r)) + length (moves_published r ms) \<le> bs_max_length cfg"
    using assms(6,9-11) by simp_all
  from pinned_cursor_delivers [OF assms(7) pos this] have live: "?live = take (length ?live) (drop p es)"
    using assms(11) by (metis snd_conv)
  obtain m where m: "0 < m" "m \<le> reads" "stream_within suffix reads snap t r cursor ?live =
     Some (map_sum id (\<lambda>detail. map (replayed_event suffix) (numbered_views (cursor_of cursor) (take (n (t + m - 1)) es))
          @ (if run_is_terminal (vr_status (rd_run detail)) then [] else live_frames suffix ?live))
        (get_run (snap (t + m)) r False))"
    using stream_frames [OF assms(1-3), of suffix t ?live] by blast
  moreover obtain d where "get_run (snap (t + m)) r False = Inr d" "\<not> run_is_terminal (vr_status (rd_run d))"
    using assms(4) [rule_format, of "t + m"] m(2) by auto
  ultimately have frames: "stream_within suffix reads snap t r cursor ?live =
      Some (Inr (map (replayed_event suffix) (numbered_views (cursor_of cursor) (take (n (t + m - 1)) es)) @ live_frames suffix ?live))"
    by simp
  have below: "n (t + m - 1) < p" using assms(5) [rule_format, of "t + m - 1"] m(2) by linarith
  let ?views = "numbered_views (cursor_of cursor) (take (n (t + m - 1)) es)"
  have "ev_sequence v < int p" if v: "v \<in> set ?views" for v
  proof -
    obtain i where i: "i < length (take (n (t + m - 1)) es) - cursor_of cursor" "v = ?views ! i"
      using v by (auto simp: in_set_conv_nth)
    then have "ev_sequence v = int (cursor_of cursor + i) + 1" by (simp add: numbered_views_sequence)
    moreover have "cursor_of cursor + i < n (t + m - 1)" using i(1) by auto
    ultimately show ?thesis using below by (smt (verit) of_nat_less_iff)
  qed
  then have replayed: "fr_sequence f \<noteq> None \<and> fr_sequence f \<noteq> Some (int p)" if "f \<in> set (map (replayed_event suffix) ?views)" for f
    using that by (fastforce simp: replayed_event_def)
  have lives: "\<forall>f \<in> set (live_frames suffix xs). fr_sequence f = None" for xs
    by (induction xs) (auto simp: live_event_def)
  have "filter (\<lambda>f. fr_sequence f = None) (map (replayed_event suffix) ?views @ live_frames suffix ?live) = live_frames suffix ?live"
    using replayed lives by (auto simp: filter_empty_conv filter_id_conv)
  then show ?thesis
    using frames replayed lives live
    by (intro exI [of _ "map (replayed_event suffix) ?views @ live_frames suffix ?live"] exI [of _ "length ?live"]) auto
qed

definition demo_pinned_bus :: redis_bus where
  "demo_pinned_bus = redis_publish (\<lambda>n m. n - m) (mk_bus_settings DEFAULT_MAX_STREAM_LENGTH DEFAULT_RUN_STREAM_TTL) demo_history demo_redis_bus"

theorem redis_pin_can_leave_a_gap_witness:
  "\<exists>frames q. stream_within ''...'' 1 (\<lambda>_. demo_log_store 1 RUN_CODING) 0 (RunId 2) None
        (delivered (snd (redis_follow (\<lambda>n m. n - m) (mk_bus_settings DEFAULT_MAX_STREAM_LENGTH DEFAULT_RUN_STREAM_TTL) demo_pinned_bus
           (cursor_ready demo_pinned_bus (redis_subscribe (RunId 2))) []))) = Some (Inr frames)
     \<and> \<not> (\<exists>f \<in> set frames. fr_sequence f = Some 2)"
proof -
  let ?cfg = "mk_bus_settings DEFAULT_MAX_STREAM_LENGTH DEFAULT_RUN_STREAM_TTL"
  have run: "\<forall>k \<le> 0 + 1. \<exists>d. get_run (demo_log_store 1 RUN_CODING) (RunId 2) False = Inr d \<and> \<not> run_is_terminal (vr_status (rd_run d))"
    by (simp add: get_run_def run_view_of_def demo_log_store_def)
  have trim: "\<forall>n m. (\<lambda>n m. n - m) n m \<le> n - (m::nat)" by simp
  have mine: "filter (\<lambda>e. run_id_of e = Some (RunId 2)) demo_history = demo_history" by simp
  have entries: "es_entries (rb_runs demo_pinned_bus (RunId 2)) = map encode_event (take 2 demo_history)"
    unfolding demo_pinned_bus_def
    by (subst redis_publish_appends [OF trim])
       (simp_all add: mine demo_redis_bus_def es_empty_def mk_bus_settings_def DEFAULT_MAX_STREAM_LENGTH_def)
  show ?thesis
    using redis_pin_can_leave_a_gap [OF demo_reads_history(3) _ _ run _ _ trim _ _ entries, of None ?cfg "[]" "''...''"]
    by (auto simp: mk_bus_settings_def DEFAULT_MAX_STREAM_LENGTH_def)
qed

text \<open>
  An entry after the one that ends the run is still handed out when both are read in one batch, where the in-memory
  bus ends with the terminal event.
\<close>

lemma redis_delivers_past_the_end:
  assumes "\<forall>n m. trim n m \<le> n - m" and "storable_events [e, f]" and "is_terminal_for_run e"
    and "run_id_of e = Some r" and "run_id_of f = Some r"
    and "length (es_entries (rb_runs b r)) + 2 \<le> bs_max_length cfg"
  shows "snd (redis_follow trim cfg b (cursor_ready b (redis_subscribe r)) [Publish [e, f], Pull, Pull, Pull]) =
    [Inr (Event e), Inr (Event f), Inr Stop]"
proof -
  let ?b = "redis_publish trim cfg [e, f] b" and ?c = "cursor_ready b (redis_subscribe r)"
  have pub: "rb_runs ?b r = (rb_runs b r)\<lparr>es_entries := es_entries (rb_runs b r) @ map encode_event [e, f]\<rparr>"
    using redis_publish_appends [OF assms(1), of b r "[e, f]" cfg] assms(4-6) by simp
  have ready: "cursor_ready ?b ?c = ?c" by (simp add: cursor_ready_def redis_subscribe_def)
  have c: "rc_buffer ?c = []" "\<not> rc_closed ?c" by (simp_all add: cursor_ready_def redis_subscribe_def)
  have "xread (or_else (rc_last_id ?c) 0) (bs_max_length cfg) (rb_runs ?b r) = map encode_event [e, f]"
    using assms(6) by (auto simp: pub xread_def cursor_ready_def redis_subscribe_def newest_def es_last_def)
  then have "\<exists>k. cursor_read (bs_max_length cfg) ?b ?c =
      (?c\<lparr>rc_last_id := Some k, rc_buffer := [e, f], rc_closed := True\<rparr>, Inr ())"
    using cursor_take_events [OF assms(2)] c assms(3) by (simp add: cursor_read_def ready Let_def del: list.map) blast
  then show ?thesis using c by (auto simp: cursor_next_def cursor_pop_def)
qed

end
