(* ===== verification/Http_Problems.thy ===== *)
theory Http_Problems
  imports Exceptions Regex
begin

text \<open>
  The boundary of the HTTP interface: problem documents (\<open>src/src/interfaces/api/errors.py\<close>), the request
  identifier (\<open>middleware/correlation.py\<close>), the service token of the worker interface
  (\<open>src/src/interfaces/worker_api/auth.py\<close>) and the readiness report. What the web framework does with a response is not
  part of it: a response is its status, its body and its headers.
\<close>

section \<open>Tables\<close>

definition STATUS_BY_CODE :: "(string, int) dict" where
  "STATUS_BY_CODE =
     [(''not_found'', 404), (''invalid_state_transition'', 409), (''run_not_modifiable'', 409), (''run_cancelled'', 409),
      (''job_lease_expired'', 409), (''job_not_retryable'', 409), (''worker_unavailable'', 409), (''idempotency_conflict'', 409),
      (''plan_invalid'', 422), (''structured_output_invalid'', 422), (''llm_timeout'', 504), (''inference_failed'', 502),
      (''no_compatible_worker'', 503), (''tool_execution_failed'', 500), (''workspace_error'', 500), (''candidate_error'', 500),
      (''domain_error'', 500), (''unauthenticated'', 401), (''permission_denied'', 403), (''validation_error'', 422),
      (''not_ready'', 503), (''internal_error'', 500)]"

definition TITLES :: "(string, string) dict" where
  "TITLES =
     [(''not_found'', ''Resource not found''), (''invalid_state_transition'', ''Invalid state transition''),
      (''run_not_modifiable'', ''Run is no longer modifiable''), (''run_cancelled'', ''Run has been cancelled''),
      (''job_lease_expired'', ''Job lease expired''), (''job_not_retryable'', ''Job cannot be retried''),
      (''worker_unavailable'', ''Worker unavailable''), (''idempotency_conflict'', ''Idempotency key conflict''),
      (''plan_invalid'', ''Plan is not executable''), (''structured_output_invalid'', ''Model output failed validation''),
      (''llm_timeout'', ''Inference timed out''), (''inference_failed'', ''Inference backend failed''),
      (''no_compatible_worker'', ''No compatible worker available''), (''tool_execution_failed'', ''Tool execution failed''),
      (''workspace_error'', ''Workspace failure''), (''candidate_error'', ''Candidate failure''),
      (''domain_error'', ''Internal error''), (''unauthenticated'', ''Service authentication required''),
      (''permission_denied'', ''Service token rejected''), (''validation_error'', ''Request validation failed''),
      (''not_ready'', ''Service not ready''), (''internal_error'', ''Internal error'')]"

definition FALLBACK_STATUS :: int where
  "FALLBACK_STATUS = 500"

definition RETRY_AFTER_SECONDS :: int where
  "RETRY_AFTER_SECONDS = 5"

definition DEFAULT_PROBLEM_BASE_URI :: string where
  "DEFAULT_PROBLEM_BASE_URI = ''/problems''"

definition status_for_code :: "string \<Rightarrow> int" where
  "status_for_code code = or_else (dict_get STATUS_BY_CODE code) FALLBACK_STATUS"

definition STATUS_CODES :: "(int, string) dict" where
  "STATUS_CODES = [(401, ''unauthenticated''), (403, ''permission_denied''), (404, ''not_found''),
     (422, ''validation_error''), (503, ''not_ready'')]"

definition code_for_status :: "int \<Rightarrow> string" where
  "code_for_status status =
     or_else (dict_get STATUS_CODES status) (if FALLBACK_STATUS \<le> status then ''internal_error'' else ''error'')"

section \<open>Problem documents\<close>

record response =
  rp_status :: int
  rp_body :: json_object
  rp_media_type :: string
  rp_headers :: "(string, string) dict"

definition PROBLEM_CONTENT_TYPE :: string where
  "PROBLEM_CONTENT_TYPE = ''application/problem+json''"

definition rstrip_slashes :: "string \<Rightarrow> string" where
  "rstrip_slashes s = rev (dropWhile (\<lambda>c. c = CHR ''/'') (rev s))"

text \<open>\<open>dict.setdefault\<close>.\<close>

definition set_default :: "string \<Rightarrow> string \<Rightarrow> (string, string) dict \<Rightarrow> (string, string) dict" where
  "set_default k v d = (if dict_get d k = None then dict_set k v d else d)"

text \<open>\<open>x or y\<close> on texts.\<close>

definition text_or :: "string \<Rightarrow> string \<Rightarrow> string" where
  "text_or x y = (if x = [] then y else x)"

text \<open>
  \<open>problem_response\<close>. Absent arguments are empty here, since the source only asks whether they are false; the request identifier
  of the context is the argument \<open>current\<close>.
\<close>

definition problem_response ::
  "string \<Rightarrow> int \<Rightarrow> string \<Rightarrow> string \<Rightarrow> string \<Rightarrow> json_object \<Rightarrow> string \<Rightarrow> string \<Rightarrow> (string, string) dict \<Rightarrow> string \<Rightarrow> response" where
  "problem_response current status code detail instance_path details title base headers request_id =
     (let correlation = text_or request_id current;
          body = [(''type'', JStr (rstrip_slashes base @ ''/'' @ code)),
                  (''title'', JStr (text_or title (or_else (dict_get TITLES code) ''Error''))),
                  (''status'', JInt status), (''detail'', JStr detail), (''instance'', JStr instance_path),
                  (''code'', JStr code)]
                 @ (if details = [] then [] else [(''details'', JObj details)])
                 @ (if correlation = [] then [] else [(''request_id'', JStr correlation)]);
          h1 = (if status = status_for_code ''unauthenticated''
                then set_default ''WWW-Authenticate'' ''Bearer realm=\"internal\"'' headers else headers);
          h2 = (if status = status_for_code ''no_compatible_worker''
                then set_default ''Retry-After'' (show_int RETRY_AFTER_SECONDS) h1 else h1)
      in \<lparr>rp_status = status, rp_body = body, rp_media_type = PROBLEM_CONTENT_TYPE, rp_headers = h2\<rparr>)"

section \<open>Handlers\<close>

record request =
  rq_path :: string
  rq_scope_id :: string

text \<open>
  The exceptions the handlers are registered for. The message and the details of an error of the domain are those the
  exception object carries; a validation error of the framework is its list of problems.
\<close>

record validation_problem =
  vp_loc :: "string list"
  vp_msg :: string
  vp_type :: string

datatype raised =
    RaisedDomain string string json_object
  | RaisedApi string string json_object
  | RaisedValidation "validation_problem list"
  | RaisedHttp int string "(string, string) dict"
  | RaisedOther

definition missing_token :: raised where
  "missing_token = RaisedApi ''unauthenticated'' ''a service token is required'' []"

definition invalid_token :: raised where
  "invalid_token = RaisedApi ''permission_denied'' ''the supplied service token is not accepted'' []"

definition correlation_of :: "string \<Rightarrow> request \<Rightarrow> string" where
  "correlation_of current req = text_or (rq_scope_id req) current"

definition render_validation_error :: "validation_problem \<Rightarrow> json" where
  "render_validation_error e =
     JObj [(''location'', JArr (map JStr (vp_loc e))), (''message'', JStr (vp_msg e)), (''type'', JStr (vp_type e))]"

text \<open>One equation per handler of \<open>install_error_handlers\<close>.\<close>

fun handle_raised :: "string \<Rightarrow> string \<Rightarrow> request \<Rightarrow> raised \<Rightarrow> response" where
  "handle_raised base current req (RaisedDomain code message details) =
     problem_response current (status_for_code code) code message (rq_path req) details [] base [] (correlation_of current req)"
| "handle_raised base current req (RaisedApi code message details) =
     problem_response current (status_for_code code) code message (rq_path req) details [] base [] (correlation_of current req)"
| "handle_raised base current req (RaisedValidation problems) =
     problem_response current (status_for_code ''validation_error'') ''validation_error''
       ''the request payload failed validation'' (rq_path req)
       [(''errors'', JArr (map render_validation_error problems))] [] base [] (correlation_of current req)"
| "handle_raised base current req (RaisedHttp status detail headers) =
     problem_response current status (code_for_status status) detail (rq_path req) [] [] base headers
       (correlation_of current req)"
| "handle_raised base current req RaisedOther =
     problem_response current (status_for_code ''internal_error'') ''internal_error''
       ''the request could not be completed'' (rq_path req) [] [] base [] (correlation_of current req)"

section \<open>Request identifiers\<close>

definition MAX_REQUEST_ID_LENGTH :: nat where
  "MAX_REQUEST_ID_LENGTH = 128"

definition sanitize :: "string option \<Rightarrow> string option" where
  "sanitize candidate =
     (case candidate of
        None \<Rightarrow> None
      | Some c \<Rightarrow>
          let trimmed = strip c in
          if trimmed = [] \<or> MAX_REQUEST_ID_LENGTH < length trimmed then None
          else if \<not> list_all (\<lambda>x. 32 \<le> ord x \<and> ord x < 127) trimmed then None
          else Some trimmed)"

text \<open>The identifier the middleware gives a request; \<open>fresh\<close> is what \<open>uuid4().hex\<close> returned.\<close>

definition request_id_for :: "string option \<Rightarrow> string \<Rightarrow> string" where
  "request_id_for header fresh = or_else (sanitize header) fresh"

section \<open>Service tokens\<close>

record authenticator =
  au_expected :: string
  au_principal :: string

definition mk_authenticator :: "string \<Rightarrow> string \<Rightarrow> error + authenticator" where
  "mk_authenticator token name =
     (if token = [] \<or> strip token = []
      then Inl (ValueError ''a non-empty service token is required; configure SERVICE_TOKEN instead of running the internal API unauthenticated'')
      else Inr \<lparr>au_expected = token, au_principal = name\<rparr>)"

text \<open>Encoding a text as UTF-8 is injective, so comparing the encodings is comparing the texts.\<close>

definition authenticate :: "authenticator \<Rightarrow> string option \<Rightarrow> raised + string" where
  "authenticate a token =
     (case token of
        None \<Rightarrow> Inl missing_token
      | Some t \<Rightarrow> if t = au_expected a then Inr (au_principal a) else Inl invalid_token)"

definition BEARER_PREFIX :: string where
  "BEARER_PREFIX = ''bearer ''"

definition nonempty_text :: "string \<Rightarrow> string option" where
  "nonempty_text s = (if s = [] then None else Some s)"

definition extract_service_token :: "string option \<Rightarrow> string option \<Rightarrow> string option" where
  "extract_service_token authorization header =
     (case authorization of
        Some a \<Rightarrow>
          (let candidate = strip a in
           if take (length BEARER_PREFIX) (lower candidate) = BEARER_PREFIX
           then nonempty_text (strip (drop (length BEARER_PREFIX) candidate))
           else None)
      | None \<Rightarrow> (case header of None \<Rightarrow> None | Some h \<Rightarrow> nonempty_text (strip h)))"

section \<open>Readiness\<close>

record dependency_health =
  dh_name :: string
  dh_healthy :: bool
  dh_detail :: "string option"

definition report_ready :: "dependency_health list \<Rightarrow> bool" where
  "report_ready report = list_all dh_healthy report"

text \<open>
  How a probe of a dependency ends: in time, not in time, or with an exception whose class and text are given.
\<close>

datatype probe_end = Answered | TimedOut | Raised string string

text \<open>\<open>_check\<close>; the rendering of the timeout in seconds (\<open>:g\<close>) is an argument.\<close>

fun check_dependency :: "string \<Rightarrow> string \<Rightarrow> probe_end \<Rightarrow> dependency_health" where
  "check_dependency timeout name Answered = \<lparr>dh_name = name, dh_healthy = True, dh_detail = None\<rparr>"
| "check_dependency timeout name TimedOut =
     \<lparr>dh_name = name, dh_healthy = False, dh_detail = Some (''did not answer within '' @ timeout @ ''s'')\<rparr>"
| "check_dependency timeout name (Raised cls txt) =
     \<lparr>dh_name = name, dh_healthy = False, dh_detail = Some (cls @ '': '' @ txt)\<rparr>"

definition readiness_check :: "string \<Rightarrow> probe_end option \<Rightarrow> probe_end option \<Rightarrow> dependency_health list" where
  "readiness_check timeout database redis =
     (case database of None \<Rightarrow> [] | Some e \<Rightarrow> [check_dependency timeout ''database'' e])
     @ (case redis of None \<Rightarrow> [] | Some e \<Rightarrow> [check_dependency timeout ''redis'' e])"

definition ready_route :: "dependency_health list \<Rightarrow> int \<times> json_object" where
  "ready_route report =
     (if report_ready report then 200 else 503,
      [(''ready'', JBool (report_ready report)),
       (''dependencies'', JArr (map (\<lambda>d. JObj [(''name'', JStr (dh_name d)), (''healthy'', JBool (dh_healthy d)),
          (''detail'', (case dh_detail d of None \<Rightarrow> JNull | Some t \<Rightarrow> JStr t))]) report))])"

section \<open>Properties\<close>

lemma set_default_get:
  "dict_get (set_default k v d) k' = (if k' = k then Some (or_else (dict_get d k) v) else dict_get d k')"
  by (cases "dict_get d k") (auto simp: set_default_def)

lemma status_entries:
  "dict_get STATUS_BY_CODE ''not_found'' = Some 404"
  "dict_get STATUS_BY_CODE ''invalid_state_transition'' = Some 409"
  "dict_get STATUS_BY_CODE ''run_not_modifiable'' = Some 409"
  "dict_get STATUS_BY_CODE ''run_cancelled'' = Some 409"
  "dict_get STATUS_BY_CODE ''job_lease_expired'' = Some 409"
  "dict_get STATUS_BY_CODE ''job_not_retryable'' = Some 409"
  "dict_get STATUS_BY_CODE ''worker_unavailable'' = Some 409"
  "dict_get STATUS_BY_CODE ''idempotency_conflict'' = Some 409"
  "dict_get STATUS_BY_CODE ''plan_invalid'' = Some 422"
  "dict_get STATUS_BY_CODE ''structured_output_invalid'' = Some 422"
  "dict_get STATUS_BY_CODE ''llm_timeout'' = Some 504"
  "dict_get STATUS_BY_CODE ''inference_failed'' = Some 502"
  "dict_get STATUS_BY_CODE ''no_compatible_worker'' = Some 503"
  "dict_get STATUS_BY_CODE ''tool_execution_failed'' = Some 500"
  "dict_get STATUS_BY_CODE ''workspace_error'' = Some 500"
  "dict_get STATUS_BY_CODE ''candidate_error'' = Some 500"
  "dict_get STATUS_BY_CODE ''domain_error'' = Some 500"
  "dict_get STATUS_BY_CODE ''unauthenticated'' = Some 401"
  "dict_get STATUS_BY_CODE ''permission_denied'' = Some 403"
  "dict_get STATUS_BY_CODE ''validation_error'' = Some 422"
  "dict_get STATUS_BY_CODE ''internal_error'' = Some 500"
  "dict_get STATUS_BY_CODE ''concurrency_conflict'' = None"
  by code_simp+

lemmas status_table = status_for_code_def status_entries or_else.simps

lemma problem_response_simps [simp]:
  "rp_status (problem_response cur st code d p ds t base h rid) = st"
  "rp_media_type (problem_response cur st code d p ds t base h rid) = PROBLEM_CONTENT_TYPE"
  "dict_get (rp_body (problem_response cur st code d p ds t base h rid)) ''status'' = Some (JInt st)"
  "dict_get (rp_body (problem_response cur st code d p ds t base h rid)) ''code'' = Some (JStr code)"
  "dict_get (rp_body (problem_response cur st code d p ds t base h rid)) ''detail'' = Some (JStr d)"
  "dict_get (rp_body (problem_response cur st code d p ds t base h rid)) ''instance'' = Some (JStr p)"
  by (simp_all add: problem_response_def Let_def)

lemma problem_headers:
  "dict_get (rp_headers (problem_response cur st code d p ds t base h rid)) k =
     (if k = ''WWW-Authenticate'' \<and> st = 401 then Some (or_else (dict_get h k) ''Bearer realm=\"internal\"'')
      else if k = ''Retry-After'' \<and> st = 503 then Some (or_else (dict_get h k) ''5'')
      else dict_get h k)"
proof -
  have "show_int RETRY_AFTER_SECONDS = ''5''" by code_simp
  then show ?thesis by (simp add: problem_response_def Let_def status_table set_default_get)
qed

text \<open>The status an exception of the domain is answered with.\<close>

lemma domain_status_cases:
  "error_code e = Some code \<Longrightarrow>
   status_for_code code = (case e of
       EntityNotFoundError _ _ \<Rightarrow> 404
     | PlanValidationError _ \<Rightarrow> 422 | StructuredOutputError _ _ _ _ \<Rightarrow> 422
     | LLMTimeoutError _ _ \<Rightarrow> 504 | InferenceError _ _ _ \<Rightarrow> 502 | NoCompatibleWorkerError _ \<Rightarrow> 503
     | DomainError _ \<Rightarrow> 500 | ToolExecutionError _ _ \<Rightarrow> 500 | WorkspaceError _ \<Rightarrow> 500 | CandidateError _ \<Rightarrow> 500
     | ConcurrencyConflictError _ _ \<Rightarrow> 500
     | _ \<Rightarrow> 409)"
  by (cases e; simp; hypsubst?; simp add: status_table FALLBACK_STATUS_def)

lemma unmapped_code:
  "error_code e = Some code \<Longrightarrow> dict_get STATUS_BY_CODE code = None \<longleftrightarrow> (\<exists>x i. e = ConcurrencyConflictError x i)"
  by (cases e; simp; hypsubst?; simp add: status_entries)

text \<open>
  Every error of the domain reaches the client as the same problem document: the status stands in the body and is the one of the
  table, the code and the message are those of the exception, a 503 tells when to retry, and no status
  below 400 is ever answered. The table knows every class of the hierarchy but one: the conflict of two writers, which
  its class calls retryable, has no entry and is answered as a fault of the server, without a time to retry.
\<close>

theorem domain_errors_as_problems:
  assumes "error_code e = Some code"
  shows "let r = handle_raised base cur req (RaisedDomain code message details) in
     rp_status r = status_for_code code \<and> 400 \<le> rp_status r
     \<and> dict_get (rp_body r) ''status'' = Some (JInt (rp_status r))
     \<and> dict_get (rp_body r) ''code'' = Some (JStr code) \<and> dict_get (rp_body r) ''detail'' = Some (JStr message)
     \<and> (dict_get (rp_headers r) ''Retry-After'' = Some ''5'' \<longleftrightarrow> (\<exists>x. e = NoCompatibleWorkerError x))
     \<and> (dict_get STATUS_BY_CODE code = None \<longleftrightarrow> (\<exists>x i. e = ConcurrencyConflictError x i))
     \<and> (500 \<le> rp_status r \<longleftrightarrow> classify e \<in> {FK_INFERENCE, FK_TOOL} \<or> (\<exists>x. e = NoCompatibleWorkerError x)
          \<or> (\<exists>x. e = DomainError x \<or> e = WorkspaceError x \<or> e = CandidateError x)
          \<or> (\<exists>x i. e = ConcurrencyConflictError x i))"
  unfolding Let_def unmapped_code [OF assms]
  by (cases e) (use domain_status_cases [OF assms] in \<open>simp_all add: problem_headers\<close>)

theorem domain_errors_as_problems_witness:
  "rp_status (handle_raised ''/problems'' ''rid'' \<lparr>rq_path = ''/v1/runs'', rq_scope_id = ''''\<rparr>
     (RaisedDomain ''concurrency_conflict'' ''Run was modified concurrently'' [])) = 500
   \<and> dict_get (rp_headers (handle_raised ''/problems'' ''rid'' \<lparr>rq_path = ''/v1/runs'', rq_scope_id = ''''\<rparr>
     (RaisedDomain ''concurrency_conflict'' ''Run was modified concurrently'' []))) ''Retry-After'' \<noteq> Some ''5''"
  using domain_errors_as_problems [of "ConcurrencyConflictError ''Run'' 1" "''concurrency_conflict''" "''/problems''" "''rid''"
    "\<lparr>rq_path = ''/v1/runs'', rq_scope_id = ''''\<rparr>" "''Run was modified concurrently''" "[]"]
  by (simp add: Let_def status_table FALLBACK_STATUS_def)

text \<open>
  Who gets into the worker interface. A request is admitted exactly when the credential extracted from its headers is the
  configured token; an \<open>Authorization\<close> header that is present decides alone, so a valid \<open>X-Service-Token\<close>
  beside it does not help; a missing credential is answered 401 with a challenge and a wrong one 403. An
  authenticator never expects a blank token.
\<close>

theorem worker_interface_admission:
  assumes "mk_authenticator token name = Inr a"
  shows "strip token \<noteq> []
    \<and> (authenticate a (extract_service_token auth header) = Inr name \<longleftrightarrow> extract_service_token auth header = Some token)
    \<and> (\<forall>bearer h. extract_service_token (Some bearer) h = extract_service_token (Some bearer) None)
    \<and> (\<forall>e. authenticate a (extract_service_token auth header) = Inl e \<longrightarrow>
         (let r = handle_raised base cur req e in
            rp_status r = (if extract_service_token auth header = None then 401 else 403)
            \<and> (dict_get (rp_headers r) ''WWW-Authenticate'' \<noteq> None \<longleftrightarrow> extract_service_token auth header = None)))"
proof -
  have a: "a = \<lparr>au_expected = token, au_principal = name\<rparr>" "strip token \<noteq> []"
    using assms by (auto simp: mk_authenticator_def split: if_splits)
  show ?thesis
    using a(2) by (cases "extract_service_token auth header")
      (auto simp: a(1) authenticate_def missing_token_def invalid_token_def problem_headers status_table
         extract_service_token_def Let_def)
qed

theorem worker_interface_admission_witness:
  "authenticate \<lparr>au_expected = ''s3cret'', au_principal = ''worker''\<rparr>
     (extract_service_token (Some ''Bearer s3cret'') None) = Inr ''worker''"
proof -
  have "mk_authenticator ''s3cret'' ''worker'' = Inr \<lparr>au_expected = ''s3cret'', au_principal = ''worker''\<rparr>" by code_simp
  moreover have "extract_service_token (Some ''Bearer s3cret'') None = Some ''s3cret''" by code_simp
  ultimately show ?thesis using worker_interface_admission [of "''s3cret''" "''worker''"] by metis
qed

text \<open>
  A request identifier that is echoed is printable, bounded and never empty: no header or log line can be forged
  with it.
\<close>

lemma request_id_is_safe:
  "sanitize header = Some s \<Longrightarrow>
   s \<noteq> [] \<and> length s \<le> 128 \<and> (\<forall>c \<in> set s. 32 \<le> ord c \<and> ord c < 127) \<and> sanitize (Some s) = Some s"
  by (auto simp: sanitize_def Let_def list_all_iff MAX_REQUEST_ID_LENGTH_def split: option.splits if_splits)

text \<open>The readiness route answers 200 exactly when every dependency it was given answered in time.\<close>

lemma ready_iff_all_answered:
  "fst (ready_route (readiness_check timeout db redis)) = 200 \<longleftrightarrow>
     (db = None \<or> db = Some Answered) \<and> (redis = None \<or> redis = Some Answered)"
proof -
  have "dh_healthy (check_dependency timeout n e) \<longleftrightarrow> e = Answered" for n e by (cases e) simp_all
  then show ?thesis by (simp add: ready_route_def report_ready_def readiness_check_def split: option.splits)
qed

end
