(* ===== verification/Model_State.thy ===== *)
theory Model_State
  imports Wire Regex
begin

text \<open>
  How the GPU worker makes a model available (\<open>src/gpu-worker/src/worker/model_state.py\<close> and the recognition of a full disk in
  \<open>filesystem.py\<close>): the readiness marker, the verification of a snapshot, the download with its retries, the repair and
  the whole preparation. The volume is a value: its directories, its regular files with their sizes, its symbolic
  links, the marker file and the free space. The hub client and the sizes the hub reports are arguments, as is what
  happened to the volume while the process waited for the download lock.
\<close>

section \<open>Numbers and texts read from a document\<close>

text \<open>\<open>int\<close> of a text: blanks around it, a sign, digits with single underscores between them.\<close>

fun digits_value :: "nat \<Rightarrow> bool \<Rightarrow> string \<Rightarrow> nat option" where
  "digits_value acc started [] = (if started then Some acc else None)"
| "digits_value acc started (c # cs) =
     (if is_digit c then digits_value (10 * acc + (ord c - 48)) True cs
      else if c = CHR ''_'' \<and> started \<and> cs \<noteq> [] \<and> is_digit (hd cs) then digits_value acc True cs
      else None)"

definition parse_int :: "string \<Rightarrow> int option" where
  "parse_int s =
     (case strip s of
        [] \<Rightarrow> None
      | c # cs \<Rightarrow>
          if c = CHR ''-'' then map_option (\<lambda>n. - int n) (digits_value 0 False cs)
          else if c = CHR ''+'' then map_option int (digits_value 0 False cs)
          else map_option int (digits_value 0 False (c # cs)))"

definition truncate_rat :: "rat \<Rightarrow> int" where
  "truncate_rat x = (if 0 \<le> x then \<lfloor>x\<rfloor> else - \<lfloor>- x\<rfloor>)"

text \<open>Exceptions: those \<open>read_marker\<close> catches (\<open>KeyError\<close>, \<open>TypeError\<close>, \<open>ValueError\<close>) and the one it does not.\<close>

datatype load_failure = Caught | AttributeError

fun int_of_json :: "json \<Rightarrow> load_failure + int" where
  "int_of_json (JInt i) = Inr i"
| "int_of_json (JBool b) = Inr (if b then 1 else 0)"
| "int_of_json (JFloat x) = Inr (truncate_rat x)"
| "int_of_json (JStr s) = (case parse_int s of None \<Rightarrow> Inl Caught | Some i \<Rightarrow> Inr i)"
| "int_of_json _ = Inl Caught"

text \<open>\<open>str\<close>; the rendering of values that are not texts is an argument.\<close>

fun str_of_json :: "(json \<Rightarrow> string) \<Rightarrow> json \<Rightarrow> string" where
  "str_of_json repr (JStr s) = s"
| "str_of_json repr v = repr v"

section \<open>The marker\<close>

definition MARKER_VERSION :: int where
  "MARKER_VERSION = 2"

record model_state =
  ms_model_id :: string
  ms_revision :: string
  ms_snapshot_path :: string
  ms_prepared_at :: string
  ms_total_bytes :: int
  ms_files :: "(string, int) dict"
  ms_verified :: bool
  ms_marker_version :: int
  ms_vllm_image :: json

definition state_matches :: "model_state \<Rightarrow> string \<Rightarrow> string option \<Rightarrow> bool" where
  "state_matches st mid revision \<longleftrightarrow>
     ms_model_id st = mid \<and> (revision = None \<or> revision = Some (ms_revision st))"

text \<open>The document \<open>to_json\<close> renders; its keys are sorted.\<close>

definition state_to_json :: "model_state \<Rightarrow> json" where
  "state_to_json st = JObj
     [(''files'', JObj (map (\<lambda>(k, n). (k, JInt n)) (ms_files st))), (''marker_version'', JInt (ms_marker_version st)),
      (''model_id'', JStr (ms_model_id st)), (''prepared_at'', JStr (ms_prepared_at st)),
      (''revision'', JStr (ms_revision st)), (''snapshot_path'', JStr (ms_snapshot_path st)),
      (''total_bytes'', JInt (ms_total_bytes st)), (''verified'', JBool (ms_verified st)),
      (''vllm_image'', ms_vllm_image st)]"

definition required :: "json_object \<Rightarrow> string \<Rightarrow> load_failure + json" where
  "required doc key = (case dict_get doc key of None \<Rightarrow> Inl Caught | Some v \<Rightarrow> Inr v)"

fun int_items :: "json_object \<Rightarrow> load_failure + (string, int) dict" where
  "int_items [] = Inr []"
| "int_items ((k, v) # kvs) =
     bind_sum (int_of_json v) (\<lambda>n. bind_sum (int_items kvs) (\<lambda>rest. Inr ((k, n) # rest)))"

text \<open>\<open>(payload.get("files") or {}).items()\<close>\<close>

definition files_of_json :: "json option \<Rightarrow> load_failure + (string, int) dict" where
  "files_of_json v =
     (case v of
        None \<Rightarrow> Inr []
      | Some d \<Rightarrow> if \<not> truthy d then Inr [] else (case d of JObj kvs \<Rightarrow> int_items kvs | _ \<Rightarrow> Inl AttributeError))"

definition state_from_mapping :: "(json \<Rightarrow> string) \<Rightarrow> json \<Rightarrow> load_failure + model_state" where
  "state_from_mapping repr v =
     (case v of
        JObj doc \<Rightarrow>
          bind_sum (required doc ''model_id'') (\<lambda>mid.
          bind_sum (required doc ''revision'') (\<lambda>rev.
          bind_sum (required doc ''snapshot_path'') (\<lambda>path.
          bind_sum (required doc ''prepared_at'') (\<lambda>prepared.
          bind_sum (int_of_json (or_else (dict_get doc ''total_bytes'') (JInt 0))) (\<lambda>total.
          bind_sum (files_of_json (dict_get doc ''files'')) (\<lambda>files.
          bind_sum (int_of_json (or_else (dict_get doc ''marker_version'') (JInt 0))) (\<lambda>version.
          Inr \<lparr>ms_model_id = str_of_json repr mid, ms_revision = str_of_json repr rev,
               ms_snapshot_path = str_of_json repr path, ms_prepared_at = str_of_json repr prepared,
               ms_total_bytes = total, ms_files = files,
               ms_verified = truthy (or_else (dict_get doc ''verified'') (JBool True)), ms_marker_version = version,
               ms_vllm_image = or_else (dict_get doc ''vllm_image'') JNull\<rparr>)))))))
      | _ \<Rightarrow> Inl Caught)"

section \<open>The volume\<close>

text \<open>The marker file: absent, not readable as JSON, or a document.\<close>

datatype marker_file = NoMarker | Unreadable | Document json

record volume =
  v_dirs :: "string list"
  v_files :: "(string, nat) dict"
  v_links :: "(string, string) dict"
  v_stuck :: "string list"
  v_marker :: marker_file
  v_free :: int

definition read_marker :: "(json \<Rightarrow> string) \<Rightarrow> volume \<Rightarrow> load_failure + model_state option" where
  "read_marker repr v =
     (case v_marker v of
        NoMarker \<Rightarrow> Inr None
      | Unreadable \<Rightarrow> Inr None
      | Document d \<Rightarrow>
          (case state_from_mapping repr d of
             Inl Caught \<Rightarrow> Inr None
           | Inl AttributeError \<Rightarrow> Inl AttributeError
           | Inr st \<Rightarrow> Inr (if ms_marker_version st = MARKER_VERSION then Some st else None)))"

definition write_marker :: "model_state \<Rightarrow> volume \<Rightarrow> volume" where
  "write_marker st v = v\<lparr>v_marker := Document (state_to_json st)\<rparr>"

text \<open>\<open>stat().st_size\<close> follows a link; \<open>None\<close> is \<open>OSError\<close>.\<close>

definition stat_size :: "volume \<Rightarrow> string \<Rightarrow> nat option" where
  "stat_size v p = (case dict_get (v_links v) p of Some target \<Rightarrow> dict_get (v_files v) target | None \<Rightarrow> dict_get (v_files v) p)"

abbreviation below :: "string \<Rightarrow> string \<Rightarrow> string" where
  "below snapshot name \<equiv> snapshot @ ''/'' @ name"

section \<open>Verification\<close>

fun file_problem :: "volume \<Rightarrow> string \<Rightarrow> string \<times> int \<Rightarrow> string option" where
  "file_problem v snapshot (name, expected) =
     (case stat_size v (below snapshot name) of
        None \<Rightarrow> Some (''missing: '' @ name)
      | Some actual \<Rightarrow>
          if int actual \<noteq> expected
          then Some (''truncated: '' @ name @ '' is '' @ show_int (int actual) @ '' bytes, expected '' @ show_int expected)
          else None)"

definition verify_snapshot :: "volume \<Rightarrow> string \<Rightarrow> (string, int) dict \<Rightarrow> bool \<times> string list" where
  "verify_snapshot v snapshot files =
     (if snapshot \<notin> set (v_dirs v) then (False, [''snapshot directory '' @ snapshot @ '' is missing''])
      else let problems = List.map_filter (file_problem v snapshot) files in (problems = [], problems))"

text \<open>\<open>snapshot_files\<close>: every file or link below the snapshot that can be read, by its relative name.\<close>

definition snapshot_files :: "volume \<Rightarrow> string \<Rightarrow> (string, int) dict" where
  "snapshot_files v snapshot =
     List.map_filter (\<lambda>p. if take (length snapshot + 1) p = snapshot @ ''/''
                          then map_option (\<lambda>n. (drop (length snapshot + 1) p, int n)) (stat_size v p) else None)
       (map fst (v_links v) @ map fst (v_files v))"

definition mismatches :: "volume \<Rightarrow> string \<Rightarrow> (string, int) dict \<Rightarrow> string list" where
  "mismatches v snapshot expected =
     map fst (filter (\<lambda>(name, size). map_option int (stat_size v (below snapshot name)) \<noteq> Some size) expected)"

definition ALLOW_PATTERNS :: "string list" where
  "ALLOW_PATTERNS = [''.safetensors'', ''.json'', ''.txt'', ''.model'', ''.jinja'']"

text \<open>\<open>fnmatch(name, "*" + ending)\<close>: the name ends so.\<close>

definition wanted :: "string \<Rightarrow> bool" where
  "wanted name \<longleftrightarrow> list_ex (\<lambda>e. drop (length name - length e) name = e) ALLOW_PATTERNS"

text \<open>What the hub answered: nothing, or the files with their sizes.\<close>

type_synonym hub_answer = "(string \<times> nat option) list option"

definition hub_file_sizes :: "hub_answer \<Rightarrow> (string, int) dict option" where
  "hub_file_sizes hub =
     (case hub of
        None \<Rightarrow> None
      | Some siblings \<Rightarrow>
          let sizes = fold (\<lambda>(name, size) d. case size of None \<Rightarrow> d
                  | Some n \<Rightarrow> if n \<noteq> 0 \<and> wanted name then dict_set name (int n) d else d) siblings []
          in if sizes = [] then None else Some sizes)"

definition authoritative_sizes :: "hub_answer \<Rightarrow> model_state option \<Rightarrow> (string, int) dict option" where
  "authoritative_sizes hub previous =
     (case hub_file_sizes hub of
        Some sizes \<Rightarrow> Some sizes
      | None \<Rightarrow>
          (case previous of
             None \<Rightarrow> None
           | Some st \<Rightarrow> if ms_verified st \<and> ms_files st \<noteq> [] then Some (ms_files st) else None))"

definition unlink :: "string \<Rightarrow> volume \<Rightarrow> volume" where
  "unlink p v = (if p \<in> set (v_stuck v) then v
     else if dict_get (v_links v) p \<noteq> None then v\<lparr>v_links := dict_pop p (v_links v)\<rparr>
     else v\<lparr>v_files := dict_pop p (v_files v)\<rparr>)"

text \<open>The link and the blob it stands for; when the name is no link they are the same path.\<close>

definition discard_one :: "string \<Rightarrow> string \<Rightarrow> volume \<Rightarrow> volume" where
  "discard_one snapshot name v =
     (let p = below snapshot name in
      case dict_get (v_links v) p of
        None \<Rightarrow> unlink p v
      | Some blob \<Rightarrow> unlink blob (unlink p v))"

definition discard :: "string \<Rightarrow> string list \<Rightarrow> volume \<Rightarrow> volume" where
  "discard snapshot names v = fold (discard_one snapshot) names v"

section \<open>Failures\<close>

text \<open>An exception: its error number when it is an \<open>OSError\<close>, its text and what it was raised from.\<close>

datatype failure = Failure (errno_of: "int option") (text_of: string) (cause_of: "failure option")

definition QUOTA_ERRNOS :: "int list" where
  "QUOTA_ERRNOS = [122, 28]"

definition QUOTA_MARKERS :: "string list" where
  "QUOTA_MARKERS = [''disk quota exceeded'', ''no space left on device'', ''quota exceeded'']"

fun contains :: "string \<Rightarrow> string \<Rightarrow> bool" where
  "contains w [] = (w = [])"
| "contains w (c # cs) = (take (length w) (c # cs) = w \<or> contains w cs)"

fun is_quota_error :: "failure \<Rightarrow> bool" where
  "is_quota_error (Failure errno txt cause) =
     ((case errno of None \<Rightarrow> False | Some n \<Rightarrow> n \<in> set QUOTA_ERRNOS)
      \<or> list_ex (\<lambda>mk. contains mk (lower txt)) QUOTA_MARKERS
      \<or> (case cause of None \<Rightarrow> False | Some c \<Rightarrow> is_quota_error c))"

datatype preparation_error =
    LockTimeout
  | NotEnoughSpace
  | RanOutOfSpace failure
  | DownloadFailed nat
  | StillBroken "string list"
  | MarkerFailure load_failure

definition retryable :: "preparation_error \<Rightarrow> bool" where
  "retryable e = (case e of LockTimeout \<Rightarrow> True | DownloadFailed _ \<Rightarrow> True | _ \<Rightarrow> False)"

section \<open>Preparation\<close>

record prepare_config =
  pc_model_id :: string
  pc_revision :: "string option"
  pc_min_free_bytes :: int
  pc_max_attempts :: nat
  pc_backoff :: rat

text \<open>
  The hub client: the number of the call (counted over the whole preparation) and the volume it finds; it leaves a volume
  and either fails or names the snapshot directory.
\<close>

type_synonym fetcher = "nat \<Rightarrow> volume \<Rightarrow> volume \<times> (failure + string)"

record progress =
  pg_volume :: volume
  pg_calls :: nat
  pg_delays :: "rat list"

text \<open>\<open>_download_with_retries\<close> from the given attempt on, with as many attempts left as the first argument says.\<close>

fun download_from :: "nat \<Rightarrow> prepare_config \<Rightarrow> fetcher \<Rightarrow> nat \<Rightarrow> progress \<Rightarrow> progress \<times> (preparation_error + string \<times> nat)" where
  "download_from 0 cfg fetch attempt st = (st, Inl (DownloadFailed (pc_max_attempts cfg)))"
| "download_from (Suc left) cfg fetch attempt st =
     (case fetch (pg_calls st) (pg_volume st) of
        (v, Inr path) \<Rightarrow> (st\<lparr>pg_volume := v, pg_calls := pg_calls st + 1\<rparr>, Inr (path, attempt))
      | (v, Inl e) \<Rightarrow>
          let st1 = st\<lparr>pg_volume := v, pg_calls := pg_calls st + 1\<rparr> in
          if is_quota_error e then (st1, Inl (RanOutOfSpace e))
          else if pc_max_attempts cfg \<le> attempt then (st1, Inl (DownloadFailed (pc_max_attempts cfg)))
          else download_from left cfg fetch (attempt + 1)
                 (st1\<lparr>pg_delays := pg_delays st1 @ [pc_backoff cfg * 2 ^ (attempt - 1)]\<rparr>))"

definition download_with_retries :: "prepare_config \<Rightarrow> fetcher \<Rightarrow> progress \<Rightarrow> progress \<times> (preparation_error + string \<times> nat)" where
  "download_with_retries cfg fetch st = download_from (pc_max_attempts cfg) cfg fetch 1 st"

definition repair_until_correct ::
  "prepare_config \<Rightarrow> fetcher \<Rightarrow> string \<Rightarrow> (string, int) dict option \<Rightarrow> nat \<Rightarrow> progress
   \<Rightarrow> progress \<times> (preparation_error + string \<times> nat \<times> bool)" where
  "repair_until_correct cfg fetch snapshot expected attempts st =
     (case expected of
        None \<Rightarrow> (st, Inr (snapshot, attempts, False))
      | Some sizes \<Rightarrow>
          let broken = mismatches (pg_volume st) snapshot sizes in
          if broken = [] then (st, Inr (snapshot, attempts, True))
          else
            (case download_with_retries cfg fetch (st\<lparr>pg_volume := discard snapshot broken (pg_volume st)\<rparr>) of
               (st1, Inl e) \<Rightarrow> (st1, Inl e)
             | (st1, Inr (snapshot1, extra)) \<Rightarrow>
                 let broken1 = mismatches (pg_volume st1) snapshot1 sizes in
                 if broken1 \<noteq> [] then (st1, Inl (StillBroken broken1))
                 else (st1, Inr (snapshot1, attempts + extra, True))))"

text \<open>\<open>_already_prepared\<close>\<close>

definition already_prepared :: "(json \<Rightarrow> string) \<Rightarrow> prepare_config \<Rightarrow> volume \<Rightarrow> load_failure + model_state option" where
  "already_prepared repr cfg v =
     bind_sum (read_marker repr v) (\<lambda>marker.
       case marker of
         None \<Rightarrow> Inr None
       | Some st \<Rightarrow>
           if \<not> state_matches st (pc_model_id cfg) (pc_revision cfg) then Inr None
           else if \<not> ms_verified st then Inr None
           else if fst (verify_snapshot v (ms_snapshot_path st) (ms_files st)) then Inr (Some st) else Inr None)"

record outcome_of_preparation =
  op_state :: model_state
  op_downloaded :: bool
  op_attempts :: nat

text \<open>\<open>_resolved_revision\<close>: the last component of the path.\<close>

definition resolved_revision :: "string \<Rightarrow> string" where
  "resolved_revision snapshot = rev (takeWhile (\<lambda>c. c \<noteq> CHR ''/'') (rev snapshot))"

definition total_size :: "(string, int) dict \<Rightarrow> int" where
  "total_size files = sum_list (map snd files)"

text \<open>
  What happens under the lock. \<open>stamp\<close> is the text of the current time and \<open>image_tag\<close> the tag of the container image.
\<close>

definition prepare_locked ::
  "(json \<Rightarrow> string) \<Rightarrow> prepare_config \<Rightarrow> fetcher \<Rightarrow> hub_answer \<Rightarrow> string \<Rightarrow> json \<Rightarrow> model_state option \<Rightarrow> volume
   \<Rightarrow> progress \<times> (preparation_error + outcome_of_preparation)" where
  "prepare_locked repr cfg fetch hub stamp image_tag previous v =
     (let st = \<lparr>pg_volume = v, pg_calls = 0, pg_delays = []\<rparr> in
      case already_prepared repr cfg v of
        Inl e \<Rightarrow> (st, Inl (MarkerFailure e))
      | Inr (Some ms) \<Rightarrow> (st, Inr \<lparr>op_state = ms, op_downloaded = False, op_attempts = 0\<rparr>)
      | Inr None \<Rightarrow>
          if v_free v < pc_min_free_bytes cfg then (st, Inl NotEnoughSpace)
          else
            (case download_with_retries cfg fetch st of
               (st1, Inl e) \<Rightarrow> (st1, Inl e)
             | (st1, Inr (snapshot, attempts)) \<Rightarrow>
                 (case repair_until_correct cfg fetch snapshot (authoritative_sizes hub previous) attempts st1 of
                    (st2, Inl e) \<Rightarrow> (st2, Inl e)
                  | (st2, Inr (snapshot2, attempts2, verified)) \<Rightarrow>
                      let files = snapshot_files (pg_volume st2) snapshot2;
                          ms = \<lparr>ms_model_id = pc_model_id cfg, ms_revision = resolved_revision snapshot2,
                                ms_snapshot_path = snapshot2, ms_prepared_at = stamp, ms_total_bytes = total_size files,
                                ms_files = files, ms_verified = verified, ms_marker_version = MARKER_VERSION,
                                ms_vllm_image = image_tag\<rparr>
                      in (st2\<lparr>pg_volume := write_marker ms (pg_volume st2)\<rparr>,
                          Inr \<lparr>op_state = ms, op_downloaded = True, op_attempts = attempts2\<rparr>))))"

text \<open>
  \<open>prepare_model\<close>. \<open>waited\<close> is the volume found when the lock was obtained, or \<open>None\<close> when it was not obtained in time.
\<close>

definition prepare_model ::
  "(json \<Rightarrow> string) \<Rightarrow> prepare_config \<Rightarrow> fetcher \<Rightarrow> hub_answer \<Rightarrow> string \<Rightarrow> json \<Rightarrow> (volume \<Rightarrow> volume option) \<Rightarrow> volume
   \<Rightarrow> progress \<times> (preparation_error + outcome_of_preparation)" where
  "prepare_model repr cfg fetch hub stamp image_tag waited v =
     (let st = \<lparr>pg_volume = v, pg_calls = 0, pg_delays = []\<rparr> in
      case read_marker repr v of
        Inl e \<Rightarrow> (st, Inl (MarkerFailure e))
      | Inr previous \<Rightarrow>
          (case already_prepared repr cfg v of
             Inl e \<Rightarrow> (st, Inl (MarkerFailure e))
           | Inr (Some ms) \<Rightarrow> (st, Inr \<lparr>op_state = ms, op_downloaded = False, op_attempts = 0\<rparr>)
           | Inr None \<Rightarrow>
               (case waited v of
                  None \<Rightarrow> (st, Inl LockTimeout)
                | Some v1 \<Rightarrow> prepare_locked repr cfg fetch hub stamp image_tag previous v1)))"

section \<open>The marker and its document\<close>

lemma int_items_dumped: "int_items (map (\<lambda>(k, n). (k, JInt n)) kvs) = Inr kvs"
  by (induction kvs) auto

lemma state_roundtrip: "state_from_mapping repr (state_to_json st) = Inr st"
  by (cases st) (simp add: state_from_mapping_def state_to_json_def required_def files_of_json_def int_items_dumped)

lemma read_write_marker:
  "read_marker repr (write_marker st v) = Inr (if ms_marker_version st = MARKER_VERSION then Some st else None)"
  by (simp add: read_marker_def write_marker_def state_roundtrip)

lemma write_marker_simps [simp]:
  "stat_size (write_marker st v) p = stat_size v p" "v_dirs (write_marker st v) = v_dirs v"
  "verify_snapshot (write_marker st v) snap files = verify_snapshot v snap files"
  "v_marker (write_marker st v) = Document (state_to_json st)"
proof -
  show stat: "stat_size (write_marker st v) p = stat_size v p" for p
    by (simp add: write_marker_def stat_size_def split: option.splits)
  have "file_problem (write_marker st v) snap = file_problem v snap"
    by (rule ext) (auto simp: stat split: prod.splits option.splits intro: file_problem.elims)
  moreover have "v_dirs (write_marker st v) = v_dirs v" by (simp add: write_marker_def)
  ultimately show "verify_snapshot (write_marker st v) snap files = verify_snapshot v snap files"
    by (simp add: verify_snapshot_def)
qed (simp_all add: write_marker_def)

section \<open>What verification means\<close>

definition intact :: "volume \<Rightarrow> string \<Rightarrow> (string, int) dict \<Rightarrow> bool" where
  "intact v snapshot files \<longleftrightarrow> (\<forall>(name, size) \<in> set files. map_option int (stat_size v (below snapshot name)) = Some size)"

lemma mismatches_Nil: "mismatches v snapshot expected = [] \<longleftrightarrow> intact v snapshot expected"
  by (auto simp: mismatches_def intact_def filter_empty_conv)

lemma file_problem_None: "file_problem v s x = None \<longleftrightarrow> map_option int (stat_size v (below s (fst x))) = Some (snd x)"
  by (cases x) (auto split: option.splits)

lemma verify_snapshot_iff: "fst (verify_snapshot v s files) \<longleftrightarrow> s \<in> set (v_dirs v) \<and> intact v s files"
proof -
  have "List.map_filter (file_problem v s) files = [] \<longleftrightarrow> (\<forall>x \<in> set files. file_problem v s x = None)"
    by (induction files) (auto simp: List.map_filter_def split: option.splits)
  then show ?thesis by (auto simp: verify_snapshot_def intact_def file_problem_None Let_def)
qed

lemma snapshot_files_intact: "intact v s (snapshot_files v s)"
proof -
  have path: "below s (drop (length s + 1) p) = p" if "take (length s + 1) p = s @ ''/''" for p
    using append_take_drop_id [of "length s + 1" p] that by (metis append.assoc)
  then show ?thesis
    by (fastforce simp: intact_def snapshot_files_def List.map_filter_def split: if_splits)
qed

section \<open>Downloads\<close>

text \<open>The client never touches the marker.\<close>

definition spares_marker :: "fetcher \<Rightarrow> bool" where
  "spares_marker fetch \<longleftrightarrow> (\<forall>n v. v_marker (fst (fetch n v)) = v_marker v)"

text \<open>A snapshot it names is a directory.\<close>

definition names_directories :: "fetcher \<Rightarrow> bool" where
  "names_directories fetch \<longleftrightarrow> (\<forall>n v p. snd (fetch n v) = Inr p \<longrightarrow> p \<in> set (v_dirs (fst (fetch n v))))"

lemma unlink_marker [simp]: "v_marker (unlink p v) = v_marker v" "v_dirs (unlink p v) = v_dirs v"
  by (simp_all add: unlink_def)

lemma discard_marker [simp]: "v_marker (discard s names v) = v_marker v"
proof -
  have "v_marker (discard_one s n v) = v_marker v" for n v by (simp add: discard_one_def Let_def split: option.splits)
  then show ?thesis unfolding discard_def by (induction names arbitrary: v) simp_all
qed

lemma download_from_spec:
  assumes "download_from left cfg fetch attempt st = (st', res)" and "attempt + left = pc_max_attempts cfg + 1"
    and positive: "0 < attempt"
  shows "pg_calls st' \<le> pg_calls st + left
    \<and> (spares_marker fetch \<longrightarrow> v_marker (pg_volume st') = v_marker (pg_volume st))
    \<and> (\<exists>ds. pg_delays st' = pg_delays st @ ds \<and> length ds \<le> left - 1
         \<and> (\<forall>i < length ds. ds ! i = pc_backoff cfg * 2 ^ (attempt - 1 + i)))
    \<and> (\<forall>p n. res = Inr (p, n) \<longrightarrow> attempt \<le> n \<and> n \<le> pc_max_attempts cfg
         \<and> (names_directories fetch \<longrightarrow> p \<in> set (v_dirs (pg_volume st'))))"
  using assms
proof (induction left arbitrary: attempt st)
  case (Suc left)
  obtain v r where f: "fetch (pg_calls st) (pg_volume st) = (v, r)" by (cases "fetch (pg_calls st) (pg_volume st)")
  have mark: "spares_marker fetch \<longrightarrow> v_marker v = v_marker (pg_volume st)"
    using f by (metis fst_conv spares_marker_def)
  let ?st1 = "st\<lparr>pg_volume := v, pg_calls := pg_calls st + 1\<rparr>"
  show ?case
  proof (cases r)
    case (Inr path)
    have "names_directories fetch \<longrightarrow> path \<in> set (v_dirs v)"
      using f Inr by (metis fst_conv names_directories_def snd_conv)
    then show ?thesis using Suc.prems f Inr mark by auto
  next
    case (Inl e)
    show ?thesis
    proof (cases "is_quota_error e \<or> pc_max_attempts cfg \<le> attempt")
      case True
      then show ?thesis using Suc.prems f Inl mark by (auto simp: Let_def split: if_splits)
    next
      case False
      let ?st2 = "?st1\<lparr>pg_delays := pg_delays ?st1 @ [pc_backoff cfg * 2 ^ (attempt - 1)]\<rparr>"
      have rec: "download_from left cfg fetch (attempt + 1) ?st2 = (st', res)"
        using Suc.prems(1) f Inl False by (simp add: Let_def)
      have "attempt + 1 + left = pc_max_attempts cfg + 1" using Suc.prems(2) by simp
      from Suc.IH [OF rec this] Suc.prems(3) obtain ds where IH:
        "pg_calls st' \<le> pg_calls st + 1 + left" "spares_marker fetch \<longrightarrow> v_marker (pg_volume st') = v_marker v"
        "pg_delays st' = pg_delays st @ [pc_backoff cfg * 2 ^ (attempt - 1)] @ ds"
        "length ds \<le> left - 1"
        "\<forall>i < length ds. ds ! i = pc_backoff cfg * 2 ^ (attempt + i)"
        "\<forall>p n. res = Inr (p, n) \<longrightarrow> attempt + 1 \<le> n \<and> n \<le> pc_max_attempts cfg
           \<and> (names_directories fetch \<longrightarrow> p \<in> set (v_dirs (pg_volume st')))"
        by auto
      have "0 < left" using False Suc.prems(2) by auto
      moreover have "((pc_backoff cfg * 2 ^ (attempt - 1)) # ds) ! i = pc_backoff cfg * 2 ^ (attempt - 1 + i)"
        if "i < Suc (length ds)" for i
      proof (cases i)
        case (Suc j)
        have "attempt + j = attempt - 1 + Suc j" if "attempt \<noteq> 0" using that by simp
        then show ?thesis using that Suc IH(5) Suc.prems(3) by simp
      qed simp
      ultimately show ?thesis
        using IH mark by (auto intro!: exI [of _ "(pc_backoff cfg * 2 ^ (attempt - 1)) # ds"])
    qed
  qed
qed auto

lemma repair_spec:
  assumes "repair_until_correct cfg fetch snapshot expected attempts st = (st', res)"
  shows "pg_calls st' \<le> pg_calls st + pc_max_attempts cfg
    \<and> (spares_marker fetch \<longrightarrow> v_marker (pg_volume st') = v_marker (pg_volume st))
    \<and> (\<exists>ds. pg_delays st' = pg_delays st @ ds \<and> length ds \<le> pc_max_attempts cfg - 1
         \<and> (\<forall>i < length ds. ds ! i = pc_backoff cfg * 2 ^ i))
    \<and> (\<forall>p n ok. res = Inr (p, n, ok) \<longrightarrow> n \<le> attempts + pc_max_attempts cfg
         \<and> (ok \<longleftrightarrow> expected \<noteq> None) \<and> (\<forall>sizes. expected = Some sizes \<longrightarrow> intact (pg_volume st') p sizes)
         \<and> (names_directories fetch \<longrightarrow> snapshot \<in> set (v_dirs (pg_volume st)) \<longrightarrow> p \<in> set (v_dirs (pg_volume st'))))"
proof (cases "\<exists>sizes. expected = Some sizes \<and> mismatches (pg_volume st) snapshot sizes \<noteq> []")
  case False
  then show ?thesis
    using assms by (auto simp: repair_until_correct_def Let_def mismatches_Nil split: option.splits if_splits)
next
  case True
  then obtain sizes where sizes: "expected = Some sizes" "mismatches (pg_volume st) snapshot sizes \<noteq> []" by blast
  let ?st0 = "st\<lparr>pg_volume := discard snapshot (mismatches (pg_volume st) snapshot sizes) (pg_volume st)\<rparr>"
  obtain st1 r where d: "download_with_retries cfg fetch ?st0 = (st1, r)"
    by (cases "download_with_retries cfg fetch ?st0")
  have st': "st' = st1" using assms sizes d
    by (auto simp: repair_until_correct_def Let_def split: sum.splits prod.splits if_splits)
  note spec = download_from_spec [OF d [unfolded download_with_retries_def]]
  show ?thesis
    using assms sizes d spec unfolding st'
    by (auto simp: repair_until_correct_def Let_def mismatches_Nil split: sum.splits prod.splits if_splits)
qed

section \<open>The whole preparation\<close>

abbreviation untouched :: "volume \<Rightarrow> progress" where
  "untouched v \<equiv> \<lparr>pg_volume = v, pg_calls = 0, pg_delays = []\<rparr>"

lemma already_prepared_Some:
  "already_prepared repr cfg v = Inr (Some ms) \<longleftrightarrow>
     read_marker repr v = Inr (Some ms) \<and> state_matches ms (pc_model_id cfg) (pc_revision cfg) \<and> ms_verified ms
     \<and> ms_snapshot_path ms \<in> set (v_dirs v) \<and> intact v (ms_snapshot_path ms) (ms_files ms)"
proof (cases "read_marker repr v")
  case (Inr found)
  then show ?thesis by (cases found) (auto simp: already_prepared_def verify_snapshot_iff)
qed (simp add: already_prepared_def)

text \<open>What a preparation under the lock that ends well has done.\<close>

lemma prepare_locked_Inr:
  assumes "prepare_locked repr cfg fetch hub stamp image_tag previous v = (st, Inr res)"
  shows "(op_downloaded res \<longrightarrow>
      (\<forall>sizes. authoritative_sizes hub previous = Some sizes \<longrightarrow> intact (pg_volume st) (ms_snapshot_path (op_state res)) sizes)
      \<and> (ms_verified (op_state res) \<longleftrightarrow> authoritative_sizes hub previous \<noteq> None)
      \<and> ms_model_id (op_state res) = pc_model_id cfg
      \<and> ms_revision (op_state res) = resolved_revision (ms_snapshot_path (op_state res))
      \<and> (names_directories fetch \<longrightarrow> ms_snapshot_path (op_state res) \<in> set (v_dirs (pg_volume st))))
    \<and> (\<not> op_downloaded res \<longrightarrow> st = untouched v \<and> already_prepared repr cfg v = Inr (Some (op_state res)))
    \<and> read_marker repr (pg_volume st) = Inr (Some (op_state res))
    \<and> intact (pg_volume st) (ms_snapshot_path (op_state res)) (ms_files (op_state res))"
proof (cases "already_prepared repr cfg v")
  case (Inl e)
  with assms show ?thesis by (simp add: prepare_locked_def Let_def)
next
  case (Inr found)
  show ?thesis
  proof (cases found)
    case (Some ms)
    with assms Inr have "st = untouched v" "res = \<lparr>op_state = ms, op_downloaded = False, op_attempts = 0\<rparr>"
      by (simp_all add: prepare_locked_def)
    with Inr Some show ?thesis using already_prepared_Some [of repr cfg v ms] by auto
  next
    case None
    obtain st1 r1 where d: "download_with_retries cfg fetch (untouched v) = (st1, r1)"
      by (cases "download_with_retries cfg fetch (untouched v)")
    with assms Inr None obtain snapshot attempts where r1: "r1 = Inr (snapshot, attempts)"
      by (auto simp: prepare_locked_def Let_def split: if_splits sum.splits)
    obtain st2 r2 where rep: "repair_until_correct cfg fetch snapshot (authoritative_sizes hub previous) attempts st1 = (st2, r2)"
      by (cases "repair_until_correct cfg fetch snapshot (authoritative_sizes hub previous) attempts st1")
    with assms Inr None d r1 obtain path n ok where r2: "r2 = Inr (path, n, ok)"
      by (auto simp: prepare_locked_def Let_def split: if_splits sum.splits)
    let ?ms = "\<lparr>ms_model_id = pc_model_id cfg, ms_revision = resolved_revision path, ms_snapshot_path = path,
       ms_prepared_at = stamp, ms_total_bytes = total_size (snapshot_files (pg_volume st2) path),
       ms_files = snapshot_files (pg_volume st2) path, ms_verified = ok, ms_marker_version = MARKER_VERSION,
       ms_vllm_image = image_tag\<rparr>"
    have res: "st = st2\<lparr>pg_volume := write_marker ?ms (pg_volume st2)\<rparr>"
      "res = \<lparr>op_state = ?ms, op_downloaded = True, op_attempts = n\<rparr>"
      using assms Inr None d r1 rep r2 by (auto simp: prepare_locked_def Let_def split: if_splits)
    have int: "intact (write_marker ms v) s f = intact v s f" for ms v s f by (simp add: intact_def)
    have dir: "names_directories fetch \<longrightarrow> snapshot \<in> set (v_dirs (pg_volume st1))"
      using download_from_spec [OF d [unfolded download_with_retries_def]] r1 by auto
    from repair_spec [OF rep] r2 dir show ?thesis
      by (simp add: res int read_write_marker snapshot_files_intact)
  qed
qed

lemma prepare_model_cases:
  assumes "prepare_model repr cfg fetch hub stamp image_tag waited v = (st, res)"
  obtains (alone) "pg_volume st = v" "pg_calls st = 0" "pg_delays st = []"
      "\<forall>r. res = Inr r \<longrightarrow> \<not> op_downloaded r \<and> already_prepared repr cfg v = Inr (Some (op_state r))"
  | (locked) previous v1 where "read_marker repr v = Inr previous" "waited v = Some v1"
      "prepare_locked repr cfg fetch hub stamp image_tag previous v1 = (st, res)"
  using assms by (auto simp: prepare_model_def Let_def split: sum.splits option.splits)

lemma prepare_locked_failure:
  assumes "prepare_locked repr cfg fetch hub stamp image_tag previous v = (st, Inl e)" and "spares_marker fetch"
  shows "v_marker (pg_volume st) = v_marker v"
proof (cases "already_prepared repr cfg v")
  case (Inr found)
  obtain st1 r1 where d: "download_with_retries cfg fetch (untouched v) = (st1, r1)"
    by (cases "download_with_retries cfg fetch (untouched v)")
  have m1: "v_marker (pg_volume st1) = v_marker v"
    using download_from_spec [OF d [unfolded download_with_retries_def]] assms(2) by simp
  have "v_marker (pg_volume st2) = v_marker v"
    if "repair_until_correct cfg fetch p x a st1 = (st2, r2)" for p x a st2 r2
    using repair_spec [OF that] assms(2) m1 by simp
  then show ?thesis
    using assms(1) Inr d m1
    by (auto simp: prepare_locked_def Let_def split: option.splits if_splits sum.splits prod.splits)
qed (use assms in \<open>auto simp: prepare_locked_def Let_def\<close>)

text \<open>Delays that double, from the first one on.\<close>

lemma sum_doubling:
  fixes b :: rat
  assumes "\<forall>i < length ds. ds ! i = b * 2 ^ i"
  shows "sum_list ds = b * (2 ^ length ds - 1)"
  using assms
proof (induction ds rule: rev_induct)
  case (snoc d ds)
  have "\<forall>i < length ds. ds ! i = b * 2 ^ i"
  proof (intro allI impI)
    fix i assume "i < length ds"
    then show "ds ! i = b * 2 ^ i" using snoc.prems [rule_format, of i] by (simp add: nth_append)
  qed
  moreover have "d = b * 2 ^ length ds" using snoc.prems [rule_format, of "length ds"] by simp
  ultimately show ?case using snoc.IH by (simp add: algebra_simps)
qed simp

lemma doubling_bound:
  fixes b :: rat
  assumes "\<forall>i < length ds. ds ! i = b * 2 ^ i" and "length ds \<le> k" and "0 \<le> b"
  shows "sum_list ds \<le> b * (2 ^ k - 1)"
  unfolding sum_doubling [OF assms(1)] using assms(2,3) by (intro mult_left_mono) (simp_all add: power_increasing)

lemma prepare_locked_bounded:
  assumes "prepare_locked repr cfg fetch hub stamp image_tag previous v = (st, res)" and "0 \<le> pc_backoff cfg"
  shows "pg_calls st \<le> 2 * pc_max_attempts cfg \<and> sum_list (pg_delays st) \<le> 2 * (pc_backoff cfg * (2 ^ (pc_max_attempts cfg - 1) - 1))"
proof -
  let ?b = "pc_backoff cfg * (2 ^ (pc_max_attempts cfg - 1) - 1)"
  have b: "0 \<le> ?b" using assms(2) by simp
  obtain st1 r1 where d: "download_with_retries cfg fetch (untouched v) = (st1, r1)"
    by (cases "download_with_retries cfg fetch (untouched v)")
  from download_from_spec [OF d [unfolded download_with_retries_def]] obtain ds where
    ds: "pg_calls st1 \<le> pc_max_attempts cfg" "pg_delays st1 = ds" "length ds \<le> pc_max_attempts cfg - 1"
      "\<forall>i < length ds. ds ! i = pc_backoff cfg * 2 ^ i" by auto
  have one: "sum_list ds \<le> ?b" using ds assms(2) by (intro doubling_bound) simp_all
  have two: "pg_calls st2 \<le> 2 * pc_max_attempts cfg \<and> sum_list (pg_delays st2) \<le> 2 * ?b"
    if "repair_until_correct cfg fetch p x a st1 = (st2, r2)" for p x a st2 r2
  proof -
    from repair_spec [OF that] obtain es where es: "pg_calls st2 \<le> pg_calls st1 + pc_max_attempts cfg"
      "pg_delays st2 = ds @ es" "length es \<le> pc_max_attempts cfg - 1" "\<forall>i < length es. es ! i = pc_backoff cfg * 2 ^ i"
      using ds(2) by auto
    have "sum_list es \<le> ?b" using es assms(2) by (intro doubling_bound) simp_all
    then show ?thesis using one es ds(1) by simp
  qed
  consider "st = untouched v" | "st = st1" | p x a st2 r2 where "repair_until_correct cfg fetch p x a st1 = (st2, r2)"
      "pg_calls st = pg_calls st2" "pg_delays st = pg_delays st2"
    using assms(1) d by (auto simp: prepare_locked_def Let_def split: option.splits if_splits sum.splits prod.splits)
  then show ?thesis
    using one ds(1,2) b two by cases auto
qed

section \<open>A volume to try it on\<close>

definition demo_cfg :: prepare_config where
  "demo_cfg = \<lparr>pc_model_id = ''m'', pc_revision = None, pc_min_free_bytes = 0, pc_max_attempts = 2, pc_backoff = 5\<rparr>"

definition demo_volume :: volume where
  "demo_volume = \<lparr>v_dirs = [], v_files = [], v_links = [], v_stuck = [], v_marker = NoMarker, v_free = 1\<rparr>"

text \<open>A client whose first call fails and whose second brings one file.\<close>

definition demo_fetch :: fetcher where
  "demo_fetch n v = (if n = 0 then (v, Inl (Failure None ''reset'' None))
     else (v\<lparr>v_dirs := [''s/c0ffee''], v_files := [(''s/c0ffee/a.json'', 7)]\<rparr>, Inr ''s/c0ffee''))"

definition demo_hub :: hub_answer where
  "demo_hub = Some [(''a.json'', Some 7), (''b.gguf'', Some 9)]"

definition demo_state :: model_state where
  "demo_state = \<lparr>ms_model_id = ''m'', ms_revision = ''c0ffee'', ms_snapshot_path = ''s/c0ffee'', ms_prepared_at = ''t'',
     ms_total_bytes = 7, ms_files = [(''a.json'', 7)], ms_verified = True, ms_marker_version = 2, ms_vllm_image = JNull\<rparr>"

definition demo_prepared :: volume where
  "demo_prepared = write_marker demo_state (demo_volume\<lparr>v_dirs := [''s/c0ffee''], v_files := [(''s/c0ffee/a.json'', 7)]\<rparr>)"

lemma demo_fetch_ok: "spares_marker demo_fetch" "names_directories demo_fetch"
  by (simp_all add: spares_marker_def names_directories_def demo_fetch_def)

lemma demo_sizes: "authoritative_sizes demo_hub None = Some [(''a.json'', 7)]"
  by (simp add: authoritative_sizes_def hub_file_sizes_def demo_hub_def wanted_def ALLOW_PATTERNS_def)

lemma demo_preparation:
  "prepare_model repr demo_cfg demo_fetch demo_hub ''t'' JNull Some demo_volume =
     (\<lparr>pg_volume = demo_prepared, pg_calls = 2, pg_delays = [5]\<rparr>,
      Inr \<lparr>op_state = demo_state, op_downloaded = True, op_attempts = 2\<rparr>)"
proof -
  have quota: "\<not> is_quota_error (Failure None ''reset'' None)" by code_simp
  have rev: "resolved_revision ''s/c0ffee'' = ''c0ffee''" by code_simp
  have none: "read_marker repr demo_volume = Inr None" by (simp add: read_marker_def demo_volume_def)
  let ?v = "demo_volume\<lparr>v_dirs := [''s/c0ffee''], v_files := [(''s/c0ffee/a.json'', 7)]\<rparr>"
  have d: "download_with_retries demo_cfg demo_fetch (untouched demo_volume) =
      (\<lparr>pg_volume = ?v, pg_calls = 2, pg_delays = [5]\<rparr>, Inr (''s/c0ffee'', 2))"
    using quota by (simp add: download_with_retries_def demo_cfg_def demo_fetch_def numeral_2_eq_2 Let_def)
  have files: "snapshot_files ?v ''s/c0ffee'' = [(''a.json'', 7)]"
    by (simp add: snapshot_files_def demo_volume_def List.map_filter_def stat_size_def)
  have fine: "mismatches ?v ''s/c0ffee'' [(''a.json'', 7)] = []"
    by (simp add: mismatches_def demo_volume_def stat_size_def)
  have free: "v_free demo_volume = 1" "pc_min_free_bytes demo_cfg = 0" "pc_model_id demo_cfg = ''m''"
    by (simp_all add: demo_volume_def demo_cfg_def)
  show ?thesis
    by (simp add: prepare_model_def prepare_locked_def already_prepared_def none Let_def d demo_sizes
        repair_until_correct_def fine files rev total_size_def free demo_prepared_def demo_state_def MARKER_VERSION_def)
qed

section \<open>Properties\<close>

text \<open>
  C20. The marker says only what was proved. A preparation that ends well leaves a marker on the volume that reads back as the
  state it returns, and every file recorded there is present at its recorded size. When it downloaded, the state is
  verified exactly when there were sizes to check against, from the hub or from an earlier verified preparation, and
  then every one of those files has its size. When it did not, nothing was fetched or changed. A preparation that fails
  leaves the marker as it was.
\<close>

theorem marker_says_what_was_proved:
  assumes "prepare_model repr cfg fetch hub stamp image_tag waited v = (st, res)" and "spares_marker fetch"
  shows "case res of
      Inl e \<Rightarrow> v_marker (pg_volume st) = v_marker (or_else (waited v) v) \<or> v_marker (pg_volume st) = v_marker v
    | Inr r \<Rightarrow> read_marker repr (pg_volume st) = Inr (Some (op_state r))
        \<and> intact (pg_volume st) (ms_snapshot_path (op_state r)) (ms_files (op_state r))
        \<and> (if op_downloaded r
            then \<exists>previous. read_marker repr v = Inr previous
              \<and> (case authoritative_sizes hub previous of
                   None \<Rightarrow> \<not> ms_verified (op_state r)
                 | Some sizes \<Rightarrow> ms_verified (op_state r) \<and> intact (pg_volume st) (ms_snapshot_path (op_state r)) sizes)
            else ms_verified (op_state r) \<and> pg_calls st = 0 \<and> (pg_volume st = v \<or> waited v = Some (pg_volume st)))"
  using assms(1)
proof (cases rule: prepare_model_cases)
  case alone
  show ?thesis
  proof (cases res)
    case (Inr r)
    with alone already_prepared_Some [of repr cfg v "op_state r"] show ?thesis by auto
  qed (use alone in simp)
next
  case (locked previous v1)
  show ?thesis
  proof (cases res)
    case (Inl e)
    with locked prepare_locked_failure [OF locked(3) [unfolded Inl] assms(2)] show ?thesis by simp
  next
    case (Inr r)
    note spec = prepare_locked_Inr [OF locked(3) [unfolded Inr]]
    show ?thesis
    proof (cases "op_downloaded r")
      case True
      with spec locked(1) Inr show ?thesis by (auto split: option.splits)
    next
      case False
      with spec have "st = untouched v1" "ms_verified (op_state r)"
        using already_prepared_Some [of repr cfg v1 "op_state r"] by auto
      with spec locked(2) Inr False show ?thesis by simp
    qed
  qed
qed

theorem marker_says_what_was_proved_witness:
  "\<exists>st. prepare_model (\<lambda>_. []) demo_cfg demo_fetch demo_hub ''t'' JNull Some demo_volume =
      (st, Inr \<lparr>op_state = demo_state, op_downloaded = True, op_attempts = 2\<rparr>)
    \<and> read_marker (\<lambda>_. []) (pg_volume st) = Inr (Some demo_state) \<and> intact (pg_volume st) ''s/c0ffee'' [(''a.json'', 7)]"
proof -
  have none: "read_marker (\<lambda>_. []) demo_volume = Inr None" by (simp add: read_marker_def demo_volume_def)
  have path: "ms_snapshot_path demo_state = ''s/c0ffee''" by (simp add: demo_state_def)
  show ?thesis
    using marker_says_what_was_proved [OF demo_preparation demo_fetch_ok(1), of "\<lambda>_. []"] demo_preparation [of "\<lambda>_. []"]
    by (simp add: none demo_sizes path)
qed

text \<open>
  A warm restart costs nothing. After a preparation that downloaded and verified, the next one for the same model, on the
  same volume, with any client, hub and clock, returns the same state without a call, provided the revision is not
  pinned or pinned to the commit the snapshot stands for. Pinned to anything else, a branch or a tag, the
  marker is never taken for a match, although it was prepared for that very request: every boot downloads again.
\<close>

theorem warm_restart_is_free:
  assumes "prepare_model repr cfg fetch hub stamp image_tag waited v = (st, Inr r)" and "op_downloaded r"
    and "ms_verified (op_state r)" and "names_directories fetch" and "pc_model_id cfg' = pc_model_id cfg"
  shows "if pc_revision cfg' = None \<or> pc_revision cfg' = Some (resolved_revision (ms_snapshot_path (op_state r)))
    then prepare_model repr cfg' fetch' hub' stamp' image_tag' waited' (pg_volume st) =
      (\<lparr>pg_volume = pg_volume st, pg_calls = 0, pg_delays = []\<rparr>, Inr (r\<lparr>op_downloaded := False, op_attempts := 0\<rparr>))
    else already_prepared repr cfg' (pg_volume st) = Inr None"
proof -
  obtain previous v1 where locked: "prepare_locked repr cfg fetch hub stamp image_tag previous v1 = (st, Inr r)"
    using assms(1,2) by (cases rule: prepare_model_cases) auto
  note spec = prepare_locked_Inr [OF locked]
  let ?ms = "op_state r"
  have ms: "read_marker repr (pg_volume st) = Inr (Some ?ms)" "ms_model_id ?ms = pc_model_id cfg"
    "ms_revision ?ms = resolved_revision (ms_snapshot_path ?ms)" "ms_snapshot_path ?ms \<in> set (v_dirs (pg_volume st))"
    "intact (pg_volume st) (ms_snapshot_path ?ms) (ms_files ?ms)"
    using spec assms(2,4) by auto
  show ?thesis
  proof (cases "pc_revision cfg' = None \<or> pc_revision cfg' = Some (resolved_revision (ms_snapshot_path ?ms))")
    case True
    then have "already_prepared repr cfg' (pg_volume st) = Inr (Some ?ms)"
      using ms assms(3,5) by (auto simp: already_prepared_Some state_matches_def)
    then show ?thesis using True ms(1) by (cases r) (simp add: prepare_model_def)
  next
    case False
    then have "\<not> state_matches ?ms (pc_model_id cfg') (pc_revision cfg')"
      using ms(3) by (simp add: state_matches_def)
    then have "already_prepared repr cfg' (pg_volume st) = Inr None" using ms(1) by (simp add: already_prepared_def)
    then show ?thesis by (simp only: if_not_P [OF False])
  qed
qed

theorem warm_restart_is_free_witness:
  "prepare_model (\<lambda>_. []) demo_cfg (\<lambda>n v. (demo_volume, Inl (Failure (Some 28) [] None))) None ''u'' JNull (\<lambda>_. None) demo_prepared =
     (\<lparr>pg_volume = demo_prepared, pg_calls = 0, pg_delays = []\<rparr>, Inr \<lparr>op_state = demo_state, op_downloaded = False, op_attempts = 0\<rparr>)
   \<and> already_prepared (\<lambda>_. []) (demo_cfg\<lparr>pc_revision := Some ''main''\<rparr>) demo_prepared = Inr None"
proof -
  have rev: "resolved_revision ''s/c0ffee'' \<noteq> ''main''" by code_simp
  have st: "ms_verified demo_state" "ms_snapshot_path demo_state = ''s/c0ffee''" by (simp_all add: demo_state_def)
  have cfg: "pc_revision demo_cfg = None" by (simp add: demo_cfg_def)
  note warm = warm_restart_is_free [OF demo_preparation [of "\<lambda>_. []"] _ _ demo_fetch_ok(2)]
  show ?thesis
    using warm [of demo_cfg] warm [of "demo_cfg\<lparr>pc_revision := Some ''main''\<rparr>"] rev by (simp add: st cfg)
qed

text \<open>
  Preparation is bounded. Whatever the client does, it is called at most twice the configured number of attempts, and the
  time slept between attempts is at most twice the sum of the doubling delays of one round; a full disk ends a
  round at once.
\<close>

theorem preparation_is_bounded:
  assumes "prepare_model repr cfg fetch hub stamp image_tag waited v = (st, res)" and "0 \<le> pc_backoff cfg"
  shows "pg_calls st \<le> 2 * pc_max_attempts cfg
    \<and> sum_list (pg_delays st) \<le> 2 * (pc_backoff cfg * (2 ^ (pc_max_attempts cfg - 1) - 1))
    \<and> (\<forall>left attempt pg e v'. fetch (pg_calls pg) (pg_volume pg) = (v', Inl e) \<and> is_quota_error e \<longrightarrow>
         snd (download_from (Suc left) cfg fetch attempt pg) = Inl (RanOutOfSpace e))"
proof -
  have "pg_calls st \<le> 2 * pc_max_attempts cfg
      \<and> sum_list (pg_delays st) \<le> 2 * (pc_backoff cfg * (2 ^ (pc_max_attempts cfg - 1) - 1))"
    using assms(1)
  proof (cases rule: prepare_model_cases)
    case alone
    then show ?thesis using assms(2) by simp
  next
    case (locked previous v1)
    from prepare_locked_bounded [OF locked(3) assms(2)] show ?thesis .
  qed
  then show ?thesis by (auto simp: Let_def)
qed

theorem preparation_is_bounded_witness:
  "\<exists>st res. prepare_model (\<lambda>_. []) demo_cfg demo_fetch demo_hub ''t'' JNull Some demo_volume = (st, res)
     \<and> pg_calls st \<le> 4 \<and> sum_list (pg_delays st) \<le> 10"
proof -
  have cfg: "pc_backoff demo_cfg = 5" "pc_max_attempts demo_cfg = 2" by (simp_all add: demo_cfg_def)
  show ?thesis
    using preparation_is_bounded [OF demo_preparation [of "\<lambda>_. []"]] demo_preparation [of "\<lambda>_. []"] by (simp add: cfg)
qed

text \<open>
  The sizes recorded for another model are taken for the truth. When the hub does not report sizes, those of the last
  verified marker are used without asking what model it describes. A model that is complete on the volume, but whose
  file has another length than the file of that name of the model served before, is then found broken: its file is
  deleted, the client (which has nothing to download) is asked again, and the preparation fails.
\<close>

theorem foreign_marker_discards_good_files:
  assumes "read_marker repr v = Inr (Some old)" and "ms_model_id old \<noteq> pc_model_id cfg" and "ms_verified old"
    and "(name, recorded) \<in> set (ms_files old)" and "stat_size v (below p name) = Some actual" and "int actual \<noteq> recorded"
    and "v_links v = []" and "v_stuck v = []" and "pc_min_free_bytes cfg \<le> v_free v" and "0 < pc_max_attempts cfg"
    and "\<forall>n u. fetch n u = (u, Inr p)" and "hub_file_sizes hub = None"
  shows "\<exists>st broken. prepare_model repr cfg fetch hub stamp image_tag Some v = (st, Inl (StillBroken broken))
    \<and> name \<in> set broken \<and> stat_size (pg_volume st) (below p name) = None"
proof -
  let ?sizes = "ms_files old"
  let ?broken = "mismatches v p ?sizes"
  have broken: "name \<in> set ?broken" using assms(4-6) by (force simp: mismatches_def)
  have un: "v_links (unlink q u) = []" "v_stuck (unlink q u) = []" "dict_get (v_files (unlink q u)) q' = (if q' = q then None else dict_get (v_files u) q')"
    if "v_links u = []" "v_stuck u = []" for q q' u using that by (simp_all add: unlink_def)
  have gone: "v_links (discard p ns u) = [] \<and> v_stuck (discard p ns u) = []
      \<and> (n \<in> set ns \<or> dict_get (v_files u) (below p n) = None \<longrightarrow> dict_get (v_files (discard p ns u)) (below p n) = None)"
    if "v_links u = []" "v_stuck u = []" for ns u n
    using that
  proof (induction ns arbitrary: u)
    case (Cons m ns)
    have "discard p (m # ns) u = discard p ns (unlink (below p m) u)"
      using Cons.prems by (simp add: discard_def discard_one_def)
    then show ?case using Cons.IH [of "unlink (below p m) u"] un [OF Cons.prems, of "below p m"] by auto
  qed (simp add: discard_def)
  let ?u = "discard p ?broken v"
  have stat: "stat_size ?u (below p name) = None"
    using gone [OF assms(7,8), of ?broken name] broken by (simp add: stat_size_def)
  obtain k where k: "pc_max_attempts cfg = Suc k" using assms(10) by (cases "pc_max_attempts cfg") auto
  have fetch: "download_with_retries cfg fetch st = (st\<lparr>pg_calls := pg_calls st + 1\<rparr>, Inr (p, 1))" for st
    using assms(11) by (simp add: download_with_retries_def k)
  have still: "name \<in> set (mismatches ?u p ?sizes)" using assms(4) stat by (force simp: mismatches_def)
  have sizes: "authoritative_sizes hub (Some old) = Some ?sizes"
    using assms(3,4,12) by (auto simp: authoritative_sizes_def)
  have cold: "already_prepared repr cfg v = Inr None"
    using assms(1,2) by (simp add: already_prepared_def state_matches_def)
  have "prepare_model repr cfg fetch hub stamp image_tag Some v =
      (\<lparr>pg_volume = ?u, pg_calls = 2, pg_delays = []\<rparr>, Inl (StillBroken (mismatches ?u p ?sizes)))"
    using broken still assms(9)
    by (auto simp: prepare_model_def assms(1) cold prepare_locked_def fetch sizes repair_until_correct_def Let_def)
  with still stat show ?thesis by auto
qed

definition demo_other :: volume where
  "demo_other = write_marker demo_state (demo_volume\<lparr>v_dirs := [''o/beef''], v_files := [(''o/beef/a.json'', 8)]\<rparr>)"

theorem foreign_marker_discards_good_files_witness:
  "\<exists>st broken. prepare_model (\<lambda>_. []) (demo_cfg\<lparr>pc_model_id := ''o''\<rparr>) (\<lambda>n u. (u, Inr ''o/beef'')) None ''t'' JNull Some demo_other =
      (st, Inl (StillBroken broken))
    \<and> stat_size demo_other ''o/beef/a.json'' = Some 8 \<and> stat_size (pg_volume st) ''o/beef/a.json'' = None"
proof -
  have marker: "read_marker (\<lambda>_. []) demo_other = Inr (Some demo_state)"
    by (simp add: demo_other_def read_write_marker demo_state_def MARKER_VERSION_def)
  have there: "stat_size demo_other (below ''o/beef'' ''a.json'') = Some 8"
    by (simp add: demo_other_def stat_size_def demo_volume_def write_marker_def)
  have other: "v_links demo_other = []" "v_stuck demo_other = []" "v_free demo_other = 1"
    by (simp_all add: demo_other_def write_marker_def demo_volume_def)
  show ?thesis
    using foreign_marker_discards_good_files [OF marker _ _ _ there, of "demo_cfg\<lparr>pc_model_id := ''o''\<rparr>" 7
        "\<lambda>n u. (u, Inr ''o/beef'')" None "''t''" JNull] there
    by (auto simp: other demo_state_def demo_cfg_def hub_file_sizes_def)
qed

end
