(* ===== verification/Paths.thy ===== *)
theory Paths
  imports Prelude
begin

text \<open>
  The part of Python's \<open>pathlib\<close> and of its text splitting that the sources use: \<open>PurePosixPath\<close> as a root and components.
\<close>

section \<open>Paths\<close>

text \<open>\<open>str.split\<close> and \<open>str.partition\<close> at one character, and a join.\<close>

fun split_at :: "char \<Rightarrow> string \<Rightarrow> string list" where
  "split_at sep [] = [[]]"
| "split_at sep (c # cs) =
     (if c = sep then [] # split_at sep cs
      else (case split_at sep cs of [] \<Rightarrow> [[c]] | w # ws \<Rightarrow> (c # w) # ws))"

definition partition_at :: "char \<Rightarrow> string \<Rightarrow> string \<times> string" where
  "partition_at sep s = (takeWhile (\<lambda>c. c \<noteq> sep) s, drop 1 (dropWhile (\<lambda>c. c \<noteq> sep) s))"

fun join_with :: "char \<Rightarrow> string list \<Rightarrow> string" where
  "join_with sep [] = []"
| "join_with sep [w] = w"
| "join_with sep (w # ws) = w @ sep # join_with sep ws"

text \<open>A \<open>Path\<close>: its root (empty, one slash, or exactly two) and its components; empty components and single dots vanish.\<close>

record path =
  pt_root :: string
  pt_parts :: "string list"

definition mk_path :: "string \<Rightarrow> path" where
  "mk_path s =
     \<lparr>pt_root = (if take 1 s \<noteq> ''/'' then [] else if take 2 s = ''//'' \<and> take 3 s \<noteq> ''///'' then ''//'' else ''/''),
      pt_parts = filter (\<lambda>p. p \<noteq> [] \<and> p \<noteq> ''.'') (split_at CHR ''/'' s)\<rparr>"

definition path_text :: "path \<Rightarrow> string" where
  "path_text p = (if pt_root p = [] \<and> pt_parts p = [] then ''.'' else pt_root p @ join_with CHR ''/'' (pt_parts p))"

definition is_absolute :: "path \<Rightarrow> bool" where
  "is_absolute p \<longleftrightarrow> pt_root p \<noteq> []"

text \<open>\<open>p / name\<close> for a plain name.\<close>

definition path_child :: "path \<Rightarrow> string \<Rightarrow> path" where
  "path_child p name = p\<lparr>pt_parts := pt_parts p @ [name]\<rparr>"

text \<open>Splitting and joining undo each other on components without the separator.\<close>

lemma split_at_ne [simp]: "split_at sep s \<noteq> []"
  by (induction s) (auto split: list.splits)

lemma split_at_append:
  "sep \<notin> set w \<Longrightarrow> split_at sep (w @ sep # s) = w # split_at sep s"
  by (induction w) (auto split: list.splits)

lemma split_at_plain: "sep \<notin> set w \<Longrightarrow> split_at sep w = [w]"
  by (induction w) (auto split: list.splits)

lemma split_join:
  "ws \<noteq> [] \<Longrightarrow> \<forall>w \<in> set ws. sep \<notin> set w \<Longrightarrow> split_at sep (join_with sep ws) = ws"
  by (induction sep ws rule: join_with.induct) (simp_all add: split_at_append split_at_plain)

lemma split_at_parts: "w \<in> set (split_at sep s) \<Longrightarrow> sep \<notin> set w"
  by (induction s arbitrary: w) (auto split: if_splits list.splits)

end
