(* ===== verification/Shell.thy ===== *)
theory Shell
  imports Prelude Evidence
begin

text \<open>
  The part of \<open>shlex\<close> the sources use: splitting a command line into words and joining words into a command line that splits into them again.
\<close>

section \<open>Splitting words\<close>

text \<open>
  \<open>shlex.split\<close>: words are separated by blanks; quotes and backslashes are removed. The state is the word under way (if
  any) and the quote it is in.
\<close>

datatype quoting = Bare | Single | Double

definition shell_blank :: "char \<Rightarrow> bool" where
  "shell_blank c \<longleftrightarrow> c = CHR '' '' \<or> c = CHR 0x09 \<or> c = CHR 0x0D \<or> c = CHR 0x0A"

fun shlex_from :: "quoting \<Rightarrow> string option \<Rightarrow> string \<Rightarrow> string list option" where
  "shlex_from Bare w [] = Some (case w of None \<Rightarrow> [] | Some u \<Rightarrow> [u])"
| "shlex_from q w [] = None"
| "shlex_from Bare w (c # cs) =
     (if shell_blank c then
        (case w of None \<Rightarrow> shlex_from Bare None cs | Some u \<Rightarrow> map_option (\<lambda>ws. u # ws) (shlex_from Bare None cs))
      else if c = CHR 0x27 then shlex_from Single (Some (or_else w [])) cs
      else if c = CHR 0x22 then shlex_from Double (Some (or_else w [])) cs
      else if c = CHR 0x5C then
        (case cs of [] \<Rightarrow> None | d # ds \<Rightarrow> shlex_from Bare (Some (or_else w [] @ [d])) ds)
      else shlex_from Bare (Some (or_else w [] @ [c])) cs)"
| "shlex_from Single w (c # cs) =
     (if c = CHR 0x27 then shlex_from Bare w cs else shlex_from Single (Some (or_else w [] @ [c])) cs)"
| "shlex_from Double w (c # cs) =
     (if c = CHR 0x22 then shlex_from Bare w cs
      else if c = CHR 0x5C then
        (case cs of [] \<Rightarrow> None
         | d # ds \<Rightarrow> if d = CHR 0x22 \<or> d = CHR 0x5C then shlex_from Double (Some (or_else w [] @ [d])) ds
                    else shlex_from Double (Some (or_else w [] @ [c, d])) ds)
      else shlex_from Double (Some (or_else w [] @ [c])) cs)"

definition shlex_split :: "string \<Rightarrow> string list option" where
  "shlex_split s = shlex_from Bare None s"

section \<open>Joining words\<close>

definition shell_safe :: "char \<Rightarrow> bool" where
  "shell_safe c \<longleftrightarrow> (let n = (of_char c :: nat) in (97 \<le> n \<and> n \<le> 122) \<or> (65 \<le> n \<and> n \<le> 90) \<or> (48 \<le> n \<and> n \<le> 57))
     \<or> c \<in> set ''_@%+=:,./-''"

definition escape_single :: "char \<Rightarrow> string" where
  "escape_single c = (if c = CHR 0x27 then [CHR 0x27, CHR 0x22, CHR 0x27, CHR 0x22, CHR 0x27] else [c])"

definition shlex_quote :: "string \<Rightarrow> string" where
  "shlex_quote w =
     (if w = [] then [CHR 0x27, CHR 0x27]
      else if list_all shell_safe w then w
      else CHR 0x27 # concat (map escape_single w) @ [CHR 0x27])"

definition shlex_join :: "string list \<Rightarrow> string" where
  "shlex_join ws = py_join '' '' (map shlex_quote ws)"

lemma shell_safe_plain: "shell_safe c \<Longrightarrow> \<not> shell_blank c \<and> c \<noteq> CHR 0x27 \<and> c \<noteq> CHR 0x22 \<and> c \<noteq> CHR 0x5C"
  by (auto simp: shell_safe_def shell_blank_def Let_def)

lemma shlex_safe_word:
  "list_all shell_safe w \<Longrightarrow> shlex_from Bare (Some u) (w @ r) = shlex_from Bare (Some (u @ w)) r"
  by (induction w arbitrary: u) (auto dest: shell_safe_plain)

lemma shlex_single_word:
  "shlex_from Single (Some u) (concat (map escape_single w) @ CHR 0x27 # r) = shlex_from Bare (Some (u @ w)) r"
  by (induction w arbitrary: u) (simp_all add: escape_single_def shell_blank_def)

lemma shlex_quoted_word: "shlex_from Bare None (shlex_quote w @ r) = shlex_from Bare (Some w) r"
proof (cases "w \<noteq> [] \<and> list_all shell_safe w")
  case True
  then obtain c cs where "w = c # cs" "shell_safe c" "list_all shell_safe cs" by (cases w) auto
  then show ?thesis using True shlex_safe_word [of cs "[c]" r] shell_safe_plain [of c] by (simp add: shlex_quote_def)
next
  case False
  then show ?thesis using shlex_single_word [of "[]" w r] by (auto simp: shlex_quote_def shell_blank_def)
qed

text \<open>The words that were joined are the words it splits into.\<close>

lemma shlex_split_join: "shlex_split (shlex_join ws) = Some ws"
proof (induction ws)
  case (Cons w ws)
  show ?case
  proof (cases ws)
    case Nil
    then show ?thesis using shlex_quoted_word [of w "[]"] by (simp add: shlex_join_def shlex_split_def)
  next
    case (Cons v vs)
    have "shlex_split (shlex_join (w # ws)) = shlex_from Bare (Some w) (CHR '' '' # shlex_join ws)"
      using shlex_quoted_word [of w "CHR '' '' # shlex_join ws"] by (simp add: Cons shlex_join_def shlex_split_def)
    also have "\<dots> = map_option (Cons w) (shlex_split (shlex_join ws))" by (simp add: shell_blank_def shlex_split_def)
    finally show ?thesis using Cons.IH by simp
  qed
qed (simp add: shlex_join_def shlex_split_def)

end
