(* ===== verification/Worker_Config.thy ===== *)
theory Worker_Config
  imports Model_State Paths Shell
begin

text \<open>
  The GPU worker around its model: the configuration read from the environment and the argument vector of the inference server
  (\<open>src/gpu-worker/src/worker/config.py\<close>), the wait for the server and the validation of its first answer
  (\<open>readiness.py\<close>), the survey of the GPUs (\<open>gpu.py\<close>) and the decisions of the commands (\<open>cli.py\<close>). The text of an
  error is left out, the variable it names is kept. Reading a decimal (\<open>float\<close>) and writing one (\<open>:g\<close>) are arguments; infinities
  and NaN have no counterpart.
\<close>

section \<open>Floating point\<close>

text \<open>
  A Python float: a finite value, taken as a rational on which arithmetic is exact, one of the infinities, or not a number. No
  comparison holds of \<open>nan\<close>; the other values are in their order.
\<close>

datatype pyfloat = Finite rat | PosInf | NegInf | NaN

instantiation pyfloat :: ord
begin

fun less_pyfloat :: "pyfloat \<Rightarrow> pyfloat \<Rightarrow> bool" where
  "less_pyfloat (Finite x) (Finite y) \<longleftrightarrow> x < y"
| "less_pyfloat (Finite x) PosInf \<longleftrightarrow> True"
| "less_pyfloat NegInf (Finite y) \<longleftrightarrow> True"
| "less_pyfloat NegInf PosInf \<longleftrightarrow> True"
| "less_pyfloat _ _ \<longleftrightarrow> False"

definition less_eq_pyfloat :: "pyfloat \<Rightarrow> pyfloat \<Rightarrow> bool" where
  "less_eq_pyfloat x y \<longleftrightarrow> x < y \<or> x = y \<and> x \<noteq> NaN"

instance ..

end

lemma not_less_pyfloat: "\<not> x < Finite y \<longleftrightarrow> Finite y \<le> x \<or> x = NaN"
  by (cases x) (auto simp: less_eq_pyfloat_def)

definition fl_shift :: "rat \<Rightarrow> pyfloat \<Rightarrow> pyfloat" where
  "fl_shift d x = (case x of Finite y \<Rightarrow> Finite (y + d) | _ \<Rightarrow> x)"

text \<open>\<open>min(a, b)\<close> and \<open>int(x)\<close>.\<close>

definition py_min :: "pyfloat \<Rightarrow> pyfloat \<Rightarrow> pyfloat" where
  "py_min a b = (if b < a then b else a)"

datatype float_failure = ValueError | OverflowError

definition fl_int :: "pyfloat \<Rightarrow> float_failure + int" where
  "fl_int x = (case x of Finite y \<Rightarrow> Inr (truncate_rat y) | NaN \<Rightarrow> Inl ValueError | _ \<Rightarrow> Inl OverflowError)"

section \<open>Configuration\<close>

record worker_config =
  wc_model_id :: string
  wc_model_revision :: "string option"
  wc_served_model_name :: "string option"
  wc_persistent_root :: path
  wc_min_free_disk_gb :: pyfloat
  wc_host :: string
  wc_port :: int
  wc_max_model_len :: int
  wc_gpu_memory_utilization :: pyfloat
  wc_tensor_parallel_size :: int
  wc_auto_tensor_parallel :: bool
  wc_extra_args :: "string list"
  wc_readiness_timeout :: pyfloat
  wc_readiness_poll :: pyfloat
  wc_download_max_attempts :: int
  wc_download_backoff :: pyfloat
  wc_lock_timeout :: pyfloat
  wc_hf_hub_disable_xet :: "bool option"
  wc_hf_token :: string
  wc_vllm_api_key :: string

definition DEFAULT_MODEL_ID :: string where
  "DEFAULT_MODEL_ID = ''Qwen/Qwen3-Coder-30B-A3B-Instruct-FP8''"

definition DEFAULT_PERSISTENT_ROOT :: string where
  "DEFAULT_PERSISTENT_ROOT = ''/runpod-volume''"

definition DEFAULT_MIN_FREE_DISK_GB :: pyfloat where
  "DEFAULT_MIN_FREE_DISK_GB = Finite 40"

definition MIN_USABLE_MODEL_LEN :: int where
  "MIN_USABLE_MODEL_LEN = 1024"

definition MAX_TCP_PORT :: int where
  "MAX_TCP_PORT = 65535"

datatype config_error = ConfigError (variable_of: string)

text \<open>\<open>__post_init__\<close>; the checks in the order of the source.\<close>

definition timing_floors :: "worker_config \<Rightarrow> (string \<times> pyfloat \<times> pyfloat) list" where
  "timing_floors c =
     [(''MODEL_DOWNLOAD_MAX_ATTEMPTS'', Finite (of_int (wc_download_max_attempts c)), Finite 1),
      (''MODEL_DOWNLOAD_BACKOFF_SECONDS'', wc_download_backoff c, Finite 0),
      (''READINESS_TIMEOUT_SECONDS'', wc_readiness_timeout c, Finite 0),
      (''READINESS_POLL_SECONDS'', wc_readiness_poll c, Finite 0),
      (''MODEL_LOCK_TIMEOUT_SECONDS'', wc_lock_timeout c, Finite 0)]"

definition mk_worker_config :: "worker_config \<Rightarrow> config_error + worker_config" where
  "mk_worker_config c =
     (if strip (wc_model_id c) = [] then Inl (ConfigError ''MODEL_ID'')
      else if \<not> (Finite 0 < wc_gpu_memory_utilization c \<and> wc_gpu_memory_utilization c \<le> Finite 1)
      then Inl (ConfigError ''GPU_MEMORY_UTILIZATION'')
      else if wc_max_model_len c < MIN_USABLE_MODEL_LEN then Inl (ConfigError ''MAX_MODEL_LEN'')
      else if wc_tensor_parallel_size c < 1 then Inl (ConfigError ''TENSOR_PARALLEL_SIZE'')
      else if \<not> (1 \<le> wc_port c \<and> wc_port c \<le> MAX_TCP_PORT) then Inl (ConfigError ''PORT'')
      else if wc_min_free_disk_gb c < Finite 0 then Inl (ConfigError ''MIN_FREE_DISK_GB'')
      else (case find (\<lambda>(name, v, floor). v < floor) (timing_floors c) of
              Some (name, _) \<Rightarrow> Inl (ConfigError name)
            | None \<Rightarrow>
                if \<not> is_absolute (wc_persistent_root c) then Inl (ConfigError ''PERSISTENT_ROOT'') else Inr c))"

section \<open>Reading the environment\<close>

type_synonym environ = "(string, string) dict"

definition env_text :: "environ \<Rightarrow> string \<Rightarrow> string \<Rightarrow> string" where
  "env_text env name dflt =
     (case dict_get env name of None \<Rightarrow> dflt | Some v \<Rightarrow> if strip v = [] then dflt else strip v)"

definition env_optional :: "environ \<Rightarrow> string \<Rightarrow> string option" where
  "env_optional env name =
     (case dict_get env name of None \<Rightarrow> None | Some v \<Rightarrow> if v \<noteq> [] \<and> strip v \<noteq> [] then Some (strip v) else None)"

definition env_integer :: "environ \<Rightarrow> string \<Rightarrow> int \<Rightarrow> config_error + int" where
  "env_integer env name dflt =
     (case env_optional env name of
        None \<Rightarrow> Inr dflt
      | Some raw \<Rightarrow> (case parse_int raw of None \<Rightarrow> Inl (ConfigError name) | Some i \<Rightarrow> Inr i))"

definition env_number :: "(string \<Rightarrow> pyfloat option) \<Rightarrow> environ \<Rightarrow> string \<Rightarrow> pyfloat \<Rightarrow> config_error + pyfloat" where
  "env_number to_float env name dflt =
     (case env_optional env name of
        None \<Rightarrow> Inr dflt
      | Some raw \<Rightarrow> (case to_float raw of None \<Rightarrow> Inl (ConfigError name) | Some x \<Rightarrow> Inr x))"

definition TRUE_WORDS :: "string list" where
  "TRUE_WORDS = [''1'', ''true'', ''yes'', ''on'']"

definition FALSE_WORDS :: "string list" where
  "FALSE_WORDS = [''0'', ''false'', ''no'', ''off'']"

definition env_optional_flag :: "environ \<Rightarrow> string \<Rightarrow> config_error + bool option" where
  "env_optional_flag env name =
     (case env_optional env name of
        None \<Rightarrow> Inr None
      | Some raw \<Rightarrow>
          if lower raw \<in> set TRUE_WORDS then Inr (Some True)
          else if lower raw \<in> set FALSE_WORDS then Inr (Some False)
          else Inl (ConfigError name))"

definition env_flag :: "environ \<Rightarrow> string \<Rightarrow> bool \<Rightarrow> config_error + bool" where
  "env_flag env name dflt = map_sum id (\<lambda>r. or_else r dflt) (env_optional_flag env name)"

definition env_words :: "environ \<Rightarrow> string \<Rightarrow> config_error + string list" where
  "env_words env name =
     (case env_optional env name of
        None \<Rightarrow> Inr []
      | Some raw \<Rightarrow> (case shlex_split raw of None \<Rightarrow> Inl (ConfigError name) | Some ws \<Rightarrow> Inr ws))"

text \<open>\<open>env.get(a) or env.get(b)\<close>, as a secret's bytes.\<close>

definition env_secret :: "environ \<Rightarrow> string list \<Rightarrow> string" where
  "env_secret env names =
     (case find (\<lambda>v. v \<noteq> []) (List.map_filter (dict_get env) names) of None \<Rightarrow> [] | Some v \<Rightarrow> v)"

definition from_env :: "(string \<Rightarrow> pyfloat option) \<Rightarrow> environ \<Rightarrow> config_error + worker_config" where
  "from_env to_float env =
     bind_sum (env_number to_float env ''MIN_FREE_DISK_GB'' DEFAULT_MIN_FREE_DISK_GB) (\<lambda>free.
     bind_sum (env_integer env ''PORT'' 8000) (\<lambda>port.
     bind_sum (env_integer env ''MAX_MODEL_LEN'' 16384) (\<lambda>len.
     bind_sum (env_number to_float env ''GPU_MEMORY_UTILIZATION'' (Finite (9 / 10))) (\<lambda>util.
     bind_sum (env_integer env ''TENSOR_PARALLEL_SIZE'' 1) (\<lambda>tp.
     bind_sum (env_flag env ''AUTO_TENSOR_PARALLEL'' False) (\<lambda>auto_tp.
     bind_sum (env_words env ''VLLM_EXTRA_ARGS'') (\<lambda>extra.
     bind_sum (env_number to_float env ''READINESS_TIMEOUT_SECONDS'' (Finite 1800)) (\<lambda>timeout.
     bind_sum (env_number to_float env ''READINESS_POLL_SECONDS'' (Finite 3)) (\<lambda>poll.
     bind_sum (env_integer env ''MODEL_DOWNLOAD_MAX_ATTEMPTS'' 5) (\<lambda>attempts.
     bind_sum (env_number to_float env ''MODEL_DOWNLOAD_BACKOFF_SECONDS'' (Finite 5)) (\<lambda>backoff.
     bind_sum (env_number to_float env ''MODEL_LOCK_TIMEOUT_SECONDS'' (Finite 7200)) (\<lambda>lock.
     bind_sum (env_optional_flag env ''HF_HUB_DISABLE_XET'') (\<lambda>xet.
     mk_worker_config
       \<lparr>wc_model_id = env_text env ''MODEL_ID'' DEFAULT_MODEL_ID, wc_model_revision = env_optional env ''MODEL_REVISION'',
        wc_served_model_name = env_optional env ''SERVED_MODEL_NAME'',
        wc_persistent_root = mk_path (env_text env ''PERSISTENT_ROOT'' DEFAULT_PERSISTENT_ROOT), wc_min_free_disk_gb = free,
        wc_host = env_text env ''HOST'' ''0.0.0.0'', wc_port = port, wc_max_model_len = len,
        wc_gpu_memory_utilization = util, wc_tensor_parallel_size = tp, wc_auto_tensor_parallel = auto_tp,
        wc_extra_args = extra, wc_readiness_timeout = timeout, wc_readiness_poll = poll,
        wc_download_max_attempts = attempts, wc_download_backoff = backoff, wc_lock_timeout = lock,
        wc_hf_hub_disable_xet = xet, wc_hf_token = env_secret env [''HF_TOKEN'', ''HUGGING_FACE_HUB_TOKEN''],
        wc_vllm_api_key = env_secret env [''VLLM_API_KEY'']\<rparr>)))))))))))))"

section \<open>Derived values\<close>

definition base_url :: "worker_config \<Rightarrow> string" where
  "base_url c = ''http://'' @ (if wc_host c = ''0.0.0.0'' \<or> wc_host c = ''::'' then ''127.0.0.1'' else wc_host c)
     @ '':'' @ show_int (wc_port c)"

definition public_model_name :: "worker_config \<Rightarrow> string" where
  "public_model_name c = (case wc_served_model_name c of None \<Rightarrow> wc_model_id c | Some n \<Rightarrow> if n = [] then wc_model_id c else n)"

text \<open>\<open>PersistentLayout\<close>: everything large, as the components below the root.\<close>

definition layout_directories :: "string list list" where
  "layout_directories =
     [[''models''], [''huggingface''], [''huggingface'', ''hub''], [''vllm''], [''torch''], [''tmp''], [''state''], [''logs''], [''xdg'']]"

definition below :: "path \<Rightarrow> string list \<Rightarrow> path" where
  "below base names = foldl path_child base names"

definition all_directories :: "worker_config \<Rightarrow> path list" where
  "all_directories c = map (below (wc_persistent_root c)) layout_directories"

definition model_ready_marker :: "worker_config \<Rightarrow> path" where
  "model_ready_marker c = below (wc_persistent_root c) [''state'', ''model-ready.json'']"

definition download_lock :: "worker_config \<Rightarrow> path" where
  "download_lock c = below (wc_persistent_root c) [''state'', ''model-download.lock'']"

definition layout_environment :: "worker_config \<Rightarrow> environ" where
  "layout_environment c =
     (let dir = (\<lambda>names. path_text (below (wc_persistent_root c) names)) in
      [(''HF_HOME'', dir [''huggingface'']), (''HUGGINGFACE_HUB_CACHE'', dir [''huggingface'', ''hub'']),
       (''HF_HUB_CACHE'', dir [''huggingface'', ''hub'']), (''VLLM_CACHE_ROOT'', dir [''vllm'']),
       (''TORCH_HOME'', dir [''torch'']), (''TMPDIR'', dir [''tmp'']), (''XDG_CACHE_HOME'', dir [''xdg'']),
       (''TRITON_CACHE_DIR'', dir [''vllm'', ''triton''])])"

definition hub_environment :: "worker_config \<Rightarrow> environ" where
  "hub_environment c =
     (let env = layout_environment c;
          env1 = (case wc_hf_hub_disable_xet c of None \<Rightarrow> env
                  | Some b \<Rightarrow> dict_set ''HF_HUB_DISABLE_XET'' (if b then ''1'' else ''0'') env)
      in if wc_hf_token c = [] then env1 else dict_set ''HF_TOKEN'' (wc_hf_token c) env1)"

definition vllm_argv :: "(pyfloat \<Rightarrow> string) \<Rightarrow> worker_config \<Rightarrow> string option \<Rightarrow> string list" where
  "vllm_argv fmt c model_path =
     [''vllm'', ''serve'', or_else model_path (wc_model_id c), ''--host'', wc_host c, ''--port'', show_int (wc_port c),
      ''--served-model-name'', public_model_name c, ''--max-model-len'', show_int (wc_max_model_len c),
      ''--gpu-memory-utilization'', fmt (wc_gpu_memory_utilization c),
      ''--tensor-parallel-size'', show_int (wc_tensor_parallel_size c)]
     @ (case model_path of Some _ \<Rightarrow> []
        | None \<Rightarrow> (case wc_model_revision c of None \<Rightarrow> [] | Some r \<Rightarrow> if r = [] then [] else [''--revision'', r]))
     @ wc_extra_args c"

text \<open>
  The loop of \<open>redacted_argv\<close>, which reads the list it changes: the word after a masked one is looked at in its masked
  form.
\<close>

fun mask_keys :: "string list \<Rightarrow> string list" where
  "mask_keys [] = []"
| "mask_keys [w] = [if take 10 w = ''--api-key='' then ''--api-key=***'' else w]"
| "mask_keys (w # x # ws) =
     (if w = ''--api-key'' then w # mask_keys (''***'' # ws)
      else if take 10 w = ''--api-key='' then ''--api-key=***'' # mask_keys (x # ws)
      else w # mask_keys (x # ws))"

definition redacted_argv :: "(pyfloat \<Rightarrow> string) \<Rightarrow> worker_config \<Rightarrow> string option \<Rightarrow> string list" where
  "redacted_argv fmt c model_path = mask_keys (vllm_argv fmt c model_path)"

text \<open>\<open>describe\<close>, the banner.\<close>

definition describe :: "(pyfloat \<Rightarrow> string) \<Rightarrow> worker_config \<Rightarrow> string list" where
  "describe fmt c =
     [''model                  '' @ wc_model_id c,
      ''revision               '' @ (case wc_model_revision c of None \<Rightarrow> ''unpinned (resolves to main)''
                                    | Some r \<Rightarrow> if r = [] then ''unpinned (resolves to main)'' else r),
      ''served as              '' @ public_model_name c,
      ''persistent root        '' @ path_text (wc_persistent_root c),
      ''listen                 '' @ wc_host c @ '':'' @ show_int (wc_port c),
      ''max model len          '' @ show_int (wc_max_model_len c),
      ''gpu memory utilisation '' @ fmt (wc_gpu_memory_utilization c),
      ''tensor parallel        '' @ show_int (wc_tensor_parallel_size c) @ (if wc_auto_tensor_parallel c then '' (auto)'' else []),
      ''min free disk          '' @ fmt (wc_min_free_disk_gb c) @ '' GB'',
      ''api key                '' @ (if wc_vllm_api_key c \<noteq> [] then ''set'' else ''NOT SET (open port)''),
      ''hf token               '' @ (if wc_hf_token c \<noteq> [] then ''set'' else ''not set'')]"

definition resolve_tensor_parallel :: "worker_config \<Rightarrow> 'g list \<Rightarrow> int" where
  "resolve_tensor_parallel c gpus = (if \<not> wc_auto_tensor_parallel c then wc_tensor_parallel_size c else max (int (length gpus)) 1)"

section \<open>GPUs\<close>

record gpu_info =
  gi_index :: int
  gi_name :: string
  gi_memory_mb :: int
  gi_capability :: "int \<times> int"
  gi_driver :: string

definition supports_fp8 :: "gpu_info \<Rightarrow> bool" where
  "supports_fp8 g \<longleftrightarrow> (8, 9) \<le> gi_capability g"

definition all_support_fp8 :: "gpu_info list \<Rightarrow> bool" where
  "all_support_fp8 gs \<longleftrightarrow> gs \<noteq> [] \<and> list_all supports_fp8 gs"

definition homogeneous :: "gpu_info list \<Rightarrow> bool" where
  "homogeneous gs \<longleftrightarrow> length (remdups (map gi_name gs)) \<le> 1"

text \<open>\<open>_parse_line\<close>: the \<open>ValueError\<close> of a conversion is caught, the \<open>OverflowError\<close> of an infinite size is not.\<close>

definition parse_gpu_line :: "(string \<Rightarrow> pyfloat option) \<Rightarrow> string \<Rightarrow> float_failure + gpu_info option" where
  "parse_gpu_line to_float line =
     (case map strip (split_at CHR '','' line) of
        [index, name, memory, capability, driver] \<Rightarrow>
          (let (major, minor) = partition_at CHR ''.'' capability in
           case (parse_int index, map_option fl_int (to_float memory)) of
             (Some i, Some (Inl OverflowError)) \<Rightarrow> Inl OverflowError
           | (Some i, Some (Inr mem)) \<Rightarrow>
               (case (parse_int major, if minor = [] then Some 0 else parse_int minor) of
                  (Some a, Some b) \<Rightarrow>
                    Inr (Some \<lparr>gi_index = i, gi_name = name, gi_memory_mb = mem, gi_capability = (a, b), gi_driver = driver\<rparr>)
                | _ \<Rightarrow> Inr None)
           | _ \<Rightarrow> Inr None)
      | _ \<Rightarrow> Inr None)"

text \<open>\<open>_gpu_warnings\<close>, by the condition each warning stands for.\<close>

datatype gpu_warning = NoGpu | NoFp8 | Mixed | TooParallel | UnevenParallel

definition gpu_warnings :: "gpu_info list \<Rightarrow> worker_config \<Rightarrow> gpu_warning list" where
  "gpu_warnings gs c =
     (if gs = [] then [NoGpu]
      else (if \<not> all_support_fp8 gs then [NoFp8] else [])
           @ (if \<not> homogeneous gs then [Mixed] else [])
           @ (if int (length gs) < wc_tensor_parallel_size c then [TooParallel] else [])
           @ (if int (length gs) mod max (wc_tensor_parallel_size c) 1 \<noteq> 0 then [UnevenParallel] else []))"

section \<open>Waiting for the server\<close>

record readiness_result =
  rr_ready :: bool
  rr_models :: "string list"
  rr_waited :: rat

text \<open>
  What a request meets: a transport error, or an answer with its status and its body when that is JSON. \<open>list_models\<close> turns it
  into the names or an exception; of these the loop catches all but the \<open>AttributeError\<close> of a document that is not an object.
\<close>

datatype reply = Unreachable | Answered int "json option"

datatype poll_error = HTTPError | NotReadyError | NoSuchAttribute | BadSleep float_failure

definition list_models :: "(json \<Rightarrow> string) \<Rightarrow> reply \<Rightarrow> poll_error + string list" where
  "list_models repr r =
     (case r of
        Unreachable \<Rightarrow> Inl HTTPError
      | Answered status body \<Rightarrow>
          if status \<noteq> 200 then Inl NotReadyError
          else (case body of
                  None \<Rightarrow> Inl NotReadyError
                | Some (JObj doc) \<Rightarrow>
                    (case dict_get doc ''data'' of
                       Some (JArr entries) \<Rightarrow>
                         Inr (List.map_filter (\<lambda>e. case e of
                                JObj entry \<Rightarrow> Some (str_of_json repr (or_else (dict_get entry ''id'') (JStr [])))
                              | _ \<Rightarrow> None) entries)
                     | _ \<Rightarrow> Inl NotReadyError)
                | Some _ \<Rightarrow> Inl NoSuchAttribute))"

text \<open>
  The loop of \<open>wait_until_ready\<close>, one turn per poll. The \<open>k\<close>-th poll takes a time and meets a reply; the clock moves by
  that and by what is slept; \<open>time.sleep\<close> refuses what is negative, infinite or not a number. \<open>None\<close> says that more turns than the
  first argument were needed.
\<close>

type_synonym poller = "nat \<Rightarrow> rat \<times> reply"

fun wait_turns ::
  "nat \<Rightarrow> (json \<Rightarrow> string) \<Rightarrow> poller \<Rightarrow> string \<Rightarrow> rat \<Rightarrow> pyfloat \<Rightarrow> pyfloat \<Rightarrow> nat \<Rightarrow> rat \<Rightarrow> (poll_error + readiness_result) option"
where
  "wait_turns 0 repr poll expected started deadline interval k t = None"
| "wait_turns (Suc n) repr poll expected started deadline interval k t =
     (let t1 = t + fst (poll k); answer = list_models repr (snd (poll k)) in
      if answer = Inl NoSuchAttribute then Some (Inl NoSuchAttribute)
      else if (case answer of Inl _ \<Rightarrow> False | Inr models \<Rightarrow> expected \<in> set models)
      then Some (Inr \<lparr>rr_ready = True, rr_models = projr answer, rr_waited = t1 - started\<rparr>)
      else if fl_shift (- t1) deadline \<le> Finite 0 then Some (Inr \<lparr>rr_ready = False, rr_models = [], rr_waited = t1 - started\<rparr>)
      else
        (case py_min interval (fl_shift (- t1) deadline) of
           Finite nap \<Rightarrow>
             if nap < 0 then Some (Inl (BadSleep ValueError))
             else
               let t2 = t1 + nap in
               if Finite t2 < deadline then wait_turns n repr poll expected started deadline interval (Suc k) t2
               else Some (Inr \<lparr>rr_ready = False, rr_models = [], rr_waited = t2 - started\<rparr>)
         | PosInf \<Rightarrow> Some (Inl (BadSleep OverflowError))
         | NegInf \<Rightarrow> Some (Inl (BadSleep OverflowError))
         | NaN \<Rightarrow> Some (Inl (BadSleep ValueError))))"

definition wait_until_ready ::
  "nat \<Rightarrow> (json \<Rightarrow> string) \<Rightarrow> poller \<Rightarrow> worker_config \<Rightarrow> pyfloat option \<Rightarrow> pyfloat option \<Rightarrow> rat \<Rightarrow> (poll_error + readiness_result) option"
where
  "wait_until_ready turns repr poll c timeout_seconds poll_seconds t =
     wait_turns turns repr poll (public_model_name c) t (fl_shift t (or_else timeout_seconds (wc_readiness_timeout c)))
       (or_else poll_seconds (wc_readiness_poll c)) 0 t"

text \<open>\<open>_validate_completion\<close>, by the problem each line names.\<close>

datatype completion_problem = NotAnObject | WrongObject | WrongModel | NoChoices | NoMessage | NoOutput

definition validate_completion :: "string \<Rightarrow> json \<Rightarrow> completion_problem list" where
  "validate_completion expected_model response =
     (case response of
        JObj doc \<Rightarrow>
          (let early = (if dict_get doc ''object'' \<noteq> Some (JStr ''chat.completion'') then [WrongObject] else [])
                     @ (if dict_get doc ''model'' \<noteq> Some (JStr expected_model) then [WrongModel] else [])
           in (case dict_get doc ''choices'' of
                 Some (JArr (first # _)) \<Rightarrow>
                   (case (case first of JObj ch \<Rightarrow> dict_get ch ''message'' | _ \<Rightarrow> None) of
                      Some (JObj msg) \<Rightarrow>
                        (case dict_get msg ''content'' of
                           Some (JStr txt) \<Rightarrow> if strip txt = [] then early @ [NoOutput] else early
                         | _ \<Rightarrow> early @ [NoOutput])
                    | _ \<Rightarrow> early @ [NoMessage])
               | _ \<Rightarrow> early @ [NoChoices]))
      | _ \<Rightarrow> [NotAnObject])"

section \<open>Decisions of the commands\<close>

definition EXIT_OK :: int where "EXIT_OK = 0"
definition EXIT_CONFIG :: int where "EXIT_CONFIG = 2"
definition EXIT_STORAGE :: int where "EXIT_STORAGE = 3"
definition EXIT_MODEL :: int where "EXIT_MODEL = 4"
definition EXIT_NOT_READY :: int where "EXIT_NOT_READY = 5"
definition EXIT_SMOKE :: int where "EXIT_SMOKE = 6"

definition GIB :: int where
  "GIB = 1024 ^ 3"

text \<open>
  The end of \<open>smoke_test\<close> and \<open>smoke_main\<close>: one completion, judged by its status and its body. The token counts of an
  accepted answer are converted outside any handler, so a malformed \<open>usage\<close> raises.
\<close>

definition usage_count :: "json_object \<Rightarrow> string \<Rightarrow> load_failure + int" where
  "usage_count doc key =
     (case dict_get doc ''usage'' of
        None \<Rightarrow> Inr 0
      | Some u \<Rightarrow>
          if \<not> truthy u then Inr 0
          else (case u of JObj counts \<Rightarrow> int_of_json (or_else (dict_get counts key) (JInt 0)) | _ \<Rightarrow> Inl AttributeError))"

definition smoke_exit :: "worker_config \<Rightarrow> reply \<Rightarrow> load_failure + int" where
  "smoke_exit c r =
     (case r of
        Answered status (Some body) \<Rightarrow>
          if status \<noteq> 200 \<or> validate_completion (public_model_name c) body \<noteq> [] then Inr EXIT_SMOKE
          else (case body of
                  JObj doc \<Rightarrow> bind_sum (usage_count doc ''prompt_tokens'') (\<lambda>_.
                              bind_sum (usage_count doc ''completion_tokens'') (\<lambda>_. Inr EXIT_OK))
                | _ \<Rightarrow> Inr EXIT_SMOKE)
      | _ \<Rightarrow> Inr EXIT_SMOKE)"

definition ready_exit :: "readiness_result \<Rightarrow> int" where
  "ready_exit r = (if rr_ready r then EXIT_OK else EXIT_NOT_READY)"

definition health_exit :: "reply \<Rightarrow> int" where
  "health_exit r = (case r of Answered status _ \<Rightarrow> if status = 200 then EXIT_OK else EXIT_NOT_READY | Unreachable \<Rightarrow> EXIT_NOT_READY)"

definition resolve_parallelism :: "worker_config \<Rightarrow> gpu_info list \<Rightarrow> config_error + worker_config" where
  "resolve_parallelism c gpus =
     (let resolved = resolve_tensor_parallel c gpus in
      if \<not> wc_auto_tensor_parallel c \<or> resolved = wc_tensor_parallel_size c then Inr c
      else mk_worker_config (c\<lparr>wc_tensor_parallel_size := resolved\<rparr>))"

text \<open>The end of \<open>preflight_main\<close>: free space only blocks a start that has to download.\<close>

definition preflight_exit :: "worker_config \<Rightarrow> model_state option \<Rightarrow> int \<Rightarrow> float_failure + int" where
  "preflight_exit c marker free_bytes =
     bind_sum (fl_int (case wc_min_free_disk_gb c of Finite x \<Rightarrow> Finite (x * of_int GIB) | other \<Rightarrow> other)) (\<lambda>required_bytes.
     let resident = (case marker of None \<Rightarrow> False | Some st \<Rightarrow> state_matches st (wc_model_id c) (wc_model_revision c));
         enough = required_bytes \<le> free_bytes
     in Inr (if \<not> resident \<and> \<not> enough then EXIT_STORAGE else EXIT_OK))"

definition check_only_exit :: "worker_config \<Rightarrow> model_state option \<Rightarrow> int" where
  "check_only_exit c marker =
     (case marker of None \<Rightarrow> EXIT_MODEL
      | Some st \<Rightarrow> if state_matches st (wc_model_id c) (wc_model_revision c) then EXIT_OK else EXIT_MODEL)"

text \<open>\<open>serve_args_main\<close>: the words handed to the inference server.\<close>

definition serve_words :: "(pyfloat \<Rightarrow> string) \<Rightarrow> worker_config \<Rightarrow> model_state option \<Rightarrow> bool \<Rightarrow> string list" where
  "serve_words fmt c marker redacted =
     (let snapshot = (case marker of None \<Rightarrow> None
            | Some st \<Rightarrow> if state_matches st (wc_model_id c) (wc_model_revision c) then Some (ms_snapshot_path st) else None)
      in if redacted then redacted_argv fmt c snapshot else vllm_argv fmt c snapshot)"

text \<open>Words end with a NUL each.\<close>

definition render_words :: "string list \<Rightarrow> string" where
  "render_words ws = concat (map (\<lambda>w. w @ [CHR 0x00]) ws)"

text \<open>The loop of \<open>entrypoint.sh\<close> that reads them back (\<open>mapfile -d ''\<close>), up to each NUL.\<close>

fun read_words :: "string \<Rightarrow> string \<Rightarrow> string list" where
  "read_words acc [] = (if acc = [] then [] else [acc])"
| "read_words acc (c # cs) = (if c = CHR 0x00 then acc # read_words [] cs else read_words (acc @ [c]) cs)"


section \<open>Lemmas\<close>

text \<open>
  The fields of a configuration in their ranges. A float that is only compared with a floor may be \<open>nan\<close>, of which no comparison holds.
\<close>

definition above_floor :: "rat \<Rightarrow> pyfloat \<Rightarrow> bool" where
  "above_floor least x \<longleftrightarrow> Finite least \<le> x \<or> x = NaN"

definition config_valid :: "worker_config \<Rightarrow> bool" where
  "config_valid c \<longleftrightarrow>
     strip (wc_model_id c) \<noteq> [] \<and> Finite 0 < wc_gpu_memory_utilization c \<and> wc_gpu_memory_utilization c \<le> Finite 1
     \<and> MIN_USABLE_MODEL_LEN \<le> wc_max_model_len c \<and> 1 \<le> wc_tensor_parallel_size c
     \<and> 1 \<le> wc_port c \<and> wc_port c \<le> MAX_TCP_PORT \<and> above_floor 0 (wc_min_free_disk_gb c)
     \<and> 1 \<le> wc_download_max_attempts c \<and> above_floor 0 (wc_download_backoff c) \<and> above_floor 0 (wc_readiness_timeout c)
     \<and> above_floor 0 (wc_readiness_poll c) \<and> above_floor 0 (wc_lock_timeout c) \<and> is_absolute (wc_persistent_root c)"

text \<open>The checks as one list: the first that fails gives the error.\<close>

definition config_checks :: "worker_config \<Rightarrow> (string \<times> bool) list" where
  "config_checks c =
     [(''MODEL_ID'', strip (wc_model_id c) = []),
      (''GPU_MEMORY_UTILIZATION'', \<not> (Finite 0 < wc_gpu_memory_utilization c \<and> wc_gpu_memory_utilization c \<le> Finite 1)),
      (''MAX_MODEL_LEN'', wc_max_model_len c < MIN_USABLE_MODEL_LEN),
      (''TENSOR_PARALLEL_SIZE'', wc_tensor_parallel_size c < 1),
      (''PORT'', \<not> (1 \<le> wc_port c \<and> wc_port c \<le> MAX_TCP_PORT)),
      (''MIN_FREE_DISK_GB'', wc_min_free_disk_gb c < Finite 0),
      (''MODEL_DOWNLOAD_MAX_ATTEMPTS'', wc_download_max_attempts c < 1),
      (''MODEL_DOWNLOAD_BACKOFF_SECONDS'', wc_download_backoff c < Finite 0),
      (''READINESS_TIMEOUT_SECONDS'', wc_readiness_timeout c < Finite 0),
      (''READINESS_POLL_SECONDS'', wc_readiness_poll c < Finite 0),
      (''MODEL_LOCK_TIMEOUT_SECONDS'', wc_lock_timeout c < Finite 0),
      (''PERSISTENT_ROOT'', \<not> is_absolute (wc_persistent_root c))]"

lemma mk_worker_config_checks:
  "mk_worker_config c = (case find snd (config_checks c) of None \<Rightarrow> Inr c | Some (name, _) \<Rightarrow> Inl (ConfigError name))"
  by (simp add: mk_worker_config_def config_checks_def timing_floors_def)

lemma config_checks_valid: "find snd (config_checks c) = None \<longleftrightarrow> config_valid c"
  by (auto simp: find_None_iff config_checks_def config_valid_def above_floor_def simp flip: not_less_pyfloat)

lemma mk_worker_config_valid: "mk_worker_config c = Inr d \<longleftrightarrow> d = c \<and> config_valid c"
  using config_checks_valid [of c] by (auto simp: mk_worker_config_checks split: option.splits)

lemma mk_worker_config_blame:
  assumes "mk_worker_config c = Inl e" shows "(variable_of e, True) \<in> set (config_checks c)"
proof -
  obtain name b where f: "find snd (config_checks c) = Some (name, b)" and e: "e = ConfigError name"
    using assms by (auto simp: mk_worker_config_checks split: option.splits)
  show ?thesis using find_Some_iff [THEN iffD1, OF f] e by (metis config_error.sel nth_mem snd_conv)
qed

text \<open>A reader of the environment either returns its default because the variable is unset, or blames or uses the variable.\<close>

lemma env_text_set: "env_text env name d \<noteq> d \<Longrightarrow> env_optional env name \<noteq> None"
  by (auto simp: env_text_def env_optional_def split: option.splits if_splits)

lemma env_text_unset: "env_optional env name = None \<Longrightarrow> env_text env name d = d"
  using env_text_set by blast

lemma env_unset [simp]:
  assumes "env_optional env name = None"
  shows "env_integer env name i = Inr i" "env_number f env name x = Inr x" "env_optional_flag env name = Inr None"
    "env_flag env name b = Inr b" "env_words env name = Inr []"
  using assms by (simp_all add: env_integer_def env_number_def env_optional_flag_def env_flag_def env_words_def or_else.simps)

lemma env_blame:
  "env_integer env name i = Inl e \<Longrightarrow> env_optional env (variable_of e) \<noteq> None"
  "env_number f env name x = Inl e \<Longrightarrow> env_optional env (variable_of e) \<noteq> None"
  "env_optional_flag env name = Inl e \<Longrightarrow> env_optional env (variable_of e) \<noteq> None"
  "env_flag env name b = Inl e \<Longrightarrow> env_optional env (variable_of e) \<noteq> None"
  "env_words env name = Inl e \<Longrightarrow> env_optional env (variable_of e) \<noteq> None"
  by (auto simp: env_integer_def env_number_def env_optional_flag_def env_flag_def env_words_def map_sum_def
      split: option.splits if_splits sum.splits)

lemma env_text_valid: "strip d \<noteq> [] \<Longrightarrow> strip (env_text env name d) \<noteq> []"
  by (auto simp: env_text_def split: option.splits)

lemma bind_sum_InlE:
  assumes "bind_sum m f = Inl e" obtains "m = Inl e" | a where "m = Inr a" "f a = Inl e"
  using assms by (auto simp: bind_sum_Inl_iff)

lemma default_root_absolute: "is_absolute (mk_path DEFAULT_PERSISTENT_ROOT)"
  by code_simp

lemma from_env_blames_a_set_variable:
  assumes "from_env to_float env = Inl e" shows "env_optional env (variable_of e) \<noteq> None"
proof
  assume unset: "env_optional env (variable_of e) = None"
  note model = env_text_valid [of DEFAULT_MODEL_ID env "''MODEL_ID''"]
  have strip_default: "strip DEFAULT_MODEL_ID \<noteq> []" by code_simp
  show False using assms unfolding from_env_def
    apply (elim bind_sum_InlE)
    apply (use env_blame unset in blast)+
    apply (drule mk_worker_config_blame)
    apply (use unset model strip_default default_root_absolute in
        \<open>auto simp: config_checks_def MIN_USABLE_MODEL_LEN_def MAX_TCP_PORT_def DEFAULT_MIN_FREE_DISK_GB_def env_text_unset less_eq_pyfloat_def\<close>)
    done
qed

text \<open>
  C21. A configuration that is read is usable, up to \<open>nan\<close>. Whatever the environment holds, \<open>from_env\<close> either returns a configuration
  every field of which passes its check (a port that is a port, a share of memory in (0, 1], at least one
  download attempt, an absolute root, a model, every time and the free space at least zero or \<open>nan\<close>), or an error naming a
  variable that the environment really sets: the defaults are never to blame. A \<open>nan\<close> in one of the variables that are compared with a
  floor, and in no other, is let through.
\<close>

theorem configuration_is_well_formed:
  "case from_env to_float env of
     Inr c \<Rightarrow> config_valid c
   | Inl e \<Rightarrow> env_optional env (variable_of e) \<noteq> None"
proof (cases "from_env to_float env")
  case (Inl e)
  then show ?thesis using from_env_blames_a_set_variable by simp
next
  case (Inr c)
  then have "config_valid c" unfolding from_env_def bind_sum_Inr_iff mk_worker_config_valid by blast
  then show ?thesis by (simp add: Inr)
qed

definition demo_worker_config :: worker_config where
  "demo_worker_config = projr (from_env (\<lambda>_. None) [])"

lemma demo_worker_config_values:
  "wc_readiness_poll demo_worker_config = Finite 3" "wc_readiness_timeout demo_worker_config = Finite 1800"
  "public_model_name demo_worker_config = DEFAULT_MODEL_ID" "wc_model_id demo_worker_config = DEFAULT_MODEL_ID"
  "wc_host demo_worker_config = ''0.0.0.0''" "wc_port demo_worker_config = 8000" "wc_max_model_len demo_worker_config = 16384"
  "wc_tensor_parallel_size demo_worker_config = 1" "wc_model_revision demo_worker_config = None"
  "wc_extra_args demo_worker_config = []"
  by code_simp+

lemma demo_environments:
  "from_env (\<lambda>_. None) [] = Inr demo_worker_config" "from_env (\<lambda>_. None) [(''PORT'', ''http'')] = Inl (ConfigError ''PORT'')"
proof -
  have strip_default: "strip DEFAULT_MODEL_ID \<noteq> []" by code_simp
  have unset: "env_optional [] name = None" "name \<noteq> ''PORT'' \<Longrightarrow> env_optional [(''PORT'', ''http'')] name = None" for name
    by (simp_all add: env_optional_def)
  have "env_optional [(''PORT'', ''http'')] ''PORT'' = Some ''http''" "parse_int ''http'' = None" by code_simp+
  then have port: "env_integer [(''PORT'', ''http'')] ''PORT'' d = Inl (ConfigError ''PORT'')" for d by (simp add: env_integer_def)
  note eval = from_env_def unset env_text_unset mk_worker_config_checks config_checks_def less_eq_pyfloat_def
    DEFAULT_MIN_FREE_DISK_GB_def MIN_USABLE_MODEL_LEN_def MAX_TCP_PORT_def default_root_absolute strip_default
  show "from_env (\<lambda>_. None) [] = Inr demo_worker_config" by (simp add: demo_worker_config_def eval)
  show "from_env (\<lambda>_. None) [(''PORT'', ''http'')] = Inl (ConfigError ''PORT'')" by (simp add: eval port)
qed

theorem configuration_is_well_formed_witness:
  "config_valid demo_worker_config \<and> from_env (\<lambda>_. None) [(''PORT'', ''http'')] = Inl (ConfigError ''PORT'')
     \<and> env_optional [(''PORT'', ''http'')] ''PORT'' \<noteq> None"
  using configuration_is_well_formed [of "[]" "\<lambda>_. None"] configuration_is_well_formed [of "[(''PORT'', ''http'')]" "\<lambda>_. None"]
  unfolding demo_environments sum.case config_error.sel by blast

text \<open>What \<open>float\<close> makes of the text \<open>nan\<close> is accepted as a timeout; the wait then asks once, sleeps an interval and gives up.\<close>

lemma nan_timeout_is_accepted:
  assumes "to_float ''nan'' = Some NaN"
  shows "\<exists>c. from_env to_float [(''READINESS_TIMEOUT_SECONDS'', ''nan'')] = Inr c \<and> wc_readiness_timeout c = NaN"
proof -
  let ?env = "[(''READINESS_TIMEOUT_SECONDS'', ''nan'')]"
  have set: "env_optional ?env ''READINESS_TIMEOUT_SECONDS'' = Some ''nan''" by code_simp
  have unset: "env_optional ?env name = None" if "name \<noteq> ''READINESS_TIMEOUT_SECONDS''" for name using that by (simp add: env_optional_def)
  have "env_number to_float ?env ''READINESS_TIMEOUT_SECONDS'' d = Inr NaN" for d by (simp add: env_number_def set assms)
  moreover have "strip DEFAULT_MODEL_ID \<noteq> []" by code_simp
  ultimately show ?thesis
    by (simp add: from_env_def unset env_text_unset mk_worker_config_valid config_valid_def above_floor_def less_eq_pyfloat_def
        DEFAULT_MIN_FREE_DISK_GB_def MIN_USABLE_MODEL_LEN_def MAX_TCP_PORT_def default_root_absolute)
qed

lemma nan_timeout_gives_up:
  assumes "wc_readiness_timeout c = NaN" and "wc_readiness_poll c = Finite p" and "0 \<le> p"
    and "case list_models repr (snd (poll 0)) of Inl e \<Rightarrow> e \<noteq> NoSuchAttribute | Inr models \<Rightarrow> public_model_name c \<notin> set models"
  shows "wait_until_ready (Suc n) repr poll c None None t =
    Some (Inr \<lparr>rr_ready = False, rr_models = [], rr_waited = fst (poll 0) + p\<rparr>)"
  using assms by (auto simp: wait_until_ready_def fl_shift_def py_min_def less_eq_pyfloat_def Let_def or_else.simps split: sum.splits)

text \<open>One turn of the wait, with the reply named.\<close>

definition lists_model :: "(json \<Rightarrow> string) \<Rightarrow> string \<Rightarrow> reply \<Rightarrow> bool" where
  "lists_model repr name r \<longleftrightarrow> (case list_models repr r of Inl _ \<Rightarrow> False | Inr models \<Rightarrow> name \<in> set models)"

definition not_an_object :: "reply \<Rightarrow> bool" where
  "not_an_object r \<longleftrightarrow> 
     (case r of Answered status (Some body) \<Rightarrow> status = 200 \<and> \<not> (\<exists>doc. body = JObj doc) | _ \<Rightarrow> False)"

lemma list_models_raises: "list_models repr r = Inl NoSuchAttribute \<longleftrightarrow> not_an_object r"
  by (auto simp: list_models_def not_an_object_def split: reply.splits option.splits json.splits)

text \<open>What the wait may end with, from the poll \<open>k\<close> on.\<close>

definition wait_outcome :: "(json \<Rightarrow> string) \<Rightarrow> poller \<Rightarrow> string \<Rightarrow> rat \<Rightarrow> rat \<Rightarrow> nat \<Rightarrow> poll_error + readiness_result \<Rightarrow> bool" where
  "wait_outcome repr poll expected budget slack k out \<longleftrightarrow>
     (case out of
        Inl e \<Rightarrow> e = NoSuchAttribute \<and> (\<exists>i. not_an_object (snd (poll i)))
      | Inr r \<Rightarrow>
          if rr_ready r then expected \<in> set (rr_models r) \<and> (\<exists>i. list_models repr (snd (poll i)) = Inr (rr_models r))
          else \<not> lists_model repr expected (snd (poll k)) \<and> budget \<le> rr_waited r \<and> rr_waited r \<le> budget + slack)"

text \<open>A turn with a finite deadline and a finite, positive interval.\<close>

lemma wait_turn_finite:
  assumes "0 < interval"
  shows "wait_turns (Suc n) repr poll expected started (Finite deadline) (Finite interval) k t =
     (let t1 = t + fst (poll k); answer = list_models repr (snd (poll k)) in
      if answer = Inl NoSuchAttribute then Some (Inl NoSuchAttribute)
      else if (case answer of Inl _ \<Rightarrow> False | Inr models \<Rightarrow> expected \<in> set models)
      then Some (Inr \<lparr>rr_ready = True, rr_models = projr answer, rr_waited = t1 - started\<rparr>)
      else if deadline - t1 \<le> 0 then Some (Inr \<lparr>rr_ready = False, rr_models = [], rr_waited = t1 - started\<rparr>)
      else let t2 = t1 + min interval (deadline - t1) in
           if t2 < deadline then wait_turns n repr poll expected started (Finite deadline) (Finite interval) (Suc k) t2
           else Some (Inr \<lparr>rr_ready = False, rr_models = [], rr_waited = t2 - started\<rparr>))"
proof -
  let ?t1 = "t + fst (poll k)"
  have rest: "fl_shift (- ?t1) (Finite deadline) = Finite (deadline - ?t1)" by (simp add: fl_shift_def)
  have le: "Finite (deadline - ?t1) \<le> Finite 0 \<longleftrightarrow> deadline - ?t1 \<le> 0" by (auto simp: less_eq_pyfloat_def)
  have nap: "py_min (Finite interval) (Finite (deadline - ?t1)) = Finite (min interval (deadline - ?t1))" by (auto simp: py_min_def min_def)
  have pos: "\<not> deadline - ?t1 \<le> 0 \<Longrightarrow> \<not> min interval (deadline - ?t1) < 0" using assms by auto
  show ?thesis
    unfolding wait_turns.simps(2) Let_def rest le nap pyfloat.case less_pyfloat.simps using pos by (simp del: wait_turns.simps)
qed

lemma wait_turns_outcome:
  assumes "\<forall>i. 0 \<le> fst (poll i) \<and> fst (poll i) \<le> slack" and "0 < interval"
    and "t \<le> deadline" and "deadline - t \<le> of_nat n * interval"
  shows "\<exists>out. wait_turns (Suc n) repr poll expected started (Finite deadline) (Finite interval) k t = Some out
    \<and> wait_outcome repr poll expected (deadline - started) slack k out"
  using assms(3,4)
proof (induction n arbitrary: k t)
  let ?turn = "\<lambda>n k t. wait_turns (Suc n) repr poll expected started (Finite deadline) (Finite interval) k t"
  let ?good = "wait_outcome repr poll expected (deadline - started) slack"
  note turn = wait_turn_finite [OF assms(2)]
  have poll: "0 \<le> fst (poll i)" "fst (poll i) \<le> slack" for i using assms(1) by auto
  have slack: "0 \<le> slack" using poll [of 0] by simp
  { \<comment> \<open>a turn that does not go on\<close>
    fix n k t
    assume t: "t \<le> deadline"
      and ends: "t + fst (poll k) + min interval (deadline - (t + fst (poll k))) \<ge> deadline \<or> t + fst (poll k) \<ge> deadline
        \<or> not_an_object (snd (poll k)) \<or> lists_model repr expected (snd (poll k))"
    have "\<exists>out. ?turn n k t = Some out \<and> ?good k out"
    proof (cases "not_an_object (snd (poll k)) \<or> lists_model repr expected (snd (poll k))")
      case True
      then show ?thesis
        by (auto simp: turn Let_def list_models_raises lists_model_def wait_outcome_def simp del: wait_turns.simps split: sum.splits)
    next
      case False
      then show ?thesis
        using ends t poll [of k] slack
        by (auto simp: turn Let_def list_models_raises lists_model_def wait_outcome_def min_def simp del: wait_turns.simps split: sum.splits if_splits)
    qed }
  note ending = this
  {
    case 0
    then show ?case using poll [of k] by (intro ending) auto
  next
    case (Suc n)
    let ?t1 = "t + fst (poll k)"
    let ?t2 = "?t1 + min interval (deadline - ?t1)"
    show ?case
    proof (cases "?t2 \<ge> deadline \<or> ?t1 \<ge> deadline \<or> not_an_object (snd (poll k)) \<or> lists_model repr expected (snd (poll k))")
      case True
      then show ?thesis using Suc.prems(1) by (rule ending [rotated])
    next
      case False
      then have t2: "?t2 = ?t1 + interval" "?t2 \<le> deadline" by (auto simp: min_def split: if_splits)
      have "deadline - ?t2 \<le> of_nat n * interval"
        using Suc.prems(2) poll(1) [of k] t2(1) by (simp add: algebra_simps)
      from Suc.IH [OF t2(2) this, of "Suc k"] obtain out
        where "?turn n (Suc k) ?t2 = Some out" "?good (Suc k) out" by blast
      moreover have "?turn (Suc n) k t = ?turn n (Suc k) ?t2"
        using False by (subst turn) (auto simp: Let_def list_models_raises lists_model_def simp del: wait_turns.simps split: sum.splits)
      moreover have "?good k out" if "?good (Suc k) out"
        using that False by (auto simp: wait_outcome_def split: sum.splits)
      ultimately show ?thesis by metis
    qed
  }
qed

text \<open>
  Waiting for the server ends, and says what happened. If every poll takes at most \<open>slack\<close> and the interval is
  positive, the wait is over after as many turns as the timeout has intervals, plus one. It reports ready only when a
  poll listed the model this worker is configured to serve, and then with the names of that poll; it gives up
  only when the whole timeout has passed, at most one poll later, and only after it asked at least once, even with a
  timeout of zero. The one other way out is the exception that escapes when the server answers with JSON that is not
  an object.
\<close>

theorem readiness_wait_is_sound:
  assumes "\<forall>i. 0 \<le> fst (poll i) \<and> fst (poll i) \<le> slack"
    and "or_else poll_seconds (wc_readiness_poll c) = Finite interval" and "0 < interval"
    and "or_else timeout_seconds (wc_readiness_timeout c) = Finite budget" and "0 \<le> budget" and "budget \<le> of_nat n * interval"
  shows "\<exists>out. wait_until_ready (Suc n) repr poll c timeout_seconds poll_seconds t = Some out
    \<and> wait_outcome repr poll (public_model_name c) budget slack 0 out"
  using wait_turns_outcome [OF assms(1,3), of t "t + budget" n repr "public_model_name c" t 0] assms(2,4-)
  by (simp add: wait_until_ready_def fl_shift_def add.commute)

definition demo_poller :: poller where
  "demo_poller i = (1 / 2, if i = 0 then Answered 503 None
     else Answered 200 (Some (JObj [(''data'', JArr [JObj [(''id'', JStr DEFAULT_MODEL_ID)]])])))"

theorem readiness_wait_is_sound_witness:
  "\<exists>out. wait_until_ready (Suc 2) (\<lambda>_. []) demo_poller demo_worker_config (Some (Finite 6)) None 0 = Some out
    \<and> wait_outcome (\<lambda>_. []) demo_poller DEFAULT_MODEL_ID 6 (1 / 2) 0 out"
  using readiness_wait_is_sound [of demo_poller "1 / 2" None demo_worker_config 3 "Some (Finite 6)" 6 2 "\<lambda>_. []" 0]
  by (simp add: demo_poller_def demo_worker_config_values)

text \<open>Redaction word by word.\<close>

lemma mask_keys_flag:
  "xs \<noteq> [] \<Longrightarrow> last xs \<noteq> ''--api-key'' \<Longrightarrow>
     mask_keys (xs @ ''--api-key'' # secret # ys) = mask_keys xs @ ''--api-key'' # mask_keys (''***'' # ys)"
  by (induction xs rule: mask_keys.induct) (auto split: if_splits)

lemma mask_keys_assignment:
  "xs \<noteq> [] \<Longrightarrow> last xs \<noteq> ''--api-key'' \<Longrightarrow>
     mask_keys (xs @ (''--api-key='' @ secret) # ys) = mask_keys xs @ ''--api-key=***'' # mask_keys ys"
proof (induction xs rule: mask_keys.induct)
  case (2 w)
  then show ?case by (cases ys) auto
qed (auto split: if_splits)

text \<open>
  What is logged does not depend on a secret. The banner says only whether a key or a token is set; the argument
  vector never mentions them; and an API key the operator wrote into the extra arguments, as the word after
  \<open>--api-key\<close> or behind \<open>--api-key=\<close>, leaves no trace in the redacted vector: any two keys give the same words. (The flag
  must not itself be the word after another \<open>--api-key\<close>.)
\<close>

theorem logs_carry_no_secret:
  assumes "k \<noteq> [] \<and> k' \<noteq> [] \<and> h \<noteq> [] \<and> h' \<noteq> []"
    and "last (vllm_argv fmt (c\<lparr>wc_extra_args := before\<rparr>) path) \<noteq> ''--api-key''"
  shows "describe fmt (c\<lparr>wc_vllm_api_key := k, wc_hf_token := h\<rparr>) = describe fmt (c\<lparr>wc_vllm_api_key := k', wc_hf_token := h'\<rparr>)
    \<and> vllm_argv fmt (c\<lparr>wc_vllm_api_key := k, wc_hf_token := h\<rparr>) path = vllm_argv fmt c path
    \<and> redacted_argv fmt (c\<lparr>wc_extra_args := before @ [''--api-key'', k] @ after\<rparr>) path
        = redacted_argv fmt (c\<lparr>wc_extra_args := before @ [''--api-key'', k'] @ after\<rparr>) path
    \<and> redacted_argv fmt (c\<lparr>wc_extra_args := before @ [''--api-key='' @ k] @ after\<rparr>) path
        = redacted_argv fmt (c\<lparr>wc_extra_args := before @ [''--api-key='' @ k'] @ after\<rparr>) path"
proof -
  let ?pre = "vllm_argv fmt (c\<lparr>wc_extra_args := before\<rparr>) path"
  have ne: "?pre \<noteq> []" by (simp add: vllm_argv_def)
  have split: "vllm_argv fmt (c\<lparr>wc_extra_args := before @ ws\<rparr>) path = ?pre @ ws" for ws
    by (simp add: vllm_argv_def public_model_name_def split: option.splits)
  have "mask_keys (?pre @ [''--api-key'', k] @ after) = mask_keys (?pre @ [''--api-key'', k'] @ after)"
    using mask_keys_flag [OF ne assms(2)] by simp
  moreover have "mask_keys (?pre @ [''--api-key='' @ k] @ after) = mask_keys (?pre @ [''--api-key='' @ k'] @ after)"
    using mask_keys_assignment [OF ne assms(2), of k after] mask_keys_assignment [OF ne assms(2), of k' after] by simp
  ultimately show ?thesis
    using assms(1) unfolding redacted_argv_def split
    by (simp add: describe_def vllm_argv_def public_model_name_def split: option.splits)
qed

theorem logs_carry_no_secret_witness:
  "redacted_argv (\<lambda>_. ''0.9'') (demo_worker_config\<lparr>wc_extra_args := [''--seed'', ''1''] @ [''--api-key'', ''s3cret''] @ []\<rparr>) None
     = redacted_argv (\<lambda>_. ''0.9'') (demo_worker_config\<lparr>wc_extra_args := [''--seed'', ''1''] @ [''--api-key'', ''other''] @ []\<rparr>) None"
  using logs_carry_no_secret [of "''s3cret''" "''other''" "''t''" "''u''" "\<lambda>_. ''0.9''" "[''--seed'', ''1'']" demo_worker_config None "[]"]
  by (simp add: vllm_argv_def)

lemma read_words_word: "CHR 0x00 \<notin> set w \<Longrightarrow> read_words acc (w @ CHR 0x00 # s) = (acc @ w) # read_words [] s"
  by (induction w arbitrary: acc) auto

text \<open>
  The argument vector reaches the inference server word for word: what \<open>worker-serve-args\<close> prints is read back by the
  entry point as exactly the words of the vector, whatever blanks, quotes or newlines they hold, since no word
  can contain a NUL.
\<close>

theorem argument_vector_round_trip:
  assumes "list_all (\<lambda>w. CHR 0x00 \<notin> set w) (serve_words fmt c marker redacted)"
  shows "read_words [] (render_words (serve_words fmt c marker redacted)) = serve_words fmt c marker redacted"
proof -
  have "list_all (\<lambda>w. CHR 0x00 \<notin> set w) ws \<Longrightarrow> read_words [] (render_words ws) = ws" for ws
    by (induction ws) (simp_all add: render_words_def read_words_word)
  then show ?thesis using assms .
qed

lemma show_int_no_NUL: "CHR 0x00 \<notin> set (show_int i)"
proof -
  have digit: "CHR 0x00 \<noteq> char_of (48 + m)" if "m < 10" for m :: nat
  proof
    assume "CHR 0x00 = char_of (48 + m)"
    then have "of_char (CHR 0x00) = (of_char (char_of (48 + m) :: char) :: nat)" by simp
    then show False using that by simp
  qed
  have "CHR 0x00 \<notin> set (show_nat n)" for n
    by (induction n rule: show_nat.induct) (subst show_nat.simps, simp add: digit)
  then show ?thesis by (simp add: show_int_def)
qed

theorem argument_vector_round_trip_witness:
  "read_words [] (render_words (serve_words (\<lambda>_. ''0.9'') demo_worker_config None False))
     = serve_words (\<lambda>_. ''0.9'') demo_worker_config None False"
  by (rule argument_vector_round_trip)
     (simp add: serve_words_def vllm_argv_def demo_worker_config_values show_int_no_NUL DEFAULT_MODEL_ID_def)

end
