(* ===== verification/Structured.thy ===== *)
theory Structured
  imports Execution Regex Paths
begin

text \<open>
  From a model's answer to a draft: finding the JSON document in the answer and the validators of the schemas
  (\<open>src/src/infrastructure/llm/structured.py\<close>), the codec (\<open>src/src/bootstrap/adapters.py\<close>) and the loop that asks again
  (\<open>StructuredCompletion.complete\<close> in \<open>src/src/application/orchestration/agents.py\<close>). Reading JSON text (\<open>loads\<close>) and turning a
  document into the fields of a schema (\<open>decode\<close>, pydantic) are arguments; the constraints and validators the schemas
  declare are applied here.
\<close>

section \<open>Finding the document\<close>

abbreviation quote :: char where "quote \<equiv> CHR 0x22"
abbreviation backslash :: char where "backslash \<equiv> CHR 0x5C"

definition REASONING_WORDS :: "string list" where
  "REASONING_WORDS = [''think'', ''thinking'', ''reasoning'']"

definition any_char :: "char \<Rightarrow> bool" where
  "any_char c \<longleftrightarrow> True"

text \<open>\<open>_REASONING_PAIR_RE\<close>: the closing tag repeats the word of the opening one, so the pattern is one alternative per word.\<close>

definition REASONING_PAIR :: pattern where
  "REASONING_PAIR =
     alts (map (\<lambda>w. Seq (lit_i (''<'' @ w @ ''>'')) (Seq (Star False (One any_char)) (lit_i (''</'' @ w @ ''>'')))) REASONING_WORDS)"

definition REASONING_CLOSE :: pattern where
  "REASONING_CLOSE = alts (map (\<lambda>w. lit_i (''</'' @ w @ ''>'')) REASONING_WORDS)"

definition fence_tag_char :: "char \<Rightarrow> bool" where
  "fence_tag_char c \<longleftrightarrow> is_letter c \<and> of_char c < (128 :: nat) \<or> is_digit c \<or> c = CHR ''_'' \<or> c = CHR ''+'' \<or> c = CHR ''-''"

definition FENCE :: pattern where
  "FENCE =
     Seq (lit ''```'') (Seq (Star True (One fence_tag_char)) (Seq (Star True (One py_isspace)) (Seq (One (\<lambda>c. c = newline))
       (Seq (Group 1 (Star False (One any_char))) (Alt (lit ''```'') TextEnd)))))"

definition group_text :: "nat \<Rightarrow> place \<Rightarrow> string" where
  "group_text k q = or_else (map_of (pl_groups q) k) []"

definition strip_reasoning :: "string \<Rightarrow> string" where
  "strip_reasoning txt =
     (let without_pairs = sub_all REASONING_PAIR (\<lambda>_ _. []) None txt;
          closings = find_all REASONING_CLOSE None without_pairs
      in if closings \<noteq> [] then pl_rest (snd (last closings)) else without_pairs)"

text \<open>
  \<open>_balanced_spans\<close>: the depth, the text since the outermost opening brace, whether a string is being read and whether
  the last character escaped the next.
\<close>

fun spans_from :: "nat \<Rightarrow> string \<Rightarrow> bool \<Rightarrow> bool \<Rightarrow> string \<Rightarrow> string list" where
  "spans_from d acc in_string escaped [] = []"
| "spans_from d acc True escaped (c # cs) =
     spans_from d (acc @ [c]) (escaped \<or> c \<noteq> quote) (\<not> escaped \<and> c = backslash) cs"
| "spans_from d acc False escaped (c # cs) =
     (if c = quote then spans_from d (acc @ [c]) True escaped cs
      else if c = CHR ''{'' then spans_from (Suc d) (if d = 0 then [c] else acc @ [c]) False escaped cs
      else if c = CHR ''}'' \<and> 0 < d then
        (if d = 1 then (acc @ [c]) # spans_from 0 [] False escaped cs else spans_from (d - 1) (acc @ [c]) False escaped cs)
      else spans_from d (acc @ [c]) False escaped cs)"

definition balanced_spans :: "string \<Rightarrow> string list" where
  "balanced_spans txt = spans_from 0 [] False False txt"

definition iter_candidates :: "string \<Rightarrow> string list" where
  "iter_candidates txt =
     (if strip txt \<noteq> [] then [strip txt] else [])
     @ filter (\<lambda>b. b \<noteq> []) (map (\<lambda>(p, q). strip (group_text 1 q)) (find_all FENCE None txt))
     @ balanced_spans txt"

fun first_object :: "(string \<Rightarrow> json option) \<Rightarrow> string list \<Rightarrow> json_object option" where
  "first_object loads [] = None"
| "first_object loads (c # cs) = (case loads c of Some (JObj doc) \<Rightarrow> Some doc | _ \<Rightarrow> first_object loads cs)"

definition extract_json_object :: "(string \<Rightarrow> json option) \<Rightarrow> string \<Rightarrow> json_object option" where
  "extract_json_object loads txt = first_object loads (iter_candidates (strip_reasoning txt))"

section \<open>Schemas\<close>

text \<open>
  \<open>_StrictModel\<close>: every text field is stripped before anything else looks at it. The white space that is removed is Unicode's, which unlike that of
  \<open>str.strip\<close> has not the separators 1C to 1F.
\<close>

definition unicode_space :: "char \<Rightarrow> bool" where
  "unicode_space c \<longleftrightarrow> (let n = (of_char c :: nat) in (9 \<le> n \<and> n \<le> 13) \<or> n = 32 \<or> n = 133 \<or> n = 160)"

definition trim_text :: "string \<Rightarrow> string" where
  "trim_text s = rev (dropWhile unicode_space (rev (dropWhile unicode_space s)))"

lemma trim_text_ends:
  assumes "trim_text s \<noteq> []"
  shows "\<not> unicode_space (hd (trim_text s))" and "\<not> unicode_space (last (trim_text s))"
proof -
  let ?m = "dropWhile unicode_space s"
  have ne: "dropWhile unicode_space (rev ?m) \<noteq> []" using assms by (simp add: trim_text_def)
  then show "\<not> unicode_space (last (trim_text s))" by (simp add: trim_text_def last_rev hd_dropWhile)
  obtain xs where xs: "rev ?m = xs @ dropWhile unicode_space (rev ?m)" by (metis takeWhile_dropWhile_id)
  then have "?m = trim_text s @ rev xs" by (metis rev_append rev_rev_ident trim_text_def)
  then have "hd ?m = hd (trim_text s)" "?m \<noteq> []" using assms by auto
  then show "\<not> unicode_space (hd (trim_text s))" using hd_dropWhile [of unicode_space s] by simp
qed

record planned_task =
  pk_key :: string
  pk_title :: string
  pk_description :: string
  pk_target_paths :: "string list"
  pk_depends_on :: "string list"
  pk_validation :: "string list"

record planner_output =
  po_objective :: string
  po_assumptions :: "string list"
  po_constraints :: "string list"
  po_tasks :: "planned_task list"
  po_validation_requirements :: "string list"
  po_risk_areas :: "string list"

definition stripped_task :: "planned_task \<Rightarrow> planned_task" where
  "stripped_task t =
     \<lparr>pk_key = trim_text (pk_key t), pk_title = trim_text (pk_title t), pk_description = trim_text (pk_description t),
      pk_target_paths = map trim_text (pk_target_paths t), pk_depends_on = map trim_text (pk_depends_on t),
      pk_validation = map trim_text (pk_validation t)\<rparr>"

definition slug_char :: "char \<Rightarrow> bool" where
  "slug_char c \<longleftrightarrow> (is_letter c \<and> of_char c < (128 :: nat)) \<or> is_digit c \<or> c = CHR ''_'' \<or> c = CHR ''.'' \<or> c = CHR ''-''"

text \<open>\<open>_key_is_a_slug\<close> and the declared lengths.\<close>

definition key_is_a_slug :: "string \<Rightarrow> bool" where
  "key_is_a_slug k \<longleftrightarrow>
     matches_whole (Seq (One (\<lambda>c. (is_letter c \<and> of_char c < (128 :: nat)) \<or> is_digit c)) (Star True (One slug_char))) k"

definition valid_task :: "planned_task \<Rightarrow> bool" where
  "valid_task t \<longleftrightarrow> 1 \<le> length (pk_key t) \<and> length (pk_key t) \<le> 64 \<and> 1 \<le> length (pk_title t) \<and> key_is_a_slug (pk_key t)"

text \<open>
  \<open>_graph_is_usable\<close>: the loop removes the tasks without open dependencies until none is left or none can be removed.
  The dictionary of the source has one entry per task, the keys being distinct when the loop is reached.
\<close>

function graph_loop :: "(string \<times> string list) list \<Rightarrow> bool" where
  "graph_loop remaining =
     (if remaining = [] then True
      else
        let ready = map fst (filter (\<lambda>(k, deps). deps = []) remaining) in
        if ready = [] then False
        else graph_loop (map (\<lambda>(k, deps). (k, filter (\<lambda>d. d \<notin> set ready) deps)) (filter (\<lambda>(k, deps). k \<notin> set ready) remaining)))"
  by pat_completeness auto
termination
proof (relation "measure length")
  fix remaining :: "(string \<times> string list) list" and ready
  assume ready: "ready = map fst (filter (\<lambda>(k, deps). deps = []) remaining)" "ready \<noteq> []"
  then obtain x where "x \<in> set remaining" "fst x \<in> set ready" by (auto simp: filter_empty_conv)
  then have "length (filter (\<lambda>(k, deps). k \<notin> set ready) remaining) < length remaining"
    by (intro length_filter_less [of x]) (auto simp: case_prod_beta)
  then show "(map (\<lambda>(k, deps). (k, filter (\<lambda>d. d \<notin> set ready) deps)) (filter (\<lambda>(k, deps). k \<notin> set ready) remaining), remaining)
      \<in> measure length" by simp
qed simp

declare graph_loop.simps [simp del]

definition graph_is_usable :: "planned_task list \<Rightarrow> bool" where
  "graph_is_usable ts \<longleftrightarrow>
     distinct (map pk_key ts)
     \<and> list_all (\<lambda>t. pk_key t \<notin> set (pk_depends_on t) \<and> set (pk_depends_on t) \<subseteq> set (map pk_key ts)) ts
     \<and> graph_loop (map (\<lambda>t. (pk_key t, pk_depends_on t)) ts)"

definition validate_planner :: "planner_output \<Rightarrow> planner_output option" where
  "validate_planner raw =
     (let out = \<lparr>po_objective = trim_text (po_objective raw), po_assumptions = map trim_text (po_assumptions raw),
            po_constraints = map trim_text (po_constraints raw), po_tasks = map stripped_task (po_tasks raw),
            po_validation_requirements = map trim_text (po_validation_requirements raw),
            po_risk_areas = map trim_text (po_risk_areas raw)\<rparr>
      in if 1 \<le> length (po_objective out) \<and> po_tasks out \<noteq> [] \<and> list_all valid_task (po_tasks out)
            \<and> graph_is_usable (po_tasks out)
         then Some out else None)"

record coder_output =
  co_task_key :: "string option"
  co_summary :: string
  co_files :: "(string \<times> string) list"
  co_diff :: string
  co_uncertainties :: "string list"

text \<open>\<open>_stays_inside_the_workspace\<close>\<close>

definition path_stays_inside :: "string \<Rightarrow> bool" where
  "path_stays_inside p \<longleftrightarrow> \<not> is_absolute (mk_path p) \<and> ''..'' \<notin> set (pt_parts (mk_path p))"

definition HUNK :: pattern where
  "HUNK = Seq LineStart (Seq (lit ''@@ '') (Seq (One (\<lambda>c. c \<noteq> newline)) (Seq (Star True (One (\<lambda>c. c \<noteq> newline))) (lit '' @@''))))"

definition looks_like_a_diff :: "string \<Rightarrow> bool" where
  "looks_like_a_diff s \<longleftrightarrow> strip s = [] \<or> found (lit ''diff --git '') s \<or> found HUNK s"

definition validate_coder :: "coder_output \<Rightarrow> coder_output option" where
  "validate_coder raw =
     (let out = \<lparr>co_task_key = map_option trim_text (co_task_key raw), co_summary = trim_text (co_summary raw),
            co_files = map (\<lambda>(p, c). (trim_text p, trim_text c)) (co_files raw), co_diff = trim_text (co_diff raw),
            co_uncertainties = map trim_text (co_uncertainties raw)\<rparr>
      in if 1 \<le> length (co_summary out) \<and> list_all (\<lambda>(p, c). 1 \<le> length p \<and> path_stays_inside p) (co_files out)
            \<and> looks_like_a_diff (co_diff out) \<and> (co_files out \<noteq> [] \<or> strip (co_diff out) \<noteq> [])
         then Some out else None)"

record reviewer_output =
  ro_verdict :: review_verdict
  ro_summary :: string
  ro_findings :: "review_finding list"

definition stripped_finding :: "review_finding \<Rightarrow> review_finding" where
  "stripped_finding f =
     f\<lparr>fd_summary := trim_text (fd_summary f), fd_file := map_option trim_text (fd_file f),
       fd_repair_instruction := map_option trim_text (fd_repair_instruction f)\<rparr>"

definition valid_finding :: "review_finding \<Rightarrow> bool" where
  "valid_finding f \<longleftrightarrow> 1 \<le> length (fd_summary f) \<and> (case fd_line f of None \<Rightarrow> True | Some n \<Rightarrow> 1 \<le> n)"

definition validate_reviewer :: "reviewer_output \<Rightarrow> reviewer_output option" where
  "validate_reviewer raw =
     (let out = raw\<lparr>ro_summary := trim_text (ro_summary raw), ro_findings := map stripped_finding (ro_findings raw)\<rparr>
      in if list_all valid_finding (ro_findings out) \<and> \<not> (ro_verdict out = VERDICT_FAIL \<and> ro_findings out = [])
         then Some out else None)"

text \<open>\<open>StructuredOutputParser.parse\<close>; the wording of the rejection is an argument.\<close>

definition parse_structured ::
  "(string \<Rightarrow> json option) \<Rightarrow> string \<Rightarrow> (json_object \<Rightarrow> 'a option) \<Rightarrow> (json_object \<Rightarrow> string) \<Rightarrow> string \<Rightarrow> error + 'a"
where
  "parse_structured loads schema validate problems txt =
     (case extract_json_object loads txt of
        None \<Rightarrow> Inl (StructuredOutputError ''no JSON object could be extracted from the model answer'' schema (Some txt) 1)
      | Some doc \<Rightarrow>
          (case validate doc of
             None \<Rightarrow> Inl (StructuredOutputError (problems doc) schema (Some txt) 1)
           | Some out \<Rightarrow> Inr out))"

section \<open>Drafts from answers\<close>

definition draft_of_planner :: "planner_output \<Rightarrow> plan_draft" where
  "draft_of_planner out =
     \<lparr>pd_objective = po_objective out,
      pd_tasks = map (\<lambda>t. \<lparr>td_key = pk_key t, td_title = pk_title t, td_description = pk_description t,
          td_depends_on = pk_depends_on t, td_target_paths = pk_target_paths t, td_validation = pk_validation t\<rparr>) (po_tasks out),
      pd_assumptions = po_assumptions out, pd_constraints = po_constraints out, pd_risk_areas = po_risk_areas out,
      pd_validation_requirements = po_validation_requirements out\<rparr>"

text \<open>\<open>parse_plan\<close>, \<open>parse_code\<close> and \<open>parse_review\<close>; a draft checks once more what its own constructor demands.\<close>

definition parse_plan ::
  "(string \<Rightarrow> json option) \<Rightarrow> (json_object \<Rightarrow> planner_output option) \<Rightarrow> (json_object \<Rightarrow> string) \<Rightarrow> string \<Rightarrow> error + plan_draft"
where
  "parse_plan loads decode problems raw =
     bind_sum (parse_structured loads ''PlannerOutput'' (\<lambda>doc. Option.bind (decode doc) validate_planner) problems raw) (\<lambda>out.
       if po_tasks out = [] then Inl (ValueError ''a plan draft must contain at least one task'') else Inr (draft_of_planner out))"

definition parse_code ::
  "(string \<Rightarrow> json option) \<Rightarrow> (json_object \<Rightarrow> coder_output option) \<Rightarrow> (json_object \<Rightarrow> string) \<Rightarrow> string \<Rightarrow> error + code_draft"
where
  "parse_code loads decode problems raw =
     bind_sum (parse_structured loads ''CoderOutput'' (\<lambda>doc. Option.bind (decode doc) validate_coder) problems raw) (\<lambda>out.
       if list_ex (\<lambda>(p, c). strip p = []) (co_files out) then Inl (ValueError ''a file write needs a path'')
       else Inr \<lparr>cd_summary = co_summary out, cd_diff = co_diff out, cd_files = co_files out,
                 cd_uncertainties = co_uncertainties out, cd_tool_requests = [], cd_done = True\<rparr>)"

definition parse_review ::
  "(string \<Rightarrow> json option) \<Rightarrow> (json_object \<Rightarrow> reviewer_output option) \<Rightarrow> (json_object \<Rightarrow> string) \<Rightarrow> string \<Rightarrow> error + review_draft"
where
  "parse_review loads decode problems raw =
     bind_sum (parse_structured loads ''ReviewerOutput'' (\<lambda>doc. Option.bind (decode doc) validate_reviewer) problems raw) (\<lambda>out.
       if ro_verdict out = VERDICT_FAIL \<and> ro_findings out = [] then Inl (ValueError ''a FAIL verdict must carry at least one finding'')
       else Inr \<lparr>vd_verdict = ro_verdict out, vd_summary = ro_summary out, vd_findings = ro_findings out\<rparr>)"

section \<open>Asking again\<close>

datatype chat_role = SYSTEM | USER | ASSISTANT | TOOL

type_synonym chat = "(chat_role \<times> string) list"

record completion =
  cm_content :: string
  cm_truncated :: bool
  cm_usage :: token_usage
  cm_model :: string

text \<open>The answer to the \<open>k\<close>-th request of a job.\<close>

type_synonym provider = "nat \<Rightarrow> chat \<Rightarrow> error + completion"

definition repair_messages :: "string \<Rightarrow> string \<Rightarrow> string \<Rightarrow> chat" where
  "repair_messages schema_text raw err =
     [(ASSISTANT, raw),
      (USER, ''That answer was rejected: '' @ err @ [newline, newline] @ ''Required schema:'' @ [newline] @ schema_text
        @ [newline, newline] @ ''Produce your answer now, as a single JSON object matching the schema.'')]"

text \<open>The exceptions of a parser that count as an invalid answer.\<close>

fun invalid_answer :: "error \<Rightarrow> bool" where
  "invalid_answer (StructuredOutputError _ _ _ _) \<longleftrightarrow> True"
| "invalid_answer (ValueError _) \<longleftrightarrow> True"
| "invalid_answer _ \<longleftrightarrow> False"

text \<open>
  The loop of \<open>StructuredCompletion.complete\<close> from the attempt \<open>k\<close> on: the number of requests made and the outcome.
\<close>

function complete_from ::
  "nat \<Rightarrow> provider \<Rightarrow> (string \<Rightarrow> error + 'd) \<Rightarrow> string \<Rightarrow> string \<Rightarrow> (error \<Rightarrow> string) \<Rightarrow> string \<Rightarrow> nat \<Rightarrow> chat \<Rightarrow> token_usage
   \<Rightarrow> nat \<times> (error + 'd agent_outcome)" where
  "complete_from repairs provider parse role schema_text err_text version k messages usage =
     (case provider k messages of
        Inl e \<Rightarrow> (Suc k, Inl e)
      | Inr res \<Rightarrow>
          (case add_usage usage (cm_usage res) of
             Inl e \<Rightarrow> (Suc k, Inl e)
           | Inr usage1 \<Rightarrow>
               if cm_truncated res
               then (Suc k, Inl (StructuredOutputError ''model output was truncated by the token limit'' role
                                   (Some (cm_content res)) (int k + 1)))
               else (case parse (cm_content res) of
                       Inr d \<Rightarrow> (Suc k, Inr \<lparr>ao_draft = d, ao_usage = usage1, ao_prompt_version = version,
                                  ao_model = cm_model res, ao_repairs = int k, ao_raw_length = int (length (cm_content res))\<rparr>)
                     | Inl e \<Rightarrow>
                         if \<not> invalid_answer e then (Suc k, Inl e)
                         else if repairs \<le> k
                         then (Suc k, Inl (StructuredOutputError (''structured output still invalid after '' @ show_nat repairs
                                @ '' repair attempt(s): '' @ err_text e) role (Some (cm_content res)) (int repairs + 1)))
                         else complete_from repairs provider parse role schema_text err_text version (Suc k)
                                (messages @ repair_messages schema_text (cm_content res) (err_text e)) usage1)))"
  by pat_completeness auto
termination by (relation "measure (\<lambda>(repairs, _, _, _, _, _, _, k, _, _). Suc repairs - k)") auto

declare complete_from.simps [simp del]

definition structured_complete ::
  "nat \<Rightarrow> provider \<Rightarrow> (string \<Rightarrow> error + 'd) \<Rightarrow> string \<Rightarrow> string \<Rightarrow> (error \<Rightarrow> string) \<Rightarrow> string \<Rightarrow> chat \<Rightarrow> nat \<times> (error + 'd agent_outcome)"
where
  "structured_complete repairs provider parse role schema_text err_text version messages =
     complete_from repairs provider parse role schema_text err_text version 0 messages \<lparr>input_tokens = 0, output_tokens = 0\<rparr>"

section \<open>Where the document is found\<close>

text \<open>The scan as a function of its state: depth, inside a string, after a backslash.\<close>

fun scan :: "nat \<times> bool \<times> bool \<Rightarrow> char \<Rightarrow> nat \<times> bool \<times> bool" where
  "scan (d, True, e) c = (d, e \<or> c \<noteq> quote, \<not> e \<and> c = backslash)"
| "scan (d, False, e) c =
     (if c = quote then (d, True, e) else if c = CHR ''{'' then (Suc d, False, e)
      else if c = CHR ''}'' \<and> 0 < d then (d - 1, False, e) else (d, False, e))"

text \<open>A text that opens a brace and closes it with its last character and not before.\<close>

fun closes :: "nat \<times> bool \<times> bool \<Rightarrow> string \<Rightarrow> bool" where
  "closes st [] \<longleftrightarrow> False"
| "closes st [c] \<longleftrightarrow> fst (scan st c) = 0"
| "closes st (c # cs) \<longleftrightarrow> 0 < fst (scan st c) \<and> closes (scan st c) cs"

definition object_text :: "string \<Rightarrow> bool" where
  "object_text doc \<longleftrightarrow> (case doc of c # cs \<Rightarrow> c = CHR ''{'' \<and> closes (1, False, False) cs | [] \<Rightarrow> False)"

lemma spans_from_outside: "spans_from 0 acc s e u = spans_from 0 [] s e u"
proof (induction u arbitrary: acc s e)
  case (Cons c u)
  show ?case
  proof (cases s)
    case True
    then show ?thesis using Cons.IH [of "acc @ [c]"] Cons.IH [of "[c]"] by simp
  next
    case False
    then show ?thesis
      by (simp add: Cons.IH [of "acc @ [c]"] Cons.IH [of "[c]"] Cons.IH [of "acc @ [quote]"] Cons.IH [of "[quote]"])
  qed
qed simp

lemma spans_from_closes:
  "0 < d \<Longrightarrow> closes (d, s, e) u \<Longrightarrow> (\<not> s \<longrightarrow> \<not> e) \<Longrightarrow>
   spans_from d acc s e (u @ post) = (acc @ u) # spans_from 0 [] False False post"
proof (induction u arbitrary: d acc s e)
  case (Cons c u)
  show ?case
  proof (cases s)
    case True
    have "u \<noteq> []" using Cons.prems True by (cases u) auto
    then have "closes (d, e \<or> c \<noteq> quote, \<not> e \<and> c = backslash) u"
      using Cons.prems(2) True by (cases u) auto
    from Cons.IH [OF Cons.prems(1) this, of "acc @ [c]"] True show ?thesis by auto
  next
    case False
    then have e: "e = False" using Cons.prems(3) by simp
    show ?thesis
    proof (cases "c = CHR ''}'' \<and> d = 1")
      case True
      then have "u = []" using Cons.prems False by (cases u) (auto split: if_splits)
      then show ?thesis using True False e by simp
    next
      case other: False
      have "u \<noteq> []" using Cons.prems False other by (cases u) (auto split: if_splits)
      then have rest: "closes (scan (d, False, False) c) u" "0 < fst (scan (d, False, False) c)"
        using Cons.prems(2) False e by (cases u; simp)+
      show ?thesis
        using Cons.IH [of "fst (scan (d, False, False) c)" "fst (snd (scan (d, False, False) c))" "snd (snd (scan (d, False, False) c))" "acc @ [c]"]
          rest False e other Cons.prems(1) by (auto split: if_splits)
    qed
  qed
qed simp

lemma balanced_spans_document:
  assumes "quote \<notin> set pre" and "CHR ''{'' \<notin> set pre" and "object_text doc"
  shows "balanced_spans (pre @ doc @ post) = doc # balanced_spans post"
proof -
  have "spans_from 0 acc False False (pre @ u) = spans_from 0 [] False False u" for acc u
    using assms(1,2)
  proof (induction pre arbitrary: acc)
    case Nil
    then show ?case using spans_from_outside [of acc] by simp
  next
    case (Cons c pre)
    then show ?case by auto
  qed
  moreover obtain u where doc: "doc = CHR ''{'' # u" "closes (1, False, False) u"
    using assms(3) by (auto simp: object_text_def split: list.splits)
  ultimately show ?thesis
    using spans_from_closes [OF _ doc(2), of "[CHR ''{'']" post] by (simp add: balanced_spans_def doc(1))
qed

text \<open>One stray quote before the document hides it: with no further quote nothing is found at all.\<close>

lemma stray_quote_hides_document:
  assumes "quote \<notin> set u" and "backslash \<notin> set u" shows "balanced_spans (quote # u) = []"
proof -
  have "quote \<notin> set u \<Longrightarrow> backslash \<notin> set u \<Longrightarrow> spans_from 0 acc True False u = []" for acc u
    by (induction u arbitrary: acc) auto
  then show ?thesis using assms by (simp add: balanced_spans_def)
qed

lemma find_all_Nil: "find_all r b s = [] \<longleftrightarrow> search_from r b s = None"
  by (subst find_all.simps) (auto split: option.splits)

lemma find_all_last:
  assumes "consuming r" and "find_all r b s \<noteq> []"
  shows "search_from r (pl_before (snd (last (find_all r b s)))) (pl_rest (snd (last (find_all r b s)))) = None"
  using assms
proof (induction r b s rule: find_all.induct)
  case (1 r b s)
  from "1.prems"(2) obtain sk p q where hit: "search_from r b s = Some (sk, p, q)" unfolding find_all_Nil by auto
  have "q \<in> set (ends r p)" "s = sk @ pl_rest p" using search_from_Some [OF hit] by auto
  then have shorter: "length (pl_rest q) < length s"
    using consuming_shorter [OF ends_sound "1.prems"(1)] by fastforce
  have split: "find_all r b s = (p, q) # find_all r (pl_before q) (pl_rest q)"
    by (subst find_all.simps) (simp add: hit shorter)
  show ?case
  proof (cases "find_all r (pl_before q) (pl_rest q) = []")
    case True
    then show ?thesis by (simp add: split find_all_Nil)
  next
    case False
    then show ?thesis using "1.IH" [OF hit refl refl shorter "1.prems"(1)] by (simp add: split)
  qed
qed

lemma consuming_alts: "rs \<noteq> [] \<Longrightarrow> list_all consuming rs \<Longrightarrow> consuming (alts rs)"
  by (induction rs rule: alts.induct) auto

lemma close_consuming: "consuming REASONING_CLOSE"
  unfolding REASONING_CLOSE_def by (rule consuming_alts) (simp_all add: REASONING_WORDS_def del: lit_i.simps)

lemma close_spans:
  "(\<exists>q. spans REASONING_CLOSE \<lparr>pl_before = b, pl_rest = s, pl_groups = []\<rparr> q) \<longleftrightarrow>
   (\<exists>w v t. w \<in> set REASONING_WORDS \<and> s = v @ t \<and> lower v = lower (''</'' @ w @ ''>''))"
proof -
  have lit: "(\<exists>q. spans (lit_i x) \<lparr>pl_before = b, pl_rest = s, pl_groups = []\<rparr> q) \<longleftrightarrow> (\<exists>v t. s = v @ t \<and> lower v = lower x)" for x
  proof
    assume "\<exists>v t. s = v @ t \<and> lower v = lower x"
    then obtain v t where "s = v @ t" "lower v = lower x" by blast
    then have "spans (lit_i x) \<lparr>pl_before = b, pl_rest = s, pl_groups = []\<rparr> (moved v \<lparr>pl_before = b, pl_rest = s, pl_groups = []\<rparr>)"
      unfolding spans_lit_i by (intro exI [of _ v]) (simp add: moved_def)
    then show "\<exists>q. spans (lit_i x) \<lparr>pl_before = b, pl_rest = s, pl_groups = []\<rparr> q" by blast
  qed (auto simp: spans_lit_i)
  have ne: "map f REASONING_WORDS \<noteq> []" for f by (simp add: REASONING_WORDS_def)
  show ?thesis unfolding REASONING_CLOSE_def spans_alts [OF ne] set_map using lit by blast
qed

lemma close_found_context: "search_from REASONING_CLOSE b s = None \<longleftrightarrow> search_from REASONING_CLOSE None s = None"
proof -
  have "search_from REASONING_CLOSE b s \<noteq> None \<longleftrightarrow> search_from REASONING_CLOSE None s \<noteq> None"
    unfolding search_from_found using close_spans by metis
  then show ?thesis by blast
qed

lemma strip_reasoning_closed: "\<not> found REASONING_CLOSE (strip_reasoning txt)"
proof -
  let ?w = "sub_all REASONING_PAIR (\<lambda>_ _. []) None txt"
  show ?thesis
  proof (cases "find_all REASONING_CLOSE None ?w = []")
    case True
    then show ?thesis by (simp add: found_def strip_reasoning_def find_all_Nil [symmetric])
  next
    case False
    from find_all_last [OF close_consuming False]
    have "search_from REASONING_CLOSE None (pl_rest (snd (last (find_all REASONING_CLOSE None ?w)))) = None"
      using close_found_context by blast
    then show ?thesis using False by (simp add: found_def strip_reasoning_def)
  qed
qed

section \<open>The schema and the domain agree\<close>

text \<open>The loop of the schema and the loop of the plan remove the same tasks.\<close>

lemma graph_loop_layers:
  "graph_loop (map (\<lambda>t. (t_key t, filter (\<lambda>d. d \<notin> set sat) (t_depends_on t))) rem) \<longleftrightarrow> (\<exists>ls. layers_loop rem sat = Inr ls)"
proof (induction rem sat rule: layers_loop.induct)
  case (1 rem sat)
  let ?open = "\<lambda>sat t. (t_key t, filter (\<lambda>d. d \<notin> set sat) (t_depends_on t))"
  let ?ready = "ready_tasks rem sat"
  have ready: "map fst (filter (\<lambda>(k, deps). deps = []) (map (?open sat) rem)) = map t_key ?ready"
    by (simp add: ready_tasks_def filter_map o_def filter_empty_conv list_all_iff)
  have rest: "map (\<lambda>(k, deps). (k, filter (\<lambda>d. d \<notin> set (map t_key ?ready)) deps))
        (filter (\<lambda>(k, deps). k \<notin> set (map t_key ?ready)) (map (?open sat) rem))
      = map (?open (sat @ map t_key ?ready)) (filter (\<lambda>t. t_key t \<notin> t_key ` set ?ready) rem)"
    by (simp add: filter_map o_def conj_commute)
  show ?case
  proof (cases "rem = [] \<or> ?ready = []")
    case True
    then show ?thesis
      by (subst graph_loop.simps, subst layers_loop.simps) (auto simp: Let_def ready simp del: list.map)
  next
    case False
    then have ne: "(rem = []) = False" "(?ready = []) = False" by auto
    have "graph_loop (map (?open sat) rem) \<longleftrightarrow>
        graph_loop (map (?open (sat @ map t_key ?ready)) (filter (\<lambda>t. t_key t \<notin> t_key ` set ?ready) rem))"
      by (subst graph_loop.simps) (simp only: ready rest Let_def map_is_Nil_conv ne if_False)
    moreover have "(\<exists>ls. layers_loop rem sat = Inr ls) \<longleftrightarrow>
        (\<exists>ls. layers_loop (filter (\<lambda>t. t_key t \<notin> t_key ` set ?ready) rem) (sat @ map t_key ?ready) = Inr ls)"
      using False by (subst layers_loop.simps) (auto simp: Let_def split: sum.splits)
    ultimately show ?thesis using "1.IH" False by blast
  qed
qed

lemma graph_is_usable_iff:
  assumes "map t_key pts = map pk_key ts" and "map t_depends_on pts = map pk_depends_on ts"
  shows "graph_is_usable ts \<longleftrightarrow> validate_graph pts = Inr ()"
proof -
  have len: "length pts = length ts" using assms(1) by (metis length_map)
  have pairs: "map (\<lambda>t. (pk_key t, pk_depends_on t)) ts = map (\<lambda>t. (t_key t, t_depends_on t)) pts"
  proof (rule nth_equalityI)
    fix i assume "i < length (map (\<lambda>t. (pk_key t, pk_depends_on t)) ts)"
    then have i: "i < length ts" "i < length pts" using len by simp_all
    have "t_key (pts ! i) = pk_key (ts ! i)" using arg_cong [OF assms(1), of "\<lambda>xs. xs ! i"] i by simp
    moreover have "t_depends_on (pts ! i) = pk_depends_on (ts ! i)" using arg_cong [OF assms(2), of "\<lambda>xs. xs ! i"] i by simp
    ultimately show "map (\<lambda>t. (pk_key t, pk_depends_on t)) ts ! i = map (\<lambda>t. (t_key t, t_depends_on t)) pts ! i" using i by simp
  qed (simp add: len)
  have deps: "(\<forall>t \<in> set ts. P (pk_key t) (pk_depends_on t)) \<longleftrightarrow> (\<forall>t \<in> set pts. P (t_key t) (t_depends_on t))" for P
  proof -
    have "(\<forall>x \<in> set (map (\<lambda>t. (pk_key t, pk_depends_on t)) ts). P (fst x) (snd x))
        \<longleftrightarrow> (\<forall>x \<in> set (map (\<lambda>t. (t_key t, t_depends_on t)) pts). P (fst x) (snd x))" unfolding pairs ..
    then show ?thesis by simp
  qed
  have ref: "well_referenced pts \<longleftrightarrow> distinct (map pk_key ts) \<and> (\<forall>t \<in> set ts. set (pk_depends_on t) \<subseteq> set (map pk_key ts))"
    unfolding well_referenced_def assms(1) using deps [of "\<lambda>k ds. set ds \<subseteq> set (map pk_key ts)"] by blast
  have loop: "graph_loop (map (\<lambda>t. (pk_key t, pk_depends_on t)) ts) \<longleftrightarrow> acyclic (dependency pts)" if "well_referenced pts"
  proof -
    have "distinct (map t_key pts)" using that by (simp add: well_referenced_def)
    then have "graph_loop (map (\<lambda>t. (pk_key t, pk_depends_on t)) ts) \<longleftrightarrow> (\<exists>ls. execution_layers pts = Inr ls)"
      using graph_loop_layers [of "[]" pts] by (simp add: pairs execution_layers_def keyed_tasks_distinct)
    then show ?thesis using execution_layers_cases [OF that] by (cases "execution_layers pts") auto
  qed
  have self: "\<forall>t \<in> set ts. pk_key t \<notin> set (pk_depends_on t)" if "acyclic (dependency pts)"
  proof -
    have "t_key t \<notin> set (t_depends_on t)" if "t \<in> set pts" for t
      using \<open>acyclic (dependency pts)\<close> that by (auto simp: dependency_def acyclic_def)
    then show ?thesis using deps [of "\<lambda>k ds. k \<notin> set ds"] by blast
  qed
  show ?thesis
    unfolding validate_graph_iff graph_is_usable_def using ref loop self by (auto simp: list_all_iff)
qed

lemma draft_tasks_valid:
  assumes "\<And>t. t \<in> set ts \<Longrightarrow> strip (td_key t) \<noteq> [] \<and> strip (td_title t) \<noteq> [] \<and> td_key t \<notin> set (td_depends_on t)"
  shows "\<exists>pts. draft_tasks n ts = Inr pts \<and> map t_key pts = map td_key ts \<and> map t_depends_on pts = map td_depends_on ts"
  using assms
proof (induction ts arbitrary: n)
  case (Cons t ts)
  obtain pts where "draft_tasks (n + 1) ts = Inr pts" "map t_key pts = map td_key ts" "map t_depends_on pts = map td_depends_on ts"
    using Cons.IH Cons.prems by (metis list.set_intros(2))
  moreover have "strip (td_key t) \<noteq> []" "strip (td_title t) \<noteq> []" "td_key t \<notin> set (td_depends_on t)" using Cons.prems by auto
  ultimately show ?case by (simp add: mk_plan_task_def)
qed simp

lemma draft_tasks_titles: "draft_tasks n ts = Inr pts \<Longrightarrow> t \<in> set ts \<Longrightarrow> strip (td_title t) \<noteq> []"
  by (induction n ts arbitrary: pts rule: draft_tasks.induct) (auto simp: bind_sum_Inr_iff mk_plan_task_def split: if_splits sum.splits)

text \<open>A slug begins with a letter or a digit.\<close>

lemma slug_not_blank:
  assumes "key_is_a_slug k"
  shows "strip k \<noteq> []"
proof -
  have "\<exists>q. spans (Seq (Seq (One (\<lambda>c. (is_letter c \<and> of_char c < (128 :: nat)) \<or> is_digit c)) (Star True (One slug_char))) TextEnd) (start k) q"
    using assms by (auto simp: key_is_a_slug_def matches_whole_def neq_Nil_conv simp flip: ends_iff)
  then obtain c cs where k: "k = c # cs" and c: "is_letter c \<or> is_digit c"
    by (auto elim!: spans_SeqE spans_OneE simp: start_def)
  have "\<not> py_isspace c" using c by (auto simp: py_isspace_def is_letter_def is_digit_def Let_def)
  then show ?thesis by (simp add: strip_eq_Nil_iff k)
qed

lemma validate_planner_parts:
  assumes "validate_planner raw = Some out"
  shows "po_tasks out \<noteq> []" "graph_is_usable (po_tasks out)"
    "t \<in> set (po_tasks out) \<Longrightarrow> strip (pk_key t) \<noteq> [] \<and> pk_title t \<noteq> [] \<and> \<not> unicode_space (hd (pk_title t))"
proof -
  show "po_tasks out \<noteq> []" "graph_is_usable (po_tasks out)"
    using assms by (auto simp: validate_planner_def Let_def split: if_splits)
  assume t: "t \<in> set (po_tasks out)"
  have all: "list_all valid_task (po_tasks out)" "\<exists>ts. po_tasks out = map stripped_task ts"
    using assms by (auto simp: validate_planner_def Let_def split: if_splits)
  then obtain u where u: "t = stripped_task u" using t by auto
  have valid: "valid_task t" using all(1) t by (auto simp: list_all_iff)
  then have "pk_title t \<noteq> []" "key_is_a_slug (pk_key t)" by (auto simp: valid_task_def)
  moreover have "pk_title t = trim_text (pk_title u)" by (simp add: u stripped_task_def)
  ultimately show "strip (pk_key t) \<noteq> [] \<and> pk_title t \<noteq> [] \<and> \<not> unicode_space (hd (pk_title t))"
    using slug_not_blank trim_text_ends(1) by metis
qed

section \<open>The loop that asks again\<close>

lemma add_usage_Inr: "add_usage u v = Inr w \<Longrightarrow> total_tokens w = total_tokens u + total_tokens v"
  by (auto simp: add_usage_def mk_token_usage_def total_tokens_def split: if_splits)

text \<open>What the loop ends with after \<open>n\<close> requests, the first of them numbered \<open>k\<close>.\<close>

definition completion_outcome ::
  "nat \<Rightarrow> provider \<Rightarrow> (string \<Rightarrow> error + 'd) \<Rightarrow> nat \<Rightarrow> error + 'd agent_outcome \<Rightarrow> bool" where
  "completion_outcome repairs provider parse n out \<longleftrightarrow>
    (case out of
       Inr r \<Rightarrow> \<exists>msgs res. provider (n - 1) msgs = Inr res \<and> \<not> cm_truncated res \<and> parse (cm_content res) = Inr (ao_draft r)
                 \<and> ao_repairs r = int n - 1 \<and> ao_model r = cm_model res
     | Inl e \<Rightarrow> (\<exists>msgs. provider (n - 1) msgs = Inl e)
         \<or> (\<exists>msgs res. provider (n - 1) msgs = Inr res \<and> (\<exists>u. add_usage u (cm_usage res) = Inl e))
         \<or> (\<exists>msgs res e'. provider (n - 1) msgs = Inr res \<and> \<not> cm_truncated res \<and> parse (cm_content res) = Inl e'
              \<and> (e = e' \<and> \<not> invalid_answer e' \<or> n = Suc repairs \<and> classify e = FK_INVALID_STRUCTURED_OUTPUT))
         \<or> (\<exists>msgs res. provider (n - 1) msgs = Inr res \<and> cm_truncated res \<and> classify e = FK_INVALID_STRUCTURED_OUTPUT))"

lemma complete_from_spec:
  assumes "complete_from repairs provider parse role schema err_text version k messages usage = (n, out)" and "k \<le> repairs"
  shows "k < n \<and> n \<le> Suc repairs \<and> completion_outcome repairs provider parse n out"
  using assms
proof (induction repairs provider parse role schema err_text version k messages usage rule: complete_from.induct)
  case (1 repairs provider parse role schema err_text version k messages usage)
  show ?case
  proof (cases "provider k messages")
    case (Inl e)
    then have "n = Suc k \<and> out = Inl e" using "1.prems"(1) by (subst (asm) complete_from.simps) simp
    then show ?thesis using Inl "1.prems"(2) by (auto simp: completion_outcome_def)
  next
    case (Inr res)
    note res = this
    show ?thesis
    proof (cases "add_usage usage (cm_usage res)")
      case (Inl e)
      then have "n = Suc k \<and> out = Inl e" using "1.prems"(1) res by (subst (asm) complete_from.simps) simp
      then show ?thesis using Inl res "1.prems"(2) by (auto simp: completion_outcome_def)
    next
      case (Inr usage1)
      note usage1 = this
      show ?thesis
      proof (cases "cm_truncated res")
        case True
        then have "n = Suc k \<and> out = Inl (StructuredOutputError ''model output was truncated by the token limit'' role
            (Some (cm_content res)) (int k + 1))"
          using "1.prems"(1) res usage1 by (subst (asm) complete_from.simps) simp
        then show ?thesis using True res "1.prems"(2) by (auto simp: completion_outcome_def)
      next
        case False
        show ?thesis
        proof (cases "parse (cm_content res)")
          case (Inr d)
          then have "n = Suc k \<and> (\<exists>r. out = Inr r \<and> ao_draft r = d \<and> ao_repairs r = int k \<and> ao_model r = cm_model res)"
            using "1.prems"(1) res usage1 False by (subst (asm) complete_from.simps) auto
          then show ?thesis
            using Inr False res "1.prems"(2) by (auto simp: completion_outcome_def intro!: exI [of _ messages] exI [of _ res])
        next
          case (Inl e)
          show ?thesis
          proof (cases "invalid_answer e \<and> k < repairs")
            case True
            then have rec: "complete_from repairs provider parse role schema err_text version (Suc k)
                (messages @ repair_messages schema (cm_content res) (err_text e)) usage1 = (n, out)"
              using "1.prems"(1) res usage1 False Inl by (subst (asm) complete_from.simps) simp
            show ?thesis
              using "1.IH" [OF res usage1 False Inl _ _ rec] True by auto
          next
            case stop: False
            then have "n = Suc k \<and> (\<exists>e'. out = Inl e' \<and> (e' = e \<and> \<not> invalid_answer e
                \<or> k = repairs \<and> classify e' = FK_INVALID_STRUCTURED_OUTPUT))"
              using "1.prems" res usage1 False Inl by (subst (asm) complete_from.simps) (auto split: if_splits)
            then show ?thesis
              using Inl False res "1.prems"(2) unfolding completion_outcome_def by fastforce
          qed
        qed
      qed
    qed
  qed
qed

section \<open>Properties\<close>

text \<open>
  C23. What the planner's schema accepts, the domain accepts, but for one kind of title. A validated plan, whatever the document it came from,
  becomes a plan of the domain, with the same keys, just when no title is blank to \<open>str.strip\<close>; unknown, repeated or circular
  dependencies are all found at the schema, where they are sent back to the model. A title the schema lets through and the domain
  refuses begins with one of the separators 1C to 1F, which the schema does not take for white space. Conversely the schema's test of the
  graph rejects nothing the domain would take.
\<close>

theorem validated_plan_becomes_a_plan:
  assumes "parse_plan loads decode problems raw = Inr d" and "1 \<le> r_plan_revisions r"
  shows "((\<exists>p. plan_from_draft d r version n now = Inr p \<and> map t_key (p_tasks p) = map td_key (pd_tasks d))
      \<longleftrightarrow> (\<forall>t \<in> set (pd_tasks d). strip (td_title t) \<noteq> []))
    \<and> (\<forall>t \<in> set (pd_tasks d). strip (td_title t) = [] \<longrightarrow> of_char (hd (td_title t)) \<in> {28..31 :: nat})
    \<and> (\<forall>ts pts. map t_key pts = map pk_key ts \<and> map t_depends_on pts = map pk_depends_on ts \<longrightarrow>
         (graph_is_usable ts \<longleftrightarrow> validate_graph pts = Inr ()))"
proof -
  obtain doc out where out: "validate_planner doc = Some out" "d = draft_of_planner out"
    using assms(1)
    by (auto simp: parse_plan_def parse_structured_def bind_sum_Inr_iff bind_eq_Some_conv split: option.splits if_splits)
  note valid = validate_planner_parts [OF out(1)]
  have usable: "pk_key t \<notin> set (pk_depends_on t)" if "t \<in> set (po_tasks out)" for t
    using valid(2) that by (auto simp: graph_is_usable_def list_all_iff)
  have refused: "\<exists>e. plan_from_draft d r version n now = Inl e" if "t \<in> set (pd_tasks d)" "strip (td_title t) = []" for t
    using draft_tasks_titles [of "n + 1" "pd_tasks d", OF _ that(1)] that(2)
    by (cases "draft_tasks (n + 1) (pd_tasks d)") (auto simp: plan_from_draft_def)
  have accepted: "\<exists>p. plan_from_draft d r version n now = Inr p \<and> map t_key (p_tasks p) = map td_key (pd_tasks d)"
    if titles: "\<forall>t \<in> set (pd_tasks d). strip (td_title t) \<noteq> []"
  proof -
    have "\<exists>pts. draft_tasks (n + 1) (pd_tasks d) = Inr pts \<and> map t_key pts = map td_key (pd_tasks d)
        \<and> map t_depends_on pts = map td_depends_on (pd_tasks d)"
      by (rule draft_tasks_valid) (use valid(3) usable titles in \<open>auto simp: out(2) draft_of_planner_def\<close>)
    then obtain pts where pts: "draft_tasks (n + 1) (pd_tasks d) = Inr pts" "map t_key pts = map td_key (pd_tasks d)"
        "map t_depends_on pts = map td_depends_on (pd_tasks d)" by blast
    then have keys: "map t_key pts = map pk_key (po_tasks out)" "map t_depends_on pts = map pk_depends_on (po_tasks out)"
      by (simp_all add: out(2) draft_of_planner_def o_def)
    have graph: "validate_graph pts = Inr ()" using graph_is_usable_iff [OF keys] valid(2) by blast
    have "pts \<noteq> []" using keys(1) valid(1) by (metis map_is_Nil_conv)
    then have "\<exists>p. plan_from_draft d r version n now = Inr p \<and> p_tasks p = pts"
      using pts(1) graph assms(2) by (simp add: plan_from_draft_def mk_plan_def)
    then show ?thesis using pts(2) by metis
  qed
  have "of_char (hd (td_title t)) \<in> {28..31 :: nat}" if t: "t \<in> set (pd_tasks d)" "strip (td_title t) = []" for t
  proof -
    have "td_title t \<noteq> []" "\<not> unicode_space (hd (td_title t))" using t(1) valid(3) by (auto simp: out(2) draft_of_planner_def)
    moreover have "py_isspace (hd (td_title t))" using t(2) calculation(1) by (simp add: strip_eq_Nil_iff)
    ultimately show ?thesis by (auto simp: py_isspace_def unicode_space_def Let_def)
  qed
  moreover have "(\<exists>p. plan_from_draft d r version n now = Inr p \<and> map t_key (p_tasks p) = map td_key (pd_tasks d))
      \<longleftrightarrow> (\<forall>t \<in> set (pd_tasks d). strip (td_title t) \<noteq> [])"
    using accepted refused by force
  ultimately show ?thesis using graph_is_usable_iff by blast
qed

definition demo_planner_output :: planner_output where
  "demo_planner_output = \<lparr>po_objective = ''fix'', po_assumptions = [], po_constraints = [],
     po_tasks = [\<lparr>pk_key = ''a'', pk_title = ''A'', pk_description = [], pk_target_paths = [], pk_depends_on = [], pk_validation = []\<rparr>,
                 \<lparr>pk_key = ''b'', pk_title = ''B'', pk_description = [], pk_target_paths = [], pk_depends_on = [''a''], pk_validation = []\<rparr>],
     po_validation_requirements = [], po_risk_areas = []\<rparr>"

definition demo_loads :: "string \<Rightarrow> json option" where
  "demo_loads s = (if s = ''{}'' then Some (JObj []) else None)"

lemma demo_extract: "extract_json_object demo_loads ''{}'' = Some []"
  by code_simp

lemma demo_validates: "validate_planner demo_planner_output = Some demo_planner_output"
  by code_simp

theorem validated_plan_becomes_a_plan_witness:
  "\<exists>p. plan_from_draft (draft_of_planner demo_planner_output) (demo_run\<lparr>r_plan_revisions := 1\<rparr>) ''v1'' 5 9 = Inr p
     \<and> map t_key (p_tasks p) = [''a'', ''b'']"
proof -
  have "parse_plan demo_loads (\<lambda>_. Some demo_planner_output) (\<lambda>_. []) ''{}'' = Inr (draft_of_planner demo_planner_output)"
    by (simp add: parse_plan_def parse_structured_def demo_extract demo_validates) (simp add: demo_planner_output_def)
  from conjunct1 [OF validated_plan_becomes_a_plan [OF this, of "demo_run\<lparr>r_plan_revisions := 1\<rparr>" "''v1''" 5 9]]
  show ?thesis by (simp add: draft_of_planner_def demo_planner_output_def strip_def py_isspace_def)
qed

text \<open>
  The document is found in the middle of prose. When the answer, less its reasoning, is some text without a quote or an opening
  brace, then a document that closes its outermost brace with its last character, then anything, and neither the whole
  nor a fenced block is an object, the document is what is extracted, whatever quotes, braces and escapes its strings hold. And no
  closing tag of a reasoning block is left in what is searched.
\<close>

theorem document_in_prose_is_found:
  assumes "strip_reasoning a = pre @ doc @ post" and "quote \<notin> set pre" and "CHR ''{'' \<notin> set pre" and "object_text doc"
    and "loads doc = Some (JObj m)" and "\<not> (\<exists>x. loads (strip (pre @ doc @ post)) = Some (JObj x))"
    and "find_all FENCE None (pre @ doc @ post) = []"
  shows "extract_json_object loads a = Some m \<and> \<not> found REASONING_CLOSE (strip_reasoning a)"
proof -
  have spans: "balanced_spans (pre @ doc @ post) = doc # balanced_spans post" by (rule balanced_spans_document [OF assms(2-4)])
  have skip: "first_object loads (c # cs) = first_object loads cs" if "\<not> (\<exists>x. loads c = Some (JObj x))" for c cs
    using that by (auto split: option.splits json.splits)
  have "first_object loads (iter_candidates (pre @ doc @ post)) = Some m"
    unfolding iter_candidates_def spans assms(7) using skip [OF assms(6)] assms(5) by simp
  then show ?thesis using strip_reasoning_closed [of a] by (simp add: extract_json_object_def assms(1))
qed

definition demo_chatter :: string where
  "demo_chatter = ''</think>So: {}.''"

lemma demo_chatter_stripped:
  "strip_reasoning demo_chatter = ''So: '' @ ''{}'' @ ''.''" "find_all FENCE None (''So: '' @ ''{}'' @ ''.'') = []"
  by code_simp+

theorem document_in_prose_is_found_witness: "extract_json_object demo_loads demo_chatter = Some []"
proof -
  have "object_text ''{}''" by (simp add: object_text_def)
  moreover have "\<not> (\<exists>x. demo_loads (strip (''So: '' @ ''{}'' @ ''.'')) = Some (JObj x))"
    by (simp add: demo_loads_def strip_def py_isspace_def)
  ultimately show ?thesis
    using document_in_prose_is_found [OF demo_chatter_stripped(1) _ _ _ _ _ demo_chatter_stripped(2), of demo_loads "[]"]
    by (simp add: demo_loads_def)
qed

text \<open>
  What a coder writes is not what is stored. The schemas strip every text field, so of each file of an accepted answer the
  blanks at both ends are gone: no stored content, and no stored diff, ends with a newline, whatever the model wrote. The paths, on the
  other hand, are relative and never climb.
\<close>

theorem coder_content_is_stripped:
  assumes "parse_code loads decode problems raw = Inr d" and "extract_json_object loads raw = Some doc" and "decode doc = Some answer"
  shows "cd_files d = map (\<lambda>(p, c). (trim_text p, trim_text c)) (co_files answer) \<and> cd_diff d = trim_text (co_diff answer)
    \<and> \<not> (\<exists>s. cd_diff d = s @ [newline]) \<and> \<not> (\<exists>p s. (p, s @ [newline]) \<in> set (cd_files d))
    \<and> list_all (\<lambda>(p, c). path_stays_inside p) (cd_files d)"
proof -
  obtain out where out: "validate_coder answer = Some out" "cd_files d = co_files out" "cd_diff d = co_diff out"
    using assms by (auto simp: parse_code_def parse_structured_def bind_sum_Inr_iff split: option.splits if_splits)
  have parts: "co_files out = map (\<lambda>(p, c). (trim_text p, trim_text c)) (co_files answer)" "co_diff out = trim_text (co_diff answer)"
      "list_all (\<lambda>(p, c). path_stays_inside p) (co_files out)"
    using out(1) by (auto simp: validate_coder_def Let_def list_all_iff split: if_splits)
  have newline_isspace: "unicode_space newline" by code_simp
  have no_newline: "trim_text x \<noteq> s @ [newline]" for x s
    using trim_text_ends(2) [of x] newline_isspace by auto
  then have "s @ [newline] \<noteq> trim_text x" for x s by metis
  then show ?thesis using out parts no_newline by auto
qed

definition demo_coder_output :: coder_output where
  "demo_coder_output = \<lparr>co_task_key = None, co_summary = ''s'', co_files = [(''a.py'', ''x = 1'' @ [newline])], co_diff = [],
     co_uncertainties = []\<rparr>"

lemma demo_coder_validates: "\<exists>out. validate_coder demo_coder_output = Some out \<and> co_files out = [(''a.py'', ''x = 1'')]"
proof -
  have "map_option co_files (validate_coder demo_coder_output) = Some [(''a.py'', ''x = 1'')]" by code_simp
  then show ?thesis by (cases "validate_coder demo_coder_output") auto
qed

theorem coder_content_is_stripped_witness:
  "\<exists>d. parse_code demo_loads (\<lambda>_. Some demo_coder_output) (\<lambda>_. []) ''{}'' = Inr d \<and> cd_files d = [(''a.py'', ''x = 1'')]"
proof -
  have "\<exists>d. parse_code demo_loads (\<lambda>_. Some demo_coder_output) (\<lambda>_. []) ''{}'' = Inr d"
  proof -
    obtain out where "validate_coder demo_coder_output = Some out" "co_files out = [(''a.py'', ''x = 1'')]"
      using demo_coder_validates by blast
    then show ?thesis by (simp add: parse_code_def parse_structured_def demo_extract strip_def py_isspace_def)
  qed
  then obtain d where d: "parse_code demo_loads (\<lambda>_. Some demo_coder_output) (\<lambda>_. []) ''{}'' = Inr d" by blast
  from coder_content_is_stripped [OF d demo_extract refl] d show ?thesis
    by (auto simp: demo_coder_output_def trim_text_def unicode_space_def)
qed

text \<open>
  Asking again is bounded and never hides what happened. A structured completion makes at least one and at most one more request than
  the repairs it is allowed. It returns a draft only if the last answer was complete and parses to that draft; otherwise it
  raises the exception of the provider, or the structured-output failure after a truncated answer or after the
  last allowed answer was invalid, or what the parser raised besides.
\<close>

theorem structured_completion_is_bounded:
  "case structured_complete repairs provider parse role schema err_text version messages of
     (n, out) \<Rightarrow> 0 < n \<and> n \<le> repairs + 1 \<and> completion_outcome repairs provider parse n out"
  using complete_from_spec [of repairs provider parse role schema err_text version 0 messages "\<lparr>input_tokens = 0, output_tokens = 0\<rparr>"]
  unfolding structured_complete_def by (auto split: prod.splits)

end
