(* ===== verification/Coordinator.thy ===== *)
theory Coordinator
  imports Enums
begin

text \<open>
  The in-process run coordinator (\<open>src/src/application/services/locking.py\<close>). A lock is an object with an identity, because what
  could go wrong is that two objects stand for the same run: the model keeps the objects apart by reference. A use of
  \<open>lock\<close> goes through its suspension points: it registers under the guard, waits for the lock object, runs the body, lets the
  lock object go and deregisters under the guard; a task that is cancelled while it waits deregisters too.
\<close>

section \<open>State and operations\<close>

datatype co_phase =
    Waiting (phase_run: run_id) (phase_lock: nat)
  | Inside (phase_run: run_id) (phase_lock: nat)
  | Leaving (phase_run: run_id) (phase_lock: nat)

record coordinator =
  co_locks :: "(run_id, nat) dict"
  co_holders :: "(run_id, int) dict"
  co_objects :: nat
  co_owner :: "nat \<rightharpoonup> nat"
  co_tasks :: "nat \<rightharpoonup> co_phase"

definition co_empty :: coordinator where
  "co_empty = \<lparr>co_locks = [], co_holders = [], co_objects = 0, co_owner = Map.empty, co_tasks = Map.empty\<rparr>"

text \<open>The first guarded section: \<open>setdefault\<close> builds a lock object in any case and keeps the one already there.\<close>

definition co_enter :: "coordinator \<Rightarrow> nat \<Rightarrow> run_id \<Rightarrow> coordinator" where
  "co_enter s t r =
     (let l = or_else (dict_get (co_locks s) r) (co_objects s) in
      s\<lparr>co_locks := (case dict_get (co_locks s) r of None \<Rightarrow> dict_set r l (co_locks s) | Some _ \<Rightarrow> co_locks s),
        co_holders := dict_set r (or_else (dict_get (co_holders s) r) 0 + 1) (co_holders s),
        co_objects := co_objects s + 1,
        co_tasks := (co_tasks s)(t \<mapsto> Waiting r l)\<rparr>)"

text \<open>\<open>async with lock\<close>: possible when nobody owns the object.\<close>

definition co_acquire :: "coordinator \<Rightarrow> nat \<Rightarrow> coordinator option" where
  "co_acquire s t =
     (case co_tasks s t of
        Some (Waiting r l) \<Rightarrow>
          if co_owner s l = None
          then Some (s\<lparr>co_owner := (co_owner s)(l \<mapsto> t), co_tasks := (co_tasks s)(t \<mapsto> Inside r l)\<rparr>)
          else None
      | _ \<Rightarrow> None)"

definition co_release :: "coordinator \<Rightarrow> nat \<Rightarrow> coordinator option" where
  "co_release s t =
     (case co_tasks s t of
        Some (Inside r l) \<Rightarrow>
          Some (s\<lparr>co_owner := (co_owner s)(l := None), co_tasks := (co_tasks s)(t \<mapsto> Leaving r l)\<rparr>)
      | _ \<Rightarrow> None)"

definition co_cancel :: "coordinator \<Rightarrow> nat \<Rightarrow> coordinator option" where
  "co_cancel s t =
     (case co_tasks s t of
        Some (Waiting r l) \<Rightarrow> Some (s\<lparr>co_tasks := (co_tasks s)(t \<mapsto> Leaving r l)\<rparr>)
      | _ \<Rightarrow> None)"

text \<open>The second guarded section. \<open>self._holders[run_id]\<close> would raise on a missing key: no step then.\<close>

definition co_leave :: "coordinator \<Rightarrow> nat \<Rightarrow> coordinator option" where
  "co_leave s t =
     (case co_tasks s t of
        Some (Leaving r l) \<Rightarrow>
          (case dict_get (co_holders s) r of
             None \<Rightarrow> None
           | Some n \<Rightarrow>
               let remaining = n - 1; s1 = s\<lparr>co_tasks := (co_tasks s)(t := None)\<rparr> in
               Some (if remaining \<le> 0
                     then s1\<lparr>co_holders := dict_pop r (co_holders s), co_locks := dict_pop r (co_locks s)\<rparr>
                     else s1\<lparr>co_holders := dict_set r remaining (co_holders s)\<rparr>))
      | _ \<Rightarrow> None)"

inductive co_step :: "coordinator \<Rightarrow> coordinator \<Rightarrow> bool" where
  enter: "co_tasks s t = None \<Longrightarrow> co_step s (co_enter s t r)"
| acquire: "co_acquire s t = Some s' \<Longrightarrow> co_step s s'"
| release: "co_release s t = Some s' \<Longrightarrow> co_step s s'"
| cancel: "co_cancel s t = Some s' \<Longrightarrow> co_step s s'"
| leave: "co_leave s t = Some s' \<Longrightarrow> co_step s s'"

inductive co_reachable :: "coordinator \<Rightarrow> bool" where
  fresh: "co_reachable co_empty"
| step: "co_reachable s \<Longrightarrow> co_step s s' \<Longrightarrow> co_reachable s'"

section \<open>Invariant\<close>

definition co_users :: "coordinator \<Rightarrow> run_id \<Rightarrow> nat set" where
  "co_users s r = {t. \<exists>p. co_tasks s t = Some p \<and> phase_run p = r}"

definition co_inv :: "coordinator \<Rightarrow> bool" where
  "co_inv s \<longleftrightarrow> finite (dom (co_tasks s))
     \<and> (\<forall>t p. co_tasks s t = Some p \<longrightarrow> dict_get (co_locks s) (phase_run p) = Some (phase_lock p))
     \<and> (\<forall>r. dict_get (co_holders s) r = (if co_users s r = {} then None else Some (int (card (co_users s r)))))
     \<and> (\<forall>r. dict_get (co_locks s) r = None \<longleftrightarrow> co_users s r = {})
     \<and> (\<forall>r l. dict_get (co_locks s) r = Some l \<longrightarrow> l < co_objects s)
     \<and> (\<forall>r r' l. dict_get (co_locks s) r = Some l \<longrightarrow> dict_get (co_locks s) r' = Some l \<longrightarrow> r = r')
     \<and> (\<forall>l t. co_owner s l = Some t \<longleftrightarrow> (\<exists>r. co_tasks s t = Some (Inside r l)))"

lemma co_users_finite: "finite (dom (co_tasks s)) \<Longrightarrow> finite (co_users s r)"
  by (rule finite_subset [of _ "dom (co_tasks s)"]) (auto simp: co_users_def)

lemma co_users_simps [simp]:
  "co_users (s\<lparr>co_owner := oo\<rparr>) r = co_users s r"
  "co_users (s\<lparr>co_locks := ll\<rparr>) r = co_users s r"
  "co_users (s\<lparr>co_holders := hh\<rparr>) r = co_users s r"
  "co_users (s\<lparr>co_objects := n\<rparr>) r = co_users s r"
  by (simp_all add: co_users_def)

lemma co_users_upd:
  "co_users (s\<lparr>co_tasks := (co_tasks s)(t \<mapsto> p)\<rparr>) r =
     (if phase_run p = r then insert t (co_users s r) else co_users s r - {t})"
  by (auto simp: co_users_def)

lemma co_users_del: "co_users (s\<lparr>co_tasks := (co_tasks s)(t := None)\<rparr>) r = co_users s r - {t}"
  by (auto simp: co_users_def)

lemma co_users_mem: "co_tasks s t = Some p \<Longrightarrow> t \<in> co_users s r \<longleftrightarrow> phase_run p = r"
  by (auto simp: co_users_def)

text \<open>A step that changes only the phase of a task keeps everything but the ownership.\<close>

lemma co_users_phase:
  assumes "co_tasks s t = Some p" and "phase_run p' = phase_run p"
  shows "co_users (s\<lparr>co_tasks := (co_tasks s)(t \<mapsto> p')\<rparr>) r = co_users s r"
  using assms by (auto simp: co_users_def)

lemma co_inv_empty: "co_inv co_empty"
  by (simp add: co_inv_def co_empty_def co_users_def)

lemma co_inv_phase:
  assumes inv: "co_inv s" and t: "co_tasks s t = Some p" and p: "phase_run p' = phase_run p" "phase_lock p' = phase_lock p"
    and own: "\<forall>l u. oo l = Some u \<longleftrightarrow> (\<exists>r. ((co_tasks s)(t \<mapsto> p')) u = Some (Inside r l))"
  shows "co_inv (s\<lparr>co_owner := oo, co_tasks := (co_tasks s)(t \<mapsto> p')\<rparr>)"
proof -
  have users: "co_users (s\<lparr>co_owner := oo, co_tasks := (co_tasks s)(t \<mapsto> p')\<rparr>) r = co_users s r" for r
    using t p(1) by (auto simp: co_users_def)
  have locks: "dict_get (co_locks s) (phase_run q) = Some (phase_lock q)" if "((co_tasks s)(t \<mapsto> p')) u = Some q" for u q
    using inv t p that by (auto simp: co_inv_def split: if_splits)
  show ?thesis unfolding co_inv_def users using inv own locks by (simp add: co_inv_def)
qed

lemma co_inv_acquire:
  assumes "co_inv s" and "co_acquire s t = Some s'"
  shows "co_inv s'"
proof -
  from assms(2) obtain r l where t: "co_tasks s t = Some (Waiting r l)" "co_owner s l = None"
    and s': "s' = s\<lparr>co_owner := (co_owner s)(l \<mapsto> t), co_tasks := (co_tasks s)(t \<mapsto> Inside r l)\<rparr>"
    by (auto simp: co_acquire_def split: option.splits co_phase.splits if_splits)
  have own: "co_owner s k = Some u \<longleftrightarrow> (\<exists>r. co_tasks s u = Some (Inside r k))" for k u
    using assms(1) by (simp add: co_inv_def)
  have "co_tasks s u \<noteq> Some (Inside q l)" for u q using own [of l u] t(2) by auto
  then show ?thesis unfolding s'
    by (intro co_inv_phase [OF assms(1) t(1)]) (use own t in \<open>auto split: if_splits\<close>)
qed

lemma co_inv_release:
  assumes "co_inv s" and "co_release s t = Some s'"
  shows "co_inv s'"
proof -
  from assms(2) obtain r l where t: "co_tasks s t = Some (Inside r l)"
    and s': "s' = s\<lparr>co_owner := (co_owner s)(l := None), co_tasks := (co_tasks s)(t \<mapsto> Leaving r l)\<rparr>"
    by (auto simp: co_release_def split: option.splits co_phase.splits)
  have own: "co_owner s k = Some u \<longleftrightarrow> (\<exists>r. co_tasks s u = Some (Inside r k))" for k u
    using assms(1) by (simp add: co_inv_def)
  have "co_owner s l = Some t" using own t by auto
  then have only: "co_tasks s u = Some (Inside q l) \<Longrightarrow> u = t" for u q using own [of l u] by auto
  have "((co_owner s)(l := None)) k = Some u \<longleftrightarrow> (\<exists>q. ((co_tasks s)(t \<mapsto> Leaving r l)) u = Some (Inside q k))" for k u
  proof (cases "k = l")
    case True
    then show ?thesis using only [of u] by auto
  next
    case False
    then show ?thesis using own [of k u] t by auto
  qed
  then show ?thesis unfolding s' by (intro co_inv_phase [OF assms(1) t(1)]) simp_all
qed

lemma co_inv_cancel:
  assumes "co_inv s" and "co_cancel s t = Some s'"
  shows "co_inv s'"
proof -
  from assms(2) obtain r l where t: "co_tasks s t = Some (Waiting r l)"
    and s': "s' = s\<lparr>co_tasks := (co_tasks s)(t \<mapsto> Leaving r l)\<rparr>"
    by (auto simp: co_cancel_def split: option.splits co_phase.splits)
  have "co_inv (s\<lparr>co_owner := co_owner s, co_tasks := (co_tasks s)(t \<mapsto> Leaving r l)\<rparr>)"
    by (rule co_inv_phase [OF assms(1) t(1)]) (use assms(1) t in \<open>auto simp: co_inv_def\<close>)
  then show ?thesis unfolding s' by simp
qed

lemma co_inv_enter:
  assumes inv: "co_inv s" and t: "co_tasks s t = None"
  shows "co_inv (co_enter s t r)"
proof -
  define l where "l = or_else (dict_get (co_locks s) r) (co_objects s)"
  define s' where "s' = co_enter s t r"
  have fin: "finite (co_users s r')" for r' using inv by (simp add: co_inv_def co_users_finite)
  have new: "t \<notin> co_users s r'" for r' using t by (simp add: co_users_def)
  have users: "co_users s' r' = (if r' = r then insert t (co_users s r) else co_users s r')" for r'
    using t by (auto simp: s'_def co_enter_def Let_def co_users_def)
  have locks: "dict_get (co_locks s') k = (if k = r then Some l else dict_get (co_locks s) k)" for k
    by (auto simp: s'_def co_enter_def Let_def l_def split: option.splits)
  have rest: "co_owner s' = co_owner s" "co_tasks s' = (co_tasks s)(t \<mapsto> Waiting r l)" "co_objects s' = co_objects s + 1"
    "co_holders s' = dict_set r (or_else (dict_get (co_holders s) r) 0 + 1) (co_holders s)"
    by (simp_all add: s'_def co_enter_def Let_def l_def)
  have inj: "k = k'" if "dict_get (co_locks s') k = Some m" "dict_get (co_locks s') k' = Some m" for k k' m
    using that inv by (fastforce simp: locks l_def co_inv_def or_else_case split: if_splits option.splits)
  have kept: "dict_get (co_locks s') (phase_run p) = Some (phase_lock p)" if "co_tasks s' u = Some p" for u p
  proof (cases "u = t")
    case True
    then show ?thesis using that by (auto simp: locks rest)
  next
    case False
    then have "dict_get (co_locks s) (phase_run p) = Some (phase_lock p)" using that inv by (simp add: rest co_inv_def)
    then show ?thesis by (auto simp: locks l_def)
  qed
  have held: "dict_get (co_holders s') k = (if co_users s' k = {} then None else Some (int (card (co_users s' k))))" for k
    using inv fin new by (simp add: users rest co_inv_def card_insert_if)
  have "(dict_get (co_locks s') k = None) = (co_users s' k = {})" for k
    using inv by (simp add: locks users co_inv_def)
  moreover have "dict_get (co_locks s') k = Some m \<Longrightarrow> m < co_objects s'" for k m
    using inv by (fastforce simp: locks rest l_def co_inv_def or_else_case split: if_splits option.splits)
  moreover have "co_owner s' k = Some u \<longleftrightarrow> (\<exists>r. co_tasks s' u = Some (Inside r k))" for k u
    using inv t by (auto simp: rest co_inv_def)
  moreover have "finite (dom (co_tasks s'))" using inv by (simp add: rest co_inv_def)
  ultimately have "co_inv s'" unfolding co_inv_def using inj kept held by blast
  then show ?thesis by (simp add: s'_def)
qed

lemma co_inv_leave:
  assumes inv: "co_inv s" and leave: "co_leave s t = Some s'"
  shows "co_inv s'"
proof -
  from leave obtain r l n where t: "co_tasks s t = Some (Leaving r l)" and n: "dict_get (co_holders s) r = Some n"
    by (auto simp: co_leave_def split: option.splits co_phase.splits)
  have fin: "finite (co_users s r')" for r' using inv by (simp add: co_inv_def co_users_finite)
  have mem: "t \<in> co_users s k \<longleftrightarrow> k = r" for k using t by (auto simp: co_users_def)
  have card: "n = int (card (co_users s r))" using inv n by (auto simp: co_inv_def split: if_splits)
  have pos: "0 < card (co_users s r)" using mem fin card_gt_0_iff by blast
  then have left: "n - 1 = int (card (co_users s r - {t}))" using mem fin by (simp add: card of_nat_diff)
  then have alone: "n - 1 \<le> 0 \<longleftrightarrow> co_users s r - {t} = {}" using fin by simp
  have users: "co_users s' k = (if k = r then co_users s r - {t} else co_users s k)" for k
    using leave t n by (auto simp: co_leave_def Let_def co_users_def split: if_splits)
  have rest: "co_owner s' = co_owner s" "co_tasks s' = (co_tasks s)(t := None)" "co_objects s' = co_objects s"
    using leave t n by (auto simp: co_leave_def Let_def split: if_splits)
  have dicts: "dict_get (co_locks s') k = (if k = r \<and> n - 1 \<le> 0 then None else dict_get (co_locks s) k)"
    "dict_get (co_holders s') k = (if k = r then (if n - 1 \<le> 0 then None else Some (n - 1)) else dict_get (co_holders s) k)" for k
    using leave t n by (auto simp: co_leave_def Let_def split: if_splits)
  have held: "dict_get (co_holders s') k = (if co_users s' k = {} then None else Some (int (card (co_users s' k))))" for k
  proof (cases "k = r")
    case True
    then show ?thesis unfolding dicts users alone using left by simp
  next
    case False
    then show ?thesis using inv by (simp add: dicts users co_inv_def)
  qed
  have "dict_get (co_locks s') (phase_run p) = Some (phase_lock p)" if "co_tasks s' u = Some p" for u p
  proof -
    have u: "u \<noteq> t" "co_tasks s u = Some p" using that by (auto simp: rest split: if_splits)
    then have "phase_run p = r \<Longrightarrow> u \<in> co_users s r - {t}" by (auto simp: co_users_def)
    moreover have "dict_get (co_locks s) (phase_run p) = Some (phase_lock p)" using inv u by (simp add: co_inv_def)
    ultimately show ?thesis unfolding dicts alone by auto
  qed
  moreover have "(dict_get (co_locks s') k = None) = (co_users s' k = {})" for k
  proof (cases "k = r")
    case True
    have "co_users s r \<noteq> {}" using mem by auto
    then have "dict_get (co_locks s) r \<noteq> None" using inv unfolding co_inv_def by blast
    with True show ?thesis unfolding dicts users alone by auto
  next
    case False
    then show ?thesis using inv by (simp add: dicts users co_inv_def)
  qed
  moreover have "dict_get (co_locks s') k = Some m \<Longrightarrow> m < co_objects s'" for k m
    using inv by (auto simp: dicts rest co_inv_def split: if_splits)
  moreover have "dict_get (co_locks s') k = Some m \<Longrightarrow> dict_get (co_locks s') k' = Some m \<Longrightarrow> k = k'" for k k' m
    using inv by (auto simp: dicts co_inv_def split: if_splits)
  moreover have "co_owner s' k = Some u \<longleftrightarrow> (\<exists>r. co_tasks s' u = Some (Inside r k))" for k u
    using inv t by (auto simp: rest co_inv_def)
  moreover have "finite (dom (co_tasks s'))" using inv by (simp add: rest co_inv_def)
  ultimately show ?thesis unfolding co_inv_def using held by blast
qed

lemma co_step_inv:
  assumes "co_step s s'" and "co_inv s"
  shows "co_inv s'"
  using assms
proof cases
  case (enter t r)
  then show ?thesis using co_inv_enter [OF assms(2)] by simp
next
  case (acquire t)
  then show ?thesis by (rule co_inv_acquire [OF assms(2)])
next
  case (release t)
  then show ?thesis by (rule co_inv_release [OF assms(2)])
next
  case (cancel t)
  then show ?thesis by (rule co_inv_cancel [OF assms(2)])
next
  case (leave t)
  then show ?thesis by (rule co_inv_leave [OF assms(2)])
qed

lemma co_reachable_inv: "co_reachable s \<Longrightarrow> co_inv s"
  by (induction rule: co_reachable.induct) (rule co_inv_empty, rule co_step_inv)

lemma co_exclusive:
  assumes "co_inv s" and "co_tasks s t = Some (Inside r l)" and "co_tasks s u = Some (Inside r m)"
  shows "t = u"
proof -
  have locks: "dict_get (co_locks s) (phase_run p) = Some (phase_lock p)" if "co_tasks s v = Some p" for v p
    using assms(1) that by (simp add: co_inv_def)
  have own: "co_owner s k = Some v" if "co_tasks s v = Some (Inside q k)" for k v q
    using assms(1) that by (auto simp: co_inv_def)
  have "l = m" using locks [OF assms(2)] locks [OF assms(3)] by simp
  then have "co_owner s l = Some t" "co_owner s l = Some u" using own [OF assms(2)] own [OF assms(3)] by simp_all
  then show ?thesis by simp
qed

section \<open>Properties\<close>

text \<open>
  C24. The coordinator serialises the work on a run. In every state it can reach, with any number of tasks entering, waiting, being
  cancelled and leaving in any order, at most one task is inside the section of a run; a task that waits can
  either proceed at once or another one is inside the section of the very same run, so that no lock is lost and runs do not
  block each other; leaving never raises; and a lock object is kept exactly for the runs somebody uses, so
  that nothing is left behind for finished runs.
\<close>

theorem run_sections_exclude:
  assumes "co_reachable s"
  shows "(\<forall>t u r l m. co_tasks s t = Some (Inside r l) \<and> co_tasks s u = Some (Inside r m) \<longrightarrow> t = u)
    \<and> (\<forall>t r l. co_tasks s t = Some (Waiting r l) \<longrightarrow>
         co_acquire s t \<noteq> None \<or> (\<exists>u. u \<noteq> t \<and> co_tasks s u = Some (Inside r l)))
    \<and> (\<forall>t r l. co_tasks s t = Some (Leaving r l) \<longrightarrow> co_leave s t \<noteq> None)
    \<and> (\<forall>r. dict_get (co_locks s) r \<noteq> None \<longleftrightarrow> (\<exists>t p. co_tasks s t = Some p \<and> phase_run p = r))"
proof -
  note inv = co_reachable_inv [OF assms]
  have wait: "co_acquire s t \<noteq> None \<or> (\<exists>u. u \<noteq> t \<and> co_tasks s u = Some (Inside r l))"
    if t: "co_tasks s t = Some (Waiting r l)" for t r l
  proof (cases "co_owner s l")
    case None
    with t show ?thesis by (simp add: co_acquire_def)
  next
    case (Some u)
    then obtain r' where u: "co_tasks s u = Some (Inside r' l)" using inv by (auto simp: co_inv_def)
    have "dict_get (co_locks s) r = Some l" "dict_get (co_locks s) r' = Some l"
      using inv t u unfolding co_inv_def by (metis co_phase.sel)+
    then have "r' = r" using inv unfolding co_inv_def by blast
    then show ?thesis using u t by (intro disjI2 exI [of _ u]) auto
  qed
  have leave: "co_leave s t \<noteq> None" if t: "co_tasks s t = Some (Leaving r l)" for t r l
  proof -
    have "t \<in> co_users s r" using t by (auto simp: co_users_def)
    then have "dict_get (co_holders s) r \<noteq> None" using inv by (auto simp: co_inv_def)
    with t show ?thesis by (auto simp: co_leave_def Let_def)
  qed
  have locks: "dict_get (co_locks s) r \<noteq> None \<longleftrightarrow> (\<exists>t p. co_tasks s t = Some p \<and> phase_run p = r)" for r
    using inv by (auto simp: co_inv_def co_users_def)
  show ?thesis using co_exclusive [OF inv] wait leave locks by blast
qed

definition demo_contended :: coordinator where
  "demo_contended = (case co_acquire (co_enter (co_enter co_empty 1 (RunId 7)) 2 (RunId 7)) 1 of None \<Rightarrow> co_empty | Some s \<Rightarrow> s)"

theorem run_sections_exclude_witness:
  "co_tasks demo_contended 1 = Some (Inside (RunId 7) 0) \<and> co_tasks demo_contended 2 = Some (Waiting (RunId 7) 0)
   \<and> co_acquire demo_contended 2 = None \<and> dict_get (co_locks demo_contended) (RunId 7) \<noteq> None"
proof -
  let ?s = "co_enter (co_enter co_empty 1 (RunId 7)) 2 (RunId 7)"
  have a: "co_acquire ?s 1 = Some demo_contended"
    by (simp add: demo_contended_def co_enter_def co_empty_def co_acquire_def Let_def)
  have "co_reachable (co_enter co_empty 1 (RunId 7))"
    by (rule co_reachable.step [OF co_reachable.fresh co_step.enter]) (simp add: co_empty_def)
  then have "co_reachable ?s"
    by (rule co_reachable.step [OF _ co_step.enter]) (simp add: co_empty_def co_enter_def Let_def)
  then have r: "co_reachable demo_contended"
    by (rule co_reachable.step [OF _ co_step.acquire [OF a]])
  have t: "co_tasks demo_contended 1 = Some (Inside (RunId 7) 0)" "co_tasks demo_contended 2 = Some (Waiting (RunId 7) 0)"
    "co_acquire demo_contended 2 = None"
    by (simp_all add: demo_contended_def co_enter_def co_empty_def co_acquire_def Let_def)
  have "dict_get (co_locks demo_contended) (RunId 7) \<noteq> None
      \<longleftrightarrow> (\<exists>t p. co_tasks demo_contended t = Some p \<and> phase_run p = RunId 7)"
    using run_sections_exclude [OF r] by blast
  moreover have "phase_run (Inside (RunId 7) 0) = RunId 7" by simp
  ultimately have "dict_get (co_locks demo_contended) (RunId 7) \<noteq> None" using t(1) by blast
  with t show ?thesis by simp
qed

end
