(* ===== verification/Executor.thy ===== *)
theory Executor
  imports Execution Progress
begin

text \<open>
  The execution loop (\<open>src/src/application/orchestration/executor.py\<close>): a semaphore bounds the jobs in flight, each job runs beside
  a task that renews its lease, and stopping lets the accepted jobs finish. The queue's side of the renewal is stated over a locale that
  extends the contract of the port.
\<close>

section \<open>Configuration\<close>

record executor_config =
  xc_concurrency :: int
  xc_lease_duration :: duration
  xc_poll_interval :: duration
  xc_idle_backoff :: duration

definition mk_executor_config :: "executor_config \<Rightarrow> error + executor_config" where
  "mk_executor_config c =
     (if xc_concurrency c < 1 then Inl (ValueError ''concurrency must be at least 1'') else Inr c)"

definition default_executor_config :: executor_config where
  "default_executor_config = \<lparr>xc_concurrency = 8, xc_lease_duration = seconds 120, xc_poll_interval = seconds 1,
     xc_idle_backoff = seconds 2\<rparr>"

text \<open>Division of a \<open>timedelta\<close> rounds to the nearest microsecond; a third is never half-way.\<close>

definition renew_interval :: "executor_config \<Rightarrow> duration" where
  "renew_interval c = (xc_lease_duration c + 1) div 3"

text \<open>Two intervals fit into a lease: one renewal may be missed.\<close>

lemma renew_interval_leaves_slack: "3 \<le> xc_lease_duration c \<Longrightarrow> 2 * renew_interval c < xc_lease_duration c"
  unfolding renew_interval_def by presburger

section \<open>The loop\<close>

datatype loop_phase = Stopped | Checking | Acquiring | Claiming | Backing_Off | Draining

record running =
  rn_job :: job
  rn_lease :: lease
  rn_renewing :: bool

text \<open>
  \<open>x_tasks\<close> are the tasks of \<open>_spawn\<close>, \<open>x_once\<close> the jobs of \<open>run_once\<close> calls and \<open>x_once_claiming\<close> the number of such calls between
  their permit and their claim.
\<close>

record executor =
  x_config :: executor_config
  x_id :: worker_id
  x_job_types :: "job_type list"
  x_permits :: nat
  x_tasks :: "running list"
  x_once :: "running list"
  x_once_claiming :: nat
  x_stopping :: bool
  x_phase :: loop_phase

definition ALL_JOB_TYPES :: "job_type list" where
  "ALL_JOB_TYPES = [PLAN, CODE, REVIEW, LLM_INFERENCE, BUILD, TEST, STATIC_ANALYSIS, PATCH_APPLY]"

definition new_executor :: "executor_config \<Rightarrow> worker_id \<Rightarrow> job_type list \<Rightarrow> executor" where
  "new_executor c i types = \<lparr>x_config = c, x_id = i, x_job_types = types, x_permits = nat (xc_concurrency c), x_tasks = [],
     x_once = [], x_once_claiming = 0, x_stopping = False, x_phase = Stopped\<rparr>"

definition in_flight :: "executor \<Rightarrow> int" where
  "in_flight x = int (length (x_tasks x))"

definition claim_one :: "executor \<Rightarrow> memq \<Rightarrow> moment \<Rightarrow> lease_token \<Rightarrow> (memq, (job \<times> lease) option) result" where
  "claim_one x q now fresh = memq_claim q (x_id x) (x_job_types x) (xc_lease_duration (x_config x)) now fresh"

definition started :: "job \<times> lease \<Rightarrow> running" where
  "started c = \<lparr>rn_job = fst c, rn_lease = snd c, rn_renewing = True\<rparr>"

text \<open>One turn of the loop around its claim; a claim that raises is logged and treated as an empty queue.\<close>

definition loop_claim :: "executor \<Rightarrow> memq \<Rightarrow> moment \<Rightarrow> lease_token \<Rightarrow> executor \<times> memq" where
  "loop_claim x q now fresh =
     (case claim_one x q now fresh of
        (q', Inr (Some c)) \<Rightarrow> (x\<lparr>x_tasks := x_tasks x @ [started c], x_phase := Checking\<rparr>, q')
      | (q', _) \<Rightarrow> (x\<lparr>x_permits := x_permits x + 1, x_phase := Backing_Off\<rparr>, q'))"

text \<open>The claim of \<open>run_once\<close>: it gives the permit back when there is nothing to do or the claim raises.\<close>

definition once_claim :: "executor \<Rightarrow> memq \<Rightarrow> moment \<Rightarrow> lease_token \<Rightarrow> executor \<times> memq \<times> (error + bool)" where
  "once_claim x q now fresh =
     (let x1 = x\<lparr>x_once_claiming := x_once_claiming x - 1\<rparr> in
      case claim_one x q now fresh of
        (q', Inl e) \<Rightarrow> (x1\<lparr>x_permits := x_permits x + 1\<rparr>, q', Inl e)
      | (q', Inr None) \<Rightarrow> (x1\<lparr>x_permits := x_permits x + 1\<rparr>, q', Inr False)
      | (q', Inr (Some c)) \<Rightarrow> (x1\<lparr>x_once := x_once x @ [started c]\<rparr>, q', Inr True))"

text \<open>One round of \<open>_renew\<close>: a lost lease ends the companion task, anything else leaves it going.\<close>

definition renew_tick :: "executor_config \<Rightarrow> running \<Rightarrow> memq \<Rightarrow> moment \<Rightarrow> running \<times> memq" where
  "renew_tick c rn q now =
     (case memq_renew q (j_id (rn_job rn)) (l_token (rn_lease rn)) (xc_lease_duration c) now of
        (q', Inl (JobLeaseExpiredError _ _)) \<Rightarrow> (rn\<lparr>rn_renewing := False\<rparr>, q')
      | (q', _) \<Rightarrow> (rn, q'))"

definition drop_nth :: "nat \<Rightarrow> 'a list \<Rightarrow> 'a list" where
  "drop_nth i xs = take i xs @ drop (Suc i) xs"

lemma length_drop_nth [simp]: "i < length xs \<Longrightarrow> length (drop_nth i xs) = length xs - 1"
  by (simp add: drop_nth_def)

text \<open>
  The steps between suspension points. The rest of the system may change the world at any time; a job's execution takes effect when it
  ends, with the clock read then, and whatever it raises stays in its task. The cancellation of the task that runs the loop is not a step: between
  taking a permit and starting a task it would lose the permit.
\<close>

datatype ex_label =
    L_Start | L_Check | L_Permit | L_Spawn | L_Idle | L_Wake | L_Finish | L_Renew | L_Stop | L_Drained | L_Once | L_Elsewhere

inductive ex_step ::
  "services \<Rightarrow> workspaces \<Rightarrow> orchestrator_config \<Rightarrow> retry_policy \<Rightarrow> executor \<times> world \<Rightarrow> ex_label \<Rightarrow> executor \<times> world \<Rightarrow> bool"
  for sv ws cfg policy where
  boot: "x_phase x = Stopped \<Longrightarrow>
    ex_step sv ws cfg policy (x, w) L_Start (x\<lparr>x_stopping := False, x_phase := Checking\<rparr>, w)"
| check: "x_phase x = Checking \<Longrightarrow>
    ex_step sv ws cfg policy (x, w) L_Check (x\<lparr>x_phase := (if x_stopping x then Draining else Acquiring)\<rparr>, w)"
| permit: "x_phase x = Acquiring \<Longrightarrow> 0 < x_permits x \<Longrightarrow>
    ex_step sv ws cfg policy (x, w) L_Permit (x\<lparr>x_permits := x_permits x - 1, x_phase := Claiming\<rparr>, w)"
| claim: "x_phase x = Claiming \<Longrightarrow> loop_claim x (w_queue w) now tok = (x', q') \<Longrightarrow>
    ex_step sv ws cfg policy (x, w) (if x_phase x' = Checking then L_Spawn else L_Idle) (x', w\<lparr>w_queue := q'\<rparr>)"
| wake: "x_phase x = Backing_Off \<Longrightarrow> ex_step sv ws cfg policy (x, w) L_Wake (x\<lparr>x_phase := Checking\<rparr>, w)"
| finish: "i < length (x_tasks x) \<Longrightarrow> rn = x_tasks x ! i \<Longrightarrow>
    ex_step sv ws cfg policy (x, w) L_Finish
      (x\<lparr>x_tasks := drop_nth i (x_tasks x), x_permits := x_permits x + 1\<rparr>,
       fst (execute sv ws cfg policy w (rn_job rn) (rn_lease rn) now))"
| renew: "i < length (x_tasks x) \<Longrightarrow> rn_renewing (x_tasks x ! i) \<Longrightarrow>
    renew_tick (x_config x) (x_tasks x ! i) (w_queue w) now = (rn, q') \<Longrightarrow>
    ex_step sv ws cfg policy (x, w) L_Renew (x\<lparr>x_tasks := (x_tasks x)[i := rn]\<rparr>, w\<lparr>w_queue := q'\<rparr>)"
| stop: "ex_step sv ws cfg policy (x, w) L_Stop (x\<lparr>x_stopping := True\<rparr>, w)"
| drained: "x_phase x = Draining \<Longrightarrow> x_tasks x = [] \<Longrightarrow>
    ex_step sv ws cfg policy (x, w) L_Drained (x\<lparr>x_phase := Stopped\<rparr>, w)"
| once_permit: "0 < x_permits x \<Longrightarrow>
    ex_step sv ws cfg policy (x, w) L_Once
      (x\<lparr>x_permits := x_permits x - 1, x_once_claiming := x_once_claiming x + 1\<rparr>, w)"
| once_claim: "0 < x_once_claiming x \<Longrightarrow> once_claim x (w_queue w) now tok = (x', q', res) \<Longrightarrow>
    ex_step sv ws cfg policy (x, w) L_Once (x', w\<lparr>w_queue := q'\<rparr>)"
| once_finish: "i < length (x_once x) \<Longrightarrow> rn = x_once x ! i \<Longrightarrow>
    ex_step sv ws cfg policy (x, w) L_Once
      (x\<lparr>x_once := drop_nth i (x_once x), x_permits := x_permits x + 1\<rparr>,
       fst (execute sv ws cfg policy w (rn_job rn) (rn_lease rn) now))"
| once_renew: "i < length (x_once x) \<Longrightarrow> rn_renewing (x_once x ! i) \<Longrightarrow>
    renew_tick (x_config x) (x_once x ! i) (w_queue w) now = (rn, q') \<Longrightarrow>
    ex_step sv ws cfg policy (x, w) L_Once (x\<lparr>x_once := (x_once x)[i := rn]\<rparr>, w\<lparr>w_queue := q'\<rparr>)"
| elsewhere: "ex_step sv ws cfg policy (x, w) L_Elsewhere (x, w')"

inductive ex_run ::
  "services \<Rightarrow> workspaces \<Rightarrow> orchestrator_config \<Rightarrow> retry_policy \<Rightarrow> executor \<times> world \<Rightarrow> ex_label list \<Rightarrow> executor \<times> world \<Rightarrow> bool"
  for sv ws cfg policy where
  none: "ex_run sv ws cfg policy s [] s"
| more_steps: "ex_step sv ws cfg policy s l s' \<Longrightarrow> ex_run sv ws cfg policy s' ls s'' \<Longrightarrow> ex_run sv ws cfg policy s (l # ls) s''"

section \<open>Permits\<close>

definition permits_held :: "executor \<Rightarrow> nat" where
  "permits_held x = length (x_tasks x) + length (x_once x) + x_once_claiming x + (if x_phase x = Claiming then 1 else 0)"

definition ex_inv :: "executor \<Rightarrow> bool" where
  "ex_inv x \<longleftrightarrow> x_permits x + permits_held x = nat (xc_concurrency (x_config x)) \<and> (x_phase x = Stopped \<longrightarrow> x_tasks x = [])"

lemma loop_claim_effect:
  assumes "loop_claim x q now tok = (x', q')"
  shows "x_config x' = x_config x" and "x_once x' = x_once x" and "x_once_claiming x' = x_once_claiming x"
    and "x_stopping x' = x_stopping x"
    and "(x_phase x' = Checking \<and> x_permits x' = x_permits x \<and> length (x_tasks x') = length (x_tasks x) + 1)
       \<or> (x_phase x' = Backing_Off \<and> x_permits x' = x_permits x + 1 \<and> x_tasks x' = x_tasks x)"
  using assms by (auto simp: loop_claim_def split: prod.splits sum.splits option.splits)

lemma once_claim_effect:
  assumes "once_claim x q now tok = (x', q', res)"
  shows "x_config x' = x_config x" and "x_tasks x' = x_tasks x" and "x_once_claiming x' = x_once_claiming x - 1"
    and "x_stopping x' = x_stopping x" and "x_phase x' = x_phase x"
    and "x_permits x' + length (x_once x') = x_permits x + length (x_once x) + 1"
  using assms by (auto simp: once_claim_def Let_def split: prod.splits sum.splits option.splits)

lemma ex_step_inv:
  assumes "ex_step sv ws cfg policy (x, w) l (x', w')" and "ex_inv x"
  shows "ex_inv x' \<and> x_config x' = x_config x"
  using assms
proof cases
  case (claim now tok q')
  then show ?thesis using assms(2) loop_claim_effect [OF claim(4)] by (auto simp: ex_inv_def permits_held_def)
next
  case (once_claim now tok q' res)
  then show ?thesis using assms(2) once_claim_effect [OF once_claim(4)] by (auto simp: ex_inv_def permits_held_def)
qed (use assms(2) in \<open>auto simp: ex_inv_def permits_held_def\<close>)

lemma ex_run_inv:
  assumes "ex_run sv ws cfg policy (x, w) ls (x', w')" and "ex_inv x"
  shows "ex_inv x' \<and> x_config x' = x_config x"
  using assms
proof (induction "(x, w)" ls "(x', w')" arbitrary: x w)
  case (more_steps l s' ls)
  obtain y v where s': "s' = (y, v)" by (cases s')
  with more_steps ex_step_inv have "ex_inv y \<and> x_config y = x_config x" by blast
  with more_steps s' show ?case by auto
qed simp

lemma ex_inv_new: "mk_executor_config c = Inr c' \<Longrightarrow> ex_inv (new_executor c' i types)"
  by (simp add: ex_inv_def permits_held_def new_executor_def)

text \<open>After \<open>stop\<close>, the loop can take at most the one job it was already about to claim.\<close>

definition claims_left :: "executor \<Rightarrow> nat" where
  "claims_left x = (if x_phase x = Acquiring \<or> x_phase x = Claiming then 1 else 0)"

lemma stopping_step:
  assumes "ex_step sv ws cfg policy (x, w) l (x', w')" and "x_stopping x" and "l \<noteq> L_Start"
  shows "x_stopping x' \<and> (if l = L_Spawn then 1 else 0) + claims_left x' \<le> claims_left x"
  using assms
proof cases
  case (claim now tok q')
  then show ?thesis using assms(2) loop_claim_effect [OF claim(4)] by (auto simp: claims_left_def)
next
  case (once_claim now tok q' res)
  then show ?thesis using assms(2) once_claim_effect [OF once_claim(4)] by (auto simp: claims_left_def)
qed (use assms(2,3) in \<open>auto simp: claims_left_def\<close>)

lemma stopping_run:
  assumes "ex_run sv ws cfg policy (x, w) ls (x', w')" and "x_stopping x" and "L_Start \<notin> set ls"
  shows "count_list ls L_Spawn \<le> claims_left x"
  using assms
proof (induction "(x, w)" ls "(x', w')" arbitrary: x w)
  case (more_steps l s' ls)
  obtain y v where s': "s' = (y, v)" by (cases s')
  have "x_stopping y \<and> (if l = L_Spawn then 1 else 0) + claims_left y \<le> claims_left x"
    by (rule stopping_step) (use more_steps s' in auto)
  with more_steps s' show ?case by fastforce
qed simp

section \<open>Renewal keeps the lease in the queue\<close>

text \<open>What a call makes of a lease it does not end, and when a renewal of it comes in time.\<close>

fun lease_after :: "queue_op \<Rightarrow> job \<Rightarrow> lease \<Rightarrow> lease" where
  "lease_after (Q_Renew k tok dur now) j l =
     (if k = j_id j \<and> tok = l_token l then l\<lparr>l_expires_at := now + dur\<rparr> else l)"
| "lease_after _ j l = l"

fun renewal_in_time :: "queue_op \<Rightarrow> job \<Rightarrow> lease \<Rightarrow> bool" where
  "renewal_in_time (Q_Renew k tok dur now) j l \<longleftrightarrow>
     (k = j_id j \<and> tok = l_token l \<longrightarrow> now < l_expires_at l \<and> l_acquired_at l < now + dur)"
| "renewal_in_time _ j l \<longleftrightarrow> True"

fun timely :: "('q \<Rightarrow> queue_op \<Rightarrow> 'q \<times> queue_reply) \<Rightarrow> ('q \<Rightarrow> queue_op \<Rightarrow> bool) \<Rightarrow> job \<Rightarrow> lease \<Rightarrow> 'q \<Rightarrow> queue_op list \<Rightarrow> bool" where
  "timely step allowed j l q [] \<longleftrightarrow> True"
| "timely step allowed j l q (op # ops) \<longleftrightarrow> allowed q op \<and> \<not> ends_lease op j l \<and> renewal_in_time op j l
     \<and> timely step allowed j (lease_after op j l) (fst (step q op)) ops"

fun lease_final :: "job \<Rightarrow> lease \<Rightarrow> queue_op list \<Rightarrow> lease" where
  "lease_final j l [] = l"
| "lease_final j l (op # ops) = lease_final j (lease_after op j l) ops"

lemma ends_lease_cong: "j_id j = j_id k \<Longrightarrow> j_run_id j = j_run_id k \<Longrightarrow> ends_lease op j l = ends_lease op k l"
  by (cases op) simp_all

lemma lease_final_token [simp]: "l_token (lease_final j l ops) = l_token l"
proof (induction ops arbitrary: l)
  case (Cons op ops)
  then show ?case by (cases op) simp_all
qed simp

locale renewing_queue = job_queue +
  assumes lease_frame: "invar q \<Longrightarrow> allowed q op \<Longrightarrow> stored q i = Some j \<Longrightarrow> j_lease j = Some l \<Longrightarrow>
        \<not> ends_lease op j l \<Longrightarrow>
        \<exists>j' l'. stored (fst (step q op)) i = Some j' \<and> j_lease j' = Some l' \<and> j_run_id j' = j_run_id j
          \<and> (l' = l \<or> (\<exists>dur now. op = Q_Renew i (l_token l) dur now \<and> l' = l\<lparr>l_expires_at := now + dur\<rparr>))"
    and renew_extends: "invar q \<Longrightarrow> stored q i = Some j \<Longrightarrow> j_lease j = Some l \<Longrightarrow> now < l_expires_at l \<Longrightarrow>
        l_acquired_at l < now + dur \<Longrightarrow>
        \<exists>j'. stored (fst (step q (Q_Renew i (l_token l) dur now))) i = Some j'
          \<and> j_lease j' = Some (l\<lparr>l_expires_at := now + dur\<rparr>) \<and> j_run_id j' = j_run_id j"
begin

lemma timely_step:
  assumes "invar q" and "allowed q op" and "stored q (j_id j) = Some s" and "j_lease s = Some l" and "j_run_id s = j_run_id j"
    and "\<not> ends_lease op j l" and "renewal_in_time op j l"
  shows "\<exists>s'. stored (fst (step q op)) (j_id j) = Some s' \<and> j_lease s' = Some (lease_after op j l) \<and> j_run_id s' = j_run_id j"
proof (cases "\<exists>dur now. op = Q_Renew (j_id j) (l_token l) dur now")
  case True
  then obtain dur now where op: "op = Q_Renew (j_id j) (l_token l) dur now" by blast
  then show ?thesis using renew_extends [OF assms(1,3,4), of now dur] assms(5,7) by auto
next
  case False
  then have same: "lease_after op j l = l" by (cases op) auto
  have "j_id s = j_id j" by (rule stored_id [OF assms(1,3)])
  then have "\<not> ends_lease op s l" using assms(6) ends_lease_cong [of s j op l] assms(5) by blast
  then obtain s' l' where "stored (fst (step q op)) (j_id j) = Some s'" "j_lease s' = Some l'" "j_run_id s' = j_run_id s"
      "l' = l \<or> (\<exists>dur now. op = Q_Renew (j_id j) (l_token l) dur now \<and> l' = l\<lparr>l_expires_at := now + dur\<rparr>)"
    using lease_frame [OF assms(1-4)] by blast
  with same False assms(5) show ?thesis by auto
qed

lemma lease_outlives:
  assumes "invar q" and "stored q (j_id j) = Some s" and "j_lease s = Some l" and "j_run_id s = j_run_id j"
    and "timely step allowed j l q ops"
  shows "\<exists>s'. stored (queue_final step q ops) (j_id j) = Some s' \<and> j_lease s' = Some (lease_final j l ops)"
  using assms
proof (induction ops arbitrary: q s l)
  case (Cons op ops)
  have op: "allowed q op" "\<not> ends_lease op j l" "renewal_in_time op j l" using Cons.prems(5) by simp_all
  from timely_step [OF Cons.prems(1) op(1) Cons.prems(2-4) op(2,3)] obtain s' where
    "stored (fst (step q op)) (j_id j) = Some s'" "j_lease s' = Some (lease_after op j l)" "j_run_id s' = j_run_id j"
    by blast
  then show ?case using Cons.IH [OF invar_step [OF Cons.prems(1) op(1)]] Cons.prems(5) by simp
qed simp

end

lemma memq_renew_extends:
  assumes "memq_inv q" and "memq_stored q i = Some j" and "j_lease j = Some l" and "now < l_expires_at l"
    and "l_acquired_at l < now + dur"
  shows "\<exists>j'. memq_stored (fst (memq_step q (Q_Renew i (l_token l) dur now))) i = Some j'
           \<and> j_lease j' = Some (l\<lparr>l_expires_at := now + dur\<rparr>) \<and> j_run_id j' = j_run_id j"
  using assms
  by (auto simp: memq_stored_def memq_renew_def job_renew_lease_def assert_lease_def is_expired_def lease_renewed_def
      mk_lease_def)

interpretation mqr: renewing_queue memq_step memq_stored memq_allowed memq_inv
  by unfold_locales (fact memq_lease_frame, fact memq_renew_extends)

section \<open>A result that comes after the first lease\<close>

definition refused :: "world \<Rightarrow> (world \<times> job, unit) result \<Rightarrow> bool" where
  "refused w r \<longleftrightarrow> (case r of ((w1, job1), Inl e) \<Rightarrow> w_store w1 = w_store w \<and> w_queue w1 = w_queue w | _ \<Rightarrow> False)"

lemma refused_attempt: "(\<And>a. refused w (f a)) \<Longrightarrow> refused w (attempt (w, job) m f)"
  by (cases m) (simp_all add: refused_def)

lemma refused_Inl: "refused w ((w, job), Inl e)"
  by (simp add: refused_def)

lemma refused_finish:
  assumes "j_status job \<noteq> JOB_SUCCEEDED" and "\<not> holds_lease job (l_token l) now"
    and "w_store v = w_store w" and "w_queue v = w_queue w"
  shows "refused w (finish_job v job l now res write before after)"
  using assms assert_lease_Inl [OF assms(2)]
  by (auto simp: refused_def finish_job_def job_complete_def split: prod.splits sum.splits)

lemma expired_dispatch:
  assumes "j_status job \<noteq> JOB_SUCCEEDED" and "\<not> holds_lease job (l_token l) now"
    and "dict_get (s_runs (w_store w)) (j_run_id job) = Some r"
    and "\<not> is_cancelling_or_cancelled (r_status r)" and "\<not> run_is_terminal (r_status r)"
  shows "refused w (dispatch sv ws w job l now)"
proof -
  note chain = refused_attempt refused_Inl refused_finish [OF assms(1,2)]
  have planner: "refused w (run_planner sv ws w job l now)"
    unfolding run_planner_def by (intro chain) simp_all
  have coder: "refused w (run_coder sv ws w job l now)"
    unfolding run_coder_def by (cases "j_candidate_id job") (simp_all add: refused_Inl, intro chain, simp_all)
  have reviewer: "refused w (run_reviewer sv w job l now)"
    unfolding run_reviewer_def Let_def by (cases "j_candidate_id job") (simp_all add: refused_Inl, intro chain, simp_all)
  have validation: "refused w (run_validation_stage sv ws w job l now)"
    unfolding run_validation_stage_def by (cases "j_candidate_id job") (simp_all add: refused_Inl, intro chain, simp_all)
  have "require_run (w_store w) (j_run_id job) = Inr r" using assms(3) by (simp add: require_run_def)
  then show ?thesis
    using assms(4,5) planner coder reviewer validation refused_Inl by (simp add: dispatch_def)
qed

lemma claim_one_grants:
  assumes "memq_inv q" and "0 < xc_lease_duration (x_config x)"
    and "claim_one x q t0 tok = (q1, Inr (Some (job, l)))"
  shows "memq_inv q1" and "j_status job = JOB_LEASED" and "j_lease job = Some l"
    and "l_expires_at l = t0 + xc_lease_duration (x_config x)"
    and "\<exists>s. memq_stored q1 (j_id job) = Some s \<and> j_lease s = Some l \<and> j_run_id s = j_run_id job"
proof -
  let ?d = "xc_lease_duration (x_config x)"
  have inv: "memq_inv (fst (claim_one x q t0 tok))"
    unfolding claim_one_def by (rule memq_claim_inv [OF assms(1,2)])
  with assms(3) show "memq_inv q1" by simp
  have "j_status job = JOB_LEASED \<and> j_lease job = Some l \<and> l_expires_at l = t0 + ?d
      \<and> (\<exists>s. memq_stored q1 (j_id job) = Some s \<and> j_lease s = Some l \<and> j_run_id s = j_run_id job)"
    using assms(1,2)
  proof (cases rule: memq_claim_cases [of q ?d "x_id x" "x_job_types x" t0 tok])
    case idle
    then show ?thesis using assms(3) by (simp add: claim_one_def)
  next
    case (taken s)
    have "j_status s = JOB_QUEUED" using taken(1) by (simp add: claimable_def)
    note ok = job_lease_to_ok [OF this assms(2), of "x_id x" t0 tok]
    show ?thesis using taken(3) assms(3) ok
      by (auto simp: claim_one_def memq_stored_def granted_def)
  qed
  then show "j_status job = JOB_LEASED" "j_lease job = Some l" "l_expires_at l = t0 + ?d"
    "\<exists>s. memq_stored q1 (j_id job) = Some s \<and> j_lease s = Some l \<and> j_run_id s = j_run_id job"
    by simp_all
qed

section \<open>Properties\<close>

text \<open>
  C25. Jobs in flight are bounded. Starting from a fresh executor, whatever the loop, calls of \<open>run_once\<close>, renewals, stops and the rest of
  the system do in any order, permits are neither lost nor invented: at most \<open>concurrency\<close> jobs run at once, a permit is
  free whenever fewer are held, and when the loop has returned no task of it is left.
\<close>

theorem executor_is_bounded:
  assumes "mk_executor_config c = Inr c'"
    and "ex_run sv ws cfg policy (new_executor c' i types, w) ls (x, w')"
  shows "length (x_tasks x) + length (x_once x) \<le> nat (xc_concurrency c)
    \<and> x_permits x + permits_held x = nat (xc_concurrency c) \<and> (x_phase x = Stopped \<longrightarrow> x_tasks x = [])"
proof -
  have "c' = c" using assms(1) by (simp add: mk_executor_config_def split: if_splits)
  moreover have "x_config (new_executor c' i types) = c'" by (simp add: new_executor_def)
  ultimately show ?thesis
    using ex_run_inv [OF assms(2) ex_inv_new [OF assms(1)]] by (auto simp: ex_inv_def permits_held_def)
qed

definition demo_started :: executor where
  "demo_started = (new_executor default_executor_config (WorkerId 9) ALL_JOB_TYPES)\<lparr>x_phase := Claiming, x_permits := 7\<rparr>"

lemma demo_started_run:
  "ex_run sv ws cfg policy (new_executor default_executor_config (WorkerId 9) ALL_JOB_TYPES, w) [L_Start, L_Check, L_Permit]
     (demo_started, w)"
  by (rule ex_run.intros, rule ex_step.boot, simp add: new_executor_def, rule ex_run.intros, rule ex_step.check,
      simp add: new_executor_def, rule ex_run.intros, rule ex_step.permit)
     (simp_all add: new_executor_def demo_started_def default_executor_config_def ex_run.none)

theorem executor_is_bounded_witness:
  "x_permits demo_started + permits_held demo_started = 8 \<and> permits_held demo_started = 1"
  using executor_is_bounded [OF _ demo_started_run, of default_executor_config]
  by (simp add: mk_executor_config_def default_executor_config_def permits_held_def demo_started_def new_executor_def)

text \<open>
  Stopping is prompt: after \<open>stop\<close>, and as long as the loop is not started again, it takes at most one more job, and only if it
  was already past the test of the flag, waiting for a permit or claiming.
\<close>

theorem stop_admits_one_more_job:
  assumes "ex_run sv ws cfg policy (x, w) ls (x', w')" and "x_stopping x" and "L_Start \<notin> set ls"
  shows "count_list ls L_Spawn \<le> (if x_phase x = Acquiring \<or> x_phase x = Claiming then 1 else 0)"
  using stopping_run [OF assms] by (simp add: claims_left_def)

theorem stop_admits_one_more_job_witness:
  "count_list [L_Idle, L_Wake, L_Check] L_Spawn \<le> (if x_phase (demo_started\<lparr>x_stopping := True\<rparr>) = Claiming then 1 else 0)"
proof -
  let ?x = "demo_started\<lparr>x_stopping := True\<rparr>"
  have idle: "loop_claim ?x (w_queue (demo_world demo_stored_run [])) 0 demo_token
      = (?x\<lparr>x_permits := 8, x_phase := Backing_Off\<rparr>, memq_empty)"
    by (simp add: loop_claim_def claim_one_def demo_started_def new_executor_def default_executor_config_def demo_queue_eval
        ALL_JOB_TYPES_def)
  have first: "ex_step sv ws cfg policy (?x, demo_world demo_stored_run []) L_Idle
      (?x\<lparr>x_permits := 8, x_phase := Backing_Off\<rparr>, demo_world demo_stored_run [])" for sv ws cfg policy
    using ex_step.claim [OF _ idle, of sv ws cfg policy] by (simp add: demo_started_def)
  have "ex_run sv ws cfg policy (?x, demo_world demo_stored_run []) [L_Idle, L_Wake, L_Check]
      (?x\<lparr>x_permits := 8, x_phase := Draining\<rparr>, demo_world demo_stored_run [])" for sv ws cfg policy
    by (rule ex_run.intros, rule first, rule ex_run.intros, rule ex_step.wake, simp, rule ex_run.intros, rule ex_step.check)
       (simp_all add: ex_run.none)
  from stop_admits_one_more_job [OF this] show ?thesis by (simp add: demo_started_def)
qed

text \<open>
  C26. Renewing a lease does not save a long job. Take a job the executor claimed, and any calls on the queue among which the
  renewals come in time, so that the queue still holds the lease for the executor when the job ends. If that is not before the end of the first lease
  period, the result is lost all the same: the renewed lease stays with the queue, the completion is checked against the lease of the copy
  handed out by the claim, and every role handler raises without storing anything. So a job of any role that takes longer than one lease
  (two minutes by default, while validation alone may take fifteen) never succeeds.
\<close>

theorem long_job_loses_its_result:
  assumes "memq_reachable q" and "0 < xc_lease_duration (x_config x)"
    and "claim_one x q t0 tok = (q1, Inr (Some (job, l)))"
    and "timely memq_step memq_allowed job l q1 ops" and "w_queue w = queue_final memq_step q1 ops"
    and "t0 + xc_lease_duration (x_config x) \<le> now" and "now < l_expires_at (lease_final job l ops)"
    and "dict_get (s_runs (w_store w)) (j_run_id job) = Some r"
    and "\<not> is_cancelling_or_cancelled (r_status r)" and "\<not> run_is_terminal (r_status r)"
  shows "(\<exists>s l'. memq_stored (w_queue w) (j_id job) = Some s \<and> j_lease s = Some l' \<and> l_token l' = l_token l
           \<and> \<not> is_expired l' now)
    \<and> (\<exists>w1 job1 e. dispatch sv ws w job l now = ((w1, job1), Inl e) \<and> w_store w1 = w_store w \<and> w_queue w1 = w_queue w)"
proof
  note claimed = claim_one_grants [OF memq_reachable_inv [OF assms(1)] assms(2,3)]
  from claimed(5) obtain s where "memq_stored q1 (j_id job) = Some s" "j_lease s = Some l" "j_run_id s = j_run_id job" by blast
  from mqr.lease_outlives [OF claimed(1) this assms(4)] assms(5,7)
  show "\<exists>s l'. memq_stored (w_queue w) (j_id job) = Some s \<and> j_lease s = Some l' \<and> l_token l' = l_token l \<and> \<not> is_expired l' now"
    by (auto simp: is_expired_def)
  have "\<not> holds_lease job (l_token l) now" using claimed(3,4) assms(6) by (simp add: holds_lease_def is_expired_def)
  then have "refused w (dispatch sv ws w job l now)" using expired_dispatch assms(8-10) claimed(2) by simp
  then show "\<exists>w1 job1 e. dispatch sv ws w job l now = ((w1, job1), Inl e) \<and> w_store w1 = w_store w \<and> w_queue w1 = w_queue w"
    by (auto simp: refused_def split: prod.splits sum.splits)
qed

definition demo_executor :: executor where
  "demo_executor = new_executor (default_executor_config\<lparr>xc_lease_duration := 100\<rparr>) (WorkerId 9) [PLAN, CODE]"

theorem long_job_loses_its_result_witness:
  "\<forall>sv ws. \<exists>q1 job l w w1 job1 e. claim_one demo_executor demo_queue 10 demo_token = (q1, Inr (Some (job, l)))
     \<and> w_queue w = fst (memq_step q1 (Q_Renew (JobId 1) demo_token 100 60)) \<and> dispatch sv ws w job l 120 = ((w1, job1), Inl e)"
proof -
  obtain job l where c: "memq_step demo_queue demo_claim = (demo_claimed_queue, R_Claimed job l)" "j_id job = JobId 1"
      "l_token l = demo_token" "l_expires_at l = 110" "j_run_id job = RunId 2"
    using demo_claim_step by blast
  have claim: "claim_one demo_executor demo_queue 10 demo_token = (demo_claimed_queue, Inr (Some (job, l)))"
    using c(1) by (simp add: claim_one_def demo_executor_def new_executor_def split: prod.splits sum.splits option.splits)
  have acq: "l_acquired_at l = 10"
    using claim by (auto simp: claim_one_def demo_executor_def new_executor_def demo_queue_eval)
  let ?ops = "[Q_Renew (JobId 1) demo_token 100 60]"
  let ?w = "(demo_world demo_stored_run [])\<lparr>w_queue := queue_final memq_step demo_claimed_queue ?ops\<rparr>"
  have timely: "timely memq_step memq_allowed job l demo_claimed_queue ?ops"
    using c(2-4) acq by simp
  have "\<exists>w1 job1 e. dispatch sv ws ?w job l 120 = ((w1, job1), Inl e) \<and> w_store w1 = w_store ?w \<and> w_queue w1 = w_queue ?w"
    for sv ws
    by (rule conjunct2, rule long_job_loses_its_result [OF demo_queue_reachable _ claim timely, where r = demo_stored_run])
       (use c(2-5) in \<open>simp_all add: demo_executor_def new_executor_def run_row_def\<close>)
  moreover have "w_queue ?w = fst (memq_step demo_claimed_queue (Q_Renew (JobId 1) demo_token 100 60))" by simp
  ultimately show ?thesis using claim by blast
qed

end
