(* ===== verification/Filesystem.thy ===== *)
theory Filesystem
  imports Paths
begin

text \<open>
  What the tools see of the operating system: a tree of files, directories and symbolic links, name resolution as the kernel does it
  (\<open>os_walk\<close>) and as \<open>Path.resolve\<close> does it (\<open>realpath\<close>), the few file operations the sources call, and the text layer of
  Python's files (UTF-8 with replacement, universal newlines). In this theory and those that build on it a text
  is given by its UTF-8 encoding, so writing a text stores it as it is.
\<close>

section \<open>Nodes\<close>

datatype node = File (node_mode: nat) (node_data: string) | Dir | Link string

type_synonym location = "string list"

type_synonym filesystem = "location \<rightharpoonup> node"

definition node_at :: "filesystem \<Rightarrow> location \<Rightarrow> node option" where
  "node_at fs p = (if p = [] then Some Dir else fs p)"

section \<open>Resolution\<close>

text \<open>
  \<open>Path.resolve()\<close> (\<open>os.path.realpath\<close> without \<open>strict\<close>): what does not exist is kept as it is spelt. A loop of links has no value; there
  the library raises.
\<close>

partial_function (option) realpath :: "filesystem \<Rightarrow> location \<Rightarrow> string list \<Rightarrow> location option" where
  "realpath fs done_part rest =
     (case rest of
        [] \<Rightarrow> Some done_part
      | n # ns \<Rightarrow>
          if n = [] \<or> n = ''.'' then realpath fs done_part ns
          else if n = ''..'' then realpath fs (butlast done_part) ns
          else (case fs (done_part @ [n]) of
                  Some (Link target) \<Rightarrow>
                    realpath fs (if take 1 target = ''/'' then [] else done_part) (split_at CHR ''/'' target @ ns)
                | _ \<Rightarrow> realpath fs (done_part @ [n]) ns))"

text \<open>The kernel's walk: every step must start from a directory that is there.\<close>

datatype os_error = ENOENT | ENOTDIR | EISDIR | EEXIST | ELOOP

partial_function (option) os_walk :: "filesystem \<Rightarrow> location \<Rightarrow> string list \<Rightarrow> (os_error + location) option" where
  "os_walk fs done_part rest =
     (case rest of
        [] \<Rightarrow> Some (Inr done_part)
      | n # ns \<Rightarrow>
          (case node_at fs done_part of
             None \<Rightarrow> Some (Inl ENOENT)
           | Some (File _ _) \<Rightarrow> Some (Inl ENOTDIR)
           | Some _ \<Rightarrow>
               if n = [] \<or> n = ''.'' then os_walk fs done_part ns
               else if n = ''..'' then os_walk fs (butlast done_part) ns
               else (case fs (done_part @ [n]) of
                       Some (Link target) \<Rightarrow>
                         os_walk fs (if take 1 target = ''/'' then [] else done_part) (split_at CHR ''/'' target @ ns)
                     | _ \<Rightarrow> os_walk fs (done_part @ [n]) ns)))"

text \<open>A location no step of which is a link or a dot: what resolution ends with.\<close>

definition plain_name :: "string \<Rightarrow> bool" where
  "plain_name n \<longleftrightarrow> n \<noteq> [] \<and> n \<noteq> ''.'' \<and> n \<noteq> ''..''"

definition is_link :: "node option \<Rightarrow> bool" where
  "is_link n \<longleftrightarrow> (case n of Some (Link _) \<Rightarrow> True | _ \<Rightarrow> False)"

fun solid_from :: "filesystem \<Rightarrow> location \<Rightarrow> string list \<Rightarrow> bool" where
  "solid_from fs p [] \<longleftrightarrow> True"
| "solid_from fs p (n # ns) \<longleftrightarrow> plain_name n \<and> \<not> is_link (fs (p @ [n])) \<and> solid_from fs (p @ [n]) ns"

definition solid :: "filesystem \<Rightarrow> location \<Rightarrow> bool" where
  "solid fs p \<longleftrightarrow> solid_from fs [] p"

lemma solid_from_append: "solid_from fs p (ns @ ms) \<longleftrightarrow> solid_from fs p ns \<and> solid_from fs (p @ ns) ms"
  by (induction ns arbitrary: p) auto

lemma solid_Nil [simp]: "solid fs []"
  by (simp add: solid_def)

lemma solid_snoc: "solid fs (p @ [n]) \<longleftrightarrow> solid fs p \<and> plain_name n \<and> \<not> is_link (fs (p @ [n]))"
  by (auto simp: solid_def solid_from_append)

lemma solid_butlast: "solid fs p \<Longrightarrow> solid fs (butlast p)"
  by (cases p rule: rev_cases) (simp_all add: solid_snoc)

text \<open>Resolution ends at a solid location, and a solid location resolves to itself.\<close>

lemma realpath_solid:
  assumes "realpath fs p rest = Some q" and "solid fs p"
  shows "solid fs q"
proof -
  have "solid fs p \<longrightarrow> solid fs q"
  proof (rule realpath.raw_induct [where P = "\<lambda>fs p rest q. solid fs p \<longrightarrow> solid fs q", OF _ assms(1)], goal_cases)
    case (1 rp fs p rest q)
    show ?case
    proof (cases rest)
      case Nil
      with 1(2) show ?thesis by simp
    next
      case (Cons n ns)
      have IH: "rp fs p' r' = Some q \<Longrightarrow> solid fs p' \<longrightarrow> solid fs q" for p' r' using 1(1) by blast
      show ?thesis
      proof (cases "n = [] \<or> n = ''.'' \<or> n = ''..''")
        case True
        with 1(2) Cons IH [of p ns] IH [of "butlast p" ns] solid_butlast show ?thesis by (auto split: if_splits)
      next
        case plain: False
        then have name: "plain_name n" by (simp add: plain_name_def)
        show ?thesis
        proof (cases "is_link (fs (p @ [n]))")
          case True
          then obtain t where "fs (p @ [n]) = Some (Link t)"
            by (auto simp: is_link_def split: option.splits node.splits)
          with 1(2) Cons plain IH [of "if take 1 t = ''/'' then [] else p" "split_at CHR ''/'' t @ ns"]
          show ?thesis by (auto split: if_splits)
        next
          case False
          then have "rp fs (p @ [n]) ns = Some q"
            using 1(2) Cons plain by (auto simp: is_link_def split: option.splits node.splits)
          with IH [of "p @ [n]" ns] name False show ?thesis by (simp add: solid_snoc)
        qed
      qed
    qed
  qed
  with assms(2) show ?thesis by simp
qed

lemma realpath_Nil [simp]: "realpath fs p [] = Some p"
  by (subst realpath.simps) simp

lemma realpath_plain:
  "plain_name n \<Longrightarrow> \<not> is_link (fs (p @ [n])) \<Longrightarrow> realpath fs p (n # ns) = realpath fs (p @ [n]) ns"
  by (subst realpath.simps) (auto simp: plain_name_def is_link_def split: option.splits node.splits)

lemma realpath_up [simp]: "realpath fs p (''..'' # ns) = realpath fs (butlast p) ns"
  by (subst realpath.simps) simp

lemma realpath_along: "solid_from fs p ns \<Longrightarrow> realpath fs p (ns @ ms) = realpath fs (p @ ns) ms"
  by (induction ns arbitrary: p) (simp_all add: realpath_plain)

lemma realpath_of_solid: "solid fs p \<Longrightarrow> realpath fs [] p = Some p"
  using realpath_along [of fs "[]" p "[]"] by (simp add: solid_def)

text \<open>On a solid location the kernel arrives at that very location, or reports an error.\<close>

lemma os_walk_Nil [simp]: "os_walk fs p [] = Some (Inr p)"
  by (subst os_walk.simps) simp

lemma os_walk_Cons:
  "os_walk fs p (n # ns) =
     (case node_at fs p of
        None \<Rightarrow> Some (Inl ENOENT)
      | Some (File _ _) \<Rightarrow> Some (Inl ENOTDIR)
      | Some _ \<Rightarrow>
          if n = [] \<or> n = ''.'' then os_walk fs p ns
          else if n = ''..'' then os_walk fs (butlast p) ns
          else (case fs (p @ [n]) of
                  Some (Link target) \<Rightarrow>
                    os_walk fs (if take 1 target = ''/'' then [] else p) (split_at CHR ''/'' target @ ns)
                | _ \<Rightarrow> os_walk fs (p @ [n]) ns))"
  by (subst os_walk.simps) simp

lemma os_walk_along:
  assumes "solid_from fs p ns"
  shows "os_walk fs p ns = Some (Inr (p @ ns)) \<or> (\<exists>e. os_walk fs p ns = Some (Inl e))"
  using assms
proof (induction ns arbitrary: p)
  case (Cons n ns)
  have "os_walk fs (p @ [n]) ns = Some (Inr ((p @ [n]) @ ns)) \<or> (\<exists>e. os_walk fs (p @ [n]) ns = Some (Inl e))"
    by (rule Cons.IH) (use Cons.prems in simp)
  with Cons.prems show ?case
    by (auto simp: os_walk_Cons plain_name_def is_link_def split: option.splits node.splits)
qed simp

lemma os_walk_of_solid: "solid fs p \<Longrightarrow> os_walk fs [] p = Some (Inr p) \<or> (\<exists>e. os_walk fs [] p = Some (Inl e))"
  using os_walk_along [of fs "[]" p] by (simp add: solid_def)

text \<open>A chain of directories is walked without an error.\<close>

fun dirs_from :: "filesystem \<Rightarrow> location \<Rightarrow> string list \<Rightarrow> bool" where
  "dirs_from fs p [] \<longleftrightarrow> node_at fs p = Some Dir"
| "dirs_from fs p (n # ns) \<longleftrightarrow> node_at fs p = Some Dir \<and> plain_name n \<and> dirs_from fs (p @ [n]) ns"

lemma dirs_from_first: "dirs_from fs p ns \<Longrightarrow> node_at fs p = Some Dir"
  by (cases ns) auto

lemma os_walk_dirs: "dirs_from fs p ns \<Longrightarrow> os_walk fs p (ns @ ms) = os_walk fs (p @ ns) ms"
proof (induction ns arbitrary: p)
  case (Cons n ns)
  then have "fs (p @ [n]) = Some Dir" using dirs_from_first [of fs "p @ [n]" ns] by (simp add: node_at_def)
  with Cons show ?case by (auto simp: os_walk_Cons plain_name_def)
qed simp

lemma dirs_from_solid: "dirs_from fs p ns \<Longrightarrow> solid_from fs p ns"
proof (induction ns arbitrary: p)
  case (Cons n ns)
  then have "fs (p @ [n]) = Some Dir" using dirs_from_first [of fs "p @ [n]" ns] by (simp add: node_at_def)
  with Cons show ?case by (simp add: is_link_def)
qed simp

lemma dirs_from_append: "dirs_from fs p (ns @ ms) \<longleftrightarrow> dirs_from fs p ns \<and> dirs_from fs (p @ ns) ms"
  by (induction ns arbitrary: p) (auto dest: dirs_from_first)

text \<open>Climbing from a chain of directories to the top and down again: \<open>a/b/../../c\<close>.\<close>

lemma os_walk_climb:
  "dirs_from fs [] ns \<Longrightarrow> os_walk fs ns (replicate (length ns) ''..'' @ ms) = os_walk fs [] ms"
proof (induction ns rule: rev_induct)
  case (snoc n ns)
  then have "dirs_from fs [] ns" "node_at fs (ns @ [n]) = Some Dir" by (simp_all add: dirs_from_append)
  with snoc.IH show ?case by (simp add: os_walk_Cons)
qed simp

section \<open>File operations\<close>

definition os_open :: "filesystem \<Rightarrow> string list \<Rightarrow> os_error + location" where
  "os_open fs p = (case os_walk fs [] p of None \<Rightarrow> Inl ELOOP | Some r \<Rightarrow> r)"

lemma os_open_of_solid: "solid fs p \<Longrightarrow> os_open fs p = Inr q \<Longrightarrow> q = p"
  using os_walk_of_solid [of fs p] by (auto simp: os_open_def)

definition os_read :: "filesystem \<Rightarrow> string list \<Rightarrow> os_error + string" where
  "os_read fs p =
     bind_sum (os_open fs p) (\<lambda>loc. case node_at fs loc of
         None \<Rightarrow> Inl ENOENT | Some Dir \<Rightarrow> Inl EISDIR | Some (Link _) \<Rightarrow> Inl ELOOP | Some (File _ d) \<Rightarrow> Inr d)"

definition os_is_dir :: "filesystem \<Rightarrow> string list \<Rightarrow> bool" where
  "os_is_dir fs p \<longleftrightarrow> (case os_open fs p of Inl _ \<Rightarrow> False | Inr loc \<Rightarrow> node_at fs loc = Some Dir)"

definition os_exists :: "filesystem \<Rightarrow> string list \<Rightarrow> bool" where
  "os_exists fs p \<longleftrightarrow> (case os_open fs p of Inl _ \<Rightarrow> False | Inr loc \<Rightarrow> node_at fs loc \<noteq> None)"

definition os_is_file :: "filesystem \<Rightarrow> string list \<Rightarrow> bool" where
  "os_is_file fs p \<longleftrightarrow> (case os_read fs p of Inl _ \<Rightarrow> False | Inr _ \<Rightarrow> True)"

text \<open>The directory a name is to be created in.\<close>

definition os_parent :: "filesystem \<Rightarrow> string list \<Rightarrow> os_error + location" where
  "os_parent fs p =
     bind_sum (os_open fs (butlast p)) (\<lambda>loc. case node_at fs loc of
         None \<Rightarrow> Inl ENOENT | Some Dir \<Rightarrow> Inr loc | Some _ \<Rightarrow> Inl ENOTDIR)"

text \<open>\<open>open(path, "w")\<close> and a write: links are followed, a file that is there keeps its mode.\<close>

definition os_write :: "filesystem \<Rightarrow> string list \<Rightarrow> string \<Rightarrow> os_error + filesystem" where
  "os_write fs p data =
     bind_sum (os_open fs p) (\<lambda>loc. case node_at fs loc of
         None \<Rightarrow> Inr (fs(loc \<mapsto> File 420 data))
       | Some (File m _) \<Rightarrow> Inr (fs(loc \<mapsto> File m data))
       | Some Dir \<Rightarrow> Inl EISDIR
       | Some (Link _) \<Rightarrow> Inl ELOOP)"

text \<open>A private file made by \<open>mkstemp\<close> in the directory and renamed over the name: links are replaced, the mode is the private one.\<close>

definition os_replace :: "filesystem \<Rightarrow> string list \<Rightarrow> string \<Rightarrow> os_error + filesystem" where
  "os_replace fs p data =
     bind_sum (os_parent fs p) (\<lambda>d.
       if p = [] \<or> last p = ''..'' then Inl EISDIR
       else case fs (d @ [last p]) of
              Some Dir \<Rightarrow> Inl EISDIR
            | _ \<Rightarrow> Inr (fs(d @ [last p] \<mapsto> File 384 data)))"

definition os_mkdir :: "filesystem \<Rightarrow> string list \<Rightarrow> os_error + filesystem" where
  "os_mkdir fs p =
     bind_sum (os_parent fs p) (\<lambda>d.
       if p = [] \<or> last p = ''..'' then Inl EEXIST
       else case fs (d @ [last p]) of Some _ \<Rightarrow> Inl EEXIST | None \<Rightarrow> Inr (fs(d @ [last p] \<mapsto> Dir)))"

text \<open>\<open>Path.mkdir(parents=True, exist_ok=True)\<close>, on the components from the last to the first.\<close>

fun mkdirs :: "filesystem \<Rightarrow> string list \<Rightarrow> filesystem \<times> (os_error + unit)" where
  "mkdirs fs [] = (fs, Inr ())"
| "mkdirs fs (n # up) =
     (case os_mkdir fs (rev (n # up)) of
        Inr fs1 \<Rightarrow> (fs1, Inr ())
      | Inl ENOENT \<Rightarrow>
          bind_outcome (mkdirs fs up) (\<lambda>fs1 _.
            case os_mkdir fs1 (rev (n # up)) of
              Inr fs2 \<Rightarrow> (fs2, Inr ())
            | Inl e \<Rightarrow> if e \<noteq> ENOENT \<and> os_is_dir fs1 (rev (n # up)) then (fs1, Inr ()) else (fs1, Inl e))
      | Inl e \<Rightarrow> if os_is_dir fs (rev (n # up)) then (fs, Inr ()) else (fs, Inl e))"

section \<open>Text\<close>

text \<open>
  Decoding UTF-8 with \<open>errors="replace"\<close>: after a leading byte, the number of continuation bytes and the range of the first of them; a sequence
  that breaks off becomes one replacement character for the bytes that fit.
\<close>

definition utf8_lead :: "nat \<Rightarrow> (nat \<times> nat \<times> nat) option" where
  "utf8_lead n =
     (if n < 0x80 then Some (0, 0x80, 0xBF)
      else if n < 0xC2 then None
      else if n < 0xE0 then Some (1, 0x80, 0xBF)
      else if n = 0xE0 then Some (2, 0xA0, 0xBF)
      else if n = 0xED then Some (2, 0x80, 0x9F)
      else if n < 0xF0 then Some (2, 0x80, 0xBF)
      else if n = 0xF0 then Some (3, 0x90, 0xBF)
      else if n < 0xF4 then Some (3, 0x80, 0xBF)
      else if n = 0xF4 then Some (3, 0x80, 0x8F)
      else None)"

fun continuation :: "nat \<Rightarrow> nat \<Rightarrow> nat \<Rightarrow> string \<Rightarrow> nat" where
  "continuation (Suc k) lo hi (b # bs) = (if lo \<le> of_char b \<and> of_char b \<le> hi then Suc (continuation k 0x80 0xBF bs) else 0)"
| "continuation _ _ _ _ = 0"

definition REPLACEMENT :: string where
  "REPLACEMENT = [CHR 0xEF, CHR 0xBF, CHR 0xBD]"

lemma continuation_le: "continuation k lo hi bs \<le> k" "continuation k lo hi bs \<le> length bs"
  by (induction k lo hi bs rule: continuation.induct) simp_all

function utf8_replace :: "string \<Rightarrow> string" where
  "utf8_replace [] = []"
| "utf8_replace (b # bs) =
     (case utf8_lead (of_char b) of
        None \<Rightarrow> REPLACEMENT @ utf8_replace bs
      | Some (k, lo, hi) \<Rightarrow>
          (if continuation k lo hi bs = k then b # take k bs else REPLACEMENT) @ utf8_replace (drop (continuation k lo hi bs) bs))"
  by pat_completeness auto
termination by (relation "measure length") auto

lemma utf8_replace_ascii: "\<forall>c \<in> set s. of_char c < (0x80 :: nat) \<Longrightarrow> utf8_replace s = s"
  by (induction s) (simp_all add: utf8_lead_def)

lemma continuation_take:
  "continuation k lo hi bs = k \<Longrightarrow> continuation k lo hi (take k bs @ cs) = k"
  by (induction k lo hi bs rule: continuation.induct) (auto split: if_splits)

text \<open>What was decoded once is text: decoding it again changes nothing.\<close>

lemma utf8_replace_idem: "utf8_replace (utf8_replace s) = utf8_replace s"
proof (induction s rule: utf8_replace.induct)
  case (2 b bs)
  have repl: "utf8_replace (REPLACEMENT @ t) = REPLACEMENT @ utf8_replace t" for t
    by (simp add: REPLACEMENT_def utf8_lead_def eval_nat_numeral)
  show ?case
  proof (cases "utf8_lead (of_char b)")
    case None
    with 2(1) show ?thesis by (simp add: repl)
  next
    case (Some r)
    obtain k lo hi where r: "r = (k, lo, hi)" by (cases r)
    let ?n = "continuation k lo hi bs"
    have ih: "utf8_replace (utf8_replace (drop ?n bs)) = utf8_replace (drop ?n bs)" using 2(2) Some r by simp
    show ?thesis
    proof (cases "?n = k")
      case True
      then have "length (take k bs) = k" using continuation_le(2) [of k lo hi bs] by simp
      with True Some r ih continuation_take [OF True, of "utf8_replace (drop ?n bs)"] show ?thesis by simp
    next
      case False
      with Some r ih show ?thesis by (simp add: repl)
    qed
  qed
qed simp

text \<open>Reading in text mode: every line end becomes a line feed.\<close>

fun universal_newlines :: "string \<Rightarrow> string" where
  "universal_newlines [] = []"
| "universal_newlines [c] = [if c = CHR 0x0D then CHR 0x0A else c]"
| "universal_newlines (c # d # cs) =
     (if c = CHR 0x0D then CHR 0x0A # (if d = CHR 0x0A then universal_newlines cs else universal_newlines (d # cs))
      else c # universal_newlines (d # cs))"

definition read_text :: "string \<Rightarrow> string" where
  "read_text data = universal_newlines (utf8_replace data)"

lemma universal_newlines_plain: "CHR 0x0D \<notin> set s \<Longrightarrow> universal_newlines s = s"
  by (induction s rule: universal_newlines.induct) auto

end
