(* ===== verification/Workspace_Files.thy ===== *)
theory Workspace_Files
  imports Filesystem Evidence
begin

text \<open>
  Workspaces and the tools that touch their files: \<open>src/src/domain/value_objects/workspace.py\<close>, the invocation and limits of
  \<open>tools.py\<close>, \<open>src/src/infrastructure/tools/base.py\<close>, \<open>files.py\<close>, and \<open>_write_all\<close> of
  \<open>src/src/infrastructure/workspace/git_worktree.py\<close>. The elapsed time of a tool is an argument, as is the current directory.
  Path arguments are taken to hold no NUL character.
\<close>

section \<open>Workspaces and invocations\<close>

datatype workspace_kind = GIT_WORKTREE | CLONE | SNAPSHOT | READONLY

datatype workspace_role = WR_PLANNER | WR_CANDIDATE | WR_REVIEWER | WR_MERGE

fun role_is_writable :: "workspace_role \<Rightarrow> bool" where
  "role_is_writable WR_CANDIDATE = True"
| "role_is_writable WR_MERGE = True"
| "role_is_writable _ = False"

record workspace_handle =
  wk_id :: workspace_id
  wk_run_id :: run_id
  wk_role :: workspace_role
  wk_kind :: workspace_kind
  wk_path :: string
  wk_base_revision :: "string option"
  wk_branch :: "string option"
  wk_candidate_id :: "candidate_id option"

definition mk_workspace_handle :: "workspace_handle \<Rightarrow> error + workspace_handle" where
  "mk_workspace_handle h =
     (if wk_path h = [] then Inl (ValueError ''workspace path must not be empty'')
      else if wk_role h = WR_CANDIDATE \<and> wk_candidate_id h = None
      then Inl (ValueError ''a candidate workspace must name its candidate'')
      else Inr h)"

definition is_writable :: "workspace_handle \<Rightarrow> bool" where
  "is_writable h = role_is_writable (wk_role h)"

record execution_limits =
  lim_timeout_seconds :: rat
  lim_max_output_bytes :: int
  lim_memory_mb :: "int option"
  lim_cpu_count :: "rat option"
  lim_network_enabled :: bool

definition mk_execution_limits :: "execution_limits \<Rightarrow> error + execution_limits" where
  "mk_execution_limits l =
     (if lim_timeout_seconds l \<le> 0 then Inl (ValueError ''timeout_seconds must be positive'')
      else if lim_max_output_bytes l \<le> 0 then Inl (ValueError ''max_output_bytes must be positive'')
      else Inr l)"

definition default_limits :: execution_limits where
  "default_limits = \<lparr>lim_timeout_seconds = 300, lim_max_output_bytes = 1000000, lim_memory_mb = Some 4096,
     lim_cpu_count = Some 2, lim_network_enabled = False\<rparr>"

record tool_invocation =
  iv_tool :: string
  iv_kind :: tool_kind
  iv_arguments :: json_object
  iv_limits :: execution_limits

definition mk_tool_invocation :: "tool_invocation \<Rightarrow> error + tool_invocation" where
  "mk_tool_invocation i = (if iv_tool i = [] then Inl (ValueError ''tool name must not be empty'') else Inr i)"

section \<open>Arguments\<close>

definition quoted :: "string \<Rightarrow> string" where
  "quoted s = CHR 0x27 # s @ [CHR 0x27]"

definition argument :: "json_object \<Rightarrow> string \<Rightarrow> json \<Rightarrow> json" where
  "argument args name dflt = (case map_of args name of None \<Rightarrow> dflt | Some v \<Rightarrow> v)"

definition string_argument :: "string \<Rightarrow> json_object \<Rightarrow> string \<Rightarrow> string option \<Rightarrow> error + string" where
  "string_argument tool args name dflt =
     (case argument args name (case dflt of None \<Rightarrow> JNull | Some d \<Rightarrow> JStr d) of
        JNull \<Rightarrow> Inl (ToolExecutionError tool (''missing required argument '' @ quoted name))
      | JStr s \<Rightarrow> Inr s
      | _ \<Rightarrow> Inl (ToolExecutionError tool (''argument '' @ quoted name @ '' must be a string'')))"

definition int_argument :: "string \<Rightarrow> json_object \<Rightarrow> string \<Rightarrow> int \<Rightarrow> int \<Rightarrow> error + int" where
  "int_argument tool args name dflt minimum =
     (case argument args name (JInt dflt) of
        JInt n \<Rightarrow>
          if n < minimum
          then Inl (ToolExecutionError tool (''argument '' @ quoted name @ '' must be >= '' @ show_int minimum))
          else Inr n
      | _ \<Rightarrow> Inl (ToolExecutionError tool (''argument '' @ quoted name @ '' must be an integer'')))"

definition bool_argument :: "string \<Rightarrow> json_object \<Rightarrow> string \<Rightarrow> bool \<Rightarrow> error + bool" where
  "bool_argument tool args name dflt =
     (case argument args name (JBool dflt) of
        JBool b \<Rightarrow> Inr b
      | _ \<Rightarrow> Inl (ToolExecutionError tool (''argument '' @ quoted name @ '' must be a boolean'')))"

fun all_strings :: "json list \<Rightarrow> string list option" where
  "all_strings [] = Some []"
| "all_strings (JStr s # js) = map_option (Cons s) (all_strings js)"
| "all_strings (_ # js) = None"

definition string_list_argument :: "string \<Rightarrow> json_object \<Rightarrow> string \<Rightarrow> error + string list" where
  "string_list_argument tool args name =
     (case argument args name (JArr []) of
        JStr _ \<Rightarrow> Inl (ToolExecutionError tool (''argument '' @ quoted name @ '' must be a list of strings, not a string''))
      | JArr js \<Rightarrow>
          (case all_strings js of
             Some ss \<Rightarrow> Inr ss
           | None \<Rightarrow> Inl (ToolExecutionError tool (''argument '' @ quoted name @ '' must contain only strings'')))
      | _ \<Rightarrow> Inl (ToolExecutionError tool (''argument '' @ quoted name @ '' must be a list of strings'')))"

section \<open>Paths in a workspace\<close>

definition absolute_parts :: "location \<Rightarrow> path \<Rightarrow> string list" where
  "absolute_parts cwd p = (if is_absolute p then pt_parts p else cwd @ pt_parts p)"

text \<open>\<open>Path(p).resolve()\<close>; a loop of links raises \<open>RuntimeError\<close>.\<close>

definition path_resolve :: "filesystem \<Rightarrow> location \<Rightarrow> path \<Rightarrow> error + location" where
  "path_resolve fs cwd p =
     (case realpath fs [] (absolute_parts cwd p) of None \<Rightarrow> Inl (OtherException ''RuntimeError'') | Some q \<Rightarrow> Inr q)"

definition is_below :: "location \<Rightarrow> string list \<Rightarrow> bool" where
  "is_below base p \<longleftrightarrow> take (length base) p = base"

text \<open>
  \<open>resolve_in_workspace\<close>. An absolute argument is not resolved before its components are compared with those of the root
  (\<open>relative_to\<close> is lexical).
\<close>

definition resolve_in_workspace ::
  "filesystem \<Rightarrow> location \<Rightarrow> string \<Rightarrow> workspace_handle \<Rightarrow> string \<Rightarrow> error + string list" where
  "resolve_in_workspace fs cwd tool h relative =
     bind_sum (path_resolve fs cwd (mk_path (wk_path h))) (\<lambda>base.
     bind_sum
       (if \<not> is_absolute (mk_path relative)
        then map_sum id (\<lambda>q. (''/'', q)) (path_resolve fs [] \<lparr>pt_root = ''/'', pt_parts = base @ pt_parts (mk_path relative)\<rparr>)
        else Inr (pt_root (mk_path relative), pt_parts (mk_path relative))) (\<lambda>(top, candidate).
     if top = ''/'' \<and> is_below base candidate then Inr candidate
     else Inl (ToolExecutionError tool ''path escapes the workspace'')))"

definition local_result ::
  "string \<Rightarrow> tool_kind \<Rightarrow> string \<Rightarrow> int \<Rightarrow> int \<Rightarrow> string \<Rightarrow> string \<Rightarrow> bool \<Rightarrow> json_object \<Rightarrow> tool_result" where
  "local_result tool kind command code elapsed out err truncated metadata =
     \<lparr>r_tool = tool, r_kind = kind, r_command = command, r_exit_code = code, r_stdout = out, r_stderr = err,
      r_duration_ms = elapsed, r_truncated = truncated, r_artifacts = [], r_tool_metadata = metadata\<rparr>"

text \<open>A relative argument: where the tool ends up is inside the workspace, and the kernel goes to that very place.\<close>

lemma resolve_relative:
  assumes "resolve_in_workspace fs cwd tool h relative = Inr p" and "\<not> is_absolute (mk_path relative)"
  shows "\<exists>base. path_resolve fs cwd (mk_path (wk_path h)) = Inr base \<and> solid fs base \<and> solid fs p \<and> is_below base p"
proof -
  from assms obtain base where base: "path_resolve fs cwd (mk_path (wk_path h)) = Inr base"
    and p: "realpath fs [] (base @ pt_parts (mk_path relative)) = Some p" and below: "is_below base p"
    by (auto simp: resolve_in_workspace_def bind_sum_Inr_iff path_resolve_def absolute_parts_def is_absolute_def
        split: if_splits option.splits)
  have "solid fs base" using base realpath_solid [of fs "[]"] by (auto simp: path_resolve_def split: option.splits)
  moreover have "solid fs p" by (rule realpath_solid [OF p]) simp
  ultimately show ?thesis using base below by blast
qed

section \<open>Reading\<close>

text \<open>\<open>str.splitlines\<close> on UTF-8: the length of the line end a text starts with, zero if it starts with none.\<close>

fun line_end :: "nat list \<Rightarrow> nat" where
  "line_end [] = 0"
| "line_end (c # cs) =
     (if c = 0x0D then (if take 1 cs = [0x0A] then 2 else 1)
      else if c \<in> {0x0A, 0x0B, 0x0C, 0x1C, 0x1D, 0x1E} then 1
      else if c = 0xC2 \<and> take 1 cs = [0x85] then 2
      else if c = 0xE2 \<and> (take 2 cs = [0x80, 0xA8] \<or> take 2 cs = [0x80, 0xA9]) then 3
      else 0)"

function text_lines :: "string \<Rightarrow> string \<Rightarrow> string list" where
  "text_lines acc [] = (if acc = [] then [] else [acc])"
| "text_lines acc (c # cs) =
     (if line_end (map of_char (c # take 2 cs)) = 0 then text_lines (acc @ [c]) cs
      else acc # text_lines [] (drop (line_end (map of_char (c # take 2 cs)) - 1) cs))"
  by pat_completeness auto
termination by (relation "measure (\<lambda>(_, s). length s)") auto

definition file_lines :: "string \<Rightarrow> string list" where
  "file_lines s = text_lines [] s"

abbreviation failure_result :: "string \<Rightarrow> tool_kind \<Rightarrow> string \<Rightarrow> int \<Rightarrow> string \<Rightarrow> json_object \<Rightarrow> tool_result" where
  "failure_result tool kind command elapsed message metadata \<equiv>
     local_result tool kind command 1 elapsed [] message False metadata"

text \<open>\<open>ReadFileTool.execute\<close>, with the default byte limit of the tool.\<close>

definition read_file ::
  "filesystem \<Rightarrow> location \<Rightarrow> int \<Rightarrow> tool_invocation \<Rightarrow> workspace_handle \<Rightarrow> int \<Rightarrow> error + tool_result" where
  "read_file fs cwd default_max_bytes iv h elapsed =
     (let tool = ''read_file''; args = iv_arguments iv in
      bind_sum (string_argument tool args ''path'' None) (\<lambda>relative.
      bind_sum (resolve_in_workspace fs cwd tool h relative) (\<lambda>target.
      bind_sum (int_argument tool args ''start_line'' 1 1) (\<lambda>start_line.
      bind_sum (int_argument tool args ''max_lines'' 0 0) (\<lambda>max_lines.
      bind_sum (int_argument tool args ''max_bytes'' 0 0) (\<lambda>max_bytes.
      let limit = (if max_bytes \<noteq> 0 then max_bytes else default_max_bytes);
          command = ''read_file '' @ relative
      in case os_read fs target of
           Inl ENOENT \<Rightarrow> Inr (failure_result tool READ command elapsed (relative @ '': no such file'') [])
         | Inl EISDIR \<Rightarrow> Inr (failure_result tool READ command elapsed (relative @ '': is a directory'') [])
         | Inl _ \<Rightarrow> Inl (ToolExecutionError tool ''file could not be read'')
         | Inr data \<Rightarrow>
             let raw = take (nat (limit + 1)) data in
             if CHR 0x00 \<in> set (take 8192 raw)
             then Inr (failure_result tool READ command elapsed (relative @ '': binary file, refusing to read'') [])
             else
               let lines = file_lines (utf8_replace (take (nat limit) raw));
                   rest = drop (nat (start_line - 1)) lines;
                   selected = (if max_lines \<noteq> 0 then take (nat max_lines) rest else rest);
                   truncated = (int (length raw) > limit \<or> max_lines \<noteq> 0 \<and> int (length rest) > max_lines);
                   end_line = start_line + int (length selected) - 1
               in Inr (local_result tool READ command 0 elapsed (py_join newline selected) [] truncated
                    [(''path'', JStr relative), (''start_line'', JInt start_line),
                     (''end_line'', JInt (max end_line (start_line - 1))), (''total_lines'', JInt (int (length lines)))])))))))"

section \<open>Editing\<close>

definition EDIT_MODES :: "string list" where
  "EDIT_MODES = [''replace'', ''create'', ''append'']"

text \<open>\<open>str.count\<close>, which counts without overlaps, and \<open>str.replace(old, new, 1)\<close>.\<close>

function occurrences :: "string \<Rightarrow> string \<Rightarrow> nat" where
  "occurrences old [] = 0"
| "occurrences old (c # cs) =
     (if old \<noteq> [] \<and> take (length old) (c # cs) = old then Suc (occurrences old (drop (length old - 1) cs))
      else occurrences old cs)"
  by pat_completeness auto
termination by (relation "measure (\<lambda>(_, s). length s)") auto

fun replace_first :: "string \<Rightarrow> string \<Rightarrow> string \<Rightarrow> string" where
  "replace_first old new [] = []"
| "replace_first old new (c # cs) =
     (if take (length old) (c # cs) = old then new @ drop (length old) (c # cs) else c # replace_first old new cs)"

text \<open>\<open>_substitute\<close>: the number of occurrences (\<open>-1\<close> for a missing file) and the bytes written.\<close>

definition substitute :: "filesystem \<Rightarrow> string list \<Rightarrow> string \<Rightarrow> string \<Rightarrow> os_error + filesystem \<times> int \<times> int" where
  "substitute fs p old new =
     (case os_read fs p of
        Inl ENOENT \<Rightarrow> Inr (fs, -1, 0)
      | Inl EISDIR \<Rightarrow> Inr (fs, -1, 0)
      | Inl e \<Rightarrow> Inl e
      | Inr data \<Rightarrow>
          let original = read_text data; n = occurrences old original in
          if n \<noteq> 1 then Inr (fs, int n, 0)
          else let updated = replace_first old new original in
               bind_sum (os_replace fs p updated) (\<lambda>fs1. Inr (fs1, 1, int (length updated))))"

text \<open>\<open>_create\<close>: \<open>None\<close> when the file was already there. The directories made before a failure stay.\<close>

definition create_file :: "filesystem \<Rightarrow> string list \<Rightarrow> string \<Rightarrow> bool \<Rightarrow> filesystem \<times> (os_error + int option)" where
  "create_file fs p content overwrite =
     (if os_exists fs p \<and> \<not> overwrite then (fs, Inr None)
      else bind_outcome (mkdirs fs (rev (butlast p))) (\<lambda>fs1 _.
        case os_replace fs1 p content of
          Inl e \<Rightarrow> (fs1, Inl e)
        | Inr fs2 \<Rightarrow> (fs2, Inr (Some (int (length content))))))"

definition append_file :: "filesystem \<Rightarrow> string list \<Rightarrow> string \<Rightarrow> os_error + filesystem \<times> int" where
  "append_file fs p content =
     (let existing = (case os_read fs p of Inr data \<Rightarrow> read_text data | Inl _ \<Rightarrow> []);
          merged = existing @ content
      in bind_sum (os_replace fs p merged) (\<lambda>fs1. Inr (fs1, int (length merged))))"

abbreviation not_written :: "error" where
  "not_written \<equiv> ToolExecutionError ''edit_file'' ''file could not be written''"

definition edit_replace ::
  "filesystem \<Rightarrow> json_object \<Rightarrow> string list \<Rightarrow> string \<Rightarrow> string \<Rightarrow> int \<Rightarrow> filesystem \<times> (error + tool_result)" where
  "edit_replace fs args target relative command elapsed =
     (let tool = ''edit_file'' in
      case bind_sum (string_argument tool args ''old_string'' None) (\<lambda>old.
           bind_sum (string_argument tool args ''new_string'' (Some [])) (\<lambda>new.
           if old = [] then Inl (ToolExecutionError tool ''old_string must not be empty'') else Inr (old, new))) of
        Inl e \<Rightarrow> (fs, Inl e)
      | Inr (old, new) \<Rightarrow>
          (case substitute fs target old new of
             Inl _ \<Rightarrow> (fs, Inl not_written)
           | Inr (fs1, n, written) \<Rightarrow>
               (fs1, Inr
                 (if n = -1 then failure_result tool EDIT command elapsed (relative @ '': no such file'') []
                  else if n \<noteq> 1
                  then failure_result tool EDIT command elapsed
                         (relative @ '': old_string occurs '' @ show_int n @ '' times, expected exactly 1'')
                         [(''occurrences'', JInt n)]
                  else local_result tool EDIT command 0 elapsed (relative @ '': replaced 1 occurrence'') [] False
                         [(''path'', JStr relative), (''bytes_written'', JInt written)]))))"

definition wrote_result :: "string \<Rightarrow> string \<Rightarrow> string \<Rightarrow> int \<Rightarrow> int \<Rightarrow> tool_result" where
  "wrote_result mode relative command elapsed written =
     local_result ''edit_file'' EDIT command 0 elapsed (relative @ '': wrote '' @ show_int written @ '' bytes'') [] False
       [(''path'', JStr relative), (''bytes_written'', JInt written), (''mode'', JStr mode)]"

definition edit_write ::
  "filesystem \<Rightarrow> json_object \<Rightarrow> string list \<Rightarrow> string \<Rightarrow> string \<Rightarrow> int \<Rightarrow> string \<Rightarrow> filesystem \<times> (error + tool_result)" where
  "edit_write fs args target relative command elapsed mode =
     (let tool = ''edit_file'' in
      case string_argument tool args ''content'' None of
        Inl e \<Rightarrow> (fs, Inl e)
      | Inr content \<Rightarrow>
          if mode = ''create'' then
            (case bool_argument tool args ''overwrite'' False of
               Inl e \<Rightarrow> (fs, Inl e)
             | Inr overwrite \<Rightarrow>
                 (case create_file fs target content overwrite of
                    (fs1, Inl _) \<Rightarrow> (fs1, Inl not_written)
                  | (fs1, Inr None) \<Rightarrow>
                      (fs1, Inr (failure_result tool EDIT command elapsed
                                   (relative @ '': already exists (pass overwrite=true)'') []))
                  | (fs1, Inr (Some written)) \<Rightarrow> (fs1, Inr (wrote_result mode relative command elapsed written))))
          else
            (case append_file fs target content of
               Inl _ \<Rightarrow> (fs, Inl not_written)
             | Inr (fs1, written) \<Rightarrow> (fs1, Inr (wrote_result mode relative command elapsed written))))"

text \<open>\<open>EditFileTool.execute\<close>.\<close>

definition edit_file ::
  "filesystem \<Rightarrow> location \<Rightarrow> tool_invocation \<Rightarrow> workspace_handle \<Rightarrow> int \<Rightarrow> filesystem \<times> (error + tool_result)" where
  "edit_file fs cwd iv h elapsed =
     (let tool = ''edit_file''; args = iv_arguments iv in
      if \<not> is_writable h then (fs, Inl (ToolExecutionError tool ''workspace is read-only''))
      else
        case bind_sum (string_argument tool args ''path'' None) (\<lambda>relative.
             bind_sum (resolve_in_workspace fs cwd tool h relative) (\<lambda>target.
             bind_sum (string_argument tool args ''mode'' (Some ''replace'')) (\<lambda>mode.
             if mode \<notin> set EDIT_MODES then Inl (ToolExecutionError tool ''unknown edit mode'')
             else Inr (relative, target, mode)))) of
          Inl e \<Rightarrow> (fs, Inl e)
        | Inr (relative, target, mode) \<Rightarrow>
            let command = ''edit_file --mode '' @ mode @ '' '' @ relative in
            if mode = ''replace'' then edit_replace fs args target relative command elapsed
            else edit_write fs args target relative command elapsed mode)"

section \<open>Whole files from a coder\<close>

text \<open>\<open>_write_all\<close>: every path is resolved and checked before the first one is written.\<close>

fun check_targets :: "filesystem \<Rightarrow> location \<Rightarrow> (string \<times> string) list \<Rightarrow> error + (string \<times> location) list" where
  "check_targets fs base [] = Inr []"
| "check_targets fs base ((relative, content) # files) =
     bind_sum (path_resolve fs base (mk_path relative)) (\<lambda>target.
     if \<not> is_below base target
     then Inl (WorkspaceError (''refusing to write outside the workspace: '' @ quoted relative))
     else bind_sum (check_targets fs base files) (\<lambda>targets. Inr ((relative, target) # targets)))"

fun write_targets ::
  "filesystem \<Rightarrow> (string \<times> string) list \<Rightarrow> (string \<times> location) list \<Rightarrow> filesystem \<times> (error + string list)" where
  "write_targets fs files [] = (fs, Inr [])"
| "write_targets fs files ((relative, target) # targets) =
     (case mkdirs fs (rev (butlast target)) of
        (fs1, Inl _) \<Rightarrow> (fs1, Inl (OtherException ''OSError''))
      | (fs1, Inr _) \<Rightarrow>
          (case os_write fs1 target (or_else (map_of files relative) []) of
             Inl _ \<Rightarrow> (fs1, Inl (OtherException ''OSError''))
           | Inr fs2 \<Rightarrow>
               bind_outcome (write_targets fs2 files targets) (\<lambda>fs3 written. (fs3, Inr (relative # written)))))"

definition write_all :: "filesystem \<Rightarrow> location \<Rightarrow> string \<Rightarrow> (string \<times> string) list \<Rightarrow> filesystem \<times> (error + string list)" where
  "write_all fs cwd where_to files =
     (case bind_sum (path_resolve fs cwd (mk_path where_to)) (\<lambda>base. check_targets fs base files) of
        Inl e \<Rightarrow> (fs, Inl e)
      | Inr targets \<Rightarrow> write_targets fs files targets)"

definition write_files ::
  "filesystem \<Rightarrow> location \<Rightarrow> workspace_handle \<Rightarrow> (string \<times> string) list \<Rightarrow> filesystem \<times> (error + string list)" where
  "write_files fs cwd h files =
     (if \<not> is_writable h then (fs, Inl (WorkspaceError ''workspaces of this role are read-only''))
      else write_all fs cwd (wk_path h) files)"

section \<open>What an operation can change\<close>

text \<open>Every change is below \<open>base\<close>, no directory is replaced and no link is made.\<close>

definition contained :: "location \<Rightarrow> filesystem \<Rightarrow> filesystem \<Rightarrow> bool" where
  "contained base fs fs' \<longleftrightarrow>
     (\<forall>loc. fs' loc \<noteq> fs loc \<longrightarrow> is_below base loc \<and> fs loc \<noteq> Some Dir \<and> \<not> is_link (fs' loc))"

lemma contained_refl [simp]: "contained base fs fs"
  by (simp add: contained_def)

lemma contained_trans: "contained base fs fs1 \<Longrightarrow> contained base fs1 fs2 \<Longrightarrow> contained base fs fs2"
  unfolding contained_def by metis

lemma contained_upd: "is_below base p \<Longrightarrow> fs p \<noteq> Some Dir \<Longrightarrow> \<not> is_link (Some n) \<Longrightarrow> contained base fs (fs(p \<mapsto> n))"
  by (simp add: contained_def)

lemma contained_link: "contained base fs fs' \<Longrightarrow> is_link (fs' loc) \<Longrightarrow> is_link (fs loc)"
  unfolding contained_def by metis

lemma contained_solid_from: "contained base fs fs' \<Longrightarrow> solid_from fs p ns \<Longrightarrow> solid_from fs' p ns"
  by (induction ns arbitrary: p) (auto dest: contained_link)

lemma contained_solid: "contained base fs fs' \<Longrightarrow> solid fs p \<Longrightarrow> solid fs' p"
  unfolding solid_def by (rule contained_solid_from)

lemma contained_dir: "contained base fs fs' \<Longrightarrow> node_at fs p = Some Dir \<Longrightarrow> node_at fs' p = Some Dir"
  unfolding contained_def node_at_def by metis

lemma contained_dirs_from: "contained base fs fs' \<Longrightarrow> dirs_from fs p ns \<Longrightarrow> dirs_from fs' p ns"
  by (induction ns arbitrary: p) (auto dest: contained_dir)

lemma is_below_refl [simp]: "is_below p p"
  by (simp add: is_below_def)

lemma is_below_iff: "is_below base p \<longleftrightarrow> (\<exists>r. p = base @ r)"
  by (auto simp: is_below_def) (metis append_take_drop_id)

lemma os_parent_solid:
  assumes "solid fs p" and "os_parent fs p = Inr d"
  shows "d = butlast p"
proof -
  obtain loc where loc: "os_open fs (butlast p) = Inr loc"
      "(case node_at fs loc of None \<Rightarrow> Inl ENOENT | Some Dir \<Rightarrow> Inr loc | Some _ \<Rightarrow> Inl ENOTDIR) = Inr d"
    using assms(2) unfolding os_parent_def bind_sum_Inr_iff by blast
  then have "loc = d" by (cases "node_at fs loc") (simp_all split: node.splits)
  with loc(1) os_open_of_solid [OF solid_butlast [OF assms(1)]] show ?thesis by simp
qed

lemma os_replace_effect:
  assumes "solid fs p" and "os_replace fs p data = Inr fs'"
  shows "fs' = fs(p \<mapsto> File 384 data)" and "fs p \<noteq> Some Dir"
  using assms os_parent_solid [OF assms(1)]
  by (auto simp: os_replace_def bind_sum_Inr_iff split: if_splits option.splits node.splits)

text \<open>Without that assumption: the entry of the last name in the directory the rest of the path leads to.\<close>

lemma os_replace_at:
  assumes "os_replace fs p data = Inr fs'"
  shows "\<exists>d. os_parent fs p = Inr d \<and> p \<noteq> [] \<and> fs' = fs(d @ [last p] \<mapsto> File 384 data)"
  using assms by (auto simp: os_replace_def bind_sum_Inr_iff split: if_splits option.splits node.splits)

lemma os_write_effect:
  assumes "solid fs p" and "os_write fs p data = Inr fs'"
  shows "\<exists>m. fs' = fs(p \<mapsto> File m data)" and "fs p \<noteq> Some Dir"
  using assms os_open_of_solid [OF assms(1)]
  by (auto simp: os_write_def bind_sum_Inr_iff node_at_def split: if_splits option.splits node.splits)

lemma os_mkdir_effect:
  assumes "solid fs p" and "os_mkdir fs p = Inr fs'"
  shows "fs' = fs(p \<mapsto> Dir)" and "fs p = None" and "p \<noteq> []"
  using assms os_parent_solid [OF assms(1)]
  by (auto simp: os_mkdir_def bind_sum_Inr_iff split: if_splits option.splits)

text \<open>Directories are only made where there was nothing, along the path.\<close>

definition only_dirs :: "string list \<Rightarrow> filesystem \<Rightarrow> filesystem \<Rightarrow> bool" where
  "only_dirs p fs fs' \<longleftrightarrow> (\<forall>loc. fs' loc \<noteq> fs loc \<longrightarrow> is_below loc p \<and> loc \<noteq> [] \<and> fs loc = None \<and> fs' loc = Some Dir)"

lemma only_dirs_mkdir: "solid fs p \<Longrightarrow> os_mkdir fs p = Inr fs' \<Longrightarrow> only_dirs p fs fs'"
  using os_mkdir_effect [of fs p fs'] by (simp add: only_dirs_def)

lemma only_dirs_refl [simp]: "only_dirs p fs fs"
  by (simp add: only_dirs_def)

lemma only_dirs_solid:
  assumes "only_dirs q fs fs'" and "solid fs p"
  shows "solid fs' p"
proof -
  have "is_link (fs' loc) \<Longrightarrow> is_link (fs loc)" for loc
    using assms(1) by (cases "fs' loc = fs loc") (auto simp: only_dirs_def is_link_def)
  then have "solid_from fs a ns \<Longrightarrow> solid_from fs' a ns" for a ns by (induction ns arbitrary: a) auto
  with assms(2) show ?thesis by (simp add: solid_def)
qed

lemma is_below_append: "is_below loc p \<Longrightarrow> is_below loc (p @ q)"
  by (auto simp: is_below_iff)

lemma only_dirs_trans:
  assumes "only_dirs p fs fs1" and "only_dirs (p @ [n]) fs1 fs2"
  shows "only_dirs (p @ [n]) fs fs2"
  unfolding only_dirs_def
proof (intro allI impI)
  fix loc
  assume diff: "fs2 loc \<noteq> fs loc"
  show "is_below loc (p @ [n]) \<and> loc \<noteq> [] \<and> fs loc = None \<and> fs2 loc = Some Dir"
  proof (cases "fs1 loc = fs loc")
    case True
    then have "fs2 loc \<noteq> fs1 loc" using diff by simp
    with assms(2) True show ?thesis unfolding only_dirs_def by metis
  next
    case False
    then have first: "is_below loc p" "loc \<noteq> []" "fs loc = None" "fs1 loc = Some Dir"
      using assms(1) unfolding only_dirs_def by blast+
    then have "fs2 loc = fs1 loc" using assms(2) unfolding only_dirs_def by (metis option.distinct(1))
    with first show ?thesis by (simp add: is_below_append)
  qed
qed

lemma mkdirs_only_dirs:
  assumes "mkdirs fs up = (fs', r)" and "solid fs (rev up)"
  shows "only_dirs (rev up) fs fs'"
  using assms
proof (induction up arbitrary: fs fs' r)
  case (Cons n up)
  let ?p = "rev up @ [n]"
  have sol: "solid fs ?p" "solid fs (rev up)" using Cons.prems(2) by (simp_all add: solid_snoc)
  show ?case
  proof (cases "os_mkdir fs ?p")
    case (Inr fs1)
    then show ?thesis using Cons.prems(1) only_dirs_mkdir [OF sol(1)] by simp
  next
    case (Inl e)
    show ?thesis
    proof (cases "e = ENOENT")
      case False
      then show ?thesis using Cons.prems(1) Inl by (auto split: os_error.splits if_splits)
    next
      case True
      obtain fs1 r1 where up: "mkdirs fs up = (fs1, r1)" by (cases "mkdirs fs up")
      have d1: "only_dirs (rev up) fs fs1" by (rule Cons.IH [OF up sol(2)])
      have sol1: "solid fs1 ?p" by (rule only_dirs_solid [OF d1 sol(1)])
      have "only_dirs ?p fs1 fs'"
        using Cons.prems(1) Inl True up only_dirs_mkdir [OF sol1]
        by (cases r1) (auto split: sum.splits if_splits)
      with d1 show ?thesis using only_dirs_trans by simp
    qed
  qed
qed simp

lemma dirs_from_prefix: "dirs_from fs p (ns @ ms) \<Longrightarrow> node_at fs (p @ ns) = Some Dir"
  by (auto simp: dirs_from_append dest: dirs_from_first)

lemma only_dirs_contained:
  assumes "only_dirs q fs fs'" and "is_below base q" and "dirs_from fs [] base"
  shows "contained base fs fs'"
  unfolding contained_def
proof (intro allI impI)
  fix loc
  assume "fs' loc \<noteq> fs loc"
  then have loc: "is_below loc q" "loc \<noteq> []" "fs loc = None" "fs' loc = Some Dir" using assms(1) by (auto simp: only_dirs_def)
  obtain r r' where q: "q = base @ r" "q = loc @ r'" using assms(2) loc(1) unfolding is_below_iff by blast
  then have "(\<exists>us. loc = base @ us) \<or> (\<exists>us. base = loc @ us)" by (metis append_eq_append_conv2)
  moreover have "base \<noteq> loc @ us" for us
    using dirs_from_prefix [of fs "[]" loc us] assms(3) loc(2,3) by (auto simp: node_at_def)
  ultimately show "is_below base loc \<and> fs loc \<noteq> Some Dir \<and> \<not> is_link (fs' loc)"
    using loc by (auto simp: is_below_iff is_link_def)
qed

lemma is_below_butlast: "is_below base p \<Longrightarrow> p \<noteq> base \<Longrightarrow> is_below base (butlast p)"
  by (auto simp: is_below_iff butlast_append)

text \<open>Making the parents of a target below the root.\<close>

lemma mkdirs_contained:
  assumes "mkdirs fs (rev (butlast p)) = (fs', r)" and "solid fs p" and "is_below base p" and "dirs_from fs [] base"
  shows "contained base fs fs'"
proof -
  have od: "only_dirs (butlast p) fs fs'"
    using mkdirs_only_dirs [OF assms(1)] solid_butlast [OF assms(2)] by simp
  show ?thesis
  proof (cases "p = base")
    case False
    then show ?thesis using only_dirs_contained [OF od] is_below_butlast assms(3,4) by blast
  next
    case True
    have "fs' = fs"
    proof (rule ext, rule ccontr)
      fix loc
      assume "fs' loc \<noteq> fs loc"
      then have loc: "is_below loc (butlast p)" "loc \<noteq> []" "fs loc = None" using od by (auto simp: only_dirs_def)
      then obtain us where "base = loc @ us" using True
        by (metis append.assoc append_butlast_last_id butlast.simps(1) is_below_iff append_is_Nil_conv)
      then show False using dirs_from_prefix [of fs "[]" loc us] assms(4) loc(2,3) by (simp add: node_at_def)
    qed
    then show ?thesis by simp
  qed
qed

lemma os_replace_contained:
  "solid fs p \<Longrightarrow> is_below base p \<Longrightarrow> os_replace fs p data = Inr fs' \<Longrightarrow> contained base fs fs'"
  using os_replace_effect [of fs p data fs'] by (simp add: contained_upd is_link_def)

lemma os_write_contained:
  "solid fs p \<Longrightarrow> is_below base p \<Longrightarrow> os_write fs p data = Inr fs' \<Longrightarrow> contained base fs fs'"
  using os_write_effect [of fs p data fs'] by (auto simp: contained_upd is_link_def)

lemma create_file_contained:
  assumes "create_file fs p content overwrite = (fs', r)" and "solid fs p" and "is_below base p" and "dirs_from fs [] base"
  shows "contained base fs fs'"
proof (cases "os_exists fs p \<and> \<not> overwrite")
  case True
  then show ?thesis using assms(1) by (simp add: create_file_def)
next
  case False
  obtain fs1 r1 where mk: "mkdirs fs (rev (butlast p)) = (fs1, r1)" by (cases "mkdirs fs (rev (butlast p))")
  have c1: "contained base fs fs1" by (rule mkdirs_contained [OF mk assms(2-4)])
  have "contained base fs1 fs'"
    using assms(1) False mk os_replace_contained [OF contained_solid [OF c1 assms(2)] assms(3), of content fs']
    by (cases r1) (auto simp: create_file_def split: sum.splits)
  with c1 show ?thesis by (rule contained_trans)
qed

lemma substitute_contained:
  assumes "substitute fs p old new = Inr (fs', n, k)" and "solid fs p" and "is_below base p"
  shows "contained base fs fs'"
  using assms os_replace_contained [OF assms(2,3)]
  by (auto simp: substitute_def Let_def bind_sum_Inr_iff split: sum.splits os_error.splits if_splits)

lemma append_file_contained:
  assumes "append_file fs p content = Inr (fs', k)" and "solid fs p" and "is_below base p"
  shows "contained base fs fs'"
  using assms os_replace_contained [OF assms(2,3)] by (auto simp: append_file_def Let_def bind_sum_Inr_iff)

lemma write_targets_contained:
  assumes "write_targets fs files targets = (fs', r)" and "\<forall>(relative, t) \<in> set targets. solid fs t \<and> is_below base t"
    and "dirs_from fs [] base"
  shows "contained base fs fs'"
  using assms
proof (induction targets arbitrary: fs fs' r)
  case (Cons a targets)
  obtain relative t where a: "a = (relative, t)" by (cases a)
  have t: "solid fs t" "is_below base t" using Cons.prems(2) a by auto
  obtain fs1 r1 where mk: "mkdirs fs (rev (butlast t)) = (fs1, r1)" by (cases "mkdirs fs (rev (butlast t))")
  have c1: "contained base fs fs1" by (rule mkdirs_contained [OF mk t Cons.prems(3)])
  show ?case
  proof (cases r1)
    case (Inl e)
    then show ?thesis using Cons.prems(1) a mk c1 by simp
  next
    case (Inr u)
    show ?thesis
    proof (cases "os_write fs1 t (or_else (map_of files relative) [])")
      case Inl
      then show ?thesis using Cons.prems(1) a mk c1 Inr by simp
    next
      case written: (Inr fs2)
      have c2: "contained base fs fs2"
        by (rule contained_trans [OF c1 os_write_contained [OF contained_solid [OF c1 t(1)] t(2) written]])
      obtain fs3 r3 where rest: "write_targets fs2 files targets = (fs3, r3)" by (cases "write_targets fs2 files targets")
      have "contained base fs2 fs3"
        by (rule Cons.IH [OF rest])
           (use Cons.prems(2,3) contained_solid [OF c2] contained_dirs_from [OF c2] in auto)
      moreover have "fs' = fs3" using Cons.prems(1) a mk Inr written rest by (cases r3) simp_all
      ultimately show ?thesis using contained_trans [OF c2] by simp
    qed
  qed
qed simp

lemma check_targets_Inr:
  "check_targets fs base files = Inr targets \<Longrightarrow> (relative, t) \<in> set targets \<Longrightarrow> solid fs t \<and> is_below base t"
proof (induction files arbitrary: targets)
  case (Cons a files)
  obtain k c where a: "a = (k, c)" by (cases a)
  from Cons.prems(1) obtain u rest where u: "path_resolve fs base (mk_path k) = Inr u" "is_below base u"
      and rest: "check_targets fs base files = Inr rest" "targets = (k, u) # rest"
    by (auto simp: a bind_sum_Inr_iff split: if_splits)
  have "solid fs u" using u(1) realpath_solid [of fs "[]" _ u] by (auto simp: path_resolve_def split: option.splits)
  with u(2) Cons.IH [OF rest(1)] Cons.prems(2) rest(2) show ?case by auto
qed simp

text \<open>What a single occurrence means, and what becomes of it.\<close>

lemma replace_first_once:
  assumes "occurrences old s = 1" and "old \<noteq> []"
  shows "\<exists>pre post. s = pre @ old @ post \<and> replace_first old new s = pre @ new @ post \<and> occurrences old post = 0
    \<and> (\<forall>k < length pre. take (length old) (drop k s) \<noteq> old)"
  using assms
proof (induction s)
  case (Cons c cs)
  show ?case
  proof (cases "take (length old) (c # cs) = old")
    case True
    define post where "post = drop (length old) (c # cs)"
    have "post = drop (length old - 1) cs" using assms(2) by (cases old) (simp_all add: post_def)
    then have "occurrences old post = 0" using Cons.prems True assms(2) by simp
    moreover have "c # cs = [] @ old @ post" using True append_take_drop_id [of "length old" "c # cs"] by (simp add: post_def)
    moreover have "replace_first old new (c # cs) = [] @ new @ post" using True by (simp add: post_def)
    ultimately show ?thesis by (metis less_nat_zero_code list.size(3))
  next
    case False
    with Cons obtain pre post where "cs = pre @ old @ post" "replace_first old new cs = pre @ new @ post" "occurrences old post = 0"
        and clean: "\<forall>k < length pre. take (length old) (drop k cs) \<noteq> old" by auto
    moreover have "take (length old) (drop k (c # cs)) \<noteq> old" if "k < length (c # pre)" for k
      using that clean False by (cases k) auto
    ultimately show ?thesis using False by (intro exI [of _ "c # pre"] exI [of _ post]) auto
  qed
qed simp

lemma substitute_effect:
  assumes "substitute fs p old new = Inr (fs', n, k)" and "old \<noteq> []"
  shows "n \<noteq> 1 \<and> fs' = fs \<or> n = 1 \<and> (\<exists>data pre post d. os_read fs p = Inr data \<and> read_text data = pre @ old @ post
    \<and> occurrences old post = 0 \<and> (\<forall>k < length pre. take (length old) (drop k (read_text data)) \<noteq> old)
    \<and> os_parent fs p = Inr d \<and> p \<noteq> [] \<and> fs' = fs(d @ [last p] \<mapsto> File 384 (pre @ new @ post)))"
proof (cases "os_read fs p")
  case (Inl e)
  then show ?thesis using assms(1) by (cases e) (auto simp: substitute_def)
next
  case (Inr data)
  show ?thesis
  proof (cases "occurrences old (read_text data) = 1")
    case False
    then show ?thesis using assms(1) Inr by (auto simp: substitute_def Let_def)
  next
    case True
    then obtain fs1 where "os_replace fs p (replace_first old new (read_text data)) = Inr fs1" "fs' = fs1" "n = 1"
      using assms(1) Inr by (auto simp: substitute_def Let_def bind_sum_Inr_iff)
    then obtain d where "os_parent fs p = Inr d" "p \<noteq> []" "n = 1"
        "fs' = fs(d @ [last p] \<mapsto> File 384 (replace_first old new (read_text data)))"
      using os_replace_at by metis
    moreover obtain pre post where "read_text data = pre @ old @ post" "occurrences old post = 0"
        "replace_first old new (read_text data) = pre @ new @ post"
        "\<forall>k < length pre. take (length old) (drop k (read_text data)) \<noteq> old"
      using replace_first_once [OF True assms(2)] by blast
    ultimately show ?thesis using Inr by metis
  qed
qed

text \<open>
  The file at the path \<open>p\<close> as it was read, with the one occurrence of the old text replaced, is written at the location \<open>q\<close>, the entry of its
  last name in the directory the rest of \<open>p\<close> leads to; nothing else differs.
\<close>

definition replaced_once :: "filesystem \<Rightarrow> json_object \<Rightarrow> string list \<Rightarrow> location \<Rightarrow> filesystem \<Rightarrow> bool" where
  "replaced_once fs args p q fs' \<longleftrightarrow> p \<noteq> [] \<and> q \<noteq> [] \<and> os_parent fs p = Inr (butlast q) \<and> last q = last p \<and>
     (\<exists>data old new pre post. os_read fs p = Inr data \<and> map_of args ''old_string'' = Some (JStr old)
        \<and> argument args ''new_string'' (JStr []) = JStr new \<and> read_text data = pre @ old @ post \<and> occurrences old post = 0
        \<and> (\<forall>k < length pre. take (length old) (drop k (read_text data)) \<noteq> old)
        \<and> fs' = fs(q \<mapsto> File 384 (pre @ new @ post)))"

lemma edit_replace_arguments:
  assumes "edit_replace fs args p relative command elapsed = (fs', res)"
  obtains (refused) e where "fs' = fs" "res = Inl e"
  | (tried) old new k written where "map_of args ''old_string'' = Some (JStr old)"
      "argument args ''new_string'' (JStr []) = JStr new" "old \<noteq> []" "substitute fs p old new = Inr (fs', k, written)"
      "\<exists>r. res = Inr r \<and> (succeeded r \<longleftrightarrow> k = 1)"
proof (cases "bind_sum (string_argument ''edit_file'' args ''old_string'' None) (\<lambda>old.
           bind_sum (string_argument ''edit_file'' args ''new_string'' (Some [])) (\<lambda>new.
           if old = [] then Inl (ToolExecutionError ''edit_file'' ''old_string must not be empty'') else Inr (old, new)))")
  case (Inl e)
  then show thesis using assms by (intro refused) (auto simp: edit_replace_def Let_def)
next
  case (Inr both)
  obtain old new where both: "both = (old, new)" by (cases both)
  have ne: "old \<noteq> []" and args: "map_of args ''old_string'' = Some (JStr old)" "argument args ''new_string'' (JStr []) = JStr new"
    using Inr both by (auto simp: bind_sum_Inr_iff string_argument_def argument_def split: if_splits json.splits option.splits)
  show thesis
  proof (cases "substitute fs p old new")
    case Inl
    then show thesis using assms Inr both by (intro refused) (auto simp: edit_replace_def Let_def)
  next
    case sub: (Inr t)
    obtain fs1 k written where t: "t = (fs1, k, written)" by (cases t)
    have "fs1 = fs'" "\<exists>r. res = Inr r \<and> (succeeded r \<longleftrightarrow> k = 1)"
      using assms Inr both sub t by (auto simp: edit_replace_def Let_def local_result_def succeeded_def)
    then show thesis using args ne sub t by (intro tried) auto
  qed
qed

lemma edit_replace_effect:
  assumes "edit_replace fs args p relative command elapsed = (fs', res)"
  shows "fs' = fs \<and> (\<forall>r. res = Inr r \<longrightarrow> \<not> succeeded r)
    \<or> (\<exists>r. res = Inr r \<and> succeeded r) \<and> (\<exists>q. replaced_once fs args p q fs')"
  using assms
proof (cases rule: edit_replace_arguments)
  case (refused e)
  then show ?thesis by simp
next
  case (tried old new k written)
  show ?thesis
  proof (cases "k = 1")
    case False
    with tried(5) substitute_effect [OF tried(4,3)] show ?thesis by auto
  next
    case True
    with substitute_effect [OF tried(4,3)] obtain data pre post d where sub: "os_read fs p = Inr data" "read_text data = pre @ old @ post"
      "occurrences old post = 0" "\<forall>k < length pre. take (length old) (drop k (read_text data)) \<noteq> old"
      "os_parent fs p = Inr d" "p \<noteq> []" "fs' = fs(d @ [last p] \<mapsto> File 384 (pre @ new @ post))"
      by blast
    have "replaced_once fs args p (d @ [last p]) fs'" unfolding replaced_once_def using sub tried(1,2) by force
    with True tried(5) show ?thesis by blast
  qed
qed

text \<open>Where no component of the path is a link, the path is the location.\<close>

lemma replaced_once_solid: "replaced_once fs args p q fs' \<Longrightarrow> solid fs p \<Longrightarrow> q = p"
  by (metis append_butlast_last_id os_parent_solid replaced_once_def)

lemma joined_first_char:
  "ws \<noteq> [] \<Longrightarrow> hd ws \<noteq> [] \<Longrightarrow> take 1 (join_with sep ws) = take 1 (hd ws)"
  by (induction sep ws rule: join_with.induct) (auto simp: neq_Nil_conv)

lemma mk_path_absolute:
  assumes "ws \<noteq> []" and "\<forall>w \<in> set ws. w \<noteq> [] \<and> w \<noteq> ''.'' \<and> CHR ''/'' \<notin> set w"
  shows "mk_path (CHR ''/'' # join_with CHR ''/'' ws) = \<lparr>pt_root = ''/'', pt_parts = ws\<rparr>"
proof -
  have hd: "hd ws \<noteq> []" "CHR ''/'' \<notin> set (hd ws)" using assms by auto
  then have "take 1 (join_with CHR ''/'' ws) \<noteq> ''/''"
    using joined_first_char [OF assms(1) hd(1), of "CHR ''/''"] by (cases "hd ws") auto
  then have "take 2 (CHR ''/'' # join_with CHR ''/'' ws) \<noteq> ''//''" by (simp add: numeral_2_eq_2)
  moreover have "filter (\<lambda>w. w \<noteq> [] \<and> w \<noteq> ''.'') ws = ws" using assms(2) by (simp add: filter_id_conv)
  ultimately show ?thesis using assms split_join [of ws "CHR ''/''"] by (simp add: mk_path_def)
qed

lemma dirs_from_plain: "dirs_from fs p ns \<Longrightarrow> n \<in> set ns \<Longrightarrow> plain_name n"
  by (induction ns arbitrary: p) auto

section \<open>Properties\<close>

text \<open>
  C27. Whatever paths a coder's answer names, absolute ones, climbing ones and ones through planted links included, writing its files changes nothing
  outside the workspace, replaces no directory and makes no link; when a path is refused, or the workspace is
  read-only, nothing is written at all.
\<close>

theorem coder_files_stay_inside:
  assumes "path_resolve fs cwd (mk_path (wk_path h)) = Inr base" and "dirs_from fs [] base"
    and "write_files fs cwd h files = (fs', res)"
  shows "contained base fs fs' \<and> ((\<exists>e. res = Inl (WorkspaceError e)) \<or> \<not> is_writable h \<longrightarrow> fs' = fs)"
proof (cases "is_writable h")
  case False
  then show ?thesis using assms(3) by (simp add: write_files_def)
next
  case w: True
  show ?thesis
  proof (cases "check_targets fs base files")
    case (Inl e)
    then show ?thesis using assms w by (simp add: write_files_def write_all_def)
  next
    case (Inr targets)
    then have wt: "write_targets fs files targets = (fs', res)" using assms w by (simp add: write_files_def write_all_def)
    have "contained base fs fs'"
      by (rule write_targets_contained [OF wt _ assms(2)]) (use check_targets_Inr [OF Inr] in auto)
    moreover have "res \<noteq> Inl (WorkspaceError e)" for e
      using wt
    proof (induction targets arbitrary: fs fs' res)
      case (Cons a ts)
      then show ?case by (cases a) (auto simp: bind_outcome_def split: prod.splits sum.splits)
    qed simp
    ultimately show ?thesis using w by simp
  qed
qed

definition demo_fs :: filesystem where
  "demo_fs = [[''ws''] \<mapsto> Dir, [''etc''] \<mapsto> Dir, [''etc'', ''passwd''] \<mapsto> File 420 ''root:x'',
     [''ws'', ''door''] \<mapsto> Link ''/etc'', [''ws'', ''run''] \<mapsto> File 493 (''a'' @ [CHR 0x0D, CHR 0x0A] @ ''b'')]"

definition demo_handle :: workspace_handle where
  "demo_handle = \<lparr>wk_id = WorkspaceId 1, wk_run_id = RunId 2, wk_role = WR_CANDIDATE, wk_kind = GIT_WORKTREE, wk_path = ''/ws'',
     wk_base_revision = None, wk_branch = None, wk_candidate_id = Some (CandidateId 4)\<rparr>"

lemma demo_base: "path_resolve demo_fs [] (mk_path (wk_path demo_handle)) = Inr [''ws'']"
  by (simp add: path_resolve_def demo_handle_def mk_path_def absolute_parts_def is_absolute_def realpath_plain plain_name_def
      is_link_def demo_fs_def)

lemma demo_dirs: "dirs_from demo_fs [] [''ws'']"
  by (simp add: node_at_def demo_fs_def plain_name_def)

lemmas demo_path_eval = path_resolve_def mk_path_def absolute_parts_def is_absolute_def realpath_plain plain_name_def is_link_def

lemma demo_door: "path_resolve demo_fs [''ws''] (mk_path ''door/passwd'') = Inr [''etc'', ''passwd'']"
proof -
  have "realpath demo_fs [] [''ws'', ''door'', ''passwd''] = realpath demo_fs [''ws''] [''door'', ''passwd'']"
    by (simp add: demo_path_eval demo_fs_def)
  also have "\<dots> = realpath demo_fs [] [[], ''etc'', ''passwd'']"
    by (subst realpath.simps) (simp add: demo_fs_def)
  also have "\<dots> = realpath demo_fs [] [''etc'', ''passwd'']"
    by (subst realpath.simps) simp
  also have "\<dots> = Some [''etc'', ''passwd'']" by (simp add: demo_path_eval demo_fs_def)
  finally show ?thesis by (simp add: path_resolve_def mk_path_def absolute_parts_def is_absolute_def)
qed

theorem coder_files_stay_inside_witness:
  "(\<exists>e. snd (write_files demo_fs [] demo_handle [(''a.py'', ''x''), (''door/passwd'', ''y'')]) = Inl (WorkspaceError e))
   \<and> fst (write_files demo_fs [] demo_handle [(''a.py'', ''x''), (''door/passwd'', ''y'')]) = demo_fs"
proof -
  let ?files = "[(''a.py'', ''x''), (''door/passwd'', ''y'')]"
  have "path_resolve demo_fs [''ws''] (mk_path ''a.py'') = Inr [''ws'', ''a.py'']"
    by (simp add: demo_path_eval demo_fs_def)
  then have "check_targets demo_fs [''ws''] ?files
      = Inl (WorkspaceError (''refusing to write outside the workspace: '' @ quoted ''door/passwd''))"
    by (simp add: demo_door is_below_def)
  then have w: "write_files demo_fs [] demo_handle ?files
      = (demo_fs, Inl (WorkspaceError (''refusing to write outside the workspace: '' @ quoted ''door/passwd'')))"
    using demo_base by (simp add: write_files_def write_all_def is_writable_def demo_handle_def)
  from coder_files_stay_inside [OF demo_base demo_dirs w] show ?thesis by (simp add: w)
qed

text \<open>
  A path that names a directory passes the check of \<open>_write_all\<close> and fails only when it is written, with an exception of the operating system and after
  the files before it were written.
\<close>

lemma batch_can_be_half_applied:
  "write_files demo_fs [] demo_handle [(''run'', ''x''), (''.'', ''y'')]
     = (demo_fs([''ws'', ''run''] \<mapsto> File 493 ''x''), Inl (OtherException ''OSError''))"
proof -
  have "path_resolve demo_fs [''ws''] (mk_path ''run'') = Inr [''ws'', ''run'']"
    "path_resolve demo_fs [''ws''] (mk_path ''.'') = Inr [''ws'']"
    by (simp_all add: demo_path_eval demo_fs_def)
  then have "check_targets demo_fs [''ws''] [(''run'', ''x''), (''.'', ''y'')] = Inr [(''run'', [''ws'', ''run'']), (''.'', [''ws''])]"
    by (simp add: is_below_def)
  then show ?thesis
    using demo_base
    by (simp add: write_files_def write_all_def is_writable_def demo_handle_def os_mkdir_def os_parent_def os_open_def os_walk_Cons
        node_at_def demo_fs_def os_is_dir_def os_write_def)
qed

text \<open>
  C28. An edit is all or nothing and hits one place. In replace mode, for any path, either nothing on the disk changes and
  the answer is an exception or an unsuccessful result; or the workspace is writable, the path passed the check, the old text
  occurs once in what was read, and afterwards one file is what was read with that occurrence replaced, and nothing else
  differs. What was read is the file after decoding, with every line end made a line feed, and the file becomes private to its owner. When
  the path is not absolute that file is inside the workspace; an absolute path is only compared with the root by its components, so
  the location its directory leads to may be anywhere.
\<close>

theorem edit_replaces_one_place:
  assumes "edit_file fs cwd iv h elapsed = (fs', res)" and "map_of (iv_arguments iv) ''path'' = Some (JStr relative)"
    and "argument (iv_arguments iv) ''mode'' (JStr ''replace'') = JStr ''replace''"
  shows "fs' = fs \<and> (\<forall>r. res = Inr r \<longrightarrow> \<not> succeeded r)
    \<or> (\<exists>r base p q. res = Inr r \<and> succeeded r \<and> is_writable h \<and> path_resolve fs cwd (mk_path (wk_path h)) = Inr base
        \<and> resolve_in_workspace fs cwd ''edit_file'' h relative = Inr p \<and> replaced_once fs (iv_arguments iv) p q fs'
        \<and> (\<not> is_absolute (mk_path relative) \<longrightarrow> q = p \<and> is_below base q))"
proof -
  let ?args = "iv_arguments iv"
  have path: "string_argument ''edit_file'' ?args ''path'' None = Inr relative"
    using assms(2) by (simp add: string_argument_def argument_def)
  have mode: "string_argument ''edit_file'' ?args ''mode'' (Some ''replace'') = Inr ''replace''"
    using assms(3) by (simp add: string_argument_def)
  show ?thesis
  proof (cases "is_writable h")
    case False
    then show ?thesis using assms(1) by (auto simp: edit_file_def Let_def)
  next
    case w: True
    show ?thesis
    proof (cases "resolve_in_workspace fs cwd ''edit_file'' h relative")
      case (Inl e)
      then show ?thesis using assms(1) w path by (auto simp: edit_file_def Let_def)
    next
      case (Inr p)
      obtain base where base: "path_resolve fs cwd (mk_path (wk_path h)) = Inr base"
        using Inr unfolding resolve_in_workspace_def bind_sum_Inr_iff by blast
      have inside: "q = p \<and> is_below base q" if "\<not> is_absolute (mk_path relative)" "replaced_once fs ?args p q fs'" for q
        using resolve_relative [OF Inr that(1)] replaced_once_solid [OF that(2)] base by auto
      have "edit_replace fs ?args p relative (''edit_file --mode replace '' @ relative) elapsed = (fs', res)"
        using assms(1) w path mode Inr by (simp add: edit_file_def Let_def EDIT_MODES_def)
      from edit_replace_effect [OF this] show ?thesis
      proof
        assume "(\<exists>r. res = Inr r \<and> succeeded r) \<and> (\<exists>q. replaced_once fs ?args p q fs')"
        with inside base w Inr show ?thesis by blast
      qed simp
    qed
  qed
qed

definition demo_edit :: tool_invocation where
  "demo_edit = \<lparr>iv_tool = ''edit_file'', iv_kind = EDIT,
     iv_arguments = [(''path'', JStr ''run''), (''old_string'', JStr ''b''), (''new_string'', JStr ''c'')], iv_limits = default_limits\<rparr>"

text \<open>The edit of one character of an executable script with carriage returns: the mode and every line end change with it.\<close>

lemma demo_edit_result:
  "\<exists>r. edit_file demo_fs [] demo_edit demo_handle 0
     = (demo_fs([''ws'', ''run''] \<mapsto> File 384 (''a'' @ [CHR 0x0A] @ ''c'')), Inr r) \<and> succeeded r"
proof -
  have res: "resolve_in_workspace demo_fs [] ''edit_file'' demo_handle ''run'' = Inr [''ws'', ''run'']"
    unfolding resolve_in_workspace_def demo_base by (simp add: demo_path_eval demo_fs_def is_below_def)
  have data: "os_read demo_fs [''ws'', ''run''] = Inr (''a'' @ [CHR 0x0D, CHR 0x0A] @ ''b'')"
    by (simp add: os_read_def os_open_def os_walk_Cons node_at_def demo_fs_def)
  have decoded: "read_text (''a'' @ [CHR 0x0D, CHR 0x0A] @ ''b'') = ''a'' @ [CHR 0x0A] @ ''b''"
    by (simp add: read_text_def utf8_lead_def)
  have rep: "os_replace demo_fs [''ws'', ''run''] d = Inr (demo_fs([''ws'', ''run''] \<mapsto> File 384 d))" for d
    by (simp add: os_replace_def os_parent_def os_open_def os_walk_Cons node_at_def demo_fs_def)
  have "substitute demo_fs [''ws'', ''run''] ''b'' ''c''
      = Inr (demo_fs([''ws'', ''run''] \<mapsto> File 384 (''a'' @ [CHR 0x0A] @ ''c'')), 1, 3)"
    unfolding substitute_def data using decoded by (simp add: Let_def rep)
  then show ?thesis
    using res
    by (simp add: edit_file_def demo_edit_def string_argument_def argument_def is_writable_def demo_handle_def Let_def
        EDIT_MODES_def edit_replace_def local_result_def succeeded_def)
qed

theorem edit_replaces_one_place_witness:
  "\<exists>p. replaced_once demo_fs (iv_arguments demo_edit) p p (fst (edit_file demo_fs [] demo_edit demo_handle 0))"
proof -
  obtain r where r: "edit_file demo_fs [] demo_edit demo_handle 0
      = (demo_fs([''ws'', ''run''] \<mapsto> File 384 (''a'' @ [CHR 0x0A] @ ''c'')), Inr r)" "succeeded r"
    using demo_edit_result by blast
  have "map_of (iv_arguments demo_edit) ''path'' = Some (JStr ''run'')"
    "argument (iv_arguments demo_edit) ''mode'' (JStr ''replace'') = JStr ''replace''"
    by (simp_all add: demo_edit_def argument_def is_absolute_def mk_path_def)
  moreover have "\<not> is_absolute (mk_path ''run'')" by (simp add: is_absolute_def mk_path_def)
  ultimately show ?thesis using edit_replaces_one_place [OF r(1)] r by auto
qed

text \<open>Occurrences are counted without overlaps, so an ambiguous text can count as unique.\<close>

lemma overlapping_text_counts_once: "occurrences ''aa'' ''aaa'' = 1 \<and> take 2 (drop 1 ''aaa'') = ''aa''"
  by (simp add: eval_nat_numeral)

text \<open>
  C29. An absolute path leaves the workspace. Name the workspace's own root, as many \<open>..\<close> as it is deep, and any file of the host: the
  argument is accepted, because an absolute path is compared with the root before anything is resolved, and \<open>read_file\<close> answers
  with the contents of that file.
\<close>

theorem absolute_path_leaves_the_workspace:
  assumes "path_resolve fs cwd (mk_path (wk_path h)) = Inr base" and "dirs_from fs [] base"
    and "dirs_from fs [] v" and "plain_name n" and "fs (v @ [n]) = Some (File m data)" and "CHR 0x00 \<notin> set data"
    and "\<forall>w \<in> set (base @ v @ [n]). CHR ''/'' \<notin> set w"
    and "iv_arguments iv = [(''path'', JStr (CHR ''/'' # join_with CHR ''/'' (base @ replicate (length base) ''..'' @ v @ [n])))]"
  shows "\<exists>r. read_file fs cwd limit iv h elapsed = Inr r \<and> succeeded r
    \<and> r_stdout r = py_join newline (file_lines (utf8_replace (take (nat limit) data)))"
proof -
  let ?ws = "base @ replicate (length base) ''..'' @ v @ [n]"
  let ?arg = "CHR ''/'' # join_with CHR ''/'' ?ws"
  have names: "w \<noteq> [] \<and> w \<noteq> ''.'' \<and> CHR ''/'' \<notin> set w" if "w \<in> set ?ws" for w
    using that assms(4,7) dirs_from_plain [OF assms(2)] dirs_from_plain [OF assms(3)] by (auto simp: plain_name_def)
  then have path: "mk_path ?arg = \<lparr>pt_root = ''/'', pt_parts = ?ws\<rparr>" by (intro mk_path_absolute) auto
  have res: "resolve_in_workspace fs cwd tool h ?arg = Inr ?ws" for tool
    unfolding resolve_in_workspace_def path using assms(1) by (simp add: is_absolute_def is_below_def)
  have "os_walk fs [] ?ws = os_walk fs v [n]"
    using os_walk_dirs [OF assms(2)] os_walk_climb [OF assms(2)] os_walk_dirs [OF assms(3), of "[n]"] by simp
  also have "\<dots> = Some (Inr (v @ [n]))"
    using dirs_from_prefix [of fs "[]" v "[]"] assms(3-5) by (simp add: os_walk_Cons plain_name_def)
  finally have "os_read fs ?ws = Inr data" using assms(5) by (simp add: os_read_def os_open_def node_at_def)
  moreover have "CHR 0x00 \<notin> set (take 8192 (take k data))" for k
    using assms(6) by (meson in_set_takeD)
  ultimately show ?thesis
    using res assms(8)
    by (simp add: read_file_def string_argument_def int_argument_def argument_def Let_def local_result_def succeeded_def)
qed

theorem absolute_path_leaves_the_workspace_witness:
  "\<exists>r. read_file demo_fs [] 200000
       \<lparr>iv_tool = ''read_file'', iv_kind = READ, iv_arguments = [(''path'', JStr ''/ws/../etc/passwd'')], iv_limits = default_limits\<rparr>
       demo_handle 0 = Inr r \<and> r_stdout r = ''root:x''"
proof -
  let ?iv = "\<lparr>iv_tool = ''read_file'', iv_kind = READ, iv_arguments = [(''path'', JStr ''/ws/../etc/passwd'')],
      iv_limits = default_limits\<rparr>"
  have "\<exists>r. read_file demo_fs [] 200000 ?iv demo_handle 0 = Inr r \<and> succeeded r
      \<and> r_stdout r = py_join newline (file_lines (utf8_replace (take (nat 200000) ''root:x'')))"
    by (rule absolute_path_leaves_the_workspace [OF demo_base demo_dirs, where v = "[''etc'']" and n = "''passwd''" and m = 420])
       (simp_all add: node_at_def demo_fs_def plain_name_def)
  moreover have "file_lines (utf8_replace (take (nat 200000) ''root:x'')) = [''root:x'']"
    by (simp add: utf8_lead_def file_lines_def)
  ultimately show ?thesis by (metis py_join.simps(2))
qed

end
