(* ===== verification/Tools.thy ===== *)
theory Tools
  imports Workspace_Files Shell
begin

text \<open>
  Running commands and choosing tools: bounded processes (\<open>src/src/infrastructure/tools/process.py\<close>), both sandboxes (\<open>sandbox.py\<close>), the
  command tools (\<open>commands.py\<close>), text search (\<open>search.py\<close>), and the registry with its allow-lists (\<open>registry.py\<close>). Starting a
  process is an argument (\<open>spawn\<close>): given the argument vector, the directory, the environment, the timeout and the resource limits it fails to
  start or says what the child's pipes deliver and how it ends.
\<close>

section \<open>Processes\<close>

definition TIMEOUT_EXIT_CODE :: int where
  "TIMEOUT_EXIT_CODE = 124"

record child =
  ch_out :: "string list"
  ch_err :: "string list"
  ch_exit_code :: int
  ch_duration_ms :: int
  ch_in_time :: bool
  ch_drained :: bool

record process_outcome =
  po_exit_code :: int
  po_stdout :: string
  po_stderr :: string
  po_truncated :: bool
  po_duration_ms :: int
  po_timed_out :: bool

text \<open>\<open>_read_capped\<close>: the chunks a pipe delivers; the empty one is the end of the stream.\<close>

fun read_loop :: "nat \<Rightarrow> nat \<Rightarrow> string \<Rightarrow> bool \<Rightarrow> string list \<Rightarrow> string \<times> bool" where
  "read_loop limit seen kept truncated [] = (kept, truncated)"
| "read_loop limit seen kept truncated (chunk # chunks) =
     (if chunk = [] then (kept, truncated)
      else read_loop limit (seen + length chunk)
             (if seen < limit then kept @ take (limit - seen) chunk else kept)
             (truncated \<or> limit < seen + length chunk) chunks)"

definition read_capped :: "nat \<Rightarrow> string list \<Rightarrow> string \<times> bool" where
  "read_capped limit chunks = read_loop limit 0 [] False chunks"

lemma read_loop_spec:
  "[] \<notin> set chunks \<Longrightarrow> read_loop limit (length s) (take limit s) (limit < length s) chunks
     = (take limit (s @ concat chunks), limit < length (s @ concat chunks))"
proof (induction chunks arbitrary: s)
  case (Cons c cs)
  have "take limit (s @ c) = (if length s < limit then take limit s @ take (limit - length s) c else take limit s)"
    by simp
  moreover have "(limit < length s \<or> limit < length s + length c) = (limit < length (s @ c))" by auto
  moreover have "c \<noteq> []" "[] \<notin> set cs" using Cons.prems by auto
  ultimately show ?case using Cons.IH [of "s @ c"] by simp
qed simp

type_synonym resource_limits = "(string \<times> int \<times> int) list"

type_synonym spawn =
  "string list \<Rightarrow> string \<Rightarrow> (string, string) dict \<Rightarrow> rat \<Rightarrow> resource_limits option \<Rightarrow> string + child"

definition run_capped_process ::
  "spawn \<Rightarrow> string list \<Rightarrow> string \<Rightarrow> (string, string) dict \<Rightarrow> rat \<Rightarrow> int \<Rightarrow> resource_limits option \<Rightarrow> string + process_outcome" where
  "run_capped_process spawn command cwd env timeout max_bytes preexec =
     bind_sum (spawn command cwd env timeout preexec) (\<lambda>c.
       let timed_out = \<not> ch_in_time c;
           read = (ch_in_time c \<or> ch_drained c);
           (out, out_cut) = (if read then read_capped (nat max_bytes) (ch_out c) else ([], False));
           (err, err_cut) = (if read then read_capped (nat max_bytes) (ch_err c) else ([], False))
       in Inr \<lparr>po_exit_code = (if timed_out then TIMEOUT_EXIT_CODE else ch_exit_code c), po_stdout = utf8_replace out,
                po_stderr = utf8_replace err, po_truncated = (out_cut \<or> err_cut), po_duration_ms = ch_duration_ms c,
                po_timed_out = timed_out\<rparr>)"

section \<open>Sandboxes\<close>

definition DEFAULT_ENVIRONMENT_ALLOWLIST :: "string list" where
  "DEFAULT_ENVIRONMENT_ALLOWLIST = [''PATH'', ''LANG'', ''LC_ALL'', ''TZ'']"

definition BLOCKED_NETWORK_ENVIRONMENT :: "(string, string) dict" where
  "BLOCKED_NETWORK_ENVIRONMENT =
     [(''http_proxy'', ''http://127.0.0.1:9''), (''https_proxy'', ''http://127.0.0.1:9''),
      (''HTTP_PROXY'', ''http://127.0.0.1:9''), (''HTTPS_PROXY'', ''http://127.0.0.1:9''), (''no_proxy'', []), (''NO_PROXY'', [])]"

definition DOCKER_CLIENT_ENVIRONMENT :: "string list" where
  "DOCKER_CLIENT_ENVIRONMENT = [''PATH'', ''HOME'', ''DOCKER_HOST'', ''DOCKER_CONFIG'', ''DOCKER_CERT_PATH'', ''DOCKER_TLS_VERIFY'']"

text \<open>\<open>os.defpath\<close>.\<close>

definition default_search_path :: string where
  "default_search_path = ''/bin:/usr/bin''"

definition dict_update :: "('k, 'v) dict \<Rightarrow> ('k, 'v) dict \<Rightarrow> ('k, 'v) dict" where
  "dict_update d e = fold (\<lambda>(k, v). dict_set k v) e d"

text \<open>\<open>{key: os.environ[key] for key in keys if key in os.environ}\<close> and the default search path.\<close>

definition copied :: "string list \<Rightarrow> (string, string) dict \<Rightarrow> (string, string) dict" where
  "copied names host =
     (let env = fold (\<lambda>k d. case dict_get host k of None \<Rightarrow> d | Some v \<Rightarrow> dict_set k v d) names []
      in if dict_get env ''PATH'' = None then dict_set ''PATH'' default_search_path env else env)"

record subprocess_sandbox =
  sb_allowlist :: "string list"
  sb_base_environment :: "(string, string) dict"
  sb_rlimits :: bool
  sb_home_in_workspace :: bool

definition default_subprocess_sandbox :: subprocess_sandbox where
  "default_subprocess_sandbox = \<lparr>sb_allowlist = DEFAULT_ENVIRONMENT_ALLOWLIST, sb_base_environment = [], sb_rlimits = True,
     sb_home_in_workspace = True\<rparr>"

definition sandbox_environment ::
  "subprocess_sandbox \<Rightarrow> (string, string) dict \<Rightarrow> string \<Rightarrow> execution_limits \<Rightarrow> (string, string) dict option \<Rightarrow> (string, string) dict" where
  "sandbox_environment sb host cwd limits extra =
     (let e1 = copied (sb_allowlist sb) host;
          e2 = (if sb_home_in_workspace sb then dict_set ''HOME'' cwd e1 else e1);
          e3 = dict_update (dict_set ''TMPDIR'' cwd e2) (sb_base_environment sb);
          e4 = (if lim_network_enabled limits then e3 else dict_update e3 BLOCKED_NETWORK_ENVIRONMENT)
      in dict_update e4 (or_else extra []))"

text \<open>\<open>_tool_label\<close>, on a command that is not empty, and \<open>_require_directory\<close>.\<close>

definition tool_label :: "string list \<Rightarrow> string" where
  "tool_label argv =
     (case argv of [] \<Rightarrow> ''sandbox''
      | a # _ \<Rightarrow> if pt_parts (mk_path a) = [] then [] else last (pt_parts (mk_path a)))"

definition require_directory :: "filesystem \<Rightarrow> location \<Rightarrow> string list \<Rightarrow> workspace_handle \<Rightarrow> error + string" where
  "require_directory fs cwd argv h =
     (if argv = [] then Inl (ToolExecutionError ''sandbox'' ''an empty command cannot be executed'')
      else if \<not> os_is_dir fs (absolute_parts cwd (mk_path (wk_path h)))
      then Inl (ToolExecutionError (tool_label argv) ''workspace directory does not exist'')
      else Inr (path_text (mk_path (wk_path h))))"

text \<open>What \<open>_rlimit_preexec\<close> sets: the resource, the soft and the hard limit. Zero cores or megabytes count as not given.\<close>

definition given :: "'a::zero option \<Rightarrow> 'a option" where
  "given v = (case v of Some x \<Rightarrow> if x = 0 then None else Some x | None \<Rightarrow> None)"

definition rlimit_preexec :: "execution_limits \<Rightarrow> resource_limits" where
  "rlimit_preexec limits =
     (let cpu = \<lfloor>lim_timeout_seconds limits * max (or_else (given (lim_cpu_count limits)) 1) 1\<rfloor> + 1 in
      [(''RLIMIT_CORE'', 0, 0)]
      @ (case given (lim_memory_mb limits) of
           None \<Rightarrow> [] | Some mb \<Rightarrow> [(''RLIMIT_AS'', mb * 1024 * 1024, mb * 1024 * 1024)])
      @ [(''RLIMIT_CPU'', cpu, cpu + 5)])"

definition to_result :: "string \<Rightarrow> string list \<Rightarrow> process_outcome \<Rightarrow> json_object \<Rightarrow> tool_result" where
  "to_result tool argv po metadata =
     \<lparr>r_tool = tool, r_kind = COMMAND, r_command = shlex_join argv, r_exit_code = po_exit_code po, r_stdout = po_stdout po,
      r_stderr = po_stderr po, r_duration_ms = po_duration_ms po, r_truncated = po_truncated po, r_artifacts = [],
      r_tool_metadata = dict_update metadata [(''timed_out'', JBool (po_timed_out po))]\<rparr>"

definition subprocess_run ::
  "subprocess_sandbox \<Rightarrow> filesystem \<Rightarrow> location \<Rightarrow> (string, string) dict \<Rightarrow> spawn \<Rightarrow> string list \<Rightarrow> workspace_handle
   \<Rightarrow> execution_limits \<Rightarrow> (string, string) dict option \<Rightarrow> error + tool_result" where
  "subprocess_run sb fs cwd host spawn argv h limits vars =
     bind_sum (require_directory fs cwd argv h) (\<lambda>dir.
       case run_capped_process spawn argv dir (sandbox_environment sb host dir limits vars) (lim_timeout_seconds limits)
              (lim_max_output_bytes limits) (if sb_rlimits sb then Some (rlimit_preexec limits) else None) of
         Inl _ \<Rightarrow> Inl (ToolExecutionError (tool_label argv) ''command could not be started'')
       | Inr po \<Rightarrow> Inr (to_result (tool_label argv) argv po
           [(''sandbox'', JStr ''subprocess''), (''cwd'', JStr dir), (''network_isolated'', JBool False),
            (''filesystem_isolated'', JBool False)]))"

record docker_sandbox =
  dk_image :: string
  dk_executable :: string
  dk_mount :: string
  dk_pids_limit :: int
  dk_user :: string
  dk_extra_arguments :: "string list"

text \<open>\<open>_docker_argv\<close>; \<open>general\<close> is the format \<open>:g\<close> of a number.\<close>

definition docker_argv ::
  "(rat \<Rightarrow> string) \<Rightarrow> docker_sandbox \<Rightarrow> string \<Rightarrow> string \<Rightarrow> execution_limits \<Rightarrow> (string, string) dict option \<Rightarrow> string list \<Rightarrow> string list" where
  "docker_argv general dk container cwd limits vars argv =
     [dk_executable dk, ''run'', ''--rm'', ''--name'', container, ''--workdir'', dk_mount dk, ''--volume'', cwd @ '':'' @ dk_mount dk,
      ''--user'', dk_user dk, ''--cap-drop'', ''ALL'', ''--security-opt'', ''no-new-privileges'',
      ''--pids-limit'', show_int (dk_pids_limit dk), ''--tmpfs'', ''/tmp:rw,size=256m'', ''--env'', ''HOME='' @ dk_mount dk]
     @ (if lim_network_enabled limits then [] else [''--network'', ''none''])
     @ (case given (lim_memory_mb limits) of
          None \<Rightarrow> [] | Some mb \<Rightarrow> [''--memory'', show_int mb @ ''m'', ''--memory-swap'', show_int mb @ ''m''])
     @ (case given (lim_cpu_count limits) of None \<Rightarrow> [] | Some n \<Rightarrow> [''--cpus'', general n])
     @ concat (map (\<lambda>(k, v). [''--env'', k @ ''='' @ v]) (or_else vars []))
     @ dk_extra_arguments dk @ [dk_image dk] @ argv"

fun starts_here :: "string \<Rightarrow> string \<Rightarrow> bool" where
  "starts_here [] s = True"
| "starts_here (c # cs) (d # ds) = (c = d \<and> starts_here cs ds)"
| "starts_here _ _ = False"

fun substring :: "string \<Rightarrow> string \<Rightarrow> bool" where
  "substring p [] = (p = [])"
| "substring p (c # cs) = (starts_here p (c # cs) \<or> substring p cs)"

definition reject_start_failure :: "string \<Rightarrow> process_outcome \<Rightarrow> error + unit" where
  "reject_start_failure tool po =
     (if po_timed_out po then Inr ()
      else if po_exit_code po = 125 \<or> po_exit_code po = 127 \<and> substring ''executable file not found'' (po_stderr po)
      then Inl (ToolExecutionError tool ''container could not run the command'')
      else Inr ())"

text \<open>\<open>DockerSandboxExecutor.run\<close>: the argument vectors it started, in order, and its result.\<close>

definition docker_run ::
  "(rat \<Rightarrow> string) \<Rightarrow> docker_sandbox \<Rightarrow> bool \<Rightarrow> filesystem \<Rightarrow> location \<Rightarrow> (string, string) dict \<Rightarrow> spawn \<Rightarrow> string
   \<Rightarrow> string list \<Rightarrow> workspace_handle \<Rightarrow> execution_limits \<Rightarrow> (string, string) dict option \<Rightarrow> string list list \<times> (error + tool_result)" where
  "docker_run general dk available fs cwd host spawn container argv h limits vars =
     (let tool = tool_label argv in
      case require_directory fs cwd argv h of
        Inl e \<Rightarrow> ([], Inl e)
      | Inr dir \<Rightarrow>
          if \<not> available then ([], Inl (ToolExecutionError tool ''docker is not available on this host''))
          else
            let full = docker_argv general dk container dir limits vars argv;
                client = copied DOCKER_CLIENT_ENVIRONMENT host
            in case run_capped_process spawn full dir client (lim_timeout_seconds limits + 10) (lim_max_output_bytes limits) None of
                 Inl _ \<Rightarrow> ([full], Inl (ToolExecutionError tool ''docker could not be started''))
               | Inr po \<Rightarrow>
                   (full # (if po_timed_out po then [[dk_executable dk, ''rm'', ''--force'', container]] else []),
                    bind_sum (reject_start_failure tool po) (\<lambda>_.
                      Inr (to_result tool argv po
                        [(''sandbox'', JStr ''docker''), (''image'', JStr (dk_image dk)), (''container'', JStr container),
                         (''network_isolated'', JBool (\<not> lim_network_enabled limits)), (''filesystem_isolated'', JBool True)]))))"

definition create_sandbox_executor ::
  "bool \<Rightarrow> bool \<Rightarrow> string \<Rightarrow> string \<Rightarrow> string list \<Rightarrow> (string, string) dict \<Rightarrow> docker_sandbox + subprocess_sandbox" where
  "create_sandbox_executor available prefer_docker img user allowlist base =
     (if prefer_docker \<and> available
      then Inl \<lparr>dk_image = img, dk_executable = ''docker'', dk_mount = ''/workspace'', dk_pids_limit = 512, dk_user = user,
                dk_extra_arguments = []\<rparr>
      else Inr (default_subprocess_sandbox\<lparr>sb_allowlist := allowlist, sb_base_environment := base\<rparr>))"

section \<open>Command tools\<close>

text \<open>A sandbox as the command tools see it.\<close>

type_synonym sandbox = "string list \<Rightarrow> workspace_handle \<Rightarrow> execution_limits \<Rightarrow> (string, string) dict option \<Rightarrow> error + tool_result"

definition relabelled :: "string \<Rightarrow> tool_kind \<Rightarrow> tool_result \<Rightarrow> tool_result" where
  "relabelled tool kind r = r\<lparr>r_tool := tool, r_kind := kind\<rparr>"

text \<open>\<open>str(path)\<close> of an absolute path.\<close>

definition location_text :: "string list \<Rightarrow> string" where
  "location_text p = CHR ''/'' # join_with CHR ''/'' p"

definition working_directory ::
  "filesystem \<Rightarrow> location \<Rightarrow> string \<Rightarrow> workspace_handle \<Rightarrow> json_object \<Rightarrow> error + workspace_handle" where
  "working_directory fs cwd tool h args =
     (case map_of args ''working_directory'' of
        Some (JStr requested) \<Rightarrow>
          if requested = [] then Inr h
          else bind_sum (resolve_in_workspace fs cwd tool h requested) (\<lambda>p. Inr (h\<lparr>wk_path := location_text p\<rparr>))
      | _ \<Rightarrow> Inr h)"

definition narrowed_limits :: "string \<Rightarrow> tool_invocation \<Rightarrow> error + execution_limits" where
  "narrowed_limits tool iv =
     (case argument (iv_arguments iv) ''timeout_seconds'' JNull of
        JNull \<Rightarrow> Inr (iv_limits iv)
      | _ \<Rightarrow>
          bind_sum (int_argument tool (iv_arguments iv) ''timeout_seconds'' 0 1) (\<lambda>seconds.
            mk_execution_limits
              ((iv_limits iv)\<lparr>lim_timeout_seconds := min (of_int seconds) (lim_timeout_seconds (iv_limits iv))\<rparr>)))"

text \<open>\<open>RunCommandTool.execute\<close>; an empty list of executables counts as none given.\<close>

definition run_command ::
  "sandbox \<Rightarrow> string list option \<Rightarrow> filesystem \<Rightarrow> location \<Rightarrow> tool_invocation \<Rightarrow> workspace_handle \<Rightarrow> error + tool_result" where
  "run_command sandbox allowed fs cwd iv h =
     (let tool = ''run_command'' in
      bind_sum (string_list_argument tool (iv_arguments iv) ''command'') (\<lambda>argv.
      if argv = [] then Inl (ToolExecutionError tool ''command must not be empty'')
      else if allowed \<noteq> None \<and> allowed \<noteq> Some [] \<and> hd argv \<notin> set (or_else allowed [])
      then Inl (ToolExecutionError tool ''executable is not allowed'')
      else
        bind_sum (working_directory fs cwd tool h (iv_arguments iv)) (\<lambda>target.
        bind_sum (narrowed_limits tool iv) (\<lambda>limits.
        bind_sum (sandbox argv target limits None) (\<lambda>r. Inr (relabelled tool COMMAND r))))))"

record toolchain_tool =
  tc_name :: string
  tc_kind :: tool_kind
  tc_command :: "string list"
  tc_subdirectory :: "string option"
  tc_environment :: "(string, string) dict"

definition mk_toolchain_tool ::
  "string \<Rightarrow> tool_kind \<Rightarrow> string \<Rightarrow> string option \<Rightarrow> (string, string) dict \<Rightarrow> error + toolchain_tool" where
  "mk_toolchain_tool name kind command subdirectory env =
     (case shlex_split command of
        None \<Rightarrow> Inl (ValueError ''No closing quotation'')
      | Some argv \<Rightarrow>
          if argv = [] then Inl (ValueError (''tool '' @ quoted name @ '' was configured with an empty command''))
          else Inr \<lparr>tc_name = name, tc_kind = kind, tc_command = argv, tc_subdirectory = subdirectory, tc_environment = env\<rparr>)"

definition toolchain_execute ::
  "sandbox \<Rightarrow> toolchain_tool \<Rightarrow> filesystem \<Rightarrow> location \<Rightarrow> tool_invocation \<Rightarrow> workspace_handle \<Rightarrow> error + tool_result" where
  "toolchain_execute sandbox tc fs cwd iv h =
     bind_sum (string_list_argument (tc_name tc) (iv_arguments iv) ''extra_arguments'') (\<lambda>extra.
     bind_sum
       (case nonempty (tc_subdirectory tc) of
          None \<Rightarrow> Inr h
        | Some sub \<Rightarrow> bind_sum (resolve_in_workspace fs cwd (tc_name tc) h sub) (\<lambda>p. Inr (h\<lparr>wk_path := location_text p\<rparr>))) (\<lambda>target.
     bind_sum (narrowed_limits (tc_name tc) iv) (\<lambda>limits.
     bind_sum (sandbox (tc_command tc @ extra) target limits (if tc_environment tc = [] then None else Some (tc_environment tc))) (\<lambda>r.
     Inr (relabelled (tc_name tc) (tc_kind tc) r)))))"

definition tool_specifications :: "toolchain \<Rightarrow> (string \<times> tool_kind \<times> string option) list" where
  "tool_specifications tc =
     [(''build'', TK_BUILD, build_command tc), (''run_tests'', TK_TEST, test_command tc),
      (''static_analysis'', TK_STATIC_ANALYSIS, static_analysis_command tc), (''install_dependencies'', TK_BUILD, install_command tc)]"

fun build_tools_from :: "toolchain \<Rightarrow> (string \<times> tool_kind \<times> string option) list \<Rightarrow> error + toolchain_tool list" where
  "build_tools_from tc [] = Inr []"
| "build_tools_from tc ((name, kind, command) # specs) =
     (case nonempty command of
        None \<Rightarrow> build_tools_from tc specs
      | Some c \<Rightarrow>
          bind_sum (mk_toolchain_tool name kind c (working_subdirectory tc) (environment tc)) (\<lambda>t.
          bind_sum (build_tools_from tc specs) (\<lambda>ts. Inr (t # ts))))"

definition build_toolchain_tools :: "toolchain \<Rightarrow> error + toolchain_tool list" where
  "build_toolchain_tools tc = build_tools_from tc (tool_specifications tc)"

section \<open>Search\<close>

definition EXCLUDED_DIRECTORIES :: "string list" where
  "EXCLUDED_DIRECTORIES = [''.git'', ''node_modules'', ''__pycache__'', ''.venv'', ''build'', ''dist'']"

record search_match =
  sm_path :: string
  sm_line_number :: int
  sm_line :: string

text \<open>The engine: ripgrep with the path it was found at, or grep.\<close>

datatype search_engine = Ripgrep string | Grep string

definition choose_engine :: "string option \<Rightarrow> string \<Rightarrow> search_engine" where
  "choose_engine ripgrep grep = (case ripgrep of Some exe \<Rightarrow> Ripgrep exe | None \<Rightarrow> Grep grep)"

fun engine_name :: "search_engine \<Rightarrow> string" where
  "engine_name (Ripgrep _) = ''ripgrep''"
| "engine_name (Grep _) = ''grep''"

fun search_argv :: "search_engine \<Rightarrow> string \<Rightarrow> string \<Rightarrow> int \<Rightarrow> bool \<Rightarrow> string option \<Rightarrow> string list" where
  "search_argv (Ripgrep exe) pattern path max_results case_sensitive glob =
     [exe, ''--line-number'', ''--no-heading'', ''--color'', ''never'', ''--max-count'', show_int max_results]
     @ (if case_sensitive then [] else [''--ignore-case''])
     @ (case nonempty glob of None \<Rightarrow> [] | Some g \<Rightarrow> [''--glob'', g])
     @ [''--regexp'', pattern, ''--'', path]"
| "search_argv (Grep exe) pattern path max_results case_sensitive glob =
     [exe, ''-r'', ''-n'', ''-I'', ''-E'', ''-m'', show_int max_results]
     @ map (\<lambda>d. ''--exclude-dir='' @ d) EXCLUDED_DIRECTORIES
     @ (if case_sensitive then [] else [''-i''])
     @ (case nonempty glob of None \<Rightarrow> [] | Some g \<Rightarrow> [''--include='' @ g])
     @ [''-e'', pattern, path]"

definition ascii_digit :: "char \<Rightarrow> bool" where
  "ascii_digit c \<longleftrightarrow> 48 \<le> (of_char c :: nat) \<and> of_char c \<le> (57 :: nat)"

fun decimal :: "int \<Rightarrow> string \<Rightarrow> int" where
  "decimal acc [] = acc"
| "decimal acc (c # cs) = decimal (10 * acc + (of_char c - 48)) cs"

text \<open>One line of \<open>path:line:text\<close>; numbers are written in ASCII digits, as both engines do.\<close>

definition parse_match :: "string \<Rightarrow> search_match option" where
  "parse_match raw =
     (let (file, rest) = partition_at CHR '':'' raw; (number, body) = partition_at CHR '':'' rest in
      if CHR '':'' \<in> set raw \<and> CHR '':'' \<in> set rest \<and> number \<noteq> [] \<and> list_all ascii_digit number
      then Some \<lparr>sm_path = (if take 2 file = ''./'' then drop 2 file else file), sm_line_number = decimal 0 number, sm_line = body\<rparr>
      else None)"

fun matches_from :: "nat \<Rightarrow> int \<Rightarrow> string list \<Rightarrow> search_match list" where
  "matches_from n limit [] = []"
| "matches_from n limit (raw # raws) =
     (case parse_match raw of
        None \<Rightarrow> matches_from n limit raws
      | Some sm \<Rightarrow> sm # (if limit \<le> int (Suc n) then [] else matches_from (Suc n) limit raws))"

definition parse_matches :: "string \<Rightarrow> int \<Rightarrow> search_match list" where
  "parse_matches out limit = matches_from 0 limit (file_lines out)"

definition search_run ::
  "sandbox \<Rightarrow> search_engine \<Rightarrow> workspace_handle \<Rightarrow> string \<Rightarrow> string \<Rightarrow> execution_limits \<Rightarrow> int \<Rightarrow> bool \<Rightarrow> string option
   \<Rightarrow> error + tool_result" where
  "search_run sandbox engine h pattern path limits max_results case_sensitive glob =
     bind_sum (sandbox (search_argv engine pattern path max_results case_sensitive glob) h limits None) (\<lambda>r.
       let found_lines = parse_matches (r_stdout r) max_results in
       Inr (r\<lparr>r_kind := SEARCH,
             r_exit_code := (if r_exit_code r = 1 \<and> found_lines = [] then 0 else r_exit_code r),
             r_tool_metadata := dict_update (r_tool_metadata r) [(''engine'', JStr (engine_name engine)),
               (''match_count'', JInt (int (length found_lines))), (''pattern'', JStr pattern)]\<rparr>))"

definition search_matches ::
  "sandbox \<Rightarrow> search_engine \<Rightarrow> workspace_handle \<Rightarrow> string \<Rightarrow> execution_limits \<Rightarrow> string \<Rightarrow> int \<Rightarrow> error + search_match list" where
  "search_matches sandbox engine h pattern limits path max_results =
     bind_sum (search_run sandbox engine h pattern path limits max_results True None) (\<lambda>r.
       if r_exit_code r \<notin> {0, 1} then Inl (ToolExecutionError ''search'' ''search engine failed'')
       else Inr (parse_matches (r_stdout r) max_results))"

definition search_repository ::
  "sandbox \<Rightarrow> search_engine \<Rightarrow> filesystem \<Rightarrow> location \<Rightarrow> tool_invocation \<Rightarrow> workspace_handle \<Rightarrow> error + tool_result" where
  "search_repository sandbox engine fs cwd iv h =
     (let tool = ''search_repository''; args = iv_arguments iv in
      bind_sum (string_argument tool args ''pattern'' None) (\<lambda>pattern.
      bind_sum (string_argument tool args ''path'' (Some ''.'')) (\<lambda>path.
      bind_sum (resolve_in_workspace fs cwd tool h path) (\<lambda>_.
      bind_sum (int_argument tool args ''max_results'' 200 1) (\<lambda>max_results.
      bind_sum (bool_argument tool args ''case_sensitive'' True) (\<lambda>case_sensitive.
      bind_sum (search_run sandbox engine h pattern path (iv_limits iv) max_results case_sensitive
                  (case map_of args ''glob'' of Some (JStr g) \<Rightarrow> Some g | _ \<Rightarrow> None)) (\<lambda>r.
      Inr (relabelled tool SEARCH r))))))))"

text \<open>\<open>_SYMBOL_RE.match\<close>: the dollar also matches before a final line feed.\<close>

definition symbol_start :: "char \<Rightarrow> bool" where
  "symbol_start c \<longleftrightarrow> (let n = (of_char c :: nat) in (65 \<le> n \<and> n \<le> 90) \<or> (97 \<le> n \<and> n \<le> 122)) \<or> c = CHR ''_''"

definition is_symbol :: "string \<Rightarrow> bool" where
  "is_symbol s \<longleftrightarrow>
     (let t = (if s \<noteq> [] \<and> last s = CHR 0x0A then butlast s else s) in
      t \<noteq> [] \<and> symbol_start (hd t) \<and> list_all (\<lambda>c. symbol_start c \<or> ascii_digit c \<or> c = CHR '':'') (tl t) \<and> length t \<le> 128)"

definition definition_pattern :: "string \<Rightarrow> string" where
  "definition_pattern symbol =
     ''((def|class|struct|union|enum|typedef|interface|fn|func|impl|trait|type)[[:space:]]+'' @ symbol @ [CHR 0x5C] @ ''b)''
     @ ''|('' @ [CHR 0x5C] @ ''b'' @ symbol @ ''[[:space:]]*'' @ [CHR 0x5C] @ ''()''
     @ ''|('' @ [CHR 0x5C] @ ''b'' @ symbol @ ''[[:space:]]*=[[:space:]]*(lambda|function)'' @ [CHR 0x5C] @ ''b)''"

definition search_symbol ::
  "sandbox \<Rightarrow> search_engine \<Rightarrow> filesystem \<Rightarrow> location \<Rightarrow> tool_invocation \<Rightarrow> workspace_handle \<Rightarrow> error + tool_result" where
  "search_symbol sandbox engine fs cwd iv h =
     (let tool = ''search_symbol''; args = iv_arguments iv in
      bind_sum (string_argument tool args ''symbol'' None) (\<lambda>symbol.
      if \<not> is_symbol symbol then Inl (ToolExecutionError tool ''symbol must be a plain identifier'')
      else
        bind_sum (string_argument tool args ''path'' (Some ''.'')) (\<lambda>path.
        bind_sum (resolve_in_workspace fs cwd tool h path) (\<lambda>_.
        bind_sum (int_argument tool args ''max_results'' 50 1) (\<lambda>max_results.
        bind_sum (search_run sandbox engine h (definition_pattern symbol) path (iv_limits iv) max_results True None) (\<lambda>r.
        Inr ((relabelled tool SEARCH r)\<lparr>r_tool_metadata := dict_update (r_tool_metadata r) [(''symbol'', JStr symbol)]\<rparr>)))))))"

section \<open>Registry\<close>

record 'w tool =
  t_name :: string
  t_kind :: "tool_kind option"
  t_run :: "tool_invocation \<Rightarrow> workspace_handle \<Rightarrow> 'w \<Rightarrow> 'w \<times> (error + tool_result)"

definition MUTATING_KINDS :: "tool_kind list" where
  "MUTATING_KINDS = [EDIT, PATCH]"

definition READ_ONLY_ROLES :: "agent_role list" where
  "READ_ONLY_ROLES = [PLANNER, REVIEWER]"

fun ROLE_TOOLS :: "agent_role \<Rightarrow> string list" where
  "ROLE_TOOLS PLANNER = [''search_repository'', ''read_file'', ''search_symbol'', ''git_status'', ''git_diff'']"
| "ROLE_TOOLS CODER = [''search_repository'', ''read_file'', ''search_symbol'', ''edit_file'', ''apply_patch'', ''run_command'', ''build'',
     ''run_tests'', ''static_analysis'', ''install_dependencies'', ''git_diff'', ''git_status'']"
| "ROLE_TOOLS REVIEWER = [''search_repository'', ''read_file'', ''search_symbol'', ''git_diff'', ''git_status'', ''build'', ''run_tests'',
     ''static_analysis'']"

definition is_mutating :: "'w tool \<Rightarrow> bool" where
  "is_mutating t \<longleftrightarrow> (case t_kind t of None \<Rightarrow> False | Some k \<Rightarrow> k \<in> set MUTATING_KINDS)"

record 'w tool_registry =
  tr_tools :: "(string, 'w tool) dict"
  tr_role :: "agent_role option"

fun index_tools :: "(string, 'w tool) dict \<Rightarrow> 'w tool list \<Rightarrow> error + (string, 'w tool) dict" where
  "index_tools d [] = Inr d"
| "index_tools d (t # ts) =
     (if dict_get d (t_name t) \<noteq> None then Inl (ValueError (''duplicate tool name '' @ quoted (t_name t)))
      else index_tools (dict_set (t_name t) t d) ts)"

definition new_registry :: "'w tool list \<Rightarrow> agent_role option \<Rightarrow> error + 'w tool_registry" where
  "new_registry tools role = bind_sum (index_tools [] tools) (\<lambda>d. Inr \<lparr>tr_tools = d, tr_role = role\<rparr>)"

definition registry_get :: "'w tool_registry \<Rightarrow> string \<Rightarrow> 'w tool option" where
  "registry_get reg name = dict_get (tr_tools reg) name"

definition registry_for_role :: "agent_role \<Rightarrow> 'w tool list \<Rightarrow> error + 'w tool_registry" where
  "registry_for_role role tools =
     (let selected = filter (\<lambda>t. t_name t \<in> set (ROLE_TOOLS role)) tools in
      if role \<in> set READ_ONLY_ROLES \<and> list_ex is_mutating selected
      then Inl (ValueError (''role '' @ agent_role_value role @ '' is read-only but was given mutating tools''))
      else new_registry selected (Some role))"

definition execute_tool ::
  "'w tool_registry \<Rightarrow> tool_invocation \<Rightarrow> workspace_handle \<Rightarrow> 'w \<Rightarrow> 'w \<times> (error + tool_result)" where
  "execute_tool reg iv h w =
     (case registry_get reg (iv_tool iv) of
        None \<Rightarrow> (w, Inl (ToolExecutionError (iv_tool iv) ''tool is not allowed for this role''))
      | Some t \<Rightarrow>
          if is_mutating t \<and> \<not> is_writable h
          then (w, Inl (ToolExecutionError (iv_tool iv) ''mutating tool refused on a read-only workspace''))
          else t_run t iv h w)"

text \<open>\<open>execute_many\<close>: with an exception of a tool goes the number of results before it.\<close>

fun execute_from ::
  "'w tool_registry \<Rightarrow> tool_result list \<Rightarrow> tool_invocation list \<Rightarrow> workspace_handle \<Rightarrow> 'w
   \<Rightarrow> 'w \<times> ((error \<times> nat option) + tool_result list)" where
  "execute_from reg results [] h w = (w, Inr results)"
| "execute_from reg results (iv # ivs) h w =
     (case execute_tool reg iv h w of
        (w1, Inl e) \<Rightarrow> (w1, Inl (e, case e of ToolExecutionError _ _ \<Rightarrow> Some (length results) | _ \<Rightarrow> None))
      | (w1, Inr r) \<Rightarrow> execute_from reg (results @ [r]) ivs h w1)"

definition execute_many ::
  "'w tool_registry \<Rightarrow> tool_invocation list \<Rightarrow> workspace_handle \<Rightarrow> 'w \<Rightarrow> 'w \<times> ((error \<times> nat option) + tool_result list)" where
  "execute_many reg ivs h w = execute_from reg [] ivs h w"

text \<open>
  \<open>build_tool_registry\<close>: the tools of every project and those its toolchain declares; \<open>act\<close> and \<open>act_tc\<close> say what each of them does.
\<close>

definition BUILTIN_TOOLS :: "(string \<times> tool_kind) list" where
  "BUILTIN_TOOLS = [(''search_repository'', SEARCH), (''search_symbol'', SEARCH), (''read_file'', READ), (''edit_file'', EDIT),
     (''apply_patch'', PATCH), (''git_diff'', VCS), (''git_status'', VCS), (''run_command'', COMMAND)]"

definition build_tool_registry ::
  "(string \<Rightarrow> tool_invocation \<Rightarrow> workspace_handle \<Rightarrow> 'w \<Rightarrow> 'w \<times> (error + tool_result))
   \<Rightarrow> (toolchain_tool \<Rightarrow> tool_invocation \<Rightarrow> workspace_handle \<Rightarrow> 'w \<Rightarrow> 'w \<times> (error + tool_result))
   \<Rightarrow> agent_role \<Rightarrow> toolchain option \<Rightarrow> 'w tool list \<Rightarrow> error + 'w tool_registry" where
  "build_tool_registry act act_tc role tc extra =
     bind_sum (case tc of None \<Rightarrow> Inr [] | Some c \<Rightarrow> build_toolchain_tools c) (\<lambda>declared.
     registry_for_role role
       (map (\<lambda>(n, k). \<lparr>t_name = n, t_kind = Some k, t_run = act n\<rparr>) BUILTIN_TOOLS
        @ map (\<lambda>t. \<lparr>t_name = tc_name t, t_kind = Some (tc_kind t), t_run = act_tc t\<rparr>) declared @ extra))"

section \<open>Lemmas\<close>

lemma copied_cong: "\<forall>k \<in> set names. dict_get host k = dict_get host' k \<Longrightarrow> copied names host = copied names host'"
  unfolding copied_def by (simp cong: fold_cong)

lemma index_tools_get:
  "index_tools d ts = Inr d' \<Longrightarrow> dict_get d' n = Some t \<Longrightarrow> dict_get d n = Some t \<or> (t \<in> set ts \<and> t_name t = n)"
proof (induction d ts rule: index_tools.induct)
  case (2 d u ts)
  then have "dict_get d (t_name u) = None" "index_tools (dict_set (t_name u) u d) ts = Inr d'" by (auto split: if_splits)
  with 2 show ?case by (auto split: if_splits)
qed simp

lemma registry_for_role_get:
  assumes "registry_for_role role tools = Inr reg" and "registry_get reg n = Some t"
  shows "t \<in> set tools \<and> t_name t = n \<and> n \<in> set (ROLE_TOOLS role) \<and> (role \<in> set READ_ONLY_ROLES \<longrightarrow> \<not> is_mutating t)"
proof -
  let ?sel = "filter (\<lambda>t. t_name t \<in> set (ROLE_TOOLS role)) tools"
  from assms(1) obtain d where d: "index_tools [] ?sel = Inr d" "tr_tools reg = d"
      and safe: "\<not> (role \<in> set READ_ONLY_ROLES \<and> list_ex is_mutating ?sel)"
    by (auto simp: registry_for_role_def new_registry_def Let_def bind_sum_Inr_iff split: if_splits)
  from index_tools_get [OF d(1)] assms(2) d(2) have "t \<in> set ?sel" "t_name t = n" by (auto simp: registry_get_def)
  with safe show ?thesis by (auto simp: list_ex_iff)
qed

lemma read_capped_spec:
  "[] \<notin> set chunks \<Longrightarrow> read_capped limit chunks = (take limit (concat chunks), limit < length (concat chunks))"
  using read_loop_spec [of chunks limit "[]"] by (simp add: read_capped_def)

lemma narrowed_limits_narrow:
  "narrowed_limits tool iv = Inr limits \<Longrightarrow>
     lim_timeout_seconds limits \<le> lim_timeout_seconds (iv_limits iv)
     \<and> limits = (iv_limits iv)\<lparr>lim_timeout_seconds := lim_timeout_seconds limits\<rparr>"
  by (cases "argument (iv_arguments iv) ''timeout_seconds'' JNull")
    (auto simp: narrowed_limits_def bind_sum_Inr_iff mk_execution_limits_def split: if_splits)

lemma working_directory_id: "working_directory fs cwd tool h args = Inr target \<Longrightarrow> wk_id target = wk_id h"
  by (auto simp: working_directory_def bind_sum_Inr_iff split: option.splits json.splits if_splits)

text \<open>The pattern \<open>^[A-Za-z_][A-Za-z0-9_:]{0,127}$\<close> also accepts a name followed by a line feed.\<close>

lemma symbol_with_line_feed: "is_symbol (''main'' @ [CHR 0x0A])"
  by (simp add: is_symbol_def symbol_start_def ascii_digit_def)

text \<open>Ripgrep is told where its options end; grep is not, and takes a path that begins with a hyphen as an option.\<close>

lemma ripgrep_path_is_an_operand:
  "\<exists>options. search_argv (Ripgrep exe) pattern path limit sens glob = options @ [''--'', path]"
  by simp

lemma grep_path_is_unprotected: "\<exists>options. search_argv (Grep exe) pattern path limit sens glob = options @ [''-e'', pattern, path]"
  by simp

section \<open>Properties\<close>

text \<open>
  C31. Secrets of the host do not reach project code. What a sandboxed command is started with, and hence the result of the sandbox, depends
  only on the host variables of the allow-list (the client variables, for the Docker sandbox): two hosts that agree on those
  are indistinguishable, whatever else their environments hold. The arguments of the container are the same on every host.
\<close>

theorem sandbox_hides_the_host:
  "((\<forall>k \<in> set (sb_allowlist sb). dict_get host k = dict_get host' k) \<longrightarrow>
      subprocess_run sb fs cwd host spawn argv h limits vars = subprocess_run sb fs cwd host' spawn argv h limits vars)
   \<and> ((\<forall>k \<in> set DOCKER_CLIENT_ENVIRONMENT. dict_get host k = dict_get host' k) \<longrightarrow>
      docker_run general dk available fs cwd host spawn container argv h limits vars
        = docker_run general dk available fs cwd host' spawn container argv h limits vars)"
proof (intro conjI impI)
  assume "\<forall>k \<in> set (sb_allowlist sb). dict_get host k = dict_get host' k"
  then have "sandbox_environment sb host dir limits vars = sandbox_environment sb host' dir limits vars" for dir
    unfolding sandbox_environment_def by (simp add: copied_cong [of "sb_allowlist sb" host host'])
  then show "subprocess_run sb fs cwd host spawn argv h limits vars = subprocess_run sb fs cwd host' spawn argv h limits vars"
    by (simp add: subprocess_run_def)
next
  assume "\<forall>k \<in> set DOCKER_CLIENT_ENVIRONMENT. dict_get host k = dict_get host' k"
  then have client: "copied DOCKER_CLIENT_ENVIRONMENT host = copied DOCKER_CLIENT_ENVIRONMENT host'" by (rule copied_cong)
  show "docker_run general dk available fs cwd host spawn container argv h limits vars
    = docker_run general dk available fs cwd host' spawn container argv h limits vars"
    unfolding docker_run_def client ..
qed

definition demo_limits :: execution_limits where
  "demo_limits = \<lparr>lim_timeout_seconds = 60, lim_max_output_bytes = 100, lim_memory_mb = Some 64, lim_cpu_count = None, lim_network_enabled = False\<rparr>"

theorem sandbox_hides_the_host_witness:
  "\<forall>fs cwd spawn h dk. subprocess_run default_subprocess_sandbox fs cwd [(''PATH'', ''/bin''), (''API_KEY'', ''k'')] spawn [''env''] h demo_limits None
      = subprocess_run default_subprocess_sandbox fs cwd [(''PATH'', ''/bin'')] spawn [''env''] h demo_limits None
    \<and> docker_run (\<lambda>_. ''1'') dk True fs cwd [(''PATH'', ''/bin''), (''API_KEY'', ''k'')] spawn ''c'' [''env''] h demo_limits None
      = docker_run (\<lambda>_. ''1'') dk True fs cwd [(''PATH'', ''/bin'')] spawn ''c'' [''env''] h demo_limits None"
  using sandbox_hides_the_host [of default_subprocess_sandbox "[(''PATH'', ''/bin''), (''API_KEY'', ''k'')]" "[(''PATH'', ''/bin'')]"
      _ _ _ "[''env'']" _ demo_limits None "\<lambda>_. ''1''" _ True "''c''"]
  by (simp add: default_subprocess_sandbox_def DEFAULT_ENVIRONMENT_ALLOWLIST_def DOCKER_CLIENT_ENVIRONMENT_def)

text \<open>
  Captured output is capped exactly. When the pipes are read to their end, however the output was split into chunks, what is kept of each
  stream is its first \<open>max_output_bytes\<close> bytes and the result is marked as truncated just when one of them was longer; a command that
  overruns its time ends with code 124.
\<close>

theorem captured_output_is_capped:
  assumes "spawn command cwd env timeout preexec = Inr c" and "[] \<notin> set (ch_out c)" and "[] \<notin> set (ch_err c)"
    and "ch_in_time c \<or> ch_drained c"
  shows "run_capped_process spawn command cwd env timeout max_bytes preexec = Inr
    \<lparr>po_exit_code = (if ch_in_time c then ch_exit_code c else 124),
     po_stdout = utf8_replace (take (nat max_bytes) (concat (ch_out c))),
     po_stderr = utf8_replace (take (nat max_bytes) (concat (ch_err c))),
     po_truncated = (nat max_bytes < length (concat (ch_out c)) \<or> nat max_bytes < length (concat (ch_err c))),
     po_duration_ms = ch_duration_ms c, po_timed_out = (\<not> ch_in_time c)\<rparr>"
  using assms by (auto simp: run_capped_process_def read_capped_spec TIMEOUT_EXIT_CODE_def Let_def)

definition demo_child :: child where
  "demo_child = \<lparr>ch_out = [''ab'', ''cd''], ch_err = [], ch_exit_code = 0, ch_duration_ms = 5, ch_in_time = True, ch_drained = False\<rparr>"

theorem captured_output_is_capped_witness:
  "\<exists>po. run_capped_process (\<lambda>_ _ _ _ _. Inr demo_child) [''ls''] ''/ws'' [] 1 3 None = Inr po
     \<and> po_stdout po = ''abc'' \<and> po_truncated po"
  using captured_output_is_capped [of "\<lambda>_ _ _ _ _. Inr demo_child" "[''ls'']" "''/ws''" "[]" 1 None demo_child 3]
  by (simp add: demo_child_def utf8_lead_def eval_nat_numeral)

text \<open>
  C30. Read-only roles cannot edit. Whatever a role asks for, either nothing runs and the world is as it was, or a tool runs that is among the
  tools offered and on the list of the role, and it is no editing or patching tool when the role is a planner or a reviewer or the workspace
  is read-only.
\<close>

theorem read_only_roles_cannot_edit:
  assumes "registry_for_role role tools = Inr reg" and "execute_tool reg iv h w = (w', res)"
  shows "w' = w \<and> (\<exists>e. res = Inl e)
    \<or> (\<exists>t \<in> set tools. t_name t = iv_tool iv \<and> t_name t \<in> set (ROLE_TOOLS role) \<and> t_run t iv h w = (w', res)
        \<and> (role \<in> set READ_ONLY_ROLES \<or> \<not> is_writable h \<longrightarrow> \<not> is_mutating t))"
proof (cases "registry_get reg (iv_tool iv)")
  case None
  then show ?thesis using assms(2) by (auto simp: execute_tool_def)
next
  case (Some t)
  note t = registry_for_role_get [OF assms(1) Some]
  show ?thesis
  proof (cases "is_mutating t \<and> \<not> is_writable h")
    case True
    then show ?thesis using assms(2) Some by (auto simp: execute_tool_def)
  next
    case False
    then have "t_run t iv h w = (w', res)" using assms(2) Some by (auto simp: execute_tool_def split: if_splits)
    moreover have "role \<in> set READ_ONLY_ROLES \<or> \<not> is_writable h \<longrightarrow> \<not> is_mutating t" using t False by blast
    ultimately show ?thesis using t by (intro disjI2 bexI [of _ t]) simp_all
  qed
qed

definition demo_tools :: "nat tool list" where
  "demo_tools = [\<lparr>t_name = ''read_file'', t_kind = Some READ, t_run = (\<lambda>iv h w. (w, Inl (ValueError [])))\<rparr>,
     \<lparr>t_name = ''edit_file'', t_kind = Some EDIT, t_run = (\<lambda>iv h w. (w + 1, Inl (ValueError [])))\<rparr>]"

definition demo_edit_request :: tool_invocation where
  "demo_edit_request = \<lparr>iv_tool = ''edit_file'', iv_kind = EDIT, iv_arguments = [], iv_limits = demo_limits\<rparr>"

theorem read_only_roles_cannot_edit_witness:
  "\<exists>reg. registry_for_role PLANNER demo_tools = Inr reg \<and> (\<forall>h w. fst (execute_tool reg demo_edit_request h w) = w)
     \<and> (\<exists>coder. registry_for_role CODER demo_tools = Inr coder \<and> registry_get coder ''edit_file'' \<noteq> None)"
proof -
  obtain reg where reg: "registry_for_role PLANNER demo_tools = Inr reg"
    by (simp add: registry_for_role_def demo_tools_def READ_ONLY_ROLES_def is_mutating_def MUTATING_KINDS_def new_registry_def)
  have "fst (execute_tool reg demo_edit_request h w) = w" for h w
    using read_only_roles_cannot_edit [OF reg prod.collapse [symmetric], of demo_edit_request h w]
    by (auto simp: demo_tools_def demo_edit_request_def)
  moreover have "\<exists>coder. registry_for_role CODER demo_tools = Inr coder \<and> registry_get coder ''edit_file'' \<noteq> None"
    by (simp add: registry_for_role_def demo_tools_def READ_ONLY_ROLES_def new_registry_def registry_get_def)
  ultimately show ?thesis using reg by blast
qed

text \<open>
  A command asked for by a model runs within its limits. A result of \<open>run_command\<close> is that of a sandboxed command whose executable is on the list
  (when there is one), in the same workspace, with a timeout no longer than that of the invocation, every other limit as it was given, and no
  variable added to the environment.
\<close>

theorem run_command_respects_limits:
  assumes "run_command sandbox allowed fs cwd iv h = Inr r"
  shows "\<exists>argv target limits r'. sandbox argv target limits None = Inr r' \<and> r = relabelled ''run_command'' COMMAND r'
    \<and> argv \<noteq> [] \<and> (\<forall>names. allowed = Some names \<and> names \<noteq> [] \<longrightarrow> hd argv \<in> set names)
    \<and> lim_timeout_seconds limits \<le> lim_timeout_seconds (iv_limits iv)
    \<and> limits = (iv_limits iv)\<lparr>lim_timeout_seconds := lim_timeout_seconds limits\<rparr>
    \<and> wk_id target = wk_id h"
proof -
  let ?args = "iv_arguments iv"
  from assms obtain argv where argv: "argv \<noteq> []" "\<not> (allowed \<noteq> None \<and> allowed \<noteq> Some [] \<and> hd argv \<notin> set (or_else allowed []))"
      and rest: "bind_sum (working_directory fs cwd ''run_command'' h ?args) (\<lambda>target.
        bind_sum (narrowed_limits ''run_command'' iv) (\<lambda>limits.
        bind_sum (sandbox argv target limits None) (\<lambda>r. Inr (relabelled ''run_command'' COMMAND r)))) = Inr r"
    unfolding run_command_def Let_def bind_sum_Inr_iff [of "string_list_argument _ _ _"] by (auto split: if_splits)
  from rest obtain target limits r' where target: "working_directory fs cwd ''run_command'' h ?args = Inr target"
      and limits: "narrowed_limits ''run_command'' iv = Inr limits" and r': "sandbox argv target limits None = Inr r'"
      and r: "r = relabelled ''run_command'' COMMAND r'"
    by (auto simp: bind_sum_Inr_iff)
  from argv(2) have "allowed = Some names \<and> names \<noteq> [] \<longrightarrow> hd argv \<in> set names" for names by auto
  with argv(1) narrowed_limits_narrow [OF limits] working_directory_id [OF target] r r' show ?thesis by blast
qed

definition echo_sandbox :: sandbox where
  "echo_sandbox argv h limits vars = Inr (to_result (hd argv) argv
     \<lparr>po_exit_code = 0, po_stdout = [], po_stderr = [], po_truncated = False, po_duration_ms = 1, po_timed_out = False\<rparr>
     [(''timeout'', JInt \<lfloor>lim_timeout_seconds limits\<rfloor>)])"

definition demo_command :: tool_invocation where
  "demo_command = \<lparr>iv_tool = ''run_command'', iv_kind = COMMAND,
     iv_arguments = [(''command'', JArr [JStr ''make'', JStr ''all'']), (''timeout_seconds'', JInt 90)], iv_limits = demo_limits\<rparr>"

theorem run_command_respects_limits_witness:
  "\<forall>fs cwd h. \<exists>argv limits r r'. run_command echo_sandbox (Some [''make'']) fs cwd demo_command h = Inr r
    \<and> echo_sandbox argv h limits None = Inr r' \<and> r_command r = r_command r' \<and> hd argv = ''make'' \<and> lim_timeout_seconds limits \<le> 60"
proof (intro allI)
  fix fs :: filesystem and cwd h
  obtain r where r: "run_command echo_sandbox (Some [''make'']) fs cwd demo_command h = Inr r"
    by (simp add: run_command_def demo_command_def string_list_argument_def working_directory_def narrowed_limits_def argument_def
        int_argument_def mk_execution_limits_def demo_limits_def echo_sandbox_def min_def)
  from run_command_respects_limits [OF r]
  obtain argv limits r' where "echo_sandbox argv h limits None = Inr r'" "r = relabelled ''run_command'' COMMAND r'" "hd argv = ''make''"
      "lim_timeout_seconds limits \<le> 60"
    by (auto simp: demo_command_def demo_limits_def echo_sandbox_def)
  with r show "\<exists>argv limits r r'. run_command echo_sandbox (Some [''make'']) fs cwd demo_command h = Inr r
    \<and> echo_sandbox argv h limits None = Inr r' \<and> r_command r = r_command r' \<and> hd argv = ''make'' \<and> lim_timeout_seconds limits \<le> 60"
    by (auto simp: relabelled_def)
qed

end
