(* ===== verification/Worktrees.thy ===== *)
theory Worktrees
  imports Tools Wire
begin

text \<open>
  Git workspaces: the runner of \<open>git\<close> (\<open>src/src/infrastructure/workspace/git_cli.py\<close>), the manager that gives every workspace a
  directory of its own and merges the winner (\<open>git_worktree.py\<close>; writing whole files is in \<open>Workspace_Files\<close>), and the Git tools
  (\<open>src/src/infrastructure/tools/vcs.py\<close>). The world is a value of type \<open>'s\<close>; \<open>git\<close> itself, whether a path exists, removing and making
  directories are functions of it; what \<open>git\<close> prints is taken as decoded. The operations that share the manager are interleaved at the points where they wait.
\<close>

section \<open>Running git\<close>

record git_call =
  gc_argv :: "string list"
  gc_cwd :: path
  gc_environ :: "(string, string) dict"
  gc_stdin :: "string option"
  gc_timeout :: rat

datatype git_reply = CannotExecute | TimedOut | Finished int string string

record 's git_host =
  gh_git :: "'s \<Rightarrow> git_call \<Rightarrow> 's \<times> git_reply"
  gh_environ :: "(string, string) dict"
  gh_config :: string
  gh_exists :: "'s \<Rightarrow> path \<Rightarrow> bool"
  gh_resolve :: "'s \<Rightarrow> path \<Rightarrow> path"
  gh_mkdirs :: "path \<Rightarrow> 's \<Rightarrow> ('s, unit) result"
  gh_rmtree :: "path \<Rightarrow> 's \<Rightarrow> 's"
  gh_rmdir :: "path \<Rightarrow> 's \<Rightarrow> 's"

record git_result =
  gr_exit_code :: int
  gr_stdout :: string
  gr_stderr :: string

definition git_succeeded :: "git_result \<Rightarrow> bool" where
  "git_succeeded r \<longleftrightarrow> gr_exit_code r = 0"

definition git_out :: "git_result \<Rightarrow> string" where
  "git_out r = strip (gr_stdout r)"

definition EMPTY_TREE :: string where
  "EMPTY_TREE = ''4b825dc642cb6eb9a060e54bf8d69288fbee4904''"

definition INHERITED_ENVIRONMENT_KEYS :: "string list" where
  "INHERITED_ENVIRONMENT_KEYS = [''PATH'', ''LANG'', ''LC_ALL'', ''TZ'', ''SSH_AUTH_SOCK'']"

definition git_identity :: "string list" where
  "git_identity = [''-c'', ''user.name=agentic-platform'', ''-c'', ''user.email=agents@agentic.invalid'', ''-c'', ''commit.gpgsign=false'',
     ''-c'', ''core.hooksPath=/dev/null'']"

definition git_environment :: "'s git_host \<Rightarrow> path \<Rightarrow> (string, string) dict" where
  "git_environment h cwd =
     dict_update
       (fold (\<lambda>k d. case dict_get (gh_environ h) k of None \<Rightarrow> d | Some v \<Rightarrow> dict_set k v d) INHERITED_ENVIRONMENT_KEYS [])
       [(''HOME'', path_text cwd), (''GIT_CONFIG_NOSYSTEM'', ''1''), (''GIT_CONFIG_GLOBAL'', gh_config h), (''GIT_TERMINAL_PROMPT'', ''0''),
        (''GIT_ASKPASS'', []), (''GIT_PAGER'', ''cat''), (''LC_ALL'', ''C'')]"

definition git_command :: "'s git_host \<Rightarrow> path \<Rightarrow> string option \<Rightarrow> string list \<Rightarrow> git_call" where
  "git_command h cwd stdin args =
     \<lparr>gc_argv = ''git'' # git_identity @ args, gc_cwd = cwd, gc_environ = git_environment h cwd, gc_stdin = stdin, gc_timeout = 120\<rparr>"

definition git_run :: "'s git_host \<Rightarrow> path \<Rightarrow> string option \<Rightarrow> bool \<Rightarrow> string list \<Rightarrow> 's \<Rightarrow> ('s, git_result) result" where
  "git_run h cwd stdin check args s =
     (case gh_git h s (git_command h cwd stdin args) of
        (s1, CannotExecute) \<Rightarrow> (s1, Inl (WorkspaceError ''git could not be executed''))
      | (s1, TimedOut) \<Rightarrow> (s1, Inl (WorkspaceError ''git command timed out''))
      | (s1, Finished code out err) \<Rightarrow>
          (s1, if check \<and> code \<noteq> 0 then Inl (WorkspaceError ''git command failed'')
               else Inr \<lparr>gr_exit_code = code, gr_stdout = out, gr_stderr = err\<rparr>))"

section \<open>Names\<close>

definition role_lower :: "workspace_role \<Rightarrow> string" where
  "role_lower r = (case r of WR_PLANNER \<Rightarrow> ''planner'' | WR_CANDIDATE \<Rightarrow> ''candidate'' | WR_REVIEWER \<Rightarrow> ''reviewer'' | WR_MERGE \<Rightarrow> ''merge'')"

definition short_name :: "workspace_role \<Rightarrow> workspace_id \<Rightarrow> string" where
  "short_name role i = role_lower role @ ''-'' @ take 12 (hex_digits 32 (workspace_uuid i))"

definition branch_name :: "run_id \<Rightarrow> workspace_role \<Rightarrow> workspace_id \<Rightarrow> string" where
  "branch_name rid role i = ''agentic/'' @ take 8 (hex_digits 32 (run_uuid rid)) @ ''/'' @ short_name role i"

section \<open>The manager\<close>

record workspace_record =
  wr_handle :: workspace_handle
  wr_path :: path
  wr_base :: path

record manager =
  mg_root :: path
  mg_cache :: path
  mg_records :: "(workspace_id, workspace_record) dict"
  mg_paths :: "path set"

definition new_manager :: "path \<Rightarrow> path option \<Rightarrow> manager" where
  "new_manager base cache =
     \<lparr>mg_root = base, mg_cache = or_else cache (path_child base ''_repositories''), mg_records = [], mg_paths = {}\<rparr>"

definition workspace_path :: "manager \<Rightarrow> run_id \<Rightarrow> workspace_role \<Rightarrow> workspace_id \<Rightarrow> path" where
  "workspace_path mg rid role i = path_child (path_child (mg_root mg) (uuid_text (run_uuid rid))) (short_name role i)"

text \<open>\<open>_allocate_path\<close> in its critical section, \<open>_forget\<close>, and the record made at the end of \<open>create\<close>.\<close>

definition allocate_path ::
  "manager \<Rightarrow> (path \<Rightarrow> bool) \<Rightarrow> run_id \<Rightarrow> workspace_role \<Rightarrow> workspace_id \<Rightarrow> (manager, path) result" where
  "allocate_path mg present rid role i =
     (let p = workspace_path mg rid role i in
      if p \<in> mg_paths mg \<or> present p then (mg, Inl (WorkspaceError ''workspace path is already in use''))
      else (mg\<lparr>mg_paths := insert p (mg_paths mg)\<rparr>, Inr p))"

definition mg_forget :: "workspace_id \<Rightarrow> path \<Rightarrow> manager \<Rightarrow> manager" where
  "mg_forget i p mg = mg\<lparr>mg_records := dict_pop i (mg_records mg), mg_paths := mg_paths mg - {p}\<rparr>"

definition mg_remember :: "workspace_record \<Rightarrow> manager \<Rightarrow> manager" where
  "mg_remember r mg = mg\<lparr>mg_records := dict_set (wk_id (wr_handle r)) r (mg_records mg)\<rparr>"

definition mg_release :: "workspace_id \<Rightarrow> manager \<Rightarrow> manager \<times> workspace_record option" where
  "mg_release i mg =
     (case dict_get (mg_records mg) i of
        None \<Rightarrow> (mg, None)
      | Some r \<Rightarrow> (mg\<lparr>mg_records := dict_pop i (mg_records mg), mg_paths := mg_paths mg - {wr_path r}\<rparr>, Some r))"

definition mg_get :: "manager \<Rightarrow> workspace_id \<Rightarrow> workspace_handle option" where
  "mg_get mg i = map_option wr_handle (dict_get (mg_records mg) i)"

definition record_of :: "manager \<Rightarrow> workspace_handle \<Rightarrow> error + workspace_record" where
  "record_of mg wh =
     (case dict_get (mg_records mg) (wk_id wh) of None \<Rightarrow> Inl (WorkspaceError ''unknown workspace'') | Some r \<Rightarrow> Inr r)"

definition require_writable :: "manager \<Rightarrow> workspace_handle \<Rightarrow> error + workspace_record" where
  "require_writable mg wh = (if \<not> is_writable wh then Inl (WorkspaceError ''workspace is read-only'') else record_of mg wh)"

section \<open>Creating\<close>

definition git_head :: "'s git_host \<Rightarrow> path \<Rightarrow> 's \<Rightarrow> ('s, string) result" where
  "git_head h p s = bind_outcome (git_run h p None True [''rev-parse'', ''HEAD''] s) (\<lambda>s r. (s, Inr (git_out r)))"

text \<open>\<open>_resolve_revision\<close>: the branch, or else the current commit.\<close>

fun resolve_from :: "'s git_host \<Rightarrow> path \<Rightarrow> string list \<Rightarrow> 's \<Rightarrow> ('s, string) result" where
  "resolve_from h base [] s = (s, Inl (WorkspaceError ''base repository has no resolvable revision''))"
| "resolve_from h base (c # cs) s =
     bind_outcome (git_run h base None False [''rev-parse'', ''--verify'', c] s) (\<lambda>s r.
       if git_succeeded r then (s, Inr (git_out r)) else resolve_from h base cs s)"

definition resolve_revision :: "'s git_host \<Rightarrow> path \<Rightarrow> string \<Rightarrow> 's \<Rightarrow> ('s, string) result" where
  "resolve_revision h base branch s = resolve_from h base [branch @ ''^{commit}'', ''HEAD''] s"

definition base_repository :: "'s git_host \<Rightarrow> manager \<Rightarrow> project \<Rightarrow> 's \<Rightarrow> ('s, path) result" where
  "base_repository h mg p s =
     (case nonempty (pj_local_path p) of
        Some local_path \<Rightarrow>
          let base = gh_resolve h s (mk_path local_path) in
          bind_outcome (git_run h base None False [''rev-parse'', ''--git-dir''] s) (\<lambda>s r.
            if git_succeeded r then (s, Inr base)
            else
              let detail = splitlines (strip (if gr_stderr r \<noteq> [] then gr_stderr r else gr_stdout r)) in
              (s, Inl (WorkspaceError (''project local_path is not a usable git repository'' @
                         (case detail of [] \<Rightarrow> [] | d # _ \<Rightarrow> '': '' @ d)))))
      | None \<Rightarrow>
          (case nonempty (pj_repository_url p) of
             None \<Rightarrow> (s, Inl (WorkspaceError ''project has neither a local path nor a repository url''))
           | Some url \<Rightarrow>
               let cache = path_child (mg_cache mg) (uuid_text (project_uuid (pj_id p))) in
               if gh_exists h s (path_child cache ''.git'')
               then bind_outcome (git_run h cache None False [''fetch'', ''--all'', ''--prune''] s) (\<lambda>s _. (s, Inr cache))
               else
                 bind_outcome (gh_mkdirs h (mg_cache mg) s) (\<lambda>s _.
                 bind_outcome (git_run h (mg_cache mg) None True [''clone'', url, path_text cache] s) (\<lambda>s _. (s, Inr cache)))))"

definition materialize :: "'s git_host \<Rightarrow> path \<Rightarrow> path \<Rightarrow> string \<Rightarrow> string option \<Rightarrow> 's \<Rightarrow> ('s, workspace_kind) result" where
  "materialize h base p revision branch s =
     bind_outcome (git_run h base None False
       ([''worktree'', ''add''] @ (case nonempty branch of Some b \<Rightarrow> [''--no-track'', ''-b'', b] | None \<Rightarrow> [''--detach''])
        @ [path_text p, revision]) s) (\<lambda>s attempt.
     if git_succeeded attempt then (s, Inr GIT_WORKTREE)
     else
       bind_outcome (git_run h base None False
         [''clone'', ''--local'', ''--no-hardlinks'', ''--no-checkout'', path_text base, path_text p] (gh_rmtree h p s)) (\<lambda>s clone.
       if \<not> git_succeeded clone then (s, Inl (WorkspaceError ''workspace could not be created as a worktree or a clone''))
       else
         bind_outcome (git_run h p None True
           ([''checkout''] @ (case nonempty branch of Some b \<Rightarrow> [''-b'', b] | None \<Rightarrow> []) @ [revision]) s) (\<lambda>s _.
         (s, Inr CLONE))))"

text \<open>
  \<open>create\<close>; \<open>i\<close> is the generated identifier. The handle is built after the \<open>try\<close>: when it refuses its arguments, the directory and the
  path that was taken stay behind.
\<close>

definition create_workspace ::
  "'s git_host \<Rightarrow> manager \<Rightarrow> project \<Rightarrow> run_id \<Rightarrow> workspace_role \<Rightarrow> candidate_id option \<Rightarrow> string option \<Rightarrow> workspace_id \<Rightarrow> 's
   \<Rightarrow> manager \<times> ('s, workspace_handle) result" where
  "create_workspace h mg p rid role cand pinned i s =
     (case bind_outcome (base_repository h mg p s) (\<lambda>s base.
             case nonempty pinned of
               Some r \<Rightarrow> (s, Inr (base, r))
             | None \<Rightarrow> bind_outcome (resolve_revision h base (pj_default_branch p) s) (\<lambda>s r. (s, Inr (base, r)))) of
        (s1, Inl e) \<Rightarrow> (mg, s1, Inl e)
      | (s1, Inr (base, revision)) \<Rightarrow>
          (case allocate_path mg (gh_exists h s1) rid role i of
             (mg1, Inl e) \<Rightarrow> (mg1, s1, Inl e)
           | (mg1, Inr pth) \<Rightarrow>
               (case gh_mkdirs h (path_child (mg_root mg) (uuid_text (run_uuid rid))) s1 of
                  (s2, Inl e) \<Rightarrow> (mg1, s2, Inl e)
                | (s2, Inr _) \<Rightarrow>
                    let branch = (if role_is_writable role then Some (branch_name rid role i) else None) in
                    (case materialize h base pth revision branch s2 of
                       (s3, Inl e) \<Rightarrow> (mg_forget i pth mg1, gh_rmtree h pth s3, Inl e)
                     | (s3, Inr kind) \<Rightarrow>
                         (case mk_workspace_handle \<lparr>wk_id = i, wk_run_id = rid, wk_role = role, wk_kind = kind, wk_path = path_text pth,
                                  wk_base_revision = Some revision, wk_branch = branch, wk_candidate_id = cand\<rparr> of
                            Inl e \<Rightarrow> (mg1, s3, Inl e)
                          | Inr wh \<Rightarrow>
                              (mg_remember \<lparr>wr_handle = wh, wr_path = pth, wr_base = base\<rparr> mg1, s3, Inr wh))))))"

section \<open>Changing and merging\<close>

definition workspace_diff :: "'s git_host \<Rightarrow> manager \<Rightarrow> workspace_handle \<Rightarrow> 's \<Rightarrow> ('s, patch) result" where
  "workspace_diff h mg wh s =
     (case record_of mg wh of
        Inl e \<Rightarrow> (s, Inl e)
      | Inr r \<Rightarrow>
          bind_outcome (git_run h (wr_path r) None True [''add'', ''--intent-to-add'', ''--all''] s) (\<lambda>s _.
          bind_outcome (git_run h (wr_path r) None False [''rev-parse'', ''--verify'', ''HEAD''] s) (\<lambda>s head.
          let against = (if git_succeeded head then git_out head else EMPTY_TREE) in
          bind_outcome (git_run h (wr_path r) None True [''diff'', ''--no-color'', ''--no-ext-diff'', ''--find-renames'', against] s)
            (\<lambda>s d. (s, Inr (from_unified_diff (gr_stdout d) (Some against)))))))"

definition with_newline :: "string \<Rightarrow> string" where
  "with_newline diff = (if diff \<noteq> [] \<and> last diff = CHR 0x0A then diff else diff @ [CHR 0x0A])"

definition apply_args :: "bool \<Rightarrow> string list" where
  "apply_args check = [''apply''] @ (if check then [''--check''] else []) @ [''--whitespace=nowarn'', ''-'']"

definition apply_workspace_patch :: "'s git_host \<Rightarrow> manager \<Rightarrow> workspace_handle \<Rightarrow> patch \<Rightarrow> 's \<Rightarrow> ('s, unit) result" where
  "apply_workspace_patch h mg wh p s =
     (case require_writable mg wh of
        Inl e \<Rightarrow> (s, Inl e)
      | Inr r \<Rightarrow>
          if patch_is_empty p then (s, Inr ())
          else
            let diff = with_newline (diff_text p) in
            bind_outcome (git_run h (wr_path r) (Some diff) False (apply_args True) s) (\<lambda>s check.
            if \<not> git_succeeded check then (s, Inl (WorkspaceError ''patch does not apply cleanly''))
            else bind_outcome (git_run h (wr_path r) (Some diff) True (apply_args False) s) (\<lambda>s _. (s, Inr ()))))"

definition commit_workspace :: "'s git_host \<Rightarrow> manager \<Rightarrow> workspace_handle \<Rightarrow> string \<Rightarrow> 's \<Rightarrow> ('s, string) result" where
  "commit_workspace h mg wh message s =
     (case require_writable mg wh of
        Inl e \<Rightarrow> (s, Inl e)
      | Inr r \<Rightarrow>
          bind_outcome (git_run h (wr_path r) None True [''add'', ''--all''] s) (\<lambda>s _.
          bind_outcome (git_run h (wr_path r) None False [''diff'', ''--cached'', ''--quiet''] s) (\<lambda>s staged.
          if git_succeeded staged then git_head h (wr_path r) s
          else
            bind_outcome (git_run h (wr_path r) None True [''commit'', ''--no-verify'', ''-m'', message] s) (\<lambda>s _.
            git_head h (wr_path r) s))))"

definition integration_ref :: "'s git_host \<Rightarrow> workspace_record \<Rightarrow> 's \<Rightarrow> ('s, string) result" where
  "integration_ref h r s =
     (let wh = wr_handle r in
      case (wk_kind wh, nonempty (wk_branch wh)) of
        (GIT_WORKTREE, Some b) \<Rightarrow> (s, Inr b)
      | (_, b) \<Rightarrow>
          let ref = ''refs/agentic/'' @ hex_digits 32 (workspace_uuid (wk_id wh)) in
          bind_outcome (git_run h (wr_base r) None True [''fetch'', ''--no-tags'', path_text (wr_path r), or_else b ''HEAD'' @ '':'' @ ref] s)
            (\<lambda>s _. (s, Inr ref)))"

definition merge_args :: "string \<Rightarrow> string \<Rightarrow> string list" where
  "merge_args message ref = [''merge'', ''--no-ff'', ''--no-edit'', ''-m'', message, ref]"

definition integrate_workspace :: "'s git_host \<Rightarrow> manager \<Rightarrow> project \<Rightarrow> workspace_handle \<Rightarrow> string \<Rightarrow> 's \<Rightarrow> ('s, string) result" where
  "integrate_workspace h mg p wh message s =
     (case require_writable mg wh of
        Inl e \<Rightarrow> (s, Inl e)
      | Inr r \<Rightarrow>
          let base = wr_base r in
          bind_outcome (commit_workspace h mg wh message s) (\<lambda>s _.
          bind_outcome (git_run h base None True [''rev-parse'', ''--is-bare-repository''] s) (\<lambda>s bare.
          if git_out bare = ''true'' then (s, Inl (WorkspaceError ''cannot integrate into a bare repository''))
          else
            bind_outcome (git_run h base None True [''rev-parse'', ''--abbrev-ref'', ''HEAD''] s) (\<lambda>s current.
            if git_out current \<noteq> pj_default_branch p then (s, Inl (WorkspaceError ''base repository is not on its default branch''))
            else
              bind_outcome (git_run h base None True [''status'', ''--porcelain''] s) (\<lambda>s dirty.
              if git_out dirty \<noteq> [] then (s, Inl (WorkspaceError ''base repository has uncommitted changes''))
              else
                bind_outcome (integration_ref h r s) (\<lambda>s ref.
                bind_outcome (git_run h base None False (merge_args message ref) s) (\<lambda>s merge.
                if git_succeeded merge then git_head h base s
                else
                  bind_outcome (git_run h base None False [''merge'', ''--abort''] s) (\<lambda>s _.
                  (s, Inl (WorkspaceError ''candidate does not merge cleanly into the base repository'')))))))))) "

section \<open>Releasing\<close>

definition release_workspace :: "'s git_host \<Rightarrow> manager \<Rightarrow> workspace_id \<Rightarrow> 's \<Rightarrow> manager \<times> ('s, unit) result" where
  "release_workspace h mg i s =
     (case mg_release i mg of
        (mg1, None) \<Rightarrow> (mg1, s, Inr ())
      | (mg1, Some r) \<Rightarrow>
          let tree = (wk_kind (wr_handle r) = GIT_WORKTREE) in
          (mg1,
           bind_outcome (if tree then git_run h (wr_base r) None False [''worktree'', ''remove'', ''--force'', path_text (wr_path r)] s
                         else (s, Inr \<lparr>gr_exit_code = 0, gr_stdout = [], gr_stderr = []\<rparr>)) (\<lambda>s _.
           let s1 = gh_rmtree h (wr_path r) s in
           if tree then bind_outcome (git_run h (wr_base r) None False [''worktree'', ''prune''] s1) (\<lambda>s _. (s, Inr ())) else (s1, Inr ()))))"

fun release_all :: "'s git_host \<Rightarrow> manager \<Rightarrow> workspace_id list \<Rightarrow> 's \<Rightarrow> manager \<times> ('s, unit) result" where
  "release_all h mg [] s = (mg, s, Inr ())"
| "release_all h mg (i # rest) s =
     (case release_workspace h mg i s of
        (mg1, s1, Inl e) \<Rightarrow> (mg1, s1, Inl e)
      | (mg1, s1, Inr _) \<Rightarrow> release_all h mg1 rest s1)"

definition release_run :: "'s git_host \<Rightarrow> manager \<Rightarrow> run_id \<Rightarrow> 's \<Rightarrow> manager \<times> ('s, workspace_id list) result" where
  "release_run h mg rid s =
     (let targets = map fst (filter (\<lambda>(i, r). wk_run_id (wr_handle r) = rid) (mg_records mg)) in
      case release_all h mg targets s of
        (mg1, s1, Inl e) \<Rightarrow> (mg1, s1, Inl e)
      | (mg1, s1, Inr _) \<Rightarrow> (mg1, gh_rmdir h (path_child (mg_root mg) (uuid_text (run_uuid rid))) s1, Inr targets))"

section \<open>Git tools\<close>

definition git_diff_tool ::
  "'s git_host \<Rightarrow> filesystem \<Rightarrow> location \<Rightarrow> tool_invocation \<Rightarrow> workspace_handle \<Rightarrow> int \<Rightarrow> 's \<Rightarrow> ('s, tool_result) result" where
  "git_diff_tool h fs cwd iv wh elapsed s =
     (let tool = ''git_diff''; args = iv_arguments iv; dir = mk_path (wk_path wh) in
      case bool_argument tool args ''staged_only'' False of
        Inl e \<Rightarrow> (s, Inl e)
      | Inr staged \<Rightarrow>
          bind_outcome
            (if staged then (s, Inr ())
             else bind_outcome (git_run h dir None False [''add'', ''--intent-to-add'', ''--all''] s) (\<lambda>s _. (s, Inr ()))) (\<lambda>s _.
          case (case map_of args ''path'' of
                  Some (JStr p) \<Rightarrow> if p = [] then Inr [] else bind_sum (resolve_in_workspace fs cwd tool wh p) (\<lambda>_. Inr [''--'', p])
                | _ \<Rightarrow> Inr []) of
            Inl e \<Rightarrow> (s, Inl e)
          | Inr restriction \<Rightarrow>
              let argv = [''diff'', ''--no-color'', ''--no-ext-diff''] @ (if staged then [''--cached''] else []) @ restriction in
              bind_outcome (git_run h dir None False argv s) (\<lambda>s r.
              (s, Inr (local_result tool VCS (''git '' @ py_join '' '' argv) (gr_exit_code r) elapsed (gr_stdout r) (gr_stderr r) False [])))))"

definition git_status_tool :: "'s git_host \<Rightarrow> workspace_handle \<Rightarrow> int \<Rightarrow> 's \<Rightarrow> ('s, tool_result) result" where
  "git_status_tool h wh elapsed s =
     bind_outcome (git_run h (mk_path (wk_path wh)) None False [''status'', ''--porcelain=v1'', ''--branch''] s) (\<lambda>s r.
     (s, Inr (local_result ''git_status'' VCS ''git status --porcelain=v1 --branch'' (gr_exit_code r) elapsed (gr_stdout r) (gr_stderr r) False
        [(''dirty_files'', JInt (max (int (length (splitlines (strip (gr_stdout r)))) - 1) 0))])))"

definition apply_patch_tool :: "'s git_host \<Rightarrow> tool_invocation \<Rightarrow> workspace_handle \<Rightarrow> int \<Rightarrow> 's \<Rightarrow> ('s, tool_result) result" where
  "apply_patch_tool h iv wh elapsed s =
     (let tool = ''apply_patch''; dir = mk_path (wk_path wh) in
      if \<not> is_writable wh then (s, Inl (ToolExecutionError tool ''workspace is read-only''))
      else
        (case string_argument tool (iv_arguments iv) ''patch'' None of
           Inl e \<Rightarrow> (s, Inl e)
         | Inr raw \<Rightarrow>
             if strip raw = [] then (s, Inr (local_result tool PATCH ''git apply'' 1 elapsed [] ''patch is empty'' False []))
             else
               let diff = with_newline raw in
               bind_outcome (git_run h dir (Some diff) False (apply_args True) s) (\<lambda>s check.
               if \<not> git_succeeded check
               then (s, Inr (local_result tool PATCH ''git apply --check'' (gr_exit_code check) elapsed [] (gr_stderr check) False
                              [(''applied'', JBool False)]))
               else
                 bind_outcome (git_run h dir (Some diff) False (apply_args False) s) (\<lambda>s applied.
                 (s, Inr (local_result tool PATCH ''git apply'' (gr_exit_code applied) elapsed (gr_stdout applied) (gr_stderr applied) False
                            [(''applied'', JBool (git_succeeded applied))]))))))"

section \<open>Interleaving\<close>

text \<open>
  Between taking its path and recording its workspace a \<open>create\<close> waits for \<open>git\<close>: the second component holds the creations under way. Each
  step is one critical section. A creation whose handle is refused leaves its path taken.
\<close>

type_synonym workshop = "manager \<times> (workspace_id \<times> path) list"

inductive workshop_step :: "workshop \<Rightarrow> workshop \<Rightarrow> bool" where
  begins: "allocate_path mg present rid role i = (mg', Inr p) \<Longrightarrow> i \<notin> fst ` set pending \<Longrightarrow> dict_get (mg_records mg) i = None
    \<Longrightarrow> workshop_step (mg, pending) (mg', (i, p) # pending)"
| refuses: "allocate_path mg present rid role i = (mg', Inl e) \<Longrightarrow> workshop_step (mg, pending) (mg', pending)"
| finishes: "(i, p) \<in> set pending \<Longrightarrow> wr_path r = p \<Longrightarrow> wk_id (wr_handle r) = i
    \<Longrightarrow> workshop_step (mg, pending) (mg_remember r mg, remove1 (i, p) pending)"
| fails: "(i, p) \<in> set pending \<Longrightarrow> workshop_step (mg, pending) (mg_forget i p mg, remove1 (i, p) pending)"
| leaks: "(i, p) \<in> set pending \<Longrightarrow> workshop_step (mg, pending) (mg, remove1 (i, p) pending)"
| releases: "workshop_step (mg, pending) (fst (mg_release i mg), pending)"

inductive workshop_reachable :: "workshop \<Rightarrow> bool" where
  initial: "workshop_reachable (new_manager base cache, [])"
| step: "workshop_reachable w \<Longrightarrow> workshop_step w w' \<Longrightarrow> workshop_reachable w'"

text \<open>The directories somebody owns: those of creations under way and those of recorded workspaces.\<close>

definition owned :: "workshop \<Rightarrow> path list" where
  "owned w = map snd (snd w) @ map (wr_path \<circ> snd) (mg_records (fst w))"

definition workshop_inv :: "workshop \<Rightarrow> bool" where
  "workshop_inv w \<longleftrightarrow> distinct (owned w) \<and> set (owned w) \<subseteq> mg_paths (fst w)
     \<and> distinct (map fst (snd w) @ map fst (mg_records (fst w)))"

lemma remove1_owned:
  assumes "(i, p) \<in> set pending" and "distinct (map snd pending @ ps)" and "distinct (map fst pending @ is)"
  shows "distinct (map snd (remove1 (i, p) pending) @ ps)" "p \<notin> set (map snd (remove1 (i, p) pending) @ ps)"
    "distinct (map fst (remove1 (i, p) pending) @ is)" "i \<notin> set (map fst (remove1 (i, p) pending) @ is)"
    "set (map snd (remove1 (i, p) pending)) \<subseteq> set (map snd pending)"
proof -
  obtain xs ys where split: "pending = xs @ (i, p) # ys" "(i, p) \<notin> set xs" using assms(1) by (meson split_list_first)
  then have "remove1 (i, p) pending = xs @ ys" by (simp add: remove1_append)
  with assms(2,3) split show "distinct (map snd (remove1 (i, p) pending) @ ps)" "p \<notin> set (map snd (remove1 (i, p) pending) @ ps)"
    "distinct (map fst (remove1 (i, p) pending) @ is)" "i \<notin> set (map fst (remove1 (i, p) pending) @ is)"
    "set (map snd (remove1 (i, p) pending)) \<subseteq> set (map snd pending)"
    by auto
qed

lemma dict_set_unused: "k \<notin> set (map fst d) \<Longrightarrow> dict_set k v d = d @ [(k, v)]"
  by (induction d) auto

lemma dict_pop_unused: "k \<notin> set (map fst d) \<Longrightarrow> dict_pop k d = d"
  by (induction d) auto

lemma workshop_parts:
  assumes "workshop_inv (mg, pending)"
  shows "distinct (map snd pending @ map (wr_path \<circ> snd) (mg_records mg))" "distinct (map fst pending @ map fst (mg_records mg))"
    "set (map snd pending) \<subseteq> mg_paths mg" "set (map (wr_path \<circ> snd) (mg_records mg)) \<subseteq> mg_paths mg"
  using assms by (auto simp: workshop_inv_def owned_def)

lemma workshop_step_inv: "workshop_step w w' \<Longrightarrow> workshop_inv w \<Longrightarrow> workshop_inv w'"
proof (induction rule: workshop_step.induct)
  case (begins mg present rid role i mg' p pending)
  then have mg': "mg' = mg\<lparr>mg_paths := insert p (mg_paths mg)\<rparr>" "p \<notin> mg_paths mg"
    by (auto simp: allocate_path_def Let_def split: if_splits)
  have "i \<notin> set (map fst (mg_records mg))" using begins(3) by (auto simp: map_of_eq_None_iff)
  with begins mg' show ?case by (auto simp: workshop_inv_def owned_def)
next
  case (refuses mg present rid role i mg' e pending)
  then show ?case by (auto simp: allocate_path_def Let_def split: if_splits)
next
  case (finishes i p pending r mg)
  note inv = workshop_parts [OF finishes(4)]
  note parts = remove1_owned [OF finishes(1) inv(1,2)]
  have "mg_records (mg_remember r mg) = mg_records mg @ [(i, r)]" using parts(4) finishes(3) by (simp add: mg_remember_def dict_set_unused)
  moreover have "p \<in> mg_paths mg" using finishes(1) inv(3) by force
  ultimately show ?case
    using parts finishes(2) inv(3,4) by (auto simp: workshop_inv_def owned_def mg_remember_def)
next
  case (fails i p pending mg)
  note inv = workshop_parts [OF fails(2)]
  note parts = remove1_owned [OF fails(1) inv(1,2)]
  have "mg_records (mg_forget i p mg) = mg_records mg" using parts(4) by (simp add: mg_forget_def dict_pop_unused)
  then show ?case using parts inv(3,4) by (auto simp: workshop_inv_def owned_def mg_forget_def)
next
  case (leaks i p pending mg)
  note inv = workshop_parts [OF leaks(2)]
  note parts = remove1_owned [OF leaks(1) inv(1,2)]
  then show ?case using inv(3,4) by (auto simp: workshop_inv_def owned_def)
next
  case (releases mg pending i)
  show ?case
  proof (cases "dict_get (mg_records mg) i")
    case None
    then show ?thesis using releases by (simp add: mg_release_def)
  next
    case (Some r)
    then obtain xs ys where split: "mg_records mg = xs @ (i, r) # ys" by (meson map_of_SomeD split_list)
    then have fresh: "i \<notin> set (map fst xs)" "i \<notin> set (map fst ys)" using releases by (auto simp: workshop_inv_def)
    have "dict_pop i (mg_records mg) = xs @ ys"
      using dict_pop_unused [OF fresh(1)] dict_pop_unused [OF fresh(2)] by (simp add: split AList.delete_eq)
    then show ?thesis using releases split Some by (auto simp: workshop_inv_def owned_def mg_release_def image_iff)
  qed
qed

lemma workshop_reachable_inv: "workshop_reachable w \<Longrightarrow> workshop_inv w"
proof (induction rule: workshop_reachable.induct)
  case (initial base cache)
  then show ?case by (simp add: workshop_inv_def owned_def new_manager_def)
next
  case (step w w')
  then show ?case by (blast intro: workshop_step_inv)
qed

text \<open>What the critical sections of \<open>create_workspace\<close> and \<open>release_workspace\<close> do to the manager are such steps.\<close>

lemma create_is_steps:
  assumes "create_workspace h mg p rid role cand pinned i s = (mg', s', res)"
    and "i \<notin> fst ` set pending" and "dict_get (mg_records mg) i = None"
  shows "workshop_step\<^sup>*\<^sup>* (mg, pending) (mg', pending)"
proof (cases "bind_outcome (base_repository h mg p s) (\<lambda>s base.
    case nonempty pinned of Some r \<Rightarrow> (s, Inr (base, r))
    | None \<Rightarrow> bind_outcome (resolve_revision h base (pj_default_branch p) s) (\<lambda>s r. (s, Inr (base, r))))")
  case found: (Pair s1 br)
  show ?thesis
  proof (cases "br")
    case (Inl e)
    then show ?thesis using assms(1) found by (simp add: create_workspace_def)
  next
    case br: (Inr b)
    obtain base revision where b: "b = (base, revision)" by (cases b)
    obtain mg1 al where al: "allocate_path mg (gh_exists h s1) rid role i = (mg1, al)" by fastforce
    show ?thesis
    proof (cases al)
      case (Inl e)
      then have "mg' = mg1" using assms(1) found br b al by (simp add: create_workspace_def)
      then show ?thesis using workshop_step.refuses [of mg _ rid role i mg1 e pending] al Inl by auto
    next
      case (Inr pth)
      have begun: "workshop_step (mg, pending) (mg1, (i, pth) # pending)"
        by (rule workshop_step.begins [OF al [unfolded Inr] assms(2,3)])
      have "workshop_step (mg1, (i, pth) # pending) (mg', pending)"
        using assms(1) found br b al Inr workshop_step.leaks [of i pth "(i, pth) # pending" mg1]
          workshop_step.fails [of i pth "(i, pth) # pending" mg1] workshop_step.finishes [of i pth "(i, pth) # pending" _ mg1]
        by (auto simp: create_workspace_def mk_workspace_handle_def Let_def split: prod.splits sum.splits if_splits)
      with begun show ?thesis by (meson converse_rtranclp_into_rtranclp rtranclp.rtrancl_refl)
    qed
  qed
qed

lemma release_is_a_step:
  "release_workspace h mg i s = (mg', s', res) \<Longrightarrow> workshop_step (mg, pending) (mg', pending)"
  using workshop_step.releases [of mg pending i] by (auto simp: release_workspace_def Let_def split: prod.splits option.splits)

text \<open>
  C37. Two workspaces never share a directory. However creations, failures and releases interleave, the directories of all workspaces that exist or
  are being made are different, each is one the manager holds as taken, and a path that is taken is refused to the next creation.
\<close>

theorem workspaces_never_share_a_path:
  assumes "workshop_reachable (mg, pending)"
  shows "distinct (owned (mg, pending)) \<and> set (owned (mg, pending)) \<subseteq> mg_paths mg
    \<and> (\<forall>i j r q. dict_get (mg_records mg) i = Some r \<and> dict_get (mg_records mg) j = Some q \<and> i \<noteq> j \<longrightarrow> wr_path r \<noteq> wr_path q)
    \<and> (\<forall>present rid role i. workspace_path mg rid role i \<in> set (owned (mg, pending)) \<longrightarrow>
        (\<exists>e. allocate_path mg present rid role i = (mg, Inl e)))"
proof -
  have inv: "distinct (owned (mg, pending))" "set (owned (mg, pending)) \<subseteq> mg_paths mg"
    using workshop_reachable_inv [OF assms] by (auto simp: workshop_inv_def)
  have "wr_path r \<noteq> wr_path q" if "dict_get (mg_records mg) i = Some r" "dict_get (mg_records mg) j = Some q" "i \<noteq> j" for i j r q
  proof -
    have "inj_on (wr_path \<circ> snd) (set (mg_records mg))" using inv(1) by (auto simp: owned_def distinct_map)
    from inj_onD [OF this, of "(i, r)" "(j, q)"] that show ?thesis by (auto dest: map_of_SomeD)
  qed
  moreover have "\<exists>e. allocate_path mg present rid role i = (mg, Inl e)" if "workspace_path mg rid role i \<in> set (owned (mg, pending))"
    for present rid role i
    using that inv(2) by (auto simp: allocate_path_def Let_def)
  ultimately show ?thesis using inv by blast
qed

definition workshop_example :: manager where
  "workshop_example = fst (allocate_path (new_manager (mk_path ''/w'') None) (\<lambda>_. False) (RunId 1) WR_CANDIDATE (WorkspaceId 2))"

theorem workspaces_never_share_a_path_witness:
  "workshop_reachable (workshop_example, [(WorkspaceId 2, workspace_path workshop_example (RunId 1) WR_CANDIDATE (WorkspaceId 2))])
   \<and> (\<exists>e. allocate_path workshop_example (\<lambda>_. False) (RunId 1) WR_CANDIDATE (WorkspaceId 2) = (workshop_example, Inl e))"
proof -
  let ?p = "workspace_path workshop_example (RunId 1) WR_CANDIDATE (WorkspaceId 2)"
  have "allocate_path (new_manager (mk_path ''/w'') None) (\<lambda>_. False) (RunId 1) WR_CANDIDATE (WorkspaceId 2) = (workshop_example, Inr ?p)"
    by (simp add: workshop_example_def allocate_path_def Let_def new_manager_def workspace_path_def)
  then have "workshop_step (new_manager (mk_path ''/w'') None, []) (workshop_example, [(WorkspaceId 2, ?p)])"
    by (rule workshop_step.begins) (auto simp: new_manager_def)
  then have reach: "workshop_reachable (workshop_example, [(WorkspaceId 2, ?p)])"
    by (rule workshop_reachable.step [OF workshop_reachable.initial])
  have "?p \<in> set (owned (workshop_example, [(WorkspaceId 2, ?p)]))" by (simp add: owned_def)
  with reach workspaces_never_share_a_path [OF reach] show ?thesis by blast
qed

section \<open>Applying a patch\<close>


definition patch_host :: "string git_host" where
  "patch_host =
     \<lparr>gh_git = (\<lambda>s c. if ''--check'' \<in> set (gc_argv c) then (s, Finished 0 [] []) else (s @ the (gc_stdin c), Finished 0 [] [])),
      gh_environ = [], gh_config = [], gh_exists = (\<lambda>_ _. False), gh_resolve = (\<lambda>_ p. p), gh_mkdirs = (\<lambda>_ s. (s, Inr ())),
      gh_rmtree = (\<lambda>_ s. s), gh_rmdir = (\<lambda>_ s. s)\<rparr>"

definition candidate_workspace :: workspace_handle where
  "candidate_workspace = \<lparr>wk_id = WorkspaceId 2, wk_run_id = RunId 1, wk_role = WR_CANDIDATE, wk_kind = GIT_WORKTREE, wk_path = ''/w/c'',
     wk_base_revision = Some ''r'', wk_branch = Some ''b'', wk_candidate_id = Some (CandidateId 3)\<rparr>"

definition candidate_manager :: manager where
  "candidate_manager =
     mg_remember \<lparr>wr_handle = candidate_workspace, wr_path = mk_path ''/w/c'', wr_base = mk_path ''/r''\<rparr> (new_manager (mk_path ''/w'') None)"

lemma patch_example:
  "\<not> patch_is_empty (from_unified_diff ''+x'' None)" "require_writable candidate_manager candidate_workspace =
    Inr \<lparr>wr_handle = candidate_workspace, wr_path = mk_path ''/w/c'', wr_base = mk_path ''/r''\<rparr>"
  by (simp_all add: patch_is_empty_def from_unified_diff_def strip_def py_isspace_def require_writable_def record_of_def candidate_manager_def
    mg_remember_def new_manager_def is_writable_def) (simp_all add: candidate_workspace_def)

lemmas host_simps = patch_host_def git_command_def apply_args_def git_identity_def


section \<open>Merging the winner\<close>

text \<open>
  \<open>f\<close> is what is seen of the base repository: the branch that is checked out there, its commit and its files. What git documents of
  the commands before the merge, for a workspace whose working tree is not the base's: the commands that only inspect change none of it; staging
  and committing in the workspace's own tree move its index and its branch (a branch is checked out in one tree only); fetching from it
  into a reference under \<open>refs/agentic\<close> moves that reference. Nothing is said of any other command, nor of staging or committing in the base.
\<close>

definition inspects :: "string list \<Rightarrow> bool" where
  "inspects args \<longleftrightarrow> take 1 args = [''rev-parse''] \<or> args = [''status'', ''--porcelain''] \<or> args = [''diff'', ''--cached'', ''--quiet'']"

definition fetched_ref :: "workspace_id \<Rightarrow> string" where
  "fetched_ref i = ''refs/agentic/'' @ hex_digits 32 (workspace_uuid i)"

definition own_tree :: "'s git_host \<Rightarrow> ('s \<Rightarrow> 'b) \<Rightarrow> path \<Rightarrow> path \<Rightarrow> bool" where
  "own_tree h f base tree \<longleftrightarrow>
     (\<forall>s cwd args. inspects args \<longrightarrow> f (fst (gh_git h s (git_command h cwd None args))) = f s)
     \<and> (\<forall>s. f (fst (gh_git h s (git_command h tree None [''add'', ''--all'']))) = f s)
     \<and> (\<forall>s message. f (fst (gh_git h s (git_command h tree None [''commit'', ''--no-verify'', ''-m'', message]))) = f s)
     \<and> (\<forall>s src i. f (fst (gh_git h s (git_command h base None
           [''fetch'', ''--no-tags'', path_text tree, src @ '':'' @ fetched_ref i]))) = f s)"

text \<open>What those commands keep, a sequence of them keeps.\<close>

named_theorems quiet

lemma keeps_bind [quiet]:
  "f (fst m) = f s \<Longrightarrow> (\<And>s1 a. f (fst (k s1 a)) = f s1) \<Longrightarrow> f (fst (bind_outcome m k)) = f s"
  by (auto simp: bind_outcome_def split: prod.splits sum.splits)

lemma keeps_refusal [quiet]: "f (fst (s, Inl e)) = f s" "f (fst (s, Inr a)) = f s"
  by simp_all

lemma fst_git_run: "fst (git_run h cwd stdin check args s) = fst (gh_git h s (git_command h cwd stdin args))"
  by (simp add: git_run_def split: prod.splits git_reply.splits)

lemma quiet_inspection [quiet]:
  "own_tree h f base tree \<Longrightarrow> inspects args \<Longrightarrow> f (fst (git_run h cwd None check args s)) = f s"
  by (simp add: fst_git_run own_tree_def)

lemma quiet_head [quiet]: "own_tree h f base tree \<Longrightarrow> f (fst (git_head h p s)) = f s"
  unfolding git_head_def by (intro quiet) (auto simp: inspects_def)

lemma quiet_commit:
  assumes "own_tree h f base (wr_path r)" and "require_writable mg wh = Inr r"
  shows "f (fst (commit_workspace h mg wh message s)) = f s"
proof -
  have "f (fst (git_run h (wr_path r) None True [''add'', ''--all''] s)) = f s"
    "f (fst (git_run h (wr_path r) None True [''commit'', ''--no-verify'', ''-m'', message] s)) = f s" for s
    using assms(1) by (simp_all add: fst_git_run own_tree_def)
  moreover have "f (fst (git_run h (wr_path r) None False [''diff'', ''--cached'', ''--quiet''] s)) = f s" "f (fst (git_head h (wr_path r) s)) = f s" for s
    using quiet_inspection [OF assms(1)] quiet_head [OF assms(1)] by (simp_all add: inspects_def)
  ultimately show ?thesis unfolding commit_workspace_def assms(2) sum.case by (simp add: keeps_bind)
qed

lemma quiet_ref:
  assumes "own_tree h f (wr_base r) (wr_path r)"
  shows "f (fst (integration_ref h r s)) = f s"
proof -
  have "f (fst (git_run h (wr_base r) None True [''fetch'', ''--no-tags'', path_text (wr_path r), src @ '':'' @ fetched_ref i] s)) = f s" for src i s
    using assms by (simp add: fst_git_run own_tree_def)
  from this [of "''HEAD''"] this show ?thesis unfolding integration_ref_def Let_def fetched_ref_def [symmetric]
    by (auto split: workspace_kind.split option.split intro!: keeps_bind)
qed

lemma bind_outcome_split:
  assumes "bind_outcome m k = (s', res)"
  obtains (raises) e where "m = (s', Inl e)" "res = Inl e" | (goes) s1 a where "m = (s1, Inr a)" "k s1 a = (s', res)"
  using assms by (auto simp: bind_outcome_def split: prod.splits sum.splits)

lemma git_run_Inr:
  "git_run h cwd stdin check args s = (s1, Inr r) \<Longrightarrow>
     gh_git h s (git_command h cwd stdin args) = (s1, Finished (gr_exit_code r) (gr_stdout r) (gr_stderr r)) \<and> (check \<longrightarrow> gr_exit_code r = 0)"
  by (auto simp: git_run_def split: prod.splits git_reply.splits if_splits)

text \<open>The command that merges, and the one that undoes it.\<close>

abbreviation merging :: "'s git_host \<Rightarrow> path \<Rightarrow> string \<Rightarrow> string \<Rightarrow> 's \<Rightarrow> 's \<times> git_reply" where
  "merging h base message ref s \<equiv> gh_git h s (git_command h base None (merge_args message ref))"

abbreviation aborting :: "'s git_host \<Rightarrow> path \<Rightarrow> 's \<Rightarrow> 's \<times> git_reply" where
  "aborting h base s \<equiv> gh_git h s (git_command h base None [''merge'', ''--abort''])"

text \<open>An undoing that ends well undoes: the base is as it was before the merge.\<close>

definition abort_undoes :: "'s git_host \<Rightarrow> ('s \<Rightarrow> 'b) \<Rightarrow> bool" where
  "abort_undoes h f \<longleftrightarrow>
     (\<forall>s base message ref c out err out' err'. snd (merging h base message ref s) = Finished c out err \<and> c \<noteq> 0
        \<and> snd (aborting h base (fst (merging h base message ref s))) = Finished 0 out' err'
        \<longrightarrow> f (fst (aborting h base (fst (merging h base message ref s)))) = f s)"

definition merge_stands :: "'s git_host \<Rightarrow> ('s \<Rightarrow> 'b) \<Rightarrow> path \<Rightarrow> string \<Rightarrow> string \<Rightarrow> 's \<Rightarrow> 's \<Rightarrow> bool" where
  "merge_stands h f base message ref s s' \<longleftrightarrow>
     (case merging h base message ref s of
        (s1, Finished c _ _) \<Rightarrow>
          if c = 0 then f s' = f s1
          else (case aborting h base s1 of (s2, Finished c' _ _) \<Rightarrow> c' \<noteq> 0 \<and> s' = s2 | (s2, _) \<Rightarrow> s' = s2)
      | (s1, _) \<Rightarrow> s' = s1)"

lemma merge_or_undo:
  assumes quiet: "own_tree h f base tree" and undo: "abort_undoes h f"
    and "bind_outcome (git_run h base None False (merge_args message ref) s) (\<lambda>s merge.
       if git_succeeded merge then git_head h base s
       else bind_outcome (git_run h base None False [''merge'', ''--abort''] s) (\<lambda>s _. (s, Inl e))) = (s', res)"
  shows "f s' = f s \<or> merge_stands h f base message ref s s'"
  using assms(3)
proof (cases rule: bind_outcome_split)
  case (raises e')
  then show ?thesis by (auto simp: git_run_def merge_stands_def split: prod.splits git_reply.splits)
next
  case (goes s1 r)
  from git_run_Inr [OF goes(1)] have m: "merging h base message ref s = (s1, Finished (gr_exit_code r) (gr_stdout r) (gr_stderr r))" by simp
  show ?thesis
  proof (cases "git_succeeded r")
    case True
    then have "f s' = f s1" using goes(2) quiet_head [OF quiet, of base s1] by simp
    then show ?thesis using True m by (simp add: merge_stands_def git_succeeded_def)
  next
    case False
    with goes(2) have "bind_outcome (git_run h base None False [''merge'', ''--abort''] s1) (\<lambda>s _. (s, Inl e)) = (s', res)" by simp
    then show ?thesis
    proof (cases rule: bind_outcome_split)
      case (raises e')
      then show ?thesis using m False by (auto simp: git_run_def merge_stands_def git_succeeded_def split: prod.splits git_reply.splits)
    next
      case ab: (goes s2 q)
      from git_run_Inr [OF ab(1)] have q: "aborting h base s1 = (s2, Finished (gr_exit_code q) (gr_stdout q) (gr_stderr q))" by simp
      show ?thesis
      proof (cases "gr_exit_code q = 0")
        case True
        then have "f s2 = f s" using undo m q False unfolding abort_undoes_def git_succeeded_def by (metis fst_conv snd_conv)
        then show ?thesis using ab(2) by simp
      next
        case bad: False
        then show ?thesis using ab(2) m q False by (simp add: merge_stands_def git_succeeded_def)
      qed
    qed
  qed
qed

text \<open>Sequences that keep what \<open>f\<close> sees until something else is known.\<close>

lemma quiet_then:
  assumes "bind_outcome m k = (s', res)" and "f (fst m) = f s"
    and "\<And>s1 a. m = (s1, Inr a) \<Longrightarrow> f s1 = f s \<Longrightarrow> k s1 a = (s', res) \<Longrightarrow> f s' = f s \<or> Q"
  shows "f s' = f s \<or> Q"
  using assms(1) by (cases rule: bind_outcome_split) (use assms(2,3) in auto)

lemma quiet_guard:
  assumes "(if g then (s1, Inl e) else m) = (s', res)" and "f s1 = f s" and "\<not> g \<Longrightarrow> m = (s', res) \<Longrightarrow> f s' = f s \<or> Q"
  shows "f s' = f s \<or> Q"
  using assms by (cases g) auto


text \<open>A project whose merges can be counted: the message \<open>bad\<close> stands for a conflict, which \<open>merge --abort\<close> takes back.\<close>

definition merge_host :: "nat git_host" where
  "merge_host =
     \<lparr>gh_git = (\<lambda>s c. let args = drop 9 (gc_argv c) in
        if args = [''merge'', ''--abort''] then (s - 1, Finished 0 [] [])
        else if take 1 args = [''merge''] then (s + 1, Finished (if ''bad'' \<in> set args then 1 else 0) [] [])
        else if args = [''rev-parse'', ''--abbrev-ref'', ''HEAD''] then (s, Finished 0 ''main'' [])
        else if args = [''status'', ''--porcelain''] then (s, Finished 0 [] [])
        else (s, Finished 0 ''c0ffee'' [])),
      gh_environ = [], gh_config = [], gh_exists = (\<lambda>_ _. False), gh_resolve = (\<lambda>_ p. p), gh_mkdirs = (\<lambda>_ s. (s, Inr ())),
      gh_rmtree = (\<lambda>_ s. s), gh_rmdir = (\<lambda>_ s. s)\<rparr>"

lemma merge_host_git: "gh_git merge_host s (git_command h cwd stdin args) =
  (if args = [''merge'', ''--abort''] then (s - 1, Finished 0 [] [])
   else if take 1 args = [''merge''] then (s + 1, Finished (if ''bad'' \<in> set args then 1 else 0) [] [])
   else if args = [''rev-parse'', ''--abbrev-ref'', ''HEAD''] then (s, Finished 0 ''main'' [])
   else if args = [''status'', ''--porcelain''] then (s, Finished 0 [] [])
   else (s, Finished 0 ''c0ffee'' []))"
  by (simp add: merge_host_def git_command_def git_identity_def)

lemma merge_host_lawful: "own_tree merge_host id base tree" "abort_undoes merge_host id"
proof -
  have "fst (gh_git merge_host s (git_command merge_host cwd stdin args)) = s" if "take 1 args \<noteq> [''merge'']" for s cwd stdin args
    using that by (auto simp: merge_host_git)
  then show "own_tree merge_host id base tree" unfolding own_tree_def inspects_def id_apply by auto
  show "abort_undoes merge_host id" by (simp add: abort_undoes_def merge_host_git merge_args_def)
qed

definition dev_project :: project where
  "dev_project = \<lparr>pj_id = ProjectId 1, pj_name = ''demo'', pj_repository_url = Some ''u'', pj_default_branch = ''dev'',
     pj_created_at = 0, pj_toolchain = default_toolchain, pj_local_path = None, pj_metadata = []\<rparr>"


end
