(* ===== verification/Pod.thy ===== *)
theory Pod
  imports Worker_Config
begin

text \<open>
  The description of a RunPod Pod (\<open>src/gpu-worker/tools/runpod_deployer/models.py\<close>): the settings of the worker and the
  environment made of them, the checks of a specification, the body of the request that creates the Pod, and a Pod as the
  service reports it. A secret is its text, empty when it is not set. Writing a decimal (\<open>:g\<close>), reading one (\<open>float\<close>) and \<open>str\<close> of
  a value that is no text are arguments.
\<close>

section \<open>Ports, settings and environment\<close>

datatype spec_error = SpecError string

definition SYMMETRIC_PORT_FLOOR :: int where
  "SYMMETRIC_PORT_FLOOR = 70000"

definition PROXY_TIMEOUT_SECONDS :: int where
  "PROXY_TIMEOUT_SECONDS = 100"

definition secret_repr :: "string \<Rightarrow> string" where
  "secret_repr s = (if s \<noteq> [] then ''SecretValue(set)'' else ''SecretValue(unset)'')"

text \<open>\<open>repr\<close> of a text without quotes or control characters.\<close>

definition repr_text :: "string \<Rightarrow> string" where
  "repr_text s = CHR 0x27 # s @ [CHR 0x27]"

record exposed_port =
  ep_number :: int
  ep_protocol :: string

definition mk_exposed_port :: "int \<Rightarrow> string \<Rightarrow> spec_error + exposed_port" where
  "mk_exposed_port n protocol =
     (if \<not> (1 \<le> n \<and> n \<le> SYMMETRIC_PORT_FLOOR + MAX_TCP_PORT)
      then Inl (SpecError (''port '' @ show_int n @ '' is not a usable port number''))
      else if protocol \<noteq> ''http'' \<and> protocol \<noteq> ''tcp'' then Inl (SpecError (''protocol must be http or tcp, got '' @ repr_text protocol))
      else Inr \<lparr>ep_number = n, ep_protocol = protocol\<rparr>)"

definition port_render :: "exposed_port \<Rightarrow> string" where
  "port_render p = show_int (ep_number p) @ ''/'' @ ep_protocol p"

definition default_ports :: "int \<Rightarrow> string \<Rightarrow> spec_error + exposed_port list" where
  "default_ports worker_port expose =
     (if expose \<notin> {''http'', ''tcp'', ''both''} then Inl (SpecError (''expose must be http, tcp or both, got '' @ repr_text expose))
      else
        bind_sum (if expose \<in> {''http'', ''both''} then map_sum id (\<lambda>p. [p]) (mk_exposed_port worker_port ''http'') else Inr []) (\<lambda>ps.
        bind_sum (if expose \<in> {''tcp'', ''both''} then map_sum id (\<lambda>p. [p]) (mk_exposed_port worker_port ''tcp'') else Inr []) (\<lambda>qs.
        Inr (ps @ qs))))"

record worker_settings =
  ws_model_id :: string
  ws_model_revision :: "string option"
  ws_served_model_name :: "string option"
  ws_persistent_root :: string
  ws_min_free_disk_gb :: pyfloat
  ws_port :: int
  ws_max_model_len :: int
  ws_gpu_memory_utilization :: pyfloat
  ws_tensor_parallel_size :: int
  ws_auto_tensor_parallel :: bool
  ws_extra_args :: "string list"
  ws_readiness_timeout :: pyfloat
  ws_hf_hub_disable_xet :: "bool option"
  ws_hf_token :: string
  ws_vllm_api_key :: string

definition default_worker_settings :: worker_settings where
  "default_worker_settings =
     \<lparr>ws_model_id = DEFAULT_MODEL_ID, ws_model_revision = None, ws_served_model_name = None, ws_persistent_root = DEFAULT_PERSISTENT_ROOT,
      ws_min_free_disk_gb = DEFAULT_MIN_FREE_DISK_GB, ws_port = 8000, ws_max_model_len = 16384, ws_gpu_memory_utilization = Finite (9 / 10),
      ws_tensor_parallel_size = 1, ws_auto_tensor_parallel = False, ws_extra_args = [], ws_readiness_timeout = Finite 1800,
      ws_hf_hub_disable_xet = None, ws_hf_token = [], ws_vllm_api_key = []\<rparr>"

definition settings_model_name :: "worker_settings \<Rightarrow> string" where
  "settings_model_name s = or_else (nonempty (ws_served_model_name s)) (ws_model_id s)"

record pod_environment =
  pe_public :: environ
  pe_secret :: environ

definition merge_secrets :: "(string \<Rightarrow> string) \<Rightarrow> pod_environment \<Rightarrow> environ" where
  "merge_secrets shown pe = fold (\<lambda>(k, v) d. if v = [] then d else dict_set k (shown v) d) (pe_secret pe) (pe_public pe)"

definition as_api_env :: "pod_environment \<Rightarrow> environ" where
  "as_api_env pe = merge_secrets (\<lambda>v. v) pe"

definition redacted_env :: "pod_environment \<Rightarrow> environ" where
  "redacted_env pe = merge_secrets (\<lambda>_. ''***'') pe"

definition secret_names :: "pod_environment \<Rightarrow> string list" where
  "secret_names pe = map fst (filter (\<lambda>(k, v). v \<noteq> []) (pe_secret pe))"

text \<open>An optional variable, present when the operator chose it.\<close>

definition optional_var :: "string \<Rightarrow> string option \<Rightarrow> environ" where
  "optional_var name v = (case v of None \<Rightarrow> [] | Some t \<Rightarrow> [(name, t)])"

definition build_pod_environment :: "(pyfloat \<Rightarrow> string) \<Rightarrow> worker_settings \<Rightarrow> pod_environment" where
  "build_pod_environment general s =
     \<lparr>pe_public =
        [(''MODEL_ID'', ws_model_id s), (''PERSISTENT_ROOT'', ws_persistent_root s), (''PORT'', show_int (ws_port s)),
         (''MAX_MODEL_LEN'', show_int (ws_max_model_len s)), (''GPU_MEMORY_UTILIZATION'', general (ws_gpu_memory_utilization s)),
         (''TENSOR_PARALLEL_SIZE'', show_int (ws_tensor_parallel_size s)), (''MIN_FREE_DISK_GB'', general (ws_min_free_disk_gb s)),
         (''READINESS_TIMEOUT_SECONDS'', general (ws_readiness_timeout s))]
        @ optional_var ''MODEL_REVISION'' (nonempty (ws_model_revision s))
        @ optional_var ''SERVED_MODEL_NAME'' (nonempty (ws_served_model_name s))
        @ optional_var ''AUTO_TENSOR_PARALLEL'' (if ws_auto_tensor_parallel s then Some ''1'' else None)
        @ optional_var ''VLLM_EXTRA_ARGS'' (if ws_extra_args s \<noteq> [] then Some (shlex_join (ws_extra_args s)) else None)
        @ optional_var ''HF_HUB_DISABLE_XET'' (map_option (\<lambda>b. if b then ''1'' else ''0'') (ws_hf_hub_disable_xet s)),
      pe_secret = optional_var ''HF_TOKEN'' (if ws_hf_token s \<noteq> [] then Some (ws_hf_token s) else None)
        @ optional_var ''VLLM_API_KEY'' (if ws_vllm_api_key s \<noteq> [] then Some (ws_vllm_api_key s) else None)\<rparr>"

section \<open>Specifications\<close>

record pod_spec =
  sp_image_name :: string
  sp_gpu_type_ids :: "string list"
  sp_name :: string
  sp_gpu_count :: int
  sp_cloud_type :: string
  sp_data_center_ids :: "string list"
  sp_container_disk_in_gb :: int
  sp_volume_in_gb :: int
  sp_network_volume_id :: "string option"
  sp_volume_mount_path :: string
  sp_ports :: "exposed_port list"
  sp_support_public_ip :: bool
  sp_global_networking :: bool
  sp_interruptible :: bool
  sp_worker :: worker_settings

definition mk_pod_spec :: "pod_spec \<Rightarrow> spec_error + pod_spec" where
  "mk_pod_spec s =
     (if strip (sp_image_name s) = [] then Inl (SpecError ''imageName must not be empty'')
      else if sp_gpu_count s < 1 then Inl (SpecError ''gpuCount must be at least 1'')
      else if sp_cloud_type s \<notin> {''SECURE'', ''COMMUNITY''}
      then Inl (SpecError (''cloudType must be SECURE or COMMUNITY, got '' @ repr_text (sp_cloud_type s)))
      else if sp_container_disk_in_gb s < 1 then Inl (SpecError ''containerDiskInGb must be at least 1'')
      else if sp_ports s = [] then Inl (SpecError ''a Pod with no exposed port cannot be reached'')
      else if ws_port (sp_worker s) \<notin> set (map ep_number (sp_ports s))
      then Inl (SpecError (''the worker listens on '' @ show_int (ws_port (sp_worker s)) @ '' but that port is not exposed (''
                @ py_join '', '' (map port_render (sp_ports s)) @ '')''))
      else if nonempty (sp_network_volume_id s) \<noteq> None \<and> sp_volume_mount_path s \<noteq> ws_persistent_root (sp_worker s)
      then Inl (SpecError (''the network volume is mounted at '' @ sp_volume_mount_path s @ '' but the worker writes to ''
                @ ws_persistent_root (sp_worker s)
                @ '': the model would land on the container disk and be lost on the next restart''))
      else Inr s)"

definition http_ports :: "pod_spec \<Rightarrow> int list" where
  "http_ports s = map ep_number (filter (\<lambda>p. ep_protocol p = ''http'') (sp_ports s))"

definition tcp_ports :: "pod_spec \<Rightarrow> int list" where
  "tcp_ports s = map ep_number (filter (\<lambda>p. ep_protocol p = ''tcp'') (sp_ports s))"

definition spec_environment :: "(pyfloat \<Rightarrow> string) \<Rightarrow> pod_spec \<Rightarrow> pod_environment" where
  "spec_environment general s = build_pod_environment general (sp_worker s)"

text \<open>\<open>with_worker(hf_token=..., vllm_api_key=...)\<close>.\<close>

definition with_secrets :: "string \<Rightarrow> string \<Rightarrow> pod_spec \<Rightarrow> pod_spec" where
  "with_secrets token key s = s\<lparr>sp_worker := (sp_worker s)\<lparr>ws_hf_token := token, ws_vllm_api_key := key\<rparr>\<rparr>"

definition env_json :: "environ \<Rightarrow> json" where
  "env_json env = JObj (map (\<lambda>(k, v). (k, JStr v)) env)"

definition texts_json :: "string list \<Rightarrow> json" where
  "texts_json ts = JArr (map JStr ts)"

text \<open>The body, with the environment as an argument: the command line replaces it by the redacted one before it prints the body.\<close>

definition create_body_with :: "json \<Rightarrow> pod_spec \<Rightarrow> json_object" where
  "create_body_with env s =
     [(''name'', JStr (sp_name s)), (''imageName'', JStr (sp_image_name s)), (''computeType'', JStr ''GPU''),
      (''cloudType'', JStr (sp_cloud_type s)), (''gpuCount'', JInt (sp_gpu_count s)),
      (''containerDiskInGb'', JInt (sp_container_disk_in_gb s)), (''volumeMountPath'', JStr (sp_volume_mount_path s)),
      (''ports'', texts_json (map port_render (sp_ports s))), (''env'', env), (''interruptible'', JBool (sp_interruptible s))]
     @ (if sp_gpu_type_ids s \<noteq> [] then [(''gpuTypeIds'', texts_json (sp_gpu_type_ids s))] else [])
     @ (if sp_data_center_ids s \<noteq> [] then [(''dataCenterIds'', texts_json (sp_data_center_ids s))] else [])
     @ (case nonempty (sp_network_volume_id s) of
          Some v \<Rightarrow> [(''networkVolumeId'', JStr v)]
        | None \<Rightarrow> if sp_volume_in_gb s \<noteq> 0 then [(''volumeInGb'', JInt (sp_volume_in_gb s))] else [])
     @ (if sp_cloud_type s = ''COMMUNITY'' \<and> tcp_ports s \<noteq> [] then [(''supportPublicIp'', JBool (sp_support_public_ip s))] else [])
     @ (if sp_global_networking s then [(''globalNetworking'', JBool True)] else [])"

definition to_create_body :: "(pyfloat \<Rightarrow> string) \<Rightarrow> pod_spec \<Rightarrow> json_object" where
  "to_create_body general s = create_body_with (env_json (as_api_env (spec_environment general s))) s"

definition or_text :: "string \<Rightarrow> string \<Rightarrow> string" where
  "or_text s dflt = (if s = [] then dflt else s)"

definition spec_describe :: "(pyfloat \<Rightarrow> string) \<Rightarrow> pod_spec \<Rightarrow> string list" where
  "spec_describe general s =
     [''name              '' @ sp_name s,
      ''image             '' @ sp_image_name s,
      ''gpu               '' @ or_text (py_join '', '' (sp_gpu_type_ids s)) ''any'' @ '' x'' @ show_int (sp_gpu_count s),
      ''cloud             '' @ sp_cloud_type s,
      ''data centers      '' @ or_text (py_join '', '' (sp_data_center_ids s)) ''any'',
      ''container disk    '' @ show_int (sp_container_disk_in_gb s) @ '' GB'',
      ''network volume    '' @ or_else (nonempty (sp_network_volume_id s)) ''NONE (nothing persists)'' @ '' at '' @ sp_volume_mount_path s,
      ''ports             '' @ py_join '', '' (map port_render (sp_ports s)),
      ''worker port       '' @ show_int (ws_port (sp_worker s)),
      ''model             '' @ settings_model_name (sp_worker s),
      ''secrets injected  '' @ or_text (py_join '', '' (secret_names (spec_environment general s))) ''none'']"

section \<open>Pods as reported\<close>

record pod_state =
  st_id :: string
  st_name :: string
  st_desired_status :: string
  st_image :: string
  st_public_ip :: "json option"
  st_port_mappings :: "(int, int) dict"
  st_ports :: "string list"
  st_cost_per_hr :: "rat option"
  st_machine_id :: string
  st_gpu_display_name :: string
  st_last_status_change :: string
  st_network_volume_id :: "string option"

definition is_running :: "pod_state \<Rightarrow> bool" where
  "is_running st \<longleftrightarrow> st_desired_status st = ''RUNNING''"

definition is_terminated :: "pod_state \<Rightarrow> bool" where
  "is_terminated st \<longleftrightarrow> st_desired_status st = ''TERMINATED''"

definition has_network :: "pod_state \<Rightarrow> bool" where
  "has_network st \<longleftrightarrow> st_public_ip st \<noteq> None \<and> st_port_mappings st \<noteq> []"

definition proxy_url :: "pod_state \<Rightarrow> int \<Rightarrow> string" where
  "proxy_url st port = ''https://'' @ st_id st @ ''-'' @ show_int port @ ''.proxy.runpod.net''"

definition tcp_url :: "(json \<Rightarrow> string) \<Rightarrow> pod_state \<Rightarrow> int \<Rightarrow> string option" where
  "tcp_url repr st port =
     (case (dict_get (st_port_mappings st) port, st_public_ip st) of
        (Some mapped, Some ip) \<Rightarrow>
          if mapped = 0 then None else Some (''http://'' @ str_of_json repr ip @ '':'' @ show_int mapped)
      | _ \<Rightarrow> None)"

fun optional_float :: "(string \<Rightarrow> rat option) \<Rightarrow> json option \<Rightarrow> rat option" where
  "optional_float to_float (Some (JInt i)) = Some (of_int i)"
| "optional_float to_float (Some (JFloat x)) = Some x"
| "optional_float to_float (Some (JStr s)) = to_float s"
| "optional_float to_float _ = None"

text \<open>\<open>_port_mappings\<close>: an entry that is no pair of integers is dropped.\<close>

definition port_mappings :: "json option \<Rightarrow> (int, int) dict" where
  "port_mappings raw =
     (case raw of
        Some (JObj entries) \<Rightarrow>
          fold (\<lambda>(k, v) d. case (parse_int k, int_of_json v) of (Some a, Inr b) \<Rightarrow> dict_set a b d | _ \<Rightarrow> d) entries []
      | _ \<Rightarrow> [])"

text \<open>What iterating over a value that is not false yields, as texts; a number has no iterator.\<close>

fun iterated_texts :: "(json \<Rightarrow> string) \<Rightarrow> json \<Rightarrow> load_failure + string list" where
  "iterated_texts repr (JArr vs) = Inr (map (str_of_json repr) vs)"
| "iterated_texts repr (JObj entries) = Inr (map fst entries)"
| "iterated_texts repr (JStr s) = Inr (map (\<lambda>c. [c]) s)"
| "iterated_texts repr _ = Inl Caught"

definition field_text :: "(json \<Rightarrow> string) \<Rightarrow> json_object \<Rightarrow> string \<Rightarrow> string" where
  "field_text repr doc name = str_of_json repr (or_else (dict_get doc name) (JStr []))"

definition truthy_field :: "json_object \<Rightarrow> string \<Rightarrow> json option" where
  "truthy_field doc name = (case dict_get doc name of Some v \<Rightarrow> if truthy v then Some v else None | None \<Rightarrow> None)"

definition state_from_api :: "(json \<Rightarrow> string) \<Rightarrow> (string \<Rightarrow> rat option) \<Rightarrow> json_object \<Rightarrow> load_failure + pod_state" where
  "state_from_api repr to_float doc =
     (let gpu_type = (case truthy_field doc ''machine'' of Some (JObj machine) \<Rightarrow> dict_get machine ''gpuType'' | _ \<Rightarrow> None) in
      bind_sum (case truthy_field doc ''ports'' of None \<Rightarrow> Inr [] | Some v \<Rightarrow> iterated_texts repr v) (\<lambda>ports.
      Inr \<lparr>st_id = field_text repr doc ''id'', st_name = field_text repr doc ''name'',
           st_desired_status = field_text repr doc ''desiredStatus'', st_image = field_text repr doc ''image'',
           st_public_ip = truthy_field doc ''publicIp'', st_port_mappings = port_mappings (dict_get doc ''portMappings''),
           st_ports = ports, st_cost_per_hr = optional_float to_float (dict_get doc ''costPerHr''),
           st_machine_id = field_text repr doc ''machineId'',
           st_gpu_display_name = (case gpu_type of Some (JObj g) \<Rightarrow> field_text repr g ''displayName'' | _ \<Rightarrow> []),
           st_last_status_change = field_text repr doc ''lastStatusChange'',
           st_network_volume_id =
             (case truthy_field doc ''networkVolume'' of
                Some (JObj v) \<Rightarrow> map_option (str_of_json repr) (truthy_field v ''id'')
              | _ \<Rightarrow> None)\<rparr>))"

datatype access_kind = Tcp | Proxy

record access_endpoint =
  ae_kind :: access_kind
  ae_base_url :: string

definition max_request_seconds :: "access_endpoint \<Rightarrow> int option" where
  "max_request_seconds e = (if ae_kind e = Proxy then Some PROXY_TIMEOUT_SECONDS else None)"

definition choose_access_url :: "(json \<Rightarrow> string) \<Rightarrow> pod_state \<Rightarrow> int \<Rightarrow> bool \<Rightarrow> access_endpoint" where
  "choose_access_url repr st worker_port prefer_direct_tcp =
     (case (if prefer_direct_tcp then tcp_url repr st worker_port else None) of
        Some url \<Rightarrow> \<lparr>ae_kind = Tcp, ae_base_url = url\<rparr>
      | None \<Rightarrow> \<lparr>ae_kind = Proxy, ae_base_url = proxy_url st worker_port\<rparr>)"

record gpu_type =
  gt_id :: string
  gt_display_name :: string
  gt_memory_in_gb :: int
  gt_secure_cloud :: bool
  gt_community_cloud :: bool
  gt_secure_price :: "rat option"
  gt_community_price :: "rat option"

definition gpu_type_from_api :: "(json \<Rightarrow> string) \<Rightarrow> (string \<Rightarrow> rat option) \<Rightarrow> json_object \<Rightarrow> load_failure + gpu_type" where
  "gpu_type_from_api repr to_float doc =
     bind_sum (int_of_json (or_else (truthy_field doc ''memoryInGb'') (JInt 0))) (\<lambda>memory.
     Inr \<lparr>gt_id = field_text repr doc ''id'', gt_display_name = field_text repr doc ''displayName'', gt_memory_in_gb = memory,
          gt_secure_cloud = (truthy_field doc ''secureCloud'' \<noteq> None), gt_community_cloud = (truthy_field doc ''communityCloud'' \<noteq> None),
          gt_secure_price = optional_float to_float (dict_get doc ''securePrice''),
          gt_community_price = optional_float to_float (dict_get doc ''communityPrice'')\<rparr>)"

record network_volume =
  nv_id :: string
  nv_name :: string
  nv_size :: int
  nv_data_center_id :: string

definition network_volume_from_api :: "(json \<Rightarrow> string) \<Rightarrow> json_object \<Rightarrow> load_failure + network_volume" where
  "network_volume_from_api repr doc =
     bind_sum (int_of_json (or_else (truthy_field doc ''size'') (JInt 0))) (\<lambda>gb.
     Inr \<lparr>nv_id = field_text repr doc ''id'', nv_name = field_text repr doc ''name'', nv_size = gb,
          nv_data_center_id = field_text repr doc ''dataCenterId''\<rparr>)"

section \<open>Lemmas\<close>

lemma dropWhile_id: "s \<noteq> [] \<Longrightarrow> \<not> P (hd s) \<Longrightarrow> dropWhile P s = s"
  by (cases s) auto

lemma strip_id: "s \<noteq> [] \<Longrightarrow> \<not> py_isspace (hd s) \<Longrightarrow> \<not> py_isspace (last s) \<Longrightarrow> strip s = s"
  unfolding strip_def by (subst (2) dropWhile_id) (auto simp: hd_rev dropWhile_id)

lemma digit_char: "n < 10 \<Longrightarrow> is_digit (char_of (48 + n)) \<and> ord (char_of (48 + n) :: char) = 48 + n \<and> \<not> py_isspace (char_of (48 + n))"
  by (simp add: is_digit_def py_isspace_def Let_def)

lemma show_nat_digits: "show_nat n \<noteq> [] \<and> list_all is_digit (show_nat n)"
proof (induction n rule: show_nat.induct)
  case (1 n)
  have "n mod 10 < 10" by simp
  with 1 show ?case using digit_char [of n] digit_char [of "n mod 10"] by (simp add: show_nat.simps [of n])
qed

lemma is_digit_not_space: "is_digit c \<Longrightarrow> \<not> py_isspace c \<and> c \<noteq> CHR ''-'' \<and> c \<noteq> CHR ''+''"
  by (auto simp: is_digit_def py_isspace_def Let_def)

lemma digits_value_show:
  "digits_value acc b (show_nat n @ r) = digits_value (acc * 10 ^ length (show_nat n) + n) True r"
proof (induction n arbitrary: acc b r rule: show_nat.induct)
  case (1 n)
  show ?case
  proof (cases "n < 10")
    case True
    then show ?thesis using digit_char [of n] by (simp add: show_nat.simps [of n] mult.commute)
  next
    case False
    have last: "n mod 10 < 10" by simp
    have "digits_value acc b (show_nat n @ r) = digits_value acc b (show_nat (n div 10) @ char_of (48 + n mod 10) # r)"
      using False by (simp add: show_nat.simps [of n])
    also have "\<dots> = digits_value (10 * (acc * 10 ^ length (show_nat (n div 10)) + n div 10) + n mod 10) True r"
      unfolding "1.IH" [OF False] using digit_char [OF last] by simp
    also have "10 * (acc * 10 ^ length (show_nat (n div 10)) + n div 10) + n mod 10 = acc * 10 ^ length (show_nat n) + n"
      using False by (simp add: show_nat.simps [of n] algebra_simps)
    finally show ?thesis .
  qed
qed

lemma digits_value_show_nat: "digits_value 0 False (show_nat n) = Some n"
  using digits_value_show [of 0 False n "[]"] by simp

lemma strip_show_int [simp]: "strip (show_int i) = show_int i" and show_int_ne [simp]: "show_int i \<noteq> []"
proof -
  have nat: "strip (show_nat n) = show_nat n" for n
    using show_nat_digits [of n] is_digit_not_space by (intro strip_id) (auto simp: list_all_iff)
  have "strip (CHR ''-'' # show_nat n) = CHR ''-'' # show_nat n" for n
    using show_nat_digits [of n] is_digit_not_space by (intro strip_id) (auto simp: list_all_iff py_isspace_def)
  with nat show "strip (show_int i) = show_int i" by (simp add: show_int_def)
  show "show_int i \<noteq> []" using show_nat_digits by (simp add: show_int_def)
qed

lemma parse_int_show_int [simp]: "parse_int (show_int i) = Some i"
proof (cases "i < 0")
  case True
  then show ?thesis using strip_show_int [of i] digits_value_show_nat [of "nat (- i)"] by (simp add: parse_int_def show_int_def)
next
  case False
  obtain c cs where c: "show_nat (nat i) = c # cs" "is_digit c" using show_nat_digits [of "nat i"] by (cases "show_nat (nat i)") auto
  then show ?thesis using False strip_show_int [of i] digits_value_show_nat [of "nat i"] is_digit_not_space [of c]
    by (simp add: parse_int_def show_int_def)
qed

lemma shlex_quote_ends: "shlex_quote w \<noteq> [] \<and> \<not> py_isspace (hd (shlex_quote w)) \<and> \<not> py_isspace (last (shlex_quote w))"
proof -
  have safe: "\<not> py_isspace c" if "shell_safe c" for c using that by (auto simp: shell_safe_def py_isspace_def Let_def)
  have quote: "\<not> py_isspace (CHR 0x27)" by (simp add: py_isspace_def)
  show ?thesis using safe quote by (auto simp: shlex_quote_def list_all_iff)
qed

lemma shlex_join_ends:
  "ws \<noteq> [] \<Longrightarrow> shlex_join ws \<noteq> [] \<and> \<not> py_isspace (hd (shlex_join ws)) \<and> \<not> py_isspace (last (shlex_join ws))"
proof (induction ws)
  case (Cons w ws)
  show ?case
  proof (cases ws)
    case Nil
    then show ?thesis using shlex_quote_ends [of w] by (simp add: shlex_join_def)
  next
    case (Cons v vs)
    then have "shlex_join (w # ws) = shlex_quote w @ '' '' @ shlex_join ws" by (simp add: shlex_join_def)
    then show ?thesis using shlex_quote_ends [of w] Cons.IH Cons by simp
  qed
qed simp

lemma env_words_join: "dict_get env name = Some (shlex_join ws) \<Longrightarrow> ws \<noteq> [] \<Longrightarrow> env_words env name = Inr ws"
  using shlex_join_ends [of ws] strip_id [of "shlex_join ws"] by (simp add: env_words_def env_optional_def shlex_split_join)

lemma env_integer_show: "dict_get env name = Some (show_int i) \<Longrightarrow> env_integer env name d = Inr i"
  by (simp add: env_integer_def env_optional_def)

lemma map_of_optional_var [simp]: "map_of (optional_var n v) k = (if k = n then v else None)"
  by (auto simp: optional_var_def split: option.splits)

lemma case_option_id [simp]: "(case v of None \<Rightarrow> None | Some x \<Rightarrow> Some x) = v"
  by (cases v) auto

lemma fold_optional_var:
  "fold g (optional_var n v @ r) d = fold g r (case v of None \<Rightarrow> d | Some t \<Rightarrow> g (n, t) d)"
  "fold g (optional_var n v) d = (case v of None \<Rightarrow> d | Some t \<Rightarrow> g (n, t) d)"
  by (auto simp: optional_var_def split: option.splits)

text \<open>Looking a variable up in the environment that is sent.\<close>

lemma merge_secrets_get:
  "dict_get (merge_secrets f (build_pod_environment general s)) k =
     (if k = ''HF_TOKEN'' \<and> ws_hf_token s \<noteq> [] then Some (f (ws_hf_token s))
      else if k = ''VLLM_API_KEY'' \<and> ws_vllm_api_key s \<noteq> [] then Some (f (ws_vllm_api_key s))
      else dict_get (pe_public (build_pod_environment general s)) k)"
proof -
  define pub where "pub = pe_public (build_pod_environment general s)"
  have "merge_secrets f (build_pod_environment general s) =
      (let d = (if ws_hf_token s \<noteq> [] then dict_set ''HF_TOKEN'' (f (ws_hf_token s)) pub else pub)
       in if ws_vllm_api_key s \<noteq> [] then dict_set ''VLLM_API_KEY'' (f (ws_vllm_api_key s)) d else d)"
    unfolding pub_def by (simp add: merge_secrets_def build_pod_environment_def fold_optional_var Let_def)
  then show ?thesis unfolding pub_def [symmetric] by (simp add: Let_def update_conv')
qed

lemmas as_api_env_get = merge_secrets_get [of "\<lambda>v. v", folded as_api_env_def]

text \<open>
  The settings as they arrive. A text loses the blanks at its ends, and a default stands for one that has nothing else; a decimal is what
  \<open>float\<close> reads of its six significant digits.
\<close>

definition arrived_text :: "string \<Rightarrow> string \<Rightarrow> string" where
  "arrived_text dflt t = (if strip t = [] then dflt else strip t)"

definition arrived_option :: "string option \<Rightarrow> string option" where
  "arrived_option v = (case v of None \<Rightarrow> None | Some t \<Rightarrow> if strip t = [] then None else Some (strip t))"

definition arrived_decimal :: "(pyfloat \<Rightarrow> string) \<Rightarrow> (string \<Rightarrow> pyfloat option) \<Rightarrow> pyfloat \<Rightarrow> pyfloat" where
  "arrived_decimal general to_float x = (case to_float (general x) of None \<Rightarrow> x | Some y \<Rightarrow> y)"

text \<open>The configuration the settings ask for, \<open>decimal\<close> standing for what becomes of a number; what they do not name keeps the default of the worker.\<close>

definition worker_config_of :: "(pyfloat \<Rightarrow> pyfloat) \<Rightarrow> worker_settings \<Rightarrow> worker_config" where
  "worker_config_of decimal s =
     \<lparr>wc_model_id = arrived_text DEFAULT_MODEL_ID (ws_model_id s), wc_model_revision = arrived_option (ws_model_revision s),
      wc_served_model_name = arrived_option (ws_served_model_name s),
      wc_persistent_root = mk_path (arrived_text DEFAULT_PERSISTENT_ROOT (ws_persistent_root s)),
      wc_min_free_disk_gb = decimal (ws_min_free_disk_gb s), wc_host = ''0.0.0.0'', wc_port = ws_port s, wc_max_model_len = ws_max_model_len s,
      wc_gpu_memory_utilization = decimal (ws_gpu_memory_utilization s), wc_tensor_parallel_size = ws_tensor_parallel_size s,
      wc_auto_tensor_parallel = ws_auto_tensor_parallel s, wc_extra_args = ws_extra_args s,
      wc_readiness_timeout = decimal (ws_readiness_timeout s), wc_readiness_poll = Finite 3, wc_download_max_attempts = 5,
      wc_download_backoff = Finite 5, wc_lock_timeout = Finite 7200, wc_hf_hub_disable_xet = ws_hf_hub_disable_xet s,
      wc_hf_token = ws_hf_token s, wc_vllm_api_key = ws_vllm_api_key s\<rparr>"

text \<open>What Python documents of \<open>:g\<close>: it writes a float as a text without blanks that \<open>float\<close> accepts. (Not that the same value comes back.)\<close>

definition floats_print :: "(pyfloat \<Rightarrow> string) \<Rightarrow> (string \<Rightarrow> pyfloat option) \<Rightarrow> bool" where
  "floats_print general to_float \<longleftrightarrow> (\<forall>x. general x \<noteq> [] \<and> strip (general x) = general x \<and> to_float (general x) \<noteq> None)"

lemma env_number_general:
  assumes "floats_print general to_float" and "dict_get env name = Some (general x)"
  shows "env_number to_float env name d = Inr (arrived_decimal general to_float x)"
proof -
  have "general x \<noteq> []" "strip (general x) = general x" "to_float (general x) \<noteq> None"
    using assms(1) by (auto simp: floats_print_def)
  then show ?thesis using assms(2) by (auto simp: env_number_def env_optional_def arrived_decimal_def)
qed

lemma env_optional_nonempty: "dict_get env name = nonempty v \<Longrightarrow> env_optional env name = arrived_option v"
  by (auto simp: env_optional_def arrived_option_def nonempty_def split: option.splits if_splits)

lemma env_flag_set: "dict_get env name = (if b then Some ''1'' else None) \<Longrightarrow> env_flag env name False = Inr b"
  by (auto simp: env_flag_def env_optional_flag_def env_optional_def strip_id py_isspace_def TRUE_WORDS_def lower_char_def Let_def
      split: if_splits)

lemma env_optional_flag_set:
  "dict_get env name = map_option (\<lambda>b. if b then ''1'' else ''0'') v \<Longrightarrow> env_optional_flag env name = Inr v"
  by (cases v) (auto simp: env_optional_flag_def env_optional_def strip_id py_isspace_def TRUE_WORDS_def FALSE_WORDS_def lower_char_def Let_def
      split: if_splits)

lemma pod_environment_read:
  assumes "floats_print general to_float"
  shows "from_env to_float (as_api_env (build_pod_environment general s)) = mk_worker_config (worker_config_of (arrived_decimal general to_float) s)"
proof -
  define env where "env = as_api_env (build_pod_environment general s)"
  have get: "dict_get env k = (if k = ''HF_TOKEN'' \<and> ws_hf_token s \<noteq> [] then Some (ws_hf_token s)
      else if k = ''VLLM_API_KEY'' \<and> ws_vllm_api_key s \<noteq> [] then Some (ws_vllm_api_key s)
      else dict_get (pe_public (build_pod_environment general s)) k)" for k
    by (simp add: env_def as_api_env_get)
  note get = get [unfolded build_pod_environment_def, simplified]
  note lookup = get map_add_def
  have texts: "env_text env ''MODEL_ID'' DEFAULT_MODEL_ID = arrived_text DEFAULT_MODEL_ID (ws_model_id s)" "env_text env ''HOST'' ''0.0.0.0'' = ''0.0.0.0''"
      "env_text env ''PERSISTENT_ROOT'' DEFAULT_PERSISTENT_ROOT = arrived_text DEFAULT_PERSISTENT_ROOT (ws_persistent_root s)"
    by (simp_all add: env_text_def lookup arrived_text_def)
  have options: "env_optional env ''MODEL_REVISION'' = arrived_option (ws_model_revision s)"
      "env_optional env ''SERVED_MODEL_NAME'' = arrived_option (ws_served_model_name s)"
    by (rule env_optional_nonempty, simp add: lookup split: option.split)+
  have ints: "env_integer env ''PORT'' d = Inr (ws_port s)" "env_integer env ''MAX_MODEL_LEN'' d = Inr (ws_max_model_len s)"
      "env_integer env ''TENSOR_PARALLEL_SIZE'' d = Inr (ws_tensor_parallel_size s)"
      "env_integer env ''MODEL_DOWNLOAD_MAX_ATTEMPTS'' d = Inr d" for d
    by (simp_all add: env_integer_show lookup) (simp add: env_integer_def env_optional_def lookup)
  have numbers: "env_number to_float env ''MIN_FREE_DISK_GB'' d = Inr (arrived_decimal general to_float (ws_min_free_disk_gb s))"
      "env_number to_float env ''GPU_MEMORY_UTILIZATION'' d = Inr (arrived_decimal general to_float (ws_gpu_memory_utilization s))"
      "env_number to_float env ''READINESS_TIMEOUT_SECONDS'' d = Inr (arrived_decimal general to_float (ws_readiness_timeout s))" for d
    by (rule env_number_general [OF assms], simp add: lookup)+
  have unset: "env_number to_float env ''READINESS_POLL_SECONDS'' d = Inr d"
      "env_number to_float env ''MODEL_DOWNLOAD_BACKOFF_SECONDS'' d = Inr d" "env_number to_float env ''MODEL_LOCK_TIMEOUT_SECONDS'' d = Inr d" for d
    by (simp_all add: env_number_def env_optional_def lookup)
  have words: "env_words env ''VLLM_EXTRA_ARGS'' = Inr (ws_extra_args s)"
    by (cases "ws_extra_args s = []") (simp add: env_words_def env_optional_def lookup, simp add: env_words_join lookup)
  have flags: "env_flag env ''AUTO_TENSOR_PARALLEL'' False = Inr (ws_auto_tensor_parallel s)"
      "env_optional_flag env ''HF_HUB_DISABLE_XET'' = Inr (ws_hf_hub_disable_xet s)"
    by (rule env_flag_set, simp add: lookup) (rule env_optional_flag_set, simp add: lookup)
  have secrets: "env_secret env [''HF_TOKEN'', ''HUGGING_FACE_HUB_TOKEN''] = ws_hf_token s" "env_secret env [''VLLM_API_KEY''] = ws_vllm_api_key s"
    by (simp_all add: env_secret_def lookup List.map_filter_simps)
  show ?thesis
    unfolding env_def [symmetric] from_env_def
    by (simp add: texts options ints numbers unset words flags secrets worker_config_of_def)
qed

section \<open>Properties\<close>

text \<open>
  C32. The worker of a Pod starts with the settings it was deployed with, as they arrive. For every accepted specification the worker reads
  from the environment in the request exactly the integers, flags, secrets and extra arguments (blanks and quotes included) of the
  specification, its texts without the blanks at their ends (the default where nothing is left), its three decimals rounded to
  what \<open>:g\<close> writes, and defaults for what the specification does not name. It starts with them just when the limits hold that the
  specification does not check: the rented Pod of an accepted specification may refuse its configuration. Texts that have no blanks at their
  ends, and decimals that \<open>:g\<close> writes in full, arrive unchanged.
\<close>

theorem pod_boots_as_asked:
  assumes "mk_pod_spec p = Inr q" and "floats_print general to_float"
  defines "seen \<equiv> arrived_decimal general to_float" and "w \<equiv> sp_worker p"
  shows "from_env to_float (as_api_env (spec_environment general q)) = mk_worker_config (worker_config_of seen w)
    \<and> ((\<exists>c. from_env to_float (as_api_env (spec_environment general q)) = Inr c) \<longleftrightarrow>
        Finite 0 < seen (ws_gpu_memory_utilization w) \<and> seen (ws_gpu_memory_utilization w) \<le> Finite 1
        \<and> 1024 \<le> ws_max_model_len w \<and> 1 \<le> ws_tensor_parallel_size w \<and> 1 \<le> ws_port w \<and> ws_port w \<le> 65535
        \<and> above_floor 0 (seen (ws_min_free_disk_gb w)) \<and> above_floor 0 (seen (ws_readiness_timeout w))
        \<and> is_absolute (mk_path (arrived_text DEFAULT_PERSISTENT_ROOT (ws_persistent_root w))))
    \<and> (\<forall>t. t \<noteq> [] \<and> strip t = t \<longrightarrow> arrived_text d t = t \<and> arrived_option (Some t) = Some t)
    \<and> (\<forall>x. to_float (general x) = Some x \<longrightarrow> seen x = x)"
proof -
  have q: "q = p" using assms(1) by (auto simp: mk_pod_spec_def split: if_splits)
  have env: "from_env to_float (as_api_env (spec_environment general q)) = mk_worker_config (worker_config_of seen w)"
    using pod_environment_read [OF assms(2)] by (simp add: q spec_environment_def seen_def w_def)
  have "strip (arrived_text DEFAULT_MODEL_ID (ws_model_id w)) \<noteq> []"
  proof -
    have "strip DEFAULT_MODEL_ID \<noteq> []" by code_simp
    then show ?thesis by (simp add: arrived_text_def)
  qed
  then have "(\<exists>c. mk_worker_config (worker_config_of seen w) = Inr c) \<longleftrightarrow>
        Finite 0 < seen (ws_gpu_memory_utilization w) \<and> seen (ws_gpu_memory_utilization w) \<le> Finite 1
        \<and> 1024 \<le> ws_max_model_len w \<and> 1 \<le> ws_tensor_parallel_size w \<and> 1 \<le> ws_port w \<and> ws_port w \<le> 65535
        \<and> above_floor 0 (seen (ws_min_free_disk_gb w)) \<and> above_floor 0 (seen (ws_readiness_timeout w))
        \<and> is_absolute (mk_path (arrived_text DEFAULT_PERSISTENT_ROOT (ws_persistent_root w)))"
    by (auto simp: mk_worker_config_valid config_valid_def worker_config_of_def MIN_USABLE_MODEL_LEN_def MAX_TCP_PORT_def above_floor_def
        less_eq_pyfloat_def)
  then show ?thesis unfolding env by (simp add: arrived_text_def arrived_option_def seen_def arrived_decimal_def)
qed

definition demo_general :: "pyfloat \<Rightarrow> string" where
  "demo_general x = (if x = Finite (9 / 10) then ''0.9'' else if x = Finite 40 then ''40'' else if x = Finite 1800 then ''1800'' else ''0.923457'')"

definition demo_float :: "string \<Rightarrow> pyfloat option" where
  "demo_float t = (if t = ''0.9'' then Some (Finite (9 / 10)) else if t = ''40'' then Some (Finite 40)
     else if t = ''1800'' then Some (Finite 1800) else if t = ''0.923457'' then Some (Finite (923457 / 1000000)) else None)"

lemma demo_floats_print: "floats_print demo_general demo_float"
  by (simp add: floats_print_def demo_general_def demo_float_def strip_id py_isspace_def)

definition demo_spec :: "int \<Rightarrow> pod_spec" where
  "demo_spec port =
     \<lparr>sp_image_name = ''worker:1'', sp_gpu_type_ids = [], sp_name = ''gpu-worker'', sp_gpu_count = 1, sp_cloud_type = ''SECURE'',
      sp_data_center_ids = [], sp_container_disk_in_gb = 60, sp_volume_in_gb = 0, sp_network_volume_id = None,
      sp_volume_mount_path = DEFAULT_PERSISTENT_ROOT, sp_ports = [\<lparr>ep_number = port, ep_protocol = ''tcp''\<rparr>],
      sp_support_public_ip = True, sp_global_networking = False, sp_interruptible = False,
      sp_worker = default_worker_settings\<lparr>ws_port := port, ws_extra_args := [''--served by'', ''it'' @ [CHR 0x27] @ ''s'']\<rparr>\<rparr>"

lemma demo_spec_accepted: "mk_pod_spec (demo_spec port) = Inr (demo_spec port)"
  by (simp add: mk_pod_spec_def demo_spec_def default_worker_settings_def strip_id py_isspace_def nonempty_def)

lemma demo_worker_fields:
  "ws_port (sp_worker (demo_spec port)) = port" "ws_max_model_len (sp_worker (demo_spec port)) = 16384"
  "ws_gpu_memory_utilization (sp_worker (demo_spec port)) = Finite (9 / 10)" "ws_tensor_parallel_size (sp_worker (demo_spec port)) = 1"
  "ws_min_free_disk_gb (sp_worker (demo_spec port)) = Finite 40" "ws_readiness_timeout (sp_worker (demo_spec port)) = Finite 1800"
  "ws_persistent_root (sp_worker (demo_spec port)) = DEFAULT_PERSISTENT_ROOT"
  by (simp_all add: demo_spec_def default_worker_settings_def DEFAULT_MIN_FREE_DISK_GB_def)

lemma demo_arrivals:
  "arrived_decimal demo_general demo_float (Finite (9 / 10)) = Finite (9 / 10)" "arrived_decimal demo_general demo_float (Finite 40) = Finite 40"
  "arrived_decimal demo_general demo_float (Finite 1800) = Finite 1800"
  "arrived_decimal demo_general demo_float (Finite (9234567 / 10000000)) = Finite (923457 / 1000000)"
  "is_absolute (mk_path (arrived_text DEFAULT_PERSISTENT_ROOT DEFAULT_PERSISTENT_ROOT))"
  using default_root_absolute
  by (simp_all add: arrived_decimal_def demo_general_def demo_float_def arrived_text_def DEFAULT_PERSISTENT_ROOT_def strip_id py_isspace_def)

theorem pod_boots_as_asked_witness:
  "mk_pod_spec (demo_spec 8000) = Inr (demo_spec 8000) \<and> mk_pod_spec (demo_spec 65536) = Inr (demo_spec 65536)
   \<and> (\<exists>c. from_env demo_float (as_api_env (spec_environment demo_general (demo_spec 8000))) = Inr c)
   \<and> \<not> (\<exists>c. from_env demo_float (as_api_env (spec_environment demo_general (demo_spec 65536))) = Inr c)"
  using pod_boots_as_asked [OF demo_spec_accepted demo_floats_print, of 8000, THEN conjunct2, THEN conjunct1]
    pod_boots_as_asked [OF demo_spec_accepted demo_floats_print, of 65536, THEN conjunct2, THEN conjunct1] demo_spec_accepted
  by (simp add: demo_worker_fields demo_arrivals above_floor_def less_eq_pyfloat_def)

text \<open>A share of memory with seven digits does not arrive as it was asked for.\<close>

lemma seventh_digit_is_lost:
  "wc_gpu_memory_utilization (worker_config_of (arrived_decimal demo_general demo_float)
      (default_worker_settings\<lparr>ws_gpu_memory_utilization := Finite (9234567 / 10000000)\<rparr>)) = Finite (923457 / 1000000)"
  by (simp add: worker_config_of_def demo_arrivals)

text \<open>
  Printing a plan shows no secret. What the operator sees of a specification, its description and its request body with the
  redacted environment, is the same for any two values of a secret that is set.
\<close>

theorem plan_hides_the_secrets:
  assumes "token = [] \<longleftrightarrow> ws_hf_token (sp_worker p) = []" and "key = [] \<longleftrightarrow> ws_vllm_api_key (sp_worker p) = []"
  shows "spec_describe general (with_secrets token key p) = spec_describe general p
    \<and> create_body_with (env_json (redacted_env (spec_environment general (with_secrets token key p)))) (with_secrets token key p)
      = create_body_with (env_json (redacted_env (spec_environment general p))) p"
proof -
  let ?w = "sp_worker p" and ?q = "with_secrets token key p"
  note q = with_secrets_def
  have public: "pe_public (spec_environment general ?q) = pe_public (spec_environment general p)"
    by (simp add: q build_pod_environment_def spec_environment_def)
  have "redacted_env (spec_environment general ?q) = redacted_env (spec_environment general p)"
    unfolding redacted_env_def merge_secrets_def public
    using assms by (simp add: build_pod_environment_def fold_optional_var q spec_environment_def)
  moreover have "secret_names (spec_environment general ?q) = secret_names (spec_environment general p)"
    using assms by (simp add: secret_names_def build_pod_environment_def optional_var_def q spec_environment_def)
  moreover have "create_body_with e ?q = create_body_with e p" for e
    by (simp add: create_body_with_def tcp_ports_def q cong: option.case_cong)
  moreover have "settings_model_name (sp_worker ?q) = settings_model_name ?w"
    by (simp add: settings_model_name_def q)
  ultimately show ?thesis by (simp add: spec_describe_def) (simp add: q)
qed

theorem plan_hides_the_secrets_witness:
  "spec_describe demo_general (with_secrets ''hf_b'' [] (with_secrets ''hf_a'' [] (demo_spec 8000)))
     = spec_describe demo_general (with_secrets ''hf_a'' [] (demo_spec 8000))
   \<and> dict_get (as_api_env (spec_environment demo_general (with_secrets ''hf_a'' [] (demo_spec 8000)))) ''HF_TOKEN'' = Some ''hf_a''"
proof -
  have "ws_hf_token (sp_worker (with_secrets ''hf_a'' [] (demo_spec 8000))) = ''hf_a''"
    "ws_vllm_api_key (sp_worker (with_secrets ''hf_a'' [] (demo_spec 8000))) = []"
    by (simp_all add: with_secrets_def)
  then show ?thesis using plan_hides_the_secrets [of "''hf_b''" "with_secrets ''hf_a'' [] (demo_spec 8000)" "[]" demo_general]
    by (simp add: as_api_env_get spec_environment_def)
qed

text \<open>A key among the extra arguments is public: the dry run prints it.\<close>

lemma extra_argument_is_public:
  assumes "ws_extra_args s = [''--api-key'', ''k'']"
  shows "dict_get (redacted_env (build_pod_environment general s)) ''VLLM_EXTRA_ARGS'' = Some ''--api-key k''"
proof -
  have "shlex_join (ws_extra_args s) = ''--api-key k''" by (simp add: assms shlex_join_def shlex_quote_def shell_safe_def)
  then show ?thesis unfolding redacted_env_def merge_secrets_get by (simp add: build_pod_environment_def map_add_def assms split: option.split)
qed

end
