(* ===== verification/Deployer.thy ===== *)
theory Deployer
  imports Pod "HOL-Library.List_Lexorder"
begin

text \<open>
  The RunPod deployer (\<open>src/gpu-worker/tools/runpod_deployer/client.py\<close> and \<open>cli.py\<close>): redaction, the client of the
  control plane with its retries and its translation of refusals, the waits for the Pod and for the model, the smoke test and the
  commands with their exit codes. The world outside is a value of type \<open>'s\<close>: \<open>serve\<close> answers a request of the control plane,
  \<open>get_models\<close> and \<open>complete\<close> ask the worker, \<open>clock\<close> reads the time, \<open>sleep\<close> lets it pass. The hints of errors, what is
  printed and what the JSON reader says are left out, the texts of errors are kept; writing JSON (\<open>dumps\<close>) and \<open>str\<close> are arguments.
\<close>

section \<open>Redaction\<close>

definition MIN_REDACTABLE_LENGTH :: nat where
  "MIN_REDACTABLE_LENGTH = 4"

definition MAX_ERROR_CHARS :: nat where
  "MAX_ERROR_CHARS = 400"

text \<open>\<open>str.replace\<close> of a text that is not empty.\<close>

function str_replace :: "string \<Rightarrow> string \<Rightarrow> string \<Rightarrow> string" where
  "str_replace old new s =
     (if s = [] \<or> old = [] then s
      else if take (length old) s = old then new @ str_replace old new (drop (length old) s)
      else hd s # str_replace old new (tl s))"
  by pat_completeness auto
termination by (relation "measure (\<lambda>(_, _, s). length s)") (auto simp: neq_Nil_conv)

declare str_replace.simps [simp del]

definition key_char :: "char \<Rightarrow> bool" where
  "key_char c \<longleftrightarrow> is_letter c \<or> is_digit c"

definition KEY_PATTERN :: pattern where
  "KEY_PATTERN = Seq WordBoundary (Seq (lit ''rpa_'') (Seq (times 8 0 (One key_char)) (Seq (many (One key_char)) WordBoundary)))"

definition query_char :: "char \<Rightarrow> bool" where
  "query_char c \<longleftrightarrow> c \<noteq> CHR ''&'' \<and> \<not> py_isspace c \<and> c \<noteq> CHR 0x22 \<and> c \<noteq> CHR 0x27"

definition QUERY_PATTERN :: pattern where
  "QUERY_PATTERN = Seq (Group 1 (Seq (alts (map lit_i [''api_key'', ''apikey'', ''token'', ''key''])) (lit ''='')))
     (Group 2 (some (One query_char)))"

definition BEARER_PATTERN :: pattern where
  "BEARER_PATTERN = Seq (Group 1 (Seq (lit_i ''Bearer'') (some (One py_isspace)))) (Group 2 (some (One (\<lambda>c. \<not> py_isspace c))))"

definition first_group :: "place \<Rightarrow> string" where
  "first_group q = or_else (map_of (pl_groups q) 1) []"

definition redact :: "string list \<Rightarrow> string \<Rightarrow> string" where
  "redact secrets s =
     (let s1 = fold (\<lambda>secret t. if secret \<noteq> [] \<and> MIN_REDACTABLE_LENGTH \<le> length secret then str_replace secret ''***'' t else t) secrets s;
          s2 = sub_all KEY_PATTERN (\<lambda>p q. ''***'') None s1;
          s3 = sub_all QUERY_PATTERN (\<lambda>p q. first_group q @ ''***'') None s2
      in sub_all BEARER_PATTERN (\<lambda>p q. first_group q @ ''***'') None s3)"

definition clean :: "string \<Rightarrow> string \<Rightarrow> string" where
  "clean key s = take MAX_ERROR_CHARS (redact [key] s)"

section \<open>Errors and retries\<close>

text \<open>The exceptions of the client with their texts, the two of the specification and the rest (\<open>Uncaught\<close>).\<close>

datatype runpod_error =
    MissingApiKeyError
  | AuthenticationError string
  | QuotaError string
  | GpuUnavailableError string
  | VolumeNotFoundError string
  | PodNotFoundError string
  | ApiError int string
  | ServiceError string
  | TransportError string
  | BadSpec string
  | Uncaught

definition RETRYABLE_STATUS :: "int list" where
  "RETRYABLE_STATUS = [408, 425, 429, 500, 502, 503, 504]"

definition NEVER_RETRIED :: "int list" where
  "NEVER_RETRIED = [401, 403]"

record client_retry =
  rp_attempts :: nat
  rp_backoff_seconds :: rat
  rp_backoff_factor :: rat

definition default_retry :: client_retry where
  "default_retry = \<lparr>rp_attempts = 3, rp_backoff_seconds = 2, rp_backoff_factor = 2\<rparr>"

definition retry_delay :: "client_retry \<Rightarrow> nat \<Rightarrow> rat" where
  "retry_delay p attempt = rp_backoff_seconds p * rp_backoff_factor p ^ (attempt - 1)"

definition api_key_from_environment :: "environ \<Rightarrow> runpod_error + string" where
  "api_key_from_environment env =
     (let v = strip (or_else (dict_get env ''RUNPOD_API_KEY'') []) in if v = [] then Inl MissingApiKeyError else Inr v)"

record http_request =
  rq_method :: string
  rq_url :: string
  rq_body :: "json_object option"
  rq_params :: environ

record http_response =
  hr_status :: int
  hr_text :: string
  hr_json :: "json option"

text \<open>A server: a request has no answer, with the type and the text of the exception, or a response.\<close>

type_synonym 's server = "'s \<Rightarrow> http_request \<Rightarrow> 's \<times> ((string \<times> string) + http_response)"

fun first_message :: "(json \<Rightarrow> string) \<Rightarrow> json_object \<Rightarrow> string list \<Rightarrow> string option" where
  "first_message dumps doc [] = None"
| "first_message dumps doc (k # ks) =
     (case truthy_field doc k of
        Some (JStr s) \<Rightarrow> Some s
      | Some v \<Rightarrow> Some (dumps v)
      | None \<Rightarrow> first_message dumps doc ks)"

definition body_message :: "(json \<Rightarrow> string) \<Rightarrow> http_response \<Rightarrow> string" where
  "body_message dumps r =
     (case hr_json r of
        None \<Rightarrow> take MAX_ERROR_CHARS (hr_text r)
      | Some v \<Rightarrow>
          (case (case v of JObj doc \<Rightarrow> first_message dumps doc [''error'', ''message'', ''detail'', ''errors''] | _ \<Rightarrow> None) of
             Some s \<Rightarrow> s
           | None \<Rightarrow> take MAX_ERROR_CHARS (dumps v)))"

text \<open>\<open>word in text\<close>.\<close>

definition occurs :: "string \<Rightarrow> string \<Rightarrow> bool" where
  "occurs w s \<longleftrightarrow> list_ex (\<lambda>i. take (length w) (drop i s) = w) [0..<Suc (length s)]"

definition refused_request :: "string \<Rightarrow> string \<Rightarrow> runpod_error" where
  "refused_request prefix detail =
     (if occurs ''volume'' (lower detail) then VolumeNotFoundError (prefix @ '': the network volume was refused. '' @ detail)
      else if list_ex (\<lambda>w. occurs w (lower detail)) [''gpu'', ''instance'', ''capacity'', ''availab'']
      then GpuUnavailableError (prefix @ '': no machine matches the request. '' @ detail)
      else ApiError 400 (prefix @ '': '' @ detail))"

definition missing_resource :: "string \<Rightarrow> string \<Rightarrow> string \<Rightarrow> runpod_error" where
  "missing_resource prefix detail resource =
     (if resource = ''volume'' then VolumeNotFoundError (prefix @ '': no such network volume. '' @ detail)
      else PodNotFoundError (prefix @ '': no such Pod. '' @ detail))"

definition translate_refusal :: "(json \<Rightarrow> string) \<Rightarrow> string \<Rightarrow> string \<Rightarrow> string \<Rightarrow> http_response \<Rightarrow> runpod_error" where
  "translate_refusal dumps key context resource r =
     (let detail = clean key (body_message dumps r); status = hr_status r;
          prefix = context @ '' failed with HTTP '' @ show_int status
      in if status \<in> set NEVER_RETRIED then AuthenticationError (prefix @ '': RunPod rejected the credential. '' @ detail)
         else if status = 400 then refused_request prefix detail
         else if status = 404 then missing_resource prefix detail resource
         else if status = 402 \<or> status = 429
         then QuotaError (prefix @ '': '' @ (if status = 429 then ''rate limited'' else ''refused for billing reasons'') @ ''. '' @ detail)
         else if 500 \<le> status then ServiceError (prefix @ '': RunPod is failing. '' @ detail)
         else ApiError status (prefix @ '': '' @ detail))"

definition is_success :: "http_response \<Rightarrow> bool" where
  "is_success r \<longleftrightarrow> 200 \<le> hr_status r \<and> hr_status r \<le> 299"

record 's runpod_client =
  cl_key :: string
  cl_base_url :: string
  cl_graphql_url :: string
  cl_retry :: client_retry
  cl_serve :: "'s server"
  cl_sleep :: "rat \<Rightarrow> 's \<Rightarrow> 's"
  cl_dumps :: "json \<Rightarrow> string"
  cl_str :: "json \<Rightarrow> string"
  cl_float :: "string \<Rightarrow> rat option"
  cl_general :: "pyfloat \<Rightarrow> string"

text \<open>
  \<open>_send\<close>: the attempts left, the number of the next one, the error of the last. Without a single attempt the
  assertion after the loop fails.
\<close>

fun send_from ::
  "'s runpod_client \<Rightarrow> http_request \<Rightarrow> string \<Rightarrow> string \<Rightarrow> nat \<Rightarrow> nat \<Rightarrow> runpod_error option \<Rightarrow> 's \<Rightarrow> 's \<times> (runpod_error + http_response)" where
  "send_from cl rq context resource 0 attempt prior s = (s, Inl (or_else prior Uncaught))"
| "send_from cl rq context resource (Suc n) attempt prior s =
     (let (s1, answer) = cl_serve cl s rq;
          again = (\<lambda>e. send_from cl rq context resource n (Suc attempt) (Some e)
                     (if n = 0 then s1 else cl_sleep cl (retry_delay (cl_retry cl) attempt) s1))
      in case answer of
           Inl (name, t) \<Rightarrow> again (TransportError (context @ '': '' @ name @ '': '' @ clean (cl_key cl) t))
         | Inr r \<Rightarrow>
             let e = translate_refusal (cl_dumps cl) (cl_key cl) context resource r in
             if hr_status r \<in> set NEVER_RETRIED then (s1, Inl e)
             else if hr_status r \<notin> set RETRYABLE_STATUS then (s1, if is_success r then Inr r else Inl e)
             else again e)"

definition send :: "'s runpod_client \<Rightarrow> http_request \<Rightarrow> string \<Rightarrow> string \<Rightarrow> 's \<Rightarrow> 's \<times> (runpod_error + http_response)" where
  "send cl rq context resource s = send_from cl rq context resource (rp_attempts (cl_retry cl)) 1 None s"

definition decode :: "string \<Rightarrow> http_response \<Rightarrow> runpod_error + json" where
  "decode context r = (case hr_json r of None \<Rightarrow> Inl (ApiError (hr_status r) (context @ '': response was not JSON'')) | Some v \<Rightarrow> Inr v)"

text \<open>A step of the world that may raise, followed by what is done with its result.\<close>

definition and_then :: "'s \<times> ('e + 'a) \<Rightarrow> ('s \<Rightarrow> 'a \<Rightarrow> 's \<times> ('e + 'b)) \<Rightarrow> 's \<times> ('e + 'b)" where
  "and_then m f = (case m of (s, Inl e) \<Rightarrow> (s, Inl e) | (s, Inr a) \<Rightarrow> f s a)"

definition api_request ::
  "'s runpod_client \<Rightarrow> string \<Rightarrow> string \<Rightarrow> json_object option \<Rightarrow> environ \<Rightarrow> string \<Rightarrow> string \<Rightarrow> 's \<Rightarrow> 's \<times> (runpod_error + json option)" where
  "api_request cl verb path body params context resource s =
     and_then (send cl \<lparr>rq_method = verb, rq_url = cl_base_url cl @ path, rq_body = body, rq_params = params\<rparr> context resource s) (\<lambda>s r.
       if hr_status r = 204 \<or> hr_text r = [] then (s, Inr None) else (s, map_sum id Some (decode context r)))"

definition uncaught :: "load_failure + 'a \<Rightarrow> runpod_error + 'a" where
  "uncaught m = map_sum (\<lambda>_. Uncaught) id m"

section \<open>Operations of the control plane\<close>

definition create_pod :: "'s runpod_client \<Rightarrow> pod_spec \<Rightarrow> 's \<Rightarrow> 's \<times> (runpod_error + pod_state)" where
  "create_pod cl spec s =
     and_then (api_request cl ''POST'' ''/pods'' (Some (to_create_body (cl_general cl) spec)) [] ''create pod'' ''pod'' s) (\<lambda>s v.
       (s, case v of
             Some (JObj doc) \<Rightarrow>
               if truthy_field doc ''id'' = None then Inl (ApiError 201 ''RunPod accepted the Pod but returned no id'')
               else uncaught (state_from_api (cl_str cl) (cl_float cl) doc)
           | _ \<Rightarrow> Inl (ApiError 201 ''RunPod accepted the Pod but returned no id'')))"

definition get_pod :: "'s runpod_client \<Rightarrow> string \<Rightarrow> 's \<Rightarrow> 's \<times> (runpod_error + pod_state)" where
  "get_pod cl pod_id s =
     and_then (api_request cl ''GET'' (''/pods/'' @ pod_id) None [(''includeMachine'', ''true''), (''includeNetworkVolume'', ''true'')]
                 (''read pod '' @ pod_id) ''pod'' s) (\<lambda>s v.
       (s, case v of
             Some (JObj doc) \<Rightarrow> uncaught (state_from_api (cl_str cl) (cl_float cl) doc)
           | _ \<Rightarrow> Inl (ApiError 200 (''unexpected response for pod '' @ pod_id))))"

definition terminate_pod :: "'s runpod_client \<Rightarrow> string \<Rightarrow> 's \<Rightarrow> 's \<times> (runpod_error + unit)" where
  "terminate_pod cl pod_id s =
     and_then (api_request cl ''DELETE'' (''/pods/'' @ pod_id) None [] (''terminate pod '' @ pod_id) ''pod'' s) (\<lambda>s _. (s, Inr ()))"

definition get_network_volume :: "'s runpod_client \<Rightarrow> string \<Rightarrow> 's \<Rightarrow> 's \<times> (runpod_error + network_volume)" where
  "get_network_volume cl volume_id s =
     and_then (api_request cl ''GET'' (''/networkvolumes/'' @ volume_id) None [] (''read network volume '' @ volume_id) ''volume'' s) (\<lambda>s v.
       (s, case v of
             Some (JObj doc) \<Rightarrow> uncaught (network_volume_from_api (cl_str cl) doc)
           | _ \<Rightarrow> Inl (VolumeNotFoundError (''network volume '' @ volume_id @ '' returned no description''))))"

definition GPU_QUERY :: string where
  "GPU_QUERY = ''query GpuTypes { gpuTypes { id displayName memoryInGb secureCloud communityCloud securePrice communityPrice } }''"

definition graphql :: "'s runpod_client \<Rightarrow> string \<Rightarrow> 's \<Rightarrow> 's \<times> (runpod_error + json_object)" where
  "graphql cl query s =
     and_then (send cl \<lparr>rq_method = ''POST'', rq_url = cl_graphql_url cl, rq_body = Some [(''query'', JStr query)],
                        rq_params = [(''api_key'', cl_key cl)]\<rparr> ''list gpu types'' ''pod'' s) (\<lambda>s r.
       (s, bind_sum (decode ''list gpu types'' r) (\<lambda>v.
           case v of
             JObj doc \<Rightarrow>
               (case truthy_field doc ''errors'' of
                  Some errors \<Rightarrow>
                    (let message = clean (cl_key cl) (cl_dumps cl errors) in
                     if occurs ''unauthor'' (lower message) \<or> occurs ''invalid'' (lower message)
                     then Inl (AuthenticationError (''GraphQL refused the credential: '' @ message))
                     else Inl (ApiError (hr_status r) (''GraphQL error: '' @ message)))
                | None \<Rightarrow>
                    (case dict_get doc ''data'' of
                       Some (JObj data) \<Rightarrow> Inr data
                     | _ \<Rightarrow> Inl (ApiError (hr_status r) ''the GraphQL API returned no data'')))
           | _ \<Rightarrow> Inl (ApiError (hr_status r) ''the GraphQL API returned no object''))))"

fun gpu_types_from :: "(json \<Rightarrow> string) \<Rightarrow> (string \<Rightarrow> rat option) \<Rightarrow> json list \<Rightarrow> load_failure + gpu_type list" where
  "gpu_types_from repr to_float [] = Inr []"
| "gpu_types_from repr to_float (e # es) =
     (case e of
        JObj doc \<Rightarrow> bind_sum (gpu_type_from_api repr to_float doc) (\<lambda>g. bind_sum (gpu_types_from repr to_float es) (\<lambda>gs. Inr (g # gs)))
      | _ \<Rightarrow> gpu_types_from repr to_float es)"

definition list_gpu_types :: "'s runpod_client \<Rightarrow> 's \<Rightarrow> 's \<times> (runpod_error + gpu_type list)" where
  "list_gpu_types cl s =
     and_then (graphql cl GPU_QUERY s) (\<lambda>s data.
       (s, case dict_get data ''gpuTypes'' of
             Some (JArr entries) \<Rightarrow>
               uncaught (gpu_types_from (cl_str cl) (cl_float cl) entries)
           | _ \<Rightarrow> Inl (ApiError 200 ''the GraphQL API returned no gpuTypes list'')))"

section \<open>Waiting\<close>

record pod_wait =
  pw_state :: pod_state
  pw_waited :: rat
  pw_reached :: bool

text \<open>\<open>wait_for_pod\<close>: \<open>None\<close> says that more turns than the first argument were needed.\<close>

fun wait_pod_turns ::
  "nat \<Rightarrow> 's runpod_client \<Rightarrow> ('s \<Rightarrow> rat) \<Rightarrow> string \<Rightarrow> rat \<Rightarrow> rat \<Rightarrow> rat \<Rightarrow> bool \<Rightarrow> 's \<Rightarrow> ('s \<times> (runpod_error + pod_wait)) option" where
  "wait_pod_turns 0 cl clock pod_id started deadline poll require_network s = None"
| "wait_pod_turns (Suc n) cl clock pod_id started deadline poll require_network s =
     (case get_pod cl pod_id s of
        (s1, Inl e) \<Rightarrow> Some (s1, Inl e)
      | (s1, Inr st) \<Rightarrow>
          let report = (\<lambda>reached. Some (s1, Inr \<lparr>pw_state = st, pw_waited = clock s1 - started, pw_reached = reached\<rparr>)) in
          if is_terminated st then report False
          else if is_running st \<and> (has_network st \<or> \<not> require_network) then report True
          else if deadline - clock s1 \<le> 0 then report False
          else wait_pod_turns n cl clock pod_id started deadline poll require_network (cl_sleep cl (min poll (deadline - clock s1)) s1))"

definition wait_for_pod ::
  "nat \<Rightarrow> 's runpod_client \<Rightarrow> ('s \<Rightarrow> rat) \<Rightarrow> string \<Rightarrow> rat \<Rightarrow> rat \<Rightarrow> bool \<Rightarrow> 's \<Rightarrow> ('s \<times> (runpod_error + pod_wait)) option" where
  "wait_for_pod turns cl clock pod_id timeout_seconds poll_seconds require_network s =
     wait_pod_turns turns cl clock pod_id (clock s) (clock s + timeout_seconds) poll_seconds require_network s"

text \<open>\<open>list_models\<close> on a public URL; unlike the check in the container it tells a document that is no object from a list.\<close>

definition public_models :: "(json \<Rightarrow> string) \<Rightarrow> reply \<Rightarrow> poll_error + string list" where
  "public_models repr r =
     (case r of
        Unreachable \<Rightarrow> Inl HTTPError
      | Answered status body \<Rightarrow>
          if status \<noteq> 200 then Inl NotReadyError
          else (case body of
                  Some (JObj doc) \<Rightarrow>
                    (case dict_get doc ''data'' of
                       Some (JArr entries) \<Rightarrow>
                         Inr (List.map_filter (\<lambda>e. case e of JObj entry \<Rightarrow> Some (field_text repr entry ''id'') | _ \<Rightarrow> None) entries)
                     | _ \<Rightarrow> Inl NotReadyError)
                | _ \<Rightarrow> Inl NotReadyError))"

fun ready_turns ::
  "nat \<Rightarrow> (json \<Rightarrow> string) \<Rightarrow> ('s \<Rightarrow> string \<Rightarrow> 's \<times> reply) \<Rightarrow> ('s \<Rightarrow> rat) \<Rightarrow> (rat \<Rightarrow> 's \<Rightarrow> 's) \<Rightarrow> string \<Rightarrow> string
   \<Rightarrow> rat \<Rightarrow> rat \<Rightarrow> rat \<Rightarrow> 's \<Rightarrow> ('s \<times> readiness_result) option" where
  "ready_turns 0 repr get_models clock sleep url model started deadline poll s = None"
| "ready_turns (Suc n) repr get_models clock sleep url model started deadline poll s =
     (if \<not> clock s < deadline then Some (s, \<lparr>rr_ready = False, rr_models = [], rr_waited = clock s - started\<rparr>)
      else
        let (s1, r) = get_models s url; answer = public_models repr r in
        if (case answer of Inl _ \<Rightarrow> False | Inr models \<Rightarrow> model \<in> set models)
        then Some (s1, \<lparr>rr_ready = True, rr_models = projr answer, rr_waited = clock s1 - started\<rparr>)
        else if deadline - clock s1 \<le> 0 then Some (s1, \<lparr>rr_ready = False, rr_models = [], rr_waited = clock s1 - started\<rparr>)
        else ready_turns n repr get_models clock sleep url model started deadline poll (sleep (min poll (deadline - clock s1)) s1))"

section \<open>Smoke test\<close>

text \<open>\<open>smoke_test\<close>: whether it passed. The checks of the answer are those of the worker's own test.\<close>

definition smoke_test :: "string \<Rightarrow> reply \<Rightarrow> load_failure + bool" where
  "smoke_test model r =
     (case r of
        Answered status (Some body) \<Rightarrow>
          if status \<noteq> 200 \<or> validate_completion model body \<noteq> [] then Inr False
          else (case body of
                  JObj doc \<Rightarrow> bind_sum (usage_count doc ''prompt_tokens'') (\<lambda>_.
                              bind_sum (usage_count doc ''completion_tokens'') (\<lambda>_. Inr True))
                | _ \<Rightarrow> Inr False)
      | _ \<Rightarrow> Inr False)"

section \<open>Commands\<close>

definition EXIT_UNEXPECTED :: int where "EXIT_UNEXPECTED = 1"
definition EXIT_USAGE :: int where "EXIT_USAGE = 2"
definition EXIT_CREDENTIALS :: int where "EXIT_CREDENTIALS = 3"
definition EXIT_API :: int where "EXIT_API = 4"
definition EXIT_POD_TIMEOUT :: int where "EXIT_POD_TIMEOUT = 5"
definition EXIT_NO_MODEL :: int where "EXIT_NO_MODEL = 6"
definition EXIT_SMOKE_FAILED :: int where "EXIT_SMOKE_FAILED = 7"
definition EXIT_ABORTED :: int where "EXIT_ABORTED = 8"

record deploy_args =
  da_name :: string
  da_image :: "string option"
  da_gpu_types :: "string list"
  da_gpu_count :: int
  da_cloud :: string
  da_data_centers :: "string list"
  da_container_disk_gb :: int
  da_network_volume :: "string option"
  da_expose :: string
  da_prefer_proxy :: bool
  da_global_networking :: bool
  da_model :: "string option"
  da_model_revision :: "string option"
  da_served_model_name :: "string option"
  da_worker_port :: int
  da_mount_path :: string
  da_max_model_len :: "int option"
  da_gpu_memory_utilization :: "pyfloat option"
  da_tensor_parallel :: "int option"
  da_vllm_extra_args :: "string list"
  da_pod_timeout :: rat
  da_ready_timeout :: rat
  da_poll :: rat
  da_dry_run :: bool

definition spec_failure :: "spec_error + 'a \<Rightarrow> runpod_error + 'a" where
  "spec_failure m = map_sum (\<lambda>e. case e of SpecError t \<Rightarrow> BadSpec t) id m"

definition build_spec :: "deploy_args \<Rightarrow> environ \<Rightarrow> spec_error + pod_spec" where
  "build_spec a env =
     (case (case nonempty (da_image a) of Some i \<Rightarrow> Some i | None \<Rightarrow> nonempty (dict_get env ''WORKER_IMAGE'')) of
        None \<Rightarrow> Inl (SpecError ''no image: pass --image or export WORKER_IMAGE=<registry>/<name>:<tag>'')
      | Some img \<Rightarrow>
          let w = default_worker_settings
                \<lparr>ws_model_id := or_else (nonempty (da_model a)) DEFAULT_MODEL_ID, ws_model_revision := da_model_revision a,
                 ws_served_model_name := da_served_model_name a, ws_persistent_root := da_mount_path a, ws_port := da_worker_port a,
                 ws_extra_args := da_vllm_extra_args a,
                 ws_hf_token := env_secret env [''HF_TOKEN'', ''HUGGING_FACE_HUB_TOKEN''],
                 ws_vllm_api_key := env_secret env [''VLLM_API_KEY'']\<rparr>;
              w1 = w\<lparr>ws_max_model_len := or_else (da_max_model_len a) (ws_max_model_len w)\<rparr>;
              w2 = w1\<lparr>ws_gpu_memory_utilization := or_else (da_gpu_memory_utilization a) (ws_gpu_memory_utilization w1)\<rparr>;
              w3 = w2\<lparr>ws_tensor_parallel_size := or_else (da_tensor_parallel a) (ws_tensor_parallel_size w2)\<rparr>
          in bind_sum (default_ports (da_worker_port a) (da_expose a)) (\<lambda>ports.
             mk_pod_spec
               \<lparr>sp_image_name = img, sp_gpu_type_ids = da_gpu_types a, sp_name = da_name a, sp_gpu_count = da_gpu_count a,
                sp_cloud_type = da_cloud a, sp_data_center_ids = da_data_centers a, sp_container_disk_in_gb = da_container_disk_gb a,
                sp_volume_in_gb = 0, sp_network_volume_id = da_network_volume a, sp_volume_mount_path = da_mount_path a,
                sp_ports = ports, sp_support_public_ip = True, sp_global_networking = da_global_networking a,
                sp_interruptible = False, sp_worker = w3\<rparr>))"

definition resolve_volume :: "'s runpod_client \<Rightarrow> pod_spec \<Rightarrow> 's \<Rightarrow> 's \<times> (runpod_error + pod_spec)" where
  "resolve_volume cl spec s =
     (case nonempty (sp_network_volume_id spec) of
        None \<Rightarrow> (s, Inr spec)
      | Some v \<Rightarrow>
          and_then (get_network_volume cl v s) (\<lambda>s volume.
            (s, if sp_data_center_ids spec \<noteq> [] then Inr spec
                else spec_failure (mk_pod_spec (spec\<lparr>sp_data_center_ids := [nv_data_center_id volume]\<rparr>)))))"

text \<open>The worker behind a public URL, the clock, and the client made from the environment.\<close>

record 's outside =
  os_get_models :: "'s \<Rightarrow> string \<Rightarrow> 's \<times> reply"
  os_complete :: "'s \<Rightarrow> string \<Rightarrow> string \<Rightarrow> 's \<times> reply"
  os_clock :: "'s \<Rightarrow> rat"
  os_client :: "'s runpod_client"

definition connect :: "'s outside \<Rightarrow> environ \<Rightarrow> runpod_error + 's runpod_client" where
  "connect w env = map_sum id (\<lambda>key. (os_client w)\<lparr>cl_key := key\<rparr>) (api_key_from_environment env)"

text \<open>What follows once the Pod answers under an address: the wait for the model and the smoke test.\<close>

definition validate_worker ::
  "nat \<Rightarrow> 's outside \<Rightarrow> deploy_args \<Rightarrow> string \<Rightarrow> string \<Rightarrow> 's \<Rightarrow> ('s \<times> (runpod_error + int)) option" where
  "validate_worker turns w a url model s =
     (case ready_turns turns (cl_str (os_client w)) (os_get_models w) (os_clock w) (cl_sleep (os_client w)) url model
             (os_clock w s) (os_clock w s + da_ready_timeout a) (da_poll a) s of
        None \<Rightarrow> None
      | Some (s1, ready) \<Rightarrow>
          if \<not> rr_ready ready then Some (s1, Inr EXIT_NO_MODEL)
          else
            let (s2, r) = os_complete w s1 url model in
            Some (s2, uncaught (map_sum id (\<lambda>passed. if passed then EXIT_OK else EXIT_SMOKE_FAILED) (smoke_test model r))))"

text \<open>\<open>_cmd_deploy\<close>: with the client at hand, and from the start.\<close>

definition deploy_with ::
  "nat \<Rightarrow> 's outside \<Rightarrow> 's runpod_client \<Rightarrow> deploy_args \<Rightarrow> pod_spec \<Rightarrow> 's \<Rightarrow> ('s \<times> (runpod_error + int)) option" where
  "deploy_with turns w cl a spec s =
     (case and_then (resolve_volume cl spec s) (\<lambda>s spec1. and_then (create_pod cl spec1 s) (\<lambda>s st. (s, Inr (spec1, st)))) of
        (s1, Inl e) \<Rightarrow> Some (s1, Inl e)
      | (s1, Inr (spec1, st)) \<Rightarrow>
          (case wait_for_pod turns cl (os_clock w) (st_id st) (da_pod_timeout a) (da_poll a)
                  (tcp_ports spec1 \<noteq> [] \<and> \<not> da_prefer_proxy a) s1 of
             None \<Rightarrow> None
           | Some (s2, Inl e) \<Rightarrow> Some (s2, Inl e)
           | Some (s2, Inr pw) \<Rightarrow>
               if \<not> pw_reached pw then Some (s2, Inr EXIT_POD_TIMEOUT)
               else
                 validate_worker turns w a
                   (ae_base_url (choose_access_url (cl_str cl) (pw_state pw) (da_worker_port a) (\<not> da_prefer_proxy a)))
                   (settings_model_name (sp_worker spec1)) s2))"

definition cmd_deploy :: "nat \<Rightarrow> 's outside \<Rightarrow> deploy_args \<Rightarrow> environ \<Rightarrow> 's \<Rightarrow> ('s \<times> (runpod_error + int)) option" where
  "cmd_deploy turns w a env s =
     (case spec_failure (build_spec a env) of
        Inl e \<Rightarrow> Some (s, Inl e)
      | Inr spec \<Rightarrow>
          if da_dry_run a then Some (s, Inr EXIT_OK)
          else (case connect w env of Inl e \<Rightarrow> Some (s, Inl e) | Inr cl \<Rightarrow> deploy_with turns w cl a spec s))"

definition cmd_status :: "'s outside \<Rightarrow> string \<Rightarrow> int \<Rightarrow> bool \<Rightarrow> environ \<Rightarrow> 's \<Rightarrow> 's \<times> (runpod_error + access_endpoint)" where
  "cmd_status w pod_id worker_port prefer_proxy env s =
     (case connect w env of
        Inl e \<Rightarrow> (s, Inl e)
      | Inr cl \<Rightarrow>
          and_then (get_pod cl pod_id s) (\<lambda>s st. (s, Inr (choose_access_url (cl_str cl) st worker_port (\<not> prefer_proxy)))))"

text \<open>\<open>_cmd_smoke\<close>, without the measurement of the first byte, which has no influence on the exit code.\<close>

definition cmd_smoke ::
  "'s outside \<Rightarrow> string \<Rightarrow> int \<Rightarrow> bool \<Rightarrow> string option \<Rightarrow> string option \<Rightarrow> environ \<Rightarrow> 's \<Rightarrow> 's \<times> (runpod_error + int)" where
  "cmd_smoke w pod_id worker_port prefer_proxy model served env s =
     (case connect w env of
        Inl e \<Rightarrow> (s, Inl e)
      | Inr cl \<Rightarrow>
          and_then (get_pod cl pod_id s) (\<lambda>s st.
            case List.map_filter nonempty [model, served, dict_get env ''MODEL_ID''] of
              [] \<Rightarrow> (s, Inr EXIT_USAGE)
            | m # _ \<Rightarrow>
                let (s1, r) = os_complete w s (ae_base_url (choose_access_url (cl_str cl) st worker_port (\<not> prefer_proxy))) m in
                (s1, uncaught (map_sum id (\<lambda>passed. if passed then EXIT_OK else EXIT_SMOKE_FAILED) (smoke_test m r)))))"

text \<open>\<open>_cmd_destroy\<close>; the answer of the operator is \<open>None\<close> when the prompt was interrupted.\<close>

definition cmd_destroy :: "'s outside \<Rightarrow> string \<Rightarrow> bool \<Rightarrow> string option \<Rightarrow> environ \<Rightarrow> 's \<Rightarrow> 's \<times> (runpod_error + int)" where
  "cmd_destroy w pod_id yes answer env s =
     (if \<not> yes \<and> strip (or_else answer []) \<noteq> pod_id then (s, Inr EXIT_ABORTED)
      else
        (case connect w env of
           Inl e \<Rightarrow> (s, Inl e)
         | Inr cl \<Rightarrow> and_then (terminate_pod cl pod_id s) (\<lambda>s _. (s, Inr EXIT_OK))))"

definition cmd_gpu_types :: "'s outside \<Rightarrow> string \<Rightarrow> int \<Rightarrow> environ \<Rightarrow> 's \<Rightarrow> 's \<times> (runpod_error + gpu_type list)" where
  "cmd_gpu_types w sought min_memory env s =
     (case connect w env of
        Inl e \<Rightarrow> (s, Inl e)
      | Inr cl \<Rightarrow>
          and_then (list_gpu_types cl s) (\<lambda>s types.
            (s, Inr (sort_key (\<lambda>g. (- gt_memory_in_gb g, map (of_char :: char \<Rightarrow> nat) (gt_id g)))
                  (filter (\<lambda>g. occurs (lower sought) (lower (gt_id g)) \<and> min_memory \<le> gt_memory_in_gb g) types)))))"

text \<open>\<open>main\<close>: the exit code of an exception; one it does not catch ends the interpreter with 1.\<close>

fun error_exit :: "runpod_error \<Rightarrow> int" where
  "error_exit MissingApiKeyError = EXIT_CREDENTIALS"
| "error_exit (AuthenticationError _) = EXIT_CREDENTIALS"
| "error_exit Uncaught = EXIT_UNEXPECTED"
| "error_exit _ = EXIT_API"

definition exit_code :: "runpod_error + int \<Rightarrow> int" where
  "exit_code m = (case m of Inl e \<Rightarrow> error_exit e | Inr n \<Rightarrow> n)"

section \<open>Redaction hides the key\<close>

lemma occurs_iff: "occurs w s \<longleftrightarrow> (\<exists>a b. s = a @ w @ b)"
proof
  assume "occurs w s"
  then obtain i where i: "take (length w) (drop i s) = w" by (auto simp: occurs_def list_ex_iff)
  have "s = take i s @ take (length w) (drop i s) @ drop (length w) (drop i s)" by (metis append_take_drop_id)
  then show "\<exists>a b. s = a @ w @ b" unfolding i by blast
next
  assume "\<exists>a b. s = a @ w @ b"
  then obtain a b where "s = a @ w @ b" by blast
  then have "length a < Suc (length s)" "take (length w) (drop (length a) s) = w" by auto
  then show "occurs w s" unfolding occurs_def list_ex_iff by (intro bexI [of _ "length a"]) auto
qed

lemma occurs_appendL: "\<not> occurs w (u @ v) \<Longrightarrow> \<not> occurs w u" and occurs_appendR: "\<not> occurs w (u @ v) \<Longrightarrow> \<not> occurs w v"
  unfolding occurs_iff by (metis append.assoc)+

lemma occurs_Cons: "w \<noteq> [] \<Longrightarrow> occurs w (c # s) \<longleftrightarrow> (\<exists>b. c # s = w @ b) \<or> occurs w s"
  unfolding occurs_iff by (auto simp: Cons_eq_append_conv)

text \<open>A text that a character outside the word cuts in two.\<close>

lemma occurs_cut:
  assumes "c \<notin> set w" and "w \<noteq> []" and "\<not> occurs w u" and "\<not> occurs w v" shows "\<not> occurs w (u @ c # v)"
  using assms(3)
proof (induction u)
  case Nil
  have "\<not> (\<exists>b. c # v = w @ b)" using assms(1,2) by (auto simp: Cons_eq_append_conv)
  then show ?case using assms(2,4) by (simp add: occurs_Cons)
next
  case (Cons d u)
  have "\<not> (\<exists>b. d # u @ c # v = w @ b)"
  proof
    assume "\<exists>b. d # u @ c # v = w @ b"
    then obtain b where b: "(d # u) @ c # v = w @ b" by auto
    then have "\<exists>b'. d # u = w @ b'" using assms(1) by (auto simp: append_eq_append_conv2 Cons_eq_append_conv)
    with Cons.prems show False using assms(2) by (simp add: occurs_Cons)
  qed
  with Cons assms(2) show ?case by (simp add: occurs_Cons)
qed

lemma occurs_stars:
  "CHR ''*'' \<notin> set w \<Longrightarrow> w \<noteq> [] \<Longrightarrow> \<not> occurs w u \<Longrightarrow> \<not> occurs w v \<Longrightarrow> \<not> occurs w (u @ ''***'' @ v)"
  using occurs_cut [of "CHR ''*''" w u "''**'' @ v"] occurs_cut [of "CHR ''*''" w "[]" "CHR ''*'' # v"]
    occurs_cut [of "CHR ''*''" w "[]" v] by (simp add: occurs_iff)

lemma str_replace_simps:
  "str_replace old new [] = []" "str_replace [] new s = s"
  "old \<noteq> [] \<Longrightarrow> str_replace old new (c # s) =
     (if take (length old) (c # s) = old then new @ str_replace old new (drop (length old) (c # s)) else c # str_replace old new s)"
  by (simp_all add: str_replace.simps [of old new "c # s"] str_replace.simps [of old new "[]"] str_replace.simps [of "[]" new s])

text \<open>What the replaced text begins with, up to a star, the text began with.\<close>

lemma str_replace_prefix:
  "str_replace old ''***'' s = k @ b \<Longrightarrow> CHR ''*'' \<notin> set k \<Longrightarrow> \<exists>b'. s = k @ b'"
proof (induction k arbitrary: s b)
  case (Cons c k)
  then have "s \<noteq> []" by (auto simp: str_replace.simps)
  show ?case
  proof (cases "old = [] \<or> take (length old) s \<noteq> old")
    case True
    then have "\<exists>b. hd s = c \<and> (tl s = k @ b \<or> str_replace old ''***'' (tl s) = k @ b)"
      using Cons.prems(1) \<open>s \<noteq> []\<close> by (cases s; cases "old = []") (auto simp: str_replace_simps)
    then have "hd s = c" "\<exists>b'. tl s = k @ b'" using Cons.IH [of "tl s"] Cons.prems(2) by auto
    then show ?thesis using \<open>s \<noteq> []\<close> by (cases s) auto
  next
    case False
    then show ?thesis using Cons.prems \<open>s \<noteq> []\<close> by (simp add: str_replace.simps [of old _ s])
  qed
qed simp

lemma str_replace_removes:
  assumes "w \<noteq> []" and "CHR ''*'' \<notin> set w" shows "\<not> occurs w (str_replace w ''***'' s)"
proof (induction s rule: length_induct)
  case (1 s)
  consider "s = []" | "s \<noteq> []" "take (length w) s = w" | "s \<noteq> []" "take (length w) s \<noteq> w" by blast
  then show ?case
  proof cases
    case 1
    then show ?thesis using assms by (simp add: str_replace_simps occurs_iff)
  next
    case 2
    then have "length (drop (length w) s) < length s" using assms(1) by (cases s) auto
    then have "\<not> occurs w (str_replace w ''***'' (drop (length w) s))" using "1.IH" by blast
    with 2 assms show ?thesis using occurs_stars [of w "[]"] by (simp add: str_replace.simps [of w _ s] occurs_iff)
  next
    case 3
    then have "\<not> occurs w (str_replace w ''***'' (tl s))" using "1.IH" by (cases s) auto
    moreover have "\<not> (\<exists>b. hd s # str_replace w ''***'' (tl s) = w @ b)"
    proof
      assume "\<exists>b. hd s # str_replace w ''***'' (tl s) = w @ b"
      then obtain b k where k: "w = hd s # k" "str_replace w ''***'' (tl s) = k @ b" using assms(1) by (cases w) auto
      then obtain b' where "tl s = k @ b'" using str_replace_prefix [OF k(2)] assms(2) by auto
      then have "s = w @ b'" using k(1) 3 by (cases s) auto
      then show False using 3 by simp
    qed
    ultimately show ?thesis using 3 assms(1) by (simp add: str_replace.simps [of w _ s] occurs_Cons)
  qed
qed

text \<open>Patterns that capture nothing.\<close>

fun group_free :: "pattern \<Rightarrow> bool" where
  "group_free (Seq r t) = (group_free r \<and> group_free t)"
| "group_free (Alt r t) = (group_free r \<and> group_free t)"
| "group_free (Star _ r) = group_free r"
| "group_free (Group _ _) = False"
| "group_free _ = True"

lemma group_free_spans: "spans r p q \<Longrightarrow> group_free r \<Longrightarrow> pl_groups q = pl_groups p"
  by (induction rule: spans.induct) auto

lemma group_spans: "spans (Group k r) p q \<Longrightarrow> \<exists>t. spans r p t \<and> q = capture k p t"
  by (auto elim: spans.cases)

lemma group_free_lit [simp]: "group_free (lit w)" "group_free (lit_i w)"
  by (induction w) auto

text \<open>The first of two groups is a beginning of the text the match covers.\<close>

lemma first_group_prefix:
  assumes "q \<in> set (ends (Seq (Group 1 a) (Group 2 b)) p)" and "group_free a" and "group_free b" and "pl_groups p = []"
  shows "\<exists>u. pl_rest p = first_group q @ u"
proof -
  from assms(1) obtain q1 q2 where q1: "spans a p q1" and q2: "spans b (capture 1 p q1) q2" and q: "q = capture 2 (capture 1 p q1) q2"
    by (auto simp: ends_iff spans_simps dest!: group_spans)
  have "pl_groups q2 = (1, take (length (pl_rest p) - length (pl_rest q1)) (pl_rest p)) # pl_groups q1"
    using group_free_spans [OF q2 assms(3)] by (simp add: capture_def)
  then have "first_group q = take (length (pl_rest p) - length (pl_rest q1)) (pl_rest p)"
    by (simp add: first_group_def q capture_def)
  then show ?thesis by (metis append_take_drop_id)
qed

text \<open>Substituting a beginning of each match followed by stars brings no new word into a text.\<close>

lemma sub_all_keeps_out:
  assumes pre: "\<And>p q. pl_groups p = [] \<Longrightarrow> q \<in> set (ends r p) \<Longrightarrow> \<exists>u. pl_rest p = g q @ u"
    and w: "w \<noteq> []" "CHR ''*'' \<notin> set w"
  shows "\<not> occurs w s \<Longrightarrow> \<not> occurs w (sub_all r (\<lambda>p q. g q @ ''***'') b s)"
proof (induction s arbitrary: b rule: length_induct)
  case (1 s)
  show ?case
  proof (cases "search_from r b s")
    case None
    then show ?thesis using 1 by (simp add: sub_all.simps [of r _ b s])
  next
    case (Some m)
    obtain sk p q where m: "m = (sk, p, q)" by (cases m) auto
    note hit = search_from_Some [OF Some [unfolded m]]
    then obtain u where u: "s = sk @ g q @ u" using pre [of p q] by auto
    obtain v where v: "s = sk @ v @ pl_rest q" using ends_no_longer [of q r p] hit by (auto simp: no_longer_def)
    have rest: "\<not> occurs w (pl_rest q)" using "1.prems" v occurs_appendR by metis
    have "\<not> occurs w (sk @ g q)" using "1.prems" u occurs_appendL [of w "sk @ g q" u] by simp
    moreover have "\<not> occurs w (if length (pl_rest q) < length s then sub_all r (\<lambda>p q. g q @ ''***'') (pl_before q) (pl_rest q) else pl_rest q)"
      using "1.IH" rest by auto
    ultimately show ?thesis
      using occurs_stars [OF w(2,1), of "sk @ g q"] by (simp add: sub_all.simps [of r _ b s] Some m)
  qed
qed

lemma redact_keeps_out:
  assumes "w \<noteq> []" and "CHR ''*'' \<notin> set w" and "\<not> occurs w s"
  shows "\<not> occurs w (sub_all BEARER_PATTERN (\<lambda>p q. first_group q @ ''***'') None
    (sub_all QUERY_PATTERN (\<lambda>p q. first_group q @ ''***'') None (sub_all KEY_PATTERN (\<lambda>p q. ''***'') None s)))"
proof -
  have query: "\<exists>u. pl_rest p = first_group q @ u" if "pl_groups p = []" "q \<in> set (ends QUERY_PATTERN p)" for p q
    by (rule first_group_prefix [OF that(2) [unfolded QUERY_PATTERN_def]]) (simp_all add: that(1))
  have bearer: "\<exists>u. pl_rest p = first_group q @ u" if "pl_groups p = []" "q \<in> set (ends BEARER_PATTERN p)" for p q
    by (rule first_group_prefix [OF that(2) [unfolded BEARER_PATTERN_def]]) (simp_all add: that(1))
  have key: "\<not> occurs w (sub_all KEY_PATTERN (\<lambda>p q. ''***'') None s)"
    using sub_all_keeps_out [of KEY_PATTERN "\<lambda>_. []" w s] assms by simp
  show ?thesis
    by (rule sub_all_keeps_out [where g = first_group] query bearer assms(1,2) key | assumption)+
qed

text \<open>
  C33. Redaction removes the credential. Whatever text the control plane answers with, and however often and wherever the key of the client
  stands in it, the cleaned text that goes into an exception does not contain the key. The key is at least four characters long and
  has no star in it.
\<close>

theorem cleaned_text_hides_the_key:
  assumes "MIN_REDACTABLE_LENGTH \<le> length key" and "CHR ''*'' \<notin> set key"
  shows "\<not> occurs key (redact [key] s) \<and> \<not> occurs key (clean key s)"
proof -
  have key: "key \<noteq> []" using assms(1) by (auto simp: MIN_REDACTABLE_LENGTH_def)
  have redacted: "\<not> occurs key (redact [key] s)"
    using redact_keeps_out [OF key assms(2) str_replace_removes [OF key assms(2)]] assms(1) key by (simp add: redact_def)
  have "redact [key] s = clean key s @ drop MAX_ERROR_CHARS (redact [key] s)" by (simp add: clean_def)
  then show ?thesis using redacted occurs_appendL by metis
qed

theorem cleaned_text_hides_the_key_witness:
  "\<not> occurs ''rpa_KEY1'' (clean ''rpa_KEY1'' ''bad key rpa_KEY1 in api_key=rpa_KEY1'')"
  using cleaned_text_hides_the_key [of "''rpa_KEY1''"] by (simp add: MIN_REDACTABLE_LENGTH_def)

section \<open>Requests\<close>

text \<open>The same client, counting the requests it makes.\<close>

definition counting :: "'s runpod_client \<Rightarrow> (nat \<times> 's) runpod_client" where
  "counting cl =
     \<lparr>cl_key = cl_key cl, cl_base_url = cl_base_url cl, cl_graphql_url = cl_graphql_url cl, cl_retry = cl_retry cl,
      cl_serve = (\<lambda>(n, s) rq. let (s1, answer) = cl_serve cl s rq in ((Suc n, s1), answer)),
      cl_sleep = (\<lambda>d (n, s). (n, cl_sleep cl d s)), cl_dumps = cl_dumps cl, cl_str = cl_str cl, cl_float = cl_float cl,
      cl_general = cl_general cl\<rparr>"

lemma counting_simps [simp]:
  "cl_key (counting cl) = cl_key cl" "cl_retry (counting cl) = cl_retry cl" "cl_dumps (counting cl) = cl_dumps cl"
  "cl_serve (counting cl) (m, s) rq = ((Suc m, fst (cl_serve cl s rq)), snd (cl_serve cl s rq))"
  "cl_sleep (counting cl) d (m, s) = (m, cl_sleep cl d s)"
  by (simp_all add: counting_def case_prod_beta)

text \<open>One attempt: an answer that settles the call, or an error after which it goes on.\<close>

definition settles :: "http_response \<Rightarrow> bool" where
  "settles r \<longleftrightarrow> hr_status r \<in> set NEVER_RETRIED \<or> hr_status r \<notin> set RETRYABLE_STATUS"

definition settled_as :: "'s runpod_client \<Rightarrow> string \<Rightarrow> string \<Rightarrow> http_response \<Rightarrow> runpod_error + http_response" where
  "settled_as cl context resource r =
     (if hr_status r \<notin> set NEVER_RETRIED \<and> is_success r then Inr r
      else Inl (translate_refusal (cl_dumps cl) (cl_key cl) context resource r))"

definition attempt_error :: "'s runpod_client \<Rightarrow> string \<Rightarrow> string \<Rightarrow> (string \<times> string) + http_response \<Rightarrow> runpod_error" where
  "attempt_error cl context resource answer =
     (case answer of Inl (name, t) \<Rightarrow> TransportError (context @ '': '' @ name @ '': '' @ clean (cl_key cl) t)
      | Inr r \<Rightarrow> translate_refusal (cl_dumps cl) (cl_key cl) context resource r)"

lemma send_settles:
  assumes "cl_serve cl s rq = (s1, Inr r)" and "settles r"
  shows "send_from cl rq context resource (Suc n) attempt prior s = (s1, settled_as cl context resource r)"
  using assms by (auto simp: settles_def settled_as_def Let_def)

lemma send_goes_on:
  assumes "cl_serve cl s rq = (s1, answer)" and "\<And>r. answer = Inr r \<Longrightarrow> \<not> settles r"
  shows "send_from cl rq context resource (Suc n) attempt prior s
    = send_from cl rq context resource n (Suc attempt) (Some (attempt_error cl context resource answer))
        (if n = 0 then s1 else cl_sleep cl (retry_delay (cl_retry cl) attempt) s1)"
  using assms by (cases answer) (auto simp: settles_def attempt_error_def Let_def split: prod.splits)

declare send_from.simps(2) [simp del]

lemma counting_send_from:
  "\<exists>k. k \<le> n \<and> send_from (counting cl) rq context resource n attempt prior (m, s)
     = ((m + k, fst (send_from cl rq context resource n attempt prior s)), snd (send_from cl rq context resource n attempt prior s))"
proof (induction n arbitrary: attempt prior m s)
  case (Suc n)
  obtain s1 answer where sv: "cl_serve cl s rq = (s1, answer)" by (cases "cl_serve cl s rq")
  then have csv: "cl_serve (counting cl) (m, s) rq = ((Suc m, s1), answer)" by simp
  show ?case
  proof (cases "\<exists>r. answer = Inr r \<and> settles r")
    case True
    then obtain r where r: "answer = Inr r" "settles r" by blast
    have "settled_as (counting cl) context resource r = settled_as cl context resource r" by (simp add: settled_as_def)
    with sv csv r show ?thesis by (intro exI [of _ 1]) (simp add: send_settles)
  next
    case False
    let ?e = "attempt_error cl context resource answer"
    let ?s = "if n = 0 then s1 else cl_sleep cl (retry_delay (cl_retry cl) attempt) s1"
    have e: "attempt_error (counting cl) context resource answer = ?e" by (simp only: attempt_error_def counting_simps)
    from Suc.IH [of "Suc attempt" "Some ?e" "Suc m" ?s] obtain k where k: "k \<le> n"
      "send_from (counting cl) rq context resource n (Suc attempt) (Some ?e) (Suc m, ?s)
       = ((Suc m + k, fst (send_from cl rq context resource n (Suc attempt) (Some ?e) ?s)),
          snd (send_from cl rq context resource n (Suc attempt) (Some ?e) ?s))" by blast
    have "send_from (counting cl) rq context resource (Suc n) attempt prior (m, s)
        = send_from (counting cl) rq context resource n (Suc attempt) (Some ?e) (Suc m, ?s)"
      using send_goes_on [OF csv] False by (simp add: e)
    moreover have "send_from cl rq context resource (Suc n) attempt prior s
        = send_from cl rq context resource n (Suc attempt) (Some ?e) ?s"
      using send_goes_on [OF sv] False by simp
    ultimately show ?thesis using k by (intro exI [of _ "Suc k"]) simp
  qed
qed simp

text \<open>
  Requests are bounded and a rejected key is not tried again. One call of the client makes at most as many requests as its policy
  has attempts, with the same outcome and the same effect as without the count; when the first answer rejects the credential it is the
  only request and the call raises an authentication error.
\<close>

theorem send_is_bounded:
  "(\<exists>k. k \<le> rp_attempts (cl_retry cl)
     \<and> send (counting cl) rq context resource (m, s) = ((m + k, fst (send cl rq context resource s)), snd (send cl rq context resource s)))
   \<and> (\<forall>s1 r. cl_serve cl s rq = (s1, Inr r) \<and> hr_status r \<in> set NEVER_RETRIED \<and> 0 < rp_attempts (cl_retry cl) \<longrightarrow>
       (\<exists>t. send (counting cl) rq context resource (m, s) = ((Suc m, s1), Inl (AuthenticationError t))))"
proof (intro conjI allI impI)
  show "\<exists>k. k \<le> rp_attempts (cl_retry cl)
     \<and> send (counting cl) rq context resource (m, s) = ((m + k, fst (send cl rq context resource s)), snd (send cl rq context resource s))"
    unfolding send_def counting_simps by (rule counting_send_from)
next
  fix s1 r
  assume first: "cl_serve cl s rq = (s1, Inr r) \<and> hr_status r \<in> set NEVER_RETRIED \<and> 0 < rp_attempts (cl_retry cl)"
  then obtain n where n: "rp_attempts (cl_retry cl) = Suc n" by (cases "rp_attempts (cl_retry cl)") auto
  have "\<exists>t. translate_refusal (cl_dumps cl) (cl_key cl) context resource r = AuthenticationError t"
    using first by (auto simp: translate_refusal_def Let_def)
  then show "\<exists>t. send (counting cl) rq context resource (m, s) = ((Suc m, s1), Inl (AuthenticationError t))"
    using first send_settles [of "counting cl" "(m, s)" rq "(Suc m, s1)" r]
    by (auto simp: send_def n settles_def settled_as_def)
qed

theorem send_is_bounded_witness:
  "\<forall>rq. \<exists>t. send (counting \<lparr>cl_key = ''rpa_KEY1'', cl_base_url = [], cl_graphql_url = [], cl_retry = default_retry,
       cl_serve = (\<lambda>s rq. (s, Inr \<lparr>hr_status = 401, hr_text = ''no'', hr_json = None\<rparr>)), cl_sleep = (\<lambda>d s. s), cl_dumps = (\<lambda>_. []),
       cl_str = (\<lambda>_. []), cl_float = (\<lambda>_. None), cl_general = (\<lambda>_. [])\<rparr>) rq ''create pod'' ''pod'' (0, ())
     = ((1, ()), Inl (AuthenticationError t))"
  using conjunct2 [OF send_is_bounded [of "\<lparr>cl_key = ''rpa_KEY1'', cl_base_url = [], cl_graphql_url = [], cl_retry = default_retry,
       cl_serve = (\<lambda>s rq. (s, Inr \<lparr>hr_status = 401, hr_text = ''no'', hr_json = None\<rparr>)), cl_sleep = (\<lambda>d s. s), cl_dumps = (\<lambda>_. []),
       cl_str = (\<lambda>_. []), cl_float = (\<lambda>_. None), cl_general = (\<lambda>_. [])\<rparr>" _ "''create pod''" "''pod''" 0 "()"]]
  by (simp add: NEVER_RETRIED_def default_retry_def)

section \<open>Renting twice\<close>

text \<open>A service that rents a Pod for every request to create one, and whose next answers are lost on the way.\<close>

record rental =
  rn_pods :: nat
  rn_lost :: nat

definition pod_name :: "nat \<Rightarrow> string" where
  "pod_name n = ''pod'' @ show_nat n"

definition rental_serve :: "rental server" where
  "rental_serve s rq =
     (if rq_method rq \<noteq> ''POST'' then (s, Inr \<lparr>hr_status = 404, hr_text = [], hr_json = None\<rparr>)
      else
        (\<lparr>rn_pods = Suc (rn_pods s), rn_lost = rn_lost s - 1\<rparr>,
         if 0 < rn_lost s then Inl (''ReadTimeout'', ''timed out'')
         else Inr \<lparr>hr_status = 201, hr_text = ''{...}'', hr_json = Some (JObj [(''id'', JStr (pod_name (Suc (rn_pods s))))])\<rparr>))"

lemma rental_send_from:
  assumes "cl_serve cl = rental_serve" and "cl_sleep cl = (\<lambda>d s. s)" and "rq_method rq = ''POST''"
  shows "k < n \<Longrightarrow> send_from cl rq context resource n attempt prior \<lparr>rn_pods = m, rn_lost = k\<rparr>
    = (\<lparr>rn_pods = m + Suc k, rn_lost = 0\<rparr>,
       Inr \<lparr>hr_status = 201, hr_text = ''{...}'', hr_json = Some (JObj [(''id'', JStr (pod_name (m + Suc k)))])\<rparr>)"
proof (induction k arbitrary: n attempt prior m)
  case 0
  let ?r = "\<lparr>hr_status = 201, hr_text = ''{...}'', hr_json = Some (JObj [(''id'', JStr (pod_name (Suc m)))])\<rparr>"
  have "cl_serve cl \<lparr>rn_pods = m, rn_lost = 0\<rparr> rq = (\<lparr>rn_pods = Suc m, rn_lost = 0\<rparr>, Inr ?r)" using assms by (simp add: rental_serve_def)
  from send_settles [OF this] 0 show ?case
    by (cases n) (auto simp: settles_def settled_as_def is_success_def RETRYABLE_STATUS_def NEVER_RETRIED_def)
next
  case (Suc k)
  then obtain n' where n: "n = Suc n'" "k < n'" by (cases n) auto
  have "cl_serve cl \<lparr>rn_pods = m, rn_lost = Suc k\<rparr> rq = (\<lparr>rn_pods = Suc m, rn_lost = k\<rparr>, Inl (''ReadTimeout'', ''timed out''))"
    using assms by (simp add: rental_serve_def)
  from send_goes_on [OF this] Suc.IH [of n' _ _ "Suc m"] n show ?case by (simp add: assms(2))
qed

text \<open>
  C34. Creating a Pod is repeated when its answer is lost. The client repeats a request without an answer also when it creates something: when
  the service rents a Pod for every request and the first \<open>k\<close> answers are lost, one call of \<open>create_pod\<close> rents \<open>k + 1\<close>
  Pods, all of them billed, and reports the last; the operator is never told of the others.
\<close>

theorem lost_answer_rents_again:
  assumes "cl_serve cl = rental_serve" and "cl_sleep cl = (\<lambda>d s. s)" and "k < rp_attempts (cl_retry cl)"
  shows "\<exists>st. create_pod cl spec \<lparr>rn_pods = m, rn_lost = k\<rparr> = (\<lparr>rn_pods = m + Suc k, rn_lost = 0\<rparr>, Inr st)
    \<and> st_id st = pod_name (m + Suc k)"
  using rental_send_from [OF assms(1,2), of _ k "rp_attempts (cl_retry cl)"] assms(3)
  by (simp add: create_pod_def api_request_def send_def and_then_def decode_def truthy_field_def pod_name_def uncaught_def state_from_api_def
      field_text_def)

theorem lost_answer_rents_again_witness:
  "\<exists>st. create_pod \<lparr>cl_key = ''rpa_KEY1'', cl_base_url = [], cl_graphql_url = [], cl_retry = default_retry, cl_serve = rental_serve,
       cl_sleep = (\<lambda>d s. s), cl_dumps = (\<lambda>_. []), cl_str = (\<lambda>_. []), cl_float = (\<lambda>_. None), cl_general = demo_general\<rparr>
       (demo_spec 8000) \<lparr>rn_pods = 0, rn_lost = 2\<rparr> = (\<lparr>rn_pods = 3, rn_lost = 0\<rparr>, Inr st) \<and> st_id st = pod_name 3"
  using lost_answer_rents_again [of "\<lparr>cl_key = ''rpa_KEY1'', cl_base_url = [], cl_graphql_url = [], cl_retry = default_retry,
       cl_serve = rental_serve, cl_sleep = (\<lambda>d s. s), cl_dumps = (\<lambda>_. []), cl_str = (\<lambda>_. []), cl_float = (\<lambda>_. None), cl_general = demo_general\<rparr>"
       2 "demo_spec 8000" 0]
  by (simp add: default_retry_def)

text \<open>The client knows its own key only: a token of the Pod's environment that the service echoes stays in the text.\<close>

lemma echoed_token_is_shown: "clean ''rpa_KEY1'' ''bad env hf_abcd'' = ''bad env hf_abcd''"
  by code_simp

section \<open>Deploying\<close>

abbreviation with_serve :: "'s server \<Rightarrow> 's runpod_client \<Rightarrow> 's runpod_client" where
  "with_serve serve cl \<equiv> cl\<lparr>cl_serve := serve\<rparr>"

lemma send_from_serve:
  assumes "\<And>s. serve s rq = cl_serve cl s rq"
  shows "send_from (with_serve serve cl) rq context resource n attempt prior s = send_from cl rq context resource n attempt prior s"
  by (induction n arbitrary: attempt prior s) (simp_all add: send_from.simps(2) assms Let_def split: prod.split sum.split)

lemma api_request_serve:
  assumes "\<And>s rq. rq_method rq \<noteq> ''DELETE'' \<Longrightarrow> serve s rq = cl_serve cl s rq" and "verb \<noteq> ''DELETE''"
  shows "api_request (with_serve serve cl) verb path body params context resource s = api_request cl verb path body params context resource s"
  using assms by (simp add: api_request_def send_def send_from_serve)

lemma operations_serve:
  assumes "\<And>s rq. rq_method rq \<noteq> ''DELETE'' \<Longrightarrow> serve s rq = cl_serve cl s rq"
  shows "create_pod (with_serve serve cl) spec s = create_pod cl spec s" "get_pod (with_serve serve cl) pod_id s = get_pod cl pod_id s"
    "get_network_volume (with_serve serve cl) volume_id s = get_network_volume cl volume_id s"
  by (simp_all add: create_pod_def get_pod_def get_network_volume_def api_request_serve assms and_then_def split: prod.split sum.split option.split json.split)

lemma wait_pod_serve:
  assumes "\<And>s rq. rq_method rq \<noteq> ''DELETE'' \<Longrightarrow> serve s rq = cl_serve cl s rq"
  shows "wait_pod_turns n (with_serve serve cl) clock pod_id started deadline poll need s
    = wait_pod_turns n cl clock pod_id started deadline poll need s"
  by (induction n arbitrary: s) (auto simp: operations_serve assms Let_def split: prod.split sum.split)

text \<open>
  C35. Nothing is destroyed unasked. Deploying, reading the status and smoke testing do the same in two worlds that differ only in what a
  request to delete does: none of them ever makes one, whatever fails on the way. Destroying a Pod without
  \<open>--yes\<close> and without its id typed in changes nothing and ends with code 8.
\<close>

theorem nothing_is_destroyed_unasked:
  assumes "\<And>s rq. rq_method rq \<noteq> ''DELETE'' \<Longrightarrow> serve s rq = cl_serve (os_client w) s rq"
  defines "w' \<equiv> w\<lparr>os_client := with_serve serve (os_client w)\<rparr>"
  shows "cmd_deploy turns w' a env s = cmd_deploy turns w a env s
    \<and> cmd_status w' pod_id port proxied env s = cmd_status w pod_id port proxied env s
    \<and> cmd_smoke w' pod_id port proxied model served env s = cmd_smoke w pod_id port proxied model served env s
    \<and> (strip (or_else answer []) \<noteq> pod_id \<longrightarrow> cmd_destroy w pod_id False answer env s = (s, Inr 8))"
proof -
  have same: "serve s rq = cl_serve ((os_client w)\<lparr>cl_key := key\<rparr>) s rq" if "rq_method rq \<noteq> ''DELETE''" for s rq key
    using assms(1) that by simp
  have client: "connect w' env = map_sum id (with_serve serve) (connect w env)"
    by (cases "api_key_from_environment env") (simp_all add: connect_def w'_def)
  show ?thesis
  proof (cases "connect w env")
    case (Inl e)
    then show ?thesis
      by (simp add: cmd_deploy_def cmd_status_def cmd_smoke_def cmd_destroy_def client EXIT_ABORTED_def split: sum.split)
  next
    case (Inr cl)
    then have cl: "cl = (os_client w)\<lparr>cl_key := cl_key cl\<rparr>" by (cases "api_key_from_environment env") (auto simp: connect_def)
    have cs: "rq_method rq \<noteq> ''DELETE'' \<Longrightarrow> serve s rq = cl_serve cl s rq" for s rq using same by (subst cl)
    have eqs: "create_pod (with_serve serve cl) spec s = create_pod cl spec s" "get_pod (with_serve serve cl) i s = get_pod cl i s"
        "get_network_volume (with_serve serve cl) i s = get_network_volume cl i s"
        "wait_pod_turns n (with_serve serve cl) clock i t d poll need s = wait_pod_turns n cl clock i t d poll need s"
      for spec s i n clock t d poll need
      by (simp_all add: operations_serve wait_pod_serve cs)
    have volume: "resolve_volume (with_serve serve cl) spec s = resolve_volume cl spec s" for spec s
      by (simp add: resolve_volume_def eqs split: option.split)
    have clock: "os_clock w' = os_clock w" "os_complete w' = os_complete w" "os_get_models w' = os_get_models w"
      "cl_str (os_client w') = cl_str (os_client w)" "cl_sleep (os_client w') = cl_sleep (os_client w)" by (simp_all add: w'_def)
    have after: "validate_worker turns w' a url model s = validate_worker turns w a url model s" for url model s
      unfolding validate_worker_def clock ..
    have texts: "cl_str (with_serve serve cl) = cl_str cl" by simp
    have "deploy_with turns w' (with_serve serve cl) a spec s = deploy_with turns w cl a spec s" for spec
      unfolding deploy_with_def volume eqs wait_for_pod_def after clock texts ..
    then have "cmd_deploy turns w' a env s = cmd_deploy turns w a env s"
      by (simp add: cmd_deploy_def client Inr split: sum.split)
    moreover have "cmd_status w' pod_id port proxied env s = cmd_status w pod_id port proxied env s"
      by (simp add: cmd_status_def client Inr eqs)
    moreover have "cmd_smoke w' pod_id port proxied model served env s = cmd_smoke w pod_id port proxied model served env s"
      unfolding cmd_smoke_def client Inr map_sum.simps sum.case eqs clock texts ..
    ultimately show ?thesis by (simp add: cmd_destroy_def EXIT_ABORTED_def)
  qed
qed

definition demo_outside :: "nat runpod_client \<Rightarrow> nat outside" where
  "demo_outside cl = \<lparr>os_get_models = (\<lambda>s _. (s, Unreachable)), os_complete = (\<lambda>s _ _. (s, Unreachable)), os_clock = (\<lambda>s. 0), os_client = cl\<rparr>"

definition counting_deletions :: "nat runpod_client \<Rightarrow> nat server" where
  "counting_deletions cl s rq = (if rq_method rq = ''DELETE'' then (s + 1, Inl ([], [])) else cl_serve cl s rq)"

theorem nothing_is_destroyed_unasked_witness:
  "\<forall>cl. cmd_destroy (demo_outside cl) ''pod7'' False (Some ''yes'') [] 5 = (5, Inr 8)
     \<and> cmd_status (demo_outside cl\<lparr>os_client := with_serve (counting_deletions cl) cl\<rparr>) ''pod7'' 8000 False [(''RUNPOD_API_KEY'', ''k'')] 5
       = cmd_status (demo_outside cl) ''pod7'' 8000 False [(''RUNPOD_API_KEY'', ''k'')] 5"
proof
  fix cl
  have agree: "counting_deletions cl s rq = cl_serve (os_client (demo_outside cl)) s rq" if "rq_method rq \<noteq> ''DELETE''" for s rq
    using that by (simp add: counting_deletions_def demo_outside_def)
  have client: "os_client (demo_outside cl) = cl" by (simp add: demo_outside_def)
  show "cmd_destroy (demo_outside cl) ''pod7'' False (Some ''yes'') [] 5 = (5, Inr 8)
     \<and> cmd_status (demo_outside cl\<lparr>os_client := with_serve (counting_deletions cl) cl\<rparr>) ''pod7'' 8000 False [(''RUNPOD_API_KEY'', ''k'')] 5
       = cmd_status (demo_outside cl) ''pod7'' 8000 False [(''RUNPOD_API_KEY'', ''k'')] 5"
    using nothing_is_destroyed_unasked [where env = "[(''RUNPOD_API_KEY'', ''k'')]" and s = 5 and pod_id = "''pod7''" and port = 8000
          and proxied = False and w = "demo_outside cl" and serve = "counting_deletions cl", OF agree]
      nothing_is_destroyed_unasked [where env = "[]" and s = 5 and pod_id = "''pod7''" and answer = "Some ''yes''"
          and w = "demo_outside cl" and serve = "counting_deletions cl", OF agree]
    by (simp add: strip_id py_isspace_def client)
qed

text \<open>The states a waiting loop asks in: the first, and each that a question and a sleep lead to.\<close>

inductive polls :: "('s \<Rightarrow> 's) \<Rightarrow> (rat \<Rightarrow> 's \<Rightarrow> 's) \<Rightarrow> 's \<Rightarrow> 's \<Rightarrow> bool" for ask sleep where
  polls_now: "polls ask sleep s s"
| polls_later: "polls ask sleep (sleep d (ask s)) s' \<Longrightarrow> polls ask sleep s s'"

text \<open>A wait that ends well ended with an answer that lists the model, or with a Pod that runs.\<close>

lemma ready_turns_sound:
  "ready_turns n repr get_models clock sleep url model started deadline poll s = Some (s', res) \<Longrightarrow> rr_ready res \<Longrightarrow>
     \<exists>s0 r models. polls (\<lambda>s. fst (get_models s url)) sleep s s0 \<and> get_models s0 url = (s', r)
       \<and> public_models repr r = Inr models \<and> model \<in> set models"
proof (induction n arbitrary: s)
  case (Suc n)
  obtain s1 r where g: "get_models s url = (s1, r)" by (cases "get_models s url")
  show ?case
  proof (cases "\<exists>models. public_models repr r = Inr models \<and> model \<in> set models")
    case True
    then show ?thesis using Suc.prems g
      by (intro exI [of _ s]) (auto simp: Let_def intro: polls_now split: if_splits)
  next
    case False
    then have "\<not> (case public_models repr r of Inl _ \<Rightarrow> False | Inr models \<Rightarrow> model \<in> set models)" by (auto split: sum.splits)
    with Suc.prems g obtain d where "ready_turns n repr get_models clock sleep url model started deadline poll (sleep d s1) = Some (s', res)"
      by (auto simp: Let_def split: if_splits)
    from Suc.IH [OF this Suc.prems(2)] polls_later [of "\<lambda>s. fst (get_models s url)" sleep d s] g show ?thesis by fastforce
  qed
qed simp

lemma wait_pod_sound:
  "wait_pod_turns n cl clock pod_id started deadline poll need s = Some (s', Inr pw) \<Longrightarrow> pw_reached pw \<Longrightarrow>
     \<exists>s0. polls (\<lambda>s. fst (get_pod cl pod_id s)) (cl_sleep cl) s s0 \<and> get_pod cl pod_id s0 = (s', Inr (pw_state pw))
       \<and> is_running (pw_state pw) \<and> \<not> is_terminated (pw_state pw) \<and> (need \<longrightarrow> has_network (pw_state pw))"
proof (induction n arbitrary: s)
  case (Suc n)
  obtain s1 v where g: "get_pod cl pod_id s = (s1, v)" by (cases "get_pod cl pod_id s")
  with Suc.prems obtain st where v: "v = Inr st" by (cases v) auto
  show ?case
  proof (cases "is_terminated st \<or> is_running st \<and> (has_network st \<or> \<not> need) \<or> deadline - clock s1 \<le> 0")
    case True
    then show ?thesis using Suc.prems g v
      by (intro exI [of _ s]) (auto simp: Let_def intro: polls_now split: if_splits)
  next
    case False
    with Suc.prems g v obtain d where
        "wait_pod_turns n cl clock pod_id started deadline poll need (cl_sleep cl d s1) = Some (s', Inr pw)"
      by (auto simp: Let_def)
    from Suc.IH [OF this Suc.prems(2)] polls_later [of "\<lambda>s. fst (get_pod cl pod_id s)" "cl_sleep cl" d s] g show ?thesis by fastforce
  qed
qed simp

text \<open>
  C36. Code 0 means a worker that serves. When a deployment that is not a dry run ends with success, this is what happened, in this order and
  on the course the world took: the volume of the specification was looked up and the Pod created; one of the questions after its state was
  answered with a Pod that is running and not terminated (with an address, when a direct port was asked for and the proxy not preferred);
  from then on one of the questions to the worker behind the address chosen from that very answer was answered with a list holding the
  model the specification names; and the next request, a completion, was answered in a way that passes every check and ended
  the deployment.
\<close>

theorem successful_deployment_serves:
  assumes "cmd_deploy turns w a env s = Some (s', Inr EXIT_OK)" and "\<not> da_dry_run a"
  shows "\<exists>spec cl s1 spec1 s2 new t t' st url u u' listing models answer.
    build_spec a env = Inr spec \<and> connect w env = Inr cl
    \<and> resolve_volume cl spec s = (s1, Inr spec1) \<and> create_pod cl spec1 s1 = (s2, Inr new)
    \<and> polls (\<lambda>s. fst (get_pod cl (st_id new) s)) (cl_sleep cl) s2 t \<and> get_pod cl (st_id new) t = (t', Inr st)
    \<and> is_running st \<and> \<not> is_terminated st \<and> (tcp_ports spec \<noteq> [] \<and> \<not> da_prefer_proxy a \<longrightarrow> has_network st)
    \<and> url = ae_base_url (choose_access_url (cl_str (os_client w)) st (da_worker_port a) (\<not> da_prefer_proxy a))
    \<and> polls (\<lambda>s. fst (os_get_models w s url)) (cl_sleep (os_client w)) t' u \<and> os_get_models w u url = (u', listing)
    \<and> public_models (cl_str (os_client w)) listing = Inr models \<and> settings_model_name (sp_worker spec) \<in> set models
    \<and> os_complete w u' url (settings_model_name (sp_worker spec)) = (s', answer)
    \<and> smoke_test (settings_model_name (sp_worker spec)) answer = Inr True"
proof -
  obtain spec0 cl where spec0: "build_spec a env = Inr spec0" and cl: "connect w env = Inr cl"
      and run: "deploy_with turns w cl a spec0 s = Some (s', Inr EXIT_OK)"
    using assms by (auto simp: cmd_deploy_def spec_failure_def split: sum.splits) (cases "build_spec a env"; auto)
  have str: "cl_str cl = cl_str (os_client w)" using cl by (cases "api_key_from_environment env") (auto simp: connect_def)
  obtain s2 spec1 st where created: "and_then (resolve_volume cl spec0 s)
      (\<lambda>s spec1. and_then (create_pod cl spec1 s) (\<lambda>s st. (s, Inr (spec1, st)))) = (s2, Inr (spec1, st))"
    using run by (auto simp: deploy_with_def split: prod.splits sum.splits)
  then obtain s1 where made: "resolve_volume cl spec0 s = (s1, Inr spec1)" "create_pod cl spec1 s1 = (s2, Inr st)"
    by (auto simp: and_then_def split: prod.splits sum.splits)
  then have spec1: "tcp_ports spec1 = tcp_ports spec0" "sp_worker spec1 = sp_worker spec0"
    by (auto simp: and_then_def resolve_volume_def tcp_ports_def spec_failure_def mk_pod_spec_def
        split: prod.splits sum.splits option.splits if_splits spec_error.splits)
  let ?need = "tcp_ports spec0 \<noteq> [] \<and> \<not> da_prefer_proxy a" and ?model = "settings_model_name (sp_worker spec0)"
  obtain s3 pw where pod: "wait_for_pod turns cl (os_clock w) (st_id st) (da_pod_timeout a) (da_poll a) ?need s2 = Some (s3, Inr pw)"
      and reached: "pw_reached pw"
      and rest: "validate_worker turns w a (ae_base_url (choose_access_url (cl_str cl) (pw_state pw) (da_worker_port a) (\<not> da_prefer_proxy a)))
        ?model s3 = Some (s', Inr EXIT_OK)"
    using run unfolding deploy_with_def created
    by (auto simp: spec1 EXIT_POD_TIMEOUT_def EXIT_OK_def split: option.splits prod.splits sum.splits if_splits)
  define url where "url = ae_base_url (choose_access_url (cl_str (os_client w)) (pw_state pw) (da_worker_port a) (\<not> da_prefer_proxy a))"
  obtain s4 ready answer where ready: "ready_turns turns (cl_str (os_client w)) (os_get_models w) (os_clock w) (cl_sleep (os_client w)) url ?model
        (os_clock w s3) (os_clock w s3 + da_ready_timeout a) (da_poll a) s3 = Some (s4, ready)" "rr_ready ready"
      and smoke: "os_complete w s4 url ?model = (s', answer)" "smoke_test ?model answer = Inr True"
    using rest unfolding validate_worker_def str url_def [symmetric]
    by (auto simp: uncaught_def EXIT_OK_def EXIT_NO_MODEL_def EXIT_SMOKE_FAILED_def map_sum_def
        split: option.splits prod.splits sum.splits if_splits)
  obtain t where seen: "polls (\<lambda>s. fst (get_pod cl (st_id st) s)) (cl_sleep cl) s2 t" "get_pod cl (st_id st) t = (s3, Inr (pw_state pw))"
      "is_running (pw_state pw)" "\<not> is_terminated (pw_state pw)" "?need \<longrightarrow> has_network (pw_state pw)"
    using wait_pod_sound [OF pod [unfolded wait_for_pod_def] reached] by blast
  obtain u listing models where "polls (\<lambda>s. fst (os_get_models w s url)) (cl_sleep (os_client w)) s3 u" "os_get_models w u url = (s4, listing)"
      "public_models (cl_str (os_client w)) listing = Inr models" "?model \<in> set models"
    using ready_turns_sound [OF ready] by blast
  with spec0 cl made seen smoke show ?thesis unfolding url_def by blast
qed

definition demo_args :: deploy_args where
  "demo_args = \<lparr>da_name = ''gpu-worker'', da_image = Some ''worker:1'', da_gpu_types = [], da_gpu_count = 1, da_cloud = ''SECURE'',
     da_data_centers = [], da_container_disk_gb = 60, da_network_volume = None, da_expose = ''http'', da_prefer_proxy = False,
     da_global_networking = False, da_model = Some ''m'', da_model_revision = None, da_served_model_name = None, da_worker_port = 8000,
     da_mount_path = DEFAULT_PERSISTENT_ROOT, da_max_model_len = None, da_gpu_memory_utilization = None, da_tensor_parallel = None,
     da_vllm_extra_args = [], da_pod_timeout = 900, da_ready_timeout = 3600, da_poll = 10, da_dry_run = False\<rparr>"

definition demo_client :: "unit runpod_client" where
  "demo_client = \<lparr>cl_key = ''k'', cl_base_url = [], cl_graphql_url = [], cl_retry = default_retry,
     cl_serve = (\<lambda>s rq. (s, Inr \<lparr>hr_status = 200, hr_text = ''{...}'',
       hr_json = Some (JObj [(''id'', JStr ''p''), (''desiredStatus'', JStr ''RUNNING'')])\<rparr>)),
     cl_sleep = (\<lambda>d s. s), cl_dumps = (\<lambda>_. []), cl_str = (\<lambda>_. []), cl_float = (\<lambda>_. None), cl_general = demo_general\<rparr>"

definition demo_cloud_world :: "unit outside" where
  "demo_cloud_world = \<lparr>os_get_models = (\<lambda>s url. (s, Answered 200 (Some (JObj [(''data'', JArr [JObj [(''id'', JStr ''m'')]])])))),
     os_complete = (\<lambda>s url model. (s, Answered 200 (Some (JObj [(''object'', JStr ''chat.completion''), (''model'', JStr ''m''),
       (''choices'', JArr [JObj [(''message'', JObj [(''content'', JStr ''int'')])]])])))),
     os_clock = (\<lambda>s. 0), os_client = demo_client\<rparr>"

lemma demo_send:
  "send demo_client rq context resource () = ((), Inr \<lparr>hr_status = 200, hr_text = ''{...}'',
     hr_json = Some (JObj [(''id'', JStr ''p''), (''desiredStatus'', JStr ''RUNNING'')])\<rparr>)"
proof -
  let ?r = "\<lparr>hr_status = 200, hr_text = ''{...}'', hr_json = Some (JObj [(''id'', JStr ''p''), (''desiredStatus'', JStr ''RUNNING'')])\<rparr>"
  have "rp_attempts (cl_retry demo_client) = Suc 2" by (simp add: demo_client_def default_retry_def)
  moreover have "cl_serve demo_client () rq = ((), Inr ?r)" by (simp add: demo_client_def)
  ultimately show ?thesis
    using send_settles [of demo_client "()" rq "()" ?r _ _ 2 1 None]
    by (simp add: send_def settles_def settled_as_def is_success_def RETRYABLE_STATUS_def NEVER_RETRIED_def)
qed

lemma demo_api_request: "api_request demo_client verb path body params context resource ()
    = ((), Inr (Some (JObj [(''id'', JStr ''p''), (''desiredStatus'', JStr ''RUNNING'')])))"
  by (simp add: api_request_def demo_send and_then_def decode_def)

lemma demo_pod:
  "\<exists>st. create_pod demo_client spec () = ((), Inr st) \<and> get_pod demo_client i () = ((), Inr st) \<and> is_running st \<and> \<not> is_terminated st"
  by (simp add: create_pod_def get_pod_def demo_api_request and_then_def truthy_field_def uncaught_def state_from_api_def is_running_def
      is_terminated_def field_text_def)

lemma demo_build: "\<exists>spec. build_spec demo_args [(''RUNPOD_API_KEY'', ''k'')] = Inr spec \<and> tcp_ports spec = [] \<and> nonempty (sp_network_volume_id spec) = None
    \<and> settings_model_name (sp_worker spec) = ''m''"
  by (simp add: build_spec_def demo_args_def default_ports_def mk_exposed_port_def SYMMETRIC_PORT_FLOOR_def MAX_TCP_PORT_def nonempty_def
      mk_pod_spec_def strip_id py_isspace_def tcp_ports_def settings_model_name_def default_worker_settings_def env_secret_def)

lemma demo_deploy: "cmd_deploy 1 demo_cloud_world demo_args [(''RUNPOD_API_KEY'', ''k'')] () = Some ((), Inr EXIT_OK)"
proof -
  obtain spec where spec: "build_spec demo_args [(''RUNPOD_API_KEY'', ''k'')] = Inr spec" "tcp_ports spec = []"
      "nonempty (sp_network_volume_id spec) = None" "settings_model_name (sp_worker spec) = ''m''"
    using demo_build by blast
  have conn: "connect demo_cloud_world [(''RUNPOD_API_KEY'', ''k'')] = Inr demo_client"
    by (simp add: connect_def api_key_from_environment_def strip_id py_isspace_def demo_cloud_world_def demo_client_def)
  obtain st where st: "create_pod demo_client spec () = ((), Inr st)" using demo_pod [of spec] by blast
  obtain st' where st': "get_pod demo_client (st_id st) () = ((), Inr st')" "is_running st'" "\<not> is_terminated st'"
    using demo_pod [of _ "st_id st"] by blast
  have validated: "validate_worker 1 demo_cloud_world demo_args url ''m'' () = Some ((), Inr EXIT_OK)" for url
    by (simp add: validate_worker_def demo_cloud_world_def demo_args_def public_models_def List.map_filter_simps field_text_def smoke_test_def
        validate_completion_def usage_count_def uncaught_def strip_id py_isspace_def Let_def)
  have args: "\<not> da_dry_run demo_args" "da_prefer_proxy demo_args = False" by (simp_all add: demo_args_def)
  have "deploy_with 1 demo_cloud_world demo_client demo_args spec () = Some ((), Inr EXIT_OK)"
    using spec(2-4) st st' args validated by (simp add: deploy_with_def resolve_volume_def and_then_def wait_for_pod_def Let_def)
  then show ?thesis using spec(1) conn args by (simp add: cmd_deploy_def spec_failure_def)
qed

theorem successful_deployment_serves_witness:
  "\<exists>spec st listing models. build_spec demo_args [(''RUNPOD_API_KEY'', ''k'')] = Inr spec
     \<and> get_pod demo_client ''p'' () = ((), Inr st) \<and> is_running st
     \<and> os_get_models demo_cloud_world () (ae_base_url (choose_access_url (cl_str demo_client) st 8000 True)) = ((), listing)
     \<and> public_models (cl_str demo_client) listing = Inr models \<and> settings_model_name (sp_worker spec) \<in> set models"
proof -
  have args: "\<not> da_dry_run demo_args" "da_prefer_proxy demo_args = False" "da_worker_port demo_args = 8000" by (simp_all add: demo_args_def)
  have conn: "connect demo_cloud_world [(''RUNPOD_API_KEY'', ''k'')] = Inr cl \<longleftrightarrow> cl = demo_client" for cl
    by (auto simp: connect_def api_key_from_environment_def strip_id py_isspace_def demo_cloud_world_def demo_client_def)
  have id: "create_pod demo_client spec s = (s2, Inr new) \<Longrightarrow> st_id new = ''p''" for spec s s2 new
    by (auto simp: create_pod_def demo_api_request and_then_def truthy_field_def uncaught_def state_from_api_def field_text_def split: prod.splits)
  have client: "os_client demo_cloud_world = demo_client" by (simp add: demo_cloud_world_def)
  obtain spec cl s1 spec1 s2 new t t' st url u u' listing models where
      "build_spec demo_args [(''RUNPOD_API_KEY'', ''k'')] = Inr spec" "connect demo_cloud_world [(''RUNPOD_API_KEY'', ''k'')] = Inr cl"
      "create_pod cl spec1 s1 = (s2, Inr new)" "get_pod cl (st_id new) t = (t', Inr st)" "is_running st"
      "url = ae_base_url (choose_access_url (cl_str (os_client demo_cloud_world)) st (da_worker_port demo_args) (\<not> da_prefer_proxy demo_args))"
      "os_get_models demo_cloud_world u url = (u', listing)" "public_models (cl_str (os_client demo_cloud_world)) listing = Inr models"
      "settings_model_name (sp_worker spec) \<in> set models"
    using successful_deployment_serves [OF demo_deploy args(1)] by blast
  then show ?thesis unfolding conn args(2,3) client not_False_eq_True
    by (intro exI [of _ spec] exI [of _ st] exI [of _ listing] exI [of _ models]) (auto dest: id)
qed

end
