(* ===== verification/Agent.thy ===== *)
theory Agent
  imports Registry Model_State
begin

text \<open>
  The agent beside the inference server of a GPU host (\<open>src/src/worker_agent\<close>): the client of the control plane
  (\<open>client.py\<close>), the probe of the engine (\<open>inference.py\<close>), registration, heartbeats, draining and departure (\<open>agent.py\<close>) and
  the entry point (\<open>main.py\<close>). The world is a value of type \<open>'s\<close>; HTTP to both sides, the clock, sleeping and whether a signal has
  arrived are functions of it. Loops take a bound on their turns; \<open>None\<close> says that it was too small.
\<close>

section \<open>Client of the control plane\<close>

text \<open>\<open>ControlPlaneError\<close> with its status; a body that is not JSON raises another exception.\<close>

datatype agent_error = ControlPlaneError "int option" | JSONDecodeError

fun is_unknown_worker :: "agent_error \<Rightarrow> bool" where
  "is_unknown_worker (ControlPlaneError status) = (status = Some 404)"
| "is_unknown_worker JSONDecodeError = False"

text \<open>What a request meets: no reply, or a status, whether there is content, and the content when it is JSON.\<close>

datatype cp_reply = NoReply | CpReply int bool "json option"

record 's host =
  hs_http :: "'s \<Rightarrow> string \<Rightarrow> string \<Rightarrow> json_object option \<Rightarrow> 's \<times> cp_reply"
  hs_probe :: "'s \<Rightarrow> string \<Rightarrow> 's \<times> bool"
  hs_clock :: "'s \<Rightarrow> rat"
  hs_sleep :: "rat \<Rightarrow> 's \<Rightarrow> 's"
  hs_signalled :: "'s \<Rightarrow> bool"
  hs_str :: "json \<Rightarrow> string"

definition cp_request :: "'s host \<Rightarrow> string \<Rightarrow> string \<Rightarrow> json_object option \<Rightarrow> 's \<Rightarrow> 's \<times> (agent_error + bool \<times> json option)" where
  "cp_request h verb path body s =
     (case hs_http h s verb path body of
        (s1, NoReply) \<Rightarrow> (s1, Inl (ControlPlaneError None))
      | (s1, CpReply status content doc) \<Rightarrow>
          (s1, if 400 \<le> status \<and> status \<le> 599 then Inl (ControlPlaneError (Some status)) else Inr (content, doc)))"

definition cp_post :: "'s host \<Rightarrow> string \<Rightarrow> json_object \<Rightarrow> 's \<Rightarrow> 's \<times> (agent_error + json_object)" where
  "cp_post h path body s =
     (case cp_request h ''POST'' path (Some body) s of
        (s1, Inl e) \<Rightarrow> (s1, Inl e)
      | (s1, Inr (content, doc)) \<Rightarrow>
          (s1, if \<not> content then Inr []
               else (case doc of None \<Rightarrow> Inl JSONDecodeError | Some (JObj d) \<Rightarrow> Inr d | Some _ \<Rightarrow> Inr [])))"

definition worker_path :: "string \<Rightarrow> string \<Rightarrow> string" where
  "worker_path worker_id action = ''/internal/workers/'' @ worker_id @ action"

definition cp_register :: "'s host \<Rightarrow> json_object \<Rightarrow> 's \<Rightarrow> 's \<times> (agent_error + json_object)" where
  "cp_register h body s = cp_post h ''/internal/workers/register'' body s"

definition cp_heartbeat :: "'s host \<Rightarrow> string \<Rightarrow> json_object \<Rightarrow> 's \<Rightarrow> 's \<times> (agent_error + json_object)" where
  "cp_heartbeat h worker_id body s = cp_post h (worker_path worker_id ''/heartbeat'') body s"

definition cp_drain :: "'s host \<Rightarrow> string \<Rightarrow> 's \<Rightarrow> 's \<times> (agent_error + json_object)" where
  "cp_drain h worker_id s = cp_post h (worker_path worker_id ''/drain'') [] s"

definition cp_deregister :: "'s host \<Rightarrow> string \<Rightarrow> 's \<Rightarrow> 's \<times> (agent_error + bool \<times> json option)" where
  "cp_deregister h worker_id s = cp_request h ''DELETE'' (worker_path worker_id []) None s"

section \<open>Probe\<close>

definition is_healthy :: "'s host \<Rightarrow> 's \<Rightarrow> 's \<times> bool" where
  "is_healthy h s =
     (let (s1, ok) = hs_probe h s ''/health'' in if ok then (s1, True) else hs_probe h s1 ''/v1/models'')"

fun probe_turns :: "nat \<Rightarrow> 's host \<Rightarrow> rat \<Rightarrow> rat \<Rightarrow> 's \<Rightarrow> ('s \<times> bool) option" where
  "probe_turns 0 h deadline poll s = None"
| "probe_turns (Suc n) h deadline poll s =
     (if \<not> hs_clock h s < deadline then Some (s, False)
      else let (s1, ok) = is_healthy h s in
           if ok then Some (s1, True) else probe_turns n h deadline poll (hs_sleep h poll s1))"

definition engine_wait :: "nat \<Rightarrow> 's host \<Rightarrow> rat \<Rightarrow> rat \<Rightarrow> 's \<Rightarrow> ('s \<times> bool) option" where
  "engine_wait turns h timeout_seconds poll_seconds s = probe_turns turns h (hs_clock h s + timeout_seconds) poll_seconds s"

section \<open>The agent\<close>

record worker_description =
  wd_endpoint :: string
  wd_model_id :: string
  wd_context_length :: int
  wd_max_concurrency :: int
  wd_roles :: "agent_role set"
  wd_gpu_type :: "string option"
  wd_gpu_count :: int
  wd_tensor_parallel_size :: int
  wd_worker_id :: "string option"
  wd_metadata :: json_object

definition as_payload :: "worker_description \<Rightarrow> json_object" where
  "as_payload d =
     [(''endpoint'', JStr (wd_endpoint d)), (''model_id'', JStr (wd_model_id d)), (''context_length'', JInt (wd_context_length d)),
      (''max_concurrency'', JInt (wd_max_concurrency d)),
      (''supported_roles'', JArr (map (\<lambda>r. JStr (agent_role_value r)) (filter (\<lambda>r. r \<in> wd_roles d) [CODER, PLANNER, REVIEWER]))),
      (''gpu'', JObj [(''gpu_type'', case wd_gpu_type d of None \<Rightarrow> JNull | Some g \<Rightarrow> JStr g), (''gpu_count'', JInt (wd_gpu_count d)),
         (''tensor_parallel_size'', JInt (wd_tensor_parallel_size d))]),
      (''metadata'', JObj (wd_metadata d))]
     @ (case nonempty (wd_worker_id d) of None \<Rightarrow> [] | Some i \<Rightarrow> [(''worker_id'', JStr i)])"

record agent =
  ag_description :: worker_description
  ag_interval :: rat
  ag_drain_timeout :: rat
  ag_startup_timeout :: rat
  ag_worker_id :: "string option"
  ag_status :: worker_status
  ag_active_jobs :: int
  ag_stopping :: bool

definition new_agent :: "worker_description \<Rightarrow> rat \<Rightarrow> rat \<Rightarrow> rat \<Rightarrow> agent" where
  "new_agent d interval drain_timeout startup_timeout =
     \<lparr>ag_description = d, ag_interval = interval, ag_drain_timeout = drain_timeout, ag_startup_timeout = startup_timeout,
      ag_worker_id = wd_worker_id d, ag_status = STARTING, ag_active_jobs = 0, ag_stopping = False\<rparr>"

definition job_started :: "agent \<Rightarrow> agent" where
  "job_started ag = ag\<lparr>ag_active_jobs := ag_active_jobs ag + 1\<rparr>"

definition job_finished :: "agent \<Rightarrow> agent" where
  "job_finished ag = ag\<lparr>ag_active_jobs := max (ag_active_jobs ag - 1) 0\<rparr>"

definition is_idle :: "agent \<Rightarrow> bool" where
  "is_idle ag \<longleftrightarrow> ag_active_jobs ag = 0"

text \<open>An operation: the agent and the world it leaves, and what it returns or raises; \<open>None\<close> when the bound was too small.\<close>

type_synonym ('s, 'a) op = "(agent \<times> 's \<times> (agent_error + 'a)) option"

definition agent_start :: "nat \<Rightarrow> 's host \<Rightarrow> agent \<Rightarrow> 's \<Rightarrow> ('s, string) op" where
  "agent_start turns h ag s =
     (let ag1 = ag\<lparr>ag_status := STARTING\<rparr> in
      case engine_wait turns h (ag_startup_timeout ag) 3 s of
        None \<Rightarrow> None
      | Some (s1, ready) \<Rightarrow>
          if \<not> ready then Some (ag1, s1, Inl (ControlPlaneError None))
          else
            let ag2 = ag1\<lparr>ag_status := REGISTERING\<rparr> in
            (case cp_register h (as_payload (ag_description ag)) s1 of
               (s2, Inl e) \<Rightarrow> Some (ag2, s2, Inl e)
             | (s2, Inr body) \<Rightarrow>
                 let worker_id = (case dict_get body ''id'' of
                       Some v \<Rightarrow> if truthy v then str_of_json (hs_str h) v else or_else (wd_worker_id (ag_description ag)) []
                     | None \<Rightarrow> or_else (wd_worker_id (ag_description ag)) []) in
                 if worker_id = [] then Some (ag2, s2, Inl (ControlPlaneError None))
                 else Some (ag2\<lparr>ag_worker_id := Some worker_id, ag_status := READY\<rparr>, s2, Inr worker_id)))"

definition beat_payload :: "agent \<Rightarrow> json_object" where
  "beat_payload ag = [(''active_jobs'', JInt (ag_active_jobs ag)), (''queued_jobs'', JInt 0), (''draining'', JBool (ag_status ag = DRAINING))]"

definition beat_once :: "nat \<Rightarrow> 's host \<Rightarrow> agent \<Rightarrow> 's \<Rightarrow> ('s, bool) op" where
  "beat_once turns h ag s =
     (case ag_worker_id ag of
        None \<Rightarrow> Some (ag, s, Inr False)
      | Some worker_id \<Rightarrow>
          (case cp_heartbeat h worker_id (beat_payload ag) s of
             (s1, Inl JSONDecodeError) \<Rightarrow> Some (ag, s1, Inl JSONDecodeError)
           | (s1, Inl (ControlPlaneError status)) \<Rightarrow>
               if status = Some 404
               then (case agent_start turns h ag s1 of
                       None \<Rightarrow> None
                     | Some (ag1, s2, Inl JSONDecodeError) \<Rightarrow> Some (ag1, s2, Inl JSONDecodeError)
                     | Some (ag1, s2, _) \<Rightarrow> Some (ag1, s2, Inr (ag_worker_id ag1 \<noteq> None)))
               else Some (ag, s1, Inr False)
           | (s1, Inr _) \<Rightarrow>
               (let (s2, ok) = is_healthy h s1 in
                if \<not> ok then Some (ag\<lparr>ag_status := UNHEALTHY\<rparr>, s2, Inr False)
                else Some (if ag_status ag = UNHEALTHY then ag\<lparr>ag_status := READY\<rparr> else ag, s2, Inr True))))"

definition request_drain :: "'s host \<Rightarrow> agent \<Rightarrow> 's \<Rightarrow> ('s, unit) op" where
  "request_drain h ag s =
     (case ag_worker_id ag of
        None \<Rightarrow> Some (ag, s, Inr ())
      | Some worker_id \<Rightarrow>
          let ag1 = ag\<lparr>ag_status := DRAINING\<rparr> in
          (case cp_drain h worker_id s of
             (s1, Inl JSONDecodeError) \<Rightarrow> Some (ag1, s1, Inl JSONDecodeError)
           | (s1, _) \<Rightarrow> Some (ag1, s1, Inr ())))"

text \<open>\<open>_await_idle\<close>; beats made here may raise, but a \<open>ControlPlaneError\<close> is suppressed.\<close>

fun idle_turns :: "nat \<Rightarrow> 's host \<Rightarrow> rat \<Rightarrow> agent \<Rightarrow> 's \<Rightarrow> ('s, unit) op" where
  "idle_turns 0 h deadline ag s = None"
| "idle_turns (Suc n) h deadline ag s =
     (if is_idle ag \<or> \<not> hs_clock h s < deadline then Some (ag, s, Inr ())
      else (case beat_once (Suc n) h ag s of
              None \<Rightarrow> None
            | Some (ag1, s1, Inl JSONDecodeError) \<Rightarrow> Some (ag1, s1, Inl JSONDecodeError)
            | Some (ag1, s1, _) \<Rightarrow> idle_turns n h deadline ag1 (hs_sleep h (min (ag_interval ag) 2) s1)))"

definition agent_shutdown :: "nat \<Rightarrow> 's host \<Rightarrow> agent \<Rightarrow> 's \<Rightarrow> ('s, unit) op" where
  "agent_shutdown turns h ag s =
     (case request_drain h (ag\<lparr>ag_stopping := True\<rparr>) s of
        None \<Rightarrow> None
      | Some (ag1, s1, Inl e) \<Rightarrow> Some (ag1, s1, Inl e)
      | Some (ag1, s1, Inr _) \<Rightarrow>
          (case idle_turns turns h (hs_clock h s1 + ag_drain_timeout ag1) ag1 s1 of
             None \<Rightarrow> None
           | Some (ag2, s2, Inl e) \<Rightarrow> Some (ag2, s2, Inl e)
           | Some (ag2, s2, Inr _) \<Rightarrow>
               (case ag_worker_id ag2 of
                  None \<Rightarrow> Some (ag2\<lparr>ag_status := OFFLINE\<rparr>, s2, Inr ())
                | Some worker_id \<Rightarrow>
                    (case cp_deregister h worker_id s2 of
                       (s3, Inl JSONDecodeError) \<Rightarrow> Some (ag2, s3, Inl JSONDecodeError)
                     | (s3, _) \<Rightarrow> Some (ag2\<lparr>ag_status := OFFLINE\<rparr>, s3, Inr ())))))"

text \<open>The loop of \<open>run\<close>: it ends when a stop was requested, or with an exception of a beat.\<close>

fun beat_turns :: "nat \<Rightarrow> 's host \<Rightarrow> agent \<Rightarrow> 's \<Rightarrow> ('s, unit) op" where
  "beat_turns 0 h ag s = None"
| "beat_turns (Suc n) h ag s =
     (if ag_stopping ag \<or> hs_signalled h s then Some (ag, s, Inr ())
      else (case beat_once (Suc n) h ag s of
              None \<Rightarrow> None
            | Some (ag1, s1, Inl e) \<Rightarrow> Some (ag1, s1, Inl e)
            | Some (ag1, s1, Inr _) \<Rightarrow> beat_turns n h ag1 (hs_sleep h (ag_interval ag) s1)))"

definition agent_run :: "nat \<Rightarrow> 's host \<Rightarrow> agent \<Rightarrow> 's \<Rightarrow> ('s, unit) op" where
  "agent_run turns h ag s =
     (case agent_start turns h ag s of
        None \<Rightarrow> None
      | Some (ag1, s1, Inl e) \<Rightarrow> Some (ag1, s1, Inl e)
      | Some (ag1, s1, Inr _) \<Rightarrow>
          (case beat_turns turns h ag1 s1 of
             None \<Rightarrow> None
           | Some (ag2, s2, outcome) \<Rightarrow>
               (case agent_shutdown turns h ag2 s2 of
                  None \<Rightarrow> None
                | Some (ag3, s3, Inl e) \<Rightarrow> Some (ag3, s3, Inl e)
                | Some (ag3, s3, Inr _) \<Rightarrow> Some (ag3, s3, outcome))))"

text \<open>
  The other side of a heartbeat, \<open>HeartbeatRequest\<close> with \<open>to_command\<close>: the load and the draining flag of a body with integers and
  truth values. Other bodies are refused; the conversions the validation library makes of them are left out.
\<close>

definition MAX_CONCURRENCY :: int where
  "MAX_CONCURRENCY = 1024"

definition bounded_count :: "json_object \<Rightarrow> string \<Rightarrow> int option" where
  "bounded_count body name =
     (case dict_get body name of
        None \<Rightarrow> Some 0
      | Some (JInt n) \<Rightarrow> if 0 \<le> n \<and> n \<le> MAX_CONCURRENCY then Some n else None
      | Some _ \<Rightarrow> None)"

definition heartbeat_command :: "json_object \<Rightarrow> (worker_load \<times> bool) option" where
  "heartbeat_command body =
     (if \<not> list_all (\<lambda>k. k \<in> {''active_jobs'', ''queued_jobs'', ''draining''}) (map fst body) then None
      else
        (case (bounded_count body ''active_jobs'', bounded_count body ''queued_jobs'', or_else (dict_get body ''draining'') (JBool False)) of
           (Some a, Some q, JBool b) \<Rightarrow> Some (\<lparr>active_jobs = a, queued_jobs = q\<rparr>, b)
         | _ \<Rightarrow> None))"

text \<open>What the process does with its agent: \<open>main.py\<close> runs it and stops it on a signal; nothing else in the sources touches it.\<close>

inductive agent_reachable :: "'s host \<Rightarrow> agent \<Rightarrow> bool" for h where
  new: "agent_reachable h (new_agent d interval drain_timeout startup_timeout)"
| start: "agent_reachable h ag \<Longrightarrow> agent_start turns h ag s = Some (ag', s', res) \<Longrightarrow> agent_reachable h ag'"
| beat: "agent_reachable h ag \<Longrightarrow> beat_once turns h ag s = Some (ag', s', ok) \<Longrightarrow> agent_reachable h ag'"
| drain: "agent_reachable h ag \<Longrightarrow> request_drain h ag s = Some (ag', s', res) \<Longrightarrow> agent_reachable h ag'"
| shutdown: "agent_reachable h ag \<Longrightarrow> agent_shutdown turns h ag s = Some (ag', s', res) \<Longrightarrow> agent_reachable h ag'"
| stop: "agent_reachable h ag \<Longrightarrow> agent_reachable h (ag\<lparr>ag_stopping := True\<rparr>)"

section \<open>Lemmas\<close>

lemma start_active: "agent_start turns h ag s = Some (ag', s', res) \<Longrightarrow> ag_active_jobs ag' = ag_active_jobs ag"
  by (auto simp: agent_start_def Let_def split: option.splits prod.splits if_splits sum.splits)

lemma beat_active: "beat_once turns h ag s = Some (ag', s', res) \<Longrightarrow> ag_active_jobs ag' = ag_active_jobs ag"
  by (auto simp: beat_once_def Let_def split: option.splits prod.splits if_splits sum.splits agent_error.splits dest: start_active)

lemma drain_active: "request_drain h ag s = Some (ag', s', res) \<Longrightarrow> ag_active_jobs ag' = ag_active_jobs ag"
  by (auto simp: request_drain_def Let_def split: option.splits prod.splits sum.splits agent_error.splits)

lemma idle_active: "idle_turns n h deadline ag s = Some (ag', s', res) \<Longrightarrow> ag_active_jobs ag' = ag_active_jobs ag"
proof (induction n arbitrary: ag s)
  case (Suc n)
  show ?case
  proof (cases "is_idle ag \<or> \<not> hs_clock h s < deadline")
    case False
    with Suc.prems obtain ag1 s1 r where b: "beat_once (Suc n) h ag s = Some (ag1, s1, r)"
        and rest: "ag' = ag1 \<or> idle_turns n h deadline ag1 (hs_sleep h (min (ag_interval ag) 2) s1) = Some (ag', s', res)"
      by (auto split: option.splits prod.splits sum.splits agent_error.splits)
    then show ?thesis using beat_active [OF b] Suc.IH by auto
  qed (use Suc.prems in auto)
qed simp

lemma shutdown_active: "agent_shutdown turns h ag s = Some (ag', s', res) \<Longrightarrow> ag_active_jobs ag' = ag_active_jobs ag"
  by (auto simp: agent_shutdown_def split: option.splits prod.splits sum.splits agent_error.splits dest!: drain_active idle_active)

text \<open>Nothing ever tells the agent of a job.\<close>

lemma reachable_idle: "agent_reachable h ag \<Longrightarrow> ag_active_jobs ag = 0"
  by (induction rule: agent_reachable.induct)
    (auto simp: new_agent_def dest: start_active beat_active drain_active shutdown_active)

lemma payload_understood:
  "ag_active_jobs ag = 0 \<Longrightarrow> heartbeat_command (beat_payload ag) = Some (\<lparr>active_jobs = 0, queued_jobs = 0\<rparr>, ag_status ag = DRAINING)"
  by (simp add: heartbeat_command_def beat_payload_def bounded_count_def MAX_CONCURRENCY_def)

section \<open>Properties\<close>

text \<open>
  C40. A heartbeat erases what the pool has reserved. No code ever tells the agent of a job, so every beat it sends reports none; the control
  plane takes the report as the load of the worker. Whatever jobs the pool has placed on a worker that is not draining, the next beat of its
  agent leaves it ready with every slot free, also when the agent has found its engine dead.
\<close>

theorem heartbeats_erase_reservations:
  assumes "agent_reachable h ag" and "ag_status ag \<noteq> DRAINING" and "wf_registry g" and "dict_get g wid = Some w"
    and "w_status w \<in> {READY, BUSY, OFFLINE, UNHEALTHY}"
  shows "\<exists>load g' w' stored. heartbeat_command (beat_payload ag) = Some (load, False)
    \<and> heartbeat_worker g wid load False now = (g', Inr w')
    \<and> reg_get g' wid = Some stored \<and> w_status stored = READY
    \<and> available_slots stored = max_concurrency (w_capabilities w)"
proof -
  let ?load = "\<lparr>active_jobs = 0, queued_jobs = 0\<rparr>" and ?w = "copy_worker w"
  let ?w' = "worker_heartbeat ?w now None (Some ?load) None"
  have caps: "1 \<le> max_concurrency (w_capabilities w)" and wid: "w_id w = wid"
    using wf_registryD [OF assms(3,4)] by (auto simp: wf_worker_def wf_capabilities_def)
  have id: "w_id ?w' = wid" using wid by (simp add: worker_heartbeat_id copy_worker_id)
  have status: "w_status ?w' = READY" and slots: "available_slots ?w' = max_concurrency (w_capabilities w)"
    using assms(5) caps
    by (auto simp: worker_heartbeat_def Let_def sync_busy_def available_slots_def worker_transition_def worker_record_def copy_worker_def)
  have get: "reg_get g wid = Some ?w" using assms(4) by (simp add: reg_get_def)
  have known: "dict_get (fst (reg_heartbeat g wid ?load now)) wid \<noteq> None" using assms(4) by (simp add: reg_heartbeat_def)
  have "heartbeat_command (beat_payload ag) = Some (?load, False)" using payload_understood [OF reachable_idle [OF assms(1)]] assms(2) by simp
  moreover have "heartbeat_worker g wid ?load False now = (reg_update (fst (reg_heartbeat g wid ?load now)) ?w', Inr ?w')"
    by (simp add: heartbeat_worker_def get Let_def)
  moreover have "reg_get (reg_update (fst (reg_heartbeat g wid ?load now)) ?w') wid = Some (copy_worker (copy_worker ?w'))"
    using known id by (simp add: reg_update_def reg_get_def)
  moreover have "w_status (copy_worker (copy_worker ?w')) = READY" "available_slots (copy_worker (copy_worker ?w')) = available_slots ?w'"
    using status by (simp_all add: copy_worker_def available_slots_def)
  ultimately show ?thesis using slots by auto
qed

abbreviation busy_registry :: registry where
  "busy_registry \<equiv> [(WorkerId 9, copy_worker demo_worker\<lparr>w_status := BUSY, w_load := \<lparr>active_jobs = 1, queued_jobs = 0\<rparr>\<rparr>)]"

definition demo_description :: worker_description where
  "demo_description = \<lparr>wd_endpoint = ''http://gpu:8000'', wd_model_id = ''m'', wd_context_length = 8192, wd_max_concurrency = 1, wd_roles = {CODER},
     wd_gpu_type = None, wd_gpu_count = 1, wd_tensor_parallel_size = 1, wd_worker_id = Some ''w9'', wd_metadata = []\<rparr>"

lemma busy_registry_acquired:
  "\<exists>w. pool_try_acquire reg_list_available reg_update least_loaded () demo_registry demo_requirements = (((), busy_registry), Inr (Some w))"
  using demo_acquire by blast

theorem heartbeats_erase_reservations_witness:
  "\<forall>h :: unit host. \<exists>load g' w' stored. heartbeat_command (beat_payload (new_agent demo_description 10 300 900)) = Some (load, False)
     \<and> heartbeat_worker busy_registry (WorkerId 9) load False 5 = (g', Inr w')
     \<and> reg_get g' (WorkerId 9) = Some stored \<and> w_status stored = READY \<and> 0 < available_slots stored"
proof
  fix h :: "unit host"
  have wf: "wf_registry busy_registry"
    by (auto simp: wf_registry_def wf_worker_def wf_capabilities_def wf_load_def available_slots_def worker_register_def copy_worker_def
        split: if_splits)
  let ?ag = "new_agent demo_description 10 300 900" and ?w = "copy_worker demo_worker\<lparr>w_status := BUSY, w_load := \<lparr>active_jobs = 1, queued_jobs = 0\<rparr>\<rparr>"
  have st: "ag_status ?ag \<noteq> DRAINING" by (simp add: new_agent_def)
  have busy: "dict_get busy_registry (WorkerId 9) = Some ?w" "w_status ?w \<in> {READY, BUSY, OFFLINE, UNHEALTHY}" by simp_all
  have slots: "max_concurrency (w_capabilities ?w) = 1" by (simp add: worker_register_def worker_record_def copy_worker_def)
  obtain load g' w' stored where "heartbeat_command (beat_payload ?ag) = Some (load, False)"
      "heartbeat_worker busy_registry (WorkerId 9) load False 5 = (g', Inr w')" "reg_get g' (WorkerId 9) = Some stored"
      "w_status stored = READY" "available_slots stored = 1"
    using heartbeats_erase_reservations [OF agent_reachable.new [of h demo_description 10 300 900] st wf busy, of 5] unfolding slots by blast
  moreover have "0 < available_slots stored" using \<open>available_slots stored = 1\<close> by linarith
  ultimately show "\<exists>load g' w' stored. heartbeat_command (beat_payload ?ag) = Some (load, False)
     \<and> heartbeat_worker busy_registry (WorkerId 9) load False 5 = (g', Inr w')
     \<and> reg_get g' (WorkerId 9) = Some stored \<and> w_status stored = READY \<and> 0 < available_slots stored"
    by blast
qed

lemma probe_turns_silent:
  assumes "\<And>s path. snd (hs_probe h s path) = False"
  shows "probe_turns n h deadline poll s = Some (s', ready) \<Longrightarrow> \<not> ready"
proof (induction n arbitrary: s)
  case (Suc n)
  have "snd (is_healthy h s) = False" using assms by (simp add: is_healthy_def case_prod_beta)
  with Suc show ?case by (auto simp: Let_def split: if_splits prod.splits)
qed simp

lemma probe_turns_http: "probe_turns n (h\<lparr>hs_http := f\<rparr>) deadline poll s = probe_turns n h deadline poll s"
  by (induction n arbitrary: s) (auto simp: is_healthy_def Let_def split: prod.split)

text \<open>
  Only an engine that answers is advertised. When the engine never answers its probes, starting the agent raises, leaves it in the state
  \<open>STARTING\<close> without a worker id of its own, and sends nothing to the control plane: it does the same whatever the control plane is.
\<close>

theorem silent_engine_is_not_registered:
  assumes "\<And>s path. snd (hs_probe h s path) = False" and "agent_start turns h ag s = Some (ag', s', res)"
  shows "res = Inl (ControlPlaneError None) \<and> ag' = ag\<lparr>ag_status := STARTING\<rparr>
    \<and> agent_start turns (h\<lparr>hs_http := f\<rparr>) ag s = Some (ag', s', res)"
proof -
  obtain s1 ready where w: "engine_wait turns h (ag_startup_timeout ag) 3 s = Some (s1, ready)"
    using assms(2) by (auto simp: agent_start_def Let_def split: option.splits)
  then have "\<not> ready" unfolding engine_wait_def by (rule probe_turns_silent [OF assms(1)])
  moreover have "engine_wait turns (h\<lparr>hs_http := f\<rparr>) (ag_startup_timeout ag) 3 s = Some (s1, ready)"
    using w by (simp add: engine_wait_def probe_turns_http)
  ultimately show ?thesis using assms(2) w by (auto simp: agent_start_def Let_def)
qed

definition demo_host :: "nat host" where
  "demo_host = \<lparr>hs_http = (\<lambda>n verb path body. (n + 1, CpReply 200 False None)), hs_probe = (\<lambda>n path. (n, False)), hs_clock = of_nat,
     hs_sleep = (\<lambda>d n. n + 1000), hs_signalled = (\<lambda>n. True), hs_str = (\<lambda>_. [])\<rparr>"

theorem silent_engine_is_not_registered_witness:
  "agent_start 2 demo_host (new_agent demo_description 10 300 900) 0
     = Some (new_agent demo_description 10 300 900, 1000, Inl (ControlPlaneError None))"
proof -
  have silent: "snd (hs_probe demo_host s path) = False" for s path by (simp add: demo_host_def)
  obtain ag' s' res where st: "agent_start 2 demo_host (new_agent demo_description 10 300 900) 0 = Some (ag', s', res)" and s': "s' = 1000"
    by (auto simp: agent_start_def engine_wait_def demo_host_def is_healthy_def numeral_2_eq_2 new_agent_def Let_def)
  then show ?thesis using silent_engine_is_not_registered [OF silent st] by (simp add: new_agent_def)
qed

text \<open>
  A departure is prompt and final. An agent of the running program has no job in hand, so shutting it down takes one look: whether or not
  the control plane can be reached, it ends \<open>OFFLINE\<close>, and its last request deregisters the worker. The one exception is a reply with content
  that is not JSON, which raises past the handlers.
\<close>

theorem departure_is_prompt:
  assumes "agent_reachable h ag" and "\<And>s path body s1 status. hs_http h s ''POST'' path body \<noteq> (s1, CpReply status True None)"
  shows "\<exists>s'. agent_shutdown (Suc n) h ag s = Some (ag\<lparr>ag_stopping := True, ag_status := OFFLINE\<rparr>, s', Inr ())
    \<and> (\<forall>i. ag_worker_id ag = Some i \<longrightarrow> (\<exists>s1. s' = fst (hs_http h s1 ''DELETE'' (worker_path i []) None)))"
proof -
  have idle: "is_idle ag" using reachable_idle [OF assms(1)] by (simp add: is_idle_def)
  have post: "snd (cp_post h path body s) \<noteq> Inl JSONDecodeError" for path body s
  proof (cases "hs_http h s ''POST'' path (Some body)")
    case (Pair s1 r)
    with assms(2) [of s path "Some body" s1] show ?thesis
      by (cases r) (auto simp: cp_post_def cp_request_def split: option.splits json.splits)
  qed
  show ?thesis
  proof (cases "ag_worker_id ag")
    case None
    then show ?thesis using idle by (simp add: agent_shutdown_def request_drain_def is_idle_def)
  next
    case (Some i)
    obtain s1 r where d: "cp_drain h i s = (s1, r)" "r \<noteq> Inl JSONDecodeError"
      using post [of "worker_path i ''/drain''" "[]" s] by (cases "cp_drain h i s") (simp add: cp_drain_def)
    let ?ag1 = "ag\<lparr>ag_stopping := True, ag_status := DRAINING\<rparr>"
    have drained: "request_drain h (ag\<lparr>ag_stopping := True\<rparr>) s = Some (?ag1, s1, Inr ())"
      using d Some by (auto simp: request_drain_def Let_def split: sum.splits agent_error.splits)
    obtain s2 q where q: "cp_deregister h i s1 = (s2, q)" "q \<noteq> Inl JSONDecodeError" "s2 = fst (hs_http h s1 ''DELETE'' (worker_path i []) None)"
      by (cases "hs_http h s1 ''DELETE'' (worker_path i []) None"; cases "snd (hs_http h s1 ''DELETE'' (worker_path i []) None)")
        (auto simp: cp_deregister_def cp_request_def)
    have "agent_shutdown (Suc n) h ag s = Some (ag\<lparr>ag_stopping := True, ag_status := OFFLINE\<rparr>, s2, Inr ())"
      using drained q(1,2) Some idle by (auto simp: agent_shutdown_def is_idle_def split: sum.splits agent_error.splits)
    with q(3) Some show ?thesis by auto
  qed
qed

theorem departure_is_prompt_witness:
  "\<exists>s'. agent_shutdown 1 demo_host (new_agent demo_description 10 300 900) 0
     = Some (new_agent demo_description 10 300 900\<lparr>ag_stopping := True, ag_status := OFFLINE\<rparr>, s', Inr ())"
  using departure_is_prompt [OF agent_reachable.new [of demo_host demo_description 10 300 900], of 0 0] by (auto simp: demo_host_def)

text \<open>A draining agent whose engine misses one probe and answers the next is \<open>READY\<close> again: the drain is forgotten.\<close>

lemma missed_probe_ends_a_drain:
  assumes "ag_worker_id ag = Some i" and "ag_status ag = DRAINING"
    and "cp_heartbeat h i (beat_payload ag) s = (s1, Inr b)" and "is_healthy h s1 = (s2, False)"
    and "cp_heartbeat h i (beat_payload (ag\<lparr>ag_status := UNHEALTHY\<rparr>)) s2 = (s3, Inr b')" and "is_healthy h s3 = (s4, True)"
  shows "beat_once n h ag s = Some (ag\<lparr>ag_status := UNHEALTHY\<rparr>, s2, Inr False)
    \<and> beat_once n h (ag\<lparr>ag_status := UNHEALTHY\<rparr>) s2 = Some (ag\<lparr>ag_status := READY\<rparr>, s4, Inr True)"
  using assms by (simp add: beat_once_def)

end
