(* ===== verification/Spec2Isabelle.thy ===== *)
theory Spec2Isabelle
  imports Operations Bus Redis_Registry Redis_Bus Http_Problems Worker_Config Structured Coordinator Executor Workspace_Files Tools Worktrees Deployer Agent
begin

text \<open>
  \<^bold>\<open>A verification of the control plane of the agentic GPU platform\<close>

  The platform (\<open>src/src\<close>) accepts software objectives over HTTP, has a planner, coders and a reviewer (language
  models served by GPU workers) produce candidate patches, validates the patches with the project's own tools
  and integrates the one that survives. This development models the part of it that decides: the domain layer
  (\<open>src/src/domain\<close>), the orchestration and the use cases (\<open>src/src/application\<close>), the in-process queue, registry
  and event bus (\<open>src/src/infrastructure/queue/in_memory.py\<close>), the Redis queue, registry, lock and bus, the repositories and unit of work
  (\<open>src/src/infrastructure/database\<close>), the HTTP error mapping, the queries and the event stream
  (\<open>src/src/interfaces/api\<close>), the executor and the lock that serialises a run, the tools, the sandbox and the git workspaces
  (\<open>src/src/infrastructure/tools\<close>, \<open>src/src/infrastructure/workspace\<close>), the agent that speaks for a worker, and of the GPU worker
  (\<open>src/gpu-worker\<close>) the model preparation, the configuration and commands, and the deployer that rents its Pod.

  \<^bold>\<open>How the parts interact.\<close> A use case creates a run in the store. The maintenance pass, or the orchestrator after each
  job, calls \<open>_advance\<close>, which looks at the stored run, its candidates and its jobs, and decides the next step: the
  run moves along its transition table, candidates are opened, repaired, selected or failed, and new jobs are
  stored and published on the queue. A worker claims a job under a lease; the executing half of the
  orchestrator runs the role handler, stores the result, acknowledges the job and advances the run. A failure
  is classified, retried under the retry policy or made the failure of the run; a lapsed lease is recovered by
  the maintenance pass. Every transaction appends the events of the aggregates it changed to the durable log
  and publishes them on the bus.

  \<^bold>\<open>Theories\<close>, in the order of the imports:

  \<^item> \<open>Prelude\<close>: dictionaries in insertion order, sorting, text, exceptions that leave a state behind, sum types.
  \<^item> \<open>Enums\<close>, \<open>Exceptions\<close>, \<open>Events\<close>, \<open>Values\<close>: \<open>domain/enums.py\<close>, \<open>domain/value_objects\<close>, \<open>domain/exceptions.py\<close>
    and \<open>domain/events\<close>, with the validation of the constructors.
  \<^item> \<open>Job\<close> (\<open>entities/job.py\<close>) and \<open>Run\<close> (\<open>entities/run.py\<close>, \<open>services/run_state_machine.py\<close>): every method of the two
    aggregates. Reachable jobs keep their attempt budget, finished jobs never change, stale tokens are refused and
    lapsed leases can be recovered; runs keep their budgets, every loop of the workflow is bounded and no edge
    outside the table is taken.
  \<^item> \<open>Worker\<close>, \<open>Scheduling\<close>, \<open>Registry\<close>: the worker aggregate, both scheduling policies behind the locale \<open>scheduler\<close>,
    the in-memory registry behind the locale \<open>worker_registry\<close>, the pool over any registry and policy (locale \<open>pool\<close>)
    and the worker use cases.
  \<^item> \<open>Queue\<close> and \<open>Queue_Contract\<close>: the in-memory job queue with all its indexes, its invariant, and the contract of the
    port \<open>JobQueue\<close> as the locale \<open>job_queue\<close>, of which the in-memory queue is an interpretation: mutual exclusion of
    lease holders over every sequence of operations, best-first claims, fencing, recovery, finality of an
    acknowledgement, cancellation and idempotent publication.
  \<^item> \<open>Plan\<close>: the planner's graph; acceptance is exactly acyclicity, and the layers are an earliest schedule.
  \<^item> \<open>Evidence\<close> and \<open>Candidate\<close>: tool results, validation reports, patches, reviews and projects; the candidate aggregate
    and the selection policy.
  \<^item> \<open>Store\<close>: tables, repositories and the event log, which reads as a gapless history per run.
  \<^item> \<open>Wire\<close>: the textual forms of the scalars (enumerations, UUIDs, integers, timestamps, JSON values) with a reader and
    a round trip for each. \<open>Mappers\<close>: \<open>infrastructure/database/models.py\<close> and \<open>mappers.py\<close>, every aggregate to its rows and
    back. \<open>Event_Codec\<close>: every event to the log's JSON payload and back. \<open>Redis_Codec\<close>: jobs, workers and events as the
    hashes and stream entries of \<open>infrastructure/redis/codecs.py\<close>.
  \<^item> \<open>Redis_Queue\<close>: the Redis keyspace of a queue, the Lua scripts of \<open>infrastructure/redis/scripts.py\<close> as atomic steps on it, the operations of
    \<open>job_queue.py\<close> over them and the expiry of records, as the second interpretation of the locale \<open>job_queue\<close>.
  \<^item> \<open>Redis_Registry\<close>: the Redis registry, with its reads and writes as separate steps, as the second interpretation of
    \<open>worker_registry\<close> and \<open>pool\<close>, and the distributed lock. \<open>Redis_Bus\<close>: the streams of the Redis event bus and a subscriber's cursor, and
    what the event route makes of them.
  \<^item> \<open>Retry\<close>: the retry policy.
  \<^item> \<open>Orchestrator\<close> (what \<open>_advance\<close> decides and stores), \<open>Progress\<close> (that it never strands a run, completes only reviewed
    candidates and orders the validation stages, and the one decision that cannot be taken) and
    \<open>Execution\<close> (the role handlers, failure handling and dead jobs).
  \<^item> \<open>Operations\<close>: creating and cancelling a run and the maintenance pass.
  \<^item> \<open>Regex\<close> and \<open>Complexity\<close>: a backtracking matcher for the part of \<open>re\<close> the source uses, shown equivalent to a declarative
    semantics, and the complexity heuristic written over it.
  \<^item> \<open>Bus\<close>: the in-process event bus.
  \<^item> \<open>Http_Problems\<close>: how exceptions become problem responses, and the guard of the worker interface. \<open>Queries\<close>: the views and
    the query use cases. \<open>Event_Stream\<close>: the frames of the server-sent event route and its replay-then-follow loop.
  \<^item> \<open>Model_State\<close>: the marker, verification, repair and preparation of the weights on the GPU worker. \<open>Worker_Config\<close>: its
    configuration, the argument vector of the inference server, the wait for it, and the decisions of its commands.
  \<^item> \<open>Paths\<close>: POSIX paths as texts, shared by the GPU worker and the structured output. \<open>Structured\<close>: the extraction of a JSON
    document from a model's answer, the validators of the three schemas, the codec to domain values and the completion
    loop with its repairs; what the planner's schema accepts is what \<open>Plan\<close> accepts, but for titles that only \<open>str.strip\<close> takes for blank.
  \<^item> \<open>Coordinator\<close>: the lock that serialises the work on a run, its waiters and their cancellation. \<open>Executor\<close>: the loop that takes a permit,
    claims and runs jobs, renews their leases and drains, as labelled steps between suspension points; permits are conserved.
  \<^item> \<open>Filesystem\<close>: directories, files and links, the kernel's and Python's resolution of a path. \<open>Workspace_Files\<close>: writing a coder's files, the
    tools that read and edit a file and the containment check they share. \<open>Shell\<close>: \<open>shlex\<close> with its round trip. \<open>Tools\<close>: the registry and
    its role rules, running a command with its limits, and the environment both sandboxes build.
  \<^item> \<open>Worktrees\<close>: the runner of git, the manager that gives each workspace a directory of its own, applying a patch and merging the
    winner, and the git tools.
  \<^item> \<open>Pod\<close>: the specification of a RunPod Pod, its environment and request. \<open>Deployer\<close>: the client of the control plane with its retries and redaction, the
    waits, the smoke test and the commands of the operator.
  \<^item> \<open>Agent\<close>: the worker agent: probing the engine, registration, heartbeats, drain, and what the control plane makes of a heartbeat.
  \<^item> This theory: the properties that span the store, the queue and the aggregates.

  \<^bold>\<open>Conventions.\<close> An aggregate is a record with its event buffer; a method takes and returns it, and a method that may raise
  returns the state it leaves behind together with \<open>Inl\<close> of the exception or \<open>Inr\<close> of the value. Time is an
  integer number of microseconds and is an argument of every operation that reads the clock; identifiers are
  numbers drawn from a supply, standing for random UUIDs. The loops of the source are structural or have a
  termination proof (the claim loop of the queue and the layering loop of the plan); where a loop waits for its
  environment (the replay of the event stream, the waits for the inference server and for a Pod, the acquisition of the Redis lock) or repeats a pattern it has fuel, \<open>None\<close> says that
  more turns were needed, and a lemma says which amount suffices, or the property is about a run that ended. Resolving a path through links is a partial function, its
  \<open>None\<close> the loop of links. Texts are code points below 256; the tools see files as their UTF-8 bytes. Python floats are exact rationals with infinities and \<open>nan\<close> where the
  configuration of the worker reads them (type \<open>pyfloat\<close>), and plain rationals elsewhere. What a client of the event stream meets is a
  timeline of database states and publications, on which opening the subscription, reading a page and reading the status each have their instant. A method
  between two suspension points is one step; sequences of steps are explicit where the order matters (the queue,
  the bus, the aggregates). A role handler is one step too, as is an advance, which the source serialises per run.

  \<^bold>\<open>Ports.\<close> What the modelled code reaches outside itself is an argument: the workspaces of git (record \<open>workspaces\<close>),
  agents, tools, context and worker acquisition of the handlers (record \<open>services\<close>), the assessment a run is created
  with (\<open>assess\<close>, of which the heuristic of \<open>Complexity\<close> is one), the hub, the disk and the clock of the GPU worker, git and the directories it
  works in (record \<open>git_host\<close>), the processes a sandbox starts, the HTTP servers behind the deployer and the agent, \<open>json.loads\<close>, \<open>float\<close> and \<open>:g\<close>. No law is
  assumed of them except where a theorem names it as a hypothesis: what git does in answer to the very commands the source runs (\<open>own_tree\<close>, \<open>abort_undoes\<close>), that the
  hub answers a listing with the sizes of what it serves, that \<open>float\<close> reads what \<open>:g\<close> writes (\<open>floats_print\<close>), that events are published after
  they are committed (\<open>commits_first\<close>).

  \<^bold>\<open>Not modelled.\<close> The model providers and the prompts, the building of the context a model is shown, the parsers of linter and test output, the rest of the HTTP layer, the
  settings of the control plane, logging and telemetry, the inspection of the volume on the GPU worker, and what the commands print. The cancellation of
  a task is modelled where the source handles it (the lock of a run), not at every suspension point. \<open>PROJECT.json\<close> lists the parts with what is left out of each.
\<close>

section \<open>Properties\<close>

text \<open>
  C12. A lapsed lease fails the whole run. A job is stored as QUEUED without a lease when it is published
  (\<open>_persist_jobs\<close>), and neither claiming nor executing it writes the lease to the store. So when the sweep
  hands a lapsed job to \<open>_requeue\<close>, the stored job has no lease to expire, is taken for one that has no attempt
  left, and its run is failed with an infrastructure failure, however many attempts remain.
\<close>

theorem lapsed_lease_fails_the_run:
  assumes "dict_get (s_jobs (w_store w)) i = Some job" and "j_id job = i" and "j_status job = JOB_QUEUED"
    and "j_lease job = None" and "j_failure_kind job = None"
    and "dict_get (s_runs (w_store w)) (j_run_id job) = Some r" and "r_id r = j_run_id job"
    and "\<not> run_is_terminal (r_status r)" and "\<forall>k. ws_release_run ws k = Inr ()"
  shows "\<exists>w' r'. requeue ws w i now = (w', Inr False)
    \<and> dict_get (s_runs (w_store w')) (j_run_id job) = Some r' \<and> r_status r' = RUN_FAILED
    \<and> r_failure_kind r' = Some FK_INFRASTRUCTURE"
proof -
  let ?w1 = "w\<lparr>w_store := commit ((w_store w)\<lparr>s_jobs := dict_set i (job_row job) (s_jobs (w_store w))\<rparr>) (j_events job),
               w_bus := w_bus w @ j_events job\<rparr>"
  let ?job = "job\<lparr>j_events := []\<rparr>"
  have run: "dict_get (s_runs (w_store ?w1)) (j_run_id ?job) = Some r" "r_id r = j_run_id ?job"
    using assms(6,7) by simp_all
  obtain w' r' where "handle_dead_job ws ?w1 ?job now = (w', Inr ())"
    "dict_get (s_runs (w_store w')) (j_run_id ?job) = Some r'" "r_status r' = RUN_FAILED"
    "r_failure_kind r' = Some (or_else (j_failure_kind ?job) FK_INFRASTRUCTURE)"
    using handle_dead_job_fails_run [OF run assms(8), of ws now] assms(9) by blast
  then show ?thesis
    using assms(1-5) by (simp add: requeue_def job_expire_lease_def jobs_update_def Let_def)
qed

theorem lapsed_lease_fails_the_run_witness:
  "\<exists>w' r'. requeue demo_workspaces demo_abandoned_world (JobId 1) 500 = (w', Inr False)
     \<and> dict_get (s_runs (w_store w')) (RunId 2) = Some r' \<and> r_status r' = RUN_FAILED
     \<and> r_failure_kind r' = Some FK_INFRASTRUCTURE"
proof -
  have "\<exists>w' r'. requeue demo_workspaces demo_abandoned_world (JobId 1) 500 = (w', Inr False)
     \<and> dict_get (s_runs (w_store w')) (j_run_id demo_published_job) = Some r' \<and> r_status r' = RUN_FAILED
     \<and> r_failure_kind r' = Some FK_INFRASTRUCTURE"
    by (rule lapsed_lease_fails_the_run [of _ _ demo_published_job "demo_stored_run\<lparr>r_status := RUN_CODING\<rparr>"])
       (simp_all add: run_row_def)
  then show ?thesis by simp
qed

text \<open>
  When the retry policy grants more attempts than the job has (the container builds the policy with its
  default of three, whatever \<open>job_max_attempts\<close> is), the last attempt ends badly: the job is stored DEAD, yet
  its run is not failed, the handler raises \<open>InvalidStateTransitionError\<close>, and the queue offers the dead job for
  yet another attempt.
\<close>

theorem retry_beyond_the_job_budget:
  assumes "\<not> job_is_terminal (j_status job)" and "dict_get (s_jobs (w_store w)) (j_id job) \<noteq> None"
    and "memq_inv (w_queue w)" and "memq_stored (w_queue w) (j_id job) = Some qj" and "queue_holds qj (l_token lease)"
    and "should_retry_job (decide policy (classify e) (j_attempt job))" and "j_max_attempts job \<le> j_attempt job"
  shows "\<exists>w' j k. handle_failure sv ws cfg policy w job lease e now =
                  (w', Inl (InvalidStateTransitionError ''Job'' ''DEAD'' ''QUEUED''))
    \<and> dict_get (s_jobs (w_store w')) (j_id job) = Some j \<and> j_status j = JOB_DEAD
    \<and> s_runs (w_store w') = s_runs (w_store w) \<and> claimable (w_queue w') [j_type qj] k \<and> j_id k = j_id job"
proof -
  let ?job1 = "fst (job_fail job None now (classify e) (sv_text sv e) (Some True))"
  note failed = job_fail_status [OF assms(1), of now "classify e" "sv_text sv e" True]
  have dead: "j_status (job_row ?job1) = JOB_DEAD" using failed(1) assms(7) by simp
  obtain q' k where q': "memq_release (w_queue w) (j_id job) (l_token lease) True = (q', Inr ())"
      "j_id k = j_id job" "claimable q' [j_type qj] k"
    by (rule release_requeues [OF assms(3-5)])
  have raise: "job_requeue (job_row ?job1) now reason = (job_row ?job1, Inl (InvalidStateTransitionError ''Job'' ''DEAD'' ''QUEUED''))"
    for reason using dead by (simp add: job_requeue_def del: job_row_simps)
  show ?thesis
    using assms(2,6) q' dead raise failed(2)
    by (simp add: handle_failure_def jobs_update_def Let_def) (metis q'(2,3))
qed

abbreviation demo_services :: services where
  "demo_services \<equiv> \<lparr>sv_context = (\<lambda>_ _. Inr 10), sv_acquire = (\<lambda>_. Inr (WorkerId 9)),
     sv_plan = (\<lambda>_ _ _. Inl (OtherException ''x'')), sv_code = (\<lambda>_ _ _ _ _. Inl (OtherException ''x'')),
     sv_review = (\<lambda>_ _ _ _ _. Inl (OtherException ''x'')), sv_available_tools = (\<lambda>_. []),
     sv_execute_tool = (\<lambda>_ _ _. Inl (OtherException ''x'')), sv_write_files = (\<lambda>_ _. Inr ()),
     sv_apply_patch = (\<lambda>_ _. Inr ()), sv_diff = (\<lambda>_. Inl (OtherException ''x'')), sv_text = (\<lambda>_. ''error'')\<rparr>"

abbreviation demo_lease :: lease where
  "demo_lease \<equiv> \<lparr>l_job_id = JobId 1, l_holder = WorkerId 9, l_token = demo_token, l_acquired_at = 10, l_expires_at = 110\<rparr>"

abbreviation demo_last_attempt :: "int \<Rightarrow> job" where
  "demo_last_attempt n \<equiv> demo_job\<lparr>j_status := JOB_LEASED, j_attempt := 1, j_max_attempts := n, j_lease := Some demo_lease,
     j_assigned_worker_id := Some (WorkerId 9)\<rparr>"

lemma demo_queue_held:
  "memq_inv demo_claimed_queue"
  "\<exists>qj. memq_stored demo_claimed_queue (JobId 1) = Some qj \<and> queue_holds qj demo_token \<and> j_run_id qj = RunId 2 \<and> j_type qj = CODE"
  using memq_reachable_inv [OF demo_claimed_queue_reachable]
  by (simp_all add: demo_queue_eval memq_stored_def queue_holds_def)

theorem retry_beyond_the_job_budget_witness:
  "\<exists>w' j k. handle_failure demo_services demo_workspaces default_orchestrator_config default_retry_policy demo_abandoned_world
        (demo_last_attempt 1) demo_lease (LLMTimeoutError 5 None) 50 =
        (w', Inl (InvalidStateTransitionError ''Job'' ''DEAD'' ''QUEUED''))
     \<and> dict_get (s_jobs (w_store w')) (j_id (demo_last_attempt 1)) = Some j \<and> j_status j = JOB_DEAD
     \<and> claimable (w_queue w') [CODE] k"
proof -
  obtain qj where qj: "memq_stored demo_claimed_queue (JobId 1) = Some qj" "queue_holds qj demo_token" "j_type qj = CODE"
    using demo_queue_held(2) by blast
  have pre: "\<not> job_is_terminal (j_status (demo_last_attempt 1))"
    "dict_get (s_jobs (w_store demo_abandoned_world)) (j_id (demo_last_attempt 1)) \<noteq> None"
    "memq_inv (w_queue demo_abandoned_world)"
    "memq_stored (w_queue demo_abandoned_world) (j_id (demo_last_attempt 1)) = Some qj"
    "queue_holds qj (l_token demo_lease)"
    "should_retry_job (decide default_retry_policy (classify (LLMTimeoutError 5 None)) (j_attempt (demo_last_attempt 1)))"
    "j_max_attempts (demo_last_attempt 1) \<le> j_attempt (demo_last_attempt 1)"
    using qj demo_queue_held(1)
    by (simp_all add: decide_def should_retry_job_def default_retry_policy_def del: memq_step.simps)
  from retry_beyond_the_job_budget [OF pre, of demo_services demo_workspaces default_orchestrator_config 50]
  show ?thesis unfolding qj(3) by blast
qed

text \<open>
  C13. When the budgets agree, every failure ends the job or queues it again. If the retry policy grants no more
  attempts than the job has, then handling a failure of a job in flight (whatever the exception) returns, and
  afterwards either the job is stored QUEUED and is QUEUED on the queue, or it is stored DEAD and its run has
  reached a terminal status: no run waits for a job that will not come back.
\<close>

theorem failure_never_strands_a_job:
  assumes "\<not> job_is_terminal (j_status job)" and "dict_get (s_jobs (w_store w)) (j_id job) \<noteq> None"
    and "memq_inv (w_queue w)" and "memq_stored (w_queue w) (j_id job) = Some qj" and "queue_holds qj (l_token lease)"
    and "dict_get (s_runs (w_store w)) (j_run_id job) = Some r" and "r_id r = j_run_id job"
    and "rp_max_attempts policy \<le> j_max_attempts job"
    and "rp_max_structured_output_repairs policy \<le> j_max_attempts job"
  shows "\<exists>w' j. handle_failure sv ws cfg policy w job lease e now = (w', Inr ())
    \<and> dict_get (s_jobs (w_store w')) (j_id job) = Some j
    \<and> ((j_status j = JOB_QUEUED \<and> (\<exists>k. memq_stored (w_queue w') (j_id job) = Some k \<and> j_status k = JOB_QUEUED))
       \<or> (j_status j = JOB_DEAD \<and>
          (\<exists>r'. dict_get (s_runs (w_store w')) (j_run_id job) = Some r' \<and> run_is_terminal (r_status r'))))"
  using handle_failure_retries [OF assms(1-5,8,9), of e sv ws cfg now]
    handle_failure_gives_up [OF assms(1-7), of policy e sv ws cfg now]
  by (cases "should_retry_job (decide policy (classify e) (j_attempt job))") blast+

theorem failure_never_strands_a_job_witness:
  "\<exists>w' j. handle_failure demo_services demo_workspaces default_orchestrator_config default_retry_policy demo_abandoned_world
        (demo_last_attempt 3) demo_lease (LLMTimeoutError 5 None) 50 = (w', Inr ())
    \<and> dict_get (s_jobs (w_store w')) (j_id (demo_last_attempt 3)) = Some j \<and> j_status j \<noteq> JOB_LEASED"
proof -
  obtain qj where qj: "memq_stored demo_claimed_queue (JobId 1) = Some qj" "queue_holds qj demo_token"
    using demo_queue_held(2) by blast
  have pre: "\<not> job_is_terminal (j_status (demo_last_attempt 3))"
    "dict_get (s_jobs (w_store demo_abandoned_world)) (j_id (demo_last_attempt 3)) \<noteq> None"
    "memq_inv (w_queue demo_abandoned_world)"
    "memq_stored (w_queue demo_abandoned_world) (j_id (demo_last_attempt 3)) = Some qj"
    "queue_holds qj (l_token demo_lease)"
    "dict_get (s_runs (w_store demo_abandoned_world)) (j_run_id (demo_last_attempt 3)) = Some (demo_stored_run\<lparr>r_status := RUN_CODING\<rparr>)"
    "r_id (demo_stored_run\<lparr>r_status := RUN_CODING\<rparr>) = j_run_id (demo_last_attempt 3)"
    "rp_max_attempts default_retry_policy \<le> j_max_attempts (demo_last_attempt 3)"
    "rp_max_structured_output_repairs default_retry_policy \<le> j_max_attempts (demo_last_attempt 3)"
    using qj demo_queue_held(1) by (simp_all add: default_retry_policy_def run_row_def del: memq_step.simps)
  from failure_never_strands_a_job [OF pre, of demo_services demo_workspaces default_orchestrator_config "LLMTimeoutError 5 None" 50]
  show ?thesis by (elim exE conjE disjE) (auto intro!: exI)
qed

text \<open>
  C14. Cancelling stops everything. For a run that is neither finished nor being cancelled, cancellation
  succeeds and stores the run as CANCELLED; every job and every candidate of the run is stored in a terminal
  state, no job of the run can be claimed from the queue any more, the stored jobs of other runs are
  untouched, and cancelling again (with any reason, at any time) changes nothing and answers the same run.
\<close>

theorem cancel_run_stops_everything:
  assumes keyed: "store_keyed (w_store w)" and inv: "memq_inv (w_queue w)"
    and run: "dict_get (s_runs (w_store w)) rid = Some r"
    and live: "\<not> run_is_terminal (r_status r)" "r_status r \<noteq> RUN_CANCELLING"
  shows "\<exists>w' r'. cancel_run w rid reason now = (w', Inr r')
    \<and> r_status r' = RUN_CANCELLED \<and> dict_get (s_runs (w_store w')) rid = Some r'
    \<and> (\<forall>i j. dict_get (s_jobs (w_store w')) i = Some j \<longrightarrow> j_run_id j = rid \<longrightarrow> job_is_terminal (j_status j))
    \<and> (\<forall>i c. dict_get (s_candidates (w_store w')) i = Some c \<longrightarrow> c_run_id c = rid \<longrightarrow> candidate_is_terminal (c_status c))
    \<and> (\<forall>types j. claimable (w_queue w') types j \<longrightarrow> j_run_id j \<noteq> rid)
    \<and> (\<forall>i j. dict_get (s_jobs (w_store w)) i = Some j \<longrightarrow> j_run_id j \<noteq> rid \<longrightarrow> dict_get (s_jobs (w_store w')) i = Some j)
    \<and> (\<forall>reason' later. cancel_run w' rid reason' later = (w', Inr r'))"
proof -
  let ?js = "map (\<lambda>j. job_cancel j now) (jobs_list_by_run (w_store w) rid)"
  let ?cs = "map (\<lambda>c. cand_cancel c now) (candidates_list_by_run (w_store w) rid)"
  obtain r1 r2 where r: "run_request_cancellation r now reason = (r1, Inr True)" "r_id r1 = rid"
      "settled (run_confirm_cancelled r1 now reason) = Inr r2" "r_id r2 = rid" "r_status r2 = RUN_CANCELLED"
    using run_cancel_live [OF live, of now reason] stored_run_id [OF keyed run] by metis
  obtain s1 where s1: "update_jobs (w_store w) ?js = Inr s1" "s_runs s1 = s_runs (w_store w)"
      "s_candidates s1 = s_candidates (w_store w)"
      "\<And>i. i \<notin> j_id ` set ?js \<Longrightarrow> dict_get (s_jobs s1) i = dict_get (s_jobs (w_store w)) i"
      "\<And>i. i \<in> j_id ` set ?js \<Longrightarrow> \<exists>j \<in> set ?js. j_id j = i \<and> dict_get (s_jobs s1) i = Some (job_row j)"
    by (rule update_jobs_effect [of ?js "w_store w"]) (use listed_jobs [OF keyed] in auto)
  obtain s2 where s2: "update_candidates s1 ?cs = Inr s2" "s_runs s2 = s_runs s1" "s_jobs s2 = s_jobs s1"
      "\<And>i. i \<notin> c_id ` set ?cs \<Longrightarrow> dict_get (s_candidates s2) i = dict_get (s_candidates s1) i"
      "\<And>i. i \<in> c_id ` set ?cs \<Longrightarrow> \<exists>c \<in> set ?cs. c_id c = i \<and> dict_get (s_candidates s2) i = Some (candidate_row c)"
    by (rule update_candidates_effect [of ?cs s1]) (use listed_candidates [OF keyed] s1(3) in auto)
  let ?es = "concat (map c_events ?cs) @ r_events r2"
  let ?s = "commit (s2\<lparr>s_runs := dict_set rid (run_row r2) (s_runs s2)\<rparr>) ?es"
  let ?w = "w\<lparr>w_store := ?s, w_bus := w_bus w @ ?es, w_queue := fst (memq_cancel_run_jobs (w_queue w) rid)\<rparr>"
  have first_call: "cancel_run w rid reason now = (?w, Inr (run_row r2))"
    using run r s1(1,2) s2(1,2) by (simp add: cancel_run_def runs_update_def bind_sum_def Let_def)
  have "job_is_terminal (j_status j)" if "dict_get (s_jobs s1) i = Some j" "j_run_id j = rid" for i j
    using that s1(4,5) [of i] stored_job_listed [OF keyed, of i j]
    by (cases "i \<in> j_id ` set ?js") (auto simp: image_image)
  moreover have "candidate_is_terminal (c_status c)" if "dict_get (s_candidates s2) i = Some c" "c_run_id c = rid" for i c
    using that s2(4,5) [of i] s1(3) stored_candidate_listed [OF keyed, of i c]
    by (cases "i \<in> c_id ` set ?cs") (auto simp: candidate_row_def image_image)
  moreover have "dict_get (s_jobs s1) i = Some j"
    if "dict_get (s_jobs (w_store w)) i = Some j" "j_run_id j \<noteq> rid" for i j
    using that s1(4) [of i] listed_jobs [OF keyed] by fastforce
  moreover have "cancel_run ?w rid reason' later = (?w, Inr (run_row r2))" for reason' later
    using r(5) by (simp add: cancel_run_def run_request_cancellation_def)
  ultimately show ?thesis
    using r(5) s2(3) cancel_run_jobs_not_claimable [OF inv, of rid]
    by (intro exI [of _ ?w] exI [of _ "run_row r2"]) (simp add: first_call)
qed

theorem cancel_run_stops_everything_witness:
  "\<exists>w' r'. cancel_run demo_abandoned_world (RunId 2) None 300 = (w', Inr r') \<and> r_status r' = RUN_CANCELLED
     \<and> (\<forall>types j. claimable (w_queue w') types j \<longrightarrow> j_run_id j \<noteq> RunId 2)
     \<and> (\<forall>reason' later. cancel_run w' (RunId 2) reason' later = (w', Inr r'))"
proof -
  have pre: "store_keyed (w_store demo_abandoned_world)" "memq_inv (w_queue demo_abandoned_world)"
    "dict_get (s_runs (w_store demo_abandoned_world)) (RunId 2) = Some (demo_stored_run\<lparr>r_status := RUN_CODING\<rparr>)"
    "\<not> run_is_terminal (r_status (demo_stored_run\<lparr>r_status := RUN_CODING\<rparr>))"
    "r_status (demo_stored_run\<lparr>r_status := RUN_CODING\<rparr>) \<noteq> RUN_CANCELLING"
    using demo_queue_held(1) by (simp_all add: store_keyed_def run_row_def del: memq_step.simps)
  from cancel_run_stops_everything [OF pre, of None 300] show ?thesis by blast
qed

text \<open>
  Creating a run is idempotent by key. A creation that returns with a key leaves a world in which every
  later creation with that key, for whatever project, objective, limits or time, returns the same run and
  changes nothing; and a run that is new is stored as CREATED with between one candidate and the configured
  maximum, announced by exactly its own events, with no job opened yet.
\<close>

theorem create_run_idempotent:
  assumes key: "cr_idempotency_key cmd = Some k" and call: "create_run assess limits w cmd now = (w', Inr r)"
  shows "(\<forall>assess' limits' cmd' later. cr_idempotency_key cmd' = Some k \<longrightarrow>
            create_run assess' limits' w' cmd' later = (w', Inr r))
    \<and> (runs_find_by_idempotency_key (w_store w) k = None \<longrightarrow>
         r_status r = RUN_CREATED \<and> 1 \<le> r_candidate_count r \<and> r_candidate_count r \<le> max_parallel_candidates limits
       \<and> dict_get (s_runs (w_store w')) (r_id r) = Some r \<and> s_jobs (w_store w') = s_jobs (w_store w)
       \<and> w_queue w' = w_queue w \<and> (\<exists>e. w_bus w' = w_bus w @ [e]))"
proof (cases "runs_find_by_idempotency_key (w_store w) k")
  case (Some r0)
  then show ?thesis using key call by (simp add: create_run_def)
next
  case None
  obtain r1 where r1: "r = run_row r1"
      "w' = w\<lparr>w_store := commit (runs_add (w_store w) r1) (r_events r1), w_bus := w_bus w @ r_events r1,
              w_supply := w_supply w + 1\<rparr>"
      "r_idempotency_key r1 = Some k" "r_status r1 = RUN_CREATED" "1 \<le> r_candidate_count r1"
      "r_candidate_count r1 \<le> max_parallel_candidates limits" "length (r_events r1) = 1"
    by (rule create_run_new [OF call key None])
  have "runs_find_by_idempotency_key (w_store w') k = Some r"
    using None r1(1-3) by (simp add: runs_find_by_idempotency_key_def runs_add_def find_set_new)
  then show ?thesis
    using None r1 by (auto simp: create_run_def runs_add_def length_Suc_conv)
qed

abbreviation demo_command :: create_run_command where
  "demo_command \<equiv> \<lparr>cr_project_id = ProjectId 3, cr_objective = ''fix'', cr_candidate_count = None,
     cr_idempotency_key = Some (IdempotencyKey ''key''), cr_metadata = []\<rparr>"

abbreviation demo_assess :: "string \<Rightarrow> int \<Rightarrow> assessment" where
  "demo_assess \<equiv> (\<lambda>_ _. \<lparr>as_complexity = SIMPLE, as_recommended_candidates = 1, as_rationale = ''x''\<rparr>)"

theorem create_run_idempotent_witness:
  "\<exists>w' r. create_run demo_assess default_run_limits demo_abandoned_world demo_command 5 = (w', Inr r)
     \<and> r_status r = RUN_CREATED
     \<and> create_run demo_assess default_run_limits w' demo_command 6 = (w', Inr r)"
proof -
  have key: "cr_idempotency_key demo_command = Some (IdempotencyKey ''key'')" by simp
  have none: "runs_find_by_idempotency_key (w_store demo_abandoned_world) (IdempotencyKey ''key'') = None"
    by (simp add: runs_find_by_idempotency_key_def run_row_def)
  have "\<exists>w' r. create_run demo_assess default_run_limits demo_abandoned_world demo_command 5 = (w', Inr r)"
    by (simp add: create_run_def run_create_def mk_run_def default_run_limits_def requested_candidates_def
        strip_eq_Nil_iff py_isspace_def runs_find_by_idempotency_key_def run_row_def Let_def)
  then obtain w' r where call: "create_run demo_assess default_run_limits demo_abandoned_world demo_command 5 = (w', Inr r)"
    by blast
  from create_run_idempotent [OF key call] call key none show ?thesis by blast
qed

end
